(* ===== verification/Rust_Prelude.thy ===== *)
theory Rust_Prelude
  imports Main "HOL-Library.Sublist" "HOL-Library.Word"
begin

text \<open>
  The shared vocabulary of the development: Rust strings as lists of Unicode
  scalar values with the byte offsets of their UTF-8 encoding, the operations of
  \<open>str\<close> that the sources call, saturating and checked machine arithmetic, and
  two interface locales that several components interpret: a codec between typed
  values and their wire spelling, and a state machine with an invariant.

  A Rust \<open>String\<close> is a list of scalar values (\<open>rstr\<close>). The length and the
  offsets that Rust measures in bytes are computed from the UTF-8 width of every
  scalar, so that slicing inside a character, which panics, is visible in the model.
\<close>

named_theorems str_simps \<open>evaluation of the string operations\<close>

section \<open>Strings\<close>

type_synonym rchar = nat
type_synonym rstr = "rchar list"

definition lit :: "string \<Rightarrow> rstr" where
  "lit s = map of_char s"

lemma lit_inject: "lit a = lit b \<longleftrightarrow> a = b"
  by (simp add: lit_def inj_map_eq_map inj_def)

abbreviation (input) LF :: rchar where "LF \<equiv> 10"
abbreviation (input) CR :: rchar where "CR \<equiv> 13"

text \<open>Number of bytes of the UTF-8 encoding of a scalar value.\<close>

definition utf8_width :: "rchar \<Rightarrow> nat" where
  "utf8_width c = (if c < 128 then 1 else if c < 2048 then 2 else if c < 65536 then 3 else 4)"

text \<open>\<open>str::len\<close>, in bytes.\<close>

fun str_len :: "rstr \<Rightarrow> nat" where
  "str_len [] = 0"
| "str_len (c # s) = utf8_width c + str_len s"

text \<open>
  \<open>str::split_at\<close> and the slices \<open>&s[..n]\<close> and \<open>&s[n..]\<close>: \<open>None\<close> is the panic
  of an offset that is out of range or inside a character.
\<close>

fun str_split_at :: "rstr \<Rightarrow> nat \<Rightarrow> (rstr \<times> rstr) option" where
  "str_split_at s 0 = Some ([], s)"
| "str_split_at [] (Suc n) = None"
| "str_split_at (c # s) (Suc n) =
     (if Suc n < utf8_width c then None
      else map_option (\<lambda>(a, b). (c # a, b)) (str_split_at s (Suc n - utf8_width c)))"

definition is_char_boundary :: "rstr \<Rightarrow> nat \<Rightarrow> bool" where
  "is_char_boundary s n \<longleftrightarrow> str_split_at s n \<noteq> None"

text \<open>\<open>char::is_whitespace\<close>: the Unicode \<open>White_Space\<close> property.\<close>

definition is_whitespace :: "rchar \<Rightarrow> bool" where
  "is_whitespace c \<longleftrightarrow>
     (9 \<le> c \<and> c \<le> 13) \<or> c = 32 \<or> c = 133 \<or> c = 160 \<or> c = 5760 \<or>
     (8192 \<le> c \<and> c \<le> 8202) \<or> c = 8232 \<or> c = 8233 \<or> c = 8239 \<or> c = 8287 \<or> c = 12288"

definition trim_start :: "rstr \<Rightarrow> rstr" where
  "trim_start s = dropWhile is_whitespace s"

definition trim_end :: "rstr \<Rightarrow> rstr" where
  "trim_end s = rev (dropWhile is_whitespace (rev s))"

definition trim :: "rstr \<Rightarrow> rstr" where
  "trim s = trim_start (trim_end s)"

definition starts_with :: "rstr \<Rightarrow> rstr \<Rightarrow> bool" where
  "starts_with s p \<longleftrightarrow> take (length p) s = p"

definition ends_with :: "rstr \<Rightarrow> rstr \<Rightarrow> bool" where
  "ends_with s p \<longleftrightarrow> starts_with (rev s) (rev p)"

definition strip_prefix :: "rstr \<Rightarrow> rstr \<Rightarrow> rstr option" where
  "strip_prefix s p = (if starts_with s p then Some (drop (length p) s) else None)"

text \<open>\<open>str::split\<close> on the characters that satisfy a predicate: at least one segment.\<close>

fun split_by :: "(rchar \<Rightarrow> bool) \<Rightarrow> rstr \<Rightarrow> rstr list" where
  "split_by P [] = [[]]"
| "split_by P (x # xs) =
     (if P x then [] # split_by P xs
      else (case split_by P xs of [] \<Rightarrow> [[x]] | y # ys \<Rightarrow> (x # y) # ys))"

abbreviation split_char :: "rchar \<Rightarrow> rstr \<Rightarrow> rstr list" where
  "split_char c \<equiv> split_by (\<lambda>x. x = c)"

text \<open>\<open>[T]::join\<close>.\<close>

fun join :: "rstr \<Rightarrow> rstr list \<Rightarrow> rstr" where
  "join sep [] = []"
| "join sep [x] = x"
| "join sep (x # y # ys) = x @ sep @ join sep (y # ys)"

definition strip_cr :: "rstr \<Rightarrow> rstr" where
  "strip_cr s = (if s \<noteq> [] \<and> last s = CR then butlast s else s)"

text \<open>
  \<open>str::lines\<close>: every segment ended by a line feed, without it and without one
  carriage return before it, and the last segment as it is when it is not empty.
\<close>

definition str_lines :: "rstr \<Rightarrow> rstr list" where
  "str_lines s = (let ps = split_char LF s in
     map strip_cr (butlast ps) @ (if last ps = [] then [] else [last ps]))"

definition count_lf :: "rstr \<Rightarrow> nat" where
  "count_lf s = length (filter (\<lambda>c. c = LF) s)"

text \<open>
  \<open>str::match_indices\<close>: the byte offsets of the non-overlapping occurrences of a
  pattern, from left to right. The empty pattern matches at every character boundary.
\<close>

function match_indices_from :: "rstr \<Rightarrow> nat \<Rightarrow> rstr \<Rightarrow> nat list" where
  "match_indices_from pat off s =
     (if pat = [] then
        (case s of [] \<Rightarrow> [off] | c # r \<Rightarrow> off # match_indices_from pat (off + utf8_width c) r)
      else if starts_with s pat then
        off # match_indices_from pat (off + str_len pat) (drop (length pat) s)
      else (case s of [] \<Rightarrow> [] | c # r \<Rightarrow> match_indices_from pat (off + utf8_width c) r))"
  by pat_completeness auto
termination
proof (relation "measure (\<lambda>(pat, off, s). length s)", goal_cases)
  case (3 pat off s)
  then show ?case by (cases s) (auto simp: starts_with_def)
qed auto

declare match_indices_from.simps [simp del]

definition match_indices :: "rstr \<Rightarrow> rstr \<Rightarrow> nat list" where
  "match_indices s pat = match_indices_from pat 0 s"

text \<open>The byte offsets of the line feeds of a string, and their number in a byte range.\<close>

fun lf_offsets :: "nat \<Rightarrow> rstr \<Rightarrow> nat list" where
  "lf_offsets off [] = []"
| "lf_offsets off (c # s) = (if c = LF then [off] else []) @ lf_offsets (off + utf8_width c) s"

definition lf_between :: "rstr \<Rightarrow> nat \<Rightarrow> nat \<Rightarrow> nat" where
  "lf_between s a b = length (filter (\<lambda>i. a \<le> i \<and> i < b) (lf_offsets 0 s))"

text \<open>\<open>text.replace("\r\n", "\n")\<close> and \<open>text.replace('\n', "\r\n")\<close>.\<close>

fun replace_crlf :: "rstr \<Rightarrow> rstr" where
  "replace_crlf [] = []"
| "replace_crlf [x] = [x]"
| "replace_crlf (x # y # xs) =
     (if x = CR \<and> y = LF then LF # replace_crlf xs else x # replace_crlf (y # xs))"

fun replace_lf :: "rstr \<Rightarrow> rstr" where
  "replace_lf [] = []"
| "replace_lf (x # xs) = (if x = LF then CR # LF # replace_lf xs else x # replace_lf xs)"

definition to_ascii_lowercase :: "rstr \<Rightarrow> rstr" where
  "to_ascii_lowercase s = map (\<lambda>c. if 65 \<le> c \<and> c \<le> 90 then c + 32 else c) s"

definition is_ascii_digit :: "rchar \<Rightarrow> bool" where
  "is_ascii_digit c \<longleftrightarrow> 48 \<le> c \<and> c \<le> 57"

definition is_ascii_alphanumeric :: "rchar \<Rightarrow> bool" where
  "is_ascii_alphanumeric c \<longleftrightarrow>
     is_ascii_digit c \<or> (65 \<le> c \<and> c \<le> 90) \<or> (97 \<le> c \<and> c \<le> 122)"

definition is_lower_hex :: "rchar \<Rightarrow> bool" where
  "is_lower_hex c \<longleftrightarrow> is_ascii_digit c \<or> (97 \<le> c \<and> c \<le> 102)"

definition is_ascii_hexdigit :: "rchar \<Rightarrow> bool" where
  "is_ascii_hexdigit c \<longleftrightarrow> is_ascii_digit c \<or> (65 \<le> c \<and> c \<le> 70) \<or> (97 \<le> c \<and> c \<le> 102)"

text \<open>\<open>char::is_control\<close>: the general category \<open>Cc\<close>.\<close>

definition is_control :: "rchar \<Rightarrow> bool" where
  "is_control c \<longleftrightarrow> c < 32 \<or> (127 \<le> c \<and> c < 160)"

text \<open>\<open>str::contains\<close> with a string pattern.\<close>

definition str_contains :: "rstr \<Rightarrow> rstr \<Rightarrow> bool" where
  "str_contains s p \<longleftrightarrow> sublist p s"

text \<open>\<open>Option::is_none_or\<close> and \<open>Option::is_some_and\<close>.\<close>

definition opt_all :: "('a \<Rightarrow> bool) \<Rightarrow> 'a option \<Rightarrow> bool" where
  "opt_all P v \<longleftrightarrow> (case v of None \<Rightarrow> True | Some x \<Rightarrow> P x)"

definition opt_ex :: "('a \<Rightarrow> bool) \<Rightarrow> 'a option \<Rightarrow> bool" where
  "opt_ex P v \<longleftrightarrow> (case v of None \<Rightarrow> False | Some x \<Rightarrow> P x)"

lemma opt_all_simps [simp]: "opt_all P None" "opt_all P (Some x) \<longleftrightarrow> P x"
  by (simp_all add: opt_all_def)

lemma opt_ex_simps [simp]: "\<not> opt_ex P None" "opt_ex P (Some x) \<longleftrightarrow> P x"
  by (simp_all add: opt_ex_def)

text \<open>Decimal rendering of an unsigned integer.\<close>

fun show_nat :: "nat \<Rightarrow> rstr" where
  "show_nat n = (if n < 10 then [48 + n] else show_nat (n div 10) @ [48 + n mod 10])"

declare show_nat.simps [simp del]

lemmas [str_simps] = lit_def utf8_width_def is_whitespace_def trim_start_def trim_end_def trim_def
  starts_with_def ends_with_def strip_prefix_def

section \<open>Machine arithmetic\<close>

text \<open>\<open>usize\<close> values (64-bit) as naturals, \<open>i64\<close> values as integers.\<close>

definition usize_max :: nat where "usize_max = 2 ^ 64 - 1"
definition i64_max :: int where "i64_max = 2 ^ 63 - 1"
definition i64_min :: int where "i64_min = - (2 ^ 63)"

definition sat_add :: "nat \<Rightarrow> nat \<Rightarrow> nat" where
  "sat_add a b = min (a + b) usize_max"

definition checked_add :: "nat \<Rightarrow> nat \<Rightarrow> nat option" where
  "checked_add a b = (if a + b \<le> usize_max then Some (a + b) else None)"

definition i64_sat :: "int \<Rightarrow> int" where
  "i64_sat z = max i64_min (min i64_max z)"

definition i64_sat_add :: "int \<Rightarrow> int \<Rightarrow> int" where
  "i64_sat_add a b = i64_sat (a + b)"

definition i64_sat_sub :: "int \<Rightarrow> int \<Rightarrow> int" where
  "i64_sat_sub a b = i64_sat (a - b)"

lemma sat_add_exact [simp]: "a + b \<le> usize_max \<Longrightarrow> sat_add a b = a + b"
  by (simp add: sat_add_def)

lemma sat_add_le: "sat_add a b \<le> usize_max" "sat_add a b \<le> a + b"
  by (simp_all add: sat_add_def)

lemma usize_max_pos [simp]: "0 < usize_max" "Suc 0 \<le> usize_max" "1 < usize_max"
  by (simp_all add: usize_max_def)

lemma sat_add_eq_1_iff: "sat_add c 1 = 1 \<longleftrightarrow> c = 0"
  using usize_max_pos by (auto simp: sat_add_def min_def)

section \<open>Lemmas on strings\<close>

lemma utf8_width_pos [simp]: "0 < utf8_width c" "utf8_width c \<noteq> 0"
  by (auto simp: utf8_width_def)

lemma utf8_width_le_4 [simp]: "utf8_width c \<le> 4"
  by (auto simp: utf8_width_def)

lemma str_len_append [simp]: "str_len (a @ b) = str_len a + str_len b"
  by (induction a) auto

lemma str_len_eq_0 [simp]: "str_len s = 0 \<longleftrightarrow> s = []"
  by (cases s) auto

lemma length_le_str_len: "length s \<le> str_len s"
proof (induction s)
  case (Cons c s)
  moreover have "1 \<le> utf8_width c" by (simp add: utf8_width_def)
  ultimately show ?case by (simp only: length_Cons str_len.simps)
qed simp

lemma str_split_at_Some:
  "str_split_at s n = Some (a, b) \<Longrightarrow> s = a @ b \<and> str_len a = n"
proof (induction s n arbitrary: a b rule: str_split_at.induct)
  case (3 c s n)
  then show ?case by (fastforce split: if_splits)
qed auto

lemma str_split_at_append [simp]: "str_split_at (a @ b) (str_len a) = Some (a, b)"
proof (induction a)
  case Nil
  then show ?case by (cases b) auto
next
  case (Cons c a)
  obtain k where k: "utf8_width c + str_len a = Suc k"
    using utf8_width_pos(1) [of c] by (cases "utf8_width c + str_len a") auto
  then have "Suc k - utf8_width c = str_len a" and "\<not> Suc k < utf8_width c" by arith+
  with Cons k show ?case by simp
qed

lemma str_split_at_full [simp]: "str_split_at s (str_len s) = Some (s, [])"
  using str_split_at_append [of s "[]"] by simp

lemma is_char_boundary_full [simp]: "is_char_boundary s (str_len s)"
  by (simp add: is_char_boundary_def)

lemma split_by_not_Nil [simp]: "split_by P s \<noteq> []"
  by (induction s) (auto split: list.splits)

lemma split_by_no_sep: "(\<And>x. x \<in> set s \<Longrightarrow> \<not> P x) \<Longrightarrow> split_by P s = [s]"
  by (induction s) auto

lemma split_by_append_sep:
  "P c \<Longrightarrow> split_by P (a @ c # b) = split_by P a @ split_by P b"
proof (induction a)
  case (Cons x a)
  then show ?case by (cases "split_by P a") auto
qed simp

lemma split_char_append_sep:
  "c \<notin> set a \<Longrightarrow> split_char c (a @ c # b) = a # split_char c b"
  by (induction a) auto

lemma join_split_char: "join [c] (split_char c s) = s"
proof (induction s)
  case (Cons x xs)
  then show ?case
    by (cases "split_char c xs"; cases "tl (split_char c xs)") (auto simp: neq_Nil_conv)
qed simp

lemma split_by_parts: "p \<in> set (split_by P s) \<Longrightarrow> x \<in> set p \<Longrightarrow> \<not> P x"
proof (induction s arbitrary: p)
  case (Cons y ys)
  then show ?case by (cases "split_by P ys") (fastforce split: if_splits)+
qed simp

lemma split_char_join:
  "ps \<noteq> [] \<Longrightarrow> (\<And>p. p \<in> set ps \<Longrightarrow> c \<notin> set p) \<Longrightarrow> split_char c (join [c] ps) = ps"
proof (induction "[c]" ps rule: join.induct)
  case (2 x)
  then show ?case by (auto intro!: split_by_no_sep)
next
  case (3 x y ys)
  then show ?case by (simp add: split_char_append_sep)
qed auto

lemma split_by_chars: "p \<in> set (split_by P s) \<Longrightarrow> set p \<subseteq> set s"
proof (induction s arbitrary: p)
  case (Cons x xs)
  then show ?case by (cases "split_by P xs") (fastforce split: if_splits)+
qed simp

lemma join_Cons: "ps \<noteq> [] \<Longrightarrow> join sep (p # ps) = p @ sep @ join sep ps"
  by (cases ps) auto

lemma join_snoc: "ps \<noteq> [] \<Longrightarrow> join sep (ps @ [p]) = join sep ps @ sep @ p"
  by (induction sep ps rule: join.induct) (auto simp: join_Cons)

lemma set_join: "x \<in> set (join sep ps) \<Longrightarrow> x \<in> set sep \<or> (\<exists>p \<in> set ps. x \<in> set p)"
  by (induction sep ps rule: join.induct) auto

lemma length_split_by: "length (split_by P s) = Suc (length (filter P s))"
  by (induction s) (auto split: list.splits)

lemma starts_with_append [simp]: "starts_with (p @ s) p"
  by (simp add: starts_with_def)

lemma starts_with_prefix: "starts_with s p \<longleftrightarrow> prefix p s"
  unfolding starts_with_def prefix_def
  by (metis append_eq_conv_conj append_take_drop_id)

lemma strip_prefix_Some: "strip_prefix s p = Some r \<longleftrightarrow> s = p @ r"
  by (auto simp: strip_prefix_def starts_with_def) (metis append_take_drop_id)

lemma trim_end_idem [simp]: "trim_end (trim_end s) = trim_end s"
  by (simp add: trim_end_def)

lemma trim_end_trim: "trim_end (trim s) = trim s"
proof (cases "trim s = []")
  case False
  define t where "t = trim_end s"
  have tr: "trim s = dropWhile is_whitespace t" by (simp add: trim_def trim_start_def t_def)
  have "suffix (trim s) t" unfolding tr by (rule suffix_dropWhile)
  then have l: "last (trim s) = last t" using False by (auto simp: suffix_def)
  have "t \<noteq> []" using False tr by auto
  have "\<not> is_whitespace (last t)"
  proof -
    have "rev t = dropWhile is_whitespace (rev s)" by (simp add: t_def trim_end_def)
    then show ?thesis using \<open>t \<noteq> []\<close> hd_dropWhile [of is_whitespace "rev s"]
      by (metis hd_rev rev_is_Nil_conv)
  qed
  with l False show ?thesis
    by (cases "trim s" rule: rev_cases) (auto simp: trim_end_def)
qed (simp add: trim_end_def)

lemma trim_idem [simp]: "trim (trim s) = trim s"
proof -
  have "trim (trim s) = trim_start (trim s)" by (simp add: trim_def [of "trim s"] trim_end_trim)
  then show ?thesis by (simp add: trim_start_def trim_def)
qed

lemma trim_end_last: "s \<noteq> [] \<Longrightarrow> \<not> is_whitespace (last s) \<Longrightarrow> trim_end s = s"
  by (cases s rule: rev_cases) (auto simp: trim_end_def)

lemma trim_end_Cons: "\<not> is_whitespace c \<Longrightarrow> \<exists>t. trim_end (c # s) = c # t"
  by (auto simp: trim_end_def dropWhile_append) (metis rev_rev_ident)

lemma trim_Cons: "\<not> is_whitespace c \<Longrightarrow> trim (c # s) \<noteq> []"
  using trim_end_Cons [of c s] by (auto simp: trim_def trim_start_def)

lemma trim_fixed:
  assumes "trim s = s" "s \<noteq> []"
  shows "\<not> is_whitespace (hd s)" "\<not> is_whitespace (last s)"
proof -
  have "trim_end s = s" using assms(1) trim_end_trim by metis
  then have "dropWhile is_whitespace s = s" using assms(1) by (simp add: trim_def trim_start_def)
  then show "\<not> is_whitespace (hd s)" using assms(2) hd_dropWhile by metis
  have "dropWhile is_whitespace (rev s) = rev s"
    using \<open>trim_end s = s\<close> unfolding trim_end_def by (metis rev_swap)
  then show "\<not> is_whitespace (last s)" using assms(2) hd_dropWhile by (metis hd_rev rev_is_Nil_conv)
qed

lemma trim_end_append_fixed: "trim p = p \<Longrightarrow> p \<noteq> [] \<Longrightarrow> trim_end (a @ p) = a @ p"
  using trim_fixed(2) by (intro trim_end_last) auto

lemma trim_space_fixed: "trim p = p \<Longrightarrow> p \<noteq> [] \<Longrightarrow> trim (32 # p) = p"
proof -
  assume p: "trim p = p" "p \<noteq> []"
  have "trim_end (32 # p) = 32 # p" using trim_end_append_fixed [OF p, of "[32]"] by simp
  moreover have "trim_start p = p" using trim_fixed(1) [OF p] by (cases p) (auto simp: trim_start_def)
  ultimately show ?thesis by (simp add: trim_def trim_start_def is_whitespace_def)
qed

lemma set_trim_end: "set (trim_end s) \<subseteq> set s"
  unfolding trim_end_def using set_dropWhileD by fastforce

lemma set_trim: "set (trim s) \<subseteq> set s"
  unfolding trim_def trim_start_def using set_dropWhileD set_trim_end by fastforce

lemma replace_crlf_no_cr: "CR \<notin> set s \<Longrightarrow> replace_crlf s = s"
  by (induction s rule: replace_crlf.induct) auto

lemma replace_lf_eq_Nil: "replace_lf s = [] \<longleftrightarrow> s = []"
  by (cases s) auto

lemma replace_crlf_replace_lf: "CR \<notin> set s \<Longrightarrow> replace_crlf (replace_lf s) = s"
proof (induction s)
  case (Cons x xs)
  then show ?case by (cases "replace_lf xs") auto
qed simp

lemma match_indices_from_Nil [simp]:
  "match_indices_from pat off [] = (if pat = [] then [off] else [])"
  by (subst match_indices_from.simps) (simp add: starts_with_def)

lemma match_indices_from_Cons:
  "match_indices_from pat off (c # r) =
     (if pat \<noteq> [] \<and> starts_with (c # r) pat
      then off # match_indices_from pat (off + str_len pat) (drop (length pat) (c # r))
      else (if pat = [] then [off] else []) @ match_indices_from pat (off + utf8_width c) r)"
  by (subst match_indices_from.simps) simp

lemma match_indices_from_nonempty:
  "pat \<noteq> [] \<Longrightarrow> match_indices_from pat off s =
     (if starts_with s pat then off # match_indices_from pat (off + str_len pat) (drop (length pat) s)
      else (case s of [] \<Rightarrow> [] | c # r \<Rightarrow> match_indices_from pat (off + utf8_width c) r))"
  by (subst match_indices_from.simps) simp

lemma match_indices_from_sound:
  assumes "pat \<noteq> []" and "i \<in> set (match_indices_from pat off s)"
  shows "\<exists>a b. s = a @ pat @ b \<and> i = off + str_len a"
  using assms
proof (induction pat off s rule: match_indices_from.induct)
  case (1 pat off s)
  show ?case
  proof (cases "starts_with s pat")
    case True
    then have s: "s = pat @ drop (length pat) s"
      by (metis append_take_drop_id starts_with_def)
    from True "1.prems" have "i = off \<or> i \<in> set (match_indices_from pat (off + str_len pat) (drop (length pat) s))"
      by (simp add: match_indices_from_nonempty [of pat off s])
    then show ?thesis
    proof
      assume "i = off"
      with s show ?thesis
        by (intro exI [of _ "[]"] exI [of _ "drop (length pat) s"]) simp
    next
      assume "i \<in> set (match_indices_from pat (off + str_len pat) (drop (length pat) s))"
      with "1.IH"(2) "1.prems"(1) True obtain a b
        where "drop (length pat) s = a @ pat @ b" and "i = off + str_len pat + str_len a"
        by blast
      with s show ?thesis by (intro exI [of _ "pat @ a"] exI [of _ b]) auto
    qed
  next
    case False
    with "1.prems" obtain c r where s: "s = c # r"
      and i: "i \<in> set (match_indices_from pat (off + utf8_width c) r)"
      by (auto simp: match_indices_from_nonempty [of pat off s] split: list.splits)
    with "1.IH"(3) "1.prems"(1) False obtain a b
      where "r = a @ pat @ b" and "i = off + utf8_width c + str_len a" by blast
    with s show ?thesis by (intro exI [of _ "c # a"] exI [of _ b]) auto
  qed
qed

lemma match_indices_from_ge: "i \<in> set (match_indices_from pat off s) \<Longrightarrow> off \<le> i"
proof (induction pat off s rule: match_indices_from.induct)
  case (1 pat off s)
  show ?case
  proof (cases "pat \<noteq> [] \<and> starts_with s pat")
    case True
    with "1.prems" 1(2) show ?thesis by (auto simp: match_indices_from.simps [of pat off s])
  next
    case False
    then show ?thesis
    proof (cases s)
      case (Cons c r)
      with False "1.prems" 1(1,3) show ?thesis
        by (cases "pat = []") (auto simp: match_indices_from_Cons dest: add_leD1)
    qed (use "1.prems" in \<open>auto split: if_splits\<close>)
  qed
qed

lemma match_indices_from_gt:
  assumes "i \<in> set (match_indices_from pat (off + Suc k) s)"
  shows "off < i"
  using match_indices_from_ge [OF assms] by simp

lemma match_indices_from_sorted: "sorted_wrt (<) (match_indices_from pat off s)"
proof (induction pat off s rule: match_indices_from.induct)
  case (1 pat off s)
  have w: "\<exists>k. utf8_width c = Suc k" for c by (simp add: utf8_width_def)
  have p: "pat \<noteq> [] \<Longrightarrow> \<exists>k. str_len pat = Suc k" by (cases "str_len pat") auto
  show ?case
  proof (cases s)
    case Nil
    then show ?thesis by simp
  next
    case (Cons c r)
    show ?thesis
    proof (cases "pat \<noteq> [] \<and> starts_with s pat")
      case True
      with p obtain k where "str_len pat = Suc k" by blast
      with True 1(2) show ?thesis
        by (auto simp: match_indices_from.simps [of pat off s] intro: match_indices_from_gt)
    next
      case False
      obtain k where "utf8_width c = Suc k" using w by blast
      moreover have "sorted_wrt (<) (match_indices_from pat (off + utf8_width c) r)"
        using False 1(1,3) Cons by blast
      ultimately show ?thesis using False Cons
        by (auto simp: match_indices_from_Cons intro: match_indices_from_gt [of _ _ off k r])
    qed
  qed
qed

lemma match_indices_sound:
  "pat \<noteq> [] \<Longrightarrow> i \<in> set (match_indices s pat) \<Longrightarrow> \<exists>a b. s = a @ pat @ b \<and> i = str_len a"
  using match_indices_from_sound [of pat i 0 s] by (simp add: match_indices_def)

lemma match_indices_sorted: "sorted_wrt (<) (match_indices s pat)"
  by (simp add: match_indices_def match_indices_from_sorted)

lemma lf_offsets_append: "lf_offsets off (a @ b) = lf_offsets off a @ lf_offsets (off + str_len a) b"
  by (induction a arbitrary: off) (auto simp: add.assoc)

lemma lf_offsets_range: "i \<in> set (lf_offsets off s) \<Longrightarrow> off \<le> i \<and> i < off + str_len s"
proof (induction s arbitrary: off)
  case (Cons c s)
  from Cons.prems consider "i = off" | "i \<in> set (lf_offsets (off + utf8_width c) s)"
    by (auto split: if_splits)
  then show ?case
  proof cases
    case 2
    then show ?thesis using Cons.IH [of "off + utf8_width c"] by auto
  qed simp
qed simp

lemma length_lf_offsets: "length (lf_offsets off s) = count_lf s"
  by (induction s arbitrary: off) (auto simp: count_lf_def)

lemma count_lf_append [simp]: "count_lf (a @ b) = count_lf a + count_lf b"
  by (simp add: count_lf_def)

lemma count_lf_le: "count_lf s \<le> str_len s"
  unfolding count_lf_def by (rule order_trans [OF length_filter_le length_le_str_len])

lemma lf_between_prefix: "lf_between (a @ b) 0 (str_len a) = count_lf a"
proof -
  have "filter (\<lambda>i. 0 \<le> i \<and> i < str_len a) (lf_offsets 0 a) = lf_offsets 0 a"
    by (rule filter_True) (auto dest: lf_offsets_range)
  moreover have "filter (\<lambda>i. 0 \<le> i \<and> i < str_len a) (lf_offsets (str_len a) b) = []"
    by (rule filter_False) (auto dest: lf_offsets_range)
  ultimately show ?thesis by (simp add: lf_between_def lf_offsets_append length_lf_offsets)
qed

lemma lf_between_split:
  "a \<le> b \<Longrightarrow> b \<le> c \<Longrightarrow> lf_between s a b + lf_between s b c = lf_between s a c"
proof -
  assume "a \<le> b" "b \<le> c"
  then have "length (filter (\<lambda>i. a \<le> i \<and> i < b) xs) + length (filter (\<lambda>i. b \<le> i \<and> i < c) xs)
      = length (filter (\<lambda>i. a \<le> i \<and> i < c) xs)" for xs
    by (induction xs) auto
  then show ?thesis by (simp add: lf_between_def)
qed

lemma filter_eq_Cons_first: "filter P xs = y # ys \<Longrightarrow> P y \<and> y \<in> set xs"
  by (auto simp: filter_eq_Cons_iff)

section \<open>Codecs\<close>

text \<open>
  The interface between a typed value and its wire spelling: a value is decoded
  from exactly one spelling, the one the encoder writes. \<open>valid\<close> is the set of
  values the encoder is used on.
\<close>

locale codec =
  fixes encode :: "'a \<Rightarrow> rstr"
    and decode :: "rstr \<Rightarrow> 'a option"
    and valid :: "'a \<Rightarrow> bool"
  assumes decode_encode: "valid x \<Longrightarrow> decode (encode x) = Some x"
    and encode_decode: "decode s = Some x \<Longrightarrow> encode x = s \<and> valid x"
begin

lemma encode_inj: "valid x \<Longrightarrow> valid y \<Longrightarrow> encode x = encode y \<Longrightarrow> x = y"
  using decode_encode by (metis option.inject)

lemma decode_inj: "decode s = Some x \<Longrightarrow> decode t = Some x \<Longrightarrow> s = t"
  using encode_decode by metis

lemma decode_iff: "decode s = Some x \<longleftrightarrow> valid x \<and> encode x = s"
  using decode_encode encode_decode by metis

lemma decode_None_iff: "decode s = None \<longleftrightarrow> s \<notin> encode ` Collect valid"
proof -
  have "decode s \<noteq> None \<longleftrightarrow> (\<exists>x. valid x \<and> encode x = s)" by (auto simp: decode_iff)
  then show ?thesis by auto
qed

end

section \<open>State machines with an invariant\<close>

text \<open>
  The contract of a component whose state changes through one operation at a time:
  every accepted operation keeps the invariant. Runs, where a rejected operation
  leaves the state as it was, keep it too.
\<close>

locale invariant_machine =
  fixes step :: "'op \<Rightarrow> 's \<Rightarrow> 's"
    and inv :: "'s \<Rightarrow> bool"
  assumes step_inv: "inv s \<Longrightarrow> inv (step x s)"
begin

lemma run_inv: "inv s \<Longrightarrow> inv (fold step xs s)"
  by (induction xs arbitrary: s) (auto intro: step_inv)

end

text \<open>A machine with a quantity that never goes down along a run.\<close>

locale monotone_machine = invariant_machine step inv
  for step :: "'op \<Rightarrow> 's \<Rightarrow> 's" and inv :: "'s \<Rightarrow> bool" +
  fixes rank :: "'s \<Rightarrow> 'r::preorder"
  assumes step_rank: "inv s \<Longrightarrow> rank s \<le> rank (step x s)"
begin

lemma run_rank: "inv s \<Longrightarrow> rank s \<le> rank (fold step xs s)"
proof (induction xs arbitrary: s)
  case (Cons x xs)
  then show ?case
    using step_rank [of s x] step_inv [of s x] by (auto intro: order_trans)
qed simp

end

text \<open>A sweep that works through what is pending, a bounded number of entries in each pass.\<close>

locale bounded_sweep =
  fixes pass :: "'s \<Rightarrow> 's"
    and pending :: "'s \<Rightarrow> 'k set"
    and ok :: "'s \<Rightarrow> bool"
    and cap :: nat
  assumes ok_pass: "ok s \<Longrightarrow> ok (pass s)"
    and finite_pending: "ok s \<Longrightarrow> finite (pending s)"
    and card_pass: "ok s \<Longrightarrow> card (pending (pass s)) = card (pending s) - cap"
begin

lemma passes: "ok s \<Longrightarrow> ok ((pass ^^ n) s) \<and> card (pending ((pass ^^ n) s)) = card (pending s) - n * cap"
  by (induction n) (auto simp: ok_pass card_pass)

lemma passes_end: "ok s \<Longrightarrow> card (pending s) \<le> n * cap \<Longrightarrow> pending ((pass ^^ n) s) = {}"
  using passes [of s n] finite_pending [of "(pass ^^ n) s"] by simp

end

end
