(* ===== verification/Sensitive_Paths.thy ===== *)
theory Sensitive_Paths
  imports Rust_Prelude
begin

text \<open>
  The path policy of \<open>crates/webcodex-core/src/sensitive_paths.rs\<close>: which project
  paths hold credentials (never read or written through the tools), which trees the
  bulk surfaces skip, and which include globs aim at either.

  \<open>str::to_lowercase\<close> folds case by the Unicode tables; it is the parameter \<open>lower\<close>
  of the definitions.
\<close>

section \<open>Policy tables\<close>

definition SECRET_COMPONENTS :: "rstr list" where
  "SECRET_COMPONENTS =
     [lit ''.git'', lit ''secrets'', lit ''tokens'', lit ''project-registry'', lit ''projects.d'']"

definition SECRET_PREFIXES :: "rstr list" where
  "SECRET_PREFIXES = [lit ''.env'', lit ''runner.toml'', lit ''agent.toml'', lit ''webcodex.env'']"

definition SECRET_SUFFIXES :: "rstr list" where
  "SECRET_SUFFIXES = [lit ''.pem'', lit ''.key'', lit ''.env'', lit ''.toml.bak'']"

definition BULK_COMPONENTS :: "rstr list" where
  "BULK_COMPONENTS = [lit ''target'', lit ''node_modules'']"

lemmas path_tables = SECRET_COMPONENTS_def SECRET_PREFIXES_def SECRET_SUFFIXES_def BULK_COMPONENTS_def

section \<open>Predicates\<close>

definition path_components :: "(rstr \<Rightarrow> rstr) \<Rightarrow> rstr \<Rightarrow> rstr list" where
  "path_components lower path =
     map lower (filter (\<lambda>c. c \<noteq> [] \<and> c \<noteq> lit ''.'' \<and> c \<noteq> lit ''..'')
       (split_by (\<lambda>x. x = 47 \<or> x = 92) path))"

definition is_secret_path :: "(rstr \<Rightarrow> rstr) \<Rightarrow> rstr \<Rightarrow> bool" where
  "is_secret_path lower path =
     list_ex (\<lambda>component.
       component \<in> set SECRET_COMPONENTS
       \<or> list_ex (starts_with component) SECRET_PREFIXES
       \<or> list_ex (ends_with component) SECRET_SUFFIXES)
     (path_components lower path)"

definition is_bulk_excluded_path :: "(rstr \<Rightarrow> rstr) \<Rightarrow> rstr \<Rightarrow> bool" where
  "is_bulk_excluded_path lower path =
     list_ex (\<lambda>component. component \<in> set BULK_COMPONENTS) (path_components lower path)"

definition is_bulk_skipped_path :: "(rstr \<Rightarrow> rstr) \<Rightarrow> rstr \<Rightarrow> bool" where
  "is_bulk_skipped_path lower path \<longleftrightarrow>
     is_secret_path lower path \<or> is_bulk_excluded_path lower path"

definition is_glob_meta :: "rchar \<Rightarrow> bool" where
  "is_glob_meta c \<longleftrightarrow> c \<in> set (lit ''*?[]'')"

definition glob_targets_protected_path :: "(rstr \<Rightarrow> rstr) \<Rightarrow> rstr \<Rightarrow> bool" where
  "glob_targets_protected_path lower glob =
     (let normalized = (case strip_prefix glob (lit ''./'') of None \<Rightarrow> glob | Some r \<Rightarrow> r);
          lowered = lower normalized;
          last_part = last (split_char 47 lowered)
      in if list_ex (starts_with last_part) SECRET_PREFIXES
            \<or> list_ex (ends_with last_part) SECRET_SUFFIXES
         then True
         else list_ex (\<lambda>component.
                component \<in> set SECRET_COMPONENTS
                \<or> component \<in> set BULK_COMPONENTS
                \<or> list_ex (starts_with component) SECRET_PREFIXES
                \<or> list_ex (ends_with component) SECRET_SUFFIXES)
              (filter (\<lambda>component. \<not> list_ex is_glob_meta component) (split_char 47 lowered)))"

section \<open>Lemmas\<close>

definition secret_component :: "rstr \<Rightarrow> bool" where
  "secret_component c \<longleftrightarrow> c \<in> set SECRET_COMPONENTS
     \<or> list_ex (starts_with c) SECRET_PREFIXES \<or> list_ex (ends_with c) SECRET_SUFFIXES"

lemma is_secret_path_alt: "is_secret_path lower p \<longleftrightarrow> list_ex secret_component (path_components lower p)"
  by (simp add: is_secret_path_def secret_component_def [abs_def])

lemma path_components_sep:
  "x = 47 \<or> x = 92 \<Longrightarrow>
   path_components lower (a @ x # b) = path_components lower a @ path_components lower b"
  unfolding path_components_def by (subst split_by_append_sep) auto

lemma is_secret_path_sep:
  "x = 47 \<or> x = 92 \<Longrightarrow>
   is_secret_path lower (a @ x # b) \<longleftrightarrow> is_secret_path lower a \<or> is_secret_path lower b"
  by (simp add: is_secret_path_def path_components_sep)

lemma is_bulk_excluded_path_sep:
  "x = 47 \<or> x = 92 \<Longrightarrow>
   is_bulk_excluded_path lower (a @ x # b) \<longleftrightarrow>
     is_bulk_excluded_path lower a \<or> is_bulk_excluded_path lower b"
  by (simp add: is_bulk_excluded_path_def path_components_sep)

lemma to_ascii_lowercase_idem [simp]: "to_ascii_lowercase (to_ascii_lowercase s) = to_ascii_lowercase s"
  by (auto simp: to_ascii_lowercase_def)

lemma split_by_map:
  "(\<And>x. P (f x) = P x) \<Longrightarrow> split_by P (map f s) = map (map f) (split_by P s)"
  by (induction s) (auto split: list.splits)

lemma split_slash_ascii_lowercase:
  "split_char 47 (to_ascii_lowercase s) = map to_ascii_lowercase (split_char 47 s)"
  unfolding to_ascii_lowercase_def [abs_def] by (rule split_by_map) auto

lemma is_glob_meta_iff: "is_glob_meta c \<longleftrightarrow> c = 42 \<or> c = 63 \<or> c = 91 \<or> c = 93"
  by (simp add: is_glob_meta_def lit_def)

lemma to_ascii_lowercase_no_meta:
  "\<not> list_ex is_glob_meta s \<Longrightarrow> \<not> list_ex is_glob_meta (to_ascii_lowercase s)"
  unfolding to_ascii_lowercase_def by (induction s) (simp_all add: is_glob_meta_iff)

text \<open>The credential policy is closed under nesting. A path joined from two parts, by
  either separator, is secret exactly when one of its parts is, and the same holds of
  the bulk trees: no directory prefix and no suffix hides a protected component.\<close>

theorem path_policy_compositional:
  "(is_secret_path lower (a @ 47 # b) \<longleftrightarrow> is_secret_path lower a \<or> is_secret_path lower b)
   \<and> (is_secret_path lower (a @ 92 # b) \<longleftrightarrow> is_secret_path lower a \<or> is_secret_path lower b)
   \<and> (is_bulk_skipped_path lower (a @ 47 # b) \<longleftrightarrow>
        is_bulk_skipped_path lower a \<or> is_bulk_skipped_path lower b)
   \<and> (is_bulk_skipped_path lower (a @ 92 # b) \<longleftrightarrow>
        is_bulk_skipped_path lower a \<or> is_bulk_skipped_path lower b)"
  by (auto simp: is_bulk_skipped_path_def is_secret_path_sep is_bulk_excluded_path_sep)

text \<open>
  A glob is literal when it has no metacharacter and no backslash. The case folding is
  used through two of its facts: it works on each \<open>/\<close>-separated segment alone, and it
  never produces a metacharacter.
\<close>

definition literal_glob :: "rstr \<Rightarrow> bool" where
  "literal_glob g \<longleftrightarrow> \<not> list_ex is_glob_meta g \<and> 92 \<notin> set g"

lemma path_components_slash:
  assumes "92 \<notin> set p"
  shows "set (path_components lower p) \<subseteq> lower ` set (split_char 47 p)"
proof -
  have "split_by (\<lambda>x. x = 47 \<or> x = 92) p = split_char 47 p"
    using assms by (induction p) auto
  then show ?thesis by (auto simp: path_components_def)
qed

lemma path_components_dot_slash:
  "path_components lower (lit ''./'' @ r) = path_components lower r"
  using path_components_sep [of 47 lower "lit ''.''" r]
  by (simp add: lit_def path_components_def)

lemma glob_literal_component:
  assumes seg: "split_char 47 (lower g) = map lower (split_char 47 g)"
    and meta: "\<And>s. \<not> list_ex is_glob_meta s \<Longrightarrow> \<not> list_ex is_glob_meta (lower s)"
    and g: "literal_glob g" and c: "c \<in> set (path_components lower g)"
  shows "c \<in> set (filter (\<lambda>component. \<not> list_ex is_glob_meta component) (split_char 47 (lower g)))"
proof -
  from c g path_components_slash [of g lower] obtain c0
    where c0: "c0 \<in> set (split_char 47 g)" and c: "c = lower c0"
    by (auto simp: literal_glob_def)
  have "\<not> list_ex is_glob_meta c0"
    using split_by_chars [OF c0] g by (auto simp: literal_glob_def list_ex_iff)
  then have "\<not> list_ex is_glob_meta c" unfolding c by (rule meta)
  with c0 c seg show ?thesis by simp
qed

text \<open>A literal include glob that names a path the bulk surfaces skip is always reported
  as aiming at a protected path, whatever its case and with or without a leading \<open>./\<close>.\<close>

theorem literal_glob_of_protected_path_is_reported:
  assumes seg: "\<And>s. split_char 47 (lower s) = map lower (split_char 47 s)"
    and meta: "\<And>s. \<not> list_ex is_glob_meta s \<Longrightarrow> \<not> list_ex is_glob_meta (lower s)"
    and g: "literal_glob glob" and skipped: "is_bulk_skipped_path lower glob"
  shows "glob_targets_protected_path lower glob"
proof -
  define n where "n = (case strip_prefix glob (lit ''./'') of None \<Rightarrow> glob | Some r \<Rightarrow> r)"
  have n: "literal_glob n \<and> path_components lower n = path_components lower glob"
  proof (cases "strip_prefix glob (lit ''./'')")
    case None
    with g show ?thesis by (simp add: n_def)
  next
    case (Some r)
    then have "glob = lit ''./'' @ r" by (simp add: strip_prefix_Some)
    with g Some show ?thesis
      by (simp add: n_def literal_glob_def path_components_dot_slash)
  qed
  from skipped obtain c where c: "c \<in> set (path_components lower n)"
    and hit: "secret_component c \<or> c \<in> set BULK_COMPONENTS"
    by (auto simp: is_bulk_skipped_path_def is_secret_path_alt is_bulk_excluded_path_def
        list_ex_iff n)
  have "c \<in> set (filter (\<lambda>component. \<not> list_ex is_glob_meta component) (split_char 47 (lower n)))"
    using n c by (intro glob_literal_component [OF seg meta]) auto
  with hit show ?thesis
    unfolding glob_targets_protected_path_def n_def [symmetric] Let_def secret_component_def list_ex_iff
    by auto
qed

theorem literal_glob_of_protected_path_is_reported_witness:
  "glob_targets_protected_path to_ascii_lowercase (lit ''./config/.ENV.local'')"
proof (rule literal_glob_of_protected_path_is_reported)
  show "\<And>s. split_char 47 (to_ascii_lowercase s) = map to_ascii_lowercase (split_char 47 s)"
    by (rule split_slash_ascii_lowercase)
  show "\<And>s. \<not> list_ex is_glob_meta s \<Longrightarrow> \<not> list_ex is_glob_meta (to_ascii_lowercase s)"
    by (rule to_ascii_lowercase_no_meta)
  show "literal_glob (lit ''./config/.ENV.local'')" by code_simp
  show "is_bulk_skipped_path to_ascii_lowercase (lit ''./config/.ENV.local'')" by code_simp
qed

end
