(* ===== verification/Text_Edits.thy ===== *)
theory Text_Edits
  imports Rust_Prelude Sensitive_Paths
begin

text \<open>
  The shared text-edit rules of \<open>crates/webcodex-core/src/apply_edits_shared.rs\<close>: the
  line-ending convention of a file and its canonical form, and the resolution of one
  exact edit target by occurrence number and line fence. The source scans bytes; the
  bytes 10 and 13 occur in UTF-8 only as the characters LF and CR, so the model scans
  characters and keeps byte offsets where the source returns them.

  A value that the source unwraps with \<open>expect\<close> is an option here, and \<open>None\<close> of the
  outermost result is the panic.
\<close>

section \<open>Line endings\<close>

datatype ApplyTextLineEnding = NoEnding | Lf | Crlf

fun detect_scan :: "rstr \<Rightarrow> bool \<Rightarrow> bool \<Rightarrow> rstr + (bool \<times> bool)" where
  "detect_scan [] saw_lf saw_crlf = Inr (saw_lf, saw_crlf)"
| "detect_scan (x # xs) saw_lf saw_crlf =
     (if x = CR then
        (case xs of
           [] \<Rightarrow> Inl (lit ''file contains unsupported bare CR line endings'')
         | y # ys \<Rightarrow> if y = LF then detect_scan ys saw_lf True
                    else Inl (lit ''file contains unsupported bare CR line endings''))
      else if x = LF then detect_scan xs True saw_crlf
      else detect_scan xs saw_lf saw_crlf)"

definition detect_apply_text_line_ending :: "rstr \<Rightarrow> rstr + ApplyTextLineEnding" where
  "detect_apply_text_line_ending text =
     (case detect_scan text False False of
        Inl e \<Rightarrow> Inl e
      | Inr (True, True) \<Rightarrow> Inl (lit ''file contains mixed LF and CRLF line endings'')
      | Inr (True, False) \<Rightarrow> Inr Lf
      | Inr (False, True) \<Rightarrow> Inr Crlf
      | Inr (False, False) \<Rightarrow> Inr NoEnding)"

fun has_bare_cr :: "rstr \<Rightarrow> bool" where
  "has_bare_cr [] = False"
| "has_bare_cr (x # xs) = ((x = CR \<and> \<not> (xs \<noteq> [] \<and> hd xs = LF)) \<or> has_bare_cr xs)"

definition canonicalize_apply_text_line_endings ::
    "rstr \<Rightarrow> ApplyTextLineEnding \<Rightarrow> rstr + rstr" where
  "canonicalize_apply_text_line_endings text line_ending =
     (if CR \<notin> set text then Inr text
      else if has_bare_cr text
        then Inl (lit ''edit text contains unsupported bare CR line endings'')
      else if line_ending = NoEnding then Inr text
      else Inr (replace_crlf text))"

definition restore_apply_text_line_endings :: "rstr \<Rightarrow> ApplyTextLineEnding \<Rightarrow> rstr" where
  "restore_apply_text_line_endings text line_ending =
     (case line_ending of Crlf \<Rightarrow> replace_lf text | NoEnding \<Rightarrow> text | Lf \<Rightarrow> text)"

section \<open>Edits and match candidates\<close>

datatype ApplyTextEditKind = ReplaceExact | InsertAfter | InsertBefore | DeleteExact

primrec ApplyTextEditKind_as_str :: "ApplyTextEditKind \<Rightarrow> rstr" where
  "ApplyTextEditKind_as_str ReplaceExact = lit ''replace_exact''"
| "ApplyTextEditKind_as_str InsertAfter = lit ''insert_after''"
| "ApplyTextEditKind_as_str InsertBefore = lit ''insert_before''"
| "ApplyTextEditKind_as_str DeleteExact = lit ''delete_exact''"

record ApplyTextLineScope =
  scope_start_line :: nat
  scope_end_line :: nat

record ApplyTextMatchCandidate =
  cand_occurrence :: nat
  cand_start_line :: nat
  cand_end_line :: nat

definition scope_validate :: "ApplyTextLineScope \<Rightarrow> rstr + unit" where
  "scope_validate sc =
     (if scope_start_line sc = 0 then Inl (lit ''line_scope.start_line must be at least 1'')
      else if scope_end_line sc = 0 then Inl (lit ''line_scope.end_line must be at least 1'')
      else if scope_end_line sc < scope_start_line sc
        then Inl (lit ''line_scope.end_line must be greater than or equal to start_line'')
      else Inr ())"

definition scope_contains :: "ApplyTextLineScope \<Rightarrow> ApplyTextMatchCandidate \<Rightarrow> bool" where
  "scope_contains sc c \<longleftrightarrow>
     scope_start_line sc \<le> cand_start_line c \<and> cand_end_line c \<le> scope_end_line sc"

datatype ApplyTextMatchConflictKind =
  MatchNotFound | MultipleMatches | OccurrenceOutOfRange | OccurrenceOutsideLineScope

primrec ApplyTextMatchConflictKind_as_str :: "ApplyTextMatchConflictKind \<Rightarrow> rstr" where
  "ApplyTextMatchConflictKind_as_str MatchNotFound = lit ''match_not_found''"
| "ApplyTextMatchConflictKind_as_str MultipleMatches = lit ''multiple_matches''"
| "ApplyTextMatchConflictKind_as_str OccurrenceOutOfRange = lit ''occurrence_out_of_range''"
| "ApplyTextMatchConflictKind_as_str OccurrenceOutsideLineScope =
     lit ''occurrence_outside_line_scope''"

record ApplyTextMatchConflict =
  conflict_kind :: ApplyTextMatchConflictKind
  conflict_match_count :: nat
  conflict_requested :: "nat option"
  conflict_scope :: "ApplyTextLineScope option"
  conflict_scope_match_count :: "nat option"
  conflict_candidates :: "ApplyTextMatchCandidate list"
  conflict_truncated :: bool

definition MAX_APPLY_TEXT_CONFLICT_CANDIDATES :: nat where
  "MAX_APPLY_TEXT_CONFLICT_CANDIDATES = 8"

section \<open>Resolution of an edit target\<close>

text \<open>The loop variables of \<open>resolve_apply_text_match\<close>.\<close>

record match_scan =
  ms_candidates :: "ApplyTextMatchCandidate list"
  ms_count :: nat
  ms_scope_count :: nat
  ms_occurrence :: "(nat \<times> nat \<times> ApplyTextMatchCandidate) option"
  ms_eligible :: "(nat \<times> nat) option"
  ms_cursor :: nat
  ms_line :: nat

definition match_scan_init :: match_scan where
  "match_scan_init = \<lparr>ms_candidates = [], ms_count = 0, ms_scope_count = 0,
     ms_occurrence = None, ms_eligible = None, ms_cursor = 0, ms_line = 1\<rparr>"

definition needle_end_line :: "rstr \<Rightarrow> nat \<Rightarrow> nat" where
  "needle_end_line needle line =
     (let needle_newlines = count_lf needle;
          end_line = (if needle \<noteq> [] \<and> last needle = LF
                      then sat_add line (needle_newlines - 1)
                      else sat_add line needle_newlines)
      in max end_line line)"

definition match_scan_step ::
    "rstr \<Rightarrow> rstr \<Rightarrow> nat option \<Rightarrow> ApplyTextLineScope option \<Rightarrow> nat \<Rightarrow> match_scan \<Rightarrow> match_scan" where
  "match_scan_step original needle occurrence line_scope start st =
     (let line = sat_add (ms_line st) (lf_between original (ms_cursor st) start);
          count = sat_add (ms_count st) 1;
          candidate = \<lparr>cand_occurrence = count, cand_start_line = line,
                       cand_end_line = needle_end_line needle line\<rparr>;
          eligible = (case line_scope of None \<Rightarrow> True | Some sc \<Rightarrow> scope_contains sc candidate)
      in \<lparr>ms_candidates =
            (if eligible \<and> length (ms_candidates st) < MAX_APPLY_TEXT_CONFLICT_CANDIDATES
             then ms_candidates st @ [candidate] else ms_candidates st),
          ms_count = count,
          ms_scope_count = (if eligible then sat_add (ms_scope_count st) 1 else ms_scope_count st),
          ms_occurrence = (if occurrence = Some count
             then Some (start, start + str_len needle, candidate) else ms_occurrence st),
          ms_eligible = (if eligible then Some (start, start + str_len needle) else ms_eligible st),
          ms_cursor = start,
          ms_line = line\<rparr>)"

definition match_scan_run ::
    "rstr \<Rightarrow> rstr \<Rightarrow> nat option \<Rightarrow> ApplyTextLineScope option \<Rightarrow> match_scan" where
  "match_scan_run original needle occurrence line_scope =
     fold (match_scan_step original needle occurrence line_scope)
       (match_indices original needle) match_scan_init"

definition resolve_apply_text_match ::
    "rstr \<Rightarrow> rstr \<Rightarrow> nat option \<Rightarrow> ApplyTextLineScope option
     \<Rightarrow> (ApplyTextMatchConflict + nat \<times> nat) option" where
  "resolve_apply_text_match original needle occurrence line_scope =
     (let st = match_scan_run original needle occurrence line_scope;
          scoped = map_option (\<lambda>_. ms_scope_count st) line_scope;
          eligible_count = (case scoped of None \<Rightarrow> ms_count st | Some n \<Rightarrow> n);
          conflict = (\<lambda>kind requested. Some (Inl
            \<lparr>conflict_kind = kind, conflict_match_count = ms_count st,
             conflict_requested = requested, conflict_scope = line_scope,
             conflict_scope_match_count = scoped, conflict_candidates = ms_candidates st,
             conflict_truncated = (MAX_APPLY_TEXT_CONFLICT_CANDIDATES < eligible_count)\<rparr>))
      in if ms_count st = 0 then conflict MatchNotFound occurrence
         else (case occurrence of
           Some requested \<Rightarrow>
             if requested = 0 \<or> ms_count st < requested
             then conflict OccurrenceOutOfRange (Some requested)
             else (case ms_occurrence st of
                 None \<Rightarrow> None
               | Some (start, stop, candidate) \<Rightarrow>
                   (if (case line_scope of None \<Rightarrow> False | Some sc \<Rightarrow> \<not> scope_contains sc candidate)
                    then conflict OccurrenceOutsideLineScope (Some requested)
                    else Some (Inr (start, stop))))
         | None \<Rightarrow>
             if eligible_count = 0 then conflict MatchNotFound None
             else if 1 < eligible_count then conflict MultipleMatches None
             else (case ms_eligible st of None \<Rightarrow> None | Some r \<Rightarrow> Some (Inr r))))"

section \<open>File changes and guards\<close>

datatype ApplyFileChangeKind = Edit | Create | Delete | Rename

primrec ApplyFileChangeKind_as_str :: "ApplyFileChangeKind \<Rightarrow> rstr" where
  "ApplyFileChangeKind_as_str Edit = lit ''edit''"
| "ApplyFileChangeKind_as_str Create = lit ''create''"
| "ApplyFileChangeKind_as_str Delete = lit ''delete''"
| "ApplyFileChangeKind_as_str Rename = lit ''rename''"

definition is_lowercase_hex_sha256 :: "rstr \<Rightarrow> bool" where
  "is_lowercase_hex_sha256 v \<longleftrightarrow> str_len v = 64 \<and> list_all is_lower_hex v"

definition is_sensitive_edit_path :: "(rstr \<Rightarrow> rstr) \<Rightarrow> rstr \<Rightarrow> bool" where
  "is_sensitive_edit_path lower path \<longleftrightarrow>
     is_secret_path lower path \<or> is_bulk_excluded_path lower path"

section \<open>Line-ending lemmas\<close>

lemma detect_scan_no_cr:
  "CR \<notin> set s \<Longrightarrow> detect_scan s a b = Inr (a \<or> LF \<in> set s, b)"
  by (induction s arbitrary: a) auto

lemma detect_scan_flags:
  "detect_scan s a b = Inr (l, c) \<Longrightarrow> (a \<longrightarrow> l) \<and> (b \<longrightarrow> c)"
  by (induction s a b rule: detect_scan.induct) (auto split: if_splits list.splits)

lemma detect_scan_crlf:
  "detect_scan s False b = Inr (False, True) \<Longrightarrow>
     replace_lf (replace_crlf s) = s \<and> CR \<notin> set (replace_crlf s) \<and> \<not> has_bare_cr s"
proof (induction s False b rule: detect_scan.induct)
  case (2 x xs b)
  show ?case
  proof (cases "x = CR")
    case True
    with "2.prems" obtain ys where "xs = LF # ys" and "detect_scan ys False True = Inr (False, True)"
      by (auto split: list.splits if_splits)
    with True "2.hyps"(1) show ?thesis by simp
  next
    case False
    moreover from this "2.prems" have "x \<noteq> LF" by (auto dest: detect_scan_flags)
    moreover from this False "2.prems" have "detect_scan xs False b = Inr (False, True)" by simp
    ultimately have IH: "replace_lf (replace_crlf xs) = xs \<and> CR \<notin> set (replace_crlf xs) \<and> \<not> has_bare_cr xs"
      using "2.hyps"(3) by simp
    with False \<open>x \<noteq> LF\<close> show ?thesis by (cases xs) auto
  qed
qed auto

lemma detect_scan_no_crlf: "detect_scan s a b = Inr (l, False) \<Longrightarrow> CR \<notin> set s"
proof (induction s a b rule: detect_scan.induct)
  case (2 x xs a b)
  then show ?case by (auto split: if_splits list.splits dest: detect_scan_flags)
qed auto

lemma detect_scan_replace_lf:
  "CR \<notin> set s \<Longrightarrow> detect_scan (replace_lf s) a b = Inr (a, b \<or> LF \<in> set s)"
  by (induction s arbitrary: b) auto

lemma detect_cases:
  assumes "detect_apply_text_line_ending t = Inr le"
  obtains (plain) "le \<noteq> Crlf" "CR \<notin> set t" "le = Lf \<longleftrightarrow> LF \<in> set t"
        | (crlf) "le = Crlf" "replace_lf (replace_crlf t) = t" "CR \<notin> set (replace_crlf t)"
            "\<not> has_bare_cr t" "CR \<in> set t"
proof -
  obtain l c where d: "detect_scan t False False = Inr (l, c)"
    using assms by (auto simp: detect_apply_text_line_ending_def split: sum.splits)
  show thesis
  proof (cases c)
    case True
    with assms d have "l = False" "le = Crlf"
      by (auto simp: detect_apply_text_line_ending_def split: bool.splits)
    moreover have "CR \<in> set t"
      using d True detect_scan_no_cr [of t False False] by auto
    ultimately show thesis using crlf detect_scan_crlf [of t False] d True by auto
  next
    case False
    with d have cr: "CR \<notin> set t" by (auto dest: detect_scan_no_crlf)
    with d have "l \<longleftrightarrow> LF \<in> set t" using detect_scan_no_cr [of t False False] by auto
    with assms d False cr show thesis using plain
      by (auto simp: detect_apply_text_line_ending_def split: bool.splits)
  qed
qed

text \<open>Editing round trip. When the convention of a file is detected, its canonical form
  exists, has no carriage return and is turned back into the very same bytes; and any new
  carriage-return-free text written back in that convention is again detected as that
  convention, or has no line ending at all.\<close>

theorem line_ending_round_trip:
  assumes "detect_apply_text_line_ending text = Inr le"
  shows "(\<exists>c. canonicalize_apply_text_line_endings text le = Inr c
            \<and> CR \<notin> set c \<and> restore_apply_text_line_endings c le = text)
       \<and> (\<forall>c. CR \<notin> set c \<longrightarrow> le \<noteq> NoEnding \<longrightarrow>
            detect_apply_text_line_ending (restore_apply_text_line_endings c le)
              = Inr (if LF \<in> set c then le else NoEnding))"
proof -
  have "detect_apply_text_line_ending (restore_apply_text_line_endings c le)
      = Inr (if LF \<in> set c then le else NoEnding)" if "CR \<notin> set c" "le \<noteq> NoEnding" for c
    using that detect_scan_no_cr [of c False False] detect_scan_replace_lf [of c False False]
    by (cases le) (auto simp: detect_apply_text_line_ending_def restore_apply_text_line_endings_def)
  moreover from assms have "\<exists>c. canonicalize_apply_text_line_endings text le = Inr c
            \<and> CR \<notin> set c \<and> restore_apply_text_line_endings c le = text"
  proof (cases rule: detect_cases)
    case plain
    then show ?thesis
      by (cases le) (auto simp: canonicalize_apply_text_line_endings_def
          restore_apply_text_line_endings_def)
  next
    case crlf
    then show ?thesis
      by (auto simp: canonicalize_apply_text_line_endings_def restore_apply_text_line_endings_def)
  qed
  ultimately show ?thesis by blast
qed

theorem line_ending_round_trip_witness:
  "\<exists>c. canonicalize_apply_text_line_endings (lit ''a'' @ [CR, LF] @ lit ''b'' @ [CR, LF]) Crlf = Inr c
     \<and> CR \<notin> set c
     \<and> restore_apply_text_line_endings c Crlf = lit ''a'' @ [CR, LF] @ lit ''b'' @ [CR, LF]"
proof -
  have "detect_apply_text_line_ending (lit ''a'' @ [CR, LF] @ lit ''b'' @ [CR, LF]) = Inr Crlf"
    by code_simp
  from line_ending_round_trip [OF this] show ?thesis by blast
qed

section \<open>Resolution lemmas\<close>

text \<open>
  The reference view: the list of all matches of a file, numbered in source order, each
  with the lines it covers; an edit sees those of them that its fence contains.
\<close>

definition candidate_at :: "rstr \<Rightarrow> rstr \<Rightarrow> nat \<Rightarrow> nat \<Rightarrow> ApplyTextMatchCandidate" where
  "candidate_at original needle k i =
     \<lparr>cand_occurrence = Suc k, cand_start_line = 1 + lf_between original 0 i,
      cand_end_line = needle_end_line needle (1 + lf_between original 0 i)\<rparr>"

definition candidates_of :: "rstr \<Rightarrow> rstr \<Rightarrow> nat list \<Rightarrow> (nat \<times> ApplyTextMatchCandidate) list" where
  "candidates_of original needle ps =
     map (\<lambda>k. (ps ! k, candidate_at original needle k (ps ! k))) [0..<length ps]"

definition in_fence :: "ApplyTextLineScope option \<Rightarrow> nat \<times> ApplyTextMatchCandidate \<Rightarrow> bool" where
  "in_fence scope c = (case scope of None \<Rightarrow> True | Some sc \<Rightarrow> scope_contains sc (snd c))"

lemma candidates_of_snoc:
  "candidates_of original needle (ps @ [i]) =
     candidates_of original needle ps @ [(i, candidate_at original needle (length ps) i)]"
  by (auto simp: candidates_of_def nth_append)

lemma length_candidates_of [simp]: "length (candidates_of original needle ps) = length ps"
  by (simp add: candidates_of_def)

lemma lf_between_le: "lf_between s a b \<le> count_lf s"
  unfolding lf_between_def by (metis length_filter_le length_lf_offsets)

lemma length_match_indices:
  assumes "needle \<noteq> []"
  shows "length (match_indices original needle) \<le> str_len original"
proof -
  have "set (match_indices original needle) \<subseteq> {..<str_len original}"
  proof
    fix i assume "i \<in> set (match_indices original needle)"
    from match_indices_sound [OF assms this] obtain a b
      where "original = a @ needle @ b" and "i = str_len a" by blast
    moreover have "0 < str_len needle" using assms by (metis gr0I str_len_eq_0)
    ultimately show "i \<in> {..<str_len original}" by simp
  qed
  then have "card (set (match_indices original needle)) \<le> card {..<str_len original}"
    by (intro card_mono) auto
  moreover have "distinct (match_indices original needle)"
    using match_indices_sorted strict_sorted_iff by blast
  ultimately show ?thesis by (simp add: distinct_card)
qed

text \<open>What the loop has computed after a prefix \<open>ps\<close> of the matches.\<close>

definition scan_inv ::
    "rstr \<Rightarrow> rstr \<Rightarrow> nat option \<Rightarrow> ApplyTextLineScope option \<Rightarrow> nat list \<Rightarrow> match_scan \<Rightarrow> bool" where
  "scan_inv original needle occ scope ps st \<longleftrightarrow>
     (let cs = candidates_of original needle ps; es = filter (in_fence scope) cs in
      ms_count st = length ps \<and> ms_scope_count st = length es
      \<and> ms_candidates st = take MAX_APPLY_TEXT_CONFLICT_CANDIDATES (map snd es)
      \<and> ms_cursor st = (if ps = [] then 0 else last ps)
      \<and> ms_line st = 1 + lf_between original 0 (ms_cursor st)
      \<and> ms_eligible st = (if es = [] then None
           else Some (fst (last es), fst (last es) + str_len needle))
      \<and> ms_occurrence st = (case occ of None \<Rightarrow> None
           | Some k \<Rightarrow> if 1 \<le> k \<and> k \<le> length ps
                      then Some (fst (cs ! (k - 1)), fst (cs ! (k - 1)) + str_len needle, snd (cs ! (k - 1)))
                      else None))"

lemma scan_inv_step:
  assumes inv: "scan_inv original needle occ scope ps st"
    and sorted: "sorted_wrt (<) (ps @ [i])" and small: "str_len original < usize_max"
    and len: "length ps < usize_max"
  shows "scan_inv original needle occ scope (ps @ [i]) (match_scan_step original needle occ scope i st)"
proof -
  define cs where "cs = candidates_of original needle ps"
  define es where "es = filter (in_fence scope) cs"
  note inv' = inv [unfolded scan_inv_def Let_def, folded cs_def, folded es_def]
  have cur: "ms_cursor st \<le> i"
    using inv' sorted by (cases ps rule: rev_cases) (auto simp: sorted_wrt_append)
  have "lf_between original 0 i < usize_max"
    using lf_between_le [of original 0 i] count_lf_le [of original] small by linarith
  then have line: "sat_add (ms_line st) (lf_between original (ms_cursor st) i) = 1 + lf_between original 0 i"
    using inv' lf_between_split [OF _ cur, of 0 original] by (subst sat_add_exact) auto
  have cnt: "sat_add (ms_count st) 1 = Suc (length ps)" using inv' len by simp
  have "length es \<le> length ps" unfolding es_def cs_def by (metis length_candidates_of length_filter_le)
  then have scnt: "sat_add (ms_scope_count st) 1 = Suc (length es)" using inv' len by simp
  let ?c = "candidate_at original needle (length ps) i"
  have c: "\<lparr>cand_occurrence = Suc (length ps), cand_start_line = 1 + lf_between original 0 i,
      cand_end_line = needle_end_line needle (1 + lf_between original 0 i)\<rparr> = ?c"
    by (simp add: candidate_at_def)
  have elig: "(case scope of None \<Rightarrow> True | Some sc \<Rightarrow> scope_contains sc ?c) = in_fence scope (i, ?c)"
    by (simp add: in_fence_def split: option.splits)
  have "match_scan_step original needle occ scope i st =
     \<lparr>ms_candidates = (if in_fence scope (i, ?c) \<and> length (ms_candidates st) < MAX_APPLY_TEXT_CONFLICT_CANDIDATES
             then ms_candidates st @ [?c] else ms_candidates st),
      ms_count = Suc (length ps),
      ms_scope_count = (if in_fence scope (i, ?c) then Suc (length es) else ms_scope_count st),
      ms_occurrence = (if occ = Some (Suc (length ps)) then Some (i, i + str_len needle, ?c) else ms_occurrence st),
      ms_eligible = (if in_fence scope (i, ?c) then Some (i, i + str_len needle) else ms_eligible st),
      ms_cursor = i, ms_line = 1 + lf_between original 0 i\<rparr>"
    unfolding match_scan_step_def Let_def line cnt scnt c elig by simp
  moreover have "filter (in_fence scope) (cs @ [(i, ?c)]) = es @ (if in_fence scope (i, ?c) then [(i, ?c)] else [])"
    by (simp add: es_def)
  moreover have "length cs = length ps" by (simp add: cs_def)
  moreover have "ms_occurrence st = (case occ of None \<Rightarrow> None
           | Some k \<Rightarrow> if 1 \<le> k \<and> k \<le> length ps
                      then Some (fst (cs ! (k - 1)), fst (cs ! (k - 1)) + str_len needle, snd (cs ! (k - 1)))
                      else None)" using inv' by simp
  ultimately show ?thesis
    using inv' unfolding scan_inv_def Let_def candidates_of_snoc cs_def [symmetric]
    by (cases "in_fence scope (i, ?c)"; cases occ) (auto simp: nth_append not_less)
qed

lemma match_scan_run_inv:
  assumes "needle \<noteq> []" and "str_len original < usize_max"
  shows "scan_inv original needle occ scope (match_indices original needle)
           (match_scan_run original needle occ scope)"
proof -
  have "scan_inv original needle occ scope ps
          (fold (match_scan_step original needle occ scope) ps match_scan_init)"
    if "prefix ps (match_indices original needle)" for ps
    using that
  proof (induction ps rule: rev_induct)
    case Nil
    then show ?case
      by (auto simp: scan_inv_def match_scan_init_def candidates_of_def lf_between_def
          split: option.splits)
  next
    case (snoc i ps)
    then have "prefix ps (match_indices original needle)" by (auto dest: append_prefixD)
    moreover have "sorted_wrt (<) (ps @ [i])"
      using snoc.prems match_indices_sorted [of original needle] by (auto simp: prefix_def sorted_wrt_append)
    moreover have "length ps < usize_max"
      using snoc.prems length_match_indices [OF assms(1), of original] assms(2)
      by (auto dest: prefix_length_le)
    ultimately show ?case using snoc.IH assms(2) by (simp add: scan_inv_step)
  qed
  then show ?thesis by (simp add: match_scan_run_def)
qed

lemma singleton_iff_length_last:
  "xs = [x] \<longleftrightarrow> length xs = 1 \<and> last xs = x"
  by (cases xs) auto

lemma resolve_apply_text_match_iff:
  assumes "needle \<noteq> []" and "str_len original < usize_max"
  defines "cs \<equiv> candidates_of original needle (match_indices original needle)"
  shows "resolve_apply_text_match original needle occ scope \<noteq> None
    \<and> (resolve_apply_text_match original needle occ scope = Some (Inr (start, stop)) \<longleftrightarrow>
         stop = start + str_len needle \<and>
         (\<exists>c. case occ of
            None \<Rightarrow> filter (in_fence scope) cs = [(start, c)]
          | Some k \<Rightarrow> 1 \<le> k \<and> k \<le> length cs \<and> cs ! (k - 1) = (start, c)
                     \<and> in_fence scope (start, c)))"
proof -
  define st where "st = match_scan_run original needle occ scope"
  define es where "es = filter (in_fence scope) cs"
  have inv: "scan_inv original needle occ scope (match_indices original needle) st"
    unfolding st_def using assms(1,2) by (rule match_scan_run_inv)
  note inv' = inv [unfolded scan_inv_def Let_def cs_def [symmetric] es_def [symmetric]]
  have len: "length cs = ms_count st" using inv' by (simp add: cs_def)
  have es_le: "length es \<le> length cs" by (simp add: es_def)
  have elig: "(case map_option (\<lambda>_. ms_scope_count st) scope of None \<Rightarrow> ms_count st | Some n \<Rightarrow> n) = length es"
    using inv' len by (cases scope) (auto simp: es_def in_fence_def)
  have fence: "(case scope of None \<Rightarrow> False | Some sc \<Rightarrow> \<not> scope_contains sc (snd c)) = (\<not> in_fence scope c)" for c
    by (simp add: in_fence_def split: option.splits)
  show ?thesis
  proof (cases occ)
    case None
    have "ms_eligible st = (if es = [] then None else Some (fst (last es), fst (last es) + str_len needle))"
      using inv' by simp
    with None show ?thesis
      unfolding resolve_apply_text_match_def Let_def st_def [symmetric] elig es_def [symmetric]
      using es_le len by (cases es) (auto simp: prod_eq_iff)
  next
    case (Some k)
    let ?c = "cs ! (k - 1)"
    have occ_st: "1 \<le> k \<Longrightarrow> k \<le> ms_count st \<Longrightarrow>
        ms_occurrence st = Some (fst ?c, fst ?c + str_len needle, snd ?c)"
      using inv' Some len by simp
    show ?thesis
    proof (cases "1 \<le> k \<and> k \<le> ms_count st")
      case True
      then show ?thesis
        unfolding resolve_apply_text_match_def Let_def st_def [symmetric] elig
        using Some len occ_st by (auto simp: prod_eq_iff fence)
    next
      case False
      then show ?thesis
        unfolding resolve_apply_text_match_def Let_def st_def [symmetric] elig
        using Some len by auto
    qed
  qed
qed

lemma candidates_of_sound:
  assumes "needle \<noteq> []" and "str_len original < usize_max"
    and "(start, c) \<in> set (candidates_of original needle (match_indices original needle))"
  shows "\<exists>a b. original = a @ needle @ b \<and> start = str_len a
     \<and> cand_start_line c = 1 + count_lf a \<and> cand_end_line c = 1 + count_lf (a @ butlast needle)"
proof -
  from assms(3) obtain k where k: "k < length (match_indices original needle)"
    and start: "start = match_indices original needle ! k"
    and c: "c = candidate_at original needle k start"
    by (auto simp: candidates_of_def)
  from k start match_indices_sound [OF assms(1)] obtain a b
    where ab: "original = a @ needle @ b" "start = str_len a" by (metis nth_mem)
  have lf: "lf_between original 0 start = count_lf a"
    unfolding ab using lf_between_prefix by simp
  have "1 + count_lf (a @ needle) \<le> usize_max"
    using assms(2) ab(1) count_lf_le [of "a @ needle"] by simp
  moreover obtain n x where nx: "needle = n @ [x]" using assms(1) by (cases needle rule: rev_cases) auto
  ultimately have "needle_end_line needle (1 + count_lf a) = 1 + count_lf (a @ n)"
    by (auto simp: needle_end_line_def count_lf_def)
  with ab lf c nx show ?thesis by (auto simp: candidate_at_def)
qed

text \<open>C30: Exactness of edit targeting. On a non-empty needle the resolution never panics, and it
  returns a byte range exactly in these cases: an edit without an occurrence number has a
  single match inside its fence, and that is the range; an edit with an occurrence number
  names an existing match of the whole file and that match lies inside the fence.\<close>

theorem resolve_apply_text_match_exact:
  assumes "needle \<noteq> []" and "str_len original < usize_max"
  defines "cs \<equiv> candidates_of original needle (match_indices original needle)"
  shows "resolve_apply_text_match original needle occ scope \<noteq> None
    \<and> (resolve_apply_text_match original needle occ scope = Some (Inr (start, stop)) \<longleftrightarrow>
         stop = start + str_len needle \<and>
         (\<exists>c. case occ of
            None \<Rightarrow> filter (in_fence scope) cs = [(start, c)]
          | Some k \<Rightarrow> 1 \<le> k \<and> k \<le> length cs \<and> cs ! (k - 1) = (start, c)
                     \<and> in_fence scope (start, c)))"
  unfolding cs_def using assms(1,2) by (rule resolve_apply_text_match_iff)

theorem resolve_apply_text_match_exact_witness:
  "resolve_apply_text_match (lit ''let a = 1;let b = 1;'') (lit ''= 1'') (Some 2) None = Some (Inr (16, 19))"
proof -
  let ?o = "lit ''let a = 1;let b = 1;''" and ?n = "lit ''= 1''"
  let ?cs = "candidates_of ?o ?n (match_indices ?o ?n)"
  have "?n \<noteq> []" and "str_len ?o = 20" by code_simp+
  then have "?n \<noteq> []" and "str_len ?o < usize_max" by (simp_all add: usize_max_def)
  moreover have "match_indices ?o ?n = [6, 16]" and "str_len ?n = 3" by code_simp+
  moreover from this have "length ?cs = 2" and "?cs ! 1 = (16, snd (?cs ! 1))"
    by (simp_all add: candidates_of_def upt_rec)
  ultimately show ?thesis
    using resolve_apply_text_match_exact [of ?n ?o "Some 2" None 16 19] by (auto simp: in_fence_def)
qed

text \<open>Safety of the line fence. Whatever range an edit resolves to is an occurrence of its
  needle in the file, and with a line fence every line the occurrence touches, counted in
  the file from 1, lies inside the fence.\<close>

theorem resolve_apply_text_match_in_fence:
  assumes "needle \<noteq> []" and "str_len original < usize_max"
    and ok: "resolve_apply_text_match original needle occ scope = Some (Inr (start, stop))"
  shows "\<exists>a b. original = a @ needle @ b \<and> start = str_len a \<and> stop = str_len (a @ needle)
     \<and> (case scope of None \<Rightarrow> True
         | Some sc \<Rightarrow> scope_start_line sc \<le> 1 + count_lf a
                     \<and> 1 + count_lf (a @ butlast needle) \<le> scope_end_line sc)"
proof -
  let ?cs = "candidates_of original needle (match_indices original needle)"
  from resolve_apply_text_match_iff [OF assms(1,2), of occ scope start stop] ok
  have stop: "stop = start + str_len needle"
    and ex: "\<exists>c. case occ of None \<Rightarrow> filter (in_fence scope) ?cs = [(start, c)]
          | Some k \<Rightarrow> 1 \<le> k \<and> k \<le> length ?cs \<and> ?cs ! (k - 1) = (start, c) \<and> in_fence scope (start, c)"
    by auto
  from ex obtain c where c: "(start, c) \<in> set ?cs" "in_fence scope (start, c)"
  proof (cases occ)
    case None
    with ex obtain c where "filter (in_fence scope) ?cs = [(start, c)]" by auto
    then have "(start, c) \<in> set (filter (in_fence scope) ?cs)" by simp
    then show thesis by (auto intro: that)
  next
    case (Some k)
    with ex obtain c where k: "1 \<le> k" "k \<le> length ?cs" "?cs ! (k - 1) = (start, c)" "in_fence scope (start, c)"
      by auto
    then have "(start, c) \<in> set ?cs" using nth_mem [of "k - 1" ?cs] by auto
    with k show thesis using that by blast
  qed
  from candidates_of_sound [OF assms(1,2) c(1)] c(2) stop show ?thesis
    by (fastforce simp: in_fence_def scope_contains_def split: option.splits)
qed

theorem resolve_apply_text_match_in_fence_witness:
  "\<exists>a b. [97, LF, 97, LF] = a @ [97] @ b \<and> (2::nat) = str_len a \<and> 3 = str_len (a @ [97])
     \<and> 2 \<le> 1 + count_lf a \<and> 1 + count_lf (a @ butlast [97]) \<le> 2"
proof -
  let ?sc = "\<lparr>scope_start_line = 2, scope_end_line = 2\<rparr>"
  have "str_len [97, LF, 97, LF] < usize_max" by (simp add: usize_max_def utf8_width_def)
  moreover have "resolve_apply_text_match [97, LF, 97, LF] [97] None (Some ?sc) = Some (Inr (2, 3))"
    by (simp add: resolve_apply_text_match_def match_scan_run_def match_indices_def
        match_indices_from_Cons starts_with_def match_scan_step_def match_scan_init_def Let_def
        lf_between_def needle_end_line_def count_lf_def scope_contains_def utf8_width_def
        sat_add_def usize_max_def MAX_APPLY_TEXT_CONFLICT_CANDIDATES_def)
  ultimately show ?thesis
    using resolve_apply_text_match_in_fence [of "[97]" "[97, LF, 97, LF]" None "Some ?sc" 2 3] by simp
qed

end
