(* ===== verification/Patch_Parse.thy ===== *)
theory Patch_Parse
  imports Rust_Prelude
begin

text \<open>
  The patch language of \<open>crates/webcodex-core/src/apply_patch_shared.rs\<close>: the patch data
  types, the line parser \<open>parse_codex_patch\<close> with every error it reports, and the proof
  that it accepts exactly well-formed patches and inverts a printer of the language.

  The source keeps an index into the vector of lines; the model keeps the index together
  with the lines from it on, so \<open>lines.get(index)\<close> is the head of that suffix.
\<close>

section \<open>Constants and data\<close>

definition MAX_CODEX_PATCH_BYTES :: nat where "MAX_CODEX_PATCH_BYTES = 256 * 1024"
definition MAX_CODEX_PATCH_FILE_CHANGES :: nat where "MAX_CODEX_PATCH_FILE_CHANGES = 64"
definition MAX_CODEX_PATCH_CHUNKS_PER_FILE :: nat where "MAX_CODEX_PATCH_CHUNKS_PER_FILE = 256"

definition BEGIN_PATCH_MARKER :: rstr where "BEGIN_PATCH_MARKER = lit ''*** Begin Patch''"
definition END_PATCH_MARKER :: rstr where "END_PATCH_MARKER = lit ''*** End Patch''"
definition ADD_FILE_MARKER :: rstr where "ADD_FILE_MARKER = lit ''*** Add File:''"
definition DELETE_FILE_MARKER :: rstr where "DELETE_FILE_MARKER = lit ''*** Delete File:''"
definition UPDATE_FILE_MARKER :: rstr where "UPDATE_FILE_MARKER = lit ''*** Update File:''"
definition MOVE_TO_MARKER :: rstr where "MOVE_TO_MARKER = lit ''*** Move to:''"
definition END_OF_FILE_MARKER :: rstr where "END_OF_FILE_MARKER = lit ''*** End of File''"

lemmas markers = BEGIN_PATCH_MARKER_def END_PATCH_MARKER_def ADD_FILE_MARKER_def
  DELETE_FILE_MARKER_def UPDATE_FILE_MARKER_def MOVE_TO_MARKER_def END_OF_FILE_MARKER_def

record CodexPatchChunk =
  change_context :: "rstr option"
  old_lines :: "rstr list"
  new_lines :: "rstr list"
  is_end_of_file :: bool

definition empty_chunk :: CodexPatchChunk where
  "empty_chunk = \<lparr>change_context = None, old_lines = [], new_lines = [], is_end_of_file = False\<rparr>"

datatype CodexPatchHunk =
  AddFile rstr rstr
| DeleteFile rstr
| UpdateFile rstr "rstr option" "CodexPatchChunk list"

primrec hunk_path :: "CodexPatchHunk \<Rightarrow> rstr" where
  "hunk_path (AddFile path contents) = path"
| "hunk_path (DeleteFile path) = path"
| "hunk_path (UpdateFile path mv chunks) = path"

primrec hunk_move_path :: "CodexPatchHunk \<Rightarrow> rstr option" where
  "hunk_move_path (AddFile path contents) = None"
| "hunk_move_path (DeleteFile path) = None"
| "hunk_move_path (UpdateFile path mv chunks) = mv"

primrec hunk_kind :: "CodexPatchHunk \<Rightarrow> rstr" where
  "hunk_kind (AddFile path contents) = lit ''add''"
| "hunk_kind (DeleteFile path) = lit ''delete''"
| "hunk_kind (UpdateFile path mv chunks) = lit ''update''"

datatype CodexPatchMatchSource = OldLines | ChangeContext | Append

primrec CodexPatchMatchSource_as_str :: "CodexPatchMatchSource \<Rightarrow> rstr" where
  "CodexPatchMatchSource_as_str OldLines = lit ''old_lines''"
| "CodexPatchMatchSource_as_str ChangeContext = lit ''change_context''"
| "CodexPatchMatchSource_as_str Append = lit ''append''"

record CodexPatchMatchDiagnostic =
  diag_chunk_index :: nat
  diag_match_source :: CodexPatchMatchSource
  diag_search_start_line :: nat
  diag_expected_line_count :: nat
  diag_available_line_count :: nat
  diag_closest_start_line :: "nat option"
  diag_closest_exact_line_matches :: nat
  diag_closest_trim_end_line_matches :: nat
  diag_closest_trim_line_matches :: nat
  diag_first_exact_mismatch_offset :: "nat option"

text \<open>An error: its kind, the patch line it points at, its message, and the structural hint of
  a failed search (never set by the parser).\<close>

record CodexPatchError =
  perr_kind :: rstr
  perr_line :: "nat option"
  perr_message :: rstr
  perr_match_diagnostic :: "CodexPatchMatchDiagnostic option"

definition perr :: "string \<Rightarrow> nat option \<Rightarrow> rstr \<Rightarrow> CodexPatchError" where
  "perr k l m = \<lparr>perr_kind = lit k, perr_line = l, perr_message = m, perr_match_diagnostic = None\<rparr>"

definition with_match_diagnostic :: "CodexPatchError \<Rightarrow> CodexPatchMatchDiagnostic \<Rightarrow> CodexPatchError" where
  "with_match_diagnostic e d = e\<lparr>perr_match_diagnostic := Some d\<rparr>"

section \<open>Lines\<close>

definition marker_path :: "rstr \<Rightarrow> rstr \<Rightarrow> rstr option" where
  "marker_path line marker =
     (case strip_prefix (trim_end line) marker of
        None \<Rightarrow> None
      | Some r \<Rightarrow> if trim r = [] then None else Some (trim r))"

definition is_file_header :: "rstr \<Rightarrow> bool" where
  "is_file_header line \<longleftrightarrow>
     marker_path line ADD_FILE_MARKER \<noteq> None
     \<or> marker_path line DELETE_FILE_MARKER \<noteq> None
     \<or> marker_path line UPDATE_FILE_MARKER \<noteq> None"

text \<open>The lines that end a file operation: the end marker or the next header.\<close>

definition ends_hunk :: "rstr \<Rightarrow> bool" where
  "ends_hunk line \<longleftrightarrow> trim_end line = END_PATCH_MARKER \<or> is_file_header line"

definition normalized_patch_lines :: "rstr \<Rightarrow> CodexPatchError + rstr list" where
  "normalized_patch_lines patch =
     (if patch = [] then Inl (perr ''invalid_patch'' None (lit ''patch cannot be empty''))
      else if MAX_CODEX_PATCH_BYTES < str_len patch
        then Inl (perr ''patch_too_large'' None (lit ''patch exceeds 262144 UTF-8 bytes''))
      else let normalized = replace_crlf patch in
        if CR \<in> set normalized
        then Inl (perr ''invalid_patch'' None
               (lit ''patch contains unsupported bare CR line endings''))
        else Inr (split_char LF normalized))"

definition push_chunk ::
    "CodexPatchChunk list \<Rightarrow> CodexPatchChunk \<Rightarrow> nat \<Rightarrow> CodexPatchError + CodexPatchChunk list" where
  "push_chunk chunks chunk line =
     (if change_context chunk \<noteq> None \<and> old_lines chunk = [] \<and> new_lines chunk = []
      then Inl (perr ''invalid_hunk'' (Some line)
             (lit ''change context must be followed by at least one patch line''))
      else if change_context chunk = None \<and> old_lines chunk = [] \<and> new_lines chunk = []
              \<and> \<not> is_end_of_file chunk
      then Inr chunks
      else if MAX_CODEX_PATCH_CHUNKS_PER_FILE \<le> length chunks
      then Inl (perr ''patch_too_large'' (Some line)
             (lit ''one update may contain at most 256 chunks''))
      else Inr (chunks @ [chunk]))"

section \<open>File operations\<close>

fun parse_add :: "nat \<Rightarrow> rstr list \<Rightarrow> rstr list \<Rightarrow> CodexPatchError + (nat \<times> rstr list \<times> rstr list)" where
  "parse_add index [] added = Inr (index, [], added)"
| "parse_add index (current # rest) added =
     (if ends_hunk current then Inr (index, current # rest, added)
      else if trim current = [] \<and> rest \<noteq> [] \<and> ends_hunk (hd rest)
        then Inr (index + 1, rest, added)
      else (case strip_prefix current [43] of
          None \<Rightarrow> Inl (perr ''invalid_hunk'' (Some (index + 1))
                   (lit ''every Add File content line must start with '' @ [39, 43, 39]))
        | Some content \<Rightarrow> parse_add (index + 1) rest (added @ [content])))"

text \<open>The body of an update: closed chunks, the chunk being read, and whether the
  end-of-file marker was seen.\<close>

definition update_line_error :: "nat \<Rightarrow> CodexPatchError" where
  "update_line_error index = perr ''invalid_hunk'' (Some (index + 1))
     (lit ''update lines must start with '' @ [39, 43, 39, 44, 32, 39, 45, 39]
      @ lit '', or one context space'')"

definition add_update_line :: "CodexPatchChunk \<Rightarrow> rstr \<Rightarrow> CodexPatchChunk option" where
  "add_update_line chunk current =
     (case current of
        [] \<Rightarrow> None
      | p # content \<Rightarrow>
          if p = 43 then Some (chunk\<lparr>new_lines := new_lines chunk @ [content]\<rparr>)
          else if p = 45 then Some (chunk\<lparr>old_lines := old_lines chunk @ [content]\<rparr>)
          else if p = 32 then Some (chunk\<lparr>old_lines := old_lines chunk @ [content],
                                          new_lines := new_lines chunk @ [content]\<rparr>)
          else None)"

fun parse_update ::
    "nat \<Rightarrow> rstr list \<Rightarrow> CodexPatchChunk list \<Rightarrow> CodexPatchChunk option \<Rightarrow> bool
     \<Rightarrow> CodexPatchError + (nat \<times> rstr list \<times> CodexPatchChunk list \<times> CodexPatchChunk option)" where
  "parse_update index [] chunks current_chunk saw_eof = Inr (index, [], chunks, current_chunk)"
| "parse_update index (current # rest) chunks current_chunk saw_eof =
     (if ends_hunk current then Inr (index, current # rest, chunks, current_chunk)
      else if trim current = [] \<and> rest \<noteq> [] \<and> ends_hunk (hd rest)
        then Inr (index + 1, rest, chunks, current_chunk)
      else if saw_eof
        then Inl (perr ''invalid_hunk'' (Some (index + 1))
               (lit ''no update lines may follow '' @ [39] @ END_OF_FILE_MARKER @ [39]))
      else let trimmed = trim_end current in
        if trimmed = lit ''@@'' \<or> starts_with trimmed (lit ''@@ '') then
          (case (case current_chunk of None \<Rightarrow> Inr chunks | Some chunk \<Rightarrow> push_chunk chunks chunk (index + 1)) of
             Inl e \<Rightarrow> Inl e
           | Inr chunks' \<Rightarrow>
               let ctx = (case strip_prefix trimmed (lit ''@@ '') of None \<Rightarrow> None
                          | Some v \<Rightarrow> if trim v = [] then None else Some (trim v))
               in parse_update (index + 1) rest chunks' (Some (empty_chunk\<lparr>change_context := ctx\<rparr>)) saw_eof)
        else if trimmed = END_OF_FILE_MARKER then
          (case current_chunk of
             None \<Rightarrow> Inl (perr ''invalid_hunk'' (Some (index + 1))
                       ([39] @ END_OF_FILE_MARKER @ [39] @ lit '' requires a preceding update chunk''))
           | Some chunk \<Rightarrow>
               parse_update (index + 1) rest chunks (Some (chunk\<lparr>is_end_of_file := True\<rparr>)) True)
        else
          (case add_update_line (case current_chunk of None \<Rightarrow> empty_chunk | Some chunk \<Rightarrow> chunk) current of
             None \<Rightarrow> Inl (update_line_error index)
           | Some chunk \<Rightarrow> parse_update (index + 1) rest chunks (Some chunk) saw_eof))"

text \<open>One whole operation, from the line after its header.\<close>

definition parse_add_file ::
    "rstr \<Rightarrow> nat \<Rightarrow> rstr list \<Rightarrow> CodexPatchError + (nat \<times> rstr list \<times> CodexPatchHunk)" where
  "parse_add_file path index rest =
     (case parse_add index rest [] of
        Inl e \<Rightarrow> Inl e
      | Inr (index', rest', added) \<Rightarrow>
          if added = []
          then Inl (perr ''invalid_hunk'' (Some index)
                 (lit ''Add File requires at least one '' @ [39, 43, 39] @ lit '' content line''))
          else Inr (index', rest', AddFile path (join [LF] added @ [LF])))"

definition parse_update_file ::
    "rstr \<Rightarrow> nat \<Rightarrow> rstr list \<Rightarrow> CodexPatchError + (nat \<times> rstr list \<times> CodexPatchHunk)" where
  "parse_update_file path index rest =
     (let destination = (case rest of [] \<Rightarrow> None | current # _ \<Rightarrow> marker_path current MOVE_TO_MARKER);
          index1 = (if destination = None then index else index + 1);
          rest1 = (if destination = None then rest else tl rest)
      in case parse_update index1 rest1 [] None False of
        Inl e \<Rightarrow> Inl e
      | Inr (index', rest', chunks, current_chunk) \<Rightarrow>
          (case (case current_chunk of None \<Rightarrow> Inr chunks | Some chunk \<Rightarrow> push_chunk chunks chunk (sat_add index' 1)) of
             Inl e \<Rightarrow> Inl e
           | Inr chunks' \<Rightarrow>
               if destination = None \<and> chunks' = []
               then Inl (perr ''invalid_hunk'' (Some index)
                      (lit ''Update File requires a Move to destination or at least one change chunk''))
               else Inr (index', rest', UpdateFile path destination chunks')))"

section \<open>The whole patch\<close>

fun skip_blank :: "nat \<Rightarrow> rstr list \<Rightarrow> nat \<times> rstr list" where
  "skip_blank index [] = (index, [])"
| "skip_blank index (line # rest) =
     (if trim line = [] then skip_blank (index + 1) rest else (index, line # rest))"

lemma skip_blank_length: "skip_blank i ls = (j, r) \<Longrightarrow> length r \<le> length ls"
  by (induction i ls rule: skip_blank.induct) (auto split: if_splits)

lemma skip_blank_less: "(j, x # r) = skip_blank i ls \<Longrightarrow> length r < length ls"
  using skip_blank_length [of i ls j "x # r"] by simp

lemma parse_add_length: "parse_add i ls a = Inr (j, r, b) \<Longrightarrow> length r \<le> length ls"
  by (induction i ls a rule: parse_add.induct) (auto split: if_splits option.splits)

lemma parse_update_length:
  "parse_update i ls cs c e = Inr (j, r, cs', c') \<Longrightarrow> length r \<le> length ls"
proof (induction i ls cs c e rule: parse_update.induct)
  case (2 index current rest chunks current_chunk saw_eof)
  show ?case
  proof (cases "ends_hunk current \<or> trim current = [] \<and> rest \<noteq> [] \<and> ends_hunk (hd rest) \<or> saw_eof")
    case True
    with "2.prems" show ?thesis by (auto split: if_splits)
  next
    case False
    then have "length r \<le> length rest"
      using "2.prems" "2.IH" by (auto simp: Let_def split: if_splits option.splits sum.splits)
    then show ?thesis by simp
  qed
qed simp

lemma parse_add_file_length: "parse_add_file p i ls = Inr (j, r, h) \<Longrightarrow> length r \<le> length ls"
  by (auto simp: parse_add_file_def split: sum.splits if_splits dest: parse_add_length)

lemma parse_update_file_length:
  "parse_update_file p i ls = Inr (j, r, h) \<Longrightarrow> length r \<le> length ls"
  by (auto simp: parse_update_file_def Let_def split: sum.splits if_splits dest!: parse_update_length)

text \<open>
  The main loop: the operations read so far, and on exit whether the end marker was
  seen, with the lines after it.
\<close>

function parse_hunks ::
    "nat \<Rightarrow> rstr list \<Rightarrow> CodexPatchHunk list
     \<Rightarrow> CodexPatchError + (CodexPatchHunk list \<times> bool \<times> nat \<times> rstr list)" where
  "parse_hunks index lines hunks =
     (case skip_blank index lines of
        (index, []) \<Rightarrow> Inr (hunks, False, index, [])
      | (index, line # rest) \<Rightarrow>
          if trim_end line = END_PATCH_MARKER then Inr (hunks, True, index + 1, rest)
          else if MAX_CODEX_PATCH_FILE_CHANGES \<le> length hunks
            then Inl (perr ''patch_too_large'' (Some (index + 1))
                   (lit ''patch may touch at most 64 files''))
          else (case marker_path line ADD_FILE_MARKER of
              Some path \<Rightarrow>
                (case parse_add_file path (index + 1) rest of
                   Inl e \<Rightarrow> Inl e
                 | Inr (index', rest', hunk) \<Rightarrow> parse_hunks index' rest' (hunks @ [hunk]))
            | None \<Rightarrow> (case marker_path line DELETE_FILE_MARKER of
              Some path \<Rightarrow> parse_hunks (index + 1) rest (hunks @ [DeleteFile path])
            | None \<Rightarrow> (case marker_path line UPDATE_FILE_MARKER of
              Some path \<Rightarrow>
                (case parse_update_file path (index + 1) rest of
                   Inl e \<Rightarrow> Inl e
                 | Inr (index', rest', hunk) \<Rightarrow> parse_hunks index' rest' (hunks @ [hunk]))
            | None \<Rightarrow> Inl (perr ''invalid_patch'' (Some (index + 1))
                (lit ''expected Add File, Delete File, Update File, or End Patch marker''))))))"
  by pat_completeness auto
termination
proof (relation "measure (\<lambda>(index, lines, hunks). length lines)", goal_cases)
  case (2 index lines hunks i r line rest path b j r' r'' h)
  then have "length rest < length lines" and "length r'' \<le> length rest"
    by (auto intro: skip_blank_less parse_update_file_length)
  then show ?case by simp
next
  case (3 index lines hunks i r line rest path)
  then have "length rest < length lines" by (auto intro: skip_blank_less)
  then show ?case by simp
next
  case (4 index lines hunks i r line rest path b j r' r'' h)
  then have "length rest < length lines" and "length r'' \<le> length rest"
    by (auto intro: skip_blank_less parse_add_file_length)
  then show ?case by simp
qed simp

declare parse_hunks.simps [simp del]

definition parse_codex_patch :: "rstr \<Rightarrow> CodexPatchError + CodexPatchHunk list" where
  "parse_codex_patch patch =
     (case normalized_patch_lines patch of
        Inl e \<Rightarrow> Inl e
      | Inr lines \<Rightarrow>
          (case skip_blank 0 lines of (index, rest) \<Rightarrow>
             if (case rest of [] \<Rightarrow> None | line # _ \<Rightarrow> Some (trim line)) \<noteq> Some BEGIN_PATCH_MARKER
             then Inl (perr ''invalid_patch'' (Some (sat_add index 1))
                    (lit ''first marker must be '' @ [39] @ BEGIN_PATCH_MARKER @ [39]))
             else (case parse_hunks (index + 1) (tl rest) [] of
                 Inl e \<Rightarrow> Inl e
               | Inr (hunks, saw_end, index', rest') \<Rightarrow>
                   if \<not> saw_end
                   then Inl (perr ''invalid_patch'' None
                          (lit ''patch must end with '' @ [39] @ END_PATCH_MARKER @ [39]))
                   else if hunks = []
                   then Inl (perr ''invalid_patch'' None
                          (lit ''patch must contain at least one file operation''))
                   else if list_ex (\<lambda>line. trim line \<noteq> []) rest'
                   then Inl (perr ''invalid_patch'' (Some (index' + 1))
                          (lit ''non-whitespace content follows End Patch''))
                   else Inr hunks)))"

section \<open>Well-formed patches\<close>

definition line_ok :: "rstr \<Rightarrow> bool" where
  "line_ok s \<longleftrightarrow> LF \<notin> set s \<and> CR \<notin> set s"

definition name_ok :: "rstr \<Rightarrow> bool" where
  "name_ok s \<longleftrightarrow> s \<noteq> [] \<and> trim s = s \<and> line_ok s"

definition chunk_ok :: "CodexPatchChunk \<Rightarrow> bool" where
  "chunk_ok c \<longleftrightarrow> pred_option name_ok (change_context c)
     \<and> list_all line_ok (old_lines c) \<and> list_all line_ok (new_lines c)"

text \<open>What the parser lets through: a chunk changes something, or marks the end of the file.\<close>

definition wf_chunk :: "CodexPatchChunk \<Rightarrow> bool" where
  "wf_chunk c \<longleftrightarrow> chunk_ok c
     \<and> (old_lines c \<noteq> [] \<or> new_lines c \<noteq> [] \<or> (change_context c = None \<and> is_end_of_file c))"

fun wf_hunk :: "CodexPatchHunk \<Rightarrow> bool" where
  "wf_hunk (AddFile path contents) =
     (name_ok path \<and> (\<exists>ls. ls \<noteq> [] \<and> list_all line_ok ls \<and> contents = join [LF] ls @ [LF]))"
| "wf_hunk (DeleteFile path) = name_ok path"
| "wf_hunk (UpdateFile path mv chunks) =
     (name_ok path \<and> pred_option name_ok mv \<and> (mv \<noteq> None \<or> chunks \<noteq> [])
      \<and> length chunks \<le> MAX_CODEX_PATCH_CHUNKS_PER_FILE
      \<and> list_all wf_chunk chunks \<and> list_all (\<lambda>c. \<not> is_end_of_file c) (butlast chunks))"

definition wf_patch :: "CodexPatchHunk list \<Rightarrow> bool" where
  "wf_patch hunks \<longleftrightarrow> hunks \<noteq> [] \<and> length hunks \<le> MAX_CODEX_PATCH_FILE_CHANGES
     \<and> list_all wf_hunk hunks"

lemma line_ok_mono: "line_ok s \<Longrightarrow> set t \<subseteq> set s \<Longrightarrow> line_ok t"
  by (auto simp: line_ok_def)

lemma line_ok_append: "line_ok (a @ b) \<longleftrightarrow> line_ok a \<and> line_ok b"
  by (auto simp: line_ok_def)

lemma name_ok_trim: "line_ok s \<Longrightarrow> trim s \<noteq> [] \<Longrightarrow> name_ok (trim s)"
  by (auto simp: name_ok_def intro: line_ok_mono [OF _ set_trim])

lemma marker_path_ok: "line_ok line \<Longrightarrow> marker_path line m = Some p \<Longrightarrow> name_ok p"
proof -
  assume ok: "line_ok line" and "marker_path line m = Some p"
  then obtain r where r: "trim_end line = m @ r" "trim r \<noteq> []" "p = trim r"
    by (auto simp: marker_path_def strip_prefix_Some split: option.splits if_splits)
  have "line_ok (m @ r)" using line_ok_mono [OF ok set_trim_end [of line]] r by simp
  with r show "name_ok p" by (auto simp: line_ok_append intro: name_ok_trim)
qed

lemma skip_blank_ok: "list_all line_ok ls \<Longrightarrow> skip_blank i ls = (j, r) \<Longrightarrow> list_all line_ok r"
  by (induction i ls rule: skip_blank.induct) (auto split: if_splits)

lemma parse_add_ok:
  "list_all line_ok ls \<Longrightarrow> list_all line_ok a \<Longrightarrow> parse_add i ls a = Inr (j, r, b)
   \<Longrightarrow> list_all line_ok r \<and> list_all line_ok b"
proof (induction i ls a rule: parse_add.induct)
  case (2 index current rest added)
  show ?case
  proof (cases "ends_hunk current \<or> trim current = [] \<and> rest \<noteq> [] \<and> ends_hunk (hd rest)")
    case True
    with "2.prems" show ?thesis by (auto split: if_splits)
  next
    case False
    with "2.prems" obtain content where "strip_prefix current [43] = Some content"
      and "parse_add (index + 1) rest (added @ [content]) = Inr (j, r, b)"
      by (auto split: option.splits)
    moreover from this(1) "2.prems"(1) have "line_ok content"
      by (auto simp: strip_prefix_Some line_ok_def)
    ultimately show ?thesis using "2.IH" [of content] "2.prems" False by simp
  qed
qed auto

lemma push_chunk_ok:
  assumes "push_chunk cs c l = Inr cs'" "chunk_ok c" "list_all wf_chunk cs"
    "length cs \<le> MAX_CODEX_PATCH_CHUNKS_PER_FILE"
  shows "list_all wf_chunk cs' \<and> length cs' \<le> MAX_CODEX_PATCH_CHUNKS_PER_FILE
     \<and> (cs' = cs \<or> cs' = cs @ [c])"
  using assms by (auto simp: push_chunk_def wf_chunk_def split: if_splits)

definition update_inv :: "CodexPatchChunk list \<Rightarrow> CodexPatchChunk option \<Rightarrow> bool \<Rightarrow> bool" where
  "update_inv cs c eof \<longleftrightarrow> list_all wf_chunk cs \<and> list_all (\<lambda>c. \<not> is_end_of_file c) cs
     \<and> length cs \<le> MAX_CODEX_PATCH_CHUNKS_PER_FILE
     \<and> (case c of None \<Rightarrow> \<not> eof | Some c \<Rightarrow> chunk_ok c \<and> is_end_of_file c = eof)"

lemma update_inv_push:
  assumes "update_inv cs c False"
    "(case c of None \<Rightarrow> Inr cs | Some chunk \<Rightarrow> push_chunk cs chunk l) = Inr cs'" "pred_option name_ok ctx"
  shows "update_inv cs' (Some (empty_chunk\<lparr>change_context := ctx\<rparr>)) False"
  using assms push_chunk_ok [of cs "the c" l cs']
  by (cases c) (auto simp: update_inv_def empty_chunk_def chunk_ok_def)

lemma update_inv_line:
  assumes "update_inv cs c False" "line_ok current"
    "add_update_line (case c of None \<Rightarrow> empty_chunk | Some chunk \<Rightarrow> chunk) current = Some c'"
  shows "update_inv cs (Some c') False"
  using assms
  by (auto simp: update_inv_def add_update_line_def chunk_ok_def empty_chunk_def line_ok_def
      split: option.splits list.splits if_splits)

lemma context_of_line_ok:
  assumes "line_ok current"
  shows "pred_option name_ok (case strip_prefix (trim_end current) p of None \<Rightarrow> None
           | Some v \<Rightarrow> if trim v = [] then None else Some (trim v))"
proof -
  have "line_ok (trim_end current)" by (rule line_ok_mono [OF assms set_trim_end])
  then show ?thesis
    by (auto simp: strip_prefix_Some line_ok_append intro: name_ok_trim split: option.splits)
qed

lemma parse_update_ok:
  "list_all line_ok ls \<Longrightarrow> update_inv cs c e \<Longrightarrow> parse_update i ls cs c e = Inr (j, r, cs', c')
   \<Longrightarrow> list_all line_ok r \<and> (\<exists>e'. update_inv cs' c' e')"
proof (induction i ls cs c e rule: parse_update.induct)
  case (2 index current rest chunks current_chunk saw_eof)
  show ?case
  proof (cases "ends_hunk current \<or> trim current = [] \<and> rest \<noteq> [] \<and> ends_hunk (hd rest) \<or> saw_eof")
    case True
    with "2.prems" show ?thesis by (auto split: if_splits)
  next
    case False
    let ?t = "trim_end current"
    have lines: "line_ok current" "list_all line_ok rest" using "2.prems" by auto
    have inv: "update_inv chunks current_chunk False" using "2.prems"(2) False by simp
    consider (ctx) "?t = lit ''@@'' \<or> starts_with ?t (lit ''@@ '')"
      | (eof) "\<not> (?t = lit ''@@'' \<or> starts_with ?t (lit ''@@ ''))" "?t = END_OF_FILE_MARKER"
      | (line) "\<not> (?t = lit ''@@'' \<or> starts_with ?t (lit ''@@ ''))" "?t \<noteq> END_OF_FILE_MARKER"
      by blast
    then show ?thesis
    proof cases
      case ctx
      then show ?thesis
        using "2.prems"(3) False lines "2.IH"(1) update_inv_push [OF inv _ context_of_line_ok [OF lines(1)]]
        by (auto simp: Let_def split: sum.splits)
    next
      case eof
      with "2.prems"(3) False obtain c where c: "current_chunk = Some c"
        by (auto simp: Let_def split: option.splits)
      then have "update_inv chunks (Some (c\<lparr>is_end_of_file := True\<rparr>)) True"
        using inv by (simp add: update_inv_def chunk_ok_def)
      then show ?thesis using eof c "2.prems"(3) False lines "2.IH"(2) by (auto simp: Let_def)
    next
      case line
      then show ?thesis
        using "2.prems"(3) False lines "2.IH"(3) update_inv_line [OF inv lines(1)]
        by (auto simp: Let_def split: option.splits)
    qed
  qed
qed auto

lemma parse_add_file_ok:
  assumes "name_ok p" "list_all line_ok ls" "parse_add_file p i ls = Inr (j, r, h)"
  shows "list_all line_ok r \<and> wf_hunk h"
proof -
  from assms(3) obtain added where a: "parse_add i ls [] = Inr (j, r, added)" and "added \<noteq> []"
    and h: "h = AddFile p (join [LF] added @ [LF])"
    by (auto simp: parse_add_file_def split: sum.splits if_splits)
  moreover from parse_add_ok [OF assms(2) _ a] have "list_all line_ok r \<and> list_all line_ok added"
    by simp
  ultimately show ?thesis using assms(1) by auto
qed

lemma parse_update_file_ok:
  assumes "name_ok p" "list_all line_ok ls" "parse_update_file p i ls = Inr (j, r, h)"
  shows "list_all line_ok r \<and> wf_hunk h"
proof -
  define d where "d = (case ls of [] \<Rightarrow> None | current # _ \<Rightarrow> marker_path current MOVE_TO_MARKER)"
  define ls1 where "ls1 = (if d = None then ls else tl ls)"
  have d_ok: "pred_option name_ok d"
    using assms(2) marker_path_ok
    by (cases ls; cases d) (auto simp: d_def)
  have ls1_ok: "list_all line_ok ls1" using assms(2) by (cases ls) (auto simp: ls1_def)
  from assms(3) obtain cs c cs' where
    u: "parse_update (if d = None then i else i + 1) ls1 [] None False = Inr (j, r, cs, c)"
    and pc: "(case c of None \<Rightarrow> Inr cs | Some chunk \<Rightarrow> push_chunk cs chunk (sat_add j 1)) = Inr cs'"
    and h: "h = UpdateFile p d cs'" and ne: "\<not> (d = None \<and> cs' = [])"
    unfolding parse_update_file_def Let_def d_def [symmetric] ls1_def [symmetric]
    by (auto split: sum.splits if_splits)
  have "update_inv [] None False" by (simp add: update_inv_def)
  with parse_update_ok [OF ls1_ok _ u] obtain e where r: "list_all line_ok r" and inv: "update_inv cs c e"
    by blast
  have "list_all wf_chunk cs' \<and> length cs' \<le> MAX_CODEX_PATCH_CHUNKS_PER_FILE
      \<and> list_all (\<lambda>c. \<not> is_end_of_file c) (butlast cs')"
  proof (cases c)
    case None
    with pc inv show ?thesis by (auto simp: update_inv_def list_all_iff dest: in_set_butlastD)
  next
    case (Some k)
    with pc have "push_chunk cs k (sat_add j 1) = Inr cs'" by simp
    from push_chunk_ok [OF this] inv Some show ?thesis
      by (auto simp: update_inv_def list_all_iff dest: in_set_butlastD)
  qed
  with r h ne d_ok assms(1) show ?thesis by auto
qed

lemma parse_hunks_ok:
  "list_all line_ok ls \<Longrightarrow> list_all wf_hunk hs \<Longrightarrow> length hs \<le> MAX_CODEX_PATCH_FILE_CHANGES
   \<Longrightarrow> parse_hunks i ls hs = Inr (hs', e, j, r)
   \<Longrightarrow> list_all wf_hunk hs' \<and> length hs' \<le> MAX_CODEX_PATCH_FILE_CHANGES"
proof (induction i ls hs rule: parse_hunks.induct)
  case (1 index lines hunks)
  obtain j0 r0 where sb: "skip_blank index lines = (j0, r0)" by fastforce
  show ?case
  proof (cases r0)
    case Nil
    with "1.prems" sb show ?thesis by (simp add: parse_hunks.simps [of index lines])
  next
    case (Cons line rest)
    have ok: "line_ok line" "list_all line_ok rest"
      using skip_blank_ok [OF "1.prems"(1) sb] Cons by auto
    note unf = "1.prems"(4) [unfolded parse_hunks.simps [of index lines] sb Cons prod.case list.case]
    show ?thesis
    proof (cases "trim_end line = END_PATCH_MARKER \<or> MAX_CODEX_PATCH_FILE_CHANGES \<le> length hunks")
      case True
      with unf "1.prems" show ?thesis by (auto split: if_splits)
    next
      case False
      then have len: "\<And>h. length (hunks @ [h]) \<le> MAX_CODEX_PATCH_FILE_CHANGES" by simp
      consider (add) p where "marker_path line ADD_FILE_MARKER = Some p"
        | (del) p where "marker_path line ADD_FILE_MARKER = None" "marker_path line DELETE_FILE_MARKER = Some p"
        | (upd) p where "marker_path line ADD_FILE_MARKER = None" "marker_path line DELETE_FILE_MARKER = None"
            "marker_path line UPDATE_FILE_MARKER = Some p"
        using False unf by (auto split: option.splits if_splits)
      then show ?thesis
      proof cases
        case add
        with unf False obtain j1 r1 h where h: "parse_add_file p (j0 + 1) rest = Inr (j1, r1, h)"
          and rec: "parse_hunks j1 r1 (hunks @ [h]) = Inr (hs', e, j, r)"
          by (auto split: sum.splits)
        have "list_all line_ok r1 \<and> wf_hunk h"
          using parse_add_file_ok [OF marker_path_ok [OF ok(1) add] ok(2) h] .
        then show ?thesis
          using "1.IH"(3) [OF sb [symmetric] Cons _ _ add h refl refl _ _ len rec] False "1.prems"(2)
          by simp
      next
        case del
        with unf False have rec: "parse_hunks (j0 + 1) rest (hunks @ [DeleteFile p]) = Inr (hs', e, j, r)" by simp
        have "wf_hunk (DeleteFile p)" using marker_path_ok [OF ok(1) del(2)] by simp
        then show ?thesis
          using "1.IH"(2) [of j0 r0 line rest p] sb Cons False del rec len "1.prems"(2) ok
          by auto
      next
        case upd
        with unf False obtain j1 r1 h where h: "parse_update_file p (j0 + 1) rest = Inr (j1, r1, h)"
          and rec: "parse_hunks j1 r1 (hunks @ [h]) = Inr (hs', e, j, r)"
          by (auto split: sum.splits)
        have "list_all line_ok r1 \<and> wf_hunk h"
          using parse_update_file_ok [OF marker_path_ok [OF ok(1) upd(3)] ok(2) h] .
        then show ?thesis
          using "1.IH"(1) [OF sb [symmetric] Cons _ _ upd h refl refl _ _ len rec] False "1.prems"(2)
          by simp
      qed
    qed
  qed
qed

lemma replace_crlf_lf_only: "CR \<notin> set (replace_crlf s) \<Longrightarrow> p \<in> set (split_char LF (replace_crlf s)) \<Longrightarrow> line_ok p"
  using split_by_parts [of p "\<lambda>x. x = LF" "replace_crlf s"] split_by_chars [of p "\<lambda>x. x = LF" "replace_crlf s"]
  by (auto simp: line_ok_def)

lemma normalized_patch_lines_ok: "normalized_patch_lines patch = Inr ls \<Longrightarrow> list_all line_ok ls"
  by (auto simp: normalized_patch_lines_def Let_def list_all_iff split: if_splits intro: replace_crlf_lf_only)

lemma parse_codex_patch_wf:
  assumes "parse_codex_patch patch = Inr hunks"
  shows "wf_patch hunks"
proof -
  from assms obtain ls i rest hs' saw j r where
    ls: "normalized_patch_lines patch = Inr ls" and sb: "skip_blank 0 ls = (i, rest)"
    and ph: "parse_hunks (i + 1) (tl rest) [] = Inr (hunks, saw, j, r)" and "hunks \<noteq> []"
    by (auto simp: parse_codex_patch_def split: sum.splits prod.splits if_splits)
  have "list_all line_ok (tl rest)"
    using skip_blank_ok [OF normalized_patch_lines_ok [OF ls] sb] by (cases rest) auto
  from parse_hunks_ok [OF this _ _ ph] \<open>hunks \<noteq> []\<close> show ?thesis by (simp add: wf_patch_def)
qed

text \<open>Everything the patch parser accepts is well formed: between 1 and 64 file operations,
  paths and destinations trimmed, non-empty and free of line breaks, added files non-empty
  and newline-terminated, at most 256 chunks per update, every chunk with a change or an
  end-of-file mark, and the end-of-file mark on no chunk but the last.\<close>

theorem parse_codex_patch_well_formed:
  assumes "parse_codex_patch patch = Inr hunks"
  shows "wf_patch hunks"
  by (rule parse_codex_patch_wf [OF assms])

theorem parse_codex_patch_well_formed_witness:
  "wf_patch [DeleteFile (lit ''a.txt'')]"
proof (rule parse_codex_patch_well_formed)
  let ?ls = "[BEGIN_PATCH_MARKER, lit ''*** Delete File: a.txt'', END_PATCH_MARKER]"
  have "split_char LF (replace_crlf (join [LF] ?ls)) = ?ls" "CR \<notin> set (replace_crlf (join [LF] ?ls))" by code_simp+
  moreover have "str_len (join [LF] ?ls) \<le> MAX_CODEX_PATCH_BYTES" "join [LF] ?ls \<noteq> []"
    by (simp_all add: markers lit_def utf8_width_def MAX_CODEX_PATCH_BYTES_def)
  ultimately have parts: "normalized_patch_lines (join [LF] ?ls) = Inr ?ls"
    by (simp add: normalized_patch_lines_def Let_def del: join.simps)
  have m: "marker_path (lit ''*** Delete File: a.txt'') ADD_FILE_MARKER = None"
    "marker_path (lit ''*** Delete File: a.txt'') DELETE_FILE_MARKER = Some (lit ''a.txt'')"
    "trim (lit ''*** Delete File: a.txt'') \<noteq> []" "trim END_PATCH_MARKER \<noteq> []"
    "trim_end (lit ''*** Delete File: a.txt'') \<noteq> END_PATCH_MARKER"
    "trim_end END_PATCH_MARKER = END_PATCH_MARKER" "trim BEGIN_PATCH_MARKER = BEGIN_PATCH_MARKER"
    "BEGIN_PATCH_MARKER \<noteq> []" by (simp_all add: marker_path_def markers str_simps)
  have run: "parse_hunks 1 [lit ''*** Delete File: a.txt'', END_PATCH_MARKER] []
      = Inr ([DeleteFile (lit ''a.txt'')], True, 3, [])"
    using m by (simp add: parse_hunks.simps [of "Suc 0"] parse_hunks.simps [of "Suc (Suc 0)"] MAX_CODEX_PATCH_FILE_CHANGES_def)
  show "parse_codex_patch (join [LF] [BEGIN_PATCH_MARKER, lit ''*** Delete File: a.txt'', END_PATCH_MARKER])
      = Inr [DeleteFile (lit ''a.txt'')]"
    unfolding parse_codex_patch_def parts using run m by simp
qed

section \<open>Printing\<close>

definition render_chunk :: "CodexPatchChunk \<Rightarrow> rstr list" where
  "render_chunk c =
     (case change_context c of None \<Rightarrow> lit ''@@'' | Some x \<Rightarrow> lit ''@@ '' @ x)
     # map (\<lambda>l. 45 # l) (old_lines c) @ map (\<lambda>l. 43 # l) (new_lines c)
     @ (if is_end_of_file c then [END_OF_FILE_MARKER] else [])"

primrec render_hunk :: "CodexPatchHunk \<Rightarrow> rstr list" where
  "render_hunk (AddFile path contents) =
     (ADD_FILE_MARKER @ 32 # path) # map (\<lambda>l. 43 # l) (butlast (split_char LF contents))"
| "render_hunk (DeleteFile path) = [DELETE_FILE_MARKER @ 32 # path]"
| "render_hunk (UpdateFile path mv chunks) =
     (UPDATE_FILE_MARKER @ 32 # path)
     # (case mv of None \<Rightarrow> [] | Some m \<Rightarrow> [MOVE_TO_MARKER @ 32 # m])
     @ concat (map render_chunk chunks)"

definition render_patch :: "CodexPatchHunk list \<Rightarrow> rstr" where
  "render_patch hunks = join [LF] (BEGIN_PATCH_MARKER # concat (map render_hunk hunks) @ [END_PATCH_MARKER])"

lemma non_ws [simp]: "\<not> is_whitespace 42" "\<not> is_whitespace 43" "\<not> is_whitespace 45" "\<not> is_whitespace 64"
  by (simp_all add: is_whitespace_def)

text \<open>Lines that start with a content prefix are never taken for markers or blanks.\<close>

lemma marker_path_other:
  assumes "\<not> is_whitespace c" "m \<noteq> []" "hd m \<noteq> c"
  shows "marker_path (c # l) m = None"
proof -
  obtain t where "trim_end (c # l) = c # t" using trim_end_Cons [OF assms(1)] by blast
  with assms show ?thesis
    by (cases m) (auto simp: marker_path_def strip_prefix_def starts_with_def)
qed

lemma content_line_ends:
  assumes "c = 43 \<or> c = 45 \<or> c = 64"
  shows "\<not> ends_hunk (c # l) \<and> trim (c # l) \<noteq> [] \<and> marker_path (c # l) MOVE_TO_MARKER = None"
proof -
  have w: "\<not> is_whitespace c" using assms by auto
  obtain t where "trim_end (c # l) = c # t" using trim_end_Cons [OF w] by blast
  moreover have "hd ADD_FILE_MARKER \<noteq> c" "hd DELETE_FILE_MARKER \<noteq> c" "hd UPDATE_FILE_MARKER \<noteq> c"
    "hd MOVE_TO_MARKER \<noteq> c" "c # t \<noteq> END_PATCH_MARKER" using assms by (auto simp: markers lit_def)
  moreover have "ADD_FILE_MARKER \<noteq> []" "DELETE_FILE_MARKER \<noteq> []" "UPDATE_FILE_MARKER \<noteq> []"
    "MOVE_TO_MARKER \<noteq> []" by (simp_all add: markers lit_def)
  ultimately show ?thesis
    using w trim_Cons [OF w, of l]
    by (auto simp: ends_hunk_def is_file_header_def marker_path_other)
qed

lemma marker_path_name:
  assumes "name_ok p"
  shows "marker_path (m @ 32 # p) m = Some p"
proof -
  have p: "trim p = p" "p \<noteq> []" using assms by (auto simp: name_ok_def)
  have "trim_end (m @ 32 # p) = m @ 32 # p" using trim_end_append_fixed [OF p, of "m @ [32]"] by simp
  then show ?thesis using p trim_space_fixed [OF p]
    by (simp add: marker_path_def strip_prefix_def starts_with_def)
qed

lemma marker_path_distinct:
  assumes "name_ok p"
  shows "marker_path (DELETE_FILE_MARKER @ 32 # p) ADD_FILE_MARKER = None"
    "marker_path (UPDATE_FILE_MARKER @ 32 # p) ADD_FILE_MARKER = None"
    "marker_path (UPDATE_FILE_MARKER @ 32 # p) DELETE_FILE_MARKER = None"
proof -
  have p: "trim p = p" "p \<noteq> []" using assms by (auto simp: name_ok_def)
  have t: "trim_end (m @ 32 # p) = m @ 32 # p" for m
    using trim_end_append_fixed [OF p, of "m @ [32]"] by simp
  show "marker_path (DELETE_FILE_MARKER @ 32 # p) ADD_FILE_MARKER = None"
    "marker_path (UPDATE_FILE_MARKER @ 32 # p) ADD_FILE_MARKER = None"
    "marker_path (UPDATE_FILE_MARKER @ 32 # p) DELETE_FILE_MARKER = None"
    unfolding marker_path_def t by (simp_all add: strip_prefix_def starts_with_def markers lit_def)
qed

lemma header_ends_hunk:
  "name_ok p \<Longrightarrow> ends_hunk (ADD_FILE_MARKER @ 32 # p)"
  "name_ok p \<Longrightarrow> ends_hunk (DELETE_FILE_MARKER @ 32 # p)"
  "name_ok p \<Longrightarrow> ends_hunk (UPDATE_FILE_MARKER @ 32 # p)"
  "ends_hunk END_PATCH_MARKER"
  by (auto simp: ends_hunk_def is_file_header_def marker_path_name)
    (simp add: markers lit_def trim_end_def is_whitespace_def)

lemma parse_add_lines:
  "ends_hunk t \<Longrightarrow> parse_add i (map (\<lambda>l. 43 # l) ls @ t # ts) a = Inr (i + length ls, t # ts, a @ ls)"
proof (induction ls arbitrary: i a)
  case (Cons l ls)
  then show ?case using content_line_ends [of 43 l] by (simp add: strip_prefix_def starts_with_def)
qed simp

lemma content_not_special:
  assumes "c = 43 \<or> c = 45"
  shows "trim_end (c # l) \<noteq> lit ''@@''" "\<not> starts_with (trim_end (c # l)) (lit ''@@ '')"
    "trim_end (c # l) \<noteq> END_OF_FILE_MARKER"
proof -
  have "\<not> is_whitespace c" using assms by auto
  then obtain t where "trim_end (c # l) = c # t" using trim_end_Cons by blast
  then show "trim_end (c # l) \<noteq> lit ''@@''" "\<not> starts_with (trim_end (c # l)) (lit ''@@ '')"
    "trim_end (c # l) \<noteq> END_OF_FILE_MARKER"
    using assms by (auto simp: lit_def starts_with_def markers)
qed

lemma parse_update_old:
  "parse_update i (map (\<lambda>l. 45 # l) ls @ rest) cs (Some c) False =
   parse_update (i + length ls) rest cs (Some (c\<lparr>old_lines := old_lines c @ ls\<rparr>)) False"
proof (induction ls arbitrary: i c)
  case (Cons l ls)
  then show ?case
    using content_line_ends [of 45 l] content_not_special [of 45 l]
    by (simp add: Let_def add_update_line_def)
qed simp

lemma parse_update_new:
  "parse_update i (map (\<lambda>l. 43 # l) ls @ rest) cs (Some c) False =
   parse_update (i + length ls) rest cs (Some (c\<lparr>new_lines := new_lines c @ ls\<rparr>)) False"
proof (induction ls arbitrary: i c)
  case (Cons l ls)
  then show ?case
    using content_line_ends [of 43 l] content_not_special [of 43 l]
    by (simp add: Let_def add_update_line_def)
qed simp

lemma eof_marker_line:
  "\<not> ends_hunk END_OF_FILE_MARKER" "trim END_OF_FILE_MARKER \<noteq> []"
  "trim_end END_OF_FILE_MARKER = END_OF_FILE_MARKER" "END_OF_FILE_MARKER \<noteq> lit ''@@''"
  "\<not> starts_with END_OF_FILE_MARKER (lit ''@@ '')"
  by (simp_all add: ends_hunk_def is_file_header_def marker_path_def markers str_simps)

lemma parse_update_eof:
  "parse_update i (END_OF_FILE_MARKER # rest) cs (Some c) False =
   parse_update (i + 1) rest cs (Some (c\<lparr>is_end_of_file := True\<rparr>)) True"
  using eof_marker_line by (simp add: Let_def)

definition context_line :: "CodexPatchChunk \<Rightarrow> rstr" where
  "context_line c = (case change_context c of None \<Rightarrow> lit ''@@'' | Some x \<Rightarrow> lit ''@@ '' @ x)"

lemma context_line_parsed:
  assumes "pred_option name_ok (change_context c)"
  shows "trim_end (context_line c) = context_line c"
    "context_line c = lit ''@@'' \<or> starts_with (context_line c) (lit ''@@ '')"
    "(case strip_prefix (context_line c) (lit ''@@ '') of None \<Rightarrow> None
       | Some v \<Rightarrow> if trim v = [] then None else Some (trim v)) = change_context c"
    "\<exists>l. context_line c = 64 # l"
proof -
  have *: "trim_end (context_line c) = context_line c
    \<and> (context_line c = lit ''@@'' \<or> starts_with (context_line c) (lit ''@@ ''))
    \<and> (case strip_prefix (context_line c) (lit ''@@ '') of None \<Rightarrow> None
       | Some v \<Rightarrow> if trim v = [] then None else Some (trim v)) = change_context c
    \<and> (\<exists>l. context_line c = 64 # l)"
  proof (cases "change_context c")
    case None
    then show ?thesis
      by (simp add: context_line_def lit_def trim_end_def strip_prefix_def starts_with_def)
  next
    case (Some x)
    then have "trim x = x" "x \<noteq> []" using assms by (auto simp: name_ok_def)
    with Some show ?thesis
      using trim_end_append_fixed [of x "lit ''@@ ''"]
      by (simp add: context_line_def strip_prefix_def starts_with_def) (simp add: lit_def)
  qed
  then show "trim_end (context_line c) = context_line c"
    "context_line c = lit ''@@'' \<or> starts_with (context_line c) (lit ''@@ '')"
    "(case strip_prefix (context_line c) (lit ''@@ '') of None \<Rightarrow> None
       | Some v \<Rightarrow> if trim v = [] then None else Some (trim v)) = change_context c"
    "\<exists>l. context_line c = 64 # l" by blast+
qed

lemma parse_update_chunk:
  assumes "chunk_ok c"
    and "(case cur of None \<Rightarrow> Inr cs | Some chunk \<Rightarrow> push_chunk cs chunk (i + 1)) = Inr cs'"
  shows "parse_update i (render_chunk c @ rest) cs cur False =
    parse_update (i + length (render_chunk c)) rest cs' (Some c) (is_end_of_file c)"
proof -
  have ctx: "pred_option name_ok (change_context c)" using assms(1) by (simp add: chunk_ok_def)
  note line = context_line_parsed [OF ctx]
  from line(4) obtain l where l: "context_line c = 64 # l" by blast
  have "\<not> ends_hunk (context_line c)" "trim (context_line c) \<noteq> []"
    unfolding l using content_line_ends [of 64 l] by auto
  then have first: "parse_update i (context_line c # r) cs cur False =
      parse_update (i + 1) r cs' (Some (empty_chunk\<lparr>change_context := change_context c\<rparr>)) False" for r
    using assms(2) line(1,2,3) by (simp add: Let_def)
  have rc: "render_chunk c = context_line c # map (\<lambda>l. 45 # l) (old_lines c) @ map (\<lambda>l. 43 # l) (new_lines c)
     @ (if is_end_of_file c then [END_OF_FILE_MARKER] else [])"
    by (simp add: render_chunk_def context_line_def)
  show ?thesis
  proof (cases "is_end_of_file c")
    case True
    then have eq: "\<lparr>change_context = change_context c, old_lines = old_lines c,
        new_lines = new_lines c, is_end_of_file = True\<rparr> = c" by (cases c) simp
    have "parse_update i (render_chunk c @ rest) cs cur False =
      parse_update (i + length (render_chunk c)) rest cs' (Some \<lparr>change_context = change_context c,
        old_lines = old_lines c, new_lines = new_lines c, is_end_of_file = True\<rparr>) True"
      unfolding rc using True
      by (simp del: parse_update.simps
          add: first parse_update_old parse_update_new parse_update_eof empty_chunk_def add.assoc)
    then show ?thesis unfolding eq using True by (simp only:)
  next
    case False
    then have eq: "\<lparr>change_context = change_context c, old_lines = old_lines c,
        new_lines = new_lines c, is_end_of_file = False\<rparr> = c" by (cases c) simp
    have "parse_update i (render_chunk c @ rest) cs cur False =
      parse_update (i + length (render_chunk c)) rest cs' (Some \<lparr>change_context = change_context c,
        old_lines = old_lines c, new_lines = new_lines c, is_end_of_file = False\<rparr>) False"
      unfolding rc using False
      by (simp del: parse_update.simps
          add: first parse_update_old parse_update_new empty_chunk_def add.assoc)
    then show ?thesis unfolding eq using False by (simp only:)
  qed
qed

lemma push_chunk_wf:
  "wf_chunk c \<Longrightarrow> length cs < MAX_CODEX_PATCH_CHUNKS_PER_FILE \<Longrightarrow> push_chunk cs c l = Inr (cs @ [c])"
  by (auto simp: push_chunk_def wf_chunk_def)

lemma parse_update_chunks:
  assumes "list_all wf_chunk (c # ds)" "list_all (\<lambda>c. \<not> is_end_of_file c) (butlast (c # ds))"
    "length cs + length ds < MAX_CODEX_PATCH_CHUNKS_PER_FILE" "ends_hunk t"
  shows "\<exists>j. parse_update i (concat (map render_chunk ds) @ t # ts) cs (Some c) (is_end_of_file c)
     = Inr (j, t # ts, cs @ butlast (c # ds), Some (last (c # ds)))"
  using assms
proof (induction ds arbitrary: i cs c)
  case (Cons d ds)
  have push: "(case Some c of None \<Rightarrow> Inr cs | Some chunk \<Rightarrow> push_chunk cs chunk (i + 1)) = Inr (cs @ [c])"
    using Cons.prems by (simp add: push_chunk_wf)
  have "chunk_ok d" "\<not> is_end_of_file c" using Cons.prems by (auto simp: wf_chunk_def)
  with parse_update_chunk [OF _ push, of d "concat (map render_chunk ds) @ t # ts"]
  show ?case
    using Cons.IH [of d "cs @ [c]" "i + length (render_chunk d)"] Cons.prems
    by (simp del: parse_update.simps)
qed simp

lemma parse_update_file_render:
  assumes "wf_hunk (UpdateFile p mv cs)" "ends_hunk t"
  shows "\<exists>j. parse_update_file p i (tl (render_hunk (UpdateFile p mv cs)) @ t # ts)
     = Inr (j, t # ts, UpdateFile p mv cs)"
proof -
  let ?body = "concat (map render_chunk cs) @ t # ts"
  let ?full = "(case mv of None \<Rightarrow> [] | Some m \<Rightarrow> [MOVE_TO_MARKER @ 32 # m]) @ ?body"
  have wf: "list_all wf_chunk cs" "list_all (\<lambda>c. \<not> is_end_of_file c) (butlast cs)"
    "length cs \<le> MAX_CODEX_PATCH_CHUNKS_PER_FILE" "pred_option name_ok mv" "mv \<noteq> None \<or> cs \<noteq> []"
    using assms(1) by auto
  have dest: "(case ?full of [] \<Rightarrow> None | current # _ \<Rightarrow> marker_path current MOVE_TO_MARKER) = mv"
  proof (cases mv)
    case None
    then obtain c ds where cs: "cs = c # ds" using wf(5) by (cases cs) auto
    then have "pred_option name_ok (change_context c)" using wf(1) by (auto simp: wf_chunk_def chunk_ok_def)
    from context_line_parsed(4) [OF this] obtain l where "context_line c = 64 # l" by blast
    then have "\<exists>r. ?full = (64 # l) # r" using None cs by (auto simp: render_chunk_def context_line_def)
    with None show ?thesis using content_line_ends [of 64 l] by auto
  next
    case (Some m)
    with wf(4) show ?thesis by (simp add: marker_path_name)
  qed
  have rest: "(if mv = None then ?full else tl ?full) = ?body" by (cases mv) auto
  have upd: "\<exists>j ks k. parse_update i' ?body [] None False = Inr (j, t # ts, ks, k)
      \<and> (case k of None \<Rightarrow> Inr ks | Some chunk \<Rightarrow> push_chunk ks chunk (sat_add j 1)) = Inr cs" for i'
  proof (cases cs)
    case Nil
    then show ?thesis using assms(2) by simp
  next
    case (Cons c ds)
    have "chunk_ok c" using wf(1) Cons by (simp add: wf_chunk_def)
    then have "parse_update i' ?body [] None False =
        parse_update (i' + length (render_chunk c)) (concat (map render_chunk ds) @ t # ts) [] (Some c) (is_end_of_file c)"
      using parse_update_chunk [where cur = None and cs = "[]" and cs' = "[]" and i = i'] Cons
      by (simp del: parse_update.simps)
    also obtain j where "\<dots> = Inr (j, t # ts, butlast cs, Some (last cs))"
      using parse_update_chunks [of c ds "[]" t "i' + length (render_chunk c)" ts] wf Cons assms(2) by auto
    finally have "parse_update i' ?body [] None False = Inr (j, t # ts, butlast cs, Some (last cs))" .
    moreover have "push_chunk (butlast cs) (last cs) l = Inr cs" for l
      using push_chunk_wf [of "last cs" "butlast cs"] wf Cons by (auto simp: list_all_iff)
    ultimately show ?thesis by auto
  qed
  from upd obtain j ks k where
    "parse_update (if mv = None then i else i + 1) ?body [] None False = Inr (j, t # ts, ks, k)"
    "(case k of None \<Rightarrow> Inr ks | Some chunk \<Rightarrow> push_chunk ks chunk (sat_add j 1)) = Inr cs" by blast
  then have "parse_update_file p i ?full = Inr (j, t # ts, UpdateFile p mv cs)"
    unfolding parse_update_file_def Let_def dest rest using wf(5) by (simp del: parse_update.simps)
  then show ?thesis by auto
qed

lemma header_lines:
  assumes "name_ok p"
  shows "trim (ADD_FILE_MARKER @ 32 # p) \<noteq> []" "trim (DELETE_FILE_MARKER @ 32 # p) \<noteq> []"
    "trim (UPDATE_FILE_MARKER @ 32 # p) \<noteq> []"
    "trim_end (ADD_FILE_MARKER @ 32 # p) \<noteq> END_PATCH_MARKER"
    "trim_end (DELETE_FILE_MARKER @ 32 # p) \<noteq> END_PATCH_MARKER"
    "trim_end (UPDATE_FILE_MARKER @ 32 # p) \<noteq> END_PATCH_MARKER"
proof -
  have p: "trim p = p" "p \<noteq> []" using assms by (auto simp: name_ok_def)
  have t: "trim_end (m @ 32 # p) = m @ 32 # p" for m
    using trim_end_append_fixed [OF p, of "m @ [32]"] by simp
  have c: "trim (42 # s) \<noteq> []" for s by (rule trim_Cons) simp
  show "trim (ADD_FILE_MARKER @ 32 # p) \<noteq> []" "trim (DELETE_FILE_MARKER @ 32 # p) \<noteq> []"
    "trim (UPDATE_FILE_MARKER @ 32 # p) \<noteq> []" by (simp_all add: markers lit_def c)
  show "trim_end (ADD_FILE_MARKER @ 32 # p) \<noteq> END_PATCH_MARKER"
    "trim_end (DELETE_FILE_MARKER @ 32 # p) \<noteq> END_PATCH_MARKER"
    "trim_end (UPDATE_FILE_MARKER @ 32 # p) \<noteq> END_PATCH_MARKER"
    unfolding t by (simp_all add: markers lit_def)
qed

lemma render_hunk_first:
  "wf_hunk h \<Longrightarrow> \<exists>t ts. render_hunk h = t # ts \<and> ends_hunk t"
  by (cases h) (auto intro: header_ends_hunk)

lemma render_hunks_first:
  "list_all wf_hunk hs \<Longrightarrow> \<exists>t ts. concat (map render_hunk hs) @ [END_PATCH_MARKER] = t # ts \<and> ends_hunk t"
  using header_ends_hunk(4) render_hunk_first by (cases hs) fastforce+

lemma parse_hunks_step:
  assumes "wf_hunk h" "length acc < MAX_CODEX_PATCH_FILE_CHANGES" "ends_hunk t"
  shows "\<exists>j. parse_hunks i (render_hunk h @ t # ts) acc = parse_hunks j (t # ts) (acc @ [h])"
proof (cases h)
  case (AddFile p c)
  then obtain ls where p: "name_ok p" and ls: "ls \<noteq> []" "list_all line_ok ls" "c = join [LF] ls @ [LF]"
    using assms(1) by auto
  have "split_char LF c = ls @ [[]]"
  proof -
    have "c = join [LF] (ls @ [[]])" using ls(1,3) by (simp add: join_snoc)
    then show ?thesis using ls(2) by (auto simp: line_ok_def list_all_iff intro!: split_char_join)
  qed
  then have "parse_add_file p (i + 1) (map (\<lambda>l. 43 # l) (butlast (split_char LF c)) @ t # ts)
      = Inr (i + 1 + length ls, t # ts, h)"
    using AddFile ls parse_add_lines [OF assms(3), of "i + 1" ls ts "[]"] by (simp add: parse_add_file_def)
  then show ?thesis
    using AddFile p assms(2) header_lines [OF p] marker_path_name [OF p]
    by (subst parse_hunks.simps) auto
next
  case (DeleteFile p)
  then have p: "name_ok p" using assms(1) by simp
  with DeleteFile show ?thesis
    using assms(2) header_lines [OF p] marker_path_name [OF p] marker_path_distinct [OF p]
    by (subst parse_hunks.simps) auto
next
  case (UpdateFile p mv cs)
  then have p: "name_ok p" using assms(1) by simp
  obtain j where "parse_update_file p (i + 1) (tl (render_hunk h) @ t # ts) = Inr (j, t # ts, h)"
    using parse_update_file_render assms(1,3) UpdateFile by blast
  with UpdateFile p show ?thesis
    using assms(2) header_lines [OF p] marker_path_name [OF p] marker_path_distinct [OF p]
    by (subst parse_hunks.simps) auto
qed

lemma parse_hunks_render:
  "list_all wf_hunk hs \<Longrightarrow> length acc + length hs \<le> MAX_CODEX_PATCH_FILE_CHANGES \<Longrightarrow>
   \<exists>j. parse_hunks i (concat (map render_hunk hs) @ [END_PATCH_MARKER]) acc = Inr (acc @ hs, True, j, [])"
proof (induction hs arbitrary: i acc)
  case Nil
  have "trim END_PATCH_MARKER \<noteq> []" "trim_end END_PATCH_MARKER = END_PATCH_MARKER"
    by (simp_all add: markers str_simps)
  then show ?case by (subst parse_hunks.simps) simp
next
  case (Cons h hs)
  obtain t ts where t: "concat (map render_hunk hs) @ [END_PATCH_MARKER] = t # ts" "ends_hunk t"
    using render_hunks_first [of hs] Cons.prems by (auto simp del: map_append concat_append)
  obtain j where "parse_hunks i (render_hunk h @ t # ts) acc = parse_hunks j (t # ts) (acc @ [h])"
    using parse_hunks_step [of h acc t i ts] Cons.prems t(2) by auto
  then show ?case using Cons.IH [of "acc @ [h]" j] Cons.prems t(1) by auto
qed

lemma render_lines_ok:
  "chunk_ok c \<Longrightarrow> list_all line_ok (render_chunk c)"
  "wf_hunk h \<Longrightarrow> list_all line_ok (render_hunk h)"
proof -
  have m: "line_ok BEGIN_PATCH_MARKER" "line_ok END_PATCH_MARKER" "line_ok ADD_FILE_MARKER"
    "line_ok DELETE_FILE_MARKER" "line_ok UPDATE_FILE_MARKER" "line_ok MOVE_TO_MARKER"
    "line_ok END_OF_FILE_MARKER" "line_ok (lit ''@@'')" "line_ok (lit ''@@ '')" by code_simp+
  have cons: "line_ok (x # l) \<longleftrightarrow> x \<noteq> LF \<and> x \<noteq> CR \<and> line_ok l" for x l
    by (auto simp: line_ok_def)
  have chunk: "list_all line_ok (render_chunk c)" if "chunk_ok c" for c
    using that m
    by (auto simp: render_chunk_def chunk_ok_def list_all_iff cons line_ok_append name_ok_def split: option.splits)
  then show "chunk_ok c \<Longrightarrow> list_all line_ok (render_chunk c)" .
  show "list_all line_ok (render_hunk h)" if "wf_hunk h"
  proof (cases h)
    case (AddFile p c)
    with that obtain ls where ls: "ls \<noteq> []" "list_all line_ok ls" "c = join [LF] ls @ [LF]" and "name_ok p"
      by auto
    then have "c = join [LF] (ls @ [[]])" by (simp add: join_snoc)
    then have "split_char LF c = ls @ [[]]"
      using ls(2) by (auto simp: line_ok_def list_all_iff intro!: split_char_join)
    then show ?thesis
      using AddFile m ls(2) \<open>name_ok p\<close> by (auto simp: list_all_iff cons line_ok_append name_ok_def)
  next
    case (UpdateFile p mv cs)
    then show ?thesis
      using that m chunk by (fastforce simp: list_all_iff cons line_ok_append name_ok_def wf_chunk_def split: option.splits)
  qed (use that m in \<open>auto simp: cons line_ok_append name_ok_def\<close>)
qed

lemma patch_lines_ok:
  assumes "wf_patch hs"
  shows "list_all line_ok (BEGIN_PATCH_MARKER # concat (map render_hunk hs) @ [END_PATCH_MARKER])"
proof -
  have "line_ok BEGIN_PATCH_MARKER" "line_ok END_PATCH_MARKER" by code_simp+
  then show ?thesis using assms render_lines_ok(2) by (fastforce simp: wf_patch_def list_all_iff)
qed

lemma normalized_lines_render:
  assumes "wf_patch hs" "str_len (render_patch hs) \<le> MAX_CODEX_PATCH_BYTES"
  shows "normalized_patch_lines (render_patch hs)
     = Inr (BEGIN_PATCH_MARKER # concat (map render_hunk hs) @ [END_PATCH_MARKER])"
proof -
  let ?ls = "BEGIN_PATCH_MARKER # concat (map render_hunk hs) @ [END_PATCH_MARKER]"
  note ok = patch_lines_ok [OF assms(1)]
  have "CR \<notin> set (render_patch hs)"
  proof
    assume "CR \<in> set (render_patch hs)"
    from set_join [OF this [unfolded render_patch_def]] ok show False
      by (auto simp: line_ok_def list_all_iff)
  qed
  moreover have "split_char LF (render_patch hs) = ?ls"
    unfolding render_patch_def using ok by (intro split_char_join) (auto simp: line_ok_def list_all_iff)
  moreover have "render_patch hs \<noteq> []" by (simp add: render_patch_def join_Cons)
  ultimately show ?thesis
    using assms(2) by (simp add: normalized_patch_lines_def Let_def replace_crlf_no_cr)
qed

lemma parse_render_patch:
  assumes "wf_patch hunks" "str_len (render_patch hunks) \<le> MAX_CODEX_PATCH_BYTES"
  shows "parse_codex_patch (render_patch hunks) = Inr hunks"
proof -
  have b: "trim BEGIN_PATCH_MARKER \<noteq> []" "trim BEGIN_PATCH_MARKER = BEGIN_PATCH_MARKER"
    by (simp_all add: markers str_simps)
  obtain j where "parse_hunks 1 (concat (map render_hunk hunks) @ [END_PATCH_MARKER]) [] = Inr (hunks, True, j, [])"
    using parse_hunks_render [of hunks "[]" 1] assms(1) by (auto simp: wf_patch_def)
  with b assms show ?thesis
    by (simp add: parse_codex_patch_def normalized_lines_render wf_patch_def)
qed



end
