(* ===== verification/Patch_Apply.thy ===== *)
theory Patch_Apply
  imports Patch_Parse Text_Edits
begin

text \<open>
  The text-update half of \<open>crates/webcodex-core/src/apply_patch_shared.rs\<close>: the tiered search
  for a block of lines (\<open>seek_sequence\<close>), the facts it reports about uniqueness, the
  structural hint of a failed search, and \<open>derive_codex_patch_update\<close>, which turns a file and
  the chunks of an update into the new file.

  The replacement loop of the source splices a vector from the last replacement to the
  first; \<open>Vec::splice\<close> panics on a range that is out of bounds, so a splice is an option
  and \<open>None\<close> of the outermost result is that panic.
\<close>

section \<open>Modes and match facts\<close>

datatype CodexPatchMatchMode = Exact | TrimEnd | Trim | Normalized

primrec CodexPatchMatchMode_as_str :: "CodexPatchMatchMode \<Rightarrow> rstr" where
  "CodexPatchMatchMode_as_str Exact = lit ''exact''"
| "CodexPatchMatchMode_as_str TrimEnd = lit ''trim_end''"
| "CodexPatchMatchMode_as_str Trim = lit ''trim''"
| "CodexPatchMatchMode_as_str Normalized = lit ''normalized''"

text \<open>The derived order: the declaration order of the variants.\<close>

primrec mode_rank :: "CodexPatchMatchMode \<Rightarrow> nat" where
  "mode_rank Exact = 0"
| "mode_rank TrimEnd = 1"
| "mode_rank Trim = 2"
| "mode_rank Normalized = 3"

lemma mode_rank_inj: "mode_rank x = mode_rank y \<Longrightarrow> x = y"
  by (cases x; cases y) auto

instantiation CodexPatchMatchMode :: linorder
begin

definition less_eq_CodexPatchMatchMode :: "CodexPatchMatchMode \<Rightarrow> CodexPatchMatchMode \<Rightarrow> bool" where
  "x \<le> y \<longleftrightarrow> mode_rank x \<le> mode_rank y"

definition less_CodexPatchMatchMode :: "CodexPatchMatchMode \<Rightarrow> CodexPatchMatchMode \<Rightarrow> bool" where
  "x < y \<longleftrightarrow> mode_rank x < mode_rank y"

instance
  by standard
    (auto simp: less_eq_CodexPatchMatchMode_def less_CodexPatchMatchMode_def intro: mode_rank_inj)

end

datatype ApplyPatchMatchingMode = FirstMatch | Unique | ExactUnique

primrec ApplyPatchMatchingMode_as_str :: "ApplyPatchMatchingMode \<Rightarrow> rstr" where
  "ApplyPatchMatchingMode_as_str FirstMatch = lit ''first_match''"
| "ApplyPatchMatchingMode_as_str Unique = lit ''unique''"
| "ApplyPatchMatchingMode_as_str ExactUnique = lit ''exact_unique''"

definition MAX_CODEX_PATCH_CANDIDATE_POSITIONS :: nat where
  "MAX_CODEX_PATCH_CANDIDATE_POSITIONS = 4"

record CodexPatchMatchRejection =
  rej_requested_matching_mode :: ApplyPatchMatchingMode
  rej_match_mode :: CodexPatchMatchMode
  rej_match_source :: CodexPatchMatchSource
  rej_matched_start_line :: nat
  rej_candidate_count :: nat
  rej_candidate_start_lines :: "nat list"
  rej_candidate_positions_truncated :: bool
  rej_search_start_line :: nat
  rej_source_line_count :: nat

record CodexPatchChunkMatch =
  cm_chunk_index :: nat
  cm_match_mode :: "CodexPatchMatchMode option"
  cm_match_source :: CodexPatchMatchSource
  cm_matched_start_line :: nat
  cm_candidate_count :: "nat option"
  cm_unique_match :: bool
  cm_strict_match :: bool
  cm_match_rejection :: "CodexPatchMatchRejection option"

record CodexPatchUpdate =
  upd_content :: rstr
  upd_chunk_matches :: "CodexPatchChunkMatch list"

record SequenceMatch =
  sm_index :: nat
  sm_mode :: CodexPatchMatchMode
  sm_candidate_count :: nat
  sm_candidate_positions :: "nat list"
  sm_search_start :: nat

definition is_unique :: "SequenceMatch \<Rightarrow> bool" where
  "is_unique m \<longleftrightarrow> sm_candidate_count m = 1"

definition is_exact_unique :: "SequenceMatch \<Rightarrow> bool" where
  "is_exact_unique m \<longleftrightarrow> sm_mode m = Exact \<and> sm_candidate_count m = 1"

definition match_rejection_fact ::
    "SequenceMatch \<Rightarrow> ApplyPatchMatchingMode \<Rightarrow> CodexPatchMatchSource \<Rightarrow> nat \<Rightarrow> nat
     \<Rightarrow> CodexPatchMatchRejection option" where
  "match_rejection_fact matched requested source line_count pattern_len =
     (let satisfied = (case requested of
            FirstMatch \<Rightarrow> True | Unique \<Rightarrow> is_unique matched | ExactUnique \<Rightarrow> is_exact_unique matched)
      in if satisfied \<or> pattern_len = 0 \<or> line_count < pattern_len then None
         else (case checked_add (sm_index matched) 1 of
             None \<Rightarrow> None
           | Some start_line \<Rightarrow>
               (case checked_add (sm_search_start matched) 1 of
                  None \<Rightarrow> None
                | Some search_line \<Rightarrow> Some
                    \<lparr>rej_requested_matching_mode = requested, rej_match_mode = sm_mode matched,
                     rej_match_source = source, rej_matched_start_line = start_line,
                     rej_candidate_count = sm_candidate_count matched,
                     rej_candidate_start_lines = map (\<lambda>i. i + 1) (sm_candidate_positions matched),
                     rej_candidate_positions_truncated =
                       (length (sm_candidate_positions matched) < sm_candidate_count matched),
                     rej_search_start_line = search_line,
                     rej_source_line_count = line_count\<rparr>)))"

definition select_match_rejection ::
    "CodexPatchMatchRejection option \<Rightarrow> CodexPatchMatchRejection option
     \<Rightarrow> CodexPatchMatchRejection option" where
  "select_match_rejection first second =
     (let candidates = List.map_filter id [first, second]
      in case find (\<lambda>c. 1 < rej_candidate_count c) candidates of
           Some c \<Rightarrow> Some c
         | None \<Rightarrow> (case candidates of [] \<Rightarrow> None | c # _ \<Rightarrow> Some c))"

section \<open>Searching\<close>

definition normalize_char :: "rchar \<Rightarrow> rchar" where
  "normalize_char c =
     (if c \<in> {0x2010, 0x2011, 0x2012, 0x2013, 0x2014, 0x2015, 0x2212} then 45
      else if c \<in> {0x2018, 0x2019, 0x201A, 0x201B} then 39
      else if c \<in> {0x201C, 0x201D, 0x201E, 0x201F} then 34
      else if c \<in> {0x00A0, 0x2002, 0x2003, 0x2004, 0x2005, 0x2006, 0x2007, 0x2008, 0x2009,
                    0x200A, 0x202F, 0x205F, 0x3000} then 32
      else c)"

definition normalize_codex_patch_match_text :: "rstr \<Rightarrow> rstr" where
  "normalize_codex_patch_match_text value = map normalize_char (trim value)"

primrec line_matches :: "CodexPatchMatchMode \<Rightarrow> rstr \<Rightarrow> rstr \<Rightarrow> bool" where
  "line_matches Exact candidate expected \<longleftrightarrow> candidate = expected"
| "line_matches TrimEnd candidate expected \<longleftrightarrow> trim_end candidate = trim_end expected"
| "line_matches Trim candidate expected \<longleftrightarrow> trim candidate = trim expected"
| "line_matches Normalized candidate expected \<longleftrightarrow>
     normalize_codex_patch_match_text candidate = normalize_codex_patch_match_text expected"

definition matches_at :: "rstr list \<Rightarrow> rstr list \<Rightarrow> nat \<Rightarrow> CodexPatchMatchMode \<Rightarrow> bool" where
  "matches_at lines pattern index mode \<longleftrightarrow>
     list_all (\<lambda>(candidate, expected). line_matches mode candidate expected)
       (zip (take (length pattern) (drop index lines)) pattern)"

text \<open>One tier of the search: all candidates of the range are counted, the first four kept.\<close>

definition seek_tier ::
    "rstr list \<Rightarrow> rstr list \<Rightarrow> nat \<Rightarrow> bool \<Rightarrow> ApplyPatchMatchingMode \<Rightarrow> CodexPatchMatchMode
     \<Rightarrow> SequenceMatch option" where
  "seek_tier lines pattern start eof matching_mode mode =
     (let last_start = length lines - length pattern;
          structural_eof = (eof \<and> matching_mode = Unique);
          effective_start = (if structural_eof then last_start else start);
          preferred = (if eof \<and> matching_mode \<noteq> Unique \<and> matches_at lines pattern last_start mode
                       then Some last_start else None);
          candidates = filter (\<lambda>i. matches_at lines pattern i mode) [effective_start..<Suc last_start];
          selected = (case preferred of Some i \<Rightarrow> Some i
                      | None \<Rightarrow> (case candidates of [] \<Rightarrow> None | i # _ \<Rightarrow> Some i))
      in map_option (\<lambda>index.
           \<lparr>sm_index = index, sm_mode = mode, sm_candidate_count = length candidates,
            sm_candidate_positions = take MAX_CODEX_PATCH_CANDIDATE_POSITIONS candidates,
            sm_search_start = effective_start\<rparr>) selected)"

fun first_tier :: "(CodexPatchMatchMode \<Rightarrow> SequenceMatch option) \<Rightarrow> CodexPatchMatchMode list
    \<Rightarrow> SequenceMatch option" where
  "first_tier f [] = None"
| "first_tier f (mode # modes) = (case f mode of Some m \<Rightarrow> Some m | None \<Rightarrow> first_tier f modes)"

definition seek_sequence ::
    "rstr list \<Rightarrow> rstr list \<Rightarrow> nat \<Rightarrow> bool \<Rightarrow> ApplyPatchMatchingMode \<Rightarrow> SequenceMatch option" where
  "seek_sequence lines pattern start eof matching_mode =
     (if pattern = [] then
        let index = min start (length lines) in
        Some \<lparr>sm_index = index, sm_mode = Exact, sm_candidate_count = 1,
              sm_candidate_positions = [index], sm_search_start = index\<rparr>
      else if length lines < length pattern then None
      else if length lines - length pattern < start then None
      else first_tier (seek_tier lines pattern start eof matching_mode)
             [Exact, TrimEnd, Trim, Normalized])"

text \<open>The structural hint of a miss: the closest candidate by positional line matches.\<close>

definition line_scores :: "rstr list \<Rightarrow> rstr list \<Rightarrow> nat \<Rightarrow> nat \<Rightarrow> nat \<times> nat \<times> nat" where
  "line_scores lines pattern index compared =
     (let pairs = zip (take compared (drop index lines)) (take compared pattern) in
      (length (filter (\<lambda>(c, e). trim c = trim e) pairs),
       length (filter (\<lambda>(c, e). trim_end c = trim_end e) pairs),
       length (filter (\<lambda>(c, e). c = e) pairs)))"

fun score_less :: "nat \<times> nat \<times> nat \<Rightarrow> nat \<times> nat \<times> nat \<Rightarrow> bool" where
  "score_less (a, b, c) (a', b', c') \<longleftrightarrow> a < a' \<or> a = a' \<and> (b < b' \<or> b = b' \<and> c < c')"

definition better_candidate ::
    "(nat \<times> nat \<times> nat \<times> nat) option \<Rightarrow> nat \<times> nat \<times> nat \<times> nat \<Rightarrow> (nat \<times> nat \<times> nat \<times> nat) option" where
  "better_candidate best c =
     (case best of None \<Rightarrow> Some c
      | Some (i, s) \<Rightarrow> if score_less s (snd c) then Some c else best)"

definition diagnose_sequence_miss ::
    "rstr list \<Rightarrow> rstr list \<Rightarrow> nat \<Rightarrow> nat \<Rightarrow> CodexPatchMatchSource \<Rightarrow> CodexPatchMatchDiagnostic" where
  "diagnose_sequence_miss lines pattern start chunk_index source =
     (let effective_start = min start (length lines);
          available = length lines - effective_start;
          has_complete = (length pattern \<le> available);
          indices = takeWhile (\<lambda>i. \<not> (has_complete \<and> min (length pattern) (length lines - i) < length pattern))
            [effective_start..<length lines];
          best = foldl better_candidate None
            (map (\<lambda>i. (i, line_scores lines pattern i (min (length pattern) (length lines - i)))) indices);
          mismatch = (\<lambda>i. map_option Suc (find (\<lambda>offset.
             if i + offset < length lines then lines ! (i + offset) \<noteq> pattern ! offset else True)
             [0..<length pattern]))
      in \<lparr>diag_chunk_index = chunk_index, diag_match_source = source,
          diag_search_start_line = effective_start + 1,
          diag_expected_line_count = length pattern,
          diag_available_line_count = available,
          diag_closest_start_line = map_option (\<lambda>(i, _). i + 1) best,
          diag_closest_exact_line_matches = (case best of None \<Rightarrow> 0 | Some (_, _, _, e) \<Rightarrow> e),
          diag_closest_trim_end_line_matches = (case best of None \<Rightarrow> 0 | Some (_, _, te, _) \<Rightarrow> te),
          diag_closest_trim_line_matches = (case best of None \<Rightarrow> 0 | Some (_, t, _, _) \<Rightarrow> t),
          diag_first_exact_mismatch_offset = (case best of
              None \<Rightarrow> if pattern = [] then None else Some 1
            | Some (i, _) \<Rightarrow> mismatch i)\<rparr>)"

section \<open>Deriving the new file\<close>

text \<open>A replacement: first line, number of lines taken out, lines put in.\<close>

type_synonym replacement = "nat \<times> nat \<times> rstr list"

definition context_miss :: "rstr \<Rightarrow> rstr list \<Rightarrow> rstr \<Rightarrow> nat \<Rightarrow> nat \<Rightarrow> CodexPatchError" where
  "context_miss path lines ctx line_index chunk_index =
     with_match_diagnostic
       (perr ''context_mismatch'' None
         (path @ lit '': chunk '' @ show_nat chunk_index @ lit '' could not find its change context''))
       (diagnose_sequence_miss lines [ctx] line_index chunk_index ChangeContext)"

definition old_lines_miss :: "rstr \<Rightarrow> rstr list \<Rightarrow> rstr list \<Rightarrow> nat \<Rightarrow> nat \<Rightarrow> CodexPatchError" where
  "old_lines_miss path lines pattern line_index chunk_index =
     with_match_diagnostic
       (perr ''context_mismatch'' None
         (path @ lit '': chunk '' @ show_nat chunk_index @ lit '' could not find its expected old lines''))
       (diagnose_sequence_miss lines pattern line_index chunk_index OldLines)"

text \<open>The lines to look for and the lines to put in: a pattern that ends with an empty line and
  is not found is searched again without it.\<close>

definition seek_old_lines ::
    "rstr list \<Rightarrow> CodexPatchChunk \<Rightarrow> nat \<Rightarrow> ApplyPatchMatchingMode
     \<Rightarrow> rstr list \<times> rstr list \<times> SequenceMatch option" where
  "seek_old_lines lines chunk line_index matching_mode =
     (let pattern = old_lines chunk; new = new_lines chunk;
          found = seek_sequence lines pattern line_index (is_end_of_file chunk) matching_mode
      in if found = None \<and> pattern \<noteq> [] \<and> last pattern = []
         then let pattern' = butlast pattern;
                  new' = (if new \<noteq> [] \<and> last new = [] then butlast new else new)
              in (pattern', new', seek_sequence lines pattern' line_index (is_end_of_file chunk) matching_mode)
         else (pattern, new, found))"

text \<open>The two ways a chunk changes the file, after its change context was located.\<close>

definition insert_chunk ::
    "rstr list \<Rightarrow> ApplyPatchMatchingMode \<Rightarrow> nat \<Rightarrow> CodexPatchChunk \<Rightarrow> nat \<Rightarrow> SequenceMatch option
     \<Rightarrow> nat \<times> replacement \<times> CodexPatchChunkMatch" where
  "insert_chunk lines matching_mode chunk_index chunk line_index context_match =
     (let insertion_index = (if change_context chunk \<noteq> None then line_index else length lines)
      in (line_index, (insertion_index, 0, new_lines chunk),
          \<lparr>cm_chunk_index = chunk_index,
           cm_match_mode = map_option sm_mode context_match,
           cm_match_source = (if change_context chunk \<noteq> None then ChangeContext else Append),
           cm_matched_start_line = insertion_index + 1,
           cm_candidate_count = map_option sm_candidate_count context_match,
           cm_unique_match = pred_option is_unique context_match,
           cm_strict_match = pred_option is_exact_unique context_match,
           cm_match_rejection = Option.bind context_match (\<lambda>matched.
             match_rejection_fact matched matching_mode ChangeContext (length lines) 1)\<rparr>))"

definition replace_chunk ::
    "rstr \<Rightarrow> rstr list \<Rightarrow> ApplyPatchMatchingMode \<Rightarrow> nat \<Rightarrow> CodexPatchChunk \<Rightarrow> nat \<Rightarrow> SequenceMatch option
     \<Rightarrow> CodexPatchError + (nat \<times> replacement \<times> CodexPatchChunkMatch)" where
  "replace_chunk path lines matching_mode chunk_index chunk line_index context_match =
     (case seek_old_lines lines chunk line_index matching_mode of
        (pattern, new, None) \<Rightarrow> Inl (old_lines_miss path lines pattern line_index chunk_index)
      | (pattern, new, Some found) \<Rightarrow>
          let context_rejection = (if matching_mode = ExactUnique
                then Option.bind context_match (\<lambda>matched.
                       match_rejection_fact matched matching_mode ChangeContext (length lines) 1)
                else None);
              old_lines_rejection =
                match_rejection_fact found matching_mode OldLines (length lines) (length pattern)
          in Inr (sm_index found + length pattern,
               (sm_index found, length pattern, new),
               \<lparr>cm_chunk_index = chunk_index,
                cm_match_mode = Some (case context_match of None \<Rightarrow> sm_mode found
                                      | Some matched \<Rightarrow> max (sm_mode matched) (sm_mode found)),
                cm_match_source = OldLines,
                cm_matched_start_line = sm_index found + 1,
                cm_candidate_count = Some (sm_candidate_count found),
                cm_unique_match = is_unique found,
                cm_strict_match = (pred_option is_exact_unique context_match \<and> is_exact_unique found),
                cm_match_rejection = select_match_rejection context_rejection old_lines_rejection\<rparr>))"

definition derive_chunk ::
    "rstr \<Rightarrow> rstr list \<Rightarrow> ApplyPatchMatchingMode \<Rightarrow> nat \<Rightarrow> CodexPatchChunk \<Rightarrow> nat
     \<Rightarrow> CodexPatchError + (nat \<times> replacement \<times> CodexPatchChunkMatch)" where
  "derive_chunk path lines matching_mode chunk_index chunk line_index =
     (let finish = (\<lambda>line_index context_match.
            if old_lines chunk = []
            then Inr (insert_chunk lines matching_mode chunk_index chunk line_index context_match)
            else replace_chunk path lines matching_mode chunk_index chunk line_index context_match)
      in case change_context chunk of
           None \<Rightarrow> finish line_index None
         | Some ctx \<Rightarrow>
             (case seek_sequence lines [ctx] line_index False matching_mode of
                None \<Rightarrow> Inl (context_miss path lines ctx line_index chunk_index)
              | Some matched \<Rightarrow> finish (sm_index matched + 1) (Some matched)))"

fun derive_chunks ::
    "rstr \<Rightarrow> rstr list \<Rightarrow> ApplyPatchMatchingMode \<Rightarrow> nat \<Rightarrow> CodexPatchChunk list \<Rightarrow> nat
     \<Rightarrow> CodexPatchError + (replacement list \<times> CodexPatchChunkMatch list)" where
  "derive_chunks path lines matching_mode chunk_index [] line_index = Inr ([], [])"
| "derive_chunks path lines matching_mode chunk_index (chunk # chunks) line_index =
     (case derive_chunk path lines matching_mode chunk_index chunk line_index of
        Inl e \<Rightarrow> Inl e
      | Inr (line_index', r, m) \<Rightarrow>
          (case derive_chunks path lines matching_mode (chunk_index + 1) chunks line_index' of
             Inl e \<Rightarrow> Inl e
           | Inr (rs, ms) \<Rightarrow> Inr (r # rs, m # ms)))"

text \<open>\<open>Vec::splice\<close> of a range of lines; \<open>None\<close> is the panic.\<close>

definition splice :: "rstr list \<Rightarrow> replacement \<Rightarrow> rstr list option" where
  "splice lines r = (case r of (start, old_len, new) \<Rightarrow>
     if start + old_len \<le> length lines
     then Some (take start lines @ new @ drop (start + old_len) lines) else None)"

definition splice_all :: "rstr list \<Rightarrow> replacement list \<Rightarrow> rstr list option" where
  "splice_all lines rs = foldr (\<lambda>r acc. Option.bind acc (\<lambda>ls. splice ls r)) rs (Some lines)"

definition source_lines :: "rstr \<Rightarrow> rstr list" where
  "source_lines canonical =
     (let ls = split_char LF canonical in if last ls = [] then butlast ls else ls)"

definition derive_codex_patch_update_with_matching_mode ::
    "rstr \<Rightarrow> rstr \<Rightarrow> CodexPatchChunk list \<Rightarrow> ApplyPatchMatchingMode
     \<Rightarrow> (CodexPatchError + CodexPatchUpdate) option" where
  "derive_codex_patch_update_with_matching_mode original path chunks matching_mode =
     (case detect_apply_text_line_ending original of
        Inl message \<Rightarrow> Some (Inl (perr ''unsupported_file'' None (path @ lit '': '' @ message)))
      | Inr line_ending \<Rightarrow>
          (case canonicalize_apply_text_line_endings original line_ending of
             Inl message \<Rightarrow> Some (Inl (perr ''unsupported_file'' None (path @ lit '': '' @ message)))
           | Inr canonical \<Rightarrow>
               (case derive_chunks path (source_lines canonical) matching_mode 0 chunks 0 of
                  Inl e \<Rightarrow> Some (Inl e)
                | Inr (replacements, chunk_matches) \<Rightarrow>
                    map_option (\<lambda>new. Inr
                      \<lparr>upd_content = restore_apply_text_line_endings (join [LF] (new @ [[]])) line_ending,
                       upd_chunk_matches = chunk_matches\<rparr>)
                      (splice_all (source_lines canonical) (sort_key fst replacements)))))"

definition derive_codex_patch_update_with_matches ::
    "rstr \<Rightarrow> rstr \<Rightarrow> CodexPatchChunk list \<Rightarrow> (CodexPatchError + CodexPatchUpdate) option" where
  "derive_codex_patch_update_with_matches original path chunks =
     derive_codex_patch_update_with_matching_mode original path chunks FirstMatch"

definition derive_codex_patch_update ::
    "rstr \<Rightarrow> rstr \<Rightarrow> CodexPatchChunk list \<Rightarrow> (CodexPatchError + rstr) option" where
  "derive_codex_patch_update original path chunks =
     map_option (map_sum id upd_content) (derive_codex_patch_update_with_matches original path chunks)"

section \<open>The search finds the best tier\<close>

lemma matches_at_mono: "m \<le> m' \<Longrightarrow> matches_at ls pat i m \<Longrightarrow> matches_at ls pat i m'"
proof -
  have "line_matches m a b \<Longrightarrow> m \<le> m' \<Longrightarrow> line_matches m' a b" for a b
    by (cases m; cases m')
      (auto simp: less_eq_CodexPatchMatchMode_def trim_def normalize_codex_patch_match_text_def)
  then show "m \<le> m' \<Longrightarrow> matches_at ls pat i m \<Longrightarrow> matches_at ls pat i m'"
    by (auto simp: matches_at_def list_all_iff)
qed

text \<open>The positions a search considers.\<close>

definition search_range :: "rstr list \<Rightarrow> rstr list \<Rightarrow> nat \<Rightarrow> bool \<Rightarrow> ApplyPatchMatchingMode \<Rightarrow> nat list" where
  "search_range lines pat start eof mm =
     [(if eof \<and> mm = Unique then length lines - length pat else start)..<Suc (length lines - length pat)]"

lemma seek_tier_Some:
  assumes "start \<le> length lines - length pat"
  shows "seek_tier lines pat start eof mm mode = None \<longleftrightarrow>
      (\<forall>i \<in> set (search_range lines pat start eof mm). \<not> matches_at lines pat i mode)"
    and "seek_tier lines pat start eof mm mode = Some m \<Longrightarrow>
      sm_mode m = mode \<and> matches_at lines pat (sm_index m) mode
      \<and> sm_index m \<in> set (search_range lines pat start eof mm)
      \<and> sm_candidate_count m = length (filter (\<lambda>i. matches_at lines pat i mode) (search_range lines pat start eof mm))
      \<and> sm_candidate_positions m = take 4 (filter (\<lambda>i. matches_at lines pat i mode) (search_range lines pat start eof mm))"
proof -
  let ?c = "filter (\<lambda>i. matches_at lines pat i mode) (search_range lines pat start eof mm)"
  let ?last = "length lines - length pat"
  have r: "?last \<in> set (search_range lines pat start eof mm)"
    using assms by (auto simp: search_range_def)
  have eq: "seek_tier lines pat start eof mm mode =
      map_option (\<lambda>index. \<lparr>sm_index = index, sm_mode = mode, sm_candidate_count = length ?c,
         sm_candidate_positions = take 4 ?c, sm_search_start = (if eof \<and> mm = Unique then ?last else start)\<rparr>)
       (if eof \<and> mm \<noteq> Unique \<and> matches_at lines pat ?last mode then Some ?last
        else (case ?c of [] \<Rightarrow> None | i # _ \<Rightarrow> Some i))"
    by (simp add: seek_tier_def search_range_def Let_def MAX_CODEX_PATCH_CANDIDATE_POSITIONS_def del: upt_Suc)
  have c: "?c = [] \<longleftrightarrow> (\<forall>i \<in> set (search_range lines pat start eof mm). \<not> matches_at lines pat i mode)"
    by (auto simp: filter_empty_conv)
  show "seek_tier lines pat start eof mm mode = None \<longleftrightarrow>
      (\<forall>i \<in> set (search_range lines pat start eof mm). \<not> matches_at lines pat i mode)"
    using c r unfolding eq by (auto split: list.splits)
  show "sm_mode m = mode \<and> matches_at lines pat (sm_index m) mode
      \<and> sm_index m \<in> set (search_range lines pat start eof mm)
      \<and> sm_candidate_count m = length ?c \<and> sm_candidate_positions m = take 4 ?c"
    if "seek_tier lines pat start eof mm mode = Some m"
    using that r unfolding eq by (auto split: list.splits if_splits dest!: filter_eq_Cons_first)
qed

lemma first_tier_Some:
  "first_tier f ms = Some m \<Longrightarrow> sorted ms \<Longrightarrow>
   (\<exists>mode \<in> set ms. f mode = Some m \<and> (\<forall>k \<in> set ms. k < mode \<longrightarrow> f k = None))"
  by (induction ms) (auto split: option.splits)

lemma first_tier_None: "first_tier f ms = None \<longleftrightarrow> (\<forall>k \<in> set ms. f k = None)"
  by (induction ms) (auto split: option.splits)

lemma modes_sorted [simp]: "sorted [Exact, TrimEnd, Trim, Normalized]"
  by (simp add: less_eq_CodexPatchMatchMode_def)

lemma all_modes: "mode \<in> set [Exact, TrimEnd, Trim, Normalized]"
  by (cases mode) auto

text \<open>What a search promises about the position it selects.\<close>

definition best_match ::
    "rstr list \<Rightarrow> rstr list \<Rightarrow> nat \<Rightarrow> bool \<Rightarrow> ApplyPatchMatchingMode \<Rightarrow> SequenceMatch \<Rightarrow> bool" where
  "best_match lines pat start eof mm m \<longleftrightarrow>
     (let range = search_range lines pat start eof mm;
          hits = filter (\<lambda>i. matches_at lines pat i (sm_mode m)) range
      in sm_index m \<in> set hits \<and> sm_candidate_count m = length hits
         \<and> sm_candidate_positions m = take 4 hits
         \<and> (\<forall>i \<in> set range. \<forall>k. k < sm_mode m \<longrightarrow> \<not> matches_at lines pat i k))"

lemma seek_sequence_Some:
  assumes "pat \<noteq> []" "seek_sequence lines pat start eof mm = Some m"
  shows "best_match lines pat start eof mm m" "start + length pat \<le> length lines"
proof -
  let ?f = "seek_tier lines pat start eof mm"
  have len: "start \<le> length lines - length pat" "length pat \<le> length lines"
    and ft: "first_tier ?f [Exact, TrimEnd, Trim, Normalized] = Some m"
    using assms by (auto simp: seek_sequence_def split: if_splits)
  obtain mode where tier: "?f mode = Some m" and lower: "\<forall>k. k < mode \<longrightarrow> ?f k = None"
    using first_tier_Some [OF ft modes_sorted] all_modes by blast
  note seek_tier_Some(2) [OF len(1) tier]
  then show "best_match lines pat start eof mm m"
    using lower by (auto simp: best_match_def Let_def seek_tier_Some(1) [OF len(1)])
  show "start + length pat \<le> length lines" using len by simp
qed

lemma seek_sequence_None:
  assumes "pat \<noteq> []"
  shows "seek_sequence lines pat start eof mm = None \<longleftrightarrow>
    (start + length pat \<le> length lines \<longrightarrow>
      (\<forall>i \<in> set (search_range lines pat start eof mm). \<not> matches_at lines pat i Normalized))"
proof (cases "start + length pat \<le> length lines")
  case True
  then have "start \<le> length lines - length pat" by simp
  note none = seek_tier_Some(1) [OF this, of eof mm]
  have "seek_sequence lines pat start eof mm = None \<longleftrightarrow>
      (\<forall>k. seek_tier lines pat start eof mm k = None)"
  proof -
    have "first_tier (seek_tier lines pat start eof mm) [Exact, TrimEnd, Trim, Normalized] = None
        \<longleftrightarrow> (\<forall>k. seek_tier lines pat start eof mm k = None)"
      unfolding first_tier_None using all_modes by blast
    moreover have "\<not> length lines - length pat < start" using True by simp
    ultimately show ?thesis using assms True unfolding seek_sequence_def by (simp only: if_False) simp
  qed
  moreover have "k \<le> Normalized" for k by (cases k) (auto simp: less_eq_CodexPatchMatchMode_def)
  ultimately show ?thesis using True none matches_at_mono by blast
next
  case False
  then show ?thesis using assms by (auto simp: seek_sequence_def)
qed

lemma search_range_bounds:
  "start + length pat \<le> length lines \<Longrightarrow> i \<in> set (search_range lines pat start eof mm) \<Longrightarrow>
   start \<le> i \<and> i + length pat \<le> length lines"
  by (auto simp: search_range_def split: if_splits)

lemma seek_sequence_index:
  assumes "seek_sequence lines pat start eof mm = Some m" "start \<le> length lines"
  shows "start \<le> sm_index m" "sm_index m + length pat \<le> length lines"
proof -
  have "start \<le> sm_index m \<and> sm_index m + length pat \<le> length lines"
  proof (cases "pat = []")
    case True
    with assms show ?thesis by (auto simp: seek_sequence_def Let_def)
  next
    case False
    note s = seek_sequence_Some [OF False assms(1)]
    then have "sm_index m \<in> set (search_range lines pat start eof mm)" by (auto simp: best_match_def Let_def)
    with s(2) show ?thesis by (rule search_range_bounds)
  qed
  then show "start \<le> sm_index m" "sm_index m + length pat \<le> length lines" by auto
qed

section \<open>Splicing from the back is simultaneous replacement\<close>

fun replace_ranges :: "nat \<Rightarrow> rstr list \<Rightarrow> replacement list \<Rightarrow> rstr list" where
  "replace_ranges pos ls [] = ls"
| "replace_ranges pos ls ((start, n, new) # rs) =
     take (start - pos) ls @ new @ replace_ranges (start + n) (drop (start + n - pos) ls) rs"

fun ranges_ok :: "nat \<Rightarrow> nat \<Rightarrow> replacement list \<Rightarrow> bool" where
  "ranges_ok pos len [] \<longleftrightarrow> pos \<le> len"
| "ranges_ok pos len ((start, n, new) # rs) \<longleftrightarrow> pos \<le> start \<and> ranges_ok (start + n) len rs"

lemma ranges_ok_le: "ranges_ok pos len rs \<Longrightarrow> pos \<le> len"
  by (induction pos len rs rule: ranges_ok.induct) auto

lemma splice_all_ranges:
  "ranges_ok pos (length ls) rs \<Longrightarrow>
   splice_all ls rs = Some (take pos ls @ replace_ranges pos (drop pos ls) rs)"
proof (induction pos "length ls" rs rule: ranges_ok.induct)
  case (2 pos start n new rs)
  then have le: "start + n \<le> length ls" "pos \<le> start" by (auto dest: ranges_ok_le)
  let ?tail = "replace_ranges (start + n) (drop (start + n) ls) rs"
  have "splice_all ls ((start, n, new) # rs) = splice (take (start + n) ls @ ?tail) (start, n, new)"
    using 2 by (simp add: splice_all_def)
  also have "\<dots> = Some (take start ls @ new @ ?tail)" using le by (simp add: splice_def)
  also have "take start ls = take pos ls @ take (start - pos) (drop pos ls)"
    using le by (metis le_add_diff_inverse take_add)
  finally show ?case using le by simp
qed (simp add: splice_all_def)

definition ends_before :: "replacement \<Rightarrow> replacement \<Rightarrow> bool" where
  "ends_before a b \<longleftrightarrow> fst a + fst (snd a) \<le> fst b"

lemma ranges_ok_sorted_wrt:
  "sorted_wrt ends_before rs \<Longrightarrow> list_all (\<lambda>r. fst r + fst (snd r) \<le> len) rs \<Longrightarrow>
   list_all (\<lambda>r. pos \<le> fst r) rs \<Longrightarrow> pos \<le> len \<Longrightarrow> ranges_ok pos len rs"
  by (induction pos len rs rule: ranges_ok.induct) (auto simp: ends_before_def list_all_iff)

lemma sorted_wrt_insort_replacement:
  "sorted_wrt ends_before ys \<Longrightarrow>
   (\<And>y. y \<in> set ys \<Longrightarrow> if fst x \<le> fst y then ends_before x y else ends_before y x) \<Longrightarrow>
   sorted_wrt ends_before (insort_key fst x ys)"
proof (induction ys)
  case (Cons y ys)
  have y: "if fst x \<le> fst y then ends_before x y else ends_before y x" by (rule Cons.prems(2)) simp
  have ys: "sorted_wrt ends_before ys" "\<And>z. z \<in> set ys \<Longrightarrow> ends_before y z" using Cons.prems(1) by auto
  show ?case
  proof (cases "fst x \<le> fst y")
    case True
    with y have xy: "ends_before x y" by simp
    then have "ends_before x z" if "z \<in> set ys" for z
      using ys(2) [OF that] by (simp add: ends_before_def)
    with True xy Cons.prems(1) show ?thesis by simp
  next
    case False
    with y have "ends_before y x" by simp
    moreover have "sorted_wrt ends_before (insort_key fst x ys)"
      using Cons.IH ys(1) Cons.prems(2) by simp
    ultimately show ?thesis using False ys(2) by (simp add: set_insort_key)
  qed
qed simp

text \<open>A chunk's replacement starts at or after the place where its search began, or it
  appends at the end of the file.\<close>

definition is_append :: "nat \<Rightarrow> replacement \<Rightarrow> bool" where
  "is_append len r \<longleftrightarrow> fst r = len \<and> fst (snd r) = 0"

definition in_lines :: "nat \<Rightarrow> nat \<Rightarrow> replacement \<Rightarrow> bool" where
  "in_lines pos len r \<longleftrightarrow> pos \<le> fst r \<and> fst r + fst (snd r) \<le> len"

lemma sorted_replacements:
  "sorted_wrt (\<lambda>a b. ends_before a b \<or> is_append len a) rs \<Longrightarrow> list_all (in_lines pos len) rs \<Longrightarrow>
   sorted_wrt ends_before (sort_key fst rs)"
proof (induction rs)
  case (Cons x rs)
  then have "sorted_wrt ends_before (sort_key fst rs)" by simp
  moreover have "if fst x \<le> fst y then ends_before x y else ends_before y x" if "y \<in> set rs" for y
    using that Cons.prems by (auto simp: list_all_iff ends_before_def is_append_def in_lines_def)
  ultimately show ?case by (auto intro: sorted_wrt_insort_replacement)
qed simp

lemma seek_old_lines_index:
  assumes "seek_old_lines lines chunk pos mm = (pat, new, Some m)" "pos \<le> length lines"
  shows "pos \<le> sm_index m" "sm_index m + length pat \<le> length lines"
proof -
  from assms(1) have "seek_sequence lines pat pos (is_end_of_file chunk) mm = Some m"
    by (auto simp: seek_old_lines_def Let_def split: if_splits)
  from seek_sequence_index [OF this assms(2)]
  show "pos \<le> sm_index m" "sm_index m + length pat \<le> length lines" .
qed

lemma derive_chunk_range:
  assumes "derive_chunk path lines mm ci chunk pos = Inr (pos', r, m)" "pos \<le> length lines"
  shows "pos \<le> pos' \<and> pos' \<le> length lines \<and> in_lines pos (length lines) r
    \<and> (fst r + fst (snd r) \<le> pos' \<or> is_append (length lines) r)"
proof -
  have finish: "q \<le> pos' \<and> pos' \<le> length lines \<and> in_lines q (length lines) r
    \<and> (fst r + fst (snd r) \<le> pos' \<or> is_append (length lines) r)"
    if "(if old_lines chunk = [] then Inr (insert_chunk lines mm ci chunk q cx)
         else replace_chunk path lines mm ci chunk q cx) = Inr (pos', r, m)" "q \<le> length lines" for q cx
    using that seek_old_lines_index [of lines chunk q mm]
    by (auto simp: insert_chunk_def replace_chunk_def Let_def in_lines_def is_append_def
        split: if_splits option.splits prod.splits)
  show ?thesis
  proof (cases "change_context chunk")
    case None
    with assms finish [of pos] show ?thesis by (simp add: derive_chunk_def)
  next
    case (Some ctx)
    with assms(1) obtain cm where cm: "seek_sequence lines [ctx] pos False mm = Some cm"
      and fin: "(if old_lines chunk = [] then Inr (insert_chunk lines mm ci chunk (sm_index cm + 1) (Some cm))
         else replace_chunk path lines mm ci chunk (sm_index cm + 1) (Some cm)) = Inr (pos', r, m)"
      by (auto simp: derive_chunk_def Let_def split: option.splits)
    have le: "pos \<le> sm_index cm" "sm_index cm + 1 \<le> length lines"
      using seek_sequence_index [OF cm assms(2)] by auto
    from finish [OF fin le(2)] le show ?thesis by (auto simp: in_lines_def)
  qed
qed

lemma derive_chunks_ranges:
  "derive_chunks path lines mm ci chunks pos = Inr (rs, ms) \<Longrightarrow> pos \<le> length lines \<Longrightarrow>
   sorted_wrt (\<lambda>a b. ends_before a b \<or> is_append (length lines) a) rs
   \<and> list_all (in_lines pos (length lines)) rs"
proof (induction chunks arbitrary: ci pos rs ms)
  case (Cons chunk chunks)
  then obtain pos' r m rs' ms' where r: "derive_chunk path lines mm ci chunk pos = Inr (pos', r, m)"
    and tail: "derive_chunks path lines mm (ci + 1) chunks pos' = Inr (rs', ms')" and rs: "rs = r # rs'"
    by (auto split: sum.splits)
  note c = derive_chunk_range [OF r Cons.prems(2)]
  with Cons.IH [OF tail] have "sorted_wrt (\<lambda>a b. ends_before a b \<or> is_append (length lines) a) rs'"
    and "list_all (in_lines pos' (length lines)) rs'" by auto
  then show ?case
    using c unfolding rs by (auto simp: list_all_iff in_lines_def ends_before_def intro: order_trans)
qed simp

lemma derive_chunks_spliced:
  assumes "derive_chunks path lines mm 0 chunks 0 = Inr (rs, ms)"
  shows "ranges_ok 0 (length lines) (sort_key fst rs)"
    "splice_all lines (sort_key fst rs) = Some (replace_ranges 0 lines (sort_key fst rs))"
proof -
  have d: "sorted_wrt (\<lambda>a b. ends_before a b \<or> is_append (length lines) a) rs"
    "list_all (in_lines 0 (length lines)) rs" using derive_chunks_ranges [OF assms] by auto
  show ok: "ranges_ok 0 (length lines) (sort_key fst rs)"
    using sorted_replacements [OF d] d(2)
    by (intro ranges_ok_sorted_wrt) (auto simp: list_all_iff in_lines_def)
  show "splice_all lines (sort_key fst rs) = Some (replace_ranges 0 lines (sort_key fst rs))"
    using splice_all_ranges [OF ok] by simp
qed

section \<open>What a derived update does\<close>

lemma detect_canonicalize:
  assumes "detect_apply_text_line_ending t = Inr le"
  shows "\<exists>c. canonicalize_apply_text_line_endings t le = Inr c \<and> CR \<notin> set c"
  using assms by (rule detect_cases) (auto simp: canonicalize_apply_text_line_endings_def)

lemma derive_chunk_target_old:
  assumes "seek_old_lines lines chunk pos mm = (pat, new, Some m)" "pat \<noteq> []"
  shows "best_match lines pat pos (is_end_of_file chunk) mm m"
  using assms seek_sequence_Some(1)
  by (auto simp: seek_old_lines_def Let_def split: if_splits)

text \<open>The part of the file a chunk replaces, and by what.\<close>

definition chunk_target :: "rstr list \<Rightarrow> CodexPatchChunk \<Rightarrow> replacement \<Rightarrow> CodexPatchMatchMode option \<Rightarrow> bool" where
  "chunk_target lines chunk r mode \<longleftrightarrow> (case r of (start, n, new) \<Rightarrow>
     if old_lines chunk = [] then n = 0 \<and> new = new_lines chunk
     else (\<exists>pat. n = length pat \<and> mode \<noteq> None \<and> matches_at lines pat start (the mode)
        \<and> (pat = old_lines chunk \<and> new = new_lines chunk
           \<or> pat @ [[]] = old_lines chunk \<and> (new = new_lines chunk \<or> new @ [[]] = new_lines chunk))))"

lemma seek_old_lines_pattern:
  assumes "seek_old_lines lines chunk pos mm = (pat, new, found)" "old_lines chunk \<noteq> []"
  shows "pat = old_lines chunk \<and> new = new_lines chunk
    \<or> pat @ [[]] = old_lines chunk \<and> (new = new_lines chunk \<or> new @ [[]] = new_lines chunk)"
proof -
  have "butlast xs @ [[]] = xs" if "xs \<noteq> []" "last xs = []" for xs :: "rstr list"
    using append_butlast_last_id [OF that(1)] that(2) by simp
  with assms show ?thesis by (auto simp: seek_old_lines_def Let_def split: if_splits)
qed

lemma replace_chunk_target:
  assumes "replace_chunk path lines mm ci chunk pos cx = Inr (pos', r, m)" "old_lines chunk \<noteq> []"
  shows "chunk_target lines chunk r (cm_match_mode m)"
proof -
  from assms(1) obtain pat new f where f: "seek_old_lines lines chunk pos mm = (pat, new, Some f)"
    and r: "r = (sm_index f, length pat, new)"
    and mode: "cm_match_mode m = Some (case cx of None \<Rightarrow> sm_mode f | Some k \<Rightarrow> max (sm_mode k) (sm_mode f))"
    by (auto simp: replace_chunk_def Let_def split: prod.splits option.splits)
  have "sm_mode f \<le> the (cm_match_mode m)" unfolding mode by (auto split: option.splits)
  moreover have "matches_at lines pat (sm_index f) (sm_mode f)"
    using derive_chunk_target_old [OF f] by (cases "pat = []") (auto simp: best_match_def Let_def matches_at_def)
  ultimately have "matches_at lines pat (sm_index f) (the (cm_match_mode m))" by (rule matches_at_mono)
  then show ?thesis
    using seek_old_lines_pattern [OF f assms(2)] assms(2) mode
    unfolding chunk_target_def r by (auto intro!: exI [of _ pat])
qed

lemma derive_chunk_target:
  assumes "derive_chunk path lines mm ci chunk pos = Inr (pos', r, m)"
  shows "chunk_target lines chunk r (cm_match_mode m)"
proof (cases "old_lines chunk = []")
  case True
  with assms show ?thesis
    by (auto simp: derive_chunk_def insert_chunk_def Let_def chunk_target_def split: option.splits)
next
  case False
  with assms show ?thesis
    by (auto simp: derive_chunk_def Let_def split: option.splits intro: replace_chunk_target)
qed

lemma derive_chunks_targets:
  "derive_chunks path lines mm ci chunks pos = Inr (rs, ms) \<Longrightarrow>
   list_all2 (\<lambda>c (r, m). chunk_target lines c r (cm_match_mode m)) chunks (zip rs ms) \<and> length rs = length ms"
proof (induction chunks arbitrary: ci pos rs ms)
  case (Cons chunk chunks)
  then show ?case by (force split: sum.splits dest: derive_chunk_target)
qed simp

lemma source_lines_ok: "CR \<notin> set c \<Longrightarrow> list_all line_ok (source_lines c)"
proof -
  assume "CR \<notin> set c"
  then have "line_ok p" if "p \<in> set (split_char LF c)" for p
    using split_by_parts [OF that] split_by_chars [OF that] by (auto simp: line_ok_def)
  then show ?thesis by (auto simp: source_lines_def Let_def list_all_iff dest: in_set_butlastD)
qed

lemma set_replace_ranges:
  "set (replace_ranges pos ls rs) \<subseteq> set ls \<union> (\<Union>r \<in> set rs. set (snd (snd r)))"
proof (induction pos ls rs rule: replace_ranges.induct)
  case (2 pos ls start n new rs)
  then show ?case using set_take_subset [of "start - pos" ls] set_drop_subset [of "start + n - pos" ls]
    by (auto dest: subsetD)
qed simp

lemma chunk_target_lines_ok:
  "chunk_target lines c r mode \<Longrightarrow> chunk_ok c \<Longrightarrow> list_all line_ok (snd (snd r))"
  by (auto simp: chunk_target_def chunk_ok_def list_all_iff split: prod.splits if_splits)
    (metis UnI1 set_append)+

lemma derived_lines_ok:
  assumes "derive_chunks path lines mm ci chunks pos = Inr (rs, ms)" "list_all chunk_ok chunks"
    "list_all line_ok lines"
  shows "list_all line_ok (replace_ranges 0 lines (sort_key fst rs))"
proof -
  note t = derive_chunks_targets [OF assms(1)]
  have "list_all line_ok (snd (snd r))" if "r \<in> set rs" for r
  proof -
    from that obtain i where i: "i < length rs" "rs ! i = r" by (auto simp: in_set_conv_nth)
    then have "chunk_target lines (chunks ! i) r (cm_match_mode (ms ! i))" "i < length chunks"
      using t by (auto simp: list_all2_conv_all_nth)
    moreover from this(2) have "chunk_ok (chunks ! i)" using assms(2) by (simp add: list_all_length)
    ultimately show ?thesis by (blast intro: chunk_target_lines_ok)
  qed
  then show ?thesis
    using assms(3) set_replace_ranges [of 0 lines "sort_key fst rs"] by (fastforce simp: list_all_iff)
qed

lemma derive_cases:
  assumes "derive_codex_patch_update_with_matching_mode original path chunks mm = Some (Inr u)"
  obtains le c rs ms where "detect_apply_text_line_ending original = Inr le"
    "canonicalize_apply_text_line_endings original le = Inr c" "CR \<notin> set c"
    "derive_chunks path (source_lines c) mm 0 chunks 0 = Inr (rs, ms)"
    "u = \<lparr>upd_content = restore_apply_text_line_endings
         (join [LF] (replace_ranges 0 (source_lines c) (sort_key fst rs) @ [[]])) le, upd_chunk_matches = ms\<rparr>"
proof -
  from assms obtain le c rs ms where d: "detect_apply_text_line_ending original = Inr le"
    "canonicalize_apply_text_line_endings original le = Inr c"
    "derive_chunks path (source_lines c) mm 0 chunks 0 = Inr (rs, ms)"
    by (auto simp: derive_codex_patch_update_with_matching_mode_def split: sum.splits prod.splits)
  moreover have "CR \<notin> set c" using detect_canonicalize [OF d(1)] d(2) by auto
  ultimately show thesis
    using assms derive_chunks_spliced(2) [OF d(3)]
    by (intro that) (auto simp: derive_codex_patch_update_with_matching_mode_def)
qed

lemma detect_joined:
  assumes "list_all line_ok ls"
  shows "detect_apply_text_line_ending (restore_apply_text_line_endings (join [LF] (ls @ [[]])) le)
    = Inr (if le = Crlf \<and> ls \<noteq> [] then Crlf else if ls = [] then NoEnding else Lf)"
proof -
  let ?t = "join [LF] (ls @ [[]])"
  have cr: "CR \<notin> set ?t" using set_join [of CR "[LF]" "ls @ [[]]"] assms by (auto simp: line_ok_def list_all_iff)
  have lf: "LF \<in> set ?t \<longleftrightarrow> ls \<noteq> []" by (cases "ls = []") (auto simp: join_snoc)
  show ?thesis
    using detect_scan_no_cr [OF cr, of False False] detect_scan_replace_lf [OF cr, of False False] lf
    by (cases le) (auto simp: restore_apply_text_line_endings_def detect_apply_text_line_ending_def)
qed

lemma select_match_rejection_None: "select_match_rejection a b = None \<longleftrightarrow> a = None \<and> b = None"
  by (cases a; cases b) (auto simp: select_match_rejection_def map_filter_simps Let_def split: if_splits)

lemma match_rejection_fact_None:
  assumes "match_rejection_fact m mm src len n = None" "mm \<noteq> FirstMatch" "0 < n" "n \<le> len"
    "sm_index m < usize_max" "sm_search_start m < usize_max"
  shows "sm_candidate_count m = 1 \<and> (mm = ExactUnique \<longrightarrow> sm_mode m = Exact)"
  using assms
  by (cases mm) (auto simp: match_rejection_fact_def Let_def checked_add_def is_unique_def is_exact_unique_def
      split: if_splits)

lemma best_match_unique:
  assumes "best_match lines pat start eof mm m" "sm_candidate_count m = 1"
  shows "filter (\<lambda>i. matches_at lines pat i (sm_mode m)) (search_range lines pat start eof mm) = [sm_index m]"
proof -
  let ?hits = "filter (\<lambda>i. matches_at lines pat i (sm_mode m)) (search_range lines pat start eof mm)"
  have "length ?hits = 1" "sm_index m \<in> set ?hits" using assms by (auto simp: best_match_def Let_def)
  then show ?thesis by (cases ?hits) (auto simp del: set_filter)
qed

text \<open>Where a search of a non-empty pattern starts lies inside the file.\<close>

lemma seek_sequence_start:
  assumes "seek_sequence lines pat start eof mm = Some m" "pat \<noteq> []"
  shows "sm_search_start m < length lines" "sm_index m < length lines"
proof -
  from assms have le: "start \<le> length lines - length pat" "length pat \<le> length lines"
    and "first_tier (seek_tier lines pat start eof mm) [Exact, TrimEnd, Trim, Normalized] = Some m"
    by (auto simp: seek_sequence_def split: if_splits)
  from first_tier_Some [OF this(3) modes_sorted] obtain mode
    where "seek_tier lines pat start eof mm mode = Some m" by blast
  then have "sm_search_start m \<le> length lines - length pat"
    using le(1) by (auto simp: seek_tier_def Let_def split: if_splits)
  with le assms(2) show "sm_search_start m < length lines" by (cases pat) auto
  show "sm_index m < length lines"
    using seek_sequence_index(2) [OF assms(1)] le assms(2) by (cases pat) force+
qed

lemma unrejected_replacement:
  assumes "replace_chunk path lines mm ci chunk pos cx = Inr (pos', (s, n, new), m)"
    and "cm_match_rejection m = None" "mm \<noteq> FirstMatch" "0 < n" "length lines \<le> usize_max" "pos \<le> length lines"
  shows "\<exists>pat mode. n = length pat \<and> (pat = old_lines chunk \<or> pat = butlast (old_lines chunk))
    \<and> filter (\<lambda>i. matches_at lines pat i mode) (search_range lines pat pos (is_end_of_file chunk) mm) = [s]
    \<and> (mm = ExactUnique \<longrightarrow> mode = Exact)"
proof -
  from assms(1) obtain pat f where f: "seek_old_lines lines chunk pos mm = (pat, new, Some f)"
    and r: "s = sm_index f" "n = length pat"
    and rej: "cm_match_rejection m = None \<Longrightarrow> match_rejection_fact f mm OldLines (length lines) (length pat) = None"
    by (auto simp: replace_chunk_def Let_def select_match_rejection_None split: prod.splits option.splits)
  have pat: "pat \<noteq> []" using assms(4) r by auto
  have sk: "seek_sequence lines pat pos (is_end_of_file chunk) mm = Some f"
    and pc: "pat = old_lines chunk \<or> pat = butlast (old_lines chunk)"
    using f by (auto simp: seek_old_lines_def Let_def split: if_splits)
  have "length pat \<le> length lines" using seek_sequence_index(2) [OF sk assms(6)] by simp
  then have "sm_candidate_count f = 1 \<and> (mm = ExactUnique \<longrightarrow> sm_mode f = Exact)"
    using match_rejection_fact_None [OF rej [OF assms(2)] assms(3)] seek_sequence_start [OF sk pat] pat assms(5)
    by simp
  with best_match_unique [OF seek_sequence_Some(1) [OF pat sk]] pc r show ?thesis by blast
qed

text \<open>Deriving an update never panics: whatever the file, the chunks and the matching mode,
  the replacement loop splices only ranges that lie inside the vector of lines.\<close>

theorem derive_never_panics:
  "derive_codex_patch_update_with_matching_mode original path chunks matching_mode \<noteq> None"
  by (auto simp: derive_codex_patch_update_with_matching_mode_def derive_chunks_spliced(2)
      split: sum.splits)


text \<open>A small file and chunk on which the properties are instantiated.\<close>

definition sample_chunk :: CodexPatchChunk where
  "sample_chunk = \<lparr>change_context = None, old_lines = [lit ''b''], new_lines = [lit ''c'', lit ''d''], is_end_of_file = False\<rparr>"

lemmas derive_eval = derive_chunk_def replace_chunk_def insert_chunk_def seek_old_lines_def
  seek_sequence_def seek_tier_def matches_at_def match_rejection_fact_def select_match_rejection_def
  is_unique_def is_exact_unique_def map_filter_simps MAX_CODEX_PATCH_CANDIDATE_POSITIONS_def
  source_lines_def splice_all_def splice_def Let_def

lemma sample_chunk_derived:
  assumes "mm \<noteq> ExactUnique"
  shows "derive_chunk path [lit ''a'', lit ''b''] mm ci sample_chunk 0 =
    Inr (2, (1, 1, [lit ''c'', lit ''d'']),
      \<lparr>cm_chunk_index = ci, cm_match_mode = Some Exact, cm_match_source = OldLines, cm_matched_start_line = 2,
       cm_candidate_count = Some 1, cm_unique_match = True, cm_strict_match = True, cm_match_rejection = None\<rparr>)"
  using assms
  by (cases mm) (simp_all add: derive_eval sample_chunk_def lit_def)


text \<open>The search for a non-empty block of lines is complete and picks the best tier: it fails
  exactly when no position of the range matches even after normalisation, and a match it
  returns lies in the range, reports the true number of matches of its tier and the first
  four of them, and no position of the range matches at a finer tier.\<close>

theorem seek_sequence_correct:
  assumes "pattern \<noteq> []"
  shows "case seek_sequence lines pattern start eof matching_mode of
      None \<Rightarrow> start + length pattern \<le> length lines \<longrightarrow>
        (\<forall>i \<in> set (search_range lines pattern start eof matching_mode). \<not> matches_at lines pattern i Normalized)
    | Some m \<Rightarrow> best_match lines pattern start eof matching_mode m \<and> start + length pattern \<le> length lines"
proof (cases "seek_sequence lines pattern start eof matching_mode")
  case None
  with seek_sequence_None [OF assms, of lines start eof matching_mode] show ?thesis
    unfolding None by simp
next
  case (Some m)
  then show ?thesis using seek_sequence_Some [OF assms Some] by simp
qed

theorem seek_sequence_correct_witness:
  "case seek_sequence [lit ''a'', lit '' b '', lit ''b''] [lit ''b''] 0 False Unique of
      None \<Rightarrow> False
    | Some m \<Rightarrow> best_match [lit ''a'', lit '' b '', lit ''b''] [lit ''b''] 0 False Unique m \<and> sm_index m = 2"
proof -
  have "seek_sequence [lit ''a'', lit '' b '', lit ''b''] [lit ''b''] 0 False Unique =
      Some \<lparr>sm_index = 2, sm_mode = Exact, sm_candidate_count = 1, sm_candidate_positions = [2], sm_search_start = 0\<rparr>"
    by (simp add: derive_eval lit_def numeral_2_eq_2)
  then show ?thesis
    using seek_sequence_correct [where pattern = "[lit ''b'']" and lines = "[lit ''a'', lit '' b '', lit ''b'']"
        and start = 0 and eof = False and matching_mode = Unique] by simp
qed

text \<open>In the modes that demand uniqueness, a replacement reported without a rejection is
  unambiguous: its position is the only one of the search range that matches at its tier,
  and in the exact mode that tier is the exact one.\<close>

theorem unrejected_replacement_is_unique:
  assumes "derive_chunk path lines matching_mode chunk_index chunk pos = Inr (pos', (s, n, new), m)"
    and "cm_match_rejection m = None" "matching_mode \<noteq> FirstMatch" "0 < n"
    and "length lines \<le> usize_max" "pos \<le> length lines"
  shows "\<exists>start pat mode. pos \<le> start \<and> n = length pat
    \<and> (pat = old_lines chunk \<or> pat = butlast (old_lines chunk))
    \<and> filter (\<lambda>i. matches_at lines pat i mode)
        (search_range lines pat start (is_end_of_file chunk) matching_mode) = [s]
    \<and> (matching_mode = ExactUnique \<longrightarrow> mode = Exact)"
proof -
  have "old_lines chunk \<noteq> []"
    using assms(1,4) by (auto simp: derive_chunk_def insert_chunk_def Let_def split: option.splits)
  with assms(1) obtain start cx where
    "replace_chunk path lines matching_mode chunk_index chunk start cx = Inr (pos', (s, n, new), m)"
    "pos \<le> start" "start \<le> length lines"
    using assms(6) seek_sequence_index [of lines _ pos False matching_mode]
    by (fastforce simp: derive_chunk_def Let_def split: option.splits)
  with unrejected_replacement [of path lines matching_mode chunk_index chunk start cx] assms show ?thesis by blast
qed

theorem unrejected_replacement_is_unique_witness:
  "\<exists>start pat mode. Suc 0 = length pat \<and> filter (\<lambda>i. matches_at [lit ''a'', lit ''b''] pat i mode)
     (search_range [lit ''a'', lit ''b''] pat start (is_end_of_file sample_chunk) Unique) = [Suc 0]"
proof -
  have "length [lit ''a'', lit ''b''] \<le> usize_max" by (simp add: usize_max_def)
  then show ?thesis
    using unrejected_replacement_is_unique [OF sample_chunk_derived [of Unique "[]" 0]] by auto
qed

text \<open>A chunk whose only old line is empty is placed although nothing matched: on a file without
  an empty line the search is repeated with no lines at all, which is taken for an exact
  and unique match, so the new line goes in at the search start and the chunk is
  reported as strictly matched, with no rejection, even in the exact-unique mode.\<close>

theorem empty_old_line_reports_strict_match:
  "derive_chunk path [lit ''a''] ExactUnique chunk_index
     \<lparr>change_context = None, old_lines = [[]], new_lines = [lit ''b''], is_end_of_file = False\<rparr> 0 =
   Inr (0, (0, 0, [lit ''b'']),
     \<lparr>cm_chunk_index = chunk_index, cm_match_mode = Some Exact, cm_match_source = OldLines,
      cm_matched_start_line = 1, cm_candidate_count = Some 1, cm_unique_match = True,
      cm_strict_match = True, cm_match_rejection = None\<rparr>)"
  by (simp add: derive_eval normalize_codex_patch_match_text_def str_simps)

end
