(* ===== verification/Job_Observation.thy ===== *)
theory Job_Observation
  imports Rust_Prelude
begin

text \<open>
  The observation tokens and log projections of \<open>crates/webcodex-core/src/job_observation.rs\<close>: an
  opaque, job-bound token that carries the revision and the next absolute line of the two
  log streams, and the selection of the part of a retained log that a client has not seen.

  \<open>u64\<close> values are 64-bit words. The encoder fills a 13-byte buffer from its end and has
  an \<open>unreachable!\<close> arm; both are \<open>None\<close> here.
\<close>

section \<open>Tokens\<close>

definition LEGACY_TOKEN_PREFIX :: rstr where "LEGACY_TOKEN_PREFIX = lit ''wjob1''"
definition TOKEN_V2_PREFIX :: rstr where "TOKEN_V2_PREFIX = lit ''wj2a''"
definition MAX_JOB_OBSERVATION_TOKEN_LEN :: nat where "MAX_JOB_OBSERVATION_TOKEN_LEN = 192"
definition MAX_JOB_ID_LEN :: nat where "MAX_JOB_ID_LEN = 80"
definition MAX_EPOCH_LEN :: nat where "MAX_EPOCH_LEN = 64"

abbreviation (input) COLON :: rchar where "COLON \<equiv> 58"

record JobObservationToken =
  tok_job_id :: rstr
  tok_epoch :: rstr
  tok_revision :: "64 word"
  tok_stdout_cursor :: "64 word option"
  tok_stderr_cursor :: "64 word option"

datatype JobObservationTokenError = Malformed | Oversized | WrongJob

primrec JobObservationTokenError_display :: "JobObservationTokenError \<Rightarrow> rstr" where
  "JobObservationTokenError_display Malformed =
     lit ''invalid after_observation_token: malformed opaque Job token''"
| "JobObservationTokenError_display Oversized =
     lit ''invalid after_observation_token: token exceeds 192 bytes''"
| "JobObservationTokenError_display WrongJob =
     lit ''invalid after_observation_token: token belongs to a different Job''"

definition base36_digit :: "nat \<Rightarrow> rchar" where
  "base36_digit d = (if d < 10 then 48 + d else 97 + d - 10)"

text \<open>The digit loop: \<open>index\<close> is the number of free bytes left in the buffer.\<close>

fun encode_base36_loop :: "nat \<Rightarrow> 64 word \<Rightarrow> rstr \<Rightarrow> rstr option" where
  "encode_base36_loop index v encoded =
     (if v = 0 then Some encoded
      else (case index of
          0 \<Rightarrow> None
        | Suc i \<Rightarrow> encode_base36_loop i (v div 36) (base36_digit (unat (v mod 36)) # encoded)))"

declare encode_base36_loop.simps [simp del]

definition encode_base36 :: "64 word \<Rightarrow> rstr option" where
  "encode_base36 v = (if v = 0 then Some [48] else encode_base36_loop 13 v [])"

definition encode :: "JobObservationToken \<Rightarrow> rstr option" where
  "encode t =
     (case (tok_stdout_cursor t, tok_stderr_cursor t) of
        (Some so, Some se) \<Rightarrow>
          (case (encode_base36 (tok_revision t), encode_base36 so, encode_base36 se) of
             (Some r, Some o', Some e) \<Rightarrow>
               Some (join [COLON] [TOKEN_V2_PREFIX, tok_job_id t, tok_epoch t, r, o', e])
           | _ \<Rightarrow> None)
      | (None, None) \<Rightarrow>
          Some (join [COLON] [LEGACY_TOKEN_PREFIX, lit ''a'', tok_job_id t, tok_epoch t,
                              show_nat (unat (tok_revision t))])
      | _ \<Rightarrow> None)"

definition checked_mul64 :: "64 word \<Rightarrow> 64 word \<Rightarrow> 64 word option" where
  "checked_mul64 a b = (if unat a * unat b < 2 ^ 64 then Some (a * b) else None)"

definition checked_add64 :: "64 word \<Rightarrow> 64 word \<Rightarrow> 64 word option" where
  "checked_add64 a b = (if unat a + unat b < 2 ^ 64 then Some (a + b) else None)"

text \<open>A checked fold over the digits of a numeral, in some base.\<close>

fun parse_digits :: "64 word \<Rightarrow> (rchar \<Rightarrow> nat option) \<Rightarrow> 64 word \<Rightarrow> rstr \<Rightarrow> 64 word option" where
  "parse_digits base digit acc [] = Some acc"
| "parse_digits base digit acc (c # s) =
     (case digit c of
        None \<Rightarrow> None
      | Some d \<Rightarrow>
          (case checked_mul64 acc base of
             None \<Rightarrow> None
           | Some m \<Rightarrow>
               (case checked_add64 m (of_nat d) of
                  None \<Rightarrow> None
                | Some a \<Rightarrow> parse_digits base digit a s)))"

definition decimal_value :: "rchar \<Rightarrow> nat option" where
  "decimal_value c = (if is_ascii_digit c then Some (c - 48) else None)"

definition base36_value :: "rchar \<Rightarrow> nat option" where
  "base36_value c =
     (if 48 \<le> c \<and> c \<le> 57 then Some (c - 48)
      else if 97 \<le> c \<and> c \<le> 122 then Some (c - 97 + 10) else None)"

definition parse_decimal :: "rstr \<Rightarrow> JobObservationTokenError + 64 word" where
  "parse_decimal v =
     (if v = [] \<or> (1 < str_len v \<and> starts_with v [48]) \<or> \<not> list_all is_ascii_digit v
      then Inl Malformed
      else (case parse_digits 10 decimal_value 0 v of None \<Rightarrow> Inl Malformed | Some n \<Rightarrow> Inr n))"

definition parse_base36 :: "rstr \<Rightarrow> JobObservationTokenError + 64 word" where
  "parse_base36 v =
     (if v = [] \<or> (1 < str_len v \<and> starts_with v [48]) then Inl Malformed
      else (case parse_digits 36 base36_value 0 v of None \<Rightarrow> Inl Malformed | Some n \<Rightarrow> Inr n))"

definition component_char :: "rchar \<Rightarrow> bool" where
  "component_char c \<longleftrightarrow> is_ascii_alphanumeric c \<or> c = 45 \<or> c = 95 \<or> c = 46"

definition validate_component :: "rstr \<Rightarrow> nat \<Rightarrow> JobObservationTokenError + unit" where
  "validate_component v max_len =
     (if v = [] \<or> max_len < str_len v then Inl Malformed
      else if \<not> list_all component_char v then Inl Malformed
      else Inr ())"

text \<open>\<open>None\<close> of the outer option is a panic inside \<open>encode\<close>.\<close>

definition build :: "rstr \<Rightarrow> rstr \<Rightarrow> 64 word \<Rightarrow> 64 word option \<Rightarrow> 64 word option
    \<Rightarrow> (JobObservationTokenError + JobObservationToken) option" where
  "build job_id epoch revision stdout_cursor stderr_cursor =
     (if (stdout_cursor \<noteq> None) \<noteq> (stderr_cursor \<noteq> None) then Some (Inl Malformed)
      else if stdout_cursor = Some 0 \<or> stderr_cursor = Some 0 then Some (Inl Malformed)
      else let token = \<lparr>tok_job_id = job_id, tok_epoch = epoch, tok_revision = revision,
             tok_stdout_cursor = stdout_cursor, tok_stderr_cursor = stderr_cursor\<rparr>
      in case validate_component job_id MAX_JOB_ID_LEN of
           Inl e \<Rightarrow> Some (Inl e)
         | Inr _ \<Rightarrow>
             (case validate_component epoch MAX_EPOCH_LEN of
                Inl e \<Rightarrow> Some (Inl e)
              | Inr _ \<Rightarrow>
                  map_option (\<lambda>s. if MAX_JOB_OBSERVATION_TOKEN_LEN < str_len s then Inl Oversized
                                  else Inr token) (encode token)))"

definition new_token :: "rstr \<Rightarrow> rstr \<Rightarrow> 64 word \<Rightarrow> 64 word \<Rightarrow> 64 word
    \<Rightarrow> (JobObservationTokenError + JobObservationToken) option" where
  "new_token job_id epoch revision stdout_cursor stderr_cursor =
     build job_id epoch revision (Some stdout_cursor) (Some stderr_cursor)"

definition new_legacy :: "rstr \<Rightarrow> rstr \<Rightarrow> 64 word
    \<Rightarrow> (JobObservationTokenError + JobObservationToken) option" where
  "new_legacy job_id epoch revision = build job_id epoch revision None None"

text \<open>The last step of both parsers: the token must encode to the text it was read from.\<close>

definition check_canonical :: "rstr \<Rightarrow> (JobObservationTokenError + JobObservationToken) option
    \<Rightarrow> (JobObservationTokenError + JobObservationToken) option" where
  "check_canonical v built =
     (case built of
        None \<Rightarrow> None
      | Some (Inl e) \<Rightarrow> Some (Inl e)
      | Some (Inr token) \<Rightarrow>
          map_option (\<lambda>s. if s \<noteq> v then Inl Malformed else Inr token) (encode token))"

definition parse_legacy :: "rstr \<Rightarrow> (JobObservationTokenError + JobObservationToken) option" where
  "parse_legacy v =
     (case split_char COLON v of
        [pfx, a, job_id, epoch, revision] \<Rightarrow>
          if pfx \<noteq> LEGACY_TOKEN_PREFIX \<or> a \<noteq> lit ''a'' then Some (Inl Malformed)
          else (case parse_decimal revision of
              Inl e \<Rightarrow> Some (Inl e)
            | Inr r \<Rightarrow> check_canonical v (build job_id epoch r None None))
      | _ \<Rightarrow> Some (Inl Malformed))"

definition parse_v2 :: "rstr \<Rightarrow> (JobObservationTokenError + JobObservationToken) option" where
  "parse_v2 v =
     (case split_char COLON v of
        [pfx, job_id, epoch, revision, so, se] \<Rightarrow>
          if pfx \<noteq> TOKEN_V2_PREFIX then Some (Inl Malformed)
          else (case (parse_base36 revision, parse_base36 so, parse_base36 se) of
              (Inr r, Inr o', Inr e) \<Rightarrow> check_canonical v (build job_id epoch r (Some o') (Some e))
            | _ \<Rightarrow> Some (Inl Malformed))
      | _ \<Rightarrow> Some (Inl Malformed))"

definition parse :: "rstr \<Rightarrow> (JobObservationTokenError + JobObservationToken) option" where
  "parse v =
     (if v = [] \<or> \<not> list_all (\<lambda>c. c < 128) v then Some (Inl Malformed)
      else if MAX_JOB_OBSERVATION_TOKEN_LEN < str_len v then Some (Inl Oversized)
      else if starts_with v (lit ''wjob1:'') then parse_legacy v
      else parse_v2 v)"

definition parse_bound :: "rstr \<Rightarrow> rstr \<Rightarrow> (JobObservationTokenError + JobObservationToken) option" where
  "parse_bound v job_id =
     map_option (\<lambda>r. case r of Inl e \<Rightarrow> Inl e
       | Inr token \<Rightarrow> if tok_job_id token \<noteq> job_id then Inl WrongJob else Inr token) (parse v)"

definition is_legacy :: "JobObservationToken \<Rightarrow> bool" where
  "is_legacy t \<longleftrightarrow> tok_stdout_cursor t = None"

section \<open>Log projections\<close>

datatype JobLogDeltaStatus = BaselineStatus | DeltaStatus | UnchangedStatus | ResetStatus

primrec JobLogDeltaStatus_as_str :: "JobLogDeltaStatus \<Rightarrow> rstr" where
  "JobLogDeltaStatus_as_str BaselineStatus = lit ''baseline''"
| "JobLogDeltaStatus_as_str DeltaStatus = lit ''delta''"
| "JobLogDeltaStatus_as_str UnchangedStatus = lit ''unchanged''"
| "JobLogDeltaStatus_as_str ResetStatus = lit ''reset''"

datatype JobLogSelectionMode = Baseline | Delta "64 word" | Reset

record JobLogStreamProjection =
  proj_text :: rstr
  proj_next_line :: nat
  proj_total_lines :: nat
  proj_returned_lines :: nat
  proj_first_retained_line :: nat
  proj_truncated :: bool
  proj_delta_reset :: bool

text \<open>\<open>usize::try_from\<close> of a \<open>u64\<close> never fails where \<open>usize\<close> has 64 bits.\<close>

definition project_log_stream ::
    "rstr \<Rightarrow> nat \<Rightarrow> nat \<Rightarrow> bool \<Rightarrow> nat option \<Rightarrow> JobLogSelectionMode \<Rightarrow> bool \<Rightarrow> JobLogStreamProjection" where
  "project_log_stream retained_text first_retained next storage_truncated tail_lines mode preserve =
     (let lines = str_lines retained_text;
          first_retained_line = max first_retained 1;
          expected_next = sat_add first_retained_line (length lines);
          observed_next_line = max next 1;
          snapshot_consistent = (observed_next_line = expected_next);
          next_line = (if snapshot_consistent \<and> retained_text \<noteq> [] \<and> \<not> ends_with retained_text [LF]
                       then max (observed_next_line - 1) first_retained_line
                       else observed_next_line);
          tail_bound = (case tail_lines of Some n \<Rightarrow> if 0 < n then Some n else None | None \<Rightarrow> None);
          baseline_start = (case tail_bound of None \<Rightarrow> 0 | Some tail \<Rightarrow> length lines - tail);
          (start, delta_reset) = (case mode of
              Baseline \<Rightarrow> (baseline_start, False)
            | Reset \<Rightarrow> (baseline_start, True)
            | Delta cursor \<Rightarrow>
                if \<not> (snapshot_consistent \<and> first_retained_line \<le> unat cursor
                       \<and> unat cursor \<le> observed_next_line)
                then (baseline_start, True)
                else let delta_start = min (unat cursor - first_retained_line) (length lines);
                         bounded_start = (case tail_bound of None \<Rightarrow> delta_start
                            | Some tail \<Rightarrow> max (length lines - tail) delta_start)
                     in (bounded_start, delta_start < bounded_start));
          selected = join [LF] (drop start lines);
          text = (if preserve \<and> selected \<noteq> [] then selected @ [LF] else selected);
          baseline_or_reset = (mode = Baseline \<or> mode = Reset)
      in \<lparr>proj_text = text, proj_next_line = next_line,
          proj_total_lines = observed_next_line - 1,
          proj_returned_lines = length lines - start,
          proj_first_retained_line = first_retained_line,
          proj_truncated = ((baseline_or_reset \<or> delta_reset)
            \<and> (storage_truncated \<or> 1 < first_retained_line \<or> 0 < start)),
          proj_delta_reset = delta_reset\<rparr>)"

definition combined_delta_status ::
    "JobLogSelectionMode \<Rightarrow> JobLogStreamProjection \<Rightarrow> JobLogStreamProjection \<Rightarrow> JobLogDeltaStatus" where
  "combined_delta_status mode stdout stderr =
     (case mode of
        Baseline \<Rightarrow> BaselineStatus
      | Reset \<Rightarrow> ResetStatus
      | Delta _ \<Rightarrow>
          if proj_delta_reset stdout \<or> proj_delta_reset stderr then ResetStatus
          else if proj_text stdout = [] \<and> proj_text stderr = [] then UnchangedStatus
          else DeltaStatus)"

section \<open>Numerals\<close>

lemma base36_digit_value: "d < 36 \<Longrightarrow> base36_value (base36_digit d) = Some d"
  by (auto simp: base36_digit_def base36_value_def)

text \<open>The digits of a number in base 36, most significant first.\<close>

fun base36 :: "nat \<Rightarrow> rstr" where
  "base36 n = (if n = 0 then [] else base36 (n div 36) @ [base36_digit (n mod 36)])"

declare base36.simps [simp del]

lemma unat_zero_iff: "unat (v :: 64 word) = 0 \<longleftrightarrow> v = 0"
  by (rule unat_0_iff)

lemma unat_lt_64: "unat (v :: 64 word) < 2 ^ 64"
proof -
  have "unat v < 2 ^ LENGTH(64)" by (rule unsigned_less)
  then show ?thesis by simp
qed

lemma base36_0 [simp]: "base36 0 = []"
  by (simp add: base36.simps)

lemma encode_base36_loop_digits:
  "unat v < 36 ^ i \<Longrightarrow> encode_base36_loop i v s = Some (base36 (unat v) @ s)"
proof (induction i arbitrary: v s)
  case 0
  then have "v = 0" by (simp add: unat_zero_iff)
  then show ?case by (simp add: encode_base36_loop.simps)
next
  case (Suc i)
  have "unat (v div 36) < 36 ^ i"
    using Suc.prems by (simp add: unat_div less_mult_imp_div_less mult.commute)
  note IH = Suc.IH [OF this]
  show ?case
  proof (cases "v = 0")
    case False
    then have "unat v \<noteq> 0" by (simp add: unat_zero_iff)
    with False IH show ?thesis
      by (simp add: encode_base36_loop.simps [of "Suc i"] base36.simps [of "unat v"] unat_div unat_mod)
  qed (simp add: encode_base36_loop.simps)
qed

lemma encode_base36_total: "encode_base36 v = Some (if v = 0 then [48] else base36 (unat v))"
proof -
  have "unat v < 2 ^ 64" by (rule unat_lt_64)
  then have "unat v < 36 ^ 13" by simp
  then show ?thesis by (simp add: encode_base36_def encode_base36_loop_digits)
qed

lemma unat_of_nat_64: "n < 2 ^ 64 \<Longrightarrow> unat (of_nat n :: 64 word) = n"
  by (simp add: unsigned_of_nat take_bit_nat_eq_self)

lemma checked_step:
  assumes "n < 2 ^ 64" "0 < b"
  shows "Option.bind (checked_mul64 (of_nat (n div b)) (of_nat b)) (\<lambda>m. checked_add64 m (of_nat (n mod b)))
    = Some (of_nat n)"
proof (cases "b < 2 ^ 64")
  case True
  have le: "n div b * b \<le> n" "n div b \<le> n" "n mod b \<le> n" by simp_all
  have small: "n div b < 2 ^ 64" "n mod b < 2 ^ 64" "n div b * b < 2 ^ 64" using le assms(1) by linarith+
  have "checked_mul64 (of_nat (n div b)) (of_nat b) = Some (of_nat (n div b * b))"
    using small True by (simp add: checked_mul64_def unat_of_nat_64 del: of_nat_mult) simp
  moreover have "checked_add64 (of_nat (n div b * b)) (of_nat (n mod b)) = Some (of_nat (n div b * b + n mod b))"
    using small assms(1)
    by (simp only: checked_add64_def unat_of_nat_64 div_mult_mod_eq if_True of_nat_add [symmetric])
  ultimately show ?thesis by simp
next
  case False
  then have "n div b = 0" "n mod b = n" using assms by simp_all
  then show ?thesis using assms(1) by (simp add: checked_mul64_def checked_add64_def unat_of_nat_64)
qed

lemma parse_digits_snoc:
  "parse_digits b dg acc (s @ [c]) =
   Option.bind (parse_digits b dg acc s) (\<lambda>a. Option.bind (dg c) (\<lambda>d.
     Option.bind (checked_mul64 a b) (\<lambda>m. checked_add64 m (of_nat d))))"
proof (induction s arbitrary: acc)
  case Nil
  then show ?case by (auto split: option.splits)
next
  case (Cons x s)
  then show ?case by (auto split: option.splits)
qed

lemma parse_base36_digits: "n < 2 ^ 64 \<Longrightarrow> parse_digits 36 base36_value 0 (base36 n) = Some (of_nat n)"
proof (induction n rule: base36.induct)
  case (1 n)
  show ?case
  proof (cases "n = 0")
    case False
    have "n div 36 < 2 ^ 64" using "1.prems" by (meson div_le_dividend le_less_trans)
    with 1 False show ?thesis
      using checked_step [OF "1.prems", of 36] base36_digit_value [of "n mod 36"]
      by (simp add: base36.simps [of n] parse_digits_snoc)
  qed simp
qed

lemma parse_decimal_digits: "n < 2 ^ 64 \<Longrightarrow> parse_digits 10 decimal_value 0 (show_nat n) = Some (of_nat n)"
proof (induction n rule: show_nat.induct)
  case (1 n)
  have d: "decimal_value (48 + k) = Some k" if "k < 10" for k
    using that by (auto simp: decimal_value_def is_ascii_digit_def)
  show ?case
  proof (cases "n < 10")
    case True
    then show ?thesis
      using d [OF True] "1.prems"
      by (simp add: show_nat.simps [of n] checked_mul64_def checked_add64_def unat_of_nat_64)
  next
    case False
    have "n div 10 < 2 ^ 64" using "1.prems" by (meson div_le_dividend le_less_trans)
    with 1 False show ?thesis
      using checked_step [OF "1.prems", of 10] d [of "n mod 10"]
      by (simp add: show_nat.simps [of n] parse_digits_snoc)
  qed
qed

lemma base36_chars: "c \<in> set (base36 n) \<Longrightarrow> is_ascii_alphanumeric c"
proof (induction n rule: base36.induct)
  case (1 n)
  have "n mod 36 < 36" by simp
  then have "is_ascii_alphanumeric (base36_digit (n mod 36))"
    by (auto simp: base36_digit_def is_ascii_alphanumeric_def is_ascii_digit_def)
  with 1 show ?case by (auto simp: base36.simps [of n] split: if_splits)
qed

lemma base36_hd: "n \<noteq> 0 \<Longrightarrow> base36 n \<noteq> [] \<and> hd (base36 n) \<noteq> 48"
proof (induction n rule: base36.induct)
  case (1 n)
  show ?case
  proof (cases "n < 36")
    case True
    with "1.prems" show ?thesis by (simp add: base36.simps [of n] base36_digit_def)
  next
    case False
    then have "n div 36 \<noteq> 0" by simp
    with 1 show ?thesis by (simp add: base36.simps [of n])
  qed
qed

lemma show_nat_chars: "c \<in> set (show_nat n) \<Longrightarrow> is_ascii_digit c"
proof (induction n rule: show_nat.induct)
  case (1 n)
  have "n mod 10 < 10" by simp
  then have "is_ascii_digit (48 + n mod 10)" by (simp add: is_ascii_digit_def)
  with 1 show ?case by (auto simp: show_nat.simps [of n] is_ascii_digit_def split: if_splits)
qed

lemma show_nat_hd: "show_nat n \<noteq> [] \<and> (n \<noteq> 0 \<longrightarrow> hd (show_nat n) \<noteq> 48)"
proof (induction n rule: show_nat.induct)
  case (1 n)
  show ?case
  proof (cases "n < 10")
    case False
    then have "n div 10 \<noteq> 0" by simp
    with 1 False show ?thesis by (simp add: show_nat.simps [of n])
  qed (simp add: show_nat.simps [of n])
qed

lemma parse_base36_encode: "encode_base36 v = Some s \<Longrightarrow> parse_base36 s = Inr v"
proof -
  assume "encode_base36 v = Some s"
  then have s: "s = (if v = 0 then [48] else base36 (unat v))" by (simp add: encode_base36_total)
  show ?thesis
  proof (cases "v = 0")
    case True
    then show ?thesis by (simp add: s parse_base36_def base36_value_def checked_mul64_def checked_add64_def utf8_width_def)
  next
    case False
    then have "unat v \<noteq> 0" by (simp add: unat_zero_iff)
    from base36_hd [OF this] have "base36 (unat v) \<noteq> []" "\<not> starts_with (base36 (unat v)) [48]"
      by (auto simp: starts_with_def take_Suc)
    then show ?thesis
      using False parse_base36_digits [of "unat v"] unat_lt_64 [of v]
      by (simp add: s parse_base36_def)
  qed
qed

lemma parse_decimal_show: "parse_decimal (show_nat (unat (v :: 64 word))) = Inr v"
proof -
  have ne: "show_nat (unat v) \<noteq> []" using show_nat_hd by blast
  have "\<not> (1 < str_len (show_nat (unat v)) \<and> starts_with (show_nat (unat v)) [48])"
  proof (cases "unat v = 0")
    case True
    then show ?thesis by (simp add: show_nat.simps [of 0] utf8_width_def)
  next
    case False
    with ne show_nat_hd show ?thesis by (auto simp: starts_with_def take_Suc)
  qed
  moreover have "list_all is_ascii_digit (show_nat (unat v))" by (auto simp: list_all_iff show_nat_chars)
  ultimately show ?thesis
    using ne parse_decimal_digits [of "unat v"] unat_lt_64 [of v] by (simp add: parse_decimal_def)
qed

section \<open>Tokens round trip\<close>

text \<open>The tokens that \<open>build\<close> accepts.\<close>

definition valid_token :: "JobObservationToken \<Rightarrow> bool" where
  "valid_token t \<longleftrightarrow> build (tok_job_id t) (tok_epoch t) (tok_revision t) (tok_stdout_cursor t) (tok_stderr_cursor t)
     = Some (Inr t)"

lemma build_Some_Inr:
  "build j e r so se = Some (Inr t) \<Longrightarrow>
     t = \<lparr>tok_job_id = j, tok_epoch = e, tok_revision = r, tok_stdout_cursor = so, tok_stderr_cursor = se\<rparr>
     \<and> (so = None) = (se = None) \<and> list_all component_char j \<and> list_all component_char e
     \<and> (\<exists>s. encode t = Some s \<and> str_len s \<le> MAX_JOB_OBSERVATION_TOKEN_LEN)"
  by (auto simp: build_def Let_def validate_component_def split: if_splits sum.splits)

lemma build_valid: "build j e r so se = Some (Inr t) \<Longrightarrow> valid_token t"
  using build_Some_Inr by (fastforce simp: valid_token_def)

lemma check_canonical_Some:
  "check_canonical v b = Some (Inr t) \<longleftrightarrow> b = Some (Inr t) \<and> encode t = Some v"
  by (auto simp: check_canonical_def split: option.splits sum.splits if_splits)

lemma parse_sound:
  assumes "parse v = Some (Inr t)"
  shows "encode t = Some v" "valid_token t"
proof -
  have "\<exists>j e r so se. check_canonical v (build j e r so se) = Some (Inr t)"
    using assms
    by (auto simp: parse_def parse_legacy_def parse_v2_def split: if_splits list.splits sum.splits) blast+
  then show "encode t = Some v" "valid_token t" by (auto simp: check_canonical_Some intro: build_valid)
qed

lemma component_char_ascii: "component_char c \<Longrightarrow> c < 128 \<and> c \<noteq> COLON"
  by (auto simp: component_char_def is_ascii_alphanumeric_def is_ascii_digit_def)

lemma encode_base36_chars: "encode_base36 v = Some s \<Longrightarrow> list_all component_char s"
  by (auto simp: encode_base36_total list_all_iff component_char_def is_ascii_alphanumeric_def
      is_ascii_digit_def split: if_splits dest!: base36_chars)

lemma show_nat_component: "list_all component_char (show_nat n)"
  by (auto simp: list_all_iff component_char_def is_ascii_alphanumeric_def dest: show_nat_chars)

text \<open>The colon-separated fields of a token.\<close>

definition token_fields :: "JobObservationToken \<Rightarrow> rstr list" where
  "token_fields t =
     (case (tok_stdout_cursor t, tok_stderr_cursor t) of
        (Some so, Some se) \<Rightarrow> [TOKEN_V2_PREFIX, tok_job_id t, tok_epoch t,
          the (encode_base36 (tok_revision t)), the (encode_base36 so), the (encode_base36 se)]
      | _ \<Rightarrow> [LEGACY_TOKEN_PREFIX, lit ''a'', tok_job_id t, tok_epoch t, show_nat (unat (tok_revision t))])"

lemma encode_fields:
  "encode t = Some s \<Longrightarrow> s = join [COLON] (token_fields t)"
  by (auto simp: encode_def token_fields_def encode_base36_total split: option.splits)

lemma token_fields_chars:
  assumes "list_all component_char (tok_job_id t)" "list_all component_char (tok_epoch t)"
  shows "f \<in> set (token_fields t) \<Longrightarrow> list_all component_char f"
proof -
  have b: "list_all component_char (the (encode_base36 v))" for v
    using encode_base36_chars [of v] by (simp add: encode_base36_total)
  have "list_all component_char TOKEN_V2_PREFIX" "list_all component_char LEGACY_TOKEN_PREFIX"
    "list_all component_char (lit ''a'')" by code_simp+
  then show "f \<in> set (token_fields t) \<Longrightarrow> list_all component_char f"
    using assms b show_nat_component by (auto simp: token_fields_def split: option.splits)
qed

lemma split_encode:
  assumes "encode t = Some s" "list_all component_char (tok_job_id t)" "list_all component_char (tok_epoch t)"
  shows "split_char COLON s = token_fields t" "list_all (\<lambda>c. c < 128) s" "s \<noteq> []"
    "starts_with s (lit ''wjob1:'') \<longleftrightarrow> tok_stdout_cursor t = None"
proof -
  have s: "s = join [COLON] (token_fields t)" by (rule encode_fields [OF assms(1)])
  have c: "list_all component_char f" if "f \<in> set (token_fields t)" for f
    using token_fields_chars [OF assms(2,3) that] .
  have ne: "token_fields t \<noteq> []" by (auto simp: token_fields_def split: option.splits)
  show "split_char COLON s = token_fields t"
    unfolding s using ne c component_char_ascii by (intro split_char_join) (auto simp: list_all_iff)
  have "x < 128" if "x \<in> set s" for x
    using set_join [OF that [unfolded s]] c component_char_ascii by (auto simp: list_all_iff)
  then show "list_all (\<lambda>c. c < 128) s" by (simp add: list_all_iff)
  show "s \<noteq> []" "starts_with s (lit ''wjob1:'') \<longleftrightarrow> tok_stdout_cursor t = None"
    using assms(1) unfolding s
    by (auto simp: encode_def token_fields_def TOKEN_V2_PREFIX_def LEGACY_TOKEN_PREFIX_def str_simps
        split: option.splits)
qed

lemma parse_encode:
  assumes "valid_token t" "encode t = Some s"
  shows "parse s = Some (Inr t)"
proof -
  note b = build_Some_Inr [OF assms(1) [unfolded valid_token_def]]
  then have comp: "list_all component_char (tok_job_id t)" "list_all component_char (tok_epoch t)"
    and len: "str_len s \<le> MAX_JOB_OBSERVATION_TOKEN_LEN" using assms(2) by auto
  note sp = split_encode [OF assms(2) comp]
  have bs: "parse_base36 (the (encode_base36 v)) = Inr v" for v
    using parse_base36_encode [of v] by (simp add: encode_base36_total)
  have "(if tok_stdout_cursor t = None then parse_legacy s else parse_v2 s) = Some (Inr t)"
    using b assms bs
    by (auto simp: parse_legacy_def parse_v2_def sp(1) token_fields_def check_canonical_Some parse_decimal_show
        valid_token_def split: option.splits)
  then show ?thesis using sp(2,3,4) len by (simp add: parse_def)
qed

definition token_encode :: "JobObservationToken \<Rightarrow> rstr" where
  "token_encode t = (case encode t of None \<Rightarrow> [] | Some s \<Rightarrow> s)"

definition token_decode :: "rstr \<Rightarrow> JobObservationToken option" where
  "token_decode v = (case parse v of Some (Inr t) \<Rightarrow> Some t | _ \<Rightarrow> None)"

interpretation token_codec: codec token_encode token_decode valid_token
proof unfold_locales
  fix t
  assume t: "valid_token t"
  then obtain s where s: "encode t = Some s" using build_Some_Inr unfolding valid_token_def by blast
  with parse_encode [OF t s] show "token_decode (token_encode t) = Some t"
    by (simp add: token_encode_def token_decode_def)
next
  fix v t
  assume "token_decode v = Some t"
  then have "parse v = Some (Inr t)" by (auto simp: token_decode_def split: option.splits sum.splits)
  from parse_sound [OF this] show "token_encode t = v \<and> valid_token t" by (simp add: token_encode_def)
qed

text \<open>C27: Observation tokens have one spelling: a text is accepted exactly when it is the encoding
  of a token that the constructor accepts, the token read is that one, and the job-bound
  reader accepts it for the job it names and no other.\<close>

theorem token_round_trip:
  "(parse v = Some (Inr t) \<longleftrightarrow> valid_token t \<and> encode t = Some v)
   \<and> (parse_bound v job_id = Some (Inr t) \<longleftrightarrow> valid_token t \<and> encode t = Some v \<and> tok_job_id t = job_id)"
proof -
  have p: "parse v = Some (Inr t) \<longleftrightarrow> token_decode v = Some t"
    by (auto simp: token_decode_def split: option.splits sum.splits)
  have e: "valid_token t \<Longrightarrow> token_encode t = v \<longleftrightarrow> encode t = Some v"
    using build_Some_Inr by (fastforce simp: token_encode_def valid_token_def)
  have "parse_bound v job_id = Some (Inr t) \<longleftrightarrow> parse v = Some (Inr t) \<and> tok_job_id t = job_id"
  proof (cases "parse v")
    case (Some r)
    then show ?thesis by (cases r) (auto simp: parse_bound_def)
  qed (simp add: parse_bound_def)
  then show ?thesis using p e by (auto simp: token_codec.decode_iff)
qed

lemma encode_total: "(so = None) = (se = None) \<Longrightarrow>
    encode \<lparr>tok_job_id = j, tok_epoch = e, tok_revision = r, tok_stdout_cursor = so, tok_stderr_cursor = se\<rparr> \<noteq> None"
  by (cases so; cases se) (auto simp: encode_def encode_base36_total)

lemma build_total: "build j e r so se \<noteq> None"
  using encode_total [of so se j e r] by (auto simp: build_def Let_def split: sum.splits)

lemma parse_total: "parse v \<noteq> None"
proof -
  have "check_canonical v (build j e r so se) \<noteq> None" for j e r so se
    using build_total [of j e r so se] build_Some_Inr [of j e r so se]
    by (auto simp: check_canonical_def split: option.splits sum.splits)
  then show ?thesis by (auto simp: parse_def parse_legacy_def parse_v2_def split: list.splits sum.splits)
qed

text \<open>Building and reading tokens never panics: the digits of a 64-bit value fit the 13-byte
  buffer, and the \<open>unreachable!\<close> arm of the encoder is not reached.\<close>

theorem token_operations_never_panic:
  "build job_id epoch revision stdout_cursor stderr_cursor \<noteq> None \<and> parse v \<noteq> None"
  using build_total parse_total by blast

section \<open>Deltas lose nothing\<close>

text \<open>A log as text: complete lines and a last line that may still grow.\<close>

definition log_text :: "rstr list \<Rightarrow> rstr \<Rightarrow> rstr" where
  "log_text ls partial = concat (map (\<lambda>l. l @ [LF]) ls) @ partial"

definition visible_lines :: "rstr list \<Rightarrow> rstr \<Rightarrow> rstr list" where
  "visible_lines ls partial = ls @ (if partial = [] then [] else [partial])"

definition log_line :: "rstr \<Rightarrow> bool" where
  "log_line l \<longleftrightarrow> LF \<notin> set l \<and> CR \<notin> set l"

lemma split_log_text:
  "list_all log_line ls \<Longrightarrow> LF \<notin> set partial \<Longrightarrow> split_char LF (log_text ls partial) = ls @ [partial]"
proof (induction ls)
  case (Cons l ls)
  then show ?case
    using split_char_append_sep [of LF l "log_text ls partial"] by (simp add: log_text_def log_line_def)
qed (auto simp: log_text_def intro!: split_by_no_sep)

lemma str_lines_log_text:
  assumes "list_all log_line ls" "LF \<notin> set partial"
  shows "str_lines (log_text ls partial) = visible_lines ls partial"
proof -
  have "map strip_cr ls = ls"
    using assms(1) by (intro map_idI) (auto simp: strip_cr_def log_line_def list_all_iff dest: last_in_set)
  then show ?thesis by (simp add: str_lines_def split_log_text [OF assms] visible_lines_def)
qed

lemma log_text_ends: "partial \<noteq> [] \<Longrightarrow> LF \<notin> set partial \<Longrightarrow> \<not> ends_with (log_text ls partial) [LF]"
  by (cases partial rule: rev_cases) (auto simp: log_text_def ends_with_def starts_with_def)

lemma log_text_ends_complete: "ends_with (log_text ls []) [LF] \<or> log_text ls [] = []"
  by (cases ls rule: rev_cases) (auto simp: log_text_def ends_with_def starts_with_def)

text \<open>The retained part of a log whose first line number is \<open>first\<close>.\<close>

definition retained :: "nat \<Rightarrow> rstr list \<Rightarrow> rstr \<Rightarrow> rstr" where
  "retained first ls partial = log_text (drop (first - 1) ls) partial"

lemma proj_next_line_eq:
  "proj_next_line (project_log_stream t f n st tb mode pr) =
     (if max n 1 = sat_add (max f 1) (length (str_lines t)) \<and> t \<noteq> [] \<and> \<not> ends_with t [LF]
      then max (max n 1 - 1) (max f 1) else max n 1)"
  by (simp add: project_log_stream_def Let_def case_prod_unfold)

lemma proj_delta_eq:
  assumes "max n 1 = sat_add (max f 1) (length (str_lines t))" "unat w \<le> max n 1"
  shows "proj_delta_reset (project_log_stream t f n st None (Delta w) False) \<longleftrightarrow> unat w < max f 1"
    "max f 1 \<le> unat w \<Longrightarrow> proj_text (project_log_stream t f n st None (Delta w) False) =
       join [LF] (drop (min (unat w - max f 1) (length (str_lines t))) (str_lines t))"
  using assms by (auto simp: project_log_stream_def Let_def)

lemma project_snapshot:
  assumes "list_all log_line ls" "LF \<notin> set partial" "1 \<le> first" "first \<le> length ls + 1"
    "length ls + 2 \<le> usize_max"
  shows "str_lines (retained first ls partial) = visible_lines (drop (first - 1) ls) partial"
    "sat_add first (length (str_lines (retained first ls partial))) = length (visible_lines ls partial) + 1"
    "proj_next_line (project_log_stream (retained first ls partial) first (length (visible_lines ls partial) + 1)
       st tb mode pr) = length ls + 1"
proof -
  have "list_all log_line (drop (first - 1) ls)"
    using assms(1) by (auto simp: list_all_iff dest: in_set_dropD)
  from str_lines_log_text [OF this assms(2)]
  show sl: "str_lines (retained first ls partial) = visible_lines (drop (first - 1) ls) partial"
    by (simp add: retained_def)
  show sn: "sat_add first (length (str_lines (retained first ls partial))) = length (visible_lines ls partial) + 1"
    unfolding sl using assms(3-5) by (auto simp: visible_lines_def sat_add_def)
  have ends: "retained first ls partial \<noteq> [] \<and> \<not> ends_with (retained first ls partial) [LF] \<longleftrightarrow> partial \<noteq> []"
    using log_text_ends [OF _ assms(2)] log_text_ends_complete [of "drop (first - 1) ls"]
    by (auto simp: retained_def log_text_def)
  show "proj_next_line (project_log_stream (retained first ls partial) first (length (visible_lines ls partial) + 1)
       st tb mode pr) = length ls + 1"
  proof -
    have m: "max first 1 = first" using assms(3) by simp
    show ?thesis
      unfolding proj_next_line_eq m sn using ends assms(3,4) by (auto simp: visible_lines_def)
  qed
qed

lemma unat_cursor: "c \<le> usize_max \<Longrightarrow> unat (of_nat c :: 64 word) = c"
  by (intro unat_of_nat_64) (simp add: usize_max_def)

lemma drop_visible: "first \<le> n + 1 \<Longrightarrow> 1 \<le> first \<Longrightarrow> n \<le> length ls \<Longrightarrow>
    drop (n + 1 - first) (visible_lines (drop (first - 1) ls) partial) = drop n (visible_lines ls partial)"
  by (simp add: visible_lines_def add.commute)

lemma project_delta:
  fixes st :: bool and w :: "64 word"
  assumes "list_all log_line ls" "LF \<notin> set partial" "1 \<le> first" "first \<le> length ls + 1"
    "length ls + 2 \<le> usize_max" "n \<le> length ls" "unat w = n + 1"
  defines "p \<equiv> project_log_stream (retained first ls partial) first (length (visible_lines ls partial) + 1)
       st None (Delta w) False"
  shows "proj_delta_reset p \<longleftrightarrow> n + 1 < first"
    "first \<le> n + 1 \<Longrightarrow> proj_text p = join [LF] (drop n (visible_lines ls partial))"
proof -
  note snap = project_snapshot [OF assms(1-5)]
  have m: "max first 1 = first" "max (length (visible_lines ls partial) + 1) 1 = length (visible_lines ls partial) + 1"
    using assms(3) by auto
  have le: "n + 1 \<le> length (visible_lines ls partial) + 1" using assms(6) by (simp add: visible_lines_def)
  have min: "min (n + 1 - first) (length (visible_lines (drop (first - 1) ls) partial)) = n + 1 - first"
    using assms(3,6) by (auto simp: visible_lines_def)
  note delta = proj_delta_eq [of "length (visible_lines ls partial) + 1" first "retained first ls partial" w st,
      unfolded m snap(2) assms(7), OF refl le]
  show "proj_delta_reset p \<longleftrightarrow> n + 1 < first" unfolding p_def by (rule delta(1))
  show "proj_text p = join [LF] (drop n (visible_lines ls partial))" if f: "first \<le> n + 1"
    unfolding p_def delta(2) [OF f] snap(1) min by (simp only: drop_visible [OF f assms(3,6)])
qed

text \<open>Deltas lose nothing and repeat no complete line. When a log grows between two
  observations, the cursor of the first one names the line after its last complete line;
  a delta from it, on whatever part of the log is retained by then, returns exactly the lines
  after those, the line that was still growing included, and it asks for a reset exactly
  when some of these lines have been discarded.\<close>

theorem delta_observations_are_continuous:
  fixes st1 st2 pr :: bool and tail_lines :: "nat option" and mode :: JobLogSelectionMode
  assumes "prefix old new" "list_all log_line new" "LF \<notin> set p1" "LF \<notin> set p2"
    and "1 \<le> f1" "f1 \<le> length old + 1" "1 \<le> f2" "f2 \<le> length new + 1" "length new + 2 \<le> usize_max"
  defines "first \<equiv> project_log_stream (retained f1 old p1) f1 (length (visible_lines old p1) + 1) st1 tail_lines mode pr"
  defines "second \<equiv> project_log_stream (retained f2 new p2) f2 (length (visible_lines new p2) + 1) st2 None
    (Delta (of_nat (proj_next_line first))) False"
  shows "(proj_delta_reset second \<longleftrightarrow> length old + 1 < f2)
    \<and> (f2 \<le> length old + 1 \<longrightarrow> proj_text second = join [LF] (drop (length old) (visible_lines new p2)))
    \<and> proj_next_line second = length new + 1"
proof -
  have old: "length old \<le> length new" "list_all log_line old"
    using assms(1,2) by (auto simp: prefix_def)
  have c: "proj_next_line first = length old + 1"
    unfolding first_def using assms(3,5,6,9) old by (intro project_snapshot) auto
  have "unat (of_nat (length old + 1) :: 64 word) = length old + 1"
    using assms(9) old(1) by (intro unat_cursor) simp
  note d = project_delta [OF assms(2,4,7-9) old(1) this]
  show ?thesis
    unfolding second_def c using d project_snapshot(3) [OF assms(2,4,7-9)] by blast
qed

theorem delta_observations_are_continuous_witness:
  "proj_text (project_log_stream (retained 2 [lit ''a'', lit ''bc''] []) 2 3 False None
     (Delta (of_nat (proj_next_line (project_log_stream (retained 1 [lit ''a''] (lit ''b'')) 1 3 False None Baseline False)))) False)
   = lit ''bc''"
proof -
  have "prefix [lit ''a''] [lit ''a'', lit ''bc'']" "list_all log_line [lit ''a'', lit ''bc'']"
    "LF \<notin> set (lit ''b'')" "LF \<notin> set []" "length [lit ''a'', lit ''bc''] + 2 \<le> usize_max"
    by (simp_all add: log_line_def lit_def usize_max_def)
  from delta_observations_are_continuous [OF this(1-4) _ _ _ _ this(5), where ?f1.0 = 1 and ?f2.0 = 2
      and ?st1.0 = False and ?st2.0 = False and tail_lines = None and mode = Baseline and pr = False]
  show ?thesis by (simp add: visible_lines_def lit_def numeral_3_eq_3)
qed

end
