(* ===== verification/Job_Logs.thy ===== *)
theory Job_Logs
  imports Rust_Prelude
begin

text \<open>
  The bounded log retention of the Runner registry
  (\<open>crates/webcodex-runner-registry/src/jobs.rs\<close>, with \<open>ShellJobLogState\<close> of \<open>state.rs\<close>): a stream
  keeps its last bytes, the absolute number of the first line it still has and of the
  next line to come. Slicing a string inside a character panics; the operations that slice
  return an option, and \<open>None\<close> is that panic.
\<close>

section \<open>State and operations\<close>

definition ORDINARY_RESULT_STREAM_RETENTION_BYTES :: nat where
  "ORDINARY_RESULT_STREAM_RETENTION_BYTES = 256 * 1024"

definition LIVE_JOB_STREAM_RETENTION_BYTES :: nat where
  "LIVE_JOB_STREAM_RETENTION_BYTES = 256 * 1024"

record ShellJobLogState =
  log_tail :: rstr
  log_first_retained_line :: nat
  log_next_line :: nat
  log_truncated :: bool

definition ShellJobLogState_default :: ShellJobLogState where
  "ShellJobLogState_default =
     \<lparr>log_tail = [], log_first_retained_line = 1, log_next_line = 1, log_truncated = False\<rparr>"

text \<open>The scan to the next character boundary.\<close>

function next_boundary :: "rstr \<Rightarrow> nat \<Rightarrow> nat" where
  "next_boundary s start =
     (if start < str_len s \<and> \<not> is_char_boundary s start then next_boundary s (start + 1) else start)"
  by pat_completeness auto
termination by (relation "measure (\<lambda>(s, start). str_len s - start)") auto

declare next_boundary.simps [simp del]

definition retain_result_stream_to :: "rstr option \<Rightarrow> nat \<Rightarrow> rstr option option" where
  "retain_result_stream_to v max_bytes =
     (case v of
        None \<Rightarrow> Some None
      | Some s \<Rightarrow>
          if str_len s \<le> max_bytes then Some (Some s)
          else map_option (\<lambda>(_, rest). Some
                 (lit ''[output truncated to last '' @ show_nat max_bytes @ lit '' bytes]'' @ [LF] @ rest))
               (str_split_at s (next_boundary s (str_len s - max_bytes))))"

definition retain_ordinary_result_stream :: "rstr option \<Rightarrow> rstr option option" where
  "retain_ordinary_result_stream v = retain_result_stream_to v ORDINARY_RESULT_STREAM_RETENTION_BYTES"

definition retain_live_job_stream :: "rstr option \<Rightarrow> rstr option option" where
  "retain_live_job_stream v = retain_result_stream_to v LIVE_JOB_STREAM_RETENTION_BYTES"

definition retained_line_count :: "rstr \<Rightarrow> nat" where
  "retained_line_count v = length (str_lines v)"

text \<open>What is dropped from a tail that is too long: everything up to the first line end at or
  after the cut, or up to the next character boundary when no line ends there.\<close>

definition log_cut :: "rstr \<Rightarrow> nat \<Rightarrow> (rstr \<times> rstr) option" where
  "log_cut tail limit =
     (let minimum_start = str_len tail - limit in
      case str_split_at tail minimum_start of
        None \<Rightarrow> None
      | Some (before, rest) \<Rightarrow>
          if LF \<in> set rest
          then let line = takeWhile (\<lambda>c. c \<noteq> LF) rest
               in Some (before @ line @ [LF], drop (length line + 1) rest)
          else str_split_at tail (next_boundary tail minimum_start))"

definition append_log_limited :: "ShellJobLogState \<Rightarrow> rstr option \<Rightarrow> ShellJobLogState option" where
  "append_log_limited target chunk =
     (case chunk of
        None \<Rightarrow> Some target
      | Some c \<Rightarrow>
          let tail = log_tail target @ c in
          if LIVE_JOB_STREAM_RETENTION_BYTES < str_len tail then
            let observed_next = sat_add (log_first_retained_line target) (retained_line_count tail) in
            map_option (\<lambda>(dropped, rest).
              let first = sat_add (log_first_retained_line target) (count_lf dropped);
                  first' = (if rest = [] then observed_next else first)
              in \<lparr>log_tail = rest, log_first_retained_line = first',
                  log_next_line = sat_add first' (retained_line_count rest), log_truncated = True\<rparr>)
              (log_cut tail LIVE_JOB_STREAM_RETENTION_BYTES)
          else Some (target\<lparr>log_tail := tail,
                 log_next_line := sat_add (log_first_retained_line target) (retained_line_count tail)\<rparr>))"

definition strip_suffix :: "rstr \<Rightarrow> rstr \<Rightarrow> rstr option" where
  "strip_suffix s p = (if ends_with s p then Some (take (length s - length p) s) else None)"

definition has_leading_result_retention_truncation_marker :: "rstr \<Rightarrow> bool" where
  "has_leading_result_retention_truncation_marker v =
     (if starts_with v (lit ''[output truncated]'' @ [LF]) \<or> starts_with v (lit ''[...]'' @ [LF]) then True
      else (case strip_prefix v (lit ''[output truncated to last '') of
          None \<Rightarrow> False
        | Some rest \<Rightarrow>
            if LF \<notin> set rest then False
            else (case strip_suffix (takeWhile (\<lambda>c. c \<noteq> LF) rest) (lit '' bytes]'') of
                None \<Rightarrow> False
              | Some byte_count \<Rightarrow> byte_count \<noteq> [] \<and> list_all is_ascii_digit byte_count)))"

definition replace_log_limited :: "ShellJobLogState \<Rightarrow> rstr option \<Rightarrow> ShellJobLogState option" where
  "replace_log_limited target v =
     (case v of
        None \<Rightarrow> Some target
      | Some s \<Rightarrow>
          map_option (\<lambda>kept. let tail = (case kept of None \<Rightarrow> [] | Some t \<Rightarrow> t) in
            \<lparr>log_tail = tail, log_first_retained_line = 1,
             log_next_line = sat_add 1 (retained_line_count tail),
             log_truncated = has_leading_result_retention_truncation_marker tail\<rparr>)
          (retain_live_job_stream (Some s)))"

text \<open>A stream snapshot of the protocol has the same four fields.\<close>

definition replace_log_from_snapshot :: "ShellJobLogState \<Rightarrow> ShellJobLogState \<Rightarrow> ShellJobLogState" where
  "replace_log_from_snapshot target snapshot =
     target\<lparr>log_tail := log_tail snapshot, log_first_retained_line := log_first_retained_line snapshot,
       log_next_line := log_next_line snapshot, log_truncated := log_truncated snapshot\<rparr>"

definition with_newline :: "rstr \<Rightarrow> rstr" where
  "with_newline selected = (if selected = [] then selected else selected @ [LF])"

definition select_log_lines ::
    "ShellJobLogState \<Rightarrow> nat option \<Rightarrow> nat option \<Rightarrow> rstr option \<times> nat \<times> nat \<times> bool" where
  "select_log_lines log since_line tail_lines =
     (let lines = str_lines (log_tail log);
          tail_bound = (case tail_lines of Some n \<Rightarrow> if 0 < n then Some n else None | None \<Rightarrow> None)
      in case tail_bound of
        Some tail \<Rightarrow>
          let start = length lines - tail in
          (Some (with_newline (join [LF] (drop start lines))), log_next_line log, log_next_line log - 1,
           1 < log_first_retained_line log \<or> 0 < start \<or> log_truncated log)
      | None \<Rightarrow>
          let requested = max (case since_line of None \<Rightarrow> log_first_retained_line log | Some n \<Rightarrow> n)
                              (log_first_retained_line log);
              start_idx = min (requested - log_first_retained_line log) (length lines)
          in (Some (with_newline (join [LF] (drop start_idx lines))), log_next_line log, log_next_line log - 1,
              (case since_line of None \<Rightarrow> False | Some line \<Rightarrow> line < log_first_retained_line log)
              \<or> 0 < start_idx \<or> log_truncated log))"

section \<open>Character boundaries\<close>

lemma next_boundary_ge: "start \<le> next_boundary s start"
  by (induction s start rule: next_boundary.induct) (subst next_boundary.simps, auto)

lemma next_boundary_le: "start \<le> str_len s \<Longrightarrow> next_boundary s start \<le> str_len s"
proof (induction s start rule: next_boundary.induct)
  case (1 s start)
  then show ?case by (subst next_boundary.simps) auto
qed

lemma next_boundary_ok: "start \<le> str_len s \<Longrightarrow> is_char_boundary s (next_boundary s start)"
proof (induction s start rule: next_boundary.induct)
  case (1 s start)
  then show ?case
    by (cases "start < str_len s \<and> \<not> is_char_boundary s start")
      (auto simp: next_boundary.simps [of s start])
qed

lemma next_boundary_fixed: "is_char_boundary s start \<Longrightarrow> next_boundary s start = start"
  by (subst next_boundary.simps) simp

section \<open>Lines of a concatenation\<close>

lemma split_by_append:
  "split_by P (a @ b) = butlast (split_by P a) @ (last (split_by P a) @ hd (split_by P b)) # tl (split_by P b)"
proof (induction a)
  case Nil
  then show ?case by simp
next
  case (Cons x a)
  show ?case
  proof (cases "P x")
    case True
    with Cons show ?thesis by simp
  next
    case False
    obtain y ys where y: "split_by P a = y # ys" by (cases "split_by P a") auto
    with False Cons show ?thesis by (cases ys) auto
  qed
qed

lemma length_split_lf: "length (split_char LF s) = Suc (count_lf s)"
  by (simp add: length_split_by count_lf_def)

lemma str_lines_split: "split_char LF s = ps @ [p] \<Longrightarrow>
   str_lines s = map strip_cr ps @ (if p = [] then [] else [p])"
  by (simp add: str_lines_def)

text \<open>The lines after the one that a cut goes through are those of the rest.\<close>

lemma str_lines_drop:
  "drop (Suc (count_lf a)) (str_lines (a @ b)) = drop 1 (str_lines b)"
proof -
  obtain as x where a: "split_char LF a = as @ [x]" by (metis append_butlast_last_id split_by_not_Nil)
  obtain b0 bs where b: "split_char LF b = b0 # bs" by (cases "split_char LF b") auto
  have len: "length as = count_lf a" using length_split_lf [of a] a by simp
  have ab: "split_char LF (a @ b) = as @ (x @ b0) # bs" using split_by_append [of "\<lambda>c. c = LF" a b] a b by simp
  show ?thesis
  proof (cases bs rule: rev_cases)
    case Nil
    with a b ab len show ?thesis
      using str_lines_split [of "a @ b" as "x @ b0"] str_lines_split [of b "[]" b0] by auto
  next
    case (snoc bs' p)
    with b ab len show ?thesis
      using str_lines_split [of "a @ b" "as @ (x @ b0) # bs'" p] str_lines_split [of b "b0 # bs'" p] by auto
  qed
qed

lemma str_lines_append_lf: "str_lines ((a @ [LF]) @ b) = str_lines (a @ [LF]) @ str_lines b"
proof -
  obtain bs p where b: "split_char LF b = bs @ [p]" by (metis append_butlast_last_id split_by_not_Nil)
  have "split_char LF (a @ LF # b) = (split_char LF a @ bs) @ [p]" using b by (simp add: split_by_append_sep)
  from str_lines_split [OF this] b str_lines_split [OF b] str_lines_split [of "a @ [LF]" "split_char LF a" "[]"]
  show ?thesis by (simp add: split_by_append_sep)
qed

lemma count_lf_lines: "length (str_lines (a @ [LF])) = count_lf (a @ [LF])"
  using length_split_lf [of a] str_lines_split [of "a @ [LF]" "split_char LF a" "[]"]
  by (simp add: split_by_append_sep count_lf_def)

section \<open>Retention\<close>

lemma limit_pos [simp]: "0 < LIVE_JOB_STREAM_RETENTION_BYTES"
  by (simp add: LIVE_JOB_STREAM_RETENTION_BYTES_def)

lemma log_cut_None:
  "log_cut tail limit = None \<longleftrightarrow> \<not> is_char_boundary tail (str_len tail - limit)"
  using next_boundary_ok [of "str_len tail - limit" tail]
  by (auto simp: log_cut_def Let_def is_char_boundary_def split: option.splits)

lemma takeWhile_lf:
  assumes "LF \<in> set s"
  shows "s = (takeWhile (\<lambda>c. c \<noteq> LF) s @ [LF]) @ drop (length (takeWhile (\<lambda>c. c \<noteq> LF) s) + 1) s"
proof -
  obtain ys zs where s: "s = ys @ LF # zs" "LF \<notin> set ys" using split_list_first [OF assms] by blast
  then have "takeWhile (\<lambda>c. c \<noteq> LF) s = ys" by (auto simp: takeWhile_tail intro: takeWhile_append2)
  with s show ?thesis by simp
qed

lemma log_cut_Some:
  assumes "log_cut tail limit = Some (dropped, rest)" "0 < limit" "limit < str_len tail"
  shows "tail = dropped @ rest" "str_len rest \<le> limit" "rest = [] \<Longrightarrow> \<exists>a. dropped = a @ [LF]"
proof -
  let ?cut = "str_len tail - limit"
  from assms(1) obtain before r where sp: "str_split_at tail ?cut = Some (before, r)"
    by (auto simp: log_cut_def Let_def split: option.splits)
  note b = str_split_at_Some [OF sp]
  have r: "str_len r = limit" using b assms(3) by (metis add_diff_cancel_left' diff_diff_cancel less_imp_le_nat str_len_append)
  have "tail = dropped @ rest \<and> str_len rest \<le> limit \<and> (rest = [] \<longrightarrow> (\<exists>a. dropped = a @ [LF]))"
  proof (cases "LF \<in> set r")
    case True
    define line where "line = takeWhile (\<lambda>c. c \<noteq> LF) r"
    have dr: "dropped = before @ line @ [LF]" "rest = drop (length line + 1) r"
      using assms(1) sp True by (auto simp: log_cut_def Let_def line_def)
    have "r = (line @ [LF]) @ rest" using takeWhile_lf [OF True] by (simp add: line_def dr(2))
    then have "str_len rest \<le> str_len r" "tail = dropped @ rest"
      using b dr(1) by (metis le_add2 str_len_append) (use b dr(1) \<open>r = (line @ [LF]) @ rest\<close> in auto)
    then show ?thesis using r dr(1) by simp
  next
    case False
    have "is_char_boundary tail ?cut" using sp by (simp add: is_char_boundary_def)
    then have "dropped = before" "rest = r"
      using assms(1) sp False by (auto simp: log_cut_def Let_def next_boundary_fixed)
    then show ?thesis using b r assms(2) by auto
  qed
  then show "tail = dropped @ rest" "str_len rest \<le> limit" "rest = [] \<Longrightarrow> \<exists>a. dropped = a @ [LF]" by auto
qed

text \<open>The whole stream that a log stands for: a dropped part, then the tail.\<close>

definition represents :: "rstr \<Rightarrow> ShellJobLogState \<Rightarrow> bool" where
  "represents stream log \<longleftrightarrow>
     (\<exists>dropped. stream = dropped @ log_tail log
       \<and> log_first_retained_line log = count_lf dropped + 1
       \<and> log_next_line log = log_first_retained_line log + length (str_lines (log_tail log))
       \<and> (dropped \<noteq> [] \<longrightarrow> log_truncated log)
       \<and> str_len (log_tail log) \<le> LIVE_JOB_STREAM_RETENTION_BYTES)"

lemma lines_le: "length (str_lines s) \<le> str_len s"
proof (cases s rule: rev_cases)
  case (snoc a c)
  show ?thesis
  proof (cases "c = LF")
    case True
    with snoc count_lf_lines [of a] count_lf_le [of s] show ?thesis by simp
  next
    case False
    have "length (str_lines s) \<le> Suc (count_lf s)"
      using length_split_lf [of s] by (auto simp: str_lines_def Let_def)
    also have "count_lf s = count_lf a" using snoc False by (simp add: count_lf_def)
    also have "Suc (count_lf a) \<le> str_len s"
      using count_lf_le [of a] snoc utf8_width_pos(1) [of c] by (simp only: str_len_append str_len.simps)
    finally show ?thesis .
  qed
qed (simp add: str_lines_def)

lemma append_log_refines:
  assumes "represents stream log" "append_log_limited log (Some chunk) = Some log'"
    "str_len (stream @ chunk) + 2 \<le> usize_max"
  shows "represents (stream @ chunk) log'"
proof -
  from assms(1) obtain d where d: "stream = d @ log_tail log" "log_first_retained_line log = count_lf d + 1"
    "d \<noteq> [] \<longrightarrow> log_truncated log" by (auto simp: represents_def)
  let ?tail = "log_tail log @ chunk"
  have small: "count_lf d + 1 + str_len ?tail + 1 \<le> usize_max"
    using assms(3) count_lf_le [of d] d(1) by simp
  show ?thesis
  proof (cases "LIVE_JOB_STREAM_RETENTION_BYTES < str_len ?tail")
    case False
    have "sat_add (count_lf d + 1) (length (str_lines ?tail)) = count_lf d + 1 + length (str_lines ?tail)"
      using small lines_le [of ?tail] by (intro sat_add_exact) simp
    then have "log' = log\<lparr>log_tail := ?tail, log_next_line := count_lf d + 1 + length (str_lines ?tail)\<rparr>"
      using False assms(2) d(2) by (simp add: append_log_limited_def Let_def retained_line_count_def)
    then show ?thesis unfolding represents_def using d False by (intro exI [of _ d]) simp
  next
    case True
    with assms(2) obtain dr rest where cut: "log_cut ?tail LIVE_JOB_STREAM_RETENTION_BYTES = Some (dr, rest)"
      by (auto simp: append_log_limited_def Let_def)
    note c = log_cut_Some [OF cut limit_pos True]
    have first: "(if rest = [] then sat_add (count_lf d + 1) (length (str_lines ?tail))
        else sat_add (count_lf d + 1) (count_lf dr)) = count_lf (d @ dr) + 1"
    proof (cases "rest = []")
      case True
      with c obtain a where "?tail = a @ [LF]" "dr = a @ [LF]" by auto
      then have "length (str_lines ?tail) = count_lf dr" using count_lf_lines by metis
      then show ?thesis using True small count_lf_le [of ?tail] c(1) by simp
    next
      case False
      have "count_lf dr \<le> str_len ?tail" using c(1) count_lf_le [of dr] by simp
      then show ?thesis using False small by simp
    qed
    have next_le: "count_lf (d @ dr) + 1 + length (str_lines rest) \<le> usize_max"
      using small lines_le [of rest] count_lf_le [of dr] c(1) by simp
    have "log' = \<lparr>log_tail = rest, log_first_retained_line = count_lf (d @ dr) + 1,
        log_next_line = count_lf (d @ dr) + 1 + length (str_lines rest), log_truncated = True\<rparr>"
      using True assms(2) cut first sat_add_exact [OF next_le] d(2)
      by (simp add: append_log_limited_def Let_def retained_line_count_def split: if_splits)
    then show ?thesis unfolding represents_def using d(1) c by (intro exI [of _ "d @ dr"]) simp
  qed
qed

text \<open>A retained log is a faithful tail of the stream. After every append the log stands for the
  whole stream received so far: its text is a suffix of it, within the byte limit, the
  number of its first line is one more than the number of line ends dropped, its next
  line follows the last retained one, and it is marked truncated when anything was dropped.\<close>

theorem append_keeps_stream:
  assumes "represents stream log" "append_log_limited log (Some chunk) = Some log'"
    and "str_len (stream @ chunk) + 2 \<le> usize_max"
  shows "represents (stream @ chunk) log'"
  using assms by (rule append_log_refines)

theorem append_keeps_stream_witness:
  "represents (lit ''a'' @ [LF]) \<lparr>log_tail = lit ''a'' @ [LF], log_first_retained_line = 1, log_next_line = 2, log_truncated = False\<rparr>"
proof -
  have "represents [] ShellJobLogState_default"
    by (simp add: represents_def ShellJobLogState_default_def str_lines_def count_lf_def)
  moreover have "append_log_limited ShellJobLogState_default (Some (lit ''a'' @ [LF])) =
      Some \<lparr>log_tail = lit ''a'' @ [LF], log_first_retained_line = 1, log_next_line = 2, log_truncated = False\<rparr>"
    by (simp add: append_log_limited_def ShellJobLogState_default_def LIVE_JOB_STREAM_RETENTION_BYTES_def
        lit_def utf8_width_def retained_line_count_def str_lines_def strip_cr_def sat_add_def usize_max_def)
  ultimately show ?thesis
    using append_keeps_stream [of "[]" ShellJobLogState_default "lit ''a'' @ [LF]"]
    by (simp add: lit_def utf8_width_def usize_max_def)
qed

text \<open>Following a log by line number reads the stream: a request for the lines from any
  number after the first retained line returns exactly those lines of the whole stream.\<close>

theorem select_log_lines_reads_stream:
  assumes "represents stream log" "log_first_retained_line log < n"
  shows "fst (select_log_lines log (Some n) None) = Some (with_newline (join [LF] (drop (n - 1) (str_lines stream))))"
proof -
  let ?f = "log_first_retained_line log"
  from assms(1) obtain d where d: "stream = d @ log_tail log" "?f = count_lf d + 1"
    by (auto simp: represents_def)
  have "drop (n - ?f) (str_lines (log_tail log)) = drop (n - ?f - 1) (drop 1 (str_lines (log_tail log)))"
    using assms(2) by (simp add: Suc_diff_Suc)
  also have "\<dots> = drop (n - 1) (str_lines stream)"
  proof -
    have "n - ?f - 1 + Suc (count_lf d) = n - 1" using assms(2) d(2) by simp
    then show ?thesis
      unfolding d(1) using str_lines_drop [of d "log_tail log"] by (metis drop_drop)
  qed
  finally have "drop (min (n - ?f) (length (str_lines (log_tail log)))) (str_lines (log_tail log))
      = drop (n - 1) (str_lines stream)" by (cases "n - ?f \<le> length (str_lines (log_tail log))") (auto simp: min_def)
  then show ?thesis using assms(2) by (simp add: select_log_lines_def Let_def max_def)
qed

theorem select_log_lines_reads_stream_witness:
  "fst (select_log_lines \<lparr>log_tail = lit ''a'' @ LF # lit ''b'' @ [LF], log_first_retained_line = 1, log_next_line = 3,
      log_truncated = False\<rparr> (Some 2) None)
   = Some (with_newline (join [LF] (drop 1 (str_lines (lit ''a'' @ LF # lit ''b'' @ [LF])))))"
proof -
  have "represents (lit ''a'' @ LF # lit ''b'' @ [LF])
      \<lparr>log_tail = lit ''a'' @ LF # lit ''b'' @ [LF], log_first_retained_line = 1, log_next_line = 3, log_truncated = False\<rparr>"
    by (simp add: represents_def lit_def utf8_width_def LIVE_JOB_STREAM_RETENTION_BYTES_def str_lines_def count_lf_def)
  from select_log_lines_reads_stream [OF this, of 2] show ?thesis by simp
qed

section \<open>Runs of appends\<close>

text \<open>The invariant of a log, whatever was appended to it; an append that panics leaves it alone.\<close>

definition log_consistent :: "ShellJobLogState \<Rightarrow> bool" where
  "log_consistent log \<longleftrightarrow> 1 \<le> log_first_retained_line log \<and> log_first_retained_line log \<le> usize_max
     \<and> log_next_line log = sat_add (log_first_retained_line log) (length (str_lines (log_tail log)))
     \<and> str_len (log_tail log) \<le> LIVE_JOB_STREAM_RETENTION_BYTES"

definition log_step :: "rstr option \<Rightarrow> ShellJobLogState \<Rightarrow> ShellJobLogState" where
  "log_step chunk log = (case append_log_limited log chunk of None \<Rightarrow> log | Some log' \<Rightarrow> log')"

lemma append_consistent:
  assumes "log_consistent log" "append_log_limited log chunk = Some log'"
  shows "log_consistent log' \<and> log_first_retained_line log \<le> log_first_retained_line log'"
proof (cases chunk)
  case None
  with assms show ?thesis by (simp add: append_log_limited_def)
next
  case (Some c)
  let ?tail = "log_tail log @ c"
  show ?thesis
  proof (cases "LIVE_JOB_STREAM_RETENTION_BYTES < str_len ?tail")
    case False
    with assms Some show ?thesis
      by (auto simp: append_log_limited_def Let_def log_consistent_def retained_line_count_def)
  next
    case True
    with assms(2) Some obtain dr rest where cut: "log_cut ?tail LIVE_JOB_STREAM_RETENTION_BYTES = Some (dr, rest)"
      by (auto simp: append_log_limited_def Let_def)
    have ge: "x \<le> sat_add x y" if "x \<le> usize_max" for x y using that by (simp add: sat_add_def)
    show ?thesis
      using assms(1,2) True Some cut log_cut_Some(2) [OF cut limit_pos True] ge sat_add_le(1)
      by (auto simp: append_log_limited_def Let_def log_consistent_def retained_line_count_def
          intro: order_trans split: if_splits)
  qed
qed

interpretation log_machine: monotone_machine log_step log_consistent log_first_retained_line
  by unfold_locales (auto simp: log_step_def dest: append_consistent split: option.splits)

text \<open>A log never grows beyond its limit and its line numbers never go back, whatever
  chunks arrive: along every run of appends from the empty log the text stays within
  256 KiB, the next line is the one after the retained lines, and the first retained line
  only moves forward.\<close>

theorem log_runs_are_bounded_and_monotone:
  "log_consistent (fold log_step chunks ShellJobLogState_default)
   \<and> log_first_retained_line (fold log_step chunks ShellJobLogState_default)
      \<le> log_first_retained_line (fold log_step (chunks @ later) ShellJobLogState_default)"
proof -
  have "log_consistent ShellJobLogState_default"
    by (simp add: log_consistent_def ShellJobLogState_default_def str_lines_def sat_add_def
        Suc_leI order_less_imp_le [OF usize_max_pos(3), unfolded One_nat_def] min_def)
  then have c: "log_consistent (fold log_step chunks ShellJobLogState_default)" by (rule log_machine.run_inv)
  with log_machine.run_rank [OF c, of later] show ?thesis by simp
qed

section \<open>Panics\<close>

lemma append_panics_iff:
  "append_log_limited log (Some chunk) = None \<longleftrightarrow>
     LIVE_JOB_STREAM_RETENTION_BYTES < str_len (log_tail log @ chunk)
     \<and> \<not> is_char_boundary (log_tail log @ chunk) (str_len (log_tail log @ chunk) - LIVE_JOB_STREAM_RETENTION_BYTES)"
  by (simp add: append_log_limited_def Let_def log_cut_None)

lemma str_len_replicate_ascii: "c < 128 \<Longrightarrow> str_len (replicate n c) = n"
  by (induction n) (simp_all add: utf8_width_def)

text \<open>Appending to a live log panics when the retention cut falls inside a character. A chunk
  of one two-byte character and 262143 ASCII characters, appended to an empty log, is one
  byte over the limit; the slice at byte 1 is not on a character boundary.\<close>

theorem append_panics_inside_character:
  "append_log_limited ShellJobLogState_default (Some (233 # replicate 262143 120)) = None"
proof -
  have over: "append_log_limited ShellJobLogState_default (Some s) = None"
    if "str_len s = 262145" "\<not> is_char_boundary s 1" for s
    unfolding append_panics_iff
    using that by (simp add: ShellJobLogState_default_def LIVE_JOB_STREAM_RETENTION_BYTES_def)
  show ?thesis
  proof (rule over)
    have len: "str_len (233 # replicate n 120) = n + 2" for n
      by (simp add: str_len_replicate_ascii utf8_width_def)
    have "(262145 :: nat) = 262143 + 2" by simp
    then show "str_len (233 # replicate 262143 120) = 262145" by (simp only: len)
    show "\<not> is_char_boundary (233 # s) 1" for s
      by (simp add: is_char_boundary_def utf8_width_def)
  qed
qed

text \<open>Retaining a finished stream never panics and is bounded: the result is the stream
  itself when it fits, and otherwise a truncation marker followed by a suffix of the stream
  of at most the limit.\<close>

theorem retain_result_stream_bounded:
  "\<exists>kept. retain_result_stream_to (Some s) max_bytes = Some (Some kept)
    \<and> (if str_len s \<le> max_bytes then kept = s
       else \<exists>rest. suffix rest s \<and> str_len rest \<le> max_bytes
         \<and> kept = lit ''[output truncated to last '' @ show_nat max_bytes @ lit '' bytes]'' @ [LF] @ rest)"
proof (cases "str_len s \<le> max_bytes")
  case False
  let ?start = "next_boundary s (str_len s - max_bytes)"
  obtain a b where ab: "str_split_at s ?start = Some (a, b)"
    using next_boundary_ok [of "str_len s - max_bytes" s] by (auto simp: is_char_boundary_def)
  have sb: "s = a @ b" and a: "str_len a = ?start" using str_split_at_Some [OF ab] by blast+
  have "str_len s = str_len a + str_len b" using sb by (metis str_len_append)
  then have "str_len b \<le> max_bytes" using next_boundary_ge [of "str_len s - max_bytes" s] a by linarith
  moreover have "suffix b s" using sb by (rule suffixI)
  ultimately show ?thesis using False ab by (simp add: retain_result_stream_to_def)
qed (simp add: retain_result_stream_to_def)

end
