(* ===== verification/Validation_Steps.thy ===== *)
theory Validation_Steps
  imports Rust_Prelude
begin

text \<open>
  The structured validation steps of the Runner protocol
  (\<open>crates/webcodex-core/src/runner_protocol.rs\<close>): the normalisers of the values that may appear in a
  Cargo or Go command line, the closed set of command lines that a step may run, and the
  validity of the metadata of validation and structured execution Jobs.

  The checks that the source makes on the bytes of a text it has found to be ASCII, or for bytes that are
  ASCII, are made on its characters.
\<close>

section \<open>Normalisers\<close>

definition RUST_TEST_FILTER_MAX_BYTES :: nat where "RUST_TEST_FILTER_MAX_BYTES = 200"
definition CARGO_VALUE_MAX_BYTES :: nat where "CARGO_VALUE_MAX_BYTES = 500"
definition CARGO_TEST_MIN_TESTS_MAX :: nat where "CARGO_TEST_MIN_TESTS_MAX = 1000000"
definition GO_TEST_PACKAGE_MAX_ITEMS :: nat where "GO_TEST_PACKAGE_MAX_ITEMS = 8"
definition GO_TEST_PACKAGE_MAX_BYTES :: nat where "GO_TEST_PACKAGE_MAX_BYTES = 256"
definition PROCESS_ARG_MAX_COUNT :: nat where "PROCESS_ARG_MAX_COUNT = 256"
definition SCRIPT_MIN_BYTES :: nat where "SCRIPT_MIN_BYTES = 1"
definition SCRIPT_MAX_BYTES :: nat where "SCRIPT_MAX_BYTES = 512 * 1024"
definition SCRIPT_ARG_MAX_COUNT :: nat where "SCRIPT_ARG_MAX_COUNT = 256"
definition VALIDATION_ASSERTION_NAME_MAX_CHARS :: nat where "VALIDATION_ASSERTION_NAME_MAX_CHARS = 120"

abbreviation (input) DASH :: rchar where "DASH \<equiv> 45"
abbreviation (input) SLASH :: rchar where "SLASH \<equiv> 47"

definition normalize_cargo_value :: "rstr \<Rightarrow> rstr + rstr option" where
  "normalize_cargo_value raw =
     (if 0 \<in> set raw then Inl (lit ''cannot contain NUL bytes'')
      else let trimmed = trim raw in
      if trimmed = [] then Inr None
      else if list_ex is_control trimmed then Inl (lit ''contains control characters'')
      else if starts_with trimmed [DASH] then Inl (lit ''must not start with '' @ [39, DASH, 39])
      else if CARGO_VALUE_MAX_BYTES < str_len trimmed then Inl (lit ''exceeds 500 bytes'')
      else Inr (Some trimmed))"

definition normalize_rust_test_filter :: "rstr \<Rightarrow> rstr + rstr option" where
  "normalize_rust_test_filter raw =
     (if RUST_TEST_FILTER_MAX_BYTES < str_len raw then Inl (lit ''exceeds 200 bytes'')
      else if 0 \<in> set raw then Inl (lit ''cannot contain NUL bytes'')
      else let trimmed = trim raw in
      if trimmed = [] then Inr None
      else if list_ex is_control trimmed then Inl (lit ''contains control characters'')
      else if starts_with trimmed [DASH] then Inl (lit ''must not start with '' @ [39, DASH, 39])
      else Inr (Some trimmed))"

definition valid_rust_test_filter :: "rstr \<Rightarrow> bool" where
  "valid_rust_test_filter v \<longleftrightarrow>
     (case normalize_rust_test_filter v of Inl _ \<Rightarrow> False | Inr normalized \<Rightarrow> normalized \<noteq> None)"

definition is_ascii_whitespace :: "rchar \<Rightarrow> bool" where
  "is_ascii_whitespace c \<longleftrightarrow> c \<in> set [9, 10, 12, 13, 32]"

definition is_ascii_control :: "rchar \<Rightarrow> bool" where
  "is_ascii_control c \<longleftrightarrow> c < 32 \<or> c = 127"

text \<open>The check of the segments of a package pattern, in order; the final segment is the one with none after it.\<close>

fun go_segments_error :: "rstr list \<Rightarrow> rstr option" where
  "go_segments_error [] = None"
| "go_segments_error (segment # segments) =
     (if segment = [] then Some (lit ''package pattern contains an empty segment'')
      else if segment = lit ''.'' \<or> segment = lit ''..'' then
        Some (lit ''package pattern contains an interior '' @ [39, 46, 39] @ lit '' or '' @ [39, 46, 46, 39] @ lit '' segment'')
      else if segment = lit ''...'' then
        (if segments \<noteq> []
         then Some ([39, 46, 46, 46, 39] @ lit '' is only allowed as the final complete segment'')
         else go_segments_error segments)
      else if str_contains segment (lit ''...'') then
        Some ([39, 46, 46, 46, 39] @ lit '' is only allowed as the final complete segment'')
      else if \<not> list_all (\<lambda>c. is_ascii_alphanumeric c \<or> c \<in> set (lit ''_-.'')) segment then
        Some (lit ''package pattern contains invalid characters'')
      else go_segments_error segments)"

definition normalize_go_test_package :: "rstr \<Rightarrow> rstr + rstr" where
  "normalize_go_test_package raw =
     (if raw = [] then Inl (lit ''package pattern cannot be empty'')
      else if GO_TEST_PACKAGE_MAX_BYTES < str_len raw then Inl (lit ''package pattern exceeds 256 bytes'')
      else if list_ex (\<lambda>c. 128 \<le> c) raw then Inl (lit ''package pattern must be ASCII'')
      else if list_ex (\<lambda>c. is_ascii_control c \<or> is_ascii_whitespace c) raw then
        Inl (lit ''package pattern cannot contain whitespace or control characters'')
      else if 92 \<in> set raw then Inl (lit ''package pattern cannot contain backslashes'')
      else if raw = lit ''.'' then Inr raw
      else (case strip_prefix raw (lit ''./'') of
          None \<Rightarrow> Inl (lit ''package pattern must be '' @ [39, 46, 39] @ lit '' or start with '' @ [39, 46, SLASH, 39])
        | Some rest \<Rightarrow>
            if rest = [] then Inl (lit ''package pattern must name a package path'')
            else (case go_segments_error (split_char SLASH rest) of
                Some e \<Rightarrow> Inl e
              | None \<Rightarrow> Inr raw)))"

text \<open>\<open>collect\<close> into a \<open>Result\<close> stops at the first error.\<close>

fun normalize_go_packages_each :: "rstr list \<Rightarrow> rstr + rstr list" where
  "normalize_go_packages_each [] = Inr []"
| "normalize_go_packages_each (p # ps) =
     (case normalize_go_test_package p of
        Inl e \<Rightarrow> Inl e
      | Inr q \<Rightarrow> (case normalize_go_packages_each ps of Inl e \<Rightarrow> Inl e | Inr qs \<Rightarrow> Inr (q # qs)))"

definition normalize_go_test_packages :: "rstr list option \<Rightarrow> rstr + rstr list" where
  "normalize_go_test_packages packages =
     (case packages of
        None \<Rightarrow> Inr [lit ''./...'']
      | Some ps \<Rightarrow>
          if ps = [] \<or> GO_TEST_PACKAGE_MAX_ITEMS < length ps
          then Inl (lit ''packages must contain between 1 and 8 items'')
          else normalize_go_packages_each ps)"

section \<open>Canonical command lines\<close>

fun cargo_flags_from :: "bool \<Rightarrow> rstr set \<Rightarrow> rstr list \<Rightarrow> bool" where
  "cargo_flags_from allow_no_run seen [] = True"
| "cargo_flags_from allow_no_run seen (arg # args) =
     (if arg \<in> set [lit ''--all-targets'', lit ''--all-features'', lit ''--no-default-features'']
         \<or> (arg = lit ''--no-run'' \<and> allow_no_run)
      then arg \<notin> seen \<and> cargo_flags_from allow_no_run (insert arg seen) args
      else if arg \<in> set [lit ''--features'', lit ''-p'']
      then arg \<notin> seen
        \<and> (case args of
             [] \<Rightarrow> False
           | v # args' \<Rightarrow> normalize_cargo_value v = Inr (Some v)
               \<and> cargo_flags_from allow_no_run (insert arg seen) args')
      else False)"

definition is_canonical_cargo_flags :: "rstr list \<Rightarrow> bool \<Rightarrow> bool" where
  "is_canonical_cargo_flags args allow_no_run = cargo_flags_from allow_no_run {} args"

definition is_canonical_cargo_check_args :: "rstr list \<Rightarrow> bool" where
  "is_canonical_cargo_check_args args \<longleftrightarrow>
     (case args of [] \<Rightarrow> False | a # rest \<Rightarrow> a = lit ''check'' \<and> is_canonical_cargo_flags rest False)"

definition is_canonical_cargo_test_args :: "rstr list \<Rightarrow> bool" where
  "is_canonical_cargo_test_args args \<longleftrightarrow>
     (case args of
        [] \<Rightarrow> False
      | a # rest \<Rightarrow> a = lit ''test''
          \<and> (let flags_start = (case rest of [] \<Rightarrow> 1 | v # _ \<Rightarrow> if valid_rust_test_filter v then 2 else 1)
             in is_canonical_cargo_flags (drop flags_start args) True))"

definition is_canonical_go_test_json_args :: "rstr list \<Rightarrow> bool" where
  "is_canonical_go_test_json_args args \<longleftrightarrow>
     \<not> (length args < 3 \<or> args ! 0 \<noteq> lit ''test'' \<or> args ! 1 \<noteq> lit ''-json'')
     \<and> normalize_go_test_packages (Some (drop 2 args)) = Inr (drop 2 args)"

definition node_script_allowed :: "rstr \<Rightarrow> rstr \<Rightarrow> bool" where
  "node_script_allowed kind script \<longleftrightarrow>
     (kind = lit ''format'' \<and> script \<in> set [lit ''format:check'', lit ''format-check'', lit ''check:format''])
     \<or> (kind = lit ''check'' \<and> script \<in> set [lit ''check'', lit ''typecheck'', lit ''lint''])
     \<or> (kind = lit ''test'' \<and> script = lit ''test'')"

record ShellJobValidationStep =
  step_name :: rstr
  step_program :: rstr
  step_args :: "rstr list"
  step_env :: "(rstr \<times> rstr) list"

definition is_structured_go_test_json :: "ShellJobValidationStep \<Rightarrow> bool" where
  "is_structured_go_test_json s \<longleftrightarrow>
     step_name s = lit ''test'' \<and> step_program s = lit ''go'' \<and> step_env s = []
     \<and> is_canonical_go_test_json_args (step_args s)"

definition step_env_ok :: "rstr \<times> rstr \<Rightarrow> bool" where
  "step_env_ok kv \<longleftrightarrow> fst kv = lit ''CARGO_TARGET_DIR'' \<and> snd kv \<noteq> [] \<and> 0 \<notin> set (snd kv) \<and> str_len (snd kv) \<le> 500"

definition is_canonical :: "ShellJobValidationStep \<Rightarrow> bool" where
  "is_canonical s \<longleftrightarrow>
     (let name = step_name s; program = step_program s; args = step_args s in
      if list_ex (\<lambda>a. 0 \<in> set a \<or> CARGO_VALUE_MAX_BYTES < str_len a) args then False
      else if \<not> list_all step_env_ok (step_env s) then False
      else if name = lit ''format'' \<and> program = lit ''cargo'' then args = [lit ''fmt'', lit ''--'', lit ''--check'']
      else if name = lit ''check'' \<and> program = lit ''cargo'' then is_canonical_cargo_check_args args
      else if name = lit ''test'' \<and> program = lit ''cargo'' then is_canonical_cargo_test_args args
      else if name = lit ''check'' \<and> program = lit ''go'' then args = [lit ''vet'', lit ''./...'']
      else if name = lit ''test'' \<and> program = lit ''go''
        then args = [lit ''test'', lit ''./...''] \<or> is_structured_go_test_json s
      else if name = lit ''format'' \<and> program = lit ''python''
        then args = [lit ''-m'', lit ''ruff'', lit ''format'', lit ''--check''] \<or> args = [lit ''-m'', lit ''black'', lit ''--check'']
      else if name = lit ''check'' \<and> program = lit ''python''
        then args = [lit ''-m'', lit ''ruff'', lit ''check''] \<or> args = [lit ''-m'', lit ''mypy'']
      else if name = lit ''test'' \<and> program = lit ''python''
        then args = [lit ''-m'', lit ''pytest''] \<or> args = [lit ''-B'', lit ''-m'', lit ''unittest'', lit ''discover'', lit ''-v'']
      else if program \<in> set [lit ''npm'', lit ''pnpm'', lit ''yarn'', lit ''bun'']
        then length args = 3 \<and> args ! 0 = lit ''run'' \<and> args ! 1 = lit ''--silent'' \<and> node_script_allowed name (args ! 2)
      else False)"

section \<open>Job metadata\<close>

record ShellJobValidationProgress =
  prog_completed :: nat
  prog_current_step :: "rstr option"
  prog_failed_step :: "rstr option"

datatype ShellJobActivityState = Working | Waiting

datatype ShellJobActivityPhase =
  ProcessRunning | ValidationFormat | ValidationCheck | ValidationTest | CargoWaitingForBuildLock
| CargoCompiling | CargoChecking

datatype ShellJobActivitySource = RunnerExecution | ValidationPlan | CargoOutput

record ShellJobActivity =
  act_state :: ShellJobActivityState
  act_phase :: ShellJobActivityPhase
  act_source :: ShellJobActivitySource

definition activity_is_canonical :: "ShellJobActivity \<Rightarrow> bool" where
  "activity_is_canonical a \<longleftrightarrow> (act_state a, act_phase a, act_source a) \<in> set
     [(Working, ProcessRunning, RunnerExecution), (Working, ValidationFormat, ValidationPlan),
      (Working, ValidationCheck, ValidationPlan), (Working, ValidationTest, ValidationPlan),
      (Waiting, CargoWaitingForBuildLock, CargoOutput), (Working, CargoCompiling, CargoOutput),
      (Working, CargoChecking, CargoOutput)]"

record ShellJobValidationMetadata =
  val_tool :: rstr
  val_kind :: rstr
  val_steps :: "ShellJobValidationStep list"
  val_effective_timeout_secs :: nat
  val_sync_wait_secs :: nat
  val_adapter :: rstr
  val_validation_target_id :: "rstr option"
  val_minimum_tests :: "nat option"
  val_require_tests :: "bool option"
  val_no_run :: "bool option"

text \<open>Twenty-four hexadecimal digits after one of the prefixes.\<close>

definition digest_after :: "rstr \<Rightarrow> rstr \<Rightarrow> bool" where
  "digest_after p v \<longleftrightarrow>
     opt_ex (\<lambda>suffix. str_len suffix = 24 \<and> list_all is_ascii_hexdigit suffix) (strip_prefix v p)"

definition validation_is_valid :: "ShellJobValidationMetadata \<Rightarrow> bool" where
  "validation_is_valid m =
     (if val_adapter m \<noteq> val_tool m \<or> length (val_steps m) \<noteq> 1 \<or> \<not> is_canonical (val_steps m ! 0)
         \<or> val_effective_timeout_secs m < 1 \<or> val_effective_timeout_secs m < val_sync_wait_secs m
         \<or> \<not> opt_all (digest_after (lit ''target:'')) (val_validation_target_id m)
         \<or> \<not> opt_all (\<lambda>n. 1 \<le> n \<and> n \<le> CARGO_TEST_MIN_TESTS_MAX) (val_minimum_tests m)
      then False
      else if val_minimum_tests m \<noteq> None \<and> val_tool m \<noteq> lit ''cargo_test'' then False
      else if (val_require_tests m \<noteq> None \<or> val_no_run m \<noteq> None) \<and> val_tool m \<noteq> lit ''cargo_test'' then False
      else if val_no_run m = Some True \<and> val_minimum_tests m \<noteq> None then False
      else if val_require_tests m = Some True \<and> (val_minimum_tests m = None \<or> val_no_run m = Some True) then False
      else let step = val_steps m ! 0 in
      if val_tool m = lit ''cargo_fmt'' then
        val_kind m = lit ''format'' \<and> step_name step = lit ''format'' \<and> step_program step = lit ''cargo''
      else if val_tool m = lit ''cargo_check'' then
        val_kind m = lit ''check'' \<and> step_name step = lit ''check'' \<and> step_program step = lit ''cargo''
      else if val_tool m = lit ''cargo_test'' then
        val_kind m = lit ''test'' \<and> step_name step = lit ''test'' \<and> step_program step = lit ''cargo''
      else if val_tool m = lit ''go_test'' then val_kind m = lit ''test'' \<and> is_structured_go_test_json step
      else False)"

datatype ShellScriptLanguage = Sh | Bash | Powershell | Javascript | Typescript

record ShellJobStructuredExecutionMetadata =
  sx_execution_source :: rstr
  sx_language :: "ShellScriptLanguage option"
  sx_script_bytes :: "nat option"
  sx_arg_count :: nat
  sx_stdin_present :: bool
  sx_validation_identity :: "rstr option"
  sx_assertion_name :: "rstr option"
  sx_validation_tool :: "rstr option"

definition identity_digest :: "rstr \<Rightarrow> bool" where
  "identity_digest v \<longleftrightarrow> digest_after (lit ''target:'') v \<or> digest_after (lit ''command:'') v \<or> digest_after (lit ''assertion:'') v"

definition structured_execution_is_valid :: "ShellJobStructuredExecutionMetadata \<Rightarrow> bool" where
  "structured_execution_is_valid m =
     (let source = sx_execution_source m; ident = sx_validation_identity m;
          asserting = source \<in> set [lit ''run_process'', lit ''run_script''];
          identity_valid = opt_all identity_digest ident;
          assertion_identity_source_valid = opt_all (\<lambda>v. \<not> starts_with v (lit ''assertion:'') \<or> asserting) ident;
          validation_tool_valid =
            opt_all (\<lambda>tool. tool \<in> set [lit ''cargo_fmt'', lit ''cargo_check'', lit ''cargo_test'']
              \<and> opt_ex (\<lambda>v. starts_with v (lit ''target:'') \<or> starts_with v (lit ''assertion:'')) ident)
              (sx_validation_tool m);
          assertion_name_valid =
            opt_all (\<lambda>v. let trimmed = trim v in
              v = trimmed \<and> trimmed \<noteq> [] \<and> length trimmed \<le> VALIDATION_ASSERTION_NAME_MAX_CHARS
              \<and> \<not> list_ex is_control trimmed \<and> opt_ex (\<lambda>i. starts_with i (lit ''assertion:'')) ident \<and> asserting)
              (sx_assertion_name m)
      in
      if \<not> identity_valid \<or> \<not> assertion_identity_source_valid \<or> \<not> validation_tool_valid \<or> \<not> assertion_name_valid
      then False
      else if source \<in> set [lit ''run_process'', lit ''run_detached_process''] then
        sx_language m = None \<and> sx_script_bytes m = None \<and> sx_arg_count m \<le> PROCESS_ARG_MAX_COUNT
      else if source = lit ''run_script'' then
        sx_language m \<noteq> None
        \<and> opt_ex (\<lambda>bytes. SCRIPT_MIN_BYTES \<le> bytes \<and> bytes \<le> SCRIPT_MAX_BYTES) (sx_script_bytes m)
        \<and> sx_arg_count m \<le> SCRIPT_ARG_MAX_COUNT
      else False)"

section \<open>Cargo options\<close>

text \<open>The options that a canonical Cargo command line denotes.\<close>

datatype cargo_flag = AllTargets | AllFeatures | NoDefaultFeatures | NoRun | Features rstr | Package rstr

primrec flag_key :: "cargo_flag \<Rightarrow> rstr" where
  "flag_key AllTargets = lit ''--all-targets''"
| "flag_key AllFeatures = lit ''--all-features''"
| "flag_key NoDefaultFeatures = lit ''--no-default-features''"
| "flag_key NoRun = lit ''--no-run''"
| "flag_key (Features _) = lit ''--features''"
| "flag_key (Package _) = lit ''-p''"

definition flag_args :: "cargo_flag \<Rightarrow> rstr list" where
  "flag_args f = flag_key f # (case f of Features v \<Rightarrow> [v] | Package v \<Rightarrow> [v] | _ \<Rightarrow> [])"

definition cargo_value_ok :: "rstr \<Rightarrow> bool" where
  "cargo_value_ok v \<longleftrightarrow> v \<noteq> [] \<and> trim v = v \<and> \<not> list_ex is_control v \<and> hd v \<noteq> DASH \<and> str_len v \<le> CARGO_VALUE_MAX_BYTES"

definition flag_ok :: "bool \<Rightarrow> cargo_flag \<Rightarrow> bool" where
  "flag_ok allow_no_run f =
     (case f of NoRun \<Rightarrow> allow_no_run | Features v \<Rightarrow> cargo_value_ok v | Package v \<Rightarrow> cargo_value_ok v | _ \<Rightarrow> True)"

lemma flag_args_simps [simp]:
  "flag_args AllTargets = [lit ''--all-targets'']" "flag_args AllFeatures = [lit ''--all-features'']"
  "flag_args NoDefaultFeatures = [lit ''--no-default-features'']" "flag_args NoRun = [lit ''--no-run'']"
  "flag_args (Features v) = [lit ''--features'', v]" "flag_args (Package v) = [lit ''-p'', v]"
  by (simp_all add: flag_args_def)

lemma flag_ok_simps [simp]:
  "flag_ok allow AllTargets" "flag_ok allow AllFeatures" "flag_ok allow NoDefaultFeatures"
  "flag_ok allow NoRun \<longleftrightarrow> allow" "flag_ok allow (Features v) \<longleftrightarrow> cargo_value_ok v"
  "flag_ok allow (Package v) \<longleftrightarrow> cargo_value_ok v"
  by (simp_all add: flag_ok_def)

lemma starts_with_single: "starts_with s [c] \<longleftrightarrow> s \<noteq> [] \<and> hd s = c"
  by (cases s) (auto simp: starts_with_def)

lemma zero_is_control: "0 \<in> set v \<Longrightarrow> list_ex is_control v"
  by (auto simp: list_ex_iff is_control_def intro: bexI [of _ 0])

lemma normalize_cargo_value_fixed: "normalize_cargo_value v = Inr (Some v) \<longleftrightarrow> cargo_value_ok v"
  by (auto simp: normalize_cargo_value_def cargo_value_ok_def Let_def starts_with_single dest: zero_is_control)

lemma flag_keys_simps [simp]:
  "flag_key f = lit ''--features'' \<longleftrightarrow> (\<exists>v. f = Features v)"
  "flag_key f = lit ''-p'' \<longleftrightarrow> (\<exists>v. f = Package v)"
  by (cases f; simp add: lit_def)+

lemma cargo_flags_from_render:
  assumes "list_all (flag_ok allow) fs" "distinct (map flag_key fs)" "set (map flag_key fs) \<inter> seen = {}"
  shows "cargo_flags_from allow seen (concat (map flag_args fs))"
  using assms
proof (induction fs arbitrary: seen)
  case (Cons f fs)
  then have IH: "cargo_flags_from allow (insert (flag_key f) seen) (concat (map flag_args fs))" by auto
  have "flag_key f \<notin> seen" "flag_ok allow f" using Cons.prems by auto
  with IH show ?case
    by (cases f) (simp_all add: normalize_cargo_value_fixed lit_def)
qed simp

lemma cargo_flags_from_parse:
  assumes "cargo_flags_from allow seen args"
  shows "\<exists>fs. list_all (flag_ok allow) fs \<and> distinct (map flag_key fs) \<and> set (map flag_key fs) \<inter> seen = {}
    \<and> args = concat (map flag_args fs)"
  using assms
proof (induction allow seen args rule: cargo_flags_from.induct)
  case (1 allow seen)
  show ?case by (rule exI [of _ "[]"]) simp
next
  case (2 allow seen arg args)
  have ext: "\<exists>fs. list_all (flag_ok allow) fs \<and> distinct (map flag_key fs) \<and> set (map flag_key fs) \<inter> seen = {}
      \<and> arg # args = concat (map flag_args fs)"
    if "flag_ok allow f" "flag_key f \<notin> seen" "arg # args = flag_args f @ rest"
      "\<exists>fs. list_all (flag_ok allow) fs \<and> distinct (map flag_key fs)
         \<and> set (map flag_key fs) \<inter> insert (flag_key f) seen = {} \<and> rest = concat (map flag_args fs)" for f rest
  proof -
    from that(4) obtain fs where "list_all (flag_ok allow) fs" "distinct (map flag_key fs)"
      "set (map flag_key fs) \<inter> insert (flag_key f) seen = {}" "rest = concat (map flag_args fs)" by blast
    with that(1-3) show ?thesis by (intro exI [of _ "f # fs"]) auto
  qed
  show ?case
  proof (cases "arg \<in> set [lit ''--all-targets'', lit ''--all-features'', lit ''--no-default-features'']
      \<or> (arg = lit ''--no-run'' \<and> allow)")
    case True
    with "2.prems" have sub: "arg \<notin> seen" "cargo_flags_from allow (insert arg seen) args" by auto
    from True obtain f where f: "flag_key f = arg" "flag_ok allow f" "flag_args f = [arg]"
    proof -
      from True consider "flag_key AllTargets = arg" | "flag_key AllFeatures = arg"
        | "flag_key NoDefaultFeatures = arg" | "flag_key NoRun = arg" "allow" by auto
      then show ?thesis
        by cases (rule that [of AllTargets] that [of AllFeatures] that [of NoDefaultFeatures] that [of NoRun]; simp; fail)+
    qed
    show ?thesis using ext [of f args] f sub "2.IH"(1) [OF True] by simp
  next
    case False
    with "2.prems" obtain v args' where sub: "arg \<in> set [lit ''--features'', lit ''-p'']" "arg \<notin> seen"
      "args = v # args'" "normalize_cargo_value v = Inr (Some v)" "cargo_flags_from allow (insert arg seen) args'"
      by (auto split: if_splits list.splits)
    from sub(1) obtain f where f: "flag_key f = arg" "flag_ok allow f \<longleftrightarrow> cargo_value_ok v" "flag_args f = [arg, v]"
    proof -
      from sub(1) consider "flag_key (Features v) = arg" | "flag_key (Package v) = arg" by auto
      then show ?thesis by cases (rule that [of "Features v"] that [of "Package v"]; simp; fail)+
    qed
    show ?thesis
      using ext [of f args'] f sub "2.IH"(2) [OF False sub(1) sub(3)] by (simp add: normalize_cargo_value_fixed)
  qed
qed

definition cargo_options_ok :: "bool \<Rightarrow> cargo_flag list \<Rightarrow> bool" where
  "cargo_options_ok allow_no_run fs \<longleftrightarrow> list_all (flag_ok allow_no_run) fs \<and> distinct (map flag_key fs)"

lemma is_canonical_cargo_flags_iff:
  "is_canonical_cargo_flags args allow \<longleftrightarrow> (\<exists>fs. cargo_options_ok allow fs \<and> args = concat (map flag_args fs))"
  using cargo_flags_from_parse [of allow "{}" args] cargo_flags_from_render [of allow _ "{}"]
  by (auto simp: is_canonical_cargo_flags_def cargo_options_ok_def)

lemma flag_args_inj: "flag_args f @ xs = flag_args g @ ys \<Longrightarrow> f = g \<and> xs = ys"
  by (cases f; cases g) (auto simp: flag_args_def lit_def)

lemma concat_flag_args_inj: "concat (map flag_args fs) = concat (map flag_args gs) \<Longrightarrow> fs = gs"
proof (induction fs arbitrary: gs)
  case Nil
  then show ?case by (cases gs) (auto simp: flag_args_def)
next
  case (Cons f fs)
  then obtain g gs' where gs: "gs = g # gs'" by (cases gs) (auto simp: flag_args_def)
  with Cons.prems flag_args_inj have "f = g" "concat (map flag_args fs) = concat (map flag_args gs')"
    by (auto dest: flag_args_inj)
  with Cons.IH gs show ?case by simp
qed

section \<open>Test filters\<close>

definition filter_ok :: "rstr \<Rightarrow> bool" where
  "filter_ok f \<longleftrightarrow> str_len f \<le> RUST_TEST_FILTER_MAX_BYTES \<and> 0 \<notin> set f \<and> trim f \<noteq> []
     \<and> \<not> list_ex is_control (trim f) \<and> hd (trim f) \<noteq> DASH"

lemma valid_rust_test_filter_iff: "valid_rust_test_filter f \<longleftrightarrow> filter_ok f"
  by (auto simp: valid_rust_test_filter_def normalize_rust_test_filter_def filter_ok_def Let_def starts_with_single)

lemma filter_not_flag: "filter_ok v \<Longrightarrow> v # xs \<noteq> concat (map flag_args fs)"
proof
  assume v: "filter_ok v" "v # xs = concat (map flag_args fs)"
  then obtain f where "v = flag_key f" by (cases fs) (auto simp: flag_args_def)
  then obtain r where "v = DASH # r" by (cases f) (auto simp: lit_def)
  then obtain t where "trim v = DASH # t"
    using trim_end_Cons [of DASH r] by (auto simp: trim_def trim_start_def is_whitespace_def)
  with v(1) show False by (simp add: filter_ok_def)
qed

text \<open>A Cargo subcommand with an optional filter and its options.\<close>

definition cargo_command :: "string \<Rightarrow> rstr option \<Rightarrow> cargo_flag list \<Rightarrow> rstr list" where
  "cargo_command sub test_filter fs =
     lit sub # (case test_filter of None \<Rightarrow> [] | Some f \<Rightarrow> [f]) @ concat (map flag_args fs)"

lemma is_canonical_cargo_check_iff:
  "is_canonical_cargo_check_args args \<longleftrightarrow>
     (\<exists>fs. cargo_options_ok False fs \<and> args = cargo_command ''check'' None fs)"
  by (auto simp: is_canonical_cargo_check_args_def is_canonical_cargo_flags_iff cargo_command_def split: list.splits)

lemma is_canonical_cargo_test_iff:
  "is_canonical_cargo_test_args args \<longleftrightarrow>
     (\<exists>flt fs. cargo_options_ok True fs \<and> opt_all filter_ok flt \<and> args = cargo_command ''test'' flt fs)"
  (is "?l \<longleftrightarrow> ?r")
proof (cases args)
  case (Cons a rest)
  show ?thesis
  proof (cases "a = lit ''test''")
    case True
    show ?thesis
    proof (cases "\<exists>v xs. rest = v # xs \<and> filter_ok v")
      case True
      then obtain v xs where v: "rest = v # xs" "filter_ok v" by blast
      have "?l \<longleftrightarrow> (\<exists>fs. cargo_options_ok True fs \<and> xs = concat (map flag_args fs))"
        using v Cons \<open>a = lit ''test''\<close>
        by (simp add: is_canonical_cargo_test_args_def valid_rust_test_filter_iff is_canonical_cargo_flags_iff)
      moreover have "?r \<longleftrightarrow> (\<exists>fs. cargo_options_ok True fs \<and> xs = concat (map flag_args fs))"
        using v Cons \<open>a = lit ''test''\<close> filter_not_flag [OF v(2), of xs]
        by (auto simp: cargo_command_def split: option.splits)
      ultimately show ?thesis by simp
    next
      case False
      have "?l \<longleftrightarrow> (\<exists>fs. cargo_options_ok True fs \<and> rest = concat (map flag_args fs))"
        using False Cons \<open>a = lit ''test''\<close>
        by (auto simp: is_canonical_cargo_test_args_def valid_rust_test_filter_iff is_canonical_cargo_flags_iff
            split: list.splits)
      moreover have "?r \<longleftrightarrow> (\<exists>fs. cargo_options_ok True fs \<and> rest = concat (map flag_args fs))"
        using False Cons \<open>a = lit ''test''\<close>
        by (auto simp: cargo_command_def opt_all_def split: option.splits)
      ultimately show ?thesis by simp
    qed
  qed (use Cons in \<open>simp add: is_canonical_cargo_test_args_def cargo_command_def\<close>)
qed (simp add: is_canonical_cargo_test_args_def cargo_command_def)

lemma cargo_command_inj:
  assumes "cargo_command sub a fs = cargo_command sub b gs" "opt_all filter_ok a" "opt_all filter_ok b"
  shows "a = b \<and> fs = gs"
  using assms filter_not_flag concat_flag_args_inj
  by (cases a; cases b) (auto simp: cargo_command_def; metis)+

section \<open>Go packages\<close>

text \<open>The package patterns of a Go test: the project itself, or a path below it that may end in
  the wildcard for everything further down.\<close>

datatype go_package = Here | Under "rstr list" bool

definition go_char :: "rchar \<Rightarrow> bool" where
  "go_char c \<longleftrightarrow> is_ascii_alphanumeric c \<or> c \<in> set (lit ''_-.'')"

definition go_segment_ok :: "rstr \<Rightarrow> bool" where
  "go_segment_ok s \<longleftrightarrow> s \<noteq> [] \<and> s \<noteq> lit ''.'' \<and> s \<noteq> lit ''..'' \<and> \<not> str_contains s (lit ''...'') \<and> list_all go_char s"

definition go_segments :: "rstr list \<Rightarrow> bool \<Rightarrow> rstr list" where
  "go_segments ss wildcard = ss @ (if wildcard then [lit ''...''] else [])"

primrec go_render :: "go_package \<Rightarrow> rstr" where
  "go_render Here = lit ''.''"
| "go_render (Under ss wildcard) = lit ''./'' @ join [SLASH] (go_segments ss wildcard)"

definition go_package_ok :: "go_package \<Rightarrow> bool" where
  "go_package_ok p \<longleftrightarrow> str_len (go_render p) \<le> GO_TEST_PACKAGE_MAX_BYTES
     \<and> (case p of Here \<Rightarrow> True | Under ss wildcard \<Rightarrow> list_all go_segment_ok ss \<and> go_segments ss wildcard \<noteq> [])"

lemma wildcard_not_segment [simp]: "\<not> go_segment_ok (lit ''...'')"
  by (simp add: go_segment_ok_def str_contains_def)

lemma go_segments_error_None:
  "go_segments_error segs = None \<longleftrightarrow> (\<exists>ss wildcard. list_all go_segment_ok ss \<and> segs = go_segments ss wildcard)"
  (is "?l segs \<longleftrightarrow> ?r segs")
proof (induction segs)
  case Nil
  have "?r []" by (rule exI [of _ "[]"], rule exI [of _ False]) (simp add: go_segments_def)
  then show ?case by simp
next
  case (Cons s segs)
  show ?case
  proof (cases "s = lit ''...''")
    case True
    have "?r (s # segs) \<longleftrightarrow> segs = []"
    proof
      assume "?r (s # segs)"
      then obtain ss wildcard where ss: "list_all go_segment_ok ss" "s # segs = go_segments ss wildcard" by blast
      show "segs = []"
      proof (cases ss)
        case Nil
        with ss(2) show ?thesis by (cases wildcard) (simp_all add: go_segments_def)
      next
        case (Cons t ts)
        with ss True have "go_segment_ok (lit ''...'')" by (simp add: go_segments_def)
        then show ?thesis by simp
      qed
    next
      assume "segs = []"
      with True show "?r (s # segs)" by (intro exI [of _ "[]"] exI [of _ True]) (simp add: go_segments_def)
    qed
    moreover have "?l (s # segs) \<longleftrightarrow> segs = []" using True by (simp add: lit_def)
    ultimately show ?thesis by simp
  next
    case False
    have "?l (s # segs) \<longleftrightarrow> go_segment_ok s \<and> ?l segs"
      using False by (simp add: go_segment_ok_def go_char_def list_all_iff)
    also have "\<dots> \<longleftrightarrow> go_segment_ok s \<and> ?r segs" using Cons.IH by simp
    also have "\<dots> \<longleftrightarrow> ?r (s # segs)"
    proof
      assume "go_segment_ok s \<and> ?r segs"
      then obtain ss wildcard where "go_segment_ok s" "list_all go_segment_ok ss" "segs = go_segments ss wildcard" by blast
      then show "?r (s # segs)" by (intro exI [of _ "s # ss"] exI [of _ wildcard]) (simp add: go_segments_def)
    next
      assume "?r (s # segs)"
      then obtain ss wildcard where ss: "list_all go_segment_ok ss" "s # segs = go_segments ss wildcard" by blast
      with False obtain ts where "ss = s # ts" "segs = go_segments ts wildcard"
        by (cases ss; cases wildcard) (auto simp: go_segments_def)
      with ss show "go_segment_ok s \<and> ?r segs" by auto
    qed
    finally show ?thesis .
  qed
qed

lemma go_segments_chars:
  assumes "list_all go_segment_ok ss" "p \<in> set (go_segments ss wildcard)" "c \<in> set p"
  shows "go_char c"
  using assms by (auto simp: go_segments_def go_segment_ok_def list_all_iff go_char_def lit_def split: if_splits)

lemma go_char_plain:
  assumes "go_char c"
  shows "c \<noteq> SLASH" "c \<noteq> 92" "c < 128" "\<not> is_ascii_control c" "\<not> is_ascii_whitespace c"
  using assms
  by (auto simp: go_char_def is_ascii_alphanumeric_def is_ascii_digit_def lit_def is_ascii_control_def is_ascii_whitespace_def)

lemma split_go_segments:
  assumes "list_all go_segment_ok ss" "go_segments ss wildcard \<noteq> []"
  shows "split_char SLASH (join [SLASH] (go_segments ss wildcard)) = go_segments ss wildcard"
  using assms(2) by (rule split_char_join) (use go_segments_chars [OF assms(1)] go_char_plain(1) in blast)

lemma go_render_chars:
  assumes "go_package_ok p" "c \<in> set (go_render p)"
  shows "c = SLASH \<or> go_char c"
proof (cases p)
  case Here
  with assms show ?thesis by (simp add: lit_def go_char_def)
next
  case (Under ss wildcard)
  with assms(1) have ok: "list_all go_segment_ok ss" by (simp add: go_package_ok_def)
  from Under assms(2) consider "c \<in> set (lit ''./'')" | "c \<in> set (join [SLASH] (go_segments ss wildcard))" by auto
  then show ?thesis
  proof cases
    case 2
    from set_join [OF this] go_segments_chars [OF ok] show ?thesis by auto
  qed (auto simp: lit_def go_char_def)
qed

lemma join_eq_Nil: "join sep ps = [] \<longleftrightarrow> ps = [] \<or> ps = [[]] \<or> sep = [] \<and> (\<forall>p \<in> set ps. p = [])"
  by (induction sep ps rule: join.induct) auto

lemma go_join_not_Nil:
  assumes "list_all go_segment_ok ss" "go_segments ss wildcard \<noteq> []"
  shows "join [SLASH] (go_segments ss wildcard) \<noteq> []"
  using assms by (cases ss) (auto simp: join_eq_Nil go_segments_def go_segment_ok_def lit_def split: if_splits)

lemma normalize_go_render: "go_package_ok p \<Longrightarrow> normalize_go_test_package (go_render p) = Inr (go_render p)"
proof -
  assume ok: "go_package_ok p"
  have plain: "\<not> list_ex (\<lambda>c. 128 \<le> c) (go_render p)"
    "\<not> list_ex (\<lambda>c. is_ascii_control c \<or> is_ascii_whitespace c) (go_render p)" "92 \<notin> set (go_render p)"
    using go_render_chars [OF ok] go_char_plain
    by (fastforce simp: list_ex_iff is_ascii_control_def is_ascii_whitespace_def)+
  have len: "\<not> GO_TEST_PACKAGE_MAX_BYTES < str_len (go_render p)" using ok by (simp add: go_package_ok_def)
  show ?thesis
  proof (cases p)
    case Here
    with plain len show ?thesis by (simp add: normalize_go_test_package_def) (simp add: lit_def)
  next
    case (Under ss wildcard)
    with ok have ss: "list_all go_segment_ok ss" "go_segments ss wildcard \<noteq> []" by (auto simp: go_package_ok_def)
    let ?rest = "join [SLASH] (go_segments ss wildcard)"
    have "go_render p \<noteq> []" "go_render p \<noteq> lit ''.''" "strip_prefix (go_render p) (lit ''./'') = Some ?rest"
      by (simp_all add: Under lit_def strip_prefix_def starts_with_def)
    moreover have "go_segments_error (split_char SLASH ?rest) = None"
      using split_go_segments [OF ss] go_segments_error_None ss(1) by auto
    ultimately show ?thesis using plain len go_join_not_Nil [OF ss] by (simp add: normalize_go_test_package_def)
  qed
qed

lemma normalize_go_package_cases:
  assumes "normalize_go_test_package raw = Inr q"
  shows "q = raw \<and> (\<exists>p. go_package_ok p \<and> raw = go_render p)"
proof (cases "raw = lit ''.''")
  case True
  with assms show ?thesis
    by (auto simp: normalize_go_test_package_def go_package_ok_def split: if_splits intro!: exI [of _ Here])
next
  case False
  with assms obtain rest where rest: "strip_prefix raw (lit ''./'') = Some rest" "rest \<noteq> []" "q = raw"
    "go_segments_error (split_char SLASH rest) = None" "\<not> GO_TEST_PACKAGE_MAX_BYTES < str_len raw"
    by (auto simp: normalize_go_test_package_def split: if_splits option.splits)
  from rest(4) obtain ss wildcard where ss: "list_all go_segment_ok ss" "split_char SLASH rest = go_segments ss wildcard"
    by (auto simp: go_segments_error_None)
  have "raw = lit ''./'' @ rest" using rest(1) by (simp add: strip_prefix_Some)
  moreover have "rest = join [SLASH] (go_segments ss wildcard)" using join_split_char [of SLASH rest] ss(2) by simp
  moreover have "go_segments ss wildcard \<noteq> []" using ss(2) by (metis split_by_not_Nil)
  ultimately have "raw = go_render (Under ss wildcard)" "go_package_ok (Under ss wildcard)"
    using rest(5) ss(1) by (simp_all add: go_package_ok_def)
  with rest(3) show ?thesis by blast
qed

lemma go_segments_inj:
  assumes "go_segments ss a = go_segments ts b" "list_all go_segment_ok ss" "list_all go_segment_ok ts"
  shows "ss = ts \<and> a = b"
proof -
  have "\<not> go_segment_ok (last (ss @ [lit ''...'']))" by simp
  with assms show ?thesis
    by (cases a; cases b) (auto simp: go_segments_def list_all_iff simp del: last_snoc)
qed

lemma go_render_inj:
  assumes "go_render p = go_render q" "go_package_ok p" "go_package_ok q"
  shows "p = q"
proof (cases p; cases q)
  fix ss a ts b assume pq: "p = Under ss a" "q = Under ts b"
  from assms(1) have j: "join [SLASH] (go_segments ss a) = join [SLASH] (go_segments ts b)" by (simp add: pq)
  have ss: "list_all go_segment_ok ss" "go_segments ss a \<noteq> []" using assms(2) by (simp_all add: pq go_package_ok_def)
  have ts: "list_all go_segment_ok ts" "go_segments ts b \<noteq> []" using assms(3) by (simp_all add: pq go_package_ok_def)
  have "go_segments ss a = go_segments ts b"
    using split_go_segments [OF ss] split_go_segments [OF ts] unfolding j by (rule trans [OF sym])
  from go_segments_inj [OF this ss(1) ts(1)] show ?thesis by (simp add: pq)
qed (use assms in \<open>auto simp: lit_def\<close>)

lemma normalize_go_each_fixed:
  "normalize_go_packages_each ps = Inr qs \<longleftrightarrow> qs = ps \<and> (\<exists>gs. list_all go_package_ok gs \<and> ps = map go_render gs)"
proof (induction ps arbitrary: qs)
  case (Cons p ps)
  have "normalize_go_packages_each (p # ps) = Inr qs \<longleftrightarrow>
      (\<exists>q rs. normalize_go_test_package p = Inr q \<and> normalize_go_packages_each ps = Inr rs \<and> qs = q # rs)"
    by (auto split: sum.splits)
  also have "\<dots> \<longleftrightarrow> (\<exists>g gs. go_package_ok g \<and> p = go_render g \<and> list_all go_package_ok gs \<and> ps = map go_render gs \<and> qs = p # ps)"
    unfolding Cons.IH using normalize_go_package_cases [of p] by (auto simp: normalize_go_render)
  also have "\<dots> \<longleftrightarrow> qs = p # ps \<and> (\<exists>gs. list_all go_package_ok gs \<and> p # ps = map go_render gs)"
    by (simp add: Cons_eq_map_conv) (metis list.pred_inject(2))
  finally show ?case .
qed auto

lemma map_go_render_inj:
  "map go_render gs = map go_render hs \<Longrightarrow> list_all go_package_ok gs \<Longrightarrow> list_all go_package_ok hs \<Longrightarrow> gs = hs"
  by (rule map_inj_on) (auto simp: inj_on_def list_all_iff intro: go_render_inj)

lemma is_canonical_go_iff:
  "is_canonical_go_test_json_args args \<longleftrightarrow>
     (\<exists>gs. list_all go_package_ok gs \<and> gs \<noteq> [] \<and> length gs \<le> GO_TEST_PACKAGE_MAX_ITEMS
        \<and> args = lit ''test'' # lit ''-json'' # map go_render gs)"
proof -
  consider "args = []" | a where "args = [a]" | a b ps where "args = a # b # ps"
    by (metis list.exhaust)
  then show ?thesis
    by cases (auto simp: is_canonical_go_test_json_args_def normalize_go_test_packages_def normalize_go_each_fixed)
qed

section \<open>Validation commands\<close>

text \<open>What the metadata of a validation Job stands for.\<close>

datatype validation_command =
  CargoFmt
| CargoCheck "cargo_flag list"
| CargoTest "rstr option" "cargo_flag list"
| GoTest "go_package list"

primrec command_ok :: "validation_command \<Rightarrow> bool" where
  "command_ok CargoFmt = True"
| "command_ok (CargoCheck fs) = cargo_options_ok False fs"
| "command_ok (CargoTest flt fs) = (cargo_options_ok True fs \<and> opt_all filter_ok flt)"
| "command_ok (GoTest gs) = (list_all go_package_ok gs \<and> gs \<noteq> [] \<and> length gs \<le> GO_TEST_PACKAGE_MAX_ITEMS)"

primrec command_tool :: "validation_command \<Rightarrow> rstr" where
  "command_tool CargoFmt = lit ''cargo_fmt''"
| "command_tool (CargoCheck _) = lit ''cargo_check''"
| "command_tool (CargoTest _ _) = lit ''cargo_test''"
| "command_tool (GoTest _) = lit ''go_test''"

primrec command_kind :: "validation_command \<Rightarrow> rstr" where
  "command_kind CargoFmt = lit ''format''"
| "command_kind (CargoCheck _) = lit ''check''"
| "command_kind (CargoTest _ _) = lit ''test''"
| "command_kind (GoTest _) = lit ''test''"

primrec command_args :: "validation_command \<Rightarrow> rstr list" where
  "command_args CargoFmt = [lit ''fmt'', lit ''--'', lit ''--check'']"
| "command_args (CargoCheck fs) = cargo_command ''check'' None fs"
| "command_args (CargoTest flt fs) = cargo_command ''test'' flt fs"
| "command_args (GoTest gs) = lit ''test'' # lit ''-json'' # map go_render gs"

definition is_go :: "validation_command \<Rightarrow> bool" where
  "is_go c \<longleftrightarrow> (case c of GoTest _ \<Rightarrow> True | _ \<Rightarrow> False)"

definition command_step :: "(rstr \<times> rstr) list \<Rightarrow> validation_command \<Rightarrow> ShellJobValidationStep" where
  "command_step env c = \<lparr>step_name = command_kind c, step_program = (if is_go c then lit ''go'' else lit ''cargo''),
     step_args = command_args c, step_env = env\<rparr>"

definition command_env_ok :: "(rstr \<times> rstr) list \<Rightarrow> validation_command \<Rightarrow> bool" where
  "command_env_ok env c \<longleftrightarrow> list_all step_env_ok env \<and> \<not> (is_go c \<and> env \<noteq> [])"

text \<open>The policy fields of the metadata.\<close>

definition policy_ok :: "ShellJobValidationMetadata \<Rightarrow> bool" where
  "policy_ok m \<longleftrightarrow> val_adapter m = val_tool m
     \<and> 1 \<le> val_effective_timeout_secs m \<and> val_sync_wait_secs m \<le> val_effective_timeout_secs m
     \<and> opt_all (digest_after (lit ''target:'')) (val_validation_target_id m)
     \<and> opt_all (\<lambda>n. 1 \<le> n \<and> n \<le> CARGO_TEST_MIN_TESTS_MAX) (val_minimum_tests m)
     \<and> (val_tool m = lit ''cargo_test'' \<or> val_minimum_tests m = None \<and> val_require_tests m = None \<and> val_no_run m = None)
     \<and> \<not> (val_no_run m = Some True \<and> val_minimum_tests m \<noteq> None)
     \<and> \<not> (val_require_tests m = Some True \<and> val_minimum_tests m = None)"

definition arg_ok :: "rstr \<Rightarrow> bool" where
  "arg_ok a \<longleftrightarrow> 0 \<notin> set a \<and> str_len a \<le> CARGO_VALUE_MAX_BYTES"

lemma flag_args_bounded: "flag_ok allow f \<Longrightarrow> list_all arg_ok (flag_args f)"
  by (cases f) (auto simp: arg_ok_def cargo_value_ok_def CARGO_VALUE_MAX_BYTES_def lit_def utf8_width_def
      dest: zero_is_control)

lemma cargo_options_bounded: "cargo_options_ok allow fs \<Longrightarrow> list_all arg_ok (concat (map flag_args fs))"
  using flag_args_bounded by (fastforce simp: cargo_options_ok_def list_all_iff)

lemma filter_bounded: "filter_ok f \<Longrightarrow> arg_ok f"
  by (simp add: filter_ok_def arg_ok_def RUST_TEST_FILTER_MAX_BYTES_def CARGO_VALUE_MAX_BYTES_def)

lemma go_render_bounded: "go_package_ok p \<Longrightarrow> arg_ok (go_render p)"
proof -
  assume ok: "go_package_ok p"
  then have "0 \<notin> set (go_render p)" using go_render_chars [OF ok, of 0] go_char_plain(4) [of 0] by (auto simp: is_ascii_control_def)
  with ok show ?thesis by (simp add: go_package_ok_def arg_ok_def GO_TEST_PACKAGE_MAX_BYTES_def CARGO_VALUE_MAX_BYTES_def)
qed

lemma lit_bounded [simp]: "arg_ok (lit ''fmt'')" "arg_ok (lit ''--'')" "arg_ok (lit ''--check'')" "arg_ok (lit ''check'')"
  "arg_ok (lit ''test'')" "arg_ok (lit ''-json'')"
  by (simp_all add: arg_ok_def lit_def utf8_width_def CARGO_VALUE_MAX_BYTES_def)

lemma command_args_bounded: "command_ok c \<Longrightarrow> list_all arg_ok (command_args c)"
  by (cases c) (auto simp: cargo_command_def opt_all_def go_render_bounded list_all_iff
      dest!: cargo_options_bounded filter_bounded split: option.splits)

lemma command_args_inj:
  "command_ok c \<Longrightarrow> command_ok d \<Longrightarrow> command_tool c = command_tool d \<Longrightarrow> command_args c = command_args d \<Longrightarrow> c = d"
  using cargo_command_inj [of "''check''" None _ None] cargo_command_inj [of "''test''"] map_go_render_inj
  by (cases c; cases d) (simp_all add: lit_def)

definition step_bounded :: "ShellJobValidationStep \<Rightarrow> bool" where
  "step_bounded s \<longleftrightarrow> list_all arg_ok (step_args s) \<and> list_all step_env_ok (step_env s)"

lemma step_bounded_iff: "step_bounded s \<longleftrightarrow>
    \<not> list_ex (\<lambda>a. 0 \<in> set a \<or> CARGO_VALUE_MAX_BYTES < str_len a) (step_args s) \<and> list_all step_env_ok (step_env s)"
  by (auto simp: step_bounded_def list_all_iff list_ex_iff arg_ok_def)

lemma canonical_bounded: "is_canonical s \<Longrightarrow> step_bounded s"
  by (auto simp: is_canonical_def Let_def step_bounded_iff split: if_splits)

lemma canonical_fmt:
  "step_name s = lit ''format'' \<Longrightarrow> step_program s = lit ''cargo'' \<Longrightarrow>
   is_canonical s \<longleftrightarrow> step_bounded s \<and> step_args s = command_args CargoFmt"
  by (auto simp: is_canonical_def Let_def step_bounded_iff)

lemma canonical_check:
  "step_name s = lit ''check'' \<Longrightarrow> step_program s = lit ''cargo'' \<Longrightarrow>
   is_canonical s \<longleftrightarrow> step_bounded s \<and> (\<exists>fs. command_ok (CargoCheck fs) \<and> step_args s = command_args (CargoCheck fs))"
proof -
  assume s: "step_name s = lit ''check''" "step_program s = lit ''cargo''"
  have "lit ''check'' \<noteq> lit ''format''" by (simp add: lit_def)
  with s have "is_canonical s \<longleftrightarrow> step_bounded s \<and> is_canonical_cargo_check_args (step_args s)"
    by (simp add: is_canonical_def step_bounded_iff Let_def)
  then show ?thesis by (simp add: is_canonical_cargo_check_iff)
qed

lemma canonical_test:
  "step_name s = lit ''test'' \<Longrightarrow> step_program s = lit ''cargo'' \<Longrightarrow>
   is_canonical s \<longleftrightarrow> step_bounded s \<and> (\<exists>flt fs. command_ok (CargoTest flt fs) \<and> step_args s = command_args (CargoTest flt fs))"
proof -
  assume s: "step_name s = lit ''test''" "step_program s = lit ''cargo''"
  have "lit ''test'' \<noteq> lit ''format''" "lit ''test'' \<noteq> lit ''check''" by (simp_all add: lit_def)
  with s have "is_canonical s \<longleftrightarrow> step_bounded s \<and> is_canonical_cargo_test_args (step_args s)"
    by (simp add: is_canonical_def step_bounded_iff Let_def)
  then show ?thesis by (auto simp: is_canonical_cargo_test_iff)
qed

lemma canonical_go:
  "is_canonical s \<and> is_structured_go_test_json s \<longleftrightarrow> step_bounded s \<and> step_name s = lit ''test'' \<and> step_program s = lit ''go''
     \<and> step_env s = [] \<and> (\<exists>gs. command_ok (GoTest gs) \<and> step_args s = command_args (GoTest gs))"
proof -
  have "is_structured_go_test_json s \<Longrightarrow> is_canonical s \<longleftrightarrow> step_bounded s"
  proof -
    assume g: "is_structured_go_test_json s"
    have "lit ''test'' \<noteq> lit ''format''" "lit ''test'' \<noteq> lit ''check''" "lit ''go'' \<noteq> lit ''cargo''"
      by (simp_all add: lit_def)
    with g show ?thesis
      by (simp add: is_canonical_def step_bounded_iff Let_def is_structured_go_test_json_def)
  qed
  then show ?thesis by (auto simp: is_structured_go_test_json_def is_canonical_go_iff)
qed

text \<open>The command that the metadata of a validation Job denotes.\<close>

definition denotes :: "ShellJobValidationMetadata \<Rightarrow> validation_command \<Rightarrow> bool" where
  "denotes m c \<longleftrightarrow> command_ok c \<and> val_tool m = command_tool c \<and> val_kind m = command_kind c
     \<and> (\<exists>env. command_env_ok env c \<and> val_steps m = [command_step env c])"

lemma step_eq_command: "s = command_step env c \<longleftrightarrow> step_name s = command_kind c
    \<and> step_program s = (if is_go c then lit ''go'' else lit ''cargo'') \<and> step_args s = command_args c \<and> step_env s = env"
  by (cases s) (auto simp: command_step_def)

lemma denotes_unique: "denotes m c \<Longrightarrow> denotes m d \<Longrightarrow> c = d"
  by (auto simp: denotes_def command_step_def intro: command_args_inj)

text \<open>The step that the tool of the metadata requires.\<close>

definition tool_step_ok :: "ShellJobValidationMetadata \<Rightarrow> ShellJobValidationStep \<Rightarrow> bool" where
  "tool_step_ok m s \<longleftrightarrow> is_canonical s \<and>
     (val_tool m = lit ''cargo_fmt'' \<and> val_kind m = lit ''format'' \<and> step_name s = lit ''format'' \<and> step_program s = lit ''cargo''
      \<or> val_tool m = lit ''cargo_check'' \<and> val_kind m = lit ''check'' \<and> step_name s = lit ''check'' \<and> step_program s = lit ''cargo''
      \<or> val_tool m = lit ''cargo_test'' \<and> val_kind m = lit ''test'' \<and> step_name s = lit ''test'' \<and> step_program s = lit ''cargo''
      \<or> val_tool m = lit ''go_test'' \<and> val_kind m = lit ''test'' \<and> is_structured_go_test_json s)"

lemma tool_names_distinct [simp]:
  "lit ''cargo_fmt'' \<noteq> lit ''cargo_check''" "lit ''cargo_fmt'' \<noteq> lit ''cargo_test''" "lit ''cargo_fmt'' \<noteq> lit ''go_test''"
  "lit ''cargo_check'' \<noteq> lit ''cargo_fmt''" "lit ''cargo_check'' \<noteq> lit ''cargo_test''" "lit ''cargo_check'' \<noteq> lit ''go_test''"
  "lit ''cargo_test'' \<noteq> lit ''cargo_fmt''" "lit ''cargo_test'' \<noteq> lit ''cargo_check''" "lit ''cargo_test'' \<noteq> lit ''go_test''"
  "lit ''go_test'' \<noteq> lit ''cargo_fmt''" "lit ''go_test'' \<noteq> lit ''cargo_check''" "lit ''go_test'' \<noteq> lit ''cargo_test''"
  by (simp_all add: lit_def)

lemma validation_is_valid_iff:
  "validation_is_valid m \<longleftrightarrow> policy_ok m \<and> (\<exists>s. val_steps m = [s] \<and> tool_step_ok m s)"
proof (cases "length (val_steps m) = 1")
  case True
  then obtain s where s: "val_steps m = [s]" by (cases "val_steps m") auto
  show ?thesis by (auto simp: validation_is_valid_def policy_ok_def s tool_step_ok_def Let_def split: if_splits)
qed (auto simp: validation_is_valid_def)

lemma tool_step_ok_iff:
  assumes "val_steps m = [s]"
  shows "tool_step_ok m s \<longleftrightarrow> (\<exists>c. denotes m c)"
proof
  assume "tool_step_ok m s"
  then consider "val_tool m = lit ''cargo_fmt''" "val_kind m = lit ''format''" "step_name s = lit ''format''" "step_program s = lit ''cargo''"
    | "val_tool m = lit ''cargo_check''" "val_kind m = lit ''check''" "step_name s = lit ''check''" "step_program s = lit ''cargo''"
    | "val_tool m = lit ''cargo_test''" "val_kind m = lit ''test''" "step_name s = lit ''test''" "step_program s = lit ''cargo''"
    | "val_tool m = lit ''go_test''" "val_kind m = lit ''test''" "is_structured_go_test_json s"
    by (auto simp: tool_step_ok_def)
  note cases = this
  have c: "is_canonical s" using \<open>tool_step_ok m s\<close> by (simp add: tool_step_ok_def)
  have env: "list_all step_env_ok (step_env s)" using canonical_bounded [OF c] by (simp add: step_bounded_def)
  have found: "\<exists>c. denotes m c" if "command_ok c" "val_tool m = command_tool c" "val_kind m = command_kind c"
    "step_name s = command_kind c" "step_program s = (if is_go c then lit ''go'' else lit ''cargo'')"
    "step_args s = command_args c" "is_go c \<Longrightarrow> step_env s = []" for c
    using that env step_eq_command [of s "step_env s" c] assms by (auto simp: denotes_def command_env_ok_def)
  from cases show "\<exists>c. denotes m c"
  proof cases
    case 1
    with c canonical_fmt [of s] show ?thesis by (intro found [of CargoFmt]) (simp_all add: is_go_def)
  next
    case 2
    with c canonical_check [of s] obtain fs where "command_ok (CargoCheck fs)" "step_args s = command_args (CargoCheck fs)"
      by blast
    with 2 show ?thesis by (intro found [of "CargoCheck fs"]) (simp_all add: is_go_def)
  next
    case 3
    with c canonical_test [of s] obtain flt fs
      where "command_ok (CargoTest flt fs)" "step_args s = command_args (CargoTest flt fs)" by blast
    with 3 show ?thesis by (intro found [of "CargoTest flt fs"]) (simp_all add: is_go_def)
  next
    case 4
    with c canonical_go [of s] obtain gs where "step_name s = lit ''test''" "step_program s = lit ''go''" "step_env s = []"
      "command_ok (GoTest gs)" "step_args s = command_args (GoTest gs)" by blast
    with 4 show ?thesis by (intro found [of "GoTest gs"]) (simp_all add: is_go_def)
  qed
next
  assume "\<exists>c. denotes m c"
  then obtain c where c: "denotes m c" by blast
  then have s: "step_name s = command_kind c" "step_program s = (if is_go c then lit ''go'' else lit ''cargo'')"
    "step_args s = command_args c" "command_env_ok (step_env s) c"
    using assms by (auto simp: denotes_def command_step_def)
  have ok: "command_ok c" "val_tool m = command_tool c" "val_kind m = command_kind c" using c by (auto simp: denotes_def)
  have b: "step_bounded s" using s(3,4) command_args_bounded [OF ok(1)] by (simp add: step_bounded_def command_env_ok_def)
  show "tool_step_ok m s"
  proof (cases c)
    case CargoFmt
    with s ok b canonical_fmt [of s] show ?thesis by (simp add: tool_step_ok_def is_go_def)
  next
    case (CargoCheck fs)
    with s ok b have "is_canonical s" by (subst canonical_check) (auto simp: is_go_def)
    with s ok CargoCheck show ?thesis by (simp add: tool_step_ok_def is_go_def)
  next
    case (CargoTest flt fs)
    with s ok b have "is_canonical s" by (subst canonical_test) (auto simp: is_go_def)
    with s ok CargoTest show ?thesis by (simp add: tool_step_ok_def is_go_def)
  next
    case (GoTest gs)
    with s ok b have "is_canonical s \<and> is_structured_go_test_json s"
      by (subst canonical_go) (auto simp: is_go_def command_env_ok_def)
    with ok GoTest show ?thesis by (simp add: tool_step_ok_def)
  qed
qed


end
