(* ===== verification/Job_Lifecycle.thy ===== *)
theory Job_Lifecycle
  imports Job_Logs Validation_Steps
begin

text \<open>
  The lifecycle of Runner Jobs: the wire vocabulary of
  \<open>crates/webcodex-core/src/runner_job_lifecycle.rs\<close>, the recovery overlay and the Job record of
  \<open>crates/webcodex-runner-registry/src/state.rs\<close>, and the transitions, dispatch guards and status
  refresh of \<open>crates/webcodex-runner-registry/src/jobs.rs\<close>.

  A Job record has the fields of the source but for the two that are only ever carried along, the
  Codex metadata and the replay intent of a detached process. A Runner record and the registry have
  the fields that the modelled operations read or write. The set of receipt candidates that
  Jobs share is passed along. Clock readings are arguments; an operation that reads the clock
  for its guards and again for its effect has two. Waking the waiters of a Job has no
  effect on the state.
\<close>

section \<open>Lifecycle values\<close>

datatype RunnerJobLifecycle =
  Queued | RunnerQueued | StartedLegacy | Running | StopRequested | Completed | Failed | Stopped
| Timeout | TimedOut | Lost | Cancelled

definition from_wire :: "rstr \<Rightarrow> rstr + RunnerJobLifecycle" where
  "from_wire status =
     (if status = lit ''queued'' then Inr Queued
      else if status = lit ''agent_queued'' then Inr RunnerQueued
      else if status = lit ''started'' then Inr StartedLegacy
      else if status = lit ''running'' then Inr Running
      else if status = lit ''stop_requested'' then Inr StopRequested
      else if status = lit ''completed'' then Inr Completed
      else if status = lit ''failed'' then Inr Failed
      else if status = lit ''stopped'' then Inr Stopped
      else if status = lit ''timeout'' then Inr Timeout
      else if status = lit ''timed_out'' then Inr TimedOut
      else if status = lit ''lost'' then Inr Lost
      else if status = lit ''cancelled'' then Inr Cancelled
      else Inl (lit ''unknown Runner Job lifecycle status: '' @ status))"

primrec as_wire :: "RunnerJobLifecycle \<Rightarrow> rstr" where
  "as_wire Queued = lit ''queued''"
| "as_wire RunnerQueued = lit ''agent_queued''"
| "as_wire StartedLegacy = lit ''started''"
| "as_wire Running = lit ''running''"
| "as_wire StopRequested = lit ''stop_requested''"
| "as_wire Completed = lit ''completed''"
| "as_wire Failed = lit ''failed''"
| "as_wire Stopped = lit ''stopped''"
| "as_wire Timeout = lit ''timeout''"
| "as_wire TimedOut = lit ''timed_out''"
| "as_wire Lost = lit ''lost''"
| "as_wire Cancelled = lit ''cancelled''"

definition is_terminal :: "RunnerJobLifecycle \<Rightarrow> bool" where
  "is_terminal l \<longleftrightarrow> l \<in> set [Completed, Failed, Stopped, Timeout, TimedOut, Lost, Cancelled]"

definition is_runner_active :: "RunnerJobLifecycle \<Rightarrow> bool" where
  "is_runner_active l \<longleftrightarrow> l \<in> set [RunnerQueued, Running, StopRequested]"

definition is_active :: "RunnerJobLifecycle \<Rightarrow> bool" where
  "is_active l \<longleftrightarrow> l \<in> set [Queued, StartedLegacy] \<or> is_runner_active l"

definition is_timed_out :: "RunnerJobLifecycle \<Rightarrow> bool" where
  "is_timed_out l \<longleftrightarrow> l \<in> set [Timeout, TimedOut]"

lemmas lifecycle_defs = is_terminal_def is_runner_active_def is_active_def is_timed_out_def

definition is_ok_and :: "rstr + 'a \<Rightarrow> ('a \<Rightarrow> bool) \<Rightarrow> bool" where
  "is_ok_and r f \<longleftrightarrow> (case r of Inl _ \<Rightarrow> False | Inr x \<Rightarrow> f x)"

definition job_status_is_active :: "rstr \<Rightarrow> bool" where
  "job_status_is_active status \<longleftrightarrow> status = lit ''recovering'' \<or> is_ok_and (from_wire status) is_active"

definition parse_job_lifecycle :: "rstr \<Rightarrow> rstr + RunnerJobLifecycle" where
  "parse_job_lifecycle status = from_wire status"

definition is_final_job_status :: "rstr \<Rightarrow> bool" where
  "is_final_job_status status \<longleftrightarrow> is_ok_and (from_wire status) is_terminal"

definition is_runner_active_job_status :: "rstr \<Rightarrow> bool" where
  "is_runner_active_job_status status \<longleftrightarrow> is_ok_and (from_wire status) is_runner_active"

section \<open>Recovery overlay\<close>

datatype JobRecoveryPhase = Recovering | Reconciled | LostAfterReconcile

primrec JobRecoveryPhase_as_wire :: "JobRecoveryPhase \<Rightarrow> rstr" where
  "JobRecoveryPhase_as_wire Recovering = lit ''recovering''"
| "JobRecoveryPhase_as_wire Reconciled = lit ''reconciled''"
| "JobRecoveryPhase_as_wire LostAfterReconcile = lit ''lost_after_reconcile''"

datatype JobRecoveryReason =
  RunnerTransportDisconnected | RunnerTransportStale | RunnerRequestNotDispatched
| RunnerDisconnectedWithoutReconciliation | SharedKeyRunnerExpired | RunnerInventoryMissing
| RunnerInstanceReplaced | RunnerRecoveryDeadlineExceeded | ServerRestartReconciliation
| SameInstanceReconciliation | SameInstanceUpdateReconciliation | DetachedInstanceTransfer

primrec JobRecoveryReason_as_wire :: "JobRecoveryReason \<Rightarrow> rstr" where
  "JobRecoveryReason_as_wire RunnerTransportDisconnected = lit ''runner_transport_disconnected''"
| "JobRecoveryReason_as_wire RunnerTransportStale = lit ''runner_transport_stale''"
| "JobRecoveryReason_as_wire RunnerRequestNotDispatched = lit ''runner_request_not_dispatched''"
| "JobRecoveryReason_as_wire RunnerDisconnectedWithoutReconciliation =
     lit ''runner_disconnected_without_reconciliation''"
| "JobRecoveryReason_as_wire SharedKeyRunnerExpired = lit ''shared_key_runner_expired''"
| "JobRecoveryReason_as_wire RunnerInventoryMissing = lit ''runner_inventory_missing''"
| "JobRecoveryReason_as_wire RunnerInstanceReplaced = lit ''runner_instance_replaced''"
| "JobRecoveryReason_as_wire RunnerRecoveryDeadlineExceeded = lit ''runner_recovery_deadline_exceeded''"
| "JobRecoveryReason_as_wire ServerRestartReconciliation = lit ''server_restart_reconciliation''"
| "JobRecoveryReason_as_wire SameInstanceReconciliation = lit ''same_instance_reconciliation''"
| "JobRecoveryReason_as_wire SameInstanceUpdateReconciliation = lit ''same_instance_update_reconciliation''"
| "JobRecoveryReason_as_wire DetachedInstanceTransfer = lit ''detached_instance_transfer''"

definition implies_lost_after_reconcile :: "JobRecoveryReason \<Rightarrow> bool" where
  "implies_lost_after_reconcile r \<longleftrightarrow>
     r \<in> set [RunnerInventoryMissing, RunnerInstanceReplaced, RunnerRecoveryDeadlineExceeded]"

record JobRecoveryState =
  rec_phase :: "JobRecoveryPhase option"
  rec_recovered_after_server_restart :: bool
  rec_reconciled_at :: "int option"
  rec_reason :: "JobRecoveryReason option"
  rec_recovering_since :: "int option"

definition recovering :: "JobRecoveryState \<Rightarrow> bool" where
  "recovering r \<longleftrightarrow> rec_phase r = Some Recovering"

definition public_state :: "JobRecoveryState \<Rightarrow> rstr option" where
  "public_state r = map_option JobRecoveryPhase_as_wire (rec_phase r)"

definition public_reason :: "JobRecoveryState \<Rightarrow> rstr option" where
  "public_reason r = map_option JobRecoveryReason_as_wire (rec_reason r)"

record JobObservationState =
  obs_revision :: "64 word"
  obs_terminal_observed_at :: "int option"
  obs_has_receipt_candidates :: bool
  obs_receipt_expires_at :: "int option"

definition JobObservationState_new :: JobObservationState where
  "JobObservationState_new = \<lparr>obs_revision = 0, obs_terminal_observed_at = None,
     obs_has_receipt_candidates = False, obs_receipt_expires_at = None\<rparr>"

datatype ShellCommandExecutionState = NotStarted | OutcomeUnknown | ExecutionTimedOut | ExecutionCompleted

datatype ShellJobVisibility = Public | HiddenUntilHandoff | CleanupPending

datatype RunnerAccessGroup = SharedKey rstr | ProjectGrant rstr | OpenAnonymous

record ShellJobRecord =
  job_id :: rstr
  job_request_id :: "rstr option"
  job_client_id :: rstr
  job_auth_group :: "RunnerAccessGroup option"
  job_owner_at_admission :: "rstr option"
  job_runner_instance_id :: rstr
  job_kind :: rstr
  job_project_id :: "rstr option"
  job_session_id :: "rstr option"
  job_ssh_resource :: "rstr option"
  job_cwd :: "rstr option"
  job_project_cwd :: "rstr option"
  job_purpose :: "rstr option"
  job_shell :: "rstr option"
  job_command_preview :: rstr
  job_lifecycle :: RunnerJobLifecycle
  job_created_at :: int
  job_started_at :: "int option"
  job_ended_at :: "int option"
  job_exit_code :: "int option"
  job_duration_ms :: "nat option"
  job_stdout :: ShellJobLogState
  job_stderr :: ShellJobLogState
  job_error :: "rstr option"
  job_command_execution_state :: "ShellCommandExecutionState option"
  job_structured_execution :: "ShellJobStructuredExecutionMetadata option"
  job_validation_steps :: "rstr list"
  job_validation :: "ShellJobValidationMetadata option"
  job_validation_progress :: "ShellJobValidationProgress option"
  job_activity :: "ShellJobActivity option"
  job_visibility :: ShellJobVisibility
  job_last_update_seq :: nat
  job_recovery :: JobRecoveryState
  job_observation :: JobObservationState

definition recovery_active :: "ShellJobRecord \<Rightarrow> bool" where
  "recovery_active job \<longleftrightarrow> is_runner_active (job_lifecycle job) \<and> recovering (job_recovery job)"

definition public_status :: "ShellJobRecord \<Rightarrow> rstr" where
  "public_status job = (if recovery_active job then lit ''recovering'' else as_wire (job_lifecycle job))"

section \<open>Transitions\<close>

definition observe_job_terminal :: "ShellJobRecord \<Rightarrow> int \<Rightarrow> ShellJobRecord" where
  "observe_job_terminal job now =
     (if is_terminal (job_lifecycle job) \<and> obs_terminal_observed_at (job_observation job) = None
      then job\<lparr>job_observation := (job_observation job)\<lparr>obs_terminal_observed_at := Some now\<rparr>\<rparr>
      else job)"

text \<open>The shared set of Jobs whose terminal receipt is to be stored.\<close>

type_synonym candidates = "rstr set"

definition notify_job_update :: "ShellJobRecord \<Rightarrow> candidates \<Rightarrow> ShellJobRecord \<times> candidates" where
  "notify_job_update job cands =
     (job\<lparr>job_observation := (job_observation job)\<lparr>obs_revision := obs_revision (job_observation job) + 1\<rparr>\<rparr>,
      if is_terminal (job_lifecycle job) \<and> obs_has_receipt_candidates (job_observation job)
      then insert (job_id job) cands else cands)"

definition begin_job_recovery ::
    "ShellJobRecord \<Rightarrow> int \<Rightarrow> JobRecoveryReason \<Rightarrow> candidates \<Rightarrow> ShellJobRecord \<times> candidates" where
  "begin_job_recovery job now reason cands =
     (if is_terminal (job_lifecycle job) \<or> job_lifecycle job = Queued then (job, cands)
      else let recovery = job_recovery job;
               since = (if \<not> recovering recovery then Some now else rec_recovering_since recovery)
           in notify_job_update
                (job\<lparr>job_recovery := recovery\<lparr>rec_recovering_since := since, rec_phase := Some Recovering,
                       rec_reason := Some reason\<rparr>,
                     job_ended_at := None, job_activity := None\<rparr>) cands)"

definition mark_job_lost ::
    "ShellJobRecord \<Rightarrow> int \<Rightarrow> JobRecoveryReason \<Rightarrow> rstr \<Rightarrow> candidates \<Rightarrow> ShellJobRecord \<times> candidates" where
  "mark_job_lost job now reason message cands =
     (if is_terminal (job_lifecycle job) then (job, cands)
      else let job1 = observe_job_terminal (job\<lparr>job_lifecycle := Lost, job_activity := None\<rparr>) now
           in notify_job_update
                (job1\<lparr>job_ended_at := (if job_ended_at job1 = None then Some now else job_ended_at job1),
                  job_error := Some message,
                  job_command_execution_state :=
                    (if job_structured_execution job1 \<noteq> None
                     then Some (if job_started_at job1 \<noteq> None then OutcomeUnknown else NotStarted)
                     else job_command_execution_state job1),
                  job_recovery := (job_recovery job1)
                    \<lparr>rec_phase := (if implies_lost_after_reconcile reason then Some LostAfterReconcile else None),
                     rec_reason := Some reason, rec_recovering_since := None\<rparr>\<rparr>) cands)"

section \<open>Registry guards and refresh\<close>

definition RUNNER_ONLINE_WINDOW_SECS :: int where "RUNNER_ONLINE_WINDOW_SECS = 60"
definition MAX_QUEUED_REQUESTS_PER_RUNNER :: nat where "MAX_QUEUED_REQUESTS_PER_RUNNER = 256"

record ProjectedStructuredTerminalSuppression =
  sup_client_id :: rstr
  sup_runner_instance_id :: rstr
  sup_job_id :: rstr
  sup_request_id :: rstr
  sup_expires_at :: int

datatype RunnerTransport = Polling | WebSocket | Quic

record RunnerRecord =
  runner_client_id :: rstr
  runner_instance_id :: rstr
  runner_owner :: "rstr option"
  runner_auth_group :: "RunnerAccessGroup option"
  runner_last_seen :: int
  runner_supports_reconciliation :: bool
  runner_transport :: RunnerTransport
  runner_connection_id :: "rstr option"
  runner_disconnected_at :: "int option"
  runner_suppressions :: "ProjectedStructuredTerminalSuppression list"

text \<open>Of a pending request: the Runner it is for and the Job it belongs to.\<close>

record PendingShellRequest =
  pend_client_id :: rstr
  pend_job_id :: "rstr option"

text \<open>The connection that installed the push notifier of a Runner. The waiters of persistent shells are represented by
  the set of requests that have one.\<close>

record NotifierEntry =
  ntf_runner_instance_id :: rstr
  ntf_connection_id :: "rstr option"

record RunnerRegistryInner =
  reg_runners :: "rstr \<rightharpoonup> RunnerRecord"
  reg_pending_by_id :: "rstr \<rightharpoonup> PendingShellRequest"
  reg_persistent_waiters :: "rstr set"
  reg_queues_by_runner :: "rstr \<rightharpoonup> rstr list"
  reg_jobs_by_id :: "rstr \<rightharpoonup> ShellJobRecord"
  reg_request_to_job :: "rstr \<rightharpoonup> rstr"
  reg_retired_instances :: "rstr \<rightharpoonup> rstr list"
  reg_unregistering_projects :: "rstr \<rightharpoonup> nat"
  reg_notifiers :: "rstr \<rightharpoonup> NotifierEntry"
  reg_receipt_candidates :: candidates

datatype PendingRequestEnqueueError =
  InvalidOperation rstr
| UnknownRunner rstr
| RunnerOffline rstr
| QueueFull rstr nat

primrec PendingRequestEnqueueError_display :: "PendingRequestEnqueueError \<Rightarrow> rstr" where
  "PendingRequestEnqueueError_display (InvalidOperation message) =
     lit ''invalid canonical Runner operation: '' @ message"
| "PendingRequestEnqueueError_display (UnknownRunner client_id) = lit ''unknown shell client: '' @ client_id"
| "PendingRequestEnqueueError_display (RunnerOffline client_id) =
     lit ''runner '' @ client_id @ lit '' is offline (no keepalive within 60s); reconnect the Runner before retrying''"
| "PendingRequestEnqueueError_display (QueueFull client_id limit) =
     lit ''too many pending requests for runner '' @ client_id @ lit '' (limit '' @ show_nat limit @ lit '')''"

definition runner_is_connected_locked :: "RunnerRegistryInner \<Rightarrow> rstr \<Rightarrow> int \<Rightarrow> bool" where
  "runner_is_connected_locked inner client_id now =
     (case reg_runners inner client_id of
        None \<Rightarrow> False
      | Some runner \<Rightarrow> i64_sat_sub now (runner_last_seen runner) \<le> RUNNER_ONLINE_WINDOW_SECS)"

definition offline_last_seen :: "int \<Rightarrow> int" where
  "offline_last_seen now = i64_sat_sub now (i64_sat_add RUNNER_ONLINE_WINDOW_SECS 1)"

definition assert_active_instance_locked :: "RunnerRegistryInner \<Rightarrow> rstr \<Rightarrow> rstr \<Rightarrow> rstr + unit" where
  "assert_active_instance_locked inner client_id instance_id =
     (case reg_runners inner client_id of
        None \<Rightarrow> Inl (lit ''unknown shell client: '' @ client_id)
      | Some runner \<Rightarrow>
          if runner_instance_id runner \<noteq> instance_id
          then Inl (lit ''runner '' @ client_id @ lit '' is no longer the active instance (stale or replaced)'')
          else Inr ())"

definition ensure_queue_capacity_locked ::
    "RunnerRegistryInner \<Rightarrow> rstr \<Rightarrow> PendingRequestEnqueueError + unit" where
  "ensure_queue_capacity_locked inner client_id =
     (let len = (case reg_queues_by_runner inner client_id of None \<Rightarrow> 0 | Some q \<Rightarrow> length q) in
      if MAX_QUEUED_REQUESTS_PER_RUNNER \<le> len
      then Inl (QueueFull client_id MAX_QUEUED_REQUESTS_PER_RUNNER) else Inr ())"

definition ensure_dispatch_supported_locked ::
    "RunnerRegistryInner \<Rightarrow> rstr \<Rightarrow> int \<Rightarrow> PendingRequestEnqueueError + unit" where
  "ensure_dispatch_supported_locked inner client_id now =
     (if reg_runners inner client_id = None then Inl (UnknownRunner client_id)
      else if \<not> runner_is_connected_locked inner client_id now then Inl (RunnerOffline client_id)
      else Inr ())"

definition put_job :: "RunnerRegistryInner \<Rightarrow> rstr \<Rightarrow> ShellJobRecord \<times> candidates \<Rightarrow> RunnerRegistryInner" where
  "put_job inner jid jc = inner\<lparr>reg_jobs_by_id := (reg_jobs_by_id inner)(jid \<mapsto> fst jc),
     reg_receipt_candidates := snd jc\<rparr>"

text \<open>\<open>now\<close> is the clock read by the guards, \<open>now'\<close> the one recorded; \<open>grace\<close> is the configured
  recovery grace period.\<close>

definition refresh_job_status_locked ::
    "int \<Rightarrow> int \<Rightarrow> int \<Rightarrow> RunnerRegistryInner \<Rightarrow> rstr \<Rightarrow> RunnerRegistryInner" where
  "refresh_job_status_locked grace now now' inner jid =
     (case reg_jobs_by_id inner jid of
        None \<Rightarrow> inner
      | Some job \<Rightarrow>
          if is_terminal (job_lifecycle job) \<or> \<not> is_runner_active (job_lifecycle job) then inner
          else if recovery_active job then
            (if (case rec_recovering_since (job_recovery job) of None \<Rightarrow> False
                 | Some since \<Rightarrow> grace \<le> i64_sat_sub now since)
             then put_job inner jid (mark_job_lost job now' RunnerRecoveryDeadlineExceeded
                    (lit ''runner did not reconcile the job before the recovery deadline'')
                    (reg_receipt_candidates inner))
             else inner)
          else if runner_is_connected_locked inner (job_client_id job) now then inner
          else if (case reg_runners inner (job_client_id job) of None \<Rightarrow> False
                   | Some runner \<Rightarrow> runner_supports_reconciliation runner)
            then put_job inner jid (begin_job_recovery job now' RunnerTransportStale (reg_receipt_candidates inner))
          else put_job inner jid (mark_job_lost job now' RunnerDisconnectedWithoutReconciliation
                 (lit ''runner went stale while job was running'') (reg_receipt_candidates inner)))"

section \<open>Lifecycle lemmas\<close>

lemma active_terminal: "is_active l \<longleftrightarrow> \<not> is_terminal l"
  by (cases l) (auto simp: lifecycle_defs)

lemma runner_active_not_terminal: "is_runner_active l \<Longrightarrow> \<not> is_terminal l"
  by (cases l) (auto simp: lifecycle_defs)

definition decode_wire :: "rstr \<Rightarrow> RunnerJobLifecycle option" where
  "decode_wire s = (case from_wire s of Inl _ \<Rightarrow> None | Inr l \<Rightarrow> Some l)"

lemma from_as_wire: "from_wire (as_wire l) = Inr l"
  by (cases l) (simp_all add: from_wire_def lit_def)

lemma as_from_wire: "from_wire s = Inr l \<Longrightarrow> as_wire l = s"
  by (auto simp: from_wire_def split: if_splits)

interpretation lifecycle_codec: codec as_wire decode_wire "\<lambda>_. True"
  by unfold_locales (auto simp: decode_wire_def from_as_wire split: sum.splits dest: as_from_wire)

lemma from_wire_iff: "from_wire s = Inr l \<longleftrightarrow> as_wire l = s"
  using lifecycle_codec.decode_iff [of s l] by (auto simp: decode_wire_def split: sum.splits)

lemma as_wire_not_recovering: "as_wire l \<noteq> lit ''recovering''"
  by (cases l) (simp_all add: lit_def)

text \<open>The lifecycle vocabulary is exact: a text is read as a lifecycle value precisely when it is
  that value's spelling, active and terminal split the values, and the status shown to
  clients, recovery overlay included, is active exactly when the Job has not ended.\<close>

theorem lifecycle_vocabulary_exact:
  "(from_wire s = Inr l \<longleftrightarrow> s = as_wire l) \<and> (is_active l \<longleftrightarrow> \<not> is_terminal l)
   \<and> (job_status_is_active (public_status job) \<longleftrightarrow> \<not> is_terminal (job_lifecycle job))
   \<and> (is_final_job_status (public_status job) \<longleftrightarrow> is_terminal (job_lifecycle job))"
proof -
  have "from_wire (lit ''recovering'') = Inr k \<longleftrightarrow> False" for k
    using as_wire_not_recovering by (auto simp: from_wire_iff)
  then have r: "\<not> is_ok_and (from_wire (lit ''recovering'')) f" for f
    by (auto simp: is_ok_and_def split: sum.splits)
  have "job_status_is_active (public_status job) \<longleftrightarrow> \<not> is_terminal (job_lifecycle job)"
    using as_wire_not_recovering runner_active_not_terminal active_terminal
    by (auto simp: job_status_is_active_def public_status_def recovery_active_def is_ok_and_def from_as_wire)
  moreover have "is_final_job_status (public_status job) \<longleftrightarrow> is_terminal (job_lifecycle job)"
    using r runner_active_not_terminal
    by (auto simp: is_final_job_status_def public_status_def recovery_active_def is_ok_and_def from_as_wire)
  ultimately show ?thesis using from_wire_iff active_terminal by metis
qed

section \<open>Steps\<close>

text \<open>The operations on the Jobs of a registry, with the changes of Runner records between them.\<close>

inductive job_step :: "RunnerRegistryInner \<Rightarrow> RunnerRegistryInner \<Rightarrow> bool" where
  refresh: "job_step inner (refresh_job_status_locked grace now now' inner jid)"
| recover: "reg_jobs_by_id inner jid = Some job \<Longrightarrow>
    job_step inner (put_job inner jid (begin_job_recovery job now reason (reg_receipt_candidates inner)))"
| lose: "reg_jobs_by_id inner jid = Some job \<Longrightarrow>
    job_step inner (put_job inner jid (mark_job_lost job now reason message (reg_receipt_candidates inner)))"
| observe: "reg_jobs_by_id inner jid = Some job \<Longrightarrow>
    job_step inner (put_job inner jid (observe_job_terminal job now, reg_receipt_candidates inner))"
| runners: "job_step inner (inner\<lparr>reg_runners := rs, reg_queues_by_runner := qs\<rparr>)"

text \<open>What one operation may do to a Job record.\<close>

definition job_evolves :: "ShellJobRecord \<Rightarrow> ShellJobRecord \<Rightarrow> bool" where
  "job_evolves j j' \<longleftrightarrow>
     job_id j' = job_id j \<and> job_client_id j' = job_client_id j
     \<and> (is_terminal (job_lifecycle j) \<longrightarrow>
          job_lifecycle j' = job_lifecycle j \<and> job_ended_at j' = job_ended_at j \<and> job_error j' = job_error j
          \<and> job_command_execution_state j' = job_command_execution_state j \<and> job_recovery j' = job_recovery j)
     \<and> (\<not> is_terminal (job_lifecycle j) \<longrightarrow> job_lifecycle j' = job_lifecycle j \<or> job_lifecycle j' = Lost)
     \<and> (\<forall>t. obs_terminal_observed_at (job_observation j) = Some t \<longrightarrow>
          obs_terminal_observed_at (job_observation j') = Some t)"

lemma job_evolves_refl: "job_evolves j j"
  by (simp add: job_evolves_def)

lemma lost_terminal [simp]: "is_terminal Lost"
  by (simp add: is_terminal_def)

lemma job_evolves_trans: "job_evolves a b \<Longrightarrow> job_evolves b c \<Longrightarrow> job_evolves a c"
  unfolding job_evolves_def by (cases "is_terminal (job_lifecycle a)") (auto; metis lost_terminal)+

lemma job_evolves_recover: "job_evolves job (fst (begin_job_recovery job now reason cands))"
  by (simp add: job_evolves_def begin_job_recovery_def notify_job_update_def Let_def)

lemma job_evolves_lost: "job_evolves job (fst (mark_job_lost job now reason message cands))"
  by (auto simp: job_evolves_def mark_job_lost_def notify_job_update_def observe_job_terminal_def Let_def)

lemma job_evolves_observe: "job_evolves job (observe_job_terminal job now)"
  by (auto simp: job_evolves_def observe_job_terminal_def)

lemmas job_evolves_ops = job_evolves_refl job_evolves_recover job_evolves_lost job_evolves_observe

lemma refresh_evolves:
  "reg_jobs_by_id inner k = Some job \<Longrightarrow>
   \<exists>job'. reg_jobs_by_id (refresh_job_status_locked grace now now' inner jid) k = Some job' \<and> job_evolves job job'"
  using job_evolves_ops
  by (auto simp: refresh_job_status_locked_def put_job_def split: option.splits)

lemma job_step_evolves:
  "job_step inner inner' \<Longrightarrow> reg_jobs_by_id inner k = Some job \<Longrightarrow>
   \<exists>job'. reg_jobs_by_id inner' k = Some job' \<and> job_evolves job job'"
proof (induction rule: job_step.induct)
  case (refresh inner grace now now' jid)
  then show ?case by (rule refresh_evolves)
qed (auto simp: put_job_def intro: job_evolves_ops)

lemma job_steps_evolve:
  assumes "job_step\<^sup>*\<^sup>* inner inner'" "reg_jobs_by_id inner k = Some job"
  shows "\<exists>job'. reg_jobs_by_id inner' k = Some job' \<and> job_evolves job job'"
  using assms
proof (induction rule: rtranclp_induct)
  case base
  then show ?case using job_evolves_refl by blast
next
  case (step y z)
  then show ?case using job_step_evolves job_evolves_trans by blast
qed

text \<open>A Job that has ended stays as it ended. Along every sequence of refreshes, recoveries,
  losses, observations and Runner changes the Job keeps its record, and once terminal its
  outcome, end time, error, execution state and recovery facts never change; a Job that has
  not ended can only become lost, and the first time its end was observed is kept.\<close>

theorem terminal_jobs_are_final:
  assumes "job_step\<^sup>*\<^sup>* inner inner'" "reg_jobs_by_id inner jid = Some job"
  shows "\<exists>job'. reg_jobs_by_id inner' jid = Some job' \<and> job_evolves job job'"
  using assms by (rule job_steps_evolve)

definition sample_job :: ShellJobRecord where
  "sample_job = \<lparr>job_id = lit ''job-1'', job_request_id = Some (lit ''req-1''), job_client_id = lit ''runner-1'',
     job_auth_group = None, job_owner_at_admission = None, job_runner_instance_id = lit ''i'', job_kind = lit ''shell'',
     job_project_id = None, job_session_id = None, job_ssh_resource = None, job_cwd = None, job_project_cwd = None,
     job_purpose = None, job_shell = None, job_command_preview = lit ''make'', job_lifecycle = Running,
     job_created_at = 5, job_started_at = Some 10, job_ended_at = None, job_exit_code = None, job_duration_ms = None,
     job_stdout = ShellJobLogState_default, job_stderr = ShellJobLogState_default, job_error = None,
     job_command_execution_state = None, job_structured_execution = None, job_validation_steps = [],
     job_validation = None, job_validation_progress = None, job_activity = None, job_visibility = Public,
     job_last_update_seq = 1,
     job_recovery = \<lparr>rec_phase = None, rec_recovered_after_server_restart = False, rec_reconciled_at = None,
       rec_reason = None, rec_recovering_since = None\<rparr>, job_observation = JobObservationState_new\<rparr>"

definition sample_registry :: RunnerRegistryInner where
  "sample_registry = \<lparr>reg_runners = [lit ''runner-1'' \<mapsto> \<lparr>runner_client_id = lit ''runner-1'',
       runner_instance_id = lit ''i'', runner_owner = None, runner_auth_group = None, runner_last_seen = 20,
       runner_supports_reconciliation = True, runner_transport = Polling, runner_connection_id = None, runner_disconnected_at = None, runner_suppressions = []\<rparr>],
     reg_pending_by_id = Map.empty, reg_persistent_waiters = {}, reg_queues_by_runner = Map.empty,
     reg_jobs_by_id = [lit ''job-1'' \<mapsto> sample_job], reg_request_to_job = [lit ''req-1'' \<mapsto> lit ''job-1''],
     reg_retired_instances = Map.empty, reg_unregistering_projects = Map.empty, reg_notifiers = Map.empty,
     reg_receipt_candidates = {}\<rparr>"

theorem terminal_jobs_are_final_witness:
  "\<exists>job'. reg_jobs_by_id (refresh_job_status_locked 120 100 100 sample_registry (lit ''job-1'')) (lit ''job-1'') = Some job'
     \<and> job_evolves sample_job job'"
  by (rule terminal_jobs_are_final [OF r_into_rtranclp [of job_step]])
    (auto simp: sample_registry_def intro: job_step.refresh)

text \<open>The recovery overlay is consistent: while a Job is recovering, the start of the recovery is known.\<close>

definition recovery_ok :: "ShellJobRecord \<Rightarrow> bool" where
  "recovery_ok job \<longleftrightarrow> (recovering (job_recovery job) \<longrightarrow> rec_recovering_since (job_recovery job) \<noteq> None)"

lemma recovery_ok_ops:
  "recovery_ok job \<Longrightarrow> recovery_ok (fst (begin_job_recovery job now reason cands))"
  "recovery_ok job \<Longrightarrow> recovery_ok (fst (mark_job_lost job now reason message cands))"
  "recovery_ok job \<Longrightarrow> recovery_ok (observe_job_terminal job now)"
  by (auto simp: recovery_ok_def begin_job_recovery_def mark_job_lost_def observe_job_terminal_def
      notify_job_update_def recovering_def Let_def)

definition registry_ok :: "RunnerRegistryInner \<Rightarrow> bool" where
  "registry_ok inner \<longleftrightarrow> (\<forall>job \<in> ran (reg_jobs_by_id inner). recovery_ok job)"

lemma registry_ok_put:
  "registry_ok inner \<Longrightarrow> recovery_ok (fst jc) \<Longrightarrow> registry_ok (put_job inner jid jc)"
  by (auto simp: registry_ok_def put_job_def ran_def)

lemma registry_ok_job: "registry_ok inner \<Longrightarrow> reg_jobs_by_id inner jid = Some job \<Longrightarrow> recovery_ok job"
  by (auto simp: registry_ok_def ran_def)

lemma registry_ok_refresh:
  "registry_ok inner \<Longrightarrow> registry_ok (refresh_job_status_locked grace now now' inner jid)"
  by (auto simp: refresh_job_status_locked_def split: option.splits
      intro!: registry_ok_put recovery_ok_ops dest: registry_ok_job)

lemma job_step_ok: "job_step inner inner' \<Longrightarrow> registry_ok inner \<Longrightarrow> registry_ok inner'"
proof (induction rule: job_step.induct)
  case (runners inner rs qs)
  then show ?case by (simp add: registry_ok_def)
qed (auto intro!: registry_ok_put registry_ok_refresh recovery_ok_ops dest: registry_ok_job)

text \<open>A sweep of refreshes: the Jobs to look at with the clock readings.\<close>

definition sweep_step :: "int \<Rightarrow> rstr \<times> int \<times> int \<Rightarrow> RunnerRegistryInner \<Rightarrow> RunnerRegistryInner" where
  "sweep_step grace r inner = (case r of (jid, now, now') \<Rightarrow> refresh_job_status_locked grace now now' inner jid)"

interpretation sweep: invariant_machine "sweep_step grace" registry_ok for grace
  by unfold_locales (auto simp: sweep_step_def intro: registry_ok_refresh)

section \<open>Offline Runners\<close>

lemma mark_job_lost_effect:
  assumes "\<not> is_terminal (job_lifecycle job)"
  shows "job_lifecycle (fst (mark_job_lost job now reason message cands)) = Lost"
    "job_ended_at (fst (mark_job_lost job now reason message cands)) \<noteq> None"
    "job_error (fst (mark_job_lost job now reason message cands)) = Some message"
  using assms by (auto simp: mark_job_lost_def notify_job_update_def Let_def observe_job_terminal_def)

definition job_is_lost :: "RunnerRegistryInner \<Rightarrow> rstr \<Rightarrow> bool" where
  "job_is_lost inner jid \<longleftrightarrow> (\<exists>job. reg_jobs_by_id inner jid = Some job \<and> job_lifecycle job = Lost
     \<and> job_ended_at job \<noteq> None \<and> job_error job \<noteq> None)"

lemma refresh_lost: "job_is_lost inner jid \<Longrightarrow> refresh_job_status_locked g n n' inner jid = inner"
  by (auto simp: job_is_lost_def refresh_job_status_locked_def)

lemma put_lost:
  "\<not> is_terminal (job_lifecycle job) \<Longrightarrow> job_is_lost (put_job inner jid (mark_job_lost job now reason message cands)) jid"
  using mark_job_lost_effect [of job now reason message cands] by (auto simp: job_is_lost_def put_job_def)

lemma refresh_expired:
  assumes "reg_jobs_by_id inner jid = Some job" "recovery_active job"
    "rec_recovering_since (job_recovery job) = Some s" "grace \<le> i64_sat_sub now s"
  shows "job_is_lost (refresh_job_status_locked grace now now' inner jid) jid"
proof -
  have "is_runner_active (job_lifecycle job)" "\<not> is_terminal (job_lifecycle job)"
    using assms(2) runner_active_not_terminal by (auto simp: recovery_active_def)
  with assms show ?thesis by (simp add: refresh_job_status_locked_def put_lost)
qed

lemma refresh_offline:
  assumes "reg_jobs_by_id inner jid = Some job" "is_runner_active (job_lifecycle job)" "\<not> recovery_active job"
    "\<not> runner_is_connected_locked inner (job_client_id job) now"
  shows "job_is_lost (refresh_job_status_locked grace now now' inner jid) jid
    \<or> (\<exists>job'. reg_jobs_by_id (refresh_job_status_locked grace now now' inner jid) jid = Some job'
         \<and> recovery_active job' \<and> rec_recovering_since (job_recovery job') = Some now')"
proof -
  have nt: "\<not> is_terminal (job_lifecycle job)" using assms(2) by (rule runner_active_not_terminal)
  have "job_lifecycle job \<noteq> Queued" using assms(2) by (auto simp: is_runner_active_def)
  moreover have "\<not> recovering (job_recovery job)" using assms(2,3) by (simp add: recovery_active_def)
  ultimately show ?thesis
    using assms nt put_lost [OF nt]
    by (auto simp: refresh_job_status_locked_def put_job_def begin_job_recovery_def notify_job_update_def
        recovery_active_def recovering_def Let_def split: option.splits)
qed

text \<open>A Job whose Runner has gone away does not stay active for ever: once the Runner is
  offline and the grace period has passed since the recovery began, two refreshes are
  enough to end the Job as lost, with an end time and an error.\<close>

theorem offline_jobs_end:
  assumes "registry_ok inner" "reg_jobs_by_id inner jid = Some job" "is_runner_active (job_lifecycle job)"
    and "\<not> runner_is_connected_locked inner (job_client_id job) now1"
    and "grace \<le> i64_sat_sub now2 now1'"
    and "\<And>since. rec_recovering_since (job_recovery job) = Some since \<Longrightarrow> grace \<le> i64_sat_sub now2 since"
  shows "job_is_lost (refresh_job_status_locked grace now2 now2'
    (refresh_job_status_locked grace now1 now1' inner jid) jid) jid"
proof -
  let ?inner1 = "refresh_job_status_locked grace now1 now1' inner jid"
  have lost: "job_is_lost (refresh_job_status_locked grace now2 now2' ?inner1 jid) jid" if "job_is_lost ?inner1 jid"
    using that by (simp add: refresh_lost)
  show ?thesis
  proof (cases "recovery_active job")
    case True
    then obtain s where s: "rec_recovering_since (job_recovery job) = Some s"
      using registry_ok_job [OF assms(1,2)] by (auto simp: recovery_ok_def recovery_active_def)
    have nt: "\<not> is_terminal (job_lifecycle job)" using assms(3) by (rule runner_active_not_terminal)
    show ?thesis
    proof (cases "grace \<le> i64_sat_sub now1 s")
      case True
      then show ?thesis using lost refresh_expired [OF assms(2) \<open>recovery_active job\<close> s] by blast
    next
      case False
      then have "?inner1 = inner"
        using assms(2,3) \<open>recovery_active job\<close> s nt by (simp add: refresh_job_status_locked_def)
      then show ?thesis using refresh_expired [OF assms(2) True s assms(6) [OF s]] by simp
    qed
  next
    case False
    from refresh_offline [OF assms(2,3) False assms(4)] show ?thesis
      using lost refresh_expired assms(5) by blast
  qed
qed

theorem offline_jobs_end_witness:
  "job_is_lost (refresh_job_status_locked 120 300 300
     (refresh_job_status_locked 120 100 100 sample_registry (lit ''job-1'')) (lit ''job-1'')) (lit ''job-1'')"
proof (rule offline_jobs_end)
  show "registry_ok sample_registry"
    by (simp add: registry_ok_def sample_registry_def sample_job_def recovery_ok_def recovering_def)
  show "reg_jobs_by_id sample_registry (lit ''job-1'') = Some sample_job" by (simp add: sample_registry_def)
  show "is_runner_active (job_lifecycle sample_job)" by (simp add: sample_job_def is_runner_active_def)
  show "\<not> runner_is_connected_locked sample_registry (job_client_id sample_job) 100"
    by (simp add: runner_is_connected_locked_def sample_registry_def sample_job_def RUNNER_ONLINE_WINDOW_SECS_def
        i64_sat_sub_def i64_sat_def i64_max_def i64_min_def)
qed (auto simp: sample_job_def i64_sat_sub_def i64_sat_def i64_max_def i64_min_def)

end
