(* ===== verification/Project_Listing.thy ===== *)
theory Project_Listing
  imports Sensitive_Paths "HOL-Library.List_Lexorder"
begin

text \<open>
  The tracked-file listing of \<open>crates/webcodex-core/src/project_listing.rs\<close>: splitting the index,
  scopes, the iterative glob matcher, directory rollup with automatic depth, and pagination.

  Strings compare by their scalar values, which is the order of their UTF-8 bytes. A slice
  outside the character boundaries panics; \<open>build_listing\<close> returns an option and \<open>None\<close> is
  that panic. In the glob matcher an index into the pattern or the text is represented by the
  suffix it stands for.
\<close>

section \<open>Data\<close>

definition MAX_AUTO_DEPTH :: nat where "MAX_AUTO_DEPTH = 16"

datatype EntryKind = File | Dir

primrec EntryKind_as_str :: "EntryKind \<Rightarrow> rstr" where
  "EntryKind_as_str File = lit ''file''"
| "EntryKind_as_str Dir = lit ''dir''"

record ListingEntry =
  entry_path :: rstr
  entry_kind :: EntryKind
  entry_file_count :: "nat option"

record Listing =
  lst_entries :: "ListingEntry list"
  lst_total_files :: nat
  lst_total_entries :: nat
  lst_depth :: "nat option"
  lst_depth_auto :: bool
  lst_truncated :: bool
  lst_next_offset :: "nat option"

section \<open>Index and scope\<close>

definition parse_nul_separated :: "rstr \<Rightarrow> rstr list \<times> bool" where
  "parse_nul_separated raw =
     (if raw = [] then ([], False)
      else let truncated = (\<not> ends_with raw [0]);
               paths = filter (\<lambda>e. e \<noteq> []) (split_char 0 raw)
           in (if truncated then butlast paths else paths, truncated))"

definition trim_matches :: "rchar \<Rightarrow> rstr \<Rightarrow> rstr" where
  "trim_matches c s = rev (dropWhile (\<lambda>x. x = c) (rev (dropWhile (\<lambda>x. x = c) s)))"

definition trim_end_matches :: "rchar \<Rightarrow> rstr \<Rightarrow> rstr" where
  "trim_end_matches c s = rev (dropWhile (\<lambda>x. x = c) (rev s))"

fun trim_start_dot_slash :: "rstr \<Rightarrow> rstr" where
  "trim_start_dot_slash (x # y # s) =
     (if x = 46 \<and> y = 47 then trim_start_dot_slash s else x # y # s)"
| "trim_start_dot_slash s = s"

definition normalize_scope :: "rstr option \<Rightarrow> rstr" where
  "normalize_scope path =
     (let raw = trim (case path of None \<Rightarrow> [] | Some p \<Rightarrow> p);
          trimmed = trim_matches 47 raw
      in if trimmed = [] \<or> trimmed = lit ''.'' then [] else trim_start_dot_slash trimmed @ [47])"

section \<open>Glob matching\<close>

definition utf8_bytes :: "rchar \<Rightarrow> nat list" where
  "utf8_bytes c =
     (if c < 128 then [c]
      else if c < 2048 then [192 + c div 64, 128 + c mod 64]
      else if c < 65536 then [224 + c div 4096, 128 + c div 64 mod 64, 128 + c mod 64]
      else [240 + c div 262144, 128 + c div 4096 mod 64, 128 + c div 64 mod 64, 128 + c mod 64])"

definition as_bytes :: "rstr \<Rightarrow> nat list" where
  "as_bytes s = concat (map utf8_bytes s)"

text \<open>A frame of the backtrack stack: the pattern after a star, the text from the next byte the
  star would take, and whether the star may cross a slash.\<close>

type_synonym frame = "nat list \<times> nat list \<times> bool"

fun resume :: "frame list \<Rightarrow> (nat list \<times> nat list \<times> frame list) option" where
  "resume [] = None"
| "resume ((resume_p, resume_t, crosses_slash) # stars) =
     (case resume_t of
        c # rest \<Rightarrow> if crosses_slash \<or> c \<noteq> 47
                   then Some (resume_p, rest, (resume_p, rest, crosses_slash) # stars)
                   else resume stars
      | [] \<Rightarrow> resume stars)"

partial_function (option) glob_loop :: "nat list \<Rightarrow> nat list \<Rightarrow> frame list \<Rightarrow> bool option" where
  "glob_loop p t stars =
     (case t of
        [] \<Rightarrow> Some (list_all (\<lambda>x. x = 42) p)
      | c # t' \<Rightarrow>
          if p \<noteq> [] \<and> hd p = 42 then
            let crosses_slash = (tl p \<noteq> [] \<and> hd (tl p) = 42);
                p' = (if crosses_slash then tl (tl p) else tl p)
            in glob_loop p' t ((p', t, crosses_slash) # stars)
          else if p \<noteq> [] \<and> (hd p = 63 \<and> c \<noteq> 47 \<or> hd p = c) then glob_loop (tl p) t' stars
          else (case resume stars of
              None \<Rightarrow> Some False
            | Some (p', t'', stars') \<Rightarrow> glob_loop p' t'' stars'))"

definition glob_match_segment :: "nat list \<Rightarrow> nat list \<Rightarrow> bool option" where
  "glob_match_segment pattern text = glob_loop pattern text []"

definition glob_matches :: "rstr \<Rightarrow> rstr \<Rightarrow> bool option" where
  "glob_matches pattern path =
     (if 47 \<notin> set pattern then
        (case glob_match_segment (as_bytes pattern) (as_bytes (last (split_char 47 path))) of
           None \<Rightarrow> None
         | Some True \<Rightarrow> Some True
         | Some False \<Rightarrow> glob_match_segment (as_bytes pattern) (as_bytes path))
      else glob_match_segment (as_bytes pattern) (as_bytes path))"

section \<open>The pattern language\<close>

text \<open>What a pattern means: \<open>?\<close> is one byte other than a slash, \<open>*\<close> a run without a slash, \<open>**\<close> any run.\<close>

inductive glob_spec :: "nat list \<Rightarrow> nat list \<Rightarrow> bool" where
  finished: "glob_spec [] []"
| byte: "x \<noteq> 42 \<Longrightarrow> x \<noteq> 63 \<Longrightarrow> glob_spec p t \<Longrightarrow> glob_spec (x # p) (x # t)"
| any: "c \<noteq> 47 \<Longrightarrow> glob_spec p t \<Longrightarrow> glob_spec (63 # p) (c # t)"
| star: "p = [] \<or> hd p \<noteq> 42 \<Longrightarrow> 47 \<notin> set u \<Longrightarrow> glob_spec p t \<Longrightarrow> glob_spec (42 # p) (u @ t)"
| dstar: "glob_spec p t \<Longrightarrow> glob_spec (42 # 42 # p) (u @ t)"

inductive_simps glob_spec_Nil: "glob_spec [] t"
inductive_simps glob_spec_Cons: "glob_spec (x # p) t"

lemma glob_spec_char:
  "x \<noteq> 42 \<Longrightarrow> glob_spec (x # p) (c # t) \<longleftrightarrow> (x = 63 \<and> c \<noteq> 47 \<or> x = c) \<and> glob_spec p t"
  by (auto simp: glob_spec_Cons)

lemma glob_spec_char_Nil: "x \<noteq> 42 \<Longrightarrow> \<not> glob_spec (x # p) []"
  by (auto simp: glob_spec_Cons)

text \<open>A star, single or double, in front of a pattern.\<close>

definition star_spec :: "bool \<Rightarrow> nat list \<Rightarrow> nat list \<Rightarrow> bool" where
  "star_spec crosses p t \<longleftrightarrow> (\<exists>u v. t = u @ v \<and> (crosses \<or> 47 \<notin> set u) \<and> glob_spec p v)"

lemma glob_spec_star: "p = [] \<or> hd p \<noteq> 42 \<Longrightarrow> glob_spec (42 # p) t \<longleftrightarrow> star_spec False p t"
  by (auto simp: glob_spec_Cons star_spec_def)

lemma glob_spec_dstar: "glob_spec (42 # 42 # p) t \<longleftrightarrow> star_spec True p t"
  by (auto simp: glob_spec_Cons [of 42] star_spec_def)

lemma star_spec_Nil: "star_spec cs p [] \<longleftrightarrow> glob_spec p []"
  by (auto simp: star_spec_def)

lemma star_spec_Cons:
  "star_spec cs p (c # t) \<longleftrightarrow> glob_spec p (c # t) \<or> (cs \<or> c \<noteq> 47) \<and> star_spec cs p t"
proof
  assume "star_spec cs p (c # t)"
  then obtain u v where "c # t = u @ v" "cs \<or> 47 \<notin> set u" "glob_spec p v" by (auto simp: star_spec_def)
  then show "glob_spec p (c # t) \<or> (cs \<or> c \<noteq> 47) \<and> star_spec cs p t"
    by (cases u) (auto simp: star_spec_def)
next
  assume "glob_spec p (c # t) \<or> (cs \<or> c \<noteq> 47) \<and> star_spec cs p t"
  then show "star_spec cs p (c # t)"
  proof
    assume "(cs \<or> c \<noteq> 47) \<and> star_spec cs p t"
    then obtain u v where "t = u @ v" "cs \<or> 47 \<notin> set u" "glob_spec p v" "cs \<or> c \<noteq> 47"
      by (auto simp: star_spec_def)
    then show ?thesis unfolding star_spec_def by (intro exI [of _ "c # u"] exI [of _ v]) auto
  qed (auto simp: star_spec_def intro: exI [of _ "[]"])
qed

text \<open>No suffix of the text matches: nothing is left to try, however the stars before are widened.\<close>

definition hopeless :: "nat list \<Rightarrow> nat list \<Rightarrow> bool" where
  "hopeless p t \<longleftrightarrow> (\<forall>k. \<not> glob_spec p (drop k t))"

lemma hopeless_star: "hopeless p t \<Longrightarrow> \<not> star_spec cs p (drop k t)"
proof
  assume h: "hopeless p t" and "star_spec cs p (drop k t)"
  then obtain u v where "drop k t = u @ v" "glob_spec p v" by (auto simp: star_spec_def)
  then have "drop (length u + k) t = v" by (simp flip: drop_drop)
  with h \<open>glob_spec p v\<close> show False unfolding hopeless_def by blast
qed

lemma hopeless_Cons: "\<not> glob_spec p (c # t) \<Longrightarrow> hopeless p t \<Longrightarrow> hopeless p (c # t)"
  unfolding hopeless_def by (auto simp: drop_Cons split: nat.splits)

lemma hopeless_char: "x \<noteq> 42 \<Longrightarrow> hopeless p t \<Longrightarrow> hopeless (x # p) (c # t)"
proof -
  assume x: "x \<noteq> 42" and h: "hopeless p t"
  have "\<not> glob_spec (x # p) (drop k (c # t))" for k
  proof (cases "drop k (c # t)")
    case Nil
    then show ?thesis using glob_spec_char_Nil [OF x] by simp
  next
    case (Cons d ds)
    then have "ds = drop k t" by (metis drop_Suc_Cons drop_Suc list.sel(3) tl_drop)
    with h Cons show ?thesis using glob_spec_char [OF x] unfolding hopeless_def by auto
  qed
  then show ?thesis by (simp add: hopeless_def)
qed

section \<open>The matcher decides the language\<close>

definition backtrack :: "frame list \<Rightarrow> bool option" where
  "backtrack stars = (case resume stars of
      None \<Rightarrow> Some False | Some (p', t', stars') \<Rightarrow> glob_loop p' t' stars')"

lemma backtrack_Cons:
  "backtrack ((p, t, cs) # stars) =
     (case t of [] \<Rightarrow> backtrack stars
      | c # t' \<Rightarrow> if cs \<or> c \<noteq> 47 then glob_loop p t' ((p, t', cs) # stars) else backtrack stars)"
  by (auto simp: backtrack_def split: list.splits)

lemma glob_loop_end: "glob_loop p [] stars = Some (list_all (\<lambda>x. x = 42) p)"
  by (subst glob_loop.simps) simp

lemma glob_loop_empty: "glob_loop [] (c # t) stars = backtrack stars"
  by (subst glob_loop.simps) (simp add: backtrack_def)

lemma glob_loop_dstar:
  "glob_loop (42 # 42 # p) (c # t) stars = glob_loop p (c # t) ((p, c # t, True) # stars)"
  by (subst glob_loop.simps) simp

lemma glob_loop_star:
  "p = [] \<or> hd p \<noteq> 42 \<Longrightarrow> glob_loop (42 # p) (c # t) stars = glob_loop p (c # t) ((p, c # t, False) # stars)"
  by (subst glob_loop.simps) (auto simp: Let_def)

lemma glob_loop_char:
  "x \<noteq> 42 \<Longrightarrow> glob_loop (x # p) (c # t) stars =
     (if x = 63 \<and> c \<noteq> 47 \<or> x = c then glob_loop p t stars else backtrack stars)"
  by (subst glob_loop.simps) (simp add: backtrack_def)

text \<open>One exploration from a state: it finds a match, or gives up on everything, or falls back to the
  frames that were on the stack.\<close>

definition explores :: "nat list \<Rightarrow> nat list \<Rightarrow> bool" where
  "explores p t \<longleftrightarrow> (\<forall>stars.
     (if glob_spec p t then glob_loop p t stars = Some True
      else glob_loop p t stars = backtrack stars \<or> glob_loop p t stars = Some False \<and> hopeless p t))"

lemma star_explored:
  assumes "\<And>t. explores p t"
  shows "if star_spec cs p t then glob_loop p t ((p, t, cs) # stars) = Some True
    else glob_loop p t ((p, t, cs) # stars) = backtrack stars
      \<or> glob_loop p t ((p, t, cs) # stars) = Some False \<and> hopeless p t"
proof (induction t)
  case Nil
  have "if glob_spec p [] then glob_loop p [] ((p, [], cs) # stars) = Some True
      else glob_loop p [] ((p, [], cs) # stars) = backtrack ((p, [], cs) # stars)
        \<or> glob_loop p [] ((p, [], cs) # stars) = Some False \<and> hopeless p []"
    using assms [of "[]"] unfolding explores_def by blast
  then show ?case by (auto simp: star_spec_Nil backtrack_Cons split: if_splits)
next
  case (Cons c t)
  let ?s = "(p, c # t, cs) # stars"
  have ex: "explores p (c # t)" by (rule assms)
  show ?case
  proof (cases "glob_spec p (c # t)")
    case True
    with ex show ?thesis by (auto simp: explores_def star_spec_Cons)
  next
    case False
    with ex have "glob_loop p (c # t) ?s = backtrack ?s
        \<or> glob_loop p (c # t) ?s = Some False \<and> hopeless p (c # t)"
      by (auto simp: explores_def)
    then show ?thesis
    proof
      assume "glob_loop p (c # t) ?s = Some False \<and> hopeless p (c # t)"
      then show ?thesis using hopeless_star [of p "c # t" cs 0] by simp
    next
      assume "glob_loop p (c # t) ?s = backtrack ?s"
      then show ?thesis using Cons.IH False hopeless_Cons [OF False] by (auto simp: backtrack_Cons star_spec_Cons)
    qed
  qed
qed

lemma stars_only: "glob_spec p [] \<longleftrightarrow> list_all (\<lambda>x. x = 42) p"
proof (induction p rule: length_induct)
  case (1 p)
  show ?case
  proof (cases p)
    case (Cons x q)
    show ?thesis
    proof (cases "x = 42")
      case True
      show ?thesis
      proof (cases "q \<noteq> [] \<and> hd q = 42")
        case dd: True
        then obtain r where "q = 42 # r" by (cases q) auto
        with Cons True 1 show ?thesis by (simp add: glob_spec_dstar star_spec_Nil)
      next
        case False
        with Cons True 1 show ?thesis by (simp add: glob_spec_star star_spec_Nil)
      qed
    qed (use Cons glob_spec_char_Nil in auto)
  qed (simp add: glob_spec_Nil)
qed

lemma hopeless_empty: "\<not> glob_spec p [] \<Longrightarrow> hopeless p []"
  by (simp add: hopeless_def)

lemma loop_explores: "explores p t"
proof (induction p arbitrary: t rule: length_induct)
  case (1 p)
  show ?case
  proof (cases t)
    case Nil
    then show ?thesis by (auto simp: explores_def glob_loop_end stars_only intro: hopeless_empty)
  next
    case t: (Cons c t')
    show ?thesis
    proof (cases p)
      case Nil
      then show ?thesis by (auto simp: explores_def t glob_loop_empty glob_spec_Nil)
    next
      case (Cons x q)
      consider (dstar) r where "x = 42" "q = 42 # r" | (star) "x = 42" "q = [] \<or> hd q \<noteq> 42" | (char) "x \<noteq> 42"
        by (cases q) auto
      then show ?thesis
      proof cases
        case dstar
        have "\<And>u. explores r u" using 1 Cons dstar by simp
        note ex = star_explored [OF this, of True t]
        have "hopeless r t \<Longrightarrow> hopeless (42 # 42 # r) t"
          using hopeless_star [of r t True] by (auto simp: hopeless_def glob_spec_dstar)
        with ex show ?thesis
          unfolding explores_def Cons dstar t glob_loop_dstar glob_spec_dstar by (metis (full_types))
      next
        case star
        have "\<And>u. explores q u" using 1 Cons by simp
        note ex = star_explored [OF this, of False t]
        have "hopeless q t \<Longrightarrow> hopeless (42 # q) t"
          using hopeless_star [of q t False] by (auto simp: hopeless_def glob_spec_star [OF star(2)])
        with ex show ?thesis
          unfolding explores_def Cons star(1) t glob_loop_star [OF star(2)] glob_spec_star [OF star(2)]
          by (metis (full_types))
      next
        case char
        have "explores q t'" using 1 Cons by simp
        with hopeless_char [OF char, of q t' c] show ?thesis
          unfolding explores_def Cons t glob_loop_char [OF char] glob_spec_char [OF char]
          by (cases "x = 63 \<and> c \<noteq> 47 \<or> x = c") ((auto; blast), auto)
      qed
    qed
  qed
qed

lemma glob_match_segment_spec: "glob_match_segment p t = Some (glob_spec p t)"
proof -
  have "explores p t" by (rule loop_explores)
  moreover have "backtrack [] = Some False" by (simp add: backtrack_def)
  ultimately show ?thesis unfolding explores_def glob_match_segment_def by (metis (full_types))
qed


text \<open>The question mark stands for one byte, not one character: it does not match a path that
  is a single two-byte character.\<close>

theorem question_mark_is_one_byte:
  "glob_matches (lit ''?'') [233] = Some False \<and> glob_matches (lit ''??'') [233] = Some True"
  by (simp add: glob_matches_def glob_match_segment_spec as_bytes_def utf8_bytes_def lit_def glob_spec_char
      glob_spec_Nil)

section \<open>Rollup\<close>

text \<open>The prefix of a path up to and including its \<open>n\<close>-th slash, if it has that many.\<close>

fun through_slash :: "nat \<Rightarrow> rstr \<Rightarrow> rstr option" where
  "through_slash n [] = None"
| "through_slash n (c # s) =
     (if c = 47 then (if n = 0 then Some [c] else map_option (\<lambda>r. c # r) (through_slash (n - 1) s))
      else map_option (\<lambda>r. c # r) (through_slash n s))"

definition rollup_key :: "rstr \<Rightarrow> nat \<Rightarrow> rstr" where
  "rollup_key relative depth =
     (case through_slash (depth - 1) relative of Some k \<Rightarrow> k | None \<Rightarrow> relative)"

definition entry_count_at_depth :: "rstr list \<Rightarrow> nat \<Rightarrow> nat" where
  "entry_count_at_depth relatives depth =
     length (remdups_adj (sort (map (\<lambda>rel. rollup_key rel depth) relatives)))"

definition slashes :: "rstr \<Rightarrow> nat" where
  "slashes s = length (filter (\<lambda>c. c = 47) s)"

fun deepest_fitting :: "rstr list \<Rightarrow> nat \<Rightarrow> nat \<Rightarrow> nat" where
  "deepest_fitting relatives limit 0 = 1"
| "deepest_fitting relatives limit (Suc d) =
     (if entry_count_at_depth relatives (Suc d) \<le> limit then Suc d else deepest_fitting relatives limit d)"

definition auto_depth :: "rstr list \<Rightarrow> nat \<Rightarrow> nat" where
  "auto_depth relatives limit =
     (let deepest = min (case relatives of [] \<Rightarrow> 1 | _ \<Rightarrow> Max (set (map (\<lambda>r. slashes r + 1) relatives))) MAX_AUTO_DEPTH
      in deepest_fitting relatives limit deepest)"

text \<open>Equal neighbours are counted together.\<close>

definition roll_step :: "(rstr \<times> nat) list \<Rightarrow> rstr \<Rightarrow> (rstr \<times> nat) list" where
  "roll_step rolled key =
     (if rolled \<noteq> [] \<and> fst (last rolled) = key
      then butlast rolled @ [(key, snd (last rolled) + 1)] else rolled @ [(key, 1)])"

definition rolled_entry :: "rstr \<Rightarrow> rstr \<times> nat \<Rightarrow> ListingEntry" where
  "rolled_entry scope kc =
     (let is_dir = ends_with (fst kc) [47]
      in \<lparr>entry_path = scope @ fst kc, entry_kind = (if is_dir then Dir else File),
          entry_file_count = (if is_dir then Some (snd kc) else None)\<rparr>)"

definition file_entry :: "rstr \<Rightarrow> ListingEntry" where
  "file_entry path = \<lparr>entry_path = path, entry_kind = File, entry_file_count = None\<rparr>"

section \<open>Building a listing\<close>

text \<open>The loop of the matcher always returns, so its option is read as a boolean.\<close>

definition any_glob :: "rstr list \<Rightarrow> rstr \<Rightarrow> bool" where
  "any_glob globs path \<longleftrightarrow> globs = [] \<or> list_ex (\<lambda>glob. glob_matches glob path = Some True) globs"

definition matched_paths :: "(rstr \<Rightarrow> rstr) \<Rightarrow> rstr list \<Rightarrow> rstr \<Rightarrow> rstr list \<Rightarrow> rstr list" where
  "matched_paths lower paths scope globs =
     remdups_adj (sort (filter (any_glob globs)
       (filter (\<lambda>path. scope = [] \<or> starts_with path scope)
         (filter (\<lambda>path. \<not> is_bulk_skipped_path lower path) paths))))"

definition relative_path :: "rstr \<Rightarrow> rstr \<Rightarrow> rstr option" where
  "relative_path scope path = map_option snd (str_split_at path (min (str_len scope) (str_len path)))"

definition effective_depth :: "rstr list \<Rightarrow> nat option \<Rightarrow> nat \<Rightarrow> nat option \<times> bool" where
  "effective_depth relatives depth limit =
     (case depth of
        Some requested \<Rightarrow> (Some (max requested 1), False)
      | None \<Rightarrow> if length relatives \<le> limit then (None, False) else (Some (auto_depth relatives limit), True))"

definition all_entries :: "rstr list \<Rightarrow> rstr list \<Rightarrow> rstr \<Rightarrow> nat option \<Rightarrow> ListingEntry list" where
  "all_entries matched relatives scope depth =
     (case depth of
        None \<Rightarrow> map file_entry matched
      | Some d \<Rightarrow> map (rolled_entry scope) (foldl roll_step [] (map (\<lambda>r. rollup_key r d) relatives)))"

definition build_listing ::
    "(rstr \<Rightarrow> rstr) \<Rightarrow> rstr list \<Rightarrow> rstr \<Rightarrow> rstr list \<Rightarrow> nat option \<Rightarrow> nat \<Rightarrow> nat \<Rightarrow> Listing option" where
  "build_listing lower paths scope globs depth limit offset =
     (let limit = max limit 1;
          matched = matched_paths lower paths scope globs
      in case those (map (relative_path scope) matched) of
           None \<Rightarrow> None
         | Some relatives \<Rightarrow>
             let (eff, depth_auto) = effective_depth relatives depth limit;
                 entries = all_entries matched relatives scope eff;
                 start = min offset (length entries);
                 page = drop start entries;
                 truncated = (limit < length page)
             in Some \<lparr>lst_entries = take limit page, lst_total_files = length matched,
                  lst_total_entries = length entries, lst_depth = eff, lst_depth_auto = depth_auto,
                  lst_truncated = truncated,
                  lst_next_offset = (if truncated then Some (start + limit) else None)\<rparr>)"

text \<open>The fields of the JSON view that depend on whether the index was read completely.\<close>

definition listing_page_facts :: "Listing \<Rightarrow> bool \<Rightarrow> bool \<times> nat option" where
  "listing_page_facts l list_truncated =
     (lst_truncated l \<and> \<not> list_truncated, if list_truncated then None else lst_next_offset l)"

section \<open>Rollup lemmas\<close>

lemma through_slash_prefix: "through_slash n s = Some k \<Longrightarrow> \<exists>k0 r. k = k0 @ [47] \<and> s = k @ r"
proof (induction n s arbitrary: k rule: through_slash.induct)
  case (2 n c s)
  then show ?case by (auto split: if_splits)
qed simp

lemma through_slash_extends: "through_slash n s = Some k \<Longrightarrow> through_slash n (k @ r) = Some k"
  by (induction n s arbitrary: k rule: through_slash.induct) (auto split: if_splits)

lemma rollup_key_cases:
  obtains (dir) k0 r where "through_slash (d - 1) s = Some (k0 @ [47])" "rollup_key s d = k0 @ [47]" "s = k0 @ 47 # r"
  | (leaf) "through_slash (d - 1) s = None" "rollup_key s d = s"
proof (cases "through_slash (d - 1) s")
  case (Some k)
  then show ?thesis using dir through_slash_prefix [OF Some] by (auto simp: rollup_key_def)
qed (use leaf in \<open>auto simp: rollup_key_def\<close>)

lemma prefix_between:
  fixes a b m k :: rstr
  shows "prefix k a \<Longrightarrow> prefix k b \<Longrightarrow> a \<le> m \<Longrightarrow> m \<le> b \<Longrightarrow> prefix k m"
proof (induction k arbitrary: a b m)
  case (Cons x k)
  obtain a' where a: "a = x # a'" "prefix k a'" using Cons.prems(1) by (auto simp: prefix_def)
  obtain b' where b: "b = x # b'" "prefix k b'" using Cons.prems(2) by (auto simp: prefix_def)
  show ?case
  proof (cases m)
    case Nil
    with Cons.prems(3) a(1) show ?thesis by simp
  next
    case (Cons y m')
    with \<open>a \<le> m\<close> \<open>m \<le> b\<close> a(1) b(1) have "y = x" "a' \<le> m'" "m' \<le> b'" by auto
    with Cons.IH [OF a(2) b(2)] Cons show ?thesis by simp
  qed
qed simp

text \<open>Paths with one rollup key are neighbours in the order of paths.\<close>

lemma rollup_key_convex:
  assumes "rollup_key x d = rollup_key z d" "x \<le> y" "y \<le> z"
  shows "rollup_key y d = rollup_key x d"
proof (cases rule: rollup_key_cases [of d x])
  case (dir k0 r)
  let ?k = "k0 @ [47]"
  have "prefix ?k z"
  proof (cases rule: rollup_key_cases [of d z])
    case (dir k1 r1)
    with assms(1) \<open>rollup_key x d = ?k\<close> show ?thesis by (auto simp: prefix_def)
  next
    case leaf
    with assms(1) \<open>rollup_key x d = ?k\<close> show ?thesis by simp
  qed
  moreover have "prefix ?k x" using dir by (auto simp: prefix_def)
  ultimately have "prefix ?k y" using prefix_between assms(2,3) by blast
  then obtain r' where "y = ?k @ r'" by (auto simp: prefix_def)
  then show ?thesis using through_slash_extends [OF dir(1)] dir(2) by (simp add: rollup_key_def)
next
  case leaf
  show ?thesis
  proof (cases rule: rollup_key_cases [of d z])
    case (dir k1 r1)
    then have "x = k1 @ [47]" using leaf assms(1) by simp
    then have "through_slash (d - 1) x = Some (k1 @ [47])" using through_slash_extends [OF dir(1), of "[]"] by simp
    with leaf show ?thesis by simp
  next
    case leaf': leaf
    with leaf assms have "x = z" by simp
    with assms show ?thesis by simp
  qed
qed

lemma distinct_remdups_adj_convex:
  fixes xs :: "rstr list"
  assumes "\<And>x y z. f x = f z \<Longrightarrow> x \<le> y \<Longrightarrow> y \<le> z \<Longrightarrow> f y = f x"
  shows "sorted xs \<Longrightarrow> distinct (remdups_adj (map f xs))"
proof (induction xs rule: induct_list012)
  case (3 x y zs)
  show ?case
  proof (cases "f x = f y")
    case True
    with 3 show ?thesis by simp
  next
    case False
    have "f x \<noteq> f z" if "z \<in> set (y # zs)" for z
      using assms [of x z y] that 3(3) False by auto
    then have "f x \<notin> set (remdups_adj (map f (y # zs)))" by (force simp: remdups_adj_set simp del: remdups_adj.simps)
    moreover have "distinct (remdups_adj (map f (y # zs)))" using 3 by simp
    ultimately show ?thesis using False by (simp del: remdups_adj.simps(3) add: remdups_adj.simps(3) [of "f x"])
  qed
qed auto

lemma remdups_adj_snoc:
  "remdups_adj (xs @ [x]) = (if xs \<noteq> [] \<and> last xs = x then remdups_adj xs else remdups_adj xs @ [x])"
  by (induction xs rule: induct_list012) auto

lemma roll_step_fst:
  "map fst (roll_step rolled k) = (if rolled \<noteq> [] \<and> fst (last rolled) = k then map fst rolled else map fst rolled @ [k])"
proof (cases rolled rule: rev_cases)
  case (snoc xs x)
  then show ?thesis by (cases x) (simp add: roll_step_def)
qed (simp add: roll_step_def)

lemma roll_fst: "map fst (foldl roll_step [] ks) = remdups_adj ks"
proof (induction ks rule: rev_induct)
  case (snoc k ks)
  let ?r = "foldl roll_step [] ks"
  have "?r \<noteq> [] \<longleftrightarrow> ks \<noteq> []" using snoc by (metis list.map_disc_iff remdups_adj_Nil_iff)
  moreover have "ks \<noteq> [] \<Longrightarrow> fst (last ?r) = last ks"
    using snoc calculation by (metis last_map last_remdups_adj)
  ultimately show ?case using snoc by (auto simp: roll_step_fst remdups_adj_snoc)
qed simp

lemma roll_step_expand:
  "concat (map (\<lambda>(k, n). replicate n k) (roll_step rolled k)) = concat (map (\<lambda>(k, n). replicate n k) rolled) @ [k]"
proof (cases rolled rule: rev_cases)
  case (snoc xs x)
  then show ?thesis by (cases x) (simp add: roll_step_def replicate_append_same)
qed (simp add: roll_step_def)

lemma roll_expand: "concat (map (\<lambda>(k, n). replicate n k) (foldl roll_step [] ks)) = ks"
  by (induction ks rule: rev_induct) (simp_all add: roll_step_expand)

section \<open>Listings\<close>

lemma matched_in:
  assumes "p \<in> set (matched_paths lower paths scope globs)"
  shows "p \<in> set paths" "\<not> is_bulk_skipped_path lower p" "scope = [] \<or> starts_with p scope" "any_glob globs p"
  using assms by (auto simp: matched_paths_def remdups_adj_set)

lemma matched_prefix: "p \<in> set (matched_paths lower paths scope globs) \<Longrightarrow> \<exists>r. p = scope @ r"
  using matched_in(3) by (fastforce simp: starts_with_prefix prefix_def)

lemma relative_path_prefix: "relative_path scope (scope @ r) = Some r"
  by (simp add: relative_path_def)

lemma those_map_Some: "(\<And>x. x \<in> set xs \<Longrightarrow> f x = Some (g x)) \<Longrightarrow> those (map f xs) = Some (map g xs)"
  by (induction xs) auto

lemma relatives_defined:
  "those (map (relative_path scope) (matched_paths lower paths scope globs))
    = Some (map (drop (length scope)) (matched_paths lower paths scope globs))"
proof (rule those_map_Some)
  fix p
  assume "p \<in> set (matched_paths lower paths scope globs)"
  then obtain r where "p = scope @ r" using matched_prefix by blast
  then show "relative_path scope p = Some (drop (length scope) p)" by (simp add: relative_path_prefix)
qed

text \<open>The entries of a listing before pagination.\<close>

definition listing_entries ::
    "(rstr \<Rightarrow> rstr) \<Rightarrow> rstr list \<Rightarrow> rstr \<Rightarrow> rstr list \<Rightarrow> nat option \<Rightarrow> nat \<Rightarrow> ListingEntry list" where
  "listing_entries lower paths scope globs depth limit =
     (let matched = matched_paths lower paths scope globs;
          relatives = map (drop (length scope)) matched
      in all_entries matched relatives scope (fst (effective_depth relatives depth (max limit 1))))"

lemma build_listing_eq:
  "build_listing lower paths scope globs depth limit offset =
     (let matched = matched_paths lower paths scope globs;
          eff = effective_depth (map (drop (length scope)) matched) depth (max limit 1);
          entries = listing_entries lower paths scope globs depth limit;
          truncated = (max limit 1 < length entries - offset)
      in Some \<lparr>lst_entries = take (max limit 1) (drop offset entries), lst_total_files = length matched,
           lst_total_entries = length entries, lst_depth = fst eff, lst_depth_auto = snd eff,
           lst_truncated = truncated,
           lst_next_offset = (if truncated then Some (offset + max limit 1) else None)\<rparr>)"
proof -
  have d: "drop (min n (length xs)) xs = drop n xs" for n and xs :: "ListingEntry list" by (simp add: min_def)
  show ?thesis
    by (auto simp: build_listing_def relatives_defined listing_entries_def Let_def case_prod_unfold d min_def)
qed

text \<open>Paging is exact: a listing never panics, the page at an offset is the corresponding
  slice of the one list of entries, and the next offset is given precisely when entries
  remain, so following the offsets from zero yields every entry once, in order.\<close>

theorem listing_pages_are_slices:
  "\<exists>l. build_listing lower paths scope globs depth limit offset = Some l
    \<and> lst_entries l = take (max limit 1) (drop offset (listing_entries lower paths scope globs depth limit))
    \<and> lst_total_entries l = length (listing_entries lower paths scope globs depth limit)
    \<and> lst_next_offset l = (if offset + max limit 1 < lst_total_entries l then Some (offset + max limit 1) else None)
    \<and> lst_entries l @ drop (offset + max limit 1) (listing_entries lower paths scope globs depth limit)
        = drop offset (listing_entries lower paths scope globs depth limit)"
proof -
  let ?e = "listing_entries lower paths scope globs depth limit"
  have t: "take n (drop m xs) @ drop (m + n) xs = drop m xs" for n m and xs :: "ListingEntry list"
    by (metis add.commute append_take_drop_id drop_drop)
  have c: "max limit 1 < length ?e - offset \<longleftrightarrow> offset + max limit 1 < length ?e" by linarith
  show ?thesis unfolding build_listing_eq Let_def c by (simp add: t)
qed

lemma not_skipped_empty: "\<not> is_bulk_skipped_path lower []"
  by (simp add: is_bulk_skipped_path_def is_secret_path_def is_bulk_excluded_path_def path_components_def lit_def)

lemma skipped_sep:
  "is_bulk_skipped_path lower (a @ 47 # b) \<longleftrightarrow> is_bulk_skipped_path lower a \<or> is_bulk_skipped_path lower b"
  using is_secret_path_sep [of 47 lower a b] is_bulk_excluded_path_sep [of 47 lower a b]
  by (auto simp: is_bulk_skipped_path_def)

lemma listing_entry_origin:
  assumes "e \<in> set (listing_entries lower paths scope globs depth limit)"
  shows "\<exists>p \<in> set (matched_paths lower paths scope globs).
    entry_path e = p \<or> (\<exists>a r. entry_path e = a @ [47] \<and> p = a @ 47 # r)"
proof -
  let ?m = "matched_paths lower paths scope globs"
  let ?rel = "map (drop (length scope)) ?m"
  show ?thesis
  proof (cases "fst (effective_depth ?rel depth (max limit 1))")
    case None
    with assms show ?thesis by (auto simp: listing_entries_def Let_def all_entries_def file_entry_def)
  next
    case (Some d)
    with assms obtain kc where kc: "kc \<in> set (foldl roll_step [] (map (\<lambda>r. rollup_key r d) ?rel))"
      and e: "entry_path e = scope @ fst kc"
      by (auto simp: listing_entries_def Let_def all_entries_def rolled_entry_def)
    have "fst kc \<in> set (map fst (foldl roll_step [] (map (\<lambda>r. rollup_key r d) ?rel)))" using kc by simp
    then obtain p where p: "p \<in> set ?m" "fst kc = rollup_key (drop (length scope) p) d"
      unfolding roll_fst by (auto simp: remdups_adj_set)
    obtain r where r: "p = scope @ r" using matched_prefix [OF p(1)] by blast
    then have k: "fst kc = rollup_key r d" using p(2) by simp
    show ?thesis
    proof (cases rule: rollup_key_cases [of d r])
      case (dir k0 r')
      then have "entry_path e = (scope @ k0) @ [47]" "p = (scope @ k0) @ 47 # r'" using e k r by auto
      with p(1) show ?thesis by blast
    next
      case leaf
      with p(1) e k r show ?thesis by auto
    qed
  qed
qed

text \<open>Listings show no protected path: no entry of a listing, whether a file or a directory
  that stands for the files beneath it, is one that the path policy keeps from bulk
  operations, whatever index, scope, globs, depth and page are asked for.\<close>

theorem listings_hide_protected_paths:
  "\<exists>l. build_listing lower paths scope globs depth limit offset = Some l
    \<and> list_all (\<lambda>e. \<not> is_bulk_skipped_path lower (entry_path e)) (lst_entries l)"
proof -
  have "\<not> is_bulk_skipped_path lower (entry_path e)"
    if "e \<in> set (listing_entries lower paths scope globs depth limit)" for e
  proof -
    from listing_entry_origin [OF that] obtain p where p: "p \<in> set (matched_paths lower paths scope globs)"
      and o: "entry_path e = p \<or> (\<exists>a r. entry_path e = a @ [47] \<and> p = a @ 47 # r)" by blast
    from o show ?thesis
      using matched_in(2) [OF p] skipped_sep not_skipped_empty by metis
  qed
  then show ?thesis
    unfolding build_listing_eq Let_def by (auto simp: list_all_iff dest!: in_set_takeD in_set_dropD)
qed

section \<open>Rolled-up listings\<close>

lemma append_le_append: "(s @ a \<le> s @ b) \<longleftrightarrow> (a \<le> (b :: rstr))"
  by (induction s) auto

lemma matched_sorted_distinct:
  "sorted (matched_paths lower paths scope globs)" "distinct (matched_paths lower paths scope globs)"
proof -
  have "distinct (remdups_adj (map id xs))" if "sorted xs" for xs :: "rstr list"
    using that by (intro distinct_remdups_adj_convex) auto
  then show "distinct (matched_paths lower paths scope globs)" by (simp add: matched_paths_def)
  show "sorted (matched_paths lower paths scope globs)" by (simp add: matched_paths_def sorted_remdups_adj)
qed

lemma relatives_sorted_distinct:
  fixes ms :: "rstr list"
  assumes "sorted ms" "distinct ms" "\<And>m. m \<in> set ms \<Longrightarrow> \<exists>r. m = scope @ r"
  shows "sorted (map (drop (length scope)) ms)" "distinct (map (drop (length scope)) ms)"
proof -
  have "\<exists>rs. ms = map ((@) scope) rs"
    using assms(3) by (induction ms) (auto intro: exI [of _ "_ # _"], metis list.simps(9))
  then obtain rs where ms: "ms = map ((@) scope) rs" by blast
  have rs: "map (drop (length scope)) ms = rs" by (simp add: ms map_idI)
  show "sorted (map (drop (length scope)) ms)"
    unfolding rs using assms(1) unfolding ms by (simp add: sorted_map append_le_append)
  show "distinct (map (drop (length scope)) ms)"
    unfolding rs using assms(2) unfolding ms by (simp add: distinct_map)
qed

lemma roll_pos: "(k, n) \<in> set (foldl roll_step [] ks) \<Longrightarrow> 0 < n"
proof (induction ks arbitrary: k n rule: rev_induct)
  case (snoc x ks)
  then show ?case by (auto simp: roll_step_def split: if_splits dest: in_set_butlastD)
qed simp

lemma count_list_replicate: "count_list (replicate n x) y = (if x = y then n else 0)"
  by (induction n) auto

lemma roll_count:
  assumes "distinct (map fst rolled)" "(k, n) \<in> set rolled"
  shows "count_list (concat (map (\<lambda>(k, n). replicate n k) rolled)) k = n"
  using assms
proof (induction rolled)
  case (Cons a rolled)
  have "count_list (concat (map (\<lambda>(k, n). replicate n k) rolled)) j = 0" if "j \<notin> fst ` set rolled" for j
    using that by (intro count_notin) force
  with Cons show ?case by (cases a) (auto simp: count_list_append count_list_replicate rev_image_eqI)
qed simp

lemma rollup_leaf: "\<not> ends_with (rollup_key r d) [47] \<Longrightarrow> rollup_key r d = r"
  by (cases rule: rollup_key_cases [of d r]) (auto simp: ends_with_def starts_with_def)

lemma rolled_leaf_count:
  assumes "sorted rs" "distinct rs" "(k, n) \<in> set (foldl roll_step [] (map (\<lambda>r. rollup_key r d) rs))" "\<not> ends_with k [47]"
  shows "n = 1"
proof -
  let ?ks = "map (\<lambda>r. rollup_key r d) rs"
  let ?rolled = "foldl roll_step [] ?ks"
  have "distinct (map fst ?rolled)"
    unfolding roll_fst using rollup_key_convex by (intro distinct_remdups_adj_convex assms(1)) metis
  from roll_count [OF this assms(3)] have "count_list ?ks k = n" by (simp add: roll_expand)
  moreover have "count_list ?ks k \<le> 1"
  proof -
    have "count_list ?ks k = length (filter (\<lambda>r. rollup_key r d = k) rs)" by (induction rs) auto
    also have "filter (\<lambda>r. rollup_key r d = k) rs = filter (\<lambda>r. rollup_key r d = k \<and> r = k) rs"
      using rollup_leaf assms(4) by (metis)
    also have "length \<dots> \<le> length (filter (\<lambda>r. r = k) rs)" by (induction rs) auto
    also have "\<dots> \<le> 1" using assms(2) by (induction rs) (auto simp: filter_empty_conv)
    finally show ?thesis .
  qed
  ultimately show ?thesis using roll_pos [OF assms(3)] by simp
qed

definition entry_files :: "ListingEntry \<Rightarrow> nat" where
  "entry_files e = (case entry_file_count e of None \<Rightarrow> 1 | Some n \<Rightarrow> n)"

lemma rolled_entry_files:
  "\<not> ends_with k [47] \<longrightarrow> n = 1 \<Longrightarrow> entry_files (rolled_entry scope (k, n)) = n"
  by (simp add: entry_files_def rolled_entry_def Let_def)

lemma length_concat_replicate: "length (concat (map (\<lambda>(k, n). replicate n k) xs)) = sum_list (map snd xs)"
  by (induction xs) auto

lemma entry_count_distinct:
  assumes "sorted rs"
  shows "entry_count_at_depth rs d = length (foldl roll_step [] (map (\<lambda>r. rollup_key r d) rs))"
proof -
  let ?ks = "map (\<lambda>r. rollup_key r d) rs"
  have "distinct (remdups_adj (map id (sort ?ks)))" by (intro distinct_remdups_adj_convex) auto
  then have "length (remdups_adj (sort ?ks)) = card (set ?ks)"
    by (metis (no_types) distinct_card list.map_id remdups_adj_set set_sort)
  moreover have "distinct (remdups_adj ?ks)"
    using rollup_key_convex by (intro distinct_remdups_adj_convex assms) metis
  then have "length (remdups_adj ?ks) = card (set ?ks)" by (metis distinct_card remdups_adj_set)
  ultimately show ?thesis
    unfolding entry_count_at_depth_def by (metis length_map roll_fst)
qed

lemma deepest_fitting_fits:
  "deepest_fitting rs limit d = 1 \<or> entry_count_at_depth rs (deepest_fitting rs limit d) \<le> limit"
  by (induction d) auto

lemma auto_depth_fits: "auto_depth rs limit = 1 \<or> entry_count_at_depth rs (auto_depth rs limit) \<le> limit"
  unfolding auto_depth_def Let_def by (rule deepest_fitting_fits)

text \<open>A rolled-up listing is a complete picture: its entries name distinct paths, the files they
  stand for add up to the number of matching files, and an automatically chosen depth
  yields no more entries than the limit unless even the top level overflows.\<close>

theorem rollup_is_complete:
  assumes "build_listing lower paths scope globs depth limit offset = Some l"
  shows "distinct (map entry_path (listing_entries lower paths scope globs depth limit))
    \<and> sum_list (map entry_files (listing_entries lower paths scope globs depth limit)) = lst_total_files l
    \<and> (lst_depth_auto l \<longrightarrow> lst_total_entries l \<le> max limit 1 \<or> lst_depth l = Some 1)"
proof -
  let ?m = "matched_paths lower paths scope globs"
  let ?rs = "map (drop (length scope)) ?m"
  let ?eff = "effective_depth ?rs depth (max limit 1)"
  let ?e = "listing_entries lower paths scope globs depth limit"
  have rs: "sorted ?rs" "distinct ?rs"
    by (rule relatives_sorted_distinct [OF matched_sorted_distinct]; rule matched_prefix; assumption)+
  have l: "lst_total_files l = length ?m" "lst_total_entries l = length ?e"
    "lst_depth l = fst ?eff" "lst_depth_auto l = snd ?eff"
    using assms unfolding build_listing_eq Let_def by auto
  show ?thesis
  proof (cases "fst ?eff")
    case None
    then have "?e = map file_entry ?m" "\<not> snd ?eff"
      by (auto simp: listing_entries_def all_entries_def effective_depth_def Let_def split: option.splits if_splits)
    then show ?thesis
      using l matched_sorted_distinct(2) by (simp add: comp_def file_entry_def entry_files_def sum_list_triv)
  next
    case (Some d)
    let ?rolled = "foldl roll_step [] (map (\<lambda>r. rollup_key r d) ?rs)"
    have e: "?e = map (rolled_entry scope) ?rolled"
      using Some by (simp add: listing_entries_def all_entries_def Let_def)
    have "distinct (map fst ?rolled)"
      unfolding roll_fst using rollup_key_convex by (intro distinct_remdups_adj_convex rs(1)) metis
    moreover have "map entry_path ?e = map ((@) scope) (map fst ?rolled)"
      unfolding e by (simp add: rolled_entry_def Let_def)
    ultimately have "distinct (map entry_path ?e)" by (simp add: distinct_map inj_on_def)
    moreover have "map entry_files ?e = map snd ?rolled"
      unfolding e using rolled_leaf_count [OF rs] rolled_entry_files by fastforce
    then have "sum_list (map entry_files ?e) = length ?m"
      using length_concat_replicate [of ?rolled] by (simp add: roll_expand)
    moreover have "snd ?eff \<Longrightarrow> d = auto_depth ?rs (max limit 1)"
      using Some by (auto simp: effective_depth_def split: option.splits if_splits)
    then have "snd ?eff \<Longrightarrow> length ?e \<le> max limit 1 \<or> d = 1"
      using auto_depth_fits [of ?rs "max limit 1"] entry_count_distinct [OF rs(1), of d]
      unfolding e length_map by metis
    ultimately show ?thesis using l Some by simp
  qed
qed

theorem rollup_is_complete_witness:
  "distinct (map entry_path (listing_entries to_ascii_lowercase [lit ''a/x'', lit ''a/y'', lit ''b''] [] [] None 2))"
  using rollup_is_complete [of to_ascii_lowercase "[lit ''a/x'', lit ''a/y'', lit ''b'']" "[]" "[]" None 2 0] build_listing_eq
  by (auto simp: Let_def)

end
