(* ===== verification/File_Range.thy ===== *)
theory File_Range
  imports Rust_Prelude
begin

text \<open>
  The bounded streaming reader of \<open>crates/webcodex-workspace/src/file_read_range.rs\<close>: one pass over the
  chunks of a file that validates its UTF-8, counts its lines and keeps the selected window,
  within a content budget.

  Bytes are naturals below 256 and a string is the list of its bytes. A reader is the list of the
  results of its \<open>read\<close> calls; an empty chunk is the end of the file. The SHA-256 digest of the
  bytes hashed so far is the parameter \<open>sha\<close>. \<open>str::from_utf8\<close> is modelled by its three
  outcomes: valid, invalid at some byte, or cut inside a sequence that may still be completed.
\<close>

section \<open>Ranges and reasons\<close>

definition MAX_RANGE_CONTENT_BYTES :: nat where "MAX_RANGE_CONTENT_BYTES = 192 * 1024"
definition FILE_READ_DEFAULT_LIMIT :: nat where "FILE_READ_DEFAULT_LIMIT = 2000"
definition FILE_READ_MAX_LIMIT :: nat where "FILE_READ_MAX_LIMIT = 2000"

record EffectiveRange =
  range_start_line :: nat
  range_limit :: nat

definition EffectiveRange_new :: "nat option \<Rightarrow> nat option \<Rightarrow> EffectiveRange" where
  "EffectiveRange_new start_line limit =
     \<lparr>range_start_line = max (case start_line of None \<Rightarrow> 1 | Some n \<Rightarrow> n) 1,
      range_limit = min (max (case limit of None \<Rightarrow> FILE_READ_DEFAULT_LIMIT | Some n \<Rightarrow> n) 1) FILE_READ_MAX_LIMIT\<rparr>"

definition range_end_line :: "EffectiveRange \<Rightarrow> nat" where
  "range_end_line r = sat_add (range_start_line r) (range_limit r) - 1"

datatype ReadFileReason =
  InvalidPath | SensitivePath | NotFound | NotFile | PermissionDenied | InvalidUtf8 | RangeTooLarge
| RunnerUnavailable | Timeout | MalformedRunnerResponse | IoError

primrec ReadFileReason_as_str :: "ReadFileReason \<Rightarrow> rstr" where
  "ReadFileReason_as_str InvalidPath = lit ''invalid_path''"
| "ReadFileReason_as_str SensitivePath = lit ''sensitive_path''"
| "ReadFileReason_as_str NotFound = lit ''not_found''"
| "ReadFileReason_as_str NotFile = lit ''not_file''"
| "ReadFileReason_as_str PermissionDenied = lit ''permission_denied''"
| "ReadFileReason_as_str InvalidUtf8 = lit ''invalid_utf8''"
| "ReadFileReason_as_str RangeTooLarge = lit ''range_too_large''"
| "ReadFileReason_as_str RunnerUnavailable = lit ''agent_unavailable''"
| "ReadFileReason_as_str Timeout = lit ''timeout''"
| "ReadFileReason_as_str MalformedRunnerResponse = lit ''malformed_agent_response''"
| "ReadFileReason_as_str IoError = lit ''io_error''"

definition ReadFileReason_from_code :: "rstr \<Rightarrow> ReadFileReason option" where
  "ReadFileReason_from_code v =
     (if v = lit ''invalid_path'' then Some InvalidPath
      else if v = lit ''sensitive_path'' then Some SensitivePath
      else if v = lit ''not_found'' then Some NotFound
      else if v = lit ''not_file'' then Some NotFile
      else if v = lit ''permission_denied'' then Some PermissionDenied
      else if v = lit ''invalid_utf8'' then Some InvalidUtf8
      else if v = lit ''range_too_large'' then Some RangeTooLarge
      else if v = lit ''agent_unavailable'' then Some RunnerUnavailable
      else if v = lit ''timeout'' then Some Timeout
      else if v = lit ''malformed_agent_response'' then Some MalformedRunnerResponse
      else if v = lit ''io_error'' then Some IoError
      else None)"

datatype IoErrorKind = KindNotFound | KindPermissionDenied | KindInvalidData | KindOther

primrec io_error_to_reason :: "IoErrorKind \<Rightarrow> ReadFileReason" where
  "io_error_to_reason KindNotFound = NotFound"
| "io_error_to_reason KindPermissionDenied = PermissionDenied"
| "io_error_to_reason KindInvalidData = InvalidUtf8"
| "io_error_to_reason KindOther = IoError"

record FileReadRange =
  frr_content :: "nat list"
  frr_sha256 :: rstr
  frr_total_lines :: nat
  frr_start_line :: nat
  frr_limit :: nat
  frr_returned_lines :: nat
  frr_end_line :: "nat option"
  frr_has_more :: bool
  frr_next_start_line :: "nat option"

definition count_returned_lines :: "nat list \<Rightarrow> nat \<Rightarrow> nat \<Rightarrow> nat" where
  "count_returned_lines content total_lines start_line =
     (if total_lines < start_line \<or> total_lines = 0 then 0
      else if content = [] then (if start_line \<le> total_lines then 1 else 0)
      else length (split_char LF content))"

definition FileReadRange_new :: "nat list \<Rightarrow> rstr \<Rightarrow> nat \<Rightarrow> EffectiveRange \<Rightarrow> FileReadRange" where
  "FileReadRange_new content sha256 total_lines rng =
     (let returned_lines = count_returned_lines content total_lines (range_start_line rng);
          end_line = (if 0 < returned_lines then Some (range_start_line rng + returned_lines - 1) else None);
          has_more = (case end_line of None \<Rightarrow> False | Some e \<Rightarrow> e < total_lines);
          next_start_line = (if has_more then map_option (\<lambda>e. e + 1) end_line else None)
      in \<lparr>frr_content = content, frr_sha256 = sha256, frr_total_lines = total_lines,
          frr_start_line = range_start_line rng, frr_limit = range_limit rng,
          frr_returned_lines = returned_lines, frr_end_line = end_line, frr_has_more = has_more,
          frr_next_start_line = next_start_line\<rparr>)"

section \<open>UTF-8\<close>

definition utf8_sequence_width :: "nat \<Rightarrow> nat option" where
  "utf8_sequence_width b =
     (if 0xC2 \<le> b \<and> b \<le> 0xDF then Some 2
      else if 0xE0 \<le> b \<and> b \<le> 0xEF then Some 3
      else if 0xF0 \<le> b \<and> b \<le> 0xF4 then Some 4
      else None)"

definition lead_width :: "nat \<Rightarrow> nat option" where
  "lead_width b = (if b < 128 then Some 1 else utf8_sequence_width b)"

definition second_ok :: "nat \<Rightarrow> nat \<Rightarrow> bool" where
  "second_ok b c \<longleftrightarrow> 0x80 \<le> c \<and> c \<le> 0xBF \<and> (b = 0xE0 \<longrightarrow> 0xA0 \<le> c) \<and> (b = 0xED \<longrightarrow> c \<le> 0x9F)
     \<and> (b = 0xF0 \<longrightarrow> 0x90 \<le> c) \<and> (b = 0xF4 \<longrightarrow> c \<le> 0x8F)"

text \<open>The bytes after a lead byte, as far as they are there, continue its sequence.\<close>

definition continues :: "nat \<Rightarrow> nat list \<Rightarrow> bool" where
  "continues b cs \<longleftrightarrow> (case cs of [] \<Rightarrow> True
     | c # ds \<Rightarrow> second_ok b c \<and> list_all (\<lambda>d. 0x80 \<le> d \<and> d \<le> 0xBF) ds)"

datatype utf8_result = Utf8Valid | Utf8Bad | Utf8Incomplete nat

function from_utf8_at :: "nat \<Rightarrow> nat list \<Rightarrow> utf8_result" where
  "from_utf8_at pos [] = Utf8Valid"
| "from_utf8_at pos (b # bs) =
     (case lead_width b of
        None \<Rightarrow> Utf8Bad
      | Some w \<Rightarrow>
          if \<not> continues b (take (w - 1) bs) then Utf8Bad
          else if length bs < w - 1 then Utf8Incomplete pos
          else from_utf8_at (pos + w) (drop (w - 1) bs))"
  by pat_completeness auto
termination by (relation "measure (\<lambda>(pos, bs). length bs)") auto

definition from_utf8 :: "nat list \<Rightarrow> utf8_result" where
  "from_utf8 bs = from_utf8_at 0 bs"

definition validate_rest :: "nat list \<Rightarrow> ReadFileReason + nat list" where
  "validate_rest remaining =
     (case from_utf8 remaining of
        Utf8Valid \<Rightarrow> Inr []
      | Utf8Bad \<Rightarrow> Inl InvalidUtf8
      | Utf8Incomplete valid_up_to \<Rightarrow>
          let tail = drop valid_up_to remaining in
          if tail = [] \<or> 3 < length tail then Inl InvalidUtf8 else Inr tail)"

text \<open>The carried bytes before and after a chunk.\<close>

definition validate_chunk :: "nat list \<Rightarrow> nat list \<Rightarrow> ReadFileReason + nat list" where
  "validate_chunk carry bytes =
     (if carry \<noteq> [] then
        (case utf8_sequence_width (hd carry) of
           None \<Rightarrow> Inl InvalidUtf8
         | Some expected \<Rightarrow>
             let n = min (expected - length carry) (length bytes);
                 carry' = carry @ take n bytes
             in if length carry' < expected then Inr carry'
                else if from_utf8 carry' \<noteq> Utf8Valid then Inl InvalidUtf8
                else validate_rest (drop n bytes))
      else validate_rest bytes)"

definition validator_finish :: "nat list \<Rightarrow> ReadFileReason + unit" where
  "validator_finish carry = (if carry = [] then Inr () else Inl InvalidUtf8)"

section \<open>The scan\<close>

record RangeScan =
  scan_content :: "nat list"
  scan_total_lines :: nat
  scan_wrote_any_line :: bool
  scan_current_line_has_bytes :: bool
  scan_selected_line_started :: bool
  scan_pending_selected_cr :: bool
  scan_range_too_large :: bool

definition RangeScan_new :: RangeScan where
  "RangeScan_new = \<lparr>scan_content = [], scan_total_lines = 0, scan_wrote_any_line = False,
     scan_current_line_has_bytes = False, scan_selected_line_started = False,
     scan_pending_selected_cr = False, scan_range_too_large = False\<rparr>"

definition current_line_selected :: "RangeScan \<Rightarrow> nat \<Rightarrow> nat \<Rightarrow> bool" where
  "current_line_selected s start_line end_line \<longleftrightarrow>
     (let line = sat_add (scan_total_lines s) 1 in start_line \<le> line \<and> line \<le> end_line)"

definition push_selected_byte :: "nat \<Rightarrow> nat \<Rightarrow> RangeScan \<Rightarrow> RangeScan" where
  "push_selected_byte byte content_budget s =
     (if scan_range_too_large s then s
      else if content_budget \<le> length (scan_content s)
        then s\<lparr>scan_content := [], scan_range_too_large := True\<rparr>
      else s\<lparr>scan_content := scan_content s @ [byte]\<rparr>)"

definition start_selected_line :: "nat \<Rightarrow> RangeScan \<Rightarrow> RangeScan" where
  "start_selected_line content_budget s =
     (if scan_selected_line_started s then s
      else (if scan_wrote_any_line s then push_selected_byte LF content_budget s else s)
             \<lparr>scan_wrote_any_line := True, scan_selected_line_started := True\<rparr>)"

definition flush_pending_cr :: "nat \<Rightarrow> RangeScan \<Rightarrow> RangeScan" where
  "flush_pending_cr content_budget s =
     (if scan_pending_selected_cr s
      then (push_selected_byte CR content_budget s)\<lparr>scan_pending_selected_cr := False\<rparr> else s)"

definition scan_byte :: "nat \<Rightarrow> nat \<Rightarrow> nat \<Rightarrow> nat \<Rightarrow> RangeScan \<Rightarrow> RangeScan" where
  "scan_byte start_line end_line content_budget byte s =
     (let selected = current_line_selected s start_line end_line in
      if byte = LF then
        (if selected then (start_selected_line content_budget s)\<lparr>scan_pending_selected_cr := False\<rparr> else s)
          \<lparr>scan_total_lines := sat_add (scan_total_lines s) 1, scan_current_line_has_bytes := False,
           scan_selected_line_started := False, scan_pending_selected_cr := False\<rparr>
      else
        let s1 = s\<lparr>scan_current_line_has_bytes := True\<rparr> in
        if \<not> selected then s1
        else let s2 = flush_pending_cr content_budget (start_selected_line content_budget s1) in
          if byte = CR then s2\<lparr>scan_pending_selected_cr := True\<rparr>
          else push_selected_byte byte content_budget s2)"

definition scan_chunk :: "nat list \<Rightarrow> nat \<Rightarrow> nat \<Rightarrow> nat \<Rightarrow> RangeScan \<Rightarrow> RangeScan" where
  "scan_chunk bytes start_line end_line content_budget s =
     fold (scan_byte start_line end_line content_budget) bytes s"

text \<open>The read loop: bytes hashed, carried bytes and scan state.\<close>

fun run_loop ::
    "(IoErrorKind + nat list) list \<Rightarrow> nat \<Rightarrow> nat \<Rightarrow> nat \<Rightarrow> nat list \<Rightarrow> nat list \<Rightarrow> RangeScan
     \<Rightarrow> ReadFileReason + (nat list \<times> nat list \<times> RangeScan)" where
  "run_loop [] start_line end_line budget hashed carry s = Inr (hashed, carry, s)"
| "run_loop (Inl e # reads) start_line end_line budget hashed carry s = Inl (io_error_to_reason e)"
| "run_loop (Inr chunk # reads) start_line end_line budget hashed carry s =
     (if chunk = [] then Inr (hashed, carry, s)
      else (case validate_chunk carry chunk of
          Inl e \<Rightarrow> Inl e
        | Inr carry' \<Rightarrow>
            run_loop reads start_line end_line budget (hashed @ chunk) carry'
              (scan_chunk chunk start_line end_line budget s)))"

definition scan_run ::
    "(nat list \<Rightarrow> rstr) \<Rightarrow> (IoErrorKind + nat list) list \<Rightarrow> nat \<Rightarrow> nat \<Rightarrow> nat
     \<Rightarrow> ReadFileReason + (rstr \<times> RangeScan)" where
  "scan_run sha reads start_line end_line budget =
     (case run_loop reads start_line end_line budget [] [] RangeScan_new of
        Inl e \<Rightarrow> Inl e
      | Inr (hashed, carry, s) \<Rightarrow>
          (case validator_finish carry of
             Inl e \<Rightarrow> Inl e
           | Inr _ \<Rightarrow>
               let s' = (if scan_current_line_has_bytes s
                         then s\<lparr>scan_pending_selected_cr := False,
                                scan_total_lines := sat_add (scan_total_lines s) 1\<rparr> else s)
               in if scan_range_too_large s' then Inl RangeTooLarge else Inr (sha hashed, s')))"

definition clamp_budget :: "nat \<Rightarrow> nat" where
  "clamp_budget content_budget = min content_budget MAX_RANGE_CONTENT_BYTES"

definition read_range_from_with_budget ::
    "(nat list \<Rightarrow> rstr) \<Rightarrow> (IoErrorKind + nat list) list \<Rightarrow> EffectiveRange \<Rightarrow> nat
     \<Rightarrow> ReadFileReason + FileReadRange" where
  "read_range_from_with_budget sha reads rng content_budget =
     (case scan_run sha reads (range_start_line rng) (range_end_line rng) (clamp_budget content_budget) of
        Inl e \<Rightarrow> Inl e
      | Inr (digest, s) \<Rightarrow>
          if from_utf8 (scan_content s) \<noteq> Utf8Valid then Inl InvalidUtf8
          else Inr (FileReadRange_new (scan_content s) digest (scan_total_lines s) rng))"

definition read_range_from ::
    "(nat list \<Rightarrow> rstr) \<Rightarrow> (IoErrorKind + nat list) list \<Rightarrow> EffectiveRange \<Rightarrow> ReadFileReason + FileReadRange" where
  "read_range_from sha reads rng = read_range_from_with_budget sha reads rng MAX_RANGE_CONTENT_BYTES"

text \<open>Opening the file is the first thing that may fail.\<close>

definition read_range_with_budget ::
    "(nat list \<Rightarrow> rstr) \<Rightarrow> IoErrorKind + (IoErrorKind + nat list) list \<Rightarrow> EffectiveRange \<Rightarrow> nat
     \<Rightarrow> ReadFileReason + FileReadRange" where
  "read_range_with_budget sha opened rng content_budget =
     (case opened of Inl e \<Rightarrow> Inl (io_error_to_reason e)
      | Inr reads \<Rightarrow> read_range_from_with_budget sha reads rng content_budget)"

definition read_range ::
    "(nat list \<Rightarrow> rstr) \<Rightarrow> IoErrorKind + (IoErrorKind + nat list) list \<Rightarrow> EffectiveRange
     \<Rightarrow> ReadFileReason + FileReadRange" where
  "read_range sha opened rng = read_range_with_budget sha opened rng MAX_RANGE_CONTENT_BYTES"

definition is_valid_sha256_hex :: "rstr \<Rightarrow> bool" where
  "is_valid_sha256_hex v \<longleftrightarrow> str_len v = 64 \<and> list_all is_lower_hex v"

section \<open>Reason codes\<close>

interpretation reason_codec: codec ReadFileReason_as_str ReadFileReason_from_code "\<lambda>_. True"
proof
  show "ReadFileReason_from_code (ReadFileReason_as_str x) = Some x" for x
    by (cases x) (simp_all add: ReadFileReason_from_code_def lit_def)
  show "ReadFileReason_as_str x = s \<and> True" if "ReadFileReason_from_code s = Some x" for s x
    using that by (auto simp: ReadFileReason_from_code_def split: if_splits)
qed

section \<open>Validation is independent of the chunks\<close>

text \<open>Well-formed UTF-8, one sequence after another.\<close>

function valid_utf8 :: "nat list \<Rightarrow> bool" where
  "valid_utf8 [] = True"
| "valid_utf8 (b # bs) =
     (case lead_width b of
        None \<Rightarrow> False
      | Some w \<Rightarrow> w - 1 \<le> length bs \<and> continues b (take (w - 1) bs) \<and> valid_utf8 (drop (w - 1) bs))"
  by pat_completeness auto
termination by (relation "measure length") auto

declare valid_utf8.simps(2) [simp del] from_utf8_at.simps(2) [simp del]

lemmas utf8_Cons = valid_utf8.simps(2) from_utf8_at.simps(2)

lemma continues_append: "continues b (xs @ ys) \<Longrightarrow> continues b xs"
  by (cases xs) (auto simp: continues_def)

lemma continues_high: "continues b xs \<Longrightarrow> x \<in> set xs \<Longrightarrow> 128 \<le> x"
  by (cases xs) (auto simp: continues_def second_ok_def list_all_iff)

lemma valid_utf8_ascii: "b < 128 \<Longrightarrow> valid_utf8 (b # bs) = valid_utf8 bs"
  by (simp add: utf8_Cons lead_width_def continues_def)

lemma valid_utf8_split:
  "c < 128 \<Longrightarrow> valid_utf8 (a @ c # r) \<longleftrightarrow> valid_utf8 a \<and> valid_utf8 r"
proof (induction a rule: valid_utf8.induct)
  case 1
  then show ?case by (simp add: valid_utf8_ascii)
next
  case (2 b bs)
  show ?case
  proof (cases "lead_width b")
    case (Some w)
    show ?thesis
    proof (cases "w - 1 \<le> length bs")
      case True
      with Some 2 show ?thesis by (simp add: utf8_Cons)
    next
      case False
      then have "c \<in> set (take (w - 1) (bs @ c # r))" by (cases "w - 1 - length bs") auto
      then have "\<not> continues b (take (w - 1) (bs @ c # r))" using continues_high "2.prems" by fastforce
      with Some False show ?thesis by (simp add: utf8_Cons)
    qed
  qed (simp add: utf8_Cons)
qed

definition carry_ok :: "nat list \<Rightarrow> bool" where
  "carry_ok c \<longleftrightarrow> c = [] \<or> (\<exists>w. utf8_sequence_width (hd c) = Some w \<and> length c < w)"

lemma utf8_sequence_width_bounds: "utf8_sequence_width b = Some w \<Longrightarrow> 2 \<le> w \<and> w \<le> 4 \<and> lead_width b = Some w"
  by (auto simp: utf8_sequence_width_def lead_width_def split: if_splits)

lemma from_utf8_at_cases:
  "case from_utf8_at n bs of
     Utf8Valid \<Rightarrow> valid_utf8 (bs @ r) = valid_utf8 r
   | Utf8Bad \<Rightarrow> \<not> valid_utf8 (bs @ r)
   | Utf8Incomplete m \<Rightarrow> n \<le> m \<and> carry_ok (drop (m - n) bs) \<and> drop (m - n) bs \<noteq> []
       \<and> valid_utf8 (bs @ r) = valid_utf8 (drop (m - n) bs @ r)"
proof (induction n bs rule: from_utf8_at.induct)
  case (2 n b bs)
  show ?case
  proof (cases "lead_width b")
    case (Some w)
    consider (bad) "\<not> continues b (take (w - 1) bs)"
      | (short) "continues b (take (w - 1) bs)" "length bs < w - 1"
      | (go) "continues b (take (w - 1) bs)" "w - 1 \<le> length bs" by linarith
    then show ?thesis
    proof cases
      case bad
      then have "\<not> continues b (take (w - 1) (bs @ r))" using continues_append by (metis take_append)
      with bad Some show ?thesis by (simp add: utf8_Cons)
    next
      case short
      then have "utf8_sequence_width b = Some w" using Some by (auto simp: lead_width_def split: if_splits)
      with short Some show ?thesis by (simp add: utf8_Cons carry_ok_def)
    next
      case go
      have w: "0 < w" using Some by (auto simp: lead_width_def dest: utf8_sequence_width_bounds split: if_splits)
      have step: "valid_utf8 ((b # bs) @ r) = valid_utf8 (drop (w - 1) bs @ r)"
        using go Some by (simp add: utf8_Cons)
      have eq: "from_utf8_at n (b # bs) = from_utf8_at (n + w) (drop (w - 1) bs)"
        using go Some by (simp add: utf8_Cons)
      have "drop (m - n) (b # bs) = drop (m - (n + w)) (drop (w - 1) bs)" if "n + w \<le> m" for m
        using that w by (cases "m - n") (auto simp: drop_Cons' intro!: arg_cong2 [where f = drop])
      with "2.IH" Some go show ?thesis unfolding eq step
        by (fastforce split: utf8_result.splits)
    qed
  qed (simp add: utf8_Cons)
qed simp

lemma carry_invalid: "carry_ok c \<Longrightarrow> c \<noteq> [] \<Longrightarrow> \<not> valid_utf8 c"
proof (cases c)
  case (Cons b bs)
  assume "carry_ok c" "c \<noteq> []"
  with Cons obtain w where "utf8_sequence_width b = Some w" "length c < w" by (auto simp: carry_ok_def)
  with Cons utf8_sequence_width_bounds show ?thesis by (fastforce simp: utf8_Cons)
qed simp

lemma from_utf8_valid_iff: "from_utf8 bs = Utf8Valid \<longleftrightarrow> valid_utf8 bs"
proof (cases "from_utf8 bs")
  case (Utf8Incomplete m)
  with from_utf8_at_cases [where n = 0 and bs = bs and r = "[]"]
  have "carry_ok (drop m bs)" "drop m bs \<noteq> []" "valid_utf8 bs = valid_utf8 (drop m bs)"
    by (simp_all add: from_utf8_def)
  then show ?thesis using Utf8Incomplete carry_invalid by simp
qed (use from_utf8_at_cases [where n = 0 and bs = bs and r = "[]"] in \<open>simp_all add: from_utf8_def\<close>)

lemma validate_rest_cases:
  "case validate_rest bs of
     Inl e \<Rightarrow> e = InvalidUtf8 \<and> \<not> valid_utf8 (bs @ r)
   | Inr c \<Rightarrow> carry_ok c \<and> valid_utf8 (bs @ r) = valid_utf8 (c @ r)"
proof (cases "from_utf8 bs")
  case (Utf8Incomplete m)
  with from_utf8_at_cases [where n = 0 and bs = bs and r = r]
  have m: "carry_ok (drop m bs)" "drop m bs \<noteq> []" "valid_utf8 (bs @ r) = valid_utf8 (drop m bs @ r)"
    by (simp_all add: from_utf8_def)
  then have "length (drop m bs) \<le> 3" by (auto simp: carry_ok_def dest!: utf8_sequence_width_bounds)
  with m Utf8Incomplete show ?thesis by (simp add: validate_rest_def Let_def)
qed (use from_utf8_at_cases [where n = 0 and bs = bs and r = r] in
      \<open>simp_all add: from_utf8_def validate_rest_def carry_ok_def\<close>)

lemma valid_utf8_complete:
  assumes "utf8_sequence_width (hd c) = Some w" "length c = w"
  shows "valid_utf8 (c @ r) \<longleftrightarrow> valid_utf8 c \<and> valid_utf8 r"
  using assms utf8_sequence_width_bounds [of "hd c" w] by (cases c) (auto simp: utf8_Cons)

lemma validate_chunk_cases:
  assumes "carry_ok c"
  shows "case validate_chunk c bs of
     Inl e \<Rightarrow> e = InvalidUtf8 \<and> \<not> valid_utf8 (c @ bs @ r)
   | Inr c' \<Rightarrow> carry_ok c' \<and> valid_utf8 (c @ bs @ r) = valid_utf8 (c' @ r)"
proof (cases "c = []")
  case False
  with assms obtain w where w: "utf8_sequence_width (hd c) = Some w" "length c < w"
    by (auto simp: carry_ok_def)
  define k where "k = min (w - length c) (length bs)"
  let ?c = "c @ take k bs"
  have hd: "hd ?c = hd c" using False by simp
  have eq: "c @ bs @ r = ?c @ drop k bs @ r" by simp
  show ?thesis
  proof (cases "length ?c < w")
    case True
    then have k: "k = length bs" by (auto simp: k_def min_def split: if_splits)
    from True have "length c + length bs < w" by (simp add: k)
    with True False w hd show ?thesis
      by (simp add: validate_chunk_def Let_def k_def [symmetric] k carry_ok_def)
  next
    case full: False
    then have "length ?c = w" using w by (auto simp: k_def)
    with hd w have split: "valid_utf8 (c @ bs @ r) \<longleftrightarrow> valid_utf8 ?c \<and> valid_utf8 (drop k bs @ r)"
      unfolding eq by (intro valid_utf8_complete [where w = w]) simp_all
    with validate_rest_cases [where bs = "drop k bs" and r = r] False full w show ?thesis
      by (auto simp: validate_chunk_def Let_def k_def [symmetric] from_utf8_valid_iff split: sum.splits)
  qed
qed (use validate_rest_cases [where bs = bs and r = r] in
      \<open>simp add: validate_chunk_def split: sum.splits\<close>)

section \<open>The scan keeps exactly the selected lines\<close>

text \<open>The lines \<open>s\<close> to \<open>e\<close>, counted from one.\<close>

definition line_window :: "nat \<Rightarrow> nat \<Rightarrow> 'a list \<Rightarrow> 'a list" where
  "line_window s e ls = take (e + 1 - s) (drop (s - 1) ls)"

lemma line_window_Nil [simp]: "line_window s e [] = []"
  by (simp add: line_window_def)

lemma line_window_snoc:
  "1 \<le> s \<Longrightarrow> line_window s e (ls @ [x]) =
     line_window s e ls @ (if s \<le> length ls + 1 \<and> length ls + 1 \<le> e then [x] else [])"
  by (cases "length ls + 1 \<le> e"; cases "s \<le> length ls + 1") (auto simp: line_window_def)

text \<open>The bytes selected so far, and how a scan holds them within its budget.\<close>

definition holds_content :: "nat \<Rightarrow> nat list \<Rightarrow> RangeScan \<Rightarrow> bool" where
  "holds_content B out st \<longleftrightarrow>
     scan_range_too_large st = (B < length out) \<and> scan_content st = (if B < length out then [] else out)"

lemma push_selected_byte_holds:
  "holds_content B out st \<Longrightarrow> holds_content B (out @ [b]) (push_selected_byte b B st)"
  by (auto simp: holds_content_def push_selected_byte_def)

lemma push_selected_byte_same [simp]:
  "scan_total_lines (push_selected_byte b B st) = scan_total_lines st"
  "scan_wrote_any_line (push_selected_byte b B st) = scan_wrote_any_line st"
  "scan_current_line_has_bytes (push_selected_byte b B st) = scan_current_line_has_bytes st"
  "scan_selected_line_started (push_selected_byte b B st) = scan_selected_line_started st"
  "scan_pending_selected_cr (push_selected_byte b B st) = scan_pending_selected_cr st"
  by (simp_all add: push_selected_byte_def)

definition selected_at :: "nat \<Rightarrow> nat \<Rightarrow> nat \<Rightarrow> bool" where
  "selected_at s e n \<longleftrightarrow> s \<le> n + 1 \<and> n + 1 \<le> e"

definition selected_lines :: "nat \<Rightarrow> nat \<Rightarrow> nat list list \<Rightarrow> nat list \<Rightarrow> nat list list" where
  "selected_lines s e ls cur = line_window s e (map strip_cr (ls @ (if cur = [] then [] else [cur])))"

text \<open>\<open>ls\<close> are the complete lines read so far and \<open>cur\<close> the bytes after them.\<close>

definition scan_ok :: "nat \<Rightarrow> nat \<Rightarrow> nat \<Rightarrow> nat list list \<Rightarrow> nat list \<Rightarrow> RangeScan \<Rightarrow> bool" where
  "scan_ok s e B ls cur st \<longleftrightarrow>
     scan_total_lines st = length ls \<and> scan_current_line_has_bytes st = (cur \<noteq> []) \<and>
     scan_selected_line_started st = (selected_at s e (length ls) \<and> cur \<noteq> []) \<and>
     scan_pending_selected_cr st = (selected_at s e (length ls) \<and> cur \<noteq> [] \<and> last cur = CR) \<and>
     scan_wrote_any_line st = (selected_lines s e ls cur \<noteq> []) \<and>
     holds_content B (join [LF] (selected_lines s e ls cur)) st"

lemma selected_lines_cur:
  "1 \<le> s \<Longrightarrow> cur \<noteq> [] \<Longrightarrow> selected_lines s e ls cur =
     selected_lines s e ls [] @ (if selected_at s e (length ls) then [strip_cr cur] else [])"
  using line_window_snoc [of s e "map strip_cr ls" "strip_cr cur"]
  by (simp add: selected_lines_def selected_at_def)

lemma selected_lines_end:
  "1 \<le> s \<Longrightarrow> selected_lines s e (ls @ [cur]) [] =
     selected_lines s e ls [] @ (if selected_at s e (length ls) then [strip_cr cur] else [])"
  using line_window_snoc [of s e "map strip_cr ls" "strip_cr cur"]
  by (simp add: selected_lines_def selected_at_def)

lemma current_line_selected_iff:
  "scan_ok s e B ls cur st \<Longrightarrow> length ls < usize_max \<Longrightarrow>
     current_line_selected st s e = selected_at s e (length ls)"
  by (simp add: scan_ok_def current_line_selected_def selected_at_def)

lemma join_snoc': "join [c] (ps @ [p]) = join [c] ps @ (if ps = [] then [] else [c]) @ p"
  by (simp add: join_snoc)

lemma holds_content_cong:
  "scan_range_too_large t = scan_range_too_large st \<Longrightarrow> scan_content t = scan_content st \<Longrightarrow>
     holds_content B out t = holds_content B out st"
  by (simp add: holds_content_def)

text \<open>After \<open>start_selected_line\<close> the current line is the last of the output, empty if it is new.\<close>

lemma start_selected_line_holds:
  assumes ok: "scan_ok s e B ls cur st" and "1 \<le> s" "selected_at s e (length ls)"
  shows "holds_content B (join [LF] (selected_lines s e ls [] @ [strip_cr cur])) (start_selected_line B st)"
proof (cases "cur = []")
  case True
  with ok have "holds_content B (join [LF] (selected_lines s e ls [])) st" by (simp add: scan_ok_def)
  with True ok push_selected_byte_holds [OF this, of LF] show ?thesis
    by (auto simp: start_selected_line_def scan_ok_def join_snoc' strip_cr_def holds_content_def)
next
  case False
  with assms show ?thesis by (simp add: start_selected_line_def scan_ok_def selected_lines_cur)
qed

lemma start_selected_line_same [simp]:
  "scan_total_lines (start_selected_line B st) = scan_total_lines st"
  "scan_current_line_has_bytes (start_selected_line B st) = scan_current_line_has_bytes st"
  "scan_pending_selected_cr (start_selected_line B st) = scan_pending_selected_cr st"
  "scan_selected_line_started (start_selected_line B st)"
  by (simp_all add: start_selected_line_def)

lemma start_selected_line_has_bytes:
  "start_selected_line B (st\<lparr>scan_current_line_has_bytes := v\<rparr>)
     = (start_selected_line B st)\<lparr>scan_current_line_has_bytes := v\<rparr>"
  by (cases st) (simp add: start_selected_line_def push_selected_byte_def)

lemma flush_pending_cr_holds:
  assumes "holds_content B (join [LF] (ps @ [strip_cr cur])) st"
    and "scan_pending_selected_cr st = (cur \<noteq> [] \<and> last cur = CR)"
  shows "holds_content B (join [LF] (ps @ [cur])) (flush_pending_cr B st)"
proof (cases "cur \<noteq> [] \<and> last cur = CR")
  case True
  then have "strip_cr cur @ [CR] = cur" by (metis append_butlast_last_id strip_cr_def)
  then have "join [LF] (ps @ [cur]) = join [LF] (ps @ [strip_cr cur]) @ [CR]"
    by (metis append_assoc join_snoc')
  with True assms push_selected_byte_holds [OF assms(1), of CR] show ?thesis
    by (simp add: flush_pending_cr_def holds_content_def)
next
  case False
  then have "strip_cr cur = cur" by (auto simp: strip_cr_def)
  with False assms show ?thesis by (auto simp: flush_pending_cr_def)
qed

lemma flush_pending_cr_same [simp]:
  "scan_total_lines (flush_pending_cr B st) = scan_total_lines st"
  "scan_wrote_any_line (flush_pending_cr B st) = scan_wrote_any_line st"
  "scan_current_line_has_bytes (flush_pending_cr B st) = scan_current_line_has_bytes st"
  "scan_selected_line_started (flush_pending_cr B st) = scan_selected_line_started st"
  "\<not> scan_pending_selected_cr (flush_pending_cr B st)"
  by (simp_all add: flush_pending_cr_def)

lemma start_selected_line_wrote:
  "scan_ok s e B ls cur st \<Longrightarrow> 1 \<le> s \<Longrightarrow> scan_wrote_any_line (start_selected_line B st)"
  by (auto simp: start_selected_line_def scan_ok_def selected_lines_cur)

lemma scan_byte_lf:
  assumes ok: "scan_ok s e B ls cur st" and "1 \<le> s" "length ls < usize_max"
  shows "scan_ok s e B (ls @ [cur]) [] (scan_byte s e B LF st)"
proof (cases "selected_at s e (length ls)")
  case True
  note sel = current_line_selected_iff [OF ok assms(3)]
  from True assms start_selected_line_holds [OF ok] start_selected_line_wrote [OF ok] show ?thesis
    by (auto simp: scan_byte_def Let_def sel scan_ok_def selected_lines_end
        holds_content_def)
next
  case False
  note sel = current_line_selected_iff [OF ok assms(3)]
  have "selected_lines s e ls cur = selected_lines s e ls []"
    using False assms(2) by (cases "cur = []") (auto simp: selected_lines_cur)
  with False assms show ?thesis
    by (auto simp: scan_byte_def Let_def sel scan_ok_def selected_lines_end
        holds_content_def)
qed

lemma scan_byte_other:
  assumes ok: "scan_ok s e B ls cur st" and s: "1 \<le> s" and "length ls < usize_max" and b: "b \<noteq> LF"
  shows "scan_ok s e B ls (cur @ [b]) (scan_byte s e B b st)"
proof (cases "selected_at s e (length ls)")
  case True
  note sel = current_line_selected_iff [OF ok assms(3)]
  define st1 where "st1 = start_selected_line B (st\<lparr>scan_current_line_has_bytes := True\<rparr>)"
  define st2 where "st2 = flush_pending_cr B st1"
  have st1: "holds_content B (join [LF] (selected_lines s e ls [] @ [strip_cr cur])) st1"
    using start_selected_line_holds [OF ok s True]
    by (simp add: st1_def start_selected_line_has_bytes holds_content_def)
  have p1: "scan_pending_selected_cr st1 = (cur \<noteq> [] \<and> last cur = CR)"
    using ok True by (simp add: st1_def scan_ok_def)
  have st2: "holds_content B (join [LF] (selected_lines s e ls [] @ [cur])) st2"
    unfolding st2_def by (rule flush_pending_cr_holds [OF st1 p1])
  have wrote: "scan_wrote_any_line st2"
    using start_selected_line_wrote [OF ok s] by (simp add: st2_def st1_def start_selected_line_has_bytes)
  have byte: "scan_byte s e B b st =
      (if b = CR then st2\<lparr>scan_pending_selected_cr := True\<rparr> else push_selected_byte b B st2)"
    using True assms by (simp add: scan_byte_def Let_def sel st1_def st2_def)
  have lines: "selected_lines s e ls (cur @ [b])
      = selected_lines s e ls [] @ [if b = CR then cur else cur @ [b]]"
    using s True by (simp add: selected_lines_cur strip_cr_def)
  have "holds_content B (join [LF] (selected_lines s e ls (cur @ [b]))) (scan_byte s e B b st)"
    using st2 push_selected_byte_holds [OF st2, of b] unfolding byte lines
    by (simp add: join_snoc' holds_content_def)
  moreover have "scan_total_lines st2 = length ls" using ok by (simp add: st2_def st1_def scan_ok_def)
  ultimately show ?thesis
    using True wrote by (simp add: scan_ok_def lines byte st2_def st1_def)
next
  case False
  note sel = current_line_selected_iff [OF ok assms(3)]
  have "selected_lines s e ls cur = selected_lines s e ls (cur @ [b])"
    using False s by (cases "cur = []") (auto simp: selected_lines_cur)
  with False assms show ?thesis
    by (simp add: scan_byte_def Let_def sel scan_ok_def holds_content_def)
qed

lemma split_char_snoc_sep: "split_char c (p @ [c]) = split_char c p @ [[]]"
  by (simp add: split_by_append_sep)

lemma split_char_snoc:
  "x \<noteq> c \<Longrightarrow> split_char c (p @ [x]) = butlast (split_char c p) @ [last (split_char c p) @ [x]]"
proof (induction p)
  case (Cons y p)
  then show ?case by (cases "split_char c p"; cases "split_char c (p @ [x])") (auto split: if_splits)
qed simp

lemma scan_bytes_ok:
  assumes "1 \<le> s" "length bs < usize_max"
  shows "scan_ok s e B (butlast (split_char LF bs)) (last (split_char LF bs))
           (fold (scan_byte s e B) bs RangeScan_new)"
  using assms(2)
proof (induction bs rule: rev_induct)
  case Nil
  then show ?case
    by (simp add: scan_ok_def RangeScan_new_def holds_content_def selected_lines_def)
next
  case (snoc b bs)
  have "length (butlast (split_char LF bs)) \<le> length bs" by (simp add: length_split_by)
  then have "length (butlast (split_char LF bs)) < usize_max" using snoc.prems by simp
  moreover have "scan_ok s e B (butlast (split_char LF bs)) (last (split_char LF bs))
      (fold (scan_byte s e B) bs RangeScan_new)" using snoc by simp
  ultimately show ?case
    using scan_byte_lf scan_byte_other [where b = b] assms(1)
    by (cases "b = LF") (fastforce simp: split_char_snoc_sep split_char_snoc)+
qed

section \<open>Reading a range\<close>

text \<open>The lines of a file: ended by a line feed or by the end of the file, without one carriage return.\<close>

definition file_lines :: "nat list \<Rightarrow> nat list list" where
  "file_lines bs = (let ps = split_char LF bs in
     map strip_cr (butlast ps @ (if last ps = [] then [] else [last ps])))"

lemma run_loop_chunks:
  assumes "carry_ok carry" "[] \<notin> set chunks"
  shows "case run_loop (map Inr chunks @ [Inr []]) s e B hashed carry st of
     Inl err \<Rightarrow> err = InvalidUtf8 \<and> \<not> valid_utf8 (carry @ concat chunks)
   | Inr (h, c, st') \<Rightarrow> h = hashed @ concat chunks \<and> st' = fold (scan_byte s e B) (concat chunks) st
       \<and> carry_ok c \<and> valid_utf8 (carry @ concat chunks) = valid_utf8 c"
  using assms
proof (induction chunks arbitrary: hashed carry st)
  case (Cons chunk chunks)
  note v = validate_chunk_cases [OF Cons.prems(1), where bs = chunk and r = "concat chunks"]
  show ?case
  proof (cases "validate_chunk carry chunk")
    case (Inl err)
    with v Cons.prems show ?thesis by auto
  next
    case (Inr c)
    with v Cons.prems Cons.IH [of c "hashed @ chunk" "scan_chunk chunk s e B st"] show ?thesis
      by (auto simp: scan_chunk_def split: sum.splits)
  qed
qed simp

lemma EffectiveRange_new_bounds:
  "1 \<le> range_start_line (EffectiveRange_new a b)"
  "1 \<le> range_limit (EffectiveRange_new a b)" "range_limit (EffectiveRange_new a b) \<le> FILE_READ_MAX_LIMIT"
  by (simp_all add: EffectiveRange_new_def FILE_READ_MAX_LIMIT_def)

lemma length_file_lines: "length (file_lines bs) \<le> length bs"
proof (cases "last (split_char LF bs) = []")
  case False
  have "bs \<noteq> []" using False by auto
  moreover have "length (filter (\<lambda>x. x = LF) bs) < length bs"
  proof -
    have "last (split_char LF bs) \<in> set (split_char LF bs)" by simp
    with False obtain x where "x \<in> set (last (split_char LF bs))" by (meson last_in_set)
    then have "x \<in> set bs" "x \<noteq> LF" using split_by_chars split_by_parts last_in_set split_by_not_Nil by blast+
    then show ?thesis by (rule length_filter_less)
  qed
  ultimately show ?thesis using False by (simp add: file_lines_def Let_def length_split_by)
qed (simp add: file_lines_def Let_def length_split_by)

text \<open>The window of the request, also when the end line saturates.\<close>

lemma line_window_limit:
  assumes "length ls < usize_max" "1 \<le> range_start_line rng" "1 \<le> range_limit rng"
  shows "line_window (range_start_line rng) (range_end_line rng) ls
           = take (range_limit rng) (drop (range_start_line rng - 1) ls)"
proof (cases "range_start_line rng + range_limit rng \<le> usize_max")
  case True
  with assms show ?thesis by (simp add: line_window_def range_end_line_def)
next
  case False
  then have "range_end_line rng = usize_max - 1" by (simp add: range_end_line_def sat_add_def)
  with False assms show ?thesis by (simp add: line_window_def)
qed

lemma valid_utf8_join: "valid_utf8 (join [LF] ps) \<longleftrightarrow> list_all valid_utf8 ps"
  by (induction "[LF]" ps rule: join.induct) (auto simp: valid_utf8_split)

lemma valid_utf8_strip_cr: "valid_utf8 l \<Longrightarrow> valid_utf8 (strip_cr l)"
  using valid_utf8_split [of CR "butlast l" "[]"]
  by (auto simp: strip_cr_def) (metis append_butlast_last_id)

lemma valid_utf8_file_lines: "valid_utf8 bs \<Longrightarrow> list_all valid_utf8 (file_lines bs)"
proof -
  assume "valid_utf8 bs"
  then have "list_all valid_utf8 (split_char LF bs)"
    using valid_utf8_join [of "split_char LF bs"] by (simp add: join_split_char)
  then show ?thesis
    by (auto simp: file_lines_def Let_def list_all_iff intro!: valid_utf8_strip_cr
        dest: in_set_butlastD)
qed

lemma file_lines_no_lf: "l \<in> set (file_lines bs) \<Longrightarrow> LF \<notin> set l"
proof -
  have "LF \<notin> set (strip_cr p)" if "p \<in> set (split_char LF bs)" for p
    using split_by_parts [OF that, of LF] by (auto simp: strip_cr_def dest: in_set_butlastD)
  then show "l \<in> set (file_lines bs) \<Longrightarrow> LF \<notin> set l"
    by (auto simp: file_lines_def Let_def dest: in_set_butlastD split: if_splits)
qed

lemma count_returned_lines_window:
  assumes "1 \<le> s" "1 \<le> k" "\<And>l. l \<in> set ls \<Longrightarrow> LF \<notin> set l"
  shows "count_returned_lines (join [LF] (take k (drop (s - 1) ls))) (length ls) s = length (take k (drop (s - 1) ls))"
proof (cases "length ls < s")
  case False
  let ?w = "take k (drop (s - 1) ls)"
  have w: "?w \<noteq> []" using False assms by auto
  have "split_char LF (join [LF] ?w) = ?w"
    using w assms(3) by (intro split_char_join) (auto dest: in_set_takeD in_set_dropD)
  moreover from this have "join [LF] ?w = [] \<Longrightarrow> length ?w = 1" by (metis length_split_by filter.simps(1) list.size(3) One_nat_def)
  ultimately show ?thesis using False assms by (auto simp: count_returned_lines_def)
qed (use assms in \<open>auto simp: count_returned_lines_def\<close>)

lemma scan_run_chunks:
  fixes s e :: nat
  assumes "[] \<notin> set chunks" "length (concat chunks) < usize_max" "1 \<le> s"
  defines "out \<equiv> join [LF] (line_window s e (file_lines (concat chunks)))"
  shows "case scan_run sha (map Inr chunks @ [Inr []]) s e B of
     Inl err \<Rightarrow> \<not> valid_utf8 (concat chunks) \<and> err = InvalidUtf8 \<or>
       valid_utf8 (concat chunks) \<and> B < length out \<and> err = RangeTooLarge
   | Inr (d, st) \<Rightarrow> valid_utf8 (concat chunks) \<and> length out \<le> B \<and> d = sha (concat chunks) \<and>
       scan_content st = out \<and> scan_total_lines st = length (file_lines (concat chunks))"
proof -
  let ?bs = "concat chunks"
  let ?ls = "butlast (split_char LF ?bs)" and ?cur = "last (split_char LF ?bs)"
  define st where "st = fold (scan_byte s e B) ?bs RangeScan_new"
  have lines: "selected_lines s e ?ls ?cur = line_window s e (file_lines ?bs)"
    by (simp add: selected_lines_def file_lines_def Let_def)
  have len: "length (file_lines ?bs) = length ?ls + (if ?cur = [] then 0 else 1)"
    by (simp add: file_lines_def Let_def)
  have "scan_ok s e B ?ls ?cur st" unfolding st_def by (rule scan_bytes_ok) (use assms in auto)
  then have st: "scan_total_lines st = length ?ls" "scan_current_line_has_bytes st = (?cur \<noteq> [])"
    "scan_range_too_large st = (B < length out)" "scan_content st = (if B < length out then [] else out)"
    by (simp_all only: scan_ok_def lines holds_content_def out_def [symmetric])
  have tot: "?cur \<noteq> [] \<Longrightarrow> sat_add (length ?ls) 1 = length (file_lines ?bs)"
    using len length_file_lines [of ?bs] assms(2) by simp
  have "carry_ok []" by (simp add: carry_ok_def)
  note loop = run_loop_chunks [OF this assms(1), where s = s and e = e and B = B and hashed = "[]" and st = RangeScan_new, unfolded st_def [symmetric]]
  show ?thesis
  proof (cases "run_loop (map Inr chunks @ [Inr []]) s e B [] [] RangeScan_new")
    case (Inl err)
    with loop show ?thesis by (simp add: scan_run_def)
  next
    case (Inr r)
    obtain h c st' where r: "r = (h, c, st')" by (cases r)
    with loop Inr have c: "h = ?bs" "st' = st" "carry_ok c" "valid_utf8 ?bs = valid_utf8 c" by simp_all
    show ?thesis
    proof (cases "c = []")
      case True
      then show ?thesis using Inr r c st tot len
        by (cases "?cur = []") (simp_all add: scan_run_def validator_finish_def Let_def)
    next
      case False
      then show ?thesis using Inr r c carry_invalid [of c] by (simp add: scan_run_def validator_finish_def)
    qed
  qed
qed

text \<open>C4: The streaming reader is exact, however the file is cut into chunks: when every read
  succeeds, it reports \<open>InvalidUtf8\<close> exactly if the whole file is not UTF-8; otherwise it returns the
  requested window of the lines of the file joined by line feeds, refused as \<open>RangeTooLarge\<close> exactly if it
  exceeds the clamped budget, with the digest of the whole file, the exact number of lines, the
  number of returned lines (a selected blank line counted) and the cursor of the next page.\<close>

theorem read_range_is_exact:
  assumes "[] \<notin> set chunks" "length (concat chunks) < usize_max"
  shows "read_range_from_with_budget sha (map Inr chunks @ [Inr []]) (EffectiveRange_new a b) budget =
    (let start = max (case a of None \<Rightarrow> 1 | Some n \<Rightarrow> n) 1;
         limit = min (max (case b of None \<Rightarrow> 2000 | Some n \<Rightarrow> n) 1) 2000;
         ls = file_lines (concat chunks);
         window = take limit (drop (start - 1) ls);
         content = join [LF] window;
         final = start + length window - 1;
         further = (window \<noteq> [] \<and> final < length ls)
     in if \<not> valid_utf8 (concat chunks) then Inl InvalidUtf8
        else if min budget (192 * 1024) < length content then Inl RangeTooLarge
        else Inr \<lparr>frr_content = content, frr_sha256 = sha (concat chunks), frr_total_lines = length ls,
               frr_start_line = start, frr_limit = limit, frr_returned_lines = length window,
               frr_end_line = (if window = [] then None else Some final), frr_has_more = further,
               frr_next_start_line = (if further then Some (final + 1) else None)\<rparr>)"
proof -
  let ?bs = "concat chunks" and ?rng = "EffectiveRange_new a b"
  define s k where "s = range_start_line ?rng" and "k = range_limit ?rng"
  define w where "w = take k (drop (s - 1) (file_lines ?bs))"
  have sk: "1 \<le> s" "1 \<le> k" using EffectiveRange_new_bounds [of a b] by (simp_all add: s_def k_def)
  have s: "s = max (case a of None \<Rightarrow> 1 | Some n \<Rightarrow> n) 1"
    and k: "k = min (max (case b of None \<Rightarrow> 2000 | Some n \<Rightarrow> n) 1) 2000"
    by (simp_all add: s_def k_def EffectiveRange_new_def FILE_READ_DEFAULT_LIMIT_def FILE_READ_MAX_LIMIT_def
        split: option.splits)
  have "length (file_lines ?bs) < usize_max" using length_file_lines [of ?bs] assms(2) by simp
  then have win: "line_window s (range_end_line ?rng) (file_lines ?bs) = w"
    using line_window_limit [of "file_lines ?bs" ?rng] sk by (simp add: s_def k_def w_def)
  have count: "count_returned_lines (join [LF] w) (length (file_lines ?bs)) s = length w"
    unfolding w_def by (rule count_returned_lines_window) (use sk file_lines_no_lf in auto)
  have valid: "from_utf8 (join [LF] w) = Utf8Valid" if "valid_utf8 ?bs"
    using valid_utf8_file_lines [OF that] unfolding from_utf8_valid_iff valid_utf8_join
    by (auto simp: list_all_iff w_def dest: in_set_takeD in_set_dropD)
  note run = scan_run_chunks [OF assms sk(1), where sha = sha and e = "range_end_line ?rng"
    and B = "clamp_budget budget", unfolded win]
  have "read_range_from_with_budget sha (map Inr chunks @ [Inr []]) ?rng budget =
     (if \<not> valid_utf8 ?bs then Inl InvalidUtf8
      else if clamp_budget budget < length (join [LF] w) then Inl RangeTooLarge
      else Inr (FileReadRange_new (join [LF] w) (sha ?bs) (length (file_lines ?bs)) ?rng))"
    using run valid
    by (auto simp: read_range_from_with_budget_def s_def [symmetric] split: sum.splits prod.splits)
  then show ?thesis
    unfolding s [symmetric] k [symmetric] w_def [symmetric] Let_def
    using count by (auto simp: FileReadRange_new_def Let_def s_def [symmetric] k_def [symmetric] clamp_budget_def
        MAX_RANGE_CONTENT_BYTES_def w_def [symmetric])
qed

theorem read_range_is_exact_witness:
  "read_range_from_with_budget (\<lambda>bs. lit ''digest'') (map Inr [[97, CR], [LF, 98, LF, 195], [169, LF, LF]] @ [Inr []])
      (EffectiveRange_new (Some 2) (Some 2)) 100 =
    Inr \<lparr>frr_content = [98, LF, 195, 169], frr_sha256 = lit ''digest'', frr_total_lines = 4,
      frr_start_line = 2, frr_limit = 2, frr_returned_lines = 2, frr_end_line = Some 3, frr_has_more = True,
      frr_next_start_line = Some 4\<rparr>"
proof -
  have ls: "file_lines (concat [[97, CR], [LF, 98, LF, 195], [169, LF, LF]]) = [[97], [98], [195, 169], []]"
    by (simp add: file_lines_def strip_cr_def)
  have v: "valid_utf8 (concat [[97, CR], [LF, 98, LF, 195], [169, LF, LF]])"
    by (simp add: utf8_Cons lead_width_def utf8_sequence_width_def continues_def second_ok_def)
  show ?thesis
    by (subst read_range_is_exact) (simp_all only: ls v, simp_all add: usize_max_def)
qed

end
