(* ===== verification/Shell_Quoting.thy ===== *)
theory Shell_Quoting
  imports Rust_Prelude
begin

text \<open>
  Quoting of values for shells: the server's \<open>shell_escape_simple\<close>
  (\<open>crates/webcodex-core/src/shell_quote.rs\<close>), the command-line tool's \<open>shell_quote_arg\<close> and
  \<open>shell_command\<close> (\<open>crates/webcodex-cli\<close>), the Runner's \<open>shell_quote\<close> for POSIX shells and
  PowerShell and the one of its SSH transport (\<open>crates/webcodex-runner\<close>), and the wrapper that
  sends an authored command to an explicit shell (\<open>src/tool_runtime/helpers.rs\<close>) within the wire
  limit of \<open>runner_protocol.rs\<close>.

  The reference is a tokeniser for the part of the POSIX shell grammar that has no expansion: quotes,
  backslash and blanks; any other special character is refused.
\<close>

section \<open>The quoting functions\<close>

abbreviation (input) APOS :: rchar where "APOS \<equiv> 39"
abbreviation (input) BSL :: rchar where "BSL \<equiv> 92"
abbreviation (input) DQUOTE :: rchar where "DQUOTE \<equiv> 34"

fun escape_loop :: "rstr \<Rightarrow> rstr \<Rightarrow> rstr" where
  "escape_loop out [] = out"
| "escape_loop out (c # cs) = escape_loop (out @ (if c = APOS then [APOS, BSL, APOS, APOS] else [c])) cs"

definition shell_escape_simple :: "rstr \<Rightarrow> rstr" where
  "shell_escape_simple v = escape_loop [APOS] v @ [APOS]"

text \<open>\<open>value.replace('\'', to)\<close>.\<close>

definition replace_apos :: "rstr \<Rightarrow> rstr \<Rightarrow> rstr" where
  "replace_apos to v = concat (map (\<lambda>c. if c = APOS then to else [c]) v)"

definition shell_safe_byte :: "rchar \<Rightarrow> bool" where
  "shell_safe_byte c \<longleftrightarrow> is_ascii_alphanumeric c \<or> c \<in> set (lit ''_@%+=:,./-'')"

definition shell_quote_arg :: "rstr \<Rightarrow> rstr" where
  "shell_quote_arg v =
     (if v \<noteq> [] \<and> list_all shell_safe_byte v then v
      else [APOS] @ replace_apos [APOS, BSL, APOS, APOS] v @ [APOS])"

definition shell_command :: "rstr list \<Rightarrow> rstr" where
  "shell_command args = join [32] (map shell_quote_arg args)"

definition shell_quote :: "rstr \<Rightarrow> rstr" where
  "shell_quote v = [APOS] @ replace_apos [APOS, BSL, APOS, APOS] v @ [APOS]"

definition shell_quote_powershell :: "rstr \<Rightarrow> rstr" where
  "shell_quote_powershell v = [APOS] @ replace_apos [APOS, APOS] v @ [APOS]"

text \<open>The SSH transport closes the quote and shows the apostrophe in double quotes.\<close>

fun ssh_quote_parts :: "rstr \<Rightarrow> nat \<Rightarrow> rstr list \<Rightarrow> rstr" where
  "ssh_quote_parts escaped index [] = escaped"
| "ssh_quote_parts escaped index (part # parts) =
     ssh_quote_parts ((if 0 < index then escaped @ [APOS, DQUOTE, APOS, DQUOTE, APOS] else escaped) @ part) (index + 1) parts"

definition ssh_shell_quote :: "rstr \<Rightarrow> rstr" where
  "ssh_shell_quote v = ssh_quote_parts [APOS] 0 (split_char APOS v) @ [APOS]"

definition remote_script :: "rstr option \<Rightarrow> rstr \<Rightarrow> rstr" where
  "remote_script cwd command =
     (case cwd of
        Some d \<Rightarrow> lit ''if ! cd '' @ ssh_shell_quote d @ lit ''; then printf >&2 '' @ [APOS] @ lit ''%s'' @ [BSL] @ lit ''n'' @ [APOS, 32, APOS]
            @ lit ''webcodex: remote cwd is unavailable'' @ [APOS] @ lit ''; exit 125; fi'' @ [LF] @ command
      | None \<Rightarrow> command)"

definition windows_direct_program_frame :: "rstr \<Rightarrow> rstr" where
  "windows_direct_program_frame program = lit ''eval '' @ ssh_shell_quote program"

section \<open>Dispatch to an explicit shell\<close>

definition RAW_SHELL_COMMAND_MAX_BYTES :: nat where "RAW_SHELL_COMMAND_MAX_BYTES = 16000"
definition RAW_SHELL_WIRE_MAX_BYTES :: nat where "RAW_SHELL_WIRE_MAX_BYTES = 64 * 1024"

datatype ExecutionShell = ShellSh | ShellBash

primrec ExecutionShell_as_str :: "ExecutionShell \<Rightarrow> rstr" where
  "ExecutionShell_as_str ShellSh = lit ''sh''"
| "ExecutionShell_as_str ShellBash = lit ''bash''"

definition validate_raw_shell_command_length :: "rstr \<Rightarrow> rstr + unit" where
  "validate_raw_shell_command_length command =
     (if RAW_SHELL_COMMAND_MAX_BYTES < str_len command
      then Inl (lit ''raw shell command exceeds the '' @ show_nat RAW_SHELL_COMMAND_MAX_BYTES @
        lit ''-byte UTF-8 limit; use run_script for larger program text or stdin/files/artifacts for large data'')
      else Inr ())"

definition explicit_shell_dispatch_command :: "rstr \<Rightarrow> rstr \<Rightarrow> rstr + rstr" where
  "explicit_shell_dispatch_command command shell =
     (case validate_raw_shell_command_length command of
        Inl e \<Rightarrow> Inl e
      | Inr _ \<Rightarrow>
          let dispatched = lit ''exec '' @ shell @ lit '' -c '' @ shell_escape_simple command in
          if RAW_SHELL_WIRE_MAX_BYTES < str_len dispatched
          then Inl (lit ''explicit shell wrapper exceeds the '' @ show_nat RAW_SHELL_WIRE_MAX_BYTES @
            lit ''-byte Runner wire limit; use run_script for large or quote-dense shell program text'')
          else Inr dispatched)"

definition validate_raw_shell_wire_command :: "rstr \<Rightarrow> rstr + unit" where
  "validate_raw_shell_wire_command command =
     (if trim command = [] then Inl (lit ''command cannot be empty'')
      else if RAW_SHELL_WIRE_MAX_BYTES < str_len command
        then Inl (lit ''command is too long for the Runner wire envelope; maximum is '' @ show_nat RAW_SHELL_WIRE_MAX_BYTES @ lit '' bytes'')
      else if 0 \<in> set command then Inl (lit ''command cannot contain NUL bytes'')
      else Inr ())"

section \<open>The reference tokeniser\<close>

text \<open>Inside double quotes an expansion or a backslash is refused; outside quotes every character that
  is neither safe nor a blank, a quote or a backslash.\<close>

datatype quoting = Bare | Single | Double

definition extend :: "rstr option \<Rightarrow> rstr \<Rightarrow> rstr option" where
  "extend cur s = Some ((case cur of None \<Rightarrow> [] | Some w \<Rightarrow> w) @ s)"

definition finish :: "rstr option \<Rightarrow> rstr list" where
  "finish cur = (case cur of None \<Rightarrow> [] | Some w \<Rightarrow> [w])"

fun posix_scan :: "quoting \<Rightarrow> rstr option \<Rightarrow> rstr \<Rightarrow> rstr list option" where
  "posix_scan Bare cur [] = Some (finish cur)"
| "posix_scan Single cur [] = None"
| "posix_scan Double cur [] = None"
| "posix_scan Single cur (c # cs) =
     (if c = APOS then posix_scan Bare cur cs else posix_scan Single (extend cur [c]) cs)"
| "posix_scan Double cur (c # cs) =
     (if c = DQUOTE then posix_scan Bare cur cs
      else if c = BSL \<or> c = 36 \<or> c = 96 then None
      else posix_scan Double (extend cur [c]) cs)"
| "posix_scan Bare cur (c # cs) =
     (if c = APOS then posix_scan Single (extend cur []) cs
      else if c = DQUOTE then posix_scan Double (extend cur []) cs
      else if c = BSL then (case cs of [] \<Rightarrow> None | d # ds \<Rightarrow> if d = LF then None else posix_scan Bare (extend cur [d]) ds)
      else if c = 32 \<or> c = 9 then map_option (\<lambda>ws. finish cur @ ws) (posix_scan Bare None cs)
      else if shell_safe_byte c then posix_scan Bare (extend cur [c]) cs
      else None)"

definition posix_words :: "rstr \<Rightarrow> rstr list option" where
  "posix_words s = posix_scan Bare None s"

text \<open>A single-quoted PowerShell string: a doubled apostrophe stands for one.\<close>

fun powershell_scan :: "rstr \<Rightarrow> rstr option" where
  "powershell_scan [] = None"
| "powershell_scan (c # cs) =
     (if c = APOS then (case cs of [] \<Rightarrow> Some [] | d # ds \<Rightarrow> if d = APOS then map_option (Cons APOS) (powershell_scan ds) else None)
      else map_option (Cons c) (powershell_scan cs))"

definition powershell_string :: "rstr \<Rightarrow> rstr option" where
  "powershell_string s = (case s of [] \<Rightarrow> None | c # cs \<Rightarrow> if c = APOS then powershell_scan cs else None)"

section \<open>Round trips\<close>

lemma extend_extend [simp]: "extend (extend cur a) b = extend cur (a @ b)"
  by (simp add: extend_def)

lemma escape_loop_replace: "escape_loop out v = out @ replace_apos [APOS, BSL, APOS, APOS] v"
  by (induction out v rule: escape_loop.induct) (auto simp: replace_apos_def)

lemma shell_escape_simple_quote: "shell_escape_simple v = shell_quote v"
  by (simp add: shell_escape_simple_def escape_loop_replace shell_quote_def)

lemma replace_apos_simps [simp]:
  "replace_apos to [] = []" "replace_apos to (c # v) = (if c = APOS then to else [c]) @ replace_apos to v"
  by (simp_all add: replace_apos_def)

lemma scan_single_quoted:
  "posix_scan Single cur (replace_apos [APOS, BSL, APOS, APOS] v @ [APOS] @ rest) = posix_scan Bare (extend cur v) rest"
  if "cur \<noteq> None"
  using that
proof (induction v arbitrary: cur)
  case Nil
  then show ?case by (auto simp: extend_def)
next
  case (Cons c v)
  then show ?case using Cons.IH [of "extend cur [c]"] by (auto simp: extend_def)
qed

lemma scan_quote: "posix_scan Bare cur (shell_quote v @ rest) = posix_scan Bare (extend cur v) rest"
  using scan_single_quoted [of "extend cur []" v rest] by (simp add: shell_quote_def extend_def)

lemma scan_safe: "list_all shell_safe_byte v \<Longrightarrow> v \<noteq> [] \<Longrightarrow> posix_scan Bare cur (v @ rest) = posix_scan Bare (extend cur v) rest"
proof (induction v arbitrary: cur)
  case (Cons c v)
  from Cons.prems have c: "shell_safe_byte c" by simp
  then have "c \<noteq> APOS" "c \<noteq> DQUOTE" "c \<noteq> BSL" "c \<noteq> 32" "c \<noteq> 9"
    by (auto simp: shell_safe_byte_def is_ascii_alphanumeric_def is_ascii_digit_def lit_def)
  with c have step: "posix_scan Bare cur ((c # v) @ rest) = posix_scan Bare (extend cur [c]) (v @ rest)" by simp
  show ?case
  proof (cases "v = []")
    case False
    with Cons.IH [of "extend cur [c]"] Cons.prems step show ?thesis by simp
  qed (use step in simp)
qed simp

lemma scan_quote_arg: "posix_scan Bare cur (shell_quote_arg v @ rest) = posix_scan Bare (extend cur v) rest"
  using scan_quote [of cur v rest] scan_safe [of v cur rest] by (simp add: shell_quote_arg_def shell_quote_def)

lemma scan_blank: "posix_scan Bare cur (32 # rest) = map_option (\<lambda>ws. finish cur @ ws) (posix_words rest)"
  by (simp add: posix_words_def)

lemma extend_None [simp]: "extend None v = Some v" and finish_Some [simp]: "finish (Some v) = [v]"
  by (simp_all add: extend_def finish_def)

text \<open>The contract of a quoting function: from the start of a word the tokeniser reads the quoted value
  back, whatever follows. Lists of quoted values are then read back as they were.\<close>

locale posix_quoting =
  fixes quote :: "rstr \<Rightarrow> rstr"
  assumes scan_quoted: "posix_scan Bare None (quote v @ rest) = posix_scan Bare (Some v) rest"
begin

lemma words_single: "posix_words (quote v) = Some [v]"
  using scan_quoted [of v "[]"] by (simp add: posix_words_def)

lemma words_Cons: "posix_words (quote v @ 32 # rest) = map_option (Cons v) (posix_words rest)"
  using scan_quoted [of v "32 # rest"] by (cases "posix_words rest") (simp_all add: posix_words_def)

lemma words_join: "posix_words (join [32] (map quote args)) = Some args"
proof (induction args rule: induct_list012)
  case (3 v w vs)
  then show ?case using words_Cons [of v "join [32] (map quote (w # vs))"] by simp
qed (simp_all add: words_single, simp add: posix_words_def finish_def)

end

interpretation cli: posix_quoting shell_quote_arg
  by unfold_locales (simp add: scan_quote_arg)

interpretation runner: posix_quoting shell_quote
  by unfold_locales (simp add: scan_quote)

definition ssh_rest :: "rstr list \<Rightarrow> rstr" where
  "ssh_rest parts = concat (map (\<lambda>p. [APOS, DQUOTE, APOS, DQUOTE, APOS] @ p) parts)"

lemma ssh_quote_parts_rest: "0 < i \<Longrightarrow> ssh_quote_parts e i parts = e @ ssh_rest parts"
  by (induction e i parts rule: ssh_quote_parts.induct) (auto simp: ssh_rest_def)

lemma scan_single_part:
  "APOS \<notin> set p \<Longrightarrow> posix_scan Single (Some w) (p @ rest) = posix_scan Single (Some (w @ p)) rest"
  by (induction p arbitrary: w) (auto simp: extend_def)

lemma join_rest: "join [APOS] (p # parts) = p @ concat (map (Cons APOS) parts)"
  by (induction parts arbitrary: p) auto

lemma scan_ssh_rest:
  "(\<And>p. p \<in> set parts \<Longrightarrow> APOS \<notin> set p) \<Longrightarrow>
   posix_scan Single (Some w) (ssh_rest parts @ [APOS] @ rest)
     = posix_scan Bare (Some (w @ concat (map (Cons APOS) parts))) rest"
proof (induction parts arbitrary: w)
  case (Cons p parts)
  have "posix_scan Single (Some w) (ssh_rest (p # parts) @ [APOS] @ rest)
      = posix_scan Single (Some (w @ [APOS])) (p @ ssh_rest parts @ [APOS] @ rest)"
    by (simp add: ssh_rest_def extend_def)
  also have "\<dots> = posix_scan Single (Some (w @ APOS # p)) (ssh_rest parts @ [APOS] @ rest)"
    using Cons.prems [of p] scan_single_part [of p "w @ [APOS]"] by simp
  finally show ?case using Cons by simp
qed (simp add: ssh_rest_def)

lemma scan_ssh_quote: "posix_scan Bare None (ssh_shell_quote v @ rest) = posix_scan Bare (Some v) rest"
proof -
  obtain p parts where sp: "split_char APOS v = p # parts" by (cases "split_char APOS v") auto
  have clean: "APOS \<notin> set q" if "q \<in> set (p # parts)" for q
    using split_by_parts [of q "\<lambda>x. x = APOS" v] that sp by auto
  have v: "v = p @ concat (map (Cons APOS) parts)" using join_split_char [of APOS v] sp by (simp add: join_rest)
  have "posix_scan Bare None (ssh_shell_quote v @ rest)
      = posix_scan Single (Some []) (p @ ssh_rest parts @ [APOS] @ rest)"
    by (simp add: ssh_shell_quote_def sp ssh_quote_parts_rest)
  also have "\<dots> = posix_scan Single (Some p) (ssh_rest parts @ [APOS] @ rest)"
    using scan_single_part [of p "[]"] clean by simp
  also have "\<dots> = posix_scan Bare (Some v) rest" using scan_ssh_rest [of parts p rest] clean v by simp
  finally show ?thesis .
qed

interpretation ssh: posix_quoting ssh_shell_quote
  by unfold_locales (rule scan_ssh_quote)

lemma powershell_round_trip: "powershell_string (shell_quote_powershell v) = Some v"
proof -
  have "powershell_scan (replace_apos [APOS, APOS] v @ [APOS]) = Some v" by (induction v) auto
  then show ?thesis by (simp add: powershell_string_def shell_quote_powershell_def)
qed


section \<open>The wire limit\<close>

lemma replace_apos_len: "str_len (replace_apos [APOS, BSL, APOS, APOS] v) \<le> 4 * str_len v"
proof (induction v)
  case (Cons c v)
  have "1 \<le> utf8_width c" by (simp add: utf8_width_def)
  with Cons show ?case by (auto simp: utf8_width_def)
qed simp

lemma set_shell_quote: "set (shell_quote v) \<subseteq> set v \<union> {APOS, BSL}"
  by (induction v) (auto simp: shell_quote_def)

lemma shell_quote_len: "str_len (shell_quote v) \<le> 4 * str_len v + 2"
  using replace_apos_len [of v] by (simp add: shell_quote_def utf8_width_def)

lemma dispatch_words:
  "posix_words (lit ''exec '' @ ExecutionShell_as_str shell @ lit '' -c '' @ shell_quote command)
     = Some [lit ''exec'', ExecutionShell_as_str shell, lit ''-c'', command]"
proof -
  have e: "list_all shell_safe_byte (lit ''exec'')" "list_all shell_safe_byte (ExecutionShell_as_str shell)"
    "list_all shell_safe_byte (lit ''-c'')" "ExecutionShell_as_str shell \<noteq> []" "lit ''exec'' \<noteq> []" "lit ''-c'' \<noteq> []"
    by (cases shell; simp add: lit_def shell_safe_byte_def is_ascii_alphanumeric_def)+
  have word: "posix_words (w @ 32 # rest) = map_option (Cons w) (posix_words rest)"
    if "list_all shell_safe_byte w" "w \<noteq> []" for w rest
    using cli.words_Cons [of w rest] that by (simp add: shell_quote_arg_def)
  note q = runner.words_single [of command]
  have eq: "lit ''exec '' @ ExecutionShell_as_str shell @ lit '' -c '' @ shell_quote command
      = lit ''exec'' @ 32 # ExecutionShell_as_str shell @ 32 # lit ''-c'' @ 32 # shell_quote command"
    by (simp add: lit_def)
  show ?thesis unfolding eq using e q by (simp add: word)
qed

text \<open>An authored command within its limit always fits the wire: wrapped for an explicit shell it is
  never refused, whatever it is made of, stays within the 64 KiB envelope that the Runner checks
  again, and the shell reads it as \<open>exec\<close>, its own name, the option and the command as one word.
  Only a NUL character makes the Runner refuse it.\<close>

theorem explicit_shell_dispatch_fits:
  "case explicit_shell_dispatch_command command (ExecutionShell_as_str shell) of
     Inl _ \<Rightarrow> RAW_SHELL_COMMAND_MAX_BYTES < str_len command
   | Inr dispatched \<Rightarrow> str_len command \<le> RAW_SHELL_COMMAND_MAX_BYTES
       \<and> str_len dispatched \<le> RAW_SHELL_WIRE_MAX_BYTES
       \<and> posix_words dispatched = Some [lit ''exec'', ExecutionShell_as_str shell, lit ''-c'', command]
       \<and> (validate_raw_shell_wire_command dispatched = Inr () \<longleftrightarrow> 0 \<notin> set command)"
proof (cases "str_len command \<le> RAW_SHELL_COMMAND_MAX_BYTES")
  case False
  then show ?thesis by (simp add: explicit_shell_dispatch_command_def validate_raw_shell_command_length_def)
next
  case True
  let ?d = "lit ''exec '' @ ExecutionShell_as_str shell @ lit '' -c '' @ shell_quote command"
  have len: "str_len ?d \<le> RAW_SHELL_WIRE_MAX_BYTES"
    using True shell_quote_len [of command]
    by (cases shell) (simp_all add: RAW_SHELL_COMMAND_MAX_BYTES_def RAW_SHELL_WIRE_MAX_BYTES_def lit_def utf8_width_def)
  have nul: "0 \<in> set ?d \<longleftrightarrow> 0 \<in> set command"
  proof -
    have "0 \<in> set (shell_quote command) \<longleftrightarrow> 0 \<in> set command" by (induction command) (auto simp: shell_quote_def)
    then show ?thesis by (cases shell) (auto simp: lit_def)
  qed
  have "trim ?d \<noteq> []"
    using trim_Cons [of 101] by (simp add: lit_def is_whitespace_def)
  with len nul have "validate_raw_shell_wire_command ?d = Inr () \<longleftrightarrow> 0 \<notin> set command"
    by (simp add: validate_raw_shell_wire_command_def)
  moreover have "explicit_shell_dispatch_command command (ExecutionShell_as_str shell) = Inr ?d"
    using True len
    by (simp add: explicit_shell_dispatch_command_def validate_raw_shell_command_length_def shell_escape_simple_quote Let_def)
  ultimately show ?thesis using True len dispatch_words [of shell command] by simp
qed

end
