(* ===== verification/Registry_Validation.thy ===== *)
theory Registry_Validation
  imports Validation_Steps Shell_Quoting "HOL-Library.List_Lexorder"
begin

text \<open>
  The admission checks of the Runner registry (\<open>crates/webcodex-runner-registry/src/validation.rs\<close>)
  and the transport-neutral checks of processes and scripts they share with the Runner
  (\<open>runner_protocol.rs\<close>): identifiers, optional fields, file operations, shell, process and script
  requests, and the normalisation of the provider status a Runner reports. The check of project
  summaries is with the project inventory.

  The checks run in the order of the source and the first failure is the error of the request.
\<close>

section \<open>Identifiers and fields\<close>

definition MAX_CLIENT_ID_LEN :: nat where "MAX_CLIENT_ID_LEN = 80"
definition MAX_RUNNER_FIELD_LEN :: nat where "MAX_RUNNER_FIELD_LEN = 200"
definition MAX_CWD_LEN :: nat where "MAX_CWD_LEN = 1024"
definition MAX_FILE_PATH_LEN :: nat where "MAX_FILE_PATH_LEN = 2048"
definition MAX_FILE_CONTENT_BYTES :: nat where "MAX_FILE_CONTENT_BYTES = 512 * 1024"
definition MAX_STRUCTURED_EDIT_PAYLOAD_BYTES :: nat where "MAX_STRUCTURED_EDIT_PAYLOAD_BYTES = 2 * 1024 * 1024"
definition MAX_ARTIFACT_PAYLOAD_BYTES :: nat where "MAX_ARTIFACT_PAYLOAD_BYTES = 15 * 1024 * 1024"
definition MAX_CHECKPOINT_PAYLOAD_BYTES :: nat where "MAX_CHECKPOINT_PAYLOAD_BYTES = 15 * 1024 * 1024"
definition MAX_RUN_STDIN_BYTES :: nat where "MAX_RUN_STDIN_BYTES = 15 * 1024 * 1024"
definition MAX_SYNC_WAIT_SECS :: nat where "MAX_SYNC_WAIT_SECS = 120"
definition MAX_COMMAND_TIMEOUT_SECS :: nat where "MAX_COMMAND_TIMEOUT_SECS = 24 * 60 * 60"
definition MAX_PROVIDER_TEXT_CHARS :: nat where "MAX_PROVIDER_TEXT_CHARS = 120"
definition MAX_PROVIDER_TOOL_NAMES :: nat where "MAX_PROVIDER_TOOL_NAMES = 64"
definition MAX_AGENT_INSTANCE_ID_LEN :: nat where "MAX_AGENT_INSTANCE_ID_LEN = 128"

definition bounded_text :: "nat \<Rightarrow> rstr \<Rightarrow> bool" where
  "bounded_text n v \<longleftrightarrow> str_len v \<le> n \<and> 0 \<notin> set v"

definition id_char :: "rchar \<Rightarrow> bool" where
  "id_char c \<longleftrightarrow> is_ascii_alphanumeric c \<or> c = 45 \<or> c = 95 \<or> c = 46"

definition validate_id :: "rstr \<Rightarrow> rstr \<Rightarrow> rstr + unit" where
  "validate_id v field =
     (if v = [] \<or> MAX_CLIENT_ID_LEN < str_len v
        then Inl (field @ lit '' must be 1..='' @ show_nat MAX_CLIENT_ID_LEN @ lit '' characters'')
      else if \<not> list_all id_char v
        then Inl (field @ lit '' may only contain ASCII letters, digits, '' @ [39, 45, 39] @ lit '', '' @ [39, 95, 39]
               @ lit '', and '' @ [39, 46, 39])
      else Inr ())"

definition validate_runner_instance_id :: "rstr \<Rightarrow> rstr + unit" where
  "validate_runner_instance_id v =
     (if v = [] then Inl (lit ''agent_instance_id must not be empty'')
      else if MAX_AGENT_INSTANCE_ID_LEN < str_len v
        then Inl (lit ''agent_instance_id is too long; maximum is 128 characters'')
      else if \<not> list_all (\<lambda>c. is_ascii_alphanumeric c \<or> c = 45 \<or> c = 95) v
        then Inl (lit ''agent_instance_id may only contain ASCII letters, digits, '' @ [39, 45, 39] @
               lit '', and '' @ [39, 95, 39])
      else Inr ())"

definition validate_optional_field :: "rstr option \<Rightarrow> rstr \<Rightarrow> rstr + unit" where
  "validate_optional_field v field =
     (case v of
        None \<Rightarrow> Inr ()
      | Some s \<Rightarrow>
          if MAX_RUNNER_FIELD_LEN < length s
            then Inl (field @ lit '' is too long; maximum is '' @ show_nat MAX_RUNNER_FIELD_LEN @ lit '' characters'')
          else if 0 \<in> set s then Inl (field @ lit '' cannot contain NUL bytes'')
          else Inr ())"

definition trim_string :: "rstr option \<Rightarrow> rstr option" where
  "trim_string v = (case v of None \<Rightarrow> None | Some s \<Rightarrow> if trim s = [] then None else Some (trim s))"

definition validate_sha256 :: "rstr option \<Rightarrow> rstr + unit" where
  "validate_sha256 v =
     (case v of
        None \<Rightarrow> Inr ()
      | Some s \<Rightarrow> if str_len s \<noteq> 64 \<or> \<not> list_all is_ascii_hexdigit s
                  then Inl (lit ''expected_sha256 must be 64 hex characters'') else Inr ())"

text \<open>A text that may be present, with a byte limit and no NUL; the two messages are the ones of the source.\<close>

definition check_text :: "rstr \<Rightarrow> rstr \<Rightarrow> nat \<Rightarrow> rstr option \<Rightarrow> rstr + unit" where
  "check_text too_long nul limit v =
     (case v of
        None \<Rightarrow> Inr ()
      | Some s \<Rightarrow> if limit < str_len s then Inl (too_long @ show_nat limit @ lit '' bytes'')
                  else if 0 \<in> set s then Inl nul else Inr ())"

abbreviation check_cwd :: "nat \<Rightarrow> rstr option \<Rightarrow> rstr + unit" where
  "check_cwd \<equiv> check_text (lit ''cwd is too long; maximum is '') (lit ''cwd cannot contain NUL bytes'')"

abbreviation check_stdin :: "nat \<Rightarrow> rstr option \<Rightarrow> rstr + unit" where
  "check_stdin \<equiv> check_text (lit ''stdin is too large; maximum is '') (lit ''stdin cannot contain NUL bytes'')"

text \<open>The \<open>?\<close> operator: go on after a check that succeeds.\<close>

definition and_then :: "'e + unit \<Rightarrow> 'e + 'a \<Rightarrow> 'e + 'a" where
  "and_then r k = (case r of Inl e \<Rightarrow> Inl e | Inr _ \<Rightarrow> k)"

lemma and_then_Inr [simp]: "and_then r k = Inr x \<longleftrightarrow> r = Inr () \<and> k = Inr x"
  by (cases r) (auto simp: and_then_def)

definition reject_if :: "bool \<Rightarrow> rstr \<Rightarrow> rstr + unit" where
  "reject_if b e = (if b then Inl e else Inr ())"

lemma reject_if_Inr [simp]: "reject_if b e = Inr () \<longleftrightarrow> \<not> b"
  by (simp add: reject_if_def)

lemma check_text_Inr [simp]: "check_text m n limit v = Inr () \<longleftrightarrow> opt_all (bounded_text limit) v"
  by (auto simp: check_text_def bounded_text_def split: option.splits)

section \<open>File operations\<close>

record ShellFileOpRequest =
  fop_op :: rstr
  fop_client_id :: rstr
  fop_path :: rstr
  fop_cwd :: "rstr option"
  fop_content :: "rstr option"
  fop_max_bytes :: "nat option"
  fop_old_text :: "rstr option"
  fop_pattern :: "rstr option"
  fop_expected_sha256 :: "rstr option"
  fop_expected_prefix :: "rstr option"
  fop_start_line :: "nat option"
  fop_end_line :: "nat option"
  fop_line :: "nat option"
  fop_create_dirs :: bool
  fop_wait_timeout_secs :: nat

definition structured_edit_ops :: "rstr list" where
  "structured_edit_ops = [lit ''write_project_file'', lit ''apply_patch'']"

definition artifact_ops :: "rstr list" where
  "artifact_ops = [lit ''save_project_artifact'', lit ''read_project_artifact_metadata'', lit ''read_project_artifact'',
     lit ''read_project_artifact_export_chunk'', lit ''artifact_upload_begin'', lit ''artifact_upload_chunk'',
     lit ''artifact_upload_finish'', lit ''artifact_upload_abort'']"

definition checkpoint_ops :: "rstr list" where
  "checkpoint_ops = [lit ''checkpoint_create'', lit ''checkpoint_restore'']"

definition skill_ops :: "rstr list" where
  "skill_ops = [lit ''skill_list_packages'', lit ''skill_read_file'']"

definition file_ops :: "rstr list" where
  "file_ops = [lit ''read'', lit ''write'', lit ''list'', lit ''project_overview'', lit ''delete_project_files'',
     lit ''write_project_file'', lit ''apply_text_edits'', lit ''apply_patch'', lit ''save_project_artifact'',
     lit ''read_project_artifact_metadata'', lit ''read_project_artifact'', lit ''read_project_artifact_export_chunk'',
     lit ''artifact_upload_begin'', lit ''artifact_upload_chunk'', lit ''artifact_upload_finish'',
     lit ''artifact_upload_abort'', lit ''checkpoint_create'', lit ''checkpoint_restore'', lit ''skill_list_packages'',
     lit ''skill_read_file'']"

definition unknown_op_message :: rstr where
  "unknown_op_message = lit ''op must be one of read, write, list, project_overview, write_project_file, apply_text_edits, apply_patch, save_project_artifact, read_project_artifact_metadata, read_project_artifact, read_project_artifact_export_chunk, artifact_upload_begin, artifact_upload_chunk, artifact_upload_finish, artifact_upload_abort, checkpoint_create, checkpoint_restore, skill_list_packages, skill_read_file''"

definition content_limit :: "rstr \<Rightarrow> nat" where
  "content_limit op =
     (if op \<in> set artifact_ops then MAX_ARTIFACT_PAYLOAD_BYTES
      else if op \<in> set checkpoint_ops then MAX_CHECKPOINT_PAYLOAD_BYTES
      else if op \<in> set structured_edit_ops then MAX_STRUCTURED_EDIT_PAYLOAD_BYTES
      else MAX_FILE_CONTENT_BYTES)"

definition content_allowed :: "rstr \<Rightarrow> bool" where
  "content_allowed op \<longleftrightarrow> op \<in> set [lit ''write'', lit ''project_overview'', lit ''apply_text_edits'', lit ''delete_project_files'']
     \<or> op \<in> set structured_edit_ops \<or> op \<in> set artifact_ops \<or> op \<in> set checkpoint_ops \<or> op \<in> set skill_ops"

text \<open>An option of an edit or a range is set; without and with the line range and the byte limit.\<close>

definition edit_option_set :: "ShellFileOpRequest \<Rightarrow> bool" where
  "edit_option_set b \<longleftrightarrow> fop_old_text b \<noteq> None \<or> fop_pattern b \<noteq> None \<or> fop_expected_sha256 b \<noteq> None
     \<or> fop_expected_prefix b \<noteq> None \<or> fop_line b \<noteq> None \<or> fop_create_dirs b"

definition any_option_set :: "ShellFileOpRequest \<Rightarrow> bool" where
  "any_option_set b \<longleftrightarrow> edit_option_set b \<or> fop_start_line b \<noteq> None \<or> fop_end_line b \<noteq> None \<or> fop_max_bytes b \<noteq> None"

definition validate_read_op :: "ShellFileOpRequest \<Rightarrow> rstr + unit" where
  "validate_read_op b =
     and_then
       (case (fop_start_line b, fop_end_line b) of
          (Some start, Some end_line) \<Rightarrow> reject_if (start = 0 \<or> end_line < start) (lit ''invalid line range'')
        | (Some _, None) \<Rightarrow> Inl (lit ''end_line is required when start_line is set for op=read'')
        | (None, Some _) \<Rightarrow> Inl (lit ''start_line is required when end_line is set for op=read'')
        | (None, None) \<Rightarrow> Inr ())
       (reject_if (fop_line b \<noteq> None) (lit ''line is not supported for any file op''))"

definition validate_op_fields :: "ShellFileOpRequest \<Rightarrow> rstr + unit" where
  "validate_op_fields b =
     (let op = fop_op b in
      if op = lit ''read'' then validate_read_op b
      else if op = lit ''skill_read_file'' then
        and_then (reject_if (fop_content b = None \<or> fop_start_line b = None \<or> fop_end_line b = None)
                   (lit ''skill_read_file requires content/start_line/end_line''))
          (reject_if (fop_start_line b = Some 0
              \<or> (case (fop_end_line b, fop_start_line b) of (Some e, Some s) \<Rightarrow> e < s | _ \<Rightarrow> False)
              \<or> edit_option_set b)
            (lit ''skill_read_file only accepts path/cwd/content/max_bytes/start_line/end_line''))
      else if op = lit ''skill_list_packages'' then
        reject_if (fop_content b = None \<or> any_option_set b) (lit ''skill_list_packages only accepts path/cwd/content'')
      else if op \<in> set structured_edit_ops
          \<or> op \<in> set artifact_ops \<and> op \<noteq> lit ''read_project_artifact_export_chunk'' then
        and_then (reject_if (fop_content b = None) (lit ''content is required for op='' @ op))
          (reject_if (any_option_set b) (op @ lit '' only accepts path/content''))
      else if op \<in> set checkpoint_ops then
        and_then (reject_if (fop_content b = None) (lit ''content is required for op='' @ op))
          (reject_if (any_option_set b) (lit ''checkpoint ops only accept path/cwd/content''))
      else reject_if (fop_expected_prefix b \<noteq> None \<or> fop_start_line b \<noteq> None \<or> fop_end_line b \<noteq> None
             \<or> fop_line b \<noteq> None \<or> fop_old_text b \<noteq> None \<or> fop_pattern b \<noteq> None)
           (lit ''line/range/anchor edit fields are not supported for this file op''))"

definition validate_file_request :: "ShellFileOpRequest \<Rightarrow> rstr + unit" where
  "validate_file_request b =
     (let op = fop_op b in
      and_then (validate_id (fop_client_id b) (lit ''client_id''))
     (and_then (reject_if (op \<notin> set file_ops) unknown_op_message)
     (and_then (reject_if (trim (fop_path b) = []) (lit ''path cannot be empty''))
     (and_then (check_text (lit ''path is too long; maximum is '') (lit ''path cannot contain NUL bytes'') MAX_FILE_PATH_LEN
                 (Some (fop_path b)))
     (and_then (check_cwd MAX_CWD_LEN (fop_cwd b))
     (and_then (validate_sha256 (fop_expected_sha256 b))
     (and_then (reject_if (fop_expected_sha256 b \<noteq> None \<and> op \<noteq> lit ''write'')
                 (lit ''expected_sha256 is only allowed for op=write''))
     (and_then (case fop_expected_prefix b of
                  None \<Rightarrow> Inr ()
                | Some p \<Rightarrow> and_then (reject_if (op \<noteq> lit ''write'') (lit ''expected_prefix is only allowed for op=write''))
                    (reject_if (0 \<in> set p) (lit ''expected_prefix cannot contain NUL bytes'')))
     (and_then (reject_if (fop_create_dirs b \<and> op \<noteq> lit ''write'') (lit ''create_dirs is only allowed for op=write''))
     (and_then (case fop_content b of
                  None \<Rightarrow> Inr ()
                | Some content \<Rightarrow>
                    and_then (reject_if (content_limit op < str_len content)
                      (lit ''content is too large; maximum is '' @ show_nat (content_limit op) @ lit '' bytes''))
                    (reject_if (\<not> content_allowed op)
                      (lit ''content is only allowed for op=write, project_overview options, delete_project_files, apply_text_edits, structured edit tools, artifact tools, checkpoint tools, or skill runtime file ops'')))
     (and_then (reject_if (fop_old_text b \<noteq> None) (lit ''old_text is not supported for any file op''))
     (and_then (reject_if (fop_pattern b \<noteq> None) (lit ''pattern is not supported for any file op''))
     (and_then (reject_if (op = lit ''write'' \<and> fop_content b = None) (lit ''content is required for op=write''))
     (and_then (validate_op_fields b)
       (reject_if (MAX_SYNC_WAIT_SECS < fop_wait_timeout_secs b)
         (lit ''wait_timeout_secs must be <= '' @ show_nat MAX_SYNC_WAIT_SECS @ lit '' for shellFileOp''))))))))))))))))"

section \<open>Processes and scripts\<close>

definition PROCESS_EXECUTABLE_MAX_BYTES :: nat where "PROCESS_EXECUTABLE_MAX_BYTES = 1024"
definition PROCESS_ARG_MAX_BYTES :: nat where "PROCESS_ARG_MAX_BYTES = 8192"
definition PROCESS_ARGV_MAX_BYTES :: nat where "PROCESS_ARGV_MAX_BYTES = 16000"
definition PROCESS_STDIN_MAX_BYTES :: nat where "PROCESS_STDIN_MAX_BYTES = 64 * 1024"
definition PROCESS_CWD_MAX_BYTES :: nat where "PROCESS_CWD_MAX_BYTES = 1024"
definition STRUCTURED_EXECUTION_TIMEOUT_MAX_SECS :: nat where "STRUCTURED_EXECUTION_TIMEOUT_MAX_SECS = 3600"
definition STRUCTURED_EXECUTION_DIRECT_SYNC_TIMEOUT_MAX_SECS :: nat where
  "STRUCTURED_EXECUTION_DIRECT_SYNC_TIMEOUT_MAX_SECS = 120"
definition SCRIPT_ARG_MAX_BYTES :: nat where "SCRIPT_ARG_MAX_BYTES = 8192"
definition SCRIPT_ARGV_MAX_BYTES :: nat where "SCRIPT_ARGV_MAX_BYTES = 16000"
definition SCRIPT_STDIN_MAX_BYTES :: nat where "SCRIPT_STDIN_MAX_BYTES = 64 * 1024"
definition SCRIPT_CWD_MAX_BYTES :: nat where "SCRIPT_CWD_MAX_BYTES = 1024"
definition SCRIPT_TIMEOUT_MAX_SECS :: nat where "SCRIPT_TIMEOUT_MAX_SECS = STRUCTURED_EXECUTION_TIMEOUT_MAX_SECS"

record ShellProcessArgv =
  proc_executable :: rstr
  proc_args :: "rstr list"

record ShellScriptPayload =
  script_language :: ShellScriptLanguage
  script_body :: rstr
  script_args :: "rstr list"

record ShellRunRequest =
  run_client_id :: rstr
  run_cwd :: "rstr option"
  run_command :: rstr
  run_stdin :: "rstr option"
  run_timeout_secs :: nat
  run_wait_timeout_secs :: nat

definition process_uses_shell_command_mode :: "ShellProcessArgv \<Rightarrow> bool" where
  "process_uses_shell_command_mode p =
     (let basename = to_ascii_lowercase (last (split_by (\<lambda>c. c = SLASH \<or> c = BSL) (proc_executable p))) in
      if basename \<in> set [lit ''sh'', lit ''sh.exe'', lit ''bash'', lit ''bash.exe''] then
        list_ex (\<lambda>arg. let lower = to_ascii_lowercase arg in
            lower = lit ''-c'' \<or> starts_with lower [DASH] \<and> \<not> starts_with lower [DASH, DASH] \<and> 99 \<in> set (drop 1 lower))
          (takeWhile (\<lambda>arg. arg \<noteq> [DASH, DASH]) (proc_args p))
      else if basename \<in> set [lit ''powershell'', lit ''powershell.exe'', lit ''pwsh'', lit ''pwsh.exe''] then
        list_ex (\<lambda>arg. to_ascii_lowercase arg \<in> set [lit ''-command'', lit ''-c'']) (proc_args p)
      else if basename \<in> set [lit ''cmd'', lit ''cmd.exe''] then
        list_ex (\<lambda>arg. to_ascii_lowercase arg = lit ''/c'') (proc_args p)
      else False)"

text \<open>The loop over the arguments: the error of the first bad one, or the total with one boundary byte
  before each.\<close>

fun validate_args :: "nat \<Rightarrow> nat \<Rightarrow> nat \<Rightarrow> rstr list \<Rightarrow> rstr + nat" where
  "validate_args limit index bytes [] = Inr bytes"
| "validate_args limit index bytes (arg # args) =
     (if limit < str_len arg
        then Inl (lit ''args['' @ show_nat index @ lit ''] is too long; maximum is '' @ show_nat limit @ lit '' bytes'')
      else if 0 \<in> set arg then Inl (lit ''args['' @ show_nat index @ lit ''] cannot contain NUL bytes'')
      else validate_args limit (index + 1) (sat_add (sat_add bytes 1) (str_len arg)) args)"

definition validate_process_argv :: "ShellProcessArgv \<Rightarrow> rstr + unit" where
  "validate_process_argv p =
     and_then (reject_if (trim (proc_executable p) = []) (lit ''executable must not be empty''))
    (and_then (check_text (lit ''executable is too long; maximum is '') (lit ''executable cannot contain NUL bytes'')
                PROCESS_EXECUTABLE_MAX_BYTES (Some (proc_executable p)))
    (and_then (reject_if (PROCESS_ARG_MAX_COUNT < length (proc_args p))
                (lit ''args may contain at most '' @ show_nat PROCESS_ARG_MAX_COUNT @ lit '' entries''))
    (case validate_args PROCESS_ARG_MAX_BYTES 0 (str_len (proc_executable p)) (proc_args p) of
       Inl e \<Rightarrow> Inl e
     | Inr bytes \<Rightarrow>
         and_then (reject_if (PROCESS_ARGV_MAX_BYTES < bytes)
           (lit ''executable and args are too large; maximum total is '' @ show_nat PROCESS_ARGV_MAX_BYTES @ lit '' bytes''))
         (reject_if (process_uses_shell_command_mode p)
           (lit ''run_process does not accept shell command modes; use run_shell for shell syntax'')))))"

definition validate_script_request ::
    "ShellScriptPayload \<Rightarrow> rstr option \<Rightarrow> rstr option \<Rightarrow> nat \<Rightarrow> rstr + unit" where
  "validate_script_request payload stdin cwd timeout_secs =
     and_then (reject_if (str_len (script_body payload) < SCRIPT_MIN_BYTES) (lit ''script must contain at least 1 UTF-8 byte''))
    (and_then (check_text (lit ''script is too large; maximum is '') (lit ''script cannot contain NUL bytes'') SCRIPT_MAX_BYTES
                (Some (script_body payload)))
    (and_then (reject_if (SCRIPT_ARG_MAX_COUNT < length (script_args payload))
                (lit ''args may contain at most '' @ show_nat SCRIPT_ARG_MAX_COUNT @ lit '' entries''))
    (case validate_args SCRIPT_ARG_MAX_BYTES 0 0 (script_args payload) of
       Inl e \<Rightarrow> Inl e
     | Inr bytes \<Rightarrow>
         and_then (reject_if (SCRIPT_ARGV_MAX_BYTES < bytes)
           (lit ''script args are too large; maximum total is '' @ show_nat SCRIPT_ARGV_MAX_BYTES @ lit '' bytes''))
        (and_then (check_stdin SCRIPT_STDIN_MAX_BYTES stdin)
        (and_then (check_cwd SCRIPT_CWD_MAX_BYTES cwd)
        (reject_if (timeout_secs = 0 \<or> SCRIPT_TIMEOUT_MAX_SECS < timeout_secs)
          (lit ''timeout_secs must be between 1 and '' @ show_nat SCRIPT_TIMEOUT_MAX_SECS)))))))"

definition validate_run_request :: "ShellRunRequest \<Rightarrow> rstr + unit" where
  "validate_run_request b =
     and_then (validate_id (run_client_id b) (lit ''client_id''))
    (and_then (validate_raw_shell_wire_command (run_command b))
    (and_then (check_stdin MAX_RUN_STDIN_BYTES (run_stdin b))
    (and_then (check_cwd MAX_CWD_LEN (run_cwd b))
    (and_then (reject_if (run_timeout_secs b = 0 \<or> MAX_COMMAND_TIMEOUT_SECS < run_timeout_secs b)
                (lit ''timeout_secs must be between 1 and '' @ show_nat MAX_COMMAND_TIMEOUT_SECS))
    (reject_if (MAX_SYNC_WAIT_SECS < run_wait_timeout_secs b)
      (lit ''wait_timeout_secs must be <= '' @ show_nat MAX_SYNC_WAIT_SECS @ lit '' for synchronous runShell''))))))"

definition validate_process_request ::
    "rstr \<Rightarrow> rstr option \<Rightarrow> ShellProcessArgv \<Rightarrow> rstr option \<Rightarrow> nat \<Rightarrow> nat \<Rightarrow> rstr + unit" where
  "validate_process_request client_id cwd process stdin timeout_secs wait_timeout_secs =
     and_then (validate_id client_id (lit ''client_id''))
    (and_then (validate_process_argv process)
    (and_then (check_stdin PROCESS_STDIN_MAX_BYTES stdin)
    (and_then (check_cwd PROCESS_CWD_MAX_BYTES cwd)
    (and_then (reject_if (timeout_secs = 0 \<or> STRUCTURED_EXECUTION_DIRECT_SYNC_TIMEOUT_MAX_SECS < timeout_secs)
                (lit ''timeout_secs must be between 1 and '' @ show_nat STRUCTURED_EXECUTION_DIRECT_SYNC_TIMEOUT_MAX_SECS))
    (reject_if (MAX_SYNC_WAIT_SECS < wait_timeout_secs)
      (lit ''wait_timeout_secs must be <= '' @ show_nat MAX_SYNC_WAIT_SECS @ lit '' for synchronous run_process''))))))"

definition validate_script_enqueue_request ::
    "rstr \<Rightarrow> rstr option \<Rightarrow> ShellScriptPayload \<Rightarrow> rstr option \<Rightarrow> nat \<Rightarrow> nat \<Rightarrow> rstr + unit" where
  "validate_script_enqueue_request client_id cwd script stdin timeout_secs wait_timeout_secs =
     and_then (validate_id client_id (lit ''client_id''))
    (and_then (validate_script_request script stdin cwd timeout_secs)
    (and_then (reject_if (STRUCTURED_EXECUTION_DIRECT_SYNC_TIMEOUT_MAX_SECS < timeout_secs)
                (lit ''timeout_secs must be between 1 and '' @ show_nat STRUCTURED_EXECUTION_DIRECT_SYNC_TIMEOUT_MAX_SECS))
    (reject_if (MAX_SYNC_WAIT_SECS < wait_timeout_secs)
      (lit ''wait_timeout_secs must be <= '' @ show_nat MAX_SYNC_WAIT_SECS @ lit '' for synchronous run_script''))))"

section \<open>Provider status\<close>

record RunnerConfigReloadStatus =
  crs_generation :: nat
  crs_last_reload_result :: rstr
  crs_last_reload_error_code :: "rstr option"
  crs_last_reload_error_field :: "rstr option"
  crs_last_reload_error_reason :: "rstr option"
  crs_restart_required :: bool
  crs_restart_required_fields :: "rstr list"

record ProviderCallSummary =
  pcs_capability :: rstr
  pcs_selected_provider :: rstr
  pcs_fallback_used :: bool
  pcs_result :: rstr
  pcs_write_state :: "rstr option"
  pcs_duration_ms :: nat
  pcs_error_code :: "rstr option"

record ClaudeCodeProviderStatus =
  ccp_enabled :: bool
  ccp_version :: "rstr option"
  ccp_available :: bool
  ccp_process_state :: rstr
  ccp_discovered_tool_names :: "rstr list"
  ccp_capabilities :: "(rstr \<times> rstr) list"
  ccp_last_error_code :: "rstr option"
  ccp_last_call :: "ProviderCallSummary option"

record ToolProvidersStatus =
  tps_strategy :: rstr
  tps_claude_code :: ClaudeCodeProviderStatus
  tps_config_reload :: RunnerConfigReloadStatus

definition RUNNER_CONFIG_RESTART_REQUIRED_FIELDS :: "rstr list" where
  "RUNNER_CONFIG_RESTART_REQUIRED_FIELDS =
     [lit ''acp'', lit ''capabilities'', lit ''client_id'', lit ''display_name'', lit ''host_context'', lit ''hostname'',
      lit ''max_concurrent_jobs'', lit ''mcp_gateway'', lit ''owner'', lit ''poll_interval_ms'', lit ''project_registry_dir'',
      lit ''quic'', lit ''server_url'', lit ''token'', lit ''transport'', lit ''websocket_connect_timeout_secs'']"

definition reload_results :: "rstr list" where
  "reload_results = [lit ''not_attempted'', lit ''success'', lit ''partial'', lit ''failure'', lit ''unsupported'']"

definition reload_errors :: "rstr list" where
  "reload_errors = [lit ''config_read_failed'', lit ''config_parse_failed'', lit ''config_validation_failed'',
     lit ''provider_config_invalid'', lit ''plugin_reload_failed'', lit ''reload_unsupported'']"

definition reload_error_fields :: "rstr list" where
  "reload_error_fields = [lit ''max_concurrent_jobs'', lit ''shell.max_persistent_shells'',
     lit ''shell.persistent_shell_idle_timeout_secs'', lit ''acp.max_concurrent_runs'', lit ''acp.permission_timeout_secs'',
     lit ''mcp.request_timeout_secs'']"

definition normalize_config_reload :: "RunnerConfigReloadStatus option \<Rightarrow> RunnerConfigReloadStatus option" where
  "normalize_config_reload v =
     (case v of
        None \<Rightarrow> None
      | Some status \<Rightarrow>
          if crs_generation status = 0 \<or> crs_last_reload_result status \<notin> set reload_results
             \<or> \<not> opt_all (\<lambda>code. code \<in> set reload_errors) (crs_last_reload_error_code status)
          then None
          else
            let diagnostic_valid =
                  (case (crs_last_reload_error_field status, crs_last_reload_error_reason status) of
                     (None, None) \<Rightarrow> True
                   | (Some field, Some reason) \<Rightarrow>
                       field \<in> set reload_error_fields \<and> reason = lit ''out_of_range''
                       \<and> crs_last_reload_error_code status = Some (lit ''config_validation_failed'')
                       \<and> crs_last_reload_result status = lit ''failure''
                   | _ \<Rightarrow> False);
                status1 = (if diagnostic_valid then status
                  else status\<lparr>crs_last_reload_error_field := None, crs_last_reload_error_reason := None\<rparr>);
                fields = remdups_adj (sort (filter (\<lambda>f. f \<in> set RUNNER_CONFIG_RESTART_REQUIRED_FIELDS)
                  (crs_restart_required_fields status1)))
            in Some (status1\<lparr>crs_restart_required_fields := fields, crs_restart_required := fields \<noteq> []\<rparr>))"

definition bounded_provider_text :: "rstr \<Rightarrow> rstr" where
  "bounded_provider_text v = take MAX_PROVIDER_TEXT_CHARS (filter (\<lambda>c. \<not> is_control c) v)"

definition safe_provider_identifier :: "rstr \<Rightarrow> rstr option" where
  "safe_provider_identifier raw =
     (let v = bounded_provider_text raw in
      if v \<noteq> [] \<and> list_all (\<lambda>c. is_ascii_alphanumeric c \<or> c \<in> set (lit ''_-.:'')) v then Some v else None)"

definition safe_provider_version :: "rstr \<Rightarrow> rstr option" where
  "safe_provider_version raw =
     (let v = trim raw in
      if v \<noteq> [] \<and> list_all (\<lambda>c. is_ascii_alphanumeric c \<or> c \<in> set (lit '' ._-+()'')) v
      then Some (bounded_provider_text v) else None)"

definition normalize_provider_call :: "ProviderCallSummary \<Rightarrow> ProviderCallSummary option" where
  "normalize_provider_call call =
     (if pcs_capability call \<notin> set [lit ''edit_file'', lit ''search_project_text'']
         \<or> pcs_selected_provider call \<notin> set [lit ''claude_code'', lit ''native'']
         \<or> pcs_result call \<notin> set [lit ''success'', lit ''failure'']
         \<or> \<not> opt_all (\<lambda>s. s \<in> set [lit ''not_submitted'', lit ''confirmed'', lit ''uncertain'']) (pcs_write_state call)
      then None
      else if (pcs_capability call = lit ''search_project_text'' \<and> pcs_write_state call \<noteq> None)
         \<or> (pcs_capability call = lit ''edit_file'' \<and> pcs_write_state call = None)
         \<or> (pcs_fallback_used call \<and> pcs_selected_provider call \<noteq> lit ''native'')
      then None
      else Some (call\<lparr>pcs_duration_ms := min (pcs_duration_ms call) (24 * 60 * 60 * 1000),
        pcs_error_code := Option.bind (pcs_error_code call) safe_provider_identifier\<rparr>))"

definition normalize_tool_providers :: "ToolProvidersStatus option \<Rightarrow> ToolProvidersStatus option" where
  "normalize_tool_providers v =
     (case v of
        None \<Rightarrow> None
      | Some status \<Rightarrow>
          (case normalize_config_reload (Some (tps_config_reload status)) of
             None \<Rightarrow> None
           | Some config_reload \<Rightarrow>
               let cc = tps_claude_code status in
               if tps_strategy status \<notin> set [lit ''native'', lit ''claude_code'', lit ''claude_code_then_native'']
                  \<or> ccp_process_state cc \<notin> set [lit ''not_started'', lit ''starting'', lit ''initializing'', lit ''discovering'',
                      lit ''mapping'', lit ''running'', lit ''stopped'']
               then None
               else if 2 < length (ccp_capabilities cc)
                  \<or> list_ex (\<lambda>(name, state). name \<notin> set [lit ''edit_file'', lit ''search_project_text'']
                       \<or> state \<notin> set [lit ''available'', lit ''unmapped'', lit ''schema_mismatch'']) (ccp_capabilities cc)
               then None
               else Some (status\<lparr>tps_config_reload := config_reload,
                 tps_claude_code := cc\<lparr>ccp_version := Option.bind (ccp_version cc) safe_provider_version,
                   ccp_discovered_tool_names := take MAX_PROVIDER_TOOL_NAMES
                     (remdups_adj (sort (List.map_filter safe_provider_identifier (ccp_discovered_tool_names cc)))),
                   ccp_last_error_code := Option.bind (ccp_last_error_code cc) safe_provider_identifier,
                   ccp_last_call := Option.bind (ccp_last_call cc) normalize_provider_call\<rparr>\<rparr>)))"

section \<open>The contract of file operations\<close>

text \<open>The contract, one row for each operation: what it takes of a content, of a range of lines and of a
  byte limit.\<close>

datatype presence = Forbidden | Optional | Required

definition op_table :: "(rstr \<times> presence \<times> presence \<times> presence) list" where
  "op_table =
     [(lit ''read'', Forbidden, Optional, Optional),
      (lit ''write'', Required, Forbidden, Optional),
      (lit ''list'', Forbidden, Forbidden, Optional),
      (lit ''project_overview'', Optional, Forbidden, Optional),
      (lit ''delete_project_files'', Optional, Forbidden, Optional),
      (lit ''write_project_file'', Required, Forbidden, Forbidden),
      (lit ''apply_text_edits'', Optional, Forbidden, Optional),
      (lit ''apply_patch'', Required, Forbidden, Forbidden),
      (lit ''save_project_artifact'', Required, Forbidden, Forbidden),
      (lit ''read_project_artifact_metadata'', Required, Forbidden, Forbidden),
      (lit ''read_project_artifact'', Required, Forbidden, Forbidden),
      (lit ''read_project_artifact_export_chunk'', Optional, Forbidden, Optional),
      (lit ''artifact_upload_begin'', Required, Forbidden, Forbidden),
      (lit ''artifact_upload_chunk'', Required, Forbidden, Forbidden),
      (lit ''artifact_upload_finish'', Required, Forbidden, Forbidden),
      (lit ''artifact_upload_abort'', Required, Forbidden, Forbidden),
      (lit ''checkpoint_create'', Required, Forbidden, Forbidden),
      (lit ''checkpoint_restore'', Required, Forbidden, Forbidden),
      (lit ''skill_list_packages'', Required, Forbidden, Forbidden),
      (lit ''skill_read_file'', Required, Required, Optional)]"

definition present :: "presence \<Rightarrow> bool \<Rightarrow> bool" where
  "present p given = (case p of Forbidden \<Rightarrow> \<not> given | Optional \<Rightarrow> True | Required \<Rightarrow> given)"

text \<open>A range is absent, or both its ends are given and it is a range of line numbers.\<close>

definition range_ok :: "nat option \<Rightarrow> nat option \<Rightarrow> bool" where
  "range_ok first final =
     (case (first, final) of (None, None) \<Rightarrow> True | (Some a, Some b) \<Rightarrow> 1 \<le> a \<and> a \<le> b | _ \<Rightarrow> False)"

definition id_ok :: "rstr \<Rightarrow> bool" where
  "id_ok v \<longleftrightarrow> v \<noteq> [] \<and> str_len v \<le> MAX_CLIENT_ID_LEN \<and> list_all id_char v"

definition sha256_ok :: "rstr \<Rightarrow> bool" where
  "sha256_ok v \<longleftrightarrow> str_len v = 64 \<and> list_all is_ascii_hexdigit v"

definition file_contract :: "ShellFileOpRequest \<Rightarrow> bool" where
  "file_contract b =
     (case map_of op_table (fop_op b) of
        None \<Rightarrow> False
      | Some (content, lines, limit) \<Rightarrow>
          id_ok (fop_client_id b) \<and> trim (fop_path b) \<noteq> [] \<and> bounded_text MAX_FILE_PATH_LEN (fop_path b)
          \<and> opt_all (bounded_text MAX_CWD_LEN) (fop_cwd b)
          \<and> fop_old_text b = None \<and> fop_pattern b = None \<and> fop_line b = None \<and> fop_expected_prefix b = None
          \<and> (fop_op b = lit ''write'' \<or> fop_expected_sha256 b = None \<and> \<not> fop_create_dirs b)
          \<and> opt_all sha256_ok (fop_expected_sha256 b)
          \<and> present content (fop_content b \<noteq> None) \<and> opt_all (\<lambda>c. str_len c \<le> content_limit (fop_op b)) (fop_content b)
          \<and> present lines (fop_start_line b \<noteq> None) \<and> range_ok (fop_start_line b) (fop_end_line b)
          \<and> present limit (fop_max_bytes b \<noteq> None)
          \<and> fop_wait_timeout_secs b \<le> MAX_SYNC_WAIT_SECS)"

lemma validate_id_Inr [simp]: "validate_id v field = Inr () \<longleftrightarrow> id_ok v"
  by (auto simp: validate_id_def id_ok_def)

lemma validate_sha256_Inr [simp]: "validate_sha256 v = Inr () \<longleftrightarrow> opt_all sha256_ok v"
  by (auto simp: validate_sha256_def sha256_ok_def split: option.splits)

text \<open>The operations that take a content and nothing else.\<close>

definition closed_op :: "rstr \<Rightarrow> bool" where
  "closed_op op \<longleftrightarrow> op = lit ''skill_list_packages'' \<or> op \<in> set structured_edit_ops
     \<or> (op \<in> set artifact_ops \<and> op \<noteq> lit ''read_project_artifact_export_chunk'') \<or> op \<in> set checkpoint_ops"

definition row_ok :: "rstr \<times> presence \<times> presence \<times> presence \<Rightarrow> bool" where
  "row_ok row = (case row of (op, content, lines, limit) \<Rightarrow>
     content_allowed op = (content \<noteq> Forbidden) \<and> (op = lit ''read'') = (lines = Optional)
     \<and> (op = lit ''skill_read_file'') = (lines = Required) \<and> closed_op op = (limit = Forbidden)
     \<and> (limit = Forbidden \<or> limit = Optional)
     \<and> (content = Required) = (op = lit ''write'' \<or> op = lit ''skill_read_file'' \<or> closed_op op)
     \<and> \<not> (closed_op op \<and> (op = lit ''read'' \<or> op = lit ''skill_read_file'' \<or> op = lit ''write''))
     \<and> op \<in> set file_ops)"

lemma op_table_ok: "list_all row_ok op_table"
  by (simp add: op_table_def row_ok_def closed_op_def content_allowed_def structured_edit_ops_def artifact_ops_def
      checkpoint_ops_def skill_ops_def file_ops_def lit_inject)

lemma op_table_keys: "map fst op_table = file_ops"
  by (simp add: op_table_def file_ops_def)

lemma op_names_distinct [simp]: "lit ''skill_read_file'' \<noteq> lit ''read''" "lit ''read'' \<noteq> lit ''skill_read_file''"
  "lit ''write'' \<noteq> lit ''skill_read_file''" "lit ''skill_read_file'' \<noteq> lit ''write''" "lit ''write'' \<noteq> lit ''read''"
  "lit ''read'' \<noteq> lit ''write''"
  by (simp_all add: lit_def)

lemma map_of_op_table: "map_of op_table op = Some row \<Longrightarrow> row_ok (op, row)"
  using op_table_ok by (auto simp: list_all_iff dest: map_of_SomeD)

lemma op_table_None: "map_of op_table op = None \<longleftrightarrow> op \<notin> set file_ops"
proof -
  have "set file_ops = fst ` set op_table" using arg_cong [OF op_table_keys, of set] by simp
  then show ?thesis by (simp add: map_of_eq_None_iff)
qed

lemma validate_op_fields_cases:
  "validate_op_fields b = Inr () \<longleftrightarrow>
     (if fop_op b = lit ''read'' then range_ok (fop_start_line b) (fop_end_line b) \<and> fop_line b = None
      else if fop_op b = lit ''skill_read_file''
        then fop_content b \<noteq> None \<and> fop_start_line b \<noteq> None \<and> range_ok (fop_start_line b) (fop_end_line b) \<and> \<not> edit_option_set b
      else if closed_op (fop_op b) then fop_content b \<noteq> None \<and> \<not> any_option_set b
      else fop_expected_prefix b = None \<and> fop_start_line b = None \<and> fop_end_line b = None
        \<and> fop_line b = None \<and> fop_old_text b = None \<and> fop_pattern b = None)"
proof -
  have "validate_read_op b = Inr () \<longleftrightarrow> range_ok (fop_start_line b) (fop_end_line b) \<and> fop_line b = None"
    by (auto simp: validate_read_op_def range_ok_def split: option.splits)
  note read = this
  show ?thesis
  proof (cases "fop_op b = lit ''read''")
    case True
    then show ?thesis using read by (simp add: validate_op_fields_def)
  next
    case not_read: False
    show ?thesis
    proof (cases "fop_op b = lit ''skill_read_file''")
      case True
      then show ?thesis using not_read
        by (cases "fop_start_line b"; cases "fop_end_line b")
          (auto simp: validate_op_fields_def Let_def range_ok_def)
    next
      case False
      with not_read show ?thesis
        by (cases "closed_op (fop_op b)") (simp_all add: validate_op_fields_def Let_def closed_op_def, auto)
    qed
  qed
qed

text \<open>C37: A file request is accepted exactly when it satisfies the contract of its operation: the
  operation is one of twenty, the path and working directory are bounded, a content, a line
  range and a byte limit are given as the row of the operation says, a content stays within the
  limit of the operation, a digest or the creation of directories come with a write only, and
  the retired edit fields, the expected prefix among them, are absent.\<close>

theorem file_requests_meet_contract: "validate_file_request b = Inr () \<longleftrightarrow> file_contract b"
proof (cases "map_of op_table (fop_op b)")
  case None
  then have "fop_op b \<notin> set file_ops" by (simp add: op_table_None)
  with None show ?thesis by (simp add: validate_file_request_def file_contract_def Let_def)
next
  case (Some row)
  obtain content lines limit where row: "row = (content, lines, limit)" by (cases row)
  from map_of_op_table [OF Some] row have r: "row_ok (fop_op b, content, lines, limit)" by simp
  show ?thesis
    using Some r
    by (cases content; cases lines; cases limit; cases "fop_op b = lit ''write''")
      (auto simp: row row_ok_def validate_file_request_def file_contract_def Let_def validate_op_fields_cases
        present_def any_option_set_def edit_option_set_def range_ok_def split: option.splits)
qed

end
