(* ===== verification/Project_Inventory.thy ===== *)
theory Project_Inventory
  imports Job_Lifecycle Registry_Validation
begin

text \<open>
  The paged synchronisation of a Runner's projects
  (\<open>crates/webcodex-runner-registry/src/project_inventory.rs\<close>, with the summary validation of
  \<open>validation.rs\<close> and the page and status types of \<open>runner_protocol.rs\<close>).

  Pages of one snapshot are staged in order and published at once by the last page. A Runner
  record extends the one of the job registry with the fields of the inventory. \<open>None\<close> is a panic
  (\<open>unreachable!\<close> or \<open>expect\<close>). The JSON encodings and the digest are fields of the parameter
  \<open>InventoryEnv\<close>; \<open>now\<close> is the clock.
\<close>

section \<open>Pages, summaries and status\<close>

definition PROJECT_INVENTORY_PAGE_MAX_SUMMARIES :: nat where
  "PROJECT_INVENTORY_PAGE_MAX_SUMMARIES = 64"
definition PROJECT_INVENTORY_PAGE_MAX_SERIALIZED_BYTES :: nat where
  "PROJECT_INVENTORY_PAGE_MAX_SERIALIZED_BYTES = 256 * 1024"
definition PROJECT_INVENTORY_SNAPSHOT_MAX_SERIALIZED_BYTES :: nat where
  "PROJECT_INVENTORY_SNAPSHOT_MAX_SERIALIZED_BYTES = 16 * 1024 * 1024"
definition PROJECT_INVENTORY_GENERATION_MAX_BYTES :: nat where
  "PROJECT_INVENTORY_GENERATION_MAX_BYTES = 96"
definition PROJECT_INVENTORY_STAGING_TTL_SECS :: int where
  "PROJECT_INVENTORY_STAGING_TTL_SECS = 120"
definition PROJECT_INVENTORY_MAX_CONCURRENT_SYNCS :: nat where
  "PROJECT_INVENTORY_MAX_CONCURRENT_SYNCS = 8"
definition MAX_RETIRED_PROJECT_GENERATIONS :: nat where
  "MAX_RETIRED_PROJECT_GENERATIONS = 16"

record RunnerProjectSummary =
  prj_id :: rstr
  prj_name :: "rstr option"
  prj_path :: rstr
  prj_allow_patch :: bool
  prj_kind :: "rstr option"
  prj_registration_source :: "rstr option"
  prj_description :: "rstr option"
  prj_hooks :: "rstr list"
  prj_disabled :: bool
  prj_revision :: "rstr option"
  prj_git_branch :: "rstr option"
  prj_git_head :: "rstr option"
  prj_git_dirty :: "bool option"
  prj_updated_at :: int
  prj_shell_profile :: "rstr option"

record ShellProjectInventoryPage =
  page_generation :: rstr
  page_snapshot_sequence :: nat
  page_index :: nat
  page_total_reported :: nat
  page_complete :: bool
  page_projects :: "RunnerProjectSummary list"

record ShellProjectInventoryStatus =
  st_sync_state :: rstr
  st_generation :: "rstr option"
  st_total_reported :: "nat option"
  st_total_synced :: nat
  st_last_error_code :: "rstr option"
  st_last_sync_at :: "int option"
  st_max_summaries_per_page :: nat
  st_max_serialized_bytes_per_page :: nat

record ProjectInventoryStaging =
  stg_generation :: rstr
  stg_snapshot_sequence :: nat
  stg_total_reported :: nat
  stg_next_page_index :: nat
  stg_projects :: "RunnerProjectSummary list"
  stg_seen_ids :: "rstr set"
  stg_serialized_bytes :: nat
  stg_started_at :: int

record ProjectInventoryState =
  pin_status :: ShellProjectInventoryStatus
  pin_staging :: "ProjectInventoryStaging option"
  pin_retired_generations :: "rstr list"
  pin_highest_snapshot_sequence :: nat
  pin_last_page_generation :: "rstr option"
  pin_last_page_index :: "nat option"
  pin_last_page_digest :: "rstr option"

record InventoryRunner = RunnerRecord +
  inv_projects :: "RunnerProjectSummary list"
  inv_state :: ProjectInventoryState

record InventoryEnv =
  env_page_json :: "ShellProjectInventoryPage \<Rightarrow> rstr option"
  env_projects_json :: "RunnerProjectSummary list \<Rightarrow> rstr option"
  env_sha256_hex :: "rstr \<Rightarrow> rstr"

definition inventory_status ::
    "rstr \<Rightarrow> rstr option \<Rightarrow> nat option \<Rightarrow> nat \<Rightarrow> rstr option \<Rightarrow> int option \<Rightarrow> ShellProjectInventoryStatus" where
  "inventory_status sync_state generation total_reported total_synced last_error_code last_sync_at =
     \<lparr>st_sync_state = sync_state, st_generation = generation, st_total_reported = total_reported,
      st_total_synced = total_synced, st_last_error_code = last_error_code, st_last_sync_at = last_sync_at,
      st_max_summaries_per_page = PROJECT_INVENTORY_PAGE_MAX_SUMMARIES,
      st_max_serialized_bytes_per_page = PROJECT_INVENTORY_PAGE_MAX_SERIALIZED_BYTES\<rparr>"

definition status_pending :: "nat \<Rightarrow> ShellProjectInventoryStatus" where
  "status_pending total_synced =
     \<lparr>st_sync_state = lit ''pending'', st_generation = None, st_total_reported = None,
      st_total_synced = total_synced, st_last_error_code = None, st_last_sync_at = None,
      st_max_summaries_per_page = PROJECT_INVENTORY_PAGE_MAX_SUMMARIES,
      st_max_serialized_bytes_per_page = PROJECT_INVENTORY_PAGE_MAX_SERIALIZED_BYTES\<rparr>"

definition pending_inventory_state :: "nat \<Rightarrow> ProjectInventoryState" where
  "pending_inventory_state total_synced =
     \<lparr>pin_status = status_pending total_synced, pin_staging = None, pin_retired_generations = [],
      pin_highest_snapshot_sequence = 0, pin_last_page_generation = None, pin_last_page_index = None,
      pin_last_page_digest = None\<rparr>"

section \<open>Summary validation\<close>

definition revision_ok :: "rstr \<Rightarrow> bool" where
  "revision_ok revision \<longleftrightarrow>
     (case strip_prefix revision (lit ''sha256:'') of
        None \<Rightarrow> False
      | Some hex \<Rightarrow> str_len hex = 64 \<and> list_all is_ascii_hexdigit hex)"

definition validate_project_summary :: "RunnerProjectSummary \<Rightarrow> rstr + unit" where
  "validate_project_summary p =
     (if prj_id p = [] \<or> 64 < str_len (prj_id p) \<or> \<not> list_all id_char (prj_id p)
        then Inl (lit ''project_summary_invalid_id'')
      else if prj_path p = [] \<or> \<not> bounded_text 4096 (prj_path p)
        then Inl (lit ''project_summary_invalid_path'')
      else if \<not> opt_all (\<lambda>v. v \<noteq> [] \<and> bounded_text 120 v) (prj_name p)
        then Inl (lit ''project_summary_invalid_name'')
      else if \<not> opt_all (bounded_text 500) (prj_description p)
        then Inl (lit ''project_summary_invalid_description'')
      else if \<not> opt_all (bounded_text 120) (prj_kind p) \<or> \<not> opt_all (bounded_text 120) (prj_shell_profile p)
          \<or> \<not> opt_all (bounded_text 512) (prj_git_branch p) \<or> \<not> opt_all (bounded_text 128) (prj_git_head p)
        then Inl (lit ''project_summary_invalid_metadata'')
      else if 64 < length (prj_hooks p) \<or> list_ex (\<lambda>h. h = [] \<or> \<not> bounded_text 120 h) (prj_hooks p)
        then Inl (lit ''project_summary_invalid_hooks'')
      else if \<not> opt_all revision_ok (prj_revision p)
        then Inl (lit ''project_summary_invalid_revision'')
      else Inr ())"

fun validate_each :: "RunnerProjectSummary list \<Rightarrow> rstr + unit" where
  "validate_each [] = Inr ()"
| "validate_each (p # ps) = (case validate_project_summary p of Inl e \<Rightarrow> Inl e | Inr _ \<Rightarrow> validate_each ps)"

definition validate_project_summary_batch ::
    "InventoryEnv \<Rightarrow> RunnerProjectSummary list \<Rightarrow> rstr + nat" where
  "validate_project_summary_batch env projects =
     (case validate_each projects of
        Inl e \<Rightarrow> Inl e
      | Inr _ \<Rightarrow>
          (case env_projects_json env projects of
             None \<Rightarrow> Inl (lit ''project_inventory_serialization_failed'')
           | Some json \<Rightarrow>
               if PROJECT_INVENTORY_SNAPSHOT_MAX_SERIALIZED_BYTES < str_len json
               then Inl (lit ''project_inventory_snapshot_too_large'')
               else if card (set (map prj_id projects)) \<noteq> length projects
               then Inl (lit ''project_inventory_duplicate_project_id'')
               else Inr (str_len json)))"

definition validate_generation :: "rstr \<Rightarrow> rstr + unit" where
  "validate_generation generation =
     (if generation = [] \<or> PROJECT_INVENTORY_GENERATION_MAX_BYTES < str_len generation
         \<or> \<not> list_all id_char generation
      then Inl (lit ''project_inventory_invalid_generation'') else Inr ())"

text \<open>The size and the digest of the encoded page.\<close>

definition validate_page :: "InventoryEnv \<Rightarrow> ShellProjectInventoryPage \<Rightarrow> rstr + nat \<times> rstr" where
  "validate_page env page =
     (case validate_generation (page_generation page) of
        Inl e \<Rightarrow> Inl e
      | Inr _ \<Rightarrow>
          if page_snapshot_sequence page = 0 then Inl (lit ''project_inventory_invalid_snapshot_sequence'')
          else if PROJECT_INVENTORY_PAGE_MAX_SUMMARIES < length (page_projects page)
            then Inl (lit ''project_inventory_page_summary_limit'')
          else if page_total_reported page = 0
              \<and> (page_index page \<noteq> 0 \<or> \<not> page_complete page \<or> page_projects page \<noteq> [])
            then Inl (lit ''project_inventory_empty_snapshot_malformed'')
          else if page_total_reported page \<noteq> 0 \<and> page_projects page = []
            then Inl (lit ''project_inventory_empty_page'')
          else (case validate_project_summary_batch env (page_projects page) of
              Inl e \<Rightarrow> Inl e
            | Inr _ \<Rightarrow>
                (case env_page_json env page of
                   None \<Rightarrow> Inl (lit ''project_inventory_serialization_failed'')
                 | Some json \<Rightarrow>
                     if PROJECT_INVENTORY_PAGE_MAX_SERIALIZED_BYTES < str_len json
                     then Inl (lit ''project_inventory_page_too_large'')
                     else Inr (str_len json, env_sha256_hex env json))))"

section \<open>Staging\<close>

definition retire_generation :: "rstr \<Rightarrow> ProjectInventoryState \<Rightarrow> ProjectInventoryState" where
  "retire_generation generation s =
     (if generation = [] \<or> generation \<in> set (pin_retired_generations s) then s
      else let gens = pin_retired_generations s @ [generation]
           in s\<lparr>pin_retired_generations := drop (length gens - MAX_RETIRED_PROJECT_GENERATIONS) gens\<rparr>)"

definition drop_staging :: "ProjectInventoryState \<Rightarrow> ProjectInventoryState" where
  "drop_staging s =
     (case pin_staging s of
        None \<Rightarrow> s
      | Some staging \<Rightarrow> retire_generation (stg_generation staging) (s\<lparr>pin_staging := None\<rparr>))"

definition clear_staging :: "rstr option \<Rightarrow> int \<Rightarrow> InventoryRunner \<Rightarrow> InventoryRunner" where
  "clear_staging error_code now r =
     (let s = drop_staging (inv_state r) in
      r\<lparr>inv_state := (case error_code of
          None \<Rightarrow> s
        | Some code \<Rightarrow> s\<lparr>pin_status := inventory_status (lit ''degraded'') (st_generation (pin_status s))
            (st_total_reported (pin_status s)) (length (inv_projects r)) (Some code)
            (case st_last_sync_at (pin_status s) of None \<Rightarrow> Some now | Some t \<Rightarrow> Some t)\<rparr>)\<rparr>)"

definition preserve_authoritative_pending :: "nat \<Rightarrow> ProjectInventoryState \<Rightarrow> ProjectInventoryState" where
  "preserve_authoritative_pending total_synced existing =
     (let s = drop_staging existing in
      s\<lparr>pin_status := inventory_status (lit ''pending'') (st_generation (pin_status s)) None total_synced None
          (st_last_sync_at (pin_status s))\<rparr>)"

definition reconcile_dynamic_projection :: "int \<Rightarrow> InventoryRunner \<Rightarrow> InventoryRunner" where
  "reconcile_dynamic_projection now r0 =
     (let r = clear_staging None now r0;
          s = (case st_generation (pin_status (inv_state r)) of
                 None \<Rightarrow> inv_state r
               | Some previous \<Rightarrow> retire_generation previous (inv_state r))
      in r\<lparr>inv_state := s\<lparr>pin_status := inventory_status (lit ''complete'') None
             (Some (length (inv_projects r))) (length (inv_projects r)) None (Some now)\<rparr>\<rparr>)"

definition expire_staging :: "int \<Rightarrow> InventoryRunner \<Rightarrow> InventoryRunner" where
  "expire_staging now r =
     (case pin_staging (inv_state r) of
        None \<Rightarrow> r
      | Some staging \<Rightarrow>
          if PROJECT_INVENTORY_STAGING_TTL_SECS < i64_sat_sub now (stg_started_at staging)
          then clear_staging (Some (lit ''project_inventory_sync_timeout'')) now r else r)"

definition note_nonfatal_error :: "string \<Rightarrow> InventoryRunner \<Rightarrow> InventoryRunner" where
  "note_nonfatal_error code r =
     r\<lparr>inv_state := (inv_state r)\<lparr>pin_status := (pin_status (inv_state r))
        \<lparr>st_last_error_code := Some (lit code)\<rparr>\<rparr>\<rparr>"

definition fail_current_staging :: "rstr \<Rightarrow> int \<Rightarrow> InventoryRunner \<Rightarrow> InventoryRunner" where
  "fail_current_staging code now r = clear_staging (Some code) now r"

section \<open>Applying a page\<close>

definition staging_matches_page :: "ShellProjectInventoryPage \<Rightarrow> ProjectInventoryState \<Rightarrow> bool" where
  "staging_matches_page page s \<longleftrightarrow>
     (case pin_staging s of
        None \<Rightarrow> False
      | Some staging \<Rightarrow> stg_generation staging = page_generation page
          \<and> stg_snapshot_sequence staging = page_snapshot_sequence page)"

definition completed_generation_matches_page :: "ShellProjectInventoryPage \<Rightarrow> ProjectInventoryState \<Rightarrow> bool" where
  "completed_generation_matches_page page s \<longleftrightarrow>
     pin_staging s = None \<and> st_sync_state (pin_status s) = lit ''complete''
     \<and> st_generation (pin_status s) = Some (page_generation page)"

definition exact_last_page_replay :: "ShellProjectInventoryPage \<Rightarrow> rstr \<Rightarrow> ProjectInventoryState \<Rightarrow> bool" where
  "exact_last_page_replay page digest s \<longleftrightarrow>
     pin_last_page_generation s = Some (page_generation page)
     \<and> pin_last_page_index s = Some (page_index page) \<and> pin_last_page_digest s = Some digest"

text \<open>The staging of a generation that is new: \<open>Inl\<close> is an early return, \<open>Inr\<close> goes on.\<close>

definition new_staging :: "int \<Rightarrow> ShellProjectInventoryPage \<Rightarrow> ProjectInventoryStaging" where
  "new_staging now page =
     \<lparr>stg_generation = page_generation page, stg_snapshot_sequence = page_snapshot_sequence page,
      stg_total_reported = page_total_reported page, stg_next_page_index = 0, stg_projects = [],
      stg_seen_ids = {}, stg_serialized_bytes = 0, stg_started_at = now\<rparr>"

definition begin_generation ::
    "int \<Rightarrow> nat \<Rightarrow> ShellProjectInventoryPage \<Rightarrow> InventoryRunner \<Rightarrow> InventoryRunner + InventoryRunner" where
  "begin_generation now concurrent_staging page r =
     (let s = inv_state r in
      if staging_matches_page page s then Inr r
      else if page_index page \<noteq> 0
        then Inl (note_nonfatal_error ''project_inventory_missing_or_stale_generation'' r)
      else if pin_staging s = None \<and> PROJECT_INVENTORY_MAX_CONCURRENT_SYNCS \<le> concurrent_staging
        then Inl (r\<lparr>inv_state := s\<lparr>pin_status := inventory_status (lit ''degraded'')
               (st_generation (pin_status s)) (st_total_reported (pin_status s)) (length (inv_projects r))
               (Some (lit ''project_inventory_staging_capacity'')) (st_last_sync_at (pin_status s))\<rparr>\<rparr>)
      else if page_snapshot_sequence page \<le> pin_highest_snapshot_sequence s
        then Inl (note_nonfatal_error ''project_inventory_stale_generation'' r)
      else
        let s1 = s\<lparr>pin_highest_snapshot_sequence := page_snapshot_sequence page\<rparr>;
            s2 = (if st_sync_state (pin_status s1) = lit ''complete'' then
                    (case st_generation (pin_status s1) of
                       None \<Rightarrow> s1
                     | Some previous \<Rightarrow>
                         if previous \<noteq> page_generation page then retire_generation previous s1 else s1)
                  else s1);
            s3 = drop_staging s2
        in Inr (r\<lparr>inv_state := s3\<lparr>pin_staging := Some (new_staging now page)\<rparr>\<rparr>))"

definition staged_page ::
    "ShellProjectInventoryPage \<Rightarrow> nat \<Rightarrow> ProjectInventoryStaging \<Rightarrow> ProjectInventoryStaging" where
  "staged_page page next_bytes staging =
     staging\<lparr>stg_seen_ids := stg_seen_ids staging \<union> set (map prj_id (page_projects page)),
       stg_projects := stg_projects staging @ page_projects page, stg_serialized_bytes := next_bytes,
       stg_next_page_index := min (stg_next_page_index staging + 1) (2 ^ 32 - 1)\<rparr>"

definition record_page ::
    "ShellProjectInventoryPage \<Rightarrow> rstr \<Rightarrow> ProjectInventoryStaging \<Rightarrow> InventoryRunner \<Rightarrow> InventoryRunner" where
  "record_page page page_digest staging r =
     r\<lparr>inv_state := (inv_state r)\<lparr>pin_staging := Some staging,
        pin_last_page_generation := Some (page_generation page),
        pin_last_page_index := Some (page_index page), pin_last_page_digest := Some page_digest\<rparr>\<rparr>"

definition note_progress ::
    "ShellProjectInventoryPage \<Rightarrow> ProjectInventoryStaging \<Rightarrow> InventoryRunner \<Rightarrow> InventoryRunner" where
  "note_progress page staging r =
     r\<lparr>inv_state := (inv_state r)\<lparr>pin_status := inventory_status (lit ''in_progress'')
        (Some (page_generation page)) (Some (page_total_reported page)) (length (stg_projects staging)) None
        (st_last_sync_at (pin_status (inv_state r)))\<rparr>\<rparr>"

definition complete_staging ::
    "int \<Rightarrow> ShellProjectInventoryPage \<Rightarrow> InventoryRunner \<Rightarrow> InventoryRunner option" where
  "complete_staging now page r =
     (case pin_staging (inv_state r) of
        None \<Rightarrow> None
      | Some completed \<Rightarrow>
          let projects = sort_key prj_id (stg_projects completed) in
          Some (r\<lparr>inv_projects := projects,
            inv_state := (inv_state r)\<lparr>pin_staging := None,
              pin_status := inventory_status (lit ''complete'') (Some (page_generation page))
                (Some (length projects)) (length projects) None (Some now)\<rparr>\<rparr>))"

text \<open>The checks of a page against its staging, in their order.\<close>

definition stage_error :: "ShellProjectInventoryPage \<Rightarrow> nat \<Rightarrow> ProjectInventoryStaging \<Rightarrow> rstr option" where
  "stage_error page page_bytes staging =
     (let next_total = sat_add (length (stg_projects staging)) (length (page_projects page));
          next_bytes = sat_add (stg_serialized_bytes staging) page_bytes in
      if stg_next_page_index staging \<noteq> page_index page
        then Some (lit ''project_inventory_page_out_of_order'')
      else if stg_total_reported staging \<noteq> page_total_reported page
        then Some (lit ''project_inventory_total_changed'')
      else if list_ex (\<lambda>p. prj_id p \<in> stg_seen_ids staging) (page_projects page)
        then Some (lit ''project_inventory_duplicate_project_id'')
      else if stg_total_reported staging < next_total
          \<or> (page_complete page \<and> next_total \<noteq> stg_total_reported staging)
          \<or> (\<not> page_complete page \<and> stg_total_reported staging \<le> next_total)
        then Some (lit ''project_inventory_completion_mismatch'')
      else if PROJECT_INVENTORY_SNAPSHOT_MAX_SERIALIZED_BYTES < next_bytes
        then Some (lit ''project_inventory_snapshot_too_large'')
      else None)"

definition stage_page ::
    "int \<Rightarrow> ShellProjectInventoryPage \<Rightarrow> nat \<Rightarrow> rstr \<Rightarrow> InventoryRunner \<Rightarrow> InventoryRunner option" where
  "stage_page now page page_bytes page_digest r =
     (case pin_staging (inv_state r) of
        None \<Rightarrow> None
      | Some staging \<Rightarrow>
          if stg_generation staging \<noteq> page_generation page
              \<or> stg_snapshot_sequence staging \<noteq> page_snapshot_sequence page
            then Some (note_nonfatal_error ''project_inventory_stale_generation'' r)
          else (case stage_error page page_bytes staging of
              Some code \<Rightarrow> Some (fail_current_staging code now r)
            | None \<Rightarrow>
                let staging' = staged_page page (sat_add (stg_serialized_bytes staging) page_bytes) staging;
                    r1 = record_page page page_digest staging' r
                in if page_complete page then complete_staging now page r1
                   else Some (note_progress page staging' r1)))"

text \<open>The handler on the record of its Runner, after the lease checks.\<close>

definition apply_page ::
    "InventoryEnv \<Rightarrow> int \<Rightarrow> nat \<Rightarrow> ShellProjectInventoryPage \<Rightarrow> InventoryRunner \<Rightarrow> InventoryRunner option" where
  "apply_page env now concurrent_staging page r0 =
     (let r = expire_staging now (r0\<lparr>runner_last_seen := now\<rparr>); s = inv_state r in
      case validate_page env page of
        Inl code \<Rightarrow> Some (fail_current_staging code now r)
      | Inr (page_bytes, page_digest) \<Rightarrow>
          if exact_last_page_replay page page_digest s
              \<and> (staging_matches_page page s \<or> completed_generation_matches_page page s) then Some r
          else if page_snapshot_sequence page < pin_highest_snapshot_sequence s
              \<or> (page_snapshot_sequence page = pin_highest_snapshot_sequence s \<and> \<not> staging_matches_page page s)
            then Some (note_nonfatal_error ''project_inventory_stale_generation'' r)
          else if page_generation page \<in> set (pin_retired_generations s)
              \<or> completed_generation_matches_page page s
            then Some (note_nonfatal_error ''project_inventory_stale_generation'' r)
          else (case begin_generation now concurrent_staging page r of
              Inl r' \<Rightarrow> Some r'
            | Inr r' \<Rightarrow> stage_page now page page_bytes page_digest r'))"

text \<open>The registry is the association list of its hash map. The result is the new registry with the
  error or the status the Runner is told.\<close>

type_synonym inventory_registry = "(rstr \<times> InventoryRunner) list"

definition put_runner :: "rstr \<Rightarrow> InventoryRunner \<Rightarrow> inventory_registry \<Rightarrow> inventory_registry" where
  "put_runner client_id r reg = map (\<lambda>(k, old). (k, if k = client_id then r else old)) reg"

definition apply_project_inventory_page_checked ::
    "InventoryEnv \<Rightarrow> int \<Rightarrow> rstr \<Rightarrow> rstr \<Rightarrow> rstr option \<Rightarrow> ShellProjectInventoryPage \<Rightarrow> inventory_registry
     \<Rightarrow> (inventory_registry \<times> (rstr + ShellProjectInventoryStatus)) option" where
  "apply_project_inventory_page_checked env now client_id instance_id expected_connection_id page reg0 =
     (case validate_runner_instance_id instance_id of
        Inl e \<Rightarrow> Some (reg0, Inl e)
      | Inr _ \<Rightarrow>
          let reg = map (\<lambda>(k, r). (k, expire_staging now r)) reg0;
              concurrent_staging = length (filter (\<lambda>(k, r). pin_staging (inv_state r) \<noteq> None) reg)
          in case map_of reg client_id of
               None \<Rightarrow> Some (reg, Inl (lit ''unknown shell client: '' @ client_id))
             | Some r \<Rightarrow>
                 if runner_instance_id r \<noteq> instance_id
                   then Some (reg, Inl (lit ''runner '' @ client_id
                          @ lit '' is no longer the active instance (stale or replaced)''))
                 else if (case expected_connection_id of None \<Rightarrow> False
                          | Some expected \<Rightarrow> runner_connection_id r \<noteq> Some expected)
                   then Some (reg, Inl (lit ''runner '' @ client_id
                          @ lit '' transport connection is no longer active''))
                 else map_option (\<lambda>r'. (put_runner client_id r' reg, Inr (pin_status (inv_state r'))))
                        (apply_page env now concurrent_staging page r))"

definition apply_project_inventory_page where
  "apply_project_inventory_page env now client_id instance_id page reg =
     apply_project_inventory_page_checked env now client_id instance_id None page reg"

definition apply_project_inventory_page_for_connection where
  "apply_project_inventory_page_for_connection env now client_id instance_id connection_id page reg =
     apply_project_inventory_page_checked env now client_id instance_id (Some connection_id) page reg"

section \<open>Staging lemmas\<close>

lemma retire_generation_same [simp]:
  "pin_status (retire_generation g s) = pin_status s"
  "pin_staging (retire_generation g s) = pin_staging s"
  "pin_highest_snapshot_sequence (retire_generation g s) = pin_highest_snapshot_sequence s"
  "pin_last_page_generation (retire_generation g s) = pin_last_page_generation s"
  "pin_last_page_index (retire_generation g s) = pin_last_page_index s"
  "pin_last_page_digest (retire_generation g s) = pin_last_page_digest s"
  by (simp_all add: retire_generation_def Let_def)

lemma retire_generation_set: "set (pin_retired_generations (retire_generation g s)) \<subseteq> insert g (set (pin_retired_generations s))"
  by (auto simp: retire_generation_def Let_def dest!: in_set_dropD)

lemma retire_generation_bound:
  "length (pin_retired_generations s) \<le> MAX_RETIRED_PROJECT_GENERATIONS \<Longrightarrow>
     length (pin_retired_generations (retire_generation g s)) \<le> MAX_RETIRED_PROJECT_GENERATIONS"
  by (auto simp: retire_generation_def Let_def MAX_RETIRED_PROJECT_GENERATIONS_def)

lemma drop_staging_same [simp]:
  "pin_status (drop_staging s) = pin_status s"
  "pin_staging (drop_staging s) = None"
  "pin_highest_snapshot_sequence (drop_staging s) = pin_highest_snapshot_sequence s"
  "pin_last_page_index (drop_staging s) = pin_last_page_index s"
  by (simp_all add: drop_staging_def split: option.splits)

lemma drop_staging_bound:
  "length (pin_retired_generations s) \<le> MAX_RETIRED_PROJECT_GENERATIONS \<Longrightarrow>
     length (pin_retired_generations (drop_staging s)) \<le> MAX_RETIRED_PROJECT_GENERATIONS"
  by (auto simp: drop_staging_def split: option.splits intro!: retire_generation_bound)

lemma drop_staging_set:
  "set (pin_retired_generations (drop_staging s)) \<subseteq>
     set (pin_retired_generations s) \<union> (case pin_staging s of None \<Rightarrow> {} | Some stg \<Rightarrow> {stg_generation stg})"
  using retire_generation_set by (fastforce simp: drop_staging_def split: option.splits)

lemma clear_staging_same [simp]:
  "inv_projects (clear_staging e now r) = inv_projects r"
  "pin_staging (inv_state (clear_staging e now r)) = None"
  "pin_highest_snapshot_sequence (inv_state (clear_staging e now r)) = pin_highest_snapshot_sequence (inv_state r)"
  "pin_retired_generations (inv_state (clear_staging e now r)) = pin_retired_generations (drop_staging (inv_state r))"
  by (simp_all add: clear_staging_def Let_def split: option.splits)

lemma fail_current_staging_same [simp]:
  "inv_projects (fail_current_staging e now r) = inv_projects r"
  "pin_staging (inv_state (fail_current_staging e now r)) = None"
  "pin_highest_snapshot_sequence (inv_state (fail_current_staging e now r)) = pin_highest_snapshot_sequence (inv_state r)"
  "pin_retired_generations (inv_state (fail_current_staging e now r)) = pin_retired_generations (drop_staging (inv_state r))"
  by (simp_all add: fail_current_staging_def)

lemma note_nonfatal_error_same [simp]:
  "inv_projects (note_nonfatal_error e r) = inv_projects r"
  "pin_staging (inv_state (note_nonfatal_error e r)) = pin_staging (inv_state r)"
  "pin_highest_snapshot_sequence (inv_state (note_nonfatal_error e r)) = pin_highest_snapshot_sequence (inv_state r)"
  "pin_retired_generations (inv_state (note_nonfatal_error e r)) = pin_retired_generations (inv_state r)"
  by (simp_all add: note_nonfatal_error_def)

lemma expire_staging_same [simp]:
  "inv_projects (expire_staging now r) = inv_projects r"
  "pin_highest_snapshot_sequence (inv_state (expire_staging now r)) = pin_highest_snapshot_sequence (inv_state r)"
  by (simp_all add: expire_staging_def split: option.splits)

lemma expire_staging_cases:
  "expire_staging now r = r \<or>
   expire_staging now r = clear_staging (Some (lit ''project_inventory_sync_timeout'')) now r"
  by (simp add: expire_staging_def split: option.splits)

section \<open>The invariant\<close>

definition staging_ok :: "nat \<Rightarrow> ProjectInventoryStaging \<Rightarrow> bool" where
  "staging_ok highest stg \<longleftrightarrow>
     stg_snapshot_sequence stg = highest \<and> stg_seen_ids stg = set (map prj_id (stg_projects stg)) \<and>
     distinct (map prj_id (stg_projects stg)) \<and>
     stg_serialized_bytes stg \<le> PROJECT_INVENTORY_SNAPSHOT_MAX_SERIALIZED_BYTES"

definition state_ok :: "ProjectInventoryState \<Rightarrow> bool" where
  "state_ok s \<longleftrightarrow> length (pin_retired_generations s) \<le> MAX_RETIRED_PROJECT_GENERATIONS \<and>
     (\<forall>stg. pin_staging s = Some stg \<longrightarrow> staging_ok (pin_highest_snapshot_sequence s) stg)"

abbreviation inventory_ok :: "InventoryRunner \<Rightarrow> bool" where
  "inventory_ok r \<equiv> state_ok (inv_state r)"

lemma state_ok_drop [simp]: "state_ok s \<Longrightarrow> state_ok (drop_staging s)"
  by (simp add: state_ok_def drop_staging_bound)

lemma inventory_ok_clear [simp]: "inventory_ok r \<Longrightarrow> inventory_ok (clear_staging e now r)"
  by (simp add: state_ok_def drop_staging_bound)

lemma inventory_ok_fail [simp]: "inventory_ok r \<Longrightarrow> inventory_ok (fail_current_staging e now r)"
  by (simp add: fail_current_staging_def)

lemma inventory_ok_note [simp]: "inventory_ok (note_nonfatal_error e r) = inventory_ok r"
  by (simp add: state_ok_def split: option.splits)

lemma inventory_ok_expire [simp]: "inventory_ok r \<Longrightarrow> inventory_ok (expire_staging now r)"
  using expire_staging_cases [of now r] by (elim disjE) simp_all

lemma validate_page_ok:
  assumes "validate_page env page = Inr (b, d)"
  shows "distinct (map prj_id (page_projects page))"
    and "page_total_reported page \<noteq> 0 \<Longrightarrow> page_projects page \<noteq> []"
    and "page_total_reported page = 0 \<Longrightarrow> page_index page = 0 \<and> page_complete page \<and> page_projects page = []"
  using assms card_distinct [of "map prj_id (page_projects page)"]
  by (auto simp: validate_page_def validate_project_summary_batch_def split: sum.splits if_splits option.splits)

lemma begin_generation_Inr:
  assumes "begin_generation now c page r = Inr r'" "inventory_ok r"
  shows "inventory_ok r' \<and> inv_projects r' = inv_projects r \<and> staging_matches_page page (inv_state r') \<and>
    pin_highest_snapshot_sequence (inv_state r) \<le> pin_highest_snapshot_sequence (inv_state r') \<and>
    (r' = r \<or> page_index page = 0 \<and> pin_highest_snapshot_sequence (inv_state r) < page_snapshot_sequence page
       \<and> pin_staging (inv_state r') = Some (new_staging now page))"
  using assms
  by (auto simp: begin_generation_def Let_def staging_matches_page_def new_staging_def state_ok_def staging_ok_def
      split: if_splits option.splits intro!: drop_staging_bound retire_generation_bound)

lemma begin_generation_Inl:
  assumes "begin_generation now c page r = Inl r'"
  shows "inv_projects r' = inv_projects r \<and> pin_staging (inv_state r') = pin_staging (inv_state r) \<and>
    pin_retired_generations (inv_state r') = pin_retired_generations (inv_state r) \<and>
    pin_highest_snapshot_sequence (inv_state r') = pin_highest_snapshot_sequence (inv_state r)"
  using assms by (auto simp: begin_generation_def Let_def split: if_splits option.splits)

text \<open>A publication replaces the projects by the staged ones and the ones of the last page, sorted.\<close>

definition publication :: "ShellProjectInventoryPage \<Rightarrow> RunnerProjectSummary list \<Rightarrow> InventoryRunner \<Rightarrow> bool" where
  "publication page staged r \<longleftrightarrow>
     page_complete page \<and> inv_projects r = sort_key prj_id (staged @ page_projects page) \<and>
     distinct (map prj_id (inv_projects r)) \<and>
     sat_add (length staged) (length (page_projects page)) = page_total_reported page \<and>
     pin_staging (inv_state r) = None \<and> st_sync_state (pin_status (inv_state r)) = lit ''complete'' \<and>
     st_generation (pin_status (inv_state r)) = Some (page_generation page) \<and>
     st_total_synced (pin_status (inv_state r)) = length (inv_projects r)"

lemma distinct_sort_ids: "distinct (map prj_id ps) \<Longrightarrow> distinct (map prj_id (sort_key prj_id ps))"
  by (simp add: distinct_map)

lemma stage_error_None:
  "stage_error page b stg = None \<longleftrightarrow>
     stg_next_page_index stg = page_index page \<and> stg_total_reported stg = page_total_reported page
     \<and> (\<forall>p \<in> set (page_projects page). prj_id p \<notin> stg_seen_ids stg)
     \<and> sat_add (length (stg_projects stg)) (length (page_projects page)) \<le> stg_total_reported stg
     \<and> (page_complete page \<longleftrightarrow> sat_add (length (stg_projects stg)) (length (page_projects page)) = stg_total_reported stg)
     \<and> sat_add (stg_serialized_bytes stg) b \<le> PROJECT_INVENTORY_SNAPSHOT_MAX_SERIALIZED_BYTES"
  by (auto simp: stage_error_def Let_def list_ex_iff)

lemma disjoint_images: "(\<And>x. x \<in> B \<Longrightarrow> f x \<notin> f ` A) \<Longrightarrow> f ` A \<inter> f ` B = {}"
  by (rule Int_emptyI) (erule imageE, simp)+

lemma stage_page_cases:
  assumes stg: "pin_staging (inv_state r) = Some stg" and m: "staging_matches_page page (inv_state r)"
    and ok: "inventory_ok r" and dist: "distinct (map prj_id (page_projects page))"
  obtains r' where "stage_page now page b d r = Some r'" "inventory_ok r'"
    "pin_highest_snapshot_sequence (inv_state r') = pin_highest_snapshot_sequence (inv_state r)"
    "inv_projects r' = inv_projects r \<or> publication page (stg_projects stg) r'"
proof (cases "stage_error page b stg")
  case (Some e)
  then have "stage_page now page b d r = Some (fail_current_staging e now r)"
    using stg m by (auto simp: stage_page_def staging_matches_page_def)
  then show thesis using that ok by simp
next
  case None
  let ?stg = "staged_page page (sat_add (stg_serialized_bytes stg) b) stg"
  have ok_stg: "staging_ok (pin_highest_snapshot_sequence (inv_state r)) stg"
    using ok stg by (simp add: state_ok_def)
  have "stg_seen_ids stg = prj_id ` set (stg_projects stg)"
    using ok_stg by (simp add: staging_ok_def)
  then have "prj_id p \<notin> prj_id ` set (stg_projects stg)" if "p \<in> set (page_projects page)" for p
    using None that by (simp add: stage_error_None)
  then have "prj_id ` set (stg_projects stg) \<inter> prj_id ` set (page_projects page) = {}"
    by (rule disjoint_images)
  with ok_stg None dist have stg': "staging_ok (pin_highest_snapshot_sequence (inv_state r)) ?stg"
    by (simp add: stage_error_None staging_ok_def staged_page_def)
  then have dist': "distinct (map prj_id (stg_projects stg @ page_projects page))"
    by (simp add: staging_ok_def staged_page_def)
  let ?r = "record_page page d ?stg r"
  have res: "stage_page now page b d r =
      (if page_complete page then complete_staging now page ?r else Some (note_progress page ?stg ?r))"
    using None stg m by (auto simp: stage_page_def staging_matches_page_def Let_def)
  have r: "inventory_ok ?r" using ok stg' by (simp add: record_page_def state_ok_def)
  show thesis
  proof (cases "page_complete page")
    case True
    obtain r' where r': "complete_staging now page ?r = Some r'" "publication page (stg_projects stg) r'"
        "inventory_ok r'" "pin_highest_snapshot_sequence (inv_state r') = pin_highest_snapshot_sequence (inv_state r)"
      using True None ok distinct_sort_ids [OF dist']
      by (simp add: complete_staging_def record_page_def publication_def inventory_status_def staged_page_def
          stage_error_None Let_def state_ok_def)
    then show thesis using that True res by simp
  next
    case False
    have "inventory_ok (note_progress page ?stg ?r)" using r by (simp add: note_progress_def state_ok_def)
    then show thesis using that False res by (simp add: note_progress_def record_page_def)
  qed
qed

lemma apply_page_cases:
  assumes ok: "inventory_ok r"
  obtains r' where "apply_page env now c page r = Some r'" "inventory_ok r'"
    "pin_highest_snapshot_sequence (inv_state r) \<le> pin_highest_snapshot_sequence (inv_state r')"
    "inv_projects r' = inv_projects r \<or>
     (\<exists>staged. publication page staged r' \<and>
        ((\<exists>stg. pin_staging (inv_state r) = Some stg \<and> staging_matches_page page (inv_state r) \<and> staged = stg_projects stg)
         \<or> staged = [] \<and> page_index page = 0
           \<and> pin_highest_snapshot_sequence (inv_state r) < page_snapshot_sequence page))"
proof -
  define r1 where "r1 = expire_staging now (r\<lparr>runner_last_seen := now\<rparr>)"
  have r1: "inventory_ok r1" "inv_projects r1 = inv_projects r"
    "pin_highest_snapshot_sequence (inv_state r1) = pin_highest_snapshot_sequence (inv_state r)"
    using ok inventory_ok_expire [of "r\<lparr>runner_last_seen := now\<rparr>" now] by (simp_all add: r1_def)
  have stg1: "inv_state r1 = inv_state r \<or> pin_staging (inv_state r1) = None"
    using expire_staging_cases [of now "r\<lparr>runner_last_seen := now\<rparr>"] by (auto simp: r1_def)
  note app = apply_page_def Let_def r1_def [symmetric]
  show thesis
  proof (cases "validate_page env page")
    case (Inl code)
    with r1 show thesis by (intro that [of "fail_current_staging code now r1"]) (simp_all add: app)
  next
    case (Inr bd)
    obtain b d where bd: "bd = (b, d)" by (cases bd)
    with Inr have v: "validate_page env page = Inr (b, d)" by simp
    have "apply_page env now c page r \<in>
        {Some r1, Some (note_nonfatal_error ''project_inventory_stale_generation'' r1),
         case begin_generation now c page r1 of Inl r' \<Rightarrow> Some r' | Inr r' \<Rightarrow> stage_page now page b d r'}"
      using v by (simp add: app)
    then consider (same) r2 where "apply_page env now c page r = Some r2" "inventory_ok r2"
        "inv_projects r2 = inv_projects r"
        "pin_highest_snapshot_sequence (inv_state r2) = pin_highest_snapshot_sequence (inv_state r)"
      | (go) "apply_page env now c page r = (case begin_generation now c page r1 of Inl r' \<Rightarrow> Some r'
            | Inr r' \<Rightarrow> stage_page now page b d r')"
      using r1 by force
    then show thesis
    proof cases
      case same
      with that show thesis by simp
    next
      case go
      show thesis
      proof (cases "begin_generation now c page r1")
        case (Inl r2)
        note b = begin_generation_Inl [OF Inl]
        then have "inventory_ok r2" using r1(1) by (simp add: state_ok_def split: option.splits)
        with b r1 go Inl that show thesis by simp
      next
        case (Inr r2)
        note b = begin_generation_Inr [OF Inr r1(1)]
        then obtain stg where stg: "pin_staging (inv_state r2) = Some stg"
          by (auto simp: staging_matches_page_def split: option.splits)
        have from_r: "(\<exists>s. pin_staging (inv_state r) = Some s \<and> staging_matches_page page (inv_state r)
              \<and> stg_projects stg = stg_projects s)
            \<or> stg_projects stg = [] \<and> page_index page = 0
              \<and> pin_highest_snapshot_sequence (inv_state r) < page_snapshot_sequence page"
          using b stg stg1 r1(3) by (auto simp: new_staging_def)
        from stage_page_cases [OF stg _ _ validate_page_ok(1) [OF v], of now b d] b
        obtain r' where "stage_page now page b d r2 = Some r'" "inventory_ok r'"
            "pin_highest_snapshot_sequence (inv_state r') = pin_highest_snapshot_sequence (inv_state r2)"
            "inv_projects r' = inv_projects r2 \<or> publication page (stg_projects stg) r'" by blast
        with b r1 go Inr from_r that [of r'] show thesis by (simp only: sum.case) metis
      qed
    qed
  qed
qed

section \<open>Runs\<close>

datatype inventory_op =
  ApplyPage int nat ShellProjectInventoryPage
| Expire int
| Reconcile int
| Preserve nat

text \<open>A panic would leave the record as it is; that there is none is part of the property.\<close>

primrec inventory_step :: "InventoryEnv \<Rightarrow> inventory_op \<Rightarrow> InventoryRunner \<Rightarrow> InventoryRunner" where
  "inventory_step env (ApplyPage now c page) r = (case apply_page env now c page r of Some r' \<Rightarrow> r' | None \<Rightarrow> r)"
| "inventory_step env (Expire now) r = expire_staging now r"
| "inventory_step env (Reconcile now) r = reconcile_dynamic_projection now r"
| "inventory_step env (Preserve total_synced) r =
     r\<lparr>inv_state := preserve_authoritative_pending total_synced (inv_state r)\<rparr>"

lemma reconcile_same [simp]:
  "inv_projects (reconcile_dynamic_projection now r) = inv_projects r"
  "pin_staging (inv_state (reconcile_dynamic_projection now r)) = None"
  "pin_highest_snapshot_sequence (inv_state (reconcile_dynamic_projection now r)) =
     pin_highest_snapshot_sequence (inv_state r)"
  by (simp_all add: reconcile_dynamic_projection_def Let_def split: option.splits)

lemma inventory_ok_reconcile: "inventory_ok r \<Longrightarrow> inventory_ok (reconcile_dynamic_projection now r)"
  by (auto simp: reconcile_dynamic_projection_def Let_def state_ok_def split: option.splits
      intro!: retire_generation_bound drop_staging_bound)

lemma inventory_step_ok:
  assumes "inventory_ok r"
  shows "inventory_ok (inventory_step env x r)
    \<and> pin_highest_snapshot_sequence (inv_state r) \<le> pin_highest_snapshot_sequence (inv_state (inventory_step env x r))"
proof (cases x)
  case (ApplyPage now c page)
  show ?thesis unfolding ApplyPage
    by (rule apply_page_cases [OF assms, of env now c page]) (simp only: inventory_step.simps option.case simp_thms)
next
  case (Reconcile now)
  then show ?thesis using assms by (simp add: inventory_ok_reconcile)
next
  case (Preserve n)
  then show ?thesis using assms
    by (simp add: preserve_authoritative_pending_def Let_def state_ok_def drop_staging_bound)
qed (simp_all add: assms)

interpretation inventory: monotone_machine "inventory_step env" inventory_ok
    "\<lambda>r. pin_highest_snapshot_sequence (inv_state r)" for env
  by unfold_locales (simp_all add: inventory_step_ok)

lemma inventory_ok_fresh: "inventory_ok (r\<lparr>inv_state := pending_inventory_state n\<rparr>)"
  by (simp add: pending_inventory_state_def state_ok_def)

text \<open>From the registration of a Runner process, whatever pages arrive in whatever order, with
  expiries, dynamic project changes and re-registrations between them: no page makes the handler
  panic, at most sixteen retired generations and 16 MiB of staged pages are held, the staged
  project ids are distinct, and the freshness mark never goes back.\<close>

theorem inventory_runs_are_bounded:
  "let r = fold (inventory_step env) xs (r0\<lparr>inv_state := pending_inventory_state n\<rparr>);
       r' = fold (inventory_step env) ys r
   in apply_page env now c page r \<noteq> None
    \<and> length (pin_retired_generations (inv_state r)) \<le> 16
    \<and> pin_highest_snapshot_sequence (inv_state r) \<le> pin_highest_snapshot_sequence (inv_state r')
    \<and> (case pin_staging (inv_state r) of None \<Rightarrow> True
       | Some stg \<Rightarrow> stg_serialized_bytes stg \<le> 16 * 1024 * 1024 \<and> distinct (map prj_id (stg_projects stg))
           \<and> stg_snapshot_sequence stg = pin_highest_snapshot_sequence (inv_state r))"
proof -
  define r where "r = fold (inventory_step env) xs (r0\<lparr>inv_state := pending_inventory_state n\<rparr>)"
  have ok: "inventory_ok r" unfolding r_def by (rule inventory.run_inv [OF inventory_ok_fresh])
  obtain r1 where "apply_page env now c page r = Some r1" using apply_page_cases [OF ok] by blast
  moreover note inventory.run_rank [OF ok, of env ys]
  ultimately show ?thesis using ok unfolding Let_def r_def [symmetric]
    by (auto simp: state_ok_def staging_ok_def MAX_RETIRED_PROJECT_GENERATIONS_def
        PROJECT_INVENTORY_SNAPSHOT_MAX_SERIALIZED_BYTES_def split: option.splits)
qed

text \<open>C38: Publication is atomic. A page changes the published projects only if it is the last page
  of its snapshot; then the projects become exactly the ones staged before, in pages of the same
  generation and sequence, and those of the page, sorted by id, as many as the snapshot announced
  and without a repeated id. A first page has to be newer than everything seen before.\<close>

theorem publication_is_atomic:
  assumes "inventory_ok r" "apply_page env now c page r = Some r'" "inv_projects r' \<noteq> inv_projects r"
    "page_total_reported page < usize_max"
  shows "page_complete page \<and> st_sync_state (pin_status (inv_state r')) = lit ''complete''
    \<and> st_generation (pin_status (inv_state r')) = Some (page_generation page)
    \<and> length (inv_projects r') = page_total_reported page \<and> distinct (map prj_id (inv_projects r'))
    \<and> (case pin_staging (inv_state r) of
        None \<Rightarrow> inv_projects r' = sort_key prj_id (page_projects page) \<and> page_index page = 0
          \<and> pin_highest_snapshot_sequence (inv_state r) < page_snapshot_sequence page
      | Some stg \<Rightarrow>
          stg_generation stg = page_generation page \<and> stg_snapshot_sequence stg = page_snapshot_sequence page
            \<and> inv_projects r' = sort_key prj_id (stg_projects stg @ page_projects page)
          \<or> inv_projects r' = sort_key prj_id (page_projects page) \<and> page_index page = 0
            \<and> pin_highest_snapshot_sequence (inv_state r) < page_snapshot_sequence page)"
proof -
  from apply_page_cases [OF assms(1), of env now c page] assms(2,3)
  obtain staged where pub: "publication page staged r'"
    and staged: "(\<exists>stg. pin_staging (inv_state r) = Some stg \<and> staging_matches_page page (inv_state r)
          \<and> staged = stg_projects stg)
        \<or> staged = [] \<and> page_index page = 0
          \<and> pin_highest_snapshot_sequence (inv_state r) < page_snapshot_sequence page"
    by (metis option.inject)
  from pub have "length staged + length (page_projects page) = page_total_reported page"
    using assms(4) by (auto simp: publication_def sat_add_def)
  with pub have "page_complete page \<and> st_sync_state (pin_status (inv_state r')) = lit ''complete''
    \<and> st_generation (pin_status (inv_state r')) = Some (page_generation page)
    \<and> length (inv_projects r') = page_total_reported page \<and> distinct (map prj_id (inv_projects r'))"
    unfolding publication_def by (elim conjE) (intro conjI; simp only: length_sort length_append)
  moreover have "inv_projects r' = sort_key prj_id (staged @ page_projects page)"
    using pub by (simp add: publication_def)
  ultimately show ?thesis using staged by (auto simp: staging_matches_page_def split: option.splits)
qed

section \<open>Delayed pages\<close>

lemma apply_page_stale:
  assumes "pin_staging (inv_state r) = None"
    "page_snapshot_sequence page \<le> pin_highest_snapshot_sequence (inv_state r)"
  shows "\<exists>r'. apply_page env now c page r = Some r' \<and> inv_projects r' = inv_projects r
    \<and> pin_staging (inv_state r') = None
    \<and> pin_highest_snapshot_sequence (inv_state r') = pin_highest_snapshot_sequence (inv_state r)"
proof -
  have e: "expire_staging now (r\<lparr>runner_last_seen := now\<rparr>) = r\<lparr>runner_last_seen := now\<rparr>"
    using assms by (simp add: expire_staging_def)
  have m: "\<not> staging_matches_page page (inv_state r)" using assms by (simp add: staging_matches_page_def)
  have "page_snapshot_sequence page < pin_highest_snapshot_sequence (inv_state r) \<or>
      page_snapshot_sequence page = pin_highest_snapshot_sequence (inv_state r)"
    using assms(2) by arith
  with m assms(1) show ?thesis
    by (auto simp: apply_page_def Let_def e split: sum.splits)
qed

text \<open>A change of the projects by register or unregister is not undone by a delayed snapshot:
  after it, pages of every snapshot begun before it, however many and in whatever order, leave the
  published projects as they are.\<close>

theorem delayed_pages_are_inert:
  assumes "\<forall>(now, c, page) \<in> set ps. page_snapshot_sequence page \<le> pin_highest_snapshot_sequence (inv_state r)"
  shows "inv_projects (fold (\<lambda>(now, c, page). inventory_step env (ApplyPage now c page)) ps
      (reconcile_dynamic_projection t r)) = inv_projects r"
proof -
  have "inv_projects (fold (\<lambda>(now, c, page). inventory_step env (ApplyPage now c page)) ps r') = inv_projects r"
    if "pin_staging (inv_state r') = None" "inv_projects r' = inv_projects r"
      "pin_highest_snapshot_sequence (inv_state r') = pin_highest_snapshot_sequence (inv_state r)" for r'
    using assms that
  proof (induction ps arbitrary: r')
    case (Cons x ps)
    obtain now c page where x: "x = (now, c, page)" by (cases x)
    from Cons.prems x apply_page_stale [of r' page env now c] obtain r2 where
      "apply_page env now c page r' = Some r2" "inv_projects r2 = inv_projects r"
      "pin_staging (inv_state r2) = None"
      "pin_highest_snapshot_sequence (inv_state r2) = pin_highest_snapshot_sequence (inv_state r)" by auto
    with Cons.IH [of r2] Cons.prems(1) x show ?case by simp
  qed simp
  then show ?thesis by simp
qed

section \<open>A transfer in order\<close>

text \<open>The pages of a snapshot whose projects come in the given chunks.\<close>

definition snap_page :: "rstr \<Rightarrow> nat \<Rightarrow> RunnerProjectSummary list list \<Rightarrow> nat \<Rightarrow> ShellProjectInventoryPage" where
  "snap_page g q chunks i =
     \<lparr>page_generation = g, page_snapshot_sequence = q, page_index = i,
      page_total_reported = length (concat chunks), page_complete = (i + 1 = length chunks),
      page_projects = chunks ! i\<rparr>"

lemma snap_page_simps [simp]:
  "page_generation (snap_page g q chunks i) = g" "page_snapshot_sequence (snap_page g q chunks i) = q"
  "page_index (snap_page g q chunks i) = i" "page_total_reported (snap_page g q chunks i) = length (concat chunks)"
  "page_complete (snap_page g q chunks i) = (i + 1 = length chunks)"
  "page_projects (snap_page g q chunks i) = chunks ! i"
  by (simp_all add: snap_page_def)

fun apply_pages ::
    "InventoryEnv \<Rightarrow> (int \<times> nat \<times> ShellProjectInventoryPage) list \<Rightarrow> InventoryRunner \<Rightarrow> InventoryRunner option" where
  "apply_pages env [] r = Some r"
| "apply_pages env ((now, c, page) # ps) r =
     (case apply_page env now c page r of None \<Rightarrow> None | Some r' \<Rightarrow> apply_pages env ps r')"

lemma apply_pages_append:
  "apply_pages env (ps @ qs) r = (case apply_pages env ps r of None \<Rightarrow> None | Some r' \<Rightarrow> apply_pages env qs r')"
  by (induction env ps r rule: apply_pages.induct) (auto split: option.splits)

text \<open>The state after the first \<open>k\<close> pages.\<close>

definition transferring ::
    "rstr \<Rightarrow> nat \<Rightarrow> RunnerProjectSummary list list \<Rightarrow> (nat \<Rightarrow> nat) \<Rightarrow> int \<Rightarrow> nat \<Rightarrow> InventoryRunner \<Rightarrow> bool" where
  "transferring g q chunks b t0 k r \<longleftrightarrow>
     pin_highest_snapshot_sequence (inv_state r) = q \<and> g \<notin> set (pin_retired_generations (inv_state r)) \<and>
     (0 < k \<longrightarrow> pin_last_page_index (inv_state r) = Some (k - 1)) \<and>
     pin_staging (inv_state r) = Some
       \<lparr>stg_generation = g, stg_snapshot_sequence = q, stg_total_reported = length (concat chunks),
        stg_next_page_index = k, stg_projects = concat (take k chunks),
        stg_seen_ids = set (map prj_id (concat (take k chunks))), stg_serialized_bytes = (\<Sum>i<k. b i),
        stg_started_at = t0\<rparr>"

lemma concat_take_Suc: "k < length xs \<Longrightarrow> concat (take (Suc k) xs) = concat (take k xs) @ xs ! k"
  by (simp add: take_Suc_conv_app_nth)

lemma length_concat_take: "length (concat (take k xs)) \<le> length (concat xs)"
  by (metis append_take_drop_id concat_append length_append le_add1)

lemma length_concat_take_less:
  assumes "k < length xs" "\<And>i. i < length xs \<Longrightarrow> xs ! i \<noteq> []"
  shows "length (concat (take k xs)) < length (concat xs)"
proof -
  have "length (concat (take k xs)) + length (xs ! k) \<le> length (concat xs)"
    using length_concat_take [of "Suc k" xs] assms(1) by (simp only: concat_take_Suc length_append)
  moreover have "0 < length (xs ! k)" using assms by simp
  ultimately show ?thesis by linarith
qed

lemma distinct_concat_take:
  assumes "distinct (map f (concat xs))" "k < length xs" "p \<in> set (xs ! k)"
  shows "f p \<notin> f ` set (concat (take k xs))"
proof -
  have "concat xs = concat (take k xs) @ xs ! k @ concat (drop (Suc k) xs)"
    using assms(2) by (metis concat.simps(2) concat_append id_take_nth_drop)
  with assms(1) have "f ` set (concat (take k xs)) \<inter> f ` set (xs ! k) = {}"
    by (simp only: map_append distinct_append set_append set_map) (simp only: Int_Un_distrib Un_empty)
  with assms(3) show ?thesis by blast
qed

lemma stage_transfer:
  assumes tr: "transferring g q chunks b t0 k r" and k: "k < length chunks" "length chunks < 2 ^ 32"
    and nonempty: "concat chunks \<noteq> [] \<Longrightarrow> (\<forall>i < length chunks. chunks ! i \<noteq> [])"
    and single: "concat chunks = [] \<Longrightarrow> length chunks = 1"
    and dist: "distinct (map prj_id (concat chunks))"
    and bytes: "(\<Sum>i<length chunks. b i) \<le> PROJECT_INVENTORY_SNAPSHOT_MAX_SERIALIZED_BYTES"
    and total: "length (concat chunks) < usize_max"
  shows "\<exists>r'. stage_page now (snap_page g q chunks k) (b k) d r = Some r' \<and>
    (if k + 1 = length chunks
     then inv_projects r' = sort_key prj_id (concat chunks) \<and> pin_staging (inv_state r') = None
       \<and> pin_highest_snapshot_sequence (inv_state r') = q
       \<and> st_sync_state (pin_status (inv_state r')) = lit ''complete''
       \<and> st_generation (pin_status (inv_state r')) = Some g
     else inv_projects r' = inv_projects r \<and> transferring g q chunks b t0 (k + 1) r')"
proof -
  let ?page = "snap_page g q chunks k"
  define stg where "stg = \<lparr>stg_generation = g, stg_snapshot_sequence = q,
        stg_total_reported = length (concat chunks),
        stg_next_page_index = k, stg_projects = concat (take k chunks),
        stg_seen_ids = set (map prj_id (concat (take k chunks))), stg_serialized_bytes = (\<Sum>i<k. b i),
        stg_started_at = t0\<rparr>"
  have stg: "pin_staging (inv_state r) = Some stg" using tr by (simp add: transferring_def stg_def)
  have sum: "(\<Sum>i<k. b i) + b k \<le> (\<Sum>i<length chunks. b i)"
    using sum_mono2 [of "{..<length chunks}" "{..<Suc k}" b] k(1) by auto
  have len: "length (concat (take k chunks)) + length (chunks ! k) = length (concat (take (Suc k) chunks))"
    using k(1) by (simp only: concat_take_Suc length_append)
  have le: "length (concat (take (Suc k) chunks)) \<le> length (concat chunks)" by (rule length_concat_take)
  have full: "k + 1 = length chunks \<longleftrightarrow> length (concat (take (Suc k) chunks)) = length (concat chunks)"
  proof (cases "k + 1 = length chunks")
    case False
    then have "concat chunks \<noteq> []" using single k(1) by auto
    moreover have "Suc k < length chunks" using False k(1) by simp
    ultimately have "length (concat (take (Suc k) chunks)) < length (concat chunks)"
      using nonempty by (intro length_concat_take_less) auto
    then show ?thesis using False by simp
  qed simp
  have big: "PROJECT_INVENTORY_SNAPSHOT_MAX_SERIALIZED_BYTES < usize_max"
    by (simp add: PROJECT_INVENTORY_SNAPSHOT_MAX_SERIALIZED_BYTES_def usize_max_def)
  have none: "stage_error ?page (b k) stg = None"
    unfolding stage_error_None
    using distinct_concat_take [OF dist k(1)] len le full sum bytes total big
    by (auto simp: stg_def simp del: concat_eq_Nil_conv set_concat)
  have b': "sat_add (\<Sum>i<k. b i) (b k) = (\<Sum>i<Suc k. b i)" using sum bytes big by simp
  have stg': "staged_page ?page (sat_add (stg_serialized_bytes stg) (b k)) stg =
      stg\<lparr>stg_seen_ids := set (map prj_id (concat (take (Suc k) chunks))),
        stg_projects := concat (take (Suc k) chunks), stg_serialized_bytes := (\<Sum>i<Suc k. b i),
        stg_next_page_index := min (k + 1) (2 ^ 32 - 1)\<rparr>"
    using k(1) b' by (simp add: staged_page_def stg_def concat_take_Suc image_Un)
  let ?r = "record_page ?page d (staged_page ?page (sat_add (stg_serialized_bytes stg) (b k)) stg) r"
  have fields: "stg_generation stg = g" "stg_snapshot_sequence stg = q" by (simp_all add: stg_def)
  have res: "stage_page now ?page (b k) d r = (if k + 1 = length chunks then complete_staging now ?page ?r
      else Some (note_progress ?page (staged_page ?page (sat_add (stg_serialized_bytes stg) (b k)) stg) ?r))"
    by (simp add: stage_page_def Let_def none stg fields)
  show ?thesis
  proof (cases "k + 1 = length chunks")
    case True
    then have "concat (take (Suc k) chunks) = concat chunks" by simp
    with True tr show ?thesis unfolding res stg'
      by (simp add: complete_staging_def record_page_def inventory_status_def Let_def transferring_def)
  next
    case False
    then have "min (k + 1) (2 ^ 32 - 1) = k + 1" using k by simp
    with False tr show ?thesis unfolding res stg'
      by (simp add: record_page_def note_progress_def transferring_def stg_def)
  qed
qed

text \<open>The first page of a fresh generation starts its staging, also over an older one.\<close>

lemma begin_transfer:
  assumes "pin_highest_snapshot_sequence (inv_state r) < q" "g \<notin> set (pin_retired_generations (inv_state r))"
    and "case pin_staging (inv_state r) of None \<Rightarrow> True | Some stg \<Rightarrow> stg_generation stg \<noteq> g"
    and "st_generation (pin_status (inv_state r)) \<noteq> Some g" "c < PROJECT_INVENTORY_MAX_CONCURRENT_SYNCS"
  shows "\<exists>r'. begin_generation now c (snap_page g q chunks 0) r = Inr r'
    \<and> inv_projects r' = inv_projects r \<and> transferring g q chunks b now 0 r'"
proof -
  let ?page = "snap_page g q chunks 0"
  have m: "\<not> staging_matches_page ?page (inv_state r)"
    using assms(3) by (auto simp: staging_matches_page_def split: option.splits)
  let ?s1 = "(inv_state r)\<lparr>pin_highest_snapshot_sequence := q\<rparr>"
  define s2 where "s2 = (if st_sync_state (pin_status ?s1) = lit ''complete'' then
      (case st_generation (pin_status ?s1) of None \<Rightarrow> ?s1
       | Some previous \<Rightarrow> if previous \<noteq> g then retire_generation previous ?s1 else ?s1) else ?s1)"
  have s2: "pin_staging s2 = pin_staging (inv_state r)" "pin_highest_snapshot_sequence s2 = q"
    by (simp_all add: s2_def split: option.splits)
  have "g \<notin> set (pin_retired_generations s2)"
    using assms(2,4) retire_generation_set [of "the (st_generation (pin_status (inv_state r)))" ?s1]
    by (auto simp: s2_def split: option.splits)
  then have "g \<notin> set (pin_retired_generations (drop_staging s2))"
    using drop_staging_set [of s2] assms(3) s2(1) by (auto split: option.splits)
  moreover have "begin_generation now c ?page r =
      Inr (r\<lparr>inv_state := (drop_staging s2)\<lparr>pin_staging := Some (new_staging now ?page)\<rparr>\<rparr>)"
    using assms(1,5) m by (simp add: begin_generation_def Let_def s2_def split: option.splits)
  ultimately show ?thesis using s2 by (simp add: transferring_def new_staging_def)
qed

lemma apply_first_page:
  assumes fresh: "pin_highest_snapshot_sequence (inv_state r) < q" "g \<notin> set (pin_retired_generations (inv_state r))"
      "case pin_staging (inv_state r) of None \<Rightarrow> True | Some stg \<Rightarrow> stg_generation stg \<noteq> g"
      "st_generation (pin_status (inv_state r)) \<noteq> Some g" "c < PROJECT_INVENTORY_MAX_CONCURRENT_SYNCS"
    and v: "validate_page env (snap_page g q chunks 0) = Inr (b 0, d)"
  shows "\<exists>r1. inv_projects r1 = inv_projects r \<and> transferring g q chunks b now 0 r1 \<and>
    apply_page env now c (snap_page g q chunks 0) r = stage_page now (snap_page g q chunks 0) (b 0) d r1"
proof -
  let ?page = "snap_page g q chunks 0"
  define r0 where "r0 = expire_staging now (r\<lparr>runner_last_seen := now\<rparr>)"
  have r0: "inv_projects r0 = inv_projects r"
      "pin_highest_snapshot_sequence (inv_state r0) = pin_highest_snapshot_sequence (inv_state r)"
    by (simp_all add: r0_def)
  have "inv_state r0 = inv_state r \<or> pin_staging (inv_state r0) = None
      \<and> pin_retired_generations (inv_state r0) = pin_retired_generations (drop_staging (inv_state r))
      \<and> st_generation (pin_status (inv_state r0)) = st_generation (pin_status (inv_state r))"
    using expire_staging_cases [of now "r\<lparr>runner_last_seen := now\<rparr>"]
    by (auto simp: r0_def clear_staging_def Let_def inventory_status_def)
  then have f: "pin_highest_snapshot_sequence (inv_state r0) < q"
      "g \<notin> set (pin_retired_generations (inv_state r0))"
      "case pin_staging (inv_state r0) of None \<Rightarrow> True | Some stg \<Rightarrow> stg_generation stg \<noteq> g"
      "st_generation (pin_status (inv_state r0)) \<noteq> Some g"
    using fresh r0 drop_staging_set [of "inv_state r"] by (auto split: option.splits)
  have m: "\<not> staging_matches_page ?page (inv_state r0)" "\<not> completed_generation_matches_page ?page (inv_state r0)"
    using f(3,4) by (auto simp: staging_matches_page_def completed_generation_matches_page_def split: option.splits)
  from begin_transfer [OF f fresh(5), of now chunks b] obtain r1 where
    "begin_generation now c ?page r0 = Inr r1" "inv_projects r1 = inv_projects r0"
    "transferring g q chunks b now 0 r1" by blast
  with f m r0 v show ?thesis
    by (auto simp: apply_page_def Let_def r0_def [symmetric])
qed

lemma apply_next_page:
  assumes tr: "transferring g q chunks b t0 k r" and "0 < k"
    and t: "i64_sat_sub now t0 \<le> PROJECT_INVENTORY_STAGING_TTL_SECS"
    and v: "validate_page env (snap_page g q chunks k) = Inr (b k, d)"
  shows "\<exists>r1. inv_projects r1 = inv_projects r \<and> transferring g q chunks b t0 k r1 \<and>
    apply_page env now c (snap_page g q chunks k) r = stage_page now (snap_page g q chunks k) (b k) d r1"
proof -
  let ?r = "r\<lparr>runner_last_seen := now\<rparr>"
  have e: "expire_staging now ?r = ?r" using tr t by (simp add: expire_staging_def transferring_def)
  have m: "staging_matches_page (snap_page g q chunks k) (inv_state r)"
    using tr by (simp add: staging_matches_page_def transferring_def)
  have "begin_generation now c (snap_page g q chunks k) ?r = Inr ?r"
    using m by (simp add: begin_generation_def Let_def)
  then have "apply_page env now c (snap_page g q chunks k) r = stage_page now (snap_page g q chunks k) (b k) d ?r"
    using v m tr assms(2)
    by (auto simp: apply_page_def Let_def e exact_last_page_replay_def completed_generation_matches_page_def
        transferring_def)
  moreover have "transferring g q chunks b t0 k ?r" using tr by (simp add: transferring_def)
  ultimately show ?thesis by (intro exI [of _ ?r]) simp
qed

section \<open>A concrete Runner\<close>

definition sample_env :: InventoryEnv where
  "sample_env = \<lparr>env_page_json = (\<lambda>page. Some (page_generation page)), env_projects_json = (\<lambda>ps. Some []),
     env_sha256_hex = (\<lambda>s. s)\<rparr>"

definition sample_project :: "rchar \<Rightarrow> RunnerProjectSummary" where
  "sample_project c = \<lparr>prj_id = [c], prj_name = None, prj_path = [47], prj_allow_patch = True, prj_kind = None,
     prj_registration_source = None, prj_description = None, prj_hooks = [], prj_disabled = False,
     prj_revision = None, prj_git_branch = None, prj_git_head = None, prj_git_dirty = None,
     prj_updated_at = 0, prj_shell_profile = None\<rparr>"

definition sample_runner :: InventoryRunner where
  "sample_runner = \<lparr>runner_client_id = [98], runner_instance_id = [97], runner_owner = None, runner_auth_group = None,
     runner_last_seen = 0, runner_supports_reconciliation = True, runner_transport = Polling, runner_connection_id = None,
     runner_disconnected_at = None, runner_suppressions = [],
     inv_projects = [], inv_state = pending_inventory_state 0\<rparr>"

lemma sample_runner_state [simp]:
  "pin_staging (inv_state sample_runner) = None" "pin_highest_snapshot_sequence (inv_state sample_runner) = 0"
  "pin_retired_generations (inv_state sample_runner) = []" "st_generation (pin_status (inv_state sample_runner)) = None"
  "inv_projects sample_runner = []" "inventory_ok sample_runner"
  by (simp_all add: sample_runner_def pending_inventory_state_def status_pending_def state_ok_def)

lemma sample_project_id [simp]: "prj_id (sample_project c) = [c]"
  by (simp add: sample_project_def)

lemmas inventory_limits = PROJECT_INVENTORY_PAGE_MAX_SUMMARIES_def PROJECT_INVENTORY_PAGE_MAX_SERIALIZED_BYTES_def
  PROJECT_INVENTORY_SNAPSHOT_MAX_SERIALIZED_BYTES_def PROJECT_INVENTORY_GENERATION_MAX_BYTES_def
  PROJECT_INVENTORY_STAGING_TTL_SECS_def PROJECT_INVENTORY_MAX_CONCURRENT_SYNCS_def

lemma sample_validate_each: "97 \<le> c \<Longrightarrow> c \<le> 122 \<Longrightarrow> validate_project_summary (sample_project c) = Inr ()"
  by (simp add: validate_project_summary_def sample_project_def id_char_def is_ascii_alphanumeric_def
      bounded_text_def opt_all_def utf8_width_def)

lemma sample_validate_page:
  assumes "i < 2"
  shows "validate_page sample_env (snap_page [103] 1 [[sample_project 98], [sample_project 97]] i) = Inr (1, [103])"
proof -
  have "i = 0 \<or> i = 1" using assms by arith
  then show ?thesis
    by (auto simp: validate_page_def validate_generation_def validate_project_summary_batch_def sample_validate_each
        sample_env_def inventory_limits id_char_def is_ascii_alphanumeric_def utf8_width_def)
qed

text \<open>A fresh snapshot sent in order is published: when every page passes the page checks, the
  ids are distinct, the snapshot fits the byte budget and arrives within the staging time, then the
  last page publishes exactly its projects, sorted by id, and every shorter prefix of the transfer
  leaves the published projects as they were.\<close>

theorem in_order_transfer_publishes:
  assumes fresh: "pin_highest_snapshot_sequence (inv_state r) < q" "g \<notin> set (pin_retired_generations (inv_state r))"
      "case pin_staging (inv_state r) of None \<Rightarrow> True | Some stg \<Rightarrow> stg_generation stg \<noteq> g"
      "st_generation (pin_status (inv_state r)) \<noteq> Some g" "conc 0 < PROJECT_INVENTORY_MAX_CONCURRENT_SYNCS"
    and v: "\<forall>i < length chunks. validate_page env (snap_page g q chunks i) = Inr (b i, d i)"
    and t: "\<forall>i < length chunks. i64_sat_sub (now i) (now 0) \<le> PROJECT_INVENTORY_STAGING_TTL_SECS"
    and n: "0 < length chunks" "length chunks < 2 ^ 32" "length (concat chunks) < usize_max"
    and dist: "distinct (map prj_id (concat chunks))"
    and bytes: "(\<Sum>i<length chunks. b i) \<le> PROJECT_INVENTORY_SNAPSHOT_MAX_SERIALIZED_BYTES"
    and k: "k \<le> length chunks"
  shows "\<exists>r'. apply_pages env (map (\<lambda>i. (now i, conc i, snap_page g q chunks i)) [0..<k]) r = Some r' \<and>
    (if k = length chunks
     then inv_projects r' = sort_key prj_id (concat chunks)
       \<and> st_sync_state (pin_status (inv_state r')) = lit ''complete''
       \<and> st_generation (pin_status (inv_state r')) = Some g
       \<and> pin_highest_snapshot_sequence (inv_state r') = q
     else inv_projects r' = inv_projects r)"
proof -
  have chunk: "chunks ! i \<noteq> []" if "concat chunks \<noteq> []" "i < length chunks" for i
    using validate_page_ok(2) [of env "snap_page g q chunks i" "b i" "d i"] v that by simp
  have single: "length chunks = 1" if "concat chunks = []"
    using validate_page_ok(3) [of env "snap_page g q chunks 0" "b 0" "d 0"] v n(1) that by (simp del: concat_eq_Nil_conv)
  note stage = stage_transfer [OF _ _ n(2) _ single dist bytes n(3)]
  have "\<exists>r'. apply_pages env (map (\<lambda>i. (now i, conc i, snap_page g q chunks i)) [0..<k]) r = Some r' \<and>
    (if k = length chunks
     then inv_projects r' = sort_key prj_id (concat chunks)
       \<and> st_sync_state (pin_status (inv_state r')) = lit ''complete''
       \<and> st_generation (pin_status (inv_state r')) = Some g
       \<and> pin_highest_snapshot_sequence (inv_state r') = q
     else inv_projects r' = inv_projects r \<and> (0 < k \<longrightarrow> transferring g q chunks b (now 0) k r'))"
    using k
  proof (induction k)
    case 0
    then show ?case using n(1) by auto
  next
    case (Suc k)
    then have kn: "k < length chunks" by simp
    with Suc obtain r1 where r1: "apply_pages env (map (\<lambda>i. (now i, conc i, snap_page g q chunks i)) [0..<k]) r = Some r1"
      "inv_projects r1 = inv_projects r" "0 < k \<Longrightarrow> transferring g q chunks b (now 0) k r1" by auto
    have vk: "validate_page env (snap_page g q chunks k) = Inr (b k, d k)" using v kn by simp
    have "\<exists>r2. inv_projects r2 = inv_projects r \<and> transferring g q chunks b (now 0) k r2 \<and>
        apply_page env (now k) (conc k) (snap_page g q chunks k) r1 = stage_page (now k) (snap_page g q chunks k) (b k) (d k) r2"
    proof (cases "k = 0")
      case True
      then show ?thesis
        using apply_first_page [OF fresh, where env = env and chunks = chunks and b = b and now = "now 0"] vk r1 by simp
    next
      case False
      then have "0 < k" by simp
      from apply_next_page [OF r1(3) [OF this] this _ vk, where now = "now k" and c = "conc k"] t kn r1(2)
      show ?thesis by simp
    qed
    then obtain r2 where r2: "inv_projects r2 = inv_projects r" "transferring g q chunks b (now 0) k r2"
      "apply_page env (now k) (conc k) (snap_page g q chunks k) r1 = stage_page (now k) (snap_page g q chunks k) (b k) (d k) r2"
      by blast
    from stage [OF r2(2) kn, of "now k" "d k"] chunk obtain r' where
      "stage_page (now k) (snap_page g q chunks k) (b k) (d k) r2 = Some r'"
      "if k + 1 = length chunks
       then inv_projects r' = sort_key prj_id (concat chunks) \<and> pin_staging (inv_state r') = None
         \<and> pin_highest_snapshot_sequence (inv_state r') = q
         \<and> st_sync_state (pin_status (inv_state r')) = lit ''complete''
         \<and> st_generation (pin_status (inv_state r')) = Some g
       else inv_projects r' = inv_projects r2 \<and> transferring g q chunks b (now 0) (k + 1) r'" by blast
    then show ?case using r1(1) r2 by (auto simp: apply_pages_append split: if_splits)
  qed
  then show ?thesis by (auto split: if_splits)
qed

theorem in_order_transfer_publishes_witness:
  "\<exists>r'. apply_pages sample_env
      [(5, 0, snap_page [103] 1 [[sample_project 98], [sample_project 97]] 0),
       (9, 1, snap_page [103] 1 [[sample_project 98], [sample_project 97]] 1)] sample_runner = Some r'
    \<and> inv_projects r' = [sample_project 97, sample_project 98]"
proof -
  let ?chunks = "[[sample_project 98], [sample_project 97]]"
  have "\<exists>r'. apply_pages sample_env (map (\<lambda>i. (5 + 4 * int i, i, snap_page [103] 1 ?chunks i)) [0..<2]) sample_runner
      = Some r' \<and> (if 2 = length ?chunks
     then inv_projects r' = sort_key prj_id (concat ?chunks)
       \<and> st_sync_state (pin_status (inv_state r')) = lit ''complete''
       \<and> st_generation (pin_status (inv_state r')) = Some [103]
       \<and> pin_highest_snapshot_sequence (inv_state r') = 1
     else inv_projects r' = inv_projects sample_runner)"
    by (rule in_order_transfer_publishes [where b = "\<lambda>_. 1" and d = "\<lambda>_. [103]"])
      (simp_all add: sample_validate_page [unfolded One_nat_def numeral_2_eq_2] inventory_limits i64_sat_sub_def i64_sat_def i64_max_def i64_min_def
        usize_max_def)
  then show ?thesis by (auto simp: upt_rec)
qed

theorem publication_is_atomic_witness:
  "\<exists>r'. apply_page sample_env 5 0 (snap_page [103] 1 [[sample_project 98]] 0) sample_runner = Some r'
    \<and> length (inv_projects r') = 1"
proof -
  let ?page = "snap_page [103] 1 [[sample_project 98]] 0"
  have v: "validate_page sample_env ?page = Inr (1, [103])"
    by (simp add: validate_page_def validate_generation_def validate_project_summary_batch_def sample_validate_each
        sample_env_def inventory_limits id_char_def is_ascii_alphanumeric_def utf8_width_def)
  obtain r1 where r1: "transferring [103] 1 [[sample_project 98]] (\<lambda>_. 1) 5 0 r1"
      "apply_page sample_env 5 0 ?page sample_runner = stage_page 5 ?page 1 [103] r1"
    using apply_first_page [of sample_runner 1 "[103]" 0 sample_env "[[sample_project 98]]" "\<lambda>_. 1" "[103]" 5] v
    by (auto simp: inventory_limits)
  obtain r' where r': "apply_page sample_env 5 0 ?page sample_runner = Some r'"
      "inv_projects r' = [sample_project 98]"
    using stage_transfer [OF r1(1), of 5 "[103]"] r1(2) by (auto simp: inventory_limits usize_max_def)
  have "length (inv_projects r') = page_total_reported ?page"
    using publication_is_atomic [OF _ r'(1)] r'(2) by (simp add: usize_max_def)
  then show ?thesis using r'(1) by auto
qed

theorem delayed_pages_are_inert_witness:
  "inv_projects (fold (\<lambda>(now, c, page). inventory_step sample_env (ApplyPage now c page))
      [(7, 0, snap_page [103] 1 [[sample_project 98]] 0)]
      (reconcile_dynamic_projection 6 (sample_runner\<lparr>inv_projects := [sample_project 97],
         inv_state := (pending_inventory_state 0)\<lparr>pin_highest_snapshot_sequence := 1\<rparr>\<rparr>))) = [sample_project 97]"
  by (subst delayed_pages_are_inert) simp_all

end
