(* ===== verification/Audit_Previews.thy ===== *)
theory Audit_Previews
  imports Rust_Prelude
begin

text \<open>
  The presentation summaries of commands and processes
  (\<open>crates/webcodex-core/src/audit_preview.rs\<close> with the secret detector of \<open>sensitive_text.rs\<close>). A
  preview is one line of at most 120 characters and an ellipsis, or a fixed text when it looks
  like a secret. The Runner sends previews back in its Job inventory, where they are accepted
  only if they are stable under \<open>command_preview\<close>.

  The Unicode table behind \<open>char::is_alphanumeric\<close> is a parameter.
\<close>

section \<open>Definitions\<close>

definition WEBCODEX_SECRET_PREFIXES :: "rstr list" where
  "WEBCODEX_SECRET_PREFIXES =
     [lit ''wc_pat_'', lit ''wc_agent_'', lit ''wc_acct_'', lit ''wc_oat_'', lit ''wc_ort_'',
      lit ''wc_csec_'', lit ''wc_pair_'', lit ''wc_boot_'']"

definition secret_like_value :: "rstr \<Rightarrow> bool" where
  "secret_like_value v \<longleftrightarrow>
     (let lower = to_ascii_lowercase v in
      str_contains lower (lit ''-----begin'') \<or> str_contains lower (lit ''bearer '')
      \<or> str_contains lower (lit ''api_key'') \<or> str_contains lower (lit ''token='')
      \<or> str_contains lower (lit ''id_rsa'') \<or> str_contains lower (lit ''id_ed25519'')
      \<or> list_ex (str_contains lower) WEBCODEX_SECRET_PREFIXES)"

definition COMMAND_PREVIEW_MAX_CHARS :: nat where "COMMAND_PREVIEW_MAX_CHARS = 120"

abbreviation (input) ellipsis :: rchar where "ellipsis \<equiv> 8230"
abbreviation (input) QUOTE :: rchar where "QUOTE \<equiv> 34"
abbreviation (input) BACKSLASH :: rchar where "BACKSLASH \<equiv> 92"

definition redacted :: rstr where "redacted = lit ''[redacted]''"

definition command_preview :: "rstr \<Rightarrow> rstr" where
  "command_preview command =
     (let first_line = trim (case str_lines command of [] \<Rightarrow> [] | l # _ \<Rightarrow> l) in
      if secret_like_value first_line then redacted
      else if length first_line \<le> COMMAND_PREVIEW_MAX_CHARS then first_line
      else take COMMAND_PREVIEW_MAX_CHARS first_line @ [ellipsis])"

text \<open>Pushing characters until the limit is met; the flag says that one did not fit.\<close>

fun push_all :: "rstr \<Rightarrow> rchar list \<Rightarrow> rstr \<times> bool" where
  "push_all summary [] = (summary, False)"
| "push_all summary (c # cs) =
     (if COMMAND_PREVIEW_MAX_CHARS \<le> length summary then (summary, True) else push_all (summary @ [c]) cs)"

definition simple_value :: "(rchar \<Rightarrow> bool) \<Rightarrow> rstr \<Rightarrow> bool" where
  "simple_value is_alphanumeric v \<longleftrightarrow> v \<noteq> []
     \<and> list_all (\<lambda>c. is_alphanumeric c \<or> c \<in> set (lit ''_-./'') \<or> c = BACKSLASH) v"

definition preview_char :: "bool \<Rightarrow> rchar \<Rightarrow> rchar list" where
  "preview_char simple c =
     (if c = QUOTE then [BACKSLASH, QUOTE]
      else if c = BACKSLASH \<and> \<not> simple then [BACKSLASH, BACKSLASH]
      else if is_control c then [65533] else [c])"

fun preview_chars :: "bool \<Rightarrow> rstr \<Rightarrow> rstr \<Rightarrow> rstr \<times> bool" where
  "preview_chars simple summary [] = (summary, False)"
| "preview_chars simple summary (c # cs) =
     (let (summary', truncated) = push_all summary (preview_char simple c) in
      if truncated then (summary', True) else preview_chars simple summary' cs)"

fun preview_values :: "(rchar \<Rightarrow> bool) \<Rightarrow> rstr \<Rightarrow> rstr list \<Rightarrow> rstr \<times> bool" where
  "preview_values is_alphanumeric summary [] = (summary, False)"
| "preview_values is_alphanumeric summary (v # vs) =
     (let (s1, t1) = (if summary \<noteq> [] then push_all summary [32] else (summary, False)) in
      if t1 then (s1, True) else
      let simple = simple_value is_alphanumeric v;
          (s2, t2) = (if simple then (s1, False) else push_all s1 [QUOTE]) in
      if t2 then (s2, True) else
      let (s3, t3) = preview_chars simple s2 v in
      if t3 then (s3, True) else
      let (s4, t4) = (if simple then (s3, False) else push_all s3 [QUOTE]) in
      if t4 then (s4, True) else preview_values is_alphanumeric s4 vs)"

definition process_preview :: "(rchar \<Rightarrow> bool) \<Rightarrow> rstr \<Rightarrow> rstr list \<Rightarrow> rstr" where
  "process_preview is_alphanumeric executable args =
     (let (summary, truncated) = preview_values is_alphanumeric [] (executable # args) in
      if secret_like_value summary then redacted
      else if truncated then summary @ [ellipsis] else summary)"

section \<open>The rendering of a process\<close>

text \<open>The reference: the whole command line, values quoted where needed, cut at the limit.\<close>

definition render_value :: "(rchar \<Rightarrow> bool) \<Rightarrow> rstr \<Rightarrow> rstr" where
  "render_value is_alphanumeric v =
     (let simple = simple_value is_alphanumeric v; body = concat (map (preview_char simple) v)
      in if simple then body else [QUOTE] @ body @ [QUOTE])"

definition render_process :: "(rchar \<Rightarrow> bool) \<Rightarrow> rstr list \<Rightarrow> rstr" where
  "render_process is_alphanumeric vs = join [32] (map (render_value is_alphanumeric) vs)"

lemma push_all_append:
  "push_all summary (a @ b) = (let (s, t) = push_all summary a in if t then (s, True) else push_all s b)"
  by (induction summary a rule: push_all.induct) auto

lemma push_all_take:
  assumes "length summary \<le> COMMAND_PREVIEW_MAX_CHARS"
  shows "push_all summary cs = (take COMMAND_PREVIEW_MAX_CHARS (summary @ cs),
     COMMAND_PREVIEW_MAX_CHARS < length (summary @ cs))"
  using assms by (induction summary cs rule: push_all.induct) auto

lemma preview_chars_push: "preview_chars simple summary v = push_all summary (concat (map (preview_char simple) v))"
  by (induction v arbitrary: summary) (auto simp: push_all_append split: prod.splits)

definition render_rest :: "(rchar \<Rightarrow> bool) \<Rightarrow> bool \<Rightarrow> rstr list \<Rightarrow> rstr" where
  "render_rest is_alphanumeric started vs =
     (if vs = [] then [] else (if started then [32] else []) @ render_process is_alphanumeric vs)"

lemma preview_char_not_Nil [simp]: "preview_char simple c \<noteq> []"
  by (simp add: preview_char_def)

lemma render_value_not_Nil [simp]: "render_value is_alphanumeric v \<noteq> []"
  by (cases v) (auto simp: render_value_def Let_def simple_value_def)

lemma render_rest_Cons:
  "render_rest a started (v # vs) = (if started then [32] else []) @ render_value a v @ render_rest a True vs"
  by (cases vs) (auto simp: render_rest_def render_process_def)

lemma push_all_started: "push_all summary cs = (s, False) \<Longrightarrow> s = summary @ cs"
  by (induction summary cs rule: push_all.induct) (auto split: if_splits)

lemma preview_value_push:
  "preview_values a summary (v # vs) =
     (let (s, t) = push_all summary ((if summary \<noteq> [] then [32] else []) @ render_value a v)
      in if t then (s, True) else preview_values a s vs)"
  by (cases "simple_value a v"; cases "summary = []")
    (simp_all add: push_all_append preview_chars_push render_value_def Let_def split: prod.splits)

lemma preview_values_push: "preview_values a summary vs = push_all summary (render_rest a (summary \<noteq> []) vs)"
proof (induction vs arbitrary: summary)
  case (Cons v vs)
  let ?cs = "(if summary \<noteq> [] then [32] else []) @ render_value a v"
  obtain s t where st: "push_all summary ?cs = (s, t)" by (cases "push_all summary ?cs")
  have ne: "s \<noteq> []" if "\<not> t" using push_all_started [of summary ?cs s] st that by auto
  have "render_rest a (summary \<noteq> []) (v # vs) = ?cs @ render_rest a True vs" by (simp add: render_rest_Cons)
  then have "push_all summary (render_rest a (summary \<noteq> []) (v # vs))
      = (if t then (s, True) else push_all s (render_rest a True vs))"
    using st by (simp only: push_all_append) simp
  moreover have "preview_values a summary (v # vs) = (if t then (s, True) else preview_values a s vs)"
    using st by (simp only: preview_value_push) simp
  ultimately show ?case using Cons.IH [of s] ne by (cases t) simp_all
qed (simp add: render_rest_def)

lemma preview_values_exact:
  "preview_values a [] vs = (take COMMAND_PREVIEW_MAX_CHARS (render_process a vs),
     COMMAND_PREVIEW_MAX_CHARS < length (render_process a vs))"
  by (cases vs) (simp_all add: preview_values_push push_all_take render_rest_def render_process_def del: preview_values.simps)

section \<open>Stability\<close>

lemma sublist_snoc_iff: "c \<notin> set p \<Longrightarrow> p \<noteq> [] \<Longrightarrow> sublist p (xs @ [c]) \<longleftrightarrow> sublist p xs"
proof
  assume c: "c \<notin> set p" "p \<noteq> []" and "sublist p (xs @ [c])"
  then obtain a b where ab: "xs @ [c] = a @ p @ b" by (auto simp: sublist_def)
  then obtain b' where b': "b = b' @ [c]"
  proof (cases b rule: rev_cases)
    case Nil
    with ab have "last (a @ p) = c" by (metis append_Nil2 last_snoc)
    then have "c \<in> set p" using c(2) last_in_set [of p] by simp
    with c(1) show ?thesis by simp
  qed (use ab in auto)
  have "xs @ [c] = (a @ p @ b') @ [c]" using ab by (simp add: b')
  then have "xs = a @ p @ b'" by simp
  then show "sublist p xs" by (auto simp: sublist_def)
qed (auto intro: sublist_order.order_trans)

lemma secret_like_mono: "secret_like_value s \<Longrightarrow> sublist s t \<Longrightarrow> secret_like_value t"
proof -
  assume s: "secret_like_value s" "sublist s t"
  from s(2) obtain a b where "t = a @ s @ b" by (auto simp: sublist_def)
  then have "sublist (to_ascii_lowercase s) (to_ascii_lowercase t)"
    by (simp add: to_ascii_lowercase_def sublist_appendI)
  then have "str_contains (to_ascii_lowercase s) p \<Longrightarrow> str_contains (to_ascii_lowercase t) p" for p
    unfolding str_contains_def by (rule sublist_order.order_trans [rotated])
  with s(1) show ?thesis by (auto simp: secret_like_value_def Let_def list_ex_iff)
qed

lemma secret_like_ellipsis [simp]: "secret_like_value (s @ [ellipsis]) \<longleftrightarrow> secret_like_value s"
proof -
  have "to_ascii_lowercase (s @ [ellipsis]) = to_ascii_lowercase s @ [ellipsis]"
    by (simp add: to_ascii_lowercase_def)
  moreover have "str_contains (t @ [ellipsis]) p \<longleftrightarrow> str_contains t p" if "ellipsis \<notin> set p" "p \<noteq> []" for t p
    using that by (simp add: str_contains_def sublist_snoc_iff)
  ultimately show ?thesis
    by (simp add: secret_like_value_def Let_def WEBCODEX_SECRET_PREFIXES_def lit_def)
qed

lemma secret_like_take: "\<not> secret_like_value s \<Longrightarrow> \<not> secret_like_value (take n s)"
  using secret_like_mono by (metis prefix_imp_sublist take_is_prefix)

lemma redacted_not_secret [simp]: "\<not> secret_like_value redacted"
  by (simp add: secret_like_value_def redacted_def to_ascii_lowercase_def str_contains_def lit_def
      WEBCODEX_SECRET_PREFIXES_def sublist_code)

text \<open>A text that is shown as it is: one line, trimmed, not too long, not like a secret.\<close>

definition preview_ok :: "rstr \<Rightarrow> bool" where
  "preview_ok s \<longleftrightarrow> LF \<notin> set s \<and> trim s = s \<and> \<not> secret_like_value s
     \<and> (length s \<le> COMMAND_PREVIEW_MAX_CHARS \<or> length s = Suc COMMAND_PREVIEW_MAX_CHARS \<and> last s = ellipsis)"

lemma str_lines_single: "LF \<notin> set s \<Longrightarrow> str_lines s = (if s = [] then [] else [s])"
proof -
  assume "LF \<notin> set s"
  then have "split_char LF s = [s]" by (intro split_by_no_sep) auto
  then show ?thesis by (simp add: str_lines_def)
qed

lemma preview_ok_fixed: "preview_ok s \<Longrightarrow> command_preview s = s"
proof -
  assume ok: "preview_ok s"
  then have "trim (case str_lines s of [] \<Rightarrow> [] | l # _ \<Rightarrow> l) = s"
    by (auto simp: preview_ok_def str_lines_single)
  moreover have "take COMMAND_PREVIEW_MAX_CHARS s @ [ellipsis] = s" if "COMMAND_PREVIEW_MAX_CHARS < length s"
  proof -
    have l: "length s = Suc COMMAND_PREVIEW_MAX_CHARS" "last s = ellipsis" using ok that by (auto simp: preview_ok_def)
    then have "s \<noteq> []" by auto
    have "take COMMAND_PREVIEW_MAX_CHARS s = butlast s" using l by (simp add: butlast_conv_take)
    with l(2) \<open>s \<noteq> []\<close> show ?thesis by (metis append_butlast_last_id)
  qed
  ultimately show ?thesis using ok by (auto simp: command_preview_def preview_ok_def)
qed

lemma first_line_no_lf: "LF \<notin> set (case str_lines s of [] \<Rightarrow> [] | l # _ \<Rightarrow> l)"
proof -
  have part: "p \<in> set (split_char LF s) \<Longrightarrow> LF \<notin> set p" for p
    using split_by_parts [of p "\<lambda>x. x = LF" s LF] by blast
  have cr: "LF \<notin> set p \<Longrightarrow> LF \<notin> set (strip_cr p)" for p
    by (auto simp: strip_cr_def dest: in_set_butlastD)
  have "last (split_char LF s) \<in> set (split_char LF s)" by (rule last_in_set) simp
  with part cr have "l \<in> set (str_lines s) \<Longrightarrow> LF \<notin> set l" for l
    by (auto simp: str_lines_def Let_def dest!: in_set_butlastD split: if_splits)
  then show ?thesis by (cases "str_lines s") simp_all
qed

lemma trim_ellipsis: "trim s = s \<Longrightarrow> s \<noteq> [] \<Longrightarrow> n \<noteq> 0 \<Longrightarrow> trim (take n s @ [ellipsis]) = take n s @ [ellipsis]"
proof -
  assume s: "trim s = s" "s \<noteq> []" "n \<noteq> 0"
  then obtain c r where c: "s = c # r" by (cases s) auto
  obtain m where m: "n = Suc m" using s(3) by (cases n) auto
  have "\<not> is_whitespace c" using trim_fixed(1) [OF s(1,2)] c by simp
  moreover have "trim_end (take n s @ [ellipsis]) = take n s @ [ellipsis]"
    by (rule trim_end_last) (auto simp: is_whitespace_def)
  ultimately show ?thesis by (simp add: trim_def trim_start_def c m)
qed

lemma redacted_ok: "preview_ok redacted"
proof -
  have "trim redacted = redacted" by (simp add: redacted_def str_simps)
  then show ?thesis by (simp add: preview_ok_def) (simp add: redacted_def lit_def COMMAND_PREVIEW_MAX_CHARS_def)
qed

lemma cut_preview_ok:
  assumes "LF \<notin> set s" "trim s = s" "\<not> secret_like_value (take COMMAND_PREVIEW_MAX_CHARS s)"
  shows "preview_ok (if length s \<le> COMMAND_PREVIEW_MAX_CHARS then s
    else take COMMAND_PREVIEW_MAX_CHARS s @ [ellipsis])"
proof (cases "length s \<le> COMMAND_PREVIEW_MAX_CHARS")
  case True
  with assms show ?thesis by (simp add: preview_ok_def)
next
  case False
  then have "s \<noteq> []" by auto
  with False assms trim_ellipsis [OF assms(2), of COMMAND_PREVIEW_MAX_CHARS] show ?thesis
    by (auto simp: preview_ok_def COMMAND_PREVIEW_MAX_CHARS_def dest: in_set_takeD)
qed

lemma command_preview_ok: "preview_ok (command_preview command)"
proof -
  define s where "s = trim (case str_lines command of [] \<Rightarrow> [] | l # _ \<Rightarrow> l)"
  have "LF \<notin> set s" using first_line_no_lf [of command] set_trim s_def by blast
  moreover have "trim s = s" by (simp add: s_def)
  ultimately show ?thesis
    using cut_preview_ok [of s] secret_like_take [of s] redacted_ok
    by (auto simp: command_preview_def s_def [symmetric] Let_def)
qed

section \<open>Process previews are stable\<close>

text \<open>Control characters are shown as replacement characters, so a rendering has none.\<close>

lemma preview_char_no_lf: "LF \<notin> set (preview_char simple c)"
  by (auto simp: preview_char_def is_control_def)

lemma render_value_no_lf: "LF \<notin> set (render_value a v)"
  using preview_char_no_lf by (auto simp: render_value_def Let_def)

lemma render_process_no_lf: "LF \<notin> set (render_process a vs)"
  using render_value_no_lf by (auto simp: render_process_def dest!: set_join)

lemma preview_char_simple_ends:
  assumes "\<not> is_whitespace c"
  shows "\<not> is_whitespace (hd (preview_char simple c))" "\<not> is_whitespace (last (preview_char simple c))"
  using assms by (auto simp: preview_char_def is_whitespace_def)

lemma render_value_ends:
  assumes "\<And>c. a c \<Longrightarrow> \<not> is_whitespace c"
  shows "\<not> is_whitespace (hd (render_value a v))" "\<not> is_whitespace (last (render_value a v))"
proof -
  show "\<not> is_whitespace (hd (render_value a v))"
  proof (cases "simple_value a v")
    case True
    then obtain c r where v: "v = c # r" and c: "a c \<or> c \<in> set (lit ''_-./'') \<or> c = BACKSLASH"
      by (cases v) (auto simp: simple_value_def)
    from c have "\<not> is_whitespace c" using assms by (auto simp: lit_def is_whitespace_def)
    with True v show ?thesis
      using preview_char_simple_ends(1) [of c True] by (simp add: render_value_def)
  qed (simp add: render_value_def is_whitespace_def)
  show "\<not> is_whitespace (last (render_value a v))"
  proof (cases "simple_value a v")
    case True
    then obtain c r where v: "v = r @ [c]" and c: "a c \<or> c \<in> set (lit ''_-./'') \<or> c = BACKSLASH"
      by (cases v rule: rev_cases) (auto simp: simple_value_def)
    from c have "\<not> is_whitespace c" using assms by (auto simp: lit_def is_whitespace_def)
    with True v show ?thesis
      using preview_char_simple_ends(2) [of c True] by (simp add: render_value_def)
  qed (simp add: render_value_def is_whitespace_def)
qed

lemma hd_join: "p \<noteq> [] \<Longrightarrow> hd (join sep (p # ps)) = hd p"
  by (cases ps) auto

lemma last_join: "ps \<noteq> [] \<Longrightarrow> last ps \<noteq> [] \<Longrightarrow> last (join sep ps) = last (last ps)"
  by (cases ps rule: rev_cases; cases "butlast ps = []") (auto simp: join_snoc)

lemma trim_by_ends: "s = [] \<or> \<not> is_whitespace (hd s) \<and> \<not> is_whitespace (last s) \<Longrightarrow> trim s = s"
  by (cases s) (auto simp: trim_def trim_start_def trim_end_last [of "_ # _"] trim_end_def [of "[]"])

lemma trim_render_process:
  assumes "\<And>c. a c \<Longrightarrow> \<not> is_whitespace c"
  shows "trim (render_process a (v # vs)) = render_process a (v # vs)"
proof (rule trim_by_ends, rule disjI2)
  have "last (map (render_value a) (v # vs)) = render_value a (last (v # vs))" by (rule last_map) simp
  then show "\<not> is_whitespace (hd (render_process a (v # vs))) \<and> \<not> is_whitespace (last (render_process a (v # vs)))"
    using render_value_ends [OF assms] last_join [of "map (render_value a) (v # vs)" "[32]"]
    by (simp add: render_process_def hd_join)
qed

lemma process_preview_exact:
  "process_preview a executable args =
     (let s = render_process a (executable # args) in
      if secret_like_value (take COMMAND_PREVIEW_MAX_CHARS s) then redacted
      else if length s \<le> COMMAND_PREVIEW_MAX_CHARS then s
      else take COMMAND_PREVIEW_MAX_CHARS s @ [ellipsis])"
  by (simp add: process_preview_def preview_values_exact Let_def del: preview_values.simps)

lemma process_preview_ok:
  assumes "\<And>c. a c \<Longrightarrow> \<not> is_whitespace c"
  shows "preview_ok (process_preview a executable args)"
  using cut_preview_ok [OF render_process_no_lf trim_render_process [OF assms]] redacted_ok
  by (auto simp: process_preview_exact Let_def)

text \<open>A process preview is the rendering of the whole command line, with the values that need it
  quoted, cut at 120 characters and then marked with an ellipsis, or the redaction text when what
  would be shown looks like a secret. The character-by-character loop with its early exits never
  drops a character that fits and never splits the count differently.\<close>

theorem process_preview_is_cut_rendering:
  "process_preview is_alphanumeric executable args =
     (let s = render_process is_alphanumeric (executable # args) in
      if secret_like_value (take COMMAND_PREVIEW_MAX_CHARS s) then redacted
      else if length s \<le> COMMAND_PREVIEW_MAX_CHARS then s
      else take COMMAND_PREVIEW_MAX_CHARS s @ [ellipsis])"
  by (rule process_preview_exact)

text \<open>Previews are stable: a command preview, and a process preview, is left as it is by
  \<open>command_preview\<close>, has at most 121 characters, is one line and never looks like a secret. This is
  the test that a Job inventory applies to the previews it receives, so it never refuses one
  that the program itself has made.\<close>

theorem previews_are_stable:
  assumes "\<And>c. is_alphanumeric c \<Longrightarrow> \<not> is_whitespace c"
  shows "\<forall>p \<in> {command_preview command, process_preview is_alphanumeric executable args}.
    command_preview p = p \<and> length p \<le> COMMAND_PREVIEW_MAX_CHARS + 1 \<and> LF \<notin> set p \<and> \<not> secret_like_value p"
proof
  fix p assume "p \<in> {command_preview command, process_preview is_alphanumeric executable args}"
  then have "preview_ok p" using command_preview_ok process_preview_ok [OF assms] by auto
  then show "command_preview p = p \<and> length p \<le> COMMAND_PREVIEW_MAX_CHARS + 1 \<and> LF \<notin> set p \<and> \<not> secret_like_value p"
    using preview_ok_fixed by (auto simp: preview_ok_def)
qed

theorem previews_are_stable_witness:
  "Collect is_ascii_alphanumeric \<inter> Collect is_whitespace = {}
   \<and> process_preview is_ascii_alphanumeric (lit ''git'') [lit ''two words''] = lit ''git '' @ [QUOTE] @ lit ''two words'' @ [QUOTE]
   \<and> command_preview (lit ''git '' @ [QUOTE] @ lit ''two words'' @ [QUOTE]) = lit ''git '' @ [QUOTE] @ lit ''two words'' @ [QUOTE]"
proof -
  have a: "is_ascii_alphanumeric c \<Longrightarrow> \<not> is_whitespace c" for c
    by (auto simp: is_ascii_alphanumeric_def is_ascii_digit_def is_whitespace_def)
  have p: "process_preview is_ascii_alphanumeric (lit ''git'') [lit ''two words'']
      = lit ''git '' @ [QUOTE] @ lit ''two words'' @ [QUOTE]"
    by code_simp
  show ?thesis
    using previews_are_stable [of is_ascii_alphanumeric, OF a, where command = "[]" and executable = "lit ''git''" and args = "[lit ''two words'']"] a
    by (auto simp: p)
qed

end
