(* ===== verification/Job_Reconciliation.thy ===== *)
theory Job_Reconciliation
  imports Project_Inventory Audit_Previews
begin

text \<open>
  Reconciliation of the registry's Jobs with the inventory that a Runner sends when it registers
  (\<open>crates/webcodex-runner-registry/src/reconciliation.rs\<close>): the validation of an inventory, the
  preflight against the registry, the reconciliation proper, the termination of a replaced
  instance's Jobs, and the sweeps that end expired recoveries and drop old terminal Jobs. The
  inventory types are those of \<open>runner_protocol.rs\<close>.

  The order in which a hash map is iterated is a parameter, a function from the map to the list of its
  keys; so are the configured grace period and the JSON size of an inventory. Where the source
  unwraps a status it has validated before, the result is an option and \<open>None\<close> is the panic.
\<close>

section \<open>Inventories\<close>

definition JOB_SNAPSHOT_STREAM_MAX_BYTES :: nat where "JOB_SNAPSHOT_STREAM_MAX_BYTES = 64 * 1024"
definition JOB_INVENTORY_MAX_ACTIVE_JOBS :: nat where "JOB_INVENTORY_MAX_ACTIVE_JOBS = 64"
definition JOB_INVENTORY_MAX_TERMINAL_JOBS :: nat where "JOB_INVENTORY_MAX_TERMINAL_JOBS = 64"
definition JOB_INVENTORY_MAX_JOBS :: nat where
  "JOB_INVENTORY_MAX_JOBS = JOB_INVENTORY_MAX_ACTIVE_JOBS + JOB_INVENTORY_MAX_TERMINAL_JOBS"
definition JOB_INVENTORY_MAX_SERIALIZED_BYTES :: nat where "JOB_INVENTORY_MAX_SERIALIZED_BYTES = 1024 * 1024"
definition JOB_TERMINAL_RETENTION_SECS :: int where "JOB_TERMINAL_RETENTION_SECS = 15 * 60"
definition MAX_CONTEXT_FIELD_CHARS :: nat where "MAX_CONTEXT_FIELD_CHARS = 1024"
definition MAX_SNAPSHOT_ERROR_CHARS :: nat where "MAX_SNAPSHOT_ERROR_CHARS = 4096"
definition RECOVERY_SWEEP_PASS_CAP :: nat where "RECOVERY_SWEEP_PASS_CAP = 64"

record ShellJobContext =
  ctx_runtime_project_id :: "rstr option"
  ctx_workflow_session_id :: "rstr option"
  ctx_ssh_resource :: "rstr option"
  ctx_project_cwd :: "rstr option"
  ctx_cwd :: "rstr option"
  ctx_purpose :: "rstr option"
  ctx_shell :: "rstr option"
  ctx_command_preview :: rstr
  ctx_validation_steps :: "rstr list"
  ctx_validation :: "ShellJobValidationMetadata option"
  ctx_structured_execution :: "ShellJobStructuredExecutionMetadata option"

text \<open>A stream snapshot has the fields of the registry's log state.\<close>

record ShellJobSnapshot =
  snap_job_id :: rstr
  snap_request_id :: rstr
  snap_status :: rstr
  snap_update_seq :: nat
  snap_created_at :: int
  snap_started_at :: "int option"
  snap_ended_at :: "int option"
  snap_exit_code :: "int option"
  snap_duration_ms :: "nat option"
  snap_error :: "rstr option"
  snap_command_execution_state :: "ShellCommandExecutionState option"
  snap_context :: ShellJobContext
  snap_stdout :: ShellJobLogState
  snap_stderr :: ShellJobLogState
  snap_validation_progress :: "ShellJobValidationProgress option"
  snap_activity :: "ShellJobActivity option"

record ShellJobInventory =
  jinv_active_complete :: bool
  jinv_jobs :: "ShellJobSnapshot list"

record ReconcileEnv =
  env_jobs_order :: "(rstr \<rightharpoonup> ShellJobRecord) \<Rightarrow> rstr list"
  env_pending_order :: "(rstr \<rightharpoonup> PendingShellRequest) \<Rightarrow> rstr list"
  env_grace :: int
  env_inventory_bytes :: "ShellJobInventory \<Rightarrow> rstr + nat"

section \<open>Validation\<close>

definition valid_bounded_text :: "rstr \<Rightarrow> nat \<Rightarrow> bool" where
  "valid_bounded_text v max_chars \<longleftrightarrow> 0 \<notin> set v \<and> length v \<le> max_chars"

definition validate_stream_snapshot :: "ShellJobLogState \<Rightarrow> rstr \<Rightarrow> rstr + unit" where
  "validate_stream_snapshot stream field =
     (if JOB_SNAPSHOT_STREAM_MAX_BYTES < str_len (log_tail stream)
        then Inl (lit ''job inventory '' @ field @ lit '' exceeds '' @ show_nat JOB_SNAPSHOT_STREAM_MAX_BYTES @ lit '' bytes'')
      else if log_first_retained_line stream = 0
          \<or> log_next_line stream \<noteq> sat_add (log_first_retained_line stream) (retained_line_count (log_tail stream))
        then Inl (lit ''job inventory '' @ field @ lit '' line range is inconsistent'')
      else if 1 < log_first_retained_line stream \<and> \<not> log_truncated stream
        then Inl (lit ''job inventory '' @ field @ lit '' omits earlier lines without truncated=true'')
      else Inr ())"

definition SESSION_ID_PREFIX :: rstr where "SESSION_ID_PREFIX = lit ''wc_sess_''"

definition is_valid_session_id :: "rstr \<Rightarrow> bool" where
  "is_valid_session_id session_id \<longleftrightarrow> starts_with session_id SESSION_ID_PREFIX
     \<and> str_len SESSION_ID_PREFIX < str_len session_id
     \<and> list_all (\<lambda>b. is_ascii_alphanumeric b \<or> b = 95) session_id"

definition purposes :: "rstr list" where
  "purposes = [lit ''validation'', lit ''test'', lit ''build'', lit ''format'', lit ''release'', lit ''diagnostic'',
     lit ''operation'', lit ''other'']"

definition shells :: "rstr list" where
  "shells = [lit ''sh'', lit ''bash'', lit ''powershell'', lit ''javascript'', lit ''typescript'', lit ''direct_argv'',
     lit ''configured'', lit ''custom'', lit ''remote'']"

definition check_context_field :: "rstr \<Rightarrow> rstr option \<Rightarrow> rstr + unit" where
  "check_context_field name v =
     reject_if (opt_ex (\<lambda>s. \<not> valid_bounded_text s MAX_CONTEXT_FIELD_CHARS) v)
       (lit ''job inventory '' @ name @ lit '' is invalid or oversized'')"

definition validate_project_context ::
    "rstr \<Rightarrow> RunnerProjectSummary list \<Rightarrow> bool \<Rightarrow> rstr option \<Rightarrow> rstr + unit" where
  "validate_project_context client_id projects require_project_membership runtime_project_id =
     (case runtime_project_id of
        None \<Rightarrow> Inr ()
      | Some rid \<Rightarrow>
          (case strip_prefix rid (lit ''agent:'' @ client_id @ lit '':'') of
             None \<Rightarrow> Inl (lit ''job inventory runtime_project_id does not belong to client_id'')
           | Some project_id \<Rightarrow>
               if project_id = [] then Inl (lit ''job inventory runtime_project_id does not belong to client_id'')
               else and_then (validate_id project_id (lit ''project_id''))
                 (reject_if (require_project_membership
                     \<and> \<not> list_ex (\<lambda>p. \<not> prj_disabled p \<and> prj_id p = project_id) projects)
                   (lit ''job inventory runtime_project_id is not registered by this runner''))))"

definition validate_context ::
    "rstr \<Rightarrow> RunnerProjectSummary list \<Rightarrow> bool \<Rightarrow> ShellJobSnapshot \<Rightarrow> rstr + unit" where
  "validate_context client_id projects require_project_membership snapshot =
     (let context = snap_context snapshot; steps = ctx_validation_steps context in
      and_then (reject_if (command_preview (ctx_command_preview context) \<noteq> ctx_command_preview context
          \<or> COMMAND_PREVIEW_MAX_CHARS + 1 < length (ctx_command_preview context))
        (lit ''job inventory command_preview is not canonical and bounded''))
     (and_then (check_context_field (lit ''project_cwd'') (ctx_project_cwd context))
     (and_then (check_context_field (lit ''cwd'') (ctx_cwd context))
     (and_then (check_context_field (lit ''purpose'') (ctx_purpose context))
     (and_then (check_context_field (lit ''shell'') (ctx_shell context))
     (and_then (reject_if (opt_ex (\<lambda>p. p \<notin> set purposes) (ctx_purpose context)) (lit ''job inventory purpose is invalid''))
     (and_then (reject_if (opt_ex (\<lambda>s. s \<notin> set shells) (ctx_shell context)) (lit ''job inventory shell is invalid''))
     (and_then (reject_if (3 < length steps \<or> card (set steps) \<noteq> length steps
          \<or> list_ex (\<lambda>s. s \<notin> set [lit ''format'', lit ''check'', lit ''test'']) steps)
        (lit ''job inventory validation_steps are invalid''))
     (and_then (reject_if (opt_ex (\<lambda>v. \<not> validation_is_valid v \<or> map step_name (val_steps v) \<noteq> steps) (ctx_validation context))
        (lit ''job inventory validation metadata is invalid''))
     (and_then (reject_if (opt_ex (\<lambda>m. \<not> structured_execution_is_valid m) (ctx_structured_execution context)
          \<or> (ctx_structured_execution context \<noteq> None \<and> (steps \<noteq> [] \<or> ctx_validation context \<noteq> None)))
        (lit ''job inventory structured execution metadata is invalid''))
     (and_then (reject_if (opt_ex (\<lambda>s. \<not> is_valid_session_id s \<or> 128 < length s) (ctx_workflow_session_id context))
        (lit ''job inventory workflow_session_id is invalid''))
     (and_then (reject_if (ctx_workflow_session_id context \<noteq> None \<and> ctx_runtime_project_id context = None)
        (lit ''job inventory workflow_session_id requires runtime_project_id''))
     (validate_project_context client_id projects require_project_membership (ctx_runtime_project_id context))))))))))))))"

text \<open>The consistency of the lifecycle of a terminal command with the state of the Job.\<close>

definition execution_state_consistent :: "RunnerJobLifecycle \<Rightarrow> ShellJobSnapshot \<Rightarrow> ShellCommandExecutionState \<Rightarrow> bool" where
  "execution_state_consistent lifecycle snapshot state =
     (case state of
        NotStarted \<Rightarrow> snap_started_at snapshot = None \<and> lifecycle \<in> set [Failed, Stopped, Cancelled, Lost]
      | OutcomeUnknown \<Rightarrow> lifecycle \<in> set [Failed, Lost]
      | ExecutionTimedOut \<Rightarrow> lifecycle \<in> set [Timeout, TimedOut]
      | ExecutionCompleted \<Rightarrow> lifecycle \<in> set [Completed, Failed, Stopped, Cancelled])"

definition progress_structurally_valid ::
    "RunnerJobLifecycle \<Rightarrow> rstr list \<Rightarrow> ShellJobValidationProgress option \<Rightarrow> bool" where
  "progress_structurally_valid lifecycle steps progress =
     (case lifecycle of
        RunnerQueued \<Rightarrow> progress = None
      | Running \<Rightarrow> opt_ex (\<lambda>p. prog_completed p < length steps
            \<and> prog_current_step p = Some (steps ! prog_completed p) \<and> prog_failed_step p = None) progress
      | StopRequested \<Rightarrow> opt_ex (\<lambda>p. prog_completed p < length steps
            \<and> prog_current_step p = Some (steps ! prog_completed p) \<and> prog_failed_step p = None) progress
      | Completed \<Rightarrow> opt_ex (\<lambda>p. prog_completed p = length steps
            \<and> prog_current_step p = None \<and> prog_failed_step p = None) progress
      | Failed \<Rightarrow> opt_all (\<lambda>p. prog_current_step p = None
            \<and> opt_all (\<lambda>failed. prog_completed p < length steps \<and> steps ! prog_completed p = failed) (prog_failed_step p)) progress
      | Queued \<Rightarrow> False
      | StartedLegacy \<Rightarrow> False
      | _ \<Rightarrow> opt_all (\<lambda>p. prog_current_step p = None \<and> prog_failed_step p = None) progress)"

definition validate_progress :: "RunnerJobLifecycle \<Rightarrow> ShellJobSnapshot \<Rightarrow> rstr + unit" where
  "validate_progress lifecycle snapshot =
     (let steps = ctx_validation_steps (snap_context snapshot); progress = snap_validation_progress snapshot in
      and_then (reject_if (steps = [] \<and> progress \<noteq> None) (lit ''job inventory validation_progress is unexpected''))
     (and_then (reject_if (opt_ex (\<lambda>p. length steps < prog_completed p
            \<or> opt_ex (\<lambda>s. s \<notin> set steps) (prog_current_step p) \<or> opt_ex (\<lambda>s. s \<notin> set steps) (prog_failed_step p)
            \<or> (prog_current_step p \<noteq> None \<and> prog_failed_step p \<noteq> None)) progress)
        (lit ''job inventory validation_progress is inconsistent''))
     (reject_if (steps \<noteq> [] \<and> \<not> progress_structurally_valid lifecycle steps progress)
        (lit ''job inventory validation_progress does not match status''))))"

definition expected_phase :: "rstr option \<Rightarrow> ShellJobActivityPhase option" where
  "expected_phase step =
     (if step = Some (lit ''format'') then Some ValidationFormat
      else if step = Some (lit ''check'') then Some ValidationCheck
      else if step = Some (lit ''test'') then Some ValidationTest
      else None)"

definition validate_activity :: "RunnerJobLifecycle \<Rightarrow> ShellJobSnapshot \<Rightarrow> rstr + unit" where
  "validate_activity lifecycle snapshot =
     (case snap_activity snapshot of
        None \<Rightarrow> Inr ()
      | Some activity \<Rightarrow>
          if \<not> activity_is_canonical activity \<or> lifecycle \<notin> set [Running, StopRequested]
          then Inl (lit ''job inventory activity is invalid for status'')
          else
          (let steps = ctx_validation_steps (snap_context snapshot) in
           case act_source activity of
             RunnerExecution \<Rightarrow>
               reject_if (steps \<noteq> [] \<or> act_phase activity \<noteq> ProcessRunning)
                 (lit ''job inventory activity is inconsistent with execution kind'')
           | ValidationPlan \<Rightarrow>
               reject_if (expected_phase (Option.bind (snap_validation_progress snapshot) prog_current_step)
                   \<noteq> Some (act_phase activity))
                 (lit ''job inventory activity is inconsistent with validation progress'')
           | CargoOutput \<Rightarrow>
               (case snap_validation_progress snapshot of
                  None \<Rightarrow> Inl (lit ''job inventory Cargo activity requires validation progress'')
                | Some progress \<Rightarrow>
                    and_then (reject_if (prog_current_step progress = None \<or> steps = [])
                      (lit ''job inventory Cargo activity requires an active validation step''))
                    (reject_if (opt_ex (\<lambda>v. \<not> (prog_completed progress < length (val_steps v)
                         \<and> step_program (val_steps v ! prog_completed progress) = lit ''cargo''
                         \<and> is_canonical (val_steps v ! prog_completed progress))) (ctx_validation (snap_context snapshot)))
                      (lit ''job inventory Cargo activity is inconsistent with validation metadata'')))))"

text \<open>The timestamps of a snapshot are in order.\<close>

definition timestamps_consistent :: "ShellJobSnapshot \<Rightarrow> bool" where
  "timestamps_consistent s \<longleftrightarrow> \<not> (snap_created_at s \<le> 0
     \<or> opt_ex (\<lambda>started. started < snap_created_at s) (snap_started_at s)
     \<or> opt_ex (\<lambda>ended. ended < (case snap_started_at s of None \<Rightarrow> snap_created_at s | Some t \<Rightarrow> t)) (snap_ended_at s))"

definition validate_lifecycle_fields :: "RunnerJobLifecycle \<Rightarrow> ShellJobSnapshot \<Rightarrow> rstr + unit" where
  "validate_lifecycle_fields lifecycle s =
     (let active = is_runner_active lifecycle; terminal = is_terminal lifecycle in
      and_then (reject_if (\<not> active \<and> \<not> terminal) (lit ''job inventory status '' @ [39] @ snap_status s @ [39] @ lit '' is invalid''))
     (and_then (reject_if (\<not> timestamps_consistent s) (lit ''job inventory timestamps are inconsistent''))
     (and_then (reject_if (active \<and> snap_ended_at s \<noteq> None) (lit ''active job inventory snapshot must not have ended_at''))
     (and_then (reject_if (active \<and> (snap_exit_code s \<noteq> None \<or> snap_duration_ms s \<noteq> None))
        (lit ''active job inventory snapshot must not contain terminal result fields''))
     (and_then (reject_if (terminal \<and> snap_ended_at s = None) (lit ''terminal job inventory snapshot requires ended_at''))
     (and_then (reject_if (lifecycle = Completed \<and> snap_exit_code s \<noteq> Some 0)
        (lit ''completed job inventory snapshot requires exit_code=0''))
     (and_then (reject_if (lifecycle \<in> set [Running, StopRequested] \<and> snap_started_at s = None)
        (lit ''running job inventory snapshot requires started_at''))
     (and_then (reject_if (opt_ex (\<lambda>e. \<not> valid_bounded_text e MAX_SNAPSHOT_ERROR_CHARS) (snap_error s))
        (lit ''job inventory error is invalid or oversized''))
     (and_then (reject_if (active \<and> snap_command_execution_state s \<noteq> None)
        (lit ''active job inventory snapshot must not contain terminal lifecycle''))
     (and_then (reject_if (ctx_structured_execution (snap_context s) \<noteq> None \<and> terminal \<and> snap_command_execution_state s = None)
        (lit ''terminal structured job inventory snapshot requires command_execution_state''))
     (reject_if (opt_ex (\<lambda>state. \<not> execution_state_consistent lifecycle s state) (snap_command_execution_state s))
        (lit ''job inventory command_execution_state is inconsistent''))))))))))))"

definition validate_snapshot ::
    "rstr \<Rightarrow> RunnerProjectSummary list \<Rightarrow> bool \<Rightarrow> ShellJobSnapshot \<Rightarrow> rstr + bool" where
  "validate_snapshot client_id projects require_project_membership s =
     and_then (validate_id (snap_job_id s) (lit ''job_id''))
    (and_then (validate_id (snap_request_id s) (lit ''request_id''))
    (and_then (reject_if (snap_update_seq s = 0) (lit ''job inventory update_seq must be greater than zero''))
    (case parse_job_lifecycle (snap_status s) of
       Inl _ \<Rightarrow> Inl (lit ''job inventory status '' @ [39] @ snap_status s @ [39] @ lit '' is invalid'')
     | Inr lifecycle \<Rightarrow>
         and_then (validate_lifecycle_fields lifecycle s)
        (and_then (validate_context client_id projects require_project_membership s)
        (and_then (validate_stream_snapshot (snap_stdout s) (lit ''stdout''))
        (and_then (validate_stream_snapshot (snap_stderr s) (lit ''stderr''))
        (and_then (validate_progress lifecycle s)
        (and_then (validate_activity lifecycle s)
        (Inr (is_runner_active lifecycle))))))))))"

record JobCounts =
  cnt_ids :: "rstr set"
  cnt_request_ids :: "rstr set"
  cnt_active :: nat
  cnt_terminal :: nat
  cnt_saw_terminal :: bool

definition no_counts :: JobCounts where
  "no_counts = \<lparr>cnt_ids = {}, cnt_request_ids = {}, cnt_active = 0, cnt_terminal = 0, cnt_saw_terminal = False\<rparr>"

fun validate_jobs ::
    "rstr \<Rightarrow> RunnerProjectSummary list \<Rightarrow> bool \<Rightarrow> JobCounts \<Rightarrow> ShellJobSnapshot list \<Rightarrow> rstr + JobCounts" where
  "validate_jobs client_id projects membership counts [] = Inr counts"
| "validate_jobs client_id projects membership counts (s # snaps) =
     (if snap_job_id s \<in> cnt_ids counts then Inl (lit ''job inventory contains duplicate job_id '' @ snap_job_id s)
      else if snap_request_id s \<in> cnt_request_ids counts
        then Inl (lit ''job inventory contains duplicate request_id '' @ snap_request_id s)
      else (case validate_snapshot client_id projects membership s of
          Inl e \<Rightarrow> Inl e
        | Inr active \<Rightarrow>
            let seen = counts\<lparr>cnt_ids := insert (snap_job_id s) (cnt_ids counts),
                         cnt_request_ids := insert (snap_request_id s) (cnt_request_ids counts)\<rparr> in
            if active then
              (if cnt_saw_terminal counts
               then Inl (lit ''job inventory must order all active jobs before terminal history'')
               else validate_jobs client_id projects membership (seen\<lparr>cnt_active := cnt_active counts + 1\<rparr>) snaps)
            else validate_jobs client_id projects membership
                   (seen\<lparr>cnt_saw_terminal := True, cnt_terminal := cnt_terminal counts + 1\<rparr>) snaps))"

definition validate_job_inventory_inner ::
    "ReconcileEnv \<Rightarrow> rstr \<Rightarrow> RunnerProjectSummary list \<Rightarrow> bool \<Rightarrow> ShellJobInventory \<Rightarrow> rstr + unit" where
  "validate_job_inventory_inner env client_id projects require_project_membership inventory =
     and_then (reject_if (\<not> jinv_active_complete inventory)
       (lit ''job_state_reconciliation requires active_complete job inventory''))
    (and_then (reject_if (JOB_INVENTORY_MAX_JOBS < length (jinv_jobs inventory))
       (lit ''job inventory exceeds '' @ show_nat JOB_INVENTORY_MAX_JOBS @ lit '' records''))
    (case env_inventory_bytes env inventory of
       Inl error \<Rightarrow> Inl (lit ''could not serialize job inventory: '' @ error)
     | Inr bytes \<Rightarrow>
         and_then (reject_if (JOB_INVENTORY_MAX_SERIALIZED_BYTES < bytes)
           (lit ''job inventory exceeds '' @ show_nat JOB_INVENTORY_MAX_SERIALIZED_BYTES @ lit '' serialized bytes''))
         (case validate_jobs client_id projects require_project_membership no_counts (jinv_jobs inventory) of
            Inl e \<Rightarrow> Inl e
          | Inr counts \<Rightarrow>
              and_then (reject_if (JOB_INVENTORY_MAX_ACTIVE_JOBS < cnt_active counts)
                (lit ''job inventory exceeds '' @ show_nat JOB_INVENTORY_MAX_ACTIVE_JOBS @ lit '' active records''))
              (reject_if (JOB_INVENTORY_MAX_TERMINAL_JOBS < cnt_terminal counts)
                (lit ''job inventory exceeds '' @ show_nat JOB_INVENTORY_MAX_TERMINAL_JOBS @ lit '' terminal records'')))))"

definition validate_job_inventory ::
    "ReconcileEnv \<Rightarrow> rstr \<Rightarrow> RunnerProjectSummary list \<Rightarrow> ShellJobInventory \<Rightarrow> rstr + unit" where
  "validate_job_inventory env client_id projects inventory = validate_job_inventory_inner env client_id projects True inventory"

definition validate_job_inventory_without_project_membership ::
    "ReconcileEnv \<Rightarrow> rstr \<Rightarrow> ShellJobInventory \<Rightarrow> rstr + unit" where
  "validate_job_inventory_without_project_membership env client_id inventory =
     validate_job_inventory_inner env client_id [] False inventory"

section \<open>Preflight\<close>

definition same_context :: "ShellJobRecord \<Rightarrow> ShellJobSnapshot \<Rightarrow> bool" where
  "same_context job s \<longleftrightarrow>
     (let context = snap_context s in
      job_request_id job = Some (snap_request_id s)
      \<and> job_project_id job = ctx_runtime_project_id context
      \<and> job_session_id job = ctx_workflow_session_id context
      \<and> job_ssh_resource job = ctx_ssh_resource context
      \<and> job_cwd job = ctx_cwd context
      \<and> job_project_cwd job = ctx_project_cwd context
      \<and> job_purpose job = ctx_purpose context
      \<and> job_shell job = ctx_shell context
      \<and> job_command_preview job = ctx_command_preview context
      \<and> job_validation_steps job = ctx_validation_steps context
      \<and> job_validation job = ctx_validation context
      \<and> job_structured_execution job = ctx_structured_execution context)"

definition detached_instance_transfer_allowed :: "ShellJobRecord \<Rightarrow> ShellJobSnapshot \<Rightarrow> bool" where
  "detached_instance_transfer_allowed job s \<longleftrightarrow>
     job_kind job = lit ''run_detached_process''
     \<and> opt_ex (\<lambda>m. sx_execution_source m = lit ''run_detached_process'') (job_structured_execution job)
     \<and> opt_ex (\<lambda>m. sx_execution_source m = lit ''run_detached_process'') (ctx_structured_execution (snap_context s))
     \<and> same_context job s"

definition progress_count :: "ShellJobValidationProgress option \<Rightarrow> nat" where
  "progress_count p = (case p of None \<Rightarrow> 0 | Some v \<Rightarrow> prog_completed v)"

text \<open>The checks of a snapshot against the record of its Job.\<close>

definition preflight_existing :: "rstr \<Rightarrow> rstr \<Rightarrow> ShellJobRecord \<Rightarrow> ShellJobSnapshot \<Rightarrow> rstr + unit" where
  "preflight_existing client_id instance_id existing s =
     (let about = lit ''job inventory job_id '' @ snap_job_id s in
      if job_client_id existing \<noteq> client_id then Inl (about @ lit '' belongs to a different runner'')
      else if is_terminal (job_lifecycle existing) \<and> obs_receipt_expires_at (job_observation existing) \<noteq> None then Inr ()
      else
        let transfer = job_runner_instance_id existing \<noteq> instance_id \<and> detached_instance_transfer_allowed existing s in
        if job_runner_instance_id existing \<noteq> instance_id \<and> \<not> transfer
          then Inl (about @ lit '' belongs to a replaced runner instance'')
        else if \<not> same_context existing s then Inl (about @ lit '' has inconsistent ownership context'')
        else if transfer \<and> \<not> is_terminal (job_lifecycle existing) \<and> snap_update_seq s < job_last_update_seq existing
          then Inl (about @ lit '' regresses update sequence across detached runner replacement'')
        else
          let would_apply = job_last_update_seq existing < snap_update_seq s
                \<or> (snap_update_seq s = job_last_update_seq existing \<and> recovery_active existing) in
          if \<not> is_terminal (job_lifecycle existing) \<and> would_apply then
            (if progress_count (snap_validation_progress s) < progress_count (job_validation_progress existing)
               then Inl (about @ lit '' regresses validation progress'')
             else if log_next_line (snap_stdout s) < log_next_line (job_stdout existing)
                 \<or> log_next_line (snap_stderr s) < log_next_line (job_stderr existing)
               then Inl (about @ lit '' regresses an absolute log cursor'')
             else Inr ())
          else Inr ())"

definition preflight_snapshot :: "RunnerRegistryInner \<Rightarrow> rstr \<Rightarrow> rstr \<Rightarrow> ShellJobSnapshot \<Rightarrow> rstr + unit" where
  "preflight_snapshot inner client_id instance_id s =
     (if opt_ex (\<lambda>jid. jid \<noteq> snap_job_id s) (reg_request_to_job inner (snap_request_id s))
      then Inl (lit ''job inventory request_id '' @ snap_request_id s @ lit '' belongs to a different job'')
      else (case reg_jobs_by_id inner (snap_job_id s) of
          None \<Rightarrow> Inr ()
        | Some existing \<Rightarrow> preflight_existing client_id instance_id existing s))"

fun preflight_each :: "RunnerRegistryInner \<Rightarrow> rstr \<Rightarrow> rstr \<Rightarrow> ShellJobSnapshot list \<Rightarrow> rstr + unit" where
  "preflight_each inner client_id instance_id [] = Inr ()"
| "preflight_each inner client_id instance_id (s # snaps) =
     and_then (preflight_snapshot inner client_id instance_id s) (preflight_each inner client_id instance_id snaps)"

definition preflight_inventory_locked ::
    "RunnerRegistryInner \<Rightarrow> rstr \<Rightarrow> rstr \<Rightarrow> ShellJobInventory \<Rightarrow> rstr + unit" where
  "preflight_inventory_locked inner client_id instance_id inventory =
     preflight_each inner client_id instance_id (jinv_jobs inventory)"

section \<open>Requests\<close>

definition remove_job_request_mapping :: "rstr \<Rightarrow> rstr option \<Rightarrow> RunnerRegistryInner \<Rightarrow> RunnerRegistryInner" where
  "remove_job_request_mapping client_id request_id inner =
     (case request_id of
        None \<Rightarrow> inner
      | Some rid \<Rightarrow> inner\<lparr>reg_pending_by_id := (reg_pending_by_id inner)(rid := None),
          reg_persistent_waiters := reg_persistent_waiters inner - {rid},
          reg_request_to_job := (reg_request_to_job inner)(rid := None),
          reg_queues_by_runner := (case reg_queues_by_runner inner client_id of
             None \<Rightarrow> reg_queues_by_runner inner
           | Some queue \<Rightarrow> (reg_queues_by_runner inner)(client_id \<mapsto> filter (\<lambda>queued. queued \<noteq> rid) queue))\<rparr>)"

definition control_requests :: "ReconcileEnv \<Rightarrow> RunnerRegistryInner \<Rightarrow> rstr \<Rightarrow> rstr set \<Rightarrow> rstr list" where
  "control_requests env inner client_id job_ids =
     filter (\<lambda>rid. opt_ex (\<lambda>pending. pend_client_id pending = client_id
           \<and> opt_ex (\<lambda>jid. jid \<in> job_ids) (pend_job_id pending)) (reg_pending_by_id inner rid))
       (env_pending_order env (reg_pending_by_id inner))"

definition remove_job_control_requests ::
    "ReconcileEnv \<Rightarrow> rstr \<Rightarrow> rstr set \<Rightarrow> RunnerRegistryInner \<Rightarrow> RunnerRegistryInner" where
  "remove_job_control_requests env client_id job_ids inner =
     fold (\<lambda>rid. remove_job_request_mapping client_id (Some rid)) (control_requests env inner client_id job_ids) inner"

definition remove_job :: "rstr \<Rightarrow> RunnerRegistryInner \<Rightarrow> RunnerRegistryInner" where
  "remove_job jid inner = inner\<lparr>reg_jobs_by_id := (reg_jobs_by_id inner)(jid := None)\<rparr>"

definition cleanup_removable :: "ShellJobRecord \<Rightarrow> bool" where
  "cleanup_removable job \<longleftrightarrow> job_visibility job = CleanupPending \<and> is_terminal (job_lifecycle job)"

definition remove_cleanup_terminal_jobs_locked :: "ReconcileEnv \<Rightarrow> RunnerRegistryInner \<Rightarrow> RunnerRegistryInner" where
  "remove_cleanup_terminal_jobs_locked env inner =
     fold remove_job (filter (\<lambda>jid. opt_ex cleanup_removable (reg_jobs_by_id inner jid))
       (env_jobs_order env (reg_jobs_by_id inner))) inner"

section \<open>Suppressions\<close>

definition prune_projected_structured_terminal_suppressions :: "int \<Rightarrow> RunnerRecord \<Rightarrow> RunnerRecord" where
  "prune_projected_structured_terminal_suppressions now runner =
     runner\<lparr>runner_suppressions := filter (\<lambda>s. now < sup_expires_at s) (runner_suppressions runner)\<rparr>"

definition remember_projected_structured_terminal :: "rstr \<Rightarrow> rstr \<Rightarrow> int \<Rightarrow> RunnerRecord \<Rightarrow> RunnerRecord" where
  "remember_projected_structured_terminal jid request_id now runner =
     (let pruned = prune_projected_structured_terminal_suppressions now runner;
          kept = filter (\<lambda>s. sup_job_id s \<noteq> jid \<or> sup_request_id s \<noteq> request_id) (runner_suppressions pruned);
          ring = kept @ [\<lparr>sup_client_id = runner_client_id runner, sup_runner_instance_id = runner_instance_id runner,
            sup_job_id = jid, sup_request_id = request_id, sup_expires_at = i64_sat_add now JOB_TERMINAL_RETENTION_SECS\<rparr>]
      in pruned\<lparr>runner_suppressions := drop (length ring - JOB_INVENTORY_MAX_TERMINAL_JOBS) ring\<rparr>)"

definition suppresses_projected_structured_terminal ::
    "rstr \<Rightarrow> rstr \<Rightarrow> rstr \<Rightarrow> rstr \<Rightarrow> int \<Rightarrow> RunnerRecord \<Rightarrow> bool" where
  "suppresses_projected_structured_terminal client_id instance_id jid request_id now runner \<longleftrightarrow>
     list_ex (\<lambda>s. now < sup_expires_at s \<and> sup_client_id s = client_id \<and> sup_runner_instance_id s = instance_id
       \<and> sup_job_id s = jid \<and> sup_request_id s = request_id) (runner_suppressions runner)"

definition prune_projected_structured_terminal_suppressions_locked :: "int \<Rightarrow> RunnerRegistryInner \<Rightarrow> RunnerRegistryInner" where
  "prune_projected_structured_terminal_suppressions_locked now inner =
     inner\<lparr>reg_runners := (\<lambda>k. map_option (prune_projected_structured_terminal_suppressions now) (reg_runners inner k))\<rparr>"

section \<open>Sweeps\<close>

definition recovery_expired :: "int \<Rightarrow> int \<Rightarrow> rstr option \<Rightarrow> ShellJobRecord \<Rightarrow> bool" where
  "recovery_expired grace now client_filter job \<longleftrightarrow> recovery_active job
     \<and> opt_all (\<lambda>client_id. job_client_id job = client_id) client_filter
     \<and> opt_ex (\<lambda>since. grace \<le> i64_sat_sub now since) (rec_recovering_since (job_recovery job))"

text \<open>The keys that satisfy a test on their Job, in iteration order, with the Runner and the request of the Job.\<close>

definition jobs_where ::
    "ReconcileEnv \<Rightarrow> RunnerRegistryInner \<Rightarrow> (ShellJobRecord \<Rightarrow> bool) \<Rightarrow> (rstr \<times> rstr \<times> rstr option) list" where
  "jobs_where env inner P =
     List.map_filter (\<lambda>jid. case reg_jobs_by_id inner jid of
         None \<Rightarrow> None
       | Some job \<Rightarrow> if P job then Some (jid, job_client_id job, job_request_id job) else None)
       (env_jobs_order env (reg_jobs_by_id inner))"

definition lose_if_recovering :: "int \<Rightarrow> rstr \<Rightarrow> RunnerRegistryInner \<Rightarrow> RunnerRegistryInner" where
  "lose_if_recovering now jid inner =
     (case reg_jobs_by_id inner jid of
        None \<Rightarrow> inner
      | Some job \<Rightarrow>
          if recovery_active job then put_job inner jid (mark_job_lost job now RunnerRecoveryDeadlineExceeded
            (lit ''runner did not reconcile the job before the recovery deadline'') (reg_receipt_candidates inner))
          else inner)"

definition remove_requests :: "ReconcileEnv \<Rightarrow> (rstr \<times> rstr \<times> rstr option) list \<Rightarrow> RunnerRegistryInner \<Rightarrow> RunnerRegistryInner" where
  "remove_requests env entries inner =
     fold (\<lambda>client_id. remove_job_control_requests env client_id (set (map fst entries)))
       (remdups (map (fst \<circ> snd) entries))
       (fold (\<lambda>(_, client_id, request_id). remove_job_request_mapping client_id request_id) entries inner)"

definition expire_recovering_jobs_locked ::
    "ReconcileEnv \<Rightarrow> rstr option \<Rightarrow> int \<Rightarrow> nat \<Rightarrow> RunnerRegistryInner \<Rightarrow> RunnerRegistryInner \<times> nat" where
  "expire_recovering_jobs_locked env client_filter now pass_cap inner =
     (let expired = take pass_cap (jobs_where env inner (recovery_expired (env_grace env) now client_filter)) in
      if expired = [] then (inner, 0)
      else (remove_cleanup_terminal_jobs_locked env
              (remove_requests env expired (fold (lose_if_recovering now) (map fst expired) inner)),
            length expired))"

text \<open>The terminal sweep: a terminal Job is first observed, and removed when it has been observed long
  enough. \<open>intents\<close> is the registry's table of cleanup intents.\<close>

datatype TerminalSweepAction = Observe rstr | Remove rstr rstr "rstr option"

definition terminal_sweep_action :: "int \<Rightarrow> RunnerRegistryInner \<Rightarrow> rstr \<Rightarrow> TerminalSweepAction option" where
  "terminal_sweep_action now inner jid =
     (case reg_jobs_by_id inner jid of
        None \<Rightarrow> None
      | Some job \<Rightarrow>
          if job_visibility job \<noteq> Public \<or> \<not> is_terminal (job_lifecycle job) then None
          else (case obs_terminal_observed_at (job_observation job) of
              None \<Rightarrow> Some (Observe jid)
            | Some observed_at \<Rightarrow>
                if JOB_TERMINAL_RETENTION_SECS \<le> i64_sat_sub now observed_at
                then Some (Remove jid (job_client_id job) (job_request_id job)) else None))"

definition observe_job :: "int \<Rightarrow> rstr \<Rightarrow> RunnerRegistryInner \<Rightarrow> RunnerRegistryInner" where
  "observe_job now jid inner =
     (case reg_jobs_by_id inner jid of
        None \<Rightarrow> inner
      | Some job \<Rightarrow> put_job inner jid (observe_job_terminal job now, reg_receipt_candidates inner))"

definition sweep_removals :: "TerminalSweepAction list \<Rightarrow> (rstr \<times> rstr \<times> rstr option) list" where
  "sweep_removals actions = List.map_filter (\<lambda>a. case a of Observe _ \<Rightarrow> None | Remove jid c r \<Rightarrow> Some (jid, c, r)) actions"

definition prune_expired_terminal_jobs_locked ::
    "ReconcileEnv \<Rightarrow> int \<Rightarrow> (rstr \<rightharpoonup> 'i) \<times> RunnerRegistryInner \<Rightarrow> ((rstr \<rightharpoonup> 'i) \<times> RunnerRegistryInner) \<times> nat" where
  "prune_expired_terminal_jobs_locked env now state =
     (let (intents, inner) = state;
          actions = take RECOVERY_SWEEP_PASS_CAP
            (List.map_filter (terminal_sweep_action now inner) (env_jobs_order env (reg_jobs_by_id inner)))
      in if actions = [] then (state, 0)
      else
        let observed = fold (\<lambda>a. case a of Observe jid \<Rightarrow> observe_job now jid | Remove _ _ _ \<Rightarrow> id) actions inner;
            expired = sweep_removals actions;
            ids = set (map fst expired)
        in if expired = [] then ((intents, observed), 0)
        else
          let cleared = remove_requests env expired observed;
              unmapped = cleared\<lparr>reg_request_to_job :=
                (\<lambda>r. case reg_request_to_job cleared r of None \<Rightarrow> None | Some jid \<Rightarrow> if jid \<in> ids then None else Some jid)\<rparr>
          in (((\<lambda>jid. if jid \<in> ids then None else intents jid), fold remove_job (map fst expired) unmapped), length expired))"

section \<open>Reconciliation\<close>

definition reconciled_recovery :: "bool \<Rightarrow> int \<Rightarrow> JobRecoveryReason \<Rightarrow> JobRecoveryState" where
  "reconciled_recovery restarted now reason =
     \<lparr>rec_phase = Some Reconciled, rec_recovered_after_server_restart = restarted, rec_reconciled_at = Some now,
      rec_reason = Some reason, rec_recovering_since = None\<rparr>"

definition record_from_snapshot ::
    "rstr \<Rightarrow> rstr \<Rightarrow> RunnerAccessGroup option \<Rightarrow> ShellJobSnapshot \<Rightarrow> int \<Rightarrow> ShellJobRecord option" where
  "record_from_snapshot client_id instance_id auth_group s now =
     (let context = snap_context s in
      case from_wire (snap_status s) of
        Inl _ \<Rightarrow> None
      | Inr lifecycle \<Rightarrow> Some (observe_job_terminal
          \<lparr>job_id = snap_job_id s, job_request_id = Some (snap_request_id s), job_client_id = client_id,
           job_auth_group = auth_group, job_owner_at_admission = None, job_runner_instance_id = instance_id,
           job_kind = (case ctx_structured_execution context of None \<Rightarrow> lit ''shell'' | Some m \<Rightarrow> sx_execution_source m),
           job_project_id = ctx_runtime_project_id context, job_session_id = ctx_workflow_session_id context,
           job_ssh_resource = ctx_ssh_resource context, job_cwd = ctx_cwd context, job_project_cwd = ctx_project_cwd context,
           job_purpose = ctx_purpose context, job_shell = ctx_shell context, job_command_preview = ctx_command_preview context,
           job_lifecycle = lifecycle, job_created_at = snap_created_at s, job_started_at = snap_started_at s,
           job_ended_at = snap_ended_at s, job_exit_code = snap_exit_code s, job_duration_ms = snap_duration_ms s,
           job_stdout = ShellJobLogState_default, job_stderr = ShellJobLogState_default, job_error = snap_error s,
           job_command_execution_state = snap_command_execution_state s,
           job_structured_execution = ctx_structured_execution context, job_validation_steps = ctx_validation_steps context,
           job_validation = ctx_validation context, job_validation_progress = snap_validation_progress s,
           job_activity = snap_activity s, job_visibility = Public, job_last_update_seq = snap_update_seq s,
           job_recovery = reconciled_recovery True now ServerRestartReconciliation,
           job_observation = JobObservationState_new\<rparr> now))"

definition apply_snapshot ::
    "ShellJobRecord \<Rightarrow> ShellJobSnapshot \<Rightarrow> int \<Rightarrow> JobRecoveryReason \<Rightarrow> candidates \<Rightarrow> (ShellJobRecord \<times> candidates) option" where
  "apply_snapshot job s now recovery_reason cands =
     (case from_wire (snap_status s) of
        Inl _ \<Rightarrow> None
      | Inr lifecycle \<Rightarrow>
          let job1 = observe_job_terminal (job\<lparr>job_lifecycle := lifecycle\<rparr>) now in
          Some (notify_job_update (job1\<lparr>job_started_at := snap_started_at s, job_ended_at := snap_ended_at s,
            job_exit_code := snap_exit_code s, job_duration_ms := snap_duration_ms s, job_error := snap_error s,
            job_command_execution_state := snap_command_execution_state s,
            job_structured_execution := ctx_structured_execution (snap_context s),
            job_validation_progress := snap_validation_progress s, job_activity := snap_activity s,
            job_validation := ctx_validation (snap_context s),
            job_stdout := replace_log_from_snapshot (job_stdout job1) (snap_stdout s),
            job_stderr := replace_log_from_snapshot (job_stderr job1) (snap_stderr s),
            job_last_update_seq := snap_update_seq s,
            job_recovery := (job_recovery job1)\<lparr>rec_phase := Some Reconciled, rec_reconciled_at := Some now,
              rec_reason := Some recovery_reason, rec_recovering_since := None\<rparr>\<rparr>) cands))"

record ReconciliationSummary =
  sum_inventory_active :: nat
  sum_inventory_terminal :: nat
  sum_reconstructed :: nat
  sum_updated :: nat
  sum_missing :: nat
  sum_suppressed_terminal :: nat

definition missing_job :: "rstr \<Rightarrow> rstr \<Rightarrow> rstr set \<Rightarrow> rstr \<Rightarrow> ShellJobRecord \<Rightarrow> bool" where
  "missing_job client_id instance_id inventory_ids jid job \<longleftrightarrow> job_client_id job = client_id
     \<and> job_runner_instance_id job = instance_id \<and> is_runner_active (job_lifecycle job) \<and> jid \<notin> inventory_ids"

text \<open>The keys and requests of the Jobs that satisfy a test, in iteration order.\<close>

definition keys_where ::
    "ReconcileEnv \<Rightarrow> RunnerRegistryInner \<Rightarrow> (rstr \<Rightarrow> ShellJobRecord \<Rightarrow> bool) \<Rightarrow> (rstr \<times> rstr option) list" where
  "keys_where env inner P =
     List.map_filter (\<lambda>jid. case reg_jobs_by_id inner jid of
         None \<Rightarrow> None
       | Some job \<Rightarrow> if P jid job then Some (jid, job_request_id job) else None)
       (env_jobs_order env (reg_jobs_by_id inner))"

text \<open>Ending a list of Jobs as lost, each with its request.\<close>

definition lose_job :: "rstr \<Rightarrow> int \<Rightarrow> JobRecoveryReason \<Rightarrow> rstr \<Rightarrow> rstr \<times> rstr option \<Rightarrow> RunnerRegistryInner \<Rightarrow> RunnerRegistryInner" where
  "lose_job client_id now reason message entry inner =
     (case entry of (jid, request_id) \<Rightarrow>
        remove_job_request_mapping client_id request_id
          (case reg_jobs_by_id inner jid of
             None \<Rightarrow> inner
           | Some job \<Rightarrow> put_job inner jid (mark_job_lost job now reason message (reg_receipt_candidates inner))))"

definition end_jobs ::
    "ReconcileEnv \<Rightarrow> rstr \<Rightarrow> int \<Rightarrow> JobRecoveryReason \<Rightarrow> rstr \<Rightarrow> (rstr \<times> rstr option) list
       \<Rightarrow> RunnerRegistryInner \<Rightarrow> RunnerRegistryInner" where
  "end_jobs env client_id now reason message entries inner =
     remove_job_control_requests env client_id (set (map fst entries))
       (fold (lose_job client_id now reason message) entries inner)"

text \<open>One snapshot of the inventory. A \<open>continue\<close> of the loop skips the removal of the request.\<close>

definition finish_snapshot :: "rstr \<Rightarrow> ShellJobSnapshot \<Rightarrow> RunnerRegistryInner \<Rightarrow> RunnerRegistryInner" where
  "finish_snapshot client_id s inner =
     (if is_final_job_status (snap_status s)
      then remove_job_request_mapping client_id (Some (snap_request_id s)) inner else inner)"

definition reconcile_existing ::
    "rstr \<Rightarrow> rstr \<Rightarrow> int \<Rightarrow> ShellJobSnapshot \<Rightarrow> ShellJobRecord \<Rightarrow> RunnerRegistryInner \<times> ReconciliationSummary
       \<Rightarrow> (RunnerRegistryInner \<times> ReconciliationSummary) option" where
  "reconcile_existing client_id instance_id now s existing state =
     (let (inner, summary) = state;
          transfer = job_runner_instance_id existing \<noteq> instance_id \<and> detached_instance_transfer_allowed existing s in
      if is_terminal (job_lifecycle existing) then Some state
      else if snap_update_seq s < job_last_update_seq existing then Some state
      else if snap_update_seq s = job_last_update_seq existing \<and> \<not> recovery_active existing \<and> \<not> transfer then Some state
      else
        let moved = (if transfer then existing\<lparr>job_runner_instance_id := instance_id\<rparr> else existing) in
        map_option (\<lambda>jc. (finish_snapshot client_id s (put_job inner (snap_job_id s) jc),
            summary\<lparr>sum_updated := sum_updated summary + 1\<rparr>))
          (apply_snapshot moved s now (if transfer then DetachedInstanceTransfer else SameInstanceReconciliation)
            (reg_receipt_candidates inner)))"

definition reconstruct_job ::
    "rstr \<Rightarrow> rstr \<Rightarrow> RunnerAccessGroup option \<Rightarrow> int \<Rightarrow> ShellJobSnapshot \<Rightarrow> RunnerRegistryInner
       \<Rightarrow> (ShellJobRecord \<times> candidates) option" where
  "reconstruct_job client_id instance_id auth_group now s inner =
     map_option (\<lambda>record. notify_job_update
         (record\<lparr>job_owner_at_admission := Option.bind (reg_runners inner client_id) runner_owner,
            job_stdout := replace_log_from_snapshot (job_stdout record) (snap_stdout s),
            job_stderr := replace_log_from_snapshot (job_stderr record) (snap_stderr s)\<rparr>) (reg_receipt_candidates inner))
       (record_from_snapshot client_id instance_id auth_group s now)"

definition reconcile_snapshot ::
    "rstr \<Rightarrow> rstr \<Rightarrow> RunnerAccessGroup option \<Rightarrow> int \<Rightarrow> ShellJobSnapshot \<Rightarrow> RunnerRegistryInner \<times> ReconciliationSummary
       \<Rightarrow> (RunnerRegistryInner \<times> ReconciliationSummary) option" where
  "reconcile_snapshot client_id instance_id auth_group now s state =
     (let (inner, summary) = state;
          suppress_unknown_terminal = is_final_job_status (snap_status s)
            \<and> opt_ex (suppresses_projected_structured_terminal client_id instance_id (snap_job_id s) (snap_request_id s) now)
                (reg_runners inner client_id)
      in case reg_jobs_by_id inner (snap_job_id s) of
        Some existing \<Rightarrow> reconcile_existing client_id instance_id now s existing state
      | None \<Rightarrow>
          if suppress_unknown_terminal
          then Some (inner, summary\<lparr>sum_suppressed_terminal := sum_suppressed_terminal summary + 1\<rparr>)
          else map_option (\<lambda>jc. (finish_snapshot client_id s (put_job inner (snap_job_id s) jc),
                 summary\<lparr>sum_reconstructed := sum_reconstructed summary + 1\<rparr>))
               (reconstruct_job client_id instance_id auth_group now s inner))"

fun reconcile_each ::
    "rstr \<Rightarrow> rstr \<Rightarrow> RunnerAccessGroup option \<Rightarrow> int \<Rightarrow> ShellJobSnapshot list \<Rightarrow> RunnerRegistryInner \<times> ReconciliationSummary
       \<Rightarrow> (RunnerRegistryInner \<times> ReconciliationSummary) option" where
  "reconcile_each client_id instance_id auth_group now [] state = Some state"
| "reconcile_each client_id instance_id auth_group now (s # snaps) state =
     (case reconcile_snapshot client_id instance_id auth_group now s state of
        None \<Rightarrow> None
      | Some state' \<Rightarrow> reconcile_each client_id instance_id auth_group now snaps state')"

definition reconcile_inventory_locked ::
    "ReconcileEnv \<Rightarrow> rstr \<Rightarrow> rstr \<Rightarrow> RunnerAccessGroup option \<Rightarrow> ShellJobInventory \<Rightarrow> int \<Rightarrow> RunnerRegistryInner
       \<Rightarrow> (RunnerRegistryInner \<times> ReconciliationSummary) option" where
  "reconcile_inventory_locked env client_id instance_id auth_group inventory now inner0 =
     (let jobs = jinv_jobs inventory;
          inner1 = prune_projected_structured_terminal_suppressions_locked now inner0;
          inner2 = fst (expire_recovering_jobs_locked env (Some client_id) now RECOVERY_SWEEP_PASS_CAP inner1);
          missing = keys_where env inner2 (missing_job client_id instance_id (set (map snap_job_id jobs)));
          inner3 = end_jobs env client_id now RunnerInventoryMissing
            (lit ''runner complete active inventory did not contain this job'') missing inner2;
          summary = \<lparr>sum_inventory_active = length (filter (\<lambda>s. is_runner_active_job_status (snap_status s)) jobs),
            sum_inventory_terminal = length (filter (\<lambda>s. is_final_job_status (snap_status s)) jobs),
            sum_reconstructed = 0, sum_updated = 0, sum_missing = length missing, sum_suppressed_terminal = 0\<rparr>
      in map_option (\<lambda>(inner, summary'). (remove_cleanup_terminal_jobs_locked env inner, summary'))
           (reconcile_each client_id instance_id auth_group now jobs (inner3, summary)))"

definition terminated_job ::
    "rstr \<Rightarrow> rstr \<Rightarrow> ShellJobInventory option \<Rightarrow> rstr \<Rightarrow> ShellJobRecord \<Rightarrow> bool" where
  "terminated_job client_id instance_id replacement_inventory jid job \<longleftrightarrow>
     job_client_id job = client_id \<and> job_runner_instance_id job = instance_id
     \<and> (job_lifecycle job = Queued \<or> is_runner_active (job_lifecycle job))
     \<and> \<not> opt_ex (\<lambda>inventory. list_ex (\<lambda>s. snap_job_id s = job_id job \<and> detached_instance_transfer_allowed job s)
           (jinv_jobs inventory)) replacement_inventory"

definition terminate_instance_jobs_locked ::
    "ReconcileEnv \<Rightarrow> rstr \<Rightarrow> rstr \<Rightarrow> ShellJobInventory option \<Rightarrow> int \<Rightarrow> RunnerRegistryInner \<Rightarrow> RunnerRegistryInner" where
  "terminate_instance_jobs_locked env client_id instance_id replacement_inventory now inner =
     remove_cleanup_terminal_jobs_locked env
       (end_jobs env client_id now RunnerInstanceReplaced
         (lit ''runner instance was replaced before the job completed or reconciled'')
         (keys_where env inner (terminated_job client_id instance_id replacement_inventory)) inner)"

section \<open>Effects on the Jobs\<close>

text \<open>The keys of a hash map are iterated once each.\<close>

definition iterates :: "ReconcileEnv \<Rightarrow> bool" where
  "iterates env \<longleftrightarrow> (\<forall>m. finite (dom m) \<longrightarrow> distinct (env_jobs_order env m) \<and> set (env_jobs_order env m) = dom m)"

lemma iteratesD:
  assumes "iterates env" "finite (dom m)"
  shows "distinct (env_jobs_order env m)" "set (env_jobs_order env m) = dom m"
  using assms by (auto simp: iterates_def)

named_theorems job_effects \<open>what the operations do to the Jobs of the registry\<close>

lemma jobs_request_mapping [job_effects]:
  "reg_jobs_by_id (remove_job_request_mapping c r inner) = reg_jobs_by_id inner"
  by (simp add: remove_job_request_mapping_def split: option.splits)

lemma jobs_fold_same:
  "(\<And>x i. reg_jobs_by_id (f x i) = reg_jobs_by_id i) \<Longrightarrow> reg_jobs_by_id (fold f xs inner) = reg_jobs_by_id inner"
  by (induction xs arbitrary: inner) auto

lemma jobs_control_requests [job_effects]:
  "reg_jobs_by_id (remove_job_control_requests env c ids inner) = reg_jobs_by_id inner"
  by (simp add: remove_job_control_requests_def jobs_fold_same jobs_request_mapping)

lemma jobs_remove_requests [job_effects]: "reg_jobs_by_id (remove_requests env entries inner) = reg_jobs_by_id inner"
  by (simp add: remove_requests_def jobs_fold_same jobs_control_requests jobs_request_mapping split: prod.splits)

lemma jobs_prune_suppressions [job_effects]:
  "reg_jobs_by_id (prune_projected_structured_terminal_suppressions_locked now inner) = reg_jobs_by_id inner"
  by (simp add: prune_projected_structured_terminal_suppressions_locked_def)

lemma jobs_finish_snapshot [job_effects]: "reg_jobs_by_id (finish_snapshot c s inner) = reg_jobs_by_id inner"
  by (simp add: finish_snapshot_def jobs_request_mapping)

lemma jobs_put_job [job_effects]: "reg_jobs_by_id (put_job inner jid jc) = (reg_jobs_by_id inner)(jid \<mapsto> fst jc)"
  by (simp add: put_job_def)

lemma jobs_fold_remove: "reg_jobs_by_id (fold remove_job xs inner) k = (if k \<in> set xs then None else reg_jobs_by_id inner k)"
  by (induction xs arbitrary: inner) (auto simp: remove_job_def)

lemma jobs_cleanup:
  assumes "iterates env" "finite (dom (reg_jobs_by_id inner))"
  shows "reg_jobs_by_id (remove_cleanup_terminal_jobs_locked env inner) k =
    (if opt_ex cleanup_removable (reg_jobs_by_id inner k) then None else reg_jobs_by_id inner k)"
  using iteratesD [OF assms]
  by (auto simp: remove_cleanup_terminal_jobs_locked_def jobs_fold_remove opt_ex_def split: option.splits)

text \<open>The record of a Job that is ended as lost.\<close>

definition lost_record :: "int \<Rightarrow> JobRecoveryReason \<Rightarrow> rstr \<Rightarrow> ShellJobRecord \<Rightarrow> ShellJobRecord" where
  "lost_record now reason message job = fst (mark_job_lost job now reason message {})"

lemma mark_job_lost_fst: "fst (mark_job_lost job now reason message cands) = lost_record now reason message job"
  by (simp add: lost_record_def mark_job_lost_def notify_job_update_def Let_def)

lemma lost_record_terminal: "is_terminal (job_lifecycle job) \<Longrightarrow> lost_record now reason message job = job"
  by (simp add: lost_record_def mark_job_lost_def)

lemma lost_record_ends [simp]: "is_terminal (job_lifecycle (lost_record now reason message job))"
proof (cases "is_terminal (job_lifecycle job)")
  case True
  then show ?thesis by (simp add: lost_record_terminal)
next
  case False
  then show ?thesis by (simp add: lost_record_def mark_job_lost_effect(1))
qed

lemma lost_record_idem [simp]: "lost_record now reason message (lost_record n r m job) = lost_record n r m job"
  by (simp add: lost_record_terminal)

lemma lost_record_visibility [simp]: "job_visibility (lost_record now reason message job) = job_visibility job"
  by (simp add: lost_record_def mark_job_lost_def notify_job_update_def observe_job_terminal_def Let_def)

lemma jobs_lose_job:
  "reg_jobs_by_id (lose_job c now r m entry inner) k =
     (if k = fst entry then map_option (lost_record now r m) (reg_jobs_by_id inner k) else reg_jobs_by_id inner k)"
  by (cases entry) (auto simp: lose_job_def job_effects mark_job_lost_fst split: option.splits)

lemma jobs_fold_lose:
  "reg_jobs_by_id (fold (lose_job c now r m) entries inner) k =
     (if k \<in> fst ` set entries then map_option (lost_record now r m) (reg_jobs_by_id inner k) else reg_jobs_by_id inner k)"
proof (induction entries arbitrary: inner)
  case (Cons e es)
  then show ?case by (cases "reg_jobs_by_id inner k") (auto simp: jobs_lose_job)
qed simp

lemma jobs_end_jobs:
  "reg_jobs_by_id (end_jobs env c now r m entries inner) k =
     (if k \<in> fst ` set entries then map_option (lost_record now r m) (reg_jobs_by_id inner k) else reg_jobs_by_id inner k)"
  by (simp add: end_jobs_def job_effects jobs_fold_lose)

lemma keys_where_iff:
  assumes "iterates env" "finite (dom (reg_jobs_by_id inner))"
  shows "k \<in> fst ` set (keys_where env inner P) \<longleftrightarrow> opt_ex (P k) (reg_jobs_by_id inner k)"
proof -
  have "k \<in> fst ` set (keys_where env inner P) \<longleftrightarrow>
      k \<in> set (env_jobs_order env (reg_jobs_by_id inner)) \<and> opt_ex (P k) (reg_jobs_by_id inner k)"
    by (force simp: keys_where_def map_filter_def opt_ex_def split: option.splits if_splits)
  then show ?thesis using iteratesD(2) [OF assms] by (auto simp: opt_ex_def split: option.splits)
qed

text \<open>Ending every Job that satisfies a test.\<close>

lemma jobs_end_where:
  assumes "iterates env" "finite (dom (reg_jobs_by_id inner))"
  shows "reg_jobs_by_id (end_jobs env c now r m (keys_where env inner P) inner) k =
    map_option (\<lambda>job. if P k job then lost_record now r m job else job) (reg_jobs_by_id inner k)"
  by (cases "reg_jobs_by_id inner k") (auto simp: jobs_end_jobs keys_where_iff [OF assms])

definition expiry_record :: "int \<Rightarrow> ShellJobRecord \<Rightarrow> ShellJobRecord" where
  "expiry_record now = lost_record now RunnerRecoveryDeadlineExceeded
     (lit ''runner did not reconcile the job before the recovery deadline'')"

lemma not_recovery_active_lost [simp]: "\<not> recovery_active (lost_record now r m job)"
  using runner_active_not_terminal [of "job_lifecycle (lost_record now r m job)"] by (auto simp: recovery_active_def)

lemma jobs_lose_if_recovering:
  "reg_jobs_by_id (lose_if_recovering now jid inner) k =
     (if k = jid then map_option (\<lambda>j. if recovery_active j then expiry_record now j else j) (reg_jobs_by_id inner k)
      else reg_jobs_by_id inner k)"
  by (auto simp: lose_if_recovering_def job_effects mark_job_lost_fst expiry_record_def split: option.splits)

lemma jobs_fold_lose_recovering:
  "reg_jobs_by_id (fold (lose_if_recovering now) jids inner) k =
     (if k \<in> set jids then map_option (\<lambda>j. if recovery_active j then expiry_record now j else j) (reg_jobs_by_id inner k)
      else reg_jobs_by_id inner k)"
proof (induction jids arbitrary: inner)
  case (Cons j js)
  then show ?case by (cases "reg_jobs_by_id inner k") (auto simp: jobs_lose_if_recovering expiry_record_def)
qed simp

text \<open>The keys that one pass of the recovery sweep takes.\<close>

definition swept :: "ReconcileEnv \<Rightarrow> rstr option \<Rightarrow> int \<Rightarrow> nat \<Rightarrow> RunnerRegistryInner \<Rightarrow> rstr list" where
  "swept env f now cap inner = map fst (take cap (jobs_where env inner (recovery_expired (env_grace env) now f)))"

lemma keys_jobs_where:
  "map fst (jobs_where env inner P) = filter (\<lambda>jid. opt_ex P (reg_jobs_by_id inner jid)) (env_jobs_order env (reg_jobs_by_id inner))"
proof -
  have "map fst (List.map_filter (\<lambda>jid. case reg_jobs_by_id inner jid of None \<Rightarrow> None
        | Some job \<Rightarrow> if P job then Some (jid, job_client_id job, job_request_id job) else None) xs)
      = filter (\<lambda>jid. opt_ex P (reg_jobs_by_id inner jid)) xs" for xs
    by (induction xs) (auto simp: map_filter_simps opt_ex_def split: option.splits)
  then show ?thesis by (simp add: jobs_where_def)
qed

lemma swept_take:
  "swept env f now cap inner = take cap
     (filter (\<lambda>jid. opt_ex (recovery_expired (env_grace env) now f) (reg_jobs_by_id inner jid))
        (env_jobs_order env (reg_jobs_by_id inner)))"
  by (simp add: swept_def keys_jobs_where flip: take_map)

lemma expire_empty: "swept env f now cap inner = [] \<Longrightarrow> expire_recovering_jobs_locked env f now cap inner = (inner, 0)"
  by (simp add: swept_def expire_recovering_jobs_locked_def)

lemma expired_recovering: "recovery_expired g now f job \<Longrightarrow> recovery_active job"
  by (simp add: recovery_expired_def)

lemma swept_expired: "k \<in> set (swept env f now cap inner) \<Longrightarrow>
    opt_ex (recovery_expired (env_grace env) now f) (reg_jobs_by_id inner k)"
  unfolding swept_take by (auto dest: in_set_takeD)

text \<open>One pass: the swept Jobs are lost, and a Job whose cleanup is pending is dropped once terminal.\<close>

definition after_pass :: "int \<Rightarrow> bool \<Rightarrow> ShellJobRecord \<Rightarrow> ShellJobRecord option" where
  "after_pass now hit job =
     (let job' = (if hit then expiry_record now job else job) in if cleanup_removable job' then None else Some job')"

lemma jobs_expire:
  assumes "iterates env" "finite (dom (reg_jobs_by_id inner))" "swept env f now cap inner \<noteq> []"
  shows "reg_jobs_by_id (fst (expire_recovering_jobs_locked env f now cap inner)) k =
    Option.bind (reg_jobs_by_id inner k) (after_pass now (k \<in> set (swept env f now cap inner)))"
proof -
  let ?ex = "take cap (jobs_where env inner (recovery_expired (env_grace env) now f))"
  let ?mid = "remove_requests env ?ex (fold (lose_if_recovering now) (swept env f now cap inner) inner)"
  have ne: "?ex \<noteq> []" using assms(3) by (auto simp: swept_def)
  have mid: "reg_jobs_by_id ?mid k = map_option (\<lambda>j. if k \<in> set (swept env f now cap inner) then expiry_record now j else j)
      (reg_jobs_by_id inner k)" for k
  proof (cases "reg_jobs_by_id inner k")
    case (Some j)
    have "recovery_active j" if "k \<in> set (swept env f now cap inner)"
      using swept_expired [OF that] Some expired_recovering by simp
    with Some show ?thesis by (simp add: jobs_remove_requests jobs_fold_lose_recovering)
  qed (simp add: jobs_remove_requests jobs_fold_lose_recovering)
  have "dom (reg_jobs_by_id ?mid) = dom (reg_jobs_by_id inner)" by (auto simp: mid dom_def)
  with assms(2) have fin: "finite (dom (reg_jobs_by_id ?mid))" by simp
  have "reg_jobs_by_id (fst (expire_recovering_jobs_locked env f now cap inner)) k
      = reg_jobs_by_id (remove_cleanup_terminal_jobs_locked env ?mid) k"
    using ne by (simp add: expire_recovering_jobs_locked_def swept_def Let_def)
  then show ?thesis
    by (cases "reg_jobs_by_id inner k") (simp_all add: jobs_cleanup [OF assms(1) fin] mid after_pass_def Let_def)
qed

lemma finite_expire:
  assumes "iterates env" "finite (dom (reg_jobs_by_id inner))"
  shows "finite (dom (reg_jobs_by_id (fst (expire_recovering_jobs_locked env f now cap inner))))"
proof (cases "swept env f now cap inner = []")
  case False
  then have "dom (reg_jobs_by_id (fst (expire_recovering_jobs_locked env f now cap inner))) \<subseteq> dom (reg_jobs_by_id inner)"
    by (auto simp: jobs_expire [OF assms False] bind_eq_Some_conv)
  then show ?thesis using assms(2) finite_subset by blast
qed (use assms in \<open>simp add: expire_empty\<close>)

section \<open>The recovery sweep ends\<close>

definition expired_jobs :: "ReconcileEnv \<Rightarrow> rstr option \<Rightarrow> int \<Rightarrow> RunnerRegistryInner \<Rightarrow> rstr set" where
  "expired_jobs env f now inner = {k. opt_ex (recovery_expired (env_grace env) now f) (reg_jobs_by_id inner k)}"

lemma expired_jobs_dom: "expired_jobs env f now inner \<subseteq> dom (reg_jobs_by_id inner)"
  by (auto simp: expired_jobs_def opt_ex_def split: option.splits)

lemma expired_not_removable: "recovery_active job \<Longrightarrow> \<not> cleanup_removable job"
  using runner_active_not_terminal by (auto simp: recovery_active_def cleanup_removable_def)

lemma expired_after_pass:
  assumes "iterates env" "finite (dom (reg_jobs_by_id inner))"
  shows "expired_jobs env f now (fst (expire_recovering_jobs_locked env f now cap inner))
    = expired_jobs env f now inner - set (swept env f now cap inner)"
proof (cases "swept env f now cap inner = []")
  case False
  have lost: "\<not> recovery_expired (env_grace env) now f (expiry_record now j)" for j
    using expired_recovering [of "env_grace env" now f "expiry_record now j"] by (auto simp: expiry_record_def)
  show ?thesis
  proof (rule set_eqI)
    fix k
    show "k \<in> expired_jobs env f now (fst (expire_recovering_jobs_locked env f now cap inner))
        \<longleftrightarrow> k \<in> expired_jobs env f now inner - set (swept env f now cap inner)"
    proof (cases "reg_jobs_by_id inner k")
      case (Some j)
      then show ?thesis
        using lost [of j] expired_not_removable [of j] expired_recovering [of "env_grace env" now f j]
        by (auto simp: expired_jobs_def jobs_expire [OF assms False] after_pass_def Let_def split: if_splits)
    qed (simp add: expired_jobs_def jobs_expire [OF assms False])
  qed
qed (simp add: expire_empty)

lemma swept_card:
  assumes "iterates env" "finite (dom (reg_jobs_by_id inner))"
  shows "set (swept env f now cap inner) \<subseteq> expired_jobs env f now inner"
    "card (set (swept env f now cap inner)) = min cap (card (expired_jobs env f now inner))"
proof -
  let ?keys = "filter (\<lambda>jid. opt_ex (recovery_expired (env_grace env) now f) (reg_jobs_by_id inner jid))
    (env_jobs_order env (reg_jobs_by_id inner))"
  have keys: "set ?keys = expired_jobs env f now inner" "distinct ?keys"
    using iteratesD [OF assms] expired_jobs_dom [of env f now inner] by (auto simp: expired_jobs_def)
  show "set (swept env f now cap inner) \<subseteq> expired_jobs env f now inner"
    using keys(1) by (auto simp: swept_take dest: in_set_takeD)
  have "length ?keys = card (expired_jobs env f now inner)" using keys by (metis distinct_card)
  moreover have "card (set (take cap ?keys)) = min cap (length ?keys)"
    using distinct_card [OF distinct_take [OF keys(2), of cap]] by simp
  ultimately show "card (set (swept env f now cap inner)) = min cap (card (expired_jobs env f now inner))"
    by (simp add: swept_take)
qed

definition recovery_pass :: "ReconcileEnv \<Rightarrow> rstr option \<Rightarrow> int \<Rightarrow> RunnerRegistryInner \<Rightarrow> RunnerRegistryInner" where
  "recovery_pass env f now inner = fst (expire_recovering_jobs_locked env f now RECOVERY_SWEEP_PASS_CAP inner)"

lemma recovery_pass_card:
  assumes "iterates env" "finite (dom (reg_jobs_by_id inner))"
  shows "card (expired_jobs env f now (recovery_pass env f now inner))
    = card (expired_jobs env f now inner) - RECOVERY_SWEEP_PASS_CAP"
proof -
  let ?cap = RECOVERY_SWEEP_PASS_CAP
  have "finite (set (swept env f now ?cap inner))" by simp
  then have "card (expired_jobs env f now inner - set (swept env f now ?cap inner))
      = card (expired_jobs env f now inner) - card (set (swept env f now ?cap inner))"
    by (rule card_Diff_subset) (rule swept_card(1) [OF assms])
  then show ?thesis using swept_card(2) [OF assms, of f now ?cap]
    by (simp add: recovery_pass_def expired_after_pass [OF assms])
qed

abbreviation sweepable :: "ReconcileEnv \<Rightarrow> RunnerRegistryInner \<Rightarrow> bool" where
  "sweepable env inner \<equiv> iterates env \<and> finite (dom (reg_jobs_by_id inner))"

interpretation recovery_sweep: bounded_sweep "recovery_pass env f now" "expired_jobs env f now" "sweepable env" RECOVERY_SWEEP_PASS_CAP
  for env f now
proof (unfold_locales, goal_cases)
  case (1 inner)
  then show ?case by (simp add: recovery_pass_def finite_expire)
next
  case (2 inner)
  then show ?case using expired_jobs_dom [of env f now inner] finite_subset by auto
next
  case (3 inner)
  then show ?case by (simp add: recovery_pass_card)
qed

section \<open>The terminal sweep ends\<close>

definition action_key :: "TerminalSweepAction \<Rightarrow> rstr" where
  "action_key a = (case a of Observe jid \<Rightarrow> jid | Remove jid _ _ \<Rightarrow> jid)"

lemma terminal_sweep_action_key: "terminal_sweep_action now inner k = Some a \<Longrightarrow> action_key a = k"
  by (auto simp: terminal_sweep_action_def action_key_def split: option.splits if_splits)

definition terminal_pending :: "int \<Rightarrow> RunnerRegistryInner \<Rightarrow> rstr set" where
  "terminal_pending now inner = {k. terminal_sweep_action now inner k \<noteq> None}"

lemma terminal_pending_dom: "terminal_pending now inner \<subseteq> dom (reg_jobs_by_id inner)"
  by (auto simp: terminal_pending_def terminal_sweep_action_def split: option.splits)

definition sweep_actions :: "ReconcileEnv \<Rightarrow> int \<Rightarrow> RunnerRegistryInner \<Rightarrow> TerminalSweepAction list" where
  "sweep_actions env now inner = take RECOVERY_SWEEP_PASS_CAP
     (List.map_filter (terminal_sweep_action now inner) (env_jobs_order env (reg_jobs_by_id inner)))"

lemma keys_map_filter_action:
  "map action_key (List.map_filter (terminal_sweep_action now inner) xs) = filter (\<lambda>k. terminal_sweep_action now inner k \<noteq> None) xs"
  by (induction xs) (auto simp: map_filter_simps terminal_sweep_action_key split: option.splits)

lemma sweep_actions_keys:
  assumes "sweepable env inner"
  shows "set (map action_key (sweep_actions env now inner)) \<subseteq> terminal_pending now inner"
    "card (set (map action_key (sweep_actions env now inner))) = min RECOVERY_SWEEP_PASS_CAP (card (terminal_pending now inner))"
proof -
  let ?keys = "filter (\<lambda>k. terminal_sweep_action now inner k \<noteq> None) (env_jobs_order env (reg_jobs_by_id inner))"
  have k: "map action_key (sweep_actions env now inner) = take RECOVERY_SWEEP_PASS_CAP ?keys"
    by (simp add: sweep_actions_def keys_map_filter_action flip: take_map)
  have it: "distinct (env_jobs_order env (reg_jobs_by_id inner))" "set (env_jobs_order env (reg_jobs_by_id inner)) = dom (reg_jobs_by_id inner)"
    using assms iteratesD by blast+
  have pend: "terminal_pending now inner \<inter> dom (reg_jobs_by_id inner) = terminal_pending now inner"
    using terminal_pending_dom [of now inner] by (rule Int_absorb2)
  have "set ?keys = terminal_pending now inner \<inter> dom (reg_jobs_by_id inner)"
    unfolding set_filter it(2) terminal_pending_def by fast
  then have keys: "set ?keys = terminal_pending now inner" "distinct ?keys"
    using pend distinct_filter [OF it(1)] by (simp, blast)
  show "set (map action_key (sweep_actions env now inner)) \<subseteq> terminal_pending now inner"
    unfolding k using set_take_subset [of RECOVERY_SWEEP_PASS_CAP ?keys] unfolding keys(1) .
  have "length ?keys = card (terminal_pending now inner)"
    using distinct_card [OF keys(2)] unfolding keys(1) by (rule sym)
  then show "card (set (map action_key (sweep_actions env now inner))) = min RECOVERY_SWEEP_PASS_CAP (card (terminal_pending now inner))"
    unfolding k using distinct_card [OF distinct_take [OF keys(2), of RECOVERY_SWEEP_PASS_CAP]] by simp
qed

lemma sweep_action_sound: "a \<in> set (sweep_actions env now inner) \<Longrightarrow> terminal_sweep_action now inner (action_key a) = Some a"
proof -
  assume "a \<in> set (sweep_actions env now inner)"
  then obtain k where "terminal_sweep_action now inner k = Some a"
    by (auto simp: sweep_actions_def map_filter_def dest!: in_set_takeD)
  with terminal_sweep_action_key [OF this] show ?thesis by simp
qed

lemma observe_idem [simp]: "observe_job_terminal (observe_job_terminal j now) now = observe_job_terminal j now"
  by (simp add: observe_job_terminal_def)

lemma jobs_fold_observe:
  "reg_jobs_by_id (fold (\<lambda>a. case a of Observe jid \<Rightarrow> observe_job now jid | Remove _ _ _ \<Rightarrow> id) actions inner) k =
     (if Observe k \<in> set actions then map_option (\<lambda>j. observe_job_terminal j now) (reg_jobs_by_id inner k)
      else reg_jobs_by_id inner k)"
proof (induction actions arbitrary: inner)
  case (Cons a as)
  have "reg_jobs_by_id (observe_job now jid inner) k =
      (if k = jid then map_option (\<lambda>j. observe_job_terminal j now) (reg_jobs_by_id inner k) else reg_jobs_by_id inner k)" for jid
    by (auto simp: observe_job_def job_effects split: option.splits)
  with Cons show ?case by (cases a; cases "reg_jobs_by_id inner k") auto
qed simp

definition terminal_pass :: "ReconcileEnv \<Rightarrow> int \<Rightarrow> (rstr \<rightharpoonup> 'i) \<times> RunnerRegistryInner \<Rightarrow> (rstr \<rightharpoonup> 'i) \<times> RunnerRegistryInner" where
  "terminal_pass env now state = fst (prune_expired_terminal_jobs_locked env now state)"

lemma fst_sweep_removals: "fst ` set (sweep_removals actions) = {k. \<exists>c r. Remove k c r \<in> set actions}"
  by (induction actions) (auto simp: sweep_removals_def map_filter_simps split: TerminalSweepAction.splits)

lemma jobs_terminal_pass:
  "reg_jobs_by_id (snd (terminal_pass env now (intents, inner))) k =
     (let actions = sweep_actions env now inner in
      if \<exists>c r. Remove k c r \<in> set actions then None
      else if Observe k \<in> set actions then map_option (\<lambda>j. observe_job_terminal j now) (reg_jobs_by_id inner k)
      else reg_jobs_by_id inner k)"
proof -
  define actions where "actions = sweep_actions env now inner"
  define observed where "observed = fold (\<lambda>a. case a of Observe jid \<Rightarrow> observe_job now jid | Remove _ _ _ \<Rightarrow> id) actions inner"
  have rm: "k \<in> set (map fst (sweep_removals actions)) \<longleftrightarrow> (\<exists>c r. Remove k c r \<in> set actions)"
    using fst_sweep_removals [of actions] by auto
  consider "actions = []" | "actions \<noteq> []" "sweep_removals actions = []" | "actions \<noteq> []" "sweep_removals actions \<noteq> []" by blast
  then have "reg_jobs_by_id (snd (terminal_pass env now (intents, inner))) k =
      (if k \<in> set (map fst (sweep_removals actions)) then None else reg_jobs_by_id observed k)"
  proof cases
    case 1
    then show ?thesis
      by (simp add: terminal_pass_def prune_expired_terminal_jobs_locked_def observed_def sweep_removals_def map_filter_simps
          flip: sweep_actions_def actions_def)
  next
    case 2
    then show ?thesis
      by (simp add: terminal_pass_def prune_expired_terminal_jobs_locked_def observed_def Let_def flip: sweep_actions_def actions_def)
  next
    case 3
    then show ?thesis
      by (simp add: terminal_pass_def prune_expired_terminal_jobs_locked_def Let_def jobs_fold_remove job_effects
          flip: sweep_actions_def actions_def observed_def)
  qed
  then show ?thesis unfolding rm observed_def jobs_fold_observe by (simp add: actions_def Let_def)
qed

lemma observed_not_pending:
  "terminal_sweep_action now inner' k = None" if "reg_jobs_by_id inner' k = Some (observe_job_terminal j now)"
    "reg_jobs_by_id inner k = Some j" "terminal_sweep_action now inner k = Some (Observe k)"
  using that
  by (auto simp: terminal_sweep_action_def observe_job_terminal_def i64_sat_sub_def i64_sat_def i64_max_def i64_min_def
      JOB_TERMINAL_RETENTION_SECS_def split: option.splits if_splits)

lemma action_key_iff: "action_key a = k \<longleftrightarrow> a = Observe k \<or> (\<exists>c r. a = Remove k c r)"
  by (cases a) (auto simp: action_key_def)

lemma terminal_pending_pass:
  "terminal_pending now (snd (terminal_pass env now (intents, inner)))
     = terminal_pending now inner - set (map action_key (sweep_actions env now inner))"
proof (rule set_eqI)
  fix k
  let ?inner' = "snd (terminal_pass env now (intents, inner))"
  let ?acts = "sweep_actions env now inner"
  have key: "k \<in> set (map action_key ?acts) \<longleftrightarrow> Observe k \<in> set ?acts \<or> (\<exists>c r. Remove k c r \<in> set ?acts)"
    unfolding set_map image_iff using action_key_iff [of _ k] by metis
  consider "\<exists>c r. Remove k c r \<in> set ?acts" | "\<not> (\<exists>c r. Remove k c r \<in> set ?acts)" "Observe k \<in> set ?acts"
    | "k \<notin> set (map action_key ?acts)" using key by blast
  then show "k \<in> terminal_pending now ?inner' \<longleftrightarrow> k \<in> terminal_pending now inner - set (map action_key ?acts)"
  proof cases
    case 1
    then have "reg_jobs_by_id ?inner' k = None" by (simp add: jobs_terminal_pass)
    then have "k \<notin> terminal_pending now ?inner'" by (simp add: terminal_pending_def terminal_sweep_action_def)
    then show ?thesis using 1 key by blast
  next
    case 2
    from sweep_action_sound [OF 2(2)] have a: "terminal_sweep_action now inner k = Some (Observe k)" by (simp add: action_key_def)
    then obtain j where j: "reg_jobs_by_id inner k = Some j" by (auto simp: terminal_sweep_action_def split: option.splits)
    have "reg_jobs_by_id ?inner' k = Some (observe_job_terminal j now)" using 2 j by (simp add: jobs_terminal_pass)
    from observed_not_pending [OF this j a] have "k \<notin> terminal_pending now ?inner'" by (simp add: terminal_pending_def)
    then show ?thesis using 2 key by blast
  next
    case 3
    then have "reg_jobs_by_id ?inner' k = reg_jobs_by_id inner k" using key by (simp add: jobs_terminal_pass Let_def)
    then have "terminal_sweep_action now ?inner' k = terminal_sweep_action now inner k" by (simp add: terminal_sweep_action_def)
    then show ?thesis using 3 by (simp add: terminal_pending_def)
  qed
qed

lemma finite_terminal_pass:
  "finite (dom (reg_jobs_by_id (snd state))) \<Longrightarrow> finite (dom (reg_jobs_by_id (snd (terminal_pass env now state))))"
proof -
  assume fin: "finite (dom (reg_jobs_by_id (snd state)))"
  obtain intents inner where st: "state = (intents, inner)" by (cases state)
  have "dom (reg_jobs_by_id (snd (terminal_pass env now state))) \<subseteq> dom (reg_jobs_by_id (snd state))"
    by (auto simp: st jobs_terminal_pass Let_def dom_def split: if_splits)
  then show ?thesis using fin finite_subset by blast
qed

interpretation terminal_sweep: bounded_sweep "terminal_pass env now" "\<lambda>state. terminal_pending now (snd state)"
    "\<lambda>state. sweepable env (snd state)" RECOVERY_SWEEP_PASS_CAP for env now
proof (unfold_locales, goal_cases)
  case (1 state)
  then show ?case using finite_terminal_pass by blast
next
  case (2 state)
  then show ?case using terminal_pending_dom [of now "snd state"] finite_subset by auto
next
  case (3 state)
  obtain intents inner where st: "state = (intents, inner)" by (cases state)
  with 3 have ok: "sweepable env inner" by simp
  let ?keys = "set (map action_key (sweep_actions env now inner))"
  have "card (terminal_pending now inner - ?keys) = card (terminal_pending now inner) - card ?keys"
    by (rule card_Diff_subset) (simp, rule sweep_actions_keys(1) [OF ok])
  then show ?case using sweep_actions_keys(2) [OF ok, of now] by (simp add: st terminal_pending_pass)
qed


section \<open>Accepted inventories\<close>

text \<open>What validation establishes of every snapshot, as far as the reconciliation relies on it.\<close>

definition snapshot_ok :: "ShellJobSnapshot \<Rightarrow> bool" where
  "snapshot_ok s \<longleftrightarrow> (\<exists>l. from_wire (snap_status s) = Inr l \<and> (is_runner_active l \<or> is_terminal l))"

lemma validate_snapshot_ok: "validate_snapshot c ps b s = Inr a \<Longrightarrow> snapshot_ok s"
  by (auto simp: validate_snapshot_def snapshot_ok_def validate_lifecycle_fields_def Let_def parse_job_lifecycle_def
      split: sum.splits)

lemma validate_jobs_ok:
  "validate_jobs c ps b counts snaps = Inr counts' \<Longrightarrow>
     list_all snapshot_ok snaps \<and> distinct (map snap_job_id snaps) \<and> set (map snap_job_id snaps) \<inter> cnt_ids counts = {}"
proof (induction c ps b counts snaps rule: validate_jobs.induct)
  case (2 c ps b counts s snaps)
  from "2.prems" obtain a where a: "snap_job_id s \<notin> cnt_ids counts" "snap_request_id s \<notin> cnt_request_ids counts"
    "validate_snapshot c ps b s = Inr a"
    by (auto split: if_splits sum.splits)
  let ?seen = "counts\<lparr>cnt_ids := insert (snap_job_id s) (cnt_ids counts),
                      cnt_request_ids := insert (snap_request_id s) (cnt_request_ids counts)\<rparr>"
  have "list_all snapshot_ok snaps \<and> distinct (map snap_job_id snaps)
      \<and> set (map snap_job_id snaps) \<inter> insert (snap_job_id s) (cnt_ids counts) = {}"
  proof (cases a)
    case True
    with "2.prems" a have "\<not> cnt_saw_terminal counts" by (auto simp: Let_def split: if_splits)
    with True "2.prems" a "2.IH"(1) [OF a(1,2) a(3) refl True] show ?thesis by (simp add: Let_def)
  next
    case False
    with "2.prems" a "2.IH"(2) [OF a(1,2) a(3) refl False] show ?thesis by (simp add: Let_def)
  qed
  with a validate_snapshot_ok [OF a(3)] show ?case by auto
qed simp

lemma validate_inventory_ok:
  assumes "validate_job_inventory_inner env c ps b inventory = Inr ()"
  shows "list_all snapshot_ok (jinv_jobs inventory)" "distinct (map snap_job_id (jinv_jobs inventory))"
proof -
  from assms obtain counts where "validate_jobs c ps b no_counts (jinv_jobs inventory) = Inr counts"
    by (auto simp: validate_job_inventory_inner_def split: sum.splits)
  from validate_jobs_ok [OF this]
  show "list_all snapshot_ok (jinv_jobs inventory)" "distinct (map snap_job_id (jinv_jobs inventory))" by auto
qed

lemma apply_snapshot_defined: "snapshot_ok s \<Longrightarrow> apply_snapshot job s now r cands \<noteq> None"
  by (auto simp: apply_snapshot_def snapshot_ok_def Let_def)

lemma reconstruct_defined: "snapshot_ok s \<Longrightarrow> reconstruct_job c i g now s inner \<noteq> None"
  by (auto simp: reconstruct_job_def record_from_snapshot_def snapshot_ok_def Let_def)

lemma reconcile_snapshot_defined: "snapshot_ok s \<Longrightarrow> reconcile_snapshot c i g now s state \<noteq> None"
  using apply_snapshot_defined reconstruct_defined
  by (auto simp: reconcile_snapshot_def reconcile_existing_def Let_def split: prod.splits option.splits)

lemma reconcile_each_defined: "list_all snapshot_ok snaps \<Longrightarrow> reconcile_each c i g now snaps state \<noteq> None"
  using reconcile_snapshot_defined by (induction snaps arbitrary: state) (auto split: option.splits)

section \<open>One Job through a reconciliation\<close>

text \<open>The record that a snapshot leaves of a Job that the registry has.\<close>

definition transfer :: "rstr \<Rightarrow> ShellJobRecord \<Rightarrow> ShellJobSnapshot \<Rightarrow> bool" where
  "transfer instance_id job s \<longleftrightarrow> job_runner_instance_id job \<noteq> instance_id \<and> detached_instance_transfer_allowed job s"

definition applies :: "rstr \<Rightarrow> ShellJobRecord \<Rightarrow> ShellJobSnapshot \<Rightarrow> bool" where
  "applies instance_id job s \<longleftrightarrow> \<not> is_terminal (job_lifecycle job) \<and> job_last_update_seq job \<le> snap_update_seq s
     \<and> \<not> (snap_update_seq s = job_last_update_seq job \<and> \<not> recovery_active job \<and> \<not> transfer instance_id job s)"

definition applied :: "rstr \<Rightarrow> int \<Rightarrow> ShellJobSnapshot \<Rightarrow> ShellJobRecord \<Rightarrow> ShellJobRecord" where
  "applied instance_id now s job =
     (if applies instance_id job s
      then fst (the (apply_snapshot (if transfer instance_id job s then job\<lparr>job_runner_instance_id := instance_id\<rparr> else job)
             s now (if transfer instance_id job s then DetachedInstanceTransfer else SameInstanceReconciliation) {}))
      else job)"

lemma apply_snapshot_fst: "map_option fst (apply_snapshot job s now r cands) = map_option fst (apply_snapshot job s now r {})"
  by (simp add: apply_snapshot_def notify_job_update_def Let_def split: sum.splits)

lemma reconcile_existing_eq:
  "reconcile_existing c i now s job (inner, summary) =
     (if applies i job s
      then map_option (\<lambda>jc. (finish_snapshot c s (put_job inner (snap_job_id s) jc), summary\<lparr>sum_updated := sum_updated summary + 1\<rparr>))
        (apply_snapshot (if transfer i job s then job\<lparr>job_runner_instance_id := i\<rparr> else job) s now
          (if transfer i job s then DetachedInstanceTransfer else SameInstanceReconciliation) (reg_receipt_candidates inner))
      else Some (inner, summary))"
  unfolding reconcile_existing_def transfer_def [symmetric] Let_def applies_def by simp

lemma reconcile_existing_job:
  assumes "reconcile_existing c i now s job (inner, summary) = Some (inner', summary')"
    "reg_jobs_by_id inner (snap_job_id s) = Some job"
  shows "reg_jobs_by_id inner' = (reg_jobs_by_id inner)(snap_job_id s \<mapsto> applied i now s job)"
proof (cases "applies i job s")
  case True
  define job1 where "job1 = (if transfer i job s then job\<lparr>job_runner_instance_id := i\<rparr> else job)"
  define reason where "reason = (if transfer i job s then DetachedInstanceTransfer else SameInstanceReconciliation)"
  from True assms(1) obtain jc where jc: "apply_snapshot job1 s now reason (reg_receipt_candidates inner) = Some jc"
    "inner' = finish_snapshot c s (put_job inner (snap_job_id s) jc)"
    unfolding reconcile_existing_eq job1_def [symmetric] reason_def [symmetric] by auto
  have "Some (fst jc) = map_option fst (apply_snapshot job1 s now reason {})"
    using apply_snapshot_fst [of job1 s now reason "reg_receipt_candidates inner"] jc(1) by simp
  then have "fst jc = applied i now s job"
    using True unfolding applied_def job1_def [symmetric] reason_def [symmetric]
    by (cases "apply_snapshot job1 s now reason {}") simp_all
  then show ?thesis using jc(2) by (simp add: job_effects)
next
  case False
  with assms show ?thesis by (auto simp: reconcile_existing_eq applied_def)
qed

lemma reconcile_snapshot_job:
  assumes "reconcile_snapshot c i g now s (inner, summary) = Some (inner', summary')"
  shows "k \<noteq> snap_job_id s \<Longrightarrow> reg_jobs_by_id inner' k = reg_jobs_by_id inner k"
    "reg_jobs_by_id inner (snap_job_id s) = Some job \<Longrightarrow> reg_jobs_by_id inner' (snap_job_id s) = Some (applied i now s job)"
proof -
  show "reg_jobs_by_id inner' (snap_job_id s) = Some (applied i now s job)"
    if "reg_jobs_by_id inner (snap_job_id s) = Some job" for job
    using assms that reconcile_existing_job [of c i now s job inner summary inner' summary']
    by (simp add: reconcile_snapshot_def)
  show "reg_jobs_by_id inner' k = reg_jobs_by_id inner k" if k: "k \<noteq> snap_job_id s" for k
  proof (cases "reg_jobs_by_id inner (snap_job_id s)")
    case None
    with assms k show ?thesis
      by (auto simp: reconcile_snapshot_def job_effects split: if_splits)
  next
    case (Some job)
    with assms k reconcile_existing_job [of c i now s job inner summary inner' summary'] show ?thesis
      by (simp add: reconcile_snapshot_def)
  qed
qed

lemma reconcile_each_Cons:
  assumes "reconcile_each c i g now (s # snaps) (inner, summary) = Some (inner', summary')"
  obtains inner1 summary1 where "reconcile_snapshot c i g now s (inner, summary) = Some (inner1, summary1)"
    "reconcile_each c i g now snaps (inner1, summary1) = Some (inner', summary')"
  using assms by (auto split: option.splits)

lemma reconcile_each_other:
  "reconcile_each c i g now snaps (inner, summary) = Some (inner', summary') \<Longrightarrow> k \<notin> set (map snap_job_id snaps) \<Longrightarrow>
     reg_jobs_by_id inner' k = reg_jobs_by_id inner k"
proof (induction snaps arbitrary: inner summary)
  case (Cons t snaps)
  from Cons.prems(1) obtain inner1 summary1 where "reconcile_snapshot c i g now t (inner, summary) = Some (inner1, summary1)"
    "reconcile_each c i g now snaps (inner1, summary1) = Some (inner', summary')" by (rule reconcile_each_Cons)
  with Cons.IH [of inner1 summary1] Cons.prems(2) reconcile_snapshot_job(1) [of c i g now t inner summary inner1 summary1 k]
  show ?case by simp
qed simp

lemma reconcile_each_job:
  "reconcile_each c i g now snaps (inner, summary) = Some (inner', summary') \<Longrightarrow> distinct (map snap_job_id snaps) \<Longrightarrow>
     s \<in> set snaps \<Longrightarrow> reg_jobs_by_id inner (snap_job_id s) = Some job \<Longrightarrow>
     reg_jobs_by_id inner' (snap_job_id s) = Some (applied i now s job)"
proof (induction snaps arbitrary: inner summary)
  case (Cons t snaps)
  from Cons.prems(1) obtain inner1 summary1 where st: "reconcile_snapshot c i g now t (inner, summary) = Some (inner1, summary1)"
    "reconcile_each c i g now snaps (inner1, summary1) = Some (inner', summary')" by (rule reconcile_each_Cons)
  show ?case
  proof (cases "s = t")
    case True
    then have "snap_job_id s \<notin> set (map snap_job_id snaps)" using Cons.prems(2) by simp
    from reconcile_each_other [OF st(2) this] reconcile_snapshot_job(2) [OF st(1), of job] Cons.prems(4) True
    show ?thesis by simp
  next
    case False
    then have s: "s \<in> set snaps" using Cons.prems(3) by simp
    then have "snap_job_id s \<noteq> snap_job_id t" using Cons.prems(2) by (metis distinct.simps(2) image_eqI list.map(2) set_map)
    note s = s this
    have "reg_jobs_by_id inner1 (snap_job_id s) = Some job"
      using reconcile_snapshot_job(1) [OF st(1) s(2)] Cons.prems(4) by simp
    with Cons.IH [OF st(2) _ s(1)] Cons.prems(2) show ?thesis by simp
  qed
qed simp

section \<open>Settling\<close>

text \<open>Before the snapshots are looked at, a Job is left alone, ended as lost, or dropped because its
  cleanup was pending.\<close>

definition settled :: "int \<Rightarrow> ShellJobRecord \<Rightarrow> ShellJobRecord \<Rightarrow> bool" where
  "settled now j j' \<longleftrightarrow> j' = j \<or> (\<not> is_terminal (job_lifecycle j) \<and> (\<exists>r m. j' = lost_record now r m j))"

definition jobs_settle :: "int \<Rightarrow> RunnerRegistryInner \<Rightarrow> RunnerRegistryInner \<Rightarrow> bool" where
  "jobs_settle now inner inner' \<longleftrightarrow> (\<forall>k.
     (reg_jobs_by_id inner k = None \<longrightarrow> reg_jobs_by_id inner' k = None)
     \<and> (\<forall>j. reg_jobs_by_id inner k = Some j \<longrightarrow>
          opt_all (settled now j) (reg_jobs_by_id inner' k)
          \<and> (reg_jobs_by_id inner' k = None \<longrightarrow> job_visibility j = CleanupPending)))"

lemma settled_refl [simp]: "settled now j j"
  by (simp add: settled_def)

lemma settled_lost [simp]: "settled now j (lost_record now r m j)"
  by (cases "is_terminal (job_lifecycle j)") (auto simp: settled_def lost_record_terminal)

lemma settled_trans: "settled now a b \<Longrightarrow> settled now b c \<Longrightarrow> settled now a c"
  by (auto simp: settled_def)

lemma settled_visibility: "settled now a b \<Longrightarrow> job_visibility b = job_visibility a"
  by (auto simp: settled_def)

lemma jobs_settle_None: "jobs_settle now a b \<Longrightarrow> reg_jobs_by_id a k = None \<Longrightarrow> reg_jobs_by_id b k = None"
  by (simp add: jobs_settle_def)

lemma jobs_settle_Some:
  assumes "jobs_settle now a b" "reg_jobs_by_id a k = Some j"
  shows "reg_jobs_by_id b k = None \<and> job_visibility j = CleanupPending \<or> (\<exists>j'. reg_jobs_by_id b k = Some j' \<and> settled now j j')"
proof (cases "reg_jobs_by_id b k")
  case None
  with assms show ?thesis by (simp add: jobs_settle_def)
next
  case (Some j')
  with assms(1) have "opt_all (settled now j) (Some j')" unfolding jobs_settle_def using assms(2) by metis
  with Some show ?thesis by simp
qed

lemma jobs_settle_back:
  assumes "jobs_settle now a b" "reg_jobs_by_id b k = Some j'"
  obtains j where "reg_jobs_by_id a k = Some j" "settled now j j'"
proof (cases "reg_jobs_by_id a k")
  case None
  with jobs_settle_None [OF assms(1) None] assms(2) that show ?thesis by simp
next
  case (Some j)
  with jobs_settle_Some [OF assms(1) Some] assms(2) that show ?thesis by auto
qed

lemma jobs_settleI:
  assumes "\<And>k. reg_jobs_by_id a k = None \<Longrightarrow> reg_jobs_by_id b k = None"
    "\<And>k j. reg_jobs_by_id a k = Some j \<Longrightarrow> reg_jobs_by_id b k = None \<and> job_visibility j = CleanupPending
       \<or> (\<exists>j'. reg_jobs_by_id b k = Some j' \<and> settled now j j')"
  shows "jobs_settle now a b"
  using assms unfolding jobs_settle_def by (metis opt_all_simps option.distinct(1))

lemma jobs_settle_same: "reg_jobs_by_id b = reg_jobs_by_id a \<Longrightarrow> jobs_settle now a b"
  by (rule jobs_settleI) auto

lemma jobs_settle_trans:
  assumes "jobs_settle now a b" "jobs_settle now b c"
  shows "jobs_settle now a c"
proof (rule jobs_settleI)
  show "reg_jobs_by_id c k = None" if "reg_jobs_by_id a k = None" for k
    using jobs_settle_None [OF assms(2)] jobs_settle_None [OF assms(1) that] by simp
  show "reg_jobs_by_id c k = None \<and> job_visibility j = CleanupPending \<or> (\<exists>j'. reg_jobs_by_id c k = Some j' \<and> settled now j j')"
    if "reg_jobs_by_id a k = Some j" for k j
    using jobs_settle_Some [OF assms(1) that]
  proof
    assume "reg_jobs_by_id b k = None \<and> job_visibility j = CleanupPending"
    then show ?thesis using jobs_settle_None [OF assms(2)] by simp
  next
    assume "\<exists>j'. reg_jobs_by_id b k = Some j' \<and> settled now j j'"
    then obtain j' where j': "reg_jobs_by_id b k = Some j'" "settled now j j'" by blast
    from jobs_settle_Some [OF assms(2) j'(1)] settled_trans [OF j'(2)] settled_visibility [OF j'(2)]
    show ?thesis by auto
  qed
qed

lemma jobs_settle_finite: "jobs_settle now a b \<Longrightarrow> finite (dom (reg_jobs_by_id a)) \<Longrightarrow> finite (dom (reg_jobs_by_id b))"
proof -
  assume s: "jobs_settle now a b" and fin: "finite (dom (reg_jobs_by_id a))"
  have "dom (reg_jobs_by_id b) \<subseteq> dom (reg_jobs_by_id a)"
    using jobs_settle_None [OF s] by (auto simp: dom_def) (metis option.exhaust option.distinct(1))
  then show ?thesis using fin finite_subset by blast
qed

lemma jobs_settle_cleanup:
  assumes "iterates env" "finite (dom (reg_jobs_by_id inner))"
  shows "jobs_settle now inner (remove_cleanup_terminal_jobs_locked env inner)"
  by (rule jobs_settleI) (auto simp: jobs_cleanup [OF assms] cleanup_removable_def)

lemma jobs_settle_end_where:
  assumes "iterates env" "finite (dom (reg_jobs_by_id inner))"
  shows "jobs_settle now inner (end_jobs env c now r m (keys_where env inner P) inner)"
  by (rule jobs_settleI) (auto simp: jobs_end_where [OF assms])

lemma jobs_settle_expire:
  assumes "iterates env" "finite (dom (reg_jobs_by_id inner))"
  shows "jobs_settle now inner (fst (expire_recovering_jobs_locked env f now cap inner))"
proof (cases "swept env f now cap inner = []")
  case False
  show ?thesis
    by (rule jobs_settleI)
      (auto simp: jobs_expire [OF assms False] after_pass_def Let_def cleanup_removable_def expiry_record_def)
qed (simp add: expire_empty jobs_settle_same)

lemma jobs_settle_terminate:
  assumes "iterates env" "finite (dom (reg_jobs_by_id inner))"
  shows "jobs_settle now inner (terminate_instance_jobs_locked env c i replacement now inner)"
proof -
  note e = jobs_settle_end_where [OF assms, of now c RunnerInstanceReplaced
      "lit ''runner instance was replaced before the job completed or reconciled''" "terminated_job c i replacement"]
  from jobs_settle_trans [OF e jobs_settle_cleanup [OF assms(1) jobs_settle_finite [OF e assms(2)]]]
  show ?thesis by (simp add: terminate_instance_jobs_locked_def)
qed

text \<open>The registry as the snapshots find it.\<close>

definition before_snapshots :: "ReconcileEnv \<Rightarrow> rstr \<Rightarrow> rstr \<Rightarrow> ShellJobInventory \<Rightarrow> int \<Rightarrow> RunnerRegistryInner \<Rightarrow> RunnerRegistryInner" where
  "before_snapshots env c i inventory now inner0 =
     (let inner2 = fst (expire_recovering_jobs_locked env (Some c) now RECOVERY_SWEEP_PASS_CAP
            (prune_projected_structured_terminal_suppressions_locked now inner0))
      in end_jobs env c now RunnerInventoryMissing (lit ''runner complete active inventory did not contain this job'')
           (keys_where env inner2 (missing_job c i (set (map snap_job_id (jinv_jobs inventory))))) inner2)"

lemma reconcile_inventory_phases:
  assumes "reconcile_inventory_locked env c i g inventory now inner = Some (inner', summary')"
  obtains summary inner4 where
    "reconcile_each c i g now (jinv_jobs inventory) (before_snapshots env c i inventory now inner, summary) = Some (inner4, summary')"
    "inner' = remove_cleanup_terminal_jobs_locked env inner4"
  using assms unfolding reconcile_inventory_locked_def before_snapshots_def Let_def by (auto simp: map_option_case split: option.splits)

lemma before_snapshots_settle:
  assumes "iterates env" "finite (dom (reg_jobs_by_id inner))"
  shows "jobs_settle now inner (before_snapshots env c i inventory now inner)"
    "\<And>k j. reg_jobs_by_id (before_snapshots env c i inventory now inner) k = Some j \<Longrightarrow>
       \<not> missing_job c i (set (map snap_job_id (jinv_jobs inventory))) k j"
proof -
  define inner1 where "inner1 = prune_projected_structured_terminal_suppressions_locked now inner"
  define inner2 where "inner2 = fst (expire_recovering_jobs_locked env (Some c) now RECOVERY_SWEEP_PASS_CAP inner1)"
  define P where "P = missing_job c i (set (map snap_job_id (jinv_jobs inventory)))"
  have s1: "jobs_settle now inner inner1" by (rule jobs_settle_same) (simp add: inner1_def job_effects)
  have fin1: "finite (dom (reg_jobs_by_id inner1))" using assms(2) by (simp add: inner1_def job_effects)
  have s2: "jobs_settle now inner1 inner2" unfolding inner2_def by (rule jobs_settle_expire [OF assms(1) fin1])
  have fin2: "finite (dom (reg_jobs_by_id inner2))" by (rule jobs_settle_finite [OF s2 fin1])
  have b: "before_snapshots env c i inventory now inner = end_jobs env c now RunnerInventoryMissing
      (lit ''runner complete active inventory did not contain this job'') (keys_where env inner2 P) inner2"
    by (simp add: before_snapshots_def inner2_def inner1_def P_def Let_def)
  show "jobs_settle now inner (before_snapshots env c i inventory now inner)"
    unfolding b by (rule jobs_settle_trans [OF jobs_settle_trans [OF s1 s2] jobs_settle_end_where [OF assms(1) fin2]])
  fix k j assume "reg_jobs_by_id (before_snapshots env c i inventory now inner) k = Some j"
  then obtain j2 where j: "j = (if P k j2 then lost_record now RunnerInventoryMissing
      (lit ''runner complete active inventory did not contain this job'') j2 else j2)"
    unfolding b jobs_end_where [OF assms(1) fin2] by auto
  show "\<not> missing_job c i (set (map snap_job_id (jinv_jobs inventory))) k j"
  proof (cases "P k j2")
    case True
    with j have "is_terminal (job_lifecycle j)" by simp
    then show ?thesis using runner_active_not_terminal by (auto simp: missing_job_def)
  qed (use j in \<open>simp add: P_def\<close>)
qed

lemma reconcile_each_finite:
  assumes "reconcile_each c i g now snaps (inner, summary) = Some (inner', summary')" "finite (dom (reg_jobs_by_id inner))"
  shows "finite (dom (reg_jobs_by_id inner'))"
proof -
  have "dom (reg_jobs_by_id inner') \<subseteq> dom (reg_jobs_by_id inner) \<union> set (map snap_job_id snaps)"
  proof
    fix k assume k: "k \<in> dom (reg_jobs_by_id inner')"
    show "k \<in> dom (reg_jobs_by_id inner) \<union> set (map snap_job_id snaps)"
    proof (cases "k \<in> set (map snap_job_id snaps)")
      case False
      from reconcile_each_other [OF assms(1) this] k show ?thesis by (simp add: dom_def)
    qed simp
  qed
  then show ?thesis by (rule finite_subset) (use assms(2) in simp)
qed

text \<open>The record that a snapshot leaves, with the facts that identify a Job.\<close>

definition job_identity where
  "job_identity j = ((job_id j, job_request_id j, job_client_id j, job_auth_group j, job_owner_at_admission j, job_kind j),
     (job_project_id j, job_session_id j, job_ssh_resource j, job_cwd j, job_project_cwd j, job_purpose j, job_shell j),
     (job_command_preview j, job_created_at j, job_validation_steps j, job_visibility j))"

lemma applied_exact:
  assumes "snapshot_ok s" "applies i j s"
  shows "job_identity (applied i now s j) = job_identity j"
    "job_last_update_seq (applied i now s j) = snap_update_seq s"
    "log_next_line (job_stdout (applied i now s j)) = log_next_line (snap_stdout s)"
    "log_next_line (job_stderr (applied i now s j)) = log_next_line (snap_stderr s)"
    "job_validation_progress (applied i now s j) = snap_validation_progress s"
    "from_wire (snap_status s) = Inr (job_lifecycle (applied i now s j))"
proof -
  define j1 where "j1 = (if transfer i j s then j\<lparr>job_runner_instance_id := i\<rparr> else j)"
  define reason where "reason = (if transfer i j s then DetachedInstanceTransfer else SameInstanceReconciliation)"
  obtain l where l: "from_wire (snap_status s) = Inr l" using assms(1) by (auto simp: snapshot_ok_def)
  have a: "applied i now s j = fst (the (apply_snapshot j1 s now reason {}))"
    using assms(2) by (simp add: applied_def j1_def reason_def)
  have j1: "job_identity j1 = job_identity j" by (simp add: j1_def job_identity_def)
  show "job_identity (applied i now s j) = job_identity j"
    unfolding a j1 [symmetric]
    by (simp add: apply_snapshot_def l notify_job_update_def observe_job_terminal_def Let_def job_identity_def)
  show "job_last_update_seq (applied i now s j) = snap_update_seq s"
    "log_next_line (job_stdout (applied i now s j)) = log_next_line (snap_stdout s)"
    "log_next_line (job_stderr (applied i now s j)) = log_next_line (snap_stderr s)"
    "job_validation_progress (applied i now s j) = snap_validation_progress s"
    "from_wire (snap_status s) = Inr (job_lifecycle (applied i now s j))"
    unfolding a
    by (simp_all add: apply_snapshot_def l notify_job_update_def observe_job_terminal_def Let_def replace_log_from_snapshot_def)
qed

lemma applied_not [simp]: "\<not> applies i j s \<Longrightarrow> applied i now s j = j"
  by (simp add: applied_def)

lemma lost_record_identity [simp]: "job_identity (lost_record now r m j) = job_identity j"
  by (simp add: lost_record_def mark_job_lost_def notify_job_update_def observe_job_terminal_def Let_def job_identity_def)

lemma lost_record_observed [simp]:
  "job_last_update_seq (lost_record now r m j) = job_last_update_seq j"
  "job_stdout (lost_record now r m j) = job_stdout j" "job_stderr (lost_record now r m j) = job_stderr j"
  "job_validation_progress (lost_record now r m j) = job_validation_progress j"
  by (simp_all add: lost_record_def mark_job_lost_def notify_job_update_def observe_job_terminal_def Let_def)

lemma identity_visibility: "job_identity j = job_identity j' \<Longrightarrow> job_visibility j = job_visibility j'"
  by (simp add: job_identity_def)

text \<open>A Job through the whole reconciliation: settled first, and then at most one snapshot is applied to it.\<close>

lemma reconciled_job:
  assumes "iterates env" "finite (dom (reg_jobs_by_id inner))"
    "list_all snapshot_ok (jinv_jobs inventory)" "distinct (map snap_job_id (jinv_jobs inventory))"
    "reconcile_inventory_locked env c i g inventory now inner = Some (inner', summary)"
    "reg_jobs_by_id inner k = Some j" "job_visibility j \<noteq> CleanupPending"
  shows "\<exists>j'. reg_jobs_by_id inner' k = Some j' \<and> (settled now j j'
    \<or> (\<exists>s \<in> set (jinv_jobs inventory). snap_job_id s = k \<and> applies i j s \<and> j' = applied i now s j))"
proof -
  let ?b = "before_snapshots env c i inventory now inner"
  from assms(5) obtain summary0 inner4 where r: "reconcile_each c i g now (jinv_jobs inventory) (?b, summary0) = Some (inner4, summary)"
    and inner': "inner' = remove_cleanup_terminal_jobs_locked env inner4" by (rule reconcile_inventory_phases)
  have set_b: "jobs_settle now inner ?b" by (rule before_snapshots_settle(1) [OF assms(1,2)])
  have fin: "finite (dom (reg_jobs_by_id inner4))"
    by (rule reconcile_each_finite [OF r jobs_settle_finite [OF set_b assms(2)]])
  from jobs_settle_Some [OF set_b assms(6)] assms(7) obtain j1 where j1: "reg_jobs_by_id ?b k = Some j1" "settled now j j1" by auto
  have vis: "job_visibility j1 \<noteq> CleanupPending" using settled_visibility [OF j1(2)] assms(7) by simp
  show ?thesis
  proof (cases "k \<in> set (map snap_job_id (jinv_jobs inventory))")
    case False
    then have "reg_jobs_by_id inner4 k = Some j1" using reconcile_each_other [OF r False] j1(1) by simp
    then have "reg_jobs_by_id inner' k = Some j1"
      using vis by (simp add: inner' jobs_cleanup [OF assms(1) fin] cleanup_removable_def)
    with j1(2) show ?thesis by blast
  next
    case True
    then obtain s where s: "s \<in> set (jinv_jobs inventory)" "snap_job_id s = k" by auto
    have ok: "snapshot_ok s" using assms(3) s(1) by (simp add: list_all_iff)
    have "reg_jobs_by_id inner4 k = Some (applied i now s j1)"
      using reconcile_each_job [OF r assms(4) s(1)] s(2) j1(1) by simp
    moreover have "job_visibility (applied i now s j1) \<noteq> CleanupPending"
      using vis identity_visibility [OF applied_exact(1) [OF ok], of i j1 now] by (cases "applies i j1 s") auto
    ultimately have j': "reg_jobs_by_id inner' k = Some (applied i now s j1)"
      by (simp add: inner' jobs_cleanup [OF assms(1) fin] cleanup_removable_def)
    show ?thesis
    proof (cases "applies i j1 s")
      case True
      then have "j1 = j" using j1(2) by (auto simp: settled_def applies_def)
      with True j' s show ?thesis by blast
    qed (use j' j1(2) in auto)
  qed
qed

section \<open>Results\<close>

lemma preflight_eachD: "preflight_each inner c i snaps = Inr () \<Longrightarrow> s \<in> set snaps \<Longrightarrow> preflight_snapshot inner c i s = Inr ()"
  by (induction snaps) auto

text \<open>The state that a snapshot may find: its Job may be handed over to a new instance with the sequence number
  that the registry already has. The preflight checks progress and cursors only when it expects the
  snapshot to be applied, and does not expect it in this case.\<close>

definition unchecked_transfer :: "rstr \<Rightarrow> ShellJobInventory \<Rightarrow> rstr \<Rightarrow> ShellJobRecord \<Rightarrow> bool" where
  "unchecked_transfer instance_id inventory k j \<longleftrightarrow>
     list_ex (\<lambda>s. snap_job_id s = k \<and> transfer instance_id j s \<and> snap_update_seq s = job_last_update_seq j \<and> \<not> recovery_active j)
       (jinv_jobs inventory)"

definition job_advances :: "ShellJobRecord \<Rightarrow> ShellJobRecord \<Rightarrow> bool" where
  "job_advances j j' \<longleftrightarrow> log_next_line (job_stdout j) \<le> log_next_line (job_stdout j')
     \<and> log_next_line (job_stderr j) \<le> log_next_line (job_stderr j')
     \<and> progress_count (job_validation_progress j) \<le> progress_count (job_validation_progress j')"

lemma settled_keeps:
  "settled now j j' \<Longrightarrow> job_identity j' = job_identity j \<and> (is_terminal (job_lifecycle j) \<longrightarrow> j' = j)
     \<and> job_last_update_seq j \<le> job_last_update_seq j' \<and> job_advances j j'"
  by (auto simp: settled_def job_advances_def)

lemma applied_advances:
  assumes "preflight_snapshot inner c i s = Inr ()" "reg_jobs_by_id inner (snap_job_id s) = Some j"
    "snapshot_ok s" "applies i j s" "\<not> (transfer i j s \<and> snap_update_seq s = job_last_update_seq j \<and> \<not> recovery_active j)"
  shows "job_advances j (applied i now s j)"
proof -
  have seq: "job_last_update_seq j < snap_update_seq s \<or> (snap_update_seq s = job_last_update_seq j \<and> recovery_active j)"
    and nt: "\<not> is_terminal (job_lifecycle j)"
    using assms(4,5) by (auto simp: applies_def)
  from assms(1,2) have "preflight_existing c i j s = Inr ()" by (auto simp: preflight_snapshot_def split: if_splits)
  with seq nt have "\<not> progress_count (snap_validation_progress s) < progress_count (job_validation_progress j)
      \<and> \<not> (log_next_line (snap_stdout s) < log_next_line (job_stdout j) \<or> log_next_line (snap_stderr s) < log_next_line (job_stderr j))"
    unfolding preflight_existing_def Let_def by (simp split: if_splits)
  then show ?thesis using applied_exact [OF assms(3,4)] by (simp add: job_advances_def)
qed

text \<open>The registry a registration hands to the reconciliation: as the preflight saw it, or with the Jobs of
  a replaced instance ended, and with a new Runner record.\<close>

definition prepared :: "ReconcileEnv \<Rightarrow> rstr \<Rightarrow> ShellJobInventory \<Rightarrow> int \<Rightarrow> RunnerRegistryInner \<Rightarrow> RunnerRegistryInner \<Rightarrow> bool" where
  "prepared env c inventory now inner inner1 \<longleftrightarrow>
     (\<exists>base runners. inner1 = base\<lparr>reg_runners := runners\<rparr>
        \<and> (base = inner \<or> (\<exists>old. base = terminate_instance_jobs_locked env c old (Some inventory) now inner)))"

lemma prepared_settle:
  assumes "prepared env c inventory now inner inner1" "iterates env" "finite (dom (reg_jobs_by_id inner))"
  shows "jobs_settle now inner inner1"
proof -
  from assms(1) obtain base runners where b: "inner1 = base\<lparr>reg_runners := runners\<rparr>"
    "base = inner \<or> (\<exists>old. base = terminate_instance_jobs_locked env c old (Some inventory) now inner)"
    by (auto simp: prepared_def)
  have "jobs_settle now inner base" using b(2) jobs_settle_terminate [OF assms(2,3)] jobs_settle_same [of inner inner] by auto
  moreover have "jobs_settle now base inner1" by (rule jobs_settle_same) (simp add: b(1))
  ultimately show ?thesis by (rule jobs_settle_trans)
qed

text \<open>C5: Reconciliation never goes back. When an inventory has been validated and passed the preflight,
  every Job that is not pending cleanup is still there afterwards and is the same Job; if it had
  ended, its record is untouched; its sequence number never gets smaller, and the log cursors
  and the validation progress never do unless a detached process is handed over to a new
  instance with an unchanged sequence number, which the preflight does not check.\<close>

theorem reconciliation_never_regresses:
  assumes "iterates env" "finite (dom (reg_jobs_by_id inner))"
    "validate_job_inventory_without_project_membership env c inventory = Inr ()"
    "preflight_inventory_locked inner c i inventory = Inr ()"
    "prepared env c inventory now inner inner1"
    "reconcile_inventory_locked env c i g inventory now inner1 = Some (inner', summary)"
    "reg_jobs_by_id inner k = Some j" "job_visibility j \<noteq> CleanupPending"
  shows "\<exists>j'. reg_jobs_by_id inner' k = Some j' \<and> job_identity j' = job_identity j
    \<and> (is_terminal (job_lifecycle j) \<longrightarrow> j' = j)
    \<and> job_last_update_seq j \<le> job_last_update_seq j'
    \<and> (unchecked_transfer i inventory k j \<or> job_advances j j')"
proof -
  note inv = validate_inventory_ok [OF assms(3) [unfolded validate_job_inventory_without_project_membership_def]]
  have s1: "jobs_settle now inner inner1" by (rule prepared_settle [OF assms(5,1,2)])
  from jobs_settle_Some [OF s1 assms(7)] assms(8) obtain j1 where j1: "reg_jobs_by_id inner1 k = Some j1" "settled now j j1" by auto
  have "job_visibility j1 \<noteq> CleanupPending" using settled_visibility [OF j1(2)] assms(8) by simp
  from reconciled_job [OF assms(1) jobs_settle_finite [OF s1 assms(2)] inv assms(6) j1(1) this] obtain j'
    where j': "reg_jobs_by_id inner' k = Some j'" "settled now j1 j' \<or> (\<exists>s \<in> set (jinv_jobs inventory). snap_job_id s = k
      \<and> applies i j1 s \<and> j' = applied i now s j1)" by blast
  from j'(2) show ?thesis
  proof
    assume "settled now j1 j'"
    from settled_keeps [OF settled_trans [OF j1(2) this]] j'(1) show ?thesis by blast
  next
    assume "\<exists>s \<in> set (jinv_jobs inventory). snap_job_id s = k \<and> applies i j1 s \<and> j' = applied i now s j1"
    then obtain s where s: "s \<in> set (jinv_jobs inventory)" "snap_job_id s = k" "applies i j1 s" "j' = applied i now s j1" by blast
    have ok: "snapshot_ok s" using inv(1) s(1) by (simp add: list_all_iff)
    have [simp]: "j1 = j" using j1(2) s(3) by (auto simp: settled_def applies_def)
    have pf: "preflight_snapshot inner c i s = Inr ()"
      using preflight_eachD [of inner c i "jinv_jobs inventory" s] assms(4) s(1) by (simp add: preflight_inventory_locked_def)
    have "unchecked_transfer i inventory k j \<or> job_advances j j'"
      using applied_advances [OF pf _ ok, of j now] s assms(7) by (auto simp: unchecked_transfer_def list_ex_iff)
    moreover have "\<not> is_terminal (job_lifecycle j)" "job_last_update_seq j \<le> snap_update_seq s" using s(3) by (auto simp: applies_def)
    ultimately show ?thesis using j'(1) applied_exact(1,2) [OF ok s(3)] s(4) by auto
  qed
qed

lemma reconcile_snapshot_new:
  assumes "reconcile_snapshot c i g now s (inner, summary) = Some (inner', summary')" "snapshot_ok s"
    "reg_jobs_by_id inner (snap_job_id s) = None" "\<not> is_final_job_status (snap_status s)"
  shows "\<exists>j. reg_jobs_by_id inner' (snap_job_id s) = Some j \<and> job_visibility j = Public"
proof -
  from assms(1,3,4) obtain jc where jc: "reconstruct_job c i g now s inner = Some jc"
    "inner' = finish_snapshot c s (put_job inner (snap_job_id s) jc)"
    by (auto simp: reconcile_snapshot_def)
  obtain l where l: "from_wire (snap_status s) = Inr l" using assms(2) by (auto simp: snapshot_ok_def)
  have "job_visibility (fst jc) = Public"
    using jc(1) by (auto simp: reconstruct_job_def record_from_snapshot_def l notify_job_update_def observe_job_terminal_def Let_def)
  with jc(2) show ?thesis by (simp add: job_effects)
qed

lemma reconcile_each_new:
  "reconcile_each c i g now snaps (inner, summary) = Some (inner', summary') \<Longrightarrow> distinct (map snap_job_id snaps) \<Longrightarrow>
     s \<in> set snaps \<Longrightarrow> snapshot_ok s \<Longrightarrow> reg_jobs_by_id inner (snap_job_id s) = None \<Longrightarrow>
     \<not> is_final_job_status (snap_status s) \<Longrightarrow>
     \<exists>j. reg_jobs_by_id inner' (snap_job_id s) = Some j \<and> job_visibility j = Public"
proof (induction snaps arbitrary: inner summary)
  case (Cons t snaps)
  from Cons.prems(1) obtain inner1 summary1 where st: "reconcile_snapshot c i g now t (inner, summary) = Some (inner1, summary1)"
    "reconcile_each c i g now snaps (inner1, summary1) = Some (inner', summary')" by (rule reconcile_each_Cons)
  show ?case
  proof (cases "s = t")
    case True
    then have "snap_job_id s \<notin> set (map snap_job_id snaps)" using Cons.prems(2) by simp
    from reconcile_each_other [OF st(2) this] reconcile_snapshot_new [OF st(1)] Cons.prems(4-6) True show ?thesis by simp
  next
    case False
    then have s: "s \<in> set snaps" using Cons.prems(3) by simp
    then have ne: "snap_job_id s \<noteq> snap_job_id t" using Cons.prems(2) by (metis distinct.simps(2) image_eqI list.map(2) set_map)
    from reconcile_snapshot_job(1) [OF st(1) ne] Cons.prems(5) have "reg_jobs_by_id inner1 (snap_job_id s) = None" by simp
    from Cons.IH [OF st(2) _ s Cons.prems(4) this Cons.prems(6)] Cons.prems(2) show ?thesis by simp
  qed
qed simp

lemma active_not_final: "is_runner_active_job_status s \<Longrightarrow> \<not> is_final_job_status s"
  using runner_active_not_terminal
  by (auto simp: is_runner_active_job_status_def is_final_job_status_def is_ok_and_def split: sum.splits)

lemma reconcile_inventory_defined:
  assumes "list_all snapshot_ok (jinv_jobs inventory)"
  shows "\<exists>inner' summary. reconcile_inventory_locked env c i g inventory now inner = Some (inner', summary)"
proof -
  have "reconcile_inventory_locked env c i g inventory now inner \<noteq> None"
    using reconcile_each_defined [OF assms] by (simp add: reconcile_inventory_locked_def Let_def)
  then show ?thesis by fast
qed

lemma reconciled_active:
  assumes "iterates env" "finite (dom (reg_jobs_by_id inner))" "distinct (map snap_job_id (jinv_jobs inventory))"
    "reconcile_inventory_locked env c i g inventory now inner = Some (inner', summary)"
    "reg_jobs_by_id inner' k = Some j" "job_client_id j = c" "job_runner_instance_id j = i" "is_runner_active (job_lifecycle j)"
  shows "k \<in> set (map snap_job_id (jinv_jobs inventory))"
proof (rule ccontr)
  assume k: "k \<notin> set (map snap_job_id (jinv_jobs inventory))"
  let ?b = "before_snapshots env c i inventory now inner"
  from assms(4) obtain summary0 inner4 where r: "reconcile_each c i g now (jinv_jobs inventory) (?b, summary0) = Some (inner4, summary)"
    and inner': "inner' = remove_cleanup_terminal_jobs_locked env inner4" by (rule reconcile_inventory_phases)
  have fin: "finite (dom (reg_jobs_by_id inner4))"
    by (rule reconcile_each_finite [OF r jobs_settle_finite [OF before_snapshots_settle(1) [OF assms(1,2)] assms(2)]])
  have "reg_jobs_by_id inner4 k = Some j"
    using assms(5) by (auto simp: inner' jobs_cleanup [OF assms(1) fin] split: if_splits)
  then have "reg_jobs_by_id ?b k = Some j" using reconcile_each_other [OF r k] by simp
  from before_snapshots_settle(2) [OF assms(1,2) this] show False using assms(6-8) k by (simp add: missing_job_def)
qed

lemma reconciled_listed:
  assumes "iterates env" "finite (dom (reg_jobs_by_id inner))"
    "list_all snapshot_ok (jinv_jobs inventory)" "distinct (map snap_job_id (jinv_jobs inventory))"
    "reconcile_inventory_locked env c i g inventory now inner = Some (inner', summary)"
    "s \<in> set (jinv_jobs inventory)" "is_runner_active_job_status (snap_status s)"
    "\<not> opt_ex (\<lambda>j. job_visibility j = CleanupPending) (reg_jobs_by_id inner (snap_job_id s))"
  shows "reg_jobs_by_id inner' (snap_job_id s) \<noteq> None"
proof (cases "reg_jobs_by_id inner (snap_job_id s)")
  case (Some j)
  with reconciled_job [OF assms(1-5) Some] assms(8) show ?thesis by auto
next
  case None
  let ?b = "before_snapshots env c i inventory now inner"
  from assms(5) obtain summary0 inner4 where r: "reconcile_each c i g now (jinv_jobs inventory) (?b, summary0) = Some (inner4, summary)"
    and inner': "inner' = remove_cleanup_terminal_jobs_locked env inner4" by (rule reconcile_inventory_phases)
  have b: "jobs_settle now inner ?b" by (rule before_snapshots_settle(1) [OF assms(1,2)])
  have fin: "finite (dom (reg_jobs_by_id inner4))" by (rule reconcile_each_finite [OF r jobs_settle_finite [OF b assms(2)]])
  have ok: "snapshot_ok s" using assms(3,6) by (simp add: list_all_iff)
  from reconcile_each_new [OF r assms(4,6) ok jobs_settle_None [OF b None] active_not_final [OF assms(7)]]
  obtain j where "reg_jobs_by_id inner4 (snap_job_id s) = Some j" "job_visibility j = Public" by blast
  then show ?thesis by (simp add: inner' jobs_cleanup [OF assms(1) fin] cleanup_removable_def)
qed

text \<open>C29: A validated inventory is reconciled without a panic, and afterwards the registry and the Runner agree
  on what is running: every active Job the registry has for this Runner instance is one the
  inventory lists, and every active Job of the inventory is in the registry, unless a cleanup was
  pending for it.\<close>

theorem reconciliation_agrees_with_runner:
  assumes "iterates env" "finite (dom (reg_jobs_by_id inner))"
    "validate_job_inventory_without_project_membership env c inventory = Inr ()"
  shows "\<exists>inner' summary. reconcile_inventory_locked env c i g inventory now inner = Some (inner', summary)
    \<and> (\<forall>k j. reg_jobs_by_id inner' k = Some j \<and> job_client_id j = c \<and> job_runner_instance_id j = i
          \<and> is_runner_active (job_lifecycle j) \<longrightarrow> k \<in> set (map snap_job_id (jinv_jobs inventory)))
    \<and> (\<forall>s \<in> set (jinv_jobs inventory). is_runner_active_job_status (snap_status s) \<longrightarrow>
          reg_jobs_by_id inner' (snap_job_id s) \<noteq> None
          \<or> opt_ex (\<lambda>j. job_visibility j = CleanupPending) (reg_jobs_by_id inner (snap_job_id s)))"
proof -
  note ok = validate_inventory_ok [OF assms(3) [unfolded validate_job_inventory_without_project_membership_def]]
  obtain inner' summary where r: "reconcile_inventory_locked env c i g inventory now inner = Some (inner', summary)"
    using reconcile_inventory_defined [OF ok(1)] by blast
  from reconciled_active [OF assms(1,2) ok(2) r] reconciled_listed [OF assms(1,2) ok r] r show ?thesis by blast
qed

section \<open>Instances\<close>

definition sorted_env :: ReconcileEnv where
  "sorted_env = \<lparr>env_jobs_order = (\<lambda>m. sorted_list_of_set (dom m)), env_pending_order = (\<lambda>m. sorted_list_of_set (dom m)),
     env_grace = 120, env_inventory_bytes = (\<lambda>_. Inr 300)\<rparr>"

lemma sorted_env_iterates: "iterates sorted_env"
  by (simp add: iterates_def sorted_env_def)

definition sample_context :: ShellJobContext where
  "sample_context = \<lparr>ctx_runtime_project_id = None, ctx_workflow_session_id = None, ctx_ssh_resource = None,
     ctx_project_cwd = None, ctx_cwd = None, ctx_purpose = None, ctx_shell = None, ctx_command_preview = lit ''make'',
     ctx_validation_steps = [], ctx_validation = None, ctx_structured_execution = None\<rparr>"

definition sample_stream :: ShellJobLogState where
  "sample_stream = \<lparr>log_tail = lit ''x'', log_first_retained_line = 1, log_next_line = 2, log_truncated = False\<rparr>"

definition sample_snapshot :: ShellJobSnapshot where
  "sample_snapshot = \<lparr>snap_job_id = lit ''job-1'', snap_request_id = lit ''req-1'', snap_status = lit ''running'', snap_update_seq = 2,
     snap_created_at = 5, snap_started_at = Some 10, snap_ended_at = None, snap_exit_code = None, snap_duration_ms = None,
     snap_error = None, snap_command_execution_state = None, snap_context = sample_context, snap_stdout = sample_stream,
     snap_stderr = ShellJobLogState_default, snap_validation_progress = None, snap_activity = None\<rparr>"

definition sample_inventory :: ShellJobInventory where
  "sample_inventory = \<lparr>jinv_active_complete = True, jinv_jobs = [sample_snapshot]\<rparr>"

lemma make_preview: "command_preview (lit ''make'') = lit ''make''"
proof (rule preview_ok_fixed)
  have "trim (lit ''make'') = lit ''make''" by (simp add: str_simps)
  moreover have "\<not> secret_like_value (lit ''make'')"
    by (simp add: secret_like_value_def to_ascii_lowercase_def str_contains_def lit_def WEBCODEX_SECRET_PREFIXES_def sublist_code)
  ultimately show "preview_ok (lit ''make'')" by (simp add: preview_ok_def) (simp add: lit_def COMMAND_PREVIEW_MAX_CHARS_def)
qed

lemma sample_streams_ok: "validate_stream_snapshot sample_stream f = Inr ()" "validate_stream_snapshot ShellJobLogState_default f = Inr ()"
  by (simp_all add: validate_stream_snapshot_def sample_stream_def ShellJobLogState_default_def lit_def utf8_width_def
      JOB_SNAPSHOT_STREAM_MAX_BYTES_def retained_line_count_def str_lines_def sat_add_def usize_max_def)

lemma sample_context_ok: "validate_context c [] False sample_snapshot = Inr ()"
  by (simp add: validate_context_def sample_snapshot_def sample_context_def make_preview check_context_field_def
      validate_project_context_def Let_def)
    (simp add: lit_def COMMAND_PREVIEW_MAX_CHARS_def)

lemma sample_ids_ok: "id_ok (lit ''job-1'')" "id_ok (lit ''req-1'')"
  by (simp_all add: id_ok_def lit_def utf8_width_def MAX_CLIENT_ID_LEN_def id_char_def is_ascii_alphanumeric_def is_ascii_digit_def)

lemma running_wire: "from_wire (lit ''running'') = Inr Running"
  using from_as_wire [of Running] by simp

lemma sample_validates: "validate_snapshot c [] False sample_snapshot = Inr True"
proof -
  have "validate_lifecycle_fields Running sample_snapshot = Inr ()"
    by (simp add: validate_lifecycle_fields_def Let_def lifecycle_defs timestamps_consistent_def sample_snapshot_def sample_context_def)
  moreover have "validate_progress Running sample_snapshot = Inr ()" "validate_activity Running sample_snapshot = Inr ()"
    by (simp_all add: validate_progress_def validate_activity_def Let_def sample_snapshot_def sample_context_def)
  ultimately show ?thesis
    using sample_context_ok [of c] sample_streams_ok sample_ids_ok
    by (simp add: validate_snapshot_def parse_job_lifecycle_def running_wire sample_snapshot_def is_runner_active_def)
qed

lemma sample_inventory_ok: "validate_job_inventory_without_project_membership sorted_env c sample_inventory = Inr ()"
  by (simp add: validate_job_inventory_without_project_membership_def validate_job_inventory_inner_def sample_inventory_def
      sorted_env_def sample_validates no_counts_def Let_def JOB_INVENTORY_MAX_JOBS_def JOB_INVENTORY_MAX_ACTIVE_JOBS_def
      JOB_INVENTORY_MAX_TERMINAL_JOBS_def JOB_INVENTORY_MAX_SERIALIZED_BYTES_def)

lemma sample_registry_finite: "finite (dom (reg_jobs_by_id sample_registry))"
  by (simp add: sample_registry_def)

lemma sample_preflight: "preflight_inventory_locked sample_registry (lit ''runner-1'') (lit ''i'') sample_inventory = Inr ()"
  by (simp add: preflight_inventory_locked_def sample_inventory_def preflight_snapshot_def sample_registry_def sample_snapshot_def
      preflight_existing_def sample_job_def same_context_def sample_context_def is_terminal_def Let_def progress_count_def
      sample_stream_def ShellJobLogState_default_def JobObservationState_new_def)

theorem reconciliation_agrees_with_runner_witness:
  "\<exists>inner' summary. reconcile_inventory_locked sorted_env (lit ''runner-1'') (lit ''i'') None sample_inventory 30 sample_registry
      = Some (inner', summary) \<and> reg_jobs_by_id inner' (lit ''job-1'') \<noteq> None"
  using reconciliation_agrees_with_runner [OF sorted_env_iterates sample_registry_finite sample_inventory_ok,
      where c = "lit ''runner-1''" and i = "lit ''i''" and g = None and now = 30]
  by (auto simp: sample_inventory_def sample_snapshot_def is_runner_active_job_status_def is_ok_and_def running_wire
      is_runner_active_def sample_registry_def sample_job_def)

theorem reconciliation_never_regresses_witness:
  "\<exists>inner' summary j'. reconcile_inventory_locked sorted_env (lit ''runner-1'') (lit ''i'') None sample_inventory 30 sample_registry
      = Some (inner', summary) \<and> reg_jobs_by_id inner' (lit ''job-1'') = Some j' \<and> job_advances sample_job j'"
proof -
  have "list_all snapshot_ok (jinv_jobs sample_inventory)"
    using validate_inventory_ok [OF sample_inventory_ok [unfolded validate_job_inventory_without_project_membership_def]] by simp
  from reconcile_inventory_defined [OF this] obtain inner' summary where r:
    "reconcile_inventory_locked sorted_env (lit ''runner-1'') (lit ''i'') None sample_inventory 30 sample_registry
      = Some (inner', summary)" by blast
  have p: "prepared sorted_env (lit ''runner-1'') sample_inventory 30 sample_registry sample_registry"
    unfolding prepared_def by (intro exI [of _ sample_registry] exI [of _ "reg_runners sample_registry"]) simp
  have j: "reg_jobs_by_id sample_registry (lit ''job-1'') = Some sample_job" "job_visibility sample_job \<noteq> CleanupPending"
    by (simp_all add: sample_registry_def sample_job_def)
  have "\<not> unchecked_transfer (lit ''i'') sample_inventory (lit ''job-1'') sample_job"
    by (simp add: unchecked_transfer_def sample_inventory_def transfer_def sample_job_def)
  with reconciliation_never_regresses [OF sorted_env_iterates sample_registry_finite sample_inventory_ok sample_preflight p r j] r
  show ?thesis by blast
qed


section \<open>Two gaps\<close>

text \<open>How the first two phases treat one Job.\<close>

lemma before_snapshots_job:
  assumes "iterates env" "finite (dom (reg_jobs_by_id inner))" "k \<in> set (map snap_job_id (jinv_jobs inventory))"
  shows "reg_jobs_by_id (before_snapshots env c i inventory now inner) k =
    reg_jobs_by_id (fst (expire_recovering_jobs_locked env (Some c) now RECOVERY_SWEEP_PASS_CAP
      (prune_projected_structured_terminal_suppressions_locked now inner))) k"
proof -
  define inner1 where "inner1 = prune_projected_structured_terminal_suppressions_locked now inner"
  define inner2 where "inner2 = fst (expire_recovering_jobs_locked env (Some c) now RECOVERY_SWEEP_PASS_CAP inner1)"
  have fin1: "finite (dom (reg_jobs_by_id inner1))" using assms(2) by (simp add: inner1_def job_effects)
  have fin2: "finite (dom (reg_jobs_by_id inner2))"
    unfolding inner2_def by (rule finite_expire [OF assms(1) fin1])
  have "\<not> missing_job c i (set (map snap_job_id (jinv_jobs inventory))) k j" for j using assms(3) by (simp add: missing_job_def)
  then have "reg_jobs_by_id (end_jobs env c now r m (keys_where env inner2
      (missing_job c i (set (map snap_job_id (jinv_jobs inventory))))) inner2) k = reg_jobs_by_id inner2 k" for r m
    unfolding jobs_end_where [OF assms(1) fin2] by (cases "reg_jobs_by_id inner2 k") simp_all
  then show ?thesis by (simp add: before_snapshots_def Let_def inner2_def inner1_def)
qed

lemma expire_keeps:
  assumes "iterates env" "finite (dom (reg_jobs_by_id inner))" "reg_jobs_by_id inner k = Some j" "\<not> recovery_active j"
    "\<not> cleanup_removable j"
  shows "reg_jobs_by_id (fst (expire_recovering_jobs_locked env f now cap inner)) k = Some j"
proof (cases "swept env f now cap inner = []")
  case False
  have "k \<notin> set (swept env f now cap inner)"
    using swept_expired [of k env f now cap inner] assms(3,4) expired_recovering by auto
  with False assms(3,5) show ?thesis by (simp add: jobs_expire [OF assms(1,2)] after_pass_def)
qed (use assms(3) in \<open>simp add: expire_empty\<close>)

text \<open>The preflight promises that an accepted inventory moves no log cursor back, but it does not look at
  the cursors of a detached process that comes back with a new instance and an unchanged
  sequence number, while the reconciliation applies that snapshot: the cursor is then the one of the
  snapshot, whatever the registry had.\<close>

theorem detached_transfer_skips_cursor_check:
  assumes "iterates env" "finite (dom (reg_jobs_by_id inner))"
    "validate_job_inventory_without_project_membership env c inventory = Inr ()"
    "s \<in> set (jinv_jobs inventory)" "reg_jobs_by_id inner (snap_job_id s) = Some j"
    "job_client_id j = c" "job_visibility j \<noteq> CleanupPending" "\<not> is_terminal (job_lifecycle j)"
    "transfer i j s" "snap_update_seq s = job_last_update_seq j" "\<not> recovery_active j"
  shows "preflight_existing c i j s = Inr ()
    \<and> (\<exists>inner' summary j'. reconcile_inventory_locked env c i g inventory now inner = Some (inner', summary)
         \<and> reg_jobs_by_id inner' (snap_job_id s) = Some j'
         \<and> log_next_line (job_stdout j') = log_next_line (snap_stdout s))"
proof -
  note inv = validate_inventory_ok [OF assms(3) [unfolded validate_job_inventory_without_project_membership_def]]
  obtain inner' summary where r: "reconcile_inventory_locked env c i g inventory now inner = Some (inner', summary)"
    using reconcile_inventory_defined [OF inv(1)] by blast
  have ok: "snapshot_ok s" using inv(1) assms(4) by (simp add: list_all_iff)
  have ap: "applies i j s" using assms(8-11) by (simp add: applies_def)
  have "same_context j s" using assms(9) by (simp add: transfer_def detached_instance_transfer_allowed_def)
  then have pf: "preflight_existing c i j s = Inr ()"
    using assms(6,8-11) by (simp add: preflight_existing_def Let_def transfer_def)
  let ?b = "before_snapshots env c i inventory now inner"
  from r obtain summary0 inner4 where e: "reconcile_each c i g now (jinv_jobs inventory) (?b, summary0) = Some (inner4, summary)"
    and inner': "inner' = remove_cleanup_terminal_jobs_locked env inner4" by (rule reconcile_inventory_phases)
  have fin: "finite (dom (reg_jobs_by_id inner4))"
    by (rule reconcile_each_finite [OF e jobs_settle_finite [OF before_snapshots_settle(1) [OF assms(1,2)] assms(2)]])
  have "\<not> cleanup_removable j" using assms(7) by (simp add: cleanup_removable_def)
  then have "reg_jobs_by_id ?b (snap_job_id s) = Some j"
    using assms(4,5,11) expire_keeps [OF assms(1)] assms(2)
    by (subst before_snapshots_job [OF assms(1,2)]) (auto simp: job_effects)
  from reconcile_each_job [OF e inv(2) assms(4) this]
  have "reg_jobs_by_id inner' (snap_job_id s) = Some (applied i now s j)"
    using assms(7) identity_visibility [OF applied_exact(1) [OF ok ap], of now]
    by (simp add: inner' jobs_cleanup [OF assms(1) fin] cleanup_removable_def)
  with r pf applied_exact(3) [OF ok ap] show ?thesis by blast
qed

text \<open>A hidden Job can come back in the open: when the recovery of a Job that awaits its cleanup has
  expired by the time its Runner reports it again, the reconciliation first ends and drops the
  Job and then builds a new, public record for it from the same inventory.\<close>

theorem expired_hidden_job_reappears:
  assumes "iterates env" "finite (dom (reg_jobs_by_id inner))"
    "validate_job_inventory_without_project_membership env c inventory = Inr ()"
    "s \<in> set (jinv_jobs inventory)" "is_runner_active_job_status (snap_status s)"
    "reg_jobs_by_id inner (snap_job_id s) = Some j" "job_visibility j = CleanupPending"
    "snap_job_id s \<in> set (swept env (Some c) now RECOVERY_SWEEP_PASS_CAP inner)"
  shows "\<exists>inner' summary j'. reconcile_inventory_locked env c i g inventory now inner = Some (inner', summary)
    \<and> reg_jobs_by_id inner' (snap_job_id s) = Some j' \<and> job_visibility j' = Public"
proof -
  note inv = validate_inventory_ok [OF assms(3) [unfolded validate_job_inventory_without_project_membership_def]]
  obtain inner' summary where r: "reconcile_inventory_locked env c i g inventory now inner = Some (inner', summary)"
    using reconcile_inventory_defined [OF inv(1)] by blast
  define inner1 where "inner1 = prune_projected_structured_terminal_suppressions_locked now inner"
  have jobs1: "reg_jobs_by_id inner1 = reg_jobs_by_id inner" by (simp add: inner1_def job_effects)
  have sw: "snap_job_id s \<in> set (swept env (Some c) now RECOVERY_SWEEP_PASS_CAP inner1)"
    using assms(8) by (simp add: swept_take jobs1)
  let ?b = "before_snapshots env c i inventory now inner"
  have "cleanup_removable (expiry_record now j)" using assms(7) by (simp add: cleanup_removable_def expiry_record_def)
  moreover have "swept env (Some c) now RECOVERY_SWEEP_PASS_CAP inner1 \<noteq> []" using sw by auto
  moreover have "finite (dom (reg_jobs_by_id inner1))" using assms(2) by (simp add: jobs1)
  ultimately have "reg_jobs_by_id (fst (expire_recovering_jobs_locked env (Some c) now RECOVERY_SWEEP_PASS_CAP inner1))
      (snap_job_id s) = None"
    using assms(6) sw by (simp add: jobs_expire [OF assms(1)] jobs1 after_pass_def)
  then have none: "reg_jobs_by_id ?b (snap_job_id s) = None"
    using assms(4) by (subst before_snapshots_job [OF assms(1,2)]) (auto simp: inner1_def)
  from r obtain summary0 inner4 where e: "reconcile_each c i g now (jinv_jobs inventory) (?b, summary0) = Some (inner4, summary)"
    and inner': "inner' = remove_cleanup_terminal_jobs_locked env inner4" by (rule reconcile_inventory_phases)
  have fin: "finite (dom (reg_jobs_by_id inner4))"
    by (rule reconcile_each_finite [OF e jobs_settle_finite [OF before_snapshots_settle(1) [OF assms(1,2)] assms(2)]])
  have ok: "snapshot_ok s" using inv(1) assms(4) by (simp add: list_all_iff)
  from reconcile_each_new [OF e inv(2) assms(4) ok none active_not_final [OF assms(5)]]
  obtain j' where "reg_jobs_by_id inner4 (snap_job_id s) = Some j'" "job_visibility j' = Public" by blast
  then have "reg_jobs_by_id inner' (snap_job_id s) = Some j'"
    by (simp add: inner' jobs_cleanup [OF assms(1) fin] cleanup_removable_def)
  with r \<open>job_visibility j' = Public\<close> show ?thesis by blast
qed

definition detached_metadata :: ShellJobStructuredExecutionMetadata where
  "detached_metadata = \<lparr>sx_execution_source = lit ''run_detached_process'', sx_language = None, sx_script_bytes = None,
     sx_arg_count = 0, sx_stdin_present = False, sx_validation_identity = None, sx_assertion_name = None, sx_validation_tool = None\<rparr>"

definition detached_job :: ShellJobRecord where
  "detached_job = sample_job\<lparr>job_kind := lit ''run_detached_process'', job_structured_execution := Some detached_metadata,
     job_stdout := ShellJobLogState_default\<lparr>log_next_line := 5\<rparr>, job_last_update_seq := 2\<rparr>"

definition detached_snapshot :: ShellJobSnapshot where
  "detached_snapshot = sample_snapshot\<lparr>snap_context := sample_context\<lparr>ctx_structured_execution := Some detached_metadata\<rparr>\<rparr>"

definition detached_inventory :: ShellJobInventory where
  "detached_inventory = \<lparr>jinv_active_complete = True, jinv_jobs = [detached_snapshot]\<rparr>"

definition detached_registry :: RunnerRegistryInner where
  "detached_registry = sample_registry\<lparr>reg_jobs_by_id := [lit ''job-1'' \<mapsto> detached_job]\<rparr>"

lemma detached_valid: "validate_snapshot c [] False detached_snapshot = Inr True"
proof -
  have "lit ''run_detached_process'' \<noteq> lit ''run_process''" by (simp add: lit_inject)
  then have m: "structured_execution_is_valid detached_metadata"
    by (simp add: structured_execution_is_valid_def detached_metadata_def PROCESS_ARG_MAX_COUNT_def Let_def)
  have ctx: "validate_context c [] False detached_snapshot = Inr ()"
    by (simp add: validate_context_def detached_snapshot_def sample_context_def make_preview check_context_field_def
        validate_project_context_def Let_def m) (simp add: lit_def COMMAND_PREVIEW_MAX_CHARS_def)
  have "validate_lifecycle_fields Running detached_snapshot = Inr ()"
    by (simp add: validate_lifecycle_fields_def Let_def lifecycle_defs timestamps_consistent_def detached_snapshot_def
        sample_snapshot_def sample_context_def)
  moreover have "validate_progress Running detached_snapshot = Inr ()" "validate_activity Running detached_snapshot = Inr ()"
    by (simp_all add: validate_progress_def validate_activity_def Let_def detached_snapshot_def sample_snapshot_def sample_context_def)
  ultimately show ?thesis
    using ctx sample_streams_ok sample_ids_ok
    by (simp add: validate_snapshot_def parse_job_lifecycle_def running_wire detached_snapshot_def sample_snapshot_def
        is_runner_active_def)
qed

lemma detached_inventory_ok: "validate_job_inventory_without_project_membership sorted_env c detached_inventory = Inr ()"
  by (simp add: validate_job_inventory_without_project_membership_def validate_job_inventory_inner_def detached_inventory_def
      sorted_env_def detached_valid no_counts_def Let_def JOB_INVENTORY_MAX_JOBS_def JOB_INVENTORY_MAX_ACTIVE_JOBS_def
      JOB_INVENTORY_MAX_TERMINAL_JOBS_def JOB_INVENTORY_MAX_SERIALIZED_BYTES_def)

theorem detached_transfer_skips_cursor_check_witness:
  "log_next_line (job_stdout detached_job) = 5
   \<and> preflight_existing (lit ''runner-1'') (lit ''i2'') detached_job detached_snapshot = Inr ()
   \<and> (\<exists>inner' summary j'. reconcile_inventory_locked sorted_env (lit ''runner-1'') (lit ''i2'') None detached_inventory 30
        detached_registry = Some (inner', summary)
      \<and> reg_jobs_by_id inner' (snap_job_id detached_snapshot) = Some j' \<and> log_next_line (job_stdout j') = 2)"
proof -
  have "lit ''i'' \<noteq> lit ''i2''" by (simp add: lit_inject)
  then have t: "transfer (lit ''i2'') detached_job detached_snapshot"
    by (simp add: transfer_def detached_instance_transfer_allowed_def same_context_def detached_job_def detached_snapshot_def
        sample_job_def sample_snapshot_def sample_context_def detached_metadata_def Let_def)
  have "preflight_existing (lit ''runner-1'') (lit ''i2'') detached_job detached_snapshot = Inr ()
    \<and> (\<exists>inner' summary j'. reconcile_inventory_locked sorted_env (lit ''runner-1'') (lit ''i2'') None detached_inventory 30
         detached_registry = Some (inner', summary)
       \<and> reg_jobs_by_id inner' (snap_job_id detached_snapshot) = Some j'
       \<and> log_next_line (job_stdout j') = log_next_line (snap_stdout detached_snapshot))"
    by (rule detached_transfer_skips_cursor_check [OF sorted_env_iterates _ detached_inventory_ok _ _ _ _ _ t])
      (simp_all add: detached_registry_def detached_inventory_def detached_job_def detached_snapshot_def sample_job_def
        sample_snapshot_def is_terminal_def recovery_active_def recovering_def)
  then show ?thesis
    by (simp add: detached_job_def detached_snapshot_def sample_snapshot_def sample_stream_def)
qed

definition hidden_job :: ShellJobRecord where
  "hidden_job = sample_job\<lparr>job_visibility := CleanupPending,
     job_recovery := \<lparr>rec_phase = Some Recovering, rec_recovered_after_server_restart = False, rec_reconciled_at = None,
       rec_reason = Some RunnerTransportDisconnected, rec_recovering_since = Some 20\<rparr>\<rparr>"

definition hidden_registry :: RunnerRegistryInner where
  "hidden_registry = sample_registry\<lparr>reg_jobs_by_id := [lit ''job-1'' \<mapsto> hidden_job]\<rparr>"

lemma hidden_swept: "swept sorted_env (Some (lit ''runner-1'')) 500 RECOVERY_SWEEP_PASS_CAP hidden_registry = [lit ''job-1'']"
  by (simp add: swept_take sorted_env_def hidden_registry_def recovery_expired_def hidden_job_def sample_job_def
      recovery_active_def recovering_def is_runner_active_def i64_sat_sub_def i64_sat_def i64_max_def i64_min_def
      RECOVERY_SWEEP_PASS_CAP_def)

theorem expired_hidden_job_reappears_witness:
  "job_visibility hidden_job = CleanupPending
   \<and> (\<exists>inner' summary j'. reconcile_inventory_locked sorted_env (lit ''runner-1'') (lit ''i'') None sample_inventory 500
        hidden_registry = Some (inner', summary)
      \<and> reg_jobs_by_id inner' (snap_job_id sample_snapshot) = Some j' \<and> job_visibility j' = Public)"
proof (rule conjI)
  show vis: "job_visibility hidden_job = CleanupPending" by (simp add: hidden_job_def)
  show "\<exists>inner' summary j'. reconcile_inventory_locked sorted_env (lit ''runner-1'') (lit ''i'') None sample_inventory 500
        hidden_registry = Some (inner', summary)
      \<and> reg_jobs_by_id inner' (snap_job_id sample_snapshot) = Some j' \<and> job_visibility j' = Public"
    by (rule expired_hidden_job_reappears [OF sorted_env_iterates _ sample_inventory_ok _ _ _ vis])
      (simp_all add: hidden_swept hidden_registry_def sample_inventory_def sample_snapshot_def is_runner_active_job_status_def
        is_ok_and_def running_wire is_runner_active_def hidden_swept [unfolded hidden_registry_def])
qed

end
