(* ===== verification/Access_Control.thy ===== *)
theory Access_Control
  imports Job_Reconciliation
begin

text \<open>
  Who may see and use a Runner and its Jobs (\<open>crates/webcodex-runner-registry/src/access_control.rs\<close>, with
  \<open>RunnerAccess\<close> of \<open>access.rs\<close>). A caller without global visibility lives in one partition: a lightweight
  group, or the Runners that are owned by the caller's user name. A caller that is not given is an internal one.
\<close>

record RunnerAccess =
  acc_global_visibility :: bool
  acc_owner_bypass :: bool
  acc_username :: "rstr option"
  acc_group :: "RunnerAccessGroup option"

definition not_blank :: "rstr option \<Rightarrow> rstr option" where
  "not_blank v = (case v of None \<Rightarrow> None | Some s \<Rightarrow> if trim s = [] then None else Some s)"

definition assert_runner_owner :: "RunnerAccess option \<Rightarrow> rstr \<Rightarrow> rstr option \<Rightarrow> rstr + unit" where
  "assert_runner_owner access client_id owner =
     (if opt_ex acc_owner_bypass access then Inr ()
      else (case not_blank owner of
          None \<Rightarrow> Inl (lit ''runner '' @ client_id @ lit '' has no owner'')
        | Some owner' \<Rightarrow>
            let username = Option.bind access (\<lambda>a. not_blank (acc_username a)) in
            if username = Some owner' then Inr ()
            else Inl (lit ''runner '' @ client_id @ lit '' is owned by '' @ owner' @ lit ''; current api key belongs to ''
                   @ (case username of None \<Rightarrow> lit ''anonymous'' | Some u \<Rightarrow> u))))"

definition lightweight_group_matches :: "RunnerAccess option \<Rightarrow> RunnerAccessGroup option \<Rightarrow> bool" where
  "lightweight_group_matches access grp =
     (case grp of
        Some g \<Rightarrow> Option.bind access acc_group = Some g
      | None \<Rightarrow> Option.bind access acc_group = None)"

definition runner_visible_to_access :: "RunnerAccess option \<Rightarrow> RunnerRecord \<Rightarrow> bool" where
  "runner_visible_to_access access runner =
     (case access of
        None \<Rightarrow> True
      | Some a \<Rightarrow>
          if acc_global_visibility a then True
          else if \<not> lightweight_group_matches (Some a) (runner_auth_group runner) then False
          else if runner_auth_group runner \<noteq> None then True
          else not_blank (acc_username a) \<noteq> None \<and> not_blank (acc_username a) = not_blank (runner_owner runner))"

definition assert_runner_access :: "RunnerAccess option \<Rightarrow> RunnerRecord \<Rightarrow> rstr + unit" where
  "assert_runner_access access runner =
     (if \<not> runner_visible_to_access access runner then Inl (lit ''unknown shell client: '' @ runner_client_id runner)
      else if runner_auth_group runner \<noteq> None then Inr ()
      else assert_runner_owner access (runner_client_id runner) (runner_owner runner))"

text \<open>\<open>now\<close> is the clock reading; the registry that the source passes along is not used.\<close>

definition job_visible_to_access :: "int \<Rightarrow> RunnerAccess option \<Rightarrow> ShellJobRecord \<Rightarrow> bool" where
  "job_visible_to_access now access job =
     (if opt_ex (\<lambda>expires. expires \<le> now) (obs_receipt_expires_at (job_observation job)) then False
      else (case access of
          None \<Rightarrow> True
        | Some a \<Rightarrow>
            if acc_global_visibility a then True
            else (case job_auth_group job of
                Some g \<Rightarrow> lightweight_group_matches (Some a) (Some g)
              | None \<Rightarrow> acc_group a = None
                  \<and> opt_ex (\<lambda>u. trim u \<noteq> [] \<and> job_owner_at_admission job = Some u) (acc_username a))))"

section \<open>Partitions\<close>

datatype principal = Group RunnerAccessGroup | Owner rstr | Nobody

definition partition_of :: "RunnerAccessGroup option \<Rightarrow> rstr option \<Rightarrow> principal" where
  "partition_of grp name =
     (case grp of Some g \<Rightarrow> Group g | None \<Rightarrow> (case not_blank name of None \<Rightarrow> Nobody | Some u \<Rightarrow> Owner u))"

lemma runner_visible_iff:
  "\<not> acc_global_visibility a \<Longrightarrow> runner_visible_to_access (Some a) r \<longleftrightarrow>
     partition_of (runner_auth_group r) (runner_owner r) \<noteq> Nobody
     \<and> partition_of (acc_group a) (acc_username a) = partition_of (runner_auth_group r) (runner_owner r)"
  by (auto simp: runner_visible_to_access_def lightweight_group_matches_def partition_of_def split: option.splits)

lemma job_visible_iff:
  "\<not> acc_global_visibility a \<Longrightarrow> obs_receipt_expires_at (job_observation j) = None \<Longrightarrow>
     job_visible_to_access now (Some a) j \<longleftrightarrow>
       partition_of (job_auth_group j) (job_owner_at_admission j) \<noteq> Nobody
       \<and> partition_of (acc_group a) (acc_username a) = partition_of (job_auth_group j) (job_owner_at_admission j)"
  by (auto simp: job_visible_to_access_def lightweight_group_matches_def partition_of_def not_blank_def
      split: option.splits if_splits)

lemma job_visible_partition:
  "\<not> acc_global_visibility a \<Longrightarrow> job_visible_to_access now (Some a) j \<Longrightarrow>
     partition_of (job_auth_group j) (job_owner_at_admission j) \<noteq> Nobody
     \<and> partition_of (acc_group a) (acc_username a) = partition_of (job_auth_group j) (job_owner_at_admission j)"
  by (auto simp: job_visible_to_access_def lightweight_group_matches_def partition_of_def not_blank_def
      split: option.splits if_splits)

lemma reconstructed_fields:
  assumes "reconstruct_job c i g now s inner = Some (j, cands)" "reg_runners inner c = Some r"
  shows "job_auth_group j = g" "job_owner_at_admission j = runner_owner r" "obs_receipt_expires_at (job_observation j) = None"
  using assms
  by (auto simp: reconstruct_job_def record_from_snapshot_def notify_job_update_def observe_job_terminal_def Let_def
      JobObservationState_new_def split: sum.splits if_splits)

text \<open>C36: Jobs stay in the partition of their Runner. A Job that is rebuilt from a Runner's inventory can be
  seen by exactly the callers that can see the Runner, and two callers without global visibility
  that can both see a Job, whatever its history, are in the same partition: the same group, or
  the same user name and no group.\<close>

theorem job_visibility_is_partitioned:
  assumes "reg_runners inner c = Some r"
    "reconstruct_job c i (runner_auth_group r) now s inner = Some (j, cands)"
    "\<not> acc_global_visibility a" "\<not> acc_global_visibility b"
    "job_visible_to_access t (Some a) k" "job_visible_to_access t (Some b) k"
  shows "job_visible_to_access t access j = runner_visible_to_access access r
    \<and> partition_of (acc_group a) (acc_username a) = partition_of (acc_group b) (acc_username b)
    \<and> partition_of (acc_group a) (acc_username a) \<noteq> Nobody"
proof (intro conjI)
  note f = reconstructed_fields [OF assms(2,1)]
  show "job_visible_to_access t access j = runner_visible_to_access access r"
  proof (cases access)
    case None
    then show ?thesis by (simp add: job_visible_to_access_def runner_visible_to_access_def f)
  next
    case (Some x)
    show ?thesis
    proof (cases "acc_global_visibility x")
      case True
      then show ?thesis by (simp add: Some job_visible_to_access_def runner_visible_to_access_def f)
    next
      case False
      from job_visible_iff [OF this f(3), of t] runner_visible_iff [OF this, of r] show ?thesis by (simp add: Some f(1,2))
    qed
  qed
qed (use job_visible_partition [OF assms(3,5)] job_visible_partition [OF assms(4,6)] in simp_all)

definition sample_access :: RunnerAccess where
  "sample_access = \<lparr>acc_global_visibility = False, acc_owner_bypass = False, acc_username = None, acc_group = Some OpenAnonymous\<rparr>"

definition open_runner :: RunnerRecord where
  "open_runner = \<lparr>runner_client_id = lit ''runner-1'', runner_instance_id = lit ''i'', runner_owner = None,
     runner_auth_group = Some OpenAnonymous, runner_last_seen = 20, runner_supports_reconciliation = True,
     runner_transport = Polling, runner_connection_id = None, runner_disconnected_at = None, runner_suppressions = []\<rparr>"

theorem job_visibility_is_partitioned_witness:
  "\<exists>j cands. reconstruct_job (lit ''runner-1'') (lit ''i'') (Some OpenAnonymous) 30 sample_snapshot
      (sample_registry\<lparr>reg_runners := [lit ''runner-1'' \<mapsto> open_runner]\<rparr>) = Some (j, cands)
    \<and> job_visible_to_access 40 (Some sample_access) j
    \<and> partition_of (acc_group sample_access) (acc_username sample_access) \<noteq> Nobody"
proof -
  let ?inner = "sample_registry\<lparr>reg_runners := [lit ''runner-1'' \<mapsto> open_runner]\<rparr>"
  have "snapshot_ok sample_snapshot"
    by (auto simp: snapshot_ok_def sample_snapshot_def running_wire is_runner_active_def)
  then obtain j cands where r: "reconstruct_job (lit ''runner-1'') (lit ''i'') (Some OpenAnonymous) 30 sample_snapshot ?inner = Some (j, cands)"
    using reconstruct_defined by (metis not_Some_eq surj_pair)
  have "runner_visible_to_access (Some sample_access) open_runner"
    by (simp add: runner_visible_to_access_def sample_access_def open_runner_def lightweight_group_matches_def)
  moreover have k: "job_visible_to_access 40 (Some sample_access) (sample_job\<lparr>job_auth_group := Some OpenAnonymous\<rparr>)"
    by (simp add: job_visible_to_access_def sample_access_def sample_job_def lightweight_group_matches_def JobObservationState_new_def)
  ultimately show ?thesis
    using job_visibility_is_partitioned [where inner = ?inner and r = open_runner and c = "lit ''runner-1''" and i = "lit ''i''"
        and now = 30 and s = sample_snapshot and a = sample_access and b = sample_access and t = 40
        and access = "Some sample_access" and k = "sample_job\<lparr>job_auth_group := Some OpenAnonymous\<rparr>", OF _ _ _ _ k k] r
    by (simp add: open_runner_def sample_access_def)
qed

end
