(* ===== verification/Job_Views.thy ===== *)
theory Job_Views
  imports Access_Control Job_Observation
begin

text \<open>
  What callers see of a Job: the public view of a record (\<open>job_view\<close> of
  \<open>crates/webcodex-runner-registry/src/jobs.rs\<close>), the frozen log projection with its observation token,
  the lookups and lists of Jobs, and the bounded wait of \<open>job_log_for_auth\<close>
  (\<open>crates/webcodex-runner-registry/src/job_updates.rs\<close>). A read refreshes the Jobs it looks at, so it returns the
  registry as well. All Jobs of a server process carry the same observation epoch, which is the parameter \<open>epoch\<close>.
\<close>

section \<open>The public view\<close>

record RunnerShellJobResult =
  res_cwd :: "rstr option"
  res_command_preview :: rstr
  res_exit_code :: "int option"
  res_duration_ms :: "nat option"
  res_error :: "rstr option"

record ShellJobInfo =
  view_job_id :: rstr
  view_request_id :: "rstr option"
  view_client_id :: rstr
  view_kind :: rstr
  view_project_id :: "rstr option"
  view_session_id :: "rstr option"
  view_ssh_resource :: "rstr option"
  view_cwd :: "rstr option"
  view_project_cwd :: "rstr option"
  view_purpose :: "rstr option"
  view_shell :: "rstr option"
  view_command_preview :: rstr
  view_status :: rstr
  view_created_at :: int
  view_started_at :: "int option"
  view_ended_at :: "int option"
  view_exit_code :: "int option"
  view_duration_ms :: "nat option"
  view_elapsed_secs :: "64 word option"
  view_error :: "rstr option"
  view_command_execution_state :: "ShellCommandExecutionState option"
  view_structured_execution :: "ShellJobStructuredExecutionMetadata option"
  view_result :: "RunnerShellJobResult option"
  view_validation_progress :: "ShellJobValidationProgress option"
  view_activity :: "ShellJobActivity option"
  view_validation :: "ShellJobValidationMetadata option"
  view_recovery_state :: "rstr option"
  view_recovered_after_server_restart :: bool
  view_reconciled_at :: "int option"
  view_recovery_reason_code :: "rstr option"
  view_observation_token :: "rstr option"
  view_last_update_seq :: "nat option"
  view_stdout_retained_from_line :: "nat option"
  view_stderr_retained_from_line :: "nat option"
  view_stdout_log_truncated :: bool
  view_stderr_log_truncated :: bool

text \<open>\<open>token.ok().map(encode)\<close>. The constructor and the encoder do not panic (\<open>token_text_total\<close> below), so \<open>None\<close>
  is the refusal of the constructor.\<close>

definition token_text :: "(JobObservationTokenError + JobObservationToken) option \<Rightarrow> rstr option" where
  "token_text built = (case built of Some (Inr token) \<Rightarrow> encode token | _ \<Rightarrow> None)"

text \<open>The difference of two times is cast from \<open>i64\<close> to \<open>u64\<close>.\<close>

definition elapsed_secs :: "int \<Rightarrow> ShellJobRecord \<Rightarrow> 64 word option" where
  "elapsed_secs now job =
     (case job_duration_ms job of
        Some duration_ms \<Rightarrow> Some (of_nat (duration_ms div 1000))
      | None \<Rightarrow> map_option (\<lambda>started_at.
          of_int (i64_sat_sub (case job_ended_at job of None \<Rightarrow> now | Some t \<Rightarrow> t) started_at)) (job_started_at job))"

definition job_result :: "ShellJobRecord \<Rightarrow> RunnerShellJobResult option" where
  "job_result job =
     (if is_terminal (job_lifecycle job)
      then Some \<lparr>res_cwd = job_cwd job, res_command_preview = job_command_preview job, res_exit_code = job_exit_code job,
        res_duration_ms = job_duration_ms job, res_error = job_error job\<rparr>
      else None)"

definition job_view :: "rstr \<Rightarrow> int \<Rightarrow> ShellJobRecord \<Rightarrow> ShellJobInfo" where
  "job_view epoch now job =
     \<lparr>view_job_id = job_id job, view_request_id = job_request_id job, view_client_id = job_client_id job,
      view_kind = job_kind job, view_project_id = job_project_id job, view_session_id = job_session_id job,
      view_ssh_resource = job_ssh_resource job, view_cwd = job_cwd job, view_project_cwd = job_project_cwd job,
      view_purpose = job_purpose job, view_shell = job_shell job, view_command_preview = job_command_preview job,
      view_status = public_status job, view_created_at = job_created_at job, view_started_at = job_started_at job,
      view_ended_at = job_ended_at job, view_exit_code = job_exit_code job, view_duration_ms = job_duration_ms job,
      view_elapsed_secs = elapsed_secs now job, view_error = job_error job,
      view_command_execution_state = job_command_execution_state job,
      view_structured_execution = job_structured_execution job, view_result = job_result job,
      view_validation_progress = job_validation_progress job, view_activity = job_activity job,
      view_validation = job_validation job, view_recovery_state = public_state (job_recovery job),
      view_recovered_after_server_restart = rec_recovered_after_server_restart (job_recovery job),
      view_reconciled_at = rec_reconciled_at (job_recovery job),
      view_recovery_reason_code = public_reason (job_recovery job),
      view_observation_token = token_text (new_legacy (job_id job) epoch (obs_revision (job_observation job))),
      view_last_update_seq = Some (job_last_update_seq job),
      view_stdout_retained_from_line = Some (log_first_retained_line (job_stdout job)),
      view_stderr_retained_from_line = Some (log_first_retained_line (job_stderr job)),
      view_stdout_log_truncated = log_truncated (job_stdout job),
      view_stderr_log_truncated = log_truncated (job_stderr job)\<rparr>"

section \<open>Frozen log projections\<close>

datatype JobLogWaitOutcome = Immediate | Updated | TerminalOutcome | TimeoutOutcome

primrec JobLogWaitOutcome_as_str :: "JobLogWaitOutcome \<Rightarrow> rstr" where
  "JobLogWaitOutcome_as_str Immediate = lit ''immediate''"
| "JobLogWaitOutcome_as_str Updated = lit ''updated''"
| "JobLogWaitOutcome_as_str TerminalOutcome = lit ''terminal''"
| "JobLogWaitOutcome_as_str TimeoutOutcome = lit ''timeout''"

record JobLogWait =
  wait_outcome :: JobLogWaitOutcome
  wait_waited_ms :: nat
  wait_changed :: bool
  wait_terminal :: bool

record ShellJobLogObservation =
  lobs_wait :: JobLogWait
  lobs_delta_status :: JobLogDeltaStatus
  lobs_stdout_delta_reset :: bool
  lobs_stderr_delta_reset :: bool
  lobs_stdout_truncated :: bool
  lobs_stderr_truncated :: bool
  lobs_stdout_returned_lines :: nat
  lobs_stderr_returned_lines :: nat
  lobs_analysis_stdout :: rstr
  lobs_analysis_stderr :: rstr
  lobs_analysis_truncated :: bool

text \<open>The selected text of both streams, the lines after them, and what accompanies them.\<close>

record ShellJobLog =
  jlog_view :: ShellJobInfo
  jlog_stdout :: "rstr option"
  jlog_stderr :: "rstr option"
  jlog_next_stdout_line :: nat
  jlog_next_stderr_line :: nat
  jlog_observation :: ShellJobLogObservation

definition text_or_empty :: "rstr option \<Rightarrow> rstr" where
  "text_or_empty v = (case v of None \<Rightarrow> [] | Some s \<Rightarrow> s)"

definition analysis_truncated :: "ShellJobRecord \<Rightarrow> bool" where
  "analysis_truncated job \<longleftrightarrow> snd (snd (snd (select_log_lines (job_stdout job) None None)))
     \<or> snd (snd (snd (select_log_lines (job_stderr job) None None)))
     \<or> 1 < log_first_retained_line (job_stdout job) \<or> 1 < log_first_retained_line (job_stderr job)"

definition analysis_text :: "ShellJobLogState \<Rightarrow> rstr" where
  "analysis_text log = text_or_empty (fst (select_log_lines log None None))"

text \<open>A page that the caller asked for by line numbers.\<close>

definition paged_projection ::
    "rstr \<Rightarrow> int \<Rightarrow> ShellJobRecord \<Rightarrow> nat option \<Rightarrow> nat option \<Rightarrow> nat option \<Rightarrow> JobLogWait \<Rightarrow> ShellJobLog" where
  "paged_projection epoch now job since_stdout_line since_stderr_line tail_lines wait =
     (let (stdout, next_stdout, _, stdout_truncated) = select_log_lines (job_stdout job) since_stdout_line tail_lines;
          (stderr, next_stderr, _, stderr_truncated) = select_log_lines (job_stderr job) since_stderr_line tail_lines
      in \<lparr>jlog_view = (job_view epoch now job)\<lparr>view_observation_token :=
            token_text (new_legacy (job_id job) epoch (obs_revision (job_observation job)))\<rparr>,
          jlog_stdout = stdout, jlog_stderr = stderr,
          jlog_next_stdout_line = next_stdout, jlog_next_stderr_line = next_stderr,
          jlog_observation = \<lparr>lobs_wait = wait, lobs_delta_status = BaselineStatus,
            lobs_stdout_delta_reset = False, lobs_stderr_delta_reset = False,
            lobs_stdout_truncated = stdout_truncated, lobs_stderr_truncated = stderr_truncated,
            lobs_stdout_returned_lines = length (str_lines (text_or_empty stdout)),
            lobs_stderr_returned_lines = length (str_lines (text_or_empty stderr)),
            lobs_analysis_stdout = analysis_text (job_stdout job), lobs_analysis_stderr = analysis_text (job_stderr job),
            lobs_analysis_truncated = analysis_truncated job\<rparr>\<rparr>)"

text \<open>The mode of one stream; \<open>None\<close> is the panic of \<open>expect\<close> on a token without that cursor.\<close>

definition selection_mode ::
    "rstr \<Rightarrow> JobObservationToken option \<Rightarrow> (JobObservationToken \<Rightarrow> 64 word option) \<Rightarrow> JobLogSelectionMode option" where
  "selection_mode epoch after cursor =
     (case after of
        None \<Rightarrow> Some Baseline
      | Some token \<Rightarrow>
          if is_legacy token \<or> tok_epoch token \<noteq> epoch then Some Reset
          else map_option Delta (cursor token))"

definition stream_projection :: "ShellJobLogState \<Rightarrow> nat option \<Rightarrow> JobLogSelectionMode \<Rightarrow> JobLogStreamProjection" where
  "stream_projection log tail_lines mode =
     project_log_stream (log_tail log) (log_first_retained_line log) (log_next_line log) (log_truncated log)
       tail_lines mode True"

definition automatic_projection ::
    "rstr \<Rightarrow> int \<Rightarrow> ShellJobRecord \<Rightarrow> nat option \<Rightarrow> JobLogWait \<Rightarrow> JobLogSelectionMode \<Rightarrow> JobLogSelectionMode \<Rightarrow> ShellJobLog" where
  "automatic_projection epoch now job tail_lines wait base_mode stderr_mode =
     (let stdout = stream_projection (job_stdout job) tail_lines base_mode;
          stderr = stream_projection (job_stderr job) tail_lines stderr_mode
      in \<lparr>jlog_view = (job_view epoch now job)\<lparr>view_observation_token :=
            token_text (new_token (job_id job) epoch (obs_revision (job_observation job))
              (of_nat (proj_next_line stdout)) (of_nat (proj_next_line stderr)))\<rparr>,
          jlog_stdout = Some (proj_text stdout), jlog_stderr = Some (proj_text stderr),
          jlog_next_stdout_line = proj_next_line stdout, jlog_next_stderr_line = proj_next_line stderr,
          jlog_observation = \<lparr>lobs_wait = wait, lobs_delta_status = combined_delta_status base_mode stdout stderr,
            lobs_stdout_delta_reset = proj_delta_reset stdout, lobs_stderr_delta_reset = proj_delta_reset stderr,
            lobs_stdout_truncated = proj_truncated stdout, lobs_stderr_truncated = proj_truncated stderr,
            lobs_stdout_returned_lines = proj_returned_lines stdout, lobs_stderr_returned_lines = proj_returned_lines stderr,
            lobs_analysis_stdout = analysis_text (job_stdout job), lobs_analysis_stderr = analysis_text (job_stderr job),
            lobs_analysis_truncated = analysis_truncated job\<rparr>\<rparr>)"

definition frozen_shell_job_log_projection ::
    "rstr \<Rightarrow> int \<Rightarrow> ShellJobRecord \<Rightarrow> JobObservationToken option \<Rightarrow> nat option \<Rightarrow> nat option \<Rightarrow> nat option \<Rightarrow> JobLogWait
       \<Rightarrow> ShellJobLog option" where
  "frozen_shell_job_log_projection epoch now job after since_stdout_line since_stderr_line tail_lines wait =
     (if since_stdout_line \<noteq> None \<or> since_stderr_line \<noteq> None
      then Some (paged_projection epoch now job since_stdout_line since_stderr_line tail_lines wait)
      else (case (selection_mode epoch after tok_stdout_cursor, selection_mode epoch after tok_stderr_cursor) of
          (Some base_mode, Some stderr_mode) \<Rightarrow>
            Some (automatic_projection epoch now job tail_lines wait base_mode stderr_mode)
        | _ \<Rightarrow> None))"

section \<open>Lookups and lists\<close>

text \<open>The readings of the clock in one call: the configured recovery grace period, and for each Job the time that its
  refresh checks, the one it records, and the ones that the visibility check and the view read.\<close>

record Clock =
  clk_grace :: int
  clk_guard :: "rstr \<Rightarrow> int"
  clk_recorded :: "rstr \<Rightarrow> int"
  clk_visible :: "rstr \<Rightarrow> int"
  clk_view :: "rstr \<Rightarrow> int"

definition refresh_job :: "Clock \<Rightarrow> rstr \<Rightarrow> RunnerRegistryInner \<Rightarrow> RunnerRegistryInner" where
  "refresh_job clk jid inner = refresh_job_status_locked (clk_grace clk) (clk_guard clk jid) (clk_recorded clk jid) inner jid"

definition refresh_all :: "ReconcileEnv \<Rightarrow> Clock \<Rightarrow> RunnerRegistryInner \<Rightarrow> RunnerRegistryInner" where
  "refresh_all env clk inner = fold (refresh_job clk) (env_jobs_order env (reg_jobs_by_id inner)) inner"

definition job_values :: "ReconcileEnv \<Rightarrow> RunnerRegistryInner \<Rightarrow> ShellJobRecord list" where
  "job_values env inner = List.map_filter (reg_jobs_by_id inner) (env_jobs_order env (reg_jobs_by_id inner))"

definition unknown_shell_job :: "rstr \<Rightarrow> rstr" where
  "unknown_shell_job jid = lit ''unknown shell job: '' @ jid"

definition public_visible :: "Clock \<Rightarrow> RunnerAccess option \<Rightarrow> ShellJobRecord \<Rightarrow> bool" where
  "public_visible clk auth job \<longleftrightarrow> job_visibility job = Public \<and> job_visible_to_access (clk_visible clk (job_id job)) auth job"

text \<open>The Job that a caller may see under an id.\<close>

definition public_job :: "Clock \<Rightarrow> RunnerAccess option \<Rightarrow> rstr \<Rightarrow> RunnerRegistryInner \<Rightarrow> rstr + ShellJobRecord" where
  "public_job clk auth jid inner =
     (case reg_jobs_by_id inner jid of
        None \<Rightarrow> Inl (unknown_shell_job jid)
      | Some job \<Rightarrow> if public_visible clk auth job then Inr job else Inl (unknown_shell_job jid))"

definition newest_first :: "ShellJobRecord list \<Rightarrow> ShellJobRecord list" where
  "newest_first jobs = sort_key (\<lambda>job. - job_created_at job) jobs"

definition page_limit :: "nat option \<Rightarrow> nat" where
  "page_limit limit = max 1 (min 100 (case limit of None \<Rightarrow> 20 | Some n \<Rightarrow> n))"

definition get_job_for_auth ::
    "rstr \<Rightarrow> Clock \<Rightarrow> RunnerAccess option \<Rightarrow> rstr \<Rightarrow> RunnerRegistryInner \<Rightarrow> RunnerRegistryInner \<times> (rstr + ShellJobInfo)" where
  "get_job_for_auth epoch clk auth jid inner =
     (case validate_id jid (lit ''job_id'') of
        Inl e \<Rightarrow> (inner, Inl e)
      | Inr _ \<Rightarrow>
          let inner' = refresh_job clk jid inner in
          (inner', case public_job clk auth jid inner' of
             Inl e \<Rightarrow> Inl e | Inr job \<Rightarrow> Inr (job_view epoch (clk_view clk jid) job)))"

definition get_hidden_job_for_auth ::
    "rstr \<Rightarrow> Clock \<Rightarrow> RunnerAccess option \<Rightarrow> rstr \<Rightarrow> RunnerRegistryInner \<Rightarrow> RunnerRegistryInner \<times> (rstr + ShellJobInfo)" where
  "get_hidden_job_for_auth epoch clk auth jid inner =
     (case validate_id jid (lit ''job_id'') of
        Inl e \<Rightarrow> (inner, Inl e)
      | Inr _ \<Rightarrow>
          let inner' = refresh_job clk jid inner in
          (inner', case reg_jobs_by_id inner' jid of
             None \<Rightarrow> Inl (unknown_shell_job jid)
           | Some job \<Rightarrow> if job_visible_to_access (clk_visible clk jid) auth job
               then Inr (job_view epoch (clk_view clk jid) job) else Inl (unknown_shell_job jid)))"

definition hidden_job_log_for_auth ::
    "rstr \<Rightarrow> Clock \<Rightarrow> RunnerAccess option \<Rightarrow> rstr \<Rightarrow> nat option \<Rightarrow> RunnerRegistryInner
       \<Rightarrow> RunnerRegistryInner \<times> (rstr + ShellJobInfo \<times> rstr option \<times> rstr option \<times> nat \<times> nat)" where
  "hidden_job_log_for_auth epoch clk auth jid tail_lines inner =
     (case validate_id jid (lit ''job_id'') of
        Inl e \<Rightarrow> (inner, Inl e)
      | Inr _ \<Rightarrow>
          let inner' = refresh_job clk jid inner in
          (inner', case reg_jobs_by_id inner' jid of
             None \<Rightarrow> Inl (unknown_shell_job jid)
           | Some job \<Rightarrow>
               if job_visible_to_access (clk_visible clk jid) auth job
               then let (stdout, next_stdout, _, _) = select_log_lines (job_stdout job) None tail_lines;
                        (stderr, next_stderr, _, _) = select_log_lines (job_stderr job) None tail_lines
                    in Inr (job_view epoch (clk_view clk jid) job, stdout, stderr, next_stdout, next_stderr)
               else Inl (unknown_shell_job jid)))"

definition visible_job_records_for_auth ::
    "ReconcileEnv \<Rightarrow> Clock \<Rightarrow> RunnerAccess option \<Rightarrow> RunnerRegistryInner \<Rightarrow> RunnerRegistryInner \<times> ShellJobRecord list" where
  "visible_job_records_for_auth env clk auth inner =
     (let inner' = refresh_all env clk inner
      in (inner', newest_first (filter (public_visible clk auth) (job_values env inner'))))"

definition job_views :: "rstr \<Rightarrow> Clock \<Rightarrow> ShellJobRecord list \<Rightarrow> ShellJobInfo list" where
  "job_views epoch clk jobs = map (\<lambda>job. job_view epoch (clk_view clk (job_id job)) job) jobs"

definition list_jobs_for_auth ::
    "ReconcileEnv \<Rightarrow> rstr \<Rightarrow> Clock \<Rightarrow> RunnerAccess option \<Rightarrow> nat option \<Rightarrow> RunnerRegistryInner
       \<Rightarrow> RunnerRegistryInner \<times> ShellJobInfo list" where
  "list_jobs_for_auth env epoch clk auth limit inner =
     (let (inner', jobs) = visible_job_records_for_auth env clk auth inner
      in (inner', job_views epoch clk (take (page_limit limit) jobs)))"

definition list_all_jobs_for_auth ::
    "ReconcileEnv \<Rightarrow> rstr \<Rightarrow> Clock \<Rightarrow> RunnerAccess option \<Rightarrow> RunnerRegistryInner \<Rightarrow> RunnerRegistryInner \<times> ShellJobInfo list" where
  "list_all_jobs_for_auth env epoch clk auth inner =
     (let (inner', jobs) = visible_job_records_for_auth env clk auth inner in (inner', job_views epoch clk jobs))"

definition static_filter :: "rstr option \<Rightarrow> rstr option \<Rightarrow> ShellJobRecord \<Rightarrow> bool" where
  "static_filter project_id session_id job \<longleftrightarrow>
     opt_all (\<lambda>p. job_project_id job = Some p) project_id \<and> opt_all (\<lambda>s. job_session_id job = Some s) session_id"

text \<open>Only the Jobs that pass the filters are refreshed. The two visibility checks read the clock at different times.\<close>

definition list_jobs_for_auth_filtered ::
    "ReconcileEnv \<Rightarrow> rstr \<Rightarrow> Clock \<Rightarrow> Clock \<Rightarrow> RunnerAccess option \<Rightarrow> rstr option \<Rightarrow> rstr option \<Rightarrow> RunnerRegistryInner
       \<Rightarrow> RunnerRegistryInner \<times> ShellJobInfo list" where
  "list_jobs_for_auth_filtered env epoch clk0 clk auth project_id session_id inner =
     (let wanted = (\<lambda>c job. public_visible c auth job \<and> static_filter project_id session_id job);
          candidate_ids = map job_id (filter (wanted clk0) (job_values env inner));
          inner' = fold (refresh_job clk) candidate_ids inner
      in (inner', job_views epoch clk (newest_first (filter (wanted clk) (job_values env inner')))))"

definition count_active_jobs_for_projects ::
    "ReconcileEnv \<Rightarrow> Clock \<Rightarrow> RunnerAccess option \<Rightarrow> rstr list \<Rightarrow> RunnerRegistryInner
       \<Rightarrow> RunnerRegistryInner \<times> (rstr \<rightharpoonup> nat)" where
  "count_active_jobs_for_projects env clk auth runtime_project_ids inner =
     (let counts = (\<lambda>p. if p \<in> set runtime_project_ids then Some (0 :: nat) else None) in
      if runtime_project_ids = [] then (inner, counts)
      else
        let inner' = refresh_all env clk inner;
            active = filter (\<lambda>job. job_visibility job = Public \<and> is_active (job_lifecycle job)
              \<and> job_visible_to_access (clk_visible clk (job_id job)) auth job) (job_values env inner')
        in (inner', fold (\<lambda>job counts. case job_project_id job of
              None \<Rightarrow> counts
            | Some p \<Rightarrow> (case counts p of None \<Rightarrow> counts | Some n \<Rightarrow> counts(p \<mapsto> n + 1))) active counts))"

definition count_active_jobs_for_project ::
    "ReconcileEnv \<Rightarrow> Clock \<Rightarrow> RunnerAccess option \<Rightarrow> rstr \<Rightarrow> RunnerRegistryInner \<Rightarrow> RunnerRegistryInner \<times> nat" where
  "count_active_jobs_for_project env clk auth runtime_project_id inner =
     (let (inner', counts) = count_active_jobs_for_projects env clk auth [runtime_project_id] inner
      in (inner', case counts runtime_project_id of None \<Rightarrow> 0 | Some n \<Rightarrow> n))"

definition list_jobs_for_runner ::
    "ReconcileEnv \<Rightarrow> rstr \<Rightarrow> Clock \<Rightarrow> rstr \<Rightarrow> rstr option \<Rightarrow> nat option \<Rightarrow> RunnerRegistryInner
       \<Rightarrow> RunnerRegistryInner \<times> (rstr + ShellJobInfo list)" where
  "list_jobs_for_runner env epoch clk client_id status limit inner =
     (case validate_id client_id (lit ''client_id'') of
        Inl e \<Rightarrow> (inner, Inl e)
      | Inr _ \<Rightarrow>
          if reg_runners inner client_id = None then (inner, Inl (lit ''unknown shell client: '' @ client_id))
          else
            let inner' = refresh_all env clk inner;
                jobs = filter (\<lambda>job. job_client_id job = client_id \<and> opt_all (\<lambda>s. s = public_status job) status)
                  (job_values env inner')
            in (inner', Inr (job_views epoch clk (take (page_limit limit) (newest_first jobs)))))"

section \<open>The bounded wait\<close>

text \<open>One turn of the wait loop of \<open>job_log_for_auth\<close>. Other tasks run whenever the lock is free, so the turn
  takes the registries that are found when the lock is taken again: before the wait (\<open>round_recheck\<close>) and after it
  (\<open>round_after\<close>), with the clocks of the refreshes, whether the deadline came first, and the milliseconds that passed.\<close>

record WaitRound =
  round_recheck :: RunnerRegistryInner
  round_recheck_clock :: Clock
  round_timed_out :: bool
  round_elapsed_ms :: nat
  round_after :: RunnerRegistryInner
  round_after_clock :: Clock

record LogRequest =
  req_epoch :: rstr
  req_auth :: "RunnerAccess option"
  req_job_id :: rstr
  req_since_stdout_line :: "nat option"
  req_since_stderr_line :: "nat option"
  req_tail_lines :: "nat option"
  req_after :: "JobObservationToken option"
  req_wait :: bool

text \<open>\<open>Panicked\<close> is the panic of the projection, \<open>StillWaiting\<close> the loop when no more turns are given.\<close>

datatype log_answer = Answer ShellJobLog | Refused rstr | Panicked | StillWaiting

definition token_changed :: "LogRequest \<Rightarrow> ShellJobRecord \<Rightarrow> bool" where
  "token_changed req job \<longleftrightarrow> opt_ex (\<lambda>token. tok_epoch token \<noteq> req_epoch req
     \<or> tok_revision token \<noteq> obs_revision (job_observation job)) (req_after req)"

definition answer_with :: "LogRequest \<Rightarrow> Clock \<Rightarrow> ShellJobRecord \<Rightarrow> JobLogWaitOutcome \<Rightarrow> nat \<Rightarrow> log_answer" where
  "answer_with req clk job outcome waited_ms =
     (case frozen_shell_job_log_projection (req_epoch req) (clk_view clk (req_job_id req)) job (req_after req)
         (req_since_stdout_line req) (req_since_stderr_line req) (req_tail_lines req)
         \<lparr>wait_outcome = outcome, wait_waited_ms = waited_ms, wait_changed = token_changed req job,
          wait_terminal = is_terminal (job_lifecycle job)\<rparr> of
        None \<Rightarrow> Panicked | Some log \<Rightarrow> Answer log)"

text \<open>What the head of the loop, the check before the wait and the check after a deadline answer, if they do.\<close>

definition head_outcome :: "LogRequest \<Rightarrow> bool \<Rightarrow> ShellJobRecord \<Rightarrow> JobLogWaitOutcome option" where
  "head_outcome req waited job =
     (let changed = token_changed req job; terminal = is_terminal (job_lifecycle job) in
      if \<not> req_wait req \<or> req_after req = None \<or> changed \<or> terminal
      then Some (if changed then (if waited then Updated else Immediate)
                 else if terminal then TerminalOutcome else Immediate)
      else None)"

definition recheck_outcome :: "LogRequest \<Rightarrow> ShellJobRecord \<Rightarrow> JobLogWaitOutcome option" where
  "recheck_outcome req job =
     (let terminal = is_terminal (job_lifecycle job) in
      if token_changed req job \<or> terminal then Some (if terminal then TerminalOutcome else Updated) else None)"

definition deadline_outcome :: "LogRequest \<Rightarrow> ShellJobRecord \<Rightarrow> JobLogWaitOutcome" where
  "deadline_outcome req job =
     (if is_terminal (job_lifecycle job) then TerminalOutcome else if token_changed req job then Updated else TimeoutOutcome)"

fun log_wait_loop ::
    "LogRequest \<Rightarrow> bool \<Rightarrow> nat \<Rightarrow> Clock \<Rightarrow> RunnerRegistryInner \<Rightarrow> WaitRound list \<Rightarrow> log_answer" where
  "log_wait_loop req waited waited_ms clk inner rounds =
     (case public_job clk (req_auth req) (req_job_id req) inner of
        Inl e \<Rightarrow> Refused e
      | Inr job \<Rightarrow>
          (case head_outcome req waited job of
             Some outcome \<Rightarrow> answer_with req clk job outcome waited_ms
           | None \<Rightarrow>
               (case rounds of
                  [] \<Rightarrow> StillWaiting
                | r # rounds' \<Rightarrow>
                    let recheck = refresh_job (round_recheck_clock r) (req_job_id req) (round_recheck r) in
                    (case public_job (round_recheck_clock r) (req_auth req) (req_job_id req) recheck of
                       Inl e \<Rightarrow> Refused e
                     | Inr job1 \<Rightarrow>
                         (case recheck_outcome req job1 of
                            Some outcome \<Rightarrow> answer_with req (round_recheck_clock r) job1 outcome waited_ms
                          | None \<Rightarrow>
                              let waited_ms' = sat_add waited_ms (round_elapsed_ms r);
                                  inner' = refresh_job (round_after_clock r) (req_job_id req) (round_after r)
                              in if round_timed_out r
                                 then (case public_job (round_after_clock r) (req_auth req) (req_job_id req) inner' of
                                     Inl e \<Rightarrow> Refused e
                                   | Inr job2 \<Rightarrow>
                                       answer_with req (round_after_clock r) job2 (deadline_outcome req job2) waited_ms')
                                 else log_wait_loop req True waited_ms' (round_after_clock r) inner' rounds')))))"

text \<open>The token of the request is read first; the text of its error is the one of the decoder.\<close>

definition job_log_for_auth ::
    "rstr \<Rightarrow> Clock \<Rightarrow> RunnerAccess option \<Rightarrow> rstr \<Rightarrow> nat option \<Rightarrow> nat option \<Rightarrow> nat option \<Rightarrow> rstr option \<Rightarrow> bool
       \<Rightarrow> RunnerRegistryInner \<Rightarrow> WaitRound list \<Rightarrow> log_answer" where
  "job_log_for_auth epoch clk auth jid since_stdout_line since_stderr_line tail_lines after_observation_token wait inner rounds =
     (let req = (\<lambda>after. \<lparr>req_epoch = epoch, req_auth = auth, req_job_id = jid, req_since_stdout_line = since_stdout_line,
            req_since_stderr_line = since_stderr_line, req_tail_lines = tail_lines, req_after = after, req_wait = wait\<rparr>);
          start = (\<lambda>after. log_wait_loop (req after) False 0 clk (refresh_job clk jid inner) rounds)
      in case validate_id jid (lit ''job_id'') of
        Inl e \<Rightarrow> Refused e
      | Inr _ \<Rightarrow>
          (case after_observation_token of
             None \<Rightarrow> start None
           | Some v \<Rightarrow>
               (case parse_bound v jid of
                  None \<Rightarrow> Panicked
                | Some (Inl e) \<Rightarrow> Refused (JobObservationTokenError_display e)
                | Some (Inr token) \<Rightarrow> start (Some token))))"

declare log_wait_loop.simps [simp del]

section \<open>Tokens continue a log\<close>

lemma token_text_total: "token_text (build j e r so se) = None \<longleftrightarrow> (\<exists>err. build j e r so se = Some (Inl err))"
  using build_total [of j e r so se] build_Some_Inr [of j e r so se]
  by (auto simp: token_text_def split: option.splits sum.splits)

lemma token_text_Some:
  assumes "token_text (build j e r so se) = Some v"
  obtains t where "build j e r so se = Some (Inr t)" "encode t = Some v" "valid_token t"
    "t = \<lparr>tok_job_id = j, tok_epoch = e, tok_revision = r, tok_stdout_cursor = so, tok_stderr_cursor = se\<rparr>"
proof -
  from assms obtain t where t: "build j e r so se = Some (Inr t)" "encode t = Some v"
    by (auto simp: token_text_def split: option.splits sum.splits)
  moreover have "t = \<lparr>tok_job_id = j, tok_epoch = e, tok_revision = r, tok_stdout_cursor = so, tok_stderr_cursor = se\<rparr>"
    using t(1) by (auto simp: build_def Let_def split: if_splits sum.splits)
  ultimately show thesis using build_valid that by blast
qed

lemma preserve_newline:
  "proj_text (project_log_stream t f n st tb mode True) = with_newline (proj_text (project_log_stream t f n st tb mode False))"
  "proj_delta_reset (project_log_stream t f n st tb mode True) = proj_delta_reset (project_log_stream t f n st tb mode False)"
  by (simp_all add: project_log_stream_def Let_def case_prod_unfold with_newline_def)

text \<open>A stored stream holds the lines from number \<open>first\<close> on of a log with the complete lines \<open>ls\<close> and a last line
  that may still grow.\<close>

definition shows_log :: "ShellJobLogState \<Rightarrow> nat \<Rightarrow> rstr list \<Rightarrow> rstr \<Rightarrow> bool" where
  "shows_log log first ls partial \<longleftrightarrow> log_tail log = retained first ls partial \<and> log_first_retained_line log = first
     \<and> log_next_line log = length (visible_lines ls partial) + 1 \<and> list_all log_line ls \<and> LF \<notin> set partial
     \<and> 1 \<le> first \<and> first \<le> length ls + 1 \<and> length ls + 2 \<le> usize_max"

lemma stream_projection_next:
  "shows_log log first ls partial \<Longrightarrow> proj_next_line (stream_projection log tail_lines mode) = length ls + 1"
  unfolding stream_projection_def shows_log_def using project_snapshot(3) [of ls partial first] by force

lemma stream_projection_delta:
  assumes "shows_log log first ls partial" "n \<le> length ls"
  shows "proj_delta_reset (stream_projection log None (Delta (of_nat (n + 1)))) \<longleftrightarrow> n + 1 < first"
    "first \<le> n + 1 \<Longrightarrow> proj_text (stream_projection log None (Delta (of_nat (n + 1))))
       = with_newline (join [LF] (drop n (visible_lines ls partial)))"
proof -
  have log: "log_tail log = retained first ls partial" "log_first_retained_line log = first"
    "log_next_line log = length (visible_lines ls partial) + 1"
    and ok: "list_all log_line ls" "LF \<notin> set partial" "1 \<le> first" "first \<le> length ls + 1" "length ls + 2 \<le> usize_max"
    using assms(1) by (auto simp: shows_log_def)
  have w: "unat (of_nat (n + 1) :: 64 word) = n + 1" using ok(5) assms(2) by (intro unat_cursor) simp
  note d = project_delta [OF ok assms(2) w]
  show "proj_delta_reset (stream_projection log None (Delta (of_nat (n + 1)))) \<longleftrightarrow> n + 1 < first"
    unfolding stream_projection_def log preserve_newline(2) by (rule d(1))
  show "proj_text (stream_projection log None (Delta (of_nat (n + 1))))
       = with_newline (join [LF] (drop n (visible_lines ls partial)))" if "first \<le> n + 1"
    unfolding stream_projection_def log preserve_newline(1) d(2) [OF that] by (rule refl)
qed

text \<open>A projection without line numbers returns the token of its streams.\<close>

lemma projection_token:
  assumes "frozen_shell_job_log_projection epoch now job after None None tail_lines wait = Some log"
    "view_observation_token (jlog_view log) = Some v"
    "shows_log (job_stdout job) f1 out p1" "shows_log (job_stderr job) g1 err q1"
  shows "parse_bound v (job_id job) = Some (Inr \<lparr>tok_job_id = job_id job, tok_epoch = epoch,
      tok_revision = obs_revision (job_observation job), tok_stdout_cursor = Some (of_nat (length out + 1)),
      tok_stderr_cursor = Some (of_nat (length err + 1))\<rparr>)"
proof -
  from assms(1) obtain m n where "log = automatic_projection epoch now job tail_lines wait m n"
    by (auto simp: frozen_shell_job_log_projection_def split: option.splits)
  with assms(2) have "token_text (build (job_id job) epoch (obs_revision (job_observation job))
      (Some (of_nat (length out + 1))) (Some (of_nat (length err + 1)))) = Some v"
    using stream_projection_next [OF assms(3)] stream_projection_next [OF assms(4)]
    by (simp add: automatic_projection_def Let_def new_token_def)
  then show ?thesis by (rule token_text_Some) (simp add: parse_bound_def parse_encode)
qed


definition log_of :: "rstr list \<Rightarrow> rstr \<Rightarrow> ShellJobLogState" where
  "log_of ls partial = \<lparr>log_tail = log_text ls partial, log_first_retained_line = 1,
     log_next_line = length (visible_lines ls partial) + 1, log_truncated = False\<rparr>"

lemma shows_log_of: "list_all log_line ls \<Longrightarrow> LF \<notin> set partial \<Longrightarrow> length ls + 2 \<le> usize_max \<Longrightarrow> shows_log (log_of ls partial) 1 ls partial"
  by (simp add: shows_log_def log_of_def retained_def)

definition sample_wait :: JobLogWait where
  "sample_wait = \<lparr>wait_outcome = Immediate, wait_waited_ms = 0, wait_changed = False, wait_terminal = False\<rparr>"

lemma sample_token: "token_text (new_token (lit ''job-1'') (lit ''e'') 0 2 1) = Some (lit ''wj2a:job-1:e:0:2:1'')"
  by code_simp


section \<open>Waits end with a true outcome\<close>

text \<open>What an outcome says of the observed Job.\<close>

definition outcome_sound :: "JobLogWait \<Rightarrow> bool" where
  "outcome_sound w \<longleftrightarrow> (case wait_outcome w of
       Immediate \<Rightarrow> wait_waited_ms w = 0
     | Updated \<Rightarrow> wait_changed w
     | TerminalOutcome \<Rightarrow> wait_terminal w
     | TimeoutOutcome \<Rightarrow> \<not> wait_changed w \<and> \<not> wait_terminal w)"

definition token_cursors_ok :: "LogRequest \<Rightarrow> bool" where
  "token_cursors_ok req \<longleftrightarrow> opt_all (\<lambda>t. (tok_stdout_cursor t = None) = (tok_stderr_cursor t = None)) (req_after req)"

lemma projection_total:
  assumes "opt_all (\<lambda>t. (tok_stdout_cursor t = None) = (tok_stderr_cursor t = None)) after"
  obtains log where "frozen_shell_job_log_projection epoch now job after ss se tail_lines wait = Some log"
    "lobs_wait (jlog_observation log) = wait"
proof -
  have "\<exists>log. frozen_shell_job_log_projection epoch now job after ss se tail_lines wait = Some log
      \<and> lobs_wait (jlog_observation log) = wait"
    using assms
    by (cases after) (auto simp: frozen_shell_job_log_projection_def selection_mode_def is_legacy_def paged_projection_def
        automatic_projection_def Let_def case_prod_unfold split: option.splits)
  then show thesis using that by blast
qed

lemma answer_with_Answer:
  assumes "token_cursors_ok req"
  obtains log where "answer_with req clk job outcome ms = Answer log"
    "lobs_wait (jlog_observation log) = \<lparr>wait_outcome = outcome, wait_waited_ms = ms, wait_changed = token_changed req job,
       wait_terminal = is_terminal (job_lifecycle job)\<rparr>"
  using projection_total [OF assms [unfolded token_cursors_ok_def]] that unfolding answer_with_def by (metis option.simps(5))

text \<open>A call that is over: an answer with a true outcome, or a refusal.\<close>

definition settles :: "log_answer \<Rightarrow> bool" where
  "settles a \<longleftrightarrow> (case a of Answer log \<Rightarrow> outcome_sound (lobs_wait (jlog_observation log))
     | Refused _ \<Rightarrow> True | Panicked \<Rightarrow> False | StillWaiting \<Rightarrow> False)"

lemma settles_Refused [simp]: "settles (Refused e)"
  by (simp add: settles_def)

lemma settles_answer:
  assumes "token_cursors_ok req"
    "outcome_sound \<lparr>wait_outcome = outcome, wait_waited_ms = ms, wait_changed = token_changed req job,
       wait_terminal = is_terminal (job_lifecycle job)\<rparr>"
  shows "settles (answer_with req clk job outcome ms)"
  using answer_with_Answer [OF assms(1), of clk job outcome ms] assms(2) by (force simp: settles_def)

lemma head_waits: "head_outcome req waited job = None \<Longrightarrow> req_wait req \<and> req_after req \<noteq> None"
  by (auto simp: head_outcome_def Let_def split: if_splits)

lemma settles_head:
  assumes "token_cursors_ok req" "head_outcome req waited job = Some outcome"
    "if waited then req_wait req \<and> req_after req \<noteq> None else ms = 0"
  shows "settles (answer_with req clk job outcome ms)"
  using assms by (intro settles_answer) (auto simp: head_outcome_def outcome_sound_def Let_def split: if_splits)

lemma settles_recheck:
  assumes "token_cursors_ok req" "recheck_outcome req job = Some outcome"
  shows "settles (answer_with req clk job outcome ms)"
  using assms by (intro settles_answer) (auto simp: recheck_outcome_def outcome_sound_def Let_def split: if_splits)

lemma settles_deadline:
  assumes "token_cursors_ok req"
  shows "settles (answer_with req clk job (deadline_outcome req job) ms)"
  using assms by (intro settles_answer) (auto simp: deadline_outcome_def outcome_sound_def)

lemma log_wait_loop_settles:
  assumes "token_cursors_ok req"
  shows "if waited then req_wait req \<and> req_after req \<noteq> None else ms = 0 \<Longrightarrow>
    settles (log_wait_loop req waited ms clk inner rounds)
    \<or> log_wait_loop req waited ms clk inner rounds = StillWaiting \<and> req_wait req \<and> \<not> list_ex round_timed_out rounds"
proof (induction rounds arbitrary: waited ms clk inner)
  case Nil
  show ?case
    using settles_head [OF assms _ Nil] head_waits [of req waited]
    by (auto simp: log_wait_loop.simps [of req waited] split: sum.splits option.splits)
next
  case (Cons r rounds)
  let ?clk = "round_recheck_clock r" and ?clk' = "round_after_clock r"
  let ?after = "refresh_job ?clk' (req_job_id req) (round_after r)" and ?ms = "sat_add ms (round_elapsed_ms r)"
  let ?job = "\<lambda>clk inner. public_job clk (req_auth req) (req_job_id req) inner"
  consider e where "?job clk inner = Inl e"
    | job outcome where "?job clk inner = Inr job" "head_outcome req waited job = Some outcome"
    | job e where "?job clk inner = Inr job" "head_outcome req waited job = None"
        "?job ?clk (refresh_job ?clk (req_job_id req) (round_recheck r)) = Inl e"
    | job job1 where "?job clk inner = Inr job" "head_outcome req waited job = None"
        "?job ?clk (refresh_job ?clk (req_job_id req) (round_recheck r)) = Inr job1"
    by (metis old.sum.exhaust option.exhaust)
  then show ?case
  proof cases
    case 1
    then show ?thesis by (simp add: log_wait_loop.simps [of req waited])
  next
    case 2
    with settles_head [OF assms 2(2) Cons.prems] show ?thesis by (simp add: log_wait_loop.simps [of req waited])
  next
    case 3
    then show ?thesis by (simp add: log_wait_loop.simps [of req waited])
  next
    case 4
    have w: "req_wait req \<and> req_after req \<noteq> None" by (rule head_waits [OF 4(2)])
    show ?thesis
    proof (cases "recheck_outcome req job1")
      case (Some outcome)
      with 4 settles_recheck [OF assms Some] show ?thesis by (simp add: log_wait_loop.simps [of req waited])
    next
      case None
      have loop: "log_wait_loop req waited ms clk inner (r # rounds) =
          (if round_timed_out r
           then (case ?job ?clk' ?after of Inl e \<Rightarrow> Refused e
               | Inr job2 \<Rightarrow> answer_with req ?clk' job2 (deadline_outcome req job2) ?ms)
           else log_wait_loop req True ?ms ?clk' ?after rounds)"
        using 4 None by (simp add: log_wait_loop.simps [of req waited])
      show ?thesis
      proof (cases "round_timed_out r")
        case True
        then show ?thesis unfolding loop by (auto intro: settles_deadline [OF assms] split: sum.splits)
      next
        case False
        then show ?thesis unfolding loop using Cons.IH [of True ?ms ?clk' ?after] w by simp
      qed
    qed
  qed
qed


text \<open>A Job that ends during the wait is announced as an update. The documentation of the outcomes says \<open>terminal\<close> for
  a Job that became terminal during the call, and \<open>updated\<close> for an update that is not terminal. But when the wait is
  woken because the Job ended, the head of the loop looks at the change first: the answer says \<open>updated\<close>, with the
  Job marked as ended.\<close>

theorem end_during_wait_is_reported_as_update:
  assumes "token_cursors_ok req" "\<not> round_timed_out r"
    "public_job clk (req_auth req) (req_job_id req) inner = Inr job" "head_outcome req False job = None"
    "public_job (round_recheck_clock r) (req_auth req) (req_job_id req)
       (refresh_job (round_recheck_clock r) (req_job_id req) (round_recheck r)) = Inr job1" "recheck_outcome req job1 = None"
    "public_job (round_after_clock r) (req_auth req) (req_job_id req)
       (refresh_job (round_after_clock r) (req_job_id req) (round_after r)) = Inr job2"
    "is_terminal (job_lifecycle job2)" "token_changed req job2"
  shows "\<exists>log. log_wait_loop req False 0 clk inner (r # rounds) = Answer log
    \<and> wait_outcome (lobs_wait (jlog_observation log)) = Updated \<and> wait_terminal (lobs_wait (jlog_observation log))"
proof -
  let ?clk = "round_after_clock r" and ?ms = "sat_add 0 (round_elapsed_ms r)"
  have "log_wait_loop req False 0 clk inner (r # rounds) = answer_with req ?clk job2 Updated ?ms"
    using assms by (simp add: log_wait_loop.simps [of req] head_outcome_def Let_def)
  with answer_with_Answer [OF assms(1), of ?clk job2 Updated ?ms] assms(8) show ?thesis by fastforce
qed

definition sample_clock :: Clock where
  "sample_clock = \<lparr>clk_grace = 120, clk_guard = (\<lambda>_. 21), clk_recorded = (\<lambda>_. 21), clk_visible = (\<lambda>_. 21), clk_view = (\<lambda>_. 21)\<rparr>"

definition sample_request :: LogRequest where
  "sample_request = \<lparr>req_epoch = lit ''e'', req_auth = None, req_job_id = lit ''job-1'', req_since_stdout_line = None,
     req_since_stderr_line = None, req_tail_lines = None,
     req_after = Some \<lparr>tok_job_id = lit ''job-1'', tok_epoch = lit ''e'', tok_revision = 0,
       tok_stdout_cursor = Some 1, tok_stderr_cursor = Some 1\<rparr>, req_wait = True\<rparr>"

definition ended_job :: ShellJobRecord where
  "ended_job = sample_job\<lparr>job_lifecycle := Completed,
     job_observation := (job_observation sample_job)\<lparr>obs_revision := 1\<rparr>\<rparr>"

definition sample_round :: WaitRound where
  "sample_round = \<lparr>round_recheck = sample_registry, round_recheck_clock = sample_clock, round_timed_out = False,
     round_elapsed_ms = 5, round_after = sample_registry\<lparr>reg_jobs_by_id := [lit ''job-1'' \<mapsto> ended_job]\<rparr>,
     round_after_clock = sample_clock\<rparr>"

lemma sample_refresh: "refresh_job sample_clock (lit ''job-1'') sample_registry = sample_registry"
  by (simp add: refresh_job_def refresh_job_status_locked_def sample_registry_def sample_clock_def sample_job_def
      recovery_active_def recovering_def runner_is_connected_locked_def i64_sat_sub_def i64_sat_def i64_max_def i64_min_def
      RUNNER_ONLINE_WINDOW_SECS_def is_terminal_def is_runner_active_def)

lemma sample_public_job: "public_job sample_clock None (lit ''job-1'') sample_registry = Inr sample_job"
  by (simp add: public_job_def public_visible_def sample_registry_def job_visible_to_access_def sample_job_def JobObservationState_new_def)


theorem end_during_wait_is_reported_as_update_witness:
  "\<exists>log. log_wait_loop sample_request False 0 sample_clock sample_registry [sample_round] = Answer log
    \<and> wait_outcome (lobs_wait (jlog_observation log)) = Updated \<and> wait_terminal (lobs_wait (jlog_observation log))"
proof (rule end_during_wait_is_reported_as_update)
  show "token_cursors_ok sample_request" by (simp add: token_cursors_ok_def sample_request_def)
  show "\<not> round_timed_out sample_round" by (simp add: sample_round_def)
  show "public_job sample_clock (req_auth sample_request) (req_job_id sample_request) sample_registry = Inr sample_job"
    by (simp add: sample_request_def sample_public_job)
  show "public_job (round_recheck_clock sample_round) (req_auth sample_request) (req_job_id sample_request)
      (refresh_job (round_recheck_clock sample_round) (req_job_id sample_request) (round_recheck sample_round)) = Inr sample_job"
    by (simp add: sample_request_def sample_round_def sample_refresh sample_public_job)
  show "head_outcome sample_request False sample_job = None" "recheck_outcome sample_request sample_job = None"
    by (simp_all add: head_outcome_def recheck_outcome_def token_changed_def sample_request_def sample_job_def
        JobObservationState_new_def is_terminal_def)
  show "public_job (round_after_clock sample_round) (req_auth sample_request) (req_job_id sample_request)
      (refresh_job (round_after_clock sample_round) (req_job_id sample_request) (round_after sample_round)) = Inr ended_job"
    by (simp add: sample_request_def sample_round_def refresh_job_def refresh_job_status_locked_def ended_job_def
        is_terminal_def public_job_def public_visible_def job_visible_to_access_def sample_job_def JobObservationState_new_def)
  show "is_terminal (job_lifecycle ended_job)" "token_changed sample_request ended_job"
    by (simp_all add: ended_job_def is_terminal_def token_changed_def sample_request_def)
qed

section \<open>Elapsed time\<close>

text \<open>The elapsed time of a running Job is right only if the clocks agree. It is the difference of the server's clock
  and the start time, which for a reconciled Job comes from the clock of the Runner; when the Runner is ahead, the negative
  difference is cast to an unsigned number, and the view shows almost two to the power of 64 seconds.\<close>

theorem elapsed_time_wraps_for_skewed_clocks:
  assumes "job_duration_ms job = None" "job_ended_at job = None" "job_started_at job = Some started"
    "0 \<le> now" "now < 2 ^ 63" "0 \<le> started" "started < 2 ^ 63"
  shows "map_option uint (view_elapsed_secs (job_view epoch now job))
    = Some (if started \<le> now then now - started else 2 ^ 64 - (started - now))"
proof -
  have s: "i64_sat_sub now started = now - started"
    using assms(4-7) by (simp add: i64_sat_sub_def i64_sat_def i64_max_def i64_min_def)
  have "uint (of_int (now - started) :: 64 word) = (now - started) mod 2 ^ 64"
    unfolding uint_word_of_int by simp
  also have "\<dots> = (if started \<le> now then now - started else 2 ^ 64 - (started - now))"
  proof (cases "started \<le> now")
    case False
    have "(now - started) mod 2 ^ 64 = (now - started + 2 ^ 64) mod 2 ^ 64" by simp
    also have "\<dots> = now - started + 2 ^ 64" using assms(4-7) False by (intro mod_pos_pos_trivial) auto
    finally show ?thesis using False by simp
  qed (use assms(4-7) in simp)
  finally show ?thesis using assms(1-3) s by (simp add: job_view_def elapsed_secs_def)
qed

theorem elapsed_time_wraps_for_skewed_clocks_witness:
  "map_option uint (view_elapsed_secs (job_view (lit ''e'') 4 sample_job)) = Some (2 ^ 64 - 6)"
  using elapsed_time_wraps_for_skewed_clocks [of sample_job 10 4] by (simp add: sample_job_def)

section \<open>Lists and counts agree\<close>

lemma set_job_values:
  assumes "sweepable env inner"
  shows "set (job_values env inner) = ran (reg_jobs_by_id inner)"
proof -
  have "set (env_jobs_order env (reg_jobs_by_id inner)) = dom (reg_jobs_by_id inner)" using assms iteratesD by blast
  then show ?thesis by (force simp: job_values_def map_filter_def ran_def)
qed

lemma finite_refresh_all:
  "finite (dom (reg_jobs_by_id inner)) \<Longrightarrow> finite (dom (reg_jobs_by_id (refresh_all env clk inner)))"
proof -
  have step: "finite (dom (reg_jobs_by_id inner)) \<Longrightarrow> finite (dom (reg_jobs_by_id (refresh_job clk jid inner)))" for inner jid
    by (auto simp: refresh_job_def refresh_job_status_locked_def put_job_def split: option.splits)
  have "finite (dom (reg_jobs_by_id inner)) \<Longrightarrow> finite (dom (reg_jobs_by_id (fold (refresh_job clk) xs inner)))" for xs
    by (induction xs arbitrary: inner) (auto simp: step)
  then show "finite (dom (reg_jobs_by_id inner)) \<Longrightarrow> ?thesis" by (simp add: refresh_all_def)
qed

lemma count_fold:
  "fold (\<lambda>job counts. case job_project_id job of
       None \<Rightarrow> counts | Some q \<Rightarrow> (case counts q of None \<Rightarrow> counts | Some n \<Rightarrow> counts(q \<mapsto> n + 1))) jobs counts p
   = map_option (\<lambda>n. n + length (filter (\<lambda>job. job_project_id job = Some p) jobs)) (counts p)"
  by (induction jobs arbitrary: counts) (auto split: option.splits simp: option.map_comp o_def option.map_ident)

lemma count_eq_records:
  "count_active_jobs_for_project env clk auth p inner =
     (let (inner', jobs) = visible_job_records_for_auth env clk auth inner
      in (inner', length (filter (\<lambda>job. job_project_id job = Some p \<and> is_active (job_lifecycle job)) jobs)))"
proof -
  have perm: "length (filter P (newest_first xs)) = length (filter P xs)" for P xs
    by (metis filter_sort length_sort newest_first_def)
  show ?thesis
    by (simp add: count_active_jobs_for_project_def count_active_jobs_for_projects_def visible_job_records_for_auth_def Let_def
        count_fold perm public_visible_def conj_ac)
qed

text \<open>Job lists are complete and agree with the counts. For any iteration order of the hash map, the complete list of a
  caller has exactly the views of the public Jobs that the caller may see after the refresh, newest first; a page of the
  list is a prefix of it with at most a hundred entries; and the number of active Jobs of a project is the number of its
  entries that have no result yet.\<close>

theorem job_lists_and_counts_agree:
  fixes clk :: Clock and auth :: "RunnerAccess option" and epoch :: rstr
  assumes "iterates env" "finite (dom (reg_jobs_by_id inner))"
  defines "inner' \<equiv> refresh_all env clk inner"
  defines "views \<equiv> snd (list_all_jobs_for_auth env epoch clk auth inner)"
  shows "set views = {job_view epoch (clk_view clk (job_id job)) job | job. job \<in> ran (reg_jobs_by_id inner') \<and> public_visible clk auth job}
    \<and> sorted_wrt (\<ge>) (map view_created_at views)
    \<and> snd (list_jobs_for_auth env epoch clk auth limit inner) = take (page_limit limit) views
    \<and> 1 \<le> page_limit limit \<and> page_limit limit \<le> 100
    \<and> snd (count_active_jobs_for_project env clk auth p inner)
        = length (filter (\<lambda>v. view_project_id v = Some p \<and> view_result v = None) views)"
proof (intro conjI)
  let ?jobs = "newest_first (filter (public_visible clk auth) (job_values env inner'))"
  have views: "views = job_views epoch clk ?jobs"
    by (simp add: views_def list_all_jobs_for_auth_def visible_job_records_for_auth_def inner'_def Let_def)
  have "finite (dom (reg_jobs_by_id inner'))" unfolding inner'_def using assms(2) by (rule finite_refresh_all)
  then have "set ?jobs = {job \<in> ran (reg_jobs_by_id inner'). public_visible clk auth job}"
    using set_job_values [of env inner'] assms(1) by (simp add: newest_first_def)
  then show "set views = {job_view epoch (clk_view clk (job_id job)) job | job.
      job \<in> ran (reg_jobs_by_id inner') \<and> public_visible clk auth job}"
    by (auto simp: views job_views_def)
  have "sorted (map (\<lambda>job. - job_created_at job) ?jobs)" by (simp add: newest_first_def)
  then show "sorted_wrt (\<ge>) (map view_created_at views)"
    by (simp add: views job_views_def sorted_wrt_map o_def job_view_def)
  show "snd (list_jobs_for_auth env epoch clk auth limit inner) = take (page_limit limit) views"
    by (simp add: views list_jobs_for_auth_def visible_job_records_for_auth_def inner'_def Let_def job_views_def take_map)
  show "snd (count_active_jobs_for_project env clk auth p inner)
      = length (filter (\<lambda>v. view_project_id v = Some p \<and> view_result v = None) views)"
    by (simp add: count_eq_records visible_job_records_for_auth_def inner'_def [symmetric] Let_def views job_views_def
        filter_map o_def job_view_def job_result_def active_terminal conj_commute cong: conj_cong)
qed (simp_all add: page_limit_def)

theorem job_lists_and_counts_agree_witness:
  "snd (list_jobs_for_auth sorted_env (lit ''e'') sample_clock None (Some 500) sample_registry)
    = take 100 (snd (list_all_jobs_for_auth sorted_env (lit ''e'') sample_clock None sample_registry))"
  using job_lists_and_counts_agree [OF sorted_env_iterates, where inner = sample_registry and clk = sample_clock
      and epoch = "lit ''e''" and auth = None and limit = "Some 500"]
  by (simp add: page_limit_def sample_registry_def)

end
