(* ===== verification/Job_Updates.thy ===== *)
theory Job_Updates
  imports Job_Views
begin

text \<open>
  How Jobs change: the updates a Runner sends for its Jobs, stopping a Job, the promotion, cancellation and removal of
  hidden Jobs and the fence of a project that is being unregistered
  (\<open>crates/webcodex-runner-registry/src/job_updates.rs\<close>), with the queue operations they use (\<open>requests.rs\<close>). Every
  operation runs under the registry lock and is a function on the registry. Clock readings and the fresh id of a stop
  request are arguments. A panic is \<open>None\<close>; telemetry and the wake-up of waiters have no effect on the state.
\<close>

section \<open>Queued requests\<close>

text \<open>A stop request. It is encoded with the kind \<open>stop_job\<close>, its Job and no other field, which is what its decoder asks for,
  so the operation of the request decodes. The start request of a Job has been checked before it is enqueued.\<close>

definition stop_request :: "rstr \<Rightarrow> rstr \<Rightarrow> PendingShellRequest" where
  "stop_request client_id jid = \<lparr>pend_client_id = client_id, pend_job_id = Some jid\<rparr>"

definition enqueue_pending_request_locked ::
    "int \<Rightarrow> rstr \<Rightarrow> rstr \<Rightarrow> PendingShellRequest \<Rightarrow> RunnerRegistryInner \<Rightarrow> PendingRequestEnqueueError + RunnerRegistryInner" where
  "enqueue_pending_request_locked now client_id request_id pending inner =
     and_then (ensure_dispatch_supported_locked inner client_id now)
    (and_then (ensure_queue_capacity_locked inner client_id)
    (Inr (inner\<lparr>reg_queues_by_runner := (reg_queues_by_runner inner)(client_id \<mapsto>
            (case reg_queues_by_runner inner client_id of None \<Rightarrow> [] | Some queue \<Rightarrow> queue) @ [request_id]),
          reg_pending_by_id := (reg_pending_by_id inner)(request_id \<mapsto> pending)\<rparr>)))"

definition take_pending_request_locked :: "rstr \<Rightarrow> RunnerRegistryInner \<Rightarrow> RunnerRegistryInner" where
  "take_pending_request_locked request_id inner =
     inner\<lparr>reg_pending_by_id := (reg_pending_by_id inner)(request_id := None)\<rparr>"

definition remove_request_from_queues_locked :: "rstr \<Rightarrow> RunnerRegistryInner \<Rightarrow> RunnerRegistryInner" where
  "remove_request_from_queues_locked request_id inner =
     inner\<lparr>reg_queues_by_runner := (\<lambda>c. map_option (filter (\<lambda>rid. rid \<noteq> request_id)) (reg_queues_by_runner inner c))\<rparr>"

definition remove_pending_request_locked :: "rstr \<Rightarrow> RunnerRegistryInner \<Rightarrow> RunnerRegistryInner" where
  "remove_pending_request_locked request_id inner =
     remove_request_from_queues_locked request_id (take_pending_request_locked request_id inner)"

definition remove_from_queue :: "rstr \<Rightarrow> rstr \<Rightarrow> RunnerRegistryInner \<Rightarrow> RunnerRegistryInner" where
  "remove_from_queue client_id request_id inner =
     inner\<lparr>reg_queues_by_runner := (reg_queues_by_runner inner)(client_id :=
       map_option (filter (\<lambda>rid. rid \<noteq> request_id)) (reg_queues_by_runner inner client_id))\<rparr>"

definition forget_request :: "rstr \<Rightarrow> RunnerRegistryInner \<Rightarrow> RunnerRegistryInner" where
  "forget_request request_id inner =
     inner\<lparr>reg_request_to_job := (reg_request_to_job inner)(request_id := None)\<rparr>"

section \<open>Updates of the Runner\<close>

record ShellJobLogSnapshot =
  lsnap_stdout :: ShellJobLogState
  lsnap_stderr :: ShellJobLogState

record RunnerJobUpdateRequest =
  upd_client_id :: rstr
  upd_runner_instance_id :: rstr
  upd_job_id :: rstr
  upd_request_id :: "rstr option"
  upd_update_seq :: "nat option"
  upd_status :: rstr
  upd_stdout_chunk :: "rstr option"
  upd_stderr_chunk :: "rstr option"
  upd_stdout_tail :: "rstr option"
  upd_stderr_tail :: "rstr option"
  upd_log_snapshot :: "ShellJobLogSnapshot option"
  upd_exit_code :: "int option"
  upd_duration_ms :: "nat option"
  upd_error :: "rstr option"
  upd_command_execution_state :: "ShellCommandExecutionState option"
  upd_validation_progress :: "ShellJobValidationProgress option"
  upd_activity :: "ShellJobActivity option"
  upd_finished :: bool

definition VALIDATION_STEP_SPAWN_FAILED_CODE :: rstr where
  "VALIDATION_STEP_SPAWN_FAILED_CODE = lit ''validation_step_spawn_failed''"
definition VALIDATION_TOOL_UNAVAILABLE_CODE :: rstr where
  "VALIDATION_TOOL_UNAVAILABLE_CODE = lit ''validation_tool_unavailable''"
definition VALIDATION_STEP_WAIT_FAILED_CODE :: rstr where
  "VALIDATION_STEP_WAIT_FAILED_CODE = lit ''validation_step_wait_failed''"

definition validation_infrastructure_failure_code :: "rstr \<Rightarrow> rstr option" where
  "validation_infrastructure_failure_code error =
     (if error = VALIDATION_STEP_SPAWN_FAILED_CODE then Some VALIDATION_STEP_SPAWN_FAILED_CODE
      else if error = VALIDATION_TOOL_UNAVAILABLE_CODE then Some VALIDATION_TOOL_UNAVAILABLE_CODE
      else if error = VALIDATION_STEP_WAIT_FAILED_CODE then Some VALIDATION_STEP_WAIT_FAILED_CODE
      else None)"

record JobPublicMutationSignature =
  sig_lifecycle :: RunnerJobLifecycle
  sig_recovery :: JobRecoveryState
  sig_last_update_seq :: nat
  sig_stdout :: ShellJobLogState
  sig_stderr :: ShellJobLogState
  sig_error :: "rstr option"
  sig_started_at :: "int option"
  sig_ended_at :: "int option"
  sig_exit_code :: "int option"
  sig_duration_ms :: "nat option"
  sig_command_execution_state :: "ShellCommandExecutionState option"
  sig_validation_progress :: "ShellJobValidationProgress option"
  sig_activity :: "ShellJobActivity option"
  sig_recovered_after_server_restart :: bool
  sig_reconciled_at :: "int option"

definition public_mutation_signature :: "ShellJobRecord \<Rightarrow> JobPublicMutationSignature" where
  "public_mutation_signature job =
     \<lparr>sig_lifecycle = job_lifecycle job, sig_recovery = job_recovery job, sig_last_update_seq = job_last_update_seq job,
      sig_stdout = job_stdout job, sig_stderr = job_stderr job, sig_error = job_error job,
      sig_started_at = job_started_at job, sig_ended_at = job_ended_at job, sig_exit_code = job_exit_code job,
      sig_duration_ms = job_duration_ms job, sig_command_execution_state = job_command_execution_state job,
      sig_validation_progress = job_validation_progress job, sig_activity = job_activity job,
      sig_recovered_after_server_restart = rec_recovered_after_server_restart (job_recovery job),
      sig_reconciled_at = rec_reconciled_at (job_recovery job)\<rparr>"

section \<open>Checks of an update\<close>

text \<open>\<open>slice::get\<close>.\<close>

definition get_at :: "'a list \<Rightarrow> nat \<Rightarrow> 'a option" where
  "get_at xs i = (if i < length xs then Some (xs ! i) else None)"

definition invalid_progress :: "string \<Rightarrow> rstr + unit" where
  "invalid_progress code = Inl (lit code)"

definition cancelling :: "RunnerJobLifecycle \<Rightarrow> bool" where
  "cancelling lifecycle \<longleftrightarrow> lifecycle \<in> set [Stopped, Cancelled, Timeout, TimedOut, Lost]"

definition infrastructure_failure :: "RunnerJobUpdateRequest \<Rightarrow> RunnerJobLifecycle \<Rightarrow> bool" where
  "infrastructure_failure update lifecycle \<longleftrightarrow> lifecycle = Failed \<and> upd_finished update \<and> upd_exit_code update = None
     \<and> Option.bind (upd_error update) validation_infrastructure_failure_code \<noteq> None"

text \<open>Whether the reported cursor and steps fit the lifecycle.\<close>

definition progress_fits ::
    "rstr list \<Rightarrow> RunnerJobUpdateRequest \<Rightarrow> RunnerJobLifecycle \<Rightarrow> ShellJobValidationProgress \<Rightarrow> bool" where
  "progress_fits steps update lifecycle progress =
     (let no_active_step = (prog_current_step progress = None \<and> prog_failed_step progress = None);
          expected = get_at steps (prog_completed progress) in
      if cancelling lifecycle then no_active_step
      else if infrastructure_failure update lifecycle then prog_completed progress < length steps \<and> no_active_step
      else if \<not> is_terminal lifecycle then expected = prog_current_step progress \<and> prog_failed_step progress = None
      else if lifecycle = Completed \<and> upd_exit_code update = Some 0 then
        prog_completed progress = length steps \<and> no_active_step
      else if lifecycle = Failed then expected = prog_failed_step progress \<and> prog_current_step progress = None
      else False)"

definition validate_validation_progress ::
    "ShellJobRecord \<Rightarrow> RunnerJobUpdateRequest \<Rightarrow> RunnerJobLifecycle \<Rightarrow> rstr + unit" where
  "validate_validation_progress job update lifecycle =
     (let steps = job_validation_steps job; queued = lifecycle \<in> set [Queued, RunnerQueued] in
      if steps = [] then
        (if upd_validation_progress update = None then Inr () else invalid_progress ''validation_progress_unexpected'')
      else if \<not> distinct steps then invalid_progress ''validation_plan_invalid''
      else if upd_finished update \<and> \<not> is_terminal lifecycle then invalid_progress ''validation_progress_invalid''
      else (case upd_validation_progress update of
          None \<Rightarrow> if queued \<or> cancelling lifecycle then Inr () else invalid_progress ''validation_progress_missing''
        | Some progress \<Rightarrow>
            if queued \<or> length steps < prog_completed progress then invalid_progress ''validation_progress_invalid''
            else
              let previous = progress_count (job_validation_progress job) in
              if prog_completed progress < previous \<or> sat_add previous 1 < prog_completed progress
                then invalid_progress ''validation_progress_invalid''
              else if progress_fits steps update lifecycle progress then Inr ()
              else if lifecycle = Completed \<and> upd_exit_code update = Some 0
                then invalid_progress ''validation_progress_incomplete''
              else invalid_progress ''validation_progress_invalid''))"

definition validation_activity_phase :: "rstr \<Rightarrow> ShellJobActivityPhase option" where
  "validation_activity_phase step =
     (if step = lit ''format'' then Some ValidationFormat
      else if step = lit ''check'' then Some ValidationCheck
      else if step = lit ''test'' then Some ValidationTest
      else None)"

definition validate_job_activity ::
    "ShellJobRecord \<Rightarrow> RunnerJobUpdateRequest \<Rightarrow> RunnerJobLifecycle \<Rightarrow> rstr + unit" where
  "validate_job_activity job update lifecycle =
     (case upd_activity update of
        None \<Rightarrow> Inr ()
      | Some activity \<Rightarrow>
          if \<not> activity_is_canonical activity \<or> lifecycle \<notin> set [Running, StopRequested]
          then invalid_progress ''job_activity_invalid''
          else (case act_source activity of
              RunnerExecution \<Rightarrow>
                if job_validation_steps job \<noteq> [] \<or> act_phase activity \<noteq> ProcessRunning
                then invalid_progress ''job_activity_invalid'' else Inr ()
            | ValidationPlan \<Rightarrow>
                (case Option.bind (upd_validation_progress update) prog_current_step of
                   None \<Rightarrow> invalid_progress ''job_activity_invalid''
                 | Some current_step \<Rightarrow>
                     if validation_activity_phase current_step \<noteq> Some (act_phase activity)
                     then invalid_progress ''job_activity_invalid'' else Inr ())
            | CargoOutput \<Rightarrow>
                (case upd_validation_progress update of
                   None \<Rightarrow> invalid_progress ''job_activity_invalid''
                 | Some progress \<Rightarrow>
                     if prog_current_step progress = None \<or> job_validation_steps job = []
                     then invalid_progress ''job_activity_invalid''
                     else (case job_validation job of
                         None \<Rightarrow> Inr ()
                       | Some validation \<Rightarrow>
                           if opt_all (\<lambda>step. step_program step \<noteq> lit ''cargo'' \<or> \<not> is_canonical step)
                                (get_at (val_steps validation) (prog_completed progress))
                           then invalid_progress ''job_activity_invalid'' else Inr ()))))"

definition execution_state_fits :: "ShellJobRecord \<Rightarrow> RunnerJobLifecycle \<Rightarrow> ShellCommandExecutionState \<Rightarrow> bool" where
  "execution_state_fits job lifecycle state =
     (case state of
        NotStarted \<Rightarrow> lifecycle \<in> set [Failed, Stopped, Cancelled, Lost] \<and> job_started_at job = None
      | OutcomeUnknown \<Rightarrow> lifecycle \<in> set [Failed, Lost]
      | ExecutionTimedOut \<Rightarrow> is_timed_out lifecycle
      | ExecutionCompleted \<Rightarrow> lifecycle \<in> set [Completed, Failed, Stopped, Cancelled])"

definition validate_command_execution_state ::
    "ShellJobRecord \<Rightarrow> RunnerJobUpdateRequest \<Rightarrow> RunnerJobLifecycle \<Rightarrow> rstr + unit" where
  "validate_command_execution_state job update lifecycle =
     (let terminal = is_terminal lifecycle; state = upd_command_execution_state update in
      if \<not> terminal \<and> state \<noteq> None then invalid_progress ''command_execution_state_on_active_job''
      else if job_structured_execution job \<noteq> None \<and> terminal \<and> state = None
        then invalid_progress ''structured_job_lifecycle_missing''
      else (case state of
          None \<Rightarrow> Inr ()
        | Some s \<Rightarrow> if execution_state_fits job lifecycle s then Inr ()
            else invalid_progress ''structured_job_lifecycle_invalid''))"

definition validate_update :: "ShellJobRecord \<Rightarrow> RunnerJobUpdateRequest \<Rightarrow> RunnerJobLifecycle \<Rightarrow> rstr + unit" where
  "validate_update job update lifecycle =
     and_then (validate_validation_progress job update lifecycle)
    (and_then (validate_command_execution_state job update lifecycle)
     (validate_job_activity job update lifecycle))"

text \<open>The checks before the registry is locked.\<close>

definition check_update_request :: "RunnerJobUpdateRequest \<Rightarrow> rstr + unit" where
  "check_update_request body =
     and_then (validate_id (upd_client_id body) (lit ''client_id''))
    (and_then (validate_id (upd_job_id body) (lit ''job_id''))
    (and_then (validate_runner_instance_id (upd_runner_instance_id body))
    (case upd_log_snapshot body of
       None \<Rightarrow> Inr ()
     | Some snapshot \<Rightarrow>
         and_then (validate_stream_snapshot (lsnap_stdout snapshot) (lit ''job update stdout snapshot''))
        (and_then (validate_stream_snapshot (lsnap_stderr snapshot) (lit ''job update stderr snapshot''))
        (reject_if (upd_stdout_chunk body \<noteq> None \<or> upd_stderr_chunk body \<noteq> None
             \<or> upd_stdout_tail body \<noteq> None \<or> upd_stderr_tail body \<noteq> None)
           (lit ''job update log_snapshot cannot be combined with chunk or legacy tail fields''))))))"

definition is_sequenced :: "RunnerRegistryInner \<Rightarrow> rstr \<Rightarrow> bool" where
  "is_sequenced inner client_id = opt_ex runner_supports_reconciliation (reg_runners inner client_id)"

definition quoted_status :: "string \<Rightarrow> rstr \<Rightarrow> rstr" where
  "quoted_status before status = lit before @ [39] @ status @ [39] @ lit '' is invalid''"

definition check_lifecycle_fields :: "RunnerJobUpdateRequest \<Rightarrow> RunnerJobLifecycle \<Rightarrow> rstr + unit" where
  "check_lifecycle_fields body lifecycle =
     and_then (reject_if (\<not> (is_runner_active lifecycle \<or> is_terminal lifecycle))
       (quoted_status ''job_state_reconciliation update status '' (trim (upd_status body))))
    (and_then (reject_if (upd_finished body \<noteq> is_terminal lifecycle)
       (lit ''job_state_reconciliation update has inconsistent finished/status''))
    (and_then (reject_if (\<not> is_terminal lifecycle \<and> (upd_exit_code body \<noteq> None \<or> upd_duration_ms body \<noteq> None))
       (lit ''active job_state_reconciliation update contains terminal result fields''))
     (reject_if (lifecycle = Completed \<and> upd_exit_code body \<noteq> Some 0)
       (lit ''completed job_state_reconciliation update requires exit_code=0''))))"

text \<open>The sequence number and the lifecycle of an update. A Runner with reconciliation numbers its updates and is held to
  the vocabulary of the protocol.\<close>

definition incoming_update :: "bool \<Rightarrow> RunnerJobUpdateRequest \<Rightarrow> rstr + nat option \<times> RunnerJobLifecycle" where
  "incoming_update sequenced body =
     and_then (reject_if (sequenced \<and> \<not> opt_ex (\<lambda>n. 0 < n) (upd_update_seq body))
       (lit ''job_state_reconciliation update requires update_seq''))
    (and_then (reject_if (sequenced \<and> upd_status body \<noteq> trim (upd_status body))
       (lit ''job_state_reconciliation update status must be canonical without surrounding whitespace''))
    (case parse_job_lifecycle (trim (upd_status body)) of
       Inl _ \<Rightarrow> Inl (if sequenced then quoted_status ''job_state_reconciliation update status '' (trim (upd_status body))
                     else quoted_status ''job update status '' (trim (upd_status body)))
     | Inr lifecycle \<Rightarrow>
         and_then (if sequenced then check_lifecycle_fields body lifecycle else Inr ())
         (Inr (upd_update_seq body, lifecycle))))"

text \<open>The Job that an update is for.\<close>

definition find_update_job :: "bool \<Rightarrow> RunnerJobUpdateRequest \<Rightarrow> RunnerRegistryInner \<Rightarrow> rstr + ShellJobRecord" where
  "find_update_job sequenced body inner =
     (case reg_jobs_by_id inner (upd_job_id body) of
        None \<Rightarrow> Inl (unknown_shell_job (upd_job_id body))
      | Some job \<Rightarrow>
          and_then (reject_if (job_client_id job \<noteq> upd_client_id body) (lit ''job_id does not belong to client_id''))
         (and_then (reject_if (job_runner_instance_id job \<noteq> upd_runner_instance_id body)
            (lit ''job_id belongs to a replaced runner instance''))
         (and_then (reject_if (opt_ex (\<lambda>rid. job_request_id job \<noteq> Some rid) (upd_request_id body))
            (lit ''job update request_id does not match job_id''))
         (and_then (reject_if (upd_log_snapshot body \<noteq> None \<and> \<not> sequenced)
            (lit ''job update log_snapshot requires job_state_reconciliation capability''))
         (and_then (reject_if (recovery_active job \<and> sequenced \<and> upd_log_snapshot body = None)
            (lit ''recovering job update requires an authoritative log_snapshot or register inventory''))
         (Inr job))))))"

definition snapshot_regresses :: "RunnerJobUpdateRequest \<Rightarrow> ShellJobRecord \<Rightarrow> bool" where
  "snapshot_regresses body job =
     opt_ex (\<lambda>s. log_next_line (lsnap_stdout s) < log_next_line (job_stdout job)
        \<or> log_next_line (lsnap_stderr s) < log_next_line (job_stderr job)) (upd_log_snapshot body)"

section \<open>Effects of an update\<close>

text \<open>The clock readings of one call: for the liveness of the Runner, the start of the Job, its end, the end of its recovery,
  and the view that is returned.\<close>

record UpdateClock =
  uc_seen :: int
  uc_started :: int
  uc_terminal :: int
  uc_reconciled :: int
  uc_view :: int

text \<open>Only the connection that holds the lease refreshes the liveness of the Runner.\<close>

definition refresh_last_seen ::
    "UpdateClock \<Rightarrow> rstr \<Rightarrow> rstr option \<Rightarrow> RunnerRegistryInner \<Rightarrow> RunnerRegistryInner" where
  "refresh_last_seen clk client_id expected_connection_id inner =
     (if expected_connection_id = None
        \<or> opt_ex (\<lambda>r. runner_connection_id r = expected_connection_id) (reg_runners inner client_id)
      then inner\<lparr>reg_runners := (reg_runners inner)(client_id :=
             map_option (\<lambda>r. r\<lparr>runner_last_seen := uc_seen clk\<rparr>) (reg_runners inner client_id))\<rparr>
      else inner)"

text \<open>An update that breaks the protocol ends the Job as failed.\<close>

definition reject_update :: "UpdateClock \<Rightarrow> RunnerJobUpdateRequest \<Rightarrow> rstr \<Rightarrow> ShellJobRecord \<Rightarrow> ShellJobRecord" where
  "reject_update clk body code job =
     (let failed = observe_job_terminal (job\<lparr>job_lifecycle := Failed\<rparr>) (uc_terminal clk) in
      failed\<lparr>job_ended_at := Some (uc_terminal clk), job_exit_code := upd_exit_code body,
        job_duration_ms := upd_duration_ms body, job_error := Some (lit ''executor protocol violation: '' @ code),
        job_activity := None,
        job_command_execution_state :=
          (if job_structured_execution failed \<noteq> None
           then Some (if job_started_at failed \<noteq> None then OutcomeUnknown else NotStarted)
           else job_command_execution_state failed)\<rparr>)"

definition update_logs :: "RunnerJobUpdateRequest \<Rightarrow> ShellJobRecord \<Rightarrow> ShellJobRecord option" where
  "update_logs body job =
     (case upd_log_snapshot body of
        Some snapshot \<Rightarrow> Some (job\<lparr>job_stdout := replace_log_from_snapshot (job_stdout job) (lsnap_stdout snapshot),
            job_stderr := replace_log_from_snapshot (job_stderr job) (lsnap_stderr snapshot)\<rparr>)
      | None \<Rightarrow>
          Option.bind (replace_log_limited (job_stdout job) (upd_stdout_tail body)) (\<lambda>stdout.
          Option.bind (replace_log_limited (job_stderr job) (upd_stderr_tail body)) (\<lambda>stderr.
          Option.bind (append_log_limited stdout (upd_stdout_chunk body)) (\<lambda>stdout'.
          Option.bind (append_log_limited stderr (upd_stderr_chunk body)) (\<lambda>stderr'.
            Some (job\<lparr>job_stdout := stdout', job_stderr := stderr'\<rparr>))))))"

definition or_keep :: "'a option \<Rightarrow> 'a option \<Rightarrow> 'a option" where
  "or_keep new old = (if new \<noteq> None then new else old)"

definition note_validation :: "RunnerJobUpdateRequest \<Rightarrow> ShellJobRecord \<Rightarrow> ShellJobRecord" where
  "note_validation body job =
     job\<lparr>job_validation_progress := or_keep (upd_validation_progress body) (job_validation_progress job),
       job_activity := or_keep (upd_activity body) (job_activity job)\<rparr>"

definition note_start :: "UpdateClock \<Rightarrow> RunnerJobUpdateRequest \<Rightarrow> RunnerJobLifecycle \<Rightarrow> ShellJobRecord \<Rightarrow> ShellJobRecord" where
  "note_start clk body lifecycle job =
     (if job_started_at job = None \<and> upd_command_execution_state body \<noteq> Some NotStarted
        \<and> lifecycle \<in> set [Running, Completed, Failed, Stopped, Timeout]
      then job\<lparr>job_started_at := Some (uc_started clk)\<rparr> else job)"

definition note_lifecycle :: "RunnerJobLifecycle \<Rightarrow> ShellJobRecord \<Rightarrow> ShellJobRecord" where
  "note_lifecycle lifecycle job =
     (if is_terminal (job_lifecycle job) then job
      else job\<lparr>job_lifecycle := (if lifecycle = Queued \<and> job_started_at job \<noteq> None then RunnerQueued else lifecycle)\<rparr>)"

definition note_terminal ::
    "UpdateClock \<Rightarrow> RunnerJobUpdateRequest \<Rightarrow> bool \<Rightarrow> RunnerJobLifecycle \<Rightarrow> ShellJobRecord \<Rightarrow> ShellJobRecord" where
  "note_terminal clk body was_recovering lifecycle job =
     (if is_terminal lifecycle then
        let ended = observe_job_terminal (job\<lparr>job_lifecycle := lifecycle\<rparr>) (uc_terminal clk) in
        ended\<lparr>job_ended_at := Some (uc_terminal clk), job_exit_code := upd_exit_code body,
          job_duration_ms := upd_duration_ms body, job_error := upd_error body,
          job_command_execution_state := upd_command_execution_state body, job_activity := None,
          job_recovery := (job_recovery ended)
            \<lparr>rec_phase := (if was_recovering then rec_phase (job_recovery ended)
                else map_option (\<lambda>_. Reconciled) (rec_reconciled_at (job_recovery ended))),
             rec_recovering_since := None\<rparr>\<rparr>
      else if upd_error body \<noteq> None then job\<lparr>job_error := upd_error body\<rparr>
      else job)"

definition note_finished :: "UpdateClock \<Rightarrow> RunnerJobUpdateRequest \<Rightarrow> ShellJobRecord \<Rightarrow> ShellJobRecord" where
  "note_finished clk body job =
     (if upd_finished body \<and> \<not> is_terminal (job_lifecycle job) then
        let ended = observe_job_terminal (job\<lparr>job_lifecycle :=
              (if job_error job = None \<and> job_exit_code job = Some 0 then Completed else Failed)\<rparr>) (uc_terminal clk) in
        ended\<lparr>job_ended_at := Some (uc_terminal clk), job_activity := None\<rparr>
      else job)"

definition note_reconciled :: "UpdateClock \<Rightarrow> bool \<Rightarrow> ShellJobRecord \<Rightarrow> ShellJobRecord" where
  "note_reconciled clk was_recovering job =
     (if was_recovering then
        job\<lparr>job_recovery := (job_recovery job)\<lparr>rec_phase := Some Reconciled, rec_reconciled_at := Some (uc_reconciled clk),
          rec_reason := Some SameInstanceUpdateReconciliation, rec_recovering_since := None\<rparr>\<rparr>
      else job)"

definition apply_update ::
    "UpdateClock \<Rightarrow> RunnerJobUpdateRequest \<Rightarrow> RunnerJobLifecycle \<Rightarrow> ShellJobRecord \<Rightarrow> ShellJobRecord option" where
  "apply_update clk body lifecycle job =
     map_option (\<lambda>logged.
         note_reconciled clk (recovery_active job)
        (note_finished clk body
        (note_terminal clk body (recovery_active job) lifecycle
        (note_lifecycle lifecycle
        (note_start clk body lifecycle
        (note_validation body logged))))))
       (update_logs body job)"

text \<open>The record goes back into the registry. Its request is forgotten when the update has ended the Job, which is when
  the source sets \<open>request_id_to_remove\<close>.\<close>

definition updated_job :: "nat option \<Rightarrow> ShellJobRecord \<Rightarrow> ShellJobRecord \<Rightarrow> candidates \<Rightarrow> ShellJobRecord \<times> candidates" where
  "updated_job incoming_seq before job cands =
     (let job1 = (case incoming_seq of None \<Rightarrow> job | Some sequence \<Rightarrow> job\<lparr>job_last_update_seq := sequence\<rparr>) in
      if public_mutation_signature job1 \<noteq> public_mutation_signature before then notify_job_update job1 cands else (job1, cands))"

definition commit_update :: "rstr \<Rightarrow> ShellJobRecord \<times> candidates \<Rightarrow> RunnerRegistryInner \<Rightarrow> RunnerRegistryInner" where
  "commit_update jid jc inner =
     (let job = fst jc;
          stored = put_job inner jid jc;
          cleared = (case job_request_id job of
              None \<Rightarrow> stored
            | Some rid \<Rightarrow> if is_terminal (job_lifecycle job) then forget_request rid (take_pending_request_locked rid stored) else stored)
      in if cleanup_removable job then remove_job jid cleared else cleared)"

definition update_job_checked ::
    "rstr \<Rightarrow> UpdateClock \<Rightarrow> RunnerJobUpdateRequest \<Rightarrow> rstr option \<Rightarrow> RunnerRegistryInner
       \<Rightarrow> (RunnerRegistryInner \<times> (rstr + ShellJobInfo)) option" where
  "update_job_checked epoch clk body expected_connection_id inner =
     (let client_id = upd_client_id body; sequenced = is_sequenced inner client_id in
      case and_then (check_update_request body)
          (and_then (assert_active_instance_locked inner client_id (upd_runner_instance_id body))
            (incoming_update sequenced body)) of
        Inl e \<Rightarrow> Some (inner, Inl e)
      | Inr (incoming_seq, lifecycle) \<Rightarrow>
          let seen = refresh_last_seen clk client_id expected_connection_id inner in
          case find_update_job sequenced body seen of
            Inl e \<Rightarrow> Some (seen, Inl e)
          | Inr job \<Rightarrow>
              if sequenced \<and> opt_ex (\<lambda>sequence. sequence \<le> job_last_update_seq job) incoming_seq
                 \<or> is_terminal (job_lifecycle job)
              then Some (seen, Inr (job_view epoch (uc_view clk) job))
              else if snapshot_regresses body job
              then Some (seen, Inl (lit ''job update authoritative log snapshot regresses an absolute cursor''))
              else map_option (\<lambda>job'.
                  let jc = updated_job incoming_seq job job' (reg_receipt_candidates seen) in
                  (commit_update (upd_job_id body) jc seen, Inr (job_view epoch (uc_view clk) (fst jc))))
                (case validate_update job body lifecycle of
                   Inl code \<Rightarrow> Some (reject_update clk body code job)
                 | Inr _ \<Rightarrow> apply_update clk body lifecycle job))"

definition update_job where
  "update_job epoch clk body inner = update_job_checked epoch clk body None inner"

definition update_job_for_connection where
  "update_job_for_connection epoch clk body connection_id inner = update_job_checked epoch clk body (Some connection_id) inner"

section \<open>Stopping and hidden Jobs\<close>

text \<open>The clock readings of a call that may send a stop request, with the fresh id of that request.\<close>

record StopEnv =
  se_clock :: Clock
  se_terminal :: int
  se_dispatch :: int
  se_request_id :: rstr

text \<open>\<open>notify\<close> is whether the observers of the Job are woken; a stop request of the clean-up does not do that.\<close>

definition request_stop ::
    "StopEnv \<Rightarrow> bool \<Rightarrow> string \<Rightarrow> rstr \<Rightarrow> ShellJobRecord \<Rightarrow> RunnerRegistryInner \<Rightarrow> rstr + RunnerRegistryInner" where
  "request_stop se notify message jid job inner =
     (case enqueue_pending_request_locked (se_dispatch se) (job_client_id job) (se_request_id se)
         (stop_request (job_client_id job) jid) inner of
        Inl e \<Rightarrow> Inl (PendingRequestEnqueueError_display e)
      | Inr queued \<Rightarrow>
          let job' = job\<lparr>job_lifecycle := StopRequested, job_error := Some (lit message)\<rparr> in
          Inr (put_job queued jid (if notify then notify_job_update job' (reg_receipt_candidates queued)
                 else (job', reg_receipt_candidates queued))))"

definition drop_start_request :: "ShellJobRecord \<Rightarrow> RunnerRegistryInner \<Rightarrow> RunnerRegistryInner" where
  "drop_start_request job inner =
     (case job_request_id job of None \<Rightarrow> inner | Some rid \<Rightarrow> forget_request rid (remove_pending_request_locked rid inner))"

definition stop_queued_job :: "int \<Rightarrow> ShellJobRecord \<Rightarrow> candidates \<Rightarrow> ShellJobRecord \<times> candidates" where
  "stop_queued_job terminal_now job cands =
     (let stopped = observe_job_terminal (job\<lparr>job_lifecycle := Stopped\<rparr>) terminal_now in
      notify_job_update (stopped\<lparr>job_ended_at := Some terminal_now,
          job_error := Some (lit ''job stopped before Runner picked it up''),
          job_command_execution_state :=
            (if job_structured_execution stopped \<noteq> None then Some NotStarted else job_command_execution_state stopped)\<rparr>)
        cands)"

definition view_of :: "rstr \<Rightarrow> Clock \<Rightarrow> rstr \<Rightarrow> RunnerRegistryInner \<Rightarrow> rstr + ShellJobInfo" where
  "view_of epoch clk jid inner =
     (case reg_jobs_by_id inner jid of
        None \<Rightarrow> Inl (unknown_shell_job jid)
      | Some job \<Rightarrow> Inr (job_view epoch (clk_view clk jid) job))"

definition stop_job_for_auth ::
    "rstr \<Rightarrow> StopEnv \<Rightarrow> RunnerAccess option \<Rightarrow> rstr \<Rightarrow> RunnerRegistryInner \<Rightarrow> RunnerRegistryInner \<times> (rstr + ShellJobInfo)" where
  "stop_job_for_auth epoch se auth jid inner0 =
     (let clk = se_clock se in
      case validate_id jid (lit ''job_id'') of
        Inl e \<Rightarrow> (inner0, Inl e)
      | Inr _ \<Rightarrow>
          let inner = refresh_job clk jid inner0 in
          case public_job clk auth jid inner of
            Inl e \<Rightarrow> (inner, Inl e)
          | Inr job \<Rightarrow>
              if recovery_active job
              then (inner, Inl (lit ''runner_unavailable_recovering: wait for same-instance job reconciliation before retrying stop_job''))
              else (case job_lifecycle job of
                  Queued \<Rightarrow>
                    let dropped = drop_start_request job inner;
                        inner' = put_job dropped jid (stop_queued_job (se_terminal se) job (reg_receipt_candidates dropped))
                    in (inner', view_of epoch clk jid inner')
                | RunnerQueued \<Rightarrow>
                    (case request_stop se True ''stop requested'' jid job inner of
                       Inl e \<Rightarrow> (inner, Inl e) | Inr inner' \<Rightarrow> (inner', view_of epoch clk jid inner'))
                | Running \<Rightarrow>
                    (case request_stop se True ''stop requested'' jid job inner of
                       Inl e \<Rightarrow> (inner, Inl e) | Inr inner' \<Rightarrow> (inner', view_of epoch clk jid inner'))
                | _ \<Rightarrow> (inner, view_of epoch clk jid inner)))"

definition promote_hidden_job ::
    "rstr \<Rightarrow> Clock \<Rightarrow> rstr \<Rightarrow> RunnerRegistryInner \<Rightarrow> RunnerRegistryInner \<times> (rstr + ShellJobInfo)" where
  "promote_hidden_job epoch clk jid inner0 =
     (let inner = refresh_job clk jid inner0 in
      case reg_jobs_by_id inner jid of
        None \<Rightarrow> (inner, Inl (unknown_shell_job jid))
      | Some job \<Rightarrow>
          if job_visibility job = CleanupPending
          then (inner, Inl (lit ''structured job cleanup is pending: '' @ jid))
          else
            let view = job_view epoch (clk_view clk jid) job in
            if is_terminal (job_lifecycle job) then (inner, Inr view)
            else if view_observation_token view = None
            then (inner, Inl (lit ''structured job has no canonical observation token: '' @ jid))
            else (inner\<lparr>reg_jobs_by_id := (reg_jobs_by_id inner)(jid \<mapsto> job\<lparr>job_visibility := Public\<rparr>)\<rparr>, Inr view))"

definition cancel_hidden_job_for_auth ::
    "StopEnv \<Rightarrow> RunnerAccess option \<Rightarrow> rstr \<Rightarrow> RunnerRegistryInner \<Rightarrow> RunnerRegistryInner \<times> (rstr + bool)" where
  "cancel_hidden_job_for_auth se auth jid inner0 =
     (let clk = se_clock se in
      case validate_id jid (lit ''job_id'') of
        Inl e \<Rightarrow> (inner0, Inl e)
      | Inr _ \<Rightarrow>
          let inner = refresh_job clk jid inner0 in
          case reg_jobs_by_id inner jid of
            None \<Rightarrow> (inner, Inl (unknown_shell_job jid))
          | Some job \<Rightarrow>
              if job_visibility job = Public \<or> \<not> job_visible_to_access (clk_visible clk jid) auth job
              then (inner, Inl (unknown_shell_job jid))
              else if job_lifecycle job = Queued then (remove_job jid (drop_start_request job inner), Inr True)
              else if is_terminal (job_lifecycle job) then (remove_job jid inner, Inr True)
              else
                let pending = job\<lparr>job_visibility := CleanupPending\<rparr>;
                    inner1 = inner\<lparr>reg_jobs_by_id := (reg_jobs_by_id inner)(jid \<mapsto> pending)\<rparr>
                in if \<not> recovery_active job \<and> is_runner_active (job_lifecycle job) \<and> job_lifecycle job \<noteq> StopRequested
                   then (case request_stop se False ''internal structured execution cleanup requested'' jid pending inner1 of
                       Inl e \<Rightarrow> (inner1, Inl e)
                     | Inr inner2 \<Rightarrow> (inner2, Inr False))
                   else (inner1, Inr False))"

text \<open>The cleanup intents are recorded under a lock of their own, one access for each Job. \<open>order\<close> is the order in
  which the hash map of the intents is iterated, and \<open>se\<close> has the readings of each cancellation.\<close>

type_synonym intents = "rstr \<rightharpoonup> RunnerAccess option"

definition record_hidden_cleanup_intent :: "rstr \<Rightarrow> RunnerAccess option \<Rightarrow> intents \<Rightarrow> intents" where
  "record_hidden_cleanup_intent jid auth m = m(jid \<mapsto> auth)"

definition settles_intent :: "rstr + bool \<Rightarrow> bool" where
  "settles_intent r = (case r of Inl error \<Rightarrow> starts_with error (lit ''unknown shell job:'') | Inr _ \<Rightarrow> True)"

definition cancel_intent ::
    "(rstr \<Rightarrow> StopEnv) \<Rightarrow> intents \<Rightarrow> rstr \<Rightarrow> RunnerRegistryInner \<times> intents \<Rightarrow> RunnerRegistryInner \<times> intents" where
  "cancel_intent se m jid state =
     (case m jid of
        None \<Rightarrow> state
      | Some auth \<Rightarrow>
          let (inner, retry) = state; (inner', r) = cancel_hidden_job_for_auth (se jid) auth jid inner in
          (inner', if settles_intent r then retry else retry(jid \<mapsto> auth)))"

definition process_hidden_cleanup_intents ::
    "(intents \<Rightarrow> rstr list) \<Rightarrow> (rstr \<Rightarrow> StopEnv) \<Rightarrow> RunnerRegistryInner \<times> intents \<Rightarrow> RunnerRegistryInner \<times> intents" where
  "process_hidden_cleanup_intents order se state =
     (let (inner, m) = state in fold (cancel_intent se m) (order m) (inner, Map.empty))"

definition remove_projected_hidden_terminal_job_record ::
    "int \<Rightarrow> rstr \<Rightarrow> RunnerRegistryInner \<Rightarrow> RunnerRegistryInner \<times> bool" where
  "remove_projected_hidden_terminal_job_record now jid inner =
     (case reg_jobs_by_id inner jid of
        None \<Rightarrow> (inner, False)
      | Some job \<Rightarrow>
          (case job_request_id job of
             None \<Rightarrow> (inner, False)
           | Some request_id \<Rightarrow>
               if job_visibility job \<noteq> HiddenUntilHandoff \<or> \<not> is_terminal (job_lifecycle job) then (inner, False)
               else
                 let client_id = job_client_id job;
                     remembered = inner\<lparr>reg_runners := (reg_runners inner)(client_id :=
                       map_option (\<lambda>r. if runner_instance_id r = job_runner_instance_id job
                           then remember_projected_structured_terminal jid request_id now r else r) (reg_runners inner client_id))\<rparr>;
                     removed = take_pending_request_locked request_id (forget_request request_id (remove_job jid remembered))
                 in (remove_from_queue client_id request_id removed, True)))"

section \<open>Admission\<close>

text \<open>What \<open>start_job\<close> knows of a Job when it has checked the request: the admission proper is the part of that function that
  looks at the fence of the project, queues the start request and creates the record. The checks before it, and the
  replay of a detached process that has a Job already, are not modelled.\<close>

record JobAdmission =
  adm_job_id :: rstr
  adm_request_id :: rstr
  adm_client_id :: rstr
  adm_kind :: rstr
  adm_project_id :: "rstr option"
  adm_session_id :: "rstr option"
  adm_ssh_resource :: "rstr option"
  adm_cwd :: "rstr option"
  adm_project_cwd :: "rstr option"
  adm_purpose :: "rstr option"
  adm_shell :: "rstr option"
  adm_command_preview :: rstr
  adm_created_at :: int
  adm_structured_execution :: "ShellJobStructuredExecutionMetadata option"
  adm_validation_steps :: "rstr list"
  adm_validation :: "ShellJobValidationMetadata option"
  adm_visibility :: ShellJobVisibility
  adm_has_receipt_candidates :: bool

definition JobRecoveryState_default :: JobRecoveryState where
  "JobRecoveryState_default = \<lparr>rec_phase = None, rec_recovered_after_server_restart = False, rec_reconciled_at = None,
     rec_reason = None, rec_recovering_since = None\<rparr>"

definition admitted_job :: "JobAdmission \<Rightarrow> RunnerRecord \<Rightarrow> ShellJobRecord" where
  "admitted_job a runner =
     \<lparr>job_id = adm_job_id a, job_request_id = Some (adm_request_id a), job_client_id = adm_client_id a,
      job_auth_group = runner_auth_group runner, job_owner_at_admission = runner_owner runner,
      job_runner_instance_id = runner_instance_id runner, job_kind = adm_kind a, job_project_id = adm_project_id a,
      job_session_id = adm_session_id a, job_ssh_resource = adm_ssh_resource a, job_cwd = adm_cwd a,
      job_project_cwd = adm_project_cwd a, job_purpose = adm_purpose a, job_shell = adm_shell a,
      job_command_preview = adm_command_preview a, job_lifecycle = Queued, job_created_at = adm_created_at a,
      job_started_at = None, job_ended_at = None, job_exit_code = None, job_duration_ms = None,
      job_stdout = ShellJobLogState_default, job_stderr = ShellJobLogState_default, job_error = None,
      job_command_execution_state = None, job_structured_execution = adm_structured_execution a,
      job_validation_steps = adm_validation_steps a, job_validation = adm_validation a, job_validation_progress = None,
      job_activity = None, job_visibility = adm_visibility a, job_last_update_seq = 0,
      job_recovery = JobRecoveryState_default,
      job_observation = JobObservationState_new\<lparr>obs_has_receipt_candidates := adm_has_receipt_candidates a\<rparr>\<rparr>"

definition admit_job :: "int \<Rightarrow> JobAdmission \<Rightarrow> RunnerRegistryInner \<Rightarrow> rstr + RunnerRegistryInner" where
  "admit_job now a inner =
     (case reg_runners inner (adm_client_id a) of
        None \<Rightarrow> Inl (lit ''unknown shell client: '' @ adm_client_id a)
      | Some runner \<Rightarrow>
          if opt_ex (\<lambda>project. reg_unregistering_projects inner project \<noteq> None) (adm_project_id a)
          then Inl (lit ''project_unregister_in_progress'')
          else (case enqueue_pending_request_locked now (adm_client_id a) (adm_request_id a)
              \<lparr>pend_client_id = adm_client_id a, pend_job_id = Some (adm_job_id a)\<rparr> inner of
              Inl e \<Rightarrow> Inl (PendingRequestEnqueueError_display e)
            | Inr queued \<Rightarrow> Inr (queued
                \<lparr>reg_request_to_job := (reg_request_to_job queued)(adm_request_id a \<mapsto> adm_job_id a),
                 reg_jobs_by_id := (reg_jobs_by_id queued)(adm_job_id a \<mapsto> admitted_job a runner)\<rparr>)))"

section \<open>Unregistering a project\<close>

text \<open>The jobs that count are those a caller may see, hidden ones included; each visibility check reads the clock.\<close>

definition begin_project_unregister ::
    "ReconcileEnv \<Rightarrow> Clock \<Rightarrow> RunnerAccess option \<Rightarrow> rstr \<Rightarrow> RunnerRegistryInner \<Rightarrow> RunnerRegistryInner \<times> nat" where
  "begin_project_unregister env clk auth project_id inner0 =
     (let inner = refresh_all env clk inner0;
          active = length (filter (\<lambda>job. job_visible_to_access (clk_visible clk (job_id job)) auth job
             \<and> job_project_id job = Some project_id \<and> is_active (job_lifecycle job)) (job_values env inner)) in
      if active = 0
      then (inner\<lparr>reg_unregistering_projects := (reg_unregistering_projects inner)(project_id \<mapsto>
              (case reg_unregistering_projects inner project_id of None \<Rightarrow> 0 | Some count \<Rightarrow> count) + 1)\<rparr>, active)
      else (inner, active))"

text \<open>The count of a fence is at least one (\<open>fences_ok\<close> below), so the subtraction does not underflow.\<close>

definition end_project_unregister :: "rstr \<Rightarrow> RunnerRegistryInner \<Rightarrow> RunnerRegistryInner" where
  "end_project_unregister project_id inner =
     (case reg_unregistering_projects inner project_id of
        None \<Rightarrow> inner
      | Some count \<Rightarrow> inner\<lparr>reg_unregistering_projects := (reg_unregistering_projects inner)(project_id :=
          (if count - 1 = 0 then None else Some (count - 1)))\<rparr>)"

section \<open>Expired Runners and the periodic sweep\<close>

text \<open>The waiters of the drained requests get an error.\<close>

definition resolve_disconnected_sync_requests_locked ::
    "ReconcileEnv \<Rightarrow> rstr \<Rightarrow> RunnerRegistryInner \<Rightarrow> RunnerRegistryInner" where
  "resolve_disconnected_sync_requests_locked env client_id inner =
     fold (\<lambda>rid i. (remove_from_queue client_id rid (take_pending_request_locked rid i))
            \<lparr>reg_persistent_waiters := reg_persistent_waiters i - {rid}\<rparr>)
       (filter (\<lambda>rid. opt_ex (\<lambda>p. pend_job_id p = None \<and> pend_client_id p = client_id) (reg_pending_by_id inner rid))
         (env_pending_order env (reg_pending_by_id inner)))
       inner"

text \<open>A disconnect counts when it comes from the instance and the connection that hold the lease.\<close>

definition holds_lease :: "rstr \<Rightarrow> rstr option \<Rightarrow> RunnerTransport option \<Rightarrow> RunnerRecord \<Rightarrow> bool" where
  "holds_lease instance_id connection_id expected_transport runner \<longleftrightarrow> runner_instance_id runner = instance_id
     \<and> opt_all (\<lambda>c. runner_connection_id runner = Some c) connection_id
     \<and> opt_all (\<lambda>t. runner_transport runner = t) expected_transport"

definition owns_notifier :: "rstr \<Rightarrow> rstr option \<Rightarrow> NotifierEntry \<Rightarrow> bool" where
  "owns_notifier instance_id connection_id entry \<longleftrightarrow> ntf_runner_instance_id entry = instance_id
     \<and> opt_all (\<lambda>c. ntf_connection_id entry = Some c) connection_id"

definition disconnected_job :: "bool \<Rightarrow> int \<Rightarrow> ShellJobRecord \<Rightarrow> candidates \<Rightarrow> ShellJobRecord \<times> candidates" where
  "disconnected_job recoverable now job cands =
     (if recoverable \<and> job_lifecycle job \<noteq> Queued then begin_job_recovery job now RunnerTransportDisconnected cands
      else if job_lifecycle job = Queued then mark_job_lost job now RunnerRequestNotDispatched
        (lit ''Runner transport disconnected before the queued request was dispatched'') cands
      else mark_job_lost job now RunnerDisconnectedWithoutReconciliation
        (lit ''Runner transport disconnected without reconciliation support'') cands)"

definition drop_job_request :: "rstr \<Rightarrow> rstr \<Rightarrow> RunnerRegistryInner \<Rightarrow> RunnerRegistryInner" where
  "drop_job_request client_id request_id inner =
     remove_from_queue client_id request_id (forget_request request_id (take_pending_request_locked request_id inner))"

definition disconnect_job :: "bool \<Rightarrow> int \<Rightarrow> rstr \<Rightarrow> rstr \<Rightarrow> RunnerRegistryInner \<Rightarrow> RunnerRegistryInner" where
  "disconnect_job recoverable now client_id jid inner =
     (case reg_jobs_by_id inner jid of
        None \<Rightarrow> inner
      | Some job \<Rightarrow>
          let inner' = put_job inner jid (disconnected_job recoverable now job (reg_receipt_candidates inner)) in
          case job_request_id job of None \<Rightarrow> inner' | Some rid \<Rightarrow> drop_job_request client_id rid inner')"

definition go_offline ::
    "int \<Rightarrow> rstr \<Rightarrow> rstr \<Rightarrow> rstr option \<Rightarrow> RunnerRecord \<Rightarrow> RunnerRegistryInner \<Rightarrow> RunnerRegistryInner" where
  "go_offline now client_id instance_id connection_id runner inner =
     (let inner1 = (if opt_ex (owns_notifier instance_id connection_id) (reg_notifiers inner client_id)
            then inner\<lparr>reg_notifiers := (reg_notifiers inner)(client_id := None)\<rparr> else inner)
      in inner1\<lparr>reg_runners := (reg_runners inner1)(client_id \<mapsto>
           runner\<lparr>runner_last_seen := offline_last_seen now, runner_disconnected_at := Some now\<rparr>)\<rparr>)"

definition reconcile_disconnect_checked ::
    "ReconcileEnv \<Rightarrow> int \<Rightarrow> rstr \<Rightarrow> rstr \<Rightarrow> rstr option \<Rightarrow> RunnerTransport option \<Rightarrow> RunnerRegistryInner
       \<Rightarrow> RunnerRegistryInner \<times> bool" where
  "reconcile_disconnect_checked env now client_id instance_id connection_id expected_transport inner =
     (case reg_runners inner client_id of
        None \<Rightarrow> (inner, False)
      | Some runner \<Rightarrow>
          if \<not> holds_lease instance_id connection_id expected_transport runner then (inner, False)
          else
            let inner2 = go_offline now client_id instance_id connection_id runner inner;
                affected = map fst (jobs_where env inner2 (\<lambda>job. job_client_id job = client_id
                  \<and> \<not> (is_terminal (job_lifecycle job)
                       \<or> \<not> (job_lifecycle job = Queued \<or> is_runner_active (job_lifecycle job)))));
                inner3 = fold (disconnect_job (runner_supports_reconciliation runner) now client_id) affected inner2;
                inner4 = fold (drop_job_request client_id)
                  (filter (\<lambda>rid. opt_ex (\<lambda>p. pend_client_id p = client_id \<and> pend_job_id p \<noteq> None) (reg_pending_by_id inner3 rid))
                    (env_pending_order env (reg_pending_by_id inner3))) inner3
            in (resolve_disconnected_sync_requests_locked env client_id inner4, True))"

text \<open>\<open>ttl\<close> is the configured time that a Runner of a shared key may be offline.\<close>

definition runner_expired :: "int \<Rightarrow> int \<Rightarrow> RunnerRegistryInner \<Rightarrow> rstr \<Rightarrow> bool" where
  "runner_expired ttl now inner client_id =
     opt_ex (\<lambda>r. (case runner_auth_group r of Some (SharedKey _) \<Rightarrow> True | _ \<Rightarrow> False)
        \<and> reg_notifiers inner client_id = None
        \<and> \<not> i64_sat_sub now (runner_last_seen r) \<le> RUNNER_ONLINE_WINDOW_SECS
        \<and> ttl < i64_sat_sub now (case runner_disconnected_at r of None \<Rightarrow> runner_last_seen r | Some t \<Rightarrow> t))
       (reg_runners inner client_id)"

definition drop_runner :: "rstr \<Rightarrow> RunnerRegistryInner \<Rightarrow> RunnerRegistryInner" where
  "drop_runner client_id inner =
     inner\<lparr>reg_runners := (reg_runners inner)(client_id := None),
       reg_queues_by_runner := (reg_queues_by_runner inner)(client_id := None),
       reg_notifiers := (reg_notifiers inner)(client_id := None),
       reg_retired_instances := (reg_retired_instances inner)(client_id := None),
       reg_unregistering_projects := (\<lambda>p. if starts_with p (lit ''agent:'' @ client_id @ lit '':'') then None
          else reg_unregistering_projects inner p)\<rparr>"

definition expire_job :: "int \<Rightarrow> rstr \<Rightarrow> RunnerRegistryInner \<Rightarrow> RunnerRegistryInner" where
  "expire_job now jid inner =
     (case reg_jobs_by_id inner jid of
        None \<Rightarrow> inner
      | Some job \<Rightarrow> put_job inner jid (mark_job_lost job now SharedKeyRunnerExpired
          (lit ''shared-key runner registration expired after being offline'') (reg_receipt_candidates inner)))"

definition prune_expired_shared_key_runners_locked ::
    "ReconcileEnv \<Rightarrow> ((rstr \<rightharpoonup> RunnerRecord) \<Rightarrow> rstr list) \<Rightarrow> int \<Rightarrow> int \<Rightarrow> RunnerRegistryInner \<times> intents
       \<Rightarrow> RunnerRegistryInner \<times> intents" where
  "prune_expired_shared_key_runners_locked env runners_order ttl now state =
     (let (inner, m) = state;
          expired = filter (runner_expired ttl now inner) (runners_order (reg_runners inner)) in
      if expired = [] then state
      else
        let request_ids = set (filter (\<lambda>rid. opt_ex (\<lambda>p. pend_client_id p \<in> set expired) (reg_pending_by_id inner rid))
              (env_pending_order env (reg_pending_by_id inner)));
            job_ids = map fst (jobs_where env inner (\<lambda>job. job_client_id job \<in> set expired));
            resolved = fold (resolve_disconnected_sync_requests_locked env) expired inner;
            lost = fold (expire_job now) job_ids resolved;
            cleared = lost\<lparr>reg_pending_by_id := (\<lambda>rid. if rid \<in> request_ids then None else reg_pending_by_id lost rid),
              reg_persistent_waiters := reg_persistent_waiters lost - request_ids,
              reg_request_to_job := (\<lambda>rid. case reg_request_to_job lost rid of None \<Rightarrow> None
                | Some jid \<Rightarrow> if rid \<in> request_ids \<or> jid \<in> set job_ids then None else Some jid)\<rparr>
        in (fold drop_runner expired cleared, (\<lambda>jid. if jid \<in> set job_ids then None else m jid)))"

record SweepEnv =
  sw_env :: ReconcileEnv
  sw_intents_order :: "intents \<Rightarrow> rstr list"
  sw_runners_order :: "(rstr \<rightharpoonup> RunnerRecord) \<Rightarrow> rstr list"
  sw_offline_ttl_secs :: int
  sw_now :: int
  sw_cancel :: "rstr \<Rightarrow> StopEnv"

text \<open>The last step, which prunes the store of receipts, does not touch the registry.\<close>

definition recovery_timeout_sweep :: "SweepEnv \<Rightarrow> RunnerRegistryInner \<times> intents \<Rightarrow> RunnerRegistryInner \<times> intents" where
  "recovery_timeout_sweep sw state0 =
     (let env = sw_env sw; now = sw_now sw;
          state1 = process_hidden_cleanup_intents (sw_intents_order sw) (sw_cancel sw) state0;
          (inner2, m2) = prune_expired_shared_key_runners_locked env (sw_runners_order sw) (sw_offline_ttl_secs sw) now state1;
          inner3 = prune_projected_structured_terminal_suppressions_locked now inner2;
          inner4 = fst (expire_recovering_jobs_locked env None now RECOVERY_SWEEP_PASS_CAP inner3);
          (m5, inner5) = fst (prune_expired_terminal_jobs_locked env now (m2, inner4))
      in (inner5, m5))"

section \<open>What an update does to a record\<close>

named_theorems update_fields \<open>the fields of a record after a stage of an update\<close>

lemma observe_fields [update_fields]:
  "job_identity (observe_job_terminal j now) = job_identity j" "job_lifecycle (observe_job_terminal j now) = job_lifecycle j"
  "job_stdout (observe_job_terminal j now) = job_stdout j" "job_stderr (observe_job_terminal j now) = job_stderr j"
  "job_validation_progress (observe_job_terminal j now) = job_validation_progress j"
  "job_validation_steps (observe_job_terminal j now) = job_validation_steps j"
  "job_request_id (observe_job_terminal j now) = job_request_id j" "job_client_id (observe_job_terminal j now) = job_client_id j"
  "job_runner_instance_id (observe_job_terminal j now) = job_runner_instance_id j"
  "job_structured_execution (observe_job_terminal j now) = job_structured_execution j"
  "job_started_at (observe_job_terminal j now) = job_started_at j" "job_ended_at (observe_job_terminal j now) = job_ended_at j"
  "job_exit_code (observe_job_terminal j now) = job_exit_code j" "job_duration_ms (observe_job_terminal j now) = job_duration_ms j"
  "job_error (observe_job_terminal j now) = job_error j" "job_visibility (observe_job_terminal j now) = job_visibility j"
  "job_created_at (observe_job_terminal j now) = job_created_at j"
  "job_last_update_seq (observe_job_terminal j now) = job_last_update_seq j" "job_recovery (observe_job_terminal j now) = job_recovery j"
  by (simp_all add: observe_job_terminal_def job_identity_def)

lemma notify_fields [update_fields]:
  "job_identity (fst (notify_job_update j c)) = job_identity j" "job_lifecycle (fst (notify_job_update j c)) = job_lifecycle j"
  "job_stdout (fst (notify_job_update j c)) = job_stdout j" "job_stderr (fst (notify_job_update j c)) = job_stderr j"
  "job_validation_progress (fst (notify_job_update j c)) = job_validation_progress j"
  "job_validation_steps (fst (notify_job_update j c)) = job_validation_steps j"
  "job_request_id (fst (notify_job_update j c)) = job_request_id j" "job_client_id (fst (notify_job_update j c)) = job_client_id j"
  "job_runner_instance_id (fst (notify_job_update j c)) = job_runner_instance_id j"
  "job_exit_code (fst (notify_job_update j c)) = job_exit_code j" "job_duration_ms (fst (notify_job_update j c)) = job_duration_ms j"
  "job_started_at (fst (notify_job_update j c)) = job_started_at j" "job_ended_at (fst (notify_job_update j c)) = job_ended_at j"
  "job_error (fst (notify_job_update j c)) = job_error j" "job_visibility (fst (notify_job_update j c)) = job_visibility j"
  "job_created_at (fst (notify_job_update j c)) = job_created_at j"
  "job_last_update_seq (fst (notify_job_update j c)) = job_last_update_seq j" "job_recovery (fst (notify_job_update j c)) = job_recovery j"
  by (simp_all add: notify_job_update_def job_identity_def)

lemma identity_fields:
  "job_identity (j\<lparr>job_lifecycle := l\<rparr>) = job_identity j" "job_identity (j\<lparr>job_started_at := t\<rparr>) = job_identity j"
  "job_identity (j\<lparr>job_ended_at := t\<rparr>) = job_identity j" "job_identity (j\<lparr>job_exit_code := x\<rparr>) = job_identity j"
  "job_identity (j\<lparr>job_duration_ms := d\<rparr>) = job_identity j" "job_identity (j\<lparr>job_error := e\<rparr>) = job_identity j"
  "job_identity (j\<lparr>job_stdout := log\<rparr>) = job_identity j" "job_identity (j\<lparr>job_stderr := log\<rparr>) = job_identity j"
  "job_identity (j\<lparr>job_command_execution_state := s\<rparr>) = job_identity j" "job_identity (j\<lparr>job_activity := a\<rparr>) = job_identity j"
  "job_identity (j\<lparr>job_validation_progress := p\<rparr>) = job_identity j" "job_identity (j\<lparr>job_recovery := r\<rparr>) = job_identity j"
  "job_identity (j\<lparr>job_last_update_seq := n\<rparr>) = job_identity j" "job_identity (j\<lparr>job_observation := ob\<rparr>) = job_identity j"
  by (simp_all add: job_identity_def)

lemma identityD:
  "job_identity j = job_identity j' \<Longrightarrow> job_validation_steps j = job_validation_steps j' \<and> job_visibility j = job_visibility j'
     \<and> job_request_id j = job_request_id j' \<and> job_client_id j = job_client_id j' \<and> job_created_at j = job_created_at j'"
  by (simp add: job_identity_def)

lemma reject_fields [update_fields]:
  "job_identity (reject_update clk body code j) = job_identity j" "job_lifecycle (reject_update clk body code j) = Failed"
  "job_ended_at (reject_update clk body code j) = Some (uc_terminal clk)"
  "job_exit_code (reject_update clk body code j) = upd_exit_code body"
  "job_duration_ms (reject_update clk body code j) = upd_duration_ms body"
  "job_stdout (reject_update clk body code j) = job_stdout j" "job_stderr (reject_update clk body code j) = job_stderr j"
  "job_validation_progress (reject_update clk body code j) = job_validation_progress j"
  "job_started_at (reject_update clk body code j) = job_started_at j"
  "job_last_update_seq (reject_update clk body code j) = job_last_update_seq j"
  "job_recovery (reject_update clk body code j) = job_recovery j"
  "job_runner_instance_id (reject_update clk body code j) = job_runner_instance_id j"
  by (simp_all add: reject_update_def Let_def identity_fields update_fields)

lemma update_logs_fields:
  assumes "update_logs body j = Some j'"
  obtains stdout stderr where "j' = j\<lparr>job_stdout := stdout, job_stderr := stderr\<rparr>"
  using assms by (auto simp: update_logs_def Option.bind_eq_Some_conv split: option.splits)

text \<open>The lifecycle that an accepted update leaves.\<close>

definition next_lifecycle :: "RunnerJobUpdateRequest \<Rightarrow> RunnerJobLifecycle \<Rightarrow> ShellJobRecord \<Rightarrow> RunnerJobLifecycle" where
  "next_lifecycle body l j =
     (if is_terminal l then l
      else if upd_finished body then
        (if or_keep (upd_error body) (job_error j) = None \<and> job_exit_code j = Some 0 then Completed else Failed)
      else if l = Queued \<and> job_started_at j \<noteq> None then RunnerQueued
      else l)"

lemma terminal_values [simp]: "is_terminal Completed" "is_terminal Failed" "is_terminal Stopped"
  "\<not> is_terminal Queued" "\<not> is_terminal RunnerQueued" "\<not> is_terminal StopRequested" "\<not> is_terminal Running"
  by (simp_all add: is_terminal_def)

lemma note_validation_fields [update_fields]:
  "job_identity (note_validation body j) = job_identity j" "job_lifecycle (note_validation body j) = job_lifecycle j"
  "job_stdout (note_validation body j) = job_stdout j" "job_stderr (note_validation body j) = job_stderr j"
  "job_validation_progress (note_validation body j) = or_keep (upd_validation_progress body) (job_validation_progress j)"
  "job_started_at (note_validation body j) = job_started_at j" "job_ended_at (note_validation body j) = job_ended_at j"
  "job_exit_code (note_validation body j) = job_exit_code j" "job_duration_ms (note_validation body j) = job_duration_ms j"
  "job_error (note_validation body j) = job_error j" "job_last_update_seq (note_validation body j) = job_last_update_seq j"
  "job_recovery (note_validation body j) = job_recovery j" "job_observation (note_validation body j) = job_observation j"
  by (simp_all add: note_validation_def identity_fields)

lemma note_start_fields [update_fields]:
  "job_identity (note_start clk body l j) = job_identity j" "job_lifecycle (note_start clk body l j) = job_lifecycle j"
  "job_stdout (note_start clk body l j) = job_stdout j" "job_stderr (note_start clk body l j) = job_stderr j"
  "job_validation_progress (note_start clk body l j) = job_validation_progress j"
  "job_ended_at (note_start clk body l j) = job_ended_at j" "job_exit_code (note_start clk body l j) = job_exit_code j"
  "job_duration_ms (note_start clk body l j) = job_duration_ms j" "job_error (note_start clk body l j) = job_error j"
  "job_last_update_seq (note_start clk body l j) = job_last_update_seq j" "job_recovery (note_start clk body l j) = job_recovery j"
  "job_observation (note_start clk body l j) = job_observation j"
  by (simp_all add: note_start_def identity_fields)

lemma note_start_started:
  "job_started_at (note_start clk body l j) \<in> {job_started_at j, Some (uc_started clk)}"
  "l = Queued \<Longrightarrow> job_started_at (note_start clk body l j) = job_started_at j"
  by (auto simp: note_start_def)

lemma note_lifecycle_fields [update_fields]:
  "job_identity (note_lifecycle l j) = job_identity j"
  "\<not> is_terminal (job_lifecycle j) \<Longrightarrow>
     job_lifecycle (note_lifecycle l j) = (if l = Queued \<and> job_started_at j \<noteq> None then RunnerQueued else l)"
  "job_stdout (note_lifecycle l j) = job_stdout j" "job_stderr (note_lifecycle l j) = job_stderr j"
  "job_validation_progress (note_lifecycle l j) = job_validation_progress j" "job_started_at (note_lifecycle l j) = job_started_at j"
  "job_ended_at (note_lifecycle l j) = job_ended_at j" "job_exit_code (note_lifecycle l j) = job_exit_code j"
  "job_duration_ms (note_lifecycle l j) = job_duration_ms j" "job_error (note_lifecycle l j) = job_error j"
  "job_last_update_seq (note_lifecycle l j) = job_last_update_seq j" "job_recovery (note_lifecycle l j) = job_recovery j"
  "job_observation (note_lifecycle l j) = job_observation j"
  by (simp_all add: note_lifecycle_def identity_fields)

lemma note_terminal_fields [update_fields]:
  "job_identity (note_terminal clk body w l j) = job_identity j"
  "job_lifecycle (note_terminal clk body w l j) = (if is_terminal l then l else job_lifecycle j)"
  "job_stdout (note_terminal clk body w l j) = job_stdout j" "job_stderr (note_terminal clk body w l j) = job_stderr j"
  "job_validation_progress (note_terminal clk body w l j) = job_validation_progress j"
  "job_started_at (note_terminal clk body w l j) = job_started_at j"
  "job_ended_at (note_terminal clk body w l j) = (if is_terminal l then Some (uc_terminal clk) else job_ended_at j)"
  "job_exit_code (note_terminal clk body w l j) = (if is_terminal l then upd_exit_code body else job_exit_code j)"
  "job_duration_ms (note_terminal clk body w l j) = (if is_terminal l then upd_duration_ms body else job_duration_ms j)"
  "job_error (note_terminal clk body w l j) = (if is_terminal l then upd_error body else or_keep (upd_error body) (job_error j))"
  "job_last_update_seq (note_terminal clk body w l j) = job_last_update_seq j"
  by (simp_all add: note_terminal_def Let_def identity_fields or_keep_def update_fields)

lemma note_finished_fields [update_fields]:
  "job_identity (note_finished clk body j) = job_identity j"
  "job_lifecycle (note_finished clk body j) = (if upd_finished body \<and> \<not> is_terminal (job_lifecycle j)
     then (if job_error j = None \<and> job_exit_code j = Some 0 then Completed else Failed) else job_lifecycle j)"
  "job_stdout (note_finished clk body j) = job_stdout j" "job_stderr (note_finished clk body j) = job_stderr j"
  "job_validation_progress (note_finished clk body j) = job_validation_progress j"
  "job_started_at (note_finished clk body j) = job_started_at j"
  "job_ended_at (note_finished clk body j) =
     (if upd_finished body \<and> \<not> is_terminal (job_lifecycle j) then Some (uc_terminal clk) else job_ended_at j)"
  "job_exit_code (note_finished clk body j) = job_exit_code j" "job_duration_ms (note_finished clk body j) = job_duration_ms j"
  "job_last_update_seq (note_finished clk body j) = job_last_update_seq j" "job_recovery (note_finished clk body j) = job_recovery j"
  by (simp_all add: note_finished_def Let_def identity_fields update_fields)

lemma note_reconciled_fields [update_fields]:
  "job_identity (note_reconciled clk w j) = job_identity j" "job_lifecycle (note_reconciled clk w j) = job_lifecycle j"
  "job_stdout (note_reconciled clk w j) = job_stdout j" "job_stderr (note_reconciled clk w j) = job_stderr j"
  "job_validation_progress (note_reconciled clk w j) = job_validation_progress j"
  "job_started_at (note_reconciled clk w j) = job_started_at j" "job_ended_at (note_reconciled clk w j) = job_ended_at j"
  "job_exit_code (note_reconciled clk w j) = job_exit_code j" "job_duration_ms (note_reconciled clk w j) = job_duration_ms j"
  "job_last_update_seq (note_reconciled clk w j) = job_last_update_seq j" "job_observation (note_reconciled clk w j) = job_observation j"
  by (simp_all add: note_reconciled_def identity_fields)

lemma update_logs_keep:
  assumes "update_logs body j = Some j'"
  shows "job_identity j' = job_identity j" "job_lifecycle j' = job_lifecycle j" "job_validation_progress j' = job_validation_progress j"
    "job_started_at j' = job_started_at j" "job_ended_at j' = job_ended_at j" "job_exit_code j' = job_exit_code j"
    "job_duration_ms j' = job_duration_ms j" "job_error j' = job_error j" "job_last_update_seq j' = job_last_update_seq j"
    "job_recovery j' = job_recovery j" "job_observation j' = job_observation j"
proof -
  obtain out err where "j' = j\<lparr>job_stdout := out, job_stderr := err\<rparr>" using update_logs_fields [OF assms] by metis
  then show "job_identity j' = job_identity j" "job_lifecycle j' = job_lifecycle j" "job_validation_progress j' = job_validation_progress j"
    "job_started_at j' = job_started_at j" "job_ended_at j' = job_ended_at j" "job_exit_code j' = job_exit_code j"
    "job_duration_ms j' = job_duration_ms j" "job_error j' = job_error j" "job_last_update_seq j' = job_last_update_seq j"
    "job_recovery j' = job_recovery j" "job_observation j' = job_observation j"
    by (simp_all add: identity_fields)
qed

lemma apply_update_eq:
  assumes "apply_update clk body l j = Some j'"
  obtains logged where "update_logs body j = Some logged"
    "j' = note_reconciled clk (recovery_active j) (note_finished clk body (note_terminal clk body (recovery_active j) l
      (note_lifecycle l (note_start clk body l (note_validation body logged)))))"
  using assms by (auto simp: apply_update_def)

lemma apply_update_fields:
  assumes "apply_update clk body l j = Some j'" "\<not> is_terminal (job_lifecycle j)"
  shows "job_identity j' = job_identity j" "job_last_update_seq j' = job_last_update_seq j"
    "job_validation_progress j' = or_keep (upd_validation_progress body) (job_validation_progress j)"
    "job_lifecycle j' = next_lifecycle body l j"
    "job_ended_at j' = (if is_terminal (next_lifecycle body l j) then Some (uc_terminal clk) else job_ended_at j)"
    "job_exit_code j' = (if is_terminal l then upd_exit_code body else job_exit_code j)"
    "job_duration_ms j' = (if is_terminal l then upd_duration_ms body else job_duration_ms j)"
    "job_started_at j' \<in> {job_started_at j, Some (uc_started clk)}"
    "\<exists>logged. update_logs body j = Some logged \<and> job_stdout j' = job_stdout logged \<and> job_stderr j' = job_stderr logged"
proof -
  obtain logged where l: "update_logs body j = Some logged" and
    j': "j' = note_reconciled clk (recovery_active j) (note_finished clk body (note_terminal clk body (recovery_active j) l
      (note_lifecycle l (note_start clk body l (note_validation body logged)))))"
    using apply_update_eq [OF assms(1)] by metis
  note k = update_logs_keep [OF l]
  note d = j' update_fields k assms(2)
  show "job_identity j' = job_identity j" "job_last_update_seq j' = job_last_update_seq j"
    "job_validation_progress j' = or_keep (upd_validation_progress body) (job_validation_progress j)"
    "job_exit_code j' = (if is_terminal l then upd_exit_code body else job_exit_code j)"
    "job_duration_ms j' = (if is_terminal l then upd_duration_ms body else job_duration_ms j)"
    by (simp_all add: d)
  show "\<exists>logged. update_logs body j = Some logged \<and> job_stdout j' = job_stdout logged \<and> job_stderr j' = job_stderr logged"
    using l by (simp add: j' update_fields)
  show "job_started_at j' \<in> {job_started_at j, Some (uc_started clk)}"
    using note_start_started(1) [of clk body l "note_validation body logged"] by (simp add: d)
  define m where "m = note_lifecycle l (note_start clk body l (note_validation body logged))"
  define e where "e = note_terminal clk body (recovery_active j) l m"
  have m: "job_lifecycle m = (if l = Queued \<and> job_started_at j \<noteq> None then RunnerQueued else l)"
    "job_error m = job_error j" "job_exit_code m = job_exit_code j" "job_ended_at m = job_ended_at j"
    using note_start_started(2) [of l clk body "note_validation body logged"]
    by (cases "l = Queued"; simp add: m_def update_fields k assms(2))+
  have e: "job_lifecycle e = (if is_terminal l then l else job_lifecycle m)"
    "job_error e = (if is_terminal l then upd_error body else or_keep (upd_error body) (job_error j))"
    "job_exit_code e = (if is_terminal l then upd_exit_code body else job_exit_code j)"
    "job_ended_at e = (if is_terminal l then Some (uc_terminal clk) else job_ended_at j)"
    by (simp_all only: e_def update_fields m)
  have j'e: "job_lifecycle j' = job_lifecycle (note_finished clk body e)" "job_ended_at j' = job_ended_at (note_finished clk body e)"
    by (simp_all add: j' e_def m_def update_fields(1) note_reconciled_fields)
  have t: "is_terminal (job_lifecycle e) \<longleftrightarrow> is_terminal l" using e(1) m(1) by auto
  show "job_lifecycle j' = next_lifecycle body l j"
    unfolding j'e(1) note_finished_fields t e m(1) next_lifecycle_def by simp
  show "job_ended_at j' = (if is_terminal (next_lifecycle body l j) then Some (uc_terminal clk) else job_ended_at j)"
    unfolding j'e(2) note_finished_fields e m(1) next_lifecycle_def by simp
qed

section \<open>What an update does to the registry\<close>

text \<open>The record that an update leaves when it is neither late nor refused.\<close>

definition update_result ::
    "UpdateClock \<Rightarrow> RunnerJobUpdateRequest \<Rightarrow> RunnerJobLifecycle \<Rightarrow> ShellJobRecord \<Rightarrow> ShellJobRecord option" where
  "update_result clk body l job =
     (case validate_update job body l of
        Inl code \<Rightarrow> Some (reject_update clk body code job)
      | Inr _ \<Rightarrow> apply_update clk body l job)"

definition applies_update ::
    "UpdateClock \<Rightarrow> RunnerJobUpdateRequest \<Rightarrow> nat option \<Rightarrow> RunnerJobLifecycle \<Rightarrow> RunnerRegistryInner \<Rightarrow> ShellJobRecord \<Rightarrow> ShellJobRecord \<Rightarrow> bool" where
  "applies_update clk body n l inner job job' \<longleftrightarrow>
     incoming_update (is_sequenced inner (upd_client_id body)) body = Inr (n, l)
     \<and> reg_jobs_by_id inner (upd_job_id body) = Some job
     \<and> \<not> (is_sequenced inner (upd_client_id body) \<and> opt_ex (\<lambda>sequence. sequence \<le> job_last_update_seq job) n)
     \<and> \<not> is_terminal (job_lifecycle job) \<and> \<not> snapshot_regresses body job \<and> update_result clk body l job = Some job'"

lemma refresh_last_seen_runners:
  obtains rs where "refresh_last_seen clk c conn inner = inner\<lparr>reg_runners := rs\<rparr>"
proof -
  have "refresh_last_seen clk c conn inner = inner\<lparr>reg_runners := reg_runners (refresh_last_seen clk c conn inner)\<rparr>"
    by (simp add: refresh_last_seen_def)
  then show ?thesis by (rule that)
qed

lemma seen_jobs [simp]: "reg_jobs_by_id (refresh_last_seen clk c conn inner) = reg_jobs_by_id inner"
  by (simp add: refresh_last_seen_def)

lemma seen_sequenced [simp]: "is_sequenced (refresh_last_seen clk c conn inner) d = is_sequenced inner d"
  by (cases "reg_runners inner c") (auto simp: refresh_last_seen_def is_sequenced_def opt_ex_def)

lemma find_update_jobD: "find_update_job sequenced body inner = Inr job \<Longrightarrow> reg_jobs_by_id inner (upd_job_id body) = Some job"
  by (auto simp: find_update_job_def split: option.splits)

definition late_update :: "nat option \<Rightarrow> bool \<Rightarrow> ShellJobRecord \<Rightarrow> bool" where
  "late_update n sequenced job \<longleftrightarrow>
     sequenced \<and> opt_ex (\<lambda>sequence. sequence \<le> job_last_update_seq job) n \<or> is_terminal (job_lifecycle job)"

lemma update_cases [consumes 1, case_names refused late commit]:
  assumes "update_job_checked epoch clk body conn inner = Some (inner', r)"
  obtains rs e where "inner' = inner\<lparr>reg_runners := rs\<rparr>" "r = Inl e"
  | rs n l job where "inner' = inner\<lparr>reg_runners := rs\<rparr>" "incoming_update (is_sequenced inner (upd_client_id body)) body = Inr (n, l)"
    "reg_jobs_by_id inner (upd_job_id body) = Some job" "late_update n (is_sequenced inner (upd_client_id body)) job"
  | n l job job' where "applies_update clk body n l inner job job'"
    "inner' = commit_update (upd_job_id body) (updated_job n job job' (reg_receipt_candidates inner))
       (refresh_last_seen clk (upd_client_id body) conn inner)"
    "r = Inr (job_view epoch (uc_view clk) (fst (updated_job n job job' (reg_receipt_candidates inner))))"
proof -
  let ?seen = "refresh_last_seen clk (upd_client_id body) conn inner"
  let ?sequenced = "is_sequenced inner (upd_client_id body)"
  have cands: "reg_receipt_candidates ?seen = reg_receipt_candidates inner" by (simp add: refresh_last_seen_def)
  have same: "inner = inner\<lparr>reg_runners := reg_runners inner\<rparr>" by simp
  obtain rs where rs: "?seen = inner\<lparr>reg_runners := rs\<rparr>" by (rule refresh_last_seen_runners)
  show ?thesis
  proof (cases "and_then (check_update_request body)
      (and_then (assert_active_instance_locked inner (upd_client_id body) (upd_runner_instance_id body)) (incoming_update ?sequenced body))")
    case (Inl e)
    with assms have "inner' = inner" "r = Inl e" by (simp_all add: update_job_checked_def Let_def)
    with same that(1) show ?thesis by metis
  next
    case (Inr p)
    then obtain n l where p: "p = (n, l)" "incoming_update ?sequenced body = Inr (n, l)" by (cases p) auto
    note u = assms [unfolded update_job_checked_def Let_def Inr p(1) sum.case prod.case]
    show ?thesis
    proof (cases "find_update_job ?sequenced body ?seen")
      case (Inl e)
      with u have "inner' = ?seen" "r = Inl e" by simp_all
      with rs that(1) show ?thesis by metis
    next
      case job: (Inr job)
      note found = find_update_jobD [OF this]
      show ?thesis
      proof (cases "late_update n ?sequenced job")
        case True
        then have "inner' = ?seen" using u job by (simp add: late_update_def [symmetric])
        with rs p(2) found True that(2) show ?thesis by (metis seen_jobs)
      next
        case fresh: False
        note u' = u [unfolded job sum.case late_update_def [symmetric], simplified fresh if_False]
        show ?thesis
        proof (cases "snapshot_regresses body job")
          case True
          with u' have "inner' = ?seen" "\<exists>e. r = Inl e" by auto
          with rs that(1) show ?thesis by metis
        next
          case False
          with u' obtain job' where "update_result clk body l job = Some job'"
            "inner' = commit_update (upd_job_id body) (updated_job n job job' (reg_receipt_candidates inner)) ?seen"
            "r = Inr (job_view epoch (uc_view clk) (fst (updated_job n job job' (reg_receipt_candidates inner))))"
            by (auto simp: update_result_def cands)
          with False fresh p(2) found show ?thesis by (intro that(3)) (auto simp: applies_update_def late_update_def)
        qed
      qed
    qed
  qed
qed

lemma jobs_commit_update:
  "reg_jobs_by_id (commit_update jid jc inner) =
     (if cleanup_removable (fst jc) then (reg_jobs_by_id inner)(jid := None) else (reg_jobs_by_id inner)(jid \<mapsto> fst jc))"
  by (auto simp: commit_update_def Let_def put_job_def remove_job_def forget_request_def take_pending_request_locked_def
      split: option.splits)

lemma updated_job_fields:
  "job_identity (fst (updated_job n job job' c)) = job_identity job'"
  "job_lifecycle (fst (updated_job n job job' c)) = job_lifecycle job'"
  "job_stdout (fst (updated_job n job job' c)) = job_stdout job'" "job_stderr (fst (updated_job n job job' c)) = job_stderr job'"
  "job_validation_progress (fst (updated_job n job job' c)) = job_validation_progress job'"
  "job_last_update_seq (fst (updated_job n job job' c)) = (case n of None \<Rightarrow> job_last_update_seq job' | Some m \<Rightarrow> m)"
  by (simp_all add: updated_job_def Let_def update_fields identity_fields split: option.splits)

lemma update_result_identity:
  "update_result clk body l job = Some job' \<Longrightarrow> \<not> is_terminal (job_lifecycle job) \<Longrightarrow>
     job_identity job' = job_identity job \<and> job_last_update_seq job' = job_last_update_seq job"
  by (auto simp: update_result_def update_fields apply_update_fields split: sum.splits)

lemma sequenced_number:
  "incoming_update True body = Inr (n, l) \<Longrightarrow> \<exists>m. n = Some m \<and> upd_update_seq body = Some m \<and> 0 < m"
  by (auto simp: incoming_update_def opt_ex_def split: sum.splits option.splits)

lemma commit_runners: "reg_runners (commit_update jid jc inner) = reg_runners inner"
  by (auto simp: commit_update_def Let_def put_job_def remove_job_def forget_request_def take_pending_request_locked_def
      split: option.splits)

lemma update_keeps_sequenced:
  assumes "update_job_checked epoch clk body conn inner = Some (inner', r)"
  shows "is_sequenced inner' c = is_sequenced inner c"
proof -
  have seq: "is_sequenced x c = is_sequenced inner c" if "reg_runners x = reg_runners (refresh_last_seen clk (upd_client_id body) conn inner)
      \<or> reg_runners x = reg_runners inner" for x
    using that seen_sequenced [of clk "upd_client_id body" conn inner c] by (auto simp: is_sequenced_def)
  have "reg_runners inner' = reg_runners inner \<or> reg_runners inner' = reg_runners (refresh_last_seen clk (upd_client_id body) conn inner)"
    using assms by (auto simp: update_job_checked_def Let_def commit_runners split: sum.splits if_splits)
  then show ?thesis using seq by blast
qed

section \<open>Order of updates\<close>

text \<open>A Job that an update numbered \<open>m\<close> cannot change any more.\<close>

definition past_update :: "nat \<Rightarrow> ShellJobRecord \<Rightarrow> bool" where
  "past_update m job \<longleftrightarrow> is_terminal (job_lifecycle job) \<or> m \<le> job_last_update_seq job"

lemma past_update_inert:
  assumes "is_sequenced inner (upd_client_id body)" "upd_update_seq body = Some m"
    "opt_all (past_update m) (reg_jobs_by_id inner (upd_job_id body))"
  shows "\<exists>rs r. update_job_checked epoch clk body conn inner = Some (inner\<lparr>reg_runners := rs\<rparr>, r)"
proof -
  have no: "\<not> applies_update clk body n l inner job job'" for n l job job'
    using assms sequenced_number [of body n l] by (auto simp: applies_update_def past_update_def)
  have "update_job_checked epoch clk body conn inner \<noteq> None"
  proof
    assume "update_job_checked epoch clk body conn inner = None"
    then obtain n l job where "incoming_update True body = Inr (n, l)"
      "reg_jobs_by_id inner (upd_job_id body) = Some job" "\<not> is_terminal (job_lifecycle job)"
      "\<not> opt_ex (\<lambda>sequence. sequence \<le> job_last_update_seq job) n"
      using assms(1) find_update_jobD [of True body "refresh_last_seen clk (upd_client_id body) conn inner"]
      by (auto simp: update_job_checked_def Let_def split: sum.splits if_splits)
    with assms(2,3) sequenced_number [of body n l] show False by (auto simp: past_update_def)
  qed
  then obtain inner' r where u: "update_job_checked epoch clk body conn inner = Some (inner', r)" by auto
  then show ?thesis by (cases rule: update_cases) (use no u in auto)
qed

lemma update_leaves_past:
  assumes "is_sequenced inner (upd_client_id body)" "upd_update_seq body = Some n" "m \<le> n"
    "update_job_checked epoch clk body conn inner = Some (inner', Inr view)"
  shows "opt_all (past_update m) (reg_jobs_by_id inner' (upd_job_id body))"
  using assms(4)
proof (cases rule: update_cases)
  case (late rs k l job)
  then have "k = Some n" using assms(1,2) sequenced_number [of body k l] by auto
  with late assms(3) show ?thesis by (auto simp: late_update_def past_update_def)
next
  case (commit k l job job')
  then have "k = Some n" using assms(1,2) sequenced_number [of body k l] by (auto simp: applies_update_def)
  with commit(2) assms(3) show ?thesis by (auto simp: jobs_commit_update past_update_def updated_job_fields)
qed simp


text \<open>The part of a Job that only moves forward.\<close>

definition moves_forward :: "RunnerJobUpdateRequest \<Rightarrow> ShellJobRecord \<Rightarrow> ShellJobRecord \<Rightarrow> bool" where
  "moves_forward body job job' \<longleftrightarrow> job_identity job' = job_identity job \<and> job_last_update_seq job < job_last_update_seq job'
     \<and> upd_update_seq body = Some (job_last_update_seq job')
     \<and> progress_count (job_validation_progress job) \<le> progress_count (job_validation_progress job')
     \<and> progress_count (job_validation_progress job') \<le> progress_count (job_validation_progress job) + 1
     \<and> (upd_log_snapshot body \<noteq> None \<longrightarrow> job_advances job job')"

lemma validated_progress_step:
  assumes "validate_update job body l = Inr ()"
  shows "progress_count (job_validation_progress job) \<le> progress_count (or_keep (upd_validation_progress body) (job_validation_progress job))"
    "progress_count (or_keep (upd_validation_progress body) (job_validation_progress job)) \<le> progress_count (job_validation_progress job) + 1"
proof -
  have "validate_validation_progress job body l = Inr ()" using assms by (simp add: validate_update_def)
  then have "opt_all (\<lambda>p. progress_count (job_validation_progress job) \<le> prog_completed p
      \<and> prog_completed p \<le> sat_add (progress_count (job_validation_progress job)) 1) (upd_validation_progress body)"
    by (auto simp: validate_validation_progress_def Let_def invalid_progress_def split: if_splits option.splits)
  then show "progress_count (job_validation_progress job) \<le> progress_count (or_keep (upd_validation_progress body) (job_validation_progress job))"
    "progress_count (or_keep (upd_validation_progress body) (job_validation_progress job)) \<le> progress_count (job_validation_progress job) + 1"
    using sat_add_le(2) [of "progress_count (job_validation_progress job)" 1]
    by (auto simp: or_keep_def progress_count_def split: option.splits)
qed

lemma apply_update_cursors:
  assumes "apply_update clk body l job = Some job'" "upd_log_snapshot body = Some s"
  shows "log_next_line (job_stdout job') = log_next_line (lsnap_stdout s)" "log_next_line (job_stderr job') = log_next_line (lsnap_stderr s)"
  using assms by (auto simp: apply_update_def update_logs_def update_fields replace_log_from_snapshot_def)

lemma update_result_forward:
  assumes "update_result clk body l job = Some job'" "\<not> is_terminal (job_lifecycle job)" "\<not> snapshot_regresses body job"
  shows "job_identity job' = job_identity job"
    "progress_count (job_validation_progress job) \<le> progress_count (job_validation_progress job')"
    "progress_count (job_validation_progress job') \<le> progress_count (job_validation_progress job) + 1"
    "upd_log_snapshot body \<noteq> None \<Longrightarrow> job_advances job job'"
proof -
  show "job_identity job' = job_identity job" using update_result_identity [OF assms(1,2)] by simp
  have "progress_count (job_validation_progress job) \<le> progress_count (job_validation_progress job')
      \<and> progress_count (job_validation_progress job') \<le> progress_count (job_validation_progress job) + 1
      \<and> (upd_log_snapshot body \<noteq> None \<longrightarrow> job_advances job job')"
  proof (cases "validate_update job body l")
    case (Inl code)
    with assms(1) have "job' = reject_update clk body code job" by (simp add: update_result_def)
    then show ?thesis by (simp add: update_fields job_advances_def)
  next
    case (Inr x)
    with assms(1) have a: "apply_update clk body l job = Some job'" by (simp add: update_result_def)
    have v: "validate_update job body l = Inr ()" using Inr by simp
    note p = validated_progress_step [OF v]
    have "job_advances job job'" if "upd_log_snapshot body = Some s" for s
      using apply_update_cursors [OF a that] assms(3) p(1) that
      by (simp add: job_advances_def snapshot_regresses_def apply_update_fields(3) [OF a assms(2)])
    with p show ?thesis by (auto simp: apply_update_fields(3) [OF a assms(2)])
  qed
  then show "progress_count (job_validation_progress job) \<le> progress_count (job_validation_progress job')"
    "progress_count (job_validation_progress job') \<le> progress_count (job_validation_progress job) + 1"
    "upd_log_snapshot body \<noteq> None \<Longrightarrow> job_advances job job'" by auto
qed

text \<open>C13: An update of a Runner that numbers them only moves its own Job forward. Every other Job is untouched, and so is a Job that has
  ended. The Job keeps its identity, its sequence number becomes the larger one of the update, the validation
  progress advances by at most one step, and with an authoritative log snapshot no log cursor goes back. A Job disappears only
  when its cleanup was pending.\<close>

theorem updates_move_jobs_forward:
  assumes "is_sequenced inner (upd_client_id body)" "update_job_checked epoch clk body conn inner = Some (inner', r)"
    "reg_jobs_by_id inner k = Some job"
  shows "reg_jobs_by_id inner' k = Some job
    \<or> k = upd_job_id body \<and> \<not> is_terminal (job_lifecycle job)
       \<and> (case reg_jobs_by_id inner' k of None \<Rightarrow> job_visibility job = CleanupPending | Some job' \<Rightarrow> moves_forward body job job')"
  using assms(2)
proof (cases rule: update_cases)
  case (commit n l old new)
  show ?thesis
  proof (cases "k = upd_job_id body")
    case True
    then have [simp]: "old = job" using commit(1) assms(3) by (simp add: applies_update_def)
    let ?j = "fst (updated_job n job new (reg_receipt_candidates inner))"
    have a: "\<not> is_terminal (job_lifecycle job)" "\<not> snapshot_regresses body job" "update_result clk body l job = Some new"
      "incoming_update True body = Inr (n, l)" "\<not> opt_ex (\<lambda>sequence. sequence \<le> job_last_update_seq job) n"
      using commit(1) assms(1) by (auto simp: applies_update_def)
    obtain m where m: "n = Some m" "upd_update_seq body = Some m" using sequenced_number [OF a(4)] by auto
    note f = update_result_forward [OF a(3,1,2)]
    have "moves_forward body job ?j"
      using f m a(5) by (auto simp: moves_forward_def updated_job_fields job_advances_def)
    moreover have "job_visibility ?j = job_visibility job"
      using f(1) updated_job_fields(1) [of n job new "reg_receipt_candidates inner"] identity_visibility by metis
    ultimately show ?thesis using a(1) True by (simp add: commit(2) jobs_commit_update cleanup_removable_def)
  qed (use assms(3) in \<open>simp add: commit(2) jobs_commit_update\<close>)
qed (use assms(3) in simp_all)

section \<open>Runners without sequence numbers\<close>

text \<open>An older Runner that ends a Job with \<open>finished\<close> and a status that is not terminal always leaves it failed: the exit code of
  the update is only stored with a terminal status, so the test for exit code 0 that follows looks at the record, which has
  none while the Job is active. The update may well say that the command exited with code 0 and without an error.\<close>

theorem legacy_finish_is_always_a_failure:
  assumes "update_job_checked epoch clk body conn inner = Some (inner', Inr view)"
    "\<not> is_sequenced inner (upd_client_id body)" "reg_jobs_by_id inner (upd_job_id body) = Some job"
    "\<not> is_terminal (job_lifecycle job)" "job_exit_code job = None"
    "parse_job_lifecycle (trim (upd_status body)) = Inr l" "\<not> is_terminal l" "upd_finished body" "validate_update job body l = Inr ()"
  shows "view_status view = lit ''failed'' \<and> view_exit_code view = None"
  using assms(1)
proof (cases rule: update_cases)
  case (late rs n l' job')
  then show ?thesis using assms(2-4) by (simp add: late_update_def)
next
  case (commit n l' old new)
  from commit(1) assms(2,3,6) have [simp]: "old = job" "l' = l" by (auto simp: applies_update_def incoming_update_def)
  from commit(1) assms(9) have a: "apply_update clk body l job = Some new" by (simp add: applies_update_def update_result_def)
  have "job_lifecycle new = Failed" "job_exit_code new = None"
    using assms(5,7,8) by (simp_all add: apply_update_fields(4,6) [OF a assms(4)] next_lifecycle_def)
  then have "job_lifecycle (fst (updated_job n job new (reg_receipt_candidates inner))) = Failed"
    "job_exit_code (fst (updated_job n job new (reg_receipt_candidates inner))) = None"
    by (auto simp: updated_job_def Let_def update_fields split: option.splits)
  then show ?thesis using commit(3) by (simp add: job_view_def public_status_def recovery_active_def is_runner_active_def)
qed simp

section \<open>Instances of updates\<close>

definition sample_update :: RunnerJobUpdateRequest where
  "sample_update = \<lparr>upd_client_id = lit ''runner-1'', upd_runner_instance_id = lit ''i'', upd_job_id = lit ''job-1'',
     upd_request_id = Some (lit ''req-1''), upd_update_seq = Some 2, upd_status = lit ''running'', upd_stdout_chunk = None,
     upd_stderr_chunk = None, upd_stdout_tail = None, upd_stderr_tail = None,
     upd_log_snapshot = Some \<lparr>lsnap_stdout = sample_stream, lsnap_stderr = ShellJobLogState_default\<rparr>,
     upd_exit_code = None, upd_duration_ms = None, upd_error = None, upd_command_execution_state = None,
     upd_validation_progress = None, upd_activity = None, upd_finished = False\<rparr>"

definition sample_update_clock :: UpdateClock where
  "sample_update_clock = \<lparr>uc_seen = 30, uc_started = 30, uc_terminal = 30, uc_reconciled = 30, uc_view = 30\<rparr>"

lemma sample_ids: "validate_id (lit ''runner-1'') f = Inr ()" "validate_id (lit ''job-1'') f = Inr ()"
  "validate_runner_instance_id (lit ''i'') = Inr ()"
  by code_simp+

lemma trim_running: "trim (lit ''running'') = lit ''running''"
  by code_simp

lemma sample_update_validates: "validate_update sample_job sample_update Running = Inr ()"
  by (simp add: validate_update_def validate_validation_progress_def validate_command_execution_state_def validate_job_activity_def
      sample_job_def sample_update_def Let_def)

lemma sample_update_answered:
  "\<exists>inner view. update_job_checked (lit ''e'') sample_update_clock sample_update None sample_registry = Some (inner, Inr view)
     \<and> opt_ex (\<lambda>j. job_last_update_seq j = 2) (reg_jobs_by_id inner (lit ''job-1''))"
proof -
  let ?seen = "refresh_last_seen sample_update_clock (lit ''runner-1'') None sample_registry"
  have c: "check_update_request sample_update = Inr ()"
    by (simp add: check_update_request_def sample_update_def sample_ids sample_streams_ok)
  have a: "assert_active_instance_locked sample_registry (lit ''runner-1'') (lit ''i'') = Inr ()"
    by (simp add: assert_active_instance_locked_def sample_registry_def)
  have s: "is_sequenced sample_registry (lit ''runner-1'')" by (simp add: is_sequenced_def sample_registry_def)
  have i: "incoming_update True sample_update = Inr (Some 2, Running)"
    by (simp add: incoming_update_def sample_update_def trim_running parse_job_lifecycle_def running_wire
        check_lifecycle_fields_def is_runner_active_def)
  have f: "find_update_job True sample_update ?seen = Inr sample_job"
    by (simp add: find_update_job_def sample_registry_def sample_job_def sample_update_def recovery_active_def recovering_def)
  have n: "\<not> is_terminal (job_lifecycle sample_job)" "job_last_update_seq sample_job = 1" by (simp_all add: sample_job_def)
  have g: "\<not> snapshot_regresses sample_update sample_job"
    by (simp add: snapshot_regresses_def sample_update_def sample_job_def sample_stream_def ShellJobLogState_default_def)
  obtain j where j: "apply_update sample_update_clock sample_update Running sample_job = Some j"
    by (simp add: apply_update_def update_logs_def sample_update_def)
  have jid: "upd_job_id sample_update = lit ''job-1''" "upd_client_id sample_update = lit ''runner-1''"
    "upd_runner_instance_id sample_update = lit ''i''" by (simp_all add: sample_update_def)
  have "job_visibility j = Public"
    using identity_visibility [OF apply_update_fields(1) [OF j n(1)]] by (simp add: sample_job_def)
  then have "\<not> cleanup_removable (fst (updated_job (Some 2) sample_job j c))" for c
    using identity_visibility [OF updated_job_fields(1), of "Some 2" sample_job j c] by (simp add: cleanup_removable_def)
  then show ?thesis
    using c a s i f n g j
    by (simp add: update_job_checked_def Let_def jid sample_update_validates jobs_commit_update updated_job_fields and_then_def)
qed


theorem updates_move_jobs_forward_witness:
  "\<exists>inner view job. update_job_checked (lit ''e'') sample_update_clock sample_update None sample_registry = Some (inner, Inr view)
     \<and> reg_jobs_by_id inner (lit ''job-1'') = Some job \<and> moves_forward sample_update sample_job job"
proof -
  obtain inner view where u: "update_job_checked (lit ''e'') sample_update_clock sample_update None sample_registry = Some (inner, Inr view)"
    and j: "opt_ex (\<lambda>j. job_last_update_seq j = 2) (reg_jobs_by_id inner (lit ''job-1''))"
    using sample_update_answered by blast
  have "is_sequenced sample_registry (upd_client_id sample_update)" "reg_jobs_by_id sample_registry (lit ''job-1'') = Some sample_job"
    by (simp_all add: is_sequenced_def sample_registry_def sample_update_def)
  from updates_move_jobs_forward [OF this(1) u this(2)] u j show ?thesis
    by (auto simp: sample_job_def opt_ex_def split: option.splits)
qed

definition legacy_update :: RunnerJobUpdateRequest where
  "legacy_update = sample_update\<lparr>upd_update_seq := None, upd_log_snapshot := None, upd_exit_code := Some 0, upd_finished := True\<rparr>"

definition legacy_registry :: RunnerRegistryInner where
  "legacy_registry = sample_registry\<lparr>reg_runners := [lit ''runner-1'' \<mapsto> open_runner\<lparr>runner_supports_reconciliation := False\<rparr>]\<rparr>"

lemma legacy_update_answered:
  "\<exists>inner view. update_job_checked (lit ''e'') sample_update_clock legacy_update None legacy_registry = Some (inner, Inr view)"
proof -
  have c: "check_update_request legacy_update = Inr ()"
    by (simp add: check_update_request_def legacy_update_def sample_update_def sample_ids)
  have a: "assert_active_instance_locked legacy_registry (lit ''runner-1'') (lit ''i'') = Inr ()"
    by (simp add: assert_active_instance_locked_def legacy_registry_def open_runner_def)
  have s: "\<not> is_sequenced legacy_registry (lit ''runner-1'')" by (simp add: is_sequenced_def legacy_registry_def)
  have i: "incoming_update False legacy_update = Inr (None, Running)"
    by (simp add: incoming_update_def legacy_update_def sample_update_def trim_running parse_job_lifecycle_def running_wire)
  have f: "find_update_job False legacy_update (refresh_last_seen sample_update_clock (lit ''runner-1'') None legacy_registry) = Inr sample_job"
    by (simp add: find_update_job_def legacy_registry_def sample_registry_def sample_job_def legacy_update_def sample_update_def)
  have n: "\<not> is_terminal (job_lifecycle sample_job)" by (simp add: sample_job_def)
  obtain j where j: "apply_update sample_update_clock legacy_update Running sample_job = Some j"
    by (simp add: apply_update_def update_logs_def legacy_update_def sample_update_def replace_log_limited_def append_log_limited_def)
  have jid: "upd_job_id legacy_update = lit ''job-1''" "upd_client_id legacy_update = lit ''runner-1''"
    "upd_runner_instance_id legacy_update = lit ''i''" by (simp_all add: legacy_update_def sample_update_def)
  have v: "validate_update sample_job legacy_update Running = Inr ()"
    by (simp add: validate_update_def validate_validation_progress_def validate_command_execution_state_def validate_job_activity_def
        sample_job_def legacy_update_def sample_update_def Let_def)
  have g: "\<not> snapshot_regresses legacy_update sample_job" by (simp add: snapshot_regresses_def legacy_update_def)
  show ?thesis using c a s i f n g j v by (simp add: update_job_checked_def Let_def jid and_then_def)
qed

theorem legacy_finish_is_always_a_failure_witness:
  "\<exists>inner view. update_job_checked (lit ''e'') sample_update_clock legacy_update None legacy_registry = Some (inner, Inr view)
     \<and> upd_exit_code legacy_update = Some 0 \<and> upd_error legacy_update = None
     \<and> view_status view = lit ''failed'' \<and> view_exit_code view = None"
proof -
  obtain inner view where u: "update_job_checked (lit ''e'') sample_update_clock legacy_update None legacy_registry = Some (inner, Inr view)"
    using legacy_update_answered by blast
  have "view_status view = lit ''failed'' \<and> view_exit_code view = None"
  proof (rule legacy_finish_is_always_a_failure [OF u, where job = sample_job and l = Running])
    show "parse_job_lifecycle (trim (upd_status legacy_update)) = Inr Running"
      by (simp add: legacy_update_def sample_update_def trim_running parse_job_lifecycle_def running_wire)
    show "validate_update sample_job legacy_update Running = Inr ()"
      by (simp add: validate_update_def validate_validation_progress_def validate_command_execution_state_def validate_job_activity_def
          sample_job_def legacy_update_def sample_update_def Let_def)
  qed (simp_all add: is_sequenced_def legacy_registry_def sample_registry_def legacy_update_def sample_update_def sample_job_def)
  with u show ?thesis by (simp add: legacy_update_def sample_update_def)
qed

section \<open>Stopping a Job\<close>

definition queue_of :: "RunnerRegistryInner \<Rightarrow> rstr \<Rightarrow> rstr list" where
  "queue_of inner client_id = (case reg_queues_by_runner inner client_id of None \<Rightarrow> [] | Some q \<Rightarrow> q)"

lemma refresh_job_keeps:
  "reg_queues_by_runner (refresh_job clk jid inner) = reg_queues_by_runner inner"
  "reg_pending_by_id (refresh_job clk jid inner) = reg_pending_by_id inner"
  "reg_request_to_job (refresh_job clk jid inner) = reg_request_to_job inner"
  by (simp_all add: refresh_job_def refresh_job_status_locked_def put_job_def split: option.splits)

lemma enqueue_effect:
  assumes "enqueue_pending_request_locked now c rid pending inner = Inr inner'"
  shows "queue_of inner' c = queue_of inner c @ [rid]" "length (queue_of inner' c) \<le> MAX_QUEUED_REQUESTS_PER_RUNNER"
    "reg_pending_by_id inner' = (reg_pending_by_id inner)(rid \<mapsto> pending)" "reg_jobs_by_id inner' = reg_jobs_by_id inner"
    "\<And>d. d \<noteq> c \<Longrightarrow> queue_of inner' d = queue_of inner d"
  using assms
  by (auto simp: enqueue_pending_request_locked_def queue_of_def ensure_queue_capacity_locked_def Let_def
      split: if_splits option.splits)

text \<open>A stop leaves requests alone unless the Job is queued or runs.\<close>

lemma stop_other:
  assumes "\<And>job. reg_jobs_by_id (refresh_job (se_clock se) jid inner) jid = Some job \<Longrightarrow> job_lifecycle job \<notin> {Queued, RunnerQueued, Running}"
  shows "fst (stop_job_for_auth epoch se auth jid inner) \<in> {inner, refresh_job (se_clock se) jid inner}"
  using assms
  by (auto simp: stop_job_for_auth_def Let_def public_job_def split: sum.splits option.splits if_splits RunnerJobLifecycle.splits)

lemma refresh_lifecycle:
  assumes "reg_jobs_by_id inner jid = Some job" "reg_jobs_by_id (refresh_job clk jid inner) jid = Some job'"
  shows "job_lifecycle job' \<in> {job_lifecycle job, Lost}"
proof -
  obtain j where j: "reg_jobs_by_id (refresh_job clk jid inner) jid = Some j" "job_evolves job j"
    using refresh_evolves [OF assms(1)] unfolding refresh_job_def by blast
  then show ?thesis using assms(2) by (cases "is_terminal (job_lifecycle job)") (auto simp: job_evolves_def)
qed

lemma put_job_requests [simp]:
  "reg_queues_by_runner (put_job inner jid jc) = reg_queues_by_runner inner" "reg_pending_by_id (put_job inner jid jc) = reg_pending_by_id inner"
  "reg_request_to_job (put_job inner jid jc) = reg_request_to_job inner" "queue_of (put_job inner jid jc) c = queue_of inner c"
  by (simp_all add: put_job_def queue_of_def)

lemma request_stop_effect:
  assumes "request_stop se notify message jid job inner = Inr inner'"
  shows "queue_of inner' (job_client_id job) = queue_of inner (job_client_id job) @ [se_request_id se]"
    "length (queue_of inner' (job_client_id job)) \<le> MAX_QUEUED_REQUESTS_PER_RUNNER"
    "reg_pending_by_id inner' (se_request_id se) = Some (stop_request (job_client_id job) jid)"
    "opt_ex (\<lambda>j. job_lifecycle j = StopRequested) (reg_jobs_by_id inner' jid)"
proof -
  let ?j = "job\<lparr>job_lifecycle := StopRequested, job_error := Some (lit message)\<rparr>"
  let ?jc = "\<lambda>c. if notify then notify_job_update ?j c else (?j, c)"
  from assms obtain queued where q: "enqueue_pending_request_locked (se_dispatch se) (job_client_id job) (se_request_id se)
      (stop_request (job_client_id job) jid) inner = Inr queued" "inner' = put_job queued jid (?jc (reg_receipt_candidates queued))"
    by (auto simp: request_stop_def Let_def split: sum.splits)
  have l: "job_lifecycle (fst (?jc c)) = StopRequested" for c by (simp add: notify_fields)
  note e = enqueue_effect [OF q(1)]
  show "queue_of inner' (job_client_id job) = queue_of inner (job_client_id job) @ [se_request_id se]"
    "length (queue_of inner' (job_client_id job)) \<le> MAX_QUEUED_REQUESTS_PER_RUNNER"
    "reg_pending_by_id inner' (se_request_id se) = Some (stop_request (job_client_id job) jid)"
    "opt_ex (\<lambda>j. job_lifecycle j = StopRequested) (reg_jobs_by_id inner' jid)"
    using e(1,2) l by (simp_all add: q(2) e(3) jobs_put_job)
qed

lemma drop_start_request_effect:
  assumes "job_request_id job = Some rid"
  shows "reg_pending_by_id (drop_start_request job inner) rid = None" "reg_request_to_job (drop_start_request job inner) rid = None"
    "rid \<notin> set (queue_of (drop_start_request job inner) c)"
  using assms
  by (auto simp: drop_start_request_def forget_request_def remove_pending_request_locked_def remove_request_from_queues_locked_def
      take_pending_request_locked_def queue_of_def split: option.splits)

text \<open>What a stop leaves of a Job, by the lifecycle it found.\<close>

definition stop_outcome :: "StopEnv \<Rightarrow> rstr \<Rightarrow> ShellJobRecord \<Rightarrow> RunnerRegistryInner \<Rightarrow> RunnerRegistryInner \<Rightarrow> bool" where
  "stop_outcome se jid job inner inner' \<longleftrightarrow>
     (if job_lifecycle job = Queued then
        opt_ex (\<lambda>j. job_lifecycle j = Stopped) (reg_jobs_by_id inner' jid)
        \<and> opt_all (\<lambda>rid. reg_pending_by_id inner' rid = None \<and> reg_request_to_job inner' rid = None
            \<and> (\<forall>c. rid \<notin> set (queue_of inner' c))) (job_request_id job)
      else if job_lifecycle job \<in> {RunnerQueued, Running} then
        opt_ex (\<lambda>j. job_lifecycle j = StopRequested) (reg_jobs_by_id inner' jid)
        \<and> queue_of inner' (job_client_id job) = queue_of inner (job_client_id job) @ [se_request_id se]
        \<and> length (queue_of inner' (job_client_id job)) \<le> MAX_QUEUED_REQUESTS_PER_RUNNER
        \<and> reg_pending_by_id inner' (se_request_id se) = Some (stop_request (job_client_id job) jid)
      else reg_queues_by_runner inner' = reg_queues_by_runner inner
        \<and> opt_ex (\<lambda>j. job_lifecycle j = job_lifecycle job) (reg_jobs_by_id inner' jid))"

lemma stop_job_outcome:
  assumes "public_job (se_clock se) auth jid (refresh_job (se_clock se) jid inner) = Inr job"
    "stop_job_for_auth epoch se auth jid inner = (inner', Inr view)"
  shows "stop_outcome se jid job inner inner'"
proof -
  let ?r = "refresh_job (se_clock se) jid inner"
  have job: "reg_jobs_by_id ?r jid = Some job" using assms(1) by (auto simp: public_job_def split: option.splits if_splits)
  have v: "validate_id jid (lit ''job_id'') = Inr ()" using assms(2) by (auto simp: stop_job_for_auth_def Let_def split: sum.splits)
  have na: "\<not> recovery_active job" using assms v by (auto simp: stop_job_for_auth_def Let_def split: if_splits)
  note u = assms(2) [unfolded stop_job_for_auth_def Let_def v assms(1) sum.case, simplified na if_False]
  have q: "queue_of ?r c = queue_of inner c" for c by (simp add: queue_of_def refresh_job_keeps)
  consider "job_lifecycle job = Queued" | "job_lifecycle job \<in> {RunnerQueued, Running}" | "job_lifecycle job \<notin> {Queued, RunnerQueued, Running}"
    by blast
  then show ?thesis
  proof cases
    case 1
    with u have inner': "inner' = put_job (drop_start_request job ?r) jid
        (stop_queued_job (se_terminal se) job (reg_receipt_candidates (drop_start_request job ?r)))" by simp
    have "job_lifecycle (fst (stop_queued_job (se_terminal se) job c)) = Stopped" for c
      by (simp add: stop_queued_job_def Let_def update_fields)
    then show ?thesis
      using 1 drop_start_request_effect [of job _ ?r]
      by (cases "job_request_id job") (auto simp: stop_outcome_def inner' jobs_put_job)
  next
    case 2
    with u have "request_stop se True ''stop requested'' jid job ?r = Inr inner'" by (auto split: sum.splits)
    from request_stop_effect [OF this] 2 q show ?thesis by (auto simp: stop_outcome_def)
  next
    case 3
    with u have "inner' = ?r" by (auto split: RunnerJobLifecycle.splits)
    with 3 job show ?thesis by (auto simp: stop_outcome_def refresh_job_keeps)
  qed
qed

text \<open>Stopping a Job has one effect. A queued Job is ended as stopped and its start request is gone from every queue, so no Runner can
  pick it up. A Job that is with the Runner gets one stop request at the end of the Runner's queue, which stays within its bound,
  and is marked; any other Job is left as it is. A second stop right after the first puts nothing more into the queues.\<close>

theorem stop_requests_are_sent_once:
  assumes "public_job (se_clock se) auth jid (refresh_job (se_clock se) jid inner) = Inr job"
    "stop_job_for_auth epoch se auth jid inner = (inner', Inr view)"
  shows "stop_outcome se jid job inner inner'
    \<and> reg_queues_by_runner (fst (stop_job_for_auth epoch se' auth' jid inner')) = reg_queues_by_runner inner'"
proof
  show o: "stop_outcome se jid job inner inner'" by (rule stop_job_outcome [OF assms])
  have "opt_ex (\<lambda>j. job_lifecycle j \<notin> {Queued, RunnerQueued, Running}) (reg_jobs_by_id inner' jid)"
    using o by (cases "reg_jobs_by_id inner' jid") (auto simp: stop_outcome_def split: if_splits)
  then obtain j where "reg_jobs_by_id inner' jid = Some j" "job_lifecycle j \<notin> {Queued, RunnerQueued, Running}"
    by (auto simp: opt_ex_def split: option.splits)
  then have "fst (stop_job_for_auth epoch se' auth' jid inner') \<in> {inner', refresh_job (se_clock se') jid inner'}"
    using refresh_lifecycle by (intro stop_other) fastforce
  then show "reg_queues_by_runner (fst (stop_job_for_auth epoch se' auth' jid inner')) = reg_queues_by_runner inner'"
    by (auto simp: refresh_job_keeps)
qed

definition sample_stop :: StopEnv where
  "sample_stop = \<lparr>se_clock = sample_clock, se_terminal = 21, se_dispatch = 21, se_request_id = lit ''stop-1''\<rparr>"

lemma sample_stop_public:
  "public_job (se_clock sample_stop) None (lit ''job-1'') (refresh_job (se_clock sample_stop) (lit ''job-1'') sample_registry) = Inr sample_job"
proof -
  have "refresh_job (se_clock sample_stop) (lit ''job-1'') sample_registry = sample_registry" by (simp add: sample_stop_def sample_refresh)
  then show ?thesis
    by (simp add: public_job_def sample_registry_def public_visible_def job_visible_to_access_def sample_job_def JobObservationState_new_def)
qed

lemma sample_stop_sent:
  "\<exists>inner view. stop_job_for_auth (lit ''e'') sample_stop None (lit ''job-1'') sample_registry = (inner, Inr view)
     \<and> opt_ex (\<lambda>j. job_lifecycle j = StopRequested) (reg_jobs_by_id inner (lit ''job-1''))"
proof -
  have r: "refresh_job (se_clock sample_stop) (lit ''job-1'') sample_registry = sample_registry" by (simp add: sample_stop_def sample_refresh)
  have "\<exists>queued. enqueue_pending_request_locked 21 (lit ''runner-1'') (lit ''stop-1'') (stop_request (lit ''runner-1'') (lit ''job-1''))
      sample_registry = Inr queued"
    by (simp add: enqueue_pending_request_locked_def ensure_dispatch_supported_locked_def ensure_queue_capacity_locked_def
        runner_is_connected_locked_def sample_registry_def MAX_QUEUED_REQUESTS_PER_RUNNER_def RUNNER_ONLINE_WINDOW_SECS_def
        i64_sat_sub_def i64_sat_def i64_max_def i64_min_def)
  then obtain inner where i: "request_stop sample_stop True ''stop requested'' (lit ''job-1'') sample_job sample_registry = Inr inner"
    by (auto simp: request_stop_def sample_stop_def sample_job_def Let_def)
  have "\<exists>view. view_of (lit ''e'') sample_clock (lit ''job-1'') inner = Inr view"
    using request_stop_effect(4) [OF i] by (auto simp: view_of_def opt_ex_def split: option.splits)
  then obtain view where view: "view_of (lit ''e'') sample_clock (lit ''job-1'') inner = Inr view" by blast
  have p: "public_job (se_clock sample_stop) None (lit ''job-1'') sample_registry = Inr sample_job" using sample_stop_public r by simp
  have "stop_job_for_auth (lit ''e'') sample_stop None (lit ''job-1'') sample_registry = (inner, Inr view)"
    unfolding stop_job_for_auth_def Let_def sample_ids(2) sum.case r p
    using i view by (simp add: sample_job_def recovery_active_def recovering_def) (simp add: sample_stop_def)
  with request_stop_effect(4) [OF i] show ?thesis by blast
qed

theorem stop_requests_are_sent_once_witness:
  "\<exists>inner view. stop_job_for_auth (lit ''e'') sample_stop None (lit ''job-1'') sample_registry = (inner, Inr view)
     \<and> queue_of inner (lit ''runner-1'') = [lit ''stop-1'']
     \<and> reg_queues_by_runner (fst (stop_job_for_auth (lit ''e'') sample_stop None (lit ''job-1'') inner)) = reg_queues_by_runner inner"
proof -
  obtain inner view where u: "stop_job_for_auth (lit ''e'') sample_stop None (lit ''job-1'') sample_registry = (inner, Inr view)"
    using sample_stop_sent by blast
  from stop_requests_are_sent_once [OF sample_stop_public u]
  have "stop_outcome sample_stop (lit ''job-1'') sample_job sample_registry inner"
    "reg_queues_by_runner (fst (stop_job_for_auth (lit ''e'') sample_stop None (lit ''job-1'') inner)) = reg_queues_by_runner inner" by auto
  moreover from this(1) have "queue_of inner (lit ''runner-1'') = [lit ''stop-1'']"
    by (simp add: stop_outcome_def sample_job_def queue_of_def sample_registry_def sample_stop_def)
  ultimately show ?thesis using u by blast
qed

end
