(* ===== verification/Job_Runs.thy ===== *)
theory Job_Runs
  imports Job_Updates
begin

text \<open>
  The Job registry as a state machine: one step is one call into the registry, of a Runner, a client or the periodic sweep,
  and a run is any interleaving of them. What a record-level invariant has to satisfy for the whole registry to keep
  it is the locale \<open>job_law\<close>. It is interpreted twice: for the outcome of Jobs and for the machine widths of their numbers.
\<close>

section \<open>Steps of the registry\<close>

type_synonym server_state = "RunnerRegistryInner \<times> intents"

text \<open>The laws about a run are relative to what the inputs satisfy: \<open>T\<close> is about clock readings, \<open>U\<close> about updates and \<open>S\<close>
  about the snapshots of a validated inventory.\<close>

definition clock_ok :: "(int \<Rightarrow> bool) \<Rightarrow> Clock \<Rightarrow> bool" where
  "clock_ok T clk \<longleftrightarrow> (\<forall>jid. T (clk_recorded clk jid))"

definition update_clock_ok :: "(int \<Rightarrow> bool) \<Rightarrow> UpdateClock \<Rightarrow> bool" where
  "update_clock_ok T clk \<longleftrightarrow> T (uc_started clk) \<and> T (uc_terminal clk) \<and> T (uc_reconciled clk)"

definition stop_env_ok :: "(int \<Rightarrow> bool) \<Rightarrow> StopEnv \<Rightarrow> bool" where
  "stop_env_ok T se \<longleftrightarrow> clock_ok T (se_clock se) \<and> T (se_terminal se)"

definition sweep_env_ok :: "(int \<Rightarrow> bool) \<Rightarrow> SweepEnv \<Rightarrow> bool" where
  "sweep_env_ok T sw \<longleftrightarrow> T (sw_now sw) \<and> (\<forall>jid. stop_env_ok T (sw_cancel sw jid))"

inductive server_step ::
    "ReconcileEnv \<Rightarrow> rstr \<Rightarrow> (int \<Rightarrow> bool) \<Rightarrow> (RunnerJobUpdateRequest \<Rightarrow> bool) \<Rightarrow> (ShellJobSnapshot \<Rightarrow> bool)
       \<Rightarrow> server_state \<Rightarrow> server_state \<Rightarrow> bool"
  for env epoch T U S where
  admit: "T (adm_created_at a) \<Longrightarrow> admit_job now a inner = Inr inner' \<Longrightarrow> server_step env epoch T U S (inner, m) (inner', m)"
| update: "update_clock_ok T clk \<Longrightarrow> U body \<Longrightarrow> update_job_checked epoch clk body conn inner = Some (inner', r)
     \<Longrightarrow> server_step env epoch T U S (inner, m) (inner', m)"
| stop: "stop_env_ok T se \<Longrightarrow> server_step env epoch T U S (inner, m) (fst (stop_job_for_auth epoch se auth jid inner), m)"
| promote: "clock_ok T clk \<Longrightarrow> server_step env epoch T U S (inner, m) (fst (promote_hidden_job epoch clk jid inner), m)"
| cancel: "stop_env_ok T se \<Longrightarrow> server_step env epoch T U S (inner, m) (fst (cancel_hidden_job_for_auth se auth jid inner), m)"
| project: "server_step env epoch T U S (inner, m) (fst (remove_projected_hidden_terminal_job_record now jid inner), m)"
| intend: "server_step env epoch T U S (inner, m) (inner, record_hidden_cleanup_intent jid auth m)"
| read: "clock_ok T clk \<Longrightarrow> server_step env epoch T U S (inner, m) (refresh_job clk jid inner, m)"
| list: "clock_ok T clk \<Longrightarrow> server_step env epoch T U S (inner, m) (refresh_all env clk inner, m)"
| begin_unregister: "clock_ok T clk \<Longrightarrow> server_step env epoch T U S (inner, m) (fst (begin_project_unregister env clk auth p inner), m)"
| end_unregister: "server_step env epoch T U S (inner, m) (end_project_unregister p inner, m)"
| disconnect: "T now \<Longrightarrow>
     server_step env epoch T U S (inner, m) (fst (reconcile_disconnect_checked env now c i conn transport inner), m)"
| register: "T now \<Longrightarrow> list_all S (jinv_jobs inventory) \<Longrightarrow> iterates env \<Longrightarrow> finite (dom (reg_jobs_by_id inner)) \<Longrightarrow>
     validate_job_inventory_inner env c ps b inventory = Inr () \<Longrightarrow> preflight_inventory_locked inner c i inventory = Inr () \<Longrightarrow>
     prepared env c inventory now inner inner1 \<Longrightarrow> reconcile_inventory_locked env c i g inventory now inner1 = Some (inner', summary)
     \<Longrightarrow> server_step env epoch T U S (inner, m) (inner', m)"
| sweep: "sweep_env_ok T sw \<Longrightarrow> server_step env epoch T U S state (recovery_timeout_sweep sw state)"
| runners: "server_step env epoch T U S (inner, m)
     (inner\<lparr>reg_runners := rs, reg_queues_by_runner := qs, reg_pending_by_id := ps, reg_request_to_job := rj,
       reg_notifiers := ns, reg_retired_instances := ri\<rparr>, m)"

section \<open>Invariants of records\<close>

definition jobs_all :: "(ShellJobRecord \<Rightarrow> bool) \<Rightarrow> RunnerRegistryInner \<Rightarrow> bool" where
  "jobs_all P inner \<longleftrightarrow> (\<forall>k j. reg_jobs_by_id inner k = Some j \<longrightarrow> P j)"

lemma jobs_allD: "jobs_all P inner \<Longrightarrow> reg_jobs_by_id inner k = Some j \<Longrightarrow> P j"
  by (auto simp: jobs_all_def)

lemma jobs_all_put: "jobs_all P inner \<Longrightarrow> P (fst jc) \<Longrightarrow> jobs_all P (put_job inner jid jc)"
  by (auto simp: jobs_all_def put_job_def)

lemma jobs_all_same: "reg_jobs_by_id inner' = reg_jobs_by_id inner \<Longrightarrow> jobs_all P inner' = jobs_all P inner"
  by (simp add: jobs_all_def)

lemma jobs_all_remove: "jobs_all P inner \<Longrightarrow> jobs_all P (remove_job jid inner)"
  by (auto simp: jobs_all_def remove_job_def)

lemma jobs_all_fold:
  assumes "\<And>x i. jobs_all P i \<Longrightarrow> jobs_all P (f x i)" "jobs_all P inner"
  shows "jobs_all P (fold f xs inner)"
  using assms(2) by (induction xs arbitrary: inner) (auto intro: assms(1))

lemma jobs_all_cleanup: "jobs_all P inner \<Longrightarrow> jobs_all P (remove_cleanup_terminal_jobs_locked env inner)"
  unfolding remove_cleanup_terminal_jobs_locked_def by (rule jobs_all_fold [OF jobs_all_remove])

text \<open>Operations on requests and Runners do not touch the Jobs.\<close>

lemma jobs_requests [job_effects]:
  "reg_jobs_by_id (take_pending_request_locked rid inner) = reg_jobs_by_id inner"
  "reg_jobs_by_id (remove_request_from_queues_locked rid inner) = reg_jobs_by_id inner"
  "reg_jobs_by_id (remove_pending_request_locked rid inner) = reg_jobs_by_id inner"
  "reg_jobs_by_id (remove_from_queue c rid inner) = reg_jobs_by_id inner"
  "reg_jobs_by_id (forget_request rid inner) = reg_jobs_by_id inner"
  "reg_jobs_by_id (drop_start_request job inner) = reg_jobs_by_id inner"
  "reg_jobs_by_id (drop_job_request c rid inner) = reg_jobs_by_id inner"
  "reg_jobs_by_id (drop_runner c inner) = reg_jobs_by_id inner"
  "reg_jobs_by_id (end_project_unregister p inner) = reg_jobs_by_id inner"
  by (simp_all add: take_pending_request_locked_def remove_request_from_queues_locked_def remove_pending_request_locked_def
      remove_from_queue_def forget_request_def drop_start_request_def drop_job_request_def drop_runner_def
      end_project_unregister_def split: option.splits)

lemma jobs_resolve [job_effects]:
  "reg_jobs_by_id (resolve_disconnected_sync_requests_locked env c inner) = reg_jobs_by_id inner"
  unfolding resolve_disconnected_sync_requests_locked_def by (rule jobs_fold_same) (simp add: job_effects)

definition valid_snapshot :: "ShellJobSnapshot \<Rightarrow> bool" where
  "valid_snapshot s \<longleftrightarrow> (\<exists>c ps b a. validate_snapshot c ps b s = Inr a)"

lemma validate_jobs_valid: "validate_jobs c ps b counts snaps = Inr counts' \<Longrightarrow> list_all valid_snapshot snaps"
  by (induction c ps b counts snaps rule: validate_jobs.induct) (auto simp: valid_snapshot_def Let_def split: if_splits sum.splits)

lemma inventory_valid: "validate_job_inventory_inner env c ps b inventory = Inr () \<Longrightarrow> list_all valid_snapshot (jinv_jobs inventory)"
  using validate_jobs_valid by (auto simp: validate_job_inventory_inner_def split: sum.splits)

lemma preflight_context:
  assumes "preflight_snapshot inner c i s = Inr ()" "reg_jobs_by_id inner (snap_job_id s) = Some j" "\<not> is_terminal (job_lifecycle j)"
  shows "same_context j s"
  using assms by (auto simp: preflight_snapshot_def preflight_existing_def Let_def split: if_splits)

text \<open>A snapshot finds its Job in a context that it fits.\<close>

definition contexts_fit where
  "contexts_fit i inner snaps \<longleftrightarrow>
     (\<forall>s \<in> set snaps. \<forall>j. reg_jobs_by_id inner (snap_job_id s) = Some j \<longrightarrow> applies i j s \<longrightarrow> same_context j s)"

text \<open>What a property of records has to satisfy to hold of every Job in every run.\<close>

locale job_law =
  fixes P :: "ShellJobRecord \<Rightarrow> bool"
    and T :: "int \<Rightarrow> bool"
    and U :: "RunnerJobUpdateRequest \<Rightarrow> bool"
    and S :: "ShellJobSnapshot \<Rightarrow> bool"
  assumes admitted: "T (adm_created_at a) \<Longrightarrow> P (admitted_job a runner)"
    and lost: "T now \<Longrightarrow> P j \<Longrightarrow> P (lost_record now reason message j)"
    and recovered: "T now \<Longrightarrow> P j \<Longrightarrow> P (fst (begin_job_recovery j now reason cands))"
    and observed: "T now \<Longrightarrow> P j \<Longrightarrow> P (observe_job_terminal j now)"
    and notified: "P j \<Longrightarrow> P (fst (notify_job_update j cands))"
    and shown: "P j \<Longrightarrow> P (j\<lparr>job_visibility := v\<rparr>)"
    and stopped: "T now \<Longrightarrow> P j \<Longrightarrow> job_lifecycle j = Queued \<Longrightarrow> P (fst (stop_queued_job now j cands))"
    and stopping: "P j \<Longrightarrow> is_runner_active (job_lifecycle j) \<Longrightarrow> P (j\<lparr>job_lifecycle := StopRequested, job_error := e\<rparr>)"
    and updated: "update_clock_ok T clk \<Longrightarrow> U body \<Longrightarrow> P j \<Longrightarrow> \<not> is_terminal (job_lifecycle j) \<Longrightarrow>
      incoming_update sequenced body = Inr (n, l) \<Longrightarrow> update_result clk body l j = Some j' \<Longrightarrow> P (fst (updated_job n j j' cands))"
    and reconciled: "T now \<Longrightarrow> S s \<Longrightarrow> valid_snapshot s \<Longrightarrow> same_context j s \<Longrightarrow> applies i j s \<Longrightarrow> P j \<Longrightarrow> P (applied i now s j)"
    and rebuilt: "T now \<Longrightarrow> S s \<Longrightarrow> valid_snapshot s \<Longrightarrow> reconstruct_job c i g now s inner = Some (j, cands) \<Longrightarrow> P j"
begin

abbreviation ok where "ok \<equiv> jobs_all P"

lemma ok_lose: "ok inner \<Longrightarrow> T now \<Longrightarrow> reg_jobs_by_id inner k = Some j \<Longrightarrow> ok (put_job inner jid (mark_job_lost j now reason message cands))"
  by (auto intro!: jobs_all_put simp: mark_job_lost_fst lost dest: jobs_allD)

lemma ok_recover: "ok inner \<Longrightarrow> T now \<Longrightarrow> reg_jobs_by_id inner k = Some j \<Longrightarrow> ok (put_job inner jid (begin_job_recovery j now reason cands))"
  by (auto intro!: jobs_all_put recovered dest: jobs_allD)

lemma ok_refresh: "clock_ok T clk \<Longrightarrow> ok inner \<Longrightarrow> ok (refresh_job clk jid inner)"
  unfolding refresh_job_def refresh_job_status_locked_def clock_ok_def
  by (auto split: option.splits intro: ok_lose ok_recover)

lemma ok_refresh_all: "clock_ok T clk \<Longrightarrow> ok inner \<Longrightarrow> ok (refresh_all env clk inner)"
  unfolding refresh_all_def by (rule jobs_all_fold [OF ok_refresh])

lemma ok_admit:
  assumes "ok inner" "T (adm_created_at a)" "admit_job now a inner = Inr inner'"
  shows "ok inner'"
proof -
  obtain runner queued where q: "enqueue_pending_request_locked now (adm_client_id a) (adm_request_id a)
      \<lparr>pend_client_id = adm_client_id a, pend_job_id = Some (adm_job_id a)\<rparr> inner = Inr queued"
    "reg_jobs_by_id inner' = (reg_jobs_by_id queued)(adm_job_id a \<mapsto> admitted_job a runner)"
    using assms(3) by (auto simp: admit_job_def split: option.splits if_splits sum.splits)
  show ?thesis
    using assms(1) admitted [OF assms(2), of runner] by (auto simp: jobs_all_def q(2) enqueue_effect(4) [OF q(1)])
qed

lemma ok_update:
  assumes "ok inner" "update_clock_ok T clk" "U body" "update_job_checked epoch clk body conn inner = Some (inner', r)"
  shows "ok inner'"
  using assms(4)
proof (cases rule: update_cases)
  case (commit n l job job')
  then have a: "reg_jobs_by_id inner (upd_job_id body) = Some job" "\<not> is_terminal (job_lifecycle job)"
    "incoming_update (is_sequenced inner (upd_client_id body)) body = Inr (n, l)" "update_result clk body l job = Some job'"
    by (auto simp: applies_update_def)
  have "P (fst (updated_job n job job' (reg_receipt_candidates inner)))"
    by (rule updated [OF assms(2,3) jobs_allD [OF assms(1) a(1)] a(2-4)])
  with assms(1) show ?thesis by (auto simp: commit(2) jobs_all_def jobs_commit_update split: if_splits)
qed (use assms(1) in \<open>auto simp: jobs_all_def\<close>)

lemma ok_request_stop:
  assumes "ok inner" "P job" "is_runner_active (job_lifecycle job)" "request_stop se notify message jid job inner = Inr inner'"
  shows "ok inner'"
proof -
  let ?j = "job\<lparr>job_lifecycle := StopRequested, job_error := Some (lit message)\<rparr>"
  obtain queued where q: "enqueue_pending_request_locked (se_dispatch se) (job_client_id job) (se_request_id se)
      (stop_request (job_client_id job) jid) inner = Inr queued"
    "inner' = put_job queued jid (if notify then notify_job_update ?j (reg_receipt_candidates queued) else (?j, reg_receipt_candidates queued))"
    using assms(4) by (auto simp: request_stop_def Let_def split: sum.splits)
  have "ok queued" using assms(1) jobs_all_same [OF enqueue_effect(4) [OF q(1)]] by simp
  moreover have "P ?j" by (rule stopping [OF assms(2,3)])
  ultimately show ?thesis unfolding q(2) using notified by (auto intro!: jobs_all_put)
qed

lemma ok_stop:
  assumes "ok inner" "stop_env_ok T se"
  shows "ok (fst (stop_job_for_auth epoch se auth jid inner))"
proof -
  let ?r = "refresh_job (se_clock se) jid inner"
  have r: "ok ?r" using assms by (simp add: ok_refresh stop_env_ok_def)
  have t: "T (se_terminal se)" using assms(2) by (simp add: stop_env_ok_def)
  have job: "P job" if "public_job (se_clock se) auth jid ?r = Inr job" for job
    using that r by (auto simp: public_job_def split: option.splits if_splits dest: jobs_allD)
  have queued: "ok (put_job (drop_start_request j ?r) jid (stop_queued_job (se_terminal se) j c))"
    if "P j" "job_lifecycle j = Queued" for j c
    using jobs_all_same [of "drop_start_request j ?r" ?r P] r stopped [OF t that]
    by (auto intro!: jobs_all_put simp: job_effects)
  have run: "ok inner'" if "P j" "job_lifecycle j \<in> {RunnerQueued, Running}" "request_stop se n m jid j ?r = Inr inner'" for j n m inner'
    by (rule ok_request_stop [OF r that(1) _ that(3)]) (use that(2) in \<open>auto simp: is_runner_active_def\<close>)
  show ?thesis
    using assms(1) r job queued run
    by (auto simp: stop_job_for_auth_def Let_def split: sum.splits if_splits RunnerJobLifecycle.splits)
qed

lemma ok_update_record: "ok inner \<Longrightarrow> P j \<Longrightarrow> ok (inner\<lparr>reg_jobs_by_id := (reg_jobs_by_id inner)(jid \<mapsto> j)\<rparr>)"
  by (auto simp: jobs_all_def)

lemma ok_promote:
  assumes "ok inner" "clock_ok T clk"
  shows "ok (fst (promote_hidden_job epoch clk jid inner))"
proof -
  have r: "ok (refresh_job clk jid inner)" by (rule ok_refresh [OF assms(2,1)])
  have "ok (refresh_job clk jid inner\<lparr>reg_jobs_by_id := (reg_jobs_by_id (refresh_job clk jid inner))(jid \<mapsto> j\<lparr>job_visibility := Public\<rparr>)\<rparr>)"
    if "reg_jobs_by_id (refresh_job clk jid inner) jid = Some j" for j
    by (rule ok_update_record [OF r shown [OF jobs_allD [OF r that]]])
  with r show ?thesis by (simp add: promote_hidden_job_def Let_def split: option.splits)
qed

lemma ok_cancel:
  assumes "ok inner" "stop_env_ok T se"
  shows "ok (fst (cancel_hidden_job_for_auth se auth jid inner))"
proof -
  let ?r = "refresh_job (se_clock se) jid inner"
  have r: "ok ?r" using assms by (simp add: ok_refresh stop_env_ok_def)
  let ?p = "\<lambda>j. ?r\<lparr>reg_jobs_by_id := (reg_jobs_by_id ?r)(jid \<mapsto> j\<lparr>job_visibility := CleanupPending\<rparr>)\<rparr>"
  have p: "ok (?p j)" "P (j\<lparr>job_visibility := CleanupPending\<rparr>)" if "reg_jobs_by_id ?r jid = Some j" for j
    using shown [OF jobs_allD [OF r that]] ok_update_record [OF r] by auto
  have q: "ok inner'" if "reg_jobs_by_id ?r jid = Some j" "is_runner_active (job_lifecycle j)"
    "request_stop se n m jid (j\<lparr>job_visibility := CleanupPending\<rparr>) (?p j) = Inr inner'" for j n m inner'
    by (rule ok_request_stop [OF p [OF that(1)] _ that(3)]) (use that(2) in simp)
  have d: "ok (remove_job jid (drop_start_request j ?r))" "ok (remove_job jid ?r)" for j
    using r jobs_all_same [of "drop_start_request j ?r" ?r P] by (auto intro: jobs_all_remove simp: job_effects)
  show ?thesis
    using assms(1) r p(1) q d by (auto simp: cancel_hidden_job_for_auth_def Let_def split: sum.splits option.splits)
qed

lemma ok_project: "ok inner \<Longrightarrow> ok (fst (remove_projected_hidden_terminal_job_record now jid inner))"
  by (auto simp: remove_projected_hidden_terminal_job_record_def Let_def jobs_all_def job_effects remove_job_def split: option.splits)

lemma ok_begin_unregister:
  assumes "ok inner" "clock_ok T clk"
  shows "ok (fst (begin_project_unregister env clk auth p inner))"
  using ok_refresh_all [OF assms(2,1), of env] by (simp add: begin_project_unregister_def Let_def jobs_all_def)

lemma ok_disconnect_job:
  assumes "T now" "ok inner"
  shows "ok (disconnect_job recoverable now c jid inner)"
proof -
  have "ok (put_job inner jid (disconnected_job recoverable now j cands))" if "reg_jobs_by_id inner jid = Some j" for j cands
    using ok_lose [OF assms(2,1) that] ok_recover [OF assms(2,1) that] by (simp add: disconnected_job_def)
  then show ?thesis
    using assms(2) by (auto simp: disconnect_job_def Let_def jobs_all_def job_effects split: option.splits)
qed

lemma ok_disconnect:
  assumes "T now" "ok inner"
  shows "ok (fst (reconcile_disconnect_checked env now c i conn transport inner))"
proof -
  have f: "ok (fold (disconnect_job rec now c) xs x)" if "reg_jobs_by_id x = reg_jobs_by_id inner" for rec xs x
    by (rule jobs_all_fold [OF ok_disconnect_job [OF assms(1)]]) (use assms(2) jobs_all_same [OF that] in auto)
  have g: "ok (fold (drop_job_request c) ys x)" if "ok x" for ys x
    by (rule jobs_all_fold [OF _ that]) (simp add: jobs_all_def job_effects)
  have h: "ok (resolve_disconnected_sync_requests_locked env c x) = ok x" for x by (simp add: jobs_all_def job_effects)
  have o: "reg_jobs_by_id (go_offline now c i conn r inner) = reg_jobs_by_id inner" for r by (simp add: go_offline_def Let_def)
  show ?thesis
    using assms(2) o by (auto simp: reconcile_disconnect_checked_def Let_def h split: option.splits intro!: f g)
qed

lemma ok_intents:
  assumes "ok inner" "\<And>jid. stop_env_ok T (se jid)"
  shows "ok (fst (process_hidden_cleanup_intents order se (inner, m)))"
proof -
  have "ok (fst (fold (cancel_intent se m) xs state))" if "ok (fst state)" for xs state
    using that
  proof (induction xs arbitrary: state)
    case (Cons x xs)
    have "ok (fst (cancel_intent se m x state))"
      using Cons.prems ok_cancel [OF _ assms(2)] by (cases state) (simp add: cancel_intent_def split_beta Let_def split: option.splits)
    then show ?case using Cons.IH by simp
  qed simp
  with assms(1) show ?thesis by (simp add: process_hidden_cleanup_intents_def)
qed

lemma ok_expire_job: "T now \<Longrightarrow> ok inner \<Longrightarrow> ok (expire_job now jid inner)"
  by (auto simp: expire_job_def split: option.splits intro: ok_lose)

lemma ok_prune_runners:
  assumes "T now" "ok inner"
  shows "ok (fst (prune_expired_shared_key_runners_locked env order ttl now (inner, m)))"
proof -
  have a: "reg_jobs_by_id (fold (resolve_disconnected_sync_requests_locked env) xs inner) = reg_jobs_by_id inner" for xs
    by (rule jobs_fold_same) (simp add: job_effects)
  have b: "ok (fold (expire_job now) ys (fold (resolve_disconnected_sync_requests_locked env) xs inner))" for xs ys
    by (rule jobs_all_fold [OF ok_expire_job [OF assms(1)]]) (use assms(2) jobs_all_same [OF a] in auto)
  have c: "reg_jobs_by_id (fold drop_runner zs x) = reg_jobs_by_id x" for zs x by (rule jobs_fold_same) (simp add: job_effects)
  show ?thesis
    using assms(2) b by (simp add: prune_expired_shared_key_runners_locked_def Let_def jobs_all_def c)
qed

lemma ok_expire:
  assumes "T now" "ok inner"
  shows "ok (fst (expire_recovering_jobs_locked env f now cap inner))"
proof -
  have "ok (lose_if_recovering now jid x)" if "ok x" for jid x
    using that assms(1) by (auto simp: lose_if_recovering_def split: option.splits intro: ok_lose)
  from jobs_all_fold [of P "lose_if_recovering now", OF this assms(2)] have "ok (fold (lose_if_recovering now) xs inner)" for xs .
  then have "ok (remove_requests env ys (fold (lose_if_recovering now) xs inner))" for xs ys by (simp add: jobs_all_def job_effects)
  with assms(2) show ?thesis by (simp add: expire_recovering_jobs_locked_def Let_def jobs_all_cleanup)
qed

lemma ok_prune_terminal:
  assumes "T now" "ok inner"
  shows "ok (snd (fst (prune_expired_terminal_jobs_locked env now (m, inner))))"
proof -
  have "ok ((case a of Observe jid \<Rightarrow> observe_job now jid | Remove _ _ _ \<Rightarrow> id) x)" if "ok x" for a x
    using that assms(1)
    by (auto simp: observe_job_def split: TerminalSweepAction.splits option.splits intro!: jobs_all_put observed dest: jobs_allD)
  from jobs_all_fold [of P "\<lambda>a. case a of Observe jid \<Rightarrow> observe_job now jid | Remove _ _ _ \<Rightarrow> id", OF this assms(2)]
  have o: "ok (fold (\<lambda>a. case a of Observe jid \<Rightarrow> observe_job now jid | Remove _ _ _ \<Rightarrow> id) xs inner)" for xs .
  have r: "ok (fold remove_job ys y)" if "reg_jobs_by_id y = reg_jobs_by_id x" "ok x" for x y ys
    by (rule jobs_all_fold [OF jobs_all_remove]) (use that jobs_all_same [OF that(1)] in auto)
  show ?thesis
    using assms(2) o by (auto simp: prune_expired_terminal_jobs_locked_def Let_def job_effects intro!: r [OF _ o])
qed

lemma ok_sweep:
  assumes "sweep_env_ok T sw" "ok (fst state)"
  shows "ok (fst (recovery_timeout_sweep sw state))"
proof -
  have t: "T (sw_now sw)" and se: "stop_env_ok T (sw_cancel sw jid)" for jid using assms(1) by (auto simp: sweep_env_ok_def)
  let ?s1 = "process_hidden_cleanup_intents (sw_intents_order sw) (sw_cancel sw) state"
  let ?s2 = "prune_expired_shared_key_runners_locked (sw_env sw) (sw_runners_order sw) (sw_offline_ttl_secs sw) (sw_now sw) ?s1"
  let ?i3 = "prune_projected_structured_terminal_suppressions_locked (sw_now sw) (fst ?s2)"
  let ?i4 = "fst (expire_recovering_jobs_locked (sw_env sw) None (sw_now sw) RECOVERY_SWEEP_PASS_CAP ?i3)"
  have "ok (fst ?s1)" using ok_intents [of "fst state" "sw_cancel sw" _ "snd state", OF assms(2) se] by simp
  then have "ok (fst ?s2)" using ok_prune_runners [OF t, where inner = "fst ?s1" and m = "snd ?s1"] by simp
  then have "ok ?i3" by (simp add: jobs_all_def job_effects)
  then have "ok ?i4" by (rule ok_expire [OF t])
  from ok_prune_terminal [OF t this]
  show ?thesis by (simp add: recovery_timeout_sweep_def Let_def split_beta)
qed

lemma ok_reconcile_snapshot:
  assumes "ok inner" "T now" "S s" "valid_snapshot s" "contexts_fit i inner [s]"
    "reconcile_snapshot c i g now s (inner, summary) = Some (inner', summary')"
  shows "ok inner'"
proof (cases "reg_jobs_by_id inner (snap_job_id s)")
  case (Some j)
  have "P (applied i now s j)"
    using jobs_allD [OF assms(1) Some] reconciled [OF assms(2-4), of j i] assms(5) Some
    by (cases "applies i j s") (auto simp: contexts_fit_def)
  moreover have "reg_jobs_by_id inner' = (reg_jobs_by_id inner)(snap_job_id s \<mapsto> applied i now s j)"
    using assms(6) Some reconcile_existing_job [of c i now s j inner summary inner' summary'] by (simp add: reconcile_snapshot_def)
  ultimately show ?thesis using assms(1) by (auto simp: jobs_all_def)
next
  case None
  have "reg_jobs_by_id inner' = reg_jobs_by_id inner
      \<or> (\<exists>jc. reconstruct_job c i g now s inner = Some jc \<and> reg_jobs_by_id inner' = (reg_jobs_by_id inner)(snap_job_id s \<mapsto> fst jc))"
    using assms(6) None by (auto simp: reconcile_snapshot_def job_effects split: if_splits)
  then show ?thesis
  proof
    assume "reg_jobs_by_id inner' = reg_jobs_by_id inner"
    from jobs_all_same [OF this] assms(1) show ?thesis by simp
  next
    assume "\<exists>jc. reconstruct_job c i g now s inner = Some jc \<and> reg_jobs_by_id inner' = (reg_jobs_by_id inner)(snap_job_id s \<mapsto> fst jc)"
    then obtain j cands where j: "reconstruct_job c i g now s inner = Some (j, cands)"
      "reg_jobs_by_id inner' = (reg_jobs_by_id inner)(snap_job_id s \<mapsto> j)" by auto
    with rebuilt [OF assms(2-4) j(1)] assms(1) show ?thesis by (auto simp: jobs_all_def)
  qed
qed

lemma ok_reconcile_each:
  "reconcile_each c i g now snaps (inner, summary) = Some (inner', summary') \<Longrightarrow> ok inner \<Longrightarrow> T now \<Longrightarrow>
     list_all S snaps \<Longrightarrow> list_all valid_snapshot snaps \<Longrightarrow> distinct (map snap_job_id snaps) \<Longrightarrow> contexts_fit i inner snaps \<Longrightarrow> ok inner'"
proof (induction snaps arbitrary: inner summary)
  case (Cons t snaps)
  from Cons.prems(1) obtain inner1 summary1 where st: "reconcile_snapshot c i g now t (inner, summary) = Some (inner1, summary1)"
    "reconcile_each c i g now snaps (inner1, summary1) = Some (inner', summary')" by (rule reconcile_each_Cons)
  have "ok inner1"
    by (rule ok_reconcile_snapshot [OF Cons.prems(2,3) _ _ _ st(1)]) (use Cons.prems(4,5,7) in \<open>auto simp: contexts_fit_def\<close>)
  moreover have "contexts_fit i inner1 snaps"
    unfolding contexts_fit_def
  proof (intro ballI allI impI)
    fix s j assume s: "s \<in> set snaps" "reg_jobs_by_id inner1 (snap_job_id s) = Some j" "applies i j s"
    have "snap_job_id s \<noteq> snap_job_id t" using s(1) Cons.prems(6) by (metis distinct.simps(2) image_eqI list.map(2) set_map)
    with reconcile_snapshot_job(1) [OF st(1) this] s(2) have "reg_jobs_by_id inner (snap_job_id s) = Some j" by simp
    with Cons.prems(7) s(1,3) show "same_context j s" by (auto simp: contexts_fit_def)
  qed
  ultimately show ?case using Cons.IH [OF st(2) _ Cons.prems(3)] Cons.prems(4-6) by simp
qed simp

lemma ok_settle:
  assumes "jobs_settle now a b" "T now" "ok a"
  shows "ok b"
proof -
  have "P j'" if "settled now j j'" "P j" for j j'
    using that lost [OF assms(2)] by (auto simp: settled_def)
  then show ?thesis using assms(3) jobs_settle_back [OF assms(1)] unfolding jobs_all_def by metis
qed

lemma ok_register:
  assumes "ok inner" "T now" "list_all S (jinv_jobs inventory)" "iterates env" "finite (dom (reg_jobs_by_id inner))"
    "validate_job_inventory_inner env c ps b inventory = Inr ()" "preflight_inventory_locked inner c i inventory = Inr ()"
    "prepared env c inventory now inner inner1" "reconcile_inventory_locked env c i g inventory now inner1 = Some (inner', summary)"
  shows "ok inner'"
proof -
  let ?b = "before_snapshots env c i inventory now inner1"
  have s1: "jobs_settle now inner inner1" by (rule prepared_settle [OF assms(8,4,5)])
  have s: "jobs_settle now inner ?b"
    by (rule jobs_settle_trans [OF s1 before_snapshots_settle(1) [OF assms(4) jobs_settle_finite [OF s1 assms(5)]]])
  obtain summary0 inner4 where r: "reconcile_each c i g now (jinv_jobs inventory) (?b, summary0) = Some (inner4, summary)"
    "inner' = remove_cleanup_terminal_jobs_locked env inner4" by (rule reconcile_inventory_phases [OF assms(9)])
  have "contexts_fit i ?b (jinv_jobs inventory)"
    unfolding contexts_fit_def
  proof (intro ballI allI impI)
    fix t j assume t: "t \<in> set (jinv_jobs inventory)" "reg_jobs_by_id ?b (snap_job_id t) = Some j" "applies i j t"
    have nt: "\<not> is_terminal (job_lifecycle j)" using t(3) by (simp add: applies_def)
    obtain k where k: "reg_jobs_by_id inner (snap_job_id t) = Some k" "settled now k j" using jobs_settle_back [OF s t(2)] by metis
    then have "k = j" using nt by (auto simp: settled_def)
    with k(1) preflight_context [OF preflight_eachD [OF assms(7) [unfolded preflight_inventory_locked_def] t(1)]] nt
    show "same_context j t" by simp
  qed
  from ok_reconcile_each [OF r(1) ok_settle [OF s assms(2,1)] assms(2,3) inventory_valid [OF assms(6)] validate_inventory_ok(2) [OF assms(6)] this]
  show ?thesis by (simp add: r(2) jobs_all_cleanup)
qed

lemma step_ok: "server_step env epoch T U S state state' \<Longrightarrow> ok (fst state) \<Longrightarrow> ok (fst state')"
proof (induction rule: server_step.induct)
  case (register now inventory inner c ps b i inner1 g inner' summary m)
  from register.hyps register.prems show ?case using ok_register by simp
next
  case (runners inner m rs qs ps rj ns ri)
  then show ?case by (simp add: jobs_all_def)
next
  case (end_unregister inner m p)
  then show ?case by (simp add: jobs_all_def job_effects)
qed (auto intro: ok_admit ok_update ok_stop ok_promote ok_cancel ok_project ok_refresh ok_refresh_all ok_begin_unregister
    ok_disconnect ok_sweep)

lemma run_ok: "(server_step env epoch T U S)\<^sup>*\<^sup>* state state' \<Longrightarrow> ok (fst state) \<Longrightarrow> ok (fst state')"
  by (induction rule: rtranclp_induct) (auto intro: step_ok)

end

section \<open>Outcomes\<close>

text \<open>A Job has an end time exactly when it has ended; exit code and duration belong to ended Jobs; the validation progress stays within
  the plan, and a validation that completed has completed every step of its plan.\<close>

definition all_steps_done :: "rstr list \<Rightarrow> ShellJobValidationProgress option \<Rightarrow> bool" where
  "all_steps_done steps progress =
     opt_ex (\<lambda>p. prog_completed p = length steps \<and> prog_current_step p = None \<and> prog_failed_step p = None) progress"

definition outcome_consistent ::
    "RunnerJobLifecycle \<Rightarrow> int option \<Rightarrow> int option \<Rightarrow> nat option \<Rightarrow> rstr list \<Rightarrow> ShellJobValidationProgress option \<Rightarrow> bool" where
  "outcome_consistent l ended exit_code duration steps progress \<longleftrightarrow>
     (is_terminal l \<longleftrightarrow> ended \<noteq> None) \<and> (\<not> is_terminal l \<longrightarrow> exit_code = None \<and> duration = None)
     \<and> progress_count progress \<le> length steps \<and> (l = Completed \<and> steps \<noteq> [] \<longrightarrow> all_steps_done steps progress)"

definition outcome_ok :: "ShellJobRecord \<Rightarrow> bool" where
  "outcome_ok job = outcome_consistent (job_lifecycle job) (job_ended_at job) (job_exit_code job) (job_duration_ms job)
     (job_validation_steps job) (job_validation_progress job)"

lemma validated_outcome:
  assumes "validate_update job body l = Inr ()" "progress_count (job_validation_progress job) \<le> length (job_validation_steps job)"
  shows "progress_count (or_keep (upd_validation_progress body) (job_validation_progress job)) \<le> length (job_validation_steps job)"
    "job_validation_steps job \<noteq> [] \<Longrightarrow> upd_finished body \<Longrightarrow> is_terminal l"
    "job_validation_steps job \<noteq> [] \<Longrightarrow> l = Completed \<Longrightarrow> all_steps_done (job_validation_steps job) (upd_validation_progress body)"
proof -
  have v: "validate_validation_progress job body l = Inr ()" using assms(1) by (simp add: validate_update_def)
  show "progress_count (or_keep (upd_validation_progress body) (job_validation_progress job)) \<le> length (job_validation_steps job)"
    using v assms(2)
    by (auto simp: validate_validation_progress_def Let_def invalid_progress_def or_keep_def progress_count_def
        split: if_splits option.splits)
  show "is_terminal l" if "job_validation_steps job \<noteq> []" "upd_finished body"
    using v that by (auto simp: validate_validation_progress_def Let_def invalid_progress_def split: if_splits)
  show "all_steps_done (job_validation_steps job) (upd_validation_progress body)" if "job_validation_steps job \<noteq> []" "l = Completed"
    using v that
    by (auto simp: validate_validation_progress_def Let_def invalid_progress_def all_steps_done_def progress_fits_def cancelling_def
        infrastructure_failure_def split: if_splits option.splits)
qed

lemma updated_outcome:
  assumes "outcome_ok j" "\<not> is_terminal (job_lifecycle j)" "update_result clk body l j = Some j'"
  shows "outcome_ok (fst (updated_job n j j' cands))"
proof -
  have keep: "outcome_ok (fst (updated_job n j j' cands)) = outcome_ok j'"
    by (auto simp: outcome_ok_def updated_job_def Let_def update_fields split: option.splits)
  show ?thesis
  proof (cases "validate_update j body l")
    case (Inl code)
    with assms(3) have j': "j' = reject_update clk body code j" by (simp add: update_result_def)
    then have "job_validation_steps j' = job_validation_steps j" using identityD [OF reject_fields(1)] by simp
    with assms(1) show ?thesis unfolding keep by (auto simp: outcome_ok_def outcome_consistent_def j' update_fields)
  next
    case (Inr x)
    with assms(3) have a: "apply_update clk body l j = Some j'" and v: "validate_update j body l = Inr ()" by (simp_all add: update_result_def)
    note f = apply_update_fields [OF a assms(2)]
    have steps: "job_validation_steps j' = job_validation_steps j" using identityD [OF f(1)] by simp
    have o: "job_ended_at j = None" "job_exit_code j = None" "job_duration_ms j = None"
      "progress_count (job_validation_progress j) \<le> length (job_validation_steps j)"
      using assms(1,2) by (auto simp: outcome_ok_def outcome_consistent_def)
    note w = validated_outcome [OF v o(4)]
    have t: "\<not> is_terminal (next_lifecycle body l j) \<Longrightarrow> \<not> is_terminal l" by (auto simp: next_lifecycle_def)
    have steps_done: "all_steps_done (job_validation_steps j) (or_keep (upd_validation_progress body) (job_validation_progress j))"
      if "next_lifecycle body l j = Completed" "job_validation_steps j \<noteq> []"
    proof -
      have "l = Completed" using that w(2) o(2) by (auto simp: next_lifecycle_def split: if_splits)
      with w(3) that(2) show ?thesis by (auto simp: all_steps_done_def or_keep_def)
    qed
    have "outcome_ok j'" unfolding outcome_ok_def outcome_consistent_def steps f using o w(1) t steps_done by auto
    then show ?thesis by (simp add: keep)
  qed
qed

lemma valid_snapshot_outcome:
  assumes "valid_snapshot s"
  obtains l where "from_wire (snap_status s) = Inr l" "outcome_consistent l (snap_ended_at s) (snap_exit_code s) (snap_duration_ms s)
    (ctx_validation_steps (snap_context s)) (snap_validation_progress s)"
proof -
  from assms obtain c ps b a where "validate_snapshot c ps b s = Inr a" by (auto simp: valid_snapshot_def)
  then obtain l where l: "from_wire (snap_status s) = Inr l" "validate_lifecycle_fields l s = Inr ()" "validate_progress l s = Inr ()"
    by (auto simp: validate_snapshot_def parse_job_lifecycle_def split: sum.splits)
  have e: "is_terminal l \<longleftrightarrow> snap_ended_at s \<noteq> None" "\<not> is_terminal l \<longrightarrow> snap_exit_code s = None \<and> snap_duration_ms s = None"
    using l(2) runner_active_not_terminal [of l] by (auto simp: validate_lifecycle_fields_def Let_def)
  have p: "progress_count (snap_validation_progress s) \<le> length (ctx_validation_steps (snap_context s))"
    "l = Completed \<and> ctx_validation_steps (snap_context s) \<noteq> [] \<longrightarrow> all_steps_done (ctx_validation_steps (snap_context s)) (snap_validation_progress s)"
    using l(3)
    by (auto simp: validate_progress_def Let_def progress_count_def all_steps_done_def progress_structurally_valid_def split: option.splits)
  show ?thesis by (rule that [OF l(1)]) (use e p in \<open>simp add: outcome_consistent_def\<close>)
qed

lemma applied_outcome:
  assumes "valid_snapshot s" "same_context j s" "applies i j s"
  shows "outcome_ok (applied i now s j)"
proof -
  obtain l where l: "from_wire (snap_status s) = Inr l" "outcome_consistent l (snap_ended_at s) (snap_exit_code s) (snap_duration_ms s)
    (ctx_validation_steps (snap_context s)) (snap_validation_progress s)" by (rule valid_snapshot_outcome [OF assms(1)])
  have "job_validation_steps j = ctx_validation_steps (snap_context s)" using assms(2) by (simp add: same_context_def Let_def)
  with l show ?thesis
    using assms(3) by (simp add: outcome_ok_def applied_def apply_snapshot_def Let_def update_fields)
qed

lemma rebuilt_outcome:
  assumes "valid_snapshot s" "reconstruct_job c i g now s inner = Some (j, cands)"
  shows "outcome_ok j"
proof -
  obtain l where l: "from_wire (snap_status s) = Inr l" "outcome_consistent l (snap_ended_at s) (snap_exit_code s) (snap_duration_ms s)
    (ctx_validation_steps (snap_context s)) (snap_validation_progress s)" by (rule valid_snapshot_outcome [OF assms(1)])
  from assms(2) have "j = fst (the (reconstruct_job c i g now s inner))" by simp
  with l show ?thesis
    by (simp add: outcome_ok_def reconstruct_job_def record_from_snapshot_def Let_def update_fields)
qed

lemma lost_outcome: "outcome_ok j \<Longrightarrow> outcome_ok (lost_record now reason message j)"
  by (auto simp: outcome_ok_def outcome_consistent_def lost_record_def mark_job_lost_def notify_job_update_def
      observe_job_terminal_def Let_def)

lemma recovered_outcome: "outcome_ok j \<Longrightarrow> outcome_ok (fst (begin_job_recovery j now reason cands))"
  by (auto simp: outcome_ok_def outcome_consistent_def begin_job_recovery_def notify_job_update_def Let_def)

interpretation outcome: job_law outcome_ok "\<lambda>_. True" "\<lambda>_. True" "\<lambda>_. True"
proof unfold_locales
  show "outcome_ok (admitted_job a runner)" for a runner
    by (simp add: outcome_ok_def outcome_consistent_def admitted_job_def progress_count_def)
  show "outcome_ok (lost_record now reason message j)" if "outcome_ok j" for now reason message j by (rule lost_outcome [OF that])
  show "outcome_ok (fst (begin_job_recovery j now reason cands))" if "outcome_ok j" for now reason cands j by (rule recovered_outcome [OF that])
  show "outcome_ok (observe_job_terminal j now)" if "outcome_ok j" for j now using that by (simp add: outcome_ok_def update_fields)
  show "outcome_ok (fst (notify_job_update j cands))" if "outcome_ok j" for j cands using that by (simp add: outcome_ok_def update_fields)
  show "outcome_ok (fst (stop_queued_job now j cands))" if "outcome_ok j" for now j cands
    using that by (simp add: outcome_ok_def outcome_consistent_def stop_queued_job_def Let_def update_fields)
  show "outcome_ok (j\<lparr>job_lifecycle := StopRequested, job_error := e\<rparr>)" if "outcome_ok j" "is_runner_active (job_lifecycle j)" for j e
    using that runner_active_not_terminal [OF that(2)] by (simp add: outcome_ok_def outcome_consistent_def)
  show "outcome_ok (applied i now s j)" if "valid_snapshot s" "same_context j s" "applies i j s" for i now s j
    by (rule applied_outcome [OF that])
  show "outcome_ok j" if "valid_snapshot s" "reconstruct_job c i g now s inner = Some (j, cands)" for s c i g now inner j cands
    by (rule rebuilt_outcome [OF that])
qed (simp_all add: outcome_ok_def updated_outcome [unfolded outcome_ok_def])


lemma sample_outcome: "jobs_all outcome_ok sample_registry"
  by (simp add: jobs_all_def sample_registry_def sample_job_def outcome_ok_def outcome_consistent_def progress_count_def)


section \<open>Machine widths\<close>

text \<open>The numbers of a record are of the types of the source: \<open>i64\<close> for times, \<open>i32\<close> for exit codes, \<open>u64\<close> and \<open>usize\<close> for
  durations, sequence numbers, log lines and steps.\<close>

definition i64_ok :: "int \<Rightarrow> bool" where
  "i64_ok t \<longleftrightarrow> i64_min \<le> t \<and> t \<le> i64_max"

definition i32_ok :: "int \<Rightarrow> bool" where
  "i32_ok x \<longleftrightarrow> - (2 ^ 31) \<le> x \<and> x < 2 ^ 31"

definition u64_ok :: "nat \<Rightarrow> bool" where
  "u64_ok n \<longleftrightarrow> n \<le> usize_max"

definition log_typed :: "ShellJobLogState \<Rightarrow> bool" where
  "log_typed log \<longleftrightarrow> u64_ok (log_first_retained_line log) \<and> u64_ok (log_next_line log)"

definition recovery_typed :: "JobRecoveryState \<Rightarrow> bool" where
  "recovery_typed r \<longleftrightarrow> opt_all i64_ok (rec_reconciled_at r) \<and> opt_all i64_ok (rec_recovering_since r)"

definition observation_typed :: "JobObservationState \<Rightarrow> bool" where
  "observation_typed ob \<longleftrightarrow> opt_all i64_ok (obs_terminal_observed_at ob) \<and> opt_all i64_ok (obs_receipt_expires_at ob)"

definition job_typed :: "ShellJobRecord \<Rightarrow> bool" where
  "job_typed j \<longleftrightarrow> i64_ok (job_created_at j) \<and> opt_all i64_ok (job_started_at j) \<and> opt_all i64_ok (job_ended_at j)
     \<and> opt_all i32_ok (job_exit_code j) \<and> opt_all u64_ok (job_duration_ms j) \<and> log_typed (job_stdout j) \<and> log_typed (job_stderr j)
     \<and> u64_ok (progress_count (job_validation_progress j)) \<and> u64_ok (job_last_update_seq j)
     \<and> recovery_typed (job_recovery j) \<and> observation_typed (job_observation j)"

definition update_typed :: "RunnerJobUpdateRequest \<Rightarrow> bool" where
  "update_typed u \<longleftrightarrow> opt_all u64_ok (upd_update_seq u) \<and> opt_all i32_ok (upd_exit_code u) \<and> opt_all u64_ok (upd_duration_ms u)
     \<and> u64_ok (progress_count (upd_validation_progress u))
     \<and> opt_all (\<lambda>s. log_typed (lsnap_stdout s) \<and> log_typed (lsnap_stderr s)) (upd_log_snapshot u)"

definition snapshot_typed :: "ShellJobSnapshot \<Rightarrow> bool" where
  "snapshot_typed s \<longleftrightarrow> i64_ok (snap_created_at s) \<and> opt_all i64_ok (snap_started_at s) \<and> opt_all i64_ok (snap_ended_at s)
     \<and> opt_all i32_ok (snap_exit_code s) \<and> opt_all u64_ok (snap_duration_ms s) \<and> log_typed (snap_stdout s) \<and> log_typed (snap_stderr s)
     \<and> u64_ok (progress_count (snap_validation_progress s)) \<and> u64_ok (snap_update_seq s)"

lemma u64_sat_add [simp]: "u64_ok (sat_add a b)"
  by (simp add: u64_ok_def sat_add_le)

lemma u64_one [simp]: "u64_ok 1" "u64_ok 0" "u64_ok (Suc 0)"
  by (simp_all add: u64_ok_def)

lemma log_typed_append: "log_typed log \<Longrightarrow> append_log_limited log chunk = Some log' \<Longrightarrow> log_typed log'"
  by (auto simp: append_log_limited_def log_typed_def Let_def split: option.splits if_splits)

lemma log_typed_replace: "log_typed log \<Longrightarrow> replace_log_limited log v = Some log' \<Longrightarrow> log_typed log'"
  by (auto simp: replace_log_limited_def log_typed_def Let_def split: option.splits)

lemma update_logs_typed:
  assumes "job_typed j" "update_typed body" "update_logs body j = Some j'"
  shows "job_typed j'"
proof (cases "upd_log_snapshot body")
  case None
  with assms(3) obtain o1 e1 o2 e2 where "replace_log_limited (job_stdout j) (upd_stdout_tail body) = Some o1"
    "replace_log_limited (job_stderr j) (upd_stderr_tail body) = Some e1" "append_log_limited o1 (upd_stdout_chunk body) = Some o2"
    "append_log_limited e1 (upd_stderr_chunk body) = Some e2" "j' = j\<lparr>job_stdout := o2, job_stderr := e2\<rparr>"
    by (auto simp: update_logs_def Option.bind_eq_Some_conv)
  moreover have "log_typed (job_stdout j)" "log_typed (job_stderr j)" using assms(1) by (simp_all add: job_typed_def)
  ultimately have "log_typed o2" "log_typed e2" using log_typed_append log_typed_replace by blast+
  with assms(1) show ?thesis by (simp add: job_typed_def \<open>j' = _\<close>)
next
  case (Some s)
  with assms show ?thesis
    by (auto simp: update_logs_def job_typed_def update_typed_def log_typed_def replace_log_from_snapshot_def)
qed

lemma typed_observe: "job_typed j \<Longrightarrow> i64_ok now \<Longrightarrow> job_typed (observe_job_terminal j now)"
  by (simp add: job_typed_def observe_job_terminal_def observation_typed_def)

lemma typed_notify: "job_typed j \<Longrightarrow> job_typed (fst (notify_job_update j cands))"
  by (simp add: job_typed_def notify_job_update_def observation_typed_def)

lemma typed_lifecycle: "job_typed (j\<lparr>job_lifecycle := l\<rparr>) = job_typed j"
  by (simp add: job_typed_def)

lemma typed_notes:
  assumes "update_clock_ok i64_ok clk" "update_typed body" "job_typed j"
  shows "job_typed (note_validation body j)" "job_typed (note_start clk body l j)" "job_typed (note_lifecycle l j)"
    "job_typed (note_terminal clk body w l j)" "job_typed (note_finished clk body j)" "job_typed (note_reconciled clk w j)"
    "job_typed (reject_update clk body code j)"
proof -
  have t: "i64_ok (uc_started clk)" "i64_ok (uc_terminal clk)" "i64_ok (uc_reconciled clk)" using assms(1) by (simp_all add: update_clock_ok_def)
  show "job_typed (note_validation body j)"
    using assms(2,3) by (simp add: note_validation_def job_typed_def update_typed_def or_keep_def)
  show "job_typed (note_start clk body l j)" "job_typed (note_lifecycle l j)" "job_typed (note_reconciled clk w j)"
    using assms(3) t by (simp_all add: note_start_def note_lifecycle_def note_reconciled_def job_typed_def recovery_typed_def)
  have e: "job_typed (observe_job_terminal (j\<lparr>job_lifecycle := k\<rparr>) (uc_terminal clk))" for k
    by (rule typed_observe [OF _ t(2)]) (simp add: typed_lifecycle assms(3))
  show "job_typed (note_terminal clk body w l j)"
    using e [of l] assms(2,3) t by (simp add: note_terminal_def Let_def job_typed_def update_typed_def recovery_typed_def)
  show "job_typed (reject_update clk body code j)"
    using e [of Failed] assms(2) t by (simp add: reject_update_def Let_def job_typed_def update_typed_def)
  show "job_typed (note_finished clk body j)"
    using e [of Completed] e [of Failed] assms(3) t by (simp add: note_finished_def Let_def job_typed_def)
qed

lemma typed_updated:
  assumes "update_clock_ok i64_ok clk" "update_typed body" "job_typed j" "incoming_update sequenced body = Inr (n, l)"
    "update_result clk body l j = Some j'"
  shows "job_typed (fst (updated_job n j j' cands))"
proof -
  note tn = typed_notes [OF assms(1,2)]
  have "job_typed j'"
  proof (cases "validate_update j body l")
    case (Inl code)
    with assms(3,5) tn(7) show ?thesis by (auto simp: update_result_def)
  next
    case (Inr x)
    with assms(5) have "apply_update clk body l j = Some j'" by (simp add: update_result_def)
    then obtain logged where lg: "update_logs body j = Some logged"
      "j' = note_reconciled clk (recovery_active j) (note_finished clk body (note_terminal clk body (recovery_active j) l
        (note_lifecycle l (note_start clk body l (note_validation body logged)))))" by (rule apply_update_eq)
    show ?thesis unfolding lg(2) by (intro tn update_logs_typed [OF assms(3,2) lg(1)])
  qed
  moreover have "opt_all u64_ok n" using assms(2,4) by (auto simp: incoming_update_def update_typed_def split: sum.splits)
  ultimately have "job_typed (case n of None \<Rightarrow> j' | Some m \<Rightarrow> j'\<lparr>job_last_update_seq := m\<rparr>)"
    by (cases n) (auto simp: job_typed_def)
  then show ?thesis by (simp add: updated_job_def Let_def typed_notify)
qed

interpretation widths: job_law job_typed i64_ok update_typed snapshot_typed
proof unfold_locales
  show "job_typed (admitted_job a runner)" if "i64_ok (adm_created_at a)" for a runner
    using that by (simp add: admitted_job_def job_typed_def log_typed_def ShellJobLogState_default_def progress_count_def
        JobRecoveryState_default_def JobObservationState_new_def recovery_typed_def observation_typed_def)
  show "job_typed (lost_record now reason message j)" if "i64_ok now" "job_typed j" for now reason message j
    using that by (auto simp: lost_record_def mark_job_lost_def notify_job_update_def observe_job_terminal_def Let_def job_typed_def
        recovery_typed_def observation_typed_def)
  show "job_typed (fst (begin_job_recovery j now reason cands))" if "i64_ok now" "job_typed j" for now reason cands j
    using that by (auto simp: begin_job_recovery_def notify_job_update_def Let_def job_typed_def recovery_typed_def observation_typed_def)
  show "job_typed (fst (stop_queued_job now j cands))" if "i64_ok now" "job_typed j" for now j cands
    using that by (auto simp: stop_queued_job_def notify_job_update_def observe_job_terminal_def Let_def job_typed_def observation_typed_def)
  show "job_typed (applied i now s j)" if "i64_ok now" "snapshot_typed s" "valid_snapshot s" "applies i j s" "job_typed j" for now s i j
  proof -
    note a = that
    obtain l where "from_wire (snap_status s) = Inr l" using valid_snapshot_outcome [OF a(3)] by metis
    with a show ?thesis
      by (auto simp: applied_def apply_snapshot_def notify_job_update_def observe_job_terminal_def Let_def job_typed_def snapshot_typed_def
          recovery_typed_def observation_typed_def log_typed_def replace_log_from_snapshot_def)
  qed
  show "job_typed j" if "i64_ok now" "snapshot_typed s" "reconstruct_job c i g now s inner = Some (j, cands)" for now s c i g inner j cands
    using that by (auto simp: reconstruct_job_def record_from_snapshot_def reconciled_recovery_def notify_job_update_def
        observe_job_terminal_def Let_def job_typed_def snapshot_typed_def recovery_typed_def observation_typed_def log_typed_def
        replace_log_from_snapshot_def JobObservationState_new_def split: sum.splits)
qed (simp_all add: typed_observe typed_notify typed_updated, simp_all add: job_typed_def)



section \<open>The fence of a project\<close>

definition fences_ok :: "RunnerRegistryInner \<Rightarrow> bool" where
  "fences_ok inner \<longleftrightarrow> (\<forall>p n. reg_unregistering_projects inner p = Some n \<longrightarrow> 0 < n)"

lemma fences_refresh_all: "reg_unregistering_projects (refresh_all env clk inner) = reg_unregistering_projects inner"
proof -
  have "reg_unregistering_projects (refresh_job clk jid i) = reg_unregistering_projects i" for jid i
    by (simp add: refresh_job_def refresh_job_status_locked_def put_job_def split: option.splits)
  then have "reg_unregistering_projects (fold (refresh_job clk) xs i) = reg_unregistering_projects i" for xs i
    by (induction xs arbitrary: i) auto
  then show ?thesis by (simp add: refresh_all_def)
qed

lemma fenced_admission:
  "reg_unregistering_projects inner project \<noteq> None \<Longrightarrow> adm_project_id a = Some project \<Longrightarrow> \<exists>e. admit_job now a inner = Inl e"
  by (auto simp: admit_job_def split: option.splits)

lemma fences_end: "fences_ok inner \<Longrightarrow> fences_ok (end_project_unregister p inner)"
  by (auto simp: fences_ok_def end_project_unregister_def split: option.splits)

text \<open>The fence around a project that is being unregistered works and is taken down again. When no Job of the project is active the fence
  goes up, and from then on no Job is admitted for the project; taking it down leaves the fences as they were, so that
  overlapping unregistrations do not disturb each other. When a Job is active no fence goes up. Counts stay positive,
  so that taking a fence down never underflows.\<close>

theorem unregister_fence_roundtrip:
  assumes "fences_ok inner" "begin_project_unregister env clk auth project inner = (fenced, active)"
  shows "fences_ok fenced \<and> fences_ok (end_project_unregister project fenced)
    \<and> (if active = 0
       then (\<forall>now a. adm_project_id a = Some project \<longrightarrow> (\<exists>e. admit_job now a fenced = Inl e))
         \<and> reg_unregistering_projects (end_project_unregister project fenced) = reg_unregistering_projects inner
       else reg_unregistering_projects fenced = reg_unregistering_projects inner)"
proof -
  let ?m = "reg_unregistering_projects inner"
  have up: "reg_unregistering_projects fenced = ?m(project \<mapsto> (case ?m project of None \<Rightarrow> 0 | Some n \<Rightarrow> n) + 1)" if "active = 0"
    using assms(2) that by (auto simp: begin_project_unregister_def Let_def fences_refresh_all split: if_splits)
  have stay: "reg_unregistering_projects fenced = ?m" if "active \<noteq> 0"
    using assms(2) that by (auto simp: begin_project_unregister_def Let_def fences_refresh_all split: if_splits)
  have pos: "?m project \<noteq> Some 0" using assms(1) by (auto simp: fences_ok_def)
  have ok: "fences_ok fenced"
    using assms(1) up stay by (cases "active = 0") (auto simp: fences_ok_def)
  moreover have "reg_unregistering_projects (end_project_unregister project fenced) = ?m" if "active = 0"
    using up [OF that] pos by (auto simp: end_project_unregister_def fun_upd_idem_iff split: option.splits)
  moreover have "\<exists>e. admit_job now a fenced = Inl e" if "active = 0" "adm_project_id a = Some project" for now a
    by (rule fenced_admission [OF _ that(2)]) (simp add: up [OF that(1)])
  ultimately show ?thesis using stay fences_end by simp
qed

theorem unregister_fence_roundtrip_witness:
  "\<exists>fenced. begin_project_unregister sorted_env sample_clock None (lit ''agent:runner-1:p'') (sample_registry\<lparr>reg_jobs_by_id := Map.empty\<rparr>) = (fenced, 0)
     \<and> reg_unregistering_projects fenced (lit ''agent:runner-1:p'') = Some 1
     \<and> reg_unregistering_projects (end_project_unregister (lit ''agent:runner-1:p'') fenced) = Map.empty"
proof -
  let ?inner = "sample_registry\<lparr>reg_jobs_by_id := Map.empty\<rparr>" and ?p = "lit ''agent:runner-1:p''"
  have e: "env_jobs_order sorted_env Map.empty = []" using iteratesD(2) [OF sorted_env_iterates, of Map.empty] by simp
  have r: "refresh_all sorted_env sample_clock ?inner = ?inner" by (simp add: refresh_all_def e)
  have v: "job_values sorted_env ?inner = []" by (simp add: job_values_def e)
  let ?f = "?inner\<lparr>reg_unregistering_projects := [?p \<mapsto> 1]\<rparr>"
  have b: "begin_project_unregister sorted_env sample_clock None ?p ?inner = (?f, 0)"
    unfolding begin_project_unregister_def Let_def r v by (simp add: sample_registry_def)
  have "fences_ok ?inner" by (simp add: fences_ok_def sample_registry_def)
  from unregister_fence_roundtrip [OF this b] b show ?thesis by (simp add: sample_registry_def)
qed

section \<open>Disconnects\<close>

definition iterates_pending :: "ReconcileEnv \<Rightarrow> bool" where
  "iterates_pending env \<longleftrightarrow> (\<forall>m. finite (dom m) \<longrightarrow> set (env_pending_order env m) = dom m)"

lemma pending_fold_remove:
  assumes "\<And>rid i k. reg_pending_by_id (f rid i) k = (if k = rid then None else reg_pending_by_id i k)"
  shows "reg_pending_by_id (fold f xs inner) k = (if k \<in> set xs then None else reg_pending_by_id inner k)"
  by (induction xs arbitrary: inner) (auto simp: assms)

lemma pending_drop: "reg_pending_by_id (drop_job_request c rid i) k = (if k = rid then None else reg_pending_by_id i k)"
  by (simp add: drop_job_request_def remove_from_queue_def forget_request_def take_pending_request_locked_def)

lemma pending_resolve:
  assumes "iterates_pending env" "finite (dom (reg_pending_by_id inner))"
  shows "reg_pending_by_id (resolve_disconnected_sync_requests_locked env c inner) k =
    (if opt_ex (\<lambda>p. pend_job_id p = None \<and> pend_client_id p = c) (reg_pending_by_id inner k) then None else reg_pending_by_id inner k)"
proof -
  have "set (env_pending_order env (reg_pending_by_id inner)) = dom (reg_pending_by_id inner)"
    using assms by (simp add: iterates_pending_def)
  then show ?thesis
    unfolding resolve_disconnected_sync_requests_locked_def
    by (subst pending_fold_remove) (auto simp: remove_from_queue_def take_pending_request_locked_def opt_ex_def split: option.splits)
qed

definition gone_record :: "bool \<Rightarrow> int \<Rightarrow> ShellJobRecord \<Rightarrow> ShellJobRecord" where
  "gone_record recoverable now j = fst (disconnected_job recoverable now j {})"

lemma disconnected_fst: "fst (disconnected_job recoverable now j cands) = gone_record recoverable now j"
  by (simp add: gone_record_def disconnected_job_def mark_job_lost_fst begin_job_recovery_def notify_job_update_def Let_def)

lemma jobs_disconnect_job:
  "reg_jobs_by_id (disconnect_job recoverable now c jid inner) k =
     (if k = jid then map_option (gone_record recoverable now) (reg_jobs_by_id inner k) else reg_jobs_by_id inner k)"
  by (auto simp: disconnect_job_def Let_def job_effects disconnected_fst split: option.splits)

lemma jobs_fold_disconnect:
  "distinct xs \<Longrightarrow> reg_jobs_by_id (fold (disconnect_job recoverable now c) xs inner) k =
     (if k \<in> set xs then map_option (gone_record recoverable now) (reg_jobs_by_id inner k) else reg_jobs_by_id inner k)"
  by (induction xs arbitrary: inner) (auto simp: jobs_disconnect_job)

lemma pending_disconnect_job: "reg_pending_by_id (disconnect_job recoverable now c jid inner) k \<in> {reg_pending_by_id inner k, None}"
  by (auto simp: disconnect_job_def Let_def pending_drop split: option.splits)

lemma pending_fold_disconnect:
  "reg_pending_by_id (fold (disconnect_job recoverable now c) xs inner) k \<in> {reg_pending_by_id inner k, None}"
proof (induction xs arbitrary: inner)
  case (Cons x xs)
  from Cons.IH [of "disconnect_job recoverable now c x inner"] pending_disconnect_job [of recoverable now c x inner k]
  show ?case by auto
qed simp

text \<open>What a disconnect leaves of a Job of the Runner.\<close>

definition released :: "bool \<Rightarrow> ShellJobRecord \<Rightarrow> bool" where
  "released recoverable j \<longleftrightarrow> is_terminal (job_lifecycle j) \<or> recoverable \<and> recovery_active j \<or> job_lifecycle j = StartedLegacy"

lemma gone_released:
  assumes "job_lifecycle j = Queued \<or> is_runner_active (job_lifecycle j)"
  shows "released recoverable (gone_record recoverable now j)"
proof (cases "recoverable \<and> job_lifecycle j \<noteq> Queued")
  case True
  then have "is_runner_active (job_lifecycle j)" "\<not> is_terminal (job_lifecycle j)" using assms runner_active_not_terminal by auto
  with True show ?thesis
    by (simp add: gone_record_def disconnected_job_def begin_job_recovery_def notify_job_update_def Let_def released_def
        recovery_active_def recovering_def)
next
  case False
  then have "\<exists>r m. gone_record recoverable now j = lost_record now r m j"
    by (auto simp: gone_record_def disconnected_job_def lost_record_def)
  then show ?thesis by (auto simp: released_def)
qed

lemma gone_client: "job_client_id (gone_record recoverable now j) = job_client_id j"
  by (simp add: gone_record_def disconnected_job_def begin_job_recovery_def mark_job_lost_def notify_job_update_def
      observe_job_terminal_def Let_def)

text \<open>A disconnect lets go of everything. When the connection that holds the lease of a Runner goes away, no request for that Runner is left
  pending, so that no caller waits for it, and every Job of the Runner has ended or, when the Runner can reconcile,
  is recovering; only a Job in the historical status \<open>started\<close> is left as it is. A disconnect of any other
  connection or instance changes nothing.\<close>

theorem disconnect_releases_the_runner:
  assumes "iterates env" "iterates_pending env" "finite (dom (reg_jobs_by_id inner))" "finite (dom (reg_pending_by_id inner))"
    "reconcile_disconnect_checked env now c i conn transport inner = (inner', accepted)"
  shows "if opt_ex (holds_lease i conn transport) (reg_runners inner c)
    then accepted \<and> (\<forall>rid p. reg_pending_by_id inner' rid = Some p \<longrightarrow> pend_client_id p \<noteq> c)
      \<and> (\<forall>k j. reg_jobs_by_id inner' k = Some j \<longrightarrow> job_client_id j = c \<longrightarrow> released (is_sequenced inner c) j)
    else \<not> accepted \<and> inner' = inner"
proof (cases "opt_ex (holds_lease i conn transport) (reg_runners inner c)")
  case True
  then obtain runner where runner: "reg_runners inner c = Some runner" "holds_lease i conn transport runner"
    by (auto simp: opt_ex_def split: option.splits)
  define rec where "rec = runner_supports_reconciliation runner"
  have rec: "is_sequenced inner c = rec" by (simp add: is_sequenced_def runner rec_def)
  define P where "P = (\<lambda>job :: ShellJobRecord. job_client_id job = c \<and> \<not> (is_terminal (job_lifecycle job)
     \<or> \<not> (job_lifecycle job = Queued \<or> is_runner_active (job_lifecycle job))))"
  define inner2 where "inner2 = go_offline now c i conn runner inner"
  have i2: "reg_jobs_by_id inner2 = reg_jobs_by_id inner" "reg_pending_by_id inner2 = reg_pending_by_id inner"
    by (simp_all add: inner2_def go_offline_def Let_def)
  define keys where "keys = map fst (jobs_where env inner2 P)"
  define inner3 where "inner3 = fold (disconnect_job rec now c) keys inner2"
  define drops where "drops = filter (\<lambda>rid. opt_ex (\<lambda>p. pend_client_id p = c \<and> pend_job_id p \<noteq> None) (reg_pending_by_id inner3 rid))
          (env_pending_order env (reg_pending_by_id inner3))"
  define inner4 where "inner4 = fold (drop_job_request c) drops inner3"
  have inner'4: "inner' = resolve_disconnected_sync_requests_locked env c inner4" and acc: accepted
    using assms(5) runner unfolding inner4_def drops_def inner3_def keys_def P_def inner2_def rec_def
    by (simp_all add: reconcile_disconnect_checked_def Let_def)
  have keys: "distinct keys" "set keys = {k. opt_ex P (reg_jobs_by_id inner k)}"
    using iteratesD [OF assms(1,3)] by (auto simp: keys_def keys_jobs_where i2 opt_ex_def split: option.splits)
  have p3: "reg_pending_by_id inner3 k \<in> {reg_pending_by_id inner k, None}" for k
    using pending_fold_disconnect [of rec now c keys inner2 k] by (simp add: inner3_def i2)
  have fin3: "finite (dom (reg_pending_by_id inner3))"
    by (rule finite_subset [OF _ assms(4)]) (use p3 in \<open>auto simp: dom_def\<close>, metis insertE option.distinct(1) singletonD)
  have p4: "reg_pending_by_id inner4 k = (if k \<in> set drops then None else reg_pending_by_id inner3 k)" for k
    unfolding inner4_def by (rule pending_fold_remove) (rule pending_drop)
  have fin4: "finite (dom (reg_pending_by_id inner4))"
    by (rule finite_subset [OF _ fin3]) (auto simp: p4 split: if_splits)
  have drops: "set drops = {k. opt_ex (\<lambda>p. pend_client_id p = c \<and> pend_job_id p \<noteq> None) (reg_pending_by_id inner3 k)}"
    using assms(2) fin3 by (auto simp: drops_def iterates_pending_def opt_ex_def split: option.splits)
  have "pend_client_id p \<noteq> c" if "reg_pending_by_id inner' rid = Some p" for rid p
    using that by (auto simp: inner'4 pending_resolve [OF assms(2) fin4] p4 drops split: if_splits)
  moreover have "released rec j" if j: "reg_jobs_by_id inner' k = Some j" "job_client_id j = c" for k j
  proof -
    have "reg_jobs_by_id inner' = reg_jobs_by_id inner3"
      by (simp add: inner'4 inner4_def job_effects jobs_fold_same)
    then have j3: "reg_jobs_by_id inner3 k = Some j" using j(1) by simp
    show ?thesis
    proof (cases "k \<in> set keys")
      case True
      then obtain j0 where "reg_jobs_by_id inner k = Some j0" "P j0" "j = gone_record rec now j0"
        using j3 keys by (auto simp: inner3_def jobs_fold_disconnect i2 opt_ex_def split: option.splits)
      then show ?thesis using gone_released [of j0 rec now] by (auto simp: P_def)
    next
      case False
      then have "reg_jobs_by_id inner k = Some j" using j3 keys(1) by (simp add: inner3_def jobs_fold_disconnect i2)
      with False keys(2) j(2) have "is_terminal (job_lifecycle j) \<or> \<not> (job_lifecycle j = Queued \<or> is_runner_active (job_lifecycle j))"
        by (auto simp: P_def)
      then show ?thesis by (cases "job_lifecycle j") (auto simp: released_def is_runner_active_def is_terminal_def)
    qed
  qed
  ultimately show ?thesis using True acc rec by auto
next
  case False
  with assms(5) show ?thesis by (auto simp: reconcile_disconnect_checked_def opt_ex_def split: option.splits)
qed

lemma sorted_env_pending: "iterates_pending sorted_env"
  by (simp add: iterates_pending_def sorted_env_def)

definition waiting_registry :: RunnerRegistryInner where
  "waiting_registry = sample_registry\<lparr>reg_pending_by_id := [lit ''req-9'' \<mapsto> \<lparr>pend_client_id = lit ''runner-1'', pend_job_id = None\<rparr>]\<rparr>"

theorem disconnect_releases_the_runner_witness:
  "\<exists>inner. reconcile_disconnect_checked sorted_env 25 (lit ''runner-1'') (lit ''i'') None (Some Polling) waiting_registry = (inner, True)
     \<and> {rid. opt_ex (\<lambda>p. pend_client_id p = lit ''runner-1'') (reg_pending_by_id inner rid)} = {}"
proof -
  let ?r = "reconcile_disconnect_checked sorted_env 25 (lit ''runner-1'') (lit ''i'') None (Some Polling) waiting_registry"
  have l: "opt_ex (holds_lease (lit ''i'') None (Some Polling)) (reg_runners waiting_registry (lit ''runner-1''))"
    by (simp add: waiting_registry_def sample_registry_def holds_lease_def)
  have f: "finite (dom (reg_jobs_by_id waiting_registry))" "finite (dom (reg_pending_by_id waiting_registry))"
    using sample_registry_finite by (simp_all add: waiting_registry_def)
  obtain inner b where u: "?r = (inner, b)" by (cases ?r)
  note d = disconnect_releases_the_runner [OF sorted_env_iterates sorted_env_pending f u]
  have "\<not> opt_ex (\<lambda>p. pend_client_id p = lit ''runner-1'') (reg_pending_by_id inner rid)" for rid
    using d l by (cases "reg_pending_by_id inner rid") auto
  with d l u show ?thesis by auto
qed

end
