(* ===== verification/Job_Receipts.thy ===== *)
theory Job_Receipts
  imports Job_Views "HOL-Library.Product_Lexorder"
begin

text \<open>
  Retained receipts of ended Jobs: the contract of a receipt (\<open>crates/webcodex-core/src/runner_job_receipt.rs\<close>), its
  capture when the registry is unlocked and the start of a server from stored receipts
  (\<open>crates/webcodex-runner-registry/src/receipts.rs\<close>), and the table that keeps them
  (\<open>crates/webcodex-store/src/job_receipts.rs\<close> behind the adapter \<open>src/job_receipts.rs\<close>).

  The table \<open>wc_job_receipts\<close> is the list of its rows; its statements are list operations, with the primary key as an
  invariant. Texts are compared byte by byte by SQLite, which is the order of their characters. The JSON form of a
  snapshot is a parameter: \<open>to_json\<close> may refuse, \<open>from_json\<close> is partial. Failures of the disk are not modelled.
\<close>

section \<open>Receipts\<close>

definition JOB_RECEIPT_STREAM_MAX_BYTES :: nat where "JOB_RECEIPT_STREAM_MAX_BYTES = 256 * 1024 + 128"
definition JOB_RECEIPT_PAYLOAD_MAX_BYTES :: nat where "JOB_RECEIPT_PAYLOAD_MAX_BYTES = 4 * 1024 * 1024"

record RetainedJobReceipt =
  rcp_client_id :: rstr
  rcp_runner_instance_id :: rstr
  rcp_auth_group :: "RunnerAccessGroup option"
  rcp_owner_at_admission :: "rstr option"
  rcp_kind :: rstr
  rcp_snapshot :: ShellJobSnapshot
  rcp_terminal_observed_at :: int
  rcp_expires_at :: int

definition receipt_text :: "rstr \<Rightarrow> nat \<Rightarrow> bool" where
  "receipt_text s max_bytes \<longleftrightarrow> s \<noteq> [] \<and> str_len s \<le> max_bytes \<and> 0 \<notin> set s"

definition receipt_identity_ok :: "RetainedJobReceipt \<Rightarrow> int \<Rightarrow> bool" where
  "receipt_identity_ok r now \<longleftrightarrow>
     receipt_text (rcp_client_id r) 128 \<and> receipt_text (rcp_runner_instance_id r) 128
     \<and> receipt_text (snap_job_id (rcp_snapshot r)) 128 \<and> receipt_text (snap_request_id (rcp_snapshot r)) 128
     \<and> receipt_text (rcp_kind r) 128
     \<and> rcp_kind r \<in> set [lit ''shell'', lit ''run_process'', lit ''run_script'']
     \<and> 0 < rcp_terminal_observed_at r \<and> rcp_terminal_observed_at r \<le> now
     \<and> rcp_expires_at r = i64_sat_add (rcp_terminal_observed_at r) JOB_TERMINAL_RETENTION_SECS
     \<and> now < rcp_expires_at r"

definition receipt_partition_ok :: "RetainedJobReceipt \<Rightarrow> bool" where
  "receipt_partition_ok r =
     (case rcp_auth_group r of
        Some (SharedKey g) \<Rightarrow> str_len g = 64 \<and> list_all is_ascii_hexdigit g
      | Some (ProjectGrant g) \<Rightarrow> receipt_text g 256
      | Some OpenAnonymous \<Rightarrow> True
      | None \<Rightarrow> opt_all (\<lambda>owner. receipt_text owner 256 \<and> trim owner \<noteq> []) (rcp_owner_at_admission r))"

definition receipt_terminal_ok :: "ShellJobSnapshot \<Rightarrow> bool" where
  "receipt_terminal_ok s \<longleftrightarrow>
     is_ok_and (from_wire (snap_status s)) is_terminal \<and> snap_ended_at s \<noteq> None \<and> 0 < snap_created_at s
     \<and> \<not> (snap_status s = lit ''completed'' \<and> snap_exit_code s \<noteq> Some 0) \<and> snap_activity s = None
     \<and> ctx_validation (snap_context s) = None
     \<and> opt_all (\<lambda>m. structured_execution_is_valid m \<and> sx_execution_source m \<noteq> lit ''run_detached_process'')
         (ctx_structured_execution (snap_context s))"

definition receipt_project_ok :: "RetainedJobReceipt \<Rightarrow> bool" where
  "receipt_project_ok r =
     (let context = snap_context (rcp_snapshot r) in
      opt_all (\<lambda>project. opt_ex (\<lambda>p. p \<noteq> []) (strip_prefix project (lit ''agent:'' @ rcp_client_id r @ lit '':'')))
        (ctx_runtime_project_id context)
      \<and> opt_all (\<lambda>session. ctx_runtime_project_id context \<noteq> None \<and> is_valid_session_id session)
          (ctx_workflow_session_id context))"

definition receipt_context_ok :: "ShellJobSnapshot \<Rightarrow> bool" where
  "receipt_context_ok s =
     (let context = snap_context s; steps = ctx_validation_steps context in
      command_preview (ctx_command_preview context) = ctx_command_preview context
      \<and> length (ctx_command_preview context) \<le> COMMAND_PREVIEW_MAX_CHARS + 1
      \<and> list_all (opt_all (\<lambda>v. receipt_text v 4096))
          [ctx_runtime_project_id context, ctx_workflow_session_id context, ctx_ssh_resource context,
           ctx_project_cwd context, ctx_cwd context, ctx_purpose context, ctx_shell context]
      \<and> opt_all (\<lambda>v. str_len v \<le> 16 * 1024) (snap_error s)
      \<and> length steps \<le> 3
      \<and> list_all (\<lambda>step. step \<in> set [lit ''format'', lit ''check'', lit ''test'']) steps
      \<and> opt_all (\<lambda>progress. prog_completed progress \<le> length steps
            \<and> list_all (opt_all (\<lambda>step. step \<in> set steps)) [prog_current_step progress, prog_failed_step progress])
          (snap_validation_progress s))"

definition receipt_stream_ok :: "ShellJobLogState \<Rightarrow> bool" where
  "receipt_stream_ok stream \<longleftrightarrow>
     str_len (log_tail stream) \<le> JOB_RECEIPT_STREAM_MAX_BYTES \<and> log_first_retained_line stream \<noteq> 0
     \<and> checked_add (log_first_retained_line stream) (length (str_lines (log_tail stream))) = Some (log_next_line stream)
     \<and> \<not> (1 < log_first_retained_line stream \<and> \<not> log_truncated stream)"

definition receipt_validate :: "RetainedJobReceipt \<Rightarrow> int \<Rightarrow> rstr + unit" where
  "receipt_validate r now =
     and_then (reject_if (\<not> receipt_identity_ok r now) (lit ''invalid receipt identity or deadline''))
    (and_then (reject_if (\<not> receipt_partition_ok r) (lit ''invalid receipt authorization partition''))
    (and_then (reject_if (opt_ex (\<lambda>owner. \<not> receipt_text owner 256) (rcp_owner_at_admission r)) (lit ''invalid receipt owner''))
    (and_then (reject_if (\<not> receipt_terminal_ok (rcp_snapshot r)) (lit ''invalid receipt terminal snapshot''))
    (and_then (reject_if (\<not> receipt_project_ok r) (lit ''invalid receipt project/session context''))
    (and_then (reject_if (\<not> receipt_context_ok (rcp_snapshot r)) (lit ''invalid receipt context''))
       (reject_if (\<not> list_all receipt_stream_ok [snap_stdout (rcp_snapshot r), snap_stderr (rcp_snapshot r)])
         (lit ''invalid receipt log bounds'')))))))"

section \<open>Capture\<close>

definition job_receipt :: "ShellJobRecord \<Rightarrow> int \<Rightarrow> rstr \<Rightarrow> RetainedJobReceipt" where
  "job_receipt job observed request_id =
     \<lparr>rcp_client_id = job_client_id job, rcp_runner_instance_id = job_runner_instance_id job,
      rcp_auth_group = job_auth_group job, rcp_owner_at_admission = job_owner_at_admission job, rcp_kind = job_kind job,
      rcp_snapshot =
        \<lparr>snap_job_id = job_id job, snap_request_id = request_id, snap_status = as_wire (job_lifecycle job),
         snap_update_seq = job_last_update_seq job, snap_created_at = job_created_at job,
         snap_started_at = job_started_at job, snap_ended_at = job_ended_at job, snap_exit_code = job_exit_code job,
         snap_duration_ms = job_duration_ms job, snap_error = job_error job,
         snap_command_execution_state = job_command_execution_state job,
         snap_context =
           \<lparr>ctx_runtime_project_id = job_project_id job, ctx_workflow_session_id = job_session_id job,
            ctx_ssh_resource = job_ssh_resource job, ctx_project_cwd = job_project_cwd job, ctx_cwd = job_cwd job,
            ctx_purpose = job_purpose job, ctx_shell = job_shell job, ctx_command_preview = job_command_preview job,
            ctx_validation_steps = job_validation_steps job, ctx_validation = None,
            ctx_structured_execution = job_structured_execution job\<rparr>,
         snap_stdout = job_stdout job, snap_stderr = job_stderr job,
         snap_validation_progress = job_validation_progress job, snap_activity = None\<rparr>,
      rcp_terminal_observed_at = observed, rcp_expires_at = i64_sat_add observed JOB_TERMINAL_RETENTION_SECS\<rparr>"

definition capture :: "int \<Rightarrow> ShellJobRecord \<Rightarrow> RetainedJobReceipt option" where
  "capture now job =
     (if job_visibility job \<noteq> Public \<or> \<not> is_terminal (job_lifecycle job) \<or> job_kind job = lit ''run_detached_process''
      then None
      else (case (obs_terminal_observed_at (job_observation job), job_request_id job) of
          (Some observed, Some request_id) \<Rightarrow>
            let receipt = job_receipt job observed request_id
            in if receipt_validate receipt now = Inr () then Some receipt else None
        | _ \<Rightarrow> None))"

text \<open>Dropping the guard of the registry: the candidates are taken, and the receipts of those that are still there are
  captured in the order in which the set is iterated. \<open>clk\<close> is the clock reading of each capture.\<close>

definition unlock_registry ::
    "(candidates \<Rightarrow> rstr list) \<Rightarrow> (rstr \<Rightarrow> int) \<Rightarrow> RunnerRegistryInner \<Rightarrow> RunnerRegistryInner \<times> RetainedJobReceipt list" where
  "unlock_registry order clk inner =
     (inner\<lparr>reg_receipt_candidates := {}\<rparr>,
      List.map_filter (\<lambda>jid. Option.bind (reg_jobs_by_id inner jid) (capture (clk jid))) (order (reg_receipt_candidates inner)))"

text \<open>The writes after the unlock: a failed one is counted and the others go on.\<close>

fun store_receipts ::
    "(int \<Rightarrow> RetainedJobReceipt \<Rightarrow> 's \<Rightarrow> rstr + 's) \<Rightarrow> (rstr \<Rightarrow> int) \<Rightarrow> RetainedJobReceipt list \<Rightarrow> 's \<Rightarrow> 's \<times> nat" where
  "store_receipts upsert clk [] s = (s, 0)"
| "store_receipts upsert clk (r # rs) s =
     (case upsert (clk (snap_job_id (rcp_snapshot r))) r s of
        Inl _ \<Rightarrow> (let (s', failed) = store_receipts upsert clk rs s in (s', failed + 1))
      | Inr s' \<Rightarrow> store_receipts upsert clk rs s')"

section \<open>The table of receipts\<close>

record ReceiptRow =
  row_job_id :: rstr
  row_client_id :: rstr
  row_runner_instance_id :: rstr
  row_auth_kind :: rstr
  row_auth_partition :: "rstr option"
  row_owner_at_admission :: "rstr option"
  row_kind :: rstr
  row_snapshot :: rstr
  row_terminal_observed_at :: int
  row_expires_at :: int

definition auth_columns :: "RetainedJobReceipt \<Rightarrow> rstr \<times> rstr option" where
  "auth_columns r =
     (case rcp_auth_group r of
        Some (SharedKey g) \<Rightarrow> (lit ''shared_key'', Some g)
      | Some (ProjectGrant g) \<Rightarrow> (lit ''project_grant'', Some g)
      | Some OpenAnonymous \<Rightarrow> (lit ''open_anonymous'', None)
      | None \<Rightarrow> if rcp_owner_at_admission r \<noteq> None then (lit ''managed_owner'', None) else (lit ''managed_unowned'', None))"

definition receipt_row :: "RetainedJobReceipt \<Rightarrow> rstr \<Rightarrow> ReceiptRow" where
  "receipt_row r payload =
     \<lparr>row_job_id = snap_job_id (rcp_snapshot r), row_client_id = rcp_client_id r,
      row_runner_instance_id = rcp_runner_instance_id r, row_auth_kind = fst (auth_columns r),
      row_auth_partition = snd (auth_columns r), row_owner_at_admission = rcp_owner_at_admission r,
      row_kind = rcp_kind r, row_snapshot = payload, row_terminal_observed_at = rcp_terminal_observed_at r,
      row_expires_at = rcp_expires_at r\<rparr>"

definition prune_expired :: "int \<Rightarrow> ReceiptRow list \<Rightarrow> ReceiptRow list" where
  "prune_expired now rows = filter (\<lambda>row. \<not> row_expires_at row \<le> now) rows"

definition insert_or_ignore :: "ReceiptRow \<Rightarrow> ReceiptRow list \<Rightarrow> ReceiptRow list" where
  "insert_or_ignore row rows = (if row_job_id row \<in> set (map row_job_id rows) then rows else rows @ [row])"

text \<open>The rows of a Runner beyond the newest 64, newest first.\<close>

definition row_age_key :: "ReceiptRow \<Rightarrow> int \<times> rstr" where
  "row_age_key row = (row_terminal_observed_at row, row_job_id row)"

definition excess_rows :: "rstr \<Rightarrow> ReceiptRow list \<Rightarrow> ReceiptRow list" where
  "excess_rows client rows =
     drop JOB_INVENTORY_MAX_TERMINAL_JOBS (rev (sort_key row_age_key (filter (\<lambda>row. row_client_id row = client) rows)))"

definition delete_excess_of :: "rstr \<Rightarrow> ReceiptRow list \<Rightarrow> ReceiptRow list" where
  "delete_excess_of client rows = filter (\<lambda>row. row_job_id row \<notin> set (map row_job_id (excess_rows client rows))) rows"

definition delete_all_excess :: "ReceiptRow list \<Rightarrow> ReceiptRow list" where
  "delete_all_excess rows =
     filter (\<lambda>row. row_job_id row \<notin> set (map row_job_id
       (concat (map (\<lambda>client. excess_rows client rows) (remdups (map row_client_id rows)))))) rows"

definition upsert_job_receipt ::
    "(ShellJobSnapshot \<Rightarrow> rstr + rstr) \<Rightarrow> int \<Rightarrow> RetainedJobReceipt \<Rightarrow> ReceiptRow list \<Rightarrow> rstr + ReceiptRow list" where
  "upsert_job_receipt to_json now r rows =
     (case receipt_validate r now of
        Inl e \<Rightarrow> Inl e
      | Inr _ \<Rightarrow>
          (case to_json (rcp_snapshot r) of
             Inl e \<Rightarrow> Inl e
           | Inr payload \<Rightarrow>
               if JOB_RECEIPT_PAYLOAD_MAX_BYTES < str_len payload then Inl (lit ''oversized Job receipt'')
               else Inr (delete_excess_of (rcp_client_id r)
                 (insert_or_ignore (receipt_row r payload) (prune_expired now rows)))))"

definition row_bounded :: "ReceiptRow \<Rightarrow> bool" where
  "row_bounded row \<longleftrightarrow> str_len (row_job_id row) \<le> 128 \<and> str_len (row_client_id row) \<le> 128
     \<and> str_len (row_runner_instance_id row) \<le> 128 \<and> str_len (row_auth_kind row) \<le> 32
     \<and> opt_all (\<lambda>v. str_len v \<le> 256) (row_auth_partition row)
     \<and> opt_all (\<lambda>v. str_len v \<le> 256) (row_owner_at_admission row) \<and> str_len (row_kind row) \<le> 128"

definition auth_group_of_row :: "ReceiptRow \<Rightarrow> RunnerAccessGroup option option" where
  "auth_group_of_row row =
     (let kind = row_auth_kind row in
      case row_auth_partition row of
        Some g \<Rightarrow> if kind = lit ''shared_key'' then Some (Some (SharedKey g))
          else if kind = lit ''project_grant'' then Some (Some (ProjectGrant g)) else None
      | None \<Rightarrow> if kind = lit ''open_anonymous'' then Some (Some OpenAnonymous)
          else if kind = lit ''managed_owner'' \<and> row_owner_at_admission row \<noteq> None then Some None
          else if kind = lit ''managed_unowned'' \<and> row_owner_at_admission row = None then Some None
          else None)"

definition receipt_of_row :: "(rstr \<Rightarrow> ShellJobSnapshot option) \<Rightarrow> ReceiptRow \<Rightarrow> RetainedJobReceipt option" where
  "receipt_of_row from_json row =
     (if \<not> row_bounded row \<or> JOB_RECEIPT_PAYLOAD_MAX_BYTES < str_len (row_snapshot row) then None
      else (case (auth_group_of_row row, from_json (row_snapshot row)) of
          (Some grp, Some s) \<Rightarrow>
            if snap_job_id s \<noteq> row_job_id row then None
            else Some \<lparr>rcp_client_id = row_client_id row, rcp_runner_instance_id = row_runner_instance_id row,
              rcp_auth_group = grp, rcp_owner_at_admission = row_owner_at_admission row, rcp_kind = row_kind row,
              rcp_snapshot = s, rcp_terminal_observed_at = row_terminal_observed_at row,
              rcp_expires_at = row_expires_at row\<rparr>
        | _ \<Rightarrow> None))"

definition row_order_key :: "ReceiptRow \<Rightarrow> rstr \<times> int \<times> rstr" where
  "row_order_key row = (row_client_id row, row_terminal_observed_at row, row_job_id row)"

definition load_job_receipts ::
    "(rstr \<Rightarrow> ShellJobSnapshot option) \<Rightarrow> int \<Rightarrow> ReceiptRow list \<Rightarrow> ReceiptRow list \<times> RetainedJobReceipt list" where
  "load_job_receipts from_json now rows =
     (let kept = delete_all_excess (prune_expired now rows) in
      (kept, List.map_filter (\<lambda>row. Option.bind (receipt_of_row from_json row)
          (\<lambda>r. if receipt_validate r now = Inr () then Some r else None)) (sort_key row_order_key kept)))"

definition prune_job_receipts :: "int \<Rightarrow> ReceiptRow list \<Rightarrow> ReceiptRow list \<times> nat" where
  "prune_job_receipts now rows = (prune_expired now rows, length rows - length (prune_expired now rows))"

section \<open>Starting from receipts\<close>

definition RunnerRegistryInner_default :: RunnerRegistryInner where
  "RunnerRegistryInner_default =
     \<lparr>reg_runners = Map.empty, reg_pending_by_id = Map.empty, reg_persistent_waiters = {}, reg_queues_by_runner = Map.empty,
      reg_jobs_by_id = Map.empty, reg_request_to_job = Map.empty, reg_retired_instances = Map.empty,
      reg_unregistering_projects = Map.empty, reg_notifiers = Map.empty, reg_receipt_candidates = {}\<rparr>"

text \<open>The record of a receipt; \<open>None\<close> is the panic on a status that is not a lifecycle value.\<close>

definition job_of_receipt :: "int \<Rightarrow> RetainedJobReceipt \<Rightarrow> ShellJobRecord option" where
  "job_of_receipt now r =
     map_option (\<lambda>job. job\<lparr>job_owner_at_admission := rcp_owner_at_admission r, job_kind := rcp_kind r,
         job_observation := (job_observation job)\<lparr>obs_terminal_observed_at := Some (rcp_terminal_observed_at r),
           obs_receipt_expires_at := Some (rcp_expires_at r)\<rparr>,
         job_stdout := replace_log_from_snapshot (job_stdout job) (snap_stdout (rcp_snapshot r)),
         job_stderr := replace_log_from_snapshot (job_stderr job) (snap_stderr (rcp_snapshot r))\<rparr>)
       (record_from_snapshot (rcp_client_id r) (rcp_runner_instance_id r) (rcp_auth_group r) (rcp_snapshot r) now)"

fun hydrate :: "int \<Rightarrow> RetainedJobReceipt list \<Rightarrow> RunnerRegistryInner \<Rightarrow> RunnerRegistryInner option" where
  "hydrate now [] inner = Some inner"
| "hydrate now (r # rs) inner =
     (if receipt_validate r now \<noteq> Inr () then hydrate now rs inner
      else Option.bind (job_of_receipt now r) (\<lambda>job.
        hydrate now rs (if reg_jobs_by_id inner (job_id job) = None
          then inner\<lparr>reg_jobs_by_id := (reg_jobs_by_id inner)(job_id job \<mapsto> job)\<rparr> else inner)))"

definition with_job_receipt_store :: "int \<Rightarrow> rstr + RetainedJobReceipt list \<Rightarrow> RunnerRegistryInner option" where
  "with_job_receipt_store now loaded =
     hydrate now (case loaded of Inl _ \<Rightarrow> [] | Inr receipts \<Rightarrow> receipts) RunnerRegistryInner_default"

section \<open>Ranks\<close>

lemma descending_rank:
  fixes f :: "'a \<Rightarrow> 'b :: linorder"
  assumes "sorted_wrt (\<lambda>a b. f b < f a) ys" "x \<in> set ys"
  shows "x \<in> set (drop n ys) \<longleftrightarrow> n \<le> length (filter (\<lambda>y. f x < f y) ys)"
  using assms
proof (induction ys arbitrary: n)
  case Nil
  then show ?case by simp
next
  case (Cons y ys)
  have older: "f z < f y" if "z \<in> set ys" for z using Cons.prems(1) that by simp
  show ?case
  proof (cases n)
    case 0
    with Cons.prems(2) show ?thesis by simp
  next
    case (Suc m)
    show ?thesis
    proof (cases "x \<in> set ys")
      case True
      with Cons Suc older show ?thesis by simp
    next
      case False
      then have "x = y" using Cons.prems(2) by simp
      then have "filter (\<lambda>z. f x < f z) (y # ys) = []"
        using older by (auto simp: filter_empty_conv dest: order.asym [OF older])
      moreover have "x \<notin> set (drop m ys)" using False in_set_dropD by metis
      ultimately show ?thesis using Suc by (metis drop_Suc_Cons le_zero_eq list.size(3) nat.distinct(1))
    qed
  qed
qed

lemma rev_sort_key_descending:
  assumes "distinct (map f xs)"
  shows "sorted_wrt (\<lambda>a b. f b < f a) (rev (sort_key f xs))"
proof -
  have "distinct (map f (sort_key f xs))"
    using assms by (metis distinct_map distinct_sort set_sort)
  then have "sorted_wrt (<) (map f (sort_key f xs))"
    by (simp add: strict_sorted_iff)
  then show ?thesis by (simp add: sorted_wrt_map sorted_wrt_rev)
qed

lemma length_filter_sort_key: "length (filter P (sort_key f xs)) = length (filter P xs)"
  by (metis filter_sort length_sort)

lemma in_drop_rev_sort_key:
  assumes "distinct (map f xs)" "x \<in> set xs"
  shows "x \<in> set (drop n (rev (sort_key f xs))) \<longleftrightarrow> n \<le> length (filter (\<lambda>y. f x < f y) xs)"
  using descending_rank [OF rev_sort_key_descending [OF assms(1)], of x n] assms(2)
  by (simp add: rev_filter [symmetric] length_filter_sort_key)

section \<open>Rows\<close>

definition newer_rows :: "ReceiptRow \<Rightarrow> ReceiptRow list \<Rightarrow> nat" where
  "newer_rows row rows = length (filter (\<lambda>y. row_client_id y = row_client_id row \<and> row_age_key row < row_age_key y) rows)"

lemma distinct_age_keys: "distinct (map row_job_id rows) \<Longrightarrow> distinct (map row_age_key (filter P rows))"
  by (auto simp: distinct_map row_age_key_def inj_on_def)

lemma excess_rows_iff:
  assumes "distinct (map row_job_id rows)"
  shows "row \<in> set (excess_rows client rows) \<longleftrightarrow>
    row \<in> set rows \<and> row_client_id row = client \<and> JOB_INVENTORY_MAX_TERMINAL_JOBS \<le> newer_rows row rows"
proof (cases "row \<in> set (filter (\<lambda>r. row_client_id r = client) rows)")
  case True
  then have c: "client = row_client_id row" by simp
  show ?thesis
    using in_drop_rev_sort_key [OF distinct_age_keys [OF assms], of row "\<lambda>r. row_client_id r = client"] True
    by (auto simp: excess_rows_def newer_rows_def c conj_commute)
next
  case False
  then show ?thesis unfolding excess_rows_def by (auto dest: in_set_dropD)
qed

lemma same_row:
  "distinct (map row_job_id rows) \<Longrightarrow> r \<in> set rows \<Longrightarrow> r' \<in> set rows \<Longrightarrow> row_job_id r = row_job_id r' \<Longrightarrow> r = r'"
  by (auto simp: distinct_map inj_on_def)

lemma delete_excess_of_iff:
  assumes "distinct (map row_job_id rows)"
  shows "row \<in> set (delete_excess_of client rows) \<longleftrightarrow>
    row \<in> set rows \<and> \<not> (row_client_id row = client \<and> JOB_INVENTORY_MAX_TERMINAL_JOBS \<le> newer_rows row rows)"
  using same_row [OF assms] excess_rows_iff [OF assms]
  by (auto simp: delete_excess_of_def image_iff)

lemma delete_all_excess_iff:
  assumes "distinct (map row_job_id rows)"
  shows "row \<in> set (delete_all_excess rows) \<longleftrightarrow>
    row \<in> set rows \<and> \<not> JOB_INVENTORY_MAX_TERMINAL_JOBS \<le> newer_rows row rows"
  using same_row [OF assms] excess_rows_iff [OF assms]
  by (auto simp: delete_all_excess_def image_iff) (metis excess_rows_iff [OF assms])+

text \<open>The invariant of the table: the primary key, and at most 64 rows of one Runner.\<close>

definition rows_of :: "rstr \<Rightarrow> ReceiptRow list \<Rightarrow> nat" where
  "rows_of client rows = length (filter (\<lambda>row. row_client_id row = client) rows)"

definition rows_ok :: "ReceiptRow list \<Rightarrow> bool" where
  "rows_ok rows \<longleftrightarrow> distinct (map row_job_id rows) \<and> (\<forall>client. rows_of client rows \<le> JOB_INVENTORY_MAX_TERMINAL_JOBS)"

lemma rows_of_filter_le: "rows_of client (filter P rows) \<le> rows_of client rows"
  by (induction rows) (auto simp: rows_of_def)

lemma distinct_filter_ids: "distinct (map row_job_id rows) \<Longrightarrow> distinct (map row_job_id (filter P rows))"
  by (simp add: distinct_map inj_on_def)

lemma rows_ok_filter: "rows_ok rows \<Longrightarrow> rows_ok (filter P rows)"
  using rows_of_filter_le order_trans unfolding rows_ok_def by (blast intro: distinct_filter_ids)

lemma distinct_insert_or_ignore:
  "distinct (map row_job_id rows) \<Longrightarrow> distinct (map row_job_id (insert_or_ignore row rows))"
  by (auto simp: insert_or_ignore_def)

lemma set_insert_or_ignore:
  "set (insert_or_ignore row rows) = (if row_job_id row \<in> set (map row_job_id rows) then set rows else insert row (set rows))"
  by (auto simp: insert_or_ignore_def)

lemma rows_of_insert_or_ignore: "row_client_id row \<noteq> client \<Longrightarrow> rows_of client (insert_or_ignore row rows) = rows_of client rows"
  by (simp add: insert_or_ignore_def rows_of_def)

text \<open>After the deletion a Runner has at most 64 rows: the kept ones are the first 64 in the order of age.\<close>

lemma rows_of_delete_excess:
  assumes "distinct (map row_job_id rows)"
  shows "rows_of client (delete_excess_of client rows) \<le> JOB_INVENTORY_MAX_TERMINAL_JOBS"
proof -
  let ?mine = "rev (sort_key row_age_key (filter (\<lambda>row. row_client_id row = client) rows))"
  let ?kept = "filter (\<lambda>row. row_client_id row = client) (delete_excess_of client rows)"
  have d: "distinct ?mine" using assms by (simp add: distinct_map)
  have "distinct ?kept" using assms unfolding delete_excess_of_def by (simp add: distinct_map)
  then have len: "length ?kept = card (set ?kept)" by (rule distinct_card [symmetric])
  have "set ?kept \<subseteq> set (take JOB_INVENTORY_MAX_TERMINAL_JOBS ?mine)"
  proof
    fix row assume r: "row \<in> set ?kept"
    then have "row \<in> set ?mine" by (simp add: delete_excess_of_def)
    moreover have "row \<notin> set (drop JOB_INVENTORY_MAX_TERMINAL_JOBS ?mine)"
      using r by (auto simp: delete_excess_of_def excess_rows_def)
    ultimately show "row \<in> set (take JOB_INVENTORY_MAX_TERMINAL_JOBS ?mine)"
      by (metis Un_iff append_take_drop_id set_append)
  qed
  then have "card (set ?kept) \<le> card (set (take JOB_INVENTORY_MAX_TERMINAL_JOBS ?mine))"
    by (simp add: card_mono)
  also have "\<dots> \<le> JOB_INVENTORY_MAX_TERMINAL_JOBS"
    by (rule order_trans [OF card_length]) simp
  finally show ?thesis using len by (simp add: rows_of_def)
qed

lemma rows_ok_upsert_rows:
  assumes "rows_ok rows"
  shows "rows_ok (delete_excess_of (row_client_id row) (insert_or_ignore row rows))"
proof -
  let ?ins = "insert_or_ignore row rows"
  have d: "distinct (map row_job_id ?ins)" using assms by (simp add: rows_ok_def distinct_insert_or_ignore)
  have "rows_of client (delete_excess_of (row_client_id row) ?ins) \<le> JOB_INVENTORY_MAX_TERMINAL_JOBS" for client
  proof (cases "client = row_client_id row")
    case True
    then show ?thesis using rows_of_delete_excess [OF d] by simp
  next
    case False
    have "rows_of client (delete_excess_of (row_client_id row) ?ins) \<le> rows_of client ?ins"
      unfolding delete_excess_of_def by (rule rows_of_filter_le)
    also have "\<dots> \<le> JOB_INVENTORY_MAX_TERMINAL_JOBS"
      using rows_of_insert_or_ignore [of row client rows] False assms by (simp add: rows_ok_def)
    finally show ?thesis .
  qed
  with d show ?thesis unfolding rows_ok_def delete_excess_of_def by (blast intro: distinct_filter_ids)
qed

section \<open>Starting a registry\<close>

lemma receipt_validate_iff:
  "receipt_validate r now = Inr () \<longleftrightarrow> receipt_identity_ok r now \<and> receipt_partition_ok r
     \<and> opt_all (\<lambda>owner. receipt_text owner 256) (rcp_owner_at_admission r) \<and> receipt_terminal_ok (rcp_snapshot r)
     \<and> receipt_project_ok r \<and> receipt_context_ok (rcp_snapshot r)
     \<and> receipt_stream_ok (snap_stdout (rcp_snapshot r)) \<and> receipt_stream_ok (snap_stderr (rcp_snapshot r))"
  by (cases "rcp_owner_at_admission r") (auto simp: receipt_validate_def)

lemma valid_receipt_lifecycle:
  assumes "receipt_validate r now = Inr ()"
  obtains l where "from_wire (snap_status (rcp_snapshot r)) = Inr l" "is_terminal l"
  using assms unfolding receipt_validate_iff receipt_terminal_ok_def is_ok_and_def
  by (auto split: sum.splits)

lemma job_of_valid_receipt:
  assumes "receipt_validate r now = Inr ()"
  obtains job where "job_of_receipt now r = Some job" "job_id job = snap_job_id (rcp_snapshot r)"
    "is_terminal (job_lifecycle job)" "job_visibility job = Public" "job_activity job = None" "job_validation job = None"
    "job_kind job \<noteq> lit ''run_detached_process''" "obs_receipt_expires_at (job_observation job) = Some (rcp_expires_at r)"
    "as_wire (job_lifecycle job) = snap_status (rcp_snapshot r)"
proof -
  obtain l where l: "from_wire (snap_status (rcp_snapshot r)) = Inr l" "is_terminal l"
    using valid_receipt_lifecycle [OF assms] .
  have k: "rcp_kind r \<noteq> lit ''run_detached_process''"
    using assms by (auto simp: receipt_validate_iff receipt_identity_ok_def lit_inject)
  have "snap_activity (rcp_snapshot r) = None" "ctx_validation (snap_context (rcp_snapshot r)) = None"
    using assms by (auto simp: receipt_validate_iff receipt_terminal_ok_def)
  then show thesis using that l k
    by (auto simp: job_of_receipt_def record_from_snapshot_def observe_job_terminal_def Let_def dest: as_from_wire)
qed

text \<open>The Job that a list of receipts gives an id: that of the first valid receipt.\<close>

definition receipt_job :: "int \<Rightarrow> RetainedJobReceipt list \<Rightarrow> rstr \<rightharpoonup> ShellJobRecord" where
  "receipt_job now rs jid = Option.bind
     (List.find (\<lambda>r. receipt_validate r now = Inr () \<and> snap_job_id (rcp_snapshot r) = jid) rs) (job_of_receipt now)"

lemma receipt_job_invalid: "receipt_validate r now \<noteq> Inr () \<Longrightarrow> receipt_job now (r # rs) = receipt_job now rs"
  by (simp add: receipt_job_def fun_eq_iff)

lemma receipt_job_valid:
  "receipt_validate r now = Inr () \<Longrightarrow> job_of_receipt now r = Some job \<Longrightarrow>
     receipt_job now (r # rs) = (receipt_job now rs)(snap_job_id (rcp_snapshot r) \<mapsto> job)"
  by (auto simp: receipt_job_def fun_eq_iff)

lemma hydrate_jobs:
  "hydrate now rs inner = Some (inner\<lparr>reg_jobs_by_id := receipt_job now rs ++ reg_jobs_by_id inner\<rparr>)"
proof (induction rs arbitrary: inner)
  case Nil
  show ?case by (simp add: receipt_job_def map_add_def)
next
  case (Cons r rs)
  show ?case
  proof (cases "receipt_validate r now = Inr ()")
    case False
    with Cons show ?thesis by (simp add: receipt_job_invalid)
  next
    case True
    obtain job where job: "job_of_receipt now r = Some job" "job_id job = snap_job_id (rcp_snapshot r)"
      using job_of_valid_receipt [OF True] .
    have "receipt_job now rs ++ (reg_jobs_by_id inner)(job_id job \<mapsto> job) = receipt_job now (r # rs) ++ reg_jobs_by_id inner"
      if "reg_jobs_by_id inner (job_id job) = None"
      using that True job by (auto simp: receipt_job_valid map_add_def fun_eq_iff split: option.splits)
    moreover have "receipt_job now rs ++ reg_jobs_by_id inner = receipt_job now (r # rs) ++ reg_jobs_by_id inner"
      if "reg_jobs_by_id inner (job_id job) \<noteq> None"
      using that True job by (auto simp: receipt_job_valid map_add_def fun_eq_iff split: option.splits)
    ultimately show ?thesis using Cons True job by simp
  qed
qed

lemma find_distinct:
  assumes "distinct (map f xs)"
  shows "List.find (\<lambda>x. P x \<and> f x = k) xs = Some x \<longleftrightarrow> x \<in> set xs \<and> P x \<and> f x = k"
  using assms by (induction xs) (auto simp: image_iff)

section \<open>The contract of a receipt store\<close>

abbreviation receipt_id :: "RetainedJobReceipt \<Rightarrow> rstr" where
  "receipt_id r \<equiv> snap_job_id (rcp_snapshot r)"

text \<open>What the registry relies on, the trait \<open>JobReceiptStore\<close>: the first write of a receipt wins until it expires,
  pruning removes what has expired, and loading returns the stored receipts that are valid, each Job once.\<close>

locale receipt_store =
  fixes upsert :: "int \<Rightarrow> RetainedJobReceipt \<Rightarrow> 's \<Rightarrow> rstr + 's"
    and load :: "int \<Rightarrow> 's \<Rightarrow> 's \<times> RetainedJobReceipt list"
    and prune :: "int \<Rightarrow> 's \<Rightarrow> 's"
    and stored :: "'s \<Rightarrow> RetainedJobReceipt set"
    and invar :: "'s \<Rightarrow> bool"
  assumes invar_upsert: "invar s \<Longrightarrow> upsert now r s = Inr s' \<Longrightarrow> invar s'"
    and invar_prune: "invar s \<Longrightarrow> invar (prune now s)"
    and invar_load: "invar s \<Longrightarrow> invar (fst (load now s))"
    and stored_once: "invar s \<Longrightarrow> x \<in> stored s \<Longrightarrow> y \<in> stored s \<Longrightarrow> receipt_id x = receipt_id y \<Longrightarrow> x = y"
    and upsert_adds: "invar s \<Longrightarrow> upsert now r s = Inr s' \<Longrightarrow> x \<in> stored s' \<Longrightarrow> x \<in> stored s \<or> receipt_id x = receipt_id r"
    and first_write_wins: "invar s \<Longrightarrow> upsert now r s = Inr s' \<Longrightarrow> x \<in> stored s \<Longrightarrow> now < rcp_expires_at x
      \<Longrightarrow> receipt_id x = receipt_id r \<Longrightarrow> stored s' \<subseteq> stored s"
    and stored_prune: "invar s \<Longrightarrow> stored (prune now s) = {x \<in> stored s. now < rcp_expires_at x}"
    and stored_load: "invar s \<Longrightarrow> stored (fst (load now s)) = {x \<in> stored s. now < rcp_expires_at x}"
    and loaded: "invar s \<Longrightarrow> set (snd (load now s)) = {x \<in> stored s. receipt_validate x now = Inr ()}"
    and loaded_once: "invar s \<Longrightarrow> distinct (map receipt_id (snd (load now s)))"


context receipt_store
begin

text \<open>A server that starts from a store has exactly the Jobs of its valid receipts.\<close>

lemma started_jobs:
  assumes "invar s"
  shows "\<exists>inner. with_job_receipt_store now (Inr (snd (load now s))) = Some inner
    \<and> inner = RunnerRegistryInner_default\<lparr>reg_jobs_by_id := reg_jobs_by_id inner\<rparr>
    \<and> (\<forall>jid job. reg_jobs_by_id inner jid = Some job \<longleftrightarrow>
        (\<exists>r \<in> stored s. receipt_validate r now = Inr () \<and> receipt_id r = jid \<and> job_of_receipt now r = Some job))"
proof -
  let ?rs = "snd (load now s)"
  have "with_job_receipt_store now (Inr ?rs) = Some (RunnerRegistryInner_default\<lparr>reg_jobs_by_id := receipt_job now ?rs\<rparr>)"
    by (simp add: with_job_receipt_store_def hydrate_jobs RunnerRegistryInner_default_def)
  moreover have "receipt_job now ?rs jid = Some job \<longleftrightarrow>
      (\<exists>r \<in> stored s. receipt_validate r now = Inr () \<and> receipt_id r = jid \<and> job_of_receipt now r = Some job)" for jid job
    using loaded [OF assms, of now]
    by (auto simp: receipt_job_def bind_eq_Some_conv find_distinct [OF loaded_once [OF assms]])
  ultimately show ?thesis by simp
qed

text \<open>While a receipt has not expired no write can replace it.\<close>

lemma receipt_is_immutable:
  assumes "invar s" "upsert now r s = Inr s'" "x \<in> stored s" "now < rcp_expires_at x"
    "y \<in> stored s'" "receipt_id y = receipt_id x"
  shows "y = x"
  using assms upsert_adds [OF assms(1,2,5)] first_write_wins [OF assms(1-4)] stored_once [OF assms(1)]
  by (metis subsetD)

end

section \<open>The table keeps the contract\<close>

definition stored_receipts :: "(rstr \<Rightarrow> ShellJobSnapshot option) \<Rightarrow> ReceiptRow list \<Rightarrow> RetainedJobReceipt set" where
  "stored_receipts from_json rows = {r. \<exists>row \<in> set rows. receipt_of_row from_json row = Some r}"

lemma receipt_of_row_fields:
  "receipt_of_row from_json row = Some r \<Longrightarrow> receipt_id r = row_job_id row \<and> rcp_expires_at r = row_expires_at row"
  by (auto simp: receipt_of_row_def split: if_splits option.splits)

lemma upsert_Inr:
  "upsert_job_receipt to_json now r rows = Inr rows' \<longleftrightarrow> receipt_validate r now = Inr ()
     \<and> (\<exists>payload. to_json (rcp_snapshot r) = Inr payload \<and> str_len payload \<le> JOB_RECEIPT_PAYLOAD_MAX_BYTES
         \<and> rows' = delete_excess_of (rcp_client_id r) (insert_or_ignore (receipt_row r payload) (prune_expired now rows)))"
  by (auto simp: upsert_job_receipt_def split: sum.splits if_splits)

lemma valid_receipt_unexpired: "receipt_validate r now = Inr () \<Longrightarrow> now < rcp_expires_at r"
  by (simp add: receipt_validate_iff receipt_identity_ok_def)

lemma receipt_row_ids [simp]:
  "row_job_id (receipt_row r payload) = receipt_id r" "row_client_id (receipt_row r payload) = rcp_client_id r"
  by (simp_all add: receipt_row_def)

lemma no_excess: "rows_ok rows \<Longrightarrow> delete_all_excess rows = rows"
proof -
  assume ok: "rows_ok rows"
  have "newer_rows row rows < rows_of (row_client_id row) rows" if "row \<in> set rows" for row
  proof -
    let ?mine = "filter (\<lambda>y. row_client_id y = row_client_id row) rows"
    have "length (filter (\<lambda>y. row_age_key row < row_age_key y) ?mine) < length ?mine"
      by (rule length_filter_less [of row]) (use that in auto)
    then show ?thesis by (simp add: newer_rows_def rows_of_def conj_commute)
  qed
  then have kept: "row \<in> set (delete_all_excess rows)" if "row \<in> set rows" for row
    using ok that unfolding rows_ok_def by (simp add: delete_all_excess_iff) (meson leD le_trans)
  show ?thesis
  proof -
    have "filter P rows = rows" if "\<And>row. row \<in> set rows \<Longrightarrow> row \<in> set (filter P rows)" for P
      using that by (simp add: filter_id_conv)
    then show ?thesis using kept unfolding delete_all_excess_def by blast
  qed
qed

lemma distinct_map_filter:
  assumes "distinct (map f xs)" "\<And>x y. g x = Some y \<Longrightarrow> h y = f x"
  shows "distinct (map h (List.map_filter g xs))"
  using assms by (induction xs) (auto simp: map_filter_simps image_iff map_filter_def split: option.splits)

lemma loaded_set:
  "set (snd (load_job_receipts from_json now rows)) =
     {r. \<exists>row \<in> set (delete_all_excess (prune_expired now rows)). receipt_of_row from_json row = Some r
        \<and> receipt_validate r now = Inr ()}"
  by (force simp: load_job_receipts_def Let_def map_filter_def bind_eq_Some_conv split: if_splits)

lemma stored_prune_expired: "stored_receipts from_json (prune_expired now rows)
    = {x \<in> stored_receipts from_json rows. now < rcp_expires_at x}"
  by (auto simp: stored_receipts_def prune_expired_def not_le dest: receipt_of_row_fields) (metis receipt_of_row_fields)+

lemma first_row_wins:
  assumes "rows_ok rows" "x \<in> stored_receipts from_json rows" "now < rcp_expires_at x" "receipt_id x = row_job_id row"
  shows "insert_or_ignore row (prune_expired now rows) = prune_expired now rows"
proof -
  obtain old where "old \<in> set rows" "receipt_of_row from_json old = Some x" using assms(2) by (auto simp: stored_receipts_def)
  then have "old \<in> set (prune_expired now rows)" "row_job_id old = row_job_id row"
    using assms(3,4) receipt_of_row_fields by (auto simp: prune_expired_def)
  then show ?thesis by (auto simp: insert_or_ignore_def image_iff intro!: bexI [of _ old])
qed

interpretation sqlite: receipt_store "upsert_job_receipt to_json" "load_job_receipts from_json"
  "\<lambda>now rows. fst (prune_job_receipts now rows)" "stored_receipts from_json" rows_ok
  for to_json from_json
proof unfold_locales
  fix s s' now r x y
  assume ok: "rows_ok s"
  have pruned: "rows_ok (prune_expired now s)" using ok by (simp add: prune_expired_def rows_ok_filter)
  show "rows_ok (fst (prune_job_receipts now s))" using pruned by (simp add: prune_job_receipts_def)
  show "rows_ok (fst (load_job_receipts from_json now s))" using pruned by (simp add: load_job_receipts_def Let_def no_excess)
  show "stored_receipts from_json (fst (prune_job_receipts now s)) = {x \<in> stored_receipts from_json s. now < rcp_expires_at x}"
    by (simp add: prune_job_receipts_def stored_prune_expired)
  show "stored_receipts from_json (fst (load_job_receipts from_json now s)) = {x \<in> stored_receipts from_json s. now < rcp_expires_at x}"
    by (simp add: load_job_receipts_def Let_def no_excess [OF pruned] stored_prune_expired)
  show "set (snd (load_job_receipts from_json now s)) = {x \<in> stored_receipts from_json s. receipt_validate x now = Inr ()}"
    using stored_prune_expired [of from_json now s] valid_receipt_unexpired
    unfolding loaded_set no_excess [OF pruned] stored_receipts_def by blast
  show "distinct (map receipt_id (snd (load_job_receipts from_json now s)))"
  proof -
    have "distinct (map row_job_id (sort_key row_order_key (prune_expired now s)))"
      using pruned by (metis distinct_map distinct_sort rows_ok_def set_sort)
    then show ?thesis unfolding load_job_receipts_def Let_def no_excess [OF pruned] snd_conv
      by (rule distinct_map_filter) (auto simp: bind_eq_Some_conv dest: receipt_of_row_fields split: if_splits)
  qed
  show "x = y" if "x \<in> stored_receipts from_json s" "y \<in> stored_receipts from_json s" "receipt_id x = receipt_id y"
  proof -
    note both = that
    obtain a b where "a \<in> set s" "receipt_of_row from_json a = Some x" "b \<in> set s" "receipt_of_row from_json b = Some y"
      using both(1,2) by (auto simp: stored_receipts_def)
    moreover from this have "a = b"
      using both(3) ok same_row [of s a b] receipt_of_row_fields by (auto simp: rows_ok_def)
    ultimately show ?thesis by simp
  qed
  assume up: "upsert_job_receipt to_json now r s = Inr s'"
  then obtain payload where s': "s' = delete_excess_of (rcp_client_id r) (insert_or_ignore (receipt_row r payload) (prune_expired now s))"
    by (auto simp: upsert_Inr)
  show "rows_ok s'" unfolding s' using rows_ok_upsert_rows [OF pruned, of "receipt_row r payload"] by simp
  have sub: "set s' \<subseteq> set (insert_or_ignore (receipt_row r payload) (prune_expired now s))"
    by (auto simp: s' delete_excess_of_def)
  have pr: "set (prune_expired now s) \<subseteq> set s" by (auto simp: prune_expired_def)
  show "x \<in> stored_receipts from_json s \<or> receipt_id x = receipt_id r" if "x \<in> stored_receipts from_json s'"
  proof -
    note kept = that
    obtain row where row: "row \<in> set s'" "receipt_of_row from_json row = Some x"
      using kept by (auto simp: stored_receipts_def)
    then consider "row \<in> set s" | "row = receipt_row r payload"
      using sub pr by (auto simp: set_insert_or_ignore split: if_splits)
    then show ?thesis
    proof cases
      case 1
      with row(2) show ?thesis by (auto simp: stored_receipts_def)
    next
      case 2
      with receipt_of_row_fields [OF row(2)] show ?thesis by simp
    qed
  qed
  show "stored_receipts from_json s' \<subseteq> stored_receipts from_json s"
    if "x \<in> stored_receipts from_json s" "now < rcp_expires_at x" "receipt_id x = receipt_id r"
    using sub pr first_row_wins [OF ok that(1,2), of "receipt_row r payload"] that(3)
    by (auto simp: stored_receipts_def)
qed

section \<open>What a restart keeps\<close>

lemma receipt_row_read_back:
  assumes "receipt_validate r now = Inr ()" "from_json payload = Some (rcp_snapshot r)"
    "str_len payload \<le> JOB_RECEIPT_PAYLOAD_MAX_BYTES"
  shows "receipt_of_row from_json (receipt_row r payload) = Some r"
proof -
  have t: "receipt_text v n \<Longrightarrow> str_len v \<le> n" for v n by (simp add: receipt_text_def)
  have owner: "opt_all (\<lambda>v. str_len v \<le> 256) (rcp_owner_at_admission r)"
    using assms(1) t by (cases "rcp_owner_at_admission r") (auto simp: receipt_validate_iff)
  have part: "opt_all (\<lambda>v. str_len v \<le> 256) (snd (auth_columns r)) \<and> str_len (fst (auth_columns r)) \<le> 32"
    using assms(1) t by (auto simp: receipt_validate_iff receipt_partition_ok_def auth_columns_def lit_def utf8_width_def
        split: option.splits RunnerAccessGroup.splits)
  have ids: "str_len (rcp_client_id r) \<le> 128" "str_len (receipt_id r) \<le> 128" "str_len (rcp_runner_instance_id r) \<le> 128"
    "str_len (rcp_kind r) \<le> 128"
    using assms(1) t by (auto simp: receipt_validate_iff receipt_identity_ok_def)
  have "row_bounded (receipt_row r payload)" using owner part ids by (simp add: row_bounded_def receipt_row_def)
  moreover have "auth_group_of_row (receipt_row r payload) = Some (rcp_auth_group r)"
    by (auto simp: auth_group_of_row_def receipt_row_def auth_columns_def lit_inject split: option.splits RunnerAccessGroup.splits)
  ultimately show ?thesis using assms(2,3) by (simp add: receipt_of_row_def) (simp add: receipt_row_def)
qed

lemma receipt_stays_valid:
  "receipt_validate r t = Inr () \<Longrightarrow> t \<le> now \<Longrightarrow> now < rcp_expires_at r \<Longrightarrow> receipt_validate r now = Inr ()"
  by (auto simp: receipt_validate_iff receipt_identity_ok_def)

lemma stored_after_upsert:
  assumes "rows_ok rows" "upsert_job_receipt to_json t r rows = Inr rows'" "to_json (rcp_snapshot r) = Inr payload"
    "from_json payload = Some (rcp_snapshot r)" "receipt_id r \<notin> set (map row_job_id rows)"
    "newer_rows (receipt_row r payload) rows < JOB_INVENTORY_MAX_TERMINAL_JOBS"
  shows "r \<in> stored_receipts from_json rows'"
proof -
  let ?row = "receipt_row r payload" let ?pruned = "prune_expired t rows"
  have up: "receipt_validate r t = Inr ()" "str_len payload \<le> JOB_RECEIPT_PAYLOAD_MAX_BYTES"
    "rows' = delete_excess_of (rcp_client_id r) (insert_or_ignore ?row ?pruned)"
    using assms(2,3) by (auto simp: upsert_Inr)
  have new: "insert_or_ignore ?row ?pruned = ?pruned @ [?row]"
    using assms(5) by (auto simp: insert_or_ignore_def prune_expired_def)
  have "newer_rows ?row (?pruned @ [?row]) \<le> newer_rows ?row rows"
    by (induction rows) (auto simp: newer_rows_def prune_expired_def)
  then have "\<not> JOB_INVENTORY_MAX_TERMINAL_JOBS \<le> newer_rows ?row (?pruned @ [?row])" using assms(6) by simp
  moreover have "distinct (map row_job_id (?pruned @ [?row]))"
    using distinct_insert_or_ignore [of ?pruned ?row] new assms(1)
    by (simp add: rows_ok_def prune_expired_def distinct_filter_ids)
  ultimately have "?row \<in> set rows'" unfolding up(3) new by (simp add: delete_excess_of_iff)
  with receipt_row_read_back [where from_json = from_json, OF up(1) assms(4) up(2)] show ?thesis by (auto simp: stored_receipts_def)
qed

text \<open>The record that a restart rebuilds, against the one that was captured.\<close>

lemma captured_receipt:
  assumes "capture t job = Some r"
  obtains observed request_id where "r = job_receipt job observed request_id" "job_request_id job = Some request_id"
    "job_visibility job = Public" "is_terminal (job_lifecycle job)" "receipt_validate r t = Inr ()"
  using assms by (auto simp: capture_def Let_def split: if_splits option.splits)

lemma log_state_eqI: "replace_log_from_snapshot target log = log"
  by (cases target; cases log) (simp add: replace_log_from_snapshot_def)

lemma rebuilt_job:
  assumes "capture t job = Some r"
  shows "job_of_receipt now r = Some (job\<lparr>job_validation := None, job_activity := None,
    job_recovery := reconciled_recovery True now ServerRestartReconciliation,
    job_observation := JobObservationState_new\<lparr>obs_terminal_observed_at := Some (rcp_terminal_observed_at r),
      obs_receipt_expires_at := Some (rcp_expires_at r)\<rparr>\<rparr>)"
proof -
  obtain observed request_id where r: "r = job_receipt job observed request_id" "job_request_id job = Some request_id"
    "job_visibility job = Public" "is_terminal (job_lifecycle job)"
    using captured_receipt [OF assms] .
  then show ?thesis
    by (cases job) (auto simp: job_of_receipt_def record_from_snapshot_def job_receipt_def Let_def from_as_wire
        observe_job_terminal_def log_state_eqI JobObservationState_new_def)
qed


definition finished_job :: ShellJobRecord where
  "finished_job = sample_job\<lparr>job_lifecycle := Completed, job_ended_at := Some 20, job_exit_code := Some 0,
     job_observation := JobObservationState_new\<lparr>obs_terminal_observed_at := Some 21\<rparr>\<rparr>"

definition finished_receipt :: RetainedJobReceipt where
  "finished_receipt = job_receipt finished_job 21 (lit ''req-1'')"

lemma completed_wire: "from_wire (lit ''completed'') = Inr Completed"
  using from_as_wire [of Completed] by simp

lemma finished_receipt_valid: "21 \<le> now \<Longrightarrow> now < 921 \<Longrightarrow> receipt_validate finished_receipt now = Inr ()"
  unfolding receipt_validate_iff
  by (intro conjI; simp add: finished_receipt_def job_receipt_def finished_job_def sample_job_def receipt_identity_ok_def receipt_text_def
      receipt_partition_ok_def receipt_terminal_ok_def receipt_project_ok_def receipt_context_ok_def receipt_stream_ok_def
      Let_def completed_wire is_ok_and_def lifecycle_defs make_preview ShellJobLogState_default_def str_lines_def
      checked_add_def JOB_TERMINAL_RETENTION_SECS_def i64_sat_add_def i64_sat_def i64_max_def i64_min_def usize_max_def
      COMMAND_PREVIEW_MAX_CHARS_def JOB_RECEIPT_STREAM_MAX_BYTES_def; simp add: lit_def utf8_width_def)

lemma finished_job_captured: "capture 30 finished_job = Some finished_receipt"
  using finished_receipt_valid [of 30]
  by (simp add: capture_def finished_receipt_def) (simp add: finished_job_def sample_job_def lifecycle_defs lit_def)

text \<open>A JSON codec that knows one snapshot.\<close>

definition one_to_json :: "ShellJobSnapshot \<Rightarrow> rstr + rstr" where
  "one_to_json s = (if s = rcp_snapshot finished_receipt then Inr (lit ''{}'') else Inl (lit ''unknown''))"

definition one_from_json :: "rstr \<Rightarrow> ShellJobSnapshot option" where
  "one_from_json text = (if text = lit ''{}'' then Some (rcp_snapshot finished_receipt) else None)"

lemma finished_upsert:
  "upsert_job_receipt one_to_json 31 finished_receipt [] = Inr [receipt_row finished_receipt (lit ''{}'')]"
  using finished_receipt_valid [of 31]
  by (simp add: upsert_Inr one_to_json_def JOB_RECEIPT_PAYLOAD_MAX_BYTES_def prune_expired_def insert_or_ignore_def
      delete_excess_of_def excess_rows_def JOB_INVENTORY_MAX_TERMINAL_JOBS_def lit_def utf8_width_def)


section \<open>Runs of the table\<close>

datatype store_op = Write int RetainedJobReceipt | Prune int | Load int

primrec op_time :: "store_op \<Rightarrow> int" where
  "op_time (Write now r) = now"
| "op_time (Prune now) = now"
| "op_time (Load now) = now"

text \<open>A refused write leaves the table as it was.\<close>

primrec store_step ::
    "(ShellJobSnapshot \<Rightarrow> rstr + rstr) \<Rightarrow> (rstr \<Rightarrow> ShellJobSnapshot option) \<Rightarrow> store_op \<Rightarrow> ReceiptRow list \<Rightarrow> ReceiptRow list" where
  "store_step to_json from_json (Write now r) rows =
     (case upsert_job_receipt to_json now r rows of Inl _ \<Rightarrow> rows | Inr rows' \<Rightarrow> rows')"
| "store_step to_json from_json (Prune now) rows = fst (prune_job_receipts now rows)"
| "store_step to_json from_json (Load now) rows = fst (load_job_receipts from_json now rows)"

interpretation receipt_table: invariant_machine "store_step to_json from_json" rows_ok for to_json from_json
proof unfold_locales
  fix rows op assume "rows_ok rows"
  then show "rows_ok (store_step to_json from_json op rows)"
    using sqlite.invar_upsert sqlite.invar_prune sqlite.invar_load
    by (cases op) (auto split: sum.split)
qed

lemma store_step_immutable:
  assumes "rows_ok rows" "x \<in> stored_receipts from_json rows" "op_time op < rcp_expires_at x"
    "y \<in> stored_receipts from_json (store_step to_json from_json op rows)" "receipt_id y = receipt_id x"
  shows "y = x"
proof (cases op)
  case (Write now r)
  then show ?thesis
    using assms sqlite.receipt_is_immutable [OF assms(1), of to_json now r _ x from_json y] sqlite.stored_once [OF assms(1)]
    by (auto split: sum.splits)
next
  case (Prune now)
  then show ?thesis using assms sqlite.stored_prune [OF assms(1)] sqlite.stored_once [OF assms(1)] by auto
next
  case (Load now)
  then show ?thesis using assms sqlite.stored_load [OF assms(1)] sqlite.stored_once [OF assms(1)] by auto
qed

text \<open>C31: The stored history is bounded and immutable. After any sequence of writes, prunes and loads from the empty
  table every Job has at most one row and every Runner at most 64; and as long as a stored receipt has not
  expired, the next operation, whatever it writes, leaves no other receipt of the same Job in the table.\<close>

theorem receipt_history_is_bounded_and_immutable:
  assumes "rows = fold (store_step to_json from_json) ops []"
  shows "distinct (map row_job_id rows) \<and> length (filter (\<lambda>row. row_client_id row = client) rows) \<le> 64
    \<and> (x \<in> stored_receipts from_json rows \<longrightarrow> op_time op < rcp_expires_at x
        \<longrightarrow> y \<in> stored_receipts from_json (store_step to_json from_json op rows) \<longrightarrow> receipt_id y = receipt_id x \<longrightarrow> y = x)"
proof -
  have "rows_ok []" by (simp add: rows_ok_def rows_of_def)
  then have ok: "rows_ok rows" unfolding assms by (rule receipt_table.run_inv)
  then show ?thesis
    using store_step_immutable [OF ok]
    by (auto simp: rows_ok_def rows_of_def JOB_INVENTORY_MAX_TERMINAL_JOBS_def)
qed

lemma finished_stored: "finished_receipt \<in> stored_receipts one_from_json [receipt_row finished_receipt (lit ''{}'')]"
proof -
  have "receipt_of_row one_from_json (receipt_row finished_receipt (lit ''{}'')) = Some finished_receipt"
    by (rule receipt_row_read_back [where now = 31])
      (simp_all add: finished_receipt_valid one_from_json_def JOB_RECEIPT_PAYLOAD_MAX_BYTES_def lit_def utf8_width_def)
  then show ?thesis by (simp add: stored_receipts_def)
qed

definition replayed_receipt :: RetainedJobReceipt where
  "replayed_receipt = finished_receipt\<lparr>rcp_terminal_observed_at := 22, rcp_expires_at := 922\<rparr>"

theorem receipt_history_is_bounded_and_immutable_witness:
  "finished_receipt \<in> stored_receipts one_from_json (fold (store_step one_to_json one_from_json) [Write 31 finished_receipt] [])
   \<and> replayed_receipt \<notin> stored_receipts one_from_json (store_step one_to_json one_from_json (Write 32 replayed_receipt)
        (fold (store_step one_to_json one_from_json) [Write 31 finished_receipt] []))"
proof -
  have rows: "fold (store_step one_to_json one_from_json) [Write 31 finished_receipt] [] = [receipt_row finished_receipt (lit ''{}'')]"
    by (simp add: finished_upsert)
  have "rcp_expires_at finished_receipt = 921" "rcp_terminal_observed_at finished_receipt = 21"
    by (simp_all add: finished_receipt_def job_receipt_def JOB_TERMINAL_RETENTION_SECS_def i64_sat_add_def i64_sat_def
        i64_max_def i64_min_def)
  moreover have "replayed_receipt \<noteq> finished_receipt"
  proof
    assume "replayed_receipt = finished_receipt"
    then have "rcp_terminal_observed_at replayed_receipt = rcp_terminal_observed_at finished_receipt" by (rule arg_cong)
    with calculation(2) show False by (simp add: replayed_receipt_def)
  qed
  ultimately show ?thesis
    unfolding rows
    using receipt_history_is_bounded_and_immutable [OF rows [symmetric], of "[]" finished_receipt "Write 32 replayed_receipt" replayed_receipt]
      finished_stored by (auto simp: replayed_receipt_def)
qed

section \<open>History without authority\<close>

text \<open>A restart restores history and nothing else. Whatever a store returns, valid or not, or when it fails, the server
  starts without a panic from a registry without Runners, requests, queues or mappings; every Job in it is public,
  has ended, is filed under its own id, was not a detached process and has a receipt that has not expired; and no status refresh
  changes it.\<close>

theorem restart_restores_history_only:
  "\<exists>jobs. with_job_receipt_store now loaded = Some (RunnerRegistryInner_default\<lparr>reg_jobs_by_id := jobs\<rparr>)
    \<and> (\<forall>jid job. jobs jid = Some job \<longrightarrow> job_id job = jid \<and> is_terminal (job_lifecycle job) \<and> job_visibility job = Public
         \<and> job_kind job \<noteq> lit ''run_detached_process''
         \<and> (\<exists>expires. obs_receipt_expires_at (job_observation job) = Some expires \<and> now < expires)
         \<and> refresh_job_status_locked grace t t' (RunnerRegistryInner_default\<lparr>reg_jobs_by_id := jobs\<rparr>) jid
            = RunnerRegistryInner_default\<lparr>reg_jobs_by_id := jobs\<rparr>)"
proof -
  define rs where "rs = (case loaded of Inl _ \<Rightarrow> [] | Inr receipts \<Rightarrow> receipts)"
  have "job_id job = jid \<and> is_terminal (job_lifecycle job) \<and> job_visibility job = Public
         \<and> job_kind job \<noteq> lit ''run_detached_process''
         \<and> (\<exists>expires. obs_receipt_expires_at (job_observation job) = Some expires \<and> now < expires)"
    if "receipt_job now rs jid = Some job" for jid job
  proof -
    from that obtain r where r: "receipt_validate r now = Inr ()" "receipt_id r = jid" "job_of_receipt now r = Some job"
      by (auto simp: receipt_job_def bind_eq_Some_conv find_Some_iff)
    then show ?thesis using valid_receipt_unexpired [OF r(1)] by (metis job_of_valid_receipt option.inject)
  qed
  moreover have "with_job_receipt_store now loaded = Some (RunnerRegistryInner_default\<lparr>reg_jobs_by_id := receipt_job now rs\<rparr>)"
    unfolding with_job_receipt_store_def rs_def hydrate_jobs by (simp add: RunnerRegistryInner_default_def)
  ultimately show ?thesis
    by (intro exI [of _ "receipt_job now rs"]) (auto simp: refresh_job_status_locked_def)
qed

theorem restart_restores_history_only_witness:
  "\<exists>jobs job. with_job_receipt_store 40 (Inr [finished_receipt]) = Some (RunnerRegistryInner_default\<lparr>reg_jobs_by_id := jobs\<rparr>)
     \<and> jobs (lit ''job-1'') = Some job \<and> is_terminal (job_lifecycle job)"
proof -
  obtain job where job: "receipt_job 40 [finished_receipt] (receipt_id finished_receipt) = Some job"
    using job_of_valid_receipt [OF finished_receipt_valid [of 40]] by (auto simp: receipt_job_def finished_receipt_valid)
  have "with_job_receipt_store 40 (Inr [finished_receipt])
      = Some (RunnerRegistryInner_default\<lparr>reg_jobs_by_id := receipt_job 40 [finished_receipt]\<rparr>)"
    unfolding with_job_receipt_store_def hydrate_jobs by (simp add: RunnerRegistryInner_default_def)
  moreover have "receipt_id finished_receipt = lit ''job-1''"
    by (simp add: finished_receipt_def job_receipt_def finished_job_def sample_job_def)
  ultimately show ?thesis
    using restart_restores_history_only [of 40 "Inr [finished_receipt]"] job
    by (auto simp: RunnerRegistryInner_default_def)
qed

end
