(* ===== verification/Validation_Evidence.thy ===== *)
theory Validation_Evidence
  imports Job_Logs "HOL-Library.List_Lexorder" "HOL-Library.Product_Lexorder"
begin

text \<open>
  Extraction of structured evidence from the bounded output of validation tools
  (\<open>crates/webcodex-core/src/validation_evidence.rs\<close>): diagnostics of Cargo and rustc, summaries and failed tests of
  libtest, and the event stream of \<open>go test -json\<close>. Output lines are cleaned of terminal escapes first, and what looks like
  a secret is left out.

  The Unicode predicate \<open>char::is_alphanumeric\<close>, SHA-256 and the JSON reader of Go events are parameters. Static strings of
  the result are strings.
\<close>

section \<open>Strings\<close>

definition split_once :: "rchar \<Rightarrow> rstr \<Rightarrow> (rstr \<times> rstr) option" where
  "split_once c s = (if c \<in> set s then Some (takeWhile (\<lambda>x. x \<noteq> c) s, drop 1 (dropWhile (\<lambda>x. x \<noteq> c) s)) else None)"

definition rsplit_once :: "rchar \<Rightarrow> rstr \<Rightarrow> (rstr \<times> rstr) option" where
  "rsplit_once c s = map_option (\<lambda>(a, b). (rev b, rev a)) (split_once c (rev s))"

fun split_once_str :: "rstr \<Rightarrow> rstr \<Rightarrow> (rstr \<times> rstr) option" where
  "split_once_str pat [] = (if pat = [] then Some ([], []) else None)"
| "split_once_str pat (c # cs) =
     (if starts_with (c # cs) pat then Some ([], drop (length pat) (c # cs))
      else map_option (\<lambda>(a, b). (c # a, b)) (split_once_str pat cs))"

definition split_whitespace :: "rstr \<Rightarrow> rstr list" where
  "split_whitespace s = filter (\<lambda>w. w \<noteq> []) (split_by is_whitespace s)"

text \<open>\<open>str::parse::<u64>\<close>: an optional plus sign and digits, without overflow.\<close>

definition digits_value :: "rstr \<Rightarrow> nat" where
  "digits_value ds = foldl (\<lambda>n d. 10 * n + (d - 48)) 0 ds"

definition parse_u64 :: "rstr \<Rightarrow> nat option" where
  "parse_u64 s =
     (let digits = (case s of [] \<Rightarrow> [] | c # cs \<Rightarrow> if c = 43 then cs else s) in
      if digits \<noteq> [] \<and> list_all is_ascii_digit digits \<and> digits_value digits \<le> usize_max
      then Some (digits_value digits) else None)"

fun find_map :: "('a \<Rightarrow> 'b option) \<Rightarrow> 'a list \<Rightarrow> 'b option" where
  "find_map f [] = None"
| "find_map f (x # xs) = (case f x of Some y \<Rightarrow> Some y | None \<Rightarrow> find_map f xs)"

section \<open>Sanitisation\<close>

definition skip_csi :: "rstr \<Rightarrow> rstr" where
  "skip_csi cs = drop 1 (dropWhile (\<lambda>c. \<not> (64 \<le> c \<and> c \<le> 126)) cs)"

fun skip_osc :: "bool \<Rightarrow> rstr \<Rightarrow> rstr" where
  "skip_osc previous_escape [] = []"
| "skip_osc previous_escape (c # cs) = (if c = 7 \<or> previous_escape \<and> c = 92 then cs else skip_osc (c = 27) cs)"

lemma length_skip_csi: "length (skip_csi cs) \<le> length cs"
  using length_dropWhile_le [of _ cs] by (auto simp: skip_csi_def intro: order_trans diff_le_self)

lemma length_skip_osc: "length (skip_osc b cs) \<le> length cs"
  by (induction b cs rule: skip_osc.induct) auto

function strip_ansi :: "rstr \<Rightarrow> rstr" where
  "strip_ansi [] = []"
| "strip_ansi (c # cs) =
     (if c \<noteq> 27 then c # strip_ansi cs
      else (case cs of
          [] \<Rightarrow> []
        | d # ds \<Rightarrow> if d = 91 then strip_ansi (skip_csi ds) else if d = 93 then strip_ansi (skip_osc False ds)
            else strip_ansi ds))"
  by pat_completeness auto
termination
  by (relation "measure length") (auto intro: le_imp_less_Suc le_SucI length_skip_csi length_skip_osc)

definition is_separator :: "rchar \<Rightarrow> bool" where
  "is_separator c \<longleftrightarrow> is_control c \<or> is_whitespace c"

fun sanitize_chars :: "rstr \<Rightarrow> bool \<Rightarrow> rstr \<Rightarrow> rstr" where
  "sanitize_chars out pending_space [] = out"
| "sanitize_chars out pending_space (c # cs) =
     (if is_separator c then sanitize_chars out (out \<noteq> []) cs
      else sanitize_chars ((if pending_space then out @ [32] else out) @ [c]) False cs)"

definition sanitize_line :: "rstr \<Rightarrow> rstr" where
  "sanitize_line v = sanitize_chars [] False (strip_ansi v)"

definition sanitize_bounded_value :: "rstr \<Rightarrow> nat \<Rightarrow> rstr option" where
  "sanitize_bounded_value v max_chars =
     (let value = trim (sanitize_line v) in if value = [] then None else Some (take max_chars value))"

definition assigns_constant :: "rstr \<Rightarrow> bool" where
  "assigns_constant word =
     (case split_once 61 word of
        None \<Rightarrow> False
      | Some (key, assigned) \<Rightarrow> assigned \<noteq> [] \<and> 2 \<le> str_len key
          \<and> list_all (\<lambda>c. (65 \<le> c \<and> c \<le> 90) \<or> is_ascii_digit c \<or> c = 95) key)"

definition looks_sensitive :: "rstr \<Rightarrow> bool" where
  "looks_sensitive v =
     (let lower = to_ascii_lowercase v;
          compact = filter (\<lambda>c. \<not> (c = 95 \<or> c = 45) \<and> \<not> is_whitespace c) lower
      in list_ex (\<lambda>w. str_contains lower (lit w)) [''token'', ''secret'', ''password'', ''authorization'', ''bearer'']
         \<or> list_ex (\<lambda>w. str_contains compact (lit w)) [''apikey'', ''accesskey'', ''privatekey'']
         \<or> list_ex assigns_constant (split_whitespace v))"

definition second_byte_is_colon :: "rstr \<Rightarrow> bool" where
  "second_byte_is_colon v = (case v of c # d # _ \<Rightarrow> c < 128 \<and> d = 58 | _ \<Rightarrow> False)"

definition bad_path_part :: "rstr \<Rightarrow> bool" where
  "bad_path_part v \<longleftrightarrow> list_ex (\<lambda>part. part = [] \<or> part = lit ''..'') (split_char 47 v)"

definition MAX_DIAGNOSTICS :: nat where "MAX_DIAGNOSTICS = 20"
definition MAX_FAILED_TESTS :: nat where "MAX_FAILED_TESTS = 20"
definition MAX_DIAGNOSTIC_MESSAGE_CHARS :: nat where "MAX_DIAGNOSTIC_MESSAGE_CHARS = 240"
definition MAX_CODE_CHARS :: nat where "MAX_CODE_CHARS = 64"
definition MAX_FILE_CHARS :: nat where "MAX_FILE_CHARS = 512"
definition MAX_TEST_NAME_CHARS :: nat where "MAX_TEST_NAME_CHARS = 240"

definition sanitize_file_path :: "rstr \<Rightarrow> rstr option" where
  "sanitize_file_path v =
     Option.bind (sanitize_bounded_value v MAX_FILE_CHARS) (\<lambda>value.
       if starts_with value [47] \<or> starts_with value [92] \<or> 92 \<in> set value \<or> str_contains value (lit ''://'')
          \<or> starts_with (to_ascii_lowercase value) (lit ''file:'') \<or> second_byte_is_colon value
          \<or> looks_sensitive value \<or> bad_path_part value
       then None else Some value)"

definition sanitize_test_name :: "(rchar \<Rightarrow> bool) \<Rightarrow> rstr \<Rightarrow> rstr option" where
  "sanitize_test_name is_alphanumeric v =
     Option.bind (sanitize_bounded_value v MAX_TEST_NAME_CHARS) (\<lambda>value.
       if looks_sensitive value \<or> \<not> list_all (\<lambda>c. is_alphanumeric c \<or> c \<in> set (lit ''_:-<>.'')) value
       then None else Some value)"

section \<open>Diagnostics\<close>

record Span =
  span_file :: rstr
  span_line :: nat
  span_column :: nat

record CargoDiagnostic =
  diag_severity :: rstr
  diag_code :: "rstr option"
  diag_file :: "rstr option"
  diag_line :: "nat option"
  diag_column :: "nat option"
  diag_message :: rstr

record DiagnosticHeader =
  hdr_severity :: rstr
  hdr_code :: "rstr option"
  hdr_message :: rstr

datatype HeaderParse = HeaderNone | HeaderInvalid | HeaderValid DiagnosticHeader

definition is_rust_error_code :: "rstr \<Rightarrow> bool" where
  "is_rust_error_code v \<longleftrightarrow> 2 \<le> str_len v \<and> starts_with v (lit ''E'') \<and> list_all is_ascii_digit (drop 1 v)"

definition diagnostic_message :: "rstr \<Rightarrow> rstr option \<Rightarrow> rstr \<Rightarrow> HeaderParse" where
  "diagnostic_message severity code message =
     (case sanitize_bounded_value message MAX_DIAGNOSTIC_MESSAGE_CHARS of
        Some m \<Rightarrow> if \<not> looks_sensitive m
          then HeaderValid \<lparr>hdr_severity = severity, hdr_code = code, hdr_message = m\<rparr> else HeaderInvalid
      | None \<Rightarrow> HeaderInvalid)"

definition parse_diagnostic_header_for_severity :: "rstr \<Rightarrow> rstr \<Rightarrow> HeaderParse option" where
  "parse_diagnostic_header_for_severity line severity =
     Option.bind (strip_prefix line severity) (\<lambda>rest.
       case strip_prefix rest (lit '':'') of
         Some message \<Rightarrow> Some (diagnostic_message severity None message)
       | None \<Rightarrow> Option.bind (strip_prefix rest (lit ''['')) (\<lambda>rest'.
           case split_once 93 rest' of
             None \<Rightarrow> Some HeaderInvalid
           | Some (code, after_code) \<Rightarrow>
               (case strip_prefix after_code (lit '':'') of
                  None \<Rightarrow> Some HeaderInvalid
                | Some message \<Rightarrow>
                    if \<not> is_rust_error_code code \<or> MAX_CODE_CHARS < length code then Some HeaderInvalid
                    else Some (diagnostic_message severity (Some code) message))))"

definition parse_diagnostic_header :: "rstr \<Rightarrow> HeaderParse" where
  "parse_diagnostic_header v =
     (let line = trim_start v in
      case parse_diagnostic_header_for_severity line (lit ''error'') of
        Some h \<Rightarrow> h
      | None \<Rightarrow> (case parse_diagnostic_header_for_severity line (lit ''warning'') of Some h \<Rightarrow> h | None \<Rightarrow> HeaderNone))"

definition positive :: "nat option \<Rightarrow> nat option" where
  "positive v = (case v of Some n \<Rightarrow> if 0 < n then Some n else None | None \<Rightarrow> None)"

definition parse_location :: "rstr \<Rightarrow> Span option" where
  "parse_location v =
     (let value = rev (dropWhile (\<lambda>c. c = 58) (rev v)) in
      Option.bind (rsplit_once 58 value) (\<lambda>(path_and_line, column_text).
      Option.bind (positive (parse_u64 column_text)) (\<lambda>column.
      Option.bind (rsplit_once 58 path_and_line) (\<lambda>(file_text, line_text).
      Option.bind (positive (parse_u64 line_text)) (\<lambda>line.
      map_option (\<lambda>path. \<lparr>span_file = path, span_line = line, span_column = column\<rparr>) (sanitize_file_path file_text))))))"

definition parse_span_line :: "rstr \<Rightarrow> Span option" where
  "parse_span_line line =
     Option.bind (strip_prefix (trim_start line) (lit ''-->'')) (\<lambda>rest.
       case split_whitespace rest of [] \<Rightarrow> None | location # _ \<Rightarrow> parse_location location)"

text \<open>The position of a diagnostic: the first one on the six lines after its header, before the next header.\<close>

definition following_span :: "rstr list \<Rightarrow> Span option" where
  "following_span rest =
     find_map parse_span_line (takeWhile (\<lambda>line. parse_diagnostic_header line = HeaderNone) (map sanitize_line (take 6 rest)))"

definition diagnostic_of :: "DiagnosticHeader \<Rightarrow> Span option \<Rightarrow> CargoDiagnostic" where
  "diagnostic_of h span =
     \<lparr>diag_severity = hdr_severity h, diag_code = hdr_code h, diag_file = map_option span_file span,
      diag_line = map_option span_line span, diag_column = map_option span_column span, diag_message = hdr_message h\<rparr>"

fun scan_diagnostics :: "rstr list \<Rightarrow> CargoDiagnostic list \<times> nat" where
  "scan_diagnostics [] = ([], 0)"
| "scan_diagnostics (raw # rest) =
     (let (items, invalid) = scan_diagnostics rest in
      case parse_diagnostic_header (sanitize_line raw) of
        HeaderNone \<Rightarrow> (items, invalid)
      | HeaderInvalid \<Rightarrow> (items, sat_add invalid 1)
      | HeaderValid h \<Rightarrow> (diagnostic_of h (following_span rest) # items, invalid))"

definition severity_rank :: "rstr \<Rightarrow> nat" where
  "severity_rank v = (if v = lit ''error'' then 0 else if v = lit ''warning'' then 1 else 2)"

definition optional_string_sort_key :: "rstr option \<Rightarrow> bool \<times> rstr" where
  "optional_string_sort_key v = (v = None, case v of None \<Rightarrow> [] | Some s \<Rightarrow> s)"

text \<open>The comparison of diagnostics is lexicographic in these keys, where an absent number is the largest one.\<close>

definition diagnostic_key :: "CargoDiagnostic \<Rightarrow> nat \<times> (bool \<times> rstr) \<times> nat \<times> nat \<times> (bool \<times> rstr) \<times> rstr" where
  "diagnostic_key d =
     (severity_rank (diag_severity d), optional_string_sort_key (diag_file d),
      (case diag_line d of None \<Rightarrow> usize_max | Some n \<Rightarrow> n), (case diag_column d of None \<Rightarrow> usize_max | Some n \<Rightarrow> n),
      optional_string_sort_key (diag_code d), diag_message d)"

record ParsedDiagnostics =
  par_items :: "CargoDiagnostic list"
  par_total :: nat
  par_invalid :: nat

definition parse_rust_diagnostics :: "rstr list \<Rightarrow> ParsedDiagnostics" where
  "parse_rust_diagnostics lines =
     (let (scanned, invalid) = scan_diagnostics lines;
          items = remdups_adj (sort_key diagnostic_key scanned)
      in \<lparr>par_items = take MAX_DIAGNOSTICS items, par_total = length items, par_invalid = invalid\<rparr>)"

section \<open>Test summaries\<close>

record CargoTestSummary =
  cts_passed :: "nat option"
  cts_failed :: "nat option"
  cts_ignored :: "nat option"

fun count_before_label :: "rstr list \<Rightarrow> rstr \<Rightarrow> nat option" where
  "count_before_label (a # b # rest) label =
     (case (if b = label then parse_u64 a else None) of
        Some n \<Rightarrow> Some n
      | None \<Rightarrow> count_before_label (b # rest) label)"
| "count_before_label _ label = None"

definition summary_tokens :: "rstr \<Rightarrow> rstr list" where
  "summary_tokens line = filter (\<lambda>token. token \<noteq> []) (split_by (\<lambda>c. is_whitespace c \<or> c = 59 \<or> c = 46) line)"

definition parse_test_summary_line :: "rstr \<Rightarrow> CargoTestSummary option" where
  "parse_test_summary_line v =
     (let line = sanitize_line v; tokens = summary_tokens line;
          summary = \<lparr>cts_passed = count_before_label tokens (lit ''passed''),
            cts_failed = count_before_label tokens (lit ''failed''), cts_ignored = count_before_label tokens (lit ''ignored'')\<rparr>
      in if \<not> str_contains line (lit ''test result:'') then None
         else if cts_passed summary \<noteq> None \<or> cts_failed summary \<noteq> None \<or> cts_ignored summary \<noteq> None
         then Some summary else None)"

definition add_count :: "nat option \<Rightarrow> nat option \<Rightarrow> nat option" where
  "add_count acc v =
     (case v of None \<Rightarrow> acc | Some n \<Rightarrow> Some (sat_add (case acc of None \<Rightarrow> 0 | Some t \<Rightarrow> t) n))"

definition add_summary :: "CargoTestSummary \<Rightarrow> CargoTestSummary \<Rightarrow> CargoTestSummary" where
  "add_summary acc s = \<lparr>cts_passed = add_count (cts_passed acc) (cts_passed s),
     cts_failed = add_count (cts_failed acc) (cts_failed s), cts_ignored = add_count (cts_ignored acc) (cts_ignored s)\<rparr>"

definition aggregate_cargo_test_summaries :: "rstr list \<Rightarrow> CargoTestSummary option" where
  "aggregate_cargo_test_summaries lines =
     (let (found, acc) = foldl (\<lambda>(found, acc) line.
          case parse_test_summary_line line of None \<Rightarrow> (found, acc) | Some s \<Rightarrow> (True, add_summary acc s))
          (False, \<lparr>cts_passed = None, cts_failed = None, cts_ignored = None\<rparr>) lines
      in if found then Some acc else None)"

definition parse_complete_cargo_test_summary_counts :: "rstr \<Rightarrow> (nat \<times> nat) option" where
  "parse_complete_cargo_test_summary_counts v =
     (let line = sanitize_line v in
      Option.bind (strip_prefix line (lit ''test result:'')) (\<lambda>rest.
        let result = trim_start rest in
        if \<not> starts_with result (lit ''ok.'') \<and> \<not> starts_with result (lit ''FAILED.'') then None
        else Option.bind (parse_test_summary_line line) (\<lambda>summary.
          case (cts_passed summary, cts_failed summary, cts_ignored summary) of
            (Some passed, Some failed, Some _) \<Rightarrow> Some (passed, failed)
          | _ \<Rightarrow> None)))"

section \<open>Failed tests\<close>

record FailedTestDetail =
  fail_name :: rstr
  fail_kind :: rstr
  fail_file :: "rstr option"
  fail_line :: "nat option"
  fail_column :: "nat option"

definition parse_failed_test_line :: "(rchar \<Rightarrow> bool) \<Rightarrow> rstr \<Rightarrow> rstr option" where
  "parse_failed_test_line is_alphanumeric line =
     Option.bind (strip_prefix (trim line) (lit ''test '')) (\<lambda>rest.
     Option.bind (strip_suffix rest (lit '' ... FAILED'')) (sanitize_test_name is_alphanumeric))"

definition collect_failed_tests :: "(rchar \<Rightarrow> bool) \<Rightarrow> rstr list \<Rightarrow> rstr list \<times> nat" where
  "collect_failed_tests is_alphanumeric lines =
     (let tests = foldl (\<lambda>tests line. case parse_failed_test_line is_alphanumeric (sanitize_line line) of
          None \<Rightarrow> tests
        | Some name \<Rightarrow> if name \<in> set tests then tests else tests @ [name]) [] lines
      in (tests, length tests))"

record AssociatedPanic =
  panic_name :: rstr
  panic_kind :: rstr
  panic_span :: "Span option"

definition is_stable_assertion_signature :: "rstr \<Rightarrow> bool" where
  "is_stable_assertion_signature line \<longleftrightarrow> line = lit ''assertion failed''
     \<or> starts_with line (lit ''assertion '') \<and> ends_with line (lit '' failed'')"

definition assertion_follows :: "(rchar \<Rightarrow> bool) \<Rightarrow> rstr list \<Rightarrow> bool" where
  "assertion_follows is_alphanumeric rest =
     list_ex is_stable_assertion_signature
       (takeWhile (\<lambda>line. \<not> starts_with line (lit ''thread '' @ [39]) \<and> \<not> starts_with line (lit ''test result:'')
            \<and> parse_failed_test_line is_alphanumeric line = None) (map trim (take 8 rest)))"

definition panic_at :: "(rchar \<Rightarrow> bool) \<Rightarrow> rstr \<Rightarrow> rstr list \<Rightarrow> AssociatedPanic option" where
  "panic_at is_alphanumeric line rest =
     Option.bind (strip_prefix (trim line) (lit ''thread '' @ [39])) (\<lambda>text.
     Option.bind (split_once_str ([39] @ lit '' panicked at '') text) (\<lambda>(name_text, location).
     map_option (\<lambda>name.
         \<lparr>panic_name = name, panic_kind = (if assertion_follows is_alphanumeric rest then lit ''assertion'' else lit ''panic''),
          panic_span = parse_location (case split_whitespace location of [] \<Rightarrow> [] | token # _ \<Rightarrow> token)\<rparr>)
       (sanitize_test_name is_alphanumeric name_text)))"

text \<open>The lines are sanitised already.\<close>

fun scan_panics :: "(rchar \<Rightarrow> bool) \<Rightarrow> AssociatedPanic list \<Rightarrow> rstr list \<Rightarrow> AssociatedPanic list" where
  "scan_panics is_alphanumeric panics [] = panics"
| "scan_panics is_alphanumeric panics (line # rest) =
     scan_panics is_alphanumeric
       (case panic_at is_alphanumeric line rest of
          None \<Rightarrow> panics
        | Some p \<Rightarrow> if panic_name p \<in> set (map panic_name panics) then panics else panics @ [p]) rest"

definition collect_associated_panics :: "(rchar \<Rightarrow> bool) \<Rightarrow> rstr list \<Rightarrow> AssociatedPanic list" where
  "collect_associated_panics is_alphanumeric lines = scan_panics is_alphanumeric [] (map sanitize_line lines)"

definition failed_test_details :: "(rchar \<Rightarrow> bool) \<Rightarrow> rstr list \<Rightarrow> rstr list \<Rightarrow> FailedTestDetail list" where
  "failed_test_details is_alphanumeric lines failed_tests =
     (let panics = collect_associated_panics is_alphanumeric lines in
      map (\<lambda>name.
        let panic = List.find (\<lambda>p. panic_name p = name) panics; span = Option.bind panic panic_span in
        \<lparr>fail_name = name, fail_kind = (case panic of None \<Rightarrow> lit ''unknown'' | Some p \<Rightarrow> panic_kind p),
         fail_file = map_option span_file span, fail_line = map_option span_line span,
         fail_column = map_option span_column span\<rparr>) failed_tests)"

section \<open>Reports\<close>

record ValidationDiagnostics =
  vd_available :: bool
  vd_parser :: rstr
  vd_reason :: "rstr option"
  vd_diagnostic_count :: "nat option"
  vd_diagnostics :: "CargoDiagnostic list"
  vd_returned_diagnostic_count :: nat
  vd_diagnostics_truncated :: bool
  vd_invalid_diagnostics_omitted :: nat
  vd_test_summary :: "CargoTestSummary option"
  vd_failed_test_details :: "FailedTestDetail list"
  vd_failed_test_details_truncated :: bool
  vd_truncated :: "bool option"

definition PARSER_KIND :: rstr where "PARSER_KIND = lit ''structured_validation_parser''"
definition NO_STABLE_DIAGNOSTICS_REASON :: rstr where "NO_STABLE_DIAGNOSTICS_REASON = lit ''no stable diagnostics found''"

definition combined_lines :: "rstr \<Rightarrow> rstr \<Rightarrow> rstr list" where
  "combined_lines stdout_excerpt stderr_excerpt = str_lines stdout_excerpt @ str_lines stderr_excerpt"

definition diagnostics_unavailable :: "nat \<Rightarrow> ValidationDiagnostics" where
  "diagnostics_unavailable invalid =
     \<lparr>vd_available = False, vd_parser = PARSER_KIND, vd_reason = Some NO_STABLE_DIAGNOSTICS_REASON,
      vd_diagnostic_count = None, vd_diagnostics = [], vd_returned_diagnostic_count = 0,
      vd_diagnostics_truncated = False, vd_invalid_diagnostics_omitted = invalid, vd_test_summary = None,
      vd_failed_test_details = [], vd_failed_test_details_truncated = False, vd_truncated = None\<rparr>"

definition diagnostics_from_rust :: "ParsedDiagnostics \<Rightarrow> bool \<Rightarrow> ValidationDiagnostics" where
  "diagnostics_from_rust parsed truncated =
     \<lparr>vd_available = True, vd_parser = PARSER_KIND, vd_reason = None, vd_diagnostic_count = Some (par_total parsed),
      vd_diagnostics = par_items parsed, vd_returned_diagnostic_count = length (par_items parsed),
      vd_diagnostics_truncated = (truncated \<or> MAX_DIAGNOSTICS < par_total parsed),
      vd_invalid_diagnostics_omitted = par_invalid parsed, vd_test_summary = None, vd_failed_test_details = [],
      vd_failed_test_details_truncated = False, vd_truncated = Some truncated\<rparr>"

definition parse_cargo_check_diagnostics :: "rstr \<Rightarrow> rstr \<Rightarrow> bool \<Rightarrow> ValidationDiagnostics" where
  "parse_cargo_check_diagnostics stdout_excerpt stderr_excerpt truncated =
     (let parsed = parse_rust_diagnostics (combined_lines stdout_excerpt stderr_excerpt) in
      if par_total parsed = 0 then diagnostics_unavailable (par_invalid parsed)
      else diagnostics_from_rust parsed truncated)"

text \<open>\<open>usize\<close> has 64 bits, so the conversion of the failed count does not fail.\<close>

definition parse_cargo_test_diagnostics :: "(rchar \<Rightarrow> bool) \<Rightarrow> rstr \<Rightarrow> rstr \<Rightarrow> bool \<Rightarrow> ValidationDiagnostics" where
  "parse_cargo_test_diagnostics is_alphanumeric stdout_excerpt stderr_excerpt truncated =
     (let lines = combined_lines stdout_excerpt stderr_excerpt;
          parsed = parse_rust_diagnostics lines;
          test_summary = aggregate_cargo_test_summaries lines;
          (all_failed_tests, unique_failed_count) = collect_failed_tests is_alphanumeric lines
      in if test_summary = None \<and> all_failed_tests = [] \<and> par_total parsed = 0
         then diagnostics_unavailable (par_invalid parsed)
         else
           let details = failed_test_details is_alphanumeric lines (take MAX_FAILED_TESTS all_failed_tests);
               summary_failed = (case Option.bind test_summary cts_failed of None \<Rightarrow> 0 | Some n \<Rightarrow> n)
           in \<lparr>vd_available = True, vd_parser = PARSER_KIND, vd_reason = None,
               vd_diagnostic_count =
                 (if test_summary \<noteq> None \<or> details \<noteq> []
                  then (case Option.bind test_summary cts_failed of Some n \<Rightarrow> Some n | None \<Rightarrow> Some unique_failed_count)
                  else Some (par_total parsed)),
               vd_diagnostics = par_items parsed, vd_returned_diagnostic_count = length (par_items parsed),
               vd_diagnostics_truncated = (truncated \<or> MAX_DIAGNOSTICS < par_total parsed),
               vd_invalid_diagnostics_omitted = par_invalid parsed, vd_test_summary = test_summary,
               vd_failed_test_details = details,
               vd_failed_test_details_truncated =
                 (MAX_FAILED_TESTS < unique_failed_count \<or> truncated \<and> length details < summary_failed),
               vd_truncated = Some truncated\<rparr>)"

section \<open>Go test events\<close>

record GoTestEvent =
  gev_action :: rstr
  gev_package :: rstr
  gev_test :: "rstr option"

datatype GoTerminalAction = GoPass | GoFail | GoSkip

record GoTestResult =
  gtr_name :: rstr
  gtr_action :: GoTerminalAction

definition sanitize_go_identity_component :: "(rchar \<Rightarrow> bool) \<Rightarrow> rstr \<Rightarrow> rstr option" where
  "sanitize_go_identity_component is_alphanumeric v =
     (let value = trim (sanitize_line v) in
      if value = [] \<or> starts_with value [47] \<or> starts_with value [92] \<or> 92 \<in> set value \<or> str_contains value (lit ''://'')
         \<or> second_byte_is_colon value \<or> bad_path_part value \<or> looks_sensitive value
         \<or> \<not> list_all (\<lambda>c. is_alphanumeric c \<or> c \<in> set (lit ''_:-<>./#=+,@~'')) value
      then None else Some value)"

definition bounded_go_test_identity :: "(rstr \<Rightarrow> rstr) \<Rightarrow> rstr \<Rightarrow> rstr \<Rightarrow> rstr" where
  "bounded_go_test_identity sha256_hex package test =
     (let ident = package @ lit ''::'' @ test in
      if length ident \<le> MAX_TEST_NAME_CHARS then ident
      else let suffix = lit ''#'' @ take 16 (sha256_hex ident)
           in take (MAX_TEST_NAME_CHARS - str_len suffix) ident @ suffix)"

text \<open>The action of an event: \<open>None\<close> for an unknown one, \<open>Some None\<close> for one that ends nothing.\<close>

definition go_action :: "rstr \<Rightarrow> GoTerminalAction option option" where
  "go_action a =
     (if a = lit ''pass'' then Some (Some GoPass)
      else if a = lit ''fail'' then Some (Some GoFail)
      else if a = lit ''skip'' then Some (Some GoSkip)
      else if a \<in> set (map lit [''start'', ''run'', ''pause'', ''cont'', ''bench'', ''output'']) then Some None
      else None)"

datatype go_line = GoInvalid | GoIgnored | GoResult rstr GoTerminalAction

definition go_line_of ::
    "(rchar \<Rightarrow> bool) \<Rightarrow> (rstr \<Rightarrow> rstr) \<Rightarrow> (rstr \<Rightarrow> GoTestEvent option) \<Rightarrow> rstr \<Rightarrow> go_line" where
  "go_line_of is_alphanumeric sha256_hex from_json line =
     (case from_json line of
        None \<Rightarrow> GoInvalid
      | Some event \<Rightarrow>
          (case sanitize_go_identity_component is_alphanumeric (gev_package event) of
             None \<Rightarrow> GoInvalid
           | Some package \<Rightarrow>
               (case go_action (gev_action event) of
                  None \<Rightarrow> GoInvalid
                | Some None \<Rightarrow> GoIgnored
                | Some (Some action) \<Rightarrow>
                    (case gev_test event of
                       None \<Rightarrow> GoIgnored
                     | Some test_text \<Rightarrow>
                         (case sanitize_go_identity_component is_alphanumeric test_text of
                            None \<Rightarrow> GoInvalid
                          | Some test \<Rightarrow> GoResult (bounded_go_test_identity sha256_hex package test) action)))))"

text \<open>One line of the stream; \<open>result_indexes\<close> is the position of a name in the results.\<close>

definition go_step :: "go_line \<Rightarrow> GoTestResult list \<times> nat \<Rightarrow> GoTestResult list \<times> nat" where
  "go_step l state =
     (let (results, invalid) = state in
      case l of
        GoInvalid \<Rightarrow> (results, sat_add invalid 1)
      | GoIgnored \<Rightarrow> (results, invalid)
      | GoResult name action \<Rightarrow>
          (case List.find (\<lambda>r. gtr_name r = name) results of
             None \<Rightarrow> (results @ [\<lparr>gtr_name = name, gtr_action = action\<rparr>], invalid)
           | Some r \<Rightarrow>
               if gtr_action r \<noteq> action
               then (if action = GoFail
                       then map (\<lambda>r. if gtr_name r = name then r\<lparr>gtr_action := action\<rparr> else r) results else results,
                     sat_add invalid 1)
               else (results, invalid)))"

definition count_action :: "GoTerminalAction \<Rightarrow> GoTestResult list \<Rightarrow> nat" where
  "count_action a results = foldl (\<lambda>n r. if gtr_action r = a then sat_add n 1 else n) 0 results"

definition parse_go_test_diagnostics ::
    "(rchar \<Rightarrow> bool) \<Rightarrow> (rstr \<Rightarrow> rstr) \<Rightarrow> (rstr \<Rightarrow> GoTestEvent option) \<Rightarrow> rstr \<Rightarrow> bool \<Rightarrow> ValidationDiagnostics" where
  "parse_go_test_diagnostics is_alphanumeric sha256_hex from_json stdout_excerpt truncated =
     (let (results, invalid) =
          fold go_step (map (go_line_of is_alphanumeric sha256_hex from_json) (str_lines stdout_excerpt)) ([], 0) in
      if results = [] then
        (if truncated
         then (diagnostics_unavailable invalid)\<lparr>vd_diagnostics_truncated := True, vd_failed_test_details_truncated := True,
           vd_truncated := Some True\<rparr>
         else diagnostics_unavailable invalid)
      else
        let failed = count_action GoFail results;
            details = map (\<lambda>r. \<lparr>fail_name = gtr_name r, fail_kind = lit ''unknown'', fail_file = None, fail_line = None,
                fail_column = None\<rparr>) (take MAX_FAILED_TESTS (filter (\<lambda>r. gtr_action r = GoFail) results))
        in \<lparr>vd_available = True, vd_parser = PARSER_KIND, vd_reason = None, vd_diagnostic_count = Some failed,
            vd_diagnostics = [], vd_returned_diagnostic_count = 0, vd_diagnostics_truncated = truncated,
            vd_invalid_diagnostics_omitted = invalid,
            vd_test_summary = Some \<lparr>cts_passed = Some (count_action GoPass results), cts_failed = Some failed,
              cts_ignored = Some (count_action GoSkip results)\<rparr>,
            vd_failed_test_details = details,
            vd_failed_test_details_truncated = (truncated \<or> length details < failed), vd_truncated = Some truncated\<rparr>)"

section \<open>Clean text\<close>

text \<open>What sanitisation computes: the words between separators, with one space between them.\<close>

definition line_words :: "rstr \<Rightarrow> rstr list" where
  "line_words cs = filter (\<lambda>w. w \<noteq> []) (split_by is_separator cs)"

definition spaced :: "rstr list \<Rightarrow> rstr" where
  "spaced ws = (if ws = [] then [] else 32 # join [32] ws)"

lemma join_spaced: "join [32] (w # ws) = w @ spaced ws"
  by (cases ws) (simp_all add: spaced_def)

lemma sanitize_chars_words:
  "out \<noteq> [] \<Longrightarrow> sanitize_chars out True cs = out @ spaced (line_words cs)"
  "out \<noteq> [] \<Longrightarrow> split_by is_separator cs = y # ys \<Longrightarrow>
     sanitize_chars out False cs = out @ y @ spaced (filter (\<lambda>w. w \<noteq> []) ys)"
proof (induction cs arbitrary: out y ys)
  case Nil
  { case 1 then show ?case by (simp add: line_words_def spaced_def) }
  { case 2 then show ?case by (auto simp: spaced_def) }
next
  case (Cons c cs)
  obtain z zs where z: "split_by is_separator cs = z # zs" by (cases "split_by is_separator cs") auto
  { case 1
    show ?case
    proof (cases "is_separator c")
      case True
      with 1 Cons.IH(1) [of out] show ?thesis by (simp add: line_words_def)
    next
      case False
      with 1 Cons.IH(2) [OF _ z, of "out @ [32, c]"] z show ?thesis
        by (simp add: line_words_def spaced_def join_spaced)
    qed }
  { case 2
    show ?case
    proof (cases "is_separator c")
      case True
      with 2 Cons.IH(1) [of out] show ?thesis by (auto simp: line_words_def)
    next
      case False
      with 2 Cons.IH(2) [OF _ z, of "out @ [c]"] z show ?thesis by auto
    qed }
qed

lemma sanitize_chars_start: "sanitize_chars [] False cs = join [32] (line_words cs)"
proof (induction cs)
  case Nil
  then show ?case by (simp add: line_words_def)
next
  case (Cons c cs)
  obtain z zs where z: "split_by is_separator cs = z # zs" by (cases "split_by is_separator cs") auto
  show ?case using Cons sanitize_chars_words(2) [OF _ z, of "[c]"] z by (simp add: line_words_def join_spaced)
qed

lemma sanitize_line_words: "sanitize_line v = join [32] (line_words (strip_ansi v))"
  by (simp add: sanitize_line_def sanitize_chars_start)

lemma sanitized_chars: "c \<in> set (sanitize_line v) \<Longrightarrow> c = 32 \<or> \<not> is_separator c"
  unfolding sanitize_line_words line_words_def
  by (auto dest!: set_join dest: split_by_parts)

lemma sanitized_no_control: "c \<in> set (sanitize_line v) \<Longrightarrow> \<not> is_control c"
  using sanitized_chars [of c v] by (auto simp: is_separator_def is_control_def)

lemma strip_ansi_no_escape: "27 \<notin> set s \<Longrightarrow> strip_ansi s = s"
  by (induction s) auto

text \<open>Cleaning is idempotent: a clean line is left as it is.\<close>

lemma line_words_join:
  assumes "\<And>w. w \<in> set ws \<Longrightarrow> w \<noteq> [] \<and> (\<forall>c \<in> set w. \<not> is_separator c)"
  shows "line_words (join [32] ws) = ws"
  using assms
proof (induction ws rule: induct_list012)
  case 1
  then show ?case by (simp add: line_words_def)
next
  case (2 w)
  then show ?case by (simp add: line_words_def split_by_no_sep)
next
  case (3 w x ws)
  have "is_separator 32" by (simp add: is_separator_def is_whitespace_def)
  then have "line_words (w @ 32 # join [32] (x # ws)) = w # line_words (join [32] (x # ws))"
    using 3(3) [of w] by (simp add: line_words_def split_by_append_sep split_by_no_sep)
  moreover have "line_words (join [32] (x # ws)) = x # ws" by (rule 3(2)) (use 3(3) in auto)
  ultimately show ?case by simp
qed

theorem sanitize_line_idempotent: "sanitize_line (sanitize_line v) = sanitize_line v"
proof -
  have "27 \<notin> set (sanitize_line v)" using sanitized_no_control by (force simp: is_control_def)
  moreover have "line_words (join [32] (line_words (strip_ansi v))) = line_words (strip_ansi v)"
    by (rule line_words_join) (auto simp: line_words_def dest: split_by_parts)
  ultimately show ?thesis by (simp add: sanitize_line_words strip_ansi_no_escape)
qed

section \<open>Safe reports\<close>

definition text_safe :: "nat \<Rightarrow> rstr \<Rightarrow> bool" where
  "text_safe max_chars v \<longleftrightarrow> v \<noteq> [] \<and> length v \<le> max_chars \<and> list_all (\<lambda>c. \<not> is_control c) v \<and> \<not> looks_sensitive v"

definition path_safe :: "rstr \<Rightarrow> bool" where
  "path_safe v \<longleftrightarrow> text_safe 512 v \<and> \<not> starts_with v [47] \<and> 92 \<notin> set v
     \<and> list_all (\<lambda>part. part \<noteq> [] \<and> part \<noteq> lit ''..'') (split_char 47 v)"

definition position_safe :: "rstr option \<Rightarrow> nat option \<Rightarrow> nat option \<Rightarrow> bool" where
  "position_safe path line column \<longleftrightarrow>
     path = None \<and> line = None \<and> column = None
     \<or> opt_ex path_safe path \<and> opt_ex (\<lambda>n. 0 < n) line \<and> opt_ex (\<lambda>n. 0 < n) column"

definition diagnostic_safe :: "CargoDiagnostic \<Rightarrow> bool" where
  "diagnostic_safe d \<longleftrightarrow> diag_severity d \<in> set [lit ''error'', lit ''warning''] \<and> text_safe 240 (diag_message d)
     \<and> opt_all (\<lambda>code. is_rust_error_code code \<and> length code \<le> 64) (diag_code d)
     \<and> position_safe (diag_file d) (diag_line d) (diag_column d)"

definition failed_test_safe :: "FailedTestDetail \<Rightarrow> bool" where
  "failed_test_safe f \<longleftrightarrow> text_safe 240 (fail_name f)
     \<and> fail_kind f \<in> set [lit ''unknown'', lit ''assertion'', lit ''panic'']
     \<and> position_safe (fail_file f) (fail_line f) (fail_column f)"

definition report_safe :: "ValidationDiagnostics \<Rightarrow> bool" where
  "report_safe r \<longleftrightarrow> list_all diagnostic_safe (vd_diagnostics r) \<and> length (vd_diagnostics r) \<le> 20
     \<and> vd_returned_diagnostic_count r = length (vd_diagnostics r)
     \<and> list_all failed_test_safe (vd_failed_test_details r) \<and> length (vd_failed_test_details r) \<le> 20"

lemma sanitize_bounded_safe:
  assumes "sanitize_bounded_value v n = Some m" "0 < n"
  shows "m \<noteq> [] \<and> length m \<le> n \<and> list_all (\<lambda>c. \<not> is_control c) m"
proof -
  have m: "m = take n (trim (sanitize_line v))" "trim (sanitize_line v) \<noteq> []"
    using assms(1) by (auto simp: sanitize_bounded_value_def Let_def split: if_splits)
  have "set m \<subseteq> set (sanitize_line v)" using set_trim set_take_subset unfolding m(1) by (metis order_trans)
  with m assms(2) sanitized_no_control show ?thesis by (auto simp: list_all_iff)
qed

lemma sanitize_file_path_safe:
  assumes "sanitize_file_path v = Some p"
  shows "path_safe p"
proof -
  have p: "sanitize_bounded_value v 512 = Some p" "\<not> starts_with p [47]" "92 \<notin> set p" "\<not> looks_sensitive p" "\<not> bad_path_part p"
    using assms unfolding sanitize_file_path_def bind_eq_Some_conv MAX_FILE_CHARS_def by (metis option.distinct(1) option.inject)+
  then show ?thesis
    using sanitize_bounded_safe [OF p(1)] by (simp add: path_safe_def text_safe_def bad_path_part_def list_ex_iff list_all_iff)
qed

lemma sanitize_test_name_safe: "sanitize_test_name a v = Some n \<Longrightarrow> text_safe 240 n"
  by (auto simp: sanitize_test_name_def bind_eq_Some_conv text_safe_def MAX_TEST_NAME_CHARS_def
      dest: sanitize_bounded_safe split: if_splits)

lemma positive_Some: "positive v = Some n \<longleftrightarrow> v = Some n \<and> 0 < n"
  by (auto simp: positive_def split: option.splits if_splits)

lemma parse_location_safe:
  "parse_location v = Some s \<Longrightarrow> path_safe (span_file s) \<and> 0 < span_line s \<and> 0 < span_column s"
  by (auto simp: parse_location_def Let_def bind_eq_Some_conv positive_Some dest!: sanitize_file_path_safe)

lemma find_map_Some: "find_map f xs = Some y \<Longrightarrow> \<exists>x \<in> set xs. f x = Some y"
  by (induction xs) (auto split: option.splits)

lemma parse_span_line_Some: "parse_span_line line = Some s \<Longrightarrow> \<exists>v. parse_location v = Some s"
  unfolding parse_span_line_def bind_eq_Some_conv by (metis list.case option.distinct(1) neq_Nil_conv)

lemma following_span_safe:
  "following_span rest = Some s \<Longrightarrow> path_safe (span_file s) \<and> 0 < span_line s \<and> 0 < span_column s"
  unfolding following_span_def using find_map_Some parse_span_line_Some parse_location_safe by metis

lemma span_position_safe:
  "(\<And>s. span = Some s \<Longrightarrow> path_safe (span_file s) \<and> 0 < span_line s \<and> 0 < span_column s) \<Longrightarrow>
     position_safe (map_option span_file span) (map_option span_line span) (map_option span_column span)"
  by (cases span) (auto simp: position_safe_def)

lemma diagnostic_message_safe:
  "diagnostic_message severity code m = HeaderValid h \<Longrightarrow>
     hdr_severity h = severity \<and> hdr_code h = code \<and> text_safe 240 (hdr_message h)"
  by (auto simp: diagnostic_message_def text_safe_def MAX_DIAGNOSTIC_MESSAGE_CHARS_def dest: sanitize_bounded_safe
      split: option.splits if_splits)

lemma header_for_severity_safe:
  assumes "parse_diagnostic_header_for_severity line severity = Some (HeaderValid h)"
  shows "hdr_severity h = severity \<and> text_safe 240 (hdr_message h)
     \<and> opt_all (\<lambda>code. is_rust_error_code code \<and> length code \<le> 64) (hdr_code h)"
proof -
  obtain rest where rest: "strip_prefix line severity = Some rest"
    using assms by (auto simp: parse_diagnostic_header_for_severity_def bind_eq_Some_conv)
  consider message where "diagnostic_message severity None message = HeaderValid h"
    | code message where "diagnostic_message severity (Some code) message = HeaderValid h" "is_rust_error_code code"
        "length code \<le> 64"
  proof (cases "strip_prefix rest (lit '':'')")
    case (Some message)
    with assms rest that(1) show thesis by (simp add: parse_diagnostic_header_for_severity_def)
  next
    case None
    then obtain inside where inside: "strip_prefix rest (lit ''['') = Some inside"
      using assms rest by (auto simp: parse_diagnostic_header_for_severity_def bind_eq_Some_conv)
    obtain code after_code where code: "split_once 93 inside = Some (code, after_code)"
      using assms rest None inside
      by (cases "split_once 93 inside") (auto simp: parse_diagnostic_header_for_severity_def)
    obtain message where "strip_prefix after_code (lit '':'') = Some message"
      using assms rest None inside code
      by (cases "strip_prefix after_code (lit '':'')") (auto simp: parse_diagnostic_header_for_severity_def)
    with assms rest None inside code that(2) show thesis
      by (auto simp: parse_diagnostic_header_for_severity_def MAX_CODE_CHARS_def not_less split: if_splits)
  qed
  then show ?thesis by cases (auto dest: diagnostic_message_safe)
qed

lemma header_safe:
  assumes "parse_diagnostic_header line = HeaderValid h"
  shows "hdr_severity h \<in> set [lit ''error'', lit ''warning''] \<and> text_safe 240 (hdr_message h)
     \<and> opt_all (\<lambda>code. is_rust_error_code code \<and> length code \<le> 64) (hdr_code h)"
  using assms header_for_severity_safe
  by (fastforce simp: parse_diagnostic_header_def Let_def split: option.splits)

lemma scanned_safe: "list_all diagnostic_safe (fst (scan_diagnostics lines))"
proof (induction lines)
  case (Cons raw rest)
  then show ?case
    using header_safe [of "sanitize_line raw"] span_position_safe [of "following_span rest"] following_span_safe [of rest]
    by (auto simp: diagnostic_safe_def diagnostic_of_def split: prod.splits HeaderParse.splits)
qed simp

lemma parsed_items:
  "par_items (parse_rust_diagnostics lines) = take 20 (remdups_adj (sort_key diagnostic_key (fst (scan_diagnostics lines))))"
  "par_total (parse_rust_diagnostics lines) = length (remdups_adj (sort_key diagnostic_key (fst (scan_diagnostics lines))))"
  by (simp_all add: parse_rust_diagnostics_def MAX_DIAGNOSTICS_def Let_def split: prod.split)

lemma parsed_safe: "list_all diagnostic_safe (par_items (parse_rust_diagnostics lines))"
  "length (par_items (parse_rust_diagnostics lines)) \<le> 20"
  using scanned_safe [of lines] by (auto simp: parsed_items list_all_iff dest!: in_set_takeD)

lemma collected_tests_safe: "n \<in> set (fst (collect_failed_tests a lines)) \<Longrightarrow> text_safe 240 n"
proof -
  have "list_all (text_safe 240) (foldl (\<lambda>tests line. case parse_failed_test_line a (sanitize_line line) of
          None \<Rightarrow> tests | Some name \<Rightarrow> if name \<in> set tests then tests else tests @ [name]) acc lines)"
    if "list_all (text_safe 240) acc" for acc
    using that
  proof (induction lines arbitrary: acc)
    case (Cons line lines)
    have "list_all (text_safe 240) (case parse_failed_test_line a (sanitize_line line) of
          None \<Rightarrow> acc | Some name \<Rightarrow> if name \<in> set acc then acc else acc @ [name])"
      using Cons.prems by (auto simp: parse_failed_test_line_def bind_eq_Some_conv dest: sanitize_test_name_safe split: option.split)
    from Cons.IH [OF this] show ?case by simp
  qed simp
  from this [of "[]"] show "n \<in> set (fst (collect_failed_tests a lines)) \<Longrightarrow> text_safe 240 n"
    by (auto simp: collect_failed_tests_def Let_def list_all_iff)
qed

definition panic_safe :: "AssociatedPanic \<Rightarrow> bool" where
  "panic_safe p \<longleftrightarrow> panic_kind p \<in> set [lit ''assertion'', lit ''panic'']
     \<and> opt_all (\<lambda>s. path_safe (span_file s) \<and> 0 < span_line s \<and> 0 < span_column s) (panic_span p)"

lemma panic_at_safe: "panic_at a line rest = Some p \<Longrightarrow> panic_safe p"
  by (auto simp: panic_at_def bind_eq_Some_conv panic_safe_def opt_all_def dest: parse_location_safe split: option.split)

lemma scan_panics_safe: "list_all panic_safe panics \<Longrightarrow> list_all panic_safe (scan_panics a panics lines)"
  by (induction lines arbitrary: panics) (auto dest: panic_at_safe split: option.split)

lemma failed_details_safe:
  assumes "\<And>n. n \<in> set names \<Longrightarrow> text_safe 240 n"
  shows "list_all failed_test_safe (failed_test_details a lines names)"
proof -
  let ?panics = "collect_associated_panics a lines"
  have panics: "list_all panic_safe ?panics" by (simp add: collect_associated_panics_def scan_panics_safe)
  have "failed_test_safe \<lparr>fail_name = n, fail_kind = (case q of None \<Rightarrow> lit ''unknown'' | Some p \<Rightarrow> panic_kind p),
      fail_file = map_option span_file (Option.bind q panic_span), fail_line = map_option span_line (Option.bind q panic_span),
      fail_column = map_option span_column (Option.bind q panic_span)\<rparr>"
    if "n \<in> set names" "q = List.find (\<lambda>p. panic_name p = n) ?panics" for n q
  proof -
    note found = that(2)
    have q: "panic_safe p" if "q = Some p" for p
      using that panics unfolding found by (auto simp: list_all_iff find_Some_iff)
    have "position_safe (map_option span_file (Option.bind q panic_span)) (map_option span_line (Option.bind q panic_span))
        (map_option span_column (Option.bind q panic_span))"
      by (rule span_position_safe) (use q in \<open>auto simp: bind_eq_Some_conv panic_safe_def\<close>)
    then show ?thesis using assms [OF that(1)] q by (auto simp: failed_test_safe_def panic_safe_def split: option.split)
  qed
  then show ?thesis by (simp add: failed_test_details_def Let_def list_all_iff)
qed


section \<open>Unique diagnostics\<close>

lemma optional_key_inj: "optional_string_sort_key a = optional_string_sort_key b \<Longrightarrow> a = b"
  by (cases a; cases b) (auto simp: optional_string_sort_key_def)

text \<open>The comparison identifies an absent number with the largest one. Diagnostics have a position or none, so
  it tells them apart all the same.\<close>

lemma diagnostic_key_inj: "inj_on diagnostic_key {d. diagnostic_safe d}"
proof (rule inj_onI)
  fix d e assume safe: "d \<in> {d. diagnostic_safe d}" "e \<in> {d. diagnostic_safe d}" and key: "diagnostic_key d = diagnostic_key e"
  have "diag_severity d = diag_severity e"
    using safe key by (auto simp: diagnostic_safe_def diagnostic_key_def severity_rank_def lit_inject split: if_splits)
  moreover have f: "diag_file d = diag_file e" "diag_code d = diag_code e" "diag_message d = diag_message e"
    using key by (auto simp: diagnostic_key_def dest: optional_key_inj)
  moreover have "diag_line d = diag_line e \<and> diag_column d = diag_column e"
  proof (cases "diag_file d")
    case None
    with safe f(1) show ?thesis by (auto simp: diagnostic_safe_def position_safe_def)
  next
    case (Some path)
    with safe f(1) have "opt_ex (\<lambda>n. 0 < n) (diag_line d)" "opt_ex (\<lambda>n. 0 < n) (diag_column d)"
      "opt_ex (\<lambda>n. 0 < n) (diag_line e)" "opt_ex (\<lambda>n. 0 < n) (diag_column e)"
      by (auto simp: diagnostic_safe_def position_safe_def)
    then obtain m n m' n' where "diag_line d = Some m" "diag_column d = Some n" "diag_line e = Some m'" "diag_column e = Some n'"
      by (auto simp: opt_ex_def split: option.splits)
    with key show ?thesis by (simp add: diagnostic_key_def)
  qed
  ultimately show "d = e" by (cases d; cases e) simp
qed

lemma distinct_remdups_adj_sorted:
  fixes f :: "'a \<Rightarrow> 'b :: linorder"
  assumes "sorted (map f xs)" "inj_on f (set xs)"
  shows "distinct (remdups_adj xs)"
  using assms
proof (induction xs rule: remdups_adj.induct)
  case (3 x y xs)
  show ?case
  proof (cases "x = y")
    case True
    with 3 show ?thesis by simp
  next
    case False
    have "x \<notin> set (y # xs)"
    proof
      assume "x \<in> set (y # xs)"
      then have "f y \<le> f x" using 3(3) by auto
      moreover have "f x \<le> f y" using 3(3) by simp
      ultimately have "f x = f y" by (rule order.antisym [rotated])
      then have "x = y" using inj_onD [OF 3(4), of x y] by simp
      with False show False ..
    qed
    moreover have "distinct (remdups_adj (y # xs))"
      by (rule 3(2)) (use False 3(3,4) in \<open>auto intro: inj_on_subset\<close>)
    ultimately show ?thesis using False by simp
  qed
qed simp_all

text \<open>Diagnostics are counted once. The reported list is the beginning of the sorted list of the distinct diagnostics of
  the excerpt, cut after 20, and the reported count is the number of distinct ones, although equal entries are
  removed only next to each other and the sort does not tell an absent line number from the largest one.\<close>

theorem diagnostics_are_distinct_and_counted:
  "\<exists>unique. distinct unique \<and> set unique = set (fst (scan_diagnostics lines)) \<and> sorted (map diagnostic_key unique)
     \<and> par_items (parse_rust_diagnostics lines) = take 20 unique
     \<and> par_total (parse_rust_diagnostics lines) = card (set (fst (scan_diagnostics lines)))"
proof -
  let ?scanned = "fst (scan_diagnostics lines)" let ?sorted = "sort_key diagnostic_key ?scanned"
  have "inj_on diagnostic_key (set ?sorted)"
    using scanned_safe [of lines] by (auto simp: list_all_iff intro: inj_on_subset [OF diagnostic_key_inj])
  then have d: "distinct (remdups_adj ?sorted)" by (rule distinct_remdups_adj_sorted [rotated]) simp
  have "sorted (map diagnostic_key (remdups_adj ys))" if "sorted (map diagnostic_key ys)" for ys
    using that by (induction ys rule: remdups_adj.induct) auto
  with d show ?thesis
    by (intro exI [of _ "remdups_adj ?sorted"]) (simp add: parsed_items distinct_card [symmetric])
qed

section \<open>Counts\<close>

text \<open>Saturating sums are the exact sums, capped.\<close>

lemma add_count_cap: "add_count (Some (min n usize_max)) (Some m) = Some (min (n + m) usize_max)"
  by (simp add: add_count_def sat_add_def)

definition capped_sum :: "nat list \<Rightarrow> nat option" where
  "capped_sum ns = (if ns = [] then None else Some (min (sum_list ns) usize_max))"

lemma capped_sum_snoc: "add_count (capped_sum ns) v = capped_sum (ns @ (case v of None \<Rightarrow> [] | Some n \<Rightarrow> [n]))"
  by (cases v) (auto simp: capped_sum_def add_count_def sat_add_def)

definition line_counts :: "(CargoTestSummary \<Rightarrow> nat option) \<Rightarrow> rstr list \<Rightarrow> nat list" where
  "line_counts field lines = List.map_filter (\<lambda>line. Option.bind (parse_test_summary_line line) field) lines"

lemma line_counts_snoc:
  "line_counts field (lines @ [line]) = line_counts field lines
     @ (case Option.bind (parse_test_summary_line line) field of None \<Rightarrow> [] | Some n \<Rightarrow> [n])"
  by (simp add: line_counts_def map_filter_def split: option.split)

text \<open>The summaries of several test binaries add up: the aggregate exists when some line is a summary, and each of its counts
  is the sum of that count over all summary lines that have it, capped at the largest number.\<close>

theorem summaries_add_up:
  "aggregate_cargo_test_summaries lines =
     (if list_all (\<lambda>line. parse_test_summary_line line = None) lines then None
      else Some \<lparr>cts_passed = capped_sum (line_counts cts_passed lines), cts_failed = capped_sum (line_counts cts_failed lines),
        cts_ignored = capped_sum (line_counts cts_ignored lines)\<rparr>)"
proof -
  let ?step = "\<lambda>(found, acc) line.
      case parse_test_summary_line line of None \<Rightarrow> (found, acc) | Some s \<Rightarrow> (True, add_summary acc s)"
  have "foldl ?step (False, \<lparr>cts_passed = None, cts_failed = None, cts_ignored = None\<rparr>) lines
      = (\<not> list_all (\<lambda>line. parse_test_summary_line line = None) lines,
         \<lparr>cts_passed = capped_sum (line_counts cts_passed lines), cts_failed = capped_sum (line_counts cts_failed lines),
          cts_ignored = capped_sum (line_counts cts_ignored lines)\<rparr>)"
  proof (induction lines rule: rev_induct)
    case Nil
    then show ?case by (simp add: capped_sum_def line_counts_def map_filter_def)
  next
    case (snoc line lines)
    then show ?case
      by (cases "parse_test_summary_line line") (simp_all add: add_summary_def capped_sum_snoc line_counts_snoc)
  qed
  then show ?thesis by (simp add: aggregate_cargo_test_summaries_def)
qed

lemma count_action_cap: "count_action a results = min (length (filter (\<lambda>r. gtr_action r = a) results)) usize_max"
  by (induction results rule: rev_induct) (auto simp: count_action_def sat_add_def)

section \<open>Go results\<close>

definition go_inv :: "go_line list \<Rightarrow> GoTestResult list \<Rightarrow> bool" where
  "go_inv ls results \<longleftrightarrow> distinct (map gtr_name results)
     \<and> set (map gtr_name results) = {n. \<exists>a. GoResult n a \<in> set ls}
     \<and> (\<forall>r \<in> set results. (gtr_action r = GoFail \<longleftrightarrow> GoResult (gtr_name r) GoFail \<in> set ls)
          \<and> GoResult (gtr_name r) (gtr_action r) \<in> set ls)"

lemma find_name_None: "List.find (\<lambda>r. gtr_name r = n) results = None \<longleftrightarrow> n \<notin> set (map gtr_name results)"
  by (auto simp: find_None_iff)

lemma find_name_Some:
  "List.find (\<lambda>r. gtr_name r = n) results = Some r \<Longrightarrow> r \<in> set results \<and> gtr_name r = n"
  by (auto simp: find_Some_iff)

lemma go_inv_known:
  assumes inv: "go_inv ls results" and r: "r \<in> set results" "gtr_name r = name"
    and a: "action = GoFail \<Longrightarrow> gtr_action r = GoFail"
  shows "go_inv (ls @ [GoResult name action]) results"
proof -
  have "r' = r" if "r' \<in> set results" "gtr_name r' = name" for r'
    using inv r that by (auto simp: go_inv_def distinct_map inj_on_def)
  moreover have "name \<in> {n. \<exists>b. GoResult n b \<in> set ls}" using inv r unfolding go_inv_def by (metis image_eqI set_map)
  ultimately show ?thesis using inv a unfolding go_inv_def by auto
qed

lemma go_inv_failed:
  assumes inv: "go_inv ls results" and r: "r \<in> set results" "gtr_name r = name"
  shows "go_inv (ls @ [GoResult name GoFail])
    (map (\<lambda>r. if gtr_name r = name then r\<lparr>gtr_action := GoFail\<rparr> else r) results)" (is "go_inv _ ?results")
proof -
  have names: "map gtr_name ?results = map gtr_name results" by simp
  have "name \<in> {n. \<exists>b. GoResult n b \<in> set ls}" using inv r unfolding go_inv_def by (metis image_eqI set_map)
  then have "{n. \<exists>a. GoResult n a \<in> set (ls @ [GoResult name GoFail])} = {n. \<exists>a. GoResult n a \<in> set ls}" by auto
  moreover have "(gtr_action q = GoFail \<longleftrightarrow> GoResult (gtr_name q) GoFail \<in> set (ls @ [GoResult name GoFail]))
      \<and> GoResult (gtr_name q) (gtr_action q) \<in> set (ls @ [GoResult name GoFail])" if "q \<in> set ?results" for q
    using that inv by (auto simp: go_inv_def)
  ultimately show ?thesis using inv unfolding go_inv_def names by blast
qed

lemma go_inv_new:
  assumes "go_inv ls results" "name \<notin> set (map gtr_name results)"
  shows "go_inv (ls @ [GoResult name action]) (results @ [\<lparr>gtr_name = name, gtr_action = action\<rparr>])"
proof -
  have n: "GoResult name b \<notin> set ls" for b using assms unfolding go_inv_def by blast
  have "q \<in> set results \<Longrightarrow> gtr_name q \<noteq> name" for q using assms(2) by auto
  then show ?thesis using assms n unfolding go_inv_def by auto
qed

lemma go_inv_step: "go_inv ls results \<Longrightarrow> go_inv (ls @ [l]) (fst (go_step l (results, invalid)))"
proof (cases l)
  case (GoResult name action)
  assume inv: "go_inv ls results"
  show ?thesis
  proof (cases "List.find (\<lambda>r. gtr_name r = name) results")
    case None
    then have "name \<notin> set (map gtr_name results)" by (rule find_name_None [THEN iffD1])
    from go_inv_new [OF inv this, of action] show ?thesis using None GoResult by (simp add: go_step_def)
  next
    case (Some r)
    note r = find_name_Some [OF Some]
    show ?thesis
      using go_inv_known [OF inv, of r name action] go_inv_failed [OF inv, of r name] r Some GoResult
      by (cases "gtr_action r = action"; cases "action = GoFail") (auto simp: go_step_def)
  qed
qed (auto simp: go_step_def go_inv_def)

lemma go_inv_run: "go_inv ls (fst (fold go_step ls ([], 0)))"
proof (induction ls rule: rev_induct)
  case Nil
  then show ?case by (simp add: go_inv_def)
next
  case (snoc l ls)
  then show ?case using go_inv_step [of ls _ l] by (cases "fold go_step ls ([], 0)") simp
qed

lemma go_failed_names:
  assumes "go_inv ls results"
  shows "set (map gtr_name (filter (\<lambda>r. gtr_action r = GoFail) results)) = {n. GoResult n GoFail \<in> set ls}"
    "distinct (map gtr_name (filter (\<lambda>r. gtr_action r = GoFail) results))"
proof -
  show "distinct (map gtr_name (filter (\<lambda>r. gtr_action r = GoFail) results))"
    using assms by (simp add: go_inv_def distinct_map inj_on_def)
  have "n \<in> set (map gtr_name (filter (\<lambda>r. gtr_action r = GoFail) results))" if "GoResult n GoFail \<in> set ls" for n
  proof -
    from that assms have "n \<in> set (map gtr_name results)" unfolding go_inv_def by blast
    then obtain r where "r \<in> set results" "gtr_name r = n" by auto
    with that assms show ?thesis by (auto simp: go_inv_def)
  qed
  then show "set (map gtr_name (filter (\<lambda>r. gtr_action r = GoFail) results)) = {n. GoResult n GoFail \<in> set ls}"
    using assms by (auto simp: go_inv_def)
qed

text \<open>A failed Go test is never masked. Whatever the order of the events, a test that has a failure event counts as
  failed, every test counts once, the number of failed tests is exact up to the largest number, every test named as failed has a failure
  event, and a report that does not say its list is cut names all of them.\<close>

theorem go_failures_are_never_masked:
  fixes stdout_excerpt is_alphanumeric sha256_hex from_json truncated
  defines "events \<equiv> set (map (go_line_of is_alphanumeric sha256_hex from_json) (str_lines stdout_excerpt))"
    and "report \<equiv> parse_go_test_diagnostics is_alphanumeric sha256_hex from_json stdout_excerpt truncated"
  shows "(vd_available report \<longleftrightarrow> (\<exists>n a. GoResult n a \<in> events))
    \<and> (vd_available report \<longrightarrow>
         Option.bind (vd_test_summary report) cts_failed = Some (min (card {n. GoResult n GoFail \<in> events}) usize_max))
    \<and> set (map fail_name (vd_failed_test_details report)) \<subseteq> {n. GoResult n GoFail \<in> events}
    \<and> (\<not> vd_failed_test_details_truncated report \<longrightarrow>
         set (map fail_name (vd_failed_test_details report)) = {n. GoResult n GoFail \<in> events})"
proof -
  let ?ls = "map (go_line_of is_alphanumeric sha256_hex from_json) (str_lines stdout_excerpt)"
  obtain results invalid where run: "fold go_step ?ls ([], 0) = (results, invalid)" by fastforce
  have inv: "go_inv ?ls results" using go_inv_run [of ?ls] run by simp
  let ?failed = "filter (\<lambda>r. gtr_action r = GoFail) results"
  have names: "set (map gtr_name ?failed) = {n. GoResult n GoFail \<in> events}"
    unfolding events_def by (rule go_failed_names [OF inv])
  then have count: "length ?failed = card {n. GoResult n GoFail \<in> events}"
    using distinct_card [OF go_failed_names(2) [OF inv]] by simp
  show ?thesis
  proof (cases "results = []")
    case True
    then have "\<not> (\<exists>n a. GoResult n a \<in> events)" using inv unfolding go_inv_def events_def by auto
    with True run show ?thesis
      unfolding report_def by (auto simp: parse_go_test_diagnostics_def diagnostics_unavailable_def)
  next
    case False
    then have some: "\<exists>n a. GoResult n a \<in> events" using inv unfolding go_inv_def events_def by (cases results) auto
    have details: "map fail_name (vd_failed_test_details report) = map gtr_name (take 20 ?failed)"
      and available: "vd_available report"
      and cut: "vd_failed_test_details_truncated report
        = (truncated \<or> length (take 20 ?failed) < min (length ?failed) usize_max)"
      and number: "Option.bind (vd_test_summary report) cts_failed = Some (min (length ?failed) usize_max)"
      using False run unfolding report_def
      by (simp_all add: parse_go_test_diagnostics_def Let_def count_action_cap MAX_FAILED_TESTS_def comp_def)
    have "set (map gtr_name (take 20 ?failed)) \<subseteq> set (map gtr_name ?failed)" by (auto dest: in_set_takeD)
    moreover have "take 20 ?failed = ?failed" if "\<not> vd_failed_test_details_truncated report"
      using that unfolding cut by (auto simp: usize_max_def min_def split: if_splits)
    ultimately show ?thesis using some available number names count unfolding details by metis
  qed
qed

definition sample_go_json :: "rstr \<Rightarrow> GoTestEvent option" where
  "sample_go_json line =
     (if line = lit ''p'' then Some \<lparr>gev_action = lit ''pass'', gev_package = lit ''m'', gev_test = Some (lit ''T'')\<rparr>
      else if line = lit ''f'' then Some \<lparr>gev_action = lit ''fail'', gev_package = lit ''m'', gev_test = Some (lit ''T'')\<rparr>
      else None)"

lemma sample_go_components:
  "sanitize_go_identity_component is_ascii_alphanumeric (lit ''m'') = Some (lit ''m'')"
  "sanitize_go_identity_component is_ascii_alphanumeric (lit ''T'') = Some (lit ''T'')"
  by (simp_all add: sanitize_go_identity_component_def sanitize_line_def lit_def is_separator_def is_control_def is_whitespace_def
      trim_def trim_start_def trim_end_def starts_with_def str_contains_def sublist_Cons_right second_byte_is_colon_def
      bad_path_part_def looks_sensitive_def to_ascii_lowercase_def split_whitespace_def assigns_constant_def split_once_def
      is_ascii_alphanumeric_def is_ascii_digit_def Let_def)

lemma sample_go_lines:
  "go_line_of is_ascii_alphanumeric (\<lambda>_. []) sample_go_json (lit ''p'') = GoResult (lit ''m::T'') GoPass"
  "go_line_of is_ascii_alphanumeric (\<lambda>_. []) sample_go_json (lit ''f'') = GoResult (lit ''m::T'') GoFail"
  by (simp_all add: go_line_of_def sample_go_json_def sample_go_components go_action_def lit_inject bounded_go_test_identity_def
      MAX_TEST_NAME_CHARS_def Let_def) (simp_all add: lit_def)

theorem go_failures_are_never_masked_witness:
  "vd_available (parse_go_test_diagnostics is_ascii_alphanumeric (\<lambda>_. []) sample_go_json (lit ''p'' @ [LF] @ lit ''f'' @ [LF]) False)
   \<and> Option.bind (vd_test_summary (parse_go_test_diagnostics is_ascii_alphanumeric (\<lambda>_. []) sample_go_json
        (lit ''p'' @ [LF] @ lit ''f'' @ [LF]) False)) cts_failed = Some 1"
proof -
  have "str_lines (lit ''p'' @ [LF] @ lit ''f'' @ [LF]) = [lit ''p'', lit ''f'']" by code_simp
  then have e: "set (map (go_line_of is_ascii_alphanumeric (\<lambda>_. []) sample_go_json) (str_lines (lit ''p'' @ [LF] @ lit ''f'' @ [LF])))
      = {GoResult (lit ''m::T'') GoPass, GoResult (lit ''m::T'') GoFail}"
    by (simp add: sample_go_lines)
  have "{n. GoResult n GoFail \<in> {GoResult (lit ''m::T'') GoPass, GoResult (lit ''m::T'') GoFail}} = {lit ''m::T''}" by auto
  then show ?thesis
    using go_failures_are_never_masked [of is_ascii_alphanumeric "\<lambda>_. []" sample_go_json "lit ''p'' @ [LF] @ lit ''f'' @ [LF]" False]
    unfolding e by (auto simp: min_def)
qed

end
