(* ===== verification/Authority.thy ===== *)
theory Authority
  imports Validation_Evidence
begin

text \<open>
  The shared vocabulary of authority (\<open>crates/webcodex-core/src/authority.rs\<close>): the scopes, and the identities of project
  grants and project-share sessions with the subject that joins them. With it the policy for stored artifacts
  (\<open>crates/webcodex-core/src/artifact_policy.rs\<close>).
\<close>

section \<open>Scopes\<close>

definition AGENT_SCOPES :: "rstr list" where
  "AGENT_SCOPES = map lit [''agent:register'', ''agent:poll'', ''agent:result'', ''agent:job_update'']"

definition COMMUNICATION_READ_SCOPES :: "rstr list" where "COMMUNICATION_READ_SCOPES = map lit [''communication:read'']"
definition COMMUNICATION_MANAGE_SCOPES :: "rstr list" where
  "COMMUNICATION_MANAGE_SCOPES = map lit [''communication:read'', ''communication:manage'']"
definition MEMORY_READ_SCOPES :: "rstr list" where "MEMORY_READ_SCOPES = map lit [''project:read'', ''memory:read'']"
definition MEMORY_MANAGE_SCOPES :: "rstr list" where "MEMORY_MANAGE_SCOPES = map lit [''project:write'', ''memory:manage'']"

definition KNOWN_SCOPES :: "rstr list" where
  "KNOWN_SCOPES = map lit [''computer:pointer_control'', ''computer:clipboard_read'', ''computer:clipboard_write'',
     ''runtime:read'', ''runner:manage'', ''session:collaborate'', ''project:read'', ''project:write'', ''memory:read'',
     ''memory:manage'', ''communication:read'', ''communication:manage'', ''job:run'', ''job:detach'', ''computer:read'',
     ''computer:control'', ''computer:launch'', ''computer:display_read'', ''mcp:local'', ''plugin:inspect'', ''plugin:invoke'',
     ''plugin:manage'', ''ssh:local'', ''coding_agent:run'', ''account:manage'', ''agent:register'', ''agent:poll'',
     ''agent:result'', ''agent:job_update'', ''admin'']"

text \<open>The policies of routes and tools.\<close>

datatype OAuthBodyAwarePolicy = RuntimeToolCall | McpToolCall

datatype OAuthRouteScopePolicy =
  PublicRoute | FirstPartyOnly | BootstrapOnly | AgentSurface | RequireScope rstr | BodyAware OAuthBodyAwarePolicy | UnknownRoute

datatype ToolAuthorityPolicy = Require rstr | RequireAny "rstr list" | RequireAll "rstr list" | UnknownTool

section \<open>Identities\<close>

definition PROJECT_GRANT_ID_PREFIX :: rstr where "PROJECT_GRANT_ID_PREFIX = lit ''wc_pgrant_''"
definition PROJECT_SHARE_SESSION_PREFIX :: rstr where "PROJECT_SHARE_SESSION_PREFIX = lit ''wc_share_''"

text \<open>The text after a prefix, or nothing when the prefix is absent.\<close>

definition suffix_or_default :: "rstr \<Rightarrow> rstr \<Rightarrow> rstr" where
  "suffix_or_default v p = (case strip_prefix v p of None \<Rightarrow> [] | Some s \<Rightarrow> s)"

definition validate_project_grant_id :: "rstr \<Rightarrow> rstr + unit" where
  "validate_project_grant_id v =
     (let suffix = suffix_or_default v PROJECT_GRANT_ID_PREFIX in
      if str_len suffix \<noteq> 24 \<or> \<not> list_all (\<lambda>b. is_ascii_hexdigit b \<and> \<not> (65 \<le> b \<and> b \<le> 90)) suffix
      then Inl (lit ''configured project grant identity is invalid'') else Inr ())"

definition validate_project_share_session_id :: "rstr \<Rightarrow> rstr + unit" where
  "validate_project_share_session_id v =
     (let suffix = suffix_or_default v PROJECT_SHARE_SESSION_PREFIX in
      if str_len suffix \<noteq> 64 \<or> \<not> list_all (\<lambda>b. is_ascii_digit b \<or> 97 \<le> b \<and> b \<le> 102) suffix
      then Inl (lit ''configured project share session identity is invalid'') else Inr ())"

definition project_share_subject_id :: "rstr \<Rightarrow> rstr \<Rightarrow> rstr + rstr" where
  "project_share_subject_id project_grant_id session_id =
     (case validate_project_grant_id project_grant_id of
        Inl e \<Rightarrow> Inl e
      | Inr _ \<Rightarrow> (case validate_project_share_session_id session_id of
          Inl e \<Rightarrow> Inl e
        | Inr _ \<Rightarrow> Inr (project_grant_id @ [124] @ session_id)))"

definition parse_project_share_subject_id :: "rstr \<Rightarrow> rstr + rstr \<times> rstr" where
  "parse_project_share_subject_id v =
     (case split_once 124 v of
        None \<Rightarrow> Inl (lit ''project-share OAuth subject is malformed'')
      | Some (grant_id, session_id) \<Rightarrow>
          if 124 \<in> set session_id then Inl (lit ''project-share OAuth subject is malformed'')
          else (case validate_project_grant_id grant_id of
              Inl e \<Rightarrow> Inl e
            | Inr _ \<Rightarrow> (case validate_project_share_session_id session_id of
                Inl e \<Rightarrow> Inl e
              | Inr _ \<Rightarrow> Inr (grant_id, session_id))))"

section \<open>Artifacts\<close>

definition SAFE_OCTET_STREAM_ARTIFACT_EXTENSIONS :: "rstr list" where
  "SAFE_OCTET_STREAM_ARTIFACT_EXTENSIONS = map lit [''.artifact'', ''.dat'', ''.txt'', ''.csv'', ''.json'', ''.png'', ''.jpg'',
     ''.jpeg'', ''.webp'', ''.mp3'', ''.mp4'', ''.pdf'', ''.zip'', ''.docx'', ''.pptx'', ''.xlsx'']"

definition DOCX_MIME :: rstr where
  "DOCX_MIME = lit ''application/vnd.openxmlformats-officedocument.wordprocessingml.document''"
definition PPTX_MIME :: rstr where
  "PPTX_MIME = lit ''application/vnd.openxmlformats-officedocument.presentationml.presentation''"
definition XLSX_MIME :: rstr where
  "XLSX_MIME = lit ''application/vnd.openxmlformats-officedocument.spreadsheetml.sheet''"

definition ooxml_extension_for_mime :: "rstr \<Rightarrow> rstr option" where
  "ooxml_extension_for_mime mime =
     (if mime = DOCX_MIME then Some (lit ''.docx'') else if mime = PPTX_MIME then Some (lit ''.pptx'')
      else if mime = XLSX_MIME then Some (lit ''.xlsx'') else None)"

definition MAX_MCP_IMAGE_BYTES :: nat where "MAX_MCP_IMAGE_BYTES = 1024 * 1024"
definition MAX_MCP_IMAGE_RESPONSE_BYTES :: nat where "MAX_MCP_IMAGE_RESPONSE_BYTES = 1536 * 1024"

definition has_safe_octet_stream_artifact_extension :: "rstr \<Rightarrow> bool" where
  "has_safe_octet_stream_artifact_extension path =
     list_ex (ends_with (to_ascii_lowercase path)) SAFE_OCTET_STREAM_ARTIFACT_EXTENSIONS"

definition safe_octet_stream_artifact_extensions_csv :: rstr where
  "safe_octet_stream_artifact_extensions_csv = join (lit '', '') SAFE_OCTET_STREAM_ARTIFACT_EXTENSIONS"

definition octet_stream_safe_extension_error :: rstr where
  "octet_stream_safe_extension_error =
     lit ''application/octet-stream is only allowed for safe artifact extensions: ''
     @ safe_octet_stream_artifact_extensions_csv
     @ lit ''. For smoke tests, use artifacts/smoke/<name>.artifact or artifacts/smoke/<name>.txt, or omit mime_type when appropriate.''"

section \<open>Subjects\<close>

definition grant_id_ok :: "rstr \<Rightarrow> bool" where
  "grant_id_ok v \<longleftrightarrow> (\<exists>h. v = lit ''wc_pgrant_'' @ h \<and> length h = 24 \<and> list_all is_lower_hex h)"

definition session_id_ok :: "rstr \<Rightarrow> bool" where
  "session_id_ok v \<longleftrightarrow> (\<exists>h. v = lit ''wc_share_'' @ h \<and> length h = 64 \<and> list_all is_lower_hex h)"

lemma str_len_lower_hex: "list_all is_lower_hex h \<Longrightarrow> str_len h = length h"
  by (induction h) (auto simp: is_lower_hex_def is_ascii_digit_def utf8_width_def)

lemma suffix_present:
  assumes "suffix_or_default v p \<noteq> []"
  shows "v = p @ suffix_or_default v p"
proof (cases "strip_prefix v p")
  case (Some a)
  then have "v = p @ a" by (simp only: strip_prefix_Some)
  moreover have "suffix_or_default v p = a" using Some by (simp add: suffix_or_default_def)
  ultimately show ?thesis by simp
qed (use assms in \<open>simp add: suffix_or_default_def\<close>)

lemma lower_hex_byte:
  "is_ascii_hexdigit b \<and> \<not> (65 \<le> b \<and> b \<le> 90) \<longleftrightarrow> is_lower_hex b" "is_ascii_digit b \<or> 97 \<le> b \<and> b \<le> 102 \<longleftrightarrow> is_lower_hex b"
  by (auto simp: is_ascii_hexdigit_def is_lower_hex_def is_ascii_digit_def)

lemma lower_hex_bytes:
  "list_all (\<lambda>b. is_ascii_hexdigit b \<and> \<not> (65 \<le> b \<and> b \<le> 90)) h \<longleftrightarrow> list_all is_lower_hex h"
  "list_all (\<lambda>b. is_ascii_digit b \<or> 97 \<le> b \<and> b \<le> 102) h \<longleftrightarrow> list_all is_lower_hex h"
  by (simp_all only: lower_hex_byte)

lemma suffix_check:
  assumes "0 < n"
  shows "str_len (suffix_or_default v p) = n \<and> list_all is_lower_hex (suffix_or_default v p)
    \<longleftrightarrow> (\<exists>h. v = p @ h \<and> length h = n \<and> list_all is_lower_hex h)"
proof
  assume l: "str_len (suffix_or_default v p) = n \<and> list_all is_lower_hex (suffix_or_default v p)"
  then have "suffix_or_default v p \<noteq> []" using assms by auto
  then have "v = p @ suffix_or_default v p" by (rule suffix_present)
  then show "\<exists>h. v = p @ h \<and> length h = n \<and> list_all is_lower_hex h" using l str_len_lower_hex by metis
next
  assume "\<exists>h. v = p @ h \<and> length h = n \<and> list_all is_lower_hex h"
  then show "str_len (suffix_or_default v p) = n \<and> list_all is_lower_hex (suffix_or_default v p)"
    using str_len_lower_hex by (auto simp: suffix_or_default_def strip_prefix_def starts_with_def)
qed

lemma validate_grant_iff: "validate_project_grant_id v = Inr () \<longleftrightarrow> grant_id_ok v"
proof -
  have "validate_project_grant_id v = Inr () \<longleftrightarrow> str_len (suffix_or_default v (lit ''wc_pgrant_'')) = 24
      \<and> list_all is_lower_hex (suffix_or_default v (lit ''wc_pgrant_''))"
    unfolding validate_project_grant_id_def Let_def lower_hex_bytes PROJECT_GRANT_ID_PREFIX_def by auto
  then show ?thesis unfolding grant_id_ok_def using suffix_check [of 24 v "lit ''wc_pgrant_''"] by simp
qed

lemma validate_session_iff: "validate_project_share_session_id v = Inr () \<longleftrightarrow> session_id_ok v"
proof -
  have "validate_project_share_session_id v = Inr () \<longleftrightarrow> str_len (suffix_or_default v (lit ''wc_share_'')) = 64
      \<and> list_all is_lower_hex (suffix_or_default v (lit ''wc_share_''))"
    unfolding validate_project_share_session_id_def Let_def lower_hex_bytes PROJECT_SHARE_SESSION_PREFIX_def by auto
  then show ?thesis unfolding session_id_ok_def using suffix_check [of 64 v "lit ''wc_share_''"] by simp
qed

lemma no_bar: "grant_id_ok g \<Longrightarrow> 124 \<notin> set g" "session_id_ok s \<Longrightarrow> 124 \<notin> set s"
  by (force simp: grant_id_ok_def session_id_ok_def lit_def list_all_iff is_lower_hex_def is_ascii_digit_def)+

lemma split_once_first: "c \<notin> set a \<Longrightarrow> split_once c (a @ c # b) = Some (a, b)"
  by (auto simp: split_once_def takeWhile_append dropWhile_append)

lemma split_once_Some: "split_once c s = Some (a, b) \<longleftrightarrow> s = a @ [c] @ b \<and> c \<notin> set a"
proof (cases "c \<in> set s")
  case True
  then obtain x y where s: "s = x @ c # y" "c \<notin> set x" by (metis split_list_first)
  then have first: "split_once c s = Some (x, y)" by (simp add: split_once_first)
  show ?thesis
  proof
    assume "split_once c s = Some (a, b)"
    with first have "x = a" "y = b" by simp_all
    with s show "s = a @ [c] @ b \<and> c \<notin> set a" by simp
  next
    assume "s = a @ [c] @ b \<and> c \<notin> set a"
    then show "split_once c s = Some (a, b)" using split_once_first [of c a b] by simp
  qed
next
  case False
  then show ?thesis by (auto simp: split_once_def)
qed

lemma check_cases: "(r :: rstr + unit) = Inr () \<or> (\<exists>e. r = Inl e)"
  by (cases r) auto

definition subject_text :: "rstr \<times> rstr \<Rightarrow> rstr" where
  "subject_text p = fst p @ [124] @ snd p"

definition read_subject :: "rstr \<Rightarrow> (rstr \<times> rstr) option" where
  "read_subject v = (case parse_project_share_subject_id v of Inl _ \<Rightarrow> None | Inr p \<Rightarrow> Some p)"

lemma parse_subject_iff:
  "parse_project_share_subject_id v = Inr (g, s) \<longleftrightarrow> v = g @ [124] @ s \<and> grant_id_ok g \<and> session_id_ok s"
proof
  assume "parse_project_share_subject_id v = Inr (g, s)"
  then show "v = g @ [124] @ s \<and> grant_id_ok g \<and> session_id_ok s"
    using check_cases [of "validate_project_grant_id g"] check_cases [of "validate_project_share_session_id s"]
    by (auto simp: parse_project_share_subject_id_def split_once_Some validate_grant_iff [symmetric]
        validate_session_iff [symmetric] split: option.splits if_splits sum.splits)
next
  assume v: "v = g @ [124] @ s \<and> grant_id_ok g \<and> session_id_ok s"
  then have "split_once 124 v = Some (g, s)" using no_bar by (auto simp: split_once_Some)
  with v show "parse_project_share_subject_id v = Inr (g, s)"
    using no_bar by (simp add: parse_project_share_subject_id_def validate_grant_iff [THEN iffD2] validate_session_iff [THEN iffD2])
qed

interpretation subject_codec: codec subject_text read_subject "\<lambda>p. grant_id_ok (fst p) \<and> session_id_ok (snd p)"
proof unfold_locales
  show "read_subject (subject_text p) = Some p" if "grant_id_ok (fst p) \<and> session_id_ok (snd p)" for p
    using parse_subject_iff [of "subject_text p" "fst p" "snd p"] that by (simp add: read_subject_def subject_text_def)
  show "subject_text p = v \<and> grant_id_ok (fst p) \<and> session_id_ok (snd p)" if "read_subject v = Some p" for v p
    using parse_subject_iff [of v "fst p" "snd p"] that by (auto simp: read_subject_def subject_text_def split: sum.splits)
qed

text \<open>A project-share subject names one grant and one session. A subject is read as a grant and a session exactly when
  writing these two gives that subject, so no text is a subject of two different shares and no share has two
  spellings; both identities consist of their prefix and exactly 24 or 64 lower-case hexadecimal digits.\<close>

theorem share_subjects_round_trip:
  "(parse_project_share_subject_id v = Inr (g, s) \<longleftrightarrow> project_share_subject_id g s = Inr v)
   \<and> (project_share_subject_id g s = Inr v \<longleftrightarrow> v = g @ [124] @ s
        \<and> (\<exists>h. g = lit ''wc_pgrant_'' @ h \<and> length h = 24 \<and> list_all is_lower_hex h)
        \<and> (\<exists>h. s = lit ''wc_share_'' @ h \<and> length h = 64 \<and> list_all is_lower_hex h))"
proof -
  have "project_share_subject_id g s = Inr v \<longleftrightarrow> v = g @ [124] @ s \<and> grant_id_ok g \<and> session_id_ok s"
    using check_cases [of "validate_project_grant_id g"] check_cases [of "validate_project_share_session_id s"]
    by (auto simp: project_share_subject_id_def validate_grant_iff [symmetric] validate_session_iff [symmetric])
  then show ?thesis using parse_subject_iff [of v g s] unfolding grant_id_ok_def session_id_ok_def by simp
qed

text \<open>The tables are consistent: every scope of a group is a known one, no scope is listed twice, and every document type that
  has an extension has one that may be stored as a byte stream.\<close>

theorem scope_tables_are_closed:
  "list_all (\<lambda>s. s \<in> set KNOWN_SCOPES)
     (AGENT_SCOPES @ COMMUNICATION_READ_SCOPES @ COMMUNICATION_MANAGE_SCOPES @ MEMORY_READ_SCOPES @ MEMORY_MANAGE_SCOPES)
   \<and> distinct KNOWN_SCOPES
   \<and> (ooxml_extension_for_mime mime = Some e \<longrightarrow> has_safe_octet_stream_artifact_extension (stem @ e))"
proof -
  have "distinct KNOWN_SCOPES" unfolding KNOWN_SCOPES_def distinct_map by (simp add: inj_on_def lit_inject)
  moreover have "has_safe_octet_stream_artifact_extension (stem @ e)" if "ooxml_extension_for_mime mime = Some e"
  proof -
    have e: "e \<in> set SAFE_OCTET_STREAM_ARTIFACT_EXTENSIONS" "to_ascii_lowercase e = e"
      using that by (auto simp: ooxml_extension_for_mime_def SAFE_OCTET_STREAM_ARTIFACT_EXTENSIONS_def to_ascii_lowercase_def
          lit_def split: if_splits)
    have "to_ascii_lowercase (stem @ e) = to_ascii_lowercase stem @ e" using e(2) by (simp add: to_ascii_lowercase_def)
    then have "ends_with (to_ascii_lowercase (stem @ e)) e" by (simp add: ends_with_def)
    with e(1) show ?thesis by (auto simp: has_safe_octet_stream_artifact_extension_def list_ex_iff)
  qed
  moreover have "set (AGENT_SCOPES @ COMMUNICATION_READ_SCOPES @ COMMUNICATION_MANAGE_SCOPES @ MEMORY_READ_SCOPES @ MEMORY_MANAGE_SCOPES)
      \<subseteq> set KNOWN_SCOPES"
    unfolding KNOWN_SCOPES_def AGENT_SCOPES_def COMMUNICATION_READ_SCOPES_def COMMUNICATION_MANAGE_SCOPES_def
      MEMORY_READ_SCOPES_def MEMORY_MANAGE_SCOPES_def map_append [symmetric] set_map
    by (rule image_mono) simp
  ultimately show ?thesis by (auto simp: list_all_iff)
qed

end
