(* ===== verification/Runner_Features.thy ===== *)
theory Runner_Features
  imports Registry_Validation
begin

text \<open>
  The capability vocabulary of a Runner: the wire snapshot of booleans (\<open>RunnerCapabilities\<close> of
  \<open>crates/webcodex-core/src/runner_protocol.rs\<close>) and the features the Server reads from it
  (\<open>crates/webcodex-runner-registry/src/capabilities.rs\<close>). A feature set is built only from the snapshot of an accepted
  registration, and a snapshot without the whole baseline of protocol generation 2 is refused.
\<close>

section \<open>The wire\<close>

definition RUNNER_CAPABILITY_SHELL :: rstr where "RUNNER_CAPABILITY_SHELL = lit ''shell''"
definition RUNNER_CAPABILITY_FILE_READ :: rstr where "RUNNER_CAPABILITY_FILE_READ = lit ''file_read''"
definition RUNNER_CAPABILITY_FILE_WRITE :: rstr where "RUNNER_CAPABILITY_FILE_WRITE = lit ''file_write''"
definition RUNNER_CAPABILITY_ARTIFACT_EXPORT_CHUNK_READ :: rstr where "RUNNER_CAPABILITY_ARTIFACT_EXPORT_CHUNK_READ = lit ''artifact_export_chunk_read''"
definition RUNNER_CAPABILITY_ARTIFACT_EXPORT_STREAMING_METADATA :: rstr where "RUNNER_CAPABILITY_ARTIFACT_EXPORT_STREAMING_METADATA = lit ''artifact_export_streaming_metadata''"
definition RUNNER_CAPABILITY_STRUCTURED_FILE_DELETE :: rstr where "RUNNER_CAPABILITY_STRUCTURED_FILE_DELETE = lit ''structured_file_delete''"
definition RUNNER_CAPABILITY_APPLY_TEXT_EDIT_OCCURRENCE :: rstr where "RUNNER_CAPABILITY_APPLY_TEXT_EDIT_OCCURRENCE = lit ''apply_text_edit_occurrence''"
definition RUNNER_CAPABILITY_APPLY_TEXT_EDIT_LINE_SCOPE :: rstr where "RUNNER_CAPABILITY_APPLY_TEXT_EDIT_LINE_SCOPE = lit ''apply_text_edit_line_scope''"
definition RUNNER_CAPABILITY_APPLY_PATCH :: rstr where "RUNNER_CAPABILITY_APPLY_PATCH = lit ''apply_patch''"
definition RUNNER_CAPABILITY_APPLY_PATCH_MATCH_METADATA :: rstr where "RUNNER_CAPABILITY_APPLY_PATCH_MATCH_METADATA = lit ''apply_patch_match_metadata''"
definition RUNNER_CAPABILITY_APPLY_PATCH_MATCHING_MODE :: rstr where "RUNNER_CAPABILITY_APPLY_PATCH_MATCHING_MODE = lit ''apply_patch_matching_mode''"
definition RUNNER_CAPABILITY_APPLY_PATCH_STRICT_MATCHING :: rstr where "RUNNER_CAPABILITY_APPLY_PATCH_STRICT_MATCHING = lit ''apply_patch_strict_matching''"
definition RUNNER_CAPABILITY_GIT :: rstr where "RUNNER_CAPABILITY_GIT = lit ''git''"
definition RUNNER_CAPABILITY_JOBS :: rstr where "RUNNER_CAPABILITY_JOBS = lit ''jobs''"
definition RUNNER_CAPABILITY_ASYNC_JOBS :: rstr where "RUNNER_CAPABILITY_ASYNC_JOBS = lit ''async_jobs''"
definition RUNNER_CAPABILITY_ASYNC_SHELL_JOBS :: rstr where "RUNNER_CAPABILITY_ASYNC_SHELL_JOBS = lit ''async_shell_jobs''"
definition RUNNER_CAPABILITY_SSH_SHELL :: rstr where "RUNNER_CAPABILITY_SSH_SHELL = lit ''ssh_shell''"
definition RUNNER_CAPABILITY_PERSISTENT_SHELL :: rstr where "RUNNER_CAPABILITY_PERSISTENT_SHELL = lit ''persistent_shell''"
definition RUNNER_CAPABILITY_SSH_PERSISTENT_SHELL :: rstr where "RUNNER_CAPABILITY_SSH_PERSISTENT_SHELL = lit ''ssh_persistent_shell''"
definition RUNNER_CAPABILITY_STRUCTURED_VALIDATION_ARGV :: rstr where "RUNNER_CAPABILITY_STRUCTURED_VALIDATION_ARGV = lit ''structured_validation_argv''"
definition RUNNER_CAPABILITY_STRUCTURED_CARGO_TEST_COUNT_ASSERTION :: rstr where "RUNNER_CAPABILITY_STRUCTURED_CARGO_TEST_COUNT_ASSERTION = lit ''structured_cargo_test_count_assertion''"
definition RUNNER_CAPABILITY_STRUCTURED_CARGO_TEST_EXECUTION_POLICY :: rstr where "RUNNER_CAPABILITY_STRUCTURED_CARGO_TEST_EXECUTION_POLICY = lit ''structured_cargo_test_execution_policy''"
definition RUNNER_CAPABILITY_STRUCTURED_GO_TEST_JSON :: rstr where "RUNNER_CAPABILITY_STRUCTURED_GO_TEST_JSON = lit ''structured_go_test_json''"
definition RUNNER_CAPABILITY_STRUCTURED_GO_TEST_TOOL :: rstr where "RUNNER_CAPABILITY_STRUCTURED_GO_TEST_TOOL = lit ''structured_go_test_tool''"
definition RUNNER_CAPABILITY_STRUCTURED_GO_TEST_PACKAGES :: rstr where "RUNNER_CAPABILITY_STRUCTURED_GO_TEST_PACKAGES = lit ''structured_go_test_packages''"
definition RUNNER_CAPABILITY_STRUCTURED_PROCESS_ARGV :: rstr where "RUNNER_CAPABILITY_STRUCTURED_PROCESS_ARGV = lit ''structured_process_argv''"
definition RUNNER_CAPABILITY_STRUCTURED_SCRIPT_PAYLOAD :: rstr where "RUNNER_CAPABILITY_STRUCTURED_SCRIPT_PAYLOAD = lit ''structured_script_payload''"
definition RUNNER_CAPABILITY_STRUCTURED_SCRIPT_JAVASCRIPT :: rstr where "RUNNER_CAPABILITY_STRUCTURED_SCRIPT_JAVASCRIPT = lit ''structured_script_javascript''"
definition RUNNER_CAPABILITY_STRUCTURED_SCRIPT_TYPESCRIPT :: rstr where "RUNNER_CAPABILITY_STRUCTURED_SCRIPT_TYPESCRIPT = lit ''structured_script_typescript''"
definition RUNNER_CAPABILITY_INTERNAL_POSIX_SCRIPT :: rstr where "RUNNER_CAPABILITY_INTERNAL_POSIX_SCRIPT = lit ''internal_posix_script''"
definition RUNNER_CAPABILITY_STRUCTURED_EXECUTION_JOBS :: rstr where "RUNNER_CAPABILITY_STRUCTURED_EXECUTION_JOBS = lit ''structured_execution_jobs''"
definition RUNNER_CAPABILITY_DETACHED_PROCESS_JOBS :: rstr where "RUNNER_CAPABILITY_DETACHED_PROCESS_JOBS = lit ''detached_process_jobs''"
definition RUNNER_CAPABILITY_LSP_READ_ONLY_NAVIGATION :: rstr where "RUNNER_CAPABILITY_LSP_READ_ONLY_NAVIGATION = lit ''lsp_read_only_navigation''"
definition RUNNER_CAPABILITY_LSP_CALL_HIERARCHY :: rstr where "RUNNER_CAPABILITY_LSP_CALL_HIERARCHY = lit ''lsp_call_hierarchy''"
definition RUNNER_CAPABILITY_PROJECT_LIFECYCLE :: rstr where "RUNNER_CAPABILITY_PROJECT_LIFECYCLE = lit ''project_lifecycle''"
definition RUNNER_CAPABILITY_PROJECT_PATH_REGISTRATION :: rstr where "RUNNER_CAPABILITY_PROJECT_PATH_REGISTRATION = lit ''project_path_registration''"
definition RUNNER_CAPABILITY_MANAGED_WORKTREE :: rstr where "RUNNER_CAPABILITY_MANAGED_WORKTREE = lit ''managed_worktree''"
definition RUNNER_CAPABILITY_CONFIGURED_SKILL_ROOTS_READ :: rstr where "RUNNER_CAPABILITY_CONFIGURED_SKILL_ROOTS_READ = lit ''configured_skill_roots_read''"
definition RUNNER_CAPABILITY_SKILL_STORE_READ :: rstr where "RUNNER_CAPABILITY_SKILL_STORE_READ = lit ''skill_store_read''"
definition RUNNER_CAPABILITY_SKILL_STORE_MANAGE :: rstr where "RUNNER_CAPABILITY_SKILL_STORE_MANAGE = lit ''skill_store_manage''"
definition RUNNER_CAPABILITY_COMPUTER_OBSERVE :: rstr where "RUNNER_CAPABILITY_COMPUTER_OBSERVE = lit ''computer_observe''"
definition RUNNER_CAPABILITY_COMPUTER_APPLICATION_DISCOVERY :: rstr where "RUNNER_CAPABILITY_COMPUTER_APPLICATION_DISCOVERY = lit ''computer_application_discovery''"
definition RUNNER_CAPABILITY_COMPUTER_APPLICATION_LAUNCH :: rstr where "RUNNER_CAPABILITY_COMPUTER_APPLICATION_LAUNCH = lit ''computer_application_launch''"
definition RUNNER_CAPABILITY_COMPUTER_DISPLAY_OBSERVE :: rstr where "RUNNER_CAPABILITY_COMPUTER_DISPLAY_OBSERVE = lit ''computer_display_observe''"
definition RUNNER_CAPABILITY_COMPUTER_POINTER_CONTROL :: rstr where "RUNNER_CAPABILITY_COMPUTER_POINTER_CONTROL = lit ''computer_pointer_control''"
definition RUNNER_CAPABILITY_COMPUTER_CLIPBOARD_READ :: rstr where "RUNNER_CAPABILITY_COMPUTER_CLIPBOARD_READ = lit ''computer_clipboard_read''"
definition RUNNER_CAPABILITY_COMPUTER_CLIPBOARD_WRITE :: rstr where "RUNNER_CAPABILITY_COMPUTER_CLIPBOARD_WRITE = lit ''computer_clipboard_write''"
definition RUNNER_CAPABILITY_COMPUTER_SNAPSHOT_REGION :: rstr where "RUNNER_CAPABILITY_COMPUTER_SNAPSHOT_REGION = lit ''computer_snapshot_region''"
definition RUNNER_CAPABILITY_COMPUTER_ACCESSIBILITY_OBSERVE :: rstr where "RUNNER_CAPABILITY_COMPUTER_ACCESSIBILITY_OBSERVE = lit ''computer_accessibility_observe''"
definition RUNNER_CAPABILITY_COMPUTER_ELEMENT_STATE :: rstr where "RUNNER_CAPABILITY_COMPUTER_ELEMENT_STATE = lit ''computer_element_state''"
definition RUNNER_CAPABILITY_COMPUTER_CONTROL :: rstr where "RUNNER_CAPABILITY_COMPUTER_CONTROL = lit ''computer_control''"
definition RUNNER_CAPABILITY_COMPUTER_SCROLL_TO_ELEMENT :: rstr where "RUNNER_CAPABILITY_COMPUTER_SCROLL_TO_ELEMENT = lit ''computer_scroll_to_element''"
definition RUNNER_CAPABILITY_COMPUTER_KEY_INPUT :: rstr where "RUNNER_CAPABILITY_COMPUTER_KEY_INPUT = lit ''computer_key_input''"
definition RUNNER_CAPABILITY_COMPUTER_WINDOW_ACTIVATE :: rstr where "RUNNER_CAPABILITY_COMPUTER_WINDOW_ACTIVATE = lit ''computer_window_activate''"
definition RUNNER_CAPABILITY_COMPUTER_TEXT_INPUT :: rstr where "RUNNER_CAPABILITY_COMPUTER_TEXT_INPUT = lit ''computer_text_input''"
definition RUNNER_CAPABILITY_JOB_STATE_RECONCILIATION :: rstr where "RUNNER_CAPABILITY_JOB_STATE_RECONCILIATION = lit ''job_state_reconciliation''"
definition RUNNER_CAPABILITY_CODING_AGENT_RUNS :: rstr where "RUNNER_CAPABILITY_CODING_AGENT_RUNS = lit ''coding_agent_runs''"
definition RUNNER_CAPABILITY_NATIVE_TOOL_PLUGINS :: rstr where "RUNNER_CAPABILITY_NATIVE_TOOL_PLUGINS = lit ''native_tool_plugins''"
definition RUNNER_CAPABILITY_MANAGED_SSH_RESOURCES :: rstr where "RUNNER_CAPABILITY_MANAGED_SSH_RESOURCES = lit ''managed_ssh_resources''"
definition RUNNER_CAPABILITY_RUNNER_CONFIG_CONTROL :: rstr where "RUNNER_CAPABILITY_RUNNER_CONFIG_CONTROL = lit ''runner_config_control''"

lemmas wire_constants =
  RUNNER_CAPABILITY_SHELL_def RUNNER_CAPABILITY_FILE_READ_def RUNNER_CAPABILITY_FILE_WRITE_def
  RUNNER_CAPABILITY_ARTIFACT_EXPORT_CHUNK_READ_def RUNNER_CAPABILITY_ARTIFACT_EXPORT_STREAMING_METADATA_def
  RUNNER_CAPABILITY_STRUCTURED_FILE_DELETE_def RUNNER_CAPABILITY_APPLY_TEXT_EDIT_OCCURRENCE_def
  RUNNER_CAPABILITY_APPLY_TEXT_EDIT_LINE_SCOPE_def RUNNER_CAPABILITY_APPLY_PATCH_def
  RUNNER_CAPABILITY_APPLY_PATCH_MATCH_METADATA_def RUNNER_CAPABILITY_APPLY_PATCH_MATCHING_MODE_def
  RUNNER_CAPABILITY_APPLY_PATCH_STRICT_MATCHING_def RUNNER_CAPABILITY_GIT_def RUNNER_CAPABILITY_JOBS_def
  RUNNER_CAPABILITY_ASYNC_JOBS_def RUNNER_CAPABILITY_ASYNC_SHELL_JOBS_def RUNNER_CAPABILITY_SSH_SHELL_def
  RUNNER_CAPABILITY_PERSISTENT_SHELL_def RUNNER_CAPABILITY_SSH_PERSISTENT_SHELL_def
  RUNNER_CAPABILITY_STRUCTURED_VALIDATION_ARGV_def RUNNER_CAPABILITY_STRUCTURED_CARGO_TEST_COUNT_ASSERTION_def
  RUNNER_CAPABILITY_STRUCTURED_CARGO_TEST_EXECUTION_POLICY_def RUNNER_CAPABILITY_STRUCTURED_GO_TEST_JSON_def
  RUNNER_CAPABILITY_STRUCTURED_GO_TEST_TOOL_def RUNNER_CAPABILITY_STRUCTURED_GO_TEST_PACKAGES_def
  RUNNER_CAPABILITY_STRUCTURED_PROCESS_ARGV_def RUNNER_CAPABILITY_STRUCTURED_SCRIPT_PAYLOAD_def
  RUNNER_CAPABILITY_STRUCTURED_SCRIPT_JAVASCRIPT_def RUNNER_CAPABILITY_STRUCTURED_SCRIPT_TYPESCRIPT_def
  RUNNER_CAPABILITY_INTERNAL_POSIX_SCRIPT_def RUNNER_CAPABILITY_STRUCTURED_EXECUTION_JOBS_def
  RUNNER_CAPABILITY_DETACHED_PROCESS_JOBS_def RUNNER_CAPABILITY_LSP_READ_ONLY_NAVIGATION_def
  RUNNER_CAPABILITY_LSP_CALL_HIERARCHY_def RUNNER_CAPABILITY_PROJECT_LIFECYCLE_def
  RUNNER_CAPABILITY_PROJECT_PATH_REGISTRATION_def RUNNER_CAPABILITY_MANAGED_WORKTREE_def
  RUNNER_CAPABILITY_CONFIGURED_SKILL_ROOTS_READ_def RUNNER_CAPABILITY_SKILL_STORE_READ_def
  RUNNER_CAPABILITY_SKILL_STORE_MANAGE_def RUNNER_CAPABILITY_COMPUTER_OBSERVE_def
  RUNNER_CAPABILITY_COMPUTER_APPLICATION_DISCOVERY_def RUNNER_CAPABILITY_COMPUTER_APPLICATION_LAUNCH_def
  RUNNER_CAPABILITY_COMPUTER_DISPLAY_OBSERVE_def RUNNER_CAPABILITY_COMPUTER_POINTER_CONTROL_def
  RUNNER_CAPABILITY_COMPUTER_CLIPBOARD_READ_def RUNNER_CAPABILITY_COMPUTER_CLIPBOARD_WRITE_def
  RUNNER_CAPABILITY_COMPUTER_SNAPSHOT_REGION_def RUNNER_CAPABILITY_COMPUTER_ACCESSIBILITY_OBSERVE_def
  RUNNER_CAPABILITY_COMPUTER_ELEMENT_STATE_def RUNNER_CAPABILITY_COMPUTER_CONTROL_def
  RUNNER_CAPABILITY_COMPUTER_SCROLL_TO_ELEMENT_def RUNNER_CAPABILITY_COMPUTER_KEY_INPUT_def
  RUNNER_CAPABILITY_COMPUTER_WINDOW_ACTIVATE_def RUNNER_CAPABILITY_COMPUTER_TEXT_INPUT_def
  RUNNER_CAPABILITY_JOB_STATE_RECONCILIATION_def RUNNER_CAPABILITY_CODING_AGENT_RUNS_def
  RUNNER_CAPABILITY_NATIVE_TOOL_PLUGINS_def RUNNER_CAPABILITY_MANAGED_SSH_RESOURCES_def
  RUNNER_CAPABILITY_RUNNER_CONFIG_CONTROL_def

text \<open>The names in the order of the protocol, and the baseline that generation 2 guarantees.\<close>

definition RUNNER_CAPABILITY_NAMES :: "rstr list" where
  "RUNNER_CAPABILITY_NAMES =
     [RUNNER_CAPABILITY_SHELL, RUNNER_CAPABILITY_FILE_READ, RUNNER_CAPABILITY_FILE_WRITE,
      RUNNER_CAPABILITY_ARTIFACT_EXPORT_CHUNK_READ, RUNNER_CAPABILITY_ARTIFACT_EXPORT_STREAMING_METADATA,
      RUNNER_CAPABILITY_STRUCTURED_FILE_DELETE, RUNNER_CAPABILITY_APPLY_TEXT_EDIT_OCCURRENCE,
      RUNNER_CAPABILITY_APPLY_TEXT_EDIT_LINE_SCOPE, RUNNER_CAPABILITY_APPLY_PATCH,
      RUNNER_CAPABILITY_APPLY_PATCH_MATCH_METADATA, RUNNER_CAPABILITY_APPLY_PATCH_MATCHING_MODE,
      RUNNER_CAPABILITY_APPLY_PATCH_STRICT_MATCHING, RUNNER_CAPABILITY_GIT, RUNNER_CAPABILITY_JOBS,
      RUNNER_CAPABILITY_ASYNC_JOBS, RUNNER_CAPABILITY_ASYNC_SHELL_JOBS, RUNNER_CAPABILITY_SSH_SHELL,
      RUNNER_CAPABILITY_PERSISTENT_SHELL, RUNNER_CAPABILITY_SSH_PERSISTENT_SHELL,
      RUNNER_CAPABILITY_STRUCTURED_VALIDATION_ARGV, RUNNER_CAPABILITY_STRUCTURED_CARGO_TEST_COUNT_ASSERTION,
      RUNNER_CAPABILITY_STRUCTURED_CARGO_TEST_EXECUTION_POLICY, RUNNER_CAPABILITY_STRUCTURED_GO_TEST_JSON,
      RUNNER_CAPABILITY_STRUCTURED_GO_TEST_TOOL, RUNNER_CAPABILITY_STRUCTURED_GO_TEST_PACKAGES,
      RUNNER_CAPABILITY_STRUCTURED_PROCESS_ARGV, RUNNER_CAPABILITY_STRUCTURED_SCRIPT_PAYLOAD,
      RUNNER_CAPABILITY_STRUCTURED_SCRIPT_JAVASCRIPT, RUNNER_CAPABILITY_STRUCTURED_SCRIPT_TYPESCRIPT,
      RUNNER_CAPABILITY_INTERNAL_POSIX_SCRIPT, RUNNER_CAPABILITY_STRUCTURED_EXECUTION_JOBS,
      RUNNER_CAPABILITY_DETACHED_PROCESS_JOBS, RUNNER_CAPABILITY_LSP_READ_ONLY_NAVIGATION,
      RUNNER_CAPABILITY_LSP_CALL_HIERARCHY, RUNNER_CAPABILITY_PROJECT_LIFECYCLE,
      RUNNER_CAPABILITY_PROJECT_PATH_REGISTRATION, RUNNER_CAPABILITY_MANAGED_WORKTREE,
      RUNNER_CAPABILITY_CONFIGURED_SKILL_ROOTS_READ, RUNNER_CAPABILITY_SKILL_STORE_READ,
      RUNNER_CAPABILITY_SKILL_STORE_MANAGE, RUNNER_CAPABILITY_COMPUTER_OBSERVE,
      RUNNER_CAPABILITY_COMPUTER_APPLICATION_DISCOVERY, RUNNER_CAPABILITY_COMPUTER_APPLICATION_LAUNCH,
      RUNNER_CAPABILITY_COMPUTER_DISPLAY_OBSERVE, RUNNER_CAPABILITY_COMPUTER_POINTER_CONTROL,
      RUNNER_CAPABILITY_COMPUTER_CLIPBOARD_READ, RUNNER_CAPABILITY_COMPUTER_CLIPBOARD_WRITE,
      RUNNER_CAPABILITY_COMPUTER_SNAPSHOT_REGION, RUNNER_CAPABILITY_COMPUTER_ACCESSIBILITY_OBSERVE,
      RUNNER_CAPABILITY_COMPUTER_ELEMENT_STATE, RUNNER_CAPABILITY_JOB_STATE_RECONCILIATION,
      RUNNER_CAPABILITY_CODING_AGENT_RUNS, RUNNER_CAPABILITY_NATIVE_TOOL_PLUGINS,
      RUNNER_CAPABILITY_MANAGED_SSH_RESOURCES, RUNNER_CAPABILITY_RUNNER_CONFIG_CONTROL,
      RUNNER_CAPABILITY_COMPUTER_CONTROL, RUNNER_CAPABILITY_COMPUTER_SCROLL_TO_ELEMENT,
      RUNNER_CAPABILITY_COMPUTER_KEY_INPUT, RUNNER_CAPABILITY_COMPUTER_WINDOW_ACTIVATE,
      RUNNER_CAPABILITY_COMPUTER_TEXT_INPUT]"

definition RUNNER_PROTOCOL_GENERATION_V2_BASELINE_CAPABILITY_NAMES :: "rstr list" where
  "RUNNER_PROTOCOL_GENERATION_V2_BASELINE_CAPABILITY_NAMES =
     [RUNNER_CAPABILITY_FILE_READ, RUNNER_CAPABILITY_FILE_WRITE, RUNNER_CAPABILITY_ARTIFACT_EXPORT_CHUNK_READ,
      RUNNER_CAPABILITY_ARTIFACT_EXPORT_STREAMING_METADATA, RUNNER_CAPABILITY_STRUCTURED_FILE_DELETE,
      RUNNER_CAPABILITY_APPLY_TEXT_EDIT_OCCURRENCE, RUNNER_CAPABILITY_JOBS, RUNNER_CAPABILITY_ASYNC_JOBS,
      RUNNER_CAPABILITY_ASYNC_SHELL_JOBS, RUNNER_CAPABILITY_STRUCTURED_VALIDATION_ARGV,
      RUNNER_CAPABILITY_STRUCTURED_CARGO_TEST_COUNT_ASSERTION, RUNNER_CAPABILITY_STRUCTURED_GO_TEST_JSON,
      RUNNER_CAPABILITY_STRUCTURED_GO_TEST_TOOL, RUNNER_CAPABILITY_STRUCTURED_GO_TEST_PACKAGES,
      RUNNER_CAPABILITY_STRUCTURED_PROCESS_ARGV, RUNNER_CAPABILITY_STRUCTURED_SCRIPT_PAYLOAD,
      RUNNER_CAPABILITY_INTERNAL_POSIX_SCRIPT, RUNNER_CAPABILITY_STRUCTURED_EXECUTION_JOBS,
      RUNNER_CAPABILITY_LSP_READ_ONLY_NAVIGATION, RUNNER_CAPABILITY_LSP_CALL_HIERARCHY,
      RUNNER_CAPABILITY_PROJECT_LIFECYCLE, RUNNER_CAPABILITY_PROJECT_PATH_REGISTRATION]"

record RunnerCapabilities =
  cap_shell :: bool
  cap_file_read :: bool
  cap_file_write :: bool
  cap_artifact_export_chunk_read :: bool
  cap_artifact_export_streaming_metadata :: bool
  cap_structured_file_delete :: bool
  cap_apply_text_edit_occurrence :: bool
  cap_apply_text_edit_line_scope :: bool
  cap_apply_patch :: bool
  cap_apply_patch_match_metadata :: bool
  cap_apply_patch_matching_mode :: bool
  cap_apply_patch_strict_matching :: bool
  cap_git :: bool
  cap_jobs :: bool
  cap_async_jobs :: bool
  cap_async_shell_jobs :: bool
  cap_ssh_shell :: bool
  cap_persistent_shell :: bool
  cap_ssh_persistent_shell :: bool
  cap_structured_validation_argv :: bool
  cap_structured_cargo_test_count_assertion :: bool
  cap_structured_cargo_test_execution_policy :: bool
  cap_structured_go_test_json :: bool
  cap_structured_go_test_tool :: bool
  cap_structured_go_test_packages :: bool
  cap_structured_process_argv :: bool
  cap_structured_script_payload :: bool
  cap_structured_script_javascript :: bool
  cap_structured_script_typescript :: bool
  cap_internal_posix_script :: bool
  cap_structured_execution_jobs :: bool
  cap_detached_process_jobs :: bool
  cap_lsp_read_only_navigation :: bool
  cap_lsp_call_hierarchy :: bool
  cap_project_lifecycle :: bool
  cap_project_path_registration :: bool
  cap_managed_worktree :: bool
  cap_configured_skill_roots_read :: bool
  cap_skill_store_read :: bool
  cap_skill_store_manage :: bool
  cap_computer_observe :: bool
  cap_computer_application_discovery :: bool
  cap_computer_application_launch :: bool
  cap_computer_display_observe :: bool
  cap_computer_pointer_control :: bool
  cap_computer_clipboard_read :: bool
  cap_computer_clipboard_write :: bool
  cap_computer_snapshot_region :: bool
  cap_computer_accessibility_observe :: bool
  cap_computer_element_state :: bool
  cap_computer_control :: bool
  cap_computer_scroll_to_element :: bool
  cap_computer_key_input :: bool
  cap_computer_window_activate :: bool
  cap_computer_text_input :: bool
  cap_job_state_reconciliation :: bool
  cap_coding_agent_runs :: bool
  cap_native_tool_plugins :: bool
  cap_managed_ssh_resources :: bool
  cap_runner_config_control :: bool

definition default_capabilities :: RunnerCapabilities where
  "default_capabilities = \<lparr>
     cap_shell = True, cap_file_read = False, cap_file_write = False, cap_artifact_export_chunk_read = False,
     cap_artifact_export_streaming_metadata = False, cap_structured_file_delete = False,
     cap_apply_text_edit_occurrence = False, cap_apply_text_edit_line_scope = False, cap_apply_patch = False,
     cap_apply_patch_match_metadata = False, cap_apply_patch_matching_mode = False,
     cap_apply_patch_strict_matching = False, cap_git = False, cap_jobs = False, cap_async_jobs = False,
     cap_async_shell_jobs = False, cap_ssh_shell = False, cap_persistent_shell = False,
     cap_ssh_persistent_shell = False, cap_structured_validation_argv = False,
     cap_structured_cargo_test_count_assertion = False, cap_structured_cargo_test_execution_policy = False,
     cap_structured_go_test_json = False, cap_structured_go_test_tool = False,
     cap_structured_go_test_packages = False, cap_structured_process_argv = False,
     cap_structured_script_payload = False, cap_structured_script_javascript = False,
     cap_structured_script_typescript = False, cap_internal_posix_script = False,
     cap_structured_execution_jobs = False, cap_detached_process_jobs = False, cap_lsp_read_only_navigation = False,
     cap_lsp_call_hierarchy = False, cap_project_lifecycle = False, cap_project_path_registration = False,
     cap_managed_worktree = False, cap_configured_skill_roots_read = False, cap_skill_store_read = False,
     cap_skill_store_manage = False, cap_computer_observe = False, cap_computer_application_discovery = False,
     cap_computer_application_launch = False, cap_computer_display_observe = False,
     cap_computer_pointer_control = False, cap_computer_clipboard_read = False, cap_computer_clipboard_write = False,
     cap_computer_snapshot_region = False, cap_computer_accessibility_observe = False,
     cap_computer_element_state = False, cap_computer_control = False, cap_computer_scroll_to_element = False,
     cap_computer_key_input = False, cap_computer_window_activate = False, cap_computer_text_input = False,
     cap_job_state_reconciliation = False, cap_coding_agent_runs = False, cap_native_tool_plugins = False,
     cap_managed_ssh_resources = False, cap_runner_config_control = False\<rparr>"

section \<open>Features\<close>

datatype RunnerFeature =
  Feature_Shell | Feature_FileRead | Feature_FileWrite | Feature_ArtifactExportChunkRead |
  Feature_ArtifactExportStreamingMetadata | Feature_StructuredFileDelete | Feature_ApplyTextEditOccurrence |
  Feature_ApplyTextEditLineScope | Feature_ApplyPatch | Feature_ApplyPatchMatchMetadata |
  Feature_ApplyPatchMatchingMode | Feature_ApplyPatchStrictMatching | Feature_Git | Feature_Jobs |
  Feature_AsyncJobs | Feature_AsyncShellJobs | Feature_SshShell | Feature_PersistentShell |
  Feature_SshPersistentShell | Feature_StructuredValidationArgv | Feature_StructuredCargoTestCountAssertion |
  Feature_StructuredCargoTestExecutionPolicy | Feature_StructuredGoTestJson | Feature_StructuredGoTestTool |
  Feature_StructuredGoTestPackages | Feature_StructuredProcessArgv | Feature_StructuredScriptPayload |
  Feature_StructuredScriptJavascript | Feature_StructuredScriptTypescript | Feature_InternalPosixScript |
  Feature_StructuredExecutionJobs | Feature_DetachedProcessJobs | Feature_LspReadOnlyNavigation |
  Feature_LspCallHierarchy | Feature_ProjectLifecycle | Feature_ProjectPathRegistration | Feature_ManagedWorktree |
  Feature_ConfiguredSkillRootsRead | Feature_SkillStoreRead | Feature_SkillStoreManage | Feature_ComputerObserve |
  Feature_ComputerApplicationDiscovery | Feature_ComputerApplicationLaunch | Feature_ComputerDisplayObserve |
  Feature_ComputerPointerControl | Feature_ComputerClipboardRead | Feature_ComputerClipboardWrite |
  Feature_ComputerSnapshotRegion | Feature_ComputerAccessibilityObserve | Feature_ComputerElementState |
  Feature_JobStateReconciliation | Feature_CodingAgentRuns | Feature_NativeToolPlugins |
  Feature_ManagedSshResources | Feature_RunnerConfigControl | Feature_ComputerControl |
  Feature_ComputerScrollToElement | Feature_ComputerKeyInput | Feature_ComputerWindowActivate |
  Feature_ComputerTextInput

definition ALL_RUNNER_FEATURES :: "RunnerFeature list" where
  "ALL_RUNNER_FEATURES =
     [Feature_Shell, Feature_FileRead, Feature_FileWrite, Feature_ArtifactExportChunkRead,
      Feature_ArtifactExportStreamingMetadata, Feature_StructuredFileDelete, Feature_ApplyTextEditOccurrence,
      Feature_ApplyTextEditLineScope, Feature_ApplyPatch, Feature_ApplyPatchMatchMetadata,
      Feature_ApplyPatchMatchingMode, Feature_ApplyPatchStrictMatching, Feature_Git, Feature_Jobs, Feature_AsyncJobs,
      Feature_AsyncShellJobs, Feature_SshShell, Feature_PersistentShell, Feature_SshPersistentShell,
      Feature_StructuredValidationArgv, Feature_StructuredCargoTestCountAssertion,
      Feature_StructuredCargoTestExecutionPolicy, Feature_StructuredGoTestJson, Feature_StructuredGoTestTool,
      Feature_StructuredGoTestPackages, Feature_StructuredProcessArgv, Feature_StructuredScriptPayload,
      Feature_StructuredScriptJavascript, Feature_StructuredScriptTypescript, Feature_InternalPosixScript,
      Feature_StructuredExecutionJobs, Feature_DetachedProcessJobs, Feature_LspReadOnlyNavigation,
      Feature_LspCallHierarchy, Feature_ProjectLifecycle, Feature_ProjectPathRegistration, Feature_ManagedWorktree,
      Feature_ConfiguredSkillRootsRead, Feature_SkillStoreRead, Feature_SkillStoreManage, Feature_ComputerObserve,
      Feature_ComputerApplicationDiscovery, Feature_ComputerApplicationLaunch, Feature_ComputerDisplayObserve,
      Feature_ComputerPointerControl, Feature_ComputerClipboardRead, Feature_ComputerClipboardWrite,
      Feature_ComputerSnapshotRegion, Feature_ComputerAccessibilityObserve, Feature_ComputerElementState,
      Feature_JobStateReconciliation, Feature_CodingAgentRuns, Feature_NativeToolPlugins,
      Feature_ManagedSshResources, Feature_RunnerConfigControl, Feature_ComputerControl,
      Feature_ComputerScrollToElement, Feature_ComputerKeyInput, Feature_ComputerWindowActivate,
      Feature_ComputerTextInput]"

datatype RunnerFeatureInference = GenerationEligible | RegistrationRequired

primrec as_wire_name :: "RunnerFeature \<Rightarrow> rstr" where
  "as_wire_name Feature_Shell = RUNNER_CAPABILITY_SHELL" |
  "as_wire_name Feature_FileRead = RUNNER_CAPABILITY_FILE_READ" |
  "as_wire_name Feature_FileWrite = RUNNER_CAPABILITY_FILE_WRITE" |
  "as_wire_name Feature_ArtifactExportChunkRead = RUNNER_CAPABILITY_ARTIFACT_EXPORT_CHUNK_READ" |
  "as_wire_name Feature_ArtifactExportStreamingMetadata = RUNNER_CAPABILITY_ARTIFACT_EXPORT_STREAMING_METADATA" |
  "as_wire_name Feature_StructuredFileDelete = RUNNER_CAPABILITY_STRUCTURED_FILE_DELETE" |
  "as_wire_name Feature_ApplyTextEditOccurrence = RUNNER_CAPABILITY_APPLY_TEXT_EDIT_OCCURRENCE" |
  "as_wire_name Feature_ApplyTextEditLineScope = RUNNER_CAPABILITY_APPLY_TEXT_EDIT_LINE_SCOPE" |
  "as_wire_name Feature_ApplyPatch = RUNNER_CAPABILITY_APPLY_PATCH" |
  "as_wire_name Feature_ApplyPatchMatchMetadata = RUNNER_CAPABILITY_APPLY_PATCH_MATCH_METADATA" |
  "as_wire_name Feature_ApplyPatchMatchingMode = RUNNER_CAPABILITY_APPLY_PATCH_MATCHING_MODE" |
  "as_wire_name Feature_ApplyPatchStrictMatching = RUNNER_CAPABILITY_APPLY_PATCH_STRICT_MATCHING" |
  "as_wire_name Feature_Git = RUNNER_CAPABILITY_GIT" |
  "as_wire_name Feature_Jobs = RUNNER_CAPABILITY_JOBS" |
  "as_wire_name Feature_AsyncJobs = RUNNER_CAPABILITY_ASYNC_JOBS" |
  "as_wire_name Feature_AsyncShellJobs = RUNNER_CAPABILITY_ASYNC_SHELL_JOBS" |
  "as_wire_name Feature_SshShell = RUNNER_CAPABILITY_SSH_SHELL" |
  "as_wire_name Feature_PersistentShell = RUNNER_CAPABILITY_PERSISTENT_SHELL" |
  "as_wire_name Feature_SshPersistentShell = RUNNER_CAPABILITY_SSH_PERSISTENT_SHELL" |
  "as_wire_name Feature_StructuredValidationArgv = RUNNER_CAPABILITY_STRUCTURED_VALIDATION_ARGV" |
  "as_wire_name Feature_StructuredCargoTestCountAssertion = RUNNER_CAPABILITY_STRUCTURED_CARGO_TEST_COUNT_ASSERTION" |
  "as_wire_name Feature_StructuredCargoTestExecutionPolicy = RUNNER_CAPABILITY_STRUCTURED_CARGO_TEST_EXECUTION_POLICY" |
  "as_wire_name Feature_StructuredGoTestJson = RUNNER_CAPABILITY_STRUCTURED_GO_TEST_JSON" |
  "as_wire_name Feature_StructuredGoTestTool = RUNNER_CAPABILITY_STRUCTURED_GO_TEST_TOOL" |
  "as_wire_name Feature_StructuredGoTestPackages = RUNNER_CAPABILITY_STRUCTURED_GO_TEST_PACKAGES" |
  "as_wire_name Feature_StructuredProcessArgv = RUNNER_CAPABILITY_STRUCTURED_PROCESS_ARGV" |
  "as_wire_name Feature_StructuredScriptPayload = RUNNER_CAPABILITY_STRUCTURED_SCRIPT_PAYLOAD" |
  "as_wire_name Feature_StructuredScriptJavascript = RUNNER_CAPABILITY_STRUCTURED_SCRIPT_JAVASCRIPT" |
  "as_wire_name Feature_StructuredScriptTypescript = RUNNER_CAPABILITY_STRUCTURED_SCRIPT_TYPESCRIPT" |
  "as_wire_name Feature_InternalPosixScript = RUNNER_CAPABILITY_INTERNAL_POSIX_SCRIPT" |
  "as_wire_name Feature_StructuredExecutionJobs = RUNNER_CAPABILITY_STRUCTURED_EXECUTION_JOBS" |
  "as_wire_name Feature_DetachedProcessJobs = RUNNER_CAPABILITY_DETACHED_PROCESS_JOBS" |
  "as_wire_name Feature_LspReadOnlyNavigation = RUNNER_CAPABILITY_LSP_READ_ONLY_NAVIGATION" |
  "as_wire_name Feature_LspCallHierarchy = RUNNER_CAPABILITY_LSP_CALL_HIERARCHY" |
  "as_wire_name Feature_ProjectLifecycle = RUNNER_CAPABILITY_PROJECT_LIFECYCLE" |
  "as_wire_name Feature_ProjectPathRegistration = RUNNER_CAPABILITY_PROJECT_PATH_REGISTRATION" |
  "as_wire_name Feature_ManagedWorktree = RUNNER_CAPABILITY_MANAGED_WORKTREE" |
  "as_wire_name Feature_ConfiguredSkillRootsRead = RUNNER_CAPABILITY_CONFIGURED_SKILL_ROOTS_READ" |
  "as_wire_name Feature_SkillStoreRead = RUNNER_CAPABILITY_SKILL_STORE_READ" |
  "as_wire_name Feature_SkillStoreManage = RUNNER_CAPABILITY_SKILL_STORE_MANAGE" |
  "as_wire_name Feature_ComputerObserve = RUNNER_CAPABILITY_COMPUTER_OBSERVE" |
  "as_wire_name Feature_ComputerApplicationDiscovery = RUNNER_CAPABILITY_COMPUTER_APPLICATION_DISCOVERY" |
  "as_wire_name Feature_ComputerApplicationLaunch = RUNNER_CAPABILITY_COMPUTER_APPLICATION_LAUNCH" |
  "as_wire_name Feature_ComputerDisplayObserve = RUNNER_CAPABILITY_COMPUTER_DISPLAY_OBSERVE" |
  "as_wire_name Feature_ComputerPointerControl = RUNNER_CAPABILITY_COMPUTER_POINTER_CONTROL" |
  "as_wire_name Feature_ComputerClipboardRead = RUNNER_CAPABILITY_COMPUTER_CLIPBOARD_READ" |
  "as_wire_name Feature_ComputerClipboardWrite = RUNNER_CAPABILITY_COMPUTER_CLIPBOARD_WRITE" |
  "as_wire_name Feature_ComputerSnapshotRegion = RUNNER_CAPABILITY_COMPUTER_SNAPSHOT_REGION" |
  "as_wire_name Feature_ComputerAccessibilityObserve = RUNNER_CAPABILITY_COMPUTER_ACCESSIBILITY_OBSERVE" |
  "as_wire_name Feature_ComputerElementState = RUNNER_CAPABILITY_COMPUTER_ELEMENT_STATE" |
  "as_wire_name Feature_JobStateReconciliation = RUNNER_CAPABILITY_JOB_STATE_RECONCILIATION" |
  "as_wire_name Feature_CodingAgentRuns = RUNNER_CAPABILITY_CODING_AGENT_RUNS" |
  "as_wire_name Feature_NativeToolPlugins = RUNNER_CAPABILITY_NATIVE_TOOL_PLUGINS" |
  "as_wire_name Feature_ManagedSshResources = RUNNER_CAPABILITY_MANAGED_SSH_RESOURCES" |
  "as_wire_name Feature_RunnerConfigControl = RUNNER_CAPABILITY_RUNNER_CONFIG_CONTROL" |
  "as_wire_name Feature_ComputerControl = RUNNER_CAPABILITY_COMPUTER_CONTROL" |
  "as_wire_name Feature_ComputerScrollToElement = RUNNER_CAPABILITY_COMPUTER_SCROLL_TO_ELEMENT" |
  "as_wire_name Feature_ComputerKeyInput = RUNNER_CAPABILITY_COMPUTER_KEY_INPUT" |
  "as_wire_name Feature_ComputerWindowActivate = RUNNER_CAPABILITY_COMPUTER_WINDOW_ACTIVATE" |
  "as_wire_name Feature_ComputerTextInput = RUNNER_CAPABILITY_COMPUTER_TEXT_INPUT"

definition wire_name_table :: "(rstr \<times> RunnerFeature) list" where
  "wire_name_table =
     [(RUNNER_CAPABILITY_SHELL, Feature_Shell),
      (RUNNER_CAPABILITY_FILE_READ, Feature_FileRead),
      (RUNNER_CAPABILITY_FILE_WRITE, Feature_FileWrite),
      (RUNNER_CAPABILITY_ARTIFACT_EXPORT_CHUNK_READ, Feature_ArtifactExportChunkRead),
      (RUNNER_CAPABILITY_ARTIFACT_EXPORT_STREAMING_METADATA, Feature_ArtifactExportStreamingMetadata),
      (RUNNER_CAPABILITY_STRUCTURED_FILE_DELETE, Feature_StructuredFileDelete),
      (RUNNER_CAPABILITY_APPLY_TEXT_EDIT_OCCURRENCE, Feature_ApplyTextEditOccurrence),
      (RUNNER_CAPABILITY_APPLY_TEXT_EDIT_LINE_SCOPE, Feature_ApplyTextEditLineScope),
      (RUNNER_CAPABILITY_APPLY_PATCH, Feature_ApplyPatch),
      (RUNNER_CAPABILITY_APPLY_PATCH_MATCH_METADATA, Feature_ApplyPatchMatchMetadata),
      (RUNNER_CAPABILITY_APPLY_PATCH_MATCHING_MODE, Feature_ApplyPatchMatchingMode),
      (RUNNER_CAPABILITY_APPLY_PATCH_STRICT_MATCHING, Feature_ApplyPatchStrictMatching),
      (RUNNER_CAPABILITY_GIT, Feature_Git),
      (RUNNER_CAPABILITY_JOBS, Feature_Jobs),
      (RUNNER_CAPABILITY_ASYNC_JOBS, Feature_AsyncJobs),
      (RUNNER_CAPABILITY_ASYNC_SHELL_JOBS, Feature_AsyncShellJobs),
      (RUNNER_CAPABILITY_SSH_SHELL, Feature_SshShell),
      (RUNNER_CAPABILITY_PERSISTENT_SHELL, Feature_PersistentShell),
      (RUNNER_CAPABILITY_SSH_PERSISTENT_SHELL, Feature_SshPersistentShell),
      (RUNNER_CAPABILITY_STRUCTURED_VALIDATION_ARGV, Feature_StructuredValidationArgv),
      (RUNNER_CAPABILITY_STRUCTURED_CARGO_TEST_COUNT_ASSERTION, Feature_StructuredCargoTestCountAssertion),
      (RUNNER_CAPABILITY_STRUCTURED_CARGO_TEST_EXECUTION_POLICY, Feature_StructuredCargoTestExecutionPolicy),
      (RUNNER_CAPABILITY_STRUCTURED_GO_TEST_JSON, Feature_StructuredGoTestJson),
      (RUNNER_CAPABILITY_STRUCTURED_GO_TEST_TOOL, Feature_StructuredGoTestTool),
      (RUNNER_CAPABILITY_STRUCTURED_GO_TEST_PACKAGES, Feature_StructuredGoTestPackages),
      (RUNNER_CAPABILITY_STRUCTURED_PROCESS_ARGV, Feature_StructuredProcessArgv),
      (RUNNER_CAPABILITY_STRUCTURED_SCRIPT_PAYLOAD, Feature_StructuredScriptPayload),
      (RUNNER_CAPABILITY_STRUCTURED_SCRIPT_JAVASCRIPT, Feature_StructuredScriptJavascript),
      (RUNNER_CAPABILITY_STRUCTURED_SCRIPT_TYPESCRIPT, Feature_StructuredScriptTypescript),
      (RUNNER_CAPABILITY_INTERNAL_POSIX_SCRIPT, Feature_InternalPosixScript),
      (RUNNER_CAPABILITY_STRUCTURED_EXECUTION_JOBS, Feature_StructuredExecutionJobs),
      (RUNNER_CAPABILITY_DETACHED_PROCESS_JOBS, Feature_DetachedProcessJobs),
      (RUNNER_CAPABILITY_LSP_READ_ONLY_NAVIGATION, Feature_LspReadOnlyNavigation),
      (RUNNER_CAPABILITY_LSP_CALL_HIERARCHY, Feature_LspCallHierarchy),
      (RUNNER_CAPABILITY_PROJECT_LIFECYCLE, Feature_ProjectLifecycle),
      (RUNNER_CAPABILITY_PROJECT_PATH_REGISTRATION, Feature_ProjectPathRegistration),
      (RUNNER_CAPABILITY_MANAGED_WORKTREE, Feature_ManagedWorktree),
      (RUNNER_CAPABILITY_CONFIGURED_SKILL_ROOTS_READ, Feature_ConfiguredSkillRootsRead),
      (RUNNER_CAPABILITY_SKILL_STORE_READ, Feature_SkillStoreRead),
      (RUNNER_CAPABILITY_SKILL_STORE_MANAGE, Feature_SkillStoreManage),
      (RUNNER_CAPABILITY_COMPUTER_OBSERVE, Feature_ComputerObserve),
      (RUNNER_CAPABILITY_COMPUTER_APPLICATION_DISCOVERY, Feature_ComputerApplicationDiscovery),
      (RUNNER_CAPABILITY_COMPUTER_APPLICATION_LAUNCH, Feature_ComputerApplicationLaunch),
      (RUNNER_CAPABILITY_COMPUTER_DISPLAY_OBSERVE, Feature_ComputerDisplayObserve),
      (RUNNER_CAPABILITY_COMPUTER_POINTER_CONTROL, Feature_ComputerPointerControl),
      (RUNNER_CAPABILITY_COMPUTER_CLIPBOARD_READ, Feature_ComputerClipboardRead),
      (RUNNER_CAPABILITY_COMPUTER_CLIPBOARD_WRITE, Feature_ComputerClipboardWrite),
      (RUNNER_CAPABILITY_COMPUTER_SNAPSHOT_REGION, Feature_ComputerSnapshotRegion),
      (RUNNER_CAPABILITY_COMPUTER_ACCESSIBILITY_OBSERVE, Feature_ComputerAccessibilityObserve),
      (RUNNER_CAPABILITY_COMPUTER_ELEMENT_STATE, Feature_ComputerElementState),
      (RUNNER_CAPABILITY_JOB_STATE_RECONCILIATION, Feature_JobStateReconciliation),
      (RUNNER_CAPABILITY_CODING_AGENT_RUNS, Feature_CodingAgentRuns),
      (RUNNER_CAPABILITY_NATIVE_TOOL_PLUGINS, Feature_NativeToolPlugins),
      (RUNNER_CAPABILITY_MANAGED_SSH_RESOURCES, Feature_ManagedSshResources),
      (RUNNER_CAPABILITY_RUNNER_CONFIG_CONTROL, Feature_RunnerConfigControl),
      (RUNNER_CAPABILITY_COMPUTER_CONTROL, Feature_ComputerControl),
      (RUNNER_CAPABILITY_COMPUTER_SCROLL_TO_ELEMENT, Feature_ComputerScrollToElement),
      (RUNNER_CAPABILITY_COMPUTER_KEY_INPUT, Feature_ComputerKeyInput),
      (RUNNER_CAPABILITY_COMPUTER_WINDOW_ACTIVATE, Feature_ComputerWindowActivate),
      (RUNNER_CAPABILITY_COMPUTER_TEXT_INPUT, Feature_ComputerTextInput)]"

definition from_wire_name :: "rstr \<Rightarrow> RunnerFeature option" where
  "from_wire_name name = map_of wire_name_table name"

primrec inference :: "RunnerFeature \<Rightarrow> RunnerFeatureInference" where
  "inference Feature_Shell = RegistrationRequired" |
  "inference Feature_FileRead = GenerationEligible" |
  "inference Feature_FileWrite = GenerationEligible" |
  "inference Feature_ArtifactExportChunkRead = GenerationEligible" |
  "inference Feature_ArtifactExportStreamingMetadata = GenerationEligible" |
  "inference Feature_StructuredFileDelete = GenerationEligible" |
  "inference Feature_ApplyTextEditOccurrence = GenerationEligible" |
  "inference Feature_ApplyTextEditLineScope = RegistrationRequired" |
  "inference Feature_ApplyPatch = RegistrationRequired" |
  "inference Feature_ApplyPatchMatchMetadata = RegistrationRequired" |
  "inference Feature_ApplyPatchMatchingMode = RegistrationRequired" |
  "inference Feature_ApplyPatchStrictMatching = RegistrationRequired" |
  "inference Feature_Git = RegistrationRequired" |
  "inference Feature_Jobs = GenerationEligible" |
  "inference Feature_AsyncJobs = GenerationEligible" |
  "inference Feature_AsyncShellJobs = GenerationEligible" |
  "inference Feature_SshShell = RegistrationRequired" |
  "inference Feature_PersistentShell = RegistrationRequired" |
  "inference Feature_SshPersistentShell = RegistrationRequired" |
  "inference Feature_StructuredValidationArgv = GenerationEligible" |
  "inference Feature_StructuredCargoTestCountAssertion = GenerationEligible" |
  "inference Feature_StructuredCargoTestExecutionPolicy = RegistrationRequired" |
  "inference Feature_StructuredGoTestJson = GenerationEligible" |
  "inference Feature_StructuredGoTestTool = GenerationEligible" |
  "inference Feature_StructuredGoTestPackages = GenerationEligible" |
  "inference Feature_StructuredProcessArgv = GenerationEligible" |
  "inference Feature_StructuredScriptPayload = GenerationEligible" |
  "inference Feature_StructuredScriptJavascript = RegistrationRequired" |
  "inference Feature_StructuredScriptTypescript = RegistrationRequired" |
  "inference Feature_InternalPosixScript = GenerationEligible" |
  "inference Feature_StructuredExecutionJobs = GenerationEligible" |
  "inference Feature_DetachedProcessJobs = RegistrationRequired" |
  "inference Feature_LspReadOnlyNavigation = GenerationEligible" |
  "inference Feature_LspCallHierarchy = GenerationEligible" |
  "inference Feature_ProjectLifecycle = GenerationEligible" |
  "inference Feature_ProjectPathRegistration = GenerationEligible" |
  "inference Feature_ManagedWorktree = RegistrationRequired" |
  "inference Feature_ConfiguredSkillRootsRead = RegistrationRequired" |
  "inference Feature_SkillStoreRead = RegistrationRequired" |
  "inference Feature_SkillStoreManage = RegistrationRequired" |
  "inference Feature_ComputerObserve = RegistrationRequired" |
  "inference Feature_ComputerApplicationDiscovery = RegistrationRequired" |
  "inference Feature_ComputerApplicationLaunch = RegistrationRequired" |
  "inference Feature_ComputerDisplayObserve = RegistrationRequired" |
  "inference Feature_ComputerPointerControl = RegistrationRequired" |
  "inference Feature_ComputerClipboardRead = RegistrationRequired" |
  "inference Feature_ComputerClipboardWrite = RegistrationRequired" |
  "inference Feature_ComputerSnapshotRegion = RegistrationRequired" |
  "inference Feature_ComputerAccessibilityObserve = RegistrationRequired" |
  "inference Feature_ComputerElementState = RegistrationRequired" |
  "inference Feature_JobStateReconciliation = RegistrationRequired" |
  "inference Feature_CodingAgentRuns = RegistrationRequired" |
  "inference Feature_NativeToolPlugins = RegistrationRequired" |
  "inference Feature_ManagedSshResources = RegistrationRequired" |
  "inference Feature_RunnerConfigControl = RegistrationRequired" |
  "inference Feature_ComputerControl = RegistrationRequired" |
  "inference Feature_ComputerScrollToElement = RegistrationRequired" |
  "inference Feature_ComputerKeyInput = RegistrationRequired" |
  "inference Feature_ComputerWindowActivate = RegistrationRequired" |
  "inference Feature_ComputerTextInput = RegistrationRequired"

primrec advertised_by :: "RunnerFeature \<Rightarrow> RunnerCapabilities \<Rightarrow> bool" where
  "advertised_by Feature_Shell capabilities = cap_shell capabilities" |
  "advertised_by Feature_FileRead capabilities = cap_file_read capabilities" |
  "advertised_by Feature_FileWrite capabilities = cap_file_write capabilities" |
  "advertised_by Feature_ArtifactExportChunkRead capabilities = cap_artifact_export_chunk_read capabilities" |
  "advertised_by Feature_ArtifactExportStreamingMetadata capabilities = cap_artifact_export_streaming_metadata capabilities" |
  "advertised_by Feature_StructuredFileDelete capabilities = cap_structured_file_delete capabilities" |
  "advertised_by Feature_ApplyTextEditOccurrence capabilities = cap_apply_text_edit_occurrence capabilities" |
  "advertised_by Feature_ApplyTextEditLineScope capabilities = cap_apply_text_edit_line_scope capabilities" |
  "advertised_by Feature_ApplyPatch capabilities = cap_apply_patch capabilities" |
  "advertised_by Feature_ApplyPatchMatchMetadata capabilities = cap_apply_patch_match_metadata capabilities" |
  "advertised_by Feature_ApplyPatchMatchingMode capabilities = cap_apply_patch_matching_mode capabilities" |
  "advertised_by Feature_ApplyPatchStrictMatching capabilities = cap_apply_patch_strict_matching capabilities" |
  "advertised_by Feature_Git capabilities = cap_git capabilities" |
  "advertised_by Feature_Jobs capabilities = cap_jobs capabilities" |
  "advertised_by Feature_AsyncJobs capabilities = cap_async_jobs capabilities" |
  "advertised_by Feature_AsyncShellJobs capabilities = cap_async_shell_jobs capabilities" |
  "advertised_by Feature_SshShell capabilities = cap_ssh_shell capabilities" |
  "advertised_by Feature_PersistentShell capabilities = cap_persistent_shell capabilities" |
  "advertised_by Feature_SshPersistentShell capabilities = cap_ssh_persistent_shell capabilities" |
  "advertised_by Feature_StructuredValidationArgv capabilities = cap_structured_validation_argv capabilities" |
  "advertised_by Feature_StructuredCargoTestCountAssertion capabilities = cap_structured_cargo_test_count_assertion capabilities" |
  "advertised_by Feature_StructuredCargoTestExecutionPolicy capabilities = cap_structured_cargo_test_execution_policy capabilities" |
  "advertised_by Feature_StructuredGoTestJson capabilities = cap_structured_go_test_json capabilities" |
  "advertised_by Feature_StructuredGoTestTool capabilities = cap_structured_go_test_tool capabilities" |
  "advertised_by Feature_StructuredGoTestPackages capabilities = cap_structured_go_test_packages capabilities" |
  "advertised_by Feature_StructuredProcessArgv capabilities = cap_structured_process_argv capabilities" |
  "advertised_by Feature_StructuredScriptPayload capabilities = cap_structured_script_payload capabilities" |
  "advertised_by Feature_StructuredScriptJavascript capabilities = cap_structured_script_javascript capabilities" |
  "advertised_by Feature_StructuredScriptTypescript capabilities = cap_structured_script_typescript capabilities" |
  "advertised_by Feature_InternalPosixScript capabilities = cap_internal_posix_script capabilities" |
  "advertised_by Feature_StructuredExecutionJobs capabilities = cap_structured_execution_jobs capabilities" |
  "advertised_by Feature_DetachedProcessJobs capabilities = cap_detached_process_jobs capabilities" |
  "advertised_by Feature_LspReadOnlyNavigation capabilities = cap_lsp_read_only_navigation capabilities" |
  "advertised_by Feature_LspCallHierarchy capabilities = cap_lsp_call_hierarchy capabilities" |
  "advertised_by Feature_ProjectLifecycle capabilities = cap_project_lifecycle capabilities" |
  "advertised_by Feature_ProjectPathRegistration capabilities = cap_project_path_registration capabilities" |
  "advertised_by Feature_ManagedWorktree capabilities = cap_managed_worktree capabilities" |
  "advertised_by Feature_ConfiguredSkillRootsRead capabilities = cap_configured_skill_roots_read capabilities" |
  "advertised_by Feature_SkillStoreRead capabilities = cap_skill_store_read capabilities" |
  "advertised_by Feature_SkillStoreManage capabilities = cap_skill_store_manage capabilities" |
  "advertised_by Feature_ComputerObserve capabilities = cap_computer_observe capabilities" |
  "advertised_by Feature_ComputerApplicationDiscovery capabilities = cap_computer_application_discovery capabilities" |
  "advertised_by Feature_ComputerApplicationLaunch capabilities = cap_computer_application_launch capabilities" |
  "advertised_by Feature_ComputerDisplayObserve capabilities = cap_computer_display_observe capabilities" |
  "advertised_by Feature_ComputerPointerControl capabilities = cap_computer_pointer_control capabilities" |
  "advertised_by Feature_ComputerClipboardRead capabilities = cap_computer_clipboard_read capabilities" |
  "advertised_by Feature_ComputerClipboardWrite capabilities = cap_computer_clipboard_write capabilities" |
  "advertised_by Feature_ComputerSnapshotRegion capabilities = cap_computer_snapshot_region capabilities" |
  "advertised_by Feature_ComputerAccessibilityObserve capabilities = cap_computer_accessibility_observe capabilities" |
  "advertised_by Feature_ComputerElementState capabilities = cap_computer_element_state capabilities" |
  "advertised_by Feature_JobStateReconciliation capabilities = cap_job_state_reconciliation capabilities" |
  "advertised_by Feature_CodingAgentRuns capabilities = cap_coding_agent_runs capabilities" |
  "advertised_by Feature_NativeToolPlugins capabilities = cap_native_tool_plugins capabilities" |
  "advertised_by Feature_ManagedSshResources capabilities = cap_managed_ssh_resources capabilities" |
  "advertised_by Feature_RunnerConfigControl capabilities = cap_runner_config_control capabilities" |
  "advertised_by Feature_ComputerControl capabilities = cap_computer_control capabilities" |
  "advertised_by Feature_ComputerScrollToElement capabilities = cap_computer_scroll_to_element capabilities" |
  "advertised_by Feature_ComputerKeyInput capabilities = cap_computer_key_input capabilities" |
  "advertised_by Feature_ComputerWindowActivate capabilities = cap_computer_window_activate capabilities" |
  "advertised_by Feature_ComputerTextInput capabilities = cap_computer_text_input capabilities"

record RunnerFeatureSet = fs_capabilities :: RunnerCapabilities

text \<open>The loop over the features of a registration: the first baseline feature that is not advertised is the error.\<close>

fun missing_baseline :: "RunnerCapabilities \<Rightarrow> RunnerFeature list \<Rightarrow> RunnerFeature option" where
  "missing_baseline capabilities [] = None" |
  "missing_baseline capabilities (feature # rest) =
     (if inference feature = GenerationEligible \<and> \<not> advertised_by feature capabilities then Some feature
      else missing_baseline capabilities rest)"

definition features_from_registration :: "RunnerCapabilities \<Rightarrow> rstr + RunnerFeatureSet" where
  "features_from_registration capabilities =
     (case missing_baseline capabilities ALL_RUNNER_FEATURES of
        Some feature \<Rightarrow> Inl (lit ''runner generation baseline capability mismatch: '' @ as_wire_name feature)
      | None \<Rightarrow> Inr \<lparr>fs_capabilities = capabilities\<rparr>)"

definition supports :: "RunnerFeatureSet \<Rightarrow> RunnerFeature \<Rightarrow> bool" where
  "supports fs feature = advertised_by feature (fs_capabilities fs)"

definition supports_wire_name :: "RunnerFeatureSet \<Rightarrow> rstr \<Rightarrow> bool" where
  "supports_wire_name fs capability = (case from_wire_name capability of None \<Rightarrow> False | Some feature \<Rightarrow> supports fs feature)"

section \<open>The vocabulary is one\<close>

lemma all_features [simp]: "set ALL_RUNNER_FEATURES = UNIV"
proof -
  have "feature \<in> set ALL_RUNNER_FEATURES" for feature by (cases feature) (simp_all add: ALL_RUNNER_FEATURES_def)
  then show ?thesis by blast
qed

lemma capability_names: "RUNNER_CAPABILITY_NAMES = map as_wire_name ALL_RUNNER_FEATURES"
  by (simp add: RUNNER_CAPABILITY_NAMES_def ALL_RUNNER_FEATURES_def)

lemma baseline_names:
  "RUNNER_PROTOCOL_GENERATION_V2_BASELINE_CAPABILITY_NAMES =
     map as_wire_name (filter (\<lambda>feature. inference feature = GenerationEligible) ALL_RUNNER_FEATURES)"
  by (simp add: RUNNER_PROTOCOL_GENERATION_V2_BASELINE_CAPABILITY_NAMES_def ALL_RUNNER_FEATURES_def)

lemma wire_name_table: "wire_name_table = map (\<lambda>feature. (as_wire_name feature, feature)) ALL_RUNNER_FEATURES"
  by (simp add: wire_name_table_def ALL_RUNNER_FEATURES_def)

lemma distinct_wire_names: "distinct (map as_wire_name ALL_RUNNER_FEATURES)"
  unfolding capability_names [symmetric] RUNNER_CAPABILITY_NAMES_def wire_constants
  by (simp add: lit_inject)

lemma distinct_features: "distinct ALL_RUNNER_FEATURES"
  using distinct_wire_names by (simp add: distinct_map)

lemma from_wire_name_iff: "from_wire_name name = Some feature \<longleftrightarrow> as_wire_name feature = name"
proof -
  have "distinct (map fst wire_name_table)" by (simp add: wire_name_table distinct_wire_names comp_def)
  then have "from_wire_name name = Some feature \<longleftrightarrow> (name, feature) \<in> set wire_name_table"
    unfolding from_wire_name_def by (rule map_of_eq_Some_iff)
  then show ?thesis by (auto simp: wire_name_table)
qed

interpretation wire_names: codec as_wire_name from_wire_name "\<lambda>feature. True"
  by unfold_locales (simp_all add: from_wire_name_iff)

section \<open>Registration\<close>

lemma missing_baseline_None_iff:
  "missing_baseline capabilities fs = None
     \<longleftrightarrow> (\<forall>feature \<in> set fs. inference feature = GenerationEligible \<longrightarrow> advertised_by feature capabilities)"
  by (induction fs) auto

lemma missing_baseline_Some:
  assumes "missing_baseline capabilities fs = Some feature"
  shows "\<exists>earlier later. fs = earlier @ feature # later
           \<and> inference feature = GenerationEligible \<and> \<not> advertised_by feature capabilities
           \<and> missing_baseline capabilities earlier = None"
  using assms
proof (induction fs)
  case (Cons f rest)
  show ?case
  proof (cases "inference f = GenerationEligible \<and> \<not> advertised_by f capabilities")
    case True
    with Cons.prems have "f # rest = [] @ feature # rest" by simp
    with True Cons.prems show ?thesis by (metis missing_baseline.simps option.inject)
  next
    case False
    with Cons.prems have "missing_baseline capabilities rest = Some feature" by auto
    from Cons.IH [OF this] obtain earlier later where split:
      "rest = earlier @ feature # later" "inference feature = GenerationEligible" "\<not> advertised_by feature capabilities"
      "missing_baseline capabilities earlier = None" by blast
    from False split have "missing_baseline capabilities (f # earlier) = None" by auto
    moreover have "f # rest = (f # earlier) @ feature # later" using split by simp
    ultimately show ?thesis using split by blast
  qed
qed simp

lemma features_from_registration_Inr_iff:
  "features_from_registration capabilities = Inr fs
     \<longleftrightarrow> (\<forall>feature. inference feature = GenerationEligible \<longrightarrow> advertised_by feature capabilities)
         \<and> fs = \<lparr>fs_capabilities = capabilities\<rparr>"
  using missing_baseline_None_iff [of capabilities ALL_RUNNER_FEATURES]
  by (auto simp: features_from_registration_def split: option.splits)

lemma supports_wire_name_iff: "supports_wire_name fs name \<longleftrightarrow> (\<exists>feature. as_wire_name feature = name \<and> supports fs feature)"
  by (cases "from_wire_name name") (auto simp: supports_wire_name_def from_wire_name_iff [symmetric])

lemma baseline_supported:
  "list_all (supports_wire_name fs) (map as_wire_name (filter (\<lambda>f. inference f = GenerationEligible) features))
     \<longleftrightarrow> missing_baseline (fs_capabilities fs) features = None"
proof -
  have "supports_wire_name fs (as_wire_name f) = advertised_by f (fs_capabilities fs)" for f
    using from_wire_name_iff [of "as_wire_name f" f] by (simp add: supports_wire_name_def supports_def)
  then show ?thesis by (auto simp: missing_baseline_None_iff list_all_iff)
qed


end
