(* ===== verification/Coding_Agent.thy ===== *)
theory Coding_Agent
  imports Registry_Validation
begin

text \<open>
  The protocol of Runner-owned coding-agent runs (\<open>crates/webcodex-core/src/coding_agent.rs\<close>): its vocabulary, the
  validation of requests, responses and run snapshots, and the merge that decides whether an observation of a run
  replaces the snapshot an observer retains. The length of a configuration value in JSON is a parameter, because the
  serialiser is not part of the repository.
\<close>

section \<open>Vocabulary\<close>

definition CODING_AGENT_MAX_PROVIDERS :: nat where "CODING_AGENT_MAX_PROVIDERS = 8"
definition CODING_AGENT_MAX_PROVIDER_ID_BYTES :: nat where "CODING_AGENT_MAX_PROVIDER_ID_BYTES = 64"
definition CODING_AGENT_MAX_PROVIDER_NAME_BYTES :: nat where "CODING_AGENT_MAX_PROVIDER_NAME_BYTES = 128"
definition CODING_AGENT_MAX_RUN_ID_BYTES :: nat where "CODING_AGENT_MAX_RUN_ID_BYTES = 96"
definition CODING_AGENT_MAX_INTENT_FINGERPRINT_BYTES :: nat where "CODING_AGENT_MAX_INTENT_FINGERPRINT_BYTES = 96"
definition CODING_AGENT_MAX_PROJECT_ID_BYTES :: nat where "CODING_AGENT_MAX_PROJECT_ID_BYTES = 512"
definition CODING_AGENT_MAX_PROJECT_ROOT_BYTES :: nat where "CODING_AGENT_MAX_PROJECT_ROOT_BYTES = 4096"
definition CODING_AGENT_MAX_INSTRUCTION_BYTES :: nat where "CODING_AGENT_MAX_INSTRUCTION_BYTES = 64 * 1024"
definition CODING_AGENT_MAX_CONFIG_OPTIONS :: nat where "CODING_AGENT_MAX_CONFIG_OPTIONS = 32"
definition CODING_AGENT_MAX_CONFIG_KEY_BYTES :: nat where "CODING_AGENT_MAX_CONFIG_KEY_BYTES = 128"
definition CODING_AGENT_MAX_CONFIG_VALUE_BYTES :: nat where "CODING_AGENT_MAX_CONFIG_VALUE_BYTES = 4096"
definition CODING_AGENT_MAX_EVENT_TEXT_BYTES :: nat where "CODING_AGENT_MAX_EVENT_TEXT_BYTES = 16 * 1024"
definition CODING_AGENT_MAX_ERROR_KIND_BYTES :: nat where "CODING_AGENT_MAX_ERROR_KIND_BYTES = 64"
definition CODING_AGENT_MAX_ERROR_MESSAGE_BYTES :: nat where "CODING_AGENT_MAX_ERROR_MESSAGE_BYTES = 16 * 1024"
definition CODING_AGENT_MAX_EVENT_METADATA_BYTES :: nat where "CODING_AGENT_MAX_EVENT_METADATA_BYTES = 1024"
definition CODING_AGENT_MAX_TERMINAL_METADATA_BYTES :: nat where "CODING_AGENT_MAX_TERMINAL_METADATA_BYTES = 1024"
definition CODING_AGENT_MAX_EVENTS_PER_RESPONSE :: nat where "CODING_AGENT_MAX_EVENTS_PER_RESPONSE = 64"
definition CODING_AGENT_MAX_INVENTORY_RUNS :: nat where "CODING_AGENT_MAX_INVENTORY_RUNS = 128"
definition CODING_AGENT_TIMEOUT_MIN_SECS :: nat where "CODING_AGENT_TIMEOUT_MIN_SECS = 1"
definition CODING_AGENT_TIMEOUT_MAX_SECS :: nat where "CODING_AGENT_TIMEOUT_MAX_SECS = 3600"
definition CODING_AGENT_OBSERVE_WAIT_MAX_SECS :: nat where "CODING_AGENT_OBSERVE_WAIT_MAX_SECS = 60"

definition CODING_AGENT_STOP_REASON_END_TURN :: rstr where "CODING_AGENT_STOP_REASON_END_TURN = lit ''end_turn''"
definition CODING_AGENT_STOP_REASON_CANCELLED :: rstr where "CODING_AGENT_STOP_REASON_CANCELLED = lit ''cancelled''"
definition CODING_AGENT_STOP_REASON_MAX_TOKENS :: rstr where "CODING_AGENT_STOP_REASON_MAX_TOKENS = lit ''max_tokens''"
definition CODING_AGENT_STOP_REASON_MAX_TURN_REQUESTS :: rstr where
  "CODING_AGENT_STOP_REASON_MAX_TURN_REQUESTS = lit ''max_turn_requests''"
definition CODING_AGENT_STOP_REASON_REFUSAL :: rstr where "CODING_AGENT_STOP_REASON_REFUSAL = lit ''refusal''"

record CodingAgentProvider =
  prov_provider_id :: rstr
  prov_provider_instance_id :: rstr
  prov_name :: rstr

datatype CodingAgentRunState =
  RunStarting | RunRunning | RunWaitingPermission | RunCompleted | RunFailed | RunCancelled | RunLost

definition run_state_terminal :: "CodingAgentRunState \<Rightarrow> bool" where
  "run_state_terminal s \<longleftrightarrow> s \<in> {RunCompleted, RunFailed, RunCancelled, RunLost}"

primrec run_state_as_str :: "CodingAgentRunState \<Rightarrow> rstr" where
  "run_state_as_str RunStarting = lit ''starting''"
| "run_state_as_str RunRunning = lit ''running''"
| "run_state_as_str RunWaitingPermission = lit ''waiting_permission''"
| "run_state_as_str RunCompleted = lit ''completed''"
| "run_state_as_str RunFailed = lit ''failed''"
| "run_state_as_str RunCancelled = lit ''cancelled''"
| "run_state_as_str RunLost = lit ''lost''"

definition run_state_from_str :: "rstr \<Rightarrow> CodingAgentRunState option" where
  "run_state_from_str v =
     map_of [(lit ''starting'', RunStarting), (lit ''running'', RunRunning),
       (lit ''waiting_permission'', RunWaitingPermission), (lit ''completed'', RunCompleted),
       (lit ''failed'', RunFailed), (lit ''cancelled'', RunCancelled), (lit ''lost'', RunLost)] v"

datatype CodingAgentExecutionState = ExecNotStarted | ExecStarted | ExecOutcomeUnknown | ExecCompleted

primrec execution_state_as_str :: "CodingAgentExecutionState \<Rightarrow> rstr" where
  "execution_state_as_str ExecNotStarted = lit ''not_started''"
| "execution_state_as_str ExecStarted = lit ''started''"
| "execution_state_as_str ExecOutcomeUnknown = lit ''outcome_unknown''"
| "execution_state_as_str ExecCompleted = lit ''completed''"

definition execution_state_from_str :: "rstr \<Rightarrow> CodingAgentExecutionState option" where
  "execution_state_from_str v =
     map_of [(lit ''not_started'', ExecNotStarted), (lit ''started'', ExecStarted),
       (lit ''outcome_unknown'', ExecOutcomeUnknown), (lit ''completed'', ExecCompleted)] v"

datatype CodingAgentDispatchState = DispatchNotStarted | DispatchOutcomeUnknown | DispatchCompleted

datatype CodingAgentConfigValue = ConfigString rstr | ConfigBool bool | ConfigInteger int

datatype CodingAgentEventKind =
  AgentMessage | Reasoning | Plan | ToolActivity | FileChange | TerminalActivity | Usage | PermissionRequest | TerminalEvent

primrec event_kind_as_str :: "CodingAgentEventKind \<Rightarrow> rstr" where
  "event_kind_as_str AgentMessage = lit ''agent_message''"
| "event_kind_as_str Reasoning = lit ''reasoning''"
| "event_kind_as_str Plan = lit ''plan''"
| "event_kind_as_str ToolActivity = lit ''tool_activity''"
| "event_kind_as_str FileChange = lit ''file_change''"
| "event_kind_as_str TerminalActivity = lit ''terminal_activity''"
| "event_kind_as_str Usage = lit ''usage''"
| "event_kind_as_str PermissionRequest = lit ''permission_request''"
| "event_kind_as_str TerminalEvent = lit ''terminal''"

record CodingAgentUsage =
  usage_used_tokens :: "nat option"
  usage_context_window_tokens :: "nat option"
  usage_cost_amount :: "rstr option"
  usage_cost_currency :: "rstr option"

record CodingAgentEvent =
  ev_sequence :: nat
  ev_kind :: CodingAgentEventKind
  ev_text :: "rstr option"
  ev_label :: "rstr option"
  ev_status :: "rstr option"
  ev_usage :: "CodingAgentUsage option"

record CodingAgentTerminal =
  term_stop_reason :: "rstr option"
  term_error_code :: "rstr option"
  term_message :: "rstr option"
  term_completed_at :: int

record CodingAgentRunSnapshot =
  run_id :: rstr
  run_intent_fingerprint :: rstr
  run_authority_fingerprint :: rstr
  run_runtime_project_id :: rstr
  run_provider_id :: rstr
  run_provider_instance_id :: rstr
  run_state :: CodingAgentRunState
  run_execution_state :: CodingAgentExecutionState
  run_observation_revision :: nat
  run_created_at :: int
  run_updated_at :: int
  run_terminal :: "CodingAgentTerminal option"

datatype CodingAgentObservationMerge = Stale | ExactReplay | Advance

record CodingAgentRunInventory = cinv_runs :: "CodingAgentRunSnapshot list"

record CodingAgentStartRequest =
  start_run_id :: rstr
  start_intent_fingerprint :: rstr
  start_authority_fingerprint :: rstr
  start_runtime_project_id :: rstr
  start_project_root :: rstr
  start_provider_id :: rstr
  start_provider_instance_id :: rstr
  start_instruction :: rstr
  start_config :: "(rstr \<times> CodingAgentConfigValue) list"
  start_timeout_secs :: nat

record CodingAgentObserveRequest =
  obs_run_id :: rstr
  obs_after_sequence :: "nat option"
  obs_limit :: nat
  obs_wait_secs :: nat

record CodingAgentCancelRequest = cancel_run_id :: rstr

datatype CodingAgentRequest =
  StartRun CodingAgentStartRequest | ObserveRun CodingAgentObserveRequest | CancelRun CodingAgentCancelRequest

primrec request_run_id :: "CodingAgentRequest \<Rightarrow> rstr" where
  "request_run_id (StartRun r) = start_run_id r"
| "request_run_id (ObserveRun r) = obs_run_id r"
| "request_run_id (CancelRun r) = cancel_run_id r"

primrec provider_binding :: "CodingAgentRequest \<Rightarrow> (rstr \<times> rstr) option" where
  "provider_binding (StartRun r) = Some (start_provider_id r, start_provider_instance_id r)"
| "provider_binding (ObserveRun r) = None"
| "provider_binding (CancelRun r) = None"

record CodingAgentObserveResult =
  ores_run :: CodingAgentRunSnapshot
  ores_events :: "CodingAgentEvent list"
  ores_first_retained_sequence :: nat
  ores_next_sequence :: nat
  ores_has_more :: bool
  ores_history_lost :: bool

datatype CodingAgentResponsePayload =
  StartPayload CodingAgentRunSnapshot | ObservePayload CodingAgentObserveResult | CancelPayload CodingAgentRunSnapshot

record CodingAgentError =
  cerr_code :: rstr
  cerr_message :: rstr
  cerr_failure_kind :: "rstr option"
  cerr_recovery_kind :: "rstr option"

record CodingAgentResponse =
  cres_dispatch_state :: CodingAgentDispatchState
  cres_payload :: "CodingAgentResponsePayload option"
  cres_error :: "CodingAgentError option"

definition response_success :: "CodingAgentResponsePayload \<Rightarrow> CodingAgentResponse" where
  "response_success payload = \<lparr>cres_dispatch_state = DispatchCompleted, cres_payload = Some payload, cres_error = None\<rparr>"

definition response_error ::
    "CodingAgentDispatchState \<Rightarrow> rstr \<Rightarrow> rstr \<Rightarrow> rstr option \<Rightarrow> rstr option \<Rightarrow> CodingAgentResponse" where
  "response_error dispatch_state code message failure_kind recovery_kind =
     \<lparr>cres_dispatch_state = dispatch_state, cres_payload = None,
      cres_error = Some \<lparr>cerr_code = code, cerr_message = message, cerr_failure_kind = failure_kind,
        cerr_recovery_kind = recovery_kind\<rparr>\<rparr>"

section \<open>Identifiers\<close>

definition is_ascii_lowercase :: "rchar \<Rightarrow> bool" where
  "is_ascii_lowercase b \<longleftrightarrow> 97 \<le> b \<and> b \<le> 122"

definition identifier_byte :: "bool \<Rightarrow> rchar \<Rightarrow> bool" where
  "identifier_byte lowercase_only b \<longleftrightarrow>
     (if lowercase_only then is_ascii_lowercase b else is_ascii_alphanumeric b) \<or> is_ascii_digit b \<or> b \<in> {95, 45, 46}"

definition validate_identifier :: "rstr \<Rightarrow> rstr \<Rightarrow> nat \<Rightarrow> bool \<Rightarrow> rstr + unit" where
  "validate_identifier v field max_bytes lowercase_only =
     (if v = [] \<or> max_bytes < str_len v
        then Inl (field @ lit '' must contain 1..='' @ show_nat max_bytes @ lit '' bytes'')
      else if \<not> list_all (identifier_byte lowercase_only) v then Inl (field @ lit '' contains unsupported characters'')
      else Inr ())"

definition validate_low_cardinality_kind :: "rstr \<Rightarrow> rstr \<Rightarrow> nat \<Rightarrow> rstr + unit" where
  "validate_low_cardinality_kind v field max_bytes =
     reject_if (v = [] \<or> max_bytes < str_len v \<or> \<not> list_all (\<lambda>b. is_ascii_lowercase b \<or> is_ascii_digit b \<or> b = 95) v)
       (field @ lit '' is invalid'')"

definition validate_provider_id :: "rstr \<Rightarrow> rstr + unit" where
  "validate_provider_id v = validate_identifier v (lit ''provider_id'') CODING_AGENT_MAX_PROVIDER_ID_BYTES True"

definition validate_provider_instance_id :: "rstr \<Rightarrow> rstr + unit" where
  "validate_provider_instance_id v =
     validate_identifier v (lit ''provider_instance_id'') CODING_AGENT_MAX_PROVIDER_ID_BYTES False"

definition validate_run_id :: "rstr \<Rightarrow> rstr + unit" where
  "validate_run_id v =
     (if \<not> starts_with v (lit ''wc_agent_run_'') then Inl (lit ''run_id must use the wc_agent_run_ namespace'')
      else validate_identifier v (lit ''run_id'') CODING_AGENT_MAX_RUN_ID_BYTES False)"

definition validate_intent_fingerprint :: "rstr \<Rightarrow> rstr + unit" where
  "validate_intent_fingerprint v =
     validate_identifier v (lit ''intent_fingerprint'') CODING_AGENT_MAX_INTENT_FINGERPRINT_BYTES False"

definition validate_authority_fingerprint :: "rstr \<Rightarrow> rstr + unit" where
  "validate_authority_fingerprint v =
     (if \<not> starts_with v (lit ''auth_'') then Inl (lit ''authority_fingerprint must use the auth_ namespace'')
      else validate_identifier v (lit ''authority_fingerprint'') 80 False)"

section \<open>Requests\<close>

definition config_entry_ok :: "(CodingAgentConfigValue \<Rightarrow> nat) \<Rightarrow> rstr \<times> CodingAgentConfigValue \<Rightarrow> bool" where
  "config_entry_ok serialized_len entry \<longleftrightarrow>
     (case entry of (key, v) \<Rightarrow> key \<noteq> [] \<and> str_len key \<le> CODING_AGENT_MAX_CONFIG_KEY_BYTES
        \<and> set key \<inter> {0, 13, 10} = {} \<and> serialized_len v \<le> CODING_AGENT_MAX_CONFIG_VALUE_BYTES)"

definition validate_start_request :: "(CodingAgentConfigValue \<Rightarrow> nat) \<Rightarrow> CodingAgentStartRequest \<Rightarrow> rstr + unit" where
  "validate_start_request serialized_len r =
     and_then (validate_intent_fingerprint (start_intent_fingerprint r))
    (and_then (validate_authority_fingerprint (start_authority_fingerprint r))
    (and_then (reject_if (trim (start_runtime_project_id r) = []
         \<or> CODING_AGENT_MAX_PROJECT_ID_BYTES < str_len (start_runtime_project_id r)) (lit ''runtime_project_id is invalid''))
    (and_then (reject_if (start_project_root r = [] \<or> \<not> bounded_text CODING_AGENT_MAX_PROJECT_ROOT_BYTES (start_project_root r))
         (lit ''project_root is invalid''))
    (and_then (validate_provider_id (start_provider_id r))
    (and_then (validate_provider_instance_id (start_provider_instance_id r))
    (and_then (reject_if (start_instruction r = [] \<or> \<not> bounded_text CODING_AGENT_MAX_INSTRUCTION_BYTES (start_instruction r))
         (lit ''instruction is invalid''))
    (and_then (reject_if (CODING_AGENT_MAX_CONFIG_OPTIONS < length (start_config r)) (lit ''too many config overrides''))
    (and_then (reject_if (\<not> list_all (config_entry_ok serialized_len) (start_config r)) (lit ''config override is invalid''))
       (reject_if (\<not> (CODING_AGENT_TIMEOUT_MIN_SECS \<le> start_timeout_secs r \<and> start_timeout_secs r \<le> CODING_AGENT_TIMEOUT_MAX_SECS))
         (lit ''timeout_secs is outside the supported range''))))))))))"

definition validate_request :: "(CodingAgentConfigValue \<Rightarrow> nat) \<Rightarrow> CodingAgentRequest \<Rightarrow> rstr + unit" where
  "validate_request serialized_len request =
     and_then (validate_run_id (request_run_id request))
       (case request of
          StartRun r \<Rightarrow> validate_start_request serialized_len r
        | ObserveRun r \<Rightarrow>
            and_then (reject_if (obs_limit r = 0 \<or> CODING_AGENT_MAX_EVENTS_PER_RESPONSE < obs_limit r)
                (lit ''observe limit is outside the supported range''))
              (reject_if (CODING_AGENT_OBSERVE_WAIT_MAX_SECS < obs_wait_secs r)
                (lit ''observe wait_secs is outside the supported range''))
        | CancelRun _ \<Rightarrow> Inr ())"

section \<open>Run snapshots\<close>

abbreviation longer_than :: "nat \<Rightarrow> rstr option \<Rightarrow> bool" where
  "longer_than n v \<equiv> opt_ex (\<lambda>s. n < str_len s) v"

definition validate_terminal_bounds :: "CodingAgentTerminal option \<Rightarrow> rstr + unit" where
  "validate_terminal_bounds terminal =
     (case terminal of
        None \<Rightarrow> Inr ()
      | Some t \<Rightarrow>
          and_then (reject_if (longer_than CODING_AGENT_MAX_TERMINAL_METADATA_BYTES (term_stop_reason t)
                \<or> longer_than CODING_AGENT_MAX_TERMINAL_METADATA_BYTES (term_error_code t)
                \<or> longer_than CODING_AGENT_MAX_ERROR_MESSAGE_BYTES (term_message t))
              (lit ''CodingAgentRun snapshot terminal metadata is too large''))
            (case term_error_code t of
               None \<Rightarrow> Inr ()
             | Some code \<Rightarrow> validate_low_cardinality_kind code (lit ''CodingAgentRun terminal error code'')
                 CODING_AGENT_MAX_TERMINAL_METADATA_BYTES))"

definition terminal_for_state :: "CodingAgentRunSnapshot \<Rightarrow> CodingAgentExecutionState \<Rightarrow> rstr + CodingAgentTerminal" where
  "terminal_for_state run execution_state =
     (if run_execution_state run \<noteq> execution_state
        then Inl (lit ''terminal CodingAgentRun execution_state is inconsistent'')
      else (case run_terminal run of
          None \<Rightarrow> Inl (lit ''terminal CodingAgentRun snapshot lacks terminal metadata'')
        | Some t \<Rightarrow> Inr t))"

definition cancelled_truth :: "CodingAgentRunSnapshot \<Rightarrow> CodingAgentTerminal \<Rightarrow> rstr + unit" where
  "cancelled_truth run t =
     (case run_execution_state run of
        ExecNotStarted \<Rightarrow>
          reject_if (term_stop_reason t \<noteq> None \<or> term_error_code t \<noteq> None \<or> opt_all (\<lambda>m. m = []) (term_message t))
            (lit ''pre-prompt cancelled CodingAgentRun snapshot claims ACP terminal truth'')
      | ExecCompleted \<Rightarrow>
          reject_if (term_stop_reason t \<noteq> Some CODING_AGENT_STOP_REASON_CANCELLED \<or> term_error_code t \<noteq> None)
            (lit ''post-prompt cancelled CodingAgentRun snapshot lacks cancelled truth'')
      | _ \<Rightarrow> Inl (lit ''cancelled CodingAgentRun snapshot has inconsistent execution state''))"

definition failure_stop_reasons :: "rstr set" where
  "failure_stop_reasons = {CODING_AGENT_STOP_REASON_MAX_TOKENS, CODING_AGENT_STOP_REASON_MAX_TURN_REQUESTS,
     CODING_AGENT_STOP_REASON_REFUSAL}"

definition failed_truth :: "CodingAgentRunSnapshot \<Rightarrow> CodingAgentTerminal \<Rightarrow> rstr + unit" where
  "failed_truth run t =
     (case term_stop_reason t of
        Some reason \<Rightarrow>
          if reason \<in> failure_stop_reasons
          then reject_if (run_execution_state run \<noteq> ExecCompleted \<or> term_error_code t \<noteq> Some reason)
            (lit ''failed CodingAgentRun ACP terminal truth is inconsistent'')
          else Inl (lit ''CodingAgentRun snapshot has unknown or contradictory stop_reason'')
      | None \<Rightarrow>
          reject_if (run_execution_state run \<notin> {ExecNotStarted, ExecCompleted} \<or> term_error_code t = None)
            (lit ''failed CodingAgentRun internal terminal truth is inconsistent''))"

definition validate_state_matrix :: "CodingAgentRunSnapshot \<Rightarrow> rstr + unit" where
  "validate_state_matrix run =
     (case run_state run of
        RunStarting \<Rightarrow> reject_if (run_execution_state run \<noteq> ExecNotStarted \<or> run_terminal run \<noteq> None)
          (lit ''starting CodingAgentRun snapshot is semantically inconsistent'')
      | RunRunning \<Rightarrow> reject_if (run_execution_state run \<notin> {ExecOutcomeUnknown, ExecStarted} \<or> run_terminal run \<noteq> None)
          (lit ''running CodingAgentRun snapshot is semantically inconsistent'')
      | RunWaitingPermission \<Rightarrow> reject_if (run_execution_state run \<noteq> ExecStarted \<or> run_terminal run \<noteq> None)
          (lit ''waiting_permission CodingAgentRun snapshot is semantically inconsistent'')
      | RunCompleted \<Rightarrow>
          (case terminal_for_state run ExecCompleted of
             Inl e \<Rightarrow> Inl e
           | Inr t \<Rightarrow> reject_if (term_stop_reason t \<noteq> Some CODING_AGENT_STOP_REASON_END_TURN \<or> term_error_code t \<noteq> None)
               (lit ''completed CodingAgentRun snapshot lacks end_turn truth''))
      | RunCancelled \<Rightarrow>
          (case run_terminal run of
             None \<Rightarrow> Inl (lit ''cancelled CodingAgentRun snapshot lacks terminal metadata'')
           | Some t \<Rightarrow> cancelled_truth run t)
      | RunFailed \<Rightarrow>
          (case run_terminal run of
             None \<Rightarrow> Inl (lit ''failed CodingAgentRun snapshot lacks terminal metadata'')
           | Some t \<Rightarrow> failed_truth run t)
      | RunLost \<Rightarrow>
          (case terminal_for_state run ExecOutcomeUnknown of
             Inl e \<Rightarrow> Inl e
           | Inr t \<Rightarrow> reject_if (term_stop_reason t \<noteq> None \<or> term_error_code t = None)
               (lit ''lost CodingAgentRun snapshot claims definite terminal truth'')))"

definition validate_coding_agent_run_snapshot :: "CodingAgentRunSnapshot \<Rightarrow> rstr + unit" where
  "validate_coding_agent_run_snapshot run =
     and_then (validate_run_id (run_id run))
    (and_then (validate_intent_fingerprint (run_intent_fingerprint run))
    (and_then (validate_authority_fingerprint (run_authority_fingerprint run))
    (and_then (validate_provider_id (run_provider_id run))
    (and_then (validate_provider_instance_id (run_provider_instance_id run))
    (and_then (reject_if (trim (run_runtime_project_id run) = []
         \<or> CODING_AGENT_MAX_PROJECT_ID_BYTES < str_len (run_runtime_project_id run))
         (lit ''CodingAgentRun snapshot project id is invalid''))
    (and_then (validate_terminal_bounds (run_terminal run))
       (validate_state_matrix run)))))))"

section \<open>Responses\<close>

definition recovery_kinds :: "rstr list" where
  "recovery_kinds = map lit [''fix_input'', ''retry_same'', ''reobserve'', ''reconcile'', ''wait'', ''user_action'', ''none'']"

definition validate_coding_agent_error :: "CodingAgentError \<Rightarrow> rstr + unit" where
  "validate_coding_agent_error e =
     and_then (validate_low_cardinality_kind (cerr_code e) (lit ''CodingAgentRun error code'') CODING_AGENT_MAX_ERROR_KIND_BYTES)
    (and_then (reject_if (CODING_AGENT_MAX_ERROR_MESSAGE_BYTES < str_len (cerr_message e))
         (lit ''CodingAgentRun error message is too large''))
    (and_then (case cerr_failure_kind e of None \<Rightarrow> Inr ()
         | Some kind \<Rightarrow> validate_low_cardinality_kind kind (lit ''CodingAgentRun failure kind'') CODING_AGENT_MAX_ERROR_KIND_BYTES)
       (reject_if (opt_ex (\<lambda>kind. kind \<notin> set recovery_kinds) (cerr_recovery_kind e))
         (lit ''CodingAgentRun recovery kind is invalid''))))"

definition event_metadata_too_large :: "CodingAgentEvent \<Rightarrow> bool" where
  "event_metadata_too_large e \<longleftrightarrow> longer_than CODING_AGENT_MAX_EVENT_METADATA_BYTES (ev_label e)
     \<or> longer_than CODING_AGENT_MAX_EVENT_METADATA_BYTES (ev_status e)
     \<or> opt_ex (\<lambda>u. longer_than CODING_AGENT_MAX_EVENT_METADATA_BYTES (usage_cost_amount u)
          \<or> longer_than CODING_AGENT_MAX_EVENT_METADATA_BYTES (usage_cost_currency u)) (ev_usage e)"

fun validate_events :: "nat option \<Rightarrow> CodingAgentEvent list \<Rightarrow> rstr + unit" where
  "validate_events previous [] = Inr ()"
| "validate_events previous (e # es) =
     (if longer_than CODING_AGENT_MAX_EVENT_TEXT_BYTES (ev_text e) \<or> opt_ex (\<lambda>s. ev_sequence e \<le> s) previous
        then Inl (lit ''CodingAgentRun response event bounds/order are invalid'')
      else if event_metadata_too_large e then Inl (lit ''CodingAgentRun response event metadata is too large'')
      else validate_events (Some (ev_sequence e)) es)"

definition validate_observation :: "CodingAgentObserveResult \<Rightarrow> rstr + unit" where
  "validate_observation r =
     and_then (reject_if (CODING_AGENT_MAX_EVENTS_PER_RESPONSE < length (ores_events r))
         (lit ''CodingAgentRun response contains too many events''))
    (and_then (validate_events None (ores_events r))
       (reject_if (ores_first_retained_sequence r = 0
           \<or> sat_add (ores_next_sequence r) 1 < ores_first_retained_sequence r)
         (lit ''CodingAgentRun response retention metadata is invalid'')))"

definition response_run :: "CodingAgentRequest \<Rightarrow> CodingAgentResponsePayload \<Rightarrow> rstr + CodingAgentRunSnapshot" where
  "response_run request payload =
     (case (request, payload) of
        (StartRun _, StartPayload run) \<Rightarrow> Inr run
      | (ObserveRun _, ObservePayload r) \<Rightarrow> and_then (validate_observation r) (Inr (ores_run r))
      | (CancelRun _, CancelPayload run) \<Rightarrow> Inr run
      | _ \<Rightarrow> Inl (lit ''CodingAgentRun response kind does not match request operation''))"

definition validate_response_for_request :: "CodingAgentRequest \<Rightarrow> CodingAgentResponse \<Rightarrow> rstr + unit" where
  "validate_response_for_request request response =
     (case (cres_payload response, cres_error response) of
        (None, Some e) \<Rightarrow> validate_coding_agent_error e
      | (Some payload, None) \<Rightarrow>
          (case response_run request payload of
             Inl e \<Rightarrow> Inl e
           | Inr run \<Rightarrow>
               and_then (reject_if (run_id run \<noteq> request_run_id request)
                   (lit ''CodingAgentRun response run_id does not match request''))
                 (validate_coding_agent_run_snapshot run))
      | _ \<Rightarrow> Inl (lit ''CodingAgentRun response must contain exactly one payload or error''))"

section \<open>Merging observations\<close>

definition validate_identity_transition :: "CodingAgentRunSnapshot \<Rightarrow> CodingAgentRunSnapshot \<Rightarrow> rstr + unit" where
  "validate_identity_transition stored incoming =
     reject_if (run_id stored \<noteq> run_id incoming
         \<or> run_intent_fingerprint stored \<noteq> run_intent_fingerprint incoming
         \<or> run_authority_fingerprint stored \<noteq> run_authority_fingerprint incoming
         \<or> run_runtime_project_id stored \<noteq> run_runtime_project_id incoming
         \<or> run_provider_id stored \<noteq> run_provider_id incoming
         \<or> run_provider_instance_id stored \<noteq> run_provider_instance_id incoming
         \<or> run_created_at stored \<noteq> run_created_at incoming)
       (lit ''CodingAgentRun observation identity changed across revisions'')"

definition execution_transition_valid :: "CodingAgentRunSnapshot \<Rightarrow> CodingAgentRunSnapshot \<Rightarrow> bool" where
  "execution_transition_valid stored incoming =
     (case run_execution_state stored of
        ExecNotStarted \<Rightarrow> True
      | ExecOutcomeUnknown \<Rightarrow>
          run_execution_state incoming \<in> {ExecOutcomeUnknown, ExecStarted, ExecCompleted}
          \<or> run_execution_state incoming = ExecNotStarted \<and> run_state incoming \<in> {RunFailed, RunCancelled}
      | ExecStarted \<Rightarrow>
          run_execution_state incoming \<in> {ExecStarted, ExecCompleted}
          \<or> run_execution_state incoming = ExecOutcomeUnknown \<and> run_state incoming = RunLost
      | ExecCompleted \<Rightarrow> False)"

definition validate_coding_agent_run_transition :: "CodingAgentRunSnapshot \<Rightarrow> CodingAgentRunSnapshot \<Rightarrow> rstr + unit" where
  "validate_coding_agent_run_transition stored incoming =
     and_then (reject_if (run_observation_revision incoming \<le> run_observation_revision stored)
         (lit ''CodingAgentRun transition does not advance observation revision''))
    (and_then (reject_if (run_state stored \<in> {RunCompleted, RunFailed, RunCancelled})
         (lit ''definitive terminal CodingAgentRun observation cannot advance to new truth''))
    (and_then (reject_if (run_state stored = RunLost
           \<and> run_state incoming \<notin> {RunLost, RunCompleted, RunFailed, RunCancelled})
         (lit ''lost CodingAgentRun may only reconcile to newer lost or definitive terminal truth''))
    (and_then (reject_if (run_state stored \<noteq> RunStarting \<and> run_state incoming = RunStarting)
         (lit ''CodingAgentRun state cannot regress to starting''))
       (reject_if (\<not> execution_transition_valid stored incoming)
         (lit ''CodingAgentRun execution state regressed across observations'')))))"

definition merge_coding_agent_run_snapshot ::
    "CodingAgentRunSnapshot \<Rightarrow> CodingAgentRunSnapshot \<Rightarrow> rstr + CodingAgentObservationMerge" where
  "merge_coding_agent_run_snapshot stored incoming =
     and_then (validate_coding_agent_run_snapshot stored)
    (and_then (validate_coding_agent_run_snapshot incoming)
    (and_then (validate_identity_transition stored incoming)
       (if run_observation_revision incoming < run_observation_revision stored then Inr Stale
        else if run_observation_revision incoming = run_observation_revision stored then
          (if incoming = stored then Inr ExactReplay
           else Inl (lit ''CodingAgentRun observation revision has conflicting authoritative snapshots''))
        else and_then (validate_coding_agent_run_transition stored incoming) (Inr Advance))))"

text \<open>What an observer retains after an observation: an observation that is stale, repeated or refused changes nothing.\<close>

definition observe_run :: "CodingAgentRunSnapshot \<Rightarrow> CodingAgentRunSnapshot \<Rightarrow> CodingAgentRunSnapshot" where
  "observe_run incoming stored =
     (if merge_coding_agent_run_snapshot stored incoming = Inr Advance then incoming else stored)"

section \<open>The wire vocabulary\<close>

lemmas vocabulary_simps = lit_inject

interpretation run_states: codec run_state_as_str run_state_from_str "\<lambda>s. True"
proof
  fix s show "run_state_from_str (run_state_as_str s) = Some s"
    by (cases s) (simp_all add: run_state_from_str_def vocabulary_simps)
next
  fix v s assume "run_state_from_str v = Some s"
  then show "run_state_as_str s = v \<and> True" by (auto simp: run_state_from_str_def split: if_splits)
qed

interpretation execution_states: codec execution_state_as_str execution_state_from_str "\<lambda>s. True"
proof
  fix s show "execution_state_from_str (execution_state_as_str s) = Some s"
    by (cases s) (simp_all add: execution_state_from_str_def vocabulary_simps)
next
  fix v s assume "execution_state_from_str v = Some s"
  then show "execution_state_as_str s = v \<and> True" by (auto simp: execution_state_from_str_def split: if_splits)
qed

section \<open>What a valid snapshot says\<close>

abbreviation valid_run :: "CodingAgentRunSnapshot \<Rightarrow> bool" where
  "valid_run run \<equiv> validate_coding_agent_run_snapshot run = Inr ()"

text \<open>The pairs of a run state and an execution state that a valid snapshot may have.\<close>

definition state_pairs :: "(CodingAgentRunState \<times> CodingAgentExecutionState) set" where
  "state_pairs = {(RunStarting, ExecNotStarted), (RunRunning, ExecOutcomeUnknown), (RunRunning, ExecStarted),
     (RunWaitingPermission, ExecStarted), (RunCompleted, ExecCompleted), (RunCancelled, ExecNotStarted),
     (RunCancelled, ExecCompleted), (RunFailed, ExecNotStarted), (RunFailed, ExecCompleted), (RunLost, ExecOutcomeUnknown)}"

lemma terminal_for_state_Inr:
  "terminal_for_state run e = Inr t \<longleftrightarrow> run_execution_state run = e \<and> run_terminal run = Some t"
  by (auto simp: terminal_for_state_def split: option.splits)

lemma valid_run_matrix: "valid_run run \<Longrightarrow> validate_state_matrix run = Inr ()"
  by (simp add: validate_coding_agent_run_snapshot_def)

lemma matrix_pair:
  assumes "validate_state_matrix run = Inr ()"
  shows "(run_state run, run_execution_state run) \<in> state_pairs"
    and "run_state_terminal (run_state run) \<longleftrightarrow> run_terminal run \<noteq> None"
  using assms
  by (cases "run_state run"; cases "run_execution_state run";
      auto simp: validate_state_matrix_def state_pairs_def run_state_terminal_def cancelled_truth_def failed_truth_def
        terminal_for_state_def split: option.splits if_splits)+

lemmas valid_run_pair = matrix_pair [OF valid_run_matrix]

section \<open>Observers\<close>

text \<open>A legal successor of a snapshot, and the phase of a run: it has not started, it is active, its outcome is unknown,
  its outcome is known.\<close>

definition legal :: "CodingAgentRunSnapshot \<Rightarrow> CodingAgentRunSnapshot \<Rightarrow> bool" where
  "legal a b \<longleftrightarrow> validate_identity_transition a b = Inr () \<and> validate_coding_agent_run_transition a b = Inr ()"

primrec run_phase :: "CodingAgentRunState \<Rightarrow> nat" where
  "run_phase RunStarting = 0"
| "run_phase RunRunning = 1"
| "run_phase RunWaitingPermission = 1"
| "run_phase RunLost = 2"
| "run_phase RunCompleted = 3"
| "run_phase RunFailed = 3"
| "run_phase RunCancelled = 3"

definition same_run :: "CodingAgentRunSnapshot \<Rightarrow> CodingAgentRunSnapshot \<Rightarrow> bool" where
  "same_run a b \<longleftrightarrow> run_id a = run_id b \<and> run_intent_fingerprint a = run_intent_fingerprint b
     \<and> run_authority_fingerprint a = run_authority_fingerprint b \<and> run_runtime_project_id a = run_runtime_project_id b
     \<and> run_provider_id a = run_provider_id b \<and> run_provider_instance_id a = run_provider_instance_id b
     \<and> run_created_at a = run_created_at b"

lemma identity_transition_iff [simp]: "validate_identity_transition a b = Inr () \<longleftrightarrow> same_run a b"
  by (auto simp: validate_identity_transition_def same_run_def)

lemma same_run_refl [simp]: "same_run a a"
  by (simp add: same_run_def)

lemma same_run_trans [trans]: "same_run a b \<Longrightarrow> same_run b c \<Longrightarrow> same_run a c"
  by (simp add: same_run_def)

lemma transition_iff:
  "validate_coding_agent_run_transition a b = Inr () \<longleftrightarrow>
     run_observation_revision a < run_observation_revision b
     \<and> run_state a \<notin> {RunCompleted, RunFailed, RunCancelled}
     \<and> (run_state a = RunLost \<longrightarrow> run_state b \<in> {RunLost, RunCompleted, RunFailed, RunCancelled})
     \<and> (run_state b = RunStarting \<longrightarrow> run_state a = RunStarting)
     \<and> execution_transition_valid a b"
  by (auto simp: validate_coding_agent_run_transition_def)

lemma advance_iff:
  "merge_coding_agent_run_snapshot a b = Inr Advance \<longleftrightarrow> valid_run a \<and> valid_run b \<and> legal a b"
  by (auto simp: merge_coding_agent_run_snapshot_def legal_def transition_iff)

lemma legal_revision: "legal a b \<Longrightarrow> run_observation_revision a < run_observation_revision b"
  by (simp add: legal_def transition_iff)

lemma legal_same_run: "legal a b \<Longrightarrow> same_run a b"
  by (simp add: legal_def)

lemma legal_phase: "legal a b \<Longrightarrow> run_phase (run_state a) \<le> run_phase (run_state b) \<and> run_phase (run_state a) < 3"
  by (cases "run_state a"; cases "run_state b") (auto simp: legal_def transition_iff)

text \<open>The relation an observation keeps between what was retained before and after.\<close>

definition run_follows :: "CodingAgentRunSnapshot \<Rightarrow> CodingAgentRunSnapshot \<Rightarrow> bool" where
  "run_follows a b \<longleftrightarrow> same_run a b \<and> run_observation_revision a \<le> run_observation_revision b
     \<and> run_phase (run_state a) \<le> run_phase (run_state b)
     \<and> (run_phase (run_state a) = 3 \<or> run_observation_revision a = run_observation_revision b \<longrightarrow> a = b)"

lemma run_follows_refl [simp]: "run_follows a a"
  by (simp add: run_follows_def)

lemma run_follows_trans: "run_follows a b \<Longrightarrow> run_follows b c \<Longrightarrow> run_follows a c"
proof -
  assume ab: "run_follows a b" and bc: "run_follows b c"
  have "a = c" if "run_phase (run_state a) = 3 \<or> run_observation_revision a = run_observation_revision c"
  proof -
    have "run_phase (run_state a) = 3 \<or> run_observation_revision a = run_observation_revision b"
      using that ab bc unfolding run_follows_def by linarith
    then have "a = b" using ab unfolding run_follows_def by blast
    then show ?thesis using that bc unfolding run_follows_def by blast
  qed
  then show ?thesis using ab bc unfolding run_follows_def by (auto intro: same_run_trans order_trans)
qed

lemma legal_follows: "legal a b \<Longrightarrow> run_follows a b"
  using legal_phase [of a b] legal_revision [of a b] legal_same_run [of a b] by (auto simp: run_follows_def)

lemma observe_run_follows: "run_follows stored (observe_run incoming stored)"
  by (simp add: observe_run_def advance_iff legal_follows)

lemma observe_run_valid: "valid_run stored \<Longrightarrow> valid_run (observe_run incoming stored)"
  by (simp add: observe_run_def advance_iff)

interpretation observer: monotone_machine observe_run valid_run run_observation_revision
  using observe_run_follows by unfold_locales (auto simp: observe_run_valid run_follows_def)

lemma observe_runs_follow: "run_follows stored (fold observe_run incoming stored)"
proof (induction incoming arbitrary: stored)
  case (Cons s rest)
  from run_follows_trans [OF observe_run_follows Cons.IH] show ?case by simp
qed simp

section \<open>Delivery in any order\<close>

text \<open>A history of a run: valid snapshots, each a legal successor of every earlier one.\<close>

definition run_history :: "CodingAgentRunSnapshot list \<Rightarrow> bool" where
  "run_history h \<longleftrightarrow> list_all valid_run h \<and> sorted_wrt legal h"

lemma run_history_cases:
  assumes "run_history h" "a \<in> set h" "b \<in> set h"
  shows "a = b \<or> legal a b \<or> legal b a"
proof -
  obtain i j where ij: "i < length h" "h ! i = a" "j < length h" "h ! j = b" using assms by (metis in_set_conv_nth)
  have "sorted_wrt legal h" using assms by (simp add: run_history_def)
  then show ?thesis using ij sorted_wrt_nth_less [of legal h i j] sorted_wrt_nth_less [of legal h j i]
    by (metis linorder_neqE_nat)
qed

lemma observe_run_newest:
  assumes "run_history h" "s \<in> set h" "d \<in> set h"
  shows "observe_run d s = (if run_observation_revision s < run_observation_revision d then d else s)"
proof -
  have valid: "valid_run s" "valid_run d" using assms by (auto simp: run_history_def list_all_iff)
  from run_history_cases [OF assms] show ?thesis
    using valid legal_revision [of s d] legal_revision [of d s] by (auto simp: observe_run_def advance_iff)
qed

lemma deliveries_converge:
  assumes "run_history h" "s \<in> set h" "set ds \<subseteq> set h"
  shows "fold observe_run ds s \<in> set (s # ds)
     \<and> (\<forall>d \<in> set (s # ds). run_observation_revision d \<le> run_observation_revision (fold observe_run ds s))"
  using assms
proof (induction ds arbitrary: s)
  case (Cons d ds)
  let ?s = "observe_run d s"
  have d: "d \<in> set h" using Cons.prems by simp
  have step: "?s = (if run_observation_revision s < run_observation_revision d then d else s)"
    by (rule observe_run_newest) (use Cons.prems d in auto)
  have "?s \<in> set h" using step Cons.prems d by simp
  from Cons.IH [OF Cons.prems(1) this] Cons.prems(3)
  have rest: "fold observe_run ds ?s \<in> set (?s # ds)"
    "\<forall>x \<in> set (?s # ds). run_observation_revision x \<le> run_observation_revision (fold observe_run ds ?s)" by auto
  have "run_observation_revision s \<le> run_observation_revision ?s" "run_observation_revision d \<le> run_observation_revision ?s"
    using step by auto
  moreover have "run_observation_revision ?s \<le> run_observation_revision (fold observe_run ds ?s)" using rest by simp
  moreover have "?s \<in> {s, d}" using step by simp
  ultimately show ?case using rest by auto
qed simp

text \<open>Skipping a snapshot of a stepwise legal sequence is legal, except when the one that is skipped is the loss of a run
  that had started and that turns out not to have started.\<close>

lemma started_pairs:
  assumes "valid_run run"
  shows "run_execution_state run = ExecNotStarted \<Longrightarrow> run_state run \<in> {RunStarting, RunFailed, RunCancelled}"
    and "run_execution_state run = ExecOutcomeUnknown \<Longrightarrow> run_state run \<in> {RunRunning, RunLost}"
    and "run_state run = RunStarting \<Longrightarrow> run_execution_state run = ExecNotStarted"
    and "run_state run = RunLost \<Longrightarrow> run_execution_state run = ExecOutcomeUnknown"
  using valid_run_pair(1) [OF assms] by (auto simp: state_pairs_def)

lemma legal_states:
  assumes "legal a b" "legal b c"
  shows "run_state a \<notin> {RunCompleted, RunFailed, RunCancelled}"
    "run_state a = RunLost \<longrightarrow> run_state c \<in> {RunLost, RunCompleted, RunFailed, RunCancelled}"
    "run_state c = RunStarting \<longrightarrow> run_state a = RunStarting"
  using assms by (auto simp: legal_def transition_iff)

lemma skipped_execution:
  assumes valid: "valid_run a" "valid_run b" "valid_run c" and legal: "legal a b" "legal b c"
  shows "execution_transition_valid a c \<longleftrightarrow> \<not> (run_execution_state a = ExecStarted \<and> run_execution_state c = ExecNotStarted)"
proof -
  note ab = legal(1) [unfolded legal_def transition_iff] and bc = legal(2) [unfolded legal_def transition_iff]
  show ?thesis
  proof (cases "run_execution_state a")
    case ExecNotStarted then show ?thesis by (simp add: execution_transition_valid_def)
  next
    case ExecCompleted then show ?thesis using ab by (simp add: execution_transition_valid_def)
  next
    case ExecOutcomeUnknown
    then have "run_state a \<noteq> RunStarting" using started_pairs(3) [OF valid(1)] by auto
    then have "run_state c \<noteq> RunStarting" using legal_states(3) [OF legal] by simp
    then show ?thesis using ExecOutcomeUnknown started_pairs(1) [OF valid(3)]
      by (cases "run_execution_state c") (auto simp: execution_transition_valid_def)
  next
    case ExecStarted
    have "run_state c = RunLost" if "run_execution_state c = ExecOutcomeUnknown"
    proof (cases "run_state b = RunLost")
      case True
      then show ?thesis using bc started_pairs(2) [OF valid(3) that] by auto
    next
      case False
      then have "run_execution_state b = ExecStarted" using ab bc ExecStarted
        by (cases "run_execution_state b") (auto simp: execution_transition_valid_def)
      then show ?thesis using bc that by (simp add: execution_transition_valid_def)
    qed
    then show ?thesis using ExecStarted by (cases "run_execution_state c") (auto simp: execution_transition_valid_def)
  qed
qed

lemma skipping_is_legal_iff:
  assumes "valid_run a" "valid_run b" "valid_run c" "legal a b" "legal b c"
  shows "legal a c \<longleftrightarrow> \<not> (run_execution_state a = ExecStarted \<and> run_execution_state c = ExecNotStarted)"
proof -
  have same: "same_run a c" using assms legal_same_run same_run_trans by blast
  have "run_observation_revision a < run_observation_revision c"
    using legal_revision [OF assms(4)] legal_revision [OF assms(5)] by simp
  then show ?thesis using same skipped_execution [OF assms] legal_states [OF assms(4,5)]
    by (simp add: legal_def transition_iff)
qed

section \<open>Responses\<close>

lemma validate_events_sorted:
  "validate_events previous es = Inr () \<Longrightarrow>
     sorted_wrt (<) (map ev_sequence es) \<and> (\<forall>e \<in> set es. \<forall>s. previous = Some s \<longrightarrow> s < ev_sequence e)
     \<and> list_all (\<lambda>e. \<not> longer_than CODING_AGENT_MAX_EVENT_TEXT_BYTES (ev_text e) \<and> \<not> event_metadata_too_large e) es"
proof (induction es arbitrary: previous)
  case (Cons e es)
  from Cons.prems have rest: "validate_events (Some (ev_sequence e)) es = Inr ()"
    and e: "\<not> longer_than CODING_AGENT_MAX_EVENT_TEXT_BYTES (ev_text e)" "\<not> event_metadata_too_large e"
      "\<not> opt_ex (\<lambda>s. ev_sequence e \<le> s) previous" by (auto split: if_splits)
  from Cons.IH [OF rest] e show ?case by (cases previous) fastforce+
qed simp

section \<open>Properties\<close>

definition sample_run :: CodingAgentRunSnapshot where
  "sample_run = \<lparr>run_id = lit ''wc_agent_run_1'', run_intent_fingerprint = lit ''i'', run_authority_fingerprint = lit ''auth_1'',
     run_runtime_project_id = lit ''agent:r:p'', run_provider_id = lit ''p'', run_provider_instance_id = lit ''P1'',
     run_state = RunStarting, run_execution_state = ExecNotStarted, run_observation_revision = 1, run_created_at = 0,
     run_updated_at = 0, run_terminal = None\<rparr>"

definition ended_by :: "rstr option \<Rightarrow> rstr option \<Rightarrow> CodingAgentTerminal" where
  "ended_by reason code = \<lparr>term_stop_reason = reason, term_error_code = code, term_message = None, term_completed_at = 9\<rparr>"

definition sample_started :: CodingAgentRunSnapshot where
  "sample_started = sample_run\<lparr>run_state := RunRunning, run_execution_state := ExecStarted, run_observation_revision := 2\<rparr>"

definition sample_completed :: CodingAgentRunSnapshot where
  "sample_completed = sample_run\<lparr>run_state := RunCompleted, run_execution_state := ExecCompleted,
     run_observation_revision := 5, run_terminal := Some (ended_by (Some CODING_AGENT_STOP_REASON_END_TURN) None)\<rparr>"

definition sample_lost :: CodingAgentRunSnapshot where
  "sample_lost = sample_run\<lparr>run_state := RunLost, run_execution_state := ExecOutcomeUnknown,
     run_observation_revision := 3, run_terminal := Some (ended_by None (Some (lit ''lost'')))\<rparr>"

definition sample_unstarted :: CodingAgentRunSnapshot where
  "sample_unstarted = sample_run\<lparr>run_state := RunFailed, run_execution_state := ExecNotStarted,
     run_observation_revision := 4, run_terminal := Some (ended_by None (Some (lit ''failed'')))\<rparr>"

lemmas sample_run_defs = sample_run_def sample_started_def sample_completed_def sample_lost_def sample_unstarted_def ended_by_def

lemmas run_validation_defs = validate_coding_agent_run_snapshot_def validate_run_id_def validate_intent_fingerprint_def
  validate_authority_fingerprint_def validate_provider_id_def validate_provider_instance_id_def validate_identifier_def
  identifier_byte_def is_ascii_lowercase_def is_ascii_alphanumeric_def is_ascii_digit_def
  CODING_AGENT_MAX_RUN_ID_BYTES_def CODING_AGENT_MAX_INTENT_FINGERPRINT_BYTES_def CODING_AGENT_MAX_PROVIDER_ID_BYTES_def
  CODING_AGENT_MAX_PROJECT_ID_BYTES_def validate_terminal_bounds_def CODING_AGENT_MAX_TERMINAL_METADATA_BYTES_def
  validate_low_cardinality_kind_def validate_state_matrix_def terminal_for_state_def failed_truth_def
  CODING_AGENT_STOP_REASON_END_TURN_def

lemma sample_runs_valid:
  "valid_run sample_run" "valid_run sample_started" "valid_run sample_completed" "valid_run sample_lost" "valid_run sample_unstarted"
  by (simp_all add: sample_run_defs run_validation_defs str_simps)

lemma sample_runs_legal:
  "legal sample_run sample_started" "legal sample_run sample_completed" "legal sample_started sample_completed"
  "legal sample_started sample_lost" "legal sample_lost sample_unstarted"
  by (simp_all add: sample_run_defs legal_def transition_iff same_run_def execution_transition_valid_def)

lemma sample_history: "run_history [sample_run, sample_started, sample_completed]"
  by (simp add: run_history_def sample_runs_valid sample_runs_legal)

text \<open>C11: An observer of a coding-agent run only moves forward. Whatever snapshots it receives, in any order, valid or
  not, of this run or of another one, what it retains stays valid and belongs to the same run, with the same intent,
  authority, project and provider; its revision and its phase (starting, active, lost, definitive) never go down; and once
  the outcome is definitive, or as long as the revision is the same, the snapshot does not change.\<close>

theorem run_observers_move_forward:
  assumes "valid_run stored"
  shows "valid_run (fold observe_run incoming stored) \<and> run_follows stored (fold observe_run incoming stored)"
  using observer.run_inv [OF assms] observe_runs_follow by blast

theorem run_observers_move_forward_witness:
  "fold observe_run [sample_completed, sample_started] sample_run = sample_completed
     \<and> run_follows sample_run (fold observe_run [sample_completed, sample_started] sample_run)"
proof -
  have "observe_run sample_completed sample_run = sample_completed"
    by (simp add: observe_run_def advance_iff sample_runs_valid sample_runs_legal)
  moreover have "observe_run sample_started sample_completed = sample_completed"
    using observe_run_newest [OF sample_history, of sample_completed sample_started] by (simp add: sample_run_defs)
  ultimately show ?thesis
    using run_observers_move_forward [OF sample_runs_valid(1), of "[sample_completed, sample_started]"] by simp
qed

text \<open>Observers converge whatever the delivery. When the snapshots of a run are a history, in which each is a legal
  successor of every earlier one, an observer that holds one of them and then receives any of them, in any order, some
  repeatedly and some never, retains the newest one it has seen.\<close>

theorem run_deliveries_converge:
  assumes "run_history h" "s \<in> set h" "set ds \<subseteq> set h"
  shows "fold observe_run ds s \<in> set (s # ds)
     \<and> (\<forall>d \<in> set (s # ds). run_observation_revision d \<le> run_observation_revision (fold observe_run ds s))"
  by (rule deliveries_converge [OF assms])

theorem run_deliveries_converge_witness:
  "run_observation_revision (fold observe_run [sample_completed, sample_run] sample_started) = 5"
proof -
  have "fold observe_run [sample_completed, sample_run] sample_started \<in> set [sample_started, sample_completed, sample_run]"
    "run_observation_revision sample_completed
       \<le> run_observation_revision (fold observe_run [sample_completed, sample_run] sample_started)"
    using run_deliveries_converge [OF sample_history, of sample_started "[sample_completed, sample_run]"] by auto
  then show ?thesis by (auto simp: sample_run_defs)
qed

text \<open>An observer may miss observations, but not always. When a run moves from one snapshot to a second and from there
  to a third, each time accepted by the merge, an observer that misses the second accepts the third exactly when it does
  not go from a run that had started to one that never started. That case exists: a started run that is lost and then
  found not to have started is accepted step by step, and refused as a regression by an observer that has not seen the
  loss, although the validator is documented to permit skipped revisions.\<close>

theorem skipped_run_observations:
  assumes "merge_coding_agent_run_snapshot a b = Inr Advance" "merge_coding_agent_run_snapshot b c = Inr Advance"
  shows "merge_coding_agent_run_snapshot a c = Inr Advance
     \<longleftrightarrow> \<not> (run_execution_state a = ExecStarted \<and> run_execution_state c = ExecNotStarted)"
  using skipping_is_legal_iff [of a b c] assms by (simp add: advance_iff)

theorem skipped_run_observations_witness:
  "merge_coding_agent_run_snapshot sample_started sample_lost = Inr Advance
     \<and> merge_coding_agent_run_snapshot sample_lost sample_unstarted = Inr Advance
     \<and> merge_coding_agent_run_snapshot sample_started sample_unstarted \<noteq> Inr Advance"
proof -
  have "merge_coding_agent_run_snapshot sample_started sample_lost = Inr Advance"
    "merge_coding_agent_run_snapshot sample_lost sample_unstarted = Inr Advance"
    by (simp_all add: advance_iff sample_runs_valid sample_runs_legal)
  then show ?thesis using skipped_run_observations [of sample_started sample_lost sample_unstarted]
    by (simp add: sample_run_defs)
qed

end
