(* ===== verification/Coding_Agent_Server.thy ===== *)
theory Coding_Agent_Server
  imports Coding_Agent
begin

text \<open>
  The bindings the Server keeps for coding-agent runs (\<open>src/tool_runtime/coding_agent.rs\<close>): one snapshot per run, merged
  from what the owning Runner reports, pruned once terminal, closed as lost when the Runner or its provider was replaced,
  and reported to the recording session at most once per kind of evidence. Each operation takes the lock once, so it is a
  function on the map; the clock readings and the answers of the Runner registry are its arguments. \<open>order\<close> is the order in
  which the hash map is iterated.
\<close>

unbundle bit_operations_syntax

definition SERVER_TERMINAL_RETENTION_SECS :: int where "SERVER_TERMINAL_RETENTION_SECS = 15 * 60"
definition SERVER_MAX_TERMINAL_RUNS :: nat where "SERVER_MAX_TERMINAL_RUNS = CODING_AGENT_MAX_INVENTORY_RUNS"

record ServerRunBinding =
  sb_authority_fingerprint :: rstr
  sb_client_id :: rstr
  sb_runner_instance_id :: rstr
  sb_runtime_project_id :: rstr
  sb_provider_id :: rstr
  sb_provider_instance_id :: rstr
  sb_recording_session_id :: "rstr option"
  sb_recorded_lifecycle_mask :: "8 word"
  sb_snapshot :: CodingAgentRunSnapshot

type_synonym runs = "rstr \<rightharpoonup> ServerRunBinding"
type_synonym runs_order = "runs \<Rightarrow> rstr list"

text \<open>Of a Runner view: its client id and its instance.\<close>

type_synonym runner_view = "rstr \<times> rstr"

section \<open>Operations\<close>

definition binding_terminal :: "ServerRunBinding \<Rightarrow> bool" where
  "binding_terminal b \<longleftrightarrow> run_state_terminal (run_state (sb_snapshot b))"

definition retain_runs :: "int \<Rightarrow> runs \<Rightarrow> runs" where
  "retain_runs now runs =
     (let cutoff = i64_sat_sub now SERVER_TERMINAL_RETENTION_SECS in
      (\<lambda>k. case runs k of
             None \<Rightarrow> None
           | Some b \<Rightarrow> if \<not> binding_terminal b \<or> cutoff \<le> run_updated_at (sb_snapshot b) then Some b else None))"

definition terminal_runs :: "runs_order \<Rightarrow> runs \<Rightarrow> (rstr \<times> int) list" where
  "terminal_runs order runs =
     List.map_filter (\<lambda>k. case runs k of
         None \<Rightarrow> None
       | Some b \<Rightarrow> if binding_terminal b then Some (k, run_updated_at (sb_snapshot b)) else None) (order runs)"

definition remove_runs :: "rstr set \<Rightarrow> runs \<Rightarrow> runs" where
  "remove_runs ks runs = (\<lambda>k. if k \<in> ks then None else runs k)"

definition prune_server_runs_locked :: "runs_order \<Rightarrow> int \<Rightarrow> runs \<Rightarrow> runs" where
  "prune_server_runs_locked order now runs0 =
     (let runs = retain_runs now runs0;
          terminals = terminal_runs order runs in
      if length terminals \<le> SERVER_MAX_TERMINAL_RUNS then runs
      else remove_runs (set (map fst (take (length terminals - SERVER_MAX_TERMINAL_RUNS) (sort_key snd terminals)))) runs)"

definition run_matches_binding_identity :: "ServerRunBinding \<Rightarrow> CodingAgentRunSnapshot \<Rightarrow> bool" where
  "run_matches_binding_identity b run \<longleftrightarrow> run_id run = run_id (sb_snapshot b)
     \<and> run_authority_fingerprint run = sb_authority_fingerprint b
     \<and> run_intent_fingerprint run = run_intent_fingerprint (sb_snapshot b)
     \<and> run_runtime_project_id run = sb_runtime_project_id b
     \<and> run_provider_id run = sb_provider_id b
     \<and> run_provider_instance_id run = sb_provider_instance_id b"

definition first_some :: "'a option \<Rightarrow> 'a option \<Rightarrow> 'a option" where
  "first_some a b = (case a of None \<Rightarrow> b | Some x \<Rightarrow> Some x)"

definition merge_server_run_binding_locked :: "ServerRunBinding \<Rightarrow> runs \<Rightarrow> (rstr + ServerRunBinding) \<times> runs" where
  "merge_server_run_binding_locked incoming runs =
     (let k = run_id (sb_snapshot incoming) in
      case runs k of
        None \<Rightarrow>
          (case validate_coding_agent_run_snapshot (sb_snapshot incoming) of
             Inl e \<Rightarrow> (Inl e, runs)
           | Inr _ \<Rightarrow> (Inr incoming, runs(k \<mapsto> incoming)))
      | Some existing \<Rightarrow>
          (case merge_coding_agent_run_snapshot (sb_snapshot existing) (sb_snapshot incoming) of
             Inl e \<Rightarrow> (Inl e, runs)
           | Inr Advance \<Rightarrow>
               (let merged = incoming\<lparr>sb_recording_session_id :=
                      first_some (sb_recording_session_id existing) (sb_recording_session_id incoming),
                    sb_recorded_lifecycle_mask := sb_recorded_lifecycle_mask existing\<rparr>
                in (Inr merged, runs(k \<mapsto> merged)))
           | Inr _ \<Rightarrow>
               (let kept = existing\<lparr>sb_recording_session_id :=
                      first_some (sb_recording_session_id existing) (sb_recording_session_id incoming)\<rparr>
                in (Inr kept, runs(k \<mapsto> kept)))))"

definition new_binding :: "runner_view \<Rightarrow> CodingAgentRunSnapshot \<Rightarrow> rstr option \<Rightarrow> ServerRunBinding" where
  "new_binding client run session =
     \<lparr>sb_authority_fingerprint = run_authority_fingerprint run, sb_client_id = fst client,
      sb_runner_instance_id = snd client, sb_runtime_project_id = run_runtime_project_id run,
      sb_provider_id = run_provider_id run, sb_provider_instance_id = run_provider_instance_id run,
      sb_recording_session_id = session, sb_recorded_lifecycle_mask = 0, sb_snapshot = run\<rparr>"

definition bind_run ::
    "runs_order \<Rightarrow> int \<Rightarrow> runner_view \<Rightarrow> CodingAgentRunSnapshot \<Rightarrow> rstr option \<Rightarrow> runs \<Rightarrow> (rstr + ServerRunBinding) \<times> runs" where
  "bind_run order now client run session runs =
     merge_server_run_binding_locked (new_binding client run session) (prune_server_runs_locked order now runs)"

definition lost_message :: rstr where
  "lost_message = lit ''owning Runner/provider instance was replaced while prompt outcome was uncertain; do not redispatch''"

definition mark_server_binding_lost :: "int \<Rightarrow> rstr \<Rightarrow> ServerRunBinding \<Rightarrow> rstr + ServerRunBinding" where
  "mark_server_binding_lost completed_at code b =
     (if binding_terminal b then Inr b
      else (case checked_add (run_observation_revision (sb_snapshot b)) 1 of
          None \<Rightarrow> Inl (lit ''CodingAgentRun observation revision is exhausted'')
        | Some next_revision \<Rightarrow> Inr (b\<lparr>sb_snapshot := (sb_snapshot b)\<lparr>run_state := RunLost,
            run_execution_state := ExecOutcomeUnknown, run_updated_at := completed_at,
            run_observation_revision := next_revision,
            run_terminal := Some \<lparr>term_stop_reason = None, term_error_code = Some code,
              term_message = Some lost_message, term_completed_at = completed_at\<rparr>\<rparr>\<rparr>)))"

definition mark_lost ::
    "runs_order \<Rightarrow> int \<Rightarrow> int \<Rightarrow> rstr \<Rightarrow> rstr \<Rightarrow> runs \<Rightarrow> (rstr + ServerRunBinding option) \<times> runs" where
  "mark_lost order now completed_at k code runs0 =
     (let runs = prune_server_runs_locked order now runs0 in
      case runs k of
        None \<Rightarrow> (Inr None, runs)
      | Some current \<Rightarrow>
          if binding_terminal current then (Inr (Some current), runs)
          else (case mark_server_binding_lost completed_at code current of
              Inl e \<Rightarrow> (Inl e, runs)
            | Inr lost \<Rightarrow> map_prod (map_sum id Some) id (merge_server_run_binding_locked lost runs)))"

definition merge_bound_snapshot ::
    "runs_order \<Rightarrow> int \<Rightarrow> ServerRunBinding \<Rightarrow> CodingAgentRunSnapshot \<Rightarrow> runs \<Rightarrow> (rstr + ServerRunBinding) \<times> runs" where
  "merge_bound_snapshot order now b run runs =
     merge_server_run_binding_locked (b\<lparr>sb_snapshot := run\<rparr>) (prune_server_runs_locked order now runs)"

definition attach_recorder :: "runs_order \<Rightarrow> int \<Rightarrow> rstr \<Rightarrow> rstr option \<Rightarrow> runs \<Rightarrow> runs" where
  "attach_recorder order now k session runs0 =
     (case session of
        None \<Rightarrow> runs0
      | Some _ \<Rightarrow>
          (let runs = prune_server_runs_locked order now runs0 in
           case runs k of
             None \<Rightarrow> runs
           | Some b \<Rightarrow> if sb_recording_session_id b = None then runs(k \<mapsto> b\<lparr>sb_recording_session_id := session\<rparr>) else runs))"

primrec lifecycle_evidence :: "CodingAgentRunState \<Rightarrow> 8 word \<times> rstr" where
  "lifecycle_evidence RunStarting = (1, lit ''coding_agent_started'')"
| "lifecycle_evidence RunRunning = (1, lit ''coding_agent_started'')"
| "lifecycle_evidence RunWaitingPermission = (2, lit ''coding_agent_waiting_permission'')"
| "lifecycle_evidence RunCompleted = (4, lit ''coding_agent_terminal'')"
| "lifecycle_evidence RunFailed = (4, lit ''coding_agent_terminal'')"
| "lifecycle_evidence RunCancelled = (4, lit ''coding_agent_terminal'')"
| "lifecycle_evidence RunLost = (4, lit ''coding_agent_terminal'')"

definition take_lifecycle_evidence ::
    "runs_order \<Rightarrow> int \<Rightarrow> rstr \<Rightarrow> runs \<Rightarrow> (rstr \<times> CodingAgentRunSnapshot \<times> rstr) option \<times> runs" where
  "take_lifecycle_evidence order now k runs0 =
     (let runs = prune_server_runs_locked order now runs0 in
      case runs k of
        None \<Rightarrow> (None, runs)
      | Some b \<Rightarrow>
          (case sb_recording_session_id b of
             None \<Rightarrow> (None, runs)
           | Some session \<Rightarrow>
               (case lifecycle_evidence (run_state (sb_snapshot b)) of (flag, kind) \<Rightarrow>
                  if sb_recorded_lifecycle_mask b AND flag \<noteq> 0 then (None, runs)
                  else (Some (session, sb_snapshot b, kind),
                        runs(k \<mapsto> b\<lparr>sb_recorded_lifecycle_mask := sb_recorded_lifecycle_mask b OR flag\<rparr>)))))"

definition get_run :: "runs_order \<Rightarrow> int \<Rightarrow> rstr \<Rightarrow> runs \<Rightarrow> ServerRunBinding option \<times> runs" where
  "get_run order now k runs0 = (let runs = prune_server_runs_locked order now runs0 in (runs k, runs))"

section \<open>Reconciliation\<close>

text \<open>What the Runner registry answers while a run is reconciled: the run the bound Runner advertises, the bound Runner
  with the instances of its providers, and the run a unique visible Runner advertises.\<close>

record registry_answers =
  ans_bound_run :: "(runner_view \<times> CodingAgentRunSnapshot) option"
  ans_bound_runner :: "(rstr \<times> rstr list) option"
  ans_any_run :: "(runner_view \<times> CodingAgentRunSnapshot) option"

definition reconcile_bound ::
    "runs_order \<Rightarrow> (nat \<Rightarrow> int) \<Rightarrow> rstr \<Rightarrow> rstr \<Rightarrow> registry_answers \<Rightarrow> ServerRunBinding \<Rightarrow> runs
       \<Rightarrow> (rstr + ServerRunBinding option) \<times> runs" where
  "reconcile_bound order clock k authority answers b runs =
     (case ans_bound_run answers of
        Some (client, run) \<Rightarrow>
          if run_authority_fingerprint run \<noteq> authority then (Inr None, runs)
          else if \<not> run_matches_binding_identity b run
            then mark_lost order (clock 1) (clock 2) k (lit ''coding_agent_identity_changed_uncertain'') runs
          else if snd client \<noteq> sb_runner_instance_id b \<and> \<not> run_state_terminal (run_state run)
            then mark_lost order (clock 1) (clock 2) k (lit ''runner_replaced_uncertain'') runs
          else map_prod (map_sum id Some) id (bind_run order (clock 1) client run None runs)
      | None \<Rightarrow>
          if binding_terminal b then (Inr (Some b), runs)
          else (case ans_bound_runner answers of
              None \<Rightarrow> apfst Inr (get_run order (clock 1) k runs)
            | Some (runner_instance, provider_instances) \<Rightarrow>
                if runner_instance \<noteq> sb_runner_instance_id b
                  then mark_lost order (clock 1) (clock 2) k (lit ''runner_replaced_uncertain'') runs
                else if sb_provider_instance_id b \<notin> set provider_instances
                  then mark_lost order (clock 1) (clock 2) k (lit ''provider_replaced_uncertain'') runs
                else apfst Inr (get_run order (clock 1) k runs)))"

definition reconcile_run ::
    "runs_order \<Rightarrow> (nat \<Rightarrow> int) \<Rightarrow> rstr \<Rightarrow> rstr \<Rightarrow> registry_answers \<Rightarrow> runs \<Rightarrow> (rstr + ServerRunBinding option) \<times> runs" where
  "reconcile_run order clock k authority answers runs0 =
     (case get_run order (clock 0) k runs0 of
        (Some b, runs) \<Rightarrow>
          if sb_authority_fingerprint b \<noteq> authority then (Inr None, runs)
          else reconcile_bound order clock k authority answers b runs
      | (None, runs) \<Rightarrow>
          (case ans_any_run answers of
             None \<Rightarrow> (Inr None, runs)
           | Some (client, run) \<Rightarrow>
               if run_authority_fingerprint run \<noteq> authority then (Inr None, runs)
               else map_prod (map_sum id Some) id (bind_run order (clock 1) client run None runs)))"

section \<open>Pruning\<close>

text \<open>The keys of a hash map are iterated once each.\<close>

definition runs_iterate :: "runs_order \<Rightarrow> bool" where
  "runs_iterate order \<longleftrightarrow> (\<forall>m. finite (dom m) \<longrightarrow> distinct (order m) \<and> set (order m) = dom m)"

definition terminal_keys :: "runs \<Rightarrow> rstr set" where
  "terminal_keys runs = {k. \<exists>b. runs k = Some b \<and> binding_terminal b}"

lemma retain_runs_Some: "retain_runs now runs k = Some b \<Longrightarrow> runs k = Some b"
  by (auto simp: retain_runs_def Let_def split: option.splits if_splits)

lemma retain_runs_active: "runs k = Some b \<Longrightarrow> \<not> binding_terminal b \<Longrightarrow> retain_runs now runs k = Some b"
  by (simp add: retain_runs_def Let_def)

lemma terminal_runs_keys: "k \<in> set (map fst (terminal_runs order runs)) \<Longrightarrow> k \<in> terminal_keys runs"
  by (fastforce simp: terminal_runs_def map_filter_def terminal_keys_def split: option.splits if_splits)

lemma prune_cases:
  assumes "runs k = Some b"
  shows "prune_server_runs_locked order now runs k = Some b
    \<or> prune_server_runs_locked order now runs k = None \<and> binding_terminal b"
proof (cases "binding_terminal b")
  case True
  then show ?thesis using assms
    by (auto simp: prune_server_runs_locked_def retain_runs_def remove_runs_def Let_def)
next
  case False
  then have kept: "retain_runs now runs k = Some b" using assms by (simp add: retain_runs_active)
  let ?ts = "terminal_runs order (retain_runs now runs)"
  have "k \<notin> set (map fst (take n (sort_key snd ?ts)))" for n
  proof
    assume "k \<in> set (map fst (take n (sort_key snd ?ts)))"
    then have "k \<in> set (map fst ?ts)" using set_take_subset [of n "sort_key snd ?ts"] by auto
    then show False using terminal_runs_keys kept False by (force simp: terminal_keys_def)
  qed
  then show ?thesis using kept by (simp add: prune_server_runs_locked_def remove_runs_def Let_def)
qed

lemma prune_Some: "prune_server_runs_locked order now runs k = Some b \<Longrightarrow> runs k = Some b"
  by (auto simp: prune_server_runs_locked_def remove_runs_def Let_def dest: retain_runs_Some split: if_splits)

lemma prune_dom: "dom (prune_server_runs_locked order now runs) \<subseteq> dom runs"
  using prune_Some by fastforce

section \<open>The bindings as a state machine\<close>

text \<open>A binding agrees with the run it holds.\<close>

definition binding_ok :: "rstr \<Rightarrow> ServerRunBinding \<Rightarrow> bool" where
  "binding_ok k b \<longleftrightarrow> run_id (sb_snapshot b) = k \<and> valid_run (sb_snapshot b) \<and> run_matches_binding_identity b (sb_snapshot b)"

definition runs_ok :: "runs \<Rightarrow> bool" where
  "runs_ok runs \<longleftrightarrow> finite (dom runs) \<and> (\<forall>k b. runs k = Some b \<longrightarrow> binding_ok k b)"

text \<open>The sections that hold the lock. A cancelled run is merged only after its identity was compared with the binding.\<close>

datatype run_op =
  BindRun int runner_view CodingAgentRunSnapshot "rstr option"
| MarkLost int int rstr rstr
| MergeBound int ServerRunBinding CodingAgentRunSnapshot
| AttachRecorder int rstr "rstr option"
| TakeEvidence int rstr
| GetRun int rstr

primrec run_step :: "runs_order \<Rightarrow> run_op \<Rightarrow> runs \<Rightarrow> runs" where
  "run_step order (BindRun now client run session) runs = snd (bind_run order now client run session runs)"
| "run_step order (MarkLost now completed_at k code) runs = snd (mark_lost order now completed_at k code runs)"
| "run_step order (MergeBound now b run) runs =
     (if run_matches_binding_identity b run then snd (merge_bound_snapshot order now b run runs) else runs)"
| "run_step order (AttachRecorder now k session) runs = attach_recorder order now k session runs"
| "run_step order (TakeEvidence now k) runs = snd (take_lifecycle_evidence order now k runs)"
| "run_step order (GetRun now k) runs = snd (get_run order now k runs)"

text \<open>What a step may do to a binding that is there before and after it.\<close>

definition binding_follows :: "ServerRunBinding \<Rightarrow> ServerRunBinding \<Rightarrow> bool" where
  "binding_follows b b' \<longleftrightarrow> run_follows (sb_snapshot b) (sb_snapshot b')
     \<and> (sb_recording_session_id b \<noteq> None \<longrightarrow> sb_recording_session_id b' = sb_recording_session_id b)
     \<and> (\<forall>flag. sb_recorded_lifecycle_mask b AND flag \<noteq> 0 \<longrightarrow> sb_recorded_lifecycle_mask b' AND flag \<noteq> 0)"

lemma binding_follows_refl [simp]: "binding_follows b b"
  by (simp add: binding_follows_def)

lemma binding_follows_trans: "binding_follows a b \<Longrightarrow> binding_follows b c \<Longrightarrow> binding_follows a c"
  unfolding binding_follows_def using run_follows_trans by metis

text \<open>The effect of a step on the bindings that its pruning keeps: each is there afterwards and follows the old one.\<close>

definition runs_advance :: "runs \<Rightarrow> runs \<Rightarrow> bool" where
  "runs_advance runs runs' \<longleftrightarrow> runs_ok runs' \<and> (\<forall>k b. runs k = Some b \<longrightarrow> (\<exists>b'. runs' k = Some b' \<and> binding_follows b b'))"

lemma runs_advance_refl: "runs_ok runs \<Longrightarrow> runs_advance runs runs"
  by (simp add: runs_advance_def)

lemma runs_ok_prune: "runs_ok runs \<Longrightarrow> runs_ok (prune_server_runs_locked order now runs)"
  using prune_dom [of order now runs] unfolding runs_ok_def by (meson finite_subset prune_Some)

lemma runs_advance_put:
  assumes "runs_ok runs" "binding_ok k b'" "\<And>b. runs k = Some b \<Longrightarrow> binding_follows b b'"
  shows "runs_advance runs (runs(k \<mapsto> b'))"
  using assms unfolding runs_advance_def runs_ok_def by auto

lemma binding_ok_recorder: "binding_ok k (b\<lparr>sb_recording_session_id := s\<rparr>) \<longleftrightarrow> binding_ok k b"
  by (simp add: binding_ok_def run_matches_binding_identity_def)

lemma binding_ok_mask: "binding_ok k (b\<lparr>sb_recorded_lifecycle_mask := m\<rparr>) \<longleftrightarrow> binding_ok k b"
  by (simp add: binding_ok_def run_matches_binding_identity_def)

lemma first_some_keeps: "a \<noteq> None \<Longrightarrow> first_some a b = a"
  by (cases a) (simp_all add: first_some_def)

text \<open>Merging a binding whose identity is that of its run.\<close>

lemma merge_binding_advances:
  assumes ok: "runs_ok runs" and incoming: "run_matches_binding_identity b (sb_snapshot b)"
  shows "runs_advance runs (snd (merge_server_run_binding_locked b runs))"
proof (cases "runs (run_id (sb_snapshot b))")
  case None
  then show ?thesis
    using ok incoming by (auto simp: merge_server_run_binding_locked_def Let_def runs_advance_refl binding_ok_def
        intro!: runs_advance_put split: sum.splits)
next
  case (Some existing)
  have existing: "binding_ok (run_id (sb_snapshot b)) existing" using ok Some by (simp add: runs_ok_def)
  show ?thesis
  proof (cases "merge_coding_agent_run_snapshot (sb_snapshot existing) (sb_snapshot b)")
    case (Inl e)
    then show ?thesis using Some ok by (simp add: merge_server_run_binding_locked_def Let_def runs_advance_refl)
  next
    case (Inr outcome)
    show ?thesis
    proof (cases "outcome = Advance")
      case True
      with Inr have adv: "valid_run (sb_snapshot b)" "legal (sb_snapshot existing) (sb_snapshot b)"
        by (auto simp: advance_iff)
      let ?m = "b\<lparr>sb_recording_session_id := first_some (sb_recording_session_id existing) (sb_recording_session_id b),
        sb_recorded_lifecycle_mask := sb_recorded_lifecycle_mask existing\<rparr>"
      have "binding_ok (run_id (sb_snapshot b)) ?m"
        using adv incoming by (simp add: binding_ok_def run_matches_binding_identity_def)
      moreover have "binding_follows existing ?m"
        using legal_follows [OF adv(2)] by (simp add: binding_follows_def first_some_keeps)
      ultimately show ?thesis using Inr True Some ok
        by (auto simp: merge_server_run_binding_locked_def Let_def intro: runs_advance_put)
    next
      case False
      let ?m = "existing\<lparr>sb_recording_session_id := first_some (sb_recording_session_id existing) (sb_recording_session_id b)\<rparr>"
      have "binding_ok (run_id (sb_snapshot b)) ?m" using existing by (simp add: binding_ok_recorder)
      moreover have "binding_follows existing ?m" by (simp add: binding_follows_def first_some_keeps)
      moreover have "snd (merge_server_run_binding_locked b runs) = runs(run_id (sb_snapshot b) \<mapsto> ?m)"
        using Inr False Some by (cases outcome) (simp_all add: merge_server_run_binding_locked_def Let_def)
      ultimately show ?thesis using Some ok by (auto intro: runs_advance_put)
    qed
  qed
qed

lemma new_binding_identity: "run_matches_binding_identity (new_binding client run session) run"
  by (simp add: new_binding_def run_matches_binding_identity_def)

lemma lost_binding_identity:
  assumes "mark_server_binding_lost t code b = Inr lost" "run_matches_binding_identity b (sb_snapshot b)"
  shows "run_matches_binding_identity lost (sb_snapshot lost)"
  using assms by (auto simp: mark_server_binding_lost_def run_matches_binding_identity_def split: if_splits option.splits)

lemma bind_advances:
  assumes "runs_ok runs"
  shows "runs_advance (prune_server_runs_locked order now runs) (snd (bind_run order now client run session runs))"
  unfolding bind_run_def by (rule merge_binding_advances [OF runs_ok_prune [OF assms]])
    (simp add: new_binding_def run_matches_binding_identity_def)

lemma mark_lost_advances:
  assumes "runs_ok runs"
  shows "runs_advance (prune_server_runs_locked order now runs) (snd (mark_lost order now t k code runs))"
proof -
  let ?p = "prune_server_runs_locked order now runs"
  have ok: "runs_ok ?p" using assms by (rule runs_ok_prune)
  show ?thesis
  proof (cases "?p k")
    case None then show ?thesis using ok by (simp add: mark_lost_def Let_def runs_advance_refl)
  next
    case (Some current)
    then have identity: "run_matches_binding_identity current (sb_snapshot current)"
      using ok by (simp add: runs_ok_def binding_ok_def)
    show ?thesis
    proof (cases "mark_server_binding_lost t code current")
      case (Inl e) then show ?thesis using Some ok by (simp add: mark_lost_def Let_def runs_advance_refl)
    next
      case (Inr lost)
      from merge_binding_advances [OF ok lost_binding_identity [OF Inr identity]] show ?thesis
        using Some Inr ok by (simp add: mark_lost_def Let_def runs_advance_refl)
    qed
  qed
qed

lemma attach_advances:
  assumes "runs_ok runs"
  shows "runs_advance (prune_server_runs_locked order now runs) (attach_recorder order now k (Some session) runs)"
proof -
  let ?p = "prune_server_runs_locked order now runs"
  have ok: "runs_ok ?p" using assms by (rule runs_ok_prune)
  show ?thesis
  proof (cases "?p k")
    case None then show ?thesis using ok by (simp add: attach_recorder_def Let_def runs_advance_refl)
  next
    case (Some b)
    then have "binding_ok k b" using ok by (simp add: runs_ok_def)
    then show ?thesis using Some ok
      by (auto simp: attach_recorder_def Let_def runs_advance_refl binding_ok_recorder binding_follows_def intro!: runs_advance_put)
  qed
qed

lemma or_keeps: "m AND flag \<noteq> 0 \<Longrightarrow> (m OR x) AND flag \<noteq> (0 :: 8 word)"
  by (metis and_zero_eq and.commute bit.conj_disj_distrib or_eq_0_iff)

lemma evidence_advances:
  assumes "runs_ok runs"
  shows "runs_advance (prune_server_runs_locked order now runs) (snd (take_lifecycle_evidence order now k runs))"
proof -
  let ?p = "prune_server_runs_locked order now runs"
  have ok: "runs_ok ?p" using assms by (rule runs_ok_prune)
  show ?thesis
  proof (cases "?p k")
    case None then show ?thesis using ok by (simp add: take_lifecycle_evidence_def Let_def runs_advance_refl)
  next
    case (Some b)
    then have "binding_ok k b" using ok by (simp add: runs_ok_def)
    then have "runs_advance ?p (?p(k \<mapsto> b\<lparr>sb_recorded_lifecycle_mask := sb_recorded_lifecycle_mask b OR flag\<rparr>))" for flag
      using Some ok by (intro runs_advance_put) (auto simp: binding_ok_mask binding_follows_def or_keeps)
    then show ?thesis using Some ok
      by (simp add: take_lifecycle_evidence_def Let_def runs_advance_refl split: option.splits prod.splits)
  qed
qed

primrec op_now :: "run_op \<Rightarrow> int" where
  "op_now (BindRun now client run session) = now"
| "op_now (MarkLost now completed_at k code) = now"
| "op_now (MergeBound now b run) = now"
| "op_now (AttachRecorder now k session) = now"
| "op_now (TakeEvidence now k) = now"
| "op_now (GetRun now k) = now"

lemma run_step_advances:
  assumes ok: "runs_ok runs"
  shows "runs_advance (prune_server_runs_locked order (op_now x) runs) (run_step order x runs)"
proof -
  have unchanged: "runs_advance (prune_server_runs_locked order now runs) runs" for now
    using ok by (auto simp: runs_advance_def dest: prune_Some)
  show ?thesis
  proof (cases x)
    case (MergeBound now b run)
    show ?thesis
    proof (cases "run_matches_binding_identity b run")
      case True
      then have "run_matches_binding_identity (b\<lparr>sb_snapshot := run\<rparr>) (sb_snapshot (b\<lparr>sb_snapshot := run\<rparr>))"
        by (simp add: run_matches_binding_identity_def)
      from merge_binding_advances [OF runs_ok_prune [OF ok] this] show ?thesis
        using True MergeBound by (simp add: merge_bound_snapshot_def)
    qed (use unchanged MergeBound in simp)
  next
    case (AttachRecorder now k session)
    then show ?thesis using attach_advances [OF ok] unchanged by (cases session) (simp_all add: attach_recorder_def)
  next
    case (GetRun now k)
    then show ?thesis using runs_ok_prune [OF ok] by (simp add: get_run_def Let_def runs_advance_refl)
  qed (use ok bind_advances mark_lost_advances evidence_advances in simp_all)
qed

lemma run_step_ok: "runs_ok runs \<Longrightarrow> runs_ok (run_step order x runs)"
  using run_step_advances by (simp add: runs_advance_def)

interpretation server_runs: invariant_machine "run_step order" runs_ok for order
  by unfold_locales (rule run_step_ok)

text \<open>A binding that no pruning along a run of steps drops.\<close>

fun kept_along :: "runs_order \<Rightarrow> rstr \<Rightarrow> run_op list \<Rightarrow> runs \<Rightarrow> bool" where
  "kept_along order k [] runs = (runs k \<noteq> None)"
| "kept_along order k (x # xs) runs =
     (prune_server_runs_locked order (op_now x) runs k \<noteq> None \<and> kept_along order k xs (run_step order x runs))"

lemma kept_binding_follows:
  assumes "runs_ok runs" "runs k = Some b" "kept_along order k xs runs"
  shows "\<exists>b'. fold (run_step order) xs runs k = Some b' \<and> binding_follows b b'"
  using assms
proof (induction xs arbitrary: runs b)
  case (Cons x xs)
  then obtain c where c: "prune_server_runs_locked order (op_now x) runs k = Some c" by auto
  then have "c = b" using prune_Some Cons.prems(2) by fastforce
  with c run_step_advances [OF Cons.prems(1), of order x] obtain b1 where
    b1: "run_step order x runs k = Some b1" "binding_follows b b1" unfolding runs_advance_def by blast
  from Cons.IH [OF run_step_ok [OF Cons.prems(1)] b1(1)] Cons.prems(3) b1(2) show ?case
    by (auto intro: binding_follows_trans)
qed simp

lemma active_binding_kept:
  assumes "runs_ok runs" "runs k = Some b" "\<not> binding_terminal b"
  shows "\<exists>b'. run_step order x runs k = Some b' \<and> binding_follows b b'"
proof -
  have "prune_server_runs_locked order (op_now x) runs k = Some b" using prune_cases [of runs k b order "op_now x"] assms by blast
  then show ?thesis using run_step_advances [OF assms(1), of order x] unfolding runs_advance_def by blast
qed

section \<open>Bounds\<close>

lemma length_terminal_runs:
  assumes "runs_iterate order" "finite (dom runs)"
  shows "distinct (map fst (terminal_runs order runs))" "set (map fst (terminal_runs order runs)) = terminal_keys runs"
proof -
  have order: "distinct (order runs)" "set (order runs) = dom runs" using assms by (auto simp: runs_iterate_def)
  have "map fst (List.map_filter (\<lambda>k. case runs k of None \<Rightarrow> None
      | Some b \<Rightarrow> if binding_terminal b then Some (k, run_updated_at (sb_snapshot b)) else None) ks)
    = filter (\<lambda>k. k \<in> terminal_keys runs) ks" for ks
    by (induction ks) (auto simp: map_filter_simps terminal_keys_def split: option.splits)
  then have eq: "map fst (terminal_runs order runs) = filter (\<lambda>k. k \<in> terminal_keys runs) (order runs)"
    unfolding terminal_runs_def .
  show "distinct (map fst (terminal_runs order runs))" unfolding eq using order by simp
  show "set (map fst (terminal_runs order runs)) = terminal_keys runs"
    unfolding eq using order by (auto simp: terminal_keys_def dom_def)
qed

lemma terminal_keys_remove: "terminal_keys (remove_runs ks runs) = terminal_keys runs - ks"
  by (auto simp: terminal_keys_def remove_runs_def)

lemma retain_dom: "dom (retain_runs now runs) \<subseteq> dom runs"
  using retain_runs_Some by fastforce

lemma prune_bounds_terminals:
  assumes "runs_iterate order" "finite (dom runs)"
  shows "card (terminal_keys (prune_server_runs_locked order now runs)) \<le> SERVER_MAX_TERMINAL_RUNS"
proof -
  let ?r = "retain_runs now runs"
  let ?ts = "terminal_runs order ?r"
  let ?n = "length ?ts - SERVER_MAX_TERMINAL_RUNS"
  have fin: "finite (dom ?r)" using assms retain_dom finite_subset by blast
  note ts = length_terminal_runs [OF assms(1) fin]
  have card: "card (terminal_keys ?r) = length ?ts" using ts distinct_card [of "map fst ?ts"] by simp
  show ?thesis
  proof (cases "length ?ts \<le> SERVER_MAX_TERMINAL_RUNS")
    case True then show ?thesis using card by (simp add: prune_server_runs_locked_def Let_def)
  next
    case False
    let ?gone = "map fst (take ?n (sort_key snd ?ts))"
    have "distinct (map fst (sort_key snd ?ts))" using ts(1) by (simp add: distinct_map)
    then have "distinct ?gone" unfolding take_map [symmetric] by (rule distinct_take)
    then have size: "card (set ?gone) = ?n" by (simp only: distinct_card) simp
    have "set ?gone \<subseteq> set (map fst (sort_key snd ?ts))" unfolding take_map [symmetric] by (rule set_take_subset)
    then have sub: "set ?gone \<subseteq> terminal_keys ?r" using ts(2) by simp
    have "card (terminal_keys ?r - set ?gone) = length ?ts - ?n"
      using sub size card by (simp add: card_Diff_subset)
    then have "card (terminal_keys ?r - set ?gone) = SERVER_MAX_TERMINAL_RUNS" using False by simp
    then show ?thesis using False by (simp only: prune_server_runs_locked_def Let_def terminal_keys_remove if_False)
  qed
qed

section \<open>Closing a run as lost\<close>

definition lost_codes :: "rstr list" where
  "lost_codes = map lit [''coding_agent_identity_changed_uncertain'', ''runner_replaced_uncertain'',
     ''provider_replaced_uncertain'']"

lemma lost_code_valid:
  "code \<in> set lost_codes \<Longrightarrow>
     validate_low_cardinality_kind code (lit ''CodingAgentRun terminal error code'') CODING_AGENT_MAX_TERMINAL_METADATA_BYTES = Inr ()
     \<and> str_len code \<le> CODING_AGENT_MAX_TERMINAL_METADATA_BYTES"
  by (auto simp: lost_codes_def validate_low_cardinality_kind_def lit_def utf8_width_def is_ascii_lowercase_def
      is_ascii_digit_def CODING_AGENT_MAX_TERMINAL_METADATA_BYTES_def)

lemma lost_message_bounded: "str_len lost_message \<le> CODING_AGENT_MAX_ERROR_MESSAGE_BYTES"
  by (simp add: lost_message_def lit_def utf8_width_def CODING_AGENT_MAX_ERROR_MESSAGE_BYTES_def)

lemma mark_lost_legal:
  assumes valid: "valid_run (sb_snapshot b)" and active: "\<not> binding_terminal b"
    and revision: "run_observation_revision (sb_snapshot b) < usize_max" and code: "code \<in> set lost_codes"
  shows "\<exists>lost. mark_server_binding_lost t code b = Inr lost \<and> valid_run (sb_snapshot lost)
     \<and> legal (sb_snapshot b) (sb_snapshot lost) \<and> run_state (sb_snapshot lost) = RunLost
     \<and> run_id (sb_snapshot lost) = run_id (sb_snapshot b)"
proof -
  let ?s = "(sb_snapshot b)\<lparr>run_state := RunLost, run_execution_state := ExecOutcomeUnknown, run_updated_at := t,
    run_observation_revision := run_observation_revision (sb_snapshot b) + 1,
    run_terminal := Some \<lparr>term_stop_reason = None, term_error_code = Some code, term_message = Some lost_message,
      term_completed_at = t\<rparr>\<rparr>"
  have lost: "mark_server_binding_lost t code b = Inr (b\<lparr>sb_snapshot := ?s\<rparr>)"
    using active revision by (simp add: mark_server_binding_lost_def checked_add_def)
  have v: "valid_run ?s"
    using valid lost_code_valid [OF code] lost_message_bounded
    by (simp add: validate_coding_agent_run_snapshot_def validate_terminal_bounds_def validate_state_matrix_def
        terminal_for_state_def)
  have "run_state (sb_snapshot b) \<in> {RunStarting, RunRunning, RunWaitingPermission}"
    using active by (cases "run_state (sb_snapshot b)") (auto simp: binding_terminal_def run_state_terminal_def)
  moreover have "run_execution_state (sb_snapshot b) \<noteq> ExecCompleted"
    using valid_run_pair(1) [OF valid] calculation by (auto simp: state_pairs_def)
  ultimately have "legal (sb_snapshot b) ?s"
    by (cases "run_execution_state (sb_snapshot b)")
      (auto simp: legal_def transition_iff same_run_def execution_transition_valid_def)
  with lost v show ?thesis by simp
qed

section \<open>Properties\<close>

text \<open>What taking evidence does when there is some.\<close>

lemma take_evidence_Some:
  assumes "take_lifecycle_evidence order now k runs = (Some (session, snapshot, kind), runs')"
  obtains b flag where "prune_server_runs_locked order now runs k = Some b" "sb_recording_session_id b = Some session"
    "lifecycle_evidence (run_state (sb_snapshot b)) = (flag, kind)" "sb_recorded_lifecycle_mask b AND flag = 0"
    "runs' k = Some (b\<lparr>sb_recorded_lifecycle_mask := sb_recorded_lifecycle_mask b OR flag\<rparr>)"
  using assms by (auto simp: take_lifecycle_evidence_def Let_def split: option.splits prod.splits if_splits)

lemma evidence_flag: "lifecycle_evidence s = (flag, kind) \<Longrightarrow> lifecycle_evidence t = (flag', kind) \<Longrightarrow> flag = flag'"
  by (cases s; cases t) (auto simp: lit_inject)

lemma evidence_flag_nonzero: "lifecycle_evidence s = (flag, kind) \<Longrightarrow> flag \<noteq> 0"
  by (cases s) auto

lemma recorded_flag: "(flag :: 8 word) \<noteq> 0 \<Longrightarrow> (m OR flag) AND flag \<noteq> 0"
  by (simp add: bit.conj_disj_distrib2)

definition sample_order :: runs_order where
  "sample_order m = filter (\<lambda>k. k \<in> dom m) [run_id sample_run]"

definition sample_runs :: runs where
  "sample_runs = [run_id sample_run \<mapsto> new_binding (lit ''r'', lit ''i1'') sample_run (Some (lit ''s''))]"

lemma sample_prune:
  "run_state (sb_snapshot b) = RunStarting \<Longrightarrow>
     prune_server_runs_locked sample_order 0 [run_id sample_run \<mapsto> b] = [run_id sample_run \<mapsto> b]"
  by (auto simp: prune_server_runs_locked_def retain_runs_def terminal_runs_def sample_order_def binding_terminal_def
      run_state_terminal_def map_filter_simps Let_def fun_eq_iff)

lemma sample_runs_ok: "runs_ok sample_runs"
  using sample_runs_valid(1)
  by (auto simp: runs_ok_def sample_runs_def binding_ok_def new_binding_def run_matches_binding_identity_def split: if_splits)

text \<open>C12: The Server never forgets a run that may still be executing. Whatever section of the bookkeeping runs next, for
  this run or for another one, a binding whose run is not terminal is still there afterwards: its snapshot has moved
  forward or is the same, its recording session is kept once it has one, and so is every kind of evidence that was
  recorded. Every binding goes on agreeing with the run it holds.\<close>

theorem active_run_bindings_are_kept:
  assumes "runs_ok runs" "runs k = Some b" "\<not> binding_terminal b"
  shows "runs_ok (run_step order x runs) \<and> (\<exists>b'. run_step order x runs k = Some b' \<and> binding_follows b b')"
  using active_binding_kept [OF assms] run_step_ok [OF assms(1)] by blast

theorem active_run_bindings_are_kept_witness:
  "\<exists>b'. run_step sample_order (GetRun 0 (lit ''other'')) sample_runs (run_id sample_run) = Some b'
     \<and> binding_follows (new_binding (lit ''r'', lit ''i1'') sample_run (Some (lit ''s''))) b'"
  using active_run_bindings_are_kept [OF sample_runs_ok, of "run_id sample_run"
      "new_binding (lit ''r'', lit ''i1'') sample_run (Some (lit ''s''))" sample_order "GetRun 0 (lit ''other'')"]
  by (simp add: sample_runs_def binding_terminal_def run_state_terminal_def new_binding_def sample_run_def)

text \<open>Evidence about a run is recorded once per kind. When evidence of a kind has been taken for a run, then after any
  sequence of sections that does not prune its binding, whatever else they do, evidence that is taken again is of another
  kind and goes to the same recording session.\<close>

theorem run_evidence_is_taken_once:
  assumes ok: "runs_ok runs"
    and first: "take_lifecycle_evidence order now k runs = (Some (session, snapshot, kind), runs')"
    and kept: "kept_along order k xs runs'"
    and again: "take_lifecycle_evidence order now' k (fold (run_step order) xs runs') = (Some (session', snapshot', kind'), runs'')"
  shows "kind' \<noteq> kind \<and> session' = session"
proof -
  obtain b flag where b: "sb_recording_session_id b = Some session"
    "lifecycle_evidence (run_state (sb_snapshot b)) = (flag, kind)"
    "runs' k = Some (b\<lparr>sb_recorded_lifecycle_mask := sb_recorded_lifecycle_mask b OR flag\<rparr>)"
    using first by (rule take_evidence_Some)
  have "runs_ok runs'" using run_step_ok [OF ok, of order "TakeEvidence now k"] first by simp
  from kept_binding_follows [OF this b(3) kept] obtain c where c: "fold (run_step order) xs runs' k = Some c"
    and follows: "binding_follows (b\<lparr>sb_recorded_lifecycle_mask := sb_recorded_lifecycle_mask b OR flag\<rparr>) c" by blast
  have session: "sb_recording_session_id c = Some session" using follows b(1) by (simp add: binding_follows_def)
  have mask: "sb_recorded_lifecycle_mask c AND flag \<noteq> 0"
    using follows recorded_flag [OF evidence_flag_nonzero [OF b(2)]] by (simp add: binding_follows_def)
  obtain d flag' where d: "prune_server_runs_locked order now' (fold (run_step order) xs runs') k = Some d"
    "sb_recording_session_id d = Some session'" "lifecycle_evidence (run_state (sb_snapshot d)) = (flag', kind')"
    "sb_recorded_lifecycle_mask d AND flag' = 0"
    using again by (rule take_evidence_Some)
  have "d = c" using prune_Some [OF d(1)] c by simp
  then show ?thesis using d mask session evidence_flag [OF b(2)] by auto
qed

theorem run_evidence_is_taken_once_witness:
  "\<exists>b. take_lifecycle_evidence sample_order 0 (run_id sample_run) sample_runs
         = (Some (lit ''s'', sample_run, lit ''coding_agent_started''), [run_id sample_run \<mapsto> b])
     \<and> kept_along sample_order (run_id sample_run) [] [run_id sample_run \<mapsto> b]
     \<and> (\<nexists>session' snapshot' runs''. take_lifecycle_evidence sample_order 0 (run_id sample_run) [run_id sample_run \<mapsto> b]
         = (Some (session', snapshot', lit ''coding_agent_started''), runs''))"
proof -
  let ?n = "new_binding (lit ''r'', lit ''i1'') sample_run (Some (lit ''s''))"
  let ?b = "?n\<lparr>sb_recorded_lifecycle_mask := sb_recorded_lifecycle_mask ?n OR 1\<rparr>"
  have "sb_snapshot ?n = sample_run" "run_state sample_run = RunStarting" "sb_recording_session_id ?n = Some (lit ''s'')"
    "sb_recorded_lifecycle_mask ?n = 0" by (simp_all add: new_binding_def sample_run_def)
  then have first: "take_lifecycle_evidence sample_order 0 (run_id sample_run) sample_runs
     = (Some (lit ''s'', sample_run, lit ''coding_agent_started''), [run_id sample_run \<mapsto> ?b])"
    by (simp add: take_lifecycle_evidence_def sample_runs_def sample_prune)
  have kept: "kept_along sample_order (run_id sample_run) [] [run_id sample_run \<mapsto> ?b]" by simp
  have "\<nexists>session' snapshot' runs''. take_lifecycle_evidence sample_order 0 (run_id sample_run) [run_id sample_run \<mapsto> ?b]
     = (Some (session', snapshot', lit ''coding_agent_started''), runs'')"
    using run_evidence_is_taken_once [OF sample_runs_ok first kept] by (metis fold_simps(1))
  with first kept show ?thesis by blast
qed

text \<open>A run whose Runner or provider was replaced is closed. When the binding of a run that is not terminal is marked
  as lost, with one of the codes the Server uses, this always succeeds unless the 64-bit revision is exhausted: the stored
  snapshot becomes a valid lost one of the same run with the next revision.\<close>

theorem replaced_runs_are_closed:
  assumes "runs_ok runs" "runs k = Some b" "\<not> binding_terminal b"
    and "run_observation_revision (sb_snapshot b) < usize_max" "code \<in> set lost_codes"
  shows "\<exists>b'. mark_lost order now t k code runs = (Inr (Some b'), (snd (mark_lost order now t k code runs)))
     \<and> snd (mark_lost order now t k code runs) k = Some b' \<and> run_state (sb_snapshot b') = RunLost
     \<and> valid_run (sb_snapshot b') \<and> legal (sb_snapshot b) (sb_snapshot b')"
proof -
  let ?p = "prune_server_runs_locked order now runs"
  have p: "?p k = Some b" using prune_cases [of runs k b order now] assms by blast
  have b: "valid_run (sb_snapshot b)" "run_id (sb_snapshot b) = k" using assms(1,2) by (auto simp: runs_ok_def binding_ok_def)
  from mark_lost_legal [OF b(1) assms(3-5)] obtain lost where
    lost: "mark_server_binding_lost t code b = Inr lost" "valid_run (sb_snapshot lost)" "legal (sb_snapshot b) (sb_snapshot lost)"
      "run_state (sb_snapshot lost) = RunLost" "run_id (sb_snapshot lost) = k" using b(2) by metis
  have merge: "merge_coding_agent_run_snapshot (sb_snapshot b) (sb_snapshot lost) = Inr Advance"
    using b(1) lost by (simp add: advance_iff)
  show ?thesis using p merge lost assms(3) by (simp add: mark_lost_def merge_server_run_binding_locked_def Let_def)
qed

theorem replaced_runs_are_closed_witness:
  "\<exists>b'. mark_lost sample_order 0 7 (run_id sample_run) (lit ''runner_replaced_uncertain'') sample_runs
      = (Inr (Some b'), snd (mark_lost sample_order 0 7 (run_id sample_run) (lit ''runner_replaced_uncertain'') sample_runs))
    \<and> run_state (sb_snapshot b') = RunLost"
  using replaced_runs_are_closed [OF sample_runs_ok, of "run_id sample_run"
      "new_binding (lit ''r'', lit ''i1'') sample_run (Some (lit ''s''))" "lit ''runner_replaced_uncertain''" sample_order 0 7]
  by (auto simp: sample_runs_def binding_terminal_def run_state_terminal_def new_binding_def sample_run_def lost_codes_def
      usize_max_def)

end
