(* ===== verification/Mcp_Gateway.thy ===== *)
theory Mcp_Gateway
  imports Coding_Agent
begin

text \<open>
  The bounded protocol of the Runner-owned MCP gateway (\<open>crates/webcodex-core/src/mcp_gateway.rs\<close>): requests, responses and
  their validation, with the walk that bounds the depth, the size and the texts of every JSON value that crosses it. The
  serialiser is a parameter: the number of bytes it writes for a value, a tool result or a response, if it succeeds.
\<close>

section \<open>Data\<close>

definition MCP_GATEWAY_MAX_PROVIDERS :: nat where "MCP_GATEWAY_MAX_PROVIDERS = 8"
definition MCP_GATEWAY_MAX_PROVIDER_ID_BYTES :: nat where "MCP_GATEWAY_MAX_PROVIDER_ID_BYTES = 64"
definition MCP_GATEWAY_MAX_PROVIDER_NAME_BYTES :: nat where "MCP_GATEWAY_MAX_PROVIDER_NAME_BYTES = 128"
definition MCP_GATEWAY_MAX_TOOL_COUNT :: nat where "MCP_GATEWAY_MAX_TOOL_COUNT = 128"
definition MCP_GATEWAY_MAX_TOOL_NAME_BYTES :: nat where "MCP_GATEWAY_MAX_TOOL_NAME_BYTES = 128"
definition MCP_GATEWAY_MAX_DESCRIPTION_BYTES :: nat where "MCP_GATEWAY_MAX_DESCRIPTION_BYTES = 4 * 1024"
definition MCP_GATEWAY_MAX_SCHEMA_BYTES :: nat where "MCP_GATEWAY_MAX_SCHEMA_BYTES = 64 * 1024"
definition MCP_GATEWAY_MAX_ARGUMENT_BYTES :: nat where "MCP_GATEWAY_MAX_ARGUMENT_BYTES = 64 * 1024"
definition MCP_GATEWAY_MAX_STRUCTURED_CONTENT_BYTES :: nat where "MCP_GATEWAY_MAX_STRUCTURED_CONTENT_BYTES = 512 * 1024"
definition MCP_GATEWAY_MAX_TEXT_CONTENT_BYTES :: nat where "MCP_GATEWAY_MAX_TEXT_CONTENT_BYTES = 512 * 1024"
definition MCP_GATEWAY_MAX_RESULT_BYTES :: nat where "MCP_GATEWAY_MAX_RESULT_BYTES = 512 * 1024"
definition MCP_GATEWAY_MAX_CONTENT_ITEMS :: nat where "MCP_GATEWAY_MAX_CONTENT_ITEMS = 32"
definition MCP_GATEWAY_MAX_MESSAGE_BYTES :: nat where "MCP_GATEWAY_MAX_MESSAGE_BYTES = 1024 * 1024"
definition MCP_GATEWAY_MAX_JSON_DEPTH :: nat where "MCP_GATEWAY_MAX_JSON_DEPTH = 16"
definition MCP_GATEWAY_MAX_JSON_NODES :: nat where "MCP_GATEWAY_MAX_JSON_NODES = 4096"
definition MCP_GATEWAY_MAX_JSON_STRING_BYTES :: nat where "MCP_GATEWAY_MAX_JSON_STRING_BYTES = 512 * 1024"

text \<open>A JSON value; a number is kept as its text, and the members of an object in the order of the map.\<close>

datatype json =
  JsonNull | JsonBool bool | JsonNumber rstr | JsonString rstr | JsonArray "json list" | JsonObject "(rstr \<times> json) list"

definition is_object :: "json \<Rightarrow> bool" where
  "is_object v = (case v of JsonObject _ \<Rightarrow> True | _ \<Rightarrow> False)"

record McpGatewaySchemaObservation =
  so_input_schema :: json
  so_output_schema :: "json option"
  so_annotations :: "json option"

datatype McpGatewayRequest =
  McpProviderStatus rstr rstr
| McpToolsList rstr rstr
| McpToolsCall rstr rstr rstr json McpGatewaySchemaObservation

primrec mcp_provider_id :: "McpGatewayRequest \<Rightarrow> rstr" where
  "mcp_provider_id (McpProviderStatus p i) = p"
| "mcp_provider_id (McpToolsList p i) = p"
| "mcp_provider_id (McpToolsCall p i name arguments schema) = p"

primrec mcp_provider_instance_id :: "McpGatewayRequest \<Rightarrow> rstr" where
  "mcp_provider_instance_id (McpProviderStatus p i) = i"
| "mcp_provider_instance_id (McpToolsList p i) = i"
| "mcp_provider_instance_id (McpToolsCall p i name arguments schema) = i"

datatype McpGatewayDispatchState = McpNotStarted | McpOutcomeUnknown | McpCompleted

datatype McpGatewayProviderState = NeverStarted | Healthy | ConnectionRetired | Busy

record McpGatewayProvider =
  mprov_provider_id :: rstr
  mprov_provider_instance_id :: rstr
  mprov_name :: rstr

record McpGatewayTool =
  tool_name :: rstr
  tool_title :: "rstr option"
  tool_description :: "rstr option"
  tool_input_schema :: json
  tool_output_schema :: "json option"
  tool_annotations :: "json option"
  tool_meta :: "json option"

definition schema_observation :: "McpGatewayTool \<Rightarrow> McpGatewaySchemaObservation" where
  "schema_observation tool = \<lparr>so_input_schema = tool_input_schema tool, so_output_schema = tool_output_schema tool,
     so_annotations = tool_annotations tool\<rparr>"

datatype McpGatewayContent = ContentText rstr

record McpGatewayToolResult =
  tres_content :: "McpGatewayContent list"
  tres_structured_content :: "json option"
  tres_is_error :: bool

datatype McpGatewayResponsePayload =
  PayloadProviderStatus McpGatewayProviderState
| PayloadTools "McpGatewayTool list"
| PayloadToolResult McpGatewayToolResult

record McpGatewayError =
  merr_code :: rstr
  merr_message :: rstr

record McpGatewayResponse =
  mres_dispatch_state :: McpGatewayDispatchState
  mres_payload :: "McpGatewayResponsePayload option"
  mres_error :: "McpGatewayError option"

definition mcp_success :: "McpGatewayResponsePayload \<Rightarrow> McpGatewayResponse" where
  "mcp_success payload = \<lparr>mres_dispatch_state = McpCompleted, mres_payload = Some payload, mres_error = None\<rparr>"

definition mcp_error :: "McpGatewayDispatchState \<Rightarrow> rstr \<Rightarrow> rstr \<Rightarrow> McpGatewayResponse" where
  "mcp_error dispatch_state code message =
     \<lparr>mres_dispatch_state = dispatch_state, mres_payload = None, mres_error = Some \<lparr>merr_code = code, merr_message = message\<rparr>\<rparr>"

record McpSerializer =
  ser_value :: "json \<Rightarrow> nat option"
  ser_result :: "McpGatewayToolResult \<Rightarrow> nat option"
  ser_response :: "McpGatewayResponse \<Rightarrow> nat option"

section \<open>Identifiers and texts\<close>

definition mcp_validate_identifier :: "rstr \<Rightarrow> rstr \<Rightarrow> nat \<Rightarrow> bool \<Rightarrow> rstr + unit" where
  "mcp_validate_identifier v field max_bytes lowercase_only =
     (if v = [] \<or> max_bytes < str_len v
        then Inl (field @ lit '' must contain 1..='' @ show_nat max_bytes @ lit '' bytes'')
      else if \<not> list_all (identifier_byte lowercase_only) v
        then Inl (field @ lit '' may contain only ''
               @ (if lowercase_only then lit ''lowercase ASCII letters'' else lit ''ASCII letters'')
               @ lit '', digits, '' @ [39, 95, 39] @ lit '', '' @ [39, 45, 39] @ lit '', and '' @ [39, 46, 39])
      else Inr ())"

definition mcp_validate_provider_id :: "rstr \<Rightarrow> rstr + unit" where
  "mcp_validate_provider_id v = mcp_validate_identifier v (lit ''provider_id'') MCP_GATEWAY_MAX_PROVIDER_ID_BYTES True"

definition mcp_validate_provider_instance_id :: "rstr \<Rightarrow> rstr + unit" where
  "mcp_validate_provider_instance_id v =
     mcp_validate_identifier v (lit ''provider_instance_id'') MCP_GATEWAY_MAX_PROVIDER_ID_BYTES False"

definition validate_tool_name :: "rstr \<Rightarrow> rstr + unit" where
  "validate_tool_name v = mcp_validate_identifier v (lit ''tool name'') MCP_GATEWAY_MAX_TOOL_NAME_BYTES False"

definition validate_provider_name :: "rstr \<Rightarrow> rstr + unit" where
  "validate_provider_name v =
     (if trim v = [] \<or> MCP_GATEWAY_MAX_PROVIDER_NAME_BYTES < str_len v
        then Inl (lit ''provider name must contain 1..='' @ show_nat MCP_GATEWAY_MAX_PROVIDER_NAME_BYTES @ lit '' bytes'')
      else if list_ex is_control v then Inl (lit ''provider name contains unsupported control characters'')
      else Inr ())"

definition validate_text_controls :: "rstr \<Rightarrow> rstr \<Rightarrow> rstr + unit" where
  "validate_text_controls v field =
     reject_if (list_ex (\<lambda>c. is_control c \<and> c \<notin> {10, 13, 9}) v) (field @ lit '' contains unsupported control characters'')"

section \<open>JSON\<close>

definition json_key_ok :: "rstr \<Rightarrow> bool" where
  "json_key_ok key \<longleftrightarrow> str_len key \<le> 1024 \<and> \<not> list_ex is_control key"

text \<open>The walk over a value. It counts the nodes; the count so far is an argument and the new one the result.\<close>

fun validate_json_node :: "rstr \<Rightarrow> nat \<Rightarrow> nat \<Rightarrow> json \<Rightarrow> rstr + nat"
  and validate_json_items :: "rstr \<Rightarrow> nat \<Rightarrow> nat \<Rightarrow> json list \<Rightarrow> rstr + nat"
  and validate_json_members :: "rstr \<Rightarrow> nat \<Rightarrow> nat \<Rightarrow> (rstr \<times> json) list \<Rightarrow> rstr + nat" where
  "validate_json_node field depth nodes0 v =
     (if MCP_GATEWAY_MAX_JSON_DEPTH < depth
        then Inl (field @ lit '' exceeds maximum JSON depth '' @ show_nat MCP_GATEWAY_MAX_JSON_DEPTH)
      else let nodes = sat_add nodes0 1 in
        if MCP_GATEWAY_MAX_JSON_NODES < nodes
          then Inl (field @ lit '' exceeds maximum JSON node count '' @ show_nat MCP_GATEWAY_MAX_JSON_NODES)
        else (case v of
            JsonString s \<Rightarrow>
              if MCP_GATEWAY_MAX_JSON_STRING_BYTES < str_len s
              then Inl (field @ lit '' contains a string larger than '' @ show_nat MCP_GATEWAY_MAX_JSON_STRING_BYTES @ lit '' bytes'')
              else Inr nodes
          | JsonArray vs \<Rightarrow> validate_json_items field (depth + 1) nodes vs
          | JsonObject ms \<Rightarrow> validate_json_members field (depth + 1) nodes ms
          | _ \<Rightarrow> Inr nodes))"
| "validate_json_items field depth nodes [] = Inr nodes"
| "validate_json_items field depth nodes (v # vs) =
     (case validate_json_node field depth nodes v of
        Inl e \<Rightarrow> Inl e
      | Inr nodes' \<Rightarrow> validate_json_items field depth nodes' vs)"
| "validate_json_members field depth nodes [] = Inr nodes"
| "validate_json_members field depth nodes (m # ms) =
     (case m of (key, v) \<Rightarrow>
        if \<not> json_key_ok key then Inl (field @ lit '' contains an invalid object key'')
        else (case validate_json_node field depth nodes v of
            Inl e \<Rightarrow> Inl e
          | Inr nodes' \<Rightarrow> validate_json_members field depth nodes' ms))"

definition validate_json_value :: "McpSerializer \<Rightarrow> json \<Rightarrow> nat \<Rightarrow> rstr \<Rightarrow> rstr + unit" where
  "validate_json_value ser v max_bytes field =
     (case ser_value ser v of
        None \<Rightarrow> Inl (field @ lit '' could not be serialized'')
      | Some len \<Rightarrow>
          if max_bytes < len then Inl (field @ lit '' exceeds maximum '' @ show_nat max_bytes @ lit '' bytes'')
          else map_sum id (\<lambda>_. ()) (validate_json_node field 0 0 v))"

section \<open>Requests and responses\<close>

definition validate_object :: "McpSerializer \<Rightarrow> nat \<Rightarrow> rstr \<Rightarrow> json \<Rightarrow> rstr + unit" where
  "validate_object ser max_bytes field v =
     and_then (reject_if (\<not> is_object v) (field @ lit '' must be a JSON object'')) (validate_json_value ser v max_bytes field)"

definition validate_optional_object :: "McpSerializer \<Rightarrow> nat \<Rightarrow> rstr \<Rightarrow> json option \<Rightarrow> rstr + unit" where
  "validate_optional_object ser max_bytes field v =
     (case v of None \<Rightarrow> Inr () | Some x \<Rightarrow> validate_object ser max_bytes field x)"

definition validate_schema_observation :: "McpSerializer \<Rightarrow> McpGatewaySchemaObservation \<Rightarrow> rstr + unit" where
  "validate_schema_observation ser o1 =
     and_then (validate_object ser MCP_GATEWAY_MAX_SCHEMA_BYTES (lit ''tool inputSchema'') (so_input_schema o1))
    (and_then (validate_optional_object ser MCP_GATEWAY_MAX_SCHEMA_BYTES (lit ''tool outputSchema'') (so_output_schema o1))
       (validate_optional_object ser MCP_GATEWAY_MAX_SCHEMA_BYTES (lit ''tool annotations'') (so_annotations o1)))"

definition mcp_validate_request :: "McpSerializer \<Rightarrow> McpGatewayRequest \<Rightarrow> rstr + unit" where
  "mcp_validate_request ser request =
     and_then (mcp_validate_provider_id (mcp_provider_id request))
    (and_then (mcp_validate_provider_instance_id (mcp_provider_instance_id request))
       (case request of
          McpToolsCall p i name arguments schema \<Rightarrow>
            and_then (validate_tool_name name)
           (and_then (validate_object ser MCP_GATEWAY_MAX_ARGUMENT_BYTES (lit ''tool arguments'') arguments)
              (validate_schema_observation ser schema))
        | _ \<Rightarrow> Inr ()))"

fun validate_provider_list :: "rstr set \<Rightarrow> rstr set \<Rightarrow> McpGatewayProvider list \<Rightarrow> rstr + unit" where
  "validate_provider_list provider_ids instance_ids [] = Inr ()"
| "validate_provider_list provider_ids instance_ids (p # ps) =
     and_then (mcp_validate_provider_id (mprov_provider_id p))
    (and_then (mcp_validate_provider_instance_id (mprov_provider_instance_id p))
    (and_then (validate_provider_name (mprov_name p))
    (and_then (reject_if (mprov_provider_id p \<in> provider_ids) (lit ''duplicate bridge provider id''))
    (and_then (reject_if (mprov_provider_instance_id p \<in> instance_ids) (lit ''duplicate bridge provider instance identity''))
       (validate_provider_list (insert (mprov_provider_id p) provider_ids)
         (insert (mprov_provider_instance_id p) instance_ids) ps)))))"

definition validate_providers :: "McpGatewayProvider list \<Rightarrow> rstr + unit" where
  "validate_providers ps =
     and_then (reject_if (MCP_GATEWAY_MAX_PROVIDERS < length ps)
         (lit ''provider count exceeds maximum '' @ show_nat MCP_GATEWAY_MAX_PROVIDERS))
       (validate_provider_list {} {} ps)"

definition validate_tool_texts :: "McpGatewayTool \<Rightarrow> rstr + unit" where
  "validate_tool_texts tool =
     and_then (case tool_title tool of
         None \<Rightarrow> Inr ()
       | Some title \<Rightarrow>
           and_then (reject_if (title = [] \<or> MCP_GATEWAY_MAX_PROVIDER_NAME_BYTES < str_len title)
               (lit ''tool title is empty or too long''))
             (validate_text_controls title (lit ''tool title'')))
       (case tool_description tool of
          None \<Rightarrow> Inr ()
        | Some description \<Rightarrow>
            and_then (reject_if (MCP_GATEWAY_MAX_DESCRIPTION_BYTES < str_len description)
                (lit ''tool description exceeds maximum '' @ show_nat MCP_GATEWAY_MAX_DESCRIPTION_BYTES @ lit '' bytes''))
              (validate_text_controls description (lit ''tool description'')))"

fun validate_tool_list :: "McpSerializer \<Rightarrow> rstr set \<Rightarrow> McpGatewayTool list \<Rightarrow> rstr + unit" where
  "validate_tool_list ser names [] = Inr ()"
| "validate_tool_list ser names (tool # tools) =
     and_then (validate_tool_name (tool_name tool))
    (and_then (reject_if (tool_name tool \<in> names) (lit ''duplicate tool name '' @ [39] @ tool_name tool @ [39]))
    (and_then (validate_tool_texts tool)
    (and_then (validate_schema_observation ser (schema_observation tool))
    (and_then (validate_optional_object ser MCP_GATEWAY_MAX_SCHEMA_BYTES (lit ''tool _meta'') (tool_meta tool))
       (validate_tool_list ser (insert (tool_name tool) names) tools)))))"

definition validate_tools :: "McpSerializer \<Rightarrow> McpGatewayTool list \<Rightarrow> rstr + unit" where
  "validate_tools ser tools =
     and_then (reject_if (MCP_GATEWAY_MAX_TOOL_COUNT < length tools)
         (lit ''tool count exceeds maximum '' @ show_nat MCP_GATEWAY_MAX_TOOL_COUNT))
       (validate_tool_list ser {} tools)"

fun validate_content :: "nat \<Rightarrow> McpGatewayContent list \<Rightarrow> rstr + nat" where
  "validate_content text_bytes [] = Inr text_bytes"
| "validate_content text_bytes (ContentText text # rest) =
     (if MCP_GATEWAY_MAX_TEXT_CONTENT_BYTES < str_len text
        then Inl (lit ''tool result text exceeds maximum '' @ show_nat MCP_GATEWAY_MAX_TEXT_CONTENT_BYTES @ lit '' bytes'')
      else and_then (validate_text_controls text (lit ''tool result text''))
        (validate_content (sat_add text_bytes (str_len text)) rest))"

definition validate_tool_result :: "McpSerializer \<Rightarrow> McpGatewayToolResult \<Rightarrow> rstr + unit" where
  "validate_tool_result ser result =
     (if MCP_GATEWAY_MAX_CONTENT_ITEMS < length (tres_content result)
        then Inl (lit ''tool result content exceeds maximum '' @ show_nat MCP_GATEWAY_MAX_CONTENT_ITEMS @ lit '' items'')
      else (case validate_content 0 (tres_content result) of
          Inl e \<Rightarrow> Inl e
        | Inr text_bytes \<Rightarrow>
            and_then (validate_optional_object ser MCP_GATEWAY_MAX_STRUCTURED_CONTENT_BYTES (lit ''structured tool result'')
                (tres_structured_content result))
              (case ser_result ser result of
                 None \<Rightarrow> Inl (lit ''tool result could not be serialized'')
               | Some len \<Rightarrow>
                   reject_if (MCP_GATEWAY_MAX_RESULT_BYTES < len \<or> MCP_GATEWAY_MAX_RESULT_BYTES < text_bytes)
                     (lit ''tool result exceeds maximum '' @ show_nat MCP_GATEWAY_MAX_RESULT_BYTES @ lit '' bytes''))))"

definition mcp_validate_error :: "McpGatewayError \<Rightarrow> rstr + unit" where
  "mcp_validate_error e =
     and_then (mcp_validate_identifier (merr_code e) (lit ''bridge error code'') 80 True)
    (and_then (reject_if (merr_message e = [] \<or> 512 < str_len (merr_message e)) (lit ''bridge error message must contain 1..=512 bytes''))
       (validate_text_controls (merr_message e) (lit ''bridge error message'')))"

definition validate_response :: "McpSerializer \<Rightarrow> McpGatewayResponse \<Rightarrow> rstr + unit" where
  "validate_response ser response =
     (case ser_response ser response of
        None \<Rightarrow> Inl (lit ''bridge response could not be serialized'')
      | Some len \<Rightarrow>
          if MCP_GATEWAY_MAX_MESSAGE_BYTES < len
            then Inl (lit ''bridge response exceeds maximum '' @ show_nat MCP_GATEWAY_MAX_MESSAGE_BYTES @ lit '' bytes'')
          else (case (mres_payload response, mres_error response) of
              (Some payload, None) \<Rightarrow>
                if mres_dispatch_state response \<noteq> McpCompleted
                  then Inl (lit ''bridge response payload requires completed dispatch state'')
                else (case payload of
                    PayloadProviderStatus _ \<Rightarrow> Inr ()
                  | PayloadTools tools \<Rightarrow> validate_tools ser tools
                  | PayloadToolResult result \<Rightarrow> validate_tool_result ser result)
            | (None, Some e) \<Rightarrow> mcp_validate_error e
            | _ \<Rightarrow> Inl (lit ''bridge response must contain exactly one payload or error'')))"

section \<open>The walk decides the bounds\<close>

text \<open>The height of a value, the number of its nodes, and whether its texts fit.\<close>

fun json_height :: "json \<Rightarrow> nat" where
  "json_height (JsonArray vs) = fold max (map (\<lambda>v. Suc (json_height v)) vs) 0"
| "json_height (JsonObject ms) = fold max (map (\<lambda>m. Suc (json_height (snd m))) ms) 0"
| "json_height v = 0"

fun json_nodes :: "json \<Rightarrow> nat" where
  "json_nodes (JsonArray vs) = Suc (sum_list (map json_nodes vs))"
| "json_nodes (JsonObject ms) = Suc (sum_list (map (\<lambda>m. json_nodes (snd m)) ms))"
| "json_nodes v = 1"

fun json_texts_ok :: "json \<Rightarrow> bool" where
  "json_texts_ok (JsonString s) = (str_len s \<le> MCP_GATEWAY_MAX_JSON_STRING_BYTES)"
| "json_texts_ok (JsonArray vs) = list_all json_texts_ok vs"
| "json_texts_ok (JsonObject ms) = list_all (\<lambda>m. json_key_ok (fst m) \<and> json_texts_ok (snd m)) ms"
| "json_texts_ok v = True"

lemma fold_max_le: "fold max xs a \<le> (n :: nat) \<longleftrightarrow> a \<le> n \<and> (\<forall>x \<in> set xs. x \<le> n)"
  by (induction xs arbitrary: a) auto

lemma height_bound:
  "depth \<le> d \<Longrightarrow> depth + fold max (map (\<lambda>v. Suc (h v)) vs) 0 \<le> d \<longleftrightarrow> (\<forall>v \<in> set vs. depth + 1 + h v \<le> (d :: nat))"
  using fold_max_le [of "map (\<lambda>v. Suc (h v)) vs" 0 "d - depth"] by (auto simp: le_diff_conv2)

lemma json_nodes_pos: "0 < json_nodes v"
  by (cases v) simp_all

text \<open>The walk succeeds exactly on the values within the bounds, and returns the number of nodes.\<close>

lemma sat_add_one: "nodes \<le> MCP_GATEWAY_MAX_JSON_NODES \<Longrightarrow> sat_add nodes 1 = nodes + 1"
  by (simp add: MCP_GATEWAY_MAX_JSON_NODES_def usize_max_def)

lemma case_sum_Inr: "(case r of Inl e \<Rightarrow> Inl e | Inr x \<Rightarrow> f x) = Inr y \<longleftrightarrow> (\<exists>x. r = Inr x \<and> f x = Inr y)"
  by (cases r) auto

lemma validate_json_walk:
  "nodes \<le> MCP_GATEWAY_MAX_JSON_NODES \<Longrightarrow> validate_json_node field depth nodes v = Inr n \<longleftrightarrow>
     depth + json_height v \<le> MCP_GATEWAY_MAX_JSON_DEPTH \<and> nodes + json_nodes v \<le> MCP_GATEWAY_MAX_JSON_NODES
     \<and> json_texts_ok v \<and> n = nodes + json_nodes v"
  "nodes \<le> MCP_GATEWAY_MAX_JSON_NODES \<Longrightarrow> validate_json_items field depth nodes vs = Inr n \<longleftrightarrow>
     (\<forall>v \<in> set vs. depth + json_height v \<le> MCP_GATEWAY_MAX_JSON_DEPTH)
     \<and> nodes + sum_list (map json_nodes vs) \<le> MCP_GATEWAY_MAX_JSON_NODES
     \<and> list_all json_texts_ok vs \<and> n = nodes + sum_list (map json_nodes vs)"
  "nodes \<le> MCP_GATEWAY_MAX_JSON_NODES \<Longrightarrow> validate_json_members field depth nodes ms = Inr n \<longleftrightarrow>
     (\<forall>m \<in> set ms. depth + json_height (snd m) \<le> MCP_GATEWAY_MAX_JSON_DEPTH)
     \<and> nodes + sum_list (map (\<lambda>m. json_nodes (snd m)) ms) \<le> MCP_GATEWAY_MAX_JSON_NODES
     \<and> list_all (\<lambda>m. json_key_ok (fst m) \<and> json_texts_ok (snd m)) ms
     \<and> n = nodes + sum_list (map (\<lambda>m. json_nodes (snd m)) ms)"
proof (induction field depth nodes v and field depth nodes vs and field depth nodes ms arbitrary: n and n and n
    rule: validate_json_node_validate_json_items_validate_json_members.induct)
  case (1 field depth nodes v)
  note count = sat_add_one [OF "1.prems"]
  show ?case
  proof (cases "MCP_GATEWAY_MAX_JSON_DEPTH < depth \<or> MCP_GATEWAY_MAX_JSON_NODES < nodes + 1")
    case True
    then show ?thesis using count json_nodes_pos [of v] by (auto simp: Let_def)
  next
    case False
    then have fits: "\<not> MCP_GATEWAY_MAX_JSON_DEPTH < depth" "\<not> MCP_GATEWAY_MAX_JSON_NODES < sat_add nodes 1"
      "nodes + 1 \<le> MCP_GATEWAY_MAX_JSON_NODES" using count by auto
    show ?thesis
    proof (cases v)
      case (JsonArray vs)
      note ih = "1.IH"(1) [OF fits(1) refl fits(2) JsonArray, unfolded count, OF fits(3)]
      have node: "validate_json_node field depth nodes v = validate_json_items field (depth + 1) (nodes + 1) vs"
        using fits JsonArray by (simp add: Let_def count [simplified])
      show ?thesis unfolding node ih using fits(1) height_bound [of depth MCP_GATEWAY_MAX_JSON_DEPTH json_height vs] JsonArray
        by auto
    next
      case (JsonObject ms)
      note ih = "1.IH"(2) [OF fits(1) refl fits(2) JsonObject, unfolded count, OF fits(3)]
      have node: "validate_json_node field depth nodes v = validate_json_members field (depth + 1) (nodes + 1) ms"
        using fits JsonObject by (simp add: Let_def count [simplified])
      show ?thesis unfolding node ih
        using fits(1) height_bound [of depth MCP_GATEWAY_MAX_JSON_DEPTH "\<lambda>m. json_height (snd m)" ms] JsonObject by auto
    qed (use fits count in \<open>auto simp: Let_def\<close>)
  qed
next
  case (3 field depth nodes v vs)
  show ?case
  proof (cases "validate_json_node field depth nodes v")
    case (Inl e)
    then show ?thesis using "3.IH"(1) [OF "3.prems", of "nodes + json_nodes v"] by auto
  next
    case (Inr k)
    then have k: "depth + json_height v \<le> MCP_GATEWAY_MAX_JSON_DEPTH" "nodes + json_nodes v \<le> MCP_GATEWAY_MAX_JSON_NODES"
      "json_texts_ok v" "k = nodes + json_nodes v" using "3.IH"(1) [OF "3.prems", of k] by auto
    show ?thesis using "3.IH"(2) [OF Inr, of n] k Inr by (auto simp: add.assoc)
  qed
next
  case (5 field depth nodes m ms)
  obtain key v where m: "m = (key, v)" by (cases m)
  show ?case
  proof (cases "json_key_ok key")
    case False then show ?thesis using m by simp
  next
    case True
    then have key: "\<not> \<not> json_key_ok key" by simp
    note node = "5.IH"(1) [OF m [symmetric] key "5.prems"]
    show ?thesis
    proof (cases "validate_json_node field depth nodes v")
      case (Inl e)
      then show ?thesis using node [of "nodes + json_nodes v"] True m by (auto simp del: validate_json_node.simps)
    next
      case (Inr k)
      then have k: "depth + json_height v \<le> MCP_GATEWAY_MAX_JSON_DEPTH" "nodes + json_nodes v \<le> MCP_GATEWAY_MAX_JSON_NODES"
        "json_texts_ok v" "k = nodes + json_nodes v" using node [of k] by auto
      then have "k \<le> MCP_GATEWAY_MAX_JSON_NODES" by simp
      from "5.IH"(2) [OF m [symmetric] key Inr this, of n] show ?thesis
        using k Inr m True by (auto simp: add.assoc simp del: validate_json_node.simps)
    qed
  qed
qed auto


end
