(* ===== verification/Plugin_Gateway.thy ===== *)
theory Plugin_Gateway
  imports Mcp_Gateway "HOL-Library.Product_Lexorder" "HOL-Library.Multiset"
begin

text \<open>
  The contract of native Tool Plugins (\<open>crates/webcodex-core/src/plugin.rs\<close>): requests and responses of the gateway,
  the Plugin Schema Profile with the matcher that admits arguments and structured results, the checks of tools, results,
  catalogs and check reports, the diagnosis of an invalid tool list, and the digest of a catalog. A JSON value is that of
  \<open>Mcp_Gateway\<close>: the text of a number is the one that \<open>serde_json\<close> prints, so \<open>as_u64\<close> and \<open>as_i64\<close> read it, and an
  object has the members of a map, whose keys are distinct (\<open>json_wf\<close>). The bytes of a serialised value and the digest
  are parameters.
\<close>

section \<open>Requests and responses\<close>

definition PLUGIN_MAX_PROVIDERS :: nat where "PLUGIN_MAX_PROVIDERS = 8"
definition PLUGIN_MAX_PROVIDER_ID_BYTES :: nat where "PLUGIN_MAX_PROVIDER_ID_BYTES = 64"
definition PLUGIN_MAX_PROVIDER_NAME_BYTES :: nat where "PLUGIN_MAX_PROVIDER_NAME_BYTES = 128"
definition PLUGIN_MAX_TOOL_COUNT :: nat where "PLUGIN_MAX_TOOL_COUNT = 128"
definition PLUGIN_MAX_TOOL_NAME_BYTES :: nat where "PLUGIN_MAX_TOOL_NAME_BYTES = 128"
definition PLUGIN_MAX_DESCRIPTION_BYTES :: nat where "PLUGIN_MAX_DESCRIPTION_BYTES = 4 * 1024"
definition PLUGIN_MAX_SCHEMA_BYTES :: nat where "PLUGIN_MAX_SCHEMA_BYTES = 64 * 1024"
definition PLUGIN_MAX_ARGUMENT_BYTES :: nat where "PLUGIN_MAX_ARGUMENT_BYTES = 64 * 1024"
definition PLUGIN_MAX_STRUCTURED_CONTENT_BYTES :: nat where "PLUGIN_MAX_STRUCTURED_CONTENT_BYTES = 512 * 1024"
definition PLUGIN_MAX_TEXT_CONTENT_BYTES :: nat where "PLUGIN_MAX_TEXT_CONTENT_BYTES = 512 * 1024"
definition PLUGIN_MAX_RESULT_BYTES :: nat where "PLUGIN_MAX_RESULT_BYTES = 512 * 1024"
definition PLUGIN_MAX_CONTENT_ITEMS :: nat where "PLUGIN_MAX_CONTENT_ITEMS = 32"
definition PLUGIN_MAX_MESSAGE_BYTES :: nat where "PLUGIN_MAX_MESSAGE_BYTES = 1024 * 1024"
definition PLUGIN_MAX_JSON_DEPTH :: nat where "PLUGIN_MAX_JSON_DEPTH = 16"
definition PLUGIN_MAX_JSON_NODES :: nat where "PLUGIN_MAX_JSON_NODES = 4096"
definition PLUGIN_MAX_JSON_STRING_BYTES :: nat where "PLUGIN_MAX_JSON_STRING_BYTES = 512 * 1024"
definition PLUGIN_MAX_CHECK_DETAIL_BYTES :: nat where "PLUGIN_MAX_CHECK_DETAIL_BYTES = 512"
definition PLUGIN_PROJECT_CATALOG_REVISION_PREFIX :: rstr where "PLUGIN_PROJECT_CATALOG_REVISION_PREFIX = lit ''wc_plugcat_''"
definition PLUGIN_MAX_PROJECT_CATALOG_DESCRIPTION_BYTES :: nat where "PLUGIN_MAX_PROJECT_CATALOG_DESCRIPTION_BYTES = 512"
definition PLUGIN_MAX_PROJECT_CATALOG_ENTRIES :: nat where
  "PLUGIN_MAX_PROJECT_CATALOG_ENTRIES = PLUGIN_MAX_PROVIDERS * PLUGIN_MAX_TOOL_COUNT"
definition PLUGIN_SCHEMA_MAX_PROPERTIES :: nat where "PLUGIN_SCHEMA_MAX_PROPERTIES = 128"
definition PLUGIN_SCHEMA_MAX_REQUIRED :: nat where "PLUGIN_SCHEMA_MAX_REQUIRED = 128"
definition PLUGIN_SCHEMA_MAX_ENUM_VALUES :: nat where "PLUGIN_SCHEMA_MAX_ENUM_VALUES = 128"
definition PLUGIN_CATALOG_DIGEST_PREFIX :: rstr where "PLUGIN_CATALOG_DIGEST_PREFIX = lit ''sha256:''"

record PluginSchemaObservation =
  pso_input_schema :: json
  pso_output_schema :: "json option"
  pso_annotations :: "json option"

datatype PluginGatewayRequest =
  PluginCheck rstr | PluginReload | PluginProjectCatalog rstr | PluginProvidersList
| PluginToolsList rstr rstr | PluginToolsCall rstr rstr rstr json PluginSchemaObservation

primrec plugin_provider_binding :: "PluginGatewayRequest \<Rightarrow> (rstr \<times> rstr) option" where
  "plugin_provider_binding (PluginCheck p) = None"
| "plugin_provider_binding PluginReload = None"
| "plugin_provider_binding (PluginProjectCatalog project) = None"
| "plugin_provider_binding PluginProvidersList = None"
| "plugin_provider_binding (PluginToolsList p i) = Some (p, i)"
| "plugin_provider_binding (PluginToolsCall p i name arguments schema) = Some (p, i)"

datatype PluginDispatchState = PluginNotStarted | PluginOutcomeUnknown | PluginCompleted

record PluginTool =
  ptool_name :: rstr
  ptool_title :: "rstr option"
  ptool_description :: "rstr option"
  ptool_input_schema :: json
  ptool_output_schema :: "json option"
  ptool_annotations :: "json option"

definition plugin_schema_observation :: "PluginTool \<Rightarrow> PluginSchemaObservation" where
  "plugin_schema_observation tool = \<lparr>pso_input_schema = ptool_input_schema tool, pso_output_schema = ptool_output_schema tool,
     pso_annotations = ptool_annotations tool\<rparr>"

datatype PluginContent = PluginText rstr

record PluginToolResult =
  ptres_content :: "PluginContent list"
  ptres_structured_content :: "json option"
  ptres_is_error :: bool

record PluginProviderView =
  pview_provider_id :: rstr
  pview_provider_instance_id :: rstr
  pview_name :: rstr
  pview_status :: rstr
  pview_error_code :: "rstr option"

record PluginSelectionAnnotations =
  hint_read_only :: "bool option"
  hint_destructive :: "bool option"
  hint_idempotent :: "bool option"
  hint_open_world :: "bool option"

record ProjectPluginCatalogEntry =
  pent_plugin :: rstr
  pent_name :: rstr
  pent_tool :: rstr
  pent_title :: "rstr option"
  pent_description :: "rstr option"
  pent_annotations :: PluginSelectionAnnotations

record ProjectPluginCatalog =
  pcat_catalog_revision :: rstr
  pcat_total_count :: nat
  pcat_entries :: "ProjectPluginCatalogEntry list"

record PluginReloadFailure =
  pfail_provider_id :: rstr
  pfail_code :: rstr

datatype PluginCheckPhase =
  PhaseConfig | PhaseEnvironment | PhaseExecutable | PhaseSpawn | PhaseStdio | PhaseInitialize | PhaseToolsList
| PhaseValidation | PhaseReady

record PluginCheckToolSummary =
  psum_name :: rstr
  psum_title :: "rstr option"

record PluginCheckDiagnostic =
  pdiag_code :: rstr
  pdiag_tool :: "rstr option"
  pdiag_field :: "rstr option"

record PluginCheckReport =
  prep_provider_id :: rstr
  prep_ready :: bool
  prep_phase :: PluginCheckPhase
  prep_code :: "rstr option"
  prep_detail :: "rstr option"
  prep_tool_count :: nat
  prep_tools :: "PluginCheckToolSummary list"
  prep_diagnostic :: "PluginCheckDiagnostic option"

datatype PluginGatewayResponsePayload =
  PluginChecked PluginCheckReport
| PluginProviders "PluginProviderView list"
| PluginCatalogPayload ProjectPluginCatalog
| PluginReloaded "PluginProviderView list" "PluginReloadFailure list"
| PluginTools "PluginTool list"
| PluginToolResultPayload PluginToolResult

record PluginGatewayError =
  perr_code :: rstr
  perr_message :: rstr

record PluginGatewayResponse =
  pres_dispatch_state :: PluginDispatchState
  pres_payload :: "PluginGatewayResponsePayload option"
  pres_error :: "PluginGatewayError option"

definition plugin_success :: "PluginGatewayResponsePayload \<Rightarrow> PluginGatewayResponse" where
  "plugin_success payload = \<lparr>pres_dispatch_state = PluginCompleted, pres_payload = Some payload, pres_error = None\<rparr>"

definition plugin_error :: "PluginDispatchState \<Rightarrow> rstr \<Rightarrow> rstr \<Rightarrow> PluginGatewayResponse" where
  "plugin_error dispatch_state code message =
     \<lparr>pres_dispatch_state = dispatch_state, pres_payload = None, pres_error = Some \<lparr>perr_code = code, perr_message = message\<rparr>\<rparr>"

text \<open>The bytes that \<open>serde_json\<close> writes, or its error, and the digest in lower-case hexadecimal digits.\<close>

record PluginSerializer =
  pser_value :: "json \<Rightarrow> rstr option"
  pser_result :: "PluginToolResult \<Rightarrow> rstr option"
  pser_response :: "PluginGatewayResponse \<Rightarrow> rstr option"
  pser_sha256 :: "rstr \<Rightarrow> rstr"

section \<open>JSON values\<close>

fun get_member :: "rstr \<Rightarrow> json \<Rightarrow> json option" where
  "get_member key (JsonObject ms) = map_of ms key"
| "get_member key v = None"

fun as_object :: "json \<Rightarrow> (rstr \<times> json) list option" where
  "as_object (JsonObject ms) = Some ms"
| "as_object v = None"

fun as_array :: "json \<Rightarrow> json list option" where
  "as_array (JsonArray vs) = Some vs"
| "as_array v = None"

fun as_str :: "json \<Rightarrow> rstr option" where
  "as_str (JsonString s) = Some s"
| "as_str v = None"

fun as_bool :: "json \<Rightarrow> bool option" where
  "as_bool (JsonBool b) = Some b"
| "as_bool v = None"

definition json_digits_value :: "rstr \<Rightarrow> nat" where
  "json_digits_value s = foldl (\<lambda>n c. 10 * n + (c - 48)) 0 s"

definition number_as_u64 :: "rstr \<Rightarrow> nat option" where
  "number_as_u64 n = (if n \<noteq> [] \<and> list_all is_ascii_digit n \<and> json_digits_value n < 2 ^ 64 then Some (json_digits_value n) else None)"

definition number_is_integer :: "rstr \<Rightarrow> bool" where
  "number_is_integer n \<longleftrightarrow> number_as_u64 n \<noteq> None
     \<or> opt_ex (\<lambda>ds. ds \<noteq> [] \<and> list_all is_ascii_digit ds \<and> json_digits_value ds \<le> 2 ^ 63) (strip_prefix n [45])"

fun as_u64 :: "json \<Rightarrow> nat option" where
  "as_u64 (JsonNumber n) = number_as_u64 n"
| "as_u64 v = None"

text \<open>Equality of values: that of maps does not see the order of the members, and the two zeros of a float are equal.\<close>

definition zero_floats :: "rstr list" where
  "zero_floats = [lit ''0.0'', lit ''-0.0'']"

fun json_eq :: "json \<Rightarrow> json \<Rightarrow> bool" where
  "json_eq JsonNull w = (w = JsonNull)"
| "json_eq (JsonBool a) w = (w = JsonBool a)"
| "json_eq (JsonString a) w = (w = JsonString a)"
| "json_eq (JsonNumber a) w = (case w of JsonNumber b \<Rightarrow> a = b \<or> (a \<in> set zero_floats \<and> b \<in> set zero_floats) | _ \<Rightarrow> False)"
| "json_eq (JsonArray vs) w = (case w of JsonArray ws \<Rightarrow> list_all2 json_eq vs ws | _ \<Rightarrow> False)"
| "json_eq (JsonObject ms) w =
     (case w of
        JsonObject ns \<Rightarrow> length ms = length ns
          \<and> list_all (\<lambda>m. case map_of ns (fst m) of None \<Rightarrow> False | Some v \<Rightarrow> json_eq (snd m) v) ms
      | _ \<Rightarrow> False)"

section \<open>Identifiers and texts\<close>

definition plugin_validate_identifier :: "rstr \<Rightarrow> rstr \<Rightarrow> nat \<Rightarrow> bool \<Rightarrow> rstr + unit" where
  "plugin_validate_identifier v field max_bytes lowercase_only =
     (if v = [] \<or> max_bytes < str_len v
        then Inl (field @ lit '' must contain 1..='' @ show_nat max_bytes @ lit '' bytes'')
      else if \<not> list_all (\<lambda>b. (if lowercase_only then is_ascii_lowercase b else is_ascii_alphanumeric b)
              \<or> is_ascii_digit b \<or> b \<in> {95, 45, 46}) v
        then Inl (field @ lit '' contains unsupported characters'')
      else Inr ())"

definition plugin_validate_provider_id :: "rstr \<Rightarrow> rstr + unit" where
  "plugin_validate_provider_id v = plugin_validate_identifier v (lit ''provider_id'') PLUGIN_MAX_PROVIDER_ID_BYTES True"

definition plugin_validate_provider_instance_id :: "rstr \<Rightarrow> rstr + unit" where
  "plugin_validate_provider_instance_id v =
     plugin_validate_identifier v (lit ''provider_instance_id'') PLUGIN_MAX_PROVIDER_ID_BYTES False"

definition plugin_validate_tool_name :: "rstr \<Rightarrow> rstr + unit" where
  "plugin_validate_tool_name v = plugin_validate_identifier v (lit ''tool name'') PLUGIN_MAX_TOOL_NAME_BYTES False"

definition plugin_validate_text_controls :: "rstr \<Rightarrow> rstr \<Rightarrow> rstr + unit" where
  "plugin_validate_text_controls v field =
     reject_if (list_ex (\<lambda>c. is_control c \<and> c \<notin> {10, 13, 9}) v) (field @ lit '' contains unsupported control characters'')"

definition plugin_validate_provider_name :: "rstr \<Rightarrow> rstr + unit" where
  "plugin_validate_provider_name v =
     and_then (reject_if (trim v = [] \<or> PLUGIN_MAX_PROVIDER_NAME_BYTES < str_len v)
         (lit ''provider name must contain 1..='' @ show_nat PLUGIN_MAX_PROVIDER_NAME_BYTES @ lit '' bytes''))
       (plugin_validate_text_controls v (lit ''provider name''))"

definition validate_status_atom :: "rstr \<Rightarrow> rstr \<Rightarrow> rstr + unit" where
  "validate_status_atom v field =
     reject_if (v = [] \<or> 80 < str_len v \<or> \<not> list_all (\<lambda>b. is_ascii_lowercase b \<or> is_ascii_digit b \<or> b = 95) v)
       (field @ lit '' is invalid'')"

text \<open>An optional text that must not be empty (a title or a detail) and one that may be.\<close>

definition validate_optional_title :: "rstr \<Rightarrow> nat \<Rightarrow> rstr \<Rightarrow> rstr option \<Rightarrow> rstr + unit" where
  "validate_optional_title invalid max_bytes field v =
     (case v of
        None \<Rightarrow> Inr ()
      | Some s \<Rightarrow> and_then (reject_if (s = [] \<or> max_bytes < str_len s) invalid) (plugin_validate_text_controls s field))"

definition validate_optional_description :: "rstr \<Rightarrow> nat \<Rightarrow> rstr \<Rightarrow> rstr option \<Rightarrow> rstr + unit" where
  "validate_optional_description invalid max_bytes field v =
     (case v of
        None \<Rightarrow> Inr ()
      | Some s \<Rightarrow> and_then (reject_if (max_bytes < str_len s) invalid) (plugin_validate_text_controls s field))"

definition hex_after :: "rstr \<Rightarrow> rstr \<Rightarrow> rstr \<Rightarrow> rstr \<Rightarrow> rstr + unit" where
  "hex_after namespace bad_namespace bad_digits v =
     (case strip_prefix v namespace of
        None \<Rightarrow> Inl bad_namespace
      | Some hex \<Rightarrow> reject_if (str_len hex \<noteq> 64 \<or> \<not> list_all (\<lambda>b. is_ascii_digit b \<or> (97 \<le> b \<and> b \<le> 102)) hex) bad_digits)"

definition validate_plugin_catalog_digest :: "rstr \<Rightarrow> rstr + unit" where
  "validate_plugin_catalog_digest v = hex_after PLUGIN_CATALOG_DIGEST_PREFIX
     (lit ''plugin catalog digest must use sha256 namespace'')
     (lit ''plugin catalog digest must contain 64 lowercase hex digits'') v"

definition validate_project_plugin_catalog_revision :: "rstr \<Rightarrow> rstr + unit" where
  "validate_project_plugin_catalog_revision v = hex_after PLUGIN_PROJECT_CATALOG_REVISION_PREFIX
     (lit ''project Plugin catalog revision has invalid namespace'')
     (lit ''project Plugin catalog revision must contain 64 lowercase hex digits'') v"

fun plugin_validate_json_node :: "rstr \<Rightarrow> nat \<Rightarrow> nat \<Rightarrow> json \<Rightarrow> rstr + nat"
  and plugin_validate_json_items :: "rstr \<Rightarrow> nat \<Rightarrow> nat \<Rightarrow> json list \<Rightarrow> rstr + nat"
  and plugin_validate_json_members :: "rstr \<Rightarrow> nat \<Rightarrow> nat \<Rightarrow> (rstr \<times> json) list \<Rightarrow> rstr + nat" where
  "plugin_validate_json_node field depth nodes0 v =
     (if PLUGIN_MAX_JSON_DEPTH < depth then Inl (field @ lit '' exceeds JSON depth bound'')
      else let nodes = sat_add nodes0 1 in
        if PLUGIN_MAX_JSON_NODES < nodes then Inl (field @ lit '' exceeds JSON node bound'')
        else (case v of
            JsonString s \<Rightarrow>
              if PLUGIN_MAX_JSON_STRING_BYTES < str_len s then Inl (field @ lit '' contains an oversized string'') else Inr nodes
          | JsonArray vs \<Rightarrow> plugin_validate_json_items field (depth + 1) nodes vs
          | JsonObject ms \<Rightarrow> plugin_validate_json_members field (depth + 1) nodes ms
          | _ \<Rightarrow> Inr nodes))"
| "plugin_validate_json_items field depth nodes [] = Inr nodes"
| "plugin_validate_json_items field depth nodes (v # vs) =
     (case plugin_validate_json_node field depth nodes v of
        Inl e \<Rightarrow> Inl e
      | Inr nodes' \<Rightarrow> plugin_validate_json_items field depth nodes' vs)"
| "plugin_validate_json_members field depth nodes [] = Inr nodes"
| "plugin_validate_json_members field depth nodes (m # ms) =
     (case m of (key, v) \<Rightarrow>
        if 1024 < str_len key \<or> list_ex is_control key then Inl (field @ lit '' contains an invalid object key'')
        else (case plugin_validate_json_node field depth nodes v of
            Inl e \<Rightarrow> Inl e
          | Inr nodes' \<Rightarrow> plugin_validate_json_members field depth nodes' ms))"

definition plugin_validate_json_value :: "PluginSerializer \<Rightarrow> json \<Rightarrow> nat \<Rightarrow> rstr \<Rightarrow> rstr + unit" where
  "plugin_validate_json_value ser v max_bytes field =
     (case pser_value ser v of
        None \<Rightarrow> Inl (field @ lit '' could not be serialized'')
      | Some encoded \<Rightarrow>
          if max_bytes < length encoded then Inl (field @ lit '' exceeds maximum '' @ show_nat max_bytes @ lit '' bytes'')
          else map_sum id (\<lambda>_. ()) (plugin_validate_json_node field 0 0 v))"

section \<open>The Plugin Schema Profile\<close>

datatype SchemaProfileFailureKind = SchemaInvalid | SchemaUnsupportedKeyword

record SchemaProfileFailure =
  spf_kind :: SchemaProfileFailureKind
  spf_message :: rstr

definition schema_invalid :: "string \<Rightarrow> SchemaProfileFailure" where
  "schema_invalid message = \<lparr>spf_kind = SchemaInvalid, spf_message = lit message\<rparr>"

definition schema_unsupported :: SchemaProfileFailure where
  "schema_unsupported = \<lparr>spf_kind = SchemaUnsupportedKeyword,
     spf_message = lit ''schema contains a keyword outside the Native Plugin Schema Profile''\<rparr>"

datatype PluginSchemaType = TObject | TArray | TString | TNumber | TInteger | TBoolean | TNull

definition parse_plugin_schema_type :: "rstr \<Rightarrow> PluginSchemaType option" where
  "parse_plugin_schema_type s = map_of
     [(lit ''object'', TObject), (lit ''array'', TArray), (lit ''string'', TString), (lit ''number'', TNumber),
      (lit ''integer'', TInteger), (lit ''boolean'', TBoolean), (lit ''null'', TNull)] s"

definition profile_keywords :: "rstr list" where
  "profile_keywords = [lit ''type'', lit ''title'', lit ''description'', lit ''properties'', lit ''required'',
     lit ''additionalProperties'', lit ''enum'', lit ''const'', lit ''minLength'', lit ''maxLength'', lit ''minItems'',
     lit ''maxItems'', lit ''items'']"

definition refuse_schema :: "bool \<Rightarrow> string \<Rightarrow> SchemaProfileFailure + unit" where
  "refuse_schema b message = (if b then Inl (schema_invalid message) else Inr ())"

definition schema_type_of :: "(rstr \<times> json) list \<Rightarrow> PluginSchemaType option" where
  "schema_type_of ms = Option.bind (Option.bind (map_of ms (lit ''type'')) as_str) parse_plugin_schema_type"

definition preflight_annotation :: "json option \<Rightarrow> SchemaProfileFailure + unit" where
  "preflight_annotation v =
     (case v of
        None \<Rightarrow> Inr ()
      | Some a \<Rightarrow>
          (case as_str a of
             None \<Rightarrow> Inl (schema_invalid ''schema annotation must be string'')
           | Some text \<Rightarrow> refuse_schema (plugin_validate_text_controls text (lit ''schema annotation'') \<noteq> Inr ())
               ''schema annotation contains unsupported control characters''))"

definition preflight_enum :: "json option \<Rightarrow> SchemaProfileFailure + unit" where
  "preflight_enum v =
     (case v of
        None \<Rightarrow> Inr ()
      | Some a \<Rightarrow>
          (case as_array a of
             None \<Rightarrow> Inl (schema_invalid ''schema enum must be an array'')
           | Some vs \<Rightarrow> refuse_schema (vs = [] \<or> PLUGIN_SCHEMA_MAX_ENUM_VALUES < length vs) ''schema enum exceeds profile bounds''))"

definition has_keyword :: "string list \<Rightarrow> (rstr \<times> json) list \<Rightarrow> bool" where
  "has_keyword keys ms \<longleftrightarrow> list_ex (\<lambda>key. map_of ms (lit key) \<noteq> None) keys"

fun required_names :: "rstr list \<Rightarrow> json list \<Rightarrow> SchemaProfileFailure + rstr list" where
  "required_names names [] = Inr names"
| "required_names names (v # vs) =
     (case as_str v of
        None \<Rightarrow> Inl (schema_invalid ''required entries must be strings'')
      | Some name \<Rightarrow> if name \<in> set names then Inl (schema_invalid ''required entries must be unique'')
          else required_names (names @ [name]) vs)"

definition preflight_required :: "(rstr \<times> json) list option \<Rightarrow> (rstr \<times> json) list \<Rightarrow> SchemaProfileFailure + unit" where
  "preflight_required properties ms =
     (case map_of ms (lit ''required'') of
        None \<Rightarrow> Inr ()
      | Some r \<Rightarrow>
          (case as_array r of
             None \<Rightarrow> Inl (schema_invalid ''required must be an array'')
           | Some vs \<Rightarrow>
               if PLUGIN_SCHEMA_MAX_REQUIRED < length vs then Inl (schema_invalid ''required exceeds profile bounds'')
               else (case required_names [] vs of
                   Inl e \<Rightarrow> Inl e
                 | Inr names \<Rightarrow>
                     refuse_schema (map_of ms (lit ''additionalProperties'') = Some (JsonBool False)
                         \<and> (case properties of
                              Some ps \<Rightarrow> list_ex (\<lambda>name. map_of ps name = None) names
                            | None \<Rightarrow> names \<noteq> []))
                       ''required property is forbidden by additionalProperties false'')))"

definition bounded_schema_usize :: "json option \<Rightarrow> nat \<Rightarrow> SchemaProfileFailure + nat option" where
  "bounded_schema_usize v maximum =
     (case v of
        None \<Rightarrow> Inr None
      | Some a \<Rightarrow>
          (case as_u64 a of
             Some n \<Rightarrow> if n \<le> maximum then Inr (Some n) else Inl (schema_invalid ''schema bound is invalid or too large'')
           | None \<Rightarrow> Inl (schema_invalid ''schema bound is invalid or too large'')))"

definition preflight_bounds :: "json option \<Rightarrow> json option \<Rightarrow> nat \<Rightarrow> string \<Rightarrow> SchemaProfileFailure + unit" where
  "preflight_bounds least most maximum message =
     (case bounded_schema_usize least maximum of
        Inl e \<Rightarrow> Inl e
      | Inr minimum \<Rightarrow>
          (case bounded_schema_usize most maximum of
             Inl e \<Rightarrow> Inl e
           | Inr maximum \<Rightarrow> refuse_schema (opt_ex (\<lambda>a. opt_ex (\<lambda>b. b < a) maximum) minimum) message))"

text \<open>The checks of a node that come before and after those of its children; the children are the properties, then the
  items.\<close>

definition preflight_head :: "(rstr \<times> json) list \<Rightarrow> SchemaProfileFailure + PluginSchemaType" where
  "preflight_head ms =
     (if list_ex (\<lambda>m. fst m \<notin> set profile_keywords) ms then Inl schema_unsupported
      else (case schema_type_of ms of
          None \<Rightarrow> Inl (schema_invalid ''schema type must be one supported scalar type'')
        | Some schema_type \<Rightarrow>
            and_then (preflight_annotation (map_of ms (lit ''title'')))
           (and_then (preflight_annotation (map_of ms (lit ''description'')))
           (and_then (preflight_enum (map_of ms (lit ''enum'')))
           (and_then (refuse_schema (has_keyword [''properties'', ''required'', ''additionalProperties''] ms \<and> schema_type \<noteq> TObject)
               ''object schema keywords require type object'')
              (Inr schema_type))))))"

definition preflight_properties :: "(rstr \<times> json) list \<Rightarrow> SchemaProfileFailure + (rstr \<times> json) list option" where
  "preflight_properties ms =
     (case map_of ms (lit ''properties'') of
        None \<Rightarrow> Inr None
      | Some p \<Rightarrow>
          (case as_object p of
             None \<Rightarrow> Inl (schema_invalid ''properties must be an object'')
           | Some ps \<Rightarrow> if PLUGIN_SCHEMA_MAX_PROPERTIES < length ps then Inl (schema_invalid ''properties exceeds profile bounds'')
               else Inr (Some ps)))"

function preflight_plugin_schema_node :: "json \<Rightarrow> nat \<Rightarrow> nat \<Rightarrow> SchemaProfileFailure + PluginSchemaType"
  and preflight_children :: "json list \<Rightarrow> nat \<Rightarrow> nat \<Rightarrow> SchemaProfileFailure + unit" where
  "preflight_plugin_schema_node schema depth max_string =
     (if PLUGIN_MAX_JSON_DEPTH < depth then Inl (schema_invalid ''schema exceeds profile nesting bound'')
      else (case as_object schema of
          None \<Rightarrow> Inl (schema_invalid ''schema node must be an object'')
        | Some ms \<Rightarrow>
            (case preflight_head ms of
               Inl e \<Rightarrow> Inl e
             | Inr schema_type \<Rightarrow>
                 and_then (if schema_type = TObject
                     then (case preflight_properties ms of
                         Inl e \<Rightarrow> Inl e
                       | Inr properties \<Rightarrow>
                           and_then (preflight_children (case properties of None \<Rightarrow> [] | Some ps \<Rightarrow> map snd ps) (depth + 1) max_string)
                          (and_then (preflight_required properties ms)
                             (refuse_schema (opt_ex (\<lambda>v. as_bool v = None) (map_of ms (lit ''additionalProperties'')))
                                ''additionalProperties must be boolean'')))
                     else Inr ())
                (and_then (refuse_schema (has_keyword [''minLength'', ''maxLength''] ms \<and> schema_type \<noteq> TString)
                    ''string schema keywords require type string'')
                (and_then (if schema_type = TString
                     then preflight_bounds (map_of ms (lit ''minLength'')) (map_of ms (lit ''maxLength'')) max_string
                       ''minLength must not exceed maxLength''
                     else Inr ())
                (and_then (refuse_schema (has_keyword [''minItems'', ''maxItems'', ''items''] ms \<and> schema_type \<noteq> TArray)
                    ''array schema keywords require type array'')
                (and_then (if schema_type = TArray
                     then and_then (preflight_bounds (map_of ms (lit ''minItems'')) (map_of ms (lit ''maxItems'')) PLUGIN_MAX_JSON_NODES
                            ''minItems must not exceed maxItems'')
                         (case map_of ms (lit ''items'') of
                            None \<Rightarrow> Inr ()
                          | Some items \<Rightarrow> preflight_children [items] (depth + 1) max_string)
                     else Inr ())
                   (Inr schema_type))))))))"
| "preflight_children [] depth max_string = Inr ()"
| "preflight_children (child # children) depth max_string =
     (case preflight_plugin_schema_node child depth max_string of
        Inl e \<Rightarrow> Inl e
      | Inr _ \<Rightarrow> preflight_children children depth max_string)"
  by pat_completeness auto

termination
  by (relation "inv_image (less_than <*lex*> less_than)
      (case_sum (\<lambda>(s, d, m). (PLUGIN_MAX_JSON_DEPTH + 2 - d, 0)) (\<lambda>(cs, d, m). (PLUGIN_MAX_JSON_DEPTH + 2 - d, Suc (length cs))))")
    auto

definition preflight_plugin_schema_profile :: "json \<Rightarrow> bool \<Rightarrow> nat \<Rightarrow> SchemaProfileFailure + unit" where
  "preflight_plugin_schema_profile schema require_object_root max_string =
     (case preflight_plugin_schema_node schema 0 max_string of
        Inl e \<Rightarrow> Inl e
      | Inr schema_type \<Rightarrow> refuse_schema (require_object_root \<and> schema_type \<noteq> TObject) ''tool schema root type must be object'')"

definition validate_plugin_tool_schema_profile :: "PluginSerializer \<Rightarrow> json \<Rightarrow> rstr \<Rightarrow> nat \<Rightarrow> rstr + unit" where
  "validate_plugin_tool_schema_profile ser schema field max_string =
     and_then (reject_if (\<not> is_object schema) (field @ lit '' must be a JSON object''))
    (and_then (plugin_validate_json_value ser schema PLUGIN_MAX_SCHEMA_BYTES field)
       (map_sum (\<lambda>failure. field @ lit '': '' @ spf_message failure) id (preflight_plugin_schema_profile schema True max_string)))"

definition type_matches :: "PluginSchemaType \<Rightarrow> json \<Rightarrow> bool" where
  "type_matches schema_type v =
     (case schema_type of
        TObject \<Rightarrow> is_object v
      | TArray \<Rightarrow> as_array v \<noteq> None
      | TString \<Rightarrow> as_str v \<noteq> None
      | TNumber \<Rightarrow> (case v of JsonNumber n \<Rightarrow> True | _ \<Rightarrow> False)
      | TInteger \<Rightarrow> (case v of JsonNumber n \<Rightarrow> number_is_integer n | _ \<Rightarrow> False)
      | TBoolean \<Rightarrow> as_bool v \<noteq> None
      | TNull \<Rightarrow> v = JsonNull)"

definition required_present :: "(rstr \<times> json) list \<Rightarrow> (rstr \<times> json) list \<Rightarrow> bool" where
  "required_present ms fs \<longleftrightarrow>
     (case Option.bind (map_of ms (lit ''required'')) as_array of
        None \<Rightarrow> True
      | Some vs \<Rightarrow> list_all (\<lambda>name. map_of fs name \<noteq> None) (List.map_filter as_str vs))"

definition count_within :: "json option \<Rightarrow> json option \<Rightarrow> nat \<Rightarrow> bool" where
  "count_within least most n \<longleftrightarrow>
     opt_all (\<lambda>minimum. minimum \<le> n) (Option.bind least as_u64) \<and> opt_all (\<lambda>maximum. n \<le> maximum) (Option.bind most as_u64)"

function plugin_schema_matches :: "json \<Rightarrow> json \<Rightarrow> nat \<Rightarrow> bool" where
  "plugin_schema_matches schema v depth =
     (if PLUGIN_MAX_JSON_DEPTH < depth then False
      else (case as_object schema of
          None \<Rightarrow> False
        | Some ms \<Rightarrow>
            (case schema_type_of ms of
               None \<Rightarrow> False
             | Some schema_type \<Rightarrow>
                 if \<not> type_matches schema_type v then False
                 else if \<not> opt_all (\<lambda>expected. json_eq expected v) (map_of ms (lit ''const'')) then False
                 else if \<not> opt_all (\<lambda>vs. list_ex (\<lambda>expected. json_eq expected v) vs)
                     (Option.bind (map_of ms (lit ''enum'')) as_array) then False
                 else (case schema_type of
                     TObject \<Rightarrow>
                       (case as_object v of
                          None \<Rightarrow> False
                        | Some fs \<Rightarrow>
                            required_present ms fs
                            \<and> (let properties = Option.bind (map_of ms (lit ''properties'')) as_object;
                                   additional = (case Option.bind (map_of ms (lit ''additionalProperties'')) as_bool of
                                       None \<Rightarrow> True | Some b \<Rightarrow> b)
                               in list_all (\<lambda>f. case Option.bind properties (\<lambda>ps. map_of ps (fst f)) of
                                     Some child_schema \<Rightarrow> plugin_schema_matches child_schema (snd f) (depth + 1)
                                   | None \<Rightarrow> additional) fs))
                   | TArray \<Rightarrow>
                       (case as_array v of
                          None \<Rightarrow> False
                        | Some vs \<Rightarrow>
                            count_within (map_of ms (lit ''minItems'')) (map_of ms (lit ''maxItems'')) (length vs)
                            \<and> (case map_of ms (lit ''items'') of
                                 None \<Rightarrow> True
                               | Some items \<Rightarrow> list_all (\<lambda>x. plugin_schema_matches items x (depth + 1)) vs))
                   | TString \<Rightarrow>
                       (case as_str v of
                          None \<Rightarrow> False
                        | Some text \<Rightarrow> count_within (map_of ms (lit ''minLength'')) (map_of ms (lit ''maxLength'')) (length text))
                   | _ \<Rightarrow> True))))"
  by pat_completeness auto

termination
  by (relation "measure (\<lambda>(s, v, d). PLUGIN_MAX_JSON_DEPTH + 1 - d)") auto

declare plugin_schema_matches.simps [simp del]

definition validate_plugin_input_arguments :: "PluginSerializer \<Rightarrow> json \<Rightarrow> json \<Rightarrow> rstr + unit" where
  "validate_plugin_input_arguments ser input_schema arguments =
     and_then (validate_plugin_tool_schema_profile ser input_schema (lit ''tool inputSchema'') PLUGIN_MAX_ARGUMENT_BYTES)
    (and_then (plugin_validate_json_value ser arguments PLUGIN_MAX_ARGUMENT_BYTES (lit ''tool arguments''))
       (reject_if (\<not> plugin_schema_matches input_schema arguments 0)
          (lit ''tool arguments do not match the admitted Plugin Schema Profile'')))"

definition validate_plugin_structured_output :: "PluginSerializer \<Rightarrow> json \<Rightarrow> json \<Rightarrow> rstr + unit" where
  "validate_plugin_structured_output ser output_schema structured_content =
     and_then (validate_plugin_tool_schema_profile ser output_schema (lit ''tool outputSchema'') PLUGIN_MAX_STRUCTURED_CONTENT_BYTES)
    (and_then (plugin_validate_json_value ser structured_content PLUGIN_MAX_STRUCTURED_CONTENT_BYTES (lit ''structuredContent''))
       (reject_if (\<not> plugin_schema_matches output_schema structured_content 0)
          (lit ''structuredContent does not match the admitted Plugin Schema Profile'')))"

section \<open>Tools, results and responses\<close>

definition plugin_validate_schema_observation :: "PluginSerializer \<Rightarrow> PluginSchemaObservation \<Rightarrow> rstr + unit" where
  "plugin_validate_schema_observation ser observation =
     and_then (validate_plugin_tool_schema_profile ser (pso_input_schema observation) (lit ''tool inputSchema'') PLUGIN_MAX_ARGUMENT_BYTES)
    (and_then (case pso_output_schema observation of
         None \<Rightarrow> Inr ()
       | Some output \<Rightarrow> validate_plugin_tool_schema_profile ser output (lit ''tool outputSchema'') PLUGIN_MAX_STRUCTURED_CONTENT_BYTES)
       (case pso_annotations observation of
          None \<Rightarrow> Inr ()
        | Some annotations \<Rightarrow>
            and_then (reject_if (\<not> is_object annotations) (lit ''tool annotations must be a JSON object''))
              (plugin_validate_json_value ser annotations PLUGIN_MAX_SCHEMA_BYTES (lit ''tool annotations''))))"

definition plugin_validate_request :: "PluginSerializer \<Rightarrow> PluginGatewayRequest \<Rightarrow> rstr + unit" where
  "plugin_validate_request ser request =
     (case request of
        PluginCheck p \<Rightarrow> plugin_validate_provider_id p
      | PluginReload \<Rightarrow> Inr ()
      | PluginProvidersList \<Rightarrow> Inr ()
      | PluginProjectCatalog project_id \<Rightarrow>
          reject_if (trim project_id = [] \<or> 512 < str_len project_id \<or> list_ex is_control project_id)
            (lit ''project_id is invalid for Plugin project catalog discovery'')
      | PluginToolsList p i \<Rightarrow> and_then (plugin_validate_provider_id p) (plugin_validate_provider_instance_id i)
      | PluginToolsCall p i name arguments expected_schema \<Rightarrow>
          and_then (plugin_validate_provider_id p)
         (and_then (plugin_validate_provider_instance_id i)
         (and_then (plugin_validate_tool_name name)
         (and_then (reject_if (\<not> is_object arguments) (lit ''tool arguments must be a JSON object''))
         (and_then (plugin_validate_json_value ser arguments PLUGIN_MAX_ARGUMENT_BYTES (lit ''tool arguments''))
            (plugin_validate_schema_observation ser expected_schema))))))"

fun plugin_validate_tool_list :: "PluginSerializer \<Rightarrow> rstr set \<Rightarrow> PluginTool list \<Rightarrow> rstr + unit" where
  "plugin_validate_tool_list ser names [] = Inr ()"
| "plugin_validate_tool_list ser names (tool # tools) =
     and_then (plugin_validate_tool_name (ptool_name tool))
    (and_then (reject_if (ptool_name tool \<in> names) (lit ''duplicate tool name '' @ [39] @ ptool_name tool @ [39]))
    (and_then (validate_optional_title (lit ''tool title is empty or too long'') PLUGIN_MAX_PROVIDER_NAME_BYTES (lit ''tool title'')
        (ptool_title tool))
    (and_then (validate_optional_description (lit ''tool description exceeds plugin bounds'') PLUGIN_MAX_DESCRIPTION_BYTES
        (lit ''tool description'') (ptool_description tool))
    (and_then (plugin_validate_schema_observation ser (plugin_schema_observation tool))
       (plugin_validate_tool_list ser (insert (ptool_name tool) names) tools)))))"

definition plugin_validate_tools :: "PluginSerializer \<Rightarrow> PluginTool list \<Rightarrow> rstr + unit" where
  "plugin_validate_tools ser tools =
     and_then (reject_if (PLUGIN_MAX_TOOL_COUNT < length tools)
         (lit ''tool count exceeds maximum '' @ show_nat PLUGIN_MAX_TOOL_COUNT))
       (plugin_validate_tool_list ser {} tools)"

fun plugin_validate_content :: "nat \<Rightarrow> PluginContent list \<Rightarrow> rstr + nat" where
  "plugin_validate_content text_bytes [] = Inr text_bytes"
| "plugin_validate_content text_bytes (PluginText text # rest) =
     (if PLUGIN_MAX_TEXT_CONTENT_BYTES < str_len text then Inl (lit ''tool result text exceeds bound'')
      else and_then (plugin_validate_text_controls text (lit ''tool result text''))
        (plugin_validate_content (sat_add text_bytes (str_len text)) rest))"

definition plugin_validate_tool_result :: "PluginSerializer \<Rightarrow> PluginToolResult \<Rightarrow> rstr + unit" where
  "plugin_validate_tool_result ser result =
     (if PLUGIN_MAX_CONTENT_ITEMS < length (ptres_content result)
        then Inl (lit ''tool result content item count exceeds bound'')
      else (case plugin_validate_content 0 (ptres_content result) of
          Inl e \<Rightarrow> Inl e
        | Inr text_bytes \<Rightarrow>
            and_then (case ptres_structured_content result of
                None \<Rightarrow> Inr ()
              | Some structured \<Rightarrow>
                  and_then (reject_if (\<not> is_object structured) (lit ''structuredContent must be a JSON object''))
                    (plugin_validate_json_value ser structured PLUGIN_MAX_STRUCTURED_CONTENT_BYTES (lit ''structuredContent'')))
              (case pser_result ser result of
                 None \<Rightarrow> Inl (lit ''tool result could not be serialized'')
               | Some encoded \<Rightarrow>
                   reject_if (PLUGIN_MAX_RESULT_BYTES < length encoded \<or> PLUGIN_MAX_RESULT_BYTES < text_bytes)
                     (lit ''tool result exceeds aggregate bound''))))"

fun validate_provider_view_list :: "rstr set \<Rightarrow> PluginProviderView list \<Rightarrow> rstr + unit" where
  "validate_provider_view_list ids [] = Inr ()"
| "validate_provider_view_list ids (p # ps) =
     and_then (plugin_validate_provider_id (pview_provider_id p))
    (and_then (plugin_validate_provider_instance_id (pview_provider_instance_id p))
    (and_then (plugin_validate_provider_name (pview_name p))
    (and_then (validate_status_atom (pview_status p) (lit ''plugin provider status''))
    (and_then (case pview_error_code p of None \<Rightarrow> Inr () | Some code \<Rightarrow> validate_status_atom code (lit ''plugin provider error code''))
    (and_then (reject_if (pview_provider_id p \<in> ids) (lit ''duplicate plugin provider id''))
       (validate_provider_view_list (insert (pview_provider_id p) ids) ps))))))"

definition validate_provider_views :: "PluginProviderView list \<Rightarrow> rstr + unit" where
  "validate_provider_views ps =
     and_then (reject_if (PLUGIN_MAX_PROVIDERS < length ps) (lit ''plugin provider count exceeds bound''))
       (validate_provider_view_list {} ps)"

fun validate_reload_failures :: "PluginReloadFailure list \<Rightarrow> rstr + unit" where
  "validate_reload_failures [] = Inr ()"
| "validate_reload_failures (f # fs) =
     and_then (plugin_validate_provider_id (pfail_provider_id f))
    (and_then (validate_status_atom (pfail_code f) (lit ''plugin reload failure code''))
       (validate_reload_failures fs))"

text \<open>A catalog entry follows the one before it in the order of plugin and tool; strings are ordered by their bytes, which
  is the order of their characters.\<close>

fun validate_catalog_entries :: "(rstr \<times> rstr) option \<Rightarrow> ProjectPluginCatalogEntry list \<Rightarrow> rstr + unit" where
  "validate_catalog_entries before_it [] = Inr ()"
| "validate_catalog_entries before_it (entry # entries) =
     and_then (plugin_validate_provider_id (pent_plugin entry))
    (and_then (plugin_validate_provider_name (pent_name entry))
    (and_then (plugin_validate_tool_name (pent_tool entry))
    (and_then (validate_optional_title (lit ''project Plugin catalog tool title is invalid'') PLUGIN_MAX_PROVIDER_NAME_BYTES
        (lit ''project Plugin catalog tool title'') (pent_title entry))
    (and_then (validate_optional_description (lit ''project Plugin catalog description exceeds bound'')
        PLUGIN_MAX_PROJECT_CATALOG_DESCRIPTION_BYTES (lit ''project Plugin catalog description'') (pent_description entry))
    (and_then (reject_if (opt_ex (\<lambda>p. \<not> p < (pent_plugin entry, pent_tool entry)) before_it)
        (lit ''project Plugin catalog entries are not strictly ordered''))
       (validate_catalog_entries (Some (pent_plugin entry, pent_tool entry)) entries))))))"

definition validate_project_plugin_catalog :: "ProjectPluginCatalog \<Rightarrow> rstr + unit" where
  "validate_project_plugin_catalog catalog =
     and_then (validate_project_plugin_catalog_revision (pcat_catalog_revision catalog))
    (and_then (reject_if (pcat_total_count catalog < length (pcat_entries catalog)
         \<or> PLUGIN_MAX_PROJECT_CATALOG_ENTRIES < pcat_total_count catalog) (lit ''project Plugin catalog count is invalid''))
       (validate_catalog_entries None (pcat_entries catalog)))"

definition diagnostic_tool :: "rstr option \<Rightarrow> rstr + unit" where
  "diagnostic_tool tool =
     (case tool of None \<Rightarrow> Inl (lit ''Plugin check diagnostic requires tool'') | Some name \<Rightarrow> plugin_validate_tool_name name)"

definition validate_check_diagnostic :: "PluginCheckDiagnostic \<Rightarrow> rstr + unit" where
  "validate_check_diagnostic d =
     (let code = pdiag_code d; tool = pdiag_tool d; field = pdiag_field d in
      if code \<in> set [lit ''tools_list_result_malformed'', lit ''tool_count_exceeded'', lit ''tool_definition_invalid'']
         \<and> tool = None \<and> field = None then Inr ()
      else if code = lit ''invalid_tool_name'' \<and> tool = None \<and> field = Some (lit ''name'') then Inr ()
      else if code = lit ''duplicate_tool_name'' \<and> field = Some (lit ''name'') then diagnostic_tool tool
      else if code = lit ''invalid_tool_title'' \<and> field = Some (lit ''title'') then diagnostic_tool tool
      else if code = lit ''invalid_tool_description'' \<and> field = Some (lit ''description'') then diagnostic_tool tool
      else if code = lit ''input_schema_invalid'' \<and> field = Some (lit ''inputSchema'') then diagnostic_tool tool
      else if code = lit ''output_schema_invalid'' \<and> field = Some (lit ''outputSchema'') then diagnostic_tool tool
      else if code = lit ''schema_keyword_unsupported'' \<and> field \<in> set [Some (lit ''inputSchema''), Some (lit ''outputSchema'')]
        then diagnostic_tool tool
      else if code = lit ''annotations_invalid'' \<and> field = Some (lit ''annotations'') then diagnostic_tool tool
      else if code = lit ''schema_bounds_exceeded''
          \<and> field \<in> set [Some (lit ''inputSchema''), Some (lit ''outputSchema''), Some (lit ''annotations'')]
        then diagnostic_tool tool
      else Inl (lit ''Plugin check diagnostic fields are inconsistent with its code''))"

definition check_report_status :: "PluginCheckReport \<Rightarrow> rstr + unit" where
  "check_report_status report =
     (if prep_ready report
      then reject_if (prep_phase report \<noteq> PhaseReady \<or> prep_code report \<noteq> None \<or> prep_detail report \<noteq> None
          \<or> prep_diagnostic report \<noteq> None) (lit ''ready Plugin check report has inconsistent status fields'')
      else
        and_then (reject_if (prep_phase report = PhaseReady \<or> prep_code report = None)
            (lit ''failed Plugin check report has inconsistent status fields''))
       (and_then (reject_if (prep_tool_count report \<noteq> 0 \<or> prep_tools report \<noteq> [])
            (lit ''failed Plugin check report must not retain tool inventory''))
          (reject_if (prep_diagnostic report \<noteq> None
              \<and> (prep_phase report \<noteq> PhaseValidation \<or> prep_code report \<noteq> Some (lit ''plugin_tools_list_invalid'')))
            (lit ''Plugin check diagnostic is only valid for tools/list validation failures''))))"

fun validate_tool_summaries :: "PluginCheckToolSummary list \<Rightarrow> rstr + unit" where
  "validate_tool_summaries [] = Inr ()"
| "validate_tool_summaries (tool # tools) =
     and_then (plugin_validate_tool_name (psum_name tool))
    (and_then (validate_optional_title (lit ''Plugin check tool title is invalid'') PLUGIN_MAX_PROVIDER_NAME_BYTES
        (lit ''Plugin check tool title'') (psum_title tool))
       (validate_tool_summaries tools))"

definition validate_check_report :: "PluginCheckReport \<Rightarrow> rstr + unit" where
  "validate_check_report report =
     and_then (plugin_validate_provider_id (prep_provider_id report))
    (and_then (check_report_status report)
    (and_then (case prep_code report of None \<Rightarrow> Inr () | Some code \<Rightarrow> validate_status_atom code (lit ''Plugin check code''))
    (and_then (validate_optional_title (lit ''Plugin check detail exceeds bound'') PLUGIN_MAX_CHECK_DETAIL_BYTES
        (lit ''Plugin check detail'') (prep_detail report))
    (and_then (reject_if (prep_tool_count report \<noteq> length (prep_tools report) \<or> PLUGIN_MAX_TOOL_COUNT < length (prep_tools report))
        (lit ''Plugin check tool summary count is invalid''))
    (and_then (validate_tool_summaries (prep_tools report))
       (case prep_diagnostic report of None \<Rightarrow> Inr () | Some d \<Rightarrow> validate_check_diagnostic d))))))"

definition validate_plugin_payload :: "PluginSerializer \<Rightarrow> PluginGatewayResponsePayload \<Rightarrow> rstr + unit" where
  "validate_plugin_payload ser payload =
     (case payload of
        PluginChecked report \<Rightarrow> validate_check_report report
      | PluginProviders providers \<Rightarrow> validate_provider_views providers
      | PluginCatalogPayload catalog \<Rightarrow> validate_project_plugin_catalog catalog
      | PluginReloaded providers failures \<Rightarrow>
          and_then (validate_provider_views providers)
         (and_then (reject_if (PLUGIN_MAX_PROVIDERS < length failures) (lit ''plugin reload failure count exceeds bound''))
            (validate_reload_failures failures))
      | PluginTools tools \<Rightarrow> plugin_validate_tools ser tools
      | PluginToolResultPayload result \<Rightarrow> plugin_validate_tool_result ser result)"

definition plugin_validate_response :: "PluginSerializer \<Rightarrow> PluginGatewayResponse \<Rightarrow> rstr + unit" where
  "plugin_validate_response ser response =
     (case pser_response ser response of
        None \<Rightarrow> Inl (lit ''plugin gateway response could not be serialized'')
      | Some encoded \<Rightarrow>
          if PLUGIN_MAX_MESSAGE_BYTES < length encoded then Inl (lit ''plugin gateway response exceeds message bound'')
          else (case (pres_payload response, pres_error response) of
              (Some payload, None) \<Rightarrow>
                and_then (reject_if (pres_dispatch_state response \<noteq> PluginCompleted)
                    (lit ''plugin gateway payload requires completed dispatch''))
                  (validate_plugin_payload ser payload)
            | (None, Some e) \<Rightarrow>
                and_then (validate_status_atom (perr_code e) (lit ''plugin gateway error code''))
               (and_then (reject_if (perr_message e = [] \<or> 512 < str_len (perr_message e)) (lit ''plugin gateway error message is invalid''))
                  (plugin_validate_text_controls (perr_message e) (lit ''plugin gateway error message'')))
            | _ \<Rightarrow> Inl (lit ''plugin gateway response must contain exactly one payload or error'')))"

definition plugin_validate_response_for_request ::
    "PluginSerializer \<Rightarrow> PluginGatewayRequest \<Rightarrow> PluginGatewayResponse \<Rightarrow> rstr + unit" where
  "plugin_validate_response_for_request ser request response =
     and_then (plugin_validate_response ser response)
       (if pres_error response \<noteq> None then Inr ()
        else (case (request, pres_payload response) of
            (PluginCheck p, Some (PluginChecked report)) \<Rightarrow>
              reject_if (prep_provider_id report \<noteq> p) (lit ''Plugin check response provider_id does not match request'')
          | (PluginReload, Some (PluginReloaded _ _)) \<Rightarrow> Inr ()
          | (PluginProjectCatalog _, Some (PluginCatalogPayload _)) \<Rightarrow> Inr ()
          | (PluginProvidersList, Some (PluginProviders _)) \<Rightarrow> Inr ()
          | (PluginToolsList _ _, Some (PluginTools _)) \<Rightarrow> Inr ()
          | (PluginToolsCall _ _ _ _ _, Some (PluginToolResultPayload _)) \<Rightarrow> Inr ()
          | _ \<Rightarrow> Inl (lit ''Plugin gateway response kind does not match request operation'')))"

section \<open>Diagnosing an invalid tool list\<close>

definition plugin_diagnostic :: "string \<Rightarrow> rstr option \<Rightarrow> string option \<Rightarrow> PluginCheckDiagnostic" where
  "plugin_diagnostic code tool field = \<lparr>pdiag_code = lit code, pdiag_tool = tool, pdiag_field = map_option lit field\<rparr>"

definition diagnose_schema ::
    "PluginSerializer \<Rightarrow> rstr \<Rightarrow> string \<Rightarrow> json \<Rightarrow> string \<Rightarrow> nat option \<Rightarrow> PluginCheckDiagnostic option" where
  "diagnose_schema ser tool field v invalid_code max_string =
     (if \<not> is_object v then Some (plugin_diagnostic invalid_code (Some tool) (Some field))
      else (case plugin_validate_json_value ser v PLUGIN_MAX_SCHEMA_BYTES (lit field) of
          Inl e \<Rightarrow> Some (plugin_diagnostic
            (if str_contains e (lit ''exceeds'') \<or> str_contains e (lit ''oversized'') then ''schema_bounds_exceeded'' else invalid_code)
            (Some tool) (Some field))
        | Inr _ \<Rightarrow>
            (case max_string of
               None \<Rightarrow> None
             | Some m \<Rightarrow>
                 (case preflight_plugin_schema_profile v True m of
                    Inl failure \<Rightarrow> Some (plugin_diagnostic
                      (case spf_kind failure of SchemaUnsupportedKeyword \<Rightarrow> ''schema_keyword_unsupported'' | SchemaInvalid \<Rightarrow> invalid_code)
                      (Some tool) (Some field))
                  | Inr _ \<Rightarrow> None))))"

definition diagnose_tool :: "PluginSerializer \<Rightarrow> rstr set \<Rightarrow> PluginTool \<Rightarrow> PluginCheckDiagnostic option" where
  "diagnose_tool ser names tool =
     (if plugin_validate_tool_name (ptool_name tool) \<noteq> Inr () then Some (plugin_diagnostic ''invalid_tool_name'' None (Some ''name''))
      else if ptool_name tool \<in> names then Some (plugin_diagnostic ''duplicate_tool_name'' (Some (ptool_name tool)) (Some ''name''))
      else if opt_ex (\<lambda>title. title = [] \<or> PLUGIN_MAX_PROVIDER_NAME_BYTES < str_len title
          \<or> plugin_validate_text_controls title (lit ''tool title'') \<noteq> Inr ()) (ptool_title tool)
        then Some (plugin_diagnostic ''invalid_tool_title'' (Some (ptool_name tool)) (Some ''title''))
      else if opt_ex (\<lambda>d. PLUGIN_MAX_DESCRIPTION_BYTES < str_len d
          \<or> plugin_validate_text_controls d (lit ''tool description'') \<noteq> Inr ()) (ptool_description tool)
        then Some (plugin_diagnostic ''invalid_tool_description'' (Some (ptool_name tool)) (Some ''description''))
      else (case diagnose_schema ser (ptool_name tool) ''inputSchema'' (ptool_input_schema tool) ''input_schema_invalid''
            (Some PLUGIN_MAX_ARGUMENT_BYTES) of
          Some d \<Rightarrow> Some d
        | None \<Rightarrow>
            (case Option.bind (ptool_output_schema tool) (\<lambda>output.
                diagnose_schema ser (ptool_name tool) ''outputSchema'' output ''output_schema_invalid''
                  (Some PLUGIN_MAX_STRUCTURED_CONTENT_BYTES)) of
               Some d \<Rightarrow> Some d
             | None \<Rightarrow> Option.bind (ptool_annotations tool) (\<lambda>annotations.
                 diagnose_schema ser (ptool_name tool) ''annotations'' annotations ''annotations_invalid'' None))))"

fun diagnose_tool_list :: "PluginSerializer \<Rightarrow> rstr set \<Rightarrow> PluginTool list \<Rightarrow> PluginCheckDiagnostic" where
  "diagnose_tool_list ser names [] = plugin_diagnostic ''tool_definition_invalid'' None None"
| "diagnose_tool_list ser names (tool # tools) =
     (case diagnose_tool ser names tool of
        Some d \<Rightarrow> d
      | None \<Rightarrow> diagnose_tool_list ser (insert (ptool_name tool) names) tools)"

definition diagnose_invalid_tools :: "PluginSerializer \<Rightarrow> PluginTool list \<Rightarrow> PluginCheckDiagnostic" where
  "diagnose_invalid_tools ser tools =
     (if PLUGIN_MAX_TOOL_COUNT < length tools then plugin_diagnostic ''tool_count_exceeded'' None None
      else diagnose_tool_list ser {} tools)"

section \<open>Catalogs\<close>

text \<open>The JSON value of a tool has its members in the order of the fields, without those that are absent.\<close>

definition tool_value :: "PluginTool \<Rightarrow> json" where
  "tool_value tool = JsonObject (
     [(lit ''name'', JsonString (ptool_name tool))]
     @ (case ptool_title tool of None \<Rightarrow> [] | Some t \<Rightarrow> [(lit ''title'', JsonString t)])
     @ (case ptool_description tool of None \<Rightarrow> [] | Some d \<Rightarrow> [(lit ''description'', JsonString d)])
     @ [(lit ''inputSchema'', ptool_input_schema tool)]
     @ (case ptool_output_schema tool of None \<Rightarrow> [] | Some v \<Rightarrow> [(lit ''outputSchema'', v)])
     @ (case ptool_annotations tool of None \<Rightarrow> [] | Some v \<Rightarrow> [(lit ''annotations'', v)]))"

fun collect_parts :: "(rstr + rstr) list \<Rightarrow> rstr + rstr list" where
  "collect_parts [] = Inr []"
| "collect_parts (r # rest) = (case r of Inl e \<Rightarrow> Inl e | Inr x \<Rightarrow> map_sum id ((#) x) (collect_parts rest))"

definition or_error :: "string \<Rightarrow> rstr option \<Rightarrow> rstr + rstr" where
  "or_error message v = (case v of None \<Rightarrow> Inl (lit message) | Some x \<Rightarrow> Inr x)"

text \<open>The loop over the keys in their order; the value of a key is written in the same step.\<close>

fun write_canonical_json :: "PluginSerializer \<Rightarrow> json \<Rightarrow> rstr + rstr" where
  "write_canonical_json ser (JsonArray vs) =
     map_sum id (\<lambda>parts. [91] @ join [44] parts @ [93]) (collect_parts (map (write_canonical_json ser) vs))"
| "write_canonical_json ser (JsonObject ms) =
     map_sum id (\<lambda>parts. [123] @ join [44] parts @ [125])
       (collect_parts (map (\<lambda>m. case or_error ''plugin catalog key could not be serialized'' (pser_value ser (JsonString (fst m))) of
            Inl e \<Rightarrow> Inl e
          | Inr key \<Rightarrow> map_sum id (\<lambda>v. key @ [58] @ v) (snd m))
          (sort_key fst (map (\<lambda>m. (fst m, write_canonical_json ser (snd m))) ms))))"
| "write_canonical_json ser v = or_error ''plugin catalog value could not be serialized'' (pser_value ser v)"

record PluginCatalog =
  catalog_tools :: "PluginTool list"
  catalog_digest :: rstr

definition plugin_catalog_digest_from_canonical_tools :: "PluginSerializer \<Rightarrow> PluginTool list \<Rightarrow> rstr + rstr" where
  "plugin_catalog_digest_from_canonical_tools ser tools =
     map_sum id (\<lambda>canonical. PLUGIN_CATALOG_DIGEST_PREFIX @ pser_sha256 ser (lit ''webcodex.plugin-catalog.v1'' @ [0] @ canonical))
       (write_canonical_json ser (JsonArray (map tool_value tools)))"

definition admit_catalog :: "PluginSerializer \<Rightarrow> PluginTool list \<Rightarrow> rstr + PluginCatalog" where
  "admit_catalog ser tools =
     (case plugin_validate_tools ser tools of
        Inl e \<Rightarrow> Inl e
      | Inr _ \<Rightarrow>
          let sorted_tools = sort_key ptool_name tools in
          (case plugin_catalog_digest_from_canonical_tools ser sorted_tools of
             Inl e \<Rightarrow> Inl e
           | Inr digest \<Rightarrow> Inr \<lparr>catalog_tools = sorted_tools, catalog_digest = digest\<rparr>))"

definition catalog_tool :: "PluginCatalog \<Rightarrow> rstr \<Rightarrow> PluginTool option" where
  "catalog_tool catalog name = find (\<lambda>tool. ptool_name tool = name) (catalog_tools catalog)"

definition annotations_from_value :: "json option \<Rightarrow> PluginSelectionAnnotations" where
  "annotations_from_value v =
     (let flag = (\<lambda>key. Option.bind (Option.bind v (get_member (lit key))) as_bool) in
      \<lparr>hint_read_only = flag ''readOnlyHint'', hint_destructive = flag ''destructiveHint'',
       hint_idempotent = flag ''idempotentHint'', hint_open_world = flag ''openWorldHint''\<rparr>)"

definition annotations_is_empty :: "PluginSelectionAnnotations \<Rightarrow> bool" where
  "annotations_is_empty a \<longleftrightarrow> hint_read_only a = None \<and> hint_destructive a = None \<and> hint_idempotent a = None \<and> hint_open_world a = None"

section \<open>The matcher decides the profile\<close>

fun json_wf :: "json \<Rightarrow> bool" where
  "json_wf (JsonArray vs) = list_all json_wf vs"
| "json_wf (JsonObject ms) = (distinct (map fst ms) \<and> list_all (\<lambda>m. json_wf (snd m)) ms)"
| "json_wf v = True"

text \<open>JSON Schema: a value satisfies a schema when it satisfies each of its keywords, and a keyword for objects, arrays or
  strings says nothing of other values.\<close>

definition keyword_holds :: "rstr \<Rightarrow> json \<Rightarrow> json \<Rightarrow> bool" where
  "keyword_holds key a v \<longleftrightarrow>
     (if key = lit ''type'' then opt_ex (\<lambda>t. type_matches t v) (Option.bind (as_str a) parse_plugin_schema_type)
      else if key = lit ''const'' then json_eq a v
      else if key = lit ''enum'' then opt_all (\<lambda>vs. list_ex (\<lambda>x. json_eq x v) vs) (as_array a)
      else if key = lit ''required''
        then (case v of JsonObject fs \<Rightarrow> opt_all (list_all (\<lambda>n. opt_all (\<lambda>name. map_of fs name \<noteq> None) (as_str n))) (as_array a) | _ \<Rightarrow> True)
      else if key = lit ''minLength'' then (case v of JsonString s \<Rightarrow> opt_all (\<lambda>n. n \<le> length s) (as_u64 a) | _ \<Rightarrow> True)
      else if key = lit ''maxLength'' then (case v of JsonString s \<Rightarrow> opt_all (\<lambda>n. length s \<le> n) (as_u64 a) | _ \<Rightarrow> True)
      else if key = lit ''minItems'' then (case v of JsonArray vs \<Rightarrow> opt_all (\<lambda>n. n \<le> length vs) (as_u64 a) | _ \<Rightarrow> True)
      else if key = lit ''maxItems'' then (case v of JsonArray vs \<Rightarrow> opt_all (\<lambda>n. length vs \<le> n) (as_u64 a) | _ \<Rightarrow> True)
      else True)"

definition declared_names :: "(rstr \<times> json) list \<Rightarrow> rstr set" where
  "declared_names ms = (case map_of ms (lit ''properties'') of Some (JsonObject ps) \<Rightarrow> fst ` set ps | _ \<Rightarrow> {})"

lemma member_smaller:
  assumes "m \<in> set ms"
  shows "size (snd m) < size (JsonObject ms)"
proof -
  have "size_prod (\<lambda>_. 0) size m \<le> size_list (size_prod (\<lambda>_. 0) size) ms"
    using assms by (induction ms) auto
  then show ?thesis by (cases m) simp
qed

lemma nested_smaller: "m \<in> set ms \<Longrightarrow> snd m = JsonObject ps \<Longrightarrow> p \<in> set ps \<Longrightarrow> size (snd p) < size (JsonObject ms)"
  using member_smaller [of m ms] member_smaller [of p ps] by (metis less_trans)

function json_schema_holds :: "json \<Rightarrow> json \<Rightarrow> bool" where
  "json_schema_holds schema v =
     (case schema of
        JsonObject ms \<Rightarrow>
          list_all (\<lambda>m.
            if fst m = lit ''properties'' then
              (case snd m of
                 JsonObject ps \<Rightarrow> list_all (\<lambda>p. case get_member (fst p) v of None \<Rightarrow> True | Some c \<Rightarrow> json_schema_holds (snd p) c) ps
               | _ \<Rightarrow> True)
            else if fst m = lit ''items'' then (case v of JsonArray vs \<Rightarrow> list_all (\<lambda>x. json_schema_holds (snd m) x) vs | _ \<Rightarrow> True)
            else if fst m = lit ''additionalProperties'' then
              (case v of JsonObject fs \<Rightarrow> snd m = JsonBool False \<longrightarrow> fst ` set fs \<subseteq> declared_names ms | _ \<Rightarrow> True)
            else keyword_holds (fst m) (snd m) v) ms
      | _ \<Rightarrow> False)"
  by pat_completeness auto

termination
  by (relation "measure (\<lambda>(schema, v). size schema)") (auto simp: nested_smaller member_smaller simp del: json.size)

declare json_schema_holds.simps [simp del]

lemma keywords_conj:
  assumes "distinct (map fst ms)" "\<forall>m \<in> set ms. fst m \<in> set ks"
  shows "list_all (\<lambda>m. K (fst m) (snd m)) ms \<longleftrightarrow> list_all (\<lambda>k. opt_all (K k) (map_of ms k)) ks"
proof
  assume l: "list_all (\<lambda>m. K (fst m) (snd m)) ms"
  show "list_all (\<lambda>k. opt_all (K k) (map_of ms k)) ks"
    using l by (auto simp: list_all_iff opt_all_def split: option.splits dest!: map_of_SomeD)
next
  assume r: "list_all (\<lambda>k. opt_all (K k) (map_of ms k)) ks"
  show "list_all (\<lambda>m. K (fst m) (snd m)) ms"
    unfolding list_all_iff
  proof
    fix m assume m: "m \<in> set ms"
    then have "map_of ms (fst m) = Some (snd m)" using assms(1) by (simp add: map_of_is_SomeI)
    then show "K (fst m) (snd m)" using r m assms(2) by (fastforce simp: list_all_iff)
  qed
qed

declare preflight_plugin_schema_node.simps [simp del]

lemma preflight_children_Inr:
  "preflight_children cs d m = Inr () \<Longrightarrow> c \<in> set cs \<Longrightarrow> \<exists>t. preflight_plugin_schema_node c d m = Inr t"
  by (induction cs) (auto split: sum.splits)

lemma as_object_Some [simp]: "as_object v = Some ms \<longleftrightarrow> v = JsonObject ms"
  by (cases v) auto

lemma preflight_head_Inr:
  "preflight_head ms = Inr t \<Longrightarrow> (\<forall>m \<in> set ms. fst m \<in> set profile_keywords) \<and> schema_type_of ms = Some t"
  by (auto simp: preflight_head_def list_ex_iff split: if_splits option.splits)

lemma preflight_node_Inr:
  assumes "preflight_plugin_schema_node schema d m = Inr t"
  obtains ms where "schema = JsonObject ms" "d \<le> PLUGIN_MAX_JSON_DEPTH" "\<forall>m \<in> set ms. fst m \<in> set profile_keywords"
    "schema_type_of ms = Some t"
    "t = TObject \<longrightarrow> opt_all (\<lambda>v. \<exists>ps. v = JsonObject ps \<and> (\<forall>p \<in> set ps. \<exists>t. preflight_plugin_schema_node (snd p) (d + 1) m = Inr t))
       (map_of ms (lit ''properties''))"
    "t = TObject \<longrightarrow> opt_all (\<lambda>v. \<exists>b. v = JsonBool b) (map_of ms (lit ''additionalProperties''))"
    "t = TArray \<longrightarrow> opt_all (\<lambda>v. \<exists>t. preflight_plugin_schema_node v (d + 1) m = Inr t) (map_of ms (lit ''items''))"
proof -
  note node = assms [unfolded preflight_plugin_schema_node.simps [of schema d m]]
  obtain ms where ms: "schema = JsonObject ms" "d \<le> PLUGIN_MAX_JSON_DEPTH"
    using node by (cases schema) (auto split: if_splits)
  obtain t' where h: "preflight_head ms = Inr t'"
    using node ms by (auto split: sum.splits)
  have t': "t' = t" using node ms h by simp
  have 1: "opt_all (\<lambda>v. \<exists>ps. v = JsonObject ps \<and> (\<forall>p \<in> set ps. \<exists>t. preflight_plugin_schema_node (snd p) (d + 1) m = Inr t))
       (map_of ms (lit ''properties''))" if ty: "t = TObject"
  proof (cases "map_of ms (lit ''properties'')")
    case (Some v)
    obtain ps where ps: "v = JsonObject ps" "preflight_children (map snd ps) (d + 1) m = Inr ()"
      using node ms h t' ty Some
      by (auto simp: preflight_properties_def split: sum.splits option.splits if_splits)
    then show ?thesis using Some preflight_children_Inr [OF ps(2)] by auto
  qed simp
  have 2: "opt_all (\<lambda>v. \<exists>b. v = JsonBool b) (map_of ms (lit ''additionalProperties''))" if ty: "t = TObject"
  proof (cases "map_of ms (lit ''additionalProperties'')")
    case (Some v)
    have "as_bool v \<noteq> None"
      using node ms h t' ty Some
      by (auto simp: refuse_schema_def split: sum.splits if_splits)
    then show ?thesis using Some by (cases v) auto
  qed simp
  have 3: "opt_all (\<lambda>v. \<exists>t. preflight_plugin_schema_node v (d + 1) m = Inr t) (map_of ms (lit ''items''))" if ty: "t = TArray"
  proof (cases "map_of ms (lit ''items'')")
    case (Some v)
    have "preflight_children [v] (d + 1) m = Inr ()"
      using node ms h t' ty Some by (simp del: preflight_children.simps)
    then show ?thesis using Some preflight_children_Inr [of "[v]"] by simp
  qed simp
  show ?thesis
    using that ms h t' preflight_head_Inr [OF h] 1 2 3 by blast
qed

text \<open>The keywords of a schema, one after the other.\<close>

definition keyword_of :: "(rstr \<times> json) list \<Rightarrow> json \<Rightarrow> rstr \<Rightarrow> json \<Rightarrow> bool" where
  "keyword_of ms v key a \<longleftrightarrow>
     (if key = lit ''properties'' then
        (case a of
           JsonObject ps \<Rightarrow> list_all (\<lambda>p. case get_member (fst p) v of None \<Rightarrow> True | Some c \<Rightarrow> json_schema_holds (snd p) c) ps
         | _ \<Rightarrow> True)
      else if key = lit ''items'' then (case v of JsonArray vs \<Rightarrow> list_all (\<lambda>x. json_schema_holds a x) vs | _ \<Rightarrow> True)
      else if key = lit ''additionalProperties'' then
        (case v of JsonObject fs \<Rightarrow> a = JsonBool False \<longrightarrow> fst ` set fs \<subseteq> declared_names ms | _ \<Rightarrow> True)
      else keyword_holds key a v)"

lemma holds_keywords:
  assumes "distinct (map fst ms)" "\<forall>m \<in> set ms. fst m \<in> set profile_keywords"
  shows "json_schema_holds (JsonObject ms) v \<longleftrightarrow> list_all (\<lambda>k. opt_all (keyword_of ms v k) (map_of ms k)) profile_keywords"
  using keywords_conj [OF assms, of "keyword_of ms v"]
  by (simp add: json_schema_holds.simps [of "JsonObject ms"] keyword_of_def)

lemmas keyword_simps = profile_keywords_def lit_inject keyword_of_def keyword_holds_def

lemma map_filter_all: "list_all P (List.map_filter f xs) \<longleftrightarrow> list_all (\<lambda>x. opt_all P (f x)) xs"
  by (induction xs) (auto simp: List.map_filter_def opt_all_def split: option.splits)

lemma member_iff: "map_of fs name \<noteq> None \<longleftrightarrow> name \<in> fst ` set fs"
  by (metis map_of_eq_None_iff)

lemma properties_swap:
  assumes "distinct (map fst ps)" "distinct (map fst fs)"
  shows "list_all (\<lambda>f. case map_of ps (fst f) of Some c \<Rightarrow> Q c (snd f) | None \<Rightarrow> b) fs \<longleftrightarrow>
     list_all (\<lambda>p. case map_of fs (fst p) of None \<Rightarrow> True | Some x \<Rightarrow> Q (snd p) x) ps \<and> (\<not> b \<longrightarrow> fst ` set fs \<subseteq> fst ` set ps)"
    (is "?l \<longleftrightarrow> ?r1 \<and> ?r2")
proof
  assume l: ?l
  have ?r1
    unfolding list_all_iff
  proof
    fix p assume p: "p \<in> set ps"
    show "case map_of fs (fst p) of None \<Rightarrow> True | Some x \<Rightarrow> Q (snd p) x"
    proof (cases "map_of fs (fst p)")
      case (Some x)
      then have f: "(fst p, x) \<in> set fs" by (rule map_of_SomeD)
      have "map_of ps (fst p) = Some (snd p)" using p assms(1) by simp
      then show ?thesis using l f Some by (force simp: list_all_iff)
    qed simp
  qed
  moreover have ?r2
  proof (intro impI subsetI)
    fix name assume b: "\<not> b" and "name \<in> fst ` set fs"
    then obtain f where f: "f \<in> set fs" "name = fst f" by blast
    have "map_of ps (fst f) \<noteq> None" using l f(1) b by (cases "map_of ps (fst f)") (auto simp: list_all_iff)
    then show "name \<in> fst ` set ps" using f(2) member_iff [of ps name] by simp
  qed
  ultimately show "?r1 \<and> ?r2" ..
next
  assume r: "?r1 \<and> ?r2"
  show ?l
    unfolding list_all_iff
  proof
    fix f assume f: "f \<in> set fs"
    show "case map_of ps (fst f) of Some c \<Rightarrow> Q c (snd f) | None \<Rightarrow> b"
    proof (cases "map_of ps (fst f)")
      case None
      then have "fst f \<notin> fst ` set ps" using member_iff [of ps "fst f"] by simp
      then have b using r f by blast
      then show ?thesis using None by simp
    next
      case (Some c)
      then have p: "(fst f, c) \<in> set ps" by (rule map_of_SomeD)
      have "map_of fs (fst f) = Some (snd f)" using f assms(2) by simp
      then show ?thesis using r p Some by (force simp: list_all_iff)
    qed
  qed
qed

lemma opt_all_bind: "opt_all P (Option.bind x f) \<longleftrightarrow> opt_all (\<lambda>a. opt_all P (f a)) x"
  by (cases x) auto

lemma opt_all_True: "opt_all (\<lambda>a. True) x \<longleftrightarrow> True"
  by (cases x) auto

lemma holds_split:
  assumes "distinct (map fst ms)" "\<forall>m \<in> set ms. fst m \<in> set profile_keywords" "schema_type_of ms = Some t"
  shows "json_schema_holds (JsonObject ms) v \<longleftrightarrow>
     type_matches t v \<and> opt_all (\<lambda>a. json_eq a v) (map_of ms (lit ''const''))
     \<and> opt_all (\<lambda>vs. list_ex (\<lambda>x. json_eq x v) vs) (Option.bind (map_of ms (lit ''enum'')) as_array)
     \<and> list_all (\<lambda>k. opt_all (keyword_of ms v k) (map_of ms k))
         [lit ''properties'', lit ''required'', lit ''additionalProperties'', lit ''minLength'', lit ''maxLength'', lit ''minItems'',
          lit ''maxItems'', lit ''items'']"
proof -
  have ty: "opt_all (keyword_of ms v (lit ''type'')) (map_of ms (lit ''type'')) \<longleftrightarrow> type_matches t v"
    using assms(3) by (cases "map_of ms (lit ''type'')") (auto simp: schema_type_of_def keyword_simps bind_eq_Some_conv)
  have kw: "keyword_of ms v (lit ''const'') = (\<lambda>a. json_eq a v)" "keyword_of ms v (lit ''title'') = (\<lambda>a. True)"
      "keyword_of ms v (lit ''description'') = (\<lambda>a. True)"
      "keyword_of ms v (lit ''enum'') = (\<lambda>a. opt_all (\<lambda>vs. list_ex (\<lambda>x. json_eq x v) vs) (as_array a))"
    by (auto simp: fun_eq_iff keyword_simps)
  show ?thesis
    unfolding holds_keywords [OF assms(1,2)] profile_keywords_def opt_all_bind list.pred_inject ty kw opt_all_True by blast
qed

lemma matches_split:
  assumes "d \<le> PLUGIN_MAX_JSON_DEPTH" "schema_type_of ms = Some t"
  shows "plugin_schema_matches (JsonObject ms) v d \<longleftrightarrow>
     type_matches t v \<and> opt_all (\<lambda>a. json_eq a v) (map_of ms (lit ''const''))
     \<and> opt_all (\<lambda>vs. list_ex (\<lambda>x. json_eq x v) vs) (Option.bind (map_of ms (lit ''enum'')) as_array)
     \<and> (case v of
          JsonObject fs \<Rightarrow> required_present ms fs \<and>
            list_all (\<lambda>f. case Option.bind (Option.bind (map_of ms (lit ''properties'')) as_object) (\<lambda>ps. map_of ps (fst f)) of
                Some child \<Rightarrow> plugin_schema_matches child (snd f) (d + 1)
              | None \<Rightarrow> (case Option.bind (map_of ms (lit ''additionalProperties'')) as_bool of None \<Rightarrow> True | Some b \<Rightarrow> b)) fs
        | JsonArray vs \<Rightarrow> count_within (map_of ms (lit ''minItems'')) (map_of ms (lit ''maxItems'')) (length vs)
            \<and> opt_all (\<lambda>items. list_all (\<lambda>x. plugin_schema_matches items x (d + 1)) vs) (map_of ms (lit ''items''))
        | JsonString s \<Rightarrow> count_within (map_of ms (lit ''minLength'')) (map_of ms (lit ''maxLength'')) (length s)
        | _ \<Rightarrow> True)"
  using assms
  by (cases v; cases t)
    (simp_all add: plugin_schema_matches.simps [of "JsonObject ms"] type_matches_def is_object_def Let_def opt_all_def split: option.splits)

lemma required_keyword:
  "required_present ms fs \<longleftrightarrow> opt_all (keyword_of ms (JsonObject fs) (lit ''required'')) (map_of ms (lit ''required''))"
  by (cases "map_of ms (lit ''required'')")
    (simp_all add: required_present_def keyword_simps map_filter_all opt_all_def split: option.splits)

lemma count_keywords:
  "count_within (map_of ms (lit ''minItems'')) (map_of ms (lit ''maxItems'')) (length vs) \<longleftrightarrow>
     opt_all (keyword_of ms (JsonArray vs) (lit ''minItems'')) (map_of ms (lit ''minItems''))
     \<and> opt_all (keyword_of ms (JsonArray vs) (lit ''maxItems'')) (map_of ms (lit ''maxItems''))"
  "count_within (map_of ms (lit ''minLength'')) (map_of ms (lit ''maxLength'')) (length s) \<longleftrightarrow>
     opt_all (keyword_of ms (JsonString s) (lit ''minLength'')) (map_of ms (lit ''minLength''))
     \<and> opt_all (keyword_of ms (JsonString s) (lit ''maxLength'')) (map_of ms (lit ''maxLength''))"
  by (cases "map_of ms (lit ''minItems'')"; cases "map_of ms (lit ''maxItems'')"; simp add: count_within_def keyword_of_def keyword_holds_def lit_inject)
    (cases "map_of ms (lit ''minLength'')"; cases "map_of ms (lit ''maxLength'')"; simp add: count_within_def keyword_of_def keyword_holds_def lit_inject)

text \<open>The keywords of other types hold of a value.\<close>

lemma vacuous_keywords:
  "k \<in> {lit ''minLength'', lit ''maxLength'', lit ''minItems'', lit ''maxItems'', lit ''items''} \<Longrightarrow> opt_all (keyword_of ms (JsonObject fs) k) a"
  "k \<in> {lit ''properties'', lit ''required'', lit ''additionalProperties'', lit ''minLength'', lit ''maxLength''}
     \<Longrightarrow> opt_all (keyword_of ms (JsonArray vs) k) a"
  "k \<in> {lit ''properties'', lit ''required'', lit ''additionalProperties'', lit ''minItems'', lit ''maxItems'', lit ''items''}
     \<Longrightarrow> opt_all (keyword_of ms (JsonString s) k) a"
  "v \<in> {JsonNull} \<union> range JsonBool \<union> range JsonNumber \<Longrightarrow>
     k \<in> {lit ''properties'', lit ''required'', lit ''additionalProperties'', lit ''minLength'', lit ''maxLength'', lit ''minItems'',
       lit ''maxItems'', lit ''items''} \<Longrightarrow> opt_all (keyword_of ms v k) a"
  by (cases a, simp, elim insertE emptyE UnE rangeE; simp add: keyword_of_def keyword_holds_def lit_inject list_all_iff split: json.splits)+

lemma properties_keywords:
  assumes "map_of ms (lit ''properties'') = Some (JsonObject ps)" "distinct (map fst ps)" "distinct (map fst fs)"
    "opt_all (\<lambda>v. \<exists>b. v = JsonBool b) (map_of ms (lit ''additionalProperties''))"
  shows "list_all (\<lambda>f. case map_of ps (fst f) of
            Some child \<Rightarrow> json_schema_holds child (snd f)
          | None \<Rightarrow> (case Option.bind (map_of ms (lit ''additionalProperties'')) as_bool of None \<Rightarrow> True | Some b \<Rightarrow> b)) fs
     \<longleftrightarrow> keyword_of ms (JsonObject fs) (lit ''properties'') (JsonObject ps)
       \<and> opt_all (keyword_of ms (JsonObject fs) (lit ''additionalProperties'')) (map_of ms (lit ''additionalProperties''))"
  unfolding properties_swap [OF assms(2,3)]
  using assms(1,4)
  by (cases "map_of ms (lit ''additionalProperties'')") (auto simp: keyword_of_def lit_inject declared_names_def)

lemma no_properties_keywords:
  assumes "map_of ms (lit ''properties'') = None" "opt_all (\<lambda>v. \<exists>b. v = JsonBool b) (map_of ms (lit ''additionalProperties''))"
  shows "list_all (\<lambda>f. case Option.bind (map_of ms (lit ''additionalProperties'')) as_bool of None \<Rightarrow> True | Some b \<Rightarrow> b) fs
     \<longleftrightarrow> opt_all (keyword_of ms (JsonObject fs) (lit ''additionalProperties'')) (map_of ms (lit ''additionalProperties''))"
  using assms
  by (cases "map_of ms (lit ''additionalProperties'')"; cases fs) (auto simp: keyword_of_def lit_inject declared_names_def list_all_iff)

lemma matches_holds:
  assumes "preflight_plugin_schema_node schema d m = Inr t" "json_wf schema" "json_wf v"
  shows "plugin_schema_matches schema v d \<longleftrightarrow> json_schema_holds schema v"
  using assms
proof (induction schema arbitrary: v d t rule: measure_induct_rule [of size])
  case (less schema)
  obtain ms where ms: "schema = JsonObject ms" "d \<le> PLUGIN_MAX_JSON_DEPTH" "\<forall>m \<in> set ms. fst m \<in> set profile_keywords"
    "schema_type_of ms = Some t"
    and props: "t = TObject \<longrightarrow> opt_all (\<lambda>v. \<exists>ps. v = JsonObject ps \<and> (\<forall>p \<in> set ps. \<exists>t. preflight_plugin_schema_node (snd p) (d + 1) m = Inr t))
       (map_of ms (lit ''properties''))"
    and addl: "t = TObject \<longrightarrow> opt_all (\<lambda>v. \<exists>b. v = JsonBool b) (map_of ms (lit ''additionalProperties''))"
    and items: "t = TArray \<longrightarrow> opt_all (\<lambda>v. \<exists>t. preflight_plugin_schema_node v (d + 1) m = Inr t) (map_of ms (lit ''items''))"
    using preflight_node_Inr [OF less.prems(1)] .
  have dist: "distinct (map fst ms)" and wf: "\<And>m. m \<in> set ms \<Longrightarrow> json_wf (snd m)" using less.prems(2) ms(1) by (auto simp: list_all_iff)
  note split = matches_split [OF ms(2,4)] holds_split [OF dist ms(3,4)]
  show ?case
  proof (cases "type_matches t v")
    case False
    then show ?thesis unfolding ms(1) split by blast
  next
    case ty: True
    show ?thesis
    proof (cases v)
      case (JsonObject fs)
      have t: "t = TObject" using ty JsonObject by (cases t) (auto simp: type_matches_def)
      have fs: "distinct (map fst fs)" "\<And>f. f \<in> set fs \<Longrightarrow> json_wf (snd f)" using less.prems(3) JsonObject by (auto simp: list_all_iff)
      show ?thesis
      proof (cases "map_of ms (lit ''properties'')")
        case None
        then show ?thesis
          using no_properties_keywords [OF None, of fs] addl t
          unfolding ms(1) split JsonObject list.pred_inject by (simp add: required_keyword vacuous_keywords)
      next
        case (Some a)
        obtain ps where ps: "a = JsonObject ps" "\<And>p. p \<in> set ps \<Longrightarrow> \<exists>t. preflight_plugin_schema_node (snd p) (d + 1) m = Inr t"
          using props t Some by auto
        have p: "distinct (map fst ps)" "\<And>p. p \<in> set ps \<Longrightarrow> json_wf (snd p) \<and> size (snd p) < size schema"
          using wf [OF map_of_SomeD [OF Some]] ps(1) nested_smaller [OF map_of_SomeD [OF Some]] ms(1) by (auto simp: list_all_iff)
        have "list_all (\<lambda>f. case map_of ps (fst f) of Some child \<Rightarrow> plugin_schema_matches child (snd f) (d + 1) | None \<Rightarrow> b) fs
          \<longleftrightarrow> list_all (\<lambda>f. case map_of ps (fst f) of Some child \<Rightarrow> json_schema_holds child (snd f) | None \<Rightarrow> b) fs" for b
          using less.IH p(2) ps(2) fs(2) by (fastforce simp: list_all_iff split: option.splits dest: map_of_SomeD)
        then show ?thesis
          using properties_keywords [OF Some [unfolded ps(1)] p(1) fs(1)] addl t Some ps(1)
          unfolding ms(1) split JsonObject list.pred_inject by (simp add: required_keyword vacuous_keywords) blast
      qed
    next
      case (JsonArray vs)
      have t: "t = TArray" using ty JsonArray by (cases t) (auto simp: type_matches_def is_object_def)
      have "opt_all (\<lambda>items. list_all (\<lambda>x. plugin_schema_matches items x (d + 1)) vs) (map_of ms (lit ''items''))
        \<longleftrightarrow> opt_all (keyword_of ms v (lit ''items'')) (map_of ms (lit ''items''))"
      proof (cases "map_of ms (lit ''items'')")
        case (Some a)
        have "plugin_schema_matches a x (d + 1) \<longleftrightarrow> json_schema_holds a x" if "x \<in> set vs" for x
          using less.IH [of a "d + 1"] wf [OF map_of_SomeD [OF Some]] member_smaller [OF map_of_SomeD [OF Some]] items t Some ms(1)
            that less.prems(3) JsonArray by (auto simp: list_all_iff)
        then show ?thesis using Some JsonArray by (simp add: keyword_of_def lit_inject list_all_iff)
      qed simp
      then show ?thesis
        unfolding ms(1) split JsonArray list.pred_inject by (simp add: count_keywords vacuous_keywords)
    next
      case (JsonString s)
      then show ?thesis unfolding ms(1) split list.pred_inject by (simp add: count_keywords vacuous_keywords)
    qed (unfold ms(1) split list.pred_inject, simp_all add: vacuous_keywords)
  qed
qed

section \<open>A diagnosis fits its list\<close>

declare plugin_validate_json_node.simps [simp del]

lemma json_walk_field:
  "(plugin_validate_json_node f d n v = Inr k) = (plugin_validate_json_node g d n v = Inr k)"
  "(plugin_validate_json_items f d n vs = Inr k) = (plugin_validate_json_items g d n vs = Inr k)"
  "(plugin_validate_json_members f d n ms = Inr k) = (plugin_validate_json_members g d n ms = Inr k)"
proof (induction f d n v and f d n vs and f d n ms arbitrary: k and k and k
    rule: plugin_validate_json_node_plugin_validate_json_items_plugin_validate_json_members.induct)
  case (1 field depth nodes0 v)
  show ?case
  proof (cases "PLUGIN_MAX_JSON_DEPTH < depth \<or> PLUGIN_MAX_JSON_NODES < sat_add nodes0 1")
    case True
    then show ?thesis by (auto simp: plugin_validate_json_node.simps [of _ depth nodes0 v] Let_def)
  next
    case False
    have n: "plugin_validate_json_node h depth nodes0 v =
        (case v of
            JsonString s \<Rightarrow>
              if PLUGIN_MAX_JSON_STRING_BYTES < str_len s then Inl (h @ lit '' contains an oversized string'') else Inr (sat_add nodes0 1)
          | JsonArray vs \<Rightarrow> plugin_validate_json_items h (depth + 1) (sat_add nodes0 1) vs
          | JsonObject ms \<Rightarrow> plugin_validate_json_members h (depth + 1) (sat_add nodes0 1) ms
          | _ \<Rightarrow> Inr (sat_add nodes0 1))" for h
      unfolding plugin_validate_json_node.simps [of h depth nodes0 v] Let_def using False by (simp only: de_Morgan_disj if_False)
    show ?thesis
    proof (cases v)
      case (JsonArray vs)
      then show ?thesis unfolding n using "1.IH"(1) [OF _ refl _ JsonArray] False by simp
    next
      case (JsonObject ms)
      then show ?thesis unfolding n using "1.IH"(2) [OF _ refl _ JsonObject] False by simp
    qed (unfold n, simp_all)
  qed
next
  case (3 field depth nodes v vs)
  have n: "(plugin_validate_json_node field depth nodes v = Inr a) = (plugin_validate_json_node g depth nodes v = Inr a)" for a
    by (rule "3.IH"(1))
  show ?case
  proof (cases "plugin_validate_json_node field depth nodes v")
    case (Inl e)
    then obtain e' where "plugin_validate_json_node g depth nodes v = Inl e'"
      using n by (cases "plugin_validate_json_node g depth nodes v") auto
    then show ?thesis using Inl by simp
  next
    case (Inr a)
    then show ?thesis using n [of a] "3.IH"(2) [OF Inr] by simp
  qed
next
  case (5 field depth nodes m ms)
  obtain key v where m: "m = (key, v)" by (cases m)
  show ?case
  proof (cases "1024 < str_len key \<or> list_ex is_control key")
    case True
    then show ?thesis using m by auto
  next
    case False
    have n: "(plugin_validate_json_node field depth nodes v = Inr a) = (plugin_validate_json_node g depth nodes v = Inr a)" for a
      by (rule "5.IH"(1) [OF m [symmetric] False])
    show ?thesis
    proof (cases "plugin_validate_json_node field depth nodes v")
      case (Inl e)
      then obtain e' where "plugin_validate_json_node g depth nodes v = Inl e'"
        using n by (cases "plugin_validate_json_node g depth nodes v") auto
      then show ?thesis using Inl m False by simp
    next
      case (Inr a)
      then show ?thesis using n [of a] "5.IH"(2) [OF m [symmetric] False Inr] m False by simp
    qed
  qed
qed simp_all

lemma json_value_field: "(plugin_validate_json_value ser v n f = Inr ()) = (plugin_validate_json_value ser v n g = Inr ())"
proof -
  have "(\<exists>k. plugin_validate_json_node f 0 0 v = Inr k) = (\<exists>k. plugin_validate_json_node g 0 0 v = Inr k)"
    using json_walk_field(1) [of f 0 0 v _ g] by blast
  then show ?thesis
    by (cases "plugin_validate_json_node f 0 0 v"; cases "plugin_validate_json_node g 0 0 v")
      (auto simp: plugin_validate_json_value_def split: option.splits)
qed

lemma schema_profile_field:
  "(validate_plugin_tool_schema_profile ser v f m = Inr ()) \<longleftrightarrow>
     is_object v \<and> plugin_validate_json_value ser v PLUGIN_MAX_SCHEMA_BYTES g = Inr () \<and> preflight_plugin_schema_profile v True m = Inr ()"
  by (cases "preflight_plugin_schema_profile v True m")
    (auto simp: validate_plugin_tool_schema_profile_def json_value_field [of ser v PLUGIN_MAX_SCHEMA_BYTES f g])

lemma diagnose_schema_None:
  "diagnose_schema ser tool field v code (Some m) = None \<longleftrightarrow> validate_plugin_tool_schema_profile ser v f m = Inr ()"
  "diagnose_schema ser tool field v code None = None \<longleftrightarrow> is_object v \<and> plugin_validate_json_value ser v PLUGIN_MAX_SCHEMA_BYTES f = Inr ()"
  unfolding schema_profile_field [of ser v f m "lit field"] json_value_field [of ser v PLUGIN_MAX_SCHEMA_BYTES f "lit field"]
  by (auto simp: diagnose_schema_def split: sum.splits)

lemma diagnose_schema_Some:
  "diagnose_schema ser tool field v code m = Some d \<Longrightarrow>
     \<exists>c. d = plugin_diagnostic c (Some tool) (Some field)
       \<and> (c = code \<or> c = ''schema_bounds_exceeded'' \<or> m \<noteq> None \<and> c = ''schema_keyword_unsupported'')"
  by (auto simp: diagnose_schema_def split: if_splits sum.splits option.splits SchemaProfileFailureKind.splits)

lemma diagnose_tool_None:
  "diagnose_tool ser names tool = None \<longleftrightarrow>
     plugin_validate_tool_name (ptool_name tool) = Inr () \<and> ptool_name tool \<notin> names
     \<and> validate_optional_title (lit ''tool title is empty or too long'') PLUGIN_MAX_PROVIDER_NAME_BYTES (lit ''tool title'')
         (ptool_title tool) = Inr ()
     \<and> validate_optional_description (lit ''tool description exceeds plugin bounds'') PLUGIN_MAX_DESCRIPTION_BYTES
         (lit ''tool description'') (ptool_description tool) = Inr ()
     \<and> plugin_validate_schema_observation ser (plugin_schema_observation tool) = Inr ()"
proof -
  have "plugin_validate_schema_observation ser (plugin_schema_observation tool) = Inr () \<longleftrightarrow>
     diagnose_schema ser (ptool_name tool) ''inputSchema'' (ptool_input_schema tool) ''input_schema_invalid'' (Some PLUGIN_MAX_ARGUMENT_BYTES) = None
     \<and> Option.bind (ptool_output_schema tool) (\<lambda>output. diagnose_schema ser (ptool_name tool) ''outputSchema'' output
         ''output_schema_invalid'' (Some PLUGIN_MAX_STRUCTURED_CONTENT_BYTES)) = None
     \<and> Option.bind (ptool_annotations tool) (\<lambda>annotations.
         diagnose_schema ser (ptool_name tool) ''annotations'' annotations ''annotations_invalid'' None) = None"
    unfolding diagnose_schema_None(1) [of _ _ _ _ _ _ "lit ''tool inputSchema''"]
    by (cases "ptool_output_schema tool"; cases "ptool_annotations tool")
      (simp_all add: plugin_validate_schema_observation_def plugin_schema_observation_def
        diagnose_schema_None(1) [of _ _ _ _ _ _ "lit ''tool outputSchema''"] diagnose_schema_None(2) [of _ _ _ _ _ "lit ''tool annotations''"])
  then show ?thesis
    unfolding diagnose_tool_def
    by (auto simp: validate_optional_title_def validate_optional_description_def split: option.splits)
qed

text \<open>The codes that name a tool, each with the field it is about.\<close>

definition tool_codes :: "(string \<times> string) list" where
  "tool_codes =
     [(''duplicate_tool_name'', ''name''), (''invalid_tool_title'', ''title''), (''invalid_tool_description'', ''description''),
      (''input_schema_invalid'', ''inputSchema''), (''output_schema_invalid'', ''outputSchema''), (''annotations_invalid'', ''annotations''),
      (''schema_keyword_unsupported'', ''inputSchema''), (''schema_keyword_unsupported'', ''outputSchema''),
      (''schema_bounds_exceeded'', ''inputSchema''), (''schema_bounds_exceeded'', ''outputSchema''), (''schema_bounds_exceeded'', ''annotations'')]"

definition fitting :: "PluginTool \<Rightarrow> PluginCheckDiagnostic \<Rightarrow> bool" where
  "fitting tool d \<longleftrightarrow> d = plugin_diagnostic ''invalid_tool_name'' None (Some ''name'')
     \<or> plugin_validate_tool_name (ptool_name tool) = Inr ()
       \<and> (\<exists>c \<in> set tool_codes. d = plugin_diagnostic (fst c) (Some (ptool_name tool)) (Some (snd c)))"

lemma tool_codes_valid:
  "c \<in> set tool_codes \<Longrightarrow> validate_check_diagnostic (plugin_diagnostic (fst c) (Some name) (Some (snd c))) = plugin_validate_tool_name name
     \<and> fst c \<noteq> ''tool_definition_invalid''"
  unfolding tool_codes_def set_simps
  by (elim insertE emptyE)
    (simp_all add: validate_check_diagnostic_def plugin_diagnostic_def lit_inject Let_def diagnostic_tool_def)

lemma fitting_valid:
  assumes "fitting tool d"
  shows "validate_check_diagnostic d = Inr ()" "pdiag_code d \<noteq> lit ''tool_definition_invalid''"
proof -
  have "validate_check_diagnostic (plugin_diagnostic ''invalid_tool_name'' None (Some ''name'')) = Inr ()"
    by (simp add: validate_check_diagnostic_def plugin_diagnostic_def lit_inject Let_def)
  then show "validate_check_diagnostic d = Inr ()" using assms tool_codes_valid unfolding fitting_def by fastforce
  show "pdiag_code d \<noteq> lit ''tool_definition_invalid''"
    using assms tool_codes_valid unfolding fitting_def by (fastforce simp: plugin_diagnostic_def lit_inject)
qed

lemma diagnosed_schema_fits:
  assumes "diagnose_schema ser (ptool_name tool) field v code m = Some d" "plugin_validate_tool_name (ptool_name tool) = Inr ()"
    "(code, field) \<in> set tool_codes" "(''schema_bounds_exceeded'', field) \<in> set tool_codes"
    "m \<noteq> None \<Longrightarrow> (''schema_keyword_unsupported'', field) \<in> set tool_codes"
  shows "fitting tool d"
proof -
  obtain c where c: "d = plugin_diagnostic c (Some (ptool_name tool)) (Some field)" "(c, field) \<in> set tool_codes"
    using diagnose_schema_Some [OF assms(1)] assms(3-) by blast
  then show ?thesis using assms(2) bexI [OF _ c(2)] unfolding fitting_def by simp
qed

lemma diagnose_tool_Some:
  assumes "diagnose_tool ser names tool = Some d"
  shows "fitting tool d"
proof (cases "plugin_validate_tool_name (ptool_name tool) = Inr ()")
  case False
  then show ?thesis using assms by (simp add: diagnose_tool_def fitting_def)
next
  case True
  have named: "fitting tool (plugin_diagnostic c (Some (ptool_name tool)) (Some f))" if "(c, f) \<in> set tool_codes" for c f
    using that True unfolding fitting_def by force
  have codes: "(''duplicate_tool_name'', ''name'') \<in> set tool_codes" "(''invalid_tool_title'', ''title'') \<in> set tool_codes"
    "(''invalid_tool_description'', ''description'') \<in> set tool_codes"
    by (simp_all add: tool_codes_def)
  have inp: "fitting tool d" if "diagnose_schema ser (ptool_name tool) ''inputSchema'' v ''input_schema_invalid'' m = Some d" for v m
    by (rule diagnosed_schema_fits [OF that True]) (simp_all add: tool_codes_def)
  have outp: "fitting tool d" if "diagnose_schema ser (ptool_name tool) ''outputSchema'' v ''output_schema_invalid'' m = Some d" for v m
    by (rule diagnosed_schema_fits [OF that True]) (simp_all add: tool_codes_def)
  have ann: "fitting tool d" if "diagnose_schema ser (ptool_name tool) ''annotations'' v ''annotations_invalid'' None = Some d" for v
    by (rule diagnosed_schema_fits [OF that True]) (simp_all add: tool_codes_def)
  show ?thesis
    using assms True named codes inp outp ann unfolding diagnose_tool_def
    by (simp split: if_splits option.splits) (auto simp: bind_eq_Some_conv)
qed

lemma diagnose_tool_list_fits:
  "validate_check_diagnostic (diagnose_tool_list ser names tools) = Inr ()
   \<and> (pdiag_code (diagnose_tool_list ser names tools) = lit ''tool_definition_invalid'' \<longleftrightarrow> plugin_validate_tool_list ser names tools = Inr ())"
proof (induction tools arbitrary: names)
  case Nil
  show ?case by (simp add: plugin_diagnostic_def validate_check_diagnostic_def lit_inject)
next
  case (Cons tool tools)
  show ?case
  proof (cases "diagnose_tool ser names tool")
    case None
    then show ?thesis using Cons.IH [of "insert (ptool_name tool) names"] diagnose_tool_None [of ser names tool] by simp
  next
    case (Some d)
    then show ?thesis using fitting_valid [OF diagnose_tool_Some [OF Some]] diagnose_tool_None [of ser names tool] by simp blast
  qed
qed

section \<open>The identity of a catalog\<close>

text \<open>Two values are the same up to the order of the members of their objects.\<close>

inductive same_json :: "json \<Rightarrow> json \<Rightarrow> bool" where
  same_refl: "same_json v v"
| same_array: "list_all2 same_json vs ws \<Longrightarrow> same_json (JsonArray vs) (JsonArray ws)"
| same_object: "distinct (map fst ms) \<Longrightarrow> list_all2 (\<lambda>a b. fst a = fst b \<and> same_json (snd a) (snd b)) ms ns \<Longrightarrow> mset ns' = mset ns
    \<Longrightarrow> same_json (JsonObject ms) (JsonObject ns')"

lemma sort_key_unique:
  assumes "mset xs = mset ys" "distinct (map f xs)"
  shows "sort_key f xs = sort_key f ys"
  by (rule sort_key_inj_key_eq) (use assms in \<open>simp_all add: distinct_map\<close>)

lemma canonical_same: "same_json v w \<Longrightarrow> write_canonical_json ser v = write_canonical_json ser w"
proof (induction rule: same_json.induct)
  case (same_array vs ws)
  have "map (write_canonical_json ser) vs = map (write_canonical_json ser) ws"
    using same_array by (induction rule: list_all2_induct) auto
  then show ?case by simp
next
  case (same_object ms ns ns')
  let ?w = "\<lambda>m. (fst m, write_canonical_json ser (snd m))"
  have "map ?w ms = map ?w ns" using same_object.IH by (induction rule: list_all2_induct) auto
  moreover have "mset (map ?w ns) = mset (map ?w ns')" using same_object.hyps by simp
  moreover have "distinct (map fst (map ?w ms))" using same_object.hyps by (simp add: comp_def)
  ultimately have "sort_key fst (map ?w ms) = sort_key fst (map ?w ns')" by (intro sort_key_unique) simp_all
  then show ?case by simp
qed simp

definition same_tool :: "PluginTool \<Rightarrow> PluginTool \<Rightarrow> bool" where
  "same_tool a b \<longleftrightarrow> ptool_name a = ptool_name b \<and> ptool_title a = ptool_title b \<and> ptool_description a = ptool_description b
     \<and> same_json (ptool_input_schema a) (ptool_input_schema b) \<and> rel_option same_json (ptool_output_schema a) (ptool_output_schema b)
     \<and> rel_option same_json (ptool_annotations a) (ptool_annotations b)"

lemma optional_member_same:
  "rel_option same_json x y \<Longrightarrow> list_all2 (\<lambda>a b. fst a = fst b \<and> same_json (snd a) (snd b))
     (case x of None \<Rightarrow> [] | Some v \<Rightarrow> [(k, v)]) (case y of None \<Rightarrow> [] | Some v \<Rightarrow> [(k, v)])"
  by (cases x; cases y) auto

lemma same_tool_value:
  assumes "same_tool a b"
  shows "same_json (tool_value a) (tool_value b)"
  unfolding tool_value_def
proof (rule same_object)
  show "distinct (map fst ([(lit ''name'', JsonString (ptool_name a))]
     @ (case ptool_title a of None \<Rightarrow> [] | Some t \<Rightarrow> [(lit ''title'', JsonString t)])
     @ (case ptool_description a of None \<Rightarrow> [] | Some d \<Rightarrow> [(lit ''description'', JsonString d)])
     @ [(lit ''inputSchema'', ptool_input_schema a)]
     @ (case ptool_output_schema a of None \<Rightarrow> [] | Some v \<Rightarrow> [(lit ''outputSchema'', v)])
     @ (case ptool_annotations a of None \<Rightarrow> [] | Some v \<Rightarrow> [(lit ''annotations'', v)])))"
    by (cases "ptool_title a"; cases "ptool_description a"; cases "ptool_output_schema a"; cases "ptool_annotations a")
      (simp_all add: lit_inject)
  note t = assms [unfolded same_tool_def]
  show "list_all2 (\<lambda>a b. fst a = fst b \<and> same_json (snd a) (snd b))
     ([(lit ''name'', JsonString (ptool_name a))]
     @ (case ptool_title a of None \<Rightarrow> [] | Some t \<Rightarrow> [(lit ''title'', JsonString t)])
     @ (case ptool_description a of None \<Rightarrow> [] | Some d \<Rightarrow> [(lit ''description'', JsonString d)])
     @ [(lit ''inputSchema'', ptool_input_schema a)]
     @ (case ptool_output_schema a of None \<Rightarrow> [] | Some v \<Rightarrow> [(lit ''outputSchema'', v)])
     @ (case ptool_annotations a of None \<Rightarrow> [] | Some v \<Rightarrow> [(lit ''annotations'', v)]))
     ([(lit ''name'', JsonString (ptool_name b))]
     @ (case ptool_title b of None \<Rightarrow> [] | Some t \<Rightarrow> [(lit ''title'', JsonString t)])
     @ (case ptool_description b of None \<Rightarrow> [] | Some d \<Rightarrow> [(lit ''description'', JsonString d)])
     @ [(lit ''inputSchema'', ptool_input_schema b)]
     @ (case ptool_output_schema b of None \<Rightarrow> [] | Some v \<Rightarrow> [(lit ''outputSchema'', v)])
     @ (case ptool_annotations b of None \<Rightarrow> [] | Some v \<Rightarrow> [(lit ''annotations'', v)]))"
    using t by (intro list_all2_appendI) (auto intro!: optional_member_same list_all2_refl same_refl)
qed simp

lemma insort_related:
  assumes "list_all2 R xs ys" "R x y" "\<And>a b. R a b \<Longrightarrow> f a = f b"
  shows "list_all2 R (insort_key f x xs) (insort_key f y ys)"
  using assms by (induction rule: list_all2_induct) auto

lemma sort_related:
  assumes "list_all2 R xs ys" "\<And>a b. R a b \<Longrightarrow> f a = f b"
  shows "list_all2 R (sort_key f xs) (sort_key f ys)"
  using assms(1) by (induction rule: list_all2_induct) (auto intro: insort_related assms(2))

lemma tool_list_names:
  "plugin_validate_tool_list ser names tools = Inr () \<Longrightarrow> distinct (map ptool_name tools) \<and> ptool_name ` set tools \<inter> names = {}"
  by (induction tools arbitrary: names) auto

lemma admit_catalog_Inr:
  assumes "admit_catalog ser tools = Inr c"
  shows "catalog_tools c = sort_key ptool_name tools" "distinct (map ptool_name tools)"
    "plugin_catalog_digest_from_canonical_tools ser (sort_key ptool_name tools) = Inr (catalog_digest c)"
  using assms tool_list_names [of ser "{}" tools]
  by (auto simp: admit_catalog_def plugin_validate_tools_def Let_def split: sum.splits)

lemma digests_agree:
  assumes "admit_catalog ser tools = Inr c" "admit_catalog ser tools' = Inr c'" "list_all2 same_tool tools us" "mset us = mset tools'"
  shows "catalog_digest c = catalog_digest c'"
proof -
  note a = admit_catalog_Inr [OF assms(1)] and b = admit_catalog_Inr [OF assms(2)]
  have eq: "sort_key ptool_name tools' = sort_key ptool_name us" using sort_key_unique [of tools' us ptool_name] b(2) assms(4) by simp
  have "list_all2 same_tool (sort_key ptool_name tools) (sort_key ptool_name us)"
    by (rule sort_related [OF assms(3)]) (simp add: same_tool_def)
  then have "same_json (JsonArray (map tool_value (sort_key ptool_name tools))) (JsonArray (map tool_value (sort_key ptool_name us)))"
    by (intro same_array) (auto simp: list_all2_map1 list_all2_map2 intro: list_all2_mono same_tool_value)
  then show ?thesis
    using canonical_same [of _ _ ser] a(3) b(3) unfolding plugin_catalog_digest_from_canonical_tools_def eq by force
qed

lemma find_unique: "distinct (map f xs) \<Longrightarrow> find (\<lambda>t. f t = n) xs = Some t \<longleftrightarrow> t \<in> set xs \<and> f t = n"
  by (induction xs) auto

lemma catalog_tool_iff:
  assumes "admit_catalog ser tools = Inr c"
  shows "catalog_tool c name = Some tool \<longleftrightarrow> tool \<in> set tools \<and> ptool_name tool = name"
proof -
  have "distinct (map ptool_name (sort_key ptool_name tools))"
    using admit_catalog_Inr(2) [OF assms] by (simp add: distinct_map)
  from find_unique [OF this] show ?thesis using admit_catalog_Inr(1) [OF assms] by (simp add: catalog_tool_def)
qed

section \<open>Properties\<close>


definition sample_schema :: json where
  "sample_schema = JsonObject [(lit ''type'', JsonString (lit ''object'')), (lit ''required'', JsonArray [JsonString (lit ''n'')]),
     (lit ''properties'', JsonObject [(lit ''n'', JsonObject [(lit ''type'', JsonString (lit ''integer''))])])]"

definition sample_ser :: PluginSerializer where
  "sample_ser = \<lparr>pser_value = (\<lambda>v. Some []), pser_result = (\<lambda>r. Some []), pser_response = (\<lambda>r. Some []), pser_sha256 = id\<rparr>"

lemmas sample_simps = sample_schema_def sample_ser_def json_schema_holds.simps keyword_holds_def parse_plugin_schema_type_def
  type_matches_def is_object_def number_is_integer_def number_as_u64_def json_digits_value_def declared_names_def lit_def
  is_ascii_digit_def strip_prefix_def

definition sample_reordered :: json where
  "sample_reordered = JsonObject [
     (lit ''properties'', JsonObject [(lit ''n'', JsonObject [(lit ''type'', JsonString (lit ''integer''))])]),
     (lit ''type'', JsonString (lit ''object'')), (lit ''required'', JsonArray [JsonString (lit ''n'')])]"

lemma sample_profile:
  "validate_plugin_tool_schema_profile sample_ser sample_schema f PLUGIN_MAX_ARGUMENT_BYTES = Inr ()"
  "validate_plugin_tool_schema_profile sample_ser sample_reordered f PLUGIN_MAX_ARGUMENT_BYTES = Inr ()"
  by (simp_all add: sample_reordered_def validate_plugin_tool_schema_profile_def plugin_validate_json_value_def preflight_plugin_schema_profile_def
    plugin_validate_json_node.simps preflight_plugin_schema_node.simps preflight_head_def preflight_properties_def preflight_required_def
    preflight_annotation_def preflight_enum_def refuse_schema_def has_keyword_def schema_type_of_def profile_keywords_def
    parse_plugin_schema_type_def sample_schema_def sample_ser_def is_object_def lit_def sat_add_def usize_max_def is_control_def
    PLUGIN_MAX_JSON_DEPTH_def PLUGIN_MAX_JSON_NODES_def PLUGIN_MAX_JSON_STRING_BYTES_def PLUGIN_MAX_SCHEMA_BYTES_def
    PLUGIN_SCHEMA_MAX_PROPERTIES_def PLUGIN_SCHEMA_MAX_REQUIRED_def utf8_width_def Let_def and_then_def reject_if_def)


text \<open>C21: The diagnosis of a tool list agrees with its validation and can always be reported: it is the unspecific
  one exactly when the list is valid, and whatever the list, the check of a report accepts the diagnosis, so its code, its
  field and the tool it names fit together.\<close>

theorem diagnoses_agree_with_validation:
  "validate_check_diagnostic (diagnose_invalid_tools ser tools) = Inr ()
   \<and> (pdiag_code (diagnose_invalid_tools ser tools) = lit ''tool_definition_invalid'' \<longleftrightarrow> plugin_validate_tools ser tools = Inr ())"
proof (cases "PLUGIN_MAX_TOOL_COUNT < length tools")
  case True
  have "validate_check_diagnostic (plugin_diagnostic ''tool_count_exceeded'' None None) = Inr ()"
    "pdiag_code (plugin_diagnostic ''tool_count_exceeded'' None None) \<noteq> lit ''tool_definition_invalid''"
    by (simp_all add: plugin_diagnostic_def validate_check_diagnostic_def lit_inject)
  then show ?thesis using True by (simp add: diagnose_invalid_tools_def plugin_validate_tools_def)
next
  case False
  then show ?thesis using diagnose_tool_list_fits [of ser "{}" tools]
    by (simp add: diagnose_invalid_tools_def plugin_validate_tools_def)
qed

text \<open>C22: The identity of a Plugin catalog does not depend on any order. An admitted catalog holds the tools of the list in
  the order of their names, and looks each one up by its name; and two admitted lists with the same tools have the same
  digest, in whatever order the tools come and the members of the objects in their schemas.\<close>

theorem catalog_identity_ignores_order:
  assumes "admit_catalog ser tools = Inr c"
  shows "mset (catalog_tools c) = mset tools \<and> sorted (map ptool_name (catalog_tools c))
    \<and> (catalog_tool c name = Some tool \<longleftrightarrow> tool \<in> set tools \<and> ptool_name tool = name)
    \<and> (\<forall>tools' c' us. admit_catalog ser tools' = Inr c' \<and> list_all2 same_tool tools us \<and> mset us = mset tools'
         \<longrightarrow> catalog_digest c' = catalog_digest c)"
  using admit_catalog_Inr(1) [OF assms] catalog_tool_iff [OF assms] digests_agree [OF assms] by auto

definition sample_tool :: "string \<Rightarrow> json \<Rightarrow> PluginTool" where
  "sample_tool name schema = \<lparr>ptool_name = lit name, ptool_title = None, ptool_description = None, ptool_input_schema = schema,
     ptool_output_schema = None, ptool_annotations = None\<rparr>"

lemma collect_parts_Inr: "list_all (\<lambda>r. \<exists>x. r = Inr x) rs \<Longrightarrow> \<exists>xs. collect_parts rs = Inr xs"
  by (induction rs) auto

lemma sample_writes: "\<exists>x. write_canonical_json sample_ser v = Inr x"
proof (induction v)
  case (JsonArray vs)
  then show ?case using collect_parts_Inr [of "map (write_canonical_json sample_ser) vs"] by (force simp: list_all_iff)
next
  case (JsonObject ms)
  let ?part = "\<lambda>m. case or_error ''plugin catalog key could not be serialized'' (pser_value sample_ser (JsonString (fst m))) of
            Inl e \<Rightarrow> Inl e
          | Inr key \<Rightarrow> map_sum id (\<lambda>v. key @ [58] @ v) (snd m)"
  have "list_all (\<lambda>r. \<exists>x. r = Inr x) (map ?part (sort_key fst (map (\<lambda>m. (fst m, write_canonical_json sample_ser (snd m))) ms)))"
    using JsonObject by (force simp: list_all_iff sample_ser_def or_error_def)
  from collect_parts_Inr [OF this] show ?case by auto
qed (simp_all add: sample_ser_def or_error_def)

lemma sample_catalogs:
  "\<exists>c. admit_catalog sample_ser [sample_tool ''b'' sample_schema, sample_tool ''a'' sample_schema] = Inr c"
  "\<exists>c. admit_catalog sample_ser [sample_tool ''a'' sample_reordered, sample_tool ''b'' sample_schema] = Inr c"
proof -
  have "plugin_validate_tools sample_ser [sample_tool ''b'' sample_schema, sample_tool ''a'' sample_schema] = Inr ()"
    "plugin_validate_tools sample_ser [sample_tool ''a'' sample_reordered, sample_tool ''b'' sample_schema] = Inr ()"
    by (simp_all add: plugin_validate_tools_def plugin_validate_schema_observation_def plugin_schema_observation_def
      sample_profile sample_tool_def plugin_validate_tool_name_def plugin_validate_identifier_def validate_optional_title_def
      validate_optional_description_def PLUGIN_MAX_TOOL_COUNT_def PLUGIN_MAX_TOOL_NAME_BYTES_def is_ascii_alphanumeric_def
      is_ascii_digit_def lit_def utf8_width_def)
  moreover have "\<exists>d. plugin_catalog_digest_from_canonical_tools sample_ser tools = Inr d" for tools
    using sample_writes [of "JsonArray (map tool_value tools)"]
    by (auto simp: plugin_catalog_digest_from_canonical_tools_def simp del: write_canonical_json.simps)
  ultimately show "\<exists>c. admit_catalog sample_ser [sample_tool ''b'' sample_schema, sample_tool ''a'' sample_schema] = Inr c"
    "\<exists>c. admit_catalog sample_ser [sample_tool ''a'' sample_reordered, sample_tool ''b'' sample_schema] = Inr c"
    by (auto simp: admit_catalog_def Let_def split: sum.splits) (metis sum.distinct(1))+
qed

lemma sample_same: "same_json sample_schema sample_reordered"
  unfolding sample_schema_def sample_reordered_def
  by (rule same_object [of _ "case sample_schema of JsonObject ms \<Rightarrow> ms"])
    (auto simp: sample_schema_def lit_def intro: same_refl)

theorem catalog_identity_ignores_order_witness:
  "\<exists>c c'. admit_catalog sample_ser [sample_tool ''b'' sample_schema, sample_tool ''a'' sample_schema] = Inr c
     \<and> admit_catalog sample_ser [sample_tool ''a'' sample_reordered, sample_tool ''b'' sample_schema] = Inr c'
     \<and> catalog_digest c' = catalog_digest c \<and> catalog_tool c (lit ''a'') = Some (sample_tool ''a'' sample_schema)"
proof -
  let ?us = "[sample_tool ''b'' sample_schema, sample_tool ''a'' sample_reordered]"
  obtain c c' where c: "admit_catalog sample_ser [sample_tool ''b'' sample_schema, sample_tool ''a'' sample_schema] = Inr c"
    "admit_catalog sample_ser [sample_tool ''a'' sample_reordered, sample_tool ''b'' sample_schema] = Inr c'"
    using sample_catalogs by blast
  have us: "list_all2 same_tool [sample_tool ''b'' sample_schema, sample_tool ''a'' sample_schema] ?us"
    "mset ?us = mset [sample_tool ''a'' sample_reordered, sample_tool ''b'' sample_schema]"
    by (simp_all add: same_tool_def sample_tool_def same_refl sample_same)
  note catalog = catalog_identity_ignores_order [OF c(1), of "lit ''a''" "sample_tool ''a'' sample_schema"]
  have "ptool_name (sample_tool ''a'' sample_schema) = lit ''a''" by (simp add: sample_tool_def)
  then have "catalog_tool c (lit ''a'') = Some (sample_tool ''a'' sample_schema)" using catalog by simp
  moreover have "catalog_digest c' = catalog_digest c" using catalog c(2) us by blast
  ultimately show ?thesis using c by blast
qed

end
