(* ===== verification/Runner_Registration.thy ===== *)
theory Runner_Registration
  imports Job_Runs Runner_Features Coding_Agent_Server Mcp_Gateway
begin

text \<open>
  Registration of Runners (\<open>crates/webcodex-runner-registry/src/runners.rs\<close>, with \<open>protocol.rs\<close> and the host context of
  \<open>crates/webcodex-core/src/runner_protocol.rs\<close>): what a registration request must satisfy, the hand-over of the lease
  from one Runner process to the next, keepalive and runtime metadata, and the views of Runners. The record of a Runner
  is kept in two parts under the same client id: the fields the Job machinery reads are the shared \<open>RunnerRecord\<close>, the
  others are the \<open>RunnerDetails\<close> below.
\<close>

section \<open>Data\<close>

definition MAX_RETIRED_INSTANCES_PER_RUNNER :: nat where "MAX_RETIRED_INSTANCES_PER_RUNNER = 16"
definition RUNNER_JOB_CONCURRENCY_MIN :: nat where "RUNNER_JOB_CONCURRENCY_MIN = 1"
definition RUNNER_JOB_CONCURRENCY_MAX :: nat where "RUNNER_JOB_CONCURRENCY_MAX = 64"
definition RUNNER_PROTOCOL_GENERATION_V2 :: nat where "RUNNER_PROTOCOL_GENERATION_V2 = 2"
definition RUNNER_HOST_CONTEXT_ROLE_MAX_BYTES :: nat where "RUNNER_HOST_CONTEXT_ROLE_MAX_BYTES = 64"
definition RUNNER_HOST_CONTEXT_TEXT_MAX_BYTES :: nat where "RUNNER_HOST_CONTEXT_TEXT_MAX_BYTES = 512"
definition RUNNER_HOST_CONTEXT_TOTAL_MAX_BYTES :: nat where "RUNNER_HOST_CONTEXT_TOTAL_MAX_BYTES = 1536"

record ShellProfileSummaryEntry =
  spe_name :: rstr
  spe_has_init_script :: bool
  spe_env_keys_count :: nat
  spe_program :: rstr
  spe_args_count :: nat
  spe_dialect :: "rstr option"

record ShellProfilesSummary =
  sps_default_profile :: "rstr option"
  sps_configured_count :: nat
  sps_prepared_cache_count :: nat
  sps_profiles :: "ShellProfileSummaryEntry list"
  sps_default_dialect :: "rstr option"
  sps_available_dialects :: "rstr list option"

record RunnerPolicySummary =
  pol_allow_raw_shell :: bool
  pol_allow_cwd_anywhere :: bool
  pol_allowed_roots :: "rstr list"
  pol_max_timeout_secs :: nat
  pol_max_output_bytes :: nat
  pol_shell_profiles :: "ShellProfilesSummary option"
  pol_tool_providers :: "ToolProvidersStatus option"
  pol_mcp_gateway_providers :: "McpGatewayProvider list option"

record RunnerBuildInfo =
  build_version :: "rstr option"
  build_git_commit :: "rstr option"
  build_git_dirty :: "bool option"

record RunnerHostContext =
  host_role :: "rstr option"
  host_runtime :: "rstr option"
  host_service :: "rstr option"
  host_network :: "rstr option"
  host_architecture :: "rstr option"

record RunnerRegisterRequest =
  rr_client_id :: rstr
  rr_runner_instance_id :: rstr
  rr_protocol_generation :: nat
  rr_display_name :: "rstr option"
  rr_owner :: "rstr option"
  rr_hostname :: "rstr option"
  rr_capabilities :: RunnerCapabilities
  rr_host_context :: "RunnerHostContext option"
  rr_policy :: "RunnerPolicySummary option"
  rr_process_started_at :: "int option"
  rr_build :: "RunnerBuildInfo option"
  rr_job_concurrency_limit :: "nat option"
  rr_job_inventory :: "ShellJobInventory option"
  rr_coding_agent_providers :: "CodingAgentProvider list option"
  rr_coding_agent_inventory :: "CodingAgentRunInventory option"

record RunnerDetails =
  det_display_name :: "rstr option"
  det_hostname :: "rstr option"
  det_host_context :: "RunnerHostContext option"
  det_features :: RunnerFeatureSet
  det_projects :: "RunnerProjectSummary list"
  det_project_inventory :: ProjectInventoryState
  det_accepted_protocol :: nat
  det_policy :: "RunnerPolicySummary option"
  det_registered_at :: int
  det_connected_at :: int
  det_process_started_at :: "int option"
  det_build :: "RunnerBuildInfo option"
  det_job_concurrency_limit :: "nat option"
  det_coding_agent_providers :: "CodingAgentProvider list"
  det_coding_agent_inventory :: CodingAgentRunInventory

record Registry =
  rg_inner :: RunnerRegistryInner
  rg_intents :: intents
  rg_details :: "rstr \<rightharpoonup> RunnerDetails"

record StreamingSessionRegistration =
  ssn_connection_id :: rstr
  ssn_transport :: RunnerTransport

record SharedKeyRegistrationLimits =
  lim_per_group :: nat
  lim_global :: nat
  lim_offline_ttl_secs :: int

record RegistrationEnv =
  renv_env :: ReconcileEnv
  renv_runners_order :: "(rstr \<rightharpoonup> RunnerRecord) \<Rightarrow> rstr list"
  renv_limits :: SharedKeyRegistrationLimits

section \<open>Validation of a request\<close>

definition accept_protocol :: "nat \<Rightarrow> rstr + nat" where
  "accept_protocol generation =
     (if generation = RUNNER_PROTOCOL_GENERATION_V2 then Inr generation
      else Inl (lit ''agent_protocol_generation is unsupported''))"

definition normalize_host_role :: "rstr option \<Rightarrow> rstr + rstr option" where
  "normalize_host_role v =
     (case v of
        None \<Rightarrow> Inr None
      | Some raw \<Rightarrow>
          let s = trim raw in
          if s = [] \<or> RUNNER_HOST_CONTEXT_ROLE_MAX_BYTES < str_len s
            then Inl (lit ''host_context.role must be 1..='' @ show_nat RUNNER_HOST_CONTEXT_ROLE_MAX_BYTES @ lit '' UTF-8 bytes'')
          else if \<not> list_all (\<lambda>c. is_ascii_lowercase c \<or> is_ascii_digit c \<or> c \<in> {95, 45}) s
            then Inl (lit ''host_context.role may only contain lowercase ASCII letters, digits, '' @ [39, 95, 39]
                   @ lit '' and '' @ [39, 45, 39])
          else Inr (Some s))"

definition normalize_host_context_text :: "rstr \<Rightarrow> rstr option \<Rightarrow> rstr + rstr option" where
  "normalize_host_context_text field v =
     (case v of
        None \<Rightarrow> Inr None
      | Some raw \<Rightarrow>
          let s = trim raw in
          if s = [] \<or> RUNNER_HOST_CONTEXT_TEXT_MAX_BYTES < str_len s
            then Inl (lit ''host_context.'' @ field @ lit '' must be 1..='' @ show_nat RUNNER_HOST_CONTEXT_TEXT_MAX_BYTES
                   @ lit '' UTF-8 bytes'')
          else if list_ex is_control s
            then Inl (lit ''host_context.'' @ field @ lit '' must not contain control characters'')
          else Inr (Some s))"

abbreviation try_bind :: "'e + 'a \<Rightarrow> ('a \<Rightarrow> 'e + 'b) \<Rightarrow> 'e + 'b" where
  "try_bind r k \<equiv> (case r of Inl e \<Rightarrow> Inl e | Inr x \<Rightarrow> k x)"

definition normalized_host_context :: "RunnerHostContext \<Rightarrow> rstr + RunnerHostContext" where
  "normalized_host_context c =
     try_bind (normalize_host_role (host_role c)) (\<lambda>role.
     try_bind (normalize_host_context_text (lit ''runtime'') (host_runtime c)) (\<lambda>runtime.
     try_bind (normalize_host_context_text (lit ''service'') (host_service c)) (\<lambda>service.
     try_bind (normalize_host_context_text (lit ''network'') (host_network c)) (\<lambda>network.
     try_bind (normalize_host_context_text (lit ''architecture'') (host_architecture c)) (\<lambda>architecture.
       let fields = [role, runtime, service, network, architecture] in
       if list_all (\<lambda>v. v = None) fields then Inl (lit ''host_context must contain at least one field'')
       else if RUNNER_HOST_CONTEXT_TOTAL_MAX_BYTES < sum_list (map str_len (List.map_filter id fields))
         then Inl (lit ''host_context content must be at most '' @ show_nat RUNNER_HOST_CONTEXT_TOTAL_MAX_BYTES
                @ lit '' UTF-8 bytes total'')
       else Inr \<lparr>host_role = role, host_runtime = runtime, host_service = service, host_network = network,
              host_architecture = architecture\<rparr>)))))"

text \<open>The providers and the run inventory of coding agents. The sets are those of the ids seen so far.\<close>

definition prefix_error :: "string \<Rightarrow> rstr + unit \<Rightarrow> rstr + unit" where
  "prefix_error message r = map_sum (\<lambda>e. lit message @ e) id r"

fun validate_agent_providers :: "rstr set \<Rightarrow> rstr set \<Rightarrow> CodingAgentProvider list \<Rightarrow> rstr + unit" where
  "validate_agent_providers ids instances [] = Inr ()"
| "validate_agent_providers ids instances (p # ps) =
     and_then (prefix_error ''invalid coding-agent provider id: '' (validate_provider_id (prov_provider_id p)))
    (and_then (prefix_error ''invalid coding-agent provider instance: '' (validate_provider_instance_id (prov_provider_instance_id p)))
    (and_then (reject_if (trim (prov_name p) = [] \<or> CODING_AGENT_MAX_PROVIDER_NAME_BYTES < str_len (prov_name p)
           \<or> list_ex is_control (prov_name p)) (lit ''invalid coding-agent provider name''))
    (and_then (reject_if (prov_provider_id p \<in> ids \<or> prov_provider_instance_id p \<in> instances)
         (lit ''duplicate coding-agent provider identity''))
       (validate_agent_providers (insert (prov_provider_id p) ids) (insert (prov_provider_instance_id p) instances) ps))))"

fun validate_agent_runs ::
    "rstr \<Rightarrow> CodingAgentProvider list \<Rightarrow> rstr set \<Rightarrow> CodingAgentRunSnapshot list \<Rightarrow> rstr + unit" where
  "validate_agent_runs client_id providers ids [] = Inr ()"
| "validate_agent_runs client_id providers ids (run # runs) =
     and_then (prefix_error ''invalid coding-agent Run snapshot: '' (validate_coding_agent_run_snapshot run))
    (and_then (reject_if (run_id run \<in> ids) (lit ''duplicate coding-agent Run id in inventory''))
    (and_then (reject_if (\<not> starts_with (run_runtime_project_id run) (lit ''agent:'' @ client_id @ lit '':''))
         (lit ''coding-agent Run inventory references another Runner project namespace''))
    (and_then (reject_if (\<not> run_state_terminal (run_state run)
           \<and> \<not> list_ex (\<lambda>p. prov_provider_id p = run_provider_id run
                \<and> prov_provider_instance_id p = run_provider_instance_id run) providers)
         (lit ''active coding-agent Run references a stale provider instance''))
       (validate_agent_runs client_id providers (insert (run_id run) ids) runs))))"

definition validate_coding_agent_registration ::
    "rstr \<Rightarrow> bool \<Rightarrow> CodingAgentProvider list option \<Rightarrow> CodingAgentRunInventory option \<Rightarrow> rstr + unit" where
  "validate_coding_agent_registration client_id capability providers inventory =
     (case (capability, providers, inventory) of
        (False, None, None) \<Rightarrow> Inr ()
      | (False, _, _) \<Rightarrow> Inl (lit ''coding-agent provider/inventory metadata requires coding_agent_runs capability'')
      | (True, Some ps, Some inv1) \<Rightarrow>
          if ps = [] then Inl (lit ''coding_agent_runs capability requires non-empty provider inventory and Run inventory'')
          else and_then (reject_if (CODING_AGENT_MAX_PROVIDERS < length ps)
                 (lit ''coding-agent provider inventory exceeds bounded limit''))
              (and_then (reject_if (CODING_AGENT_MAX_INVENTORY_RUNS < length (cinv_runs inv1))
                 (lit ''coding-agent Run inventory exceeds bounded limit''))
              (and_then (validate_agent_providers {} {} ps)
                 (validate_agent_runs client_id ps {} (cinv_runs inv1))))
      | (True, _, _) \<Rightarrow> Inl (lit ''coding_agent_runs capability requires non-empty provider inventory and Run inventory''))"

definition validate_patch_features :: "RunnerFeatureSet \<Rightarrow> rstr + unit" where
  "validate_patch_features fs =
     and_then (reject_if (supports fs Feature_ApplyPatchMatchMetadata \<and> \<not> supports fs Feature_ApplyPatch)
         (lit ''apply_patch_match_metadata capability requires apply_patch capability''))
    (and_then (reject_if (supports fs Feature_ApplyPatchStrictMatching \<and> \<not> supports fs Feature_ApplyPatchMatchMetadata)
         (lit ''apply_patch_strict_matching capability requires apply_patch_match_metadata capability''))
       (reject_if (supports fs Feature_ApplyPatchMatchingMode \<and> \<not> supports fs Feature_ApplyPatchMatchMetadata)
         (lit ''apply_patch_matching_mode capability requires apply_patch_match_metadata capability'')))"

definition normalized_policy :: "RunnerPolicySummary option \<Rightarrow> RunnerPolicySummary option" where
  "normalized_policy policy =
     map_option (\<lambda>p. p\<lparr>pol_tool_providers := normalize_tool_providers (pol_tool_providers p)\<rparr>) policy"

definition validate_policy :: "RunnerPolicySummary option \<Rightarrow> rstr + unit" where
  "validate_policy policy =
     (case Option.bind policy pol_mcp_gateway_providers of
        None \<Rightarrow> Inr ()
      | Some ps \<Rightarrow> prefix_error ''invalid MCP gateway provider inventory: '' (validate_providers ps))"

definition validate_registration_inventory ::
    "ReconcileEnv \<Rightarrow> rstr \<Rightarrow> RunnerFeatureSet \<Rightarrow> ShellJobInventory option \<Rightarrow> rstr + unit" where
  "validate_registration_inventory env client_id fs inventory =
     (case (supports fs Feature_JobStateReconciliation, inventory) of
        (True, Some i) \<Rightarrow> validate_job_inventory_without_project_membership env client_id i
      | (True, None) \<Rightarrow> Inl (lit ''job_state_reconciliation capability requires job_inventory'')
      | (False, Some _) \<Rightarrow> Inl (lit ''job_inventory requires job_state_reconciliation capability'')
      | (False, None) \<Rightarrow> Inr ())"

text \<open>The request is checked before the lock is taken; a request that passes gives the record of the Runner.\<close>

definition validate_register_fields :: "RunnerRegisterRequest \<Rightarrow> rstr + unit" where
  "validate_register_fields body =
     and_then (validate_id (rr_client_id body) (lit ''client_id''))
    (and_then (validate_runner_instance_id (rr_runner_instance_id body))
    (and_then (validate_optional_field (rr_display_name body) (lit ''display_name''))
    (and_then (validate_optional_field (rr_owner body) (lit ''owner''))
    (and_then (validate_optional_field (rr_hostname body) (lit ''hostname''))
       (reject_if (opt_ex (\<lambda>limit. \<not> (RUNNER_JOB_CONCURRENCY_MIN \<le> limit \<and> limit \<le> RUNNER_JOB_CONCURRENCY_MAX))
           (rr_job_concurrency_limit body))
         (lit ''job_concurrency_limit must be between '' @ show_nat RUNNER_JOB_CONCURRENCY_MIN @ lit '' and ''
            @ show_nat RUNNER_JOB_CONCURRENCY_MAX))))))"

definition new_runner ::
    "int \<Rightarrow> RunnerRegisterRequest \<Rightarrow> RunnerAccess option \<Rightarrow> StreamingSessionRegistration option \<Rightarrow> RunnerFeatureSet \<Rightarrow> RunnerRecord" where
  "new_runner now body auth streaming fs =
     \<lparr>runner_client_id = trim (rr_client_id body), runner_instance_id = trim (rr_runner_instance_id body),
      runner_owner = trim_string (rr_owner body), runner_auth_group = Option.bind auth acc_group, runner_last_seen = now,
      runner_supports_reconciliation = supports fs Feature_JobStateReconciliation,
      runner_transport = (case streaming of None \<Rightarrow> Polling | Some s \<Rightarrow> ssn_transport s),
      runner_connection_id = map_option ssn_connection_id streaming, runner_disconnected_at = None, runner_suppressions = []\<rparr>"

definition new_details ::
    "int \<Rightarrow> RunnerRegisterRequest \<Rightarrow> nat \<Rightarrow> RunnerFeatureSet \<Rightarrow> RunnerHostContext option \<Rightarrow> RunnerDetails" where
  "new_details now body protocol fs host_context =
     \<lparr>det_display_name = trim_string (rr_display_name body), det_hostname = trim_string (rr_hostname body),
      det_host_context = host_context, det_features = fs, det_projects = [], det_project_inventory = pending_inventory_state 0,
      det_accepted_protocol = protocol, det_policy = normalized_policy (rr_policy body), det_registered_at = now,
      det_connected_at = now, det_process_started_at = rr_process_started_at body, det_build = rr_build body,
      det_job_concurrency_limit = rr_job_concurrency_limit body,
      det_coding_agent_providers = (case rr_coding_agent_providers body of None \<Rightarrow> [] | Some ps \<Rightarrow> ps),
      det_coding_agent_inventory = (case rr_coding_agent_inventory body of None \<Rightarrow> \<lparr>cinv_runs = []\<rparr> | Some i \<Rightarrow> i)\<rparr>"

definition validate_register_request ::
    "ReconcileEnv \<Rightarrow> int \<Rightarrow> RunnerRegisterRequest \<Rightarrow> RunnerAccess option \<Rightarrow> StreamingSessionRegistration option
       \<Rightarrow> rstr + RunnerRecord \<times> RunnerDetails" where
  "validate_register_request env now body auth streaming =
     and_then (validate_register_fields body)
    (try_bind (accept_protocol (rr_protocol_generation body)) (\<lambda>protocol.
     try_bind (features_from_registration (rr_capabilities body)) (\<lambda>fs.
     and_then (validate_patch_features fs)
    (and_then (validate_coding_agent_registration (trim (rr_client_id body)) (supports fs Feature_CodingAgentRuns)
         (rr_coding_agent_providers body) (rr_coding_agent_inventory body))
    (try_bind (case rr_host_context body of None \<Rightarrow> Inr None | Some c \<Rightarrow> map_sum id Some (normalized_host_context c)) (\<lambda>host_context.
     and_then (validate_policy (normalized_policy (rr_policy body)))
    (and_then (validate_registration_inventory env (trim (rr_client_id body)) fs (rr_job_inventory body))
       (Inr (new_runner now body auth streaming fs, new_details now body protocol fs host_context)))))))))"

section \<open>The view of a Runner\<close>

record RunnerView =
  view_client_id :: rstr
  view_runner_instance_id :: rstr
  view_display_name :: "rstr option"
  view_owner :: "rstr option"
  view_hostname :: "rstr option"
  view_status :: rstr
  view_host_context :: "RunnerHostContext option"
  view_connected :: bool
  view_last_seen :: int
  view_capabilities :: RunnerCapabilities
  view_coding_agent_providers :: "CodingAgentProvider list option"
  view_pending_requests :: nat
  view_projects :: "RunnerProjectSummary list"
  view_project_inventory :: "ShellProjectInventoryStatus option"
  view_protocol_generation :: nat
  view_transport :: rstr
  view_policy :: "RunnerPolicySummary option"
  view_registered_at :: int
  view_connected_at :: int
  view_disconnected_at :: "int option"
  view_process_started_at :: "int option"
  view_build :: "RunnerBuildInfo option"
  view_job_concurrency_limit :: "nat option"

primrec RunnerTransport_as_str :: "RunnerTransport \<Rightarrow> rstr" where
  "RunnerTransport_as_str Polling = lit ''polling''"
| "RunnerTransport_as_str WebSocket = lit ''websocket''"
| "RunnerTransport_as_str Quic = lit ''quic''"

definition existing_runner :: "Registry \<Rightarrow> rstr \<Rightarrow> (RunnerRecord \<times> RunnerDetails) option" where
  "existing_runner reg k =
     (case (reg_runners (rg_inner reg) k, rg_details reg k) of (Some r, Some d) \<Rightarrow> Some (r, d) | _ \<Rightarrow> None)"

definition runner_view_locked :: "int \<Rightarrow> Registry \<Rightarrow> rstr \<Rightarrow> RunnerView option" where
  "runner_view_locked now reg k =
     map_option (\<lambda>(r, d).
       let connected = i64_sat_sub now (runner_last_seen r) \<le> RUNNER_ONLINE_WINDOW_SECS in
       \<lparr>view_client_id = runner_client_id r, view_runner_instance_id = runner_instance_id r,
        view_display_name = det_display_name d, view_owner = runner_owner r, view_hostname = det_hostname d,
        view_status = (if connected then lit ''online'' else lit ''stale''), view_host_context = det_host_context d,
        view_connected = connected, view_last_seen = runner_last_seen r,
        view_capabilities = fs_capabilities (det_features d),
        view_coding_agent_providers =
          (if det_coding_agent_providers d = [] then None else Some (det_coding_agent_providers d)),
        view_pending_requests = (case reg_queues_by_runner (rg_inner reg) k of None \<Rightarrow> 0 | Some q \<Rightarrow> length q),
        view_projects = det_projects d, view_project_inventory = Some (pin_status (det_project_inventory d)),
        view_protocol_generation = det_accepted_protocol d, view_transport = RunnerTransport_as_str (runner_transport r),
        view_policy = det_policy d, view_registered_at = det_registered_at d, view_connected_at = det_connected_at d,
        view_disconnected_at = runner_disconnected_at r, view_process_started_at = det_process_started_at d,
        view_build = det_build d, view_job_concurrency_limit = det_job_concurrency_limit d\<rparr>) (existing_runner reg k)"

section \<open>Admission under the lock\<close>

definition in_group :: "rstr \<Rightarrow> RunnerRecord \<Rightarrow> bool" where
  "in_group g r \<longleftrightarrow> runner_auth_group r = Some (SharedKey g)"

definition in_any_group :: "RunnerRecord \<Rightarrow> bool" where
  "in_any_group r = (case runner_auth_group r of Some (SharedKey _) \<Rightarrow> True | _ \<Rightarrow> False)"

definition count_runners :: "RegistrationEnv \<Rightarrow> (RunnerRecord \<Rightarrow> bool) \<Rightarrow> RunnerRegistryInner \<Rightarrow> nat" where
  "count_runners env P inner = length (filter (\<lambda>k. opt_ex P (reg_runners inner k)) (renv_runners_order env (reg_runners inner)))"

definition check_shared_key_limits :: "RegistrationEnv \<Rightarrow> RunnerRecord \<Rightarrow> RunnerRegistryInner \<Rightarrow> rstr + unit" where
  "check_shared_key_limits env r inner =
     (case runner_auth_group r of
        Some (SharedKey g) \<Rightarrow>
          if reg_runners inner (runner_client_id r) \<noteq> None then Inr ()
          else and_then (reject_if (lim_per_group (renv_limits env) \<le> count_runners env (in_group g) inner)
                 (lit ''shared-key runner group limit reached (maximum '' @ show_nat (lim_per_group (renv_limits env)) @ lit '' runners)''))
              (reject_if (lim_global (renv_limits env) \<le> count_runners env in_any_group inner)
                 (lit ''shared-key runner global limit reached (maximum '' @ show_nat (lim_global (renv_limits env)) @ lit '' runners)''))
      | _ \<Rightarrow> Inr ())"

definition fenced_features :: "RunnerFeature list" where
  "fenced_features = [Feature_JobStateReconciliation, Feature_CodingAgentRuns, Feature_StructuredCargoTestExecutionPolicy,
     Feature_StructuredScriptJavascript, Feature_StructuredScriptTypescript, Feature_NativeToolPlugins]"

definition reject_same_instance_feature_downgrade ::
    "(RunnerRecord \<times> RunnerDetails) option \<Rightarrow> rstr \<Rightarrow> RunnerFeatureSet \<Rightarrow> RunnerFeature \<Rightarrow> rstr + unit" where
  "reject_same_instance_feature_downgrade existing instance_id incoming feature =
     reject_if (opt_ex (\<lambda>(r, d). runner_instance_id r = instance_id \<and> supports (det_features d) feature
          \<and> \<not> supports incoming feature) existing)
       (lit ''same runner instance cannot downgrade '' @ as_wire_name feature @ lit '' capability'')"

fun reject_downgrades ::
    "(RunnerRecord \<times> RunnerDetails) option \<Rightarrow> rstr \<Rightarrow> RunnerFeatureSet \<Rightarrow> RunnerFeature list \<Rightarrow> rstr + unit" where
  "reject_downgrades existing instance_id incoming [] = Inr ()"
| "reject_downgrades existing instance_id incoming (f # fs) =
     and_then (reject_same_instance_feature_downgrade existing instance_id incoming f)
       (reject_downgrades existing instance_id incoming fs)"

definition check_admission ::
    "RegistrationEnv \<Rightarrow> RunnerRecord \<Rightarrow> RunnerDetails \<Rightarrow> ShellJobInventory option \<Rightarrow> Registry \<Rightarrow> rstr + unit" where
  "check_admission env r d inventory reg =
     (let inner = rg_inner reg; k = runner_client_id r; existing = existing_runner reg k in
      and_then (reject_if (opt_ex (\<lambda>(old, _). runner_auth_group old \<noteq> runner_auth_group r) existing)
          (lit ''runner identity is unavailable''))
     (and_then (check_shared_key_limits env r inner)
     (and_then (reject_if (opt_ex (\<lambda>retired. runner_instance_id r \<in> set retired) (reg_retired_instances inner k))
          (lit ''runner '' @ k @ lit '' instance was replaced and cannot reclaim the lease''))
     (and_then (reject_downgrades existing (runner_instance_id r) (det_features d) fenced_features)
     (and_then (reject_if (opt_ex (\<lambda>(old, old_details). runner_instance_id old = runner_instance_id r
            \<and> det_coding_agent_providers old_details \<noteq> det_coding_agent_providers d) existing)
          (lit ''same runner instance cannot change ACP coding-agent provider inventory''))
        (case inventory of
           None \<Rightarrow> Inr ()
         | Some i \<Rightarrow> preflight_inventory_locked inner k (runner_instance_id r) i))))))"

section \<open>Taking the lease\<close>

definition retire :: "rstr \<Rightarrow> rstr list \<Rightarrow> rstr list" where
  "retire instance_id retired =
     (if instance_id \<in> set retired then retired
      else drop (length retired + 1 - MAX_RETIRED_INSTANCES_PER_RUNNER) (retired @ [instance_id]))"

definition retire_instance :: "rstr \<Rightarrow> rstr \<Rightarrow> RunnerRegistryInner \<Rightarrow> RunnerRegistryInner" where
  "retire_instance k instance_id inner =
     inner\<lparr>reg_retired_instances := (reg_retired_instances inner)(k \<mapsto>
       retire instance_id (case reg_retired_instances inner k of None \<Rightarrow> [] | Some l \<Rightarrow> l))\<rparr>"

definition replace_instance ::
    "ReconcileEnv \<Rightarrow> rstr \<Rightarrow> rstr \<Rightarrow> ShellJobInventory option \<Rightarrow> int \<Rightarrow> RunnerRegistryInner \<Rightarrow> RunnerRegistryInner" where
  "replace_instance env k old_instance inventory now inner =
     retire_instance k old_instance
       (resolve_disconnected_sync_requests_locked env k
         (terminate_instance_jobs_locked env k old_instance inventory now inner))"

text \<open>A reconnect of the same process keeps its registration time, its suppressions and its last complete projects.\<close>

definition carry_over ::
    "int \<Rightarrow> (RunnerRecord \<times> RunnerDetails) option \<Rightarrow> RunnerRecord \<times> RunnerDetails \<Rightarrow> RunnerRecord \<times> RunnerDetails" where
  "carry_over now existing new =
     (case existing of
        None \<Rightarrow> new
      | Some (old, old_details) \<Rightarrow>
          if runner_instance_id old \<noteq> runner_instance_id (fst new) then new
          else (prune_projected_structured_terminal_suppressions now
                  ((fst new)\<lparr>runner_suppressions := runner_suppressions old\<rparr>),
                (snd new)\<lparr>det_registered_at := det_registered_at old_details, det_projects := det_projects old_details,
                   det_project_inventory := preserve_authoritative_pending (length (det_projects old_details))
                     (det_project_inventory old_details)\<rparr>))"

definition install_runner ::
    "RunnerRecord \<Rightarrow> StreamingSessionRegistration option \<Rightarrow> RunnerRegistryInner \<Rightarrow> RunnerRegistryInner" where
  "install_runner r streaming inner =
     inner\<lparr>reg_runners := (reg_runners inner)(runner_client_id r \<mapsto> r),
       reg_notifiers := (reg_notifiers inner)(runner_client_id r :=
         map_option (\<lambda>s. \<lparr>ntf_runner_instance_id = runner_instance_id r, ntf_connection_id = Some (ssn_connection_id s)\<rparr>) streaming)\<rparr>"

text \<open>The outcome of a registration: a success carries the view that is returned and the session whose connection is told
  to stop once the lock is released. The two \<open>expect\<close>s of the code are the panicking branch.\<close>

datatype register_outcome = Registered "NotifierEntry option" RunnerView | Rejected rstr | RegisterPanicked

definition commit_registration ::
    "RegistrationEnv \<Rightarrow> int \<Rightarrow> RunnerRecord \<Rightarrow> RunnerDetails \<Rightarrow> ShellJobInventory option \<Rightarrow> StreamingSessionRegistration option
       \<Rightarrow> Registry \<Rightarrow> Registry option" where
  "commit_registration env now r d inventory streaming reg =
     (let k = runner_client_id r; inner = rg_inner reg; existing = existing_runner reg k;
          inner1 = (case existing of
              Some (old, _) \<Rightarrow>
                if runner_instance_id old \<noteq> runner_instance_id r
                then replace_instance (renv_env env) k (runner_instance_id old) inventory now inner else inner
            | None \<Rightarrow> inner);
          (r', d') = carry_over now existing (r, d);
          inner2 = install_runner r' streaming inner1;
          details = (rg_details reg)(k \<mapsto> d')
      in case inventory of
           None \<Rightarrow> Some (reg\<lparr>rg_inner := inner2, rg_details := details\<rparr>)
         | Some i \<Rightarrow> map_option (\<lambda>(inner3, _). reg\<lparr>rg_inner := inner3, rg_details := details\<rparr>)
             (reconcile_inventory_locked (renv_env env) k (runner_instance_id r) (runner_auth_group r') i now inner2))"

definition prune_registry :: "RegistrationEnv \<Rightarrow> int \<Rightarrow> Registry \<Rightarrow> Registry" where
  "prune_registry env now reg =
     (case prune_expired_shared_key_runners_locked (renv_env env) (renv_runners_order env)
         (lim_offline_ttl_secs (renv_limits env)) now (rg_inner reg, rg_intents reg) of
        (inner, m) \<Rightarrow> reg\<lparr>rg_inner := inner, rg_intents := m,
          rg_details := (\<lambda>k. if reg_runners inner k = None then None else rg_details reg k)\<rparr>)"

definition register_session ::
    "RegistrationEnv \<Rightarrow> int \<Rightarrow> int \<Rightarrow> RunnerRegisterRequest \<Rightarrow> RunnerAccess option \<Rightarrow> StreamingSessionRegistration option
       \<Rightarrow> Registry \<Rightarrow> register_outcome \<times> Registry" where
  "register_session env now view_now body auth streaming reg0 =
     (case validate_register_request (renv_env env) now body auth streaming of
        Inl e \<Rightarrow> (Rejected e, reg0)
      | Inr (r, d) \<Rightarrow>
          let reg = prune_registry env now reg0 in
          case check_admission env r d (rr_job_inventory body) reg of
            Inl e \<Rightarrow> (Rejected e, reg)
          | Inr _ \<Rightarrow>
              (case commit_registration env now r d (rr_job_inventory body) streaming reg of
                 None \<Rightarrow> (RegisterPanicked, reg)
               | Some reg' \<Rightarrow>
                   (case runner_view_locked view_now reg' (runner_client_id r) of
                      None \<Rightarrow> RegisterPanicked
                    | Some view \<Rightarrow> Registered (reg_notifiers (rg_inner reg) (runner_client_id r)) view, reg')))"

definition register_with_auth ::
    "RegistrationEnv \<Rightarrow> int \<Rightarrow> int \<Rightarrow> RunnerRegisterRequest \<Rightarrow> RunnerAccess option \<Rightarrow> Registry
       \<Rightarrow> register_outcome \<times> Registry" where
  "register_with_auth env now view_now body auth reg = register_session env now view_now body auth None reg"

definition register_streaming_session ::
    "RegistrationEnv \<Rightarrow> int \<Rightarrow> int \<Rightarrow> RunnerRegisterRequest \<Rightarrow> RunnerAccess option \<Rightarrow> rstr \<Rightarrow> RunnerTransport \<Rightarrow> Registry
       \<Rightarrow> register_outcome \<times> Registry" where
  "register_streaming_session env now view_now body auth connection_id transport reg =
     (case validate_id connection_id (lit ''connection_id'') of
        Inl e \<Rightarrow> (Rejected e, reg)
      | Inr _ \<Rightarrow>
          if transport = Polling then (Rejected (lit ''streaming Runner transport is unsupported''), reg)
          else register_session env now view_now body auth
            (Some \<lparr>ssn_connection_id = connection_id, ssn_transport = transport\<rparr>) reg)"

section \<open>Keepalive and runtime metadata\<close>

definition lease_error :: "rstr \<Rightarrow> rstr \<Rightarrow> rstr option \<Rightarrow> Registry \<Rightarrow> rstr option" where
  "lease_error k instance_id expected_connection_id reg =
     (case reg_runners (rg_inner reg) k of
        None \<Rightarrow> Some (lit ''unknown shell client: '' @ k)
      | Some r \<Rightarrow>
          if runner_instance_id r \<noteq> instance_id
            then Some (lit ''runner '' @ k @ lit '' is no longer the active instance (stale or replaced)'')
          else if opt_ex (\<lambda>c. runner_connection_id r \<noteq> Some c) expected_connection_id
            then Some (lit ''runner '' @ k @ lit '' transport connection is no longer active'')
          else None)"

definition note_seen :: "int \<Rightarrow> rstr \<Rightarrow> Registry \<Rightarrow> Registry" where
  "note_seen now k reg =
     reg\<lparr>rg_inner := (rg_inner reg)\<lparr>reg_runners := (reg_runners (rg_inner reg))(k :=
       map_option (\<lambda>r. r\<lparr>runner_last_seen := now\<rparr>) (reg_runners (rg_inner reg) k))\<rparr>\<rparr>"

definition touch_runner_for_connection :: "int \<Rightarrow> rstr \<Rightarrow> rstr \<Rightarrow> rstr \<Rightarrow> Registry \<Rightarrow> (rstr + unit) \<times> Registry" where
  "touch_runner_for_connection now k instance_id connection_id reg =
     (case validate_runner_instance_id instance_id of
        Inl e \<Rightarrow> (Inl e, reg)
      | Inr _ \<Rightarrow> (case lease_error k instance_id (Some connection_id) reg of
          Some e \<Rightarrow> (Inl e, reg)
        | None \<Rightarrow> (Inr (), note_seen now k reg)))"

definition merge_policy ::
    "ToolProvidersStatus option \<Rightarrow> McpGatewayProvider list option \<Rightarrow> RunnerPolicySummary \<Rightarrow> RunnerPolicySummary" where
  "merge_policy tool_providers mcp policy =
     (let p1 = (case tool_providers of None \<Rightarrow> policy | Some status \<Rightarrow> policy\<lparr>pol_tool_providers := Some status\<rparr>)
      in case mcp of None \<Rightarrow> p1 | Some ps \<Rightarrow> p1\<lparr>pol_mcp_gateway_providers := Some ps\<rparr>)"

definition update_runtime_metadata_checked ::
    "int \<Rightarrow> rstr \<Rightarrow> rstr \<Rightarrow> rstr option \<Rightarrow> ToolProvidersStatus option \<Rightarrow> McpGatewayProvider list option \<Rightarrow> Registry
       \<Rightarrow> (rstr + unit) \<times> Registry" where
  "update_runtime_metadata_checked now k instance_id expected_connection_id tool_providers0 mcp reg =
     (let tool_providers = normalize_tool_providers tool_providers0 in
      case (case mcp of None \<Rightarrow> Inr ()
            | Some ps \<Rightarrow> prefix_error ''invalid MCP gateway provider inventory: '' (validate_providers ps)) of
        Inl e \<Rightarrow> (Inl e, reg)
      | Inr _ \<Rightarrow>
          if tool_providers = None \<and> mcp = None then (Inr (), reg)
          else (case validate_runner_instance_id instance_id of
              Inl e \<Rightarrow> (Inl e, reg)
            | Inr _ \<Rightarrow> (case lease_error k instance_id expected_connection_id reg of
                Some e \<Rightarrow> (Inl e, reg)
              | None \<Rightarrow> (Inr (), note_seen now k (reg\<lparr>rg_details := (rg_details reg)(k :=
                  map_option (\<lambda>d. d\<lparr>det_policy := map_option (merge_policy tool_providers mcp) (det_policy d)\<rparr>)
                    (rg_details reg k))\<rparr>)))))"

definition update_runtime_metadata where
  "update_runtime_metadata now k instance_id tool_providers mcp reg =
     update_runtime_metadata_checked now k instance_id None tool_providers mcp reg"

definition update_runtime_metadata_for_connection where
  "update_runtime_metadata_for_connection now k instance_id connection_id tool_providers mcp reg =
     update_runtime_metadata_checked now k instance_id (Some connection_id) tool_providers mcp reg"

definition update_tool_providers where
  "update_tool_providers now k instance_id status reg = update_runtime_metadata now k instance_id status None reg"

definition update_tool_providers_for_connection where
  "update_tool_providers_for_connection now k instance_id connection_id status reg =
     update_runtime_metadata_for_connection now k instance_id connection_id status None reg"

section \<open>Observations\<close>

definition runner_semantic_view_locked :: "int \<Rightarrow> Registry \<Rightarrow> rstr \<Rightarrow> (RunnerView \<times> RunnerFeatureSet) option" where
  "runner_semantic_view_locked now reg k =
     (case (map_option (\<lambda>(r, d). det_features d) (existing_runner reg k), runner_view_locked now reg k) of
        (Some fs, Some view) \<Rightarrow> Some (view, fs)
      | _ \<Rightarrow> None)"

definition inventory_runner :: "RunnerRecord \<Rightarrow> RunnerDetails \<Rightarrow> InventoryRunner" where
  "inventory_runner r d = RunnerRecord.extend r (InventoryRunner.fields (det_projects d) (det_project_inventory d))"

definition expire_details :: "int \<Rightarrow> Registry \<Rightarrow> rstr \<Rightarrow> RunnerDetails option" where
  "expire_details now reg k =
     map_option (\<lambda>(r, d). d\<lparr>det_project_inventory := inv_state (expire_staging now (inventory_runner r d))\<rparr>) (existing_runner reg k)"

definition expire_all_staging :: "int \<Rightarrow> Registry \<Rightarrow> Registry" where
  "expire_all_staging now reg = reg\<lparr>rg_details := expire_details now reg\<rparr>"

definition expire_one_staging :: "int \<Rightarrow> rstr \<Rightarrow> Registry \<Rightarrow> Registry" where
  "expire_one_staging now k reg = reg\<lparr>rg_details := (rg_details reg)(k := expire_details now reg k)\<rparr>"

definition visible_runner :: "RunnerAccess option \<Rightarrow> Registry \<Rightarrow> rstr \<Rightarrow> bool" where
  "visible_runner auth reg k = opt_ex (runner_visible_to_access auth) (reg_runners (rg_inner reg) k)"

definition sorted_runner_ids :: "RegistrationEnv \<Rightarrow> Registry \<Rightarrow> rstr list" where
  "sorted_runner_ids env reg = sort (renv_runners_order env (reg_runners (rg_inner reg)))"

definition list_runners_for_auth ::
    "RegistrationEnv \<Rightarrow> int \<Rightarrow> int \<Rightarrow> RunnerAccess option \<Rightarrow> Registry \<Rightarrow> RunnerView list \<times> Registry" where
  "list_runners_for_auth env now view_now auth reg0 =
     (let reg = expire_all_staging now (prune_registry env now reg0) in
      (List.map_filter (runner_view_locked view_now reg) (filter (visible_runner auth reg) (sorted_runner_ids env reg)), reg))"

definition list_runner_semantic_views_for_auth ::
    "RegistrationEnv \<Rightarrow> int \<Rightarrow> int \<Rightarrow> RunnerAccess option \<Rightarrow> Registry \<Rightarrow> (RunnerView \<times> RunnerFeatureSet) list \<times> Registry" where
  "list_runner_semantic_views_for_auth env now view_now auth reg0 =
     (let reg = expire_all_staging now (prune_registry env now reg0) in
      (List.map_filter (runner_semantic_view_locked view_now reg)
         (filter (visible_runner auth reg) (sorted_runner_ids env reg)), reg))"

definition online_group_member :: "int \<Rightarrow> rstr \<Rightarrow> RunnerRecord \<Rightarrow> bool" where
  "online_group_member now g r \<longleftrightarrow> in_group g r \<and> i64_sat_sub now (runner_last_seen r) \<le> RUNNER_ONLINE_WINDOW_SECS"

definition has_connected_shared_key_group :: "RegistrationEnv \<Rightarrow> int \<Rightarrow> rstr \<Rightarrow> Registry \<Rightarrow> bool \<times> Registry" where
  "has_connected_shared_key_group env now g reg0 =
     (let reg = prune_registry env now reg0 in
      (list_ex (\<lambda>k. opt_ex (online_group_member now g) (reg_runners (rg_inner reg) k))
         (renv_runners_order env (reg_runners (rg_inner reg))), reg))"

definition connected_shared_key_group_feature_sets ::
    "RegistrationEnv \<Rightarrow> int \<Rightarrow> rstr \<Rightarrow> Registry \<Rightarrow> RunnerFeatureSet list \<times> Registry" where
  "connected_shared_key_group_feature_sets env now g reg0 =
     (let reg = prune_registry env now reg0 in
      (List.map_filter (\<lambda>k. case existing_runner reg k of
           None \<Rightarrow> None
         | Some (r, d) \<Rightarrow> if online_group_member now g r then Some (det_features d) else None)
         (renv_runners_order env (reg_runners (rg_inner reg))), reg))"

text \<open>A bounded observation is complete or not given at all.\<close>

fun visible_within ::
    "RunnerAccess option \<Rightarrow> nat \<Rightarrow> Registry \<Rightarrow> nat \<Rightarrow> rstr list \<Rightarrow> rstr list option" where
  "visible_within auth max_projects reg project_count [] = Some []"
| "visible_within auth max_projects reg project_count (k # ks) =
     (if \<not> visible_runner auth reg k then visible_within auth max_projects reg project_count ks
      else (case checked_add project_count (case rg_details reg k of None \<Rightarrow> 0 | Some d \<Rightarrow> length (det_projects d)) of
          None \<Rightarrow> None
        | Some n \<Rightarrow>
            if max_projects < n then None
            else map_option (\<lambda>rest. k # rest) (visible_within auth max_projects reg n ks)))"

fun collect_options :: "'a option list \<Rightarrow> 'a list option" where
  "collect_options [] = Some []"
| "collect_options (x # xs) = (case x of None \<Rightarrow> None | Some v \<Rightarrow> map_option (\<lambda>vs. v # vs) (collect_options xs))"

definition bounded_runner_semantic_views_for_auth_locked ::
    "RegistrationEnv \<Rightarrow> int \<Rightarrow> RunnerAccess option \<Rightarrow> nat \<Rightarrow> nat \<Rightarrow> Registry \<Rightarrow> (RunnerView \<times> RunnerFeatureSet) list option" where
  "bounded_runner_semantic_views_for_auth_locked env view_now auth max_runners max_projects reg =
     (let ks = renv_runners_order env (reg_runners (rg_inner reg)) in
      if max_runners < length ks then None
      else (case visible_within auth max_projects reg 0 ks of
          None \<Rightarrow> None
        | Some ids \<Rightarrow> collect_options (map (runner_semantic_view_locked view_now reg) (sort ids))))"

definition list_bounded_runner_semantic_views_for_auth where
  "list_bounded_runner_semantic_views_for_auth env now view_now auth max_runners max_projects reg0 =
     (let reg = expire_all_staging now (prune_registry env now reg0) in
      (bounded_runner_semantic_views_for_auth_locked env view_now auth max_runners max_projects reg, reg))"

definition get_runner_view :: "RegistrationEnv \<Rightarrow> int \<Rightarrow> int \<Rightarrow> rstr \<Rightarrow> Registry \<Rightarrow> RunnerView option \<times> Registry" where
  "get_runner_view env now view_now k reg0 =
     (let reg = expire_one_staging now k (prune_registry env now reg0) in (runner_view_locked view_now reg k, reg))"

definition get_runner_view_for_auth ::
    "RegistrationEnv \<Rightarrow> int \<Rightarrow> int \<Rightarrow> rstr \<Rightarrow> RunnerAccess option \<Rightarrow> Registry \<Rightarrow> RunnerView option \<times> Registry" where
  "get_runner_view_for_auth env now view_now k auth reg0 =
     (let reg = prune_registry env now reg0 in
      (if visible_runner auth reg k then runner_view_locked view_now reg k else None, reg))"

definition get_runner_semantic_view ::
    "RegistrationEnv \<Rightarrow> int \<Rightarrow> int \<Rightarrow> rstr \<Rightarrow> Registry \<Rightarrow> (RunnerView \<times> RunnerFeatureSet) option \<times> Registry" where
  "get_runner_semantic_view env now view_now k reg0 =
     (let reg = expire_one_staging now k (prune_registry env now reg0) in (runner_semantic_view_locked view_now reg k, reg))"

definition get_runner_semantic_view_for_auth ::
    "RegistrationEnv \<Rightarrow> int \<Rightarrow> int \<Rightarrow> rstr \<Rightarrow> RunnerAccess option \<Rightarrow> Registry \<Rightarrow> (RunnerView \<times> RunnerFeatureSet) option \<times> Registry" where
  "get_runner_semantic_view_for_auth env now view_now k auth reg0 =
     (let reg = prune_registry env now reg0 in
      (if visible_runner auth reg k then runner_semantic_view_locked view_now reg k else None, reg))"

definition registry_assert_runner_access ::
    "RegistrationEnv \<Rightarrow> int \<Rightarrow> RunnerAccess option \<Rightarrow> rstr \<Rightarrow> Registry \<Rightarrow> (rstr + unit) \<times> Registry" where
  "registry_assert_runner_access env now auth k reg0 =
     (let reg = prune_registry env now reg0 in
      (case reg_runners (rg_inner reg) k of
         None \<Rightarrow> Inl (lit ''unknown shell client: '' @ k)
       | Some r \<Rightarrow> assert_runner_access auth r, reg))"

definition get_runner_semantic_view_checked_for_auth ::
    "RegistrationEnv \<Rightarrow> int \<Rightarrow> int \<Rightarrow> rstr \<Rightarrow> RunnerAccess option \<Rightarrow> Registry \<Rightarrow> (rstr + RunnerView \<times> RunnerFeatureSet) \<times> Registry" where
  "get_runner_semantic_view_checked_for_auth env now view_now k auth reg0 =
     (case registry_assert_runner_access env now auth k reg0 of
        (Inl e, reg) \<Rightarrow> (Inl e, reg)
      | (Inr _, reg) \<Rightarrow>
          (case runner_semantic_view_locked view_now reg k of
             None \<Rightarrow> Inl (lit ''unknown shell client: '' @ k)
           | Some v \<Rightarrow> Inr v, reg))"

section \<open>Coding-agent runs of the Runners\<close>

definition advertised_run :: "RunnerDetails \<Rightarrow> rstr \<Rightarrow> CodingAgentRunSnapshot option" where
  "advertised_run d rid = List.find (\<lambda>run. run_id run = rid) (cinv_runs (det_coding_agent_inventory d))"

definition visible_run ::
    "int \<Rightarrow> RunnerAccess option \<Rightarrow> Registry \<Rightarrow> rstr \<Rightarrow> rstr \<Rightarrow> (RunnerView \<times> CodingAgentRunSnapshot) option" where
  "visible_run view_now auth reg rid k =
     (case existing_runner reg k of
        None \<Rightarrow> None
      | Some (r, d) \<Rightarrow>
          if \<not> runner_visible_to_access auth r then None
          else (case (advertised_run d rid, runner_view_locked view_now reg k) of
              (Some run, Some view) \<Rightarrow> Some (view, run)
            | _ \<Rightarrow> None))"

definition coding_agent_run_for_runner_for_auth ::
    "RegistrationEnv \<Rightarrow> int \<Rightarrow> int \<Rightarrow> RunnerAccess option \<Rightarrow> rstr \<Rightarrow> rstr \<Rightarrow> Registry
       \<Rightarrow> (RunnerView \<times> CodingAgentRunSnapshot) option \<times> Registry" where
  "coding_agent_run_for_runner_for_auth env now view_now auth k rid reg0 =
     (let reg = prune_registry env now reg0 in (visible_run view_now auth reg rid k, reg))"

text \<open>The loop over the sorted ids: the first match is kept, a second one ends the search without an answer.\<close>

fun unique_run :: "(rstr \<Rightarrow> 'a option) \<Rightarrow> 'a option \<Rightarrow> rstr list \<Rightarrow> 'a option" where
  "unique_run f matched [] = matched"
| "unique_run f matched (k # ks) =
     (case f k of
        None \<Rightarrow> unique_run f matched ks
      | Some m \<Rightarrow> if matched \<noteq> None then None else unique_run f (Some m) ks)"

definition coding_agent_run_for_auth ::
    "RegistrationEnv \<Rightarrow> int \<Rightarrow> int \<Rightarrow> RunnerAccess option \<Rightarrow> rstr \<Rightarrow> Registry
       \<Rightarrow> (RunnerView \<times> CodingAgentRunSnapshot) option \<times> Registry" where
  "coding_agent_run_for_auth env now view_now auth rid reg0 =
     (let reg = prune_registry env now reg0 in
      (unique_run (visible_run view_now auth reg rid) None (sorted_runner_ids env reg), reg))"

end
