(* ===== verification/Runner_Leases.thy ===== *)
theory Runner_Leases
  imports Runner_Registration
begin

text \<open>
  The lease of a Runner: what a registration does to the registry as a whole. A rejected registration changes nothing; a
  successful one installs exactly the process and the connection that asked; a process that is replaced is retired with
  its requests and Jobs; the limits on shared-key Runners hold after any sequence of operations on the leases.
\<close>

section \<open>Effects on the leases\<close>

definition lease_of where
  "lease_of inner = (reg_runners inner, reg_notifiers inner, reg_retired_instances inner)"

named_theorems lease_effects \<open>what the operations do to the leases of the registry\<close>

lemma lease_fold: "(\<And>x i. lease_of (f x i) = lease_of i) \<Longrightarrow> lease_of (fold f xs inner) = lease_of inner"
  by (induction xs arbitrary: inner) auto

lemma lease_request_mapping [lease_effects]: "lease_of (remove_job_request_mapping c rid inner) = lease_of inner"
  by (auto simp: lease_of_def remove_job_request_mapping_def split: option.splits)

lemma lease_control_requests [lease_effects]: "lease_of (remove_job_control_requests env c js inner) = lease_of inner"
  unfolding remove_job_control_requests_def by (rule lease_fold) (rule lease_request_mapping)

lemma lease_put_job [lease_effects]: "lease_of (put_job inner jid jc) = lease_of inner"
  by (simp add: lease_of_def put_job_def)

lemma lease_cleanup [lease_effects]: "lease_of (remove_cleanup_terminal_jobs_locked env inner) = lease_of inner"
  unfolding remove_cleanup_terminal_jobs_locked_def by (rule lease_fold) (simp add: lease_of_def remove_job_def)

lemma lease_lose_job [lease_effects]: "lease_of (lose_job c now r m entry inner) = lease_of inner"
  by (auto simp: lose_job_def lease_effects split: prod.splits option.splits)

lemma lease_end_jobs [lease_effects]: "lease_of (end_jobs env c now r m entries inner) = lease_of inner"
  by (simp add: end_jobs_def lease_effects lease_fold)

lemma lease_lose_recovering [lease_effects]: "lease_of (lose_if_recovering now jid inner) = lease_of inner"
  by (auto simp: lose_if_recovering_def lease_effects split: option.splits)

lemma lease_remove_requests [lease_effects]: "lease_of (remove_requests env entries inner) = lease_of inner"
  by (simp add: remove_requests_def lease_effects lease_fold split_def)

lemma lease_expire [lease_effects]: "lease_of (fst (expire_recovering_jobs_locked env f now cap inner)) = lease_of inner"
  by (simp add: expire_recovering_jobs_locked_def Let_def lease_effects lease_fold)

lemma lease_terminate [lease_effects]: "lease_of (terminate_instance_jobs_locked env c i inventory now inner) = lease_of inner"
  by (simp add: terminate_instance_jobs_locked_def lease_effects)

lemma lease_resolve [lease_effects]: "lease_of (resolve_disconnected_sync_requests_locked env c inner) = lease_of inner"
  unfolding resolve_disconnected_sync_requests_locked_def
  by (rule lease_fold) (simp add: lease_of_def remove_from_queue_def take_pending_request_locked_def split: option.splits)

lemma lease_finish_snapshot [lease_effects]: "lease_of (finish_snapshot c s inner) = lease_of inner"
  by (simp add: finish_snapshot_def lease_effects)

lemma lease_reconcile_snapshot:
  "reconcile_snapshot c i g now s (inner, summary) = Some (inner', summary') \<Longrightarrow> lease_of inner' = lease_of inner"
  by (auto simp: reconcile_snapshot_def reconcile_existing_def Let_def lease_effects split: option.splits if_splits)

lemma lease_reconcile_each:
  "reconcile_each c i g now snaps (inner, summary) = Some (inner', summary') \<Longrightarrow> lease_of inner' = lease_of inner"
proof (induction snaps arbitrary: inner summary)
  case (Cons s snaps)
  from Cons.prems obtain inner1 summary1 where "reconcile_snapshot c i g now s (inner, summary) = Some (inner1, summary1)"
    "reconcile_each c i g now snaps (inner1, summary1) = Some (inner', summary')" by (rule reconcile_each_Cons)
  with Cons.IH lease_reconcile_snapshot show ?case by metis
qed simp

lemma lease_reconcile:
  assumes "reconcile_inventory_locked env c i g inventory now inner = Some (inner', summary)"
  shows "lease_of inner' = lease_of (prune_projected_structured_terminal_suppressions_locked now inner)"
  using assms
  by (rule reconcile_inventory_phases)
    (simp add: lease_reconcile_each lease_effects before_snapshots_def Let_def)

lemma lease_retire: "lease_of (retire_instance k old inner) = (reg_runners inner, reg_notifiers inner, (reg_retired_instances inner)
    (k \<mapsto> retire old (case reg_retired_instances inner k of None \<Rightarrow> [] | Some l \<Rightarrow> l)))"
  by (simp add: lease_of_def retire_instance_def)

lemma lease_parts:
  assumes "lease_of a = lease_of b"
  shows "reg_runners a = reg_runners b" "reg_notifiers a = reg_notifiers b" "reg_retired_instances a = reg_retired_instances b"
  using assms by (simp_all add: lease_of_def)

section \<open>The session of a Runner\<close>

text \<open>What a registration says about who holds the lease; the rest of a record is bookkeeping.\<close>

definition session_of where
  "session_of r = (runner_client_id r, runner_instance_id r, runner_auth_group r, runner_transport r, runner_connection_id r)"

definition sessions where
  "sessions inner k = map_option session_of (reg_runners inner k)"

lemma session_prune [simp]: "session_of (prune_projected_structured_terminal_suppressions now r) = session_of r"
  by (simp add: session_of_def prune_projected_structured_terminal_suppressions_def)

lemma sessions_prune [simp]: "sessions (prune_projected_structured_terminal_suppressions_locked now inner) = sessions inner"
  by (rule ext) (simp add: sessions_def prune_projected_structured_terminal_suppressions_locked_def option.map_comp o_def)

lemma lease_prune [simp]:
  "reg_notifiers (prune_projected_structured_terminal_suppressions_locked now inner) = reg_notifiers inner"
  "reg_retired_instances (prune_projected_structured_terminal_suppressions_locked now inner) = reg_retired_instances inner"
  by (simp_all add: prune_projected_structured_terminal_suppressions_locked_def)

lemma sessions_lease: "lease_of a = lease_of b \<Longrightarrow> sessions a = sessions b"
  by (rule ext) (simp add: sessions_def lease_of_def)

lemma session_carry [simp]: "session_of (fst (carry_over now existing new)) = session_of (fst new)"
proof (cases existing)
  case (Some old)
  have u: "session_of (x\<lparr>runner_suppressions := l\<rparr>) = session_of x" for x :: RunnerRecord and l by (simp add: session_of_def)
  obtain o1 d1 where old: "old = (o1, d1)" by (cases old)
  have "fst (carry_over now existing new) \<in> {fst new, prune_projected_structured_terminal_suppressions now
      ((fst new)\<lparr>runner_suppressions := runner_suppressions o1\<rparr>)}"
    by (simp only: carry_over_def Some old option.case prod.case fst_conv insert_iff split: if_split) blast
  then show ?thesis using u by auto
qed (simp add: carry_over_def)

definition new_notifier where
  "new_notifier r streaming =
     map_option (\<lambda>s. \<lparr>ntf_runner_instance_id = runner_instance_id r, ntf_connection_id = Some (ssn_connection_id s)\<rparr>) streaming"

text \<open>The instance that a registration replaces, if any.\<close>

definition replaced where
  "replaced r reg = (case existing_runner reg (runner_client_id r) of
     Some (old, _) \<Rightarrow> if runner_instance_id old \<noteq> runner_instance_id r then Some (runner_instance_id old) else None
   | None \<Rightarrow> None)"

definition handed_over where
  "handed_over env now r inventory reg = (case replaced r reg of
     None \<Rightarrow> rg_inner reg
   | Some old \<Rightarrow> replace_instance (renv_env env) (runner_client_id r) old inventory now (rg_inner reg))"

definition installed where
  "installed env now r d inventory streaming reg =
     install_runner (fst (carry_over now (existing_runner reg (runner_client_id r)) (r, d))) streaming
       (handed_over env now r inventory reg)"

lemma carried_client [simp]: "runner_client_id (fst (carry_over now existing (r, d))) = runner_client_id r"
  "runner_auth_group (fst (carry_over now existing (r, d))) = runner_auth_group r"
  "runner_instance_id (fst (carry_over now existing (r, d))) = runner_instance_id r"
  using session_carry [of now existing "(r, d)"] by (simp_all add: session_of_def)

lemma commit_registration_eq:
  "commit_registration env now r d inventory streaming reg =
     map_option (\<lambda>inner. reg\<lparr>rg_inner := inner, rg_details := (rg_details reg)(runner_client_id r \<mapsto>
         snd (carry_over now (existing_runner reg (runner_client_id r)) (r, d)))\<rparr>)
       (case inventory of
          None \<Rightarrow> Some (installed env now r d inventory streaming reg)
        | Some i \<Rightarrow> map_option fst (reconcile_inventory_locked (renv_env env) (runner_client_id r) (runner_instance_id r)
            (runner_auth_group r) i now (installed env now r d inventory streaming reg)))"
proof (cases "existing_runner reg (runner_client_id r)")
  case None
  then show ?thesis
    by (simp add: commit_registration_def installed_def handed_over_def replaced_def Let_def carry_over_def option.map_comp
      o_def split_def split: option.split)
next
  case (Some old)
  obtain o1 d1 where old: "old = (o1, d1)" by (cases old)
  let ?n = "carry_over now (existing_runner reg (runner_client_id r)) (r, d)"
  obtain r1 e1 where n: "?n = (r1, e1)" by (cases ?n)
  have "runner_auth_group r1 = runner_auth_group r" using n carried_client(2) [of now _ r d] by (metis fst_conv)
  with Some old n show ?thesis
    by (simp add: commit_registration_def installed_def handed_over_def replaced_def Let_def option.map_comp o_def split_def
      split: option.split)
qed

lemma lease_handed_over:
  "reg_runners (handed_over env now r inventory reg) = reg_runners (rg_inner reg)"
  "reg_notifiers (handed_over env now r inventory reg) = reg_notifiers (rg_inner reg)"
  "reg_retired_instances (handed_over env now r inventory reg) = (case replaced r reg of
      None \<Rightarrow> reg_retired_instances (rg_inner reg)
    | Some old \<Rightarrow> (reg_retired_instances (rg_inner reg))(runner_client_id r \<mapsto>
        retire old (case reg_retired_instances (rg_inner reg) (runner_client_id r) of None \<Rightarrow> [] | Some l \<Rightarrow> l)))"
proof -
  have *: "lease_of (resolve_disconnected_sync_requests_locked e k (terminate_instance_jobs_locked e k old inventory now i)) = lease_of i"
    for e k old i by (simp add: lease_effects)
  show "reg_runners (handed_over env now r inventory reg) = reg_runners (rg_inner reg)"
    "reg_notifiers (handed_over env now r inventory reg) = reg_notifiers (rg_inner reg)"
    using lease_parts(1,2) [OF *] by (simp_all add: handed_over_def replace_instance_def retire_instance_def split: option.split)
  show "reg_retired_instances (handed_over env now r inventory reg) = (case replaced r reg of
      None \<Rightarrow> reg_retired_instances (rg_inner reg)
    | Some old \<Rightarrow> (reg_retired_instances (rg_inner reg))(runner_client_id r \<mapsto>
        retire old (case reg_retired_instances (rg_inner reg) (runner_client_id r) of None \<Rightarrow> [] | Some l \<Rightarrow> l)))"
    using lease_parts(3) [OF *] by (simp add: handed_over_def replace_instance_def retire_instance_def split: option.split)
qed

lemma commit_lease:
  assumes "commit_registration env now r d inventory streaming reg = Some reg'"
  shows "sessions (rg_inner reg') = (sessions (rg_inner reg))(runner_client_id r \<mapsto> session_of r)"
    "reg_notifiers (rg_inner reg') = (reg_notifiers (rg_inner reg))(runner_client_id r := new_notifier r streaming)"
    "reg_retired_instances (rg_inner reg') = reg_retired_instances (handed_over env now r inventory reg)"
    "rg_details reg' = (rg_details reg)(runner_client_id r \<mapsto>
       snd (carry_over now (existing_runner reg (runner_client_id r)) (r, d)))"
    "rg_intents reg' = rg_intents reg"
proof -
  define mid where "mid = installed env now r d inventory streaming reg"
  have mid: "sessions mid = (sessions (rg_inner reg))(runner_client_id r \<mapsto> session_of r)"
    "reg_notifiers mid = (reg_notifiers (rg_inner reg))(runner_client_id r := new_notifier r streaming)"
    "reg_retired_instances mid = reg_retired_instances (handed_over env now r inventory reg)"
    by (auto simp: fun_eq_iff mid_def installed_def install_runner_def sessions_def lease_handed_over(1,2) new_notifier_def)
  from assms obtain inner where inner: "reg' = reg\<lparr>rg_inner := inner, rg_details := (rg_details reg)(runner_client_id r \<mapsto>
         snd (carry_over now (existing_runner reg (runner_client_id r)) (r, d)))\<rparr>"
    "lease_of inner = lease_of mid \<or> lease_of inner = lease_of (prune_projected_structured_terminal_suppressions_locked now mid)"
    unfolding commit_registration_eq mid_def [symmetric]
    by (auto split: option.splits dest!: lease_reconcile)
  from inner(2) have "sessions inner = sessions mid \<and> reg_notifiers inner = reg_notifiers mid
      \<and> reg_retired_instances inner = reg_retired_instances mid"
  proof
    assume "lease_of inner = lease_of mid"
    with sessions_lease [OF this] lease_parts [OF this] show ?thesis by simp
  next
    assume "lease_of inner = lease_of (prune_projected_structured_terminal_suppressions_locked now mid)"
    from sessions_lease [OF this] lease_parts(2,3) [OF this] show ?thesis by simp
  qed
  with mid inner(1) show "sessions (rg_inner reg') = (sessions (rg_inner reg))(runner_client_id r \<mapsto> session_of r)"
    "reg_notifiers (rg_inner reg') = (reg_notifiers (rg_inner reg))(runner_client_id r := new_notifier r streaming)"
    "reg_retired_instances (rg_inner reg') = reg_retired_instances (handed_over env now r inventory reg)"
    "rg_details reg' = (rg_details reg)(runner_client_id r \<mapsto>
       snd (carry_over now (existing_runner reg (runner_client_id r)) (r, d)))"
    "rg_intents reg' = rg_intents reg"
    by simp_all
qed

section \<open>A registration\<close>

lemma validated:
  assumes "validate_register_request env now body auth streaming = Inr (r, d)"
  shows "session_of r = (trim (rr_client_id body), trim (rr_runner_instance_id body), Option.bind auth acc_group,
      (case streaming of None \<Rightarrow> Polling | Some s \<Rightarrow> ssn_transport s), map_option ssn_connection_id streaming)"
    "det_projects d = []"
    "rr_job_inventory body = Some i \<Longrightarrow>
       validate_job_inventory_without_project_membership env (runner_client_id r) i = Inr ()"
proof -
  from assms obtain fs protocol host where rd: "r = new_runner now body auth streaming fs"
    "d = new_details now body protocol fs host"
    "validate_registration_inventory env (trim (rr_client_id body)) fs (rr_job_inventory body) = Inr ()"
    unfolding validate_register_request_def by (auto split: sum.splits)
  show "session_of r = (trim (rr_client_id body), trim (rr_runner_instance_id body), Option.bind auth acc_group,
      (case streaming of None \<Rightarrow> Polling | Some s \<Rightarrow> ssn_transport s), map_option ssn_connection_id streaming)"
    "det_projects d = []"
    by (simp_all add: rd session_of_def new_runner_def new_details_def)
  show "validate_job_inventory_without_project_membership env (runner_client_id r) i = Inr ()" if "rr_job_inventory body = Some i"
    using rd(3) that by (auto simp: validate_registration_inventory_def rd(1) new_runner_def split: bool.splits)
qed

lemma commit_defined:
  assumes "\<And>i. inventory = Some i \<Longrightarrow> list_all snapshot_ok (jinv_jobs i)"
  obtains reg' where "commit_registration env now r d inventory streaming reg = Some reg'"
proof (cases inventory)
  case None
  then show thesis using that by (simp add: commit_registration_eq)
next
  case (Some i)
  with reconcile_inventory_defined [OF assms [OF Some], of "renv_env env" "runner_client_id r" "runner_instance_id r"
      "runner_auth_group r" now "installed env now r d inventory streaming reg"]
  show thesis using that by (auto simp: commit_registration_eq)
qed

lemma existing_after_commit:
  assumes "commit_registration env now r d inventory streaming reg = Some reg'"
  obtains r' where "existing_runner reg' (runner_client_id r) =
      Some (r', snd (carry_over now (existing_runner reg (runner_client_id r)) (r, d)))" "session_of r' = session_of r"
proof -
  from fun_cong [OF commit_lease(1) [OF assms], of "runner_client_id r"] obtain r' where
    "reg_runners (rg_inner reg') (runner_client_id r) = Some r'" "session_of r' = session_of r"
    by (auto simp: sessions_def)
  then show thesis using that commit_lease(4) [OF assms] by (simp add: existing_runner_def)
qed

text \<open>The branches of a registration.\<close>

lemma register_session_cases:
  obtains (rejected) e reg' where "register_session env now view_now body auth streaming reg = (Rejected e, reg')"
    "reg' = reg \<or> reg' = prune_registry env now reg"
  | (registered) r d reg' view where
    "register_session env now view_now body auth streaming reg =
       (Registered (reg_notifiers (rg_inner (prune_registry env now reg)) (runner_client_id r)) view, reg')"
    "validate_register_request (renv_env env) now body auth streaming = Inr (r, d)"
    "check_admission env r d (rr_job_inventory body) (prune_registry env now reg) = Inr ()"
    "commit_registration env now r d (rr_job_inventory body) streaming (prune_registry env now reg) = Some reg'"
    "runner_view_locked view_now reg' (runner_client_id r) = Some view"
proof (cases "validate_register_request (renv_env env) now body auth streaming")
  case (Inl e)
  then show thesis using rejected [of e reg] by (simp add: register_session_def)
next
  case (Inr rd)
  obtain r d where rd: "rd = (r, d)" by (cases rd)
  let ?reg = "prune_registry env now reg"
  note v = Inr [unfolded rd]
  show thesis
  proof (cases "check_admission env r d (rr_job_inventory body) ?reg")
    case (Inl e)
    then show thesis using rejected [of e ?reg] v by (simp add: register_session_def)
  next
    case (Inr u)
    have "list_all snapshot_ok (jinv_jobs i)" if "rr_job_inventory body = Some i" for i
      using validate_inventory_ok(1) validated(3) [OF v that] unfolding validate_job_inventory_without_project_membership_def by blast
    then obtain reg' where c: "commit_registration env now r d (rr_job_inventory body) streaming ?reg = Some reg'"
      by (rule commit_defined)
    from existing_after_commit [OF c] obtain view where view: "runner_view_locked view_now reg' (runner_client_id r) = Some view"
      by (metis (no_types, lifting) option.simps(9) runner_view_locked_def)
    show thesis
    proof (rule registered)
      show "register_session env now view_now body auth streaming reg =
          (Registered (reg_notifiers (rg_inner ?reg) (runner_client_id r)) view, reg')"
        using v Inr c view by (simp add: register_session_def Let_def)
    qed (use v Inr c view in simp_all)
  qed
qed

lemma view_identity:
  assumes "runner_view_locked view_now reg k = Some view" "existing_runner reg k = Some (r, d)"
  shows "view_client_id view = runner_client_id r" "view_runner_instance_id view = runner_instance_id r"
    "view_projects view = det_projects d"
  using assms by (auto simp: runner_view_locked_def Let_def)

text \<open>C19: A registration happens as a whole or not at all, and never panics. When it is rejected the registry is the one
  before, apart from shared-key Runners that had expired; no session is told to stop. When it is accepted the lease of
  the client, and of no other, is held by exactly the process, group, transport and connection of the request, the
  notifier is the one of the new connection, the session told to stop is the one that was connected before, and the view
  that is returned is of the new process; it has projects only if the same process had registered before.\<close>

theorem registration_is_all_or_nothing:
  "case register_session env now view_now body auth streaming reg of
     (Rejected e, reg') \<Rightarrow> reg' = reg \<or> reg' = prune_registry env now reg
   | (RegisterPanicked, reg') \<Rightarrow> False
   | (Registered stopped view, reg') \<Rightarrow>
       (let k = trim (rr_client_id body); i = trim (rr_runner_instance_id body); before_it = prune_registry env now reg in
        sessions (rg_inner reg') = (sessions (rg_inner before_it))(k \<mapsto> (k, i, Option.bind auth acc_group,
          (case streaming of None \<Rightarrow> Polling | Some s \<Rightarrow> ssn_transport s), map_option ssn_connection_id streaming))
        \<and> reg_notifiers (rg_inner reg') = (reg_notifiers (rg_inner before_it))(k := map_option (\<lambda>s.
            \<lparr>ntf_runner_instance_id = i, ntf_connection_id = Some (ssn_connection_id s)\<rparr>) streaming)
        \<and> stopped = reg_notifiers (rg_inner before_it) k
        \<and> view_client_id view = k \<and> view_runner_instance_id view = i
        \<and> (view_projects view = [] \<or> (\<exists>old d. existing_runner before_it k = Some (old, d)
              \<and> runner_instance_id old = i \<and> view_projects view = det_projects d)))"
proof (rule register_session_cases [of env now view_now body auth streaming reg])
  fix r :: RunnerRecord and d reg' view
  let ?reg = "prune_registry env now reg"
  let ?k = "runner_client_id r"
  assume h: "register_session env now view_now body auth streaming reg = (Registered (reg_notifiers (rg_inner ?reg) ?k) view, reg')"
    "validate_register_request (renv_env env) now body auth streaming = Inr (r, d)"
    "commit_registration env now r d (rr_job_inventory body) streaming ?reg = Some reg'"
    "runner_view_locked view_now reg' ?k = Some view"
  note v = validated(1,2) [OF h(2)]
  have ids: "trim (rr_client_id body) = ?k" "trim (rr_runner_instance_id body) = runner_instance_id r"
    using v(1) by (simp_all add: session_of_def)
  obtain r' where r': "existing_runner reg' ?k = Some (r', snd (carry_over now (existing_runner ?reg ?k) (r, d)))"
    "session_of r' = session_of r" by (rule existing_after_commit [OF h(3)])
  note view = view_identity [OF h(4) r'(1)]
  have "view_projects view = [] \<or> (\<exists>old d. existing_runner ?reg ?k = Some (old, d)
      \<and> runner_instance_id old = runner_instance_id r \<and> view_projects view = det_projects d)"
    using view(3) v(2) by (auto simp: carry_over_def split: option.splits if_splits)
  with h(1) commit_lease(1,2) [OF h(3)] view(1,2) r'(2) v(1) show ?thesis
    unfolding ids by (simp add: session_of_def new_notifier_def)
qed auto

section \<open>Taking over a lease\<close>

text \<open>No step of a reconciliation adds a request.\<close>

named_theorems pending_effects \<open>operations that add no request\<close>

abbreviation fewer_pending where
  "fewer_pending a b \<equiv> reg_pending_by_id a \<subseteq>\<^sub>m reg_pending_by_id b"

lemma fewer_fold:
  assumes "\<And>x i. fewer_pending (f x i) i"
  shows "fewer_pending (fold f xs inner) inner"
proof (induction xs arbitrary: inner)
  case (Cons x xs)
  show ?case using map_le_trans [OF Cons.IH [of "f x inner"] assms [of x inner]] by simp
qed simp

lemma fewer_put_job [simp]: "reg_pending_by_id (put_job inner jid jc) = reg_pending_by_id inner"
  by (simp add: put_job_def)

lemma fewer_request_mapping [pending_effects]: "fewer_pending (remove_job_request_mapping c rid inner) inner"
  by (auto simp: map_le_def remove_job_request_mapping_def split: option.splits)

lemma fewer_control_requests [pending_effects]: "fewer_pending (remove_job_control_requests env c js inner) inner"
  unfolding remove_job_control_requests_def by (rule fewer_fold) (rule fewer_request_mapping)

lemma fewer_cleanup [pending_effects]: "fewer_pending (remove_cleanup_terminal_jobs_locked env inner) inner"
  unfolding remove_cleanup_terminal_jobs_locked_def by (rule fewer_fold) (simp add: remove_job_def)

lemma fewer_lose_job [pending_effects]: "fewer_pending (lose_job c now r m entry inner) inner"
proof (cases entry)
  case (Pair jid rid)
  show ?thesis
  proof (cases "reg_jobs_by_id inner jid")
    case (Some job)
    with fewer_request_mapping [of c rid "put_job inner jid (mark_job_lost job now r m (reg_receipt_candidates inner))"] Pair
    show ?thesis by (simp add: lose_job_def)
  qed (simp add: Pair lose_job_def fewer_request_mapping)
qed

lemma fewer_end_jobs [pending_effects]: "fewer_pending (end_jobs env c now r m entries inner) inner"
  unfolding end_jobs_def by (rule map_le_trans [OF fewer_control_requests fewer_fold]) (rule fewer_lose_job)

lemma fewer_remove_requests [pending_effects]: "fewer_pending (remove_requests env entries inner) inner"
  unfolding remove_requests_def
  by (rule map_le_trans [OF fewer_fold fewer_fold]) (auto intro: pending_effects)

lemma fewer_expire [pending_effects]: "fewer_pending (fst (expire_recovering_jobs_locked env f now cap inner)) inner"
proof -
  have "fewer_pending (fold (lose_if_recovering now) xs inner) inner" for xs
    by (rule fewer_fold) (simp add: lose_if_recovering_def split: option.split)
  from map_le_trans [OF fewer_cleanup map_le_trans [OF fewer_remove_requests this]] show ?thesis
    by (simp add: expire_recovering_jobs_locked_def Let_def)
qed

lemma fewer_before_snapshots: "fewer_pending (before_snapshots env c i inventory now inner) inner"
proof -
  have "fewer_pending (fst (expire_recovering_jobs_locked env (Some c) now RECOVERY_SWEEP_PASS_CAP
      (prune_projected_structured_terminal_suppressions_locked now inner))) inner"
    using fewer_expire [of env "Some c" now RECOVERY_SWEEP_PASS_CAP "prune_projected_structured_terminal_suppressions_locked now inner"]
    by (simp add: prune_projected_structured_terminal_suppressions_locked_def)
  then show ?thesis unfolding before_snapshots_def Let_def by (rule map_le_trans [OF fewer_end_jobs])
qed

lemma fewer_reconcile_snapshot:
  assumes "reconcile_snapshot c i g now s (inner, summary) = Some (inner', summary')"
  shows "fewer_pending inner' inner"
proof -
  have "fewer_pending (finish_snapshot c s (put_job inner jid jc)) inner" for jid jc
    using fewer_request_mapping [of c "Some (snap_request_id s)" "put_job inner jid jc"] by (simp add: finish_snapshot_def)
  then show ?thesis
    using assms by (auto simp: reconcile_snapshot_def reconcile_existing_def Let_def split: option.splits if_splits)
qed

lemma fewer_reconcile_each:
  "reconcile_each c i g now snaps (inner, summary) = Some (inner', summary') \<Longrightarrow> fewer_pending inner' inner"
proof (induction snaps arbitrary: inner summary)
  case (Cons s snaps)
  from Cons.prems obtain inner1 summary1 where "reconcile_snapshot c i g now s (inner, summary) = Some (inner1, summary1)"
    "reconcile_each c i g now snaps (inner1, summary1) = Some (inner', summary')" by (rule reconcile_each_Cons)
  with Cons.IH fewer_reconcile_snapshot map_le_trans show ?case by blast
qed simp

lemma fewer_reconcile:
  assumes "reconcile_inventory_locked env c i g inventory now inner = Some (inner', summary)"
  shows "fewer_pending inner' inner"
  using assms
proof (rule reconcile_inventory_phases)
  fix summary0 inner4
  assume "reconcile_each c i g now (jinv_jobs inventory) (before_snapshots env c i inventory now inner, summary0) = Some (inner4, summary)"
    "inner' = remove_cleanup_terminal_jobs_locked env inner4"
  then show ?thesis
    using map_le_trans [OF fewer_cleanup map_le_trans [OF fewer_reconcile_each fewer_before_snapshots]] by simp
qed

lemma fewer_commit:
  assumes "commit_registration env now r d inventory streaming reg = Some reg'"
  shows "fewer_pending (rg_inner reg') (installed env now r d inventory streaming reg)"
  using assms by (auto simp: commit_registration_eq dest: fewer_reconcile split: option.splits)

lemma jobs_handed_over:
  assumes "replaced r reg = Some old"
  shows "reg_jobs_by_id (installed env now r d inventory streaming reg) =
    reg_jobs_by_id (terminate_instance_jobs_locked (renv_env env) (runner_client_id r) old inventory now (rg_inner reg))"
  by (simp add: assms installed_def handed_over_def install_runner_def replace_instance_def retire_instance_def jobs_resolve)

lemma pending_handed_over:
  assumes "replaced r reg = Some old" "iterates_pending (renv_env env)" "finite (dom (reg_pending_by_id (rg_inner reg)))"
    "reg_pending_by_id (installed env now r d inventory streaming reg) rid = Some p" "pend_client_id p = runner_client_id r"
  shows "pend_job_id p \<noteq> None"
proof -
  let ?t = "terminate_instance_jobs_locked (renv_env env) (runner_client_id r) old inventory now (rg_inner reg)"
  have "fewer_pending ?t (rg_inner reg)"
    unfolding terminate_instance_jobs_locked_def by (rule map_le_trans [OF fewer_cleanup fewer_end_jobs])
  then have "finite (dom (reg_pending_by_id ?t))" by (rule finite_subset [OF map_le_implies_dom_le assms(3)])
  note res = pending_resolve [OF assms(2) this, of "runner_client_id r" rid]
  have "reg_pending_by_id (installed env now r d inventory streaming reg) rid =
      reg_pending_by_id (resolve_disconnected_sync_requests_locked (renv_env env) (runner_client_id r) ?t) rid"
    using assms(1) by (simp add: installed_def handed_over_def install_runner_def replace_instance_def retire_instance_def)
  with res assms(4,5) show ?thesis by (auto split: if_splits)
qed

lemma lost_lifecycle: "\<not> is_terminal (job_lifecycle j) \<Longrightarrow> job_lifecycle (lost_record now r m j) = Lost"
  by (simp add: lost_record_def mark_job_lost_def notify_job_update_def observe_job_terminal_def Let_def)

lemma terminated_live: "terminated_job k old inventory jid j \<Longrightarrow> \<not> is_terminal (job_lifecycle j)"
  using runner_active_not_terminal by (auto simp: terminated_job_def)

lemma job_terminated:
  assumes "iterates env" "finite (dom (reg_jobs_by_id inner))" "reg_jobs_by_id inner jid = Some j"
    "terminated_job k old inventory jid j" "job_visibility j \<noteq> CleanupPending"
  shows "\<exists>j'. reg_jobs_by_id (terminate_instance_jobs_locked env k old inventory now inner) jid = Some j' \<and> job_lifecycle j' = Lost
    \<and> job_visibility j' \<noteq> CleanupPending"
proof -
  let ?e = "end_jobs env k now RunnerInstanceReplaced (lit ''runner instance was replaced before the job completed or reconciled'')
      (keys_where env inner (terminated_job k old inventory)) inner"
  have fin: "finite (dom (reg_jobs_by_id ?e))" by (rule jobs_settle_finite [OF jobs_settle_end_where [OF assms(1,2)] assms(2)])
  show ?thesis
    using assms(3-5) lost_lifecycle [OF terminated_live [OF assms(4)]]
    by (simp add: terminate_instance_jobs_locked_def jobs_cleanup [OF assms(1) fin] jobs_end_where [OF assms(1,2)] cleanup_removable_def)
qed

text \<open>A Job that has ended and is not pending cleanup passes through the reconciliation unchanged.\<close>

lemma ended_job_kept:
  assumes "commit_registration env now r d inventory streaming reg = Some reg'" "iterates (renv_env env)"
    "finite (dom (reg_jobs_by_id (installed env now r d inventory streaming reg)))"
    "\<And>i. inventory = Some i \<Longrightarrow> list_all snapshot_ok (jinv_jobs i) \<and> distinct (map snap_job_id (jinv_jobs i))"
    "reg_jobs_by_id (installed env now r d inventory streaming reg) jid = Some j" "is_terminal (job_lifecycle j)"
    "job_visibility j \<noteq> CleanupPending"
  shows "reg_jobs_by_id (rg_inner reg') jid = Some j"
proof (cases inventory)
  case None
  with assms(1,5) show ?thesis by (auto simp: commit_registration_eq)
next
  case (Some i)
  with assms(1) obtain inner summary where rec: "reconcile_inventory_locked (renv_env env) (runner_client_id r) (runner_instance_id r)
      (runner_auth_group r) i now (installed env now r d inventory streaming reg) = Some (inner, summary)" "rg_inner reg' = inner"
    by (auto simp: commit_registration_eq)
  note ok = assms(4) [OF Some, THEN conjunct1] assms(4) [OF Some, THEN conjunct2]
  from reconciled_job [OF assms(2,3) ok rec(1) assms(5,7)] assms(6) rec(2) show ?thesis
    by (auto simp: settled_def applies_def)
qed

lemma retired_self [simp]: "x \<in> set (retire x l)"
  by (simp add: retire_def MAX_RETIRED_INSTANCES_PER_RUNNER_def drop_append)

lemma retired_refused:
  assumes "reg_retired_instances (rg_inner reg) (runner_client_id r) = Some l" "runner_instance_id r \<in> set l"
  shows "check_admission env r d inventory reg \<noteq> Inr ()"
  using assms by (simp add: check_admission_def Let_def)

text \<open>C7: When another process registers for a client, the lease passes over completely. The replaced instance is
  retired, and an attempt of it to register in the resulting state is refused; no synchronous request of the client is
  inherited by the new process; and every queued or active Job of the replaced instance that the new process does not
  offer as a detached process, and whose cleanup is not pending, is in the registry as lost, even after the
  inventory of the new process has been reconciled.\<close>

theorem takeover_leaves_nothing_behind:
  assumes "iterates (renv_env env)" "iterates_pending (renv_env env)" "reg = prune_registry env now reg0"
    "finite (dom (reg_jobs_by_id (rg_inner reg)))" "finite (dom (reg_pending_by_id (rg_inner reg)))"
    "register_session env now view_now body auth streaming reg0 = (Registered stopped view, reg')"
    "existing_runner reg (trim (rr_client_id body)) = Some (old, od)" "runner_instance_id old \<noteq> trim (rr_runner_instance_id body)"
  shows "(\<exists>l. reg_retired_instances (rg_inner reg') (trim (rr_client_id body)) = Some l \<and> runner_instance_id old \<in> set l)
    \<and> (\<forall>r d inventory. runner_client_id r = trim (rr_client_id body) \<and> runner_instance_id r = runner_instance_id old \<longrightarrow>
          check_admission env r d inventory reg' \<noteq> Inr ())
    \<and> (\<forall>rid p. reg_pending_by_id (rg_inner reg') rid = Some p \<and> pend_client_id p = trim (rr_client_id body) \<longrightarrow> pend_job_id p \<noteq> None)
    \<and> (\<forall>jid j. reg_jobs_by_id (rg_inner reg) jid = Some j \<and> job_visibility j \<noteq> CleanupPending
          \<and> terminated_job (trim (rr_client_id body)) (runner_instance_id old) (rr_job_inventory body) jid j \<longrightarrow>
          (\<exists>j'. reg_jobs_by_id (rg_inner reg') jid = Some j' \<and> job_lifecycle j' = Lost))"
proof (rule register_session_cases [of env now view_now body auth streaming reg0])
  fix r :: RunnerRecord and d :: RunnerDetails and reg1 view1
  let ?inv = "rr_job_inventory body"
  let ?mid = "installed env now r d ?inv streaming reg"
  assume "register_session env now view_now body auth streaming reg0
      = (Registered (reg_notifiers (rg_inner (prune_registry env now reg0)) (runner_client_id r)) view1, reg1)"
    and v: "validate_register_request (renv_env env) now body auth streaming = Inr (r, d)"
    and "commit_registration env now r d ?inv streaming (prune_registry env now reg0) = Some reg1"
  with assms(3,6) have c: "commit_registration env now r d ?inv streaming reg = Some reg'" by simp
  have ids: "trim (rr_client_id body) = runner_client_id r" "trim (rr_runner_instance_id body) = runner_instance_id r"
    using validated(1) [OF v] by (simp_all add: session_of_def)
  have rep: "replaced r reg = Some (runner_instance_id old)" using assms(7,8) by (simp add: replaced_def ids)
  obtain l where l: "reg_retired_instances (rg_inner reg') (runner_client_id r) = Some l" "runner_instance_id old \<in> set l"
    using commit_lease(3) [OF c] by (simp add: lease_handed_over(3) rep)
  have jobs: "jobs_settle now (rg_inner reg) ?mid"
    using jobs_settle_terminate [OF assms(1,4)] by (simp add: jobs_settle_def jobs_handed_over [OF rep])
  have ok: "list_all snapshot_ok (jinv_jobs i) \<and> distinct (map snap_job_id (jinv_jobs i))" if "?inv = Some i" for i
    using validate_inventory_ok validated(3) [OF v that] unfolding validate_job_inventory_without_project_membership_def by blast
  have lost: "\<exists>j'. reg_jobs_by_id (rg_inner reg') jid = Some j' \<and> job_lifecycle j' = Lost"
    if j: "reg_jobs_by_id (rg_inner reg) jid = Some j" "job_visibility j \<noteq> CleanupPending"
      "terminated_job (runner_client_id r) (runner_instance_id old) ?inv jid j" for jid j
  proof -
    from job_terminated [OF assms(1,4) j(1,3,2), of now] obtain j' where j': "reg_jobs_by_id ?mid jid = Some j'"
      "job_lifecycle j' = Lost" "job_visibility j' \<noteq> CleanupPending" by (auto simp: jobs_handed_over [OF rep])
    then show ?thesis using ended_job_kept [OF c assms(1) jobs_settle_finite [OF jobs assms(4)] ok j'(1)] by simp
  qed
  have pend: "pend_job_id p \<noteq> None" if "reg_pending_by_id (rg_inner reg') rid = Some p" "pend_client_id p = runner_client_id r" for rid p
  proof -
    have "reg_pending_by_id ?mid rid = Some p" using fewer_commit [OF c] that(1) by (auto simp: map_le_def dom_def)
    from pending_handed_over [OF rep assms(2,5) this that(2)] show ?thesis .
  qed
  show ?thesis unfolding ids using l retired_refused lost pend by (metis (no_types, lifting))
qed (use assms(6) in simp)

section \<open>The limits on shared keys\<close>

text \<open>The operations on the leases, in any order; the registry may be observed in between.\<close>

inductive lease_step :: "RegistrationEnv \<Rightarrow> Registry \<Rightarrow> Registry \<Rightarrow> bool" for env where
  register: "lease_step env reg (snd (register_session env now view_now body auth streaming reg))"
| touch: "lease_step env reg (snd (touch_runner_for_connection now k i c reg))"
| metadata: "lease_step env reg (snd (update_runtime_metadata_checked now k i c providers mcp reg))"
| disconnect: "lease_step env reg (reg\<lparr>rg_inner :=
    fst (reconcile_disconnect_checked (renv_env env) now k i c transport (rg_inner reg))\<rparr>)"
| observe: "lease_step env reg (expire_all_staging now (prune_registry env now reg))"
| observe_one: "lease_step env reg (expire_one_staging now k (prune_registry env now reg))"

definition group_members :: "(RunnerAccessGroup option \<Rightarrow> bool) \<Rightarrow> RunnerRegistryInner \<Rightarrow> rstr set" where
  "group_members P inner = {k. opt_ex (\<lambda>(_, _, g, _). P g) (sessions inner k)}"

definition shared_key_group :: "RunnerAccessGroup option \<Rightarrow> bool" where
  "shared_key_group g \<longleftrightarrow> (\<exists>key. g = Some (SharedKey key))"

definition leases_ok :: "RegistrationEnv \<Rightarrow> Registry \<Rightarrow> bool" where
  "leases_ok env reg \<longleftrightarrow> (let inner = rg_inner reg in
     finite (dom (sessions inner)) \<and> dom (rg_details reg) = dom (sessions inner)
     \<and> (\<forall>k s. sessions inner k = Some s \<longrightarrow> fst s = k)
     \<and> (\<forall>key. card (group_members (\<lambda>g. g = Some (SharedKey key)) inner) \<le> lim_per_group (renv_limits env))
     \<and> card (group_members shared_key_group inner) \<le> lim_global (renv_limits env))"

definition iterates_runners :: "RegistrationEnv \<Rightarrow> bool" where
  "iterates_runners env \<longleftrightarrow>
     (\<forall>m. finite (dom m) \<longrightarrow> distinct (renv_runners_order env m) \<and> set (renv_runners_order env m) = dom m)"

lemma leases_ok_same:
  "sessions (rg_inner reg') = sessions (rg_inner reg) \<Longrightarrow> dom (rg_details reg') = dom (rg_details reg) \<Longrightarrow> leases_ok env reg \<Longrightarrow> leases_ok env reg'"
  unfolding leases_ok_def Let_def group_members_def by simp

lemma group_members_finite: "finite (dom (sessions inner)) \<Longrightarrow> finite (group_members P inner)"
  by (rule finite_subset [of _ "dom (sessions inner)"]) (auto simp: group_members_def opt_ex_def split: option.splits)

lemma leases_ok_fewer:
  assumes "sessions (rg_inner reg') \<subseteq>\<^sub>m sessions (rg_inner reg)" "dom (rg_details reg') = dom (sessions (rg_inner reg'))" "leases_ok env reg"
  shows "leases_ok env reg'"
proof -
  have fin: "finite (dom (sessions (rg_inner reg)))" using assms(3) by (simp add: leases_ok_def Let_def)
  have same: "sessions (rg_inner reg) k = Some s" if "sessions (rg_inner reg') k = Some s" for k s
    using assms(1) that unfolding map_le_def by (metis domI)
  have "group_members P (rg_inner reg') \<subseteq> group_members P (rg_inner reg)" for P
    using same by (auto simp: group_members_def opt_ex_def split: option.splits)
  then have "card (group_members P (rg_inner reg')) \<le> card (group_members P (rg_inner reg))" for P
    by (rule card_mono [OF group_members_finite [OF fin]])
  then show ?thesis
    using assms(2,3) same finite_subset [OF map_le_implies_dom_le [OF assms(1)] fin]
    unfolding leases_ok_def Let_def by (meson le_trans)
qed

lemma existing_session:
  assumes "leases_ok env reg" "sessions (rg_inner reg) k = Some s"
  obtains r d where "existing_runner reg k = Some (r, d)" "session_of r = s"
proof -
  have "dom (rg_details reg) = dom (sessions (rg_inner reg))" using assms(1) by (simp add: leases_ok_def Let_def)
  then have "rg_details reg k \<noteq> None" using assms(2) by (metis domI domIff)
  with assms(2) that show thesis by (auto simp: sessions_def existing_runner_def)
qed

lemma count_members:
  assumes "iterates_runners env" "finite (dom (sessions inner))" "\<And>r. P r \<longleftrightarrow> Q (runner_auth_group r)"
  shows "count_runners env P inner = card (group_members Q inner)"
proof -
  have "dom (sessions inner) = dom (reg_runners inner)" by (auto simp: sessions_def dom_def)
  then have it: "distinct (renv_runners_order env (reg_runners inner))" "set (renv_runners_order env (reg_runners inner)) = dom (reg_runners inner)"
    using assms(1,2) by (simp_all add: iterates_runners_def)
  have "{k \<in> dom (reg_runners inner). opt_ex P (reg_runners inner k)} = group_members Q inner"
    by (auto simp: group_members_def sessions_def session_of_def opt_ex_def assms(3) split: option.splits)
  then show ?thesis
    unfolding count_runners_def using distinct_card [OF distinct_filter [OF it(1)], of "\<lambda>k. opt_ex P (reg_runners inner k)"] it(2)
    by simp
qed

lemma lease_expire_job [lease_effects]: "lease_of (expire_job now jid inner) = lease_of inner"
  by (auto simp: expire_job_def lease_effects split: option.splits)

lemma lease_disconnect_job [lease_effects]: "lease_of (disconnect_job recoverable now c jid inner) = lease_of inner"
  by (auto simp: disconnect_job_def Let_def drop_job_request_def remove_from_queue_def forget_request_def
    take_pending_request_locked_def lease_of_def put_job_def split: option.splits)

lemma lease_drop_request [lease_effects]: "lease_of (drop_job_request c rid inner) = lease_of inner"
  by (simp add: drop_job_request_def remove_from_queue_def forget_request_def take_pending_request_locked_def lease_of_def
    split: option.splits)

lemma runners_fold_drop:
  "reg_runners (fold drop_runner ks inner) = (\<lambda>k. if k \<in> set ks then None else reg_runners inner k)"
proof (induction ks arbitrary: inner)
  case (Cons k ks)
  then show ?case by (auto simp: drop_runner_def)
qed simp

lemma sessions_registry_prune:
  "sessions (rg_inner (prune_registry env now reg)) \<subseteq>\<^sub>m sessions (rg_inner reg)"
proof -
  let ?s = "prune_expired_shared_key_runners_locked (renv_env env) (renv_runners_order env)
      (lim_offline_ttl_secs (renv_limits env)) now (rg_inner reg, rg_intents reg)"
  have "reg_runners (fst ?s) k \<in> {None, reg_runners (rg_inner reg) k}" for k
  proof -
    let ?f = "\<lambda>xs ys. fold (expire_job now) ys (fold (resolve_disconnected_sync_requests_locked (renv_env env)) xs (rg_inner reg))"
    have "lease_of (?f xs ys) = lease_of (rg_inner reg)" for xs ys by (simp add: lease_fold lease_effects)
    from lease_parts(1) [OF this] show ?thesis
      by (simp add: prune_expired_shared_key_runners_locked_def Let_def runners_fold_drop)
  qed
  then have "sessions (fst ?s) k \<in> {None, sessions (rg_inner reg) k}" for k
    unfolding sessions_def by (metis insertE insertI1 insertI2 option.map(1) singletonD)
  moreover have "rg_inner (prune_registry env now reg) = fst ?s" by (simp add: prune_registry_def split_def)
  ultimately show ?thesis unfolding map_le_def by (metis domIff insertE singletonD)
qed

lemma details_registry_prune:
  assumes "dom (rg_details reg) = dom (sessions (rg_inner reg))"
  shows "dom (rg_details (prune_registry env now reg)) = dom (sessions (rg_inner (prune_registry env now reg)))"
proof -
  let ?p = "prune_registry env now reg"
  have "rg_details ?p k \<noteq> None \<longleftrightarrow> sessions (rg_inner ?p) k \<noteq> None" for k
  proof -
    have d: "rg_details ?p k = (if sessions (rg_inner ?p) k = None then None else rg_details reg k)"
      by (simp add: prune_registry_def sessions_def split_def)
    show ?thesis
    proof (cases "sessions (rg_inner ?p) k")
      case (Some s)
      then have "sessions (rg_inner reg) k = Some s" using sessions_registry_prune unfolding map_le_def by (metis domI)
      then have "rg_details reg k \<noteq> None" using assms by (metis domI domIff)
      then show ?thesis using d Some by simp
    qed (use d in simp)
  qed
  then show ?thesis by (auto simp: dom_def)
qed

lemma leases_ok_prune: "leases_ok env reg \<Longrightarrow> leases_ok env (prune_registry env now reg)"
  by (rule leases_ok_fewer [OF sessions_registry_prune details_registry_prune]) (simp_all add: leases_ok_def Let_def)

lemma sessions_disconnect:
  "sessions (fst (reconcile_disconnect_checked env now k i c transport inner)) = sessions inner"
proof (cases "\<exists>r. reg_runners inner k = Some r \<and> holds_lease i c transport r")
  case True
  then obtain r where r: "reg_runners inner k = Some r" "holds_lease i c transport r" by blast
  have go: "sessions (go_offline now k i c r inner) = sessions inner"
    using r(1) by (auto simp: fun_eq_iff go_offline_def Let_def sessions_def session_of_def)
  have *: "sessions (resolve_disconnected_sync_requests_locked env k (fold (drop_job_request k) ys (fold (disconnect_job b now k) xs x)))
      = sessions x" for x xs ys b
    by (rule sessions_lease) (simp add: lease_fold lease_effects)
  show ?thesis using r by (simp add: reconcile_disconnect_checked_def Let_def * go)
next
  case False
  then show ?thesis by (auto simp: reconcile_disconnect_checked_def split: option.splits)
qed

lemma sessions_seen: "sessions (rg_inner (note_seen now k reg)) = sessions (rg_inner reg)" "rg_details (note_seen now k reg) = rg_details reg"
proof -
  show "sessions (rg_inner (note_seen now k reg)) = sessions (rg_inner reg)"
    by (auto simp: fun_eq_iff note_seen_def sessions_def session_of_def [abs_def] option.map_comp o_def)
  show "rg_details (note_seen now k reg) = rg_details reg" by (simp add: note_seen_def)
qed

lemma admitted_group:
  assumes "check_admission env r d inventory reg = Inr ()" "leases_ok env reg" "iterates_runners env"
    "sessions inner' = (sessions (rg_inner reg))(runner_client_id r \<mapsto> session_of r)"
  shows "card (group_members (\<lambda>g. g = Some (SharedKey key)) inner') \<le> lim_per_group (renv_limits env)"
    "card (group_members shared_key_group inner') \<le> lim_global (renv_limits env)"
proof -
  let ?k = "runner_client_id r" and ?inner = "rg_inner reg"
  have adm: "check_shared_key_limits env r ?inner = Inr ()"
    "\<not> opt_ex (\<lambda>(old, _). runner_auth_group old \<noteq> runner_auth_group r) (existing_runner reg ?k)"
    using assms(1) by (simp_all add: check_admission_def Let_def)
  have fin: "finite (dom (sessions ?inner))" using assms(2) by (simp add: leases_ok_def Let_def)
  have lim: "card (group_members (\<lambda>g. g = Some (SharedKey key)) ?inner) \<le> lim_per_group (renv_limits env)"
    "card (group_members shared_key_group ?inner) \<le> lim_global (renv_limits env)" for key
    using assms(2) by (simp_all add: leases_ok_def Let_def)
  have members: "group_members P inner' =
      (if P (runner_auth_group r) then insert ?k (group_members P ?inner) else group_members P ?inner - {?k})" for P
    by (auto simp: group_members_def assms(4) session_of_def)
  have room: "card (group_members P inner') \<le> n"
    if old: "card (group_members P ?inner) \<le> n" and new: "sessions ?inner ?k = None \<Longrightarrow> P (runner_auth_group r) \<Longrightarrow>
      card (group_members P ?inner) < n" for P n
  proof (cases "P (runner_auth_group r)")
    case False
    then show ?thesis unfolding members using old card_Diff1_le [of "group_members P ?inner" ?k] by simp
  next
    case True
    note P = True
    show ?thesis
    proof (cases "sessions ?inner ?k")
      case None
      with new P group_members_finite [OF fin, of P] show ?thesis unfolding members by (simp add: card_insert_if)
    next
      case (Some s)
      from existing_session [OF assms(2) Some] obtain o1 d1 where "existing_runner reg ?k = Some (o1, d1)" "session_of o1 = s" .
      with adm(2) Some P have "?k \<in> group_members P ?inner" by (auto simp: group_members_def session_of_def)
      then show ?thesis using old P unfolding members by (simp add: insert_absorb)
    qed
  qed
  have counts: "count_runners env (in_group key) ?inner = card (group_members (\<lambda>g. g = Some (SharedKey key)) ?inner)"
    "count_runners env in_any_group ?inner = card (group_members shared_key_group ?inner)" for key
    using count_members [OF assms(3) fin, of "in_group key"] count_members [OF assms(3) fin, of in_any_group shared_key_group]
    by (auto simp: in_group_def in_any_group_def shared_key_group_def split: option.splits RunnerAccessGroup.splits)
  have none: "reg_runners ?inner ?k = None" if "sessions ?inner ?k = None" using that by (simp add: sessions_def)
  show "card (group_members (\<lambda>g. g = Some (SharedKey key)) inner') \<le> lim_per_group (renv_limits env)"
    by (rule room [OF lim(1)]) (use adm(1) none counts in \<open>simp add: check_shared_key_limits_def\<close>)
  show "card (group_members shared_key_group inner') \<le> lim_global (renv_limits env)"
    by (rule room [OF lim(2)]) (use adm(1) none counts in \<open>auto simp: check_shared_key_limits_def shared_key_group_def\<close>)
qed

lemma leases_ok_register:
  assumes "leases_ok env reg" "iterates_runners env"
  shows "leases_ok env (snd (register_session env now view_now body auth streaming reg))"
proof (rule register_session_cases [of env now view_now body auth streaming reg])
  fix e reg'
  assume "register_session env now view_now body auth streaming reg = (Rejected e, reg')" "reg' = reg \<or> reg' = prune_registry env now reg"
  then show ?thesis using assms(1) leases_ok_prune [OF assms(1)] by auto
next
  fix r :: RunnerRecord and d reg' view
  let ?reg = "prune_registry env now reg"
  assume h: "register_session env now view_now body auth streaming reg = (Registered (reg_notifiers (rg_inner ?reg) (runner_client_id r)) view, reg')"
    "check_admission env r d (rr_job_inventory body) ?reg = Inr ()"
    "commit_registration env now r d (rr_job_inventory body) streaming ?reg = Some reg'"
  note ok = leases_ok_prune [OF assms(1), of now]
  note c = commit_lease(1,4) [OF h(3)]
  from admitted_group [OF h(2) ok assms(2) c(1)] ok show ?thesis
    unfolding leases_ok_def Let_def by (simp add: h(1) c session_of_def)
qed

lemma details_expired: "leases_ok env reg \<Longrightarrow> rg_details reg k = None \<longleftrightarrow> expire_details now reg k = None"
proof -
  assume ok: "leases_ok env reg"
  have d: "dom (rg_details reg) = dom (sessions (rg_inner reg))" using ok by (simp add: leases_ok_def Let_def)
  show ?thesis
  proof (cases "sessions (rg_inner reg) k")
    case None
    with d have "rg_details reg k = None" by (metis domIff)
    then show ?thesis by (simp add: expire_details_def existing_runner_def split: option.splits)
  next
    case (Some s)
    from existing_session [OF ok this] obtain r1 d1 where "existing_runner reg k = Some (r1, d1)" .
    moreover have "rg_details reg k \<noteq> None" using Some d by (metis domI domIff)
    ultimately show ?thesis by (simp add: expire_details_def)
  qed
qed

text \<open>C10: In any sequence of registrations, keepalives, metadata updates, disconnects and observations the shared-key
  limits hold: no key ever has more Runners than the limit per group and all keys together no more than the global
  limit; the two parts of a Runner's record exist together and every Runner is registered under its own id.\<close>

theorem shared_key_limits_hold:
  assumes "iterates_runners env" "leases_ok env reg" "(lease_step env)\<^sup>*\<^sup>* reg reg'"
  shows "leases_ok env reg'"
  using assms(3,2)
proof (induction rule: rtranclp_induct)
  case (step reg1 reg2)
  then have ok: "leases_ok env reg1" by simp
  from step.hyps(2) show ?case
  proof cases
    case (register now view_now body auth streaming)
    then show ?thesis using leases_ok_register [OF ok assms(1)] by simp
  next
    case (touch now k i c)
    show ?thesis unfolding touch
      by (rule leases_ok_same [OF _ _ ok]) (auto simp: touch_runner_for_connection_def sessions_seen split: sum.splits option.splits)
  next
    case (metadata now k i c providers mcp)
    show ?thesis unfolding metadata
      by (rule leases_ok_same [OF _ _ ok])
        (auto simp: update_runtime_metadata_checked_def Let_def sessions_seen split: sum.splits option.splits)
  next
    case (disconnect now k i c transport)
    show ?thesis unfolding disconnect by (rule leases_ok_same [OF _ _ ok]) (simp_all add: sessions_disconnect)
  next
    case (observe now)
    note p = leases_ok_prune [OF ok, of now]
    show ?thesis unfolding observe
      by (rule leases_ok_same [OF _ _ p]) (auto simp: expire_all_staging_def dom_def details_expired [OF p, of _ now])
  next
    case (observe_one now k)
    note p = leases_ok_prune [OF ok, of now]
    show ?thesis unfolding observe_one
      by (rule leases_ok_same [OF _ _ p])
        (use details_expired [OF p, of k now] in \<open>auto simp: expire_one_staging_def domIff split: if_splits\<close>)
  qed
qed

section \<open>How long a replaced process stays out\<close>

lemma fold_retire_keeps:
  assumes "l = earlier @ x # later" "length later + length xs < MAX_RETIRED_INSTANCES_PER_RUNNER"
  shows "x \<in> set (fold retire xs l)"
  using assms
proof (induction xs arbitrary: l earlier later)
  case (Cons y xs)
  show ?case
  proof (cases "y \<in> set l")
    case True
    with Cons.IH [OF Cons.prems(1)] Cons.prems(2) show ?thesis by (simp add: retire_def)
  next
    case False
    let ?n = "length l + 1 - MAX_RETIRED_INSTANCES_PER_RUNNER"
    have "?n \<le> length earlier" using Cons.prems by simp
    with False Cons.prems(1) have r: "retire y l = drop ?n earlier @ x # (later @ [y])" by (simp add: retire_def)
    show ?thesis using Cons.IH [OF r] Cons.prems(2) by simp
  qed
qed simp

lemma fold_retire_fresh:
  assumes "distinct xs" "set xs \<inter> set l = {}" "length l \<le> MAX_RETIRED_INSTANCES_PER_RUNNER"
  shows "fold retire xs l = drop (length l + length xs - MAX_RETIRED_INSTANCES_PER_RUNNER) (l @ xs)"
  using assms
proof (induction xs arbitrary: l)
  case (Cons y xs)
  let ?l = "drop (length l + 1 - MAX_RETIRED_INSTANCES_PER_RUNNER) (l @ [y])"
  have r: "retire y l = ?l" using Cons.prems(2) by (auto simp: retire_def)
  have "set ?l \<subseteq> insert y (set l)" using set_drop_subset [of "length l + 1 - MAX_RETIRED_INSTANCES_PER_RUNNER" "l @ [y]"] by auto
  then have "set xs \<inter> set ?l = {}" using Cons.prems(1,2) by auto
  moreover have "length ?l \<le> MAX_RETIRED_INSTANCES_PER_RUNNER" by (simp add: MAX_RETIRED_INSTANCES_PER_RUNNER_def)
  ultimately have "fold retire xs ?l =
      drop (length ?l + length xs - MAX_RETIRED_INSTANCES_PER_RUNNER) (?l @ xs)"
    using Cons.IH [of ?l] Cons.prems(1) by simp
  also have "\<dots> = drop (length l + length (y # xs) - MAX_RETIRED_INSTANCES_PER_RUNNER) (l @ y # xs)"
  proof -
    have "?l @ xs = drop (length l + 1 - MAX_RETIRED_INSTANCES_PER_RUNNER) (l @ y # xs)"
      using Cons.prems(3) by (simp add: drop_append MAX_RETIRED_INSTANCES_PER_RUNNER_def)
    moreover have "length l + length xs - (length l - 15 + 15) + (length l - 15) = length l + length xs - 15"
      using Cons.prems(3) unfolding MAX_RETIRED_INSTANCES_PER_RUNNER_def by arith
    ultimately show ?thesis using Cons.prems(3) by (simp add: MAX_RETIRED_INSTANCES_PER_RUNNER_def)
  qed
  finally show ?case by (simp add: r)
qed simp

lemma retire_bounded: "length l \<le> MAX_RETIRED_INSTANCES_PER_RUNNER \<Longrightarrow> length (retire x l) \<le> MAX_RETIRED_INSTANCES_PER_RUNNER"
  by (simp add: retire_def MAX_RETIRED_INSTANCES_PER_RUNNER_def) arith

lemma retire_subset: "set (retire x l) \<subseteq> insert x (set l)"
  using set_drop_subset [of "length l + 1 - MAX_RETIRED_INSTANCES_PER_RUNNER" "l @ [x]"] by (auto simp: retire_def)

lemma preflight_retired: "preflight_each (inner\<lparr>reg_retired_instances := f\<rparr>) k i snaps = preflight_each inner k i snaps"
  by (induction snaps) (simp_all add: preflight_snapshot_def)

text \<open>C39: A replaced process stays out only for a while. With \<open>xs\<close> the instances that were retired after it, it is refused as
  long as they are fewer than sixteen; once sixteen further instances of the client have been retired its own entry
  has been dropped, and its registration is decided as if it had never been replaced.\<close>

theorem replaced_process_is_forgotten:
  assumes "runner_instance_id r \<notin> set l" "length l \<le> MAX_RETIRED_INSTANCES_PER_RUNNER"
    "reg_retired_instances (rg_inner reg) (runner_client_id r) = Some (fold retire xs (retire (runner_instance_id r) l))"
  shows "(length xs < MAX_RETIRED_INSTANCES_PER_RUNNER \<longrightarrow> check_admission env r d inventory reg \<noteq> Inr ())
    \<and> (length xs = MAX_RETIRED_INSTANCES_PER_RUNNER \<and> distinct xs \<and> set xs \<inter> insert (runner_instance_id r) (set l) = {} \<longrightarrow>
        check_admission env r d inventory reg = check_admission env r d inventory
          (reg\<lparr>rg_inner := (rg_inner reg)\<lparr>reg_retired_instances := (reg_retired_instances (rg_inner reg))(runner_client_id r := None)\<rparr>\<rparr>))"
proof (intro conjI impI)
  let ?x = "runner_instance_id r"
  assume "length xs < MAX_RETIRED_INSTANCES_PER_RUNNER"
  have "retire ?x l = drop (length l + 1 - MAX_RETIRED_INSTANCES_PER_RUNNER) l @ ?x # []"
    using assms(1) by (simp add: retire_def MAX_RETIRED_INSTANCES_PER_RUNNER_def drop_append)
  from fold_retire_keeps [OF this] \<open>length xs < _\<close> show "check_admission env r d inventory reg \<noteq> Inr ()"
    using retired_refused [OF assms(3)] by simp
next
  let ?x = "runner_instance_id r"
  assume xs: "length xs = MAX_RETIRED_INSTANCES_PER_RUNNER \<and> distinct xs \<and> set xs \<inter> insert ?x (set l) = {}"
  then have "set xs \<inter> set (retire ?x l) = {}" using retire_subset [of ?x l] by blast
  from fold_retire_fresh [OF _ this retire_bounded [OF assms(2)]] xs have "fold retire xs (retire ?x l) = xs" by simp
  then have "\<not> opt_ex (\<lambda>l. ?x \<in> set l) (reg_retired_instances (rg_inner reg) (runner_client_id r))" using assms(3) xs by auto
  moreover have "existing_runner (reg\<lparr>rg_inner := (rg_inner reg)\<lparr>reg_retired_instances := f\<rparr>\<rparr>) k = existing_runner reg k" for f k
    by (simp add: existing_runner_def)
  moreover have "check_shared_key_limits env r ((rg_inner reg)\<lparr>reg_retired_instances := f\<rparr>) = check_shared_key_limits env r (rg_inner reg)" for f
    by (simp add: check_shared_key_limits_def count_runners_def split: option.split RunnerAccessGroup.split)
  moreover have "preflight_inventory_locked ((rg_inner reg)\<lparr>reg_retired_instances := f\<rparr>) k i inv1
      = preflight_inventory_locked (rg_inner reg) k i inv1" for f k i inv1
    by (simp add: preflight_inventory_locked_def preflight_retired)
  ultimately show "check_admission env r d inventory reg = check_admission env r d inventory
      (reg\<lparr>rg_inner := (rg_inner reg)\<lparr>reg_retired_instances := (reg_retired_instances (rg_inner reg))(runner_client_id r := None)\<rparr>\<rparr>)"
    unfolding check_admission_def Let_def by (cases inventory) (simp_all add: reject_if_def)
qed

section \<open>Instances\<close>

definition sample_capabilities :: RunnerCapabilities where
  "sample_capabilities = default_capabilities
     \<lparr>cap_file_read := True, cap_file_write := True, cap_artifact_export_chunk_read := True,
      cap_artifact_export_streaming_metadata := True, cap_structured_file_delete := True,
      cap_apply_text_edit_occurrence := True, cap_jobs := True, cap_async_jobs := True, cap_async_shell_jobs := True,
      cap_structured_validation_argv := True, cap_structured_cargo_test_count_assertion := True,
      cap_structured_go_test_json := True, cap_structured_go_test_tool := True, cap_structured_go_test_packages := True,
      cap_structured_process_argv := True, cap_structured_script_payload := True, cap_internal_posix_script := True,
      cap_structured_execution_jobs := True, cap_lsp_read_only_navigation := True, cap_lsp_call_hierarchy := True,
      cap_project_lifecycle := True, cap_project_path_registration := True\<rparr>"

lemma sample_features: "features_from_registration sample_capabilities = Inr \<lparr>fs_capabilities = sample_capabilities\<rparr>"
proof -
  have "inference feature = GenerationEligible \<Longrightarrow> advertised_by feature sample_capabilities" for feature
    by (cases feature) (simp_all add: sample_capabilities_def)
  then show ?thesis by (simp add: features_from_registration_Inr_iff)
qed

definition sample_registration :: "rstr \<Rightarrow> RunnerRegisterRequest" where
  "sample_registration i = \<lparr>rr_client_id = lit ''runner-1'', rr_runner_instance_id = i, rr_protocol_generation = 2,
     rr_display_name = None, rr_owner = None, rr_hostname = None, rr_capabilities = sample_capabilities, rr_host_context = None,
     rr_policy = None, rr_process_started_at = None, rr_build = None, rr_job_concurrency_limit = None, rr_job_inventory = None,
     rr_coding_agent_providers = None, rr_coding_agent_inventory = None\<rparr>"

definition sample_leases :: RegistrationEnv where
  "sample_leases = \<lparr>renv_env = sorted_env, renv_runners_order = (\<lambda>m. sorted_list_of_set (dom m)),
     renv_limits = \<lparr>lim_per_group = 4, lim_global = 16, lim_offline_ttl_secs = 600\<rparr>\<rparr>"

definition sample_details :: RunnerDetails where
  "sample_details = new_details 20 (sample_registration (lit ''i'')) 2 \<lparr>fs_capabilities = sample_capabilities\<rparr> None"

definition leased_registry :: Registry where
  "leased_registry = \<lparr>rg_inner = sample_registry, rg_intents = Map.empty, rg_details = [lit ''runner-1'' \<mapsto> sample_details]\<rparr>"

lemma sample_fields_ok: "validate_register_fields (sample_registration (lit ''i2'')) = Inr ()"
  by (simp add: validate_register_fields_def sample_registration_def validate_id_def validate_runner_instance_id_def
    validate_optional_field_def id_char_def MAX_CLIENT_ID_LEN_def MAX_AGENT_INSTANCE_ID_LEN_def is_ascii_alphanumeric_def
    is_ascii_digit_def str_simps)

lemma sample_unsupported:
  "\<not> advertised_by Feature_JobStateReconciliation sample_capabilities" "\<not> advertised_by Feature_CodingAgentRuns sample_capabilities"
  "\<not> advertised_by Feature_ApplyPatchMatchMetadata sample_capabilities"
  "\<not> advertised_by Feature_ApplyPatchStrictMatching sample_capabilities" "\<not> advertised_by Feature_ApplyPatchMatchingMode sample_capabilities"
  by (simp_all add: sample_capabilities_def default_capabilities_def)

lemma sample_request_valid:
  "\<exists>r d. validate_register_request (renv_env sample_leases) 30 (sample_registration (lit ''i2'')) None None = Inr (r, d)
     \<and> det_features d = \<lparr>fs_capabilities = sample_capabilities\<rparr> \<and> runner_auth_group r = None"
proof -
  have f: "rr_capabilities (sample_registration i) = sample_capabilities" "rr_protocol_generation (sample_registration i) = 2"
    "rr_coding_agent_providers (sample_registration i) = None" "rr_coding_agent_inventory (sample_registration i) = None"
    "rr_host_context (sample_registration i) = None" "rr_policy (sample_registration i) = None" "rr_job_inventory (sample_registration i) = None" for i
    by (simp_all add: sample_registration_def)
  show ?thesis
    unfolding validate_register_request_def sample_fields_ok
    by (simp add: f sample_features accept_protocol_def RUNNER_PROTOCOL_GENERATION_V2_def validate_patch_features_def supports_def
      sample_unsupported [simplified] validate_coding_agent_registration_def normalized_policy_def validate_policy_def
      validate_registration_inventory_def new_details_def new_runner_def)
qed

lemma sample_pruned: "prune_registry sample_leases 30 leased_registry = leased_registry"
proof -
  have "runner_expired ttl now sample_registry k = False" for ttl now k
    by (simp add: runner_expired_def sample_registry_def opt_ex_def)
  then have "prune_expired_shared_key_runners_locked env order ttl now (sample_registry, m) = (sample_registry, m)" for env order ttl now m
    by (simp add: prune_expired_shared_key_runners_locked_def)
  then show ?thesis
    by (auto simp: prune_registry_def leased_registry_def sample_registry_def fun_eq_iff)
qed

lemma sample_trim: "trim (lit ''runner-1'') = lit ''runner-1''" "trim (lit ''i2'') = lit ''i2''" "lit ''i'' \<noteq> lit ''i2''"
  by (simp_all add: str_simps)

lemma sample_existing: "\<exists>old. existing_runner leased_registry (lit ''runner-1'') = Some (old, sample_details)
    \<and> runner_instance_id old = lit ''i'' \<and> runner_auth_group old = None"
  by (simp add: existing_runner_def leased_registry_def sample_registry_def)

lemma sample_registered:
  "\<exists>view reg'. register_session sample_leases 30 30 (sample_registration (lit ''i2'')) None None leased_registry = (Registered None view, reg')"
proof -
  obtain r d where v: "validate_register_request (renv_env sample_leases) 30 (sample_registration (lit ''i2'')) None None = Inr (r, d)"
    "det_features d = \<lparr>fs_capabilities = sample_capabilities\<rparr>" "runner_auth_group r = None" using sample_request_valid by blast
  have ids: "runner_client_id r = lit ''runner-1''" "runner_instance_id r = lit ''i2''"
    using validated(1) [OF v(1)] by (simp_all add: session_of_def sample_registration_def sample_trim)
  obtain old where old: "existing_runner leased_registry (lit ''runner-1'') = Some (old, sample_details)"
    "runner_instance_id old = lit ''i''" "runner_auth_group old = None" using sample_existing by blast
  have "reject_downgrades (Some (old, sample_details)) (lit ''i2'') fs features = Inr ()" for fs features
    using old(2) sample_trim(3) by (induction features) (simp_all add: reject_same_instance_feature_downgrade_def)
  moreover have "reg_retired_instances (rg_inner leased_registry) (lit ''runner-1'') = None"
    by (simp add: leased_registry_def sample_registry_def)
  moreover have "rr_job_inventory (sample_registration (lit ''i2'')) = None" by (simp add: sample_registration_def)
  ultimately have adm: "check_admission sample_leases r d (rr_job_inventory (sample_registration (lit ''i2'')))
      (prune_registry sample_leases 30 leased_registry) = Inr ()"
    unfolding sample_pruned check_admission_def Let_def
    using old sample_trim(3) by (simp add: ids v check_shared_key_limits_def)
  have n: "reg_notifiers (rg_inner leased_registry) k = None" for k by (simp add: leased_registry_def sample_registry_def)
  show ?thesis
  proof (rule register_session_cases [of sample_leases 30 30 "sample_registration (lit ''i2'')" None None leased_registry])
    fix e reg'
    assume r: "register_session sample_leases 30 30 (sample_registration (lit ''i2'')) None None leased_registry = (Rejected e, reg')"
    show ?thesis using r v adm by (auto simp: register_session_def Let_def split: option.splits)
  qed (use n sample_pruned in auto)
qed

lemma sample_leases_order: "iterates (renv_env sample_leases)" "iterates_pending (renv_env sample_leases)" "iterates_runners sample_leases"
  by (simp_all add: sample_leases_def sorted_env_iterates sorted_env_pending iterates_runners_def)

text \<open>Process \<open>i2\<close> takes over from \<open>i\<close>, whose running Job is lost.\<close>

theorem takeover_leaves_nothing_behind_witness:
  "\<exists>view reg' l j'. register_session sample_leases 30 30 (sample_registration (lit ''i2'')) None None leased_registry = (Registered None view, reg')
     \<and> reg_retired_instances (rg_inner reg') (lit ''runner-1'') = Some l \<and> lit ''i'' \<in> set l
     \<and> reg_jobs_by_id (rg_inner reg') (lit ''job-1'') = Some j' \<and> job_lifecycle j' = Lost"
proof -
  obtain view reg' where reg: "register_session sample_leases 30 30 (sample_registration (lit ''i2'')) None None leased_registry
      = (Registered None view, reg')" using sample_registered by blast
  obtain old where old: "existing_runner leased_registry (lit ''runner-1'') = Some (old, sample_details)"
    "runner_instance_id old = lit ''i''" using sample_existing by blast
  have b: "trim (rr_client_id (sample_registration (lit ''i2''))) = lit ''runner-1''"
    "trim (rr_runner_instance_id (sample_registration (lit ''i2''))) = lit ''i2''" "rr_job_inventory (sample_registration (lit ''i2'')) = None"
    by (simp_all add: sample_registration_def sample_trim)
  have f: "finite (dom (reg_jobs_by_id (rg_inner leased_registry)))" "finite (dom (reg_pending_by_id (rg_inner leased_registry)))"
    using sample_registry_finite by (simp_all add: leased_registry_def sample_registry_def)
  have "reg_jobs_by_id (rg_inner leased_registry) (lit ''job-1'') = Some sample_job" "job_visibility sample_job \<noteq> CleanupPending"
    "terminated_job (lit ''runner-1'') (lit ''i'') None (lit ''job-1'') sample_job"
    by (simp_all add: leased_registry_def sample_registry_def terminated_job_def sample_job_def is_runner_active_def)
  with takeover_leaves_nothing_behind [OF sample_leases_order(1,2) sample_pruned [symmetric] f reg, unfolded b old(2), OF old(1)] old(2)
    sample_trim(3) reg
  show ?thesis by (metis (no_types, lifting))
qed

theorem shared_key_limits_hold_witness:
  "leases_ok sample_leases (snd (register_session sample_leases 30 30 (sample_registration (lit ''i2'')) None None leased_registry))"
proof -
  have "sessions (rg_inner leased_registry) k = (if k = lit ''runner-1'' then Some (lit ''runner-1'', lit ''i'', None, Polling, None) else None)" for k
    by (simp add: sessions_def session_of_def leased_registry_def sample_registry_def)
  then have "sessions (rg_inner leased_registry) = [lit ''runner-1'' \<mapsto> (lit ''runner-1'', lit ''i'', None, Polling, None)]" by auto
  moreover have "dom (rg_details leased_registry) = {lit ''runner-1''}" by (simp add: leased_registry_def)
  ultimately have "leases_ok sample_leases leased_registry"
    by (simp add: leases_ok_def Let_def group_members_def opt_ex_def shared_key_group_def sample_leases_def)
  from shared_key_limits_hold [OF sample_leases_order(3) this r_into_rtranclp [of "lease_step sample_leases", OF lease_step.register]] show ?thesis .
qed

text \<open>Process \<open>a\<close> is replaced, and then fifteen or sixteen further processes are.\<close>

definition later_instances :: "nat \<Rightarrow> rstr list" where
  "later_instances n = map (\<lambda>c. [c]) [98 ..< 98 + n]"

definition replaced_registry :: "nat \<Rightarrow> Registry" where
  "replaced_registry n = leased_registry\<lparr>rg_inner := sample_registry\<lparr>reg_retired_instances :=
     [lit ''runner-1'' \<mapsto> fold retire (later_instances n) (retire (lit ''a'') [])]\<rparr>\<rparr>"

definition returning_runner :: RunnerRecord where
  "returning_runner = new_runner 30 (sample_registration (lit ''a'')) None None \<lparr>fs_capabilities = sample_capabilities\<rparr>"

theorem replaced_process_is_forgotten_witness:
  "check_admission sample_leases returning_runner sample_details None (replaced_registry 15) \<noteq> Inr ()
   \<and> check_admission sample_leases returning_runner sample_details None (replaced_registry 16) = Inr ()"
proof -
  have ids: "runner_client_id returning_runner = lit ''runner-1''" "runner_instance_id returning_runner = lit ''a''"
    "runner_auth_group returning_runner = None"
    by (simp_all add: returning_runner_def new_runner_def sample_registration_def str_simps)
  have ret: "reg_retired_instances (rg_inner (replaced_registry n)) (runner_client_id returning_runner) =
      Some (fold retire (later_instances n) (retire (runner_instance_id returning_runner) []))" for n
    by (simp add: replaced_registry_def ids)
  note forgotten =
    replaced_process_is_forgotten [OF _ _ ret [of 15], where env = sample_leases and d = sample_details and inventory = None]
    replaced_process_is_forgotten [OF _ _ ret [of 16], where env = sample_leases and d = sample_details and inventory = None]
  have xs: "distinct (later_instances n)" "lit ''a'' \<notin> set (later_instances n)" "length (later_instances n) = n" for n
    by (auto simp: later_instances_def distinct_map inj_on_def lit_def)
  have "reject_downgrades (existing_runner leased_registry (lit ''runner-1'')) (lit ''a'') fs features = Inr ()" for fs features
    using sample_existing by (induction features) (auto simp: reject_same_instance_feature_downgrade_def lit_def)
  moreover have "existing_runner (replaced_registry n\<lparr>rg_inner := rg_inner (replaced_registry n)\<lparr>reg_retired_instances := f\<rparr>\<rparr>) k
      = existing_runner leased_registry k" for n f k
    by (simp add: existing_runner_def replaced_registry_def leased_registry_def)
  ultimately have "check_admission sample_leases returning_runner sample_details None (replaced_registry 16\<lparr>rg_inner :=
      rg_inner (replaced_registry 16)\<lparr>reg_retired_instances := (reg_retired_instances (rg_inner (replaced_registry 16)))
        (runner_client_id returning_runner := None)\<rparr>\<rparr>) = Inr ()"
    using sample_existing
    by (auto simp: check_admission_def Let_def ids check_shared_key_limits_def lit_def)
  then show ?thesis using forgotten xs ids by (simp add: MAX_RETIRED_INSTANCES_PER_RUNNER_def)
qed

end
