(* ===== verification/Runner_Dispatch.thy ===== *)
theory Runner_Dispatch
  imports Runner_Leases Authority Plugin_Gateway
begin

text \<open>
  Handing requests to Runners and taking back their results (\<open>crates/webcodex-runner-registry/src/polling.rs\<close>, with the
  cancellations and the drain of \<open>requests.rs\<close>). As the record of a Runner, a pending request is kept in two parts
  under the same id: the Runner and the Job in the shared \<open>PendingShellRequest\<close>, the operation, the waiter and the
  fences in the \<open>RequestDetails\<close> below. A channel to a waiter is the id of its request in a set, and what is sent is
  part of the result of an operation. \<open>ser\<close> and \<open>pser\<close> are the serialisers that the contracts of
  the bridge and of Plugins use.
\<close>

section \<open>Operations and requests\<close>

datatype RunnerJobOperation =
  StartShell rstr | StartValidation rstr | StartProcess rstr | StartDetachedProcess rstr | StartScript rstr | StopJob rstr

record PersistentShellRequest =
  psh_action :: rstr
  psh_shell_id :: rstr
  psh_workflow_session_id :: rstr
  psh_runtime_project_id :: rstr
  psh_cwd :: "rstr option"
  psh_shell :: "rstr option"
  psh_command :: "rstr option"
  psh_timeout_secs :: "nat option"
  psh_purpose :: "rstr option"

text \<open>Of the operations that are only passed on the kind is kept; of those on files and on the computer also whether they
  ask for a large native image.\<close>

datatype RunnerOperation =
  Op_RunShell | Op_RunProcess | Op_RunScript | Op_RunInternalPosixScript
| Op_Job RunnerJobOperation
| Op_File bool
| Op_Project
| Op_Computer bool
| Op_Validation | Op_Lsp
| Op_PersistentShell PersistentShellRequest
| Op_McpGateway McpGatewayRequest
| Op_PluginGateway PluginGatewayRequest
| Op_CodingAgent CodingAgentRequest
| Op_ConfiguredSkillRoots | Op_SkillStore | Op_SshResource | Op_RunnerConfig

definition is_large_native_image_request :: "RunnerOperation \<Rightarrow> bool" where
  "is_large_native_image_request operation =
     (case operation of Op_Computer large \<Rightarrow> large | Op_File mcp_image \<Rightarrow> mcp_image | _ \<Rightarrow> False)"

record SkillStoreDispatchFence =
  skf_runner_instance_id :: rstr
  skf_management :: bool
  skf_configured_roots :: bool

record CodingAgentDispatchFence =
  caf_runner_instance_id :: rstr
  caf_provider_id :: rstr
  caf_provider_instance_id :: rstr

record PluginGatewayDispatchFence =
  plf_runner_instance_id :: rstr
  plf_provider :: "(rstr \<times> rstr) option"

record RequestDetails =
  rq_cwd :: "rstr option"
  rq_preview :: rstr
  rq_operation :: RunnerOperation
  rq_waiter :: bool
  rq_expected_runner_owner :: "rstr option"
  rq_expected_project_id :: "rstr option"
  rq_expected_project_cwd :: "rstr option"
  rq_expected_mcp_runner :: "rstr option"
  rq_expected_mcp_provider :: "rstr option"
  rq_expected_mcp_provider_instance :: "rstr option"
  rq_expected_ssh_runner :: "rstr option"
  rq_expected_config_runner :: "rstr option"
  rq_skill_store_fence :: "SkillStoreDispatchFence option"
  rq_dispatched :: bool

record DispatchState =
  dsp_registry :: Registry
  dsp_requests :: "rstr \<rightharpoonup> RequestDetails"
  dsp_mcp_waiters :: "rstr set"
  dsp_plugin_waiters :: "rstr set"
  dsp_plugin_fences :: "rstr \<rightharpoonup> PluginGatewayDispatchFence"
  dsp_coding_waiters :: "rstr set"
  dsp_coding_fences :: "rstr \<rightharpoonup> CodingAgentDispatchFence"

abbreviation dsp_inner :: "DispatchState \<Rightarrow> RunnerRegistryInner" where
  "dsp_inner st \<equiv> rg_inner (dsp_registry st)"

definition on_inner :: "(RunnerRegistryInner \<Rightarrow> RunnerRegistryInner) \<Rightarrow> DispatchState \<Rightarrow> DispatchState" where
  "on_inner f st = st\<lparr>dsp_registry := (dsp_registry st)\<lparr>rg_inner := f (dsp_inner st)\<rparr>\<rparr>"

definition pending_request :: "DispatchState \<Rightarrow> rstr \<Rightarrow> (PendingShellRequest \<times> RequestDetails) option" where
  "pending_request st rid =
     (case (reg_pending_by_id (dsp_inner st) rid, dsp_requests st rid) of (Some p, Some q) \<Rightarrow> Some (p, q) | _ \<Rightarrow> None)"

definition remove_pending :: "rstr \<Rightarrow> DispatchState \<Rightarrow> DispatchState" where
  "remove_pending rid st =
     on_inner (take_pending_request_locked rid) (st\<lparr>dsp_requests := (dsp_requests st)(rid := None)\<rparr>)"

section \<open>Replies\<close>

record ShellRunResponse =
  srr_success :: bool
  srr_request_id :: rstr
  srr_client_id :: rstr
  srr_cwd :: "rstr option"
  srr_command_preview :: rstr
  srr_exit_code :: "int option"
  srr_stdout :: "rstr option"
  srr_stderr :: "rstr option"
  srr_duration_ms :: "nat option"
  srr_error :: "rstr option"
  srr_request_dispatched :: "bool option"
  srr_command_execution_state :: "ShellCommandExecutionState option"

record PersistentShellResult =
  psr_shell_id :: rstr
  psr_workflow_session_id :: rstr
  psr_runtime_project_id :: rstr
  psr_shell_state :: rstr
  psr_execution_state :: rstr
  psr_command_started :: bool
  psr_command_completed :: bool
  psr_exit_code :: "int option"
  psr_stdout :: rstr
  psr_stderr :: rstr
  psr_stdout_truncated :: bool
  psr_stderr_truncated :: bool
  psr_duration_ms :: nat
  psr_cwd :: "rstr option"
  psr_initial_cwd :: "rstr option"
  psr_shell :: "rstr option"
  psr_profile :: "rstr option"
  psr_created_at :: "int option"
  psr_last_activity_at :: "int option"
  psr_busy :: bool
  psr_already_closed :: bool
  psr_close_reason :: "rstr option"
  psr_error_code :: "rstr option"
  psr_error :: "rstr option"

datatype reply =
  ShellReply ShellRunResponse | McpReply McpGatewayResponse | PluginReply "PluginGatewayResponse"
| CodingReply CodingAgentResponse | PersistentReply PersistentShellResult

type_synonym replies = "(rstr \<times> reply) list"

definition refusal_response :: "rstr \<Rightarrow> rstr \<Rightarrow> rstr option \<Rightarrow> rstr \<Rightarrow> rstr \<Rightarrow> ShellRunResponse" where
  "refusal_response rid client_id cwd preview error =
     \<lparr>srr_success = False, srr_request_id = rid, srr_client_id = client_id, srr_cwd = cwd, srr_command_preview = preview,
      srr_exit_code = None, srr_stdout = None, srr_stderr = None, srr_duration_ms = None, srr_error = Some error,
      srr_request_dispatched = Some False, srr_command_execution_state = Some NotStarted\<rparr>"

definition when_waiting :: "bool \<Rightarrow> rstr \<Rightarrow> reply \<Rightarrow> replies" where
  "when_waiting waiting rid r = (if waiting then [(rid, r)] else [])"

section \<open>Fences\<close>

text \<open>A fence is checked under the lock right before a request is handed out: it names what must still be true of the
  Runner. The result is a code and a message, or the message alone.\<close>

definition exact_runner_error ::
    "Registry \<Rightarrow> rstr \<Rightarrow> rstr \<Rightarrow> rstr \<times> rstr \<Rightarrow> rstr \<times> rstr \<Rightarrow> RunnerFeature \<Rightarrow> rstr \<times> rstr \<Rightarrow> (rstr \<times> rstr) option" where
  "exact_runner_error reg client_id expected disappeared changed feature unsupported =
     (case existing_runner reg client_id of
        None \<Rightarrow> Some disappeared
      | Some (r, d) \<Rightarrow>
          if runner_instance_id r \<noteq> expected then Some changed
          else if \<not> supports (det_features d) feature then Some unsupported
          else None)"

definition stale_runner_config_error :: "Registry \<Rightarrow> rstr \<Rightarrow> RequestDetails \<Rightarrow> (rstr \<times> rstr) option" where
  "stale_runner_config_error reg client_id q =
     (case (rq_operation q, rq_expected_config_runner q) of
        (Op_RunnerConfig, Some expected) \<Rightarrow>
          exact_runner_error reg client_id expected
            (lit ''runner_replaced'', lit ''Exact Runner disappeared before config operation dispatch'')
            (lit ''runner_replaced'', lit ''Exact Runner changed before config operation dispatch'')
            Feature_RunnerConfigControl
            (lit ''capability_unavailable'', lit ''Runner config-control capability changed before dispatch'')
      | (Op_RunnerConfig, None) \<Rightarrow> Some (lit ''runner_replaced'', lit ''Runner config exact-process fence is missing'')
      | (_, Some _) \<Rightarrow> Some (lit ''runner_replaced'', lit ''Runner config exact-process fence is inconsistent'')
      | _ \<Rightarrow> None)"

definition stale_ssh_resource_error :: "Registry \<Rightarrow> rstr \<Rightarrow> RequestDetails \<Rightarrow> (rstr \<times> rstr) option" where
  "stale_ssh_resource_error reg client_id q =
     (case (rq_operation q, rq_expected_ssh_runner q) of
        (Op_SshResource, Some expected) \<Rightarrow>
          exact_runner_error reg client_id expected
            (lit ''runner_replaced'', lit ''Exact Runner disappeared before SSH resource dispatch'')
            (lit ''runner_replaced'', lit ''Exact Runner changed before SSH resource dispatch'')
            Feature_ManagedSshResources
            (lit ''ssh_resource_registry_unavailable'', lit ''Managed SSH resource capability changed before dispatch'')
      | (Op_SshResource, None) \<Rightarrow> Some (lit ''runner_replaced'', lit ''SSH resource exact Runner fence is missing'')
      | (_, Some _) \<Rightarrow> Some (lit ''runner_replaced'', lit ''SSH resource exact Runner fence is inconsistent'')
      | _ \<Rightarrow> None)"

definition mcp_provider_is_current :: "RunnerDetails \<Rightarrow> rstr \<Rightarrow> rstr \<Rightarrow> bool" where
  "mcp_provider_is_current d provider provider_instance =
     opt_ex (list_ex (\<lambda>p. mprov_provider_id p = provider \<and> mprov_provider_instance_id p = provider_instance))
       (Option.bind (det_policy d) pol_mcp_gateway_providers)"

definition stale_bridge_error :: "Registry \<Rightarrow> rstr \<Rightarrow> RequestDetails \<Rightarrow> (rstr \<times> rstr) option" where
  "stale_bridge_error reg client_id q =
     (case (rq_operation q, rq_expected_mcp_runner q, rq_expected_mcp_provider q, rq_expected_mcp_provider_instance q) of
        (Op_McpGateway operation, Some expected_runner, Some provider, Some provider_instance) \<Rightarrow>
          if mcp_provider_id operation \<noteq> provider \<or> mcp_provider_instance_id operation \<noteq> provider_instance
            then Some (lit ''stale_provider'', lit ''stale_mcp_gateway: pending exact-provider fence is inconsistent'')
          else (case existing_runner reg client_id of
              None \<Rightarrow> Some (lit ''stale_runner'', lit ''stale_mcp_gateway: target Runner disappeared before dispatch'')
            | Some (r, d) \<Rightarrow>
                if runner_instance_id r \<noteq> expected_runner
                  then Some (lit ''stale_runner'', lit ''stale_mcp_gateway: target Runner changed before dispatch'')
                else if \<not> mcp_provider_is_current d provider provider_instance
                  then Some (lit ''stale_provider'', lit ''stale_mcp_gateway: target provider changed before dispatch'')
                else None)
      | (Op_McpGateway _, _) \<Rightarrow>
          Some (lit ''stale_provider'', lit ''stale_mcp_gateway: pending exact bridge fence is incomplete'')
      | (_, None, None, None) \<Rightarrow> None
      | _ \<Rightarrow> Some (lit ''stale_provider'', lit ''stale_mcp_gateway: pending exact bridge fence is incomplete''))"

definition stale_plugin_error ::
    "Registry \<Rightarrow> rstr \<Rightarrow> PluginGatewayDispatchFence option \<Rightarrow> RequestDetails \<Rightarrow> (rstr \<times> rstr) option" where
  "stale_plugin_error reg client_id fence_of q =
     (case rq_operation q of
        Op_PluginGateway operation \<Rightarrow>
          (case fence_of of
             None \<Rightarrow> Some (lit ''stale_plugin_fence'', lit ''native Plugin exact dispatch fence is missing'')
           | Some fence \<Rightarrow>
               if plugin_provider_binding operation \<noteq> plf_provider fence
                 then Some (lit ''stale_plugin_provider'', lit ''native Plugin provider binding changed before dispatch'')
               else exact_runner_error reg client_id (plf_runner_instance_id fence)
                 (lit ''stale_runner'', lit ''native Plugin target Runner disappeared before dispatch'')
                 (lit ''stale_runner'', lit ''native Plugin target Runner changed before dispatch'')
                 Feature_NativeToolPlugins
                 (lit ''plugin_capability_unavailable'', lit ''native Plugin capability changed before dispatch''))
      | _ \<Rightarrow> None)"

definition stale_skill_store_error :: "Registry \<Rightarrow> rstr \<Rightarrow> RequestDetails \<Rightarrow> rstr option" where
  "stale_skill_store_error reg client_id q =
     (let skill_operation = (rq_operation q = Op_SkillStore \<or> rq_operation q = Op_ConfiguredSkillRoots) in
      case rq_skill_store_fence q of
        None \<Rightarrow> if skill_operation then Some (lit ''stale_runner: Skill source exact dispatch fence is missing'') else None
      | Some fence \<Rightarrow>
          if rq_operation q = Op_SkillStore \<and> \<not> skf_configured_roots fence then
            let required = (if skf_management fence then Feature_SkillStoreManage else Feature_SkillStoreRead) in
            map_option snd (exact_runner_error reg client_id (skf_runner_instance_id fence)
              ([], lit ''stale_runner: Skill store target Runner disappeared before dispatch'')
              ([], lit ''stale_runner: Skill store target Runner changed before dispatch'')
              required
              ([], lit ''skill_store_capability_unavailable: exact Runner no longer advertises '' @ as_wire_name required
                 @ lit '' before dispatch''))
          else if rq_operation q = Op_ConfiguredSkillRoots \<and> skf_configured_roots fence \<and> \<not> skf_management fence then
            map_option snd (exact_runner_error reg client_id (skf_runner_instance_id fence)
              ([], lit ''stale_runner: configured Skill roots target Runner disappeared before dispatch'')
              ([], lit ''stale_runner: configured Skill roots target Runner changed before dispatch'')
              Feature_ConfiguredSkillRootsRead
              ([], lit ''configured_skill_roots_capability_unavailable: exact Runner no longer advertises configured_skill_roots_read before dispatch''))
          else if skill_operation
            then Some (lit ''stale_runner: Skill source dispatch fence mode does not match the request kind'')
          else Some (lit ''stale_runner: Skill source dispatch fence is attached to the wrong request kind''))"

definition stale_coding_agent_error ::
    "Registry \<Rightarrow> rstr \<Rightarrow> CodingAgentDispatchFence option \<Rightarrow> RequestDetails \<Rightarrow> (rstr \<times> rstr) option" where
  "stale_coding_agent_error reg client_id fence_of q =
     (case rq_operation q of
        Op_CodingAgent _ \<Rightarrow>
          (case fence_of of
             None \<Rightarrow> Some (lit ''stale_coding_agent_fence'', lit ''CodingAgentRun exact dispatch fence is missing'')
           | Some fence \<Rightarrow>
               (case existing_runner reg client_id of
                  None \<Rightarrow> Some (lit ''stale_runner'', lit ''CodingAgentRun target Runner disappeared before dispatch'')
                | Some (r, d) \<Rightarrow>
                    if runner_instance_id r \<noteq> caf_runner_instance_id fence
                      then Some (lit ''stale_runner'', lit ''CodingAgentRun target Runner changed before dispatch'')
                    else if \<not> list_ex (\<lambda>p. prov_provider_id p = caf_provider_id fence
                          \<and> prov_provider_instance_id p = caf_provider_instance_id fence) (det_coding_agent_providers d)
                      then Some (lit ''stale_provider'', lit ''CodingAgentRun target ACP provider changed before dispatch'')
                    else None))
      | _ \<Rightarrow> None)"

definition stale_project_error :: "Registry \<Rightarrow> rstr \<Rightarrow> RequestDetails \<Rightarrow> rstr option" where
  "stale_project_error reg client_id q =
     (case (rq_expected_project_id q, rq_expected_project_cwd q) of
        (Some project_id, Some project_cwd) \<Rightarrow>
          (let gone = lit ''stale_project: target project '' @ project_id
                 @ lit '' is no longer registered at the resolved path'' in
           case existing_runner reg client_id of
             None \<Rightarrow> Some gone
           | Some (r, d) \<Rightarrow>
               if runner_owner r \<noteq> rq_expected_runner_owner q
                 then Some (lit ''stale_authority: target Runner owner changed before dispatch'')
               else if \<not> supports (det_features d) Feature_FileWrite
                 then Some (lit ''stale_authority: target Runner no longer advertises file_write before dispatch'')
               else if list_ex (\<lambda>p. \<not> prj_disabled p \<and> prj_id p = project_id \<and> prj_path p = project_cwd) (det_projects d)
                 then None
               else Some gone)
      | (None, None) \<Rightarrow> None
      | _ \<Rightarrow> Some (lit ''stale_project: pending project placement fence is incomplete''))"

text \<open>The first fence that fails decides how the request is refused.\<close>

datatype refusal =
  RefusePlain rstr rstr | RefuseBridge rstr rstr | RefusePlugin rstr rstr | RefuseSkill rstr | RefuseCoding rstr rstr | RefuseProject rstr

definition stale_request :: "DispatchState \<Rightarrow> rstr \<Rightarrow> rstr \<Rightarrow> RequestDetails \<Rightarrow> refusal option" where
  "stale_request st client_id rid q =
     (let reg = dsp_registry st in
      case stale_runner_config_error reg client_id q of Some (c, m) \<Rightarrow> Some (RefusePlain c m) | None \<Rightarrow>
      case stale_ssh_resource_error reg client_id q of Some (c, m) \<Rightarrow> Some (RefusePlain c m) | None \<Rightarrow>
      case stale_bridge_error reg client_id q of Some (c, m) \<Rightarrow> Some (RefuseBridge c m) | None \<Rightarrow>
      case stale_plugin_error reg client_id (dsp_plugin_fences st rid) q of Some (c, m) \<Rightarrow> Some (RefusePlugin c m) | None \<Rightarrow>
      case stale_skill_store_error reg client_id q of Some m \<Rightarrow> Some (RefuseSkill m) | None \<Rightarrow>
      case stale_coding_agent_error reg client_id (dsp_coding_fences st rid) q of Some (c, m) \<Rightarrow> Some (RefuseCoding c m) | None \<Rightarrow>
      map_option RefuseProject (stale_project_error reg client_id q))"

definition drop_persistent_waiter :: "rstr \<Rightarrow> DispatchState \<Rightarrow> DispatchState" where
  "drop_persistent_waiter rid st = on_inner (\<lambda>i. i\<lparr>reg_persistent_waiters := reg_persistent_waiters i - {rid}\<rparr>) st"

definition drop_mcp_waiter :: "rstr \<Rightarrow> DispatchState \<Rightarrow> DispatchState" where
  "drop_mcp_waiter rid st = st\<lparr>dsp_mcp_waiters := dsp_mcp_waiters st - {rid}\<rparr>"

definition drop_plugin_waiter :: "rstr \<Rightarrow> DispatchState \<Rightarrow> DispatchState" where
  "drop_plugin_waiter rid st = st\<lparr>dsp_plugin_waiters := dsp_plugin_waiters st - {rid},
     dsp_plugin_fences := (dsp_plugin_fences st)(rid := None)\<rparr>"

definition drop_coding_waiter :: "rstr \<Rightarrow> DispatchState \<Rightarrow> DispatchState" where
  "drop_coding_waiter rid st = st\<lparr>dsp_coding_waiters := dsp_coding_waiters st - {rid},
     dsp_coding_fences := (dsp_coding_fences st)(rid := None)\<rparr>"

text \<open>A refused request leaves the registry, and every channel that waits for it is told that it was not started.\<close>

fun refuse :: "rstr \<Rightarrow> rstr \<Rightarrow> RequestDetails \<Rightarrow> refusal \<Rightarrow> DispatchState \<Rightarrow> DispatchState \<times> replies" where
  "refuse client_id rid q (RefusePlain code message) st =
     (remove_pending rid st,
      when_waiting (rq_waiter q) rid (ShellReply (refusal_response rid client_id None [] (code @ lit '': '' @ message))))"
| "refuse client_id rid q (RefuseBridge code error) st =
     (drop_persistent_waiter rid (drop_mcp_waiter rid (remove_pending rid st)),
      when_waiting (rq_waiter q) rid (ShellReply (refusal_response rid client_id (rq_cwd q) (rq_preview q) error))
      @ when_waiting (rid \<in> dsp_mcp_waiters st) rid (McpReply (mcp_error McpNotStarted code
          (if code = lit ''stale_runner'' then lit ''Exact Runner changed before bridge dispatch; request was not started''
           else lit ''Exact provider changed before bridge dispatch; request was not started''))))"
| "refuse client_id rid q (RefusePlugin code message) st =
     (drop_persistent_waiter rid (drop_coding_waiter rid (drop_mcp_waiter rid (drop_plugin_waiter rid (remove_pending rid st)))),
      when_waiting (rq_waiter q) rid (ShellReply (refusal_response rid client_id (rq_cwd q) (rq_preview q) message))
      @ when_waiting (rid \<in> dsp_plugin_waiters st) rid (PluginReply (plugin_error PluginNotStarted code
          (lit ''Exact native Plugin dispatch target changed before dispatch; request was not started''))))"
| "refuse client_id rid q (RefuseSkill error) st =
     (drop_persistent_waiter rid (remove_pending rid st),
      when_waiting (rq_waiter q) rid (ShellReply (refusal_response rid client_id None (rq_preview q) error)))"
| "refuse client_id rid q (RefuseCoding code message) st =
     (drop_persistent_waiter rid (drop_mcp_waiter rid (drop_coding_waiter rid (remove_pending rid st))),
      when_waiting (rid \<in> dsp_coding_waiters st) rid (CodingReply (response_error DispatchNotStarted code message
        (Some (lit ''stale_state'')) (Some (lit ''reobserve'')))))"
| "refuse client_id rid q (RefuseProject error) st =
     (drop_persistent_waiter rid (remove_pending rid st),
      when_waiting (rq_waiter q) rid (ShellReply (refusal_response rid client_id (rq_cwd q) (rq_preview q) error)))"

section \<open>Polling\<close>

definition set_queue :: "rstr \<Rightarrow> rstr list \<Rightarrow> DispatchState \<Rightarrow> DispatchState" where
  "set_queue client_id queue st = on_inner (\<lambda>i. i\<lparr>reg_queues_by_runner := (reg_queues_by_runner i)(client_id \<mapsto> queue)\<rparr>) st"

definition mark_dispatched :: "rstr \<Rightarrow> DispatchState \<Rightarrow> DispatchState" where
  "mark_dispatched rid st =
     st\<lparr>dsp_requests := (dsp_requests st)(rid := map_option (\<lambda>q. q\<lparr>rq_dispatched := True\<rparr>) (dsp_requests st rid))\<rparr>"

text \<open>A queued Job whose request is handed out is queued at the Runner from now on.\<close>

definition accept_job :: "int \<Rightarrow> rstr \<Rightarrow> RunnerRegistryInner \<Rightarrow> RunnerRegistryInner" where
  "accept_job now jid inner =
     (case reg_jobs_by_id inner jid of
        None \<Rightarrow> inner
      | Some job \<Rightarrow>
          if job_lifecycle job = Queued then
            put_job inner jid (notify_job_update
              (job\<lparr>job_lifecycle := RunnerQueued,
                 job_started_at := (if job_structured_execution job = None then Some now else job_started_at job)\<rparr>)
              (reg_receipt_candidates inner))
          else inner)"

definition is_stop_operation :: "RunnerOperation \<Rightarrow> bool" where
  "is_stop_operation operation = (case operation of Op_Job (StopJob _) \<Rightarrow> True | _ \<Rightarrow> False)"

definition hand_out :: "int \<Rightarrow> rstr \<Rightarrow> PendingShellRequest \<Rightarrow> RequestDetails \<Rightarrow> DispatchState \<Rightarrow> DispatchState" where
  "hand_out now rid p q st =
     (let st1 = mark_dispatched rid st in
      if is_stop_operation (rq_operation q) then remove_pending rid st1
      else (case pend_job_id p of None \<Rightarrow> st1 | Some jid \<Rightarrow> on_inner (accept_job now jid) st1))"

text \<open>The loop pops the queue until a request can be handed out.\<close>

fun poll_loop ::
    "int \<Rightarrow> rstr \<Rightarrow> rstr list \<Rightarrow> DispatchState \<Rightarrow> (rstr \<times> RunnerOperation) option \<times> DispatchState \<times> replies" where
  "poll_loop now client_id [] st = (None, st, [])"
| "poll_loop now client_id (rid # queue) st0 =
     (let st = set_queue client_id queue st0 in
      case pending_request st rid of
        None \<Rightarrow> poll_loop now client_id queue st
      | Some (p, q) \<Rightarrow>
          (case stale_request st client_id rid q of
             Some r \<Rightarrow>
               (let (st1, sent) = refuse client_id rid q r st; (result, st2, sent') = poll_loop now client_id queue st1
                in (result, st2, sent @ sent'))
           | None \<Rightarrow> (Some (rid, rq_operation q), hand_out now rid p q st, [])))"

definition see_runner :: "int \<Rightarrow> rstr \<Rightarrow> DispatchState \<Rightarrow> DispatchState" where
  "see_runner now client_id st = st\<lparr>dsp_registry := note_seen now client_id (dsp_registry st)\<rparr>"

definition poll_checked ::
    "int \<Rightarrow> int \<Rightarrow> rstr \<Rightarrow> rstr \<Rightarrow> rstr option \<Rightarrow> DispatchState
       \<Rightarrow> (rstr + (rstr \<times> RunnerOperation) option) \<times> DispatchState \<times> replies" where
  "poll_checked now job_now client_id instance_id expected_connection_id st =
     (case and_then (validate_id client_id (lit ''client_id'')) (validate_runner_instance_id instance_id) of
        Inl e \<Rightarrow> (Inl e, st, [])
      | Inr _ \<Rightarrow>
          (case lease_error client_id instance_id expected_connection_id (dsp_registry st) of
             Some e \<Rightarrow> (Inl e, st, [])
           | None \<Rightarrow>
               let st1 = see_runner now client_id st in
               case reg_queues_by_runner (dsp_inner st1) client_id of
                 None \<Rightarrow> (Inr None, st1, [])
               | Some queue \<Rightarrow>
                   (let (result, st2, sent) = poll_loop job_now client_id queue st1 in (Inr result, st2, sent))))"

definition poll where
  "poll now job_now client_id instance_id st = poll_checked now job_now client_id instance_id None st"

definition poll_for_connection where
  "poll_for_connection now job_now client_id instance_id connection_id st =
     poll_checked now job_now client_id instance_id (Some connection_id) st"

section \<open>Results\<close>

record RunnerResultRequest =
  res_client_id :: rstr
  res_runner_instance_id :: rstr
  res_request_id :: rstr
  res_exit_code :: "int option"
  res_stdout :: "rstr option"
  res_stderr :: "rstr option"
  res_duration_ms :: "nat option"
  res_error :: "rstr option"

record RunnerResultPayload =
  pay_result :: RunnerResultRequest
  pay_command_execution_state :: "ShellCommandExecutionState option"
  pay_mcp_gateway :: "McpGatewayResponse option"
  pay_plugin_gateway :: "PluginGatewayResponse option"
  pay_coding_agent :: "CodingAgentResponse option"

text \<open>A typed response comes without the fields of a command result.\<close>

definition bare_result :: "RunnerResultPayload \<Rightarrow> bool" where
  "bare_result payload \<longleftrightarrow> (let body = pay_result payload in
     pay_command_execution_state payload = None \<and> res_exit_code body = None \<and> res_stdout body = None
     \<and> res_stderr body = None \<and> res_duration_ms body = None \<and> res_error body = None)"

definition mcp_result :: "McpSerializer \<Rightarrow> bool \<Rightarrow> RunnerResultPayload \<Rightarrow> McpGatewayResponse" where
  "mcp_result ser dispatched payload =
     (let invalid = (if dispatched then mcp_error McpOutcomeUnknown (lit ''invalid_runner_response'')
             (lit ''Runner returned an invalid bridge response after dispatch; downstream outcome is unknown and must not be retried automatically'')
           else mcp_error McpNotStarted (lit ''invalid_runner_response'')
             (lit ''Runner returned an invalid bridge response before provider dispatch''))
      in case pay_mcp_gateway payload of
           Some response \<Rightarrow> if bare_result payload \<and> validate_response ser response = Inr () then response else invalid
         | None \<Rightarrow> invalid)"

definition plugin_result ::
    "PluginSerializer \<Rightarrow> PluginGatewayRequest \<Rightarrow> bool \<Rightarrow> RunnerResultPayload
       \<Rightarrow> PluginGatewayResponse" where
  "plugin_result pser request dispatched payload =
     (let invalid = (if dispatched then plugin_error PluginOutcomeUnknown (lit ''invalid_runner_response'')
             (lit ''Runner returned an invalid Plugin response after dispatch; downstream outcome is unknown and must not be retried automatically'')
           else plugin_error PluginNotStarted (lit ''invalid_runner_response'')
             (lit ''Runner returned an invalid Plugin response before provider dispatch''))
      in case pay_plugin_gateway payload of
           Some response \<Rightarrow> if bare_result payload \<and> pay_mcp_gateway payload = None \<and> pay_coding_agent payload = None
             \<and> plugin_validate_response_for_request pser request response = Inr () then response else invalid
         | None \<Rightarrow> invalid)"

definition coding_result :: "CodingAgentRequest \<Rightarrow> bool \<Rightarrow> RunnerResultPayload \<Rightarrow> CodingAgentResponse" where
  "coding_result request dispatched payload =
     (let invalid = response_error (if dispatched then DispatchOutcomeUnknown else DispatchNotStarted) (lit ''invalid_runner_response'')
           (if dispatched then lit ''Runner returned an invalid CodingAgentRun response after dispatch; reconcile the same run_id before any new initiation''
            else lit ''Runner returned an invalid CodingAgentRun response before dispatch'')
           (Some (lit ''protocol'')) (Some (lit ''reobserve''))
      in case pay_coding_agent payload of
           Some response \<Rightarrow> if bare_result payload \<and> pay_mcp_gateway payload = None
             \<and> validate_response_for_request request response = Inr () then response else invalid
         | None \<Rightarrow> invalid)"

text \<open>The Job of an ordinary result; \<open>None\<close> is the panic of a cut inside a character, which does not happen.\<close>

definition finished_job ::
    "int \<Rightarrow> bool \<Rightarrow> RunnerResultRequest \<Rightarrow> ShellJobRecord \<Rightarrow> candidates \<Rightarrow> (ShellJobRecord \<times> candidates) option" where
  "finished_job now success body job cands =
     (let job1 = observe_job_terminal (job\<lparr>job_lifecycle := (if success then Completed else Failed)\<rparr>) now in
      case (replace_log_limited (job_stdout job1) (res_stdout body), replace_log_limited (job_stderr job1) (res_stderr body)) of
        (Some out, Some err) \<Rightarrow> Some (notify_job_update
          (job1\<lparr>job_ended_at := Some now, job_exit_code := res_exit_code body, job_duration_ms := res_duration_ms body,
             job_stdout := out, job_stderr := err, job_error := res_error body\<rparr>) cands)
      | _ \<Rightarrow> None)"

definition finish_result_job ::
    "int \<Rightarrow> bool \<Rightarrow> RunnerResultRequest \<Rightarrow> rstr \<Rightarrow> RunnerRegistryInner \<Rightarrow> RunnerRegistryInner option" where
  "finish_result_job now success body jid inner0 =
     (let inner = forget_request (res_request_id body) inner0 in
      case reg_jobs_by_id inner jid of
        None \<Rightarrow> Some inner
      | Some job \<Rightarrow> map_option (put_job inner jid) (finished_job now success body job (reg_receipt_candidates inner)))"

definition ordinary_success :: "RunnerResultPayload \<Rightarrow> bool" where
  "ordinary_success payload \<longleftrightarrow> pay_command_execution_state payload \<in> {None, Some ExecutionCompleted}
     \<and> res_error (pay_result payload) = None \<and> res_exit_code (pay_result payload) = Some 0"

definition ordinary_response ::
    "PendingShellRequest \<Rightarrow> RequestDetails \<Rightarrow> RunnerResultPayload \<Rightarrow> ShellRunResponse option" where
  "ordinary_response p q payload =
     (let body = pay_result payload in
      case (if is_large_native_image_request (rq_operation q)
            then retain_result_stream_to (res_stdout body) MAX_MCP_IMAGE_RESPONSE_BYTES
            else retain_ordinary_result_stream (res_stdout body), retain_ordinary_result_stream (res_stderr body)) of
        (Some out, Some err) \<Rightarrow> Some
          \<lparr>srr_success = ordinary_success payload, srr_request_id = res_request_id body, srr_client_id = res_client_id body,
           srr_cwd = rq_cwd q, srr_command_preview = rq_preview q, srr_exit_code = res_exit_code body, srr_stdout = out,
           srr_stderr = err, srr_duration_ms = res_duration_ms body, srr_error = res_error body,
           srr_request_dispatched = Some (rq_dispatched q), srr_command_execution_state = pay_command_execution_state payload\<rparr>
      | _ \<Rightarrow> None)"

definition finish_ordinary ::
    "int \<Rightarrow> PendingShellRequest \<Rightarrow> RequestDetails \<Rightarrow> RunnerResultPayload \<Rightarrow> DispatchState \<Rightarrow> (DispatchState \<times> replies) option" where
  "finish_ordinary now p q payload st =
     (case ordinary_response p q payload of
        None \<Rightarrow> None
      | Some response \<Rightarrow>
          map_option (\<lambda>inner. (on_inner (\<lambda>_. inner) st,
              when_waiting (rq_waiter q) (res_request_id (pay_result payload)) (ShellReply response)))
            (case pend_job_id p of
               None \<Rightarrow> Some (dsp_inner st)
             | Some jid \<Rightarrow> finish_result_job now (ordinary_success payload) (pay_result payload) jid (dsp_inner st)))"

definition unexpected_response :: "RequestDetails \<Rightarrow> RunnerResultPayload \<Rightarrow> rstr + unit" where
  "unexpected_response q payload =
     (let coding = (case rq_operation q of Op_CodingAgent _ \<Rightarrow> True | _ \<Rightarrow> False);
          bridge = (case rq_operation q of Op_McpGateway _ \<Rightarrow> True | _ \<Rightarrow> False);
          plugin = (case rq_operation q of Op_PluginGateway _ \<Rightarrow> True | _ \<Rightarrow> False) in
      and_then (reject_if (\<not> coding \<and> pay_coding_agent payload \<noteq> None)
          (lit ''unexpected CodingAgentRun result for non-coding request''))
     (and_then (reject_if (\<not> bridge \<and> pay_mcp_gateway payload \<noteq> None)
          (lit ''unexpected MCP gateway result for non-bridge request''))
        (reject_if (\<not> plugin \<and> pay_plugin_gateway payload \<noteq> None)
          (lit ''unexpected Plugin gateway result for non-Plugin request''))))"

text \<open>Liveness is refreshed only for the connection that holds the transport lease.\<close>

definition refresh_liveness :: "int \<Rightarrow> rstr \<Rightarrow> rstr option \<Rightarrow> DispatchState \<Rightarrow> DispatchState" where
  "refresh_liveness now client_id expected_connection_id st =
     (if expected_connection_id = None
         \<or> opt_ex (\<lambda>r. runner_connection_id r = expected_connection_id) (reg_runners (dsp_inner st) client_id)
      then see_runner now client_id st else st)"

definition take_result ::
    "McpSerializer \<Rightarrow> PluginSerializer \<Rightarrow> int \<Rightarrow> PendingShellRequest \<Rightarrow> RequestDetails
       \<Rightarrow> RunnerResultPayload \<Rightarrow> DispatchState \<Rightarrow> (DispatchState \<times> replies) option" where
  "take_result ser pser now p q payload st0 =
     (let rid = res_request_id (pay_result payload); st = remove_pending rid st0 in
      case rq_operation q of
        Op_McpGateway _ \<Rightarrow> Some (drop_mcp_waiter rid st,
          when_waiting (rid \<in> dsp_mcp_waiters st) rid (McpReply (mcp_result ser (rq_dispatched q) payload)))
      | Op_PluginGateway request \<Rightarrow> Some (drop_plugin_waiter rid st,
          when_waiting (rid \<in> dsp_plugin_waiters st) rid (PluginReply (plugin_result pser request (rq_dispatched q) payload)))
      | Op_CodingAgent request \<Rightarrow> Some (drop_coding_waiter rid st,
          when_waiting (rid \<in> dsp_coding_waiters st) rid (CodingReply (coding_result request (rq_dispatched q) payload)))
      | _ \<Rightarrow> finish_ordinary now p q payload st)"

definition complete_checked ::
    "McpSerializer \<Rightarrow> PluginSerializer \<Rightarrow> int \<Rightarrow> int \<Rightarrow> RunnerResultPayload \<Rightarrow> rstr option
       \<Rightarrow> DispatchState \<Rightarrow> ((rstr + unit) \<times> DispatchState \<times> replies) option" where
  "complete_checked ser pser now terminal_now payload expected_connection_id st0 =
     (let body = pay_result payload; rid = res_request_id body in
      case and_then (validate_id (res_client_id body) (lit ''client_id''))
          (and_then (validate_id rid (lit ''request_id''))
          (and_then (validate_runner_instance_id (res_runner_instance_id body))
             (assert_active_instance_locked (dsp_inner st0) (res_client_id body) (res_runner_instance_id body)))) of
        Inl e \<Rightarrow> Some (Inl e, st0, [])
      | Inr _ \<Rightarrow>
          let st = refresh_liveness now (res_client_id body) expected_connection_id st0 in
          case pending_request st rid of
            None \<Rightarrow> Some (Inl (lit ''unknown or expired shell request: '' @ rid), st, [])
          | Some (p, q) \<Rightarrow>
              if pend_client_id p \<noteq> res_client_id body
                then Some (Inl (lit ''request_id does not belong to client_id''), st, [])
              else (case unexpected_response q payload of
                  Inl e \<Rightarrow> Some (Inl e, st, [])
                | Inr _ \<Rightarrow> map_option (\<lambda>(st', sent). (Inr (), st', sent)) (take_result ser pser terminal_now p q payload st)))"

definition complete where
  "complete ser pser now terminal_now payload st = complete_checked ser pser now terminal_now payload None st"

definition complete_for_connection where
  "complete_for_connection ser pser now terminal_now payload connection_id st =
     complete_checked ser pser now terminal_now payload (Some connection_id) st"

section \<open>Persistent shells\<close>

definition PERSISTENT_SHELL_STREAM_RETENTION_BYTES :: nat where "PERSISTENT_SHELL_STREAM_RETENTION_BYTES = 256 * 1024"
definition MAX_METADATA_BYTES :: nat where "MAX_METADATA_BYTES = 8 * 1024"

definition truncate_persistent_shell_stream :: "rstr \<Rightarrow> (rstr \<times> bool) option" where
  "truncate_persistent_shell_stream v =
     (if str_len v \<le> PERSISTENT_SHELL_STREAM_RETENTION_BYTES then Some (v, False)
      else map_option (\<lambda>(_, rest). (rest, True))
        (str_split_at v (next_boundary v (str_len v - PERSISTENT_SHELL_STREAM_RETENTION_BYTES))))"

fun check_metadata :: "(rstr \<times> rstr option) list \<Rightarrow> rstr + unit" where
  "check_metadata [] = Inr ()"
| "check_metadata ((name, v) # rest) =
     and_then (reject_if (opt_ex (\<lambda>s. MAX_METADATA_BYTES < str_len s) v)
       (name @ lit '' exceeds persistent shell result metadata limit'')) (check_metadata rest)"

definition shell_states :: "rstr list" where
  "shell_states = [lit ''opening'', lit ''running'', lit ''exited'', lit ''closed'', lit ''poisoned'', lit ''lost'', lit ''unknown'']"

definition check_persistent_shell_result :: "PersistentShellResult \<Rightarrow> rstr + unit" where
  "check_persistent_shell_result result =
     and_then (validate_id (psr_shell_id result) (lit ''shell_id''))
    (and_then (validate_id (psr_workflow_session_id result) (lit ''workflow_session_id''))
    (and_then (reject_if (psr_runtime_project_id result = [] \<or> 1024 < str_len (psr_runtime_project_id result)
          \<or> list_ex is_control (psr_runtime_project_id result)) (lit ''invalid runtime_project_id in persistent shell result''))
    (and_then (reject_if (psr_shell_state result \<notin> set shell_states) (lit ''invalid shell_state in persistent shell result''))
       (check_metadata [(lit ''execution_state'', Some (psr_execution_state result)), (lit ''cwd'', psr_cwd result),
          (lit ''initial_cwd'', psr_initial_cwd result), (lit ''shell'', psr_shell result), (lit ''profile'', psr_profile result),
          (lit ''close_reason'', psr_close_reason result), (lit ''error_code'', psr_error_code result), (lit ''error'', psr_error result)]))))"

definition normalize_persistent_shell_result :: "PersistentShellResult \<Rightarrow> (rstr + PersistentShellResult) option" where
  "normalize_persistent_shell_result result =
     (case check_persistent_shell_result result of
        Inl e \<Rightarrow> Some (Inl e)
      | Inr _ \<Rightarrow>
          (case (truncate_persistent_shell_stream (psr_stdout result), truncate_persistent_shell_stream (psr_stderr result)) of
             (Some (out, cut_out), Some (err, cut_err)) \<Rightarrow> Some (Inr (result\<lparr>psr_stdout := out, psr_stderr := err,
                 psr_stdout_truncated := (cut_out \<or> psr_stdout_truncated result),
                 psr_stderr_truncated := (cut_err \<or> psr_stderr_truncated result)\<rparr>))
           | _ \<Rightarrow> None))"

definition complete_persistent_shell_checked ::
    "int \<Rightarrow> rstr \<Rightarrow> rstr \<Rightarrow> rstr \<Rightarrow> PersistentShellResult \<Rightarrow> rstr option \<Rightarrow> DispatchState
       \<Rightarrow> ((rstr + unit) \<times> DispatchState \<times> replies) option" where
  "complete_persistent_shell_checked now client_id instance_id rid result0 expected_connection_id st0 =
     (case and_then (validate_id client_id (lit ''client_id'')) (and_then (validate_id rid (lit ''request_id''))
          (validate_runner_instance_id instance_id)) of
        Inl e \<Rightarrow> Some (Inl e, st0, [])
      | Inr _ \<Rightarrow>
          (case normalize_persistent_shell_result result0 of
             None \<Rightarrow> None
           | Some (Inl e) \<Rightarrow> Some (Inl e, st0, [])
           | Some (Inr result) \<Rightarrow>
               (case assert_active_instance_locked (dsp_inner st0) client_id instance_id of
                  Inl e \<Rightarrow> Some (Inl e, st0, [])
                | Inr _ \<Rightarrow>
                    let st = refresh_liveness now client_id expected_connection_id st0 in
                    case pending_request st rid of
                      None \<Rightarrow> Some (Inl (lit ''unknown or expired persistent shell request: '' @ rid), st, [])
                    | Some (p, q) \<Rightarrow>
                        if pend_client_id p \<noteq> client_id then Some (Inl (lit ''request_id does not belong to client_id''), st, [])
                        else (case rq_operation q of
                            Op_PersistentShell request \<Rightarrow>
                              if psh_shell_id request \<noteq> psr_shell_id result
                                  \<or> psh_workflow_session_id request \<noteq> psr_workflow_session_id result
                                  \<or> psh_runtime_project_id request \<noteq> psr_runtime_project_id result
                              then Some (Inl (lit ''persistent shell result identity mismatch''),
                                drop_persistent_waiter rid (on_inner (remove_request_from_queues_locked rid) (remove_pending rid st)), [])
                              else Some (Inr (), drop_persistent_waiter rid (remove_pending rid st),
                                when_waiting (rid \<in> reg_persistent_waiters (dsp_inner st)) rid (PersistentReply result))
                          | _ \<Rightarrow> Some (Inl (lit ''request_id does not belong to a persistent shell request''), st, [])))))"

section \<open>Cancellation and the drain of a disconnected Runner\<close>

definition forget_waiters :: "rstr \<Rightarrow> DispatchState \<Rightarrow> DispatchState" where
  "forget_waiters rid st = drop_persistent_waiter rid (drop_mcp_waiter rid (drop_plugin_waiter rid (drop_coding_waiter rid st)))"

definition cancel_request_dispatch_state :: "rstr \<Rightarrow> DispatchState \<Rightarrow> bool option \<times> DispatchState" where
  "cancel_request_dispatch_state rid st =
     (map_option (\<lambda>(p, q). rq_dispatched q) (pending_request st rid),
      on_inner (remove_request_from_queues_locked rid) (remove_pending rid (forget_waiters rid st)))"

definition cancel_request :: "rstr \<Rightarrow> DispatchState \<Rightarrow> bool \<times> DispatchState" where
  "cancel_request rid st = (case cancel_request_dispatch_state rid st of (d, st') \<Rightarrow> (case d of None \<Rightarrow> False | Some b \<Rightarrow> b, st'))"

datatype channel = ShellChannel | McpChannel | PluginChannel | CodingChannel

text \<open>\<open>closed\<close> says of a channel that its receiver is gone.\<close>

definition abandoned :: "(channel \<Rightarrow> rstr \<Rightarrow> bool) \<Rightarrow> DispatchState \<Rightarrow> rstr \<Rightarrow> bool" where
  "abandoned closed st rid =
     opt_ex (\<lambda>(p, q). pend_job_id p = None
        \<and> (rq_waiter q \<and> closed ShellChannel rid \<or> rid \<in> dsp_mcp_waiters st \<and> closed McpChannel rid
           \<or> rid \<in> dsp_plugin_waiters st \<and> closed PluginChannel rid \<or> rid \<in> dsp_coding_waiters st \<and> closed CodingChannel rid))
       (pending_request st rid)"

definition cancel_abandoned_sync_requests ::
    "ReconcileEnv \<Rightarrow> (channel \<Rightarrow> rstr \<Rightarrow> bool) \<Rightarrow> DispatchState \<Rightarrow> nat \<times> DispatchState" where
  "cancel_abandoned_sync_requests env closed st =
     (let rids = filter (abandoned closed st) (env_pending_order env (reg_pending_by_id (dsp_inner st))) in
      (length rids, fold (\<lambda>rid. snd \<circ> cancel_request_dispatch_state rid) rids st))"

definition drained_response :: "rstr \<Rightarrow> rstr \<Rightarrow> RequestDetails \<Rightarrow> rstr \<Rightarrow> ShellRunResponse" where
  "drained_response rid client_id q error =
     (refusal_response rid client_id (rq_cwd q) (rq_preview q) error)
       \<lparr>srr_request_dispatched := Some (rq_dispatched q), srr_command_execution_state := None\<rparr>"

definition drained_replies :: "rstr \<Rightarrow> rstr \<Rightarrow> rstr \<Rightarrow> RequestDetails \<Rightarrow> DispatchState \<Rightarrow> replies" where
  "drained_replies client_id error rid q st =
     when_waiting (rq_waiter q) rid (ShellReply (drained_response rid client_id q error))
     @ when_waiting (rid \<in> dsp_mcp_waiters st) rid (McpReply (mcp_error
         (if rq_dispatched q then McpOutcomeUnknown else McpNotStarted) (lit ''runner_unavailable'')
         (if rq_dispatched q then lit ''Runner transport failed after dispatch; downstream outcome is unknown and the call must not be retried automatically''
          else lit ''Runner transport failed before dispatch; provider request was not started'')))
     @ when_waiting (rid \<in> dsp_plugin_waiters st) rid (PluginReply (plugin_error
         (if rq_dispatched q then PluginOutcomeUnknown else PluginNotStarted) (lit ''runner_unavailable'')
         (if rq_dispatched q then lit ''Runner transport failed after Plugin dispatch; downstream outcome is unknown and the call must not be retried automatically''
          else lit ''Runner transport failed before Plugin dispatch; request was not started'')))
     @ when_waiting (rid \<in> dsp_coding_waiters st) rid (CodingReply (response_error
         (if rq_dispatched q then DispatchOutcomeUnknown else DispatchNotStarted) (lit ''runner_unavailable'')
         (if rq_dispatched q then lit ''Runner transport failed after CodingAgentRun dispatch; reconcile the same run_id before any new initiation''
          else lit ''Runner transport failed before CodingAgentRun dispatch; request was not started'')
         (Some (lit ''unavailable'')) (Some (lit ''reobserve''))))"

definition drain_request :: "rstr \<Rightarrow> rstr \<Rightarrow> rstr \<Rightarrow> DispatchState \<times> replies \<Rightarrow> DispatchState \<times> replies" where
  "drain_request client_id error rid state =
     (let (st, sent) = state in
      case pending_request st rid of
        None \<Rightarrow> state
      | Some (p, q) \<Rightarrow> (forget_waiters rid (on_inner (remove_from_queue client_id rid) (remove_pending rid st)),
          sent @ drained_replies client_id error rid q st))"

definition drain_disconnected :: "ReconcileEnv \<Rightarrow> rstr \<Rightarrow> rstr \<Rightarrow> DispatchState \<Rightarrow> DispatchState \<times> replies" where
  "drain_disconnected env client_id error st =
     fold (drain_request client_id error)
       (filter (\<lambda>rid. opt_ex (\<lambda>p. pend_job_id p = None \<and> pend_client_id p = client_id) (reg_pending_by_id (dsp_inner st) rid))
         (env_pending_order env (reg_pending_by_id (dsp_inner st)))) (st, [])"

end
