(* ===== verification/Request_Delivery.thy ===== *)
theory Request_Delivery
  imports Runner_Dispatch
begin

text \<open>
  What callers can rely on when their requests go through a Runner: a poll hands out the first request whose fences still
  hold, a request that is refused is answered as not started, a result is taken at most once, and the drain of a
  disconnected Runner does to the registry what the shared drain does.
\<close>

section \<open>Reading a request\<close>

lemma inner_on_inner [simp]: "dsp_inner (on_inner f st) = f (dsp_inner st)"
  by (simp add: on_inner_def)

lemma details_on_inner [simp]: "rg_details (dsp_registry (on_inner f st)) = rg_details (dsp_registry st)"
  by (simp add: on_inner_def)

lemma fields_on_inner [simp]:
  "dsp_requests (on_inner f st) = dsp_requests st" "dsp_mcp_waiters (on_inner f st) = dsp_mcp_waiters st"
  "dsp_plugin_waiters (on_inner f st) = dsp_plugin_waiters st" "dsp_plugin_fences (on_inner f st) = dsp_plugin_fences st"
  "dsp_coding_waiters (on_inner f st) = dsp_coding_waiters st" "dsp_coding_fences (on_inner f st) = dsp_coding_fences st"
  by (simp_all add: on_inner_def)

lemma pending_removed:
  "pending_request (remove_pending rid st) x = (if x = rid then None else pending_request st x)"
  by (simp add: pending_request_def remove_pending_def take_pending_request_locked_def)

named_theorems request_effects \<open>what the operations do to the requests and the fences\<close>

lemma existing_on_inner:
  "(\<And>i. reg_runners (f i) = reg_runners i) \<Longrightarrow> existing_runner (dsp_registry (on_inner f st)) k = existing_runner (dsp_registry st) k"
  by (simp add: existing_runner_def)

lemma existing_drops [request_effects]:
  "existing_runner (dsp_registry (remove_pending rid st)) k = existing_runner (dsp_registry st) k"
  "existing_runner (dsp_registry (drop_persistent_waiter rid st)) k = existing_runner (dsp_registry st) k"
  "existing_runner (dsp_registry (set_queue c queue st)) k = existing_runner (dsp_registry st) k"
  by (simp_all add: existing_runner_def remove_pending_def drop_persistent_waiter_def set_queue_def take_pending_request_locked_def)

lemma registry_drops [request_effects]:
  "dsp_registry (drop_mcp_waiter rid st) = dsp_registry st"
  "dsp_registry (drop_plugin_waiter rid st) = dsp_registry st" "dsp_registry (drop_coding_waiter rid st) = dsp_registry st"
  by (simp_all add: drop_mcp_waiter_def drop_plugin_waiter_def drop_coding_waiter_def)

lemma pending_drops [request_effects]:
  "pending_request (drop_persistent_waiter rid st) x = pending_request st x"
  "pending_request (drop_mcp_waiter rid st) x = pending_request st x"
  "pending_request (drop_plugin_waiter rid st) x = pending_request st x"
  "pending_request (drop_coding_waiter rid st) x = pending_request st x"
  "pending_request (set_queue c queue st) x = pending_request st x"
  by (simp_all add: pending_request_def drop_persistent_waiter_def drop_mcp_waiter_def drop_plugin_waiter_def
    drop_coding_waiter_def set_queue_def)

lemma fences_drops [request_effects]:
  "dsp_plugin_fences (remove_pending rid st) = dsp_plugin_fences st" "dsp_coding_fences (remove_pending rid st) = dsp_coding_fences st"
  "dsp_plugin_fences (drop_persistent_waiter rid st) = dsp_plugin_fences st"
  "dsp_coding_fences (drop_persistent_waiter rid st) = dsp_coding_fences st"
  "dsp_plugin_fences (drop_mcp_waiter rid st) = dsp_plugin_fences st" "dsp_coding_fences (drop_mcp_waiter rid st) = dsp_coding_fences st"
  "dsp_plugin_fences (drop_plugin_waiter rid st) = (dsp_plugin_fences st)(rid := None)"
  "dsp_coding_fences (drop_plugin_waiter rid st) = dsp_coding_fences st"
  "dsp_plugin_fences (drop_coding_waiter rid st) = dsp_plugin_fences st"
  "dsp_coding_fences (drop_coding_waiter rid st) = (dsp_coding_fences st)(rid := None)"
  "dsp_plugin_fences (set_queue c queue st) = dsp_plugin_fences st" "dsp_coding_fences (set_queue c queue st) = dsp_coding_fences st"
  by (simp_all add: remove_pending_def drop_persistent_waiter_def drop_mcp_waiter_def drop_plugin_waiter_def
    drop_coding_waiter_def set_queue_def)

lemma queues_drops [request_effects]:
  "reg_queues_by_runner (dsp_inner (remove_pending rid st)) = reg_queues_by_runner (dsp_inner st)"
  "reg_queues_by_runner (dsp_inner (drop_persistent_waiter rid st)) = reg_queues_by_runner (dsp_inner st)"
  "reg_queues_by_runner (dsp_inner (set_queue c queue st)) = (reg_queues_by_runner (dsp_inner st))(c \<mapsto> queue)"
  by (simp_all add: remove_pending_def drop_persistent_waiter_def set_queue_def take_pending_request_locked_def)

section \<open>Requests that can be handed out\<close>

definition deliverable :: "DispatchState \<Rightarrow> rstr \<Rightarrow> rstr \<Rightarrow> bool" where
  "deliverable st k rid = opt_ex (\<lambda>(p, q). stale_request st k rid q = None) (pending_request st rid)"

text \<open>The part of the state that decides about one request.\<close>

definition request_view where
  "request_view st k rid = (existing_runner (dsp_registry st) k, pending_request st rid, dsp_plugin_fences st rid, dsp_coding_fences st rid)"

lemma stale_same:
  assumes "request_view st k rid = request_view st' k rid"
  shows "stale_request st k rid q = stale_request st' k rid q"
proof -
  have e: "existing_runner (dsp_registry st) k = existing_runner (dsp_registry st') k" and
    f: "dsp_plugin_fences st rid = dsp_plugin_fences st' rid" "dsp_coding_fences st rid = dsp_coding_fences st' rid"
    using assms by (simp_all add: request_view_def)
  show ?thesis
    unfolding stale_request_def Let_def stale_runner_config_error_def stale_ssh_resource_error_def stale_bridge_error_def
      stale_plugin_error_def stale_skill_store_error_def stale_coding_agent_error_def stale_project_error_def exact_runner_error_def e f
    by (rule refl)
qed

lemma deliverable_same: "request_view st k rid = request_view st' k rid \<Longrightarrow> deliverable st k rid = deliverable st' k rid"
proof -
  assume v: "request_view st k rid = request_view st' k rid"
  then have "pending_request st rid = pending_request st' rid" by (simp add: request_view_def)
  with stale_same [OF v] show ?thesis by (simp add: deliverable_def)
qed

lemma refuse_state:
  assumes "refuse k rid q r st = (st', sent)"
  shows "x \<noteq> rid \<Longrightarrow> request_view st' k x = request_view st k x" "pending_request st' rid = None"
    "reg_queues_by_runner (dsp_inner st') = reg_queues_by_runner (dsp_inner st)"
  using assms by (cases r; auto simp: request_view_def request_effects pending_removed)+

lemma view_set_queue: "request_view (set_queue c queue st) k x = request_view st k x"
  by (simp add: request_view_def request_effects)

lemma existing_seen:
  "existing_runner (dsp_registry (see_runner now k st)) k =
     map_option (\<lambda>(r, d). (r\<lparr>runner_last_seen := now\<rparr>, d)) (existing_runner (dsp_registry st) k)"
  by (simp add: existing_runner_def see_runner_def note_seen_def split: option.split)

lemma seen_fields [request_effects]:
  "dsp_requests (see_runner now k st) = dsp_requests st" "dsp_plugin_fences (see_runner now k st) = dsp_plugin_fences st"
  "dsp_coding_fences (see_runner now k st) = dsp_coding_fences st" "dsp_mcp_waiters (see_runner now k st) = dsp_mcp_waiters st"
  "dsp_plugin_waiters (see_runner now k st) = dsp_plugin_waiters st" "dsp_coding_waiters (see_runner now k st) = dsp_coding_waiters st"
  "pending_request (see_runner now k st) x = pending_request st x"
  "reg_queues_by_runner (dsp_inner (see_runner now k st)) = reg_queues_by_runner (dsp_inner st)"
  "reg_jobs_by_id (dsp_inner (see_runner now k st)) = reg_jobs_by_id (dsp_inner st)"
  by (simp_all add: see_runner_def note_seen_def pending_request_def)

lemma exact_runner_seen:
  "exact_runner_error (dsp_registry (see_runner now k st)) k expected a b f c = exact_runner_error (dsp_registry st) k expected a b f c"
  by (simp add: exact_runner_error_def existing_seen split: option.split)

lemma existing_case_seen:
  "(case existing_runner (dsp_registry (see_runner now k st)) k of None \<Rightarrow> a | Some (r, d) \<Rightarrow> f r d) =
     (case existing_runner (dsp_registry st) k of None \<Rightarrow> a | Some (r, d) \<Rightarrow> f (r\<lparr>runner_last_seen := now\<rparr>) d)"
  by (simp add: existing_seen split: option.split)

lemma seen_record:
  "runner_instance_id (r\<lparr>runner_last_seen := now\<rparr>) = runner_instance_id r" "runner_owner (r\<lparr>runner_last_seen := now\<rparr>) = runner_owner r"
  by simp_all

lemma stale_seen: "stale_request (see_runner now k st) k x q = stale_request st k x q"
proof -
  have "stale_runner_config_error (dsp_registry (see_runner now k st)) k q = stale_runner_config_error (dsp_registry st) k q"
    "stale_ssh_resource_error (dsp_registry (see_runner now k st)) k q = stale_ssh_resource_error (dsp_registry st) k q"
    "stale_skill_store_error (dsp_registry (see_runner now k st)) k q = stale_skill_store_error (dsp_registry st) k q"
    "stale_plugin_error (dsp_registry (see_runner now k st)) k pf q = stale_plugin_error (dsp_registry st) k pf q" for pf
    by (simp_all only: stale_runner_config_error_def stale_ssh_resource_error_def stale_skill_store_error_def stale_plugin_error_def
      exact_runner_seen)
  moreover have "stale_bridge_error (dsp_registry (see_runner now k st)) k q = stale_bridge_error (dsp_registry st) k q"
    "stale_coding_agent_error (dsp_registry (see_runner now k st)) k cf q = stale_coding_agent_error (dsp_registry st) k cf q"
    "stale_project_error (dsp_registry (see_runner now k st)) k q = stale_project_error (dsp_registry st) k q" for cf
    by (simp_all only: stale_bridge_error_def stale_coding_agent_error_def stale_project_error_def existing_case_seen seen_record)
  ultimately show ?thesis by (simp only: stale_request_def Let_def request_effects)
qed

lemma deliverable_seen: "deliverable (see_runner now k st) k rid = deliverable st k rid"
  by (simp add: deliverable_def stale_seen request_effects)

section \<open>Polling\<close>

lemma refused_not_deliverable: "pending_request st rid = Some (p, q) \<Longrightarrow> stale_request st k rid q = Some r \<Longrightarrow> \<not> deliverable st k rid"
  by (simp add: deliverable_def)

lemma deliverable_refused:
  assumes "refuse k rid q r st = (st', sent)" "\<not> deliverable st k rid"
  shows "deliverable st' k x = deliverable st k x"
proof (cases "x = rid")
  case True
  with assms(2) refuse_state(2) [OF assms(1)] show ?thesis by (simp add: deliverable_def)
qed (rule deliverable_same [OF refuse_state(1) [OF assms(1)]])

text \<open>What the loop finds: the first request of the queue that can be handed out.\<close>

definition first_deliverable where
  "first_deliverable st k queue result rest \<longleftrightarrow>
     (case result of
        None \<Rightarrow> list_all (\<lambda>rid. \<not> deliverable st k rid) queue \<and> rest = []
      | Some (rid, op) \<Rightarrow> (\<exists>skipped p q. queue = skipped @ rid # rest \<and> list_all (\<lambda>x. \<not> deliverable st k x) skipped
          \<and> deliverable st k rid \<and> pending_request st rid = Some (p, q) \<and> op = rq_operation q))"

lemma first_deliverable_skip:
  assumes "first_deliverable st' k queue result rest" "\<And>x. deliverable st' k x = deliverable st k x" "\<not> deliverable st k rid"
    "\<And>x. deliverable st k x \<Longrightarrow> pending_request st' x = pending_request st x"
  shows "first_deliverable st k (rid # queue) result rest"
proof (cases result)
  case None
  with assms(1-3) show ?thesis by (simp add: first_deliverable_def)
next
  case (Some ro)
  obtain x op where ro: "ro = (x, op)" by (cases ro)
  from assms(1) Some ro obtain skipped p q where "queue = skipped @ x # rest" "list_all (\<lambda>y. \<not> deliverable st k y) skipped"
    "deliverable st k x" "pending_request st' x = Some (p, q)" "op = rq_operation q"
    by (auto simp: first_deliverable_def assms(2))
  moreover from this(1) have "rid # queue = (rid # skipped) @ x # rest" by simp
  ultimately show ?thesis unfolding first_deliverable_def Some ro option.case prod.case
    using assms(3,4) by (metis list.pred_inject(2))
qed

lemma queue_hand_out [request_effects]:
  "reg_queues_by_runner (dsp_inner (hand_out now rid p q st)) = reg_queues_by_runner (dsp_inner st)"
  by (simp add: hand_out_def Let_def mark_dispatched_def remove_pending_def take_pending_request_locked_def accept_job_def put_job_def
    split: option.split)

lemma poll_loop_first:
  assumes "poll_loop now k queue st = (result, st', sent)" "reg_queues_by_runner (dsp_inner st) k = Some queue"
  shows "\<exists>rest. first_deliverable st k queue result rest \<and> reg_queues_by_runner (dsp_inner st') k = Some rest"
  using assms
proof (induction queue arbitrary: st sent)
  case Nil
  then show ?case by (auto simp: first_deliverable_def)
next
  case (Cons rid queue)
  let ?st = "set_queue k queue st"
  have view: "request_view ?st k x = request_view st k x" for x by (rule view_set_queue)
  note same = deliverable_same [OF view]
  have pend: "pending_request ?st x = pending_request st x" for x by (simp add: request_effects)
  have q: "reg_queues_by_runner (dsp_inner ?st) k = Some queue" by (simp add: request_effects)
  show ?case
  proof (cases "pending_request st rid")
    case None
    then have "poll_loop now k queue ?st = (result, st', sent)" using Cons.prems(1) by (simp add: pend)
    from Cons.IH [OF this q] obtain rest where r: "first_deliverable ?st k queue result rest"
      "reg_queues_by_runner (dsp_inner st') k = Some rest" by blast
    have "\<not> deliverable st k rid" using None by (simp add: deliverable_def)
    from first_deliverable_skip [OF r(1) same this pend] r(2) show ?thesis by blast
  next
    case (Some pq)
    obtain p q where pq: "pq = (p, q)" by (cases pq)
    note some = Some [unfolded pq]
    show ?thesis
    proof (cases "stale_request ?st k rid q")
      case None
      then have "result = Some (rid, rq_operation q)" "st' = hand_out now rid p q ?st"
        using Cons.prems(1) by (simp_all add: pend some)
      moreover have "deliverable st k rid" using None some same [of rid] by (simp add: deliverable_def pend)
      ultimately show ?thesis using some q by (auto simp: first_deliverable_def request_effects intro!: exI [of _ "[]"])
    next
      case (Some r)
      obtain st1 sent1 where f: "refuse k rid q r ?st = (st1, sent1 :: replies)" by (cases "refuse k rid q r ?st :: _ \<times> replies")
      then obtain sent2 :: "replies" where l: "poll_loop now k queue st1 = (result, st', sent2)"
        using Cons.prems(1) Some by (auto simp: pend some split: prod.splits)
      have nd: "\<not> deliverable ?st k rid" using refused_not_deliverable [of ?st rid p q k r] Some by (simp add: pend some)
      have "reg_queues_by_runner (dsp_inner st1) k = Some queue" using refuse_state(3) [OF f] q by simp
      from Cons.IH [OF l this] obtain rest where r: "first_deliverable st1 k queue result rest"
        "reg_queues_by_runner (dsp_inner st') k = Some rest" by blast
      have d: "deliverable st1 k x = deliverable st k x" for x using deliverable_refused [OF f nd] same by simp
      have "pending_request st1 x = pending_request st x" if "deliverable st k x" for x
        using refuse_state(1) [OF f, of x] nd that same by (cases "x = rid") (auto simp: request_view_def pend)
      from first_deliverable_skip [OF r(1) d _ this] nd same r(2) show ?thesis by blast
    qed
  qed
qed


section \<open>Answers\<close>

fun reply_channel :: "reply \<Rightarrow> channel option" where
  "reply_channel (ShellReply r) = Some ShellChannel"
| "reply_channel (McpReply r) = Some McpChannel"
| "reply_channel (PluginReply r) = Some PluginChannel"
| "reply_channel (CodingReply r) = Some CodingChannel"
| "reply_channel (PersistentReply r) = None"

fun says_not_started :: "reply \<Rightarrow> bool" where
  "says_not_started (ShellReply r) \<longleftrightarrow> \<not> srr_success r \<and> srr_request_dispatched r = Some False \<and> srr_command_execution_state r = Some NotStarted"
| "says_not_started (McpReply r) \<longleftrightarrow> mres_dispatch_state r = McpNotStarted \<and> mres_payload r = None"
| "says_not_started (PluginReply r) \<longleftrightarrow> pres_dispatch_state r = PluginNotStarted \<and> pres_payload r = None"
| "says_not_started (CodingReply r) \<longleftrightarrow> cres_dispatch_state r = DispatchNotStarted \<and> cres_payload r = None"
| "says_not_started (PersistentReply r) \<longleftrightarrow> False"

definition waits :: "DispatchState \<Rightarrow> rstr \<Rightarrow> RequestDetails \<Rightarrow> channel \<Rightarrow> bool" where
  "waits st rid q ch = (case ch of ShellChannel \<Rightarrow> rq_waiter q | McpChannel \<Rightarrow> rid \<in> dsp_mcp_waiters st
     | PluginChannel \<Rightarrow> rid \<in> dsp_plugin_waiters st | CodingChannel \<Rightarrow> rid \<in> dsp_coding_waiters st)"

text \<open>How the entry points enqueue: a gateway or coding-agent request is awaited on its own channel, every other one on the
  shell channel, and a fence belongs to the operation it is made for.\<close>

definition request_channel :: "RunnerOperation \<Rightarrow> channel" where
  "request_channel op = (case op of Op_McpGateway _ \<Rightarrow> McpChannel | Op_PluginGateway _ \<Rightarrow> PluginChannel
     | Op_CodingAgent _ \<Rightarrow> CodingChannel | _ \<Rightarrow> ShellChannel)"

definition request_ok :: "DispatchState \<Rightarrow> rstr \<Rightarrow> RequestDetails \<Rightarrow> bool" where
  "request_ok st rid q \<longleftrightarrow>
     (\<forall>ch \<in> {ShellChannel, McpChannel, PluginChannel, CodingChannel}. waits st rid q ch \<longrightarrow> ch = request_channel (rq_operation q))
     \<and> (request_channel (rq_operation q) \<noteq> ShellChannel \<longrightarrow> rq_expected_config_runner q = None \<and> rq_expected_ssh_runner q = None
          \<and> rq_skill_store_fence q = None \<and> rq_expected_project_id q = None \<and> rq_expected_project_cwd q = None)
     \<and> (rq_expected_mcp_runner q \<noteq> None \<or> rq_expected_mcp_provider q \<noteq> None \<or> rq_expected_mcp_provider_instance q \<noteq> None \<longrightarrow>
          request_channel (rq_operation q) = McpChannel)"

lemma refuse_sends: "refuse k rid q r st = (st', sent) \<Longrightarrow> (x, reply) \<in> set sent \<Longrightarrow> x = rid \<and> says_not_started reply"
  by (cases r) (auto simp: when_waiting_def refusal_response_def mcp_error_def plugin_error_def response_error_def split: if_splits)

text \<open>Which operations a refusal can be for.\<close>

lemma stale_request_kind:
  assumes "stale_request st k rid q = Some r" "request_ok st rid q"
  shows "request_channel (rq_operation q) = (case r of RefuseBridge _ _ \<Rightarrow> McpChannel | RefusePlugin _ _ \<Rightarrow> PluginChannel
    | RefuseCoding _ _ \<Rightarrow> CodingChannel | _ \<Rightarrow> ShellChannel)"
proof -
  have f: "request_channel (rq_operation q) \<noteq> ShellChannel \<Longrightarrow> rq_expected_config_runner q = None \<and> rq_expected_ssh_runner q = None
      \<and> rq_skill_store_fence q = None \<and> rq_expected_project_id q = None \<and> rq_expected_project_cwd q = None"
    and m: "rq_expected_mcp_runner q \<noteq> None \<or> rq_expected_mcp_provider q \<noteq> None \<or> rq_expected_mcp_provider_instance q \<noteq> None \<Longrightarrow>
      request_channel (rq_operation q) = McpChannel"
    using assms(2) unfolding request_ok_def by blast+
  have config: "request_channel (rq_operation q) = ShellChannel" if "stale_runner_config_error reg k q \<noteq> None" for reg
    using that f by (cases "rq_operation q") (auto simp: stale_runner_config_error_def request_channel_def)
  have ssh: "request_channel (rq_operation q) = ShellChannel" if "stale_ssh_resource_error reg k q \<noteq> None" for reg
    using that f by (cases "rq_operation q") (auto simp: stale_ssh_resource_error_def request_channel_def)
  have bridge: "request_channel (rq_operation q) = McpChannel" if "stale_bridge_error reg k q \<noteq> None" for reg
    using that m by (cases "rq_operation q") (auto simp: stale_bridge_error_def request_channel_def split: option.splits)
  have plugin: "request_channel (rq_operation q) = PluginChannel" if "stale_plugin_error reg k fo q \<noteq> None" for reg fo
    using that by (auto simp: stale_plugin_error_def request_channel_def split: RunnerOperation.splits)
  have coding: "request_channel (rq_operation q) = CodingChannel" if "stale_coding_agent_error reg k fo q \<noteq> None" for reg fo
    using that by (auto simp: stale_coding_agent_error_def request_channel_def split: RunnerOperation.splits)
  have skill: "request_channel (rq_operation q) = ShellChannel" if "stale_skill_store_error reg k q \<noteq> None" for reg
    using that f by (cases "rq_operation q") (auto simp: stale_skill_store_error_def request_channel_def Let_def)
  have project: "request_channel (rq_operation q) = ShellChannel" if "stale_project_error reg k q \<noteq> None" for reg
    using that f by (cases "request_channel (rq_operation q) = ShellChannel") (simp_all add: stale_project_error_def)
  show ?thesis
    using assms(1) config [of "dsp_registry st"] ssh [of "dsp_registry st"] bridge [of "dsp_registry st"]
      plugin [of "dsp_registry st" "dsp_plugin_fences st rid"] skill [of "dsp_registry st"]
      coding [of "dsp_registry st" "dsp_coding_fences st rid"] project [of "dsp_registry st"]
    unfolding stale_request_def Let_def by (auto split: option.splits)
qed

lemma waits_own_channel: "request_ok st rid q \<Longrightarrow> waits st rid q ch \<Longrightarrow> ch = request_channel (rq_operation q)"
  unfolding request_ok_def by (cases ch) auto

lemma refuse_answers:
  assumes "refuse k rid q r st = (st', sent)" "stale_request st k rid q = Some r" "request_ok st rid q" "waits st rid q ch"
  shows "\<exists>reply. (rid, reply) \<in> set sent \<and> reply_channel reply = Some ch"
proof -
  have "ch = (case r of RefuseBridge _ _ \<Rightarrow> McpChannel | RefusePlugin _ _ \<Rightarrow> PluginChannel | RefuseCoding _ _ \<Rightarrow> CodingChannel | _ \<Rightarrow> ShellChannel)"
    using stale_request_kind [OF assms(2,3)] waits_own_channel [OF assms(3,4)] by simp
  with assms(1,4) have "Some ch \<in> set (map (reply_channel \<circ> snd) sent)" by (cases r) (auto simp: waits_def when_waiting_def)
  then obtain x reply where "(x, reply) \<in> set sent" "reply_channel reply = Some ch" by auto
  with refuse_sends [OF assms(1)] show ?thesis by blast
qed

lemma waits_refused:
  assumes "refuse k rid q r st = (st', sent)" "x \<noteq> rid"
  shows "waits st' x qx ch = waits st x qx ch"
  using assms
  by (cases r; cases ch; auto simp: waits_def remove_pending_def drop_persistent_waiter_def drop_mcp_waiter_def drop_plugin_waiter_def drop_coding_waiter_def)

lemma waits_set_queue: "waits (set_queue c queue st) x q ch = waits st x q ch"
  by (cases ch) (simp_all add: waits_def set_queue_def)

lemma waits_seen: "waits (see_runner now k st) x q ch = waits st x q ch"
  by (cases ch) (simp_all add: waits_def request_effects)

definition requests_ok :: "DispatchState \<Rightarrow> bool" where
  "requests_ok st \<longleftrightarrow> (\<forall>rid p q. pending_request st rid = Some (p, q) \<longrightarrow> request_ok st rid q)"

lemma request_ok_waits: "(\<And>ch. waits st' x q ch = waits st x q ch) \<Longrightarrow> request_ok st' x q = request_ok st x q"
  by (simp add: request_ok_def)

lemma requests_ok_refused:
  assumes "refuse k rid q r st = (st', sent)" "requests_ok st"
  shows "requests_ok st'"
  unfolding requests_ok_def
proof (intro allI impI)
  fix x p' q' assume "pending_request st' x = Some (p', q')"
  note px = this
  then have x1: "x \<noteq> rid" using refuse_state(2) [OF assms(1)] by auto
  then have "pending_request st x = Some (p', q')" using px refuse_state(1) [OF assms(1) x1] by (simp add: request_view_def)
  note x = x1 this
  from request_ok_waits [OF waits_refused [OF assms(1) x(1)]] x(2) assms(2) show "request_ok st' x q'" by (simp add: requests_ok_def)
qed

text \<open>A request that was pending, is not any more and was not handed out has been answered on the channel that waits.\<close>

definition all_answered where
  "all_answered st st' result sent \<longleftrightarrow>
     (\<forall>rid p q ch. pending_request st rid = Some (p, q) \<and> pending_request st' rid = None \<and> map_option fst result \<noteq> Some rid
        \<and> waits st rid q ch \<longrightarrow> (\<exists>reply. (rid, reply) \<in> set sent \<and> reply_channel reply = Some ch))"

lemma pending_hand_out: "x \<noteq> rid \<Longrightarrow> pending_request (hand_out now rid p q st) x = pending_request st x"
proof -
  assume x: "x \<noteq> rid"
  have m: "pending_request (mark_dispatched rid st) x = pending_request st x"
    using x by (simp add: mark_dispatched_def pending_request_def)
  have "reg_pending_by_id (accept_job now jid i) = reg_pending_by_id i" for jid i
    by (simp add: accept_job_def put_job_def split: option.split)
  then have "pending_request (on_inner (accept_job now jid) st1) x = pending_request st1 x" for jid st1
    by (simp add: pending_request_def)
  with x m show ?thesis by (simp add: hand_out_def Let_def pending_removed split: option.split)
qed

lemma poll_loop_answers:
  assumes "poll_loop now k queue st = (result, st', sent)" "requests_ok st"
  shows "all_answered st st' result sent \<and> list_all (says_not_started \<circ> snd) sent"
  using assms
proof (induction queue arbitrary: st sent)
  case Nil
  then show ?case by (auto simp: all_answered_def)
next
  case (Cons rid queue)
  let ?st = "set_queue k queue st"
  have pend: "pending_request ?st x = pending_request st x" for x by (simp add: request_effects)
  have w: "waits ?st x qx ch = waits st x qx ch" for x qx ch by (rule waits_set_queue)
  have ok: "requests_ok ?st" using Cons.prems(2) by (simp add: requests_ok_def pend request_ok_waits [OF w])
  have answered: "all_answered ?st = all_answered st" by (intro ext) (simp add: all_answered_def pend w)
  show ?case
  proof (cases "pending_request st rid")
    case None
    then have "poll_loop now k queue ?st = (result, st', sent)" using Cons.prems(1) by (simp add: pend)
    from Cons.IH [OF this ok] show ?thesis by (simp add: answered)
  next
    case (Some pq)
    obtain p q where pq: "pq = (p, q)" by (cases pq)
    note some = Some [unfolded pq]
    show ?thesis
    proof (cases "stale_request ?st k rid q")
      case None
      then have "result = Some (rid, rq_operation q)" "st' = hand_out now rid p q ?st" "sent = []"
        using Cons.prems(1) by (simp_all add: pend some)
      then show ?thesis using pending_hand_out [of _ rid now p q ?st] by (auto simp: all_answered_def pend)
    next
      case (Some r)
      obtain st1 sent1 where f: "refuse k rid q r ?st = (st1, sent1 :: replies)" by (cases "refuse k rid q r ?st :: _ \<times> replies")
      then obtain sent2 :: "replies" where l: "poll_loop now k queue st1 = (result, st', sent2)" "sent = sent1 @ sent2"
        using Cons.prems(1) Some by (auto simp: pend some split: prod.splits)
      note ih = Cons.IH [OF l(1) requests_ok_refused [OF f ok]]
      have okq: "request_ok ?st rid q" using ok some by (simp add: requests_ok_def pend)
      have "\<exists>reply. (x, reply) \<in> set sent \<and> reply_channel reply = Some ch"
        if x: "pending_request st x = Some (p', q')" "pending_request st' x = None" "map_option fst result \<noteq> Some x" "waits st x q' ch" for x p' q' ch
      proof (cases "x = rid")
        case True
        with x(1) some have "q' = q" by simp
        with x(4) True refuse_answers [OF f Some okq, of ch] l(2) show ?thesis by (auto simp: w)
      next
        case False
        have "pending_request st1 x = Some (p', q')" using refuse_state(1) [OF f False] x(1) by (simp add: request_view_def pend)
        moreover have "waits st1 x q' ch" using waits_refused [OF f False] x(4) by (simp add: w)
        ultimately show ?thesis using ih x(2,3) l(2) unfolding all_answered_def by fastforce
      qed
      moreover have "list_all (says_not_started \<circ> snd) sent1" using refuse_sends [OF f] by (auto simp: list_all_iff)
      ultimately show ?thesis using ih l(2) unfolding all_answered_def by (auto simp: list_all_iff)
    qed
  qed
qed


section \<open>Results\<close>

lemma retain_total: "\<exists>kept. retain_result_stream_to v n = Some kept"
  using retain_result_stream_bounded [of _ n] by (cases v) (simp add: retain_result_stream_to_def, blast)

lemma replace_total: "\<exists>log'. replace_log_limited log v = Some log'"
proof (cases v)
  case (Some t)
  obtain kept where "retain_live_job_stream (Some t) = Some kept" using retain_total by (auto simp: retain_live_job_stream_def)
  then show ?thesis by (simp add: replace_log_limited_def Some)
qed (simp add: replace_log_limited_def)

lemma ordinary_response_total: "\<exists>r. ordinary_response p q payload = Some r"
proof -
  obtain a where a: "retain_result_stream_to (res_stdout (pay_result payload)) MAX_MCP_IMAGE_RESPONSE_BYTES = Some a" using retain_total by blast
  obtain b where b: "retain_ordinary_result_stream (res_stdout (pay_result payload)) = Some b"
    using retain_total by (auto simp: retain_ordinary_result_stream_def)
  obtain c where c: "retain_ordinary_result_stream (res_stderr (pay_result payload)) = Some c"
    using retain_total by (auto simp: retain_ordinary_result_stream_def)
  show ?thesis by (simp add: ordinary_response_def Let_def a b c)
qed

lemma finished_job_total: "\<exists>jc. finished_job now success body job cands = Some jc"
proof -
  let ?j = "observe_job_terminal (job\<lparr>job_lifecycle := (if success then Completed else Failed)\<rparr>) now"
  obtain out err where "replace_log_limited (job_stdout ?j) (res_stdout body) = Some out" "replace_log_limited (job_stderr ?j) (res_stderr body) = Some err"
    using replace_total by blast
  then show ?thesis unfolding finished_job_def Let_def by simp
qed

lemma finished_lifecycle:
  "finished_job now success body job cands = Some jc \<Longrightarrow> job_lifecycle (fst jc) = (if success then Completed else Failed)"
  by (auto simp: finished_job_def Let_def notify_job_update_def observe_job_terminal_def split: option.splits)

lemma finish_ordinary_total:
  "\<exists>st' sent. finish_ordinary now p q payload st = Some (st', sent) \<and> dsp_requests st' = dsp_requests st
     \<and> reg_pending_by_id (dsp_inner st') = reg_pending_by_id (dsp_inner st)
     \<and> length sent \<le> 1 \<and> fst ` set sent \<subseteq> {res_request_id (pay_result payload)}"
proof -
  obtain r where r: "ordinary_response p q payload = Some r" using ordinary_response_total by blast
  have h: "\<exists>inner. finish_result_job now b body jid (dsp_inner st) = Some inner \<and> reg_pending_by_id inner = reg_pending_by_id (dsp_inner st)" for b body jid
    using finished_job_total [of now b body] by (fastforce simp: finish_result_job_def Let_def forget_request_def put_job_def split: option.splits)
  obtain inner where "(case pend_job_id p of None \<Rightarrow> Some (dsp_inner st)
      | Some jid \<Rightarrow> finish_result_job now (ordinary_success payload) (pay_result payload) jid (dsp_inner st)) = Some inner"
    "reg_pending_by_id inner = reg_pending_by_id (dsp_inner st)"
    using h [of "ordinary_success payload" "pay_result payload" "the (pend_job_id p)"] by (cases "pend_job_id p") auto
  then show ?thesis unfolding finish_ordinary_def r option.case by (auto simp: when_waiting_def)
qed

lemma take_result_total:
  "\<exists>st' sent. take_result ser pser now p q payload st = Some (st', sent)
     \<and> (\<forall>x. pending_request st' x = (if x = res_request_id (pay_result payload) then None else pending_request st x))
     \<and> length sent \<le> 1 \<and> fst ` set sent \<subseteq> {res_request_id (pay_result payload)}"
proof -
  let ?rid = "res_request_id (pay_result payload)"
  let ?st = "remove_pending ?rid st"
  obtain st1 sent1 where o: "finish_ordinary now p q payload ?st = Some (st1, sent1)" "dsp_requests st1 = dsp_requests ?st"
     "reg_pending_by_id (dsp_inner st1) = reg_pending_by_id (dsp_inner ?st)" "length sent1 \<le> 1" "fst ` set sent1 \<subseteq> {?rid}"
    using finish_ordinary_total [of now p q payload ?st] by blast
  have "pending_request st1 x = pending_request ?st x" for x using o(2,3) by (simp add: pending_request_def)
  with o show ?thesis
    by (cases "rq_operation q") (auto simp: take_result_def Let_def pending_removed request_effects when_waiting_def)
qed

lemma liveness_cases: "refresh_liveness now k c st = st \<or> refresh_liveness now k c st = see_runner now k st"
  by (simp add: refresh_liveness_def)

lemma pending_liveness: "pending_request (refresh_liveness now k c st) x = pending_request st x"
  using liveness_cases [of now k c st] by (auto simp: request_effects)

text \<open>C9: A result is taken at most once, by the process that holds the lease, and never panics. A result that is refused
  sends nothing and changes at most when the Runner was last seen. One that is accepted answered a pending request of
  that Runner: it is not pending afterwards, no other request is touched, and at most one reply is sent, to the caller
  of that request; so a second result for the same request is refused.\<close>

theorem results_are_taken_once:
  "case complete_checked ser pser now terminal_now payload c st of
     None \<Rightarrow> False
   | Some (Inl e, st', sent) \<Rightarrow> sent = [] \<and> st' \<in> {st, see_runner now (res_client_id (pay_result payload)) st}
   | Some (Inr _, st', sent) \<Rightarrow>
       assert_active_instance_locked (dsp_inner st) (res_client_id (pay_result payload)) (res_runner_instance_id (pay_result payload)) = Inr ()
       \<and> opt_ex (\<lambda>(p, q). pend_client_id p = res_client_id (pay_result payload)) (pending_request st (res_request_id (pay_result payload)))
       \<and> pending_request st' = (pending_request st)(res_request_id (pay_result payload) := None)
       \<and> length sent \<le> 1 \<and> fst ` set sent \<subseteq> {res_request_id (pay_result payload)}"
proof -
  let ?b = "pay_result payload"
  let ?st = "refresh_liveness now (res_client_id ?b) c st"
  have st: "?st \<in> {st, see_runner now (res_client_id ?b) st}" using liveness_cases by simp
  let ?v = "and_then (validate_id (res_client_id ?b) (lit ''client_id'')) (and_then (validate_id (res_request_id ?b) (lit ''request_id''))
      (and_then (validate_runner_instance_id (res_runner_instance_id ?b))
        (assert_active_instance_locked (dsp_inner st) (res_client_id ?b) (res_runner_instance_id ?b))))"
  show ?thesis
  proof (cases ?v)
    case (Inl e)
    then show ?thesis unfolding complete_checked_def Let_def Inl by simp
  next
    case (Inr u)
    then have act: "assert_active_instance_locked (dsp_inner st) (res_client_id ?b) (res_runner_instance_id ?b) = Inr ()" by simp
    show ?thesis
    proof (cases "pending_request ?st (res_request_id ?b)")
      case None
      then show ?thesis using st unfolding complete_checked_def Let_def Inr by simp
    next
      case (Some pq)
      obtain p q where pq: "pq = (p, q)" by (cases pq)
      show ?thesis
      proof (cases "pend_client_id p = res_client_id ?b \<and> unexpected_response q payload = Inr ()")
        case False
        then show ?thesis using st Some pq unfolding complete_checked_def Let_def Inr
          by (cases "unexpected_response q payload") auto
      next
        case True
        obtain st' sent where t: "take_result ser pser terminal_now p q payload ?st = Some (st', sent)"
          "\<forall>x. pending_request st' x = (if x = res_request_id ?b then None else pending_request ?st x)"
          "length sent \<le> 1" "fst ` set sent \<subseteq> {res_request_id ?b}"
          using take_result_total [of ser pser terminal_now p q payload ?st] by blast
        have "complete_checked ser pser now terminal_now payload c st = Some (Inr (), st', sent)"
          unfolding complete_checked_def Let_def Inr using Some pq True t(1) by simp
        moreover have "pending_request st' = (pending_request st)(res_request_id ?b := None)"
          using t(2) by (auto simp: fun_eq_iff pending_liveness)
        ultimately show ?thesis using act True Some pq t(3,4) by (simp add: pending_liveness)
      qed
    qed
  qed
qed

text \<open>C40: A late result rewrites a Job that has ended. When the pending request of a result belongs to a Job, the lifecycle of the
  Job is set to completed or failed from the result, whatever it was: a Job that was already reported as lost, or
  that had ended in any other way, changes its outcome.\<close>

theorem late_result_rewrites_ended_job:
  assumes "complete_checked ser pser now terminal_now payload c st = Some (Inr (), st', sent)"
    "pending_request st (res_request_id (pay_result payload)) = Some (p, q)" "request_channel (rq_operation q) = ShellChannel"
    "pend_job_id p = Some jid" "reg_jobs_by_id (dsp_inner st) jid = Some j"
  shows "\<exists>j'. reg_jobs_by_id (dsp_inner st') jid = Some j' \<and> job_ended_at j' = Some terminal_now
    \<and> job_lifecycle j' = (if ordinary_success payload then Completed else Failed)"
proof -
  let ?b = "pay_result payload"
  let ?st = "refresh_liveness now (res_client_id ?b) c st"
  let ?rid = "res_request_id ?b"
  have p: "pending_request ?st ?rid = Some (p, q)" using assms(2) by (simp add: pending_liveness)
  have j: "reg_jobs_by_id (dsp_inner ?st) jid = Some j"
    using liveness_cases [of now "res_client_id ?b" c st] assms(5) by (auto simp: request_effects)
  have "take_result ser pser terminal_now p q payload ?st = Some (st', sent)"
    using assms(1) p unfolding complete_checked_def Let_def by (auto split: sum.splits if_splits)
  then have f: "finish_ordinary terminal_now p q payload (remove_pending ?rid ?st) = Some (st', sent)"
    using assms(3) by (cases "rq_operation q") (simp_all add: take_result_def Let_def request_channel_def)
  obtain r where r: "ordinary_response p q payload = Some r" using ordinary_response_total by blast
  from f have fin: "finish_result_job terminal_now (ordinary_success payload) ?b jid (dsp_inner (remove_pending ?rid ?st)) = Some (dsp_inner st')"
    unfolding finish_ordinary_def r option.case assms(4) by auto
  obtain jc where jc: "finished_job terminal_now (ordinary_success payload) ?b j (reg_receipt_candidates (dsp_inner (remove_pending ?rid ?st))) = Some jc"
    using finished_job_total by blast
  have "dsp_inner st' = put_job (forget_request ?rid (dsp_inner (remove_pending ?rid ?st))) jid jc"
    using fin j jc by (auto simp: finish_result_job_def Let_def forget_request_def remove_pending_def take_pending_request_locked_def)
  moreover have "job_ended_at (fst jc) = Some terminal_now"
    using jc by (auto simp: finished_job_def Let_def notify_job_update_def observe_job_terminal_def split: option.splits)
  ultimately show ?thesis using finished_lifecycle [OF jc] by (simp add: put_job_def)
qed

section \<open>The drain of a disconnected Runner\<close>

fun tells_dispatch :: "bool \<Rightarrow> reply \<Rightarrow> bool" where
  "tells_dispatch b (ShellReply r) \<longleftrightarrow> \<not> srr_success r \<and> srr_request_dispatched r = Some b"
| "tells_dispatch b (McpReply r) \<longleftrightarrow> mres_dispatch_state r = (if b then McpOutcomeUnknown else McpNotStarted)"
| "tells_dispatch b (PluginReply r) \<longleftrightarrow> pres_dispatch_state r = (if b then PluginOutcomeUnknown else PluginNotStarted)"
| "tells_dispatch b (CodingReply r) \<longleftrightarrow> cres_dispatch_state r = (if b then DispatchOutcomeUnknown else DispatchNotStarted)"
| "tells_dispatch b (PersistentReply r) \<longleftrightarrow> False"

lemma drained_replies_tell:
  "waits st rid q ch \<Longrightarrow> \<exists>reply. (rid, reply) \<in> set (drained_replies k e rid q st) \<and> reply_channel reply = Some ch
     \<and> tells_dispatch (rq_dispatched q) reply"
proof -
  assume "waits st rid q ch"
  then have "Some ch \<in> set (map (reply_channel \<circ> snd) (drained_replies k e rid q st))"
    by (cases ch) (simp_all add: waits_def drained_replies_def when_waiting_def)
  moreover have "list_all (\<lambda>(x, reply). x = rid \<and> tells_dispatch (rq_dispatched q) reply) (drained_replies k e rid q st)"
    by (simp add: drained_replies_def when_waiting_def drained_response_def refusal_response_def mcp_error_def plugin_error_def response_error_def)
  ultimately show ?thesis by (fastforce simp: list_all_iff)
qed

definition drain_step :: "rstr \<Rightarrow> rstr \<Rightarrow> RunnerRegistryInner \<Rightarrow> RunnerRegistryInner" where
  "drain_step k rid i = (remove_from_queue k rid (take_pending_request_locked rid i))\<lparr>reg_persistent_waiters := reg_persistent_waiters i - {rid}\<rparr>"

lemma resolve_steps:
  "resolve_disconnected_sync_requests_locked env k inner = fold (drain_step k)
     (filter (\<lambda>rid. opt_ex (\<lambda>p. pend_job_id p = None \<and> pend_client_id p = k) (reg_pending_by_id inner rid))
        (env_pending_order env (reg_pending_by_id inner))) inner"
  by (simp add: resolve_disconnected_sync_requests_locked_def drain_step_def [abs_def])

lemma drain_one:
  assumes "pending_request st rid = Some (p, q)" "drain_request k e rid (st, sent) = (st', sent')"
  shows "dsp_inner st' = drain_step k rid (dsp_inner st)" "sent' = sent @ drained_replies k e rid q st"
    "x \<noteq> rid \<Longrightarrow> pending_request st' x = pending_request st x" "x \<noteq> rid \<Longrightarrow> waits st' x qx ch = waits st x qx ch"
proof -
  have st': "st' = forget_waiters rid (on_inner (remove_from_queue k rid) (remove_pending rid st))" "sent' = sent @ drained_replies k e rid q st"
    using assms by (simp_all add: drain_request_def)
  show "dsp_inner st' = drain_step k rid (dsp_inner st)"
    by (simp add: st'(1) forget_waiters_def drop_persistent_waiter_def drop_mcp_waiter_def drop_plugin_waiter_def drop_coding_waiter_def
      remove_pending_def drain_step_def remove_from_queue_def take_pending_request_locked_def)
  show "sent' = sent @ drained_replies k e rid q st" by (rule st'(2))
  have "pending_request (on_inner (remove_from_queue k rid) s) x = pending_request s x" for s
    by (simp add: pending_request_def remove_from_queue_def)
  then show "pending_request st' x = pending_request st x" if "x \<noteq> rid"
    using that by (simp add: st'(1) forget_waiters_def request_effects pending_removed)
  show "waits st' x qx ch = waits st x qx ch" if "x \<noteq> rid"
    using that by (cases ch) (simp_all add: st'(1) waits_def forget_waiters_def drop_persistent_waiter_def drop_mcp_waiter_def
      drop_plugin_waiter_def drop_coding_waiter_def remove_pending_def)
qed

lemma drain_fold:
  assumes "distinct rids" "\<And>rid. rid \<in> set rids \<Longrightarrow> pending_request st rid \<noteq> None"
    "fold (drain_request k e) rids (st, sent) = (st', sent')"
  shows "dsp_inner st' = fold (drain_step k) rids (dsp_inner st) \<and> set sent \<subseteq> set sent'
    \<and> (\<forall>rid \<in> set rids. \<forall>p q ch. pending_request st rid = Some (p, q) \<and> waits st rid q ch \<longrightarrow>
         (\<exists>reply. (rid, reply) \<in> set sent' \<and> reply_channel reply = Some ch \<and> tells_dispatch (rq_dispatched q) reply))"
  using assms
proof (induction rids arbitrary: st sent)
  case (Cons rid rids)
  obtain p q where pq: "pending_request st rid = Some (p, q)" using Cons.prems(2) [of rid] by auto
  obtain st1 sent1 where s1: "drain_request k e rid (st, sent) = (st1, sent1)" by (cases "drain_request k e rid (st, sent)")
  note one = drain_one [OF pq s1]
  have other: "x \<noteq> rid" if "x \<in> set rids" for x using Cons.prems(1) that by auto
  have "pending_request st1 x \<noteq> None" if "x \<in> set rids" for x using Cons.prems(2) [of x] that one(3) [OF other [OF that]] by simp
  from Cons.IH [OF _ this, of sent1] Cons.prems(1,3) s1 have ih:
    "dsp_inner st' = fold (drain_step k) rids (dsp_inner st1)" "set sent1 \<subseteq> set sent'"
    "\<forall>x \<in> set rids. \<forall>p q ch. pending_request st1 x = Some (p, q) \<and> waits st1 x q ch \<longrightarrow>
         (\<exists>reply. (x, reply) \<in> set sent' \<and> reply_channel reply = Some ch \<and> tells_dispatch (rq_dispatched q) reply)"
    by simp_all
  have "\<exists>reply. (x, reply) \<in> set sent' \<and> reply_channel reply = Some ch \<and> tells_dispatch (rq_dispatched q') reply"
    if x: "x \<in> set (rid # rids)" "pending_request st x = Some (p', q')" "waits st x q' ch" for x p' q' ch
  proof (cases "x = rid")
    case True
    with x(2) pq have "q' = q" by simp
    with drained_replies_tell [of st rid q ch k e] x(3) True one(2) ih(2) show ?thesis by fastforce
  next
    case False
    with x one(3,4) [OF False] ih(3) show ?thesis by simp
  qed
  then show ?case using ih(1,2) one(1,2) by auto
qed simp


section \<open>Instances\<close>

definition plain_request :: "RunnerOperation \<Rightarrow> RequestDetails" where
  "plain_request op = \<lparr>rq_cwd = None, rq_preview = lit ''make'', rq_operation = op, rq_waiter = True, rq_expected_runner_owner = None,
     rq_expected_project_id = None, rq_expected_project_cwd = None, rq_expected_mcp_runner = None, rq_expected_mcp_provider = None,
     rq_expected_mcp_provider_instance = None, rq_expected_ssh_runner = None, rq_expected_config_runner = None,
     rq_skill_store_fence = None, rq_dispatched = False\<rparr>"

definition dispatch_state :: "RunnerRegistryInner \<Rightarrow> (rstr \<rightharpoonup> RequestDetails) \<Rightarrow> DispatchState" where
  "dispatch_state inner requests = \<lparr>dsp_registry = leased_registry\<lparr>rg_inner := inner\<rparr>, dsp_requests = requests, dsp_mcp_waiters = {},
     dsp_plugin_waiters = {}, dsp_plugin_fences = Map.empty, dsp_coding_waiters = {}, dsp_coding_fences = Map.empty\<rparr>"

lemma dispatch_fields [simp]:
  "dsp_inner (dispatch_state inner requests) = inner" "dsp_requests (dispatch_state inner requests) = requests"
  "dsp_mcp_waiters (dispatch_state inner requests) = {}" "dsp_plugin_waiters (dispatch_state inner requests) = {}"
  "dsp_coding_waiters (dispatch_state inner requests) = {}" "rg_details (dsp_registry (dispatch_state inner requests)) = rg_details leased_registry"
  by (simp_all add: dispatch_state_def)

lemma plain_waits: "waits (dispatch_state inner requests) rid (plain_request op) ch \<longleftrightarrow> ch = ShellChannel"
  by (cases ch) (simp_all add: waits_def plain_request_def)

text \<open>A request for the configuration of a process that has been replaced is refused.\<close>

definition stale_config :: RequestDetails where
  "stale_config = (plain_request Op_RunnerConfig)\<lparr>rq_expected_config_runner := Some (lit ''old'')\<rparr>"

definition config_state :: DispatchState where
  "config_state = dispatch_state (sample_registry\<lparr>reg_pending_by_id := [lit ''r1'' \<mapsto> \<lparr>pend_client_id = lit ''runner-1'', pend_job_id = None\<rparr>],
     reg_queues_by_runner := [lit ''runner-1'' \<mapsto> [lit ''r1'']]\<rparr>) [lit ''r1'' \<mapsto> stale_config]"

lemma config_pending: "pending_request config_state x =
    (if x = lit ''r1'' then Some (\<lparr>pend_client_id = lit ''runner-1'', pend_job_id = None\<rparr>, stale_config) else None)"
  by (simp add: pending_request_def config_state_def)

lemma sample_request_ids: "validate_id (lit ''runner-1'') f = Inr ()" "validate_id (lit ''req-1'') f = Inr ()" "validate_runner_instance_id (lit ''i'') = Inr ()"
  by (simp_all add: validate_id_def validate_runner_instance_id_def id_char_def MAX_CLIENT_ID_LEN_def MAX_AGENT_INSTANCE_ID_LEN_def
    is_ascii_alphanumeric_def is_ascii_digit_def str_simps)


text \<open>A Runner that cannot reconcile is quiet for too long; its running Job is reported as lost, and completes afterwards.\<close>

definition quiet_registry :: RunnerRegistryInner where
  "quiet_registry = refresh_job_status_locked 120 500 500 (sample_registry
     \<lparr>reg_runners := map_option (\<lambda>r. r\<lparr>runner_supports_reconciliation := False\<rparr>) \<circ> reg_runners sample_registry,
      reg_pending_by_id := [lit ''req-1'' \<mapsto> \<lparr>pend_client_id = lit ''runner-1'', pend_job_id = Some (lit ''job-1'')\<rparr>]\<rparr>) (lit ''job-1'')"

definition late_result :: "RunnerResultPayload" where
  "late_result = \<lparr>pay_result = \<lparr>res_client_id = lit ''runner-1'', res_runner_instance_id = lit ''i'', res_request_id = lit ''req-1'',
     res_exit_code = Some 0, res_stdout = None, res_stderr = None, res_duration_ms = None, res_error = None\<rparr>,
     pay_command_execution_state = None, pay_mcp_gateway = None, pay_plugin_gateway = None, pay_coding_agent = None\<rparr>"

lemma quiet_job: "\<exists>j. reg_jobs_by_id quiet_registry (lit ''job-1'') = Some j \<and> job_lifecycle j = Lost"
proof -
  have "fst (mark_job_lost sample_job 500 r m c) = lost_record 500 r m sample_job" for r m c by (rule mark_job_lost_fst)
  moreover have "\<not> is_terminal (job_lifecycle sample_job)" "is_runner_active (job_lifecycle sample_job)" "\<not> recovery_active sample_job"
    by (simp_all add: sample_job_def lifecycle_defs recovery_active_def recovering_def)
  ultimately show ?thesis
    using lost_lifecycle [of sample_job 500]
    by (simp add: quiet_registry_def refresh_job_status_locked_def sample_registry_def runner_is_connected_locked_def
      i64_sat_sub_def i64_sat_def i64_min_def i64_max_def RUNNER_ONLINE_WINDOW_SECS_def sample_job_def put_job_def)
qed

lemma refresh_keeps:
  "reg_runners (refresh_job_status_locked grace now now' inner jid) = reg_runners inner"
  "reg_pending_by_id (refresh_job_status_locked grace now now' inner jid) = reg_pending_by_id inner"
  by (simp_all add: refresh_job_status_locked_def put_job_def split: option.split)

lemma quiet_fields:
  "reg_pending_by_id quiet_registry = [lit ''req-1'' \<mapsto> \<lparr>pend_client_id = lit ''runner-1'', pend_job_id = Some (lit ''job-1'')\<rparr>]"
  "assert_active_instance_locked quiet_registry (lit ''runner-1'') (lit ''i'') = Inr ()"
  by (simp_all add: quiet_registry_def refresh_keeps assert_active_instance_locked_def sample_registry_def)

definition any_serializer :: McpSerializer where
  "any_serializer = \<lparr>ser_value = (\<lambda>_. Some 1), ser_result = (\<lambda>_. Some 1), ser_response = (\<lambda>_. Some 1)\<rparr>"

definition late_state :: DispatchState where
  "late_state = dispatch_state quiet_registry [lit ''req-1'' \<mapsto> plain_request Op_RunShell]"

theorem late_result_rewrites_ended_job_witness:
  "\<exists>j st' sent j'. reg_jobs_by_id (dsp_inner late_state) (lit ''job-1'') = Some j \<and> job_lifecycle j = Lost
     \<and> complete_checked any_serializer sample_ser 501 501 late_result None late_state = Some (Inr (), st', sent)
     \<and> reg_jobs_by_id (dsp_inner st') (lit ''job-1'') = Some j' \<and> job_lifecycle j' = Completed"
proof -
  obtain j where j: "reg_jobs_by_id (dsp_inner late_state) (lit ''job-1'') = Some j" "job_lifecycle j = Lost"
    using quiet_job by (auto simp: late_state_def)
  let ?p = "\<lparr>pend_client_id = lit ''runner-1'', pend_job_id = Some (lit ''job-1'')\<rparr>" and ?q = "plain_request Op_RunShell"
  have b: "res_client_id (pay_result late_result) = lit ''runner-1''" "res_request_id (pay_result late_result) = lit ''req-1''"
    "res_runner_instance_id (pay_result late_result) = lit ''i''" "ordinary_success late_result"
    by (simp_all add: late_result_def ordinary_success_def)
  have pend: "pending_request late_state (lit ''req-1'') = Some (?p, ?q)" by (simp add: pending_request_def late_state_def quiet_fields)
  have "unexpected_response ?q late_result = Inr ()" by (simp add: unexpected_response_def late_result_def)
  moreover obtain st' sent where "take_result any_serializer sample_ser 501 ?p ?q late_result
      (refresh_liveness 501 (lit ''runner-1'') None late_state) = Some (st', sent)"
    using take_result_total [of any_serializer sample_ser 501 ?p ?q late_result] by blast
  ultimately have c: "complete_checked any_serializer sample_ser 501 501 late_result None late_state = Some (Inr (), st', sent)"
    using pend quiet_fields(2) by (simp add: complete_checked_def and_then_def b sample_request_ids Let_def pending_liveness late_state_def)
  have "request_channel (rq_operation ?q) = ShellChannel" by (simp add: plain_request_def request_channel_def)
  from late_result_rewrites_ended_job [OF c, unfolded b, OF pend this _ j(1)] b(4) j c show ?thesis by auto
qed

text \<open>A command that had been handed out when the Runner went away.\<close>

definition waiting_state :: DispatchState where
  "waiting_state = dispatch_state (sample_registry\<lparr>reg_pending_by_id := [lit ''r1'' \<mapsto> \<lparr>pend_client_id = lit ''runner-1'', pend_job_id = None\<rparr>]\<rparr>)
     [lit ''r1'' \<mapsto> (plain_request Op_RunShell)\<lparr>rq_dispatched := True\<rparr>]"


end
