(* ===== verification/Spec2Isabelle.thy ===== *)
theory Spec2Isabelle
  imports Sensitive_Paths Text_Edits Patch_Parse Patch_Apply Job_Observation Job_Logs Job_Lifecycle
    Project_Listing File_Range Project_Inventory Audit_Previews Validation_Steps Shell_Quoting Registry_Validation
    Job_Reconciliation Access_Control Job_Views Job_Updates Job_Runs
    Job_Receipts Validation_Evidence Authority
    Runner_Features Coding_Agent Coding_Agent_Server Mcp_Gateway Plugin_Gateway Runner_Registration Runner_Leases Runner_Dispatch Request_Delivery
begin

text \<open>
  A verification library for WebCodex, a server that lets a model work on projects through Runners.
  Paths below are relative to the root of the repository.

  \<^bold>\<open>The program.\<close> The server (\<open>src/\<close>) accepts tool calls over HTTP and MCP and turns them into requests to
  Runner processes. What both sides must agree on lives in \<open>crates/webcodex-core\<close>: text edits and patches, path
  policy, project listings, the Job vocabulary, observation tokens and the wire types.
  \<open>crates/webcodex-runner-registry\<close> keeps the server's view of the Runners in memory: it admits requests, keeps the Jobs
  and their logs, merges what a Runner reports when it registers, expires what is not heard of again, and
  decides who may see what. \<open>crates/webcodex-workspace\<close> reads files, and \<open>crates/webcodex-store\<close> keeps the receipts of ended Jobs
  for a restart. The library models the logic of the first three crates that is decided in memory, and the table of receipts;
  network, processes, the other tables and JSON texts stay outside.

  \<^bold>\<open>Theories and sources.\<close>
  \<^item> \<open>Rust_Prelude\<close>: strings as lists of Unicode scalar values with the byte lengths and offsets of UTF-8, the methods
    of \<open>str\<close> that the sources call (\<open>lines\<close>, \<open>split\<close>, \<open>trim\<close>, slicing with its panic), saturating and checked
    arithmetic, and the interfaces shared by the components as locales: \<open>codec\<close> (an encoder with its decoder),
    \<open>invariant_machine\<close> and \<open>monotone_machine\<close> (a step function with an invariant and a measure that does not fall),
    \<open>bounded_sweep\<close> (a pass that treats at most a given number of pending entries).
  \<^item> \<open>Sensitive_Paths\<close>: \<open>sensitive_paths.rs\<close>. \<open>Text_Edits\<close>: \<open>apply_edits_shared.rs\<close>. \<open>Patch_Parse\<close> and
    \<open>Patch_Apply\<close>: \<open>apply_patch_shared.rs\<close>, the language and the derivation of the new file. \<open>Project_Listing\<close>:
    \<open>project_listing.rs\<close>. \<open>Job_Observation\<close>: \<open>job_observation.rs\<close>. \<open>Audit_Previews\<close>: \<open>audit_preview.rs\<close> and
    \<open>sensitive_text.rs\<close>. \<open>Validation_Steps\<close>: the validation and execution metadata of \<open>runner_protocol.rs\<close>. All of
    these are in \<open>crates/webcodex-core/src\<close>.
  \<^item> \<open>Shell_Quoting\<close>: the four POSIX quoters and the PowerShell quoter of the core crate, the command line, the Runner
    and its SSH transport, with the wrapper that the server puts around an explicit shell.
  \<^item> \<open>File_Range\<close>: \<open>crates/webcodex-workspace/src/file_read_range.rs\<close>.
  \<^item> \<open>Job_Logs\<close> and \<open>Job_Lifecycle\<close>: \<open>jobs.rs\<close> and \<open>state.rs\<close> of the registry with the vocabulary of
    \<open>runner_job_lifecycle.rs\<close>. \<open>Registry_Validation\<close>: \<open>validation.rs\<close> and the request checks of
    \<open>runner_protocol.rs\<close>. \<open>Project_Inventory\<close>: \<open>project_inventory.rs\<close>. \<open>Job_Reconciliation\<close>: \<open>reconciliation.rs\<close>.
    \<open>Access_Control\<close>: \<open>access_control.rs\<close>.
  \<^item> \<open>Job_Views\<close>: the public view of a Job (\<open>job_view\<close> of \<open>jobs.rs\<close>) and the reading half of \<open>job_updates.rs\<close>: lookups, lists, counts,
    log projections and the bounded wait for a change. \<open>Job_Updates\<close>: the writing half of \<open>job_updates.rs\<close> (updates of Runners,
    stops, hidden Jobs, admission, unregistering) with the queues of \<open>requests.rs\<close> and, from \<open>runners.rs\<close>, disconnects
    and the expiry of Runners; it also has \<open>recovery_timeout_sweep\<close>, which composes the sweeps. \<open>Job_Runs\<close>: the registry as
    a state machine \<open>server_step\<close> whose steps are these operations, and the locale \<open>job_law\<close> of record invariants.
  \<^item> \<open>Job_Receipts\<close>: the receipts of ended Jobs from their capture (\<open>receipts.rs\<close> of the registry) through their contract
    (\<open>runner_job_receipt.rs\<close>) and table (\<open>job_receipts.rs\<close> of the store) to the start of the next server. What the registry asks of
    a store is the locale \<open>receipt_store\<close>, interpreted on the table.
  \<^item> \<open>Runner_Features\<close>: \<open>capabilities.rs\<close> of the registry with the capabilities of \<open>runner_protocol.rs\<close>.
    \<open>Coding_Agent\<close>: \<open>coding_agent.rs\<close> of the core crate, the contract of coding-agent runs. \<open>Coding_Agent_Server\<close>: the run
    bindings that the server keeps (\<open>src/tool_runtime/coding_agent.rs\<close>). \<open>Mcp_Gateway\<close> and \<open>Plugin_Gateway\<close>: \<open>mcp_gateway.rs\<close> and \<open>plugin.rs\<close> of the core crate, the contracts of
    bridged and of native tools.
  \<^item> \<open>Runner_Registration\<close>: the registration of Runners, their keepalives, runtime metadata and views (\<open>runners.rs\<close> and
    \<open>protocol.rs\<close> of the registry); \<open>Runner_Leases\<close>: what a registration does to the registry, and the state machine
    \<open>lease_step\<close> of all operations on leases. \<open>Runner_Dispatch\<close>: polls, results, cancellations and the drain
    (\<open>polling.rs\<close> and \<open>requests.rs\<close>); \<open>Request_Delivery\<close>: what the callers of requests can rely on. A Runner and a pending request
    are each kept in two parts under one key, the fields that Jobs need and the rest; the lemmas on leases show that the parts
    of a Runner exist together.
  \<^item> \<open>Validation_Evidence\<close>: \<open>validation_evidence.rs\<close>. \<open>Authority\<close>: \<open>authority.rs\<close> and \<open>artifact_policy.rs\<close>. These are in the core crate.

  \<^bold>\<open>State and operations.\<close> A struct is a record, an enum a datatype, and definitions keep the names of the source; a
  record field has a prefix for its struct. A part of a long function that is a definition of its own says so in its
  name or in the text before it. The registry under its lock is the record \<open>RunnerRegistryInner\<close> and every
  \<open>_locked\<close> function maps it to a new one. \<open>Result\<close> is a sum with the error text on the left, so that the order of
  the checks is part of the model. A panic is \<open>None\<close>. Sizes are natural numbers with saturation written
  out at the width of the source, times are integers that saturate at 64 bits, and the numbers inside
  observation tokens are 64-bit words. Each reading of the clock is an argument of its own, because two readings of one call
  may differ; so is the fresh id of a stop request. A call that waits is a function of the registry states it finds when it wakes
  up, so that everything that happens in between is covered.

  \<^bold>\<open>What the theorems show.\<close>
  \<^item> Patches: a printed patch parses back; a parsed patch is well formed; the new text is the old one with all chunks
    replaced at once; no replacement is out of range; line endings are kept from the parser to the written
    file (the theorem of this theory). Text edits: the resolved match is the only one in its fence.
  \<^item> Files and listings: the reader returns exactly the lines of the range, whatever the chunks; the glob loop ends and
    decides the match relation; the rollup loses no file; no protected path is listed.
  \<^item> Jobs: a token decodes to what was encoded and nothing else; successive deltas join without gap or overlap; the
    log is a suffix of the stream and bounded; a Job that ended does not change again; a Job whose Runner stays
    away ends. A client that reads a log with the tokens it got sees every line once, and every log request is answered; lists
    and counts of Jobs agree.
  \<^item> Updates: late and repeated updates change nothing; an update moves its Job forward and touches no other; a stop is sent once
    and a queued Job that is stopped can no longer be picked up; a disconnect leaves no request and no running Job behind. Over all
    interleavings of the operations of the registry, a Job has an end exactly when it has ended, a completed validation has
    completed every step of its plan, and all numbers stay within the machine types of the source.
  \<^item> Leases: a registration happens as a whole or not at all; a process that takes over inherits no synchronous request, and the
    Jobs of the process it replaces are lost unless they are handed over; the limits on shared keys hold in every run; a
    replaced process is kept out until sixteen others were replaced after it.
  \<^item> Requests: a poll hands out the first request whose fences hold and answers every one it refuses; a result is taken at
    most once; the drain of a Runner answers each of its callers and does to the registry what the drain of the Job machinery
    does. A late result can still rewrite a Job that had ended.
  \<^item> Coding-agent runs: observers only move forward and converge whatever the order of delivery; the server never forgets a run
    that may still be executing, and records each kind of evidence once. Contracts: the walk over a JSON value of the MCP gateway
    decides its bounds; the arguments and structured results of a Plugin tool are admitted exactly when they satisfy every keyword of
    their schema; the diagnosis of a tool list agrees with its validation; the identity of a catalog depends on no order; the
    feature names of both sides are one vocabulary.
  \<^item> Reconciliation: an accepted inventory leaves no Job behind its former progress, apart from one kind of detached
    transfer; after it the registry and the Runner agree on every Job of the Runner; both sweeps finish their work
    in a known number of passes, in whatever order a hash map is iterated.
  \<^item> Inventories: a list of projects is published only when complete, a transfer in order is published, late pages
    change nothing, and staging is bounded in every run.
  \<^item> Receipts: a Job whose receipt is stored is shown again after a restart with the same outcome and logs, to the same callers and
    only until the receipt expires; the table is bounded and no write replaces a receipt; a restart brings back history and no
    authority.
  \<^item> Evidence: reports of Cargo runs carry only bounded texts without control characters and secrets; diagnostics are counted once;
    a failed Go test is never masked by another event.
  \<^item> Boundaries: validation metadata describes one command of a closed grammar; file requests are accepted exactly by
    a table of operations; quoted words read back; previews are bounded, stable and free of the secret vocabulary;
    access partitions the Jobs.

  \<^bold>\<open>Totality, bounds and parameters.\<close> There is no fuel. Loops are structural or have a termination proof; the
  glob loop, whose backtracking has no structural measure, is a \<open>partial_function\<close> proved to return on all inputs.
  Parameters stand for what the repository does not contain: the Unicode tables of \<open>to_lowercase\<close> and
  \<open>is_alphanumeric\<close>, serialised JSON and its sizes, SHA-256, the file system of the reader, and the iteration order of hash
  maps (\<open>ReconcileEnv\<close>), of which only is assumed that every key comes once.

  \<^bold>\<open>Not modelled.\<close> Network adapters, authentication and OAuth, the SQL stores but for the receipts, process control, SSH and transports, the
  command line, the desktop application and the frontend are input and output around libraries. Of the registry, the
  checks before a Job is admitted and the entry points that build requests are not modelled, of the operations
  of a Runner only the kinds that dispatch looks at and not their wire form, and of the coding-agent tools of the server only the bindings. The workflow sessions, the
  parsers of validation output and the other tools of the server are left for later. Of the request that is sent to a
  Runner the operation, the working directory and the preview are kept. Wake-ups of notifiers and telemetry
  change no state and are left out.
\<close>

section \<open>Patches end to end\<close>

text \<open>C3: A file keeps its line endings through a patch: when the text of a patch is parsed and one of
  its updates is applied to a file, the new content has again a uniform line ending, the one of
  the old file if that was CRLF and line feeds otherwise, unless no line is left. No patch makes a
  file that a later edit refuses for mixed or bare carriage returns.\<close>

theorem patched_files_keep_line_endings:
  assumes "parse_codex_patch patch = Inr hunks" "UpdateFile path mv chunks \<in> set hunks"
    "derive_codex_patch_update_with_matching_mode original path chunks matching_mode = Some (Inr u)"
  shows "\<exists>le. detect_apply_text_line_ending original = Inr le
    \<and> detect_apply_text_line_ending (upd_content u)
       = Inr (if upd_content u = [] then NoEnding else if le = Crlf then Crlf else Lf)"
proof -
  from parse_codex_patch_wf [OF assms(1)] assms(2) have ok: "list_all chunk_ok chunks"
    by (auto simp: wf_patch_def wf_chunk_def list_all_iff)
  from derive_cases [OF assms(3)] obtain le c rs ms where d:
    "detect_apply_text_line_ending original = Inr le" "CR \<notin> set c"
    "derive_chunks path (source_lines c) matching_mode 0 chunks 0 = Inr (rs, ms)"
    "u = \<lparr>upd_content = restore_apply_text_line_endings
         (join [LF] (replace_ranges 0 (source_lines c) (sort_key fst rs) @ [[]])) le, upd_chunk_matches = ms\<rparr>" .
  let ?ls = "replace_ranges 0 (source_lines c) (sort_key fst rs)"
  have lines: "list_all line_ok ?ls" by (rule derived_lines_ok [OF d(3) ok source_lines_ok [OF d(2)]])
  have "upd_content u = [] \<longleftrightarrow> ?ls = []"
    by (cases le; cases "?ls = []") (auto simp: d(4) restore_apply_text_line_endings_def join_snoc replace_lf_eq_Nil)
  with detect_joined [OF lines, of le] d show ?thesis by auto
qed

lemma sample_patch_parses:
  "parse_codex_patch (render_patch [UpdateFile (lit ''f'') None [sample_chunk]])
     = Inr [UpdateFile (lit ''f'') None [sample_chunk]]"
proof (rule parse_render_patch)
  have "name_ok (lit ''f'')" by (simp add: name_ok_def line_ok_def str_simps)
  then show "wf_patch [UpdateFile (lit ''f'') None [sample_chunk]]"
    by (simp add: wf_patch_def wf_chunk_def chunk_ok_def line_ok_def sample_chunk_def lit_def
        MAX_CODEX_PATCH_FILE_CHANGES_def MAX_CODEX_PATCH_CHUNKS_PER_FILE_def)
  show "str_len (render_patch [UpdateFile (lit ''f'') None [sample_chunk]]) \<le> MAX_CODEX_PATCH_BYTES"
    by (simp add: render_patch_def render_chunk_def sample_chunk_def markers lit_def utf8_width_def
        MAX_CODEX_PATCH_BYTES_def)
qed

theorem patched_files_keep_line_endings_witness:
  "\<exists>u. derive_codex_patch_update_with_matching_mode (lit ''a'' @ CR # LF # lit ''b'' @ [CR, LF]) (lit ''f'')
      [sample_chunk] FirstMatch = Some (Inr u) \<and> detect_apply_text_line_ending (upd_content u) = Inr Crlf"
proof -
  let ?old = "lit ''a'' @ CR # LF # lit ''b'' @ [CR, LF]"
  have le: "detect_apply_text_line_ending ?old = Inr Crlf"
    by (simp add: detect_apply_text_line_ending_def lit_def)
  obtain u where u: "derive_codex_patch_update_with_matching_mode ?old (lit ''f'') [sample_chunk] FirstMatch
      = Some (Inr u)" "upd_content u \<noteq> []"
    using sample_chunk_derived [of FirstMatch "lit ''f''" 0]
    by (simp add: derive_codex_patch_update_with_matching_mode_def detect_apply_text_line_ending_def
        canonicalize_apply_text_line_endings_def source_lines_def splice_all_def splice_def lit_def
        restore_apply_text_line_endings_def)
  show ?thesis
    using patched_files_keep_line_endings [OF sample_patch_parses _ u(1)] u le by auto
qed

end
